(* ===== verification/Prelude.thy ===== *)
theory Prelude
  imports
    Main
    "HOL-Library.Word"
    "HOL-Library.Finite_Map"
    "HOL-Library.Multiset"
    "HOL-Library.Monad_Syntax"
    "HOL-Library.List_Lexorder"
    "HOL-Library.Char_ord"
begin

text \<open>
  Prelude of the development: what the Go programs of the repository use of the language,
  with the generic lemmas the component theories share.

  \<^item> Machine integers: \<open>u64\<close> and \<open>i64\<close> are 64-bit words (Go's uint64 and int64); \<open>+\<close> wraps.
  \<^item> Run-time panics: a computation that can panic has a result of type \<open>'a go\<close>, which is
    \<open>'a option\<close> with \<open>None\<close> for the panic (nil dereference, assignment into a nil map,
    comparison of uncomparable interface values).
  \<^item> Maps: a Go map is a \<open>('k, 'v) gomap\<close>, \<open>None\<close> for the nil map. Reading a nil map is
    reading an empty one, writing to it panics. Iteration order is not specified by the
    language, so a loop over a map is a fold over a list of its keys, and the lemma
    \<open>fold_key_order\<close> is what shows that the order does not matter.
  \<^item> Decimal numerals, as the fmt and strconv packages print and read them.
\<close>

section \<open>Types and collections of simplification rules\<close>

type_synonym u64 = "64 word"
type_synonym i64 = "64 word"
type_synonym 'a go = "'a option"
type_synonym ('k, 'v) gomap = "('k, 'v) fmap option"

text \<open>
  \<open>go_map\<close> collects the rules that evaluate map operations, \<open>model_defs\<close> the definitions
  of small operations that proofs unfold as a matter of course.
\<close>

named_theorems go_map
named_theorems model_defs

section \<open>Go maps\<close>

definition gm_fmap :: "('k, 'v) gomap \<Rightarrow> ('k, 'v) fmap" where
  "gm_fmap m = (case m of None \<Rightarrow> fmempty | Some f \<Rightarrow> f)"

definition gm_lookup :: "('k, 'v) gomap \<Rightarrow> 'k \<Rightarrow> 'v option" where
  "gm_lookup m k = fmlookup (gm_fmap m) k"

definition gm_len :: "('k, 'v) gomap \<Rightarrow> nat" where
  "gm_len m = fcard (fmdom (gm_fmap m))"

definition gm_put :: "('k, 'v) gomap \<Rightarrow> 'k \<Rightarrow> 'v \<Rightarrow> ('k, 'v) gomap go" where
  "gm_put m k v = (case m of None \<Rightarrow> None | Some f \<Rightarrow> Some (Some (fmupd k v f)))"

text \<open>The key list of a map with ordered keys, ascending: one of the orders a range loop may take.\<close>

definition fm_keys :: "('k :: linorder, 'v) fmap \<Rightarrow> 'k list" where
  "fm_keys f = sorted_list_of_fset (fmdom f)"

definition gm_keys :: "('k :: linorder, 'v) gomap \<Rightarrow> 'k list" where
  "gm_keys m = fm_keys (gm_fmap m)"

text \<open>A list enumerates the keys of a map when it holds each of them once.\<close>

definition enumerates :: "'k list \<Rightarrow> ('k, 'v) gomap \<Rightarrow> bool" where
  "enumerates ks m \<longleftrightarrow> distinct ks \<and> set ks = fmdom' (gm_fmap m)"

lemma gm_fmap_simps [simp, go_map]: "gm_fmap None = fmempty" "gm_fmap (Some f) = f"
  by (simp_all add: gm_fmap_def)

lemma gm_lookup_simps [simp, go_map]:
  "gm_lookup None k = None" "gm_lookup (Some f) k = fmlookup f k"
  by (simp_all add: gm_lookup_def)

lemma gm_len_simps [simp, go_map]: "gm_len None = 0" "gm_len (Some f) = fcard (fmdom f)"
  by (simp_all add: gm_len_def)

lemma gm_put_simps [simp, go_map]:
  "gm_put None k v = None" "gm_put (Some f) k v = Some (Some (fmupd k v f))"
  by (simp_all add: gm_put_def)

lemma set_fm_keys [simp]: "set (fm_keys f) = fmdom' f"
  by (simp add: fm_keys_def fmdom'_alt_def)

lemma distinct_fm_keys [simp]: "distinct (fm_keys f)"
  by (simp add: fm_keys_def sorted_list_of_fset.rep_eq)

lemma enumerates_gm_keys [simp, intro]: "enumerates (gm_keys m) m"
  by (simp add: enumerates_def gm_keys_def)

lemma gm_keys_nil [simp]: "gm_keys None = []"
  by (simp add: gm_keys_def fm_keys_def sorted_list_of_fset.rep_eq)

lemma fmlookup_None_iff: "fmlookup f k = None \<longleftrightarrow> k |\<notin>| fmdom f"
  by (auto simp: fmlookup_dom_iff)

lemma fcard_fmdom_upd:
  "fcard (fmdom (fmupd k v f)) = (if k |\<in>| fmdom f then fcard (fmdom f) else Suc (fcard (fmdom f)))"
  by (simp add: fcard_finsert_if)

declare fcard_fempty [simp]

lemma fmdom_empty_iff [simp]: "fmdom f = {||} \<longleftrightarrow> f = fmempty"
  by (metis fmdom_empty fmrestrict_fset_dom fmrestrict_fset_null)

lemma fcard_fmdom_zero_iff [simp]: "fcard (fmdom f) = 0 \<longleftrightarrow> f = fmempty"
  by simp

section \<open>Loops over maps\<close>

text \<open>Commuting steps give the same result whatever order the keys come in.\<close>

lemma fold_key_order:
  assumes "distinct xs" and "distinct ys" and "set xs = set ys"
    and "\<And>x y. x \<in> set xs \<Longrightarrow> y \<in> set xs \<Longrightarrow> f x \<circ> f y = f y \<circ> f x"
  shows "fold f xs = fold f ys"
proof (rule fold_multiset_equiv)
  show "mset xs = mset ys"
    using assms(1-3) by (metis set_eq_iff_mset_eq_distinct)
qed (rule assms(4))

section \<open>Decimal numerals\<close>

definition digit_char :: "nat \<Rightarrow> char" where
  "digit_char d = char_of (48 + d)"

definition char_digit :: "char \<Rightarrow> nat" where
  "char_digit c = of_char c - 48"

definition is_digit :: "char \<Rightarrow> bool" where
  "is_digit c \<longleftrightarrow> 48 \<le> (of_char c :: nat) \<and> (of_char c :: nat) \<le> 57"

fun nat_dec :: "nat \<Rightarrow> string" where
  "nat_dec n = (if n < 10 then [digit_char n] else nat_dec (n div 10) @ [digit_char (n mod 10)])"

declare nat_dec.simps [simp del]

definition dec_val :: "string \<Rightarrow> nat" where
  "dec_val s = foldl (\<lambda>a c. 10 * a + char_digit c) 0 s"

definition u64_dec :: "u64 \<Rightarrow> string" where
  "u64_dec w = nat_dec (unat w)"

text \<open>A signed 64-bit value is printed with a leading minus when negative.\<close>

definition i64_dec :: "i64 \<Rightarrow> string" where
  "i64_dec w = (if sint w < 0 then CHR ''-'' # nat_dec (nat (- sint w)) else nat_dec (nat (sint w)))"

lemma of_char_digit_char [simp]: "d < 10 \<Longrightarrow> (of_char (digit_char d) :: nat) = 48 + d"
  by (simp add: digit_char_def)

lemma char_digit_digit_char [simp]: "d < 10 \<Longrightarrow> char_digit (digit_char d) = d"
  by (simp add: char_digit_def)

lemma is_digit_digit_char [simp]: "d < 10 \<Longrightarrow> is_digit (digit_char d)"
  by (simp add: is_digit_def)

lemma nat_dec_nonempty [simp]: "nat_dec n \<noteq> []"
  by (subst nat_dec.simps) simp

lemma nat_dec_digits: "c \<in> set (nat_dec n) \<Longrightarrow> is_digit c"
proof (induction n rule: nat_dec.induct)
  case (1 n)
  then show ?case
    by (cases "n < 10") (auto simp: nat_dec.simps [of n])
qed

lemma dec_val_nat_dec [simp]: "dec_val (nat_dec n) = n"
proof (induction n rule: nat_dec.induct)
  case (1 n)
  then show ?case
    by (cases "n < 10") (auto simp: nat_dec.simps [of n] dec_val_def)
qed

lemma nat_dec_inject [simp]: "nat_dec a = nat_dec b \<longleftrightarrow> a = b"
  by (metis dec_val_nat_dec)

lemma u64_dec_inject [simp]: "u64_dec a = u64_dec b \<longleftrightarrow> a = b"
  by (simp add: u64_dec_def word_unat_eq_iff)

section \<open>Words\<close>

lemma unat_inc_no_wrap: "(w :: u64) \<noteq> - 1 \<Longrightarrow> unat (w + 1) = Suc (unat w)"
  using unsigned_less [of w, where ?'a = nat]
  by (simp add: unat_plus_if' word_unat_eq_iff unsigned_minus_1_eq_mask mask_eq_exp_minus_1)

lemma unat_of_nat64: "n < 2 ^ 64 \<Longrightarrow> unat (of_nat n :: u64) = n"
  by (simp add: unat_of_nat)

lemma unat_le_max: "unat (w :: u64) \<le> 2 ^ 64 - 1"
  using unsigned_less [of w, where ?'a = nat] by simp

section \<open>Lists and sets\<close>

lemma Max_insert_max:
  "finite S \<Longrightarrow> Max (insert (max a b) S) = Max (insert a (insert b (S :: 'a :: linorder set)))"
  by (cases "S = {}") (simp_all add: max.assoc)

lemma fset_of_list_cong: "set xs = set ys \<Longrightarrow> fset_of_list xs = fset_of_list ys"
  by (simp add: fset_eq_iff fset_of_list_elem)

lemma filter_append_last:
  "filter P (xs @ [x]) = filter P xs @ (if P x then [x] else [])"
  by simp

lemma foldl_inv:
  assumes "I a" and "\<And>a x. I a \<Longrightarrow> x \<in> set xs \<Longrightarrow> I (f a x)"
  shows "I (foldl f a xs)"
  using assms by (induction xs arbitrary: a) auto

section \<open>Signed arithmetic\<close>

text \<open>Division of signed integers truncates toward zero.\<close>

definition i64_quot :: "i64 \<Rightarrow> i64 \<Rightarrow> i64" where
  "i64_quot a b = of_int (sgn (sint a) * sgn (sint b) * (\<bar>sint a\<bar> div \<bar>sint b\<bar>))"

lemma sint_of_int_i64: "- (2 ^ 63) \<le> x \<Longrightarrow> x < 2 ^ 63 \<Longrightarrow> sint (of_int x :: i64) = x"
  by (simp add: signed_of_int signed_take_bit_int_eq_self)

lemma sint_bounds_i64: "- (2 ^ 63) \<le> sint (a :: i64)" "sint a < 2 ^ 63"
  using sint_ge [of a] sint_lt [of a] by simp_all

lemma sint_add_i64: "- (2 ^ 63) \<le> sint a + sint b \<Longrightarrow> sint a + sint b < 2 ^ 63 \<Longrightarrow> sint (a + b :: i64) = sint a + sint b"
  using sint_of_int_i64 [of "sint a + sint b"] by simp

lemma sint_diff_i64: "- (2 ^ 63) \<le> sint a - sint b \<Longrightarrow> sint a - sint b < 2 ^ 63 \<Longrightarrow> sint (a - b :: i64) = sint a - sint b"
  using sint_of_int_i64 [of "sint a - sint b"] by simp

lemma i64_quot_pos:
  assumes "- (2 ^ 63) < sint a" and "0 < sint b"
  shows "sint (i64_quot a b) = sgn (sint a) * (\<bar>sint a\<bar> div sint b)"
proof -
  let ?q = "\<bar>sint a\<bar> div sint b"
  have q: "0 \<le> ?q" using assms(2) by (simp add: pos_imp_zdiv_nonneg_iff)
  have le: "?q \<le> \<bar>sint a\<bar>" using zdiv_mono2 [of "\<bar>sint a\<bar>" 1 "sint b"] assms(2) by simp
  have "\<bar>sint a\<bar> < 2 ^ 63" using assms(1) sint_bounds_i64(2) [of a] by arith
  with q le have "- (2 ^ 63) \<le> sgn (sint a) * ?q" "sgn (sint a) * ?q < 2 ^ 63" by (auto simp: sgn_if)
  then have "sint (of_int (sgn (sint a) * ?q) :: i64) = sgn (sint a) * ?q" by (rule sint_of_int_i64)
  then show ?thesis using assms(2) by (simp add: i64_quot_def)
qed

lemma i64_quot_nonneg: "0 \<le> sint a \<Longrightarrow> 0 < sint b \<Longrightarrow> sint (i64_quot a b) = sint a div sint b"
  by (subst i64_quot_pos) (auto simp: sgn_if)

end
