(* ===== verification/Go_Values.thy ===== *)
theory Go_Values
  imports Prelude
begin

text \<open>
  Dynamically typed values: what the repository stores in an \<open>interface{}\<close> (event payloads,
  metadata values, rule arguments). The scalar dynamic types the code inspects have a
  constructor each; any other dynamic type is \<open>GOther\<close> with the name of the type, an
  identity for the value, the text the fmt package prints for it under the percent-v verb and whether the
  type is comparable. \<open>iface_eq\<close> is the comparison \<open>a == b\<close> of two interface values, which
  panics when both hold the same uncomparable type.
\<close>

datatype go_any =
    GNil
  | GString string
  | GInt i64
  | GInt64 i64
  | GUint64 u64
  | GBool bool
  | GBytes "8 word list"
  | GOther (other_type: string) (other_value: nat) (other_text: string) (other_comparable: bool)

type_synonym metadata = "(string, go_any) gomap"

fun join :: "string \<Rightarrow> string list \<Rightarrow> string" where
  "join sep [] = []"
| "join sep [x] = x"
| "join sep (x # y # xs) = x @ sep @ join sep (y # xs)"

text \<open>\<open>fmt.Sprintf\<close> of one value under the percent-v verb.\<close>

fun sprintf_v :: "go_any \<Rightarrow> string" where
  "sprintf_v GNil = ''<nil>''"
| "sprintf_v (GString s) = s"
| "sprintf_v (GInt i) = i64_dec i"
| "sprintf_v (GInt64 i) = i64_dec i"
| "sprintf_v (GUint64 u) = u64_dec u"
| "sprintf_v (GBool b) = (if b then ''true'' else ''false'')"
| "sprintf_v (GBytes bs) = ''['' @ join '' '' (map (\<lambda>b. nat_dec (unat b)) bs) @ '']''"
| "sprintf_v (GOther _ _ txt _) = txt"

text \<open>Conversion of a string to its bytes, \<open>[]byte(s)\<close>.\<close>

definition string_bytes :: "string \<Rightarrow> 8 word list" where
  "string_bytes s = map (\<lambda>c. of_nat (of_char c)) s"

text \<open>
  Comparison of two interface values. Values of different dynamic types are unequal; byte
  slices, and other uncomparable types, panic when compared with their own type.
\<close>

fun iface_eq :: "go_any \<Rightarrow> go_any \<Rightarrow> bool go" where
  "iface_eq (GBytes _) (GBytes _) = None"
| "iface_eq (GOther t v txt c) (GOther t' v' txt' c') =
     (if t \<noteq> t' then Some False else if c then Some (v = v') else None)"
| "iface_eq a b = Some (a = b)"

lemma iface_eq_refl: "iface_eq a a = Some True \<or> iface_eq a a = None"
  by (cases a) auto

lemma iface_eq_scalar [simp]:
  "iface_eq (GString s) b = Some (b = GString s)"
  "iface_eq (GInt i) b = Some (b = GInt i)"
  "iface_eq (GInt64 i) b = Some (b = GInt64 i)"
  "iface_eq (GUint64 u) b = Some (b = GUint64 u)"
  "iface_eq (GBool x) b = Some (b = GBool x)"
  "iface_eq GNil b = Some (b = GNil)"
  by (cases b; auto)+

lemma iface_eq_scalar_right [simp]: "iface_eq a (GString s) = Some (a = GString s)"
  by (cases a) auto

section \<open>Metadata, times and durations\<close>

text \<open>A map literal, its entries in order.\<close>

definition md_of :: "(string \<times> go_any) list \<Rightarrow> metadata" where
  "md_of kvs = Some (foldl (\<lambda>m (k, v). fmupd k v m) fmempty kvs)"

definition GInt_of :: "int \<Rightarrow> go_any" where
  "GInt_of i = GInt (of_int i)"

text \<open>Milliseconds of a duration; integer division truncates toward zero.\<close>

definition milliseconds :: "int \<Rightarrow> int" where
  "milliseconds d = sgn d * (\<bar>d\<bar> div 10 ^ 6)"

text \<open>
  Times are nanoseconds since 1970; the zero \<open>time.Time\<close> is the first of January of the year 1. A Duration
  stored in an interface value is a comparable value of its own type. The texts that the time package gives to a time and a duration depend
  on the time zone and are arguments (\<open>time_fmt\<close>).
\<close>

definition zero_time :: int where
  "zero_time = - 62135596800 * 10 ^ 9"

definition time_IsZero :: "int \<Rightarrow> bool" where
  "time_IsZero t \<longleftrightarrow> t = zero_time"

text \<open>The difference of two times, saturating at the bounds of a Duration.\<close>

definition time_Sub :: "int \<Rightarrow> int \<Rightarrow> int" where
  "time_Sub a b = max (- (2 ^ 63)) (min (2 ^ 63 - 1) (a - b))"

record time_fmt =
  tf_RFC3339 :: "int \<Rightarrow> string"
  tf_Duration :: "int \<Rightarrow> string"

definition GDuration :: "time_fmt \<Rightarrow> int \<Rightarrow> go_any" where
  "GDuration tf d = GOther ''time.Duration'' (unat (of_int d :: i64)) (tf_Duration tf d) True"

lemma md_of_lookup: "gm_lookup (md_of kvs) k = map_of (rev kvs) k"
proof -
  have "fmlookup (foldl (\<lambda>m (k, v). fmupd k v m) f kvs) k = (case map_of (rev kvs) k of None \<Rightarrow> fmlookup f k | Some v \<Rightarrow> Some v)" for f
    by (induction kvs arbitrary: f) (auto simp: map_add_def split: option.splits)
  then show ?thesis by (simp add: md_of_def split: option.splits)
qed

end
