(* ===== verification/Sync_Errors.thy ===== *)
theory Sync_Errors
  imports Go_Values
begin

text \<open>
  The error values of the system (errors/errors.go, errors/helpers.go). \<open>go_error\<close> holds the
  error types the repository creates: plain text, text wrapped around a cause, the two context
  errors, the vector clock's error and the structured \<open>SyncError\<close>. \<open>errors_Is\<close> and
  \<open>errors_As_SyncError\<close> are the chain walks of the standard errors package. The lemmas show
  how construction by \<open>E\<close> determines retryability and that wrapping keeps the cause visible to
  \<open>errors.Is\<close> but hides the retryability of the wrapped error.
\<close>

section \<open>Error values\<close>

datatype go_error =
    ErrorString string
  | WrapError string go_error
  | Canceled
  | DeadlineExceeded
  | VectorClockError string
  | SyncError (se_Op: string) (se_Component: string) (se_Err: "go_error option")
      (se_Retryable: bool) (se_Code: string) (se_Kind: string) (se_Metadata: metadata)

section \<open>Codes, kinds and operations\<close>

definition ErrCodeNetworkFailure :: string where "ErrCodeNetworkFailure = ''NETWORK_FAILURE''"
definition ErrCodeStorageFailure :: string where "ErrCodeStorageFailure = ''STORAGE_FAILURE''"
definition ErrCodeConflictFailure :: string where "ErrCodeConflictFailure = ''CONFLICT_FAILURE''"
definition ErrCodeValidationFailure :: string where "ErrCodeValidationFailure = ''VALIDATION_FAILURE''"

definition KindInvalid :: string where "KindInvalid = ''INVALID''"
definition KindNotFound :: string where "KindNotFound = ''NOT_FOUND''"
definition KindPermission :: string where "KindPermission = ''PERMISSION''"
definition KindInternal :: string where "KindInternal = ''INTERNAL''"
definition KindTimeout :: string where "KindTimeout = ''TIMEOUT''"
definition KindUnavailable :: string where "KindUnavailable = ''UNAVAILABLE''"
definition KindConflict :: string where "KindConflict = ''CONFLICT''"
definition KindTooLarge :: string where "KindTooLarge = ''TOO_LARGE''"
definition KindMethodNotAllowed :: string where "KindMethodNotAllowed = ''METHOD_NOT_ALLOWED''"

definition OpSync :: string where "OpSync = ''sync''"
definition OpPush :: string where "OpPush = ''push''"
definition OpPull :: string where "OpPull = ''pull''"
definition OpStore :: string where "OpStore = ''store''"
definition OpLoad :: string where "OpLoad = ''load''"
definition OpConflictResolve :: string where "OpConflictResolve = ''conflict_resolve''"
definition OpTransport :: string where "OpTransport = ''transport''"
definition OpClose :: string where "OpClose = ''close''"
definition OpProjection :: string where "OpProjection = ''projection''"
definition OpProjectionApply :: string where "OpProjectionApply = ''projection_apply''"
definition OpOffsetStore :: string where "OpOffsetStore = ''offset_store''"

lemmas kind_defs =
  KindInvalid_def KindNotFound_def KindPermission_def KindInternal_def KindTimeout_def
  KindUnavailable_def KindConflict_def KindTooLarge_def KindMethodNotAllowed_def

section \<open>Text and unwrapping\<close>

text \<open>
  \<open>Error_text\<close> is the \<open>Error()\<close> method of each error type. A structured error names the
  operation, the component when there is one, the code when there is one and the cause.
\<close>

fun Error_text :: "go_error \<Rightarrow> string" where
  "Error_text (ErrorString s) = s"
| "Error_text (WrapError pre e) = pre @ Error_text e"
| "Error_text Canceled = ''context canceled''"
| "Error_text DeadlineExceeded = ''context deadline exceeded''"
| "Error_text (VectorClockError s) = s"
| "Error_text (SyncError op cmpnt err _ code _ _) =
     (if cmpnt \<noteq> [] then op @ '' operation failed in '' @ cmpnt @ '' component''
      else op @ '' operation failed'')
     @ (if code \<noteq> [] then '' ['' @ code @ '']'' else [])
     @ '': '' @ (case err of None \<Rightarrow> ''<nil>'' | Some e \<Rightarrow> Error_text e)"

fun Unwrap :: "go_error \<Rightarrow> go_error option" where
  "Unwrap (WrapError _ e) = Some e"
| "Unwrap (SyncError _ _ err _ _ _ _) = err"
| "Unwrap _ = None"

text \<open>
  The standard errors package: \<open>errors.Is\<close> against a sentinel compares along the chain of
  causes, \<open>errors.As\<close> with a \<open>*SyncError\<close> target takes the first structured error of the chain.
\<close>

fun errors_Is :: "go_error \<Rightarrow> go_error \<Rightarrow> bool" where
  "errors_Is (WrapError pre e) t \<longleftrightarrow> WrapError pre e = t \<or> errors_Is e t"
| "errors_Is (SyncError op cmpnt err r code kind md) t \<longleftrightarrow>
     SyncError op cmpnt err r code kind md = t \<or> (case err of None \<Rightarrow> False | Some e \<Rightarrow> errors_Is e t)"
| "errors_Is e t \<longleftrightarrow> e = t"

fun errors_As_SyncError :: "go_error \<Rightarrow> go_error option" where
  "errors_As_SyncError (WrapError _ e) = errors_As_SyncError e"
| "errors_As_SyncError (SyncError op cmpnt err r code kind md) = Some (SyncError op cmpnt err r code kind md)"
| "errors_As_SyncError _ = None"

section \<open>Constructors\<close>

definition NewStorageError :: "string \<Rightarrow> go_error option \<Rightarrow> go_error" where
  "NewStorageError op cause = SyncError op ''store'' cause True ErrCodeStorageFailure [] None"

definition NewConflictError :: "string \<Rightarrow> go_error option \<Rightarrow> go_error" where
  "NewConflictError op cause = SyncError op ''sync'' cause False ErrCodeConflictFailure [] None"

definition NewValidationError :: "string \<Rightarrow> go_error option \<Rightarrow> go_error" where
  "NewValidationError op cause = SyncError op [] cause False ErrCodeValidationFailure [] None"

definition NewNetworkError :: "string \<Rightarrow> go_error option \<Rightarrow> go_error" where
  "NewNetworkError op cause = SyncError op ''transport'' cause True ErrCodeNetworkFailure [] None"

definition New_SyncError :: "string \<Rightarrow> go_error \<Rightarrow> go_error" where
  "New_SyncError op err = SyncError op [] (Some err) False [] [] None"

definition NewWithComponent :: "string \<Rightarrow> string \<Rightarrow> go_error \<Rightarrow> go_error" where
  "NewWithComponent op component err = SyncError op component (Some err) False [] [] None"

definition NewRetryable :: "string \<Rightarrow> go_error \<Rightarrow> go_error" where
  "NewRetryable op err = SyncError op [] (Some err) True [] [] None"

definition IsRetryable :: "go_error option \<Rightarrow> bool" where
  "IsRetryable err = (case err of None \<Rightarrow> False
     | Some e \<Rightarrow> (case errors_As_SyncError e of None \<Rightarrow> False | Some se \<Rightarrow> se_Retryable se))"

section \<open>The builder E\<close>

text \<open>
  The arguments of \<open>E\<close>, by dynamic type. Later arguments of a kind overwrite earlier ones;
  only the first context message is used.
\<close>

datatype E_arg =
    AOp string | AKind string | ACode string | AComponent string | AErr go_error | AMsg string | AOther

record E_state =
  e_Op :: string
  e_Kind :: string
  e_Code :: string
  e_Component :: string
  e_Err :: "go_error option"
  contextMsgs :: "string list"

fun E_step :: "E_state \<Rightarrow> E_arg \<Rightarrow> E_state" where
  "E_step e (AOp a) = e\<lparr>e_Op := a\<rparr>"
| "E_step e (AKind a) = e\<lparr>e_Kind := a\<rparr>"
| "E_step e (ACode a) = e\<lparr>e_Code := a\<rparr>"
| "E_step e (AComponent a) = e\<lparr>e_Component := a\<rparr>"
| "E_step e (AErr a) = e\<lparr>e_Err := Some a\<rparr>"
| "E_step e (AMsg a) = e\<lparr>contextMsgs := contextMsgs e @ [a]\<rparr>"
| "E_step e AOther = e"

definition E_init :: E_state where
  "E_init = \<lparr>e_Op = [], e_Kind = [], e_Code = [], e_Component = [], e_Err = None, contextMsgs = []\<rparr>"

definition E_cause :: "E_state \<Rightarrow> go_error option" where
  "E_cause e = (case (e_Err e, contextMsgs e) of
       (None, m # _) \<Rightarrow> Some (ErrorString m)
     | (Some err, m # _) \<Rightarrow> Some (WrapError (m @ '': '') err)
     | (err, []) \<Rightarrow> err)"

definition retryable_kind :: "string \<Rightarrow> bool" where
  "retryable_kind k \<longleftrightarrow>
     (if k = KindInternal \<or> k = KindTimeout \<or> k = KindUnavailable then True
      else if k = KindInvalid \<or> k = KindNotFound \<or> k = KindPermission \<or> k = KindConflict
           \<or> k = KindTooLarge \<or> k = KindMethodNotAllowed then False
      else False)"

definition E :: "E_arg list \<Rightarrow> go_error" where
  "E args = (let e = foldl E_step E_init args in
     SyncError (e_Op e) (e_Component e) (E_cause e) (retryable_kind (e_Kind e)) (e_Code e) (e_Kind e) None)"

definition WrapOpComponent :: "go_error option \<Rightarrow> string \<Rightarrow> string \<Rightarrow> go_error option" where
  "WrapOpComponent err op component = (case err of None \<Rightarrow> None
     | Some e \<Rightarrow> Some (E [AOp op, AComponent component, AErr e]))"

definition WrapOpComponentKind :: "go_error option \<Rightarrow> string \<Rightarrow> string \<Rightarrow> string \<Rightarrow> go_error option" where
  "WrapOpComponentKind err op component kind = (case err of None \<Rightarrow> None
     | Some e \<Rightarrow> Some (E [AOp op, AComponent component, AKind kind, AErr e]))"

section \<open>Facts about errors\<close>

lemma errors_Is_refl [simp]: "errors_Is e e"
  by (cases e) auto

lemma errors_Is_Unwrap: "Unwrap e = Some c \<Longrightarrow> errors_Is c t \<Longrightarrow> errors_Is e t"
  by (cases e) auto

lemma E_wrap_simp:
  "E [AOp op, AComponent cmpnt, AErr e] = SyncError op cmpnt (Some e) False [] [] None"
  by (simp add: E_def E_init_def E_cause_def retryable_kind_def kind_defs)

lemma E_wrap_kind_simp:
  "E [AOp op, AComponent cmpnt, AKind k, AErr e] = SyncError op cmpnt (Some e) (retryable_kind k) [] k None"
  by (simp add: E_def E_init_def E_cause_def)

lemma IsRetryable_SyncError [simp]:
  "IsRetryable (Some (SyncError op cmpnt err r code kind md)) = r"
  by (simp add: IsRetryable_def)

lemma NewWithComponent_Is:
  "errors_Is (NewWithComponent op cmpnt e) t \<longleftrightarrow> NewWithComponent op cmpnt e = t \<or> errors_Is e t"
  by (simp add: NewWithComponent_def)

text \<open>The kind a list of arguments leaves: the last one given, or none.\<close>

fun last_kind :: "E_arg list \<Rightarrow> string \<Rightarrow> string" where
  "last_kind [] k = k"
| "last_kind (AKind a # as) k = last_kind as a"
| "last_kind (_ # as) k = last_kind as k"

lemma E_step_kind: "e_Kind (foldl E_step e args) = last_kind args (e_Kind e)"
proof (induction args arbitrary: e)
  case (Cons a args)
  then show ?case by (cases a) simp_all
qed simp

lemma retryable_kind_iff:
  "retryable_kind k \<longleftrightarrow> k \<in> {KindInternal, KindTimeout, KindUnavailable}"
  by (auto simp: retryable_kind_def)

lemma E_retryable_iff:
  "IsRetryable (Some (E args)) \<longleftrightarrow> last_kind args [] \<in> {KindInternal, KindTimeout, KindUnavailable}"
  by (simp add: E_def Let_def E_step_kind E_init_def retryable_kind_iff)

end
