(* ===== verification/Vector_Clock.thy ===== *)
theory Vector_Clock
  imports Sync_Errors
begin

text \<open>
  Vector clocks (version/vector_clock.go): the state is the map of node identifiers to
  counters, nil when the clock was read from the JSON text null. Loops over the map take the
  order of its keys as an argument (\<open>Merge_in_order\<close>, \<open>Compare_in_order\<close>), and the operations
  use the ascending order; \<open>Merge_any_order\<close> and \<open>Compare_any_order\<close> show that every order gives
  the same result. The specification is the pointwise order \<open>clock_le\<close> on the counters, a
  missing counter being 0: \<open>Compare\<close> decides it and \<open>Merge\<close> computes least upper bounds, so
  replicas that merge the same clocks converge.
\<close>

section \<open>State and limits\<close>

record vector_clock =
  clocks :: "(string, u64) gomap"

definition MaxNodeIDLength :: nat where "MaxNodeIDLength = 255"
definition MaxNodes :: nat where "MaxNodes = 1000"

section \<open>Operations\<close>

definition NewVectorClock :: vector_clock where
  "NewVectorClock = \<lparr>clocks = Some fmempty\<rparr>"

definition NewVectorClockFromMap :: "(string, u64) gomap \<Rightarrow> vector_clock" where
  "NewVectorClockFromMap m =
     \<lparr>clocks = Some (fold (\<lambda>nodeID f. fmupd nodeID (the (gm_lookup m nodeID)) f) (gm_keys m) fmempty)\<rparr>"

definition GetClock :: "vector_clock \<Rightarrow> string \<Rightarrow> u64" where
  "GetClock vc nodeID = (case gm_lookup (clocks vc) nodeID of None \<Rightarrow> 0 | Some c \<Rightarrow> c)"

definition Size :: "vector_clock \<Rightarrow> nat" where
  "Size vc = gm_len (clocks vc)"

definition IsZero_clock :: "vector_clock \<Rightarrow> bool" where
  "IsZero_clock vc \<longleftrightarrow> gm_len (clocks vc) = 0"

definition Clone :: "vector_clock \<Rightarrow> vector_clock" where
  "Clone vc = NewVectorClockFromMap (clocks vc)"

definition GetAllClocks :: "vector_clock \<Rightarrow> (string, u64) gomap" where
  "GetAllClocks vc = clocks (NewVectorClockFromMap (clocks vc))"

definition Increment :: "vector_clock \<Rightarrow> string \<Rightarrow> (vector_clock \<times> go_error option) go" where
  "Increment vc nodeID =
     (if nodeID = [] then Some (vc, Some (VectorClockError ''node ID cannot be empty''))
      else if length nodeID > MaxNodeIDLength then
        Some (vc, Some (VectorClockError
          (''node ID length exceeds maximum of '' @ nat_dec MaxNodeIDLength @ '' characters'')))
      else if gm_lookup (clocks vc) nodeID = None \<and> gm_len (clocks vc) \<ge> MaxNodes then
        Some (vc, Some (VectorClockError (''cannot track more than '' @ nat_dec MaxNodes @ '' nodes'')))
      else do {
        m \<leftarrow> gm_put (clocks vc) nodeID (GetClock vc nodeID + 1);
        Some (vc\<lparr>clocks := m\<rparr>, None)
      })"

text \<open>
  \<open>Merge\<close> first walks the other clock's nodes, refusing an overlong identifier and counting
  the new ones, then checks the limit, then takes over every counter that is new or larger.
\<close>

fun merge_count :: "(string, u64) gomap \<Rightarrow> string list \<Rightarrow> nat \<Rightarrow> go_error + nat" where
  "merge_count m [] newNodeCount = Inr newNodeCount"
| "merge_count m (nodeID # ks) newNodeCount =
     (if length nodeID > MaxNodeIDLength then
        Inl (VectorClockError (''other clock contains node ID exceeding maximum length of '' @ nat_dec MaxNodeIDLength))
      else merge_count m ks (if gm_lookup m nodeID = None then newNodeCount + 1 else newNodeCount))"

fun merge_loop :: "(string, u64) gomap \<Rightarrow> string list \<Rightarrow> (string, u64) gomap \<Rightarrow> (string, u64) gomap go" where
  "merge_loop other [] m = Some m"
| "merge_loop other (nodeID # ks) m =
     (let otherClock = the (gm_lookup other nodeID) in
      if (case gm_lookup m nodeID of None \<Rightarrow> True | Some currentClock \<Rightarrow> otherClock > currentClock)
      then gm_put m nodeID otherClock \<bind> merge_loop other ks
      else merge_loop other ks m)"

definition Merge_in_order ::
  "string list \<Rightarrow> vector_clock \<Rightarrow> vector_clock \<Rightarrow> (vector_clock \<times> go_error option) go" where
  "Merge_in_order ks vc other =
     (case merge_count (clocks vc) ks 0 of
        Inl err \<Rightarrow> Some (vc, Some err)
      | Inr newNodeCount \<Rightarrow>
          if gm_len (clocks vc) + newNodeCount > MaxNodes then
            Some (vc, Some (VectorClockError (''merging would exceed maximum of '' @ nat_dec MaxNodes @ '' nodes'')))
          else do {
            m \<leftarrow> merge_loop (clocks other) ks (clocks vc);
            Some (vc\<lparr>clocks := m\<rparr>, None)
          })"

definition Merge :: "vector_clock \<Rightarrow> vector_clock option \<Rightarrow> (vector_clock \<times> go_error option) go" where
  "Merge vc other = (case other of None \<Rightarrow> Some (vc, None)
     | Some oc \<Rightarrow> Merge_in_order (gm_keys (clocks oc)) vc oc)"

text \<open>
  \<open>Compare\<close> on two clocks: one pass over the nodes of both, with a flag for each direction.
  The dispatch on the dynamic type of the argument is in the theory of versions.
\<close>

fun compare_loop :: "vector_clock \<Rightarrow> vector_clock \<Rightarrow> string list \<Rightarrow> bool \<times> bool \<Rightarrow> bool \<times> bool" where
  "compare_loop vc other [] flags = flags"
| "compare_loop vc other (nodeID # ks) (thisHappenedBefore, otherHappenedBefore) =
     compare_loop vc other ks
       (if GetClock vc nodeID < GetClock other nodeID then (True, otherHappenedBefore)
        else if GetClock vc nodeID > GetClock other nodeID then (thisHappenedBefore, True)
        else (thisHappenedBefore, otherHappenedBefore))"

definition Compare_in_order :: "string list \<Rightarrow> vector_clock \<Rightarrow> vector_clock \<Rightarrow> int" where
  "Compare_in_order ks vc other =
     (case compare_loop vc other ks (False, False) of
        (thisHappenedBefore, otherHappenedBefore) \<Rightarrow>
          if thisHappenedBefore \<and> \<not> otherHappenedBefore then - 1
          else if otherHappenedBefore \<and> \<not> thisHappenedBefore then 1
          else 0)"

definition all_nodes :: "vector_clock \<Rightarrow> vector_clock \<Rightarrow> string list" where
  "all_nodes vc other = sorted_list_of_fset (fmdom (gm_fmap (clocks vc)) |\<union>| fmdom (gm_fmap (clocks other)))"

definition Compare_clock :: "vector_clock \<Rightarrow> vector_clock option \<Rightarrow> int" where
  "Compare_clock vc other =
     (case other of
        None \<Rightarrow> (if IsZero_clock vc then 0 else 1)
      | Some oc \<Rightarrow> Compare_in_order (all_nodes vc oc) vc oc)"

definition IsEqual :: "vector_clock \<Rightarrow> vector_clock option \<Rightarrow> bool" where
  "IsEqual vc other =
     (case other of
        None \<Rightarrow> IsZero_clock vc
      | Some oc \<Rightarrow>
          if gm_len (clocks vc) \<noteq> gm_len (clocks oc) then False
          else list_all (\<lambda>nodeID. GetClock oc nodeID = the (gm_lookup (clocks vc) nodeID)) (gm_keys (clocks vc)))"

definition IsConcurrentWith :: "vector_clock \<Rightarrow> vector_clock option \<Rightarrow> bool" where
  "IsConcurrentWith vc other \<longleftrightarrow> Compare_clock vc other = 0 \<and> \<not> IsEqual vc other"

definition HappenedBefore :: "vector_clock \<Rightarrow> vector_clock option \<Rightarrow> bool" where
  "HappenedBefore vc other \<longleftrightarrow> Compare_clock vc other = - 1"

definition HappenedAfter :: "vector_clock \<Rightarrow> vector_clock option \<Rightarrow> bool" where
  "HappenedAfter vc other \<longleftrightarrow> Compare_clock vc other = 1"

section \<open>Specification: the pointwise order\<close>

definition clock_le :: "vector_clock \<Rightarrow> vector_clock \<Rightarrow> bool" where
  "clock_le a b \<longleftrightarrow> (\<forall>n. GetClock a n \<le> GetClock b n)"

text \<open>A well-formed clock has a map, at most \<open>MaxNodes\<close> nodes, and identifiers of legal length.\<close>

definition clock_wf :: "vector_clock \<Rightarrow> bool" where
  "clock_wf vc \<longleftrightarrow> clocks vc \<noteq> None \<and> gm_len (clocks vc) \<le> MaxNodes
     \<and> (\<forall>n \<in> fmdom' (gm_fmap (clocks vc)). length n \<le> MaxNodeIDLength)"

text \<open>The clock that holds the larger counter for every node of either clock.\<close>

definition clock_sup :: "vector_clock \<Rightarrow> vector_clock \<Rightarrow> string \<Rightarrow> u64" where
  "clock_sup a b n = max (GetClock a n) (GetClock b n)"

section \<open>Copies\<close>

lemma fold_fmupd_lookup:
  "fmlookup (fold (\<lambda>k f. fmupd k (g k) f) ks f0) k = (if k \<in> set ks then Some (g k) else fmlookup f0 k)"
  by (induction ks arbitrary: f0) auto

lemma clocks_FromMap: "clocks (NewVectorClockFromMap m) = Some (gm_fmap m)"
proof -
  have "fmlookup (fold (\<lambda>k f. fmupd k (the (gm_lookup m k)) f) (gm_keys m) fmempty) k = gm_lookup m k" for k
    by (auto simp: fold_fmupd_lookup gm_keys_def gm_lookup_def fmlookup_dom'_iff)
  then show ?thesis
    by (auto simp: NewVectorClockFromMap_def gm_lookup_def intro: fmap_ext)
qed

lemma GetClock_Clone [simp]: "GetClock (Clone vc) = GetClock vc"
  by (rule ext) (simp add: Clone_def GetClock_def clocks_FromMap gm_lookup_def)

lemma Clone_live: "clocks vc \<noteq> None \<Longrightarrow> Clone vc = vc"
  by (cases vc) (auto simp: Clone_def clocks_FromMap intro!: vector_clock.equality)

lemma clocks_New [simp]: "clocks NewVectorClock = Some fmempty"
  by (simp add: NewVectorClock_def)

lemma GetClock_New [simp]: "GetClock NewVectorClock n = 0"
  by (simp add: GetClock_def)

section \<open>Comparison decides the pointwise order\<close>

lemma compare_loop_flags:
  "compare_loop vc oc ks (b, c) =
     (b \<or> (\<exists>n \<in> set ks. GetClock vc n < GetClock oc n), c \<or> (\<exists>n \<in> set ks. GetClock oc n < GetClock vc n))"
  by (induction vc oc ks "(b, c)" arbitrary: b c rule: compare_loop.induct) (auto split: if_splits)

lemma set_all_nodes: "set (all_nodes a b) = fmdom' (gm_fmap (clocks a)) \<union> fmdom' (gm_fmap (clocks b))"
  by (simp add: all_nodes_def fmdom'_alt_def)

lemma GetClock_not_node: "n \<notin> fmdom' (gm_fmap (clocks a)) \<Longrightarrow> GetClock a n = 0"
  by (simp add: GetClock_def gm_lookup_def fmdom'_notD)

lemma Compare_in_order_le:
  assumes "fmdom' (gm_fmap (clocks a)) \<union> fmdom' (gm_fmap (clocks b)) \<subseteq> set ks"
  shows "Compare_in_order ks a b =
    (if clock_le a b then if clock_le b a then 0 else - 1 else if clock_le b a then 1 else 0)"
proof -
  have lt: "(\<exists>n \<in> set ks. GetClock x n < GetClock y n) \<longleftrightarrow> \<not> clock_le y x"
    if "fmdom' (gm_fmap (clocks y)) \<subseteq> set ks" for x y
  proof -
    have "GetClock y n = 0" if "n \<notin> set ks" for n
      using that \<open>fmdom' (gm_fmap (clocks y)) \<subseteq> set ks\<close> by (auto intro: GetClock_not_node)
    then show ?thesis
      unfolding clock_le_def by (metis linorder_not_le word_zero_le)
  qed
  show ?thesis
    using assms by (auto simp: Compare_in_order_def compare_loop_flags lt)
qed

lemma Compare_any_order:
  assumes "set ks = set (all_nodes a b)"
  shows "Compare_in_order ks a b = Compare_clock a (Some b)"
  using assms by (simp add: Compare_clock_def Compare_in_order_le set_all_nodes)

lemma Compare_clock_le:
  "Compare_clock a (Some b) =
    (if clock_le a b then if clock_le b a then 0 else - 1 else if clock_le b a then 1 else 0)"
  by (simp add: Compare_clock_def Compare_in_order_le set_all_nodes)

lemma clock_le_refl [simp]: "clock_le a a"
  by (simp add: clock_le_def)

lemma clock_le_trans: "clock_le a b \<Longrightarrow> clock_le b c \<Longrightarrow> clock_le a c"
  unfolding clock_le_def by (meson order_trans)

lemma HappenedBefore_le: "HappenedBefore a (Some b) \<longleftrightarrow> clock_le a b \<and> \<not> clock_le b a"
  by (simp add: HappenedBefore_def Compare_clock_le)

section \<open>Merge computes least upper bounds\<close>

text \<open>The larger of two counters, either of which may be absent.\<close>

fun opt_max :: "u64 option \<Rightarrow> u64 option \<Rightarrow> u64 option" where
  "opt_max None y = y"
| "opt_max x None = x"
| "opt_max (Some x) (Some y) = Some (max x y)"

lemma opt_max_None [simp]: "opt_max x None = x"
  by (cases x) auto

lemma merge_count_eq:
  "merge_count m ks n =
     (if \<forall>k \<in> set ks. length k \<le> MaxNodeIDLength
      then Inr (n + length (filter (\<lambda>k. gm_lookup m k = None) ks))
      else Inl (VectorClockError (''other clock contains node ID exceeding maximum length of '' @ nat_dec MaxNodeIDLength)))"
  by (induction ks arbitrary: n) (auto simp: not_less)

lemma merge_loop_live:
  assumes "set ks \<subseteq> fmdom' (gm_fmap oc)"
  shows "\<exists>g. merge_loop oc ks (Some f) = Some (Some g) \<and>
     (\<forall>k. fmlookup g k = (if k \<in> set ks then opt_max (fmlookup f k) (gm_lookup oc k) else fmlookup f k))"
  using assms
proof (induction ks arbitrary: f)
  case (Cons k ks)
  from Cons.prems obtain v where v: "gm_lookup oc k = Some v"
    by (auto simp: gm_lookup_def fmlookup_dom'_iff)
  show ?case
  proof (cases "case fmlookup f k of None \<Rightarrow> True | Some c \<Rightarrow> v > c")
    case True
    then have step: "merge_loop oc (k # ks) (Some f) = merge_loop oc ks (Some (fmupd k v f))"
      by (simp add: v)
    obtain g where g: "merge_loop oc ks (Some (fmupd k v f)) = Some (Some g)"
      and l: "\<forall>j. fmlookup g j =
        (if j \<in> set ks then opt_max (fmlookup (fmupd k v f) j) (gm_lookup oc j) else fmlookup (fmupd k v f) j)"
      using Cons.IH [of "fmupd k v f"] Cons.prems by auto
    have "fmlookup g j = (if j \<in> set (k # ks) then opt_max (fmlookup f j) (gm_lookup oc j) else fmlookup f j)" for j
      using l True v by (cases "j = k") (auto split: option.splits simp: max_def)
    with step g show ?thesis by auto
  next
    case False
    then obtain c where c: "fmlookup f k = Some c" "\<not> v > c"
      by (auto split: option.splits)
    then have step: "merge_loop oc (k # ks) (Some f) = merge_loop oc ks (Some f)"
      by (simp add: v)
    obtain g where g: "merge_loop oc ks (Some f) = Some (Some g)"
      and l: "\<forall>j. fmlookup g j = (if j \<in> set ks then opt_max (fmlookup f j) (gm_lookup oc j) else fmlookup f j)"
      using Cons.IH [of f] Cons.prems by auto
    have "fmlookup g j = (if j \<in> set (k # ks) then opt_max (fmlookup f j) (gm_lookup oc j) else fmlookup f j)" for j
      using l c v by (cases "j = k") (auto simp: max_def)
    with step g show ?thesis by auto
  qed
qed auto

text \<open>The nodes either clock tracks, and what it takes for a merge to be accepted.\<close>

definition joint_nodes :: "vector_clock \<Rightarrow> vector_clock \<Rightarrow> string fset" where
  "joint_nodes a b = fmdom (gm_fmap (clocks a)) |\<union>| fmdom (gm_fmap (clocks b))"

definition merge_allowed :: "vector_clock \<Rightarrow> vector_clock \<Rightarrow> bool" where
  "merge_allowed a b \<longleftrightarrow> (\<forall>n \<in> fmdom' (gm_fmap (clocks b)). length n \<le> MaxNodeIDLength)
     \<and> fcard (joint_nodes a b) \<le> MaxNodes"

lemma card_new_nodes:
  assumes "enumerates ks oc"
  shows "gm_len m + length (filter (\<lambda>k. gm_lookup m k = None) ks)
    = fcard (fmdom (gm_fmap m) |\<union>| fmdom (gm_fmap oc))"
proof -
  let ?A = "fmdom (gm_fmap m)" and ?B = "fmdom (gm_fmap oc)"
  have "set (filter (\<lambda>k. gm_lookup m k = None) ks) = fset (?B |-| ?A)"
    using assms by (auto simp: enumerates_def gm_lookup_def fmdom'_alt_def fmlookup_None_iff)
  then have "length (filter (\<lambda>k. gm_lookup m k = None) ks) = fcard (?B |-| ?A)"
    using assms by (metis distinct_card distinct_filter enumerates_def fcard.rep_eq)
  moreover have "?A |\<union>| ?B = ?A |\<union>| (?B |-| ?A)" and "?A |\<inter>| (?B |-| ?A) = {||}"
    by auto
  ultimately show ?thesis
    by (metis fcard_funion_disjoint gm_len_def)
qed

lemma Merge_in_order_cases:
  assumes "clocks vc = Some f" and ks: "enumerates ks (clocks oc)"
  shows "if merge_allowed vc oc
    then \<exists>g. Merge_in_order ks vc oc = Some (vc\<lparr>clocks := Some g\<rparr>, None) \<and>
           (\<forall>k. fmlookup g k = opt_max (fmlookup f k) (gm_lookup (clocks oc) k))
    else \<exists>err. Merge_in_order ks vc oc = Some (vc, Some err)"
proof -
  have dom: "set ks = fmdom' (gm_fmap (clocks oc))"
    using ks by (simp add: enumerates_def)
  obtain g where g: "merge_loop (clocks oc) ks (Some f) = Some (Some g)"
    and l: "\<And>k. fmlookup g k = (if k \<in> set ks then opt_max (fmlookup f k) (gm_lookup (clocks oc) k) else fmlookup f k)"
    using merge_loop_live [of ks "clocks oc" f] dom by auto
  have "fmlookup g k = opt_max (fmlookup f k) (gm_lookup (clocks oc) k)" for k
    using l [of k] dom by (auto simp: gm_lookup_def fmdom'_notD)
  then show ?thesis
    using assms g card_new_nodes [OF ks, of "clocks vc"] dom
    by (auto simp: Merge_in_order_def merge_count_eq merge_allowed_def joint_nodes_def not_less)
qed

lemma Merge_any_order:
  assumes "enumerates ks (clocks oc)" and "clocks vc \<noteq> None"
  shows "Merge_in_order ks vc oc = Merge vc (Some oc)"
proof -
  obtain f where f: "clocks vc = Some f"
    using assms(2) by auto
  note c1 = Merge_in_order_cases [OF f assms(1)]
  note c2 = Merge_in_order_cases [OF f enumerates_gm_keys, of oc]
  have cnt: "merge_count (clocks vc) ks 0 = merge_count (clocks vc) (gm_keys (clocks oc)) 0"
    using card_new_nodes [OF assms(1), of "clocks vc"] card_new_nodes [OF enumerates_gm_keys, of "clocks vc" "clocks oc"]
      assms(1) enumerates_gm_keys [of "clocks oc"]
    by (simp add: merge_count_eq enumerates_def)
  show ?thesis
  proof (cases "merge_allowed vc oc")
    case True
    with c1 c2 obtain g g' where "Merge_in_order ks vc oc = Some (vc\<lparr>clocks := Some g\<rparr>, None)"
      and "Merge_in_order (gm_keys (clocks oc)) vc oc = Some (vc\<lparr>clocks := Some g'\<rparr>, None)"
      and same: "\<And>k. fmlookup g k = fmlookup g' k"
      by (auto split: if_splits)
    moreover have "g = g'"
      using same by (rule fmap_ext)
    ultimately show ?thesis by (simp add: Merge_def)
  next
    case False
    with c1 c2 show ?thesis
      by (auto simp: Merge_def Merge_in_order_def cnt split: sum.splits if_splits Option.bind_splits)
  qed
qed

lemma Merge_live_ok:
  assumes "clocks vc = Some f" and "merge_allowed vc oc"
  shows "\<exists>g. Merge vc (Some oc) = Some (vc\<lparr>clocks := Some g\<rparr>, None) \<and>
           (\<forall>k. fmlookup g k = opt_max (fmlookup f k) (gm_lookup (clocks oc) k))"
  using Merge_in_order_cases [OF assms(1) enumerates_gm_keys, of oc] assms(2) by (simp add: Merge_def)

lemma Merge_live_refused:
  assumes "clocks vc \<noteq> None" and "\<not> merge_allowed vc oc"
  shows "\<exists>err. Merge vc (Some oc) = Some (vc, Some err)"
  using Merge_in_order_cases [OF _ enumerates_gm_keys, of vc _ oc] assms by (auto simp: Merge_def)

lemma GetClock_opt_max:
  assumes "\<And>k. gm_lookup (clocks c) k = opt_max (gm_lookup (clocks a) k) (gm_lookup (clocks b) k)"
  shows "GetClock c n = max (GetClock a n) (GetClock b n)"
  using assms [of n]
  by (cases "gm_lookup (clocks a) n"; cases "gm_lookup (clocks b) n") (auto simp: GetClock_def max_def)

lemma Merge_GetClock:
  assumes "clocks vc \<noteq> None" and "Merge vc (Some oc) = Some (vc', None)"
  shows "GetClock vc' n = max (GetClock vc n) (GetClock oc n)"
proof -
  from assms(1) obtain f where f: "clocks vc = Some f" by auto
  with assms have ok: "merge_allowed vc oc"
    using Merge_live_refused [of vc oc] by auto
  obtain g where "vc' = vc\<lparr>clocks := Some g\<rparr>"
    and "\<And>k. fmlookup g k = opt_max (fmlookup f k) (gm_lookup (clocks oc) k)"
    using Merge_live_ok [OF f ok] assms(2) by auto
  then show ?thesis
    by (intro GetClock_opt_max) (simp add: f)
qed

lemma Merge_nodes:
  assumes "clocks vc \<noteq> None" and "Merge vc (Some oc) = Some (vc', None)"
  shows "clocks vc' \<noteq> None \<and> fmdom (gm_fmap (clocks vc')) = joint_nodes vc oc"
proof -
  from assms(1) obtain f where f: "clocks vc = Some f" by auto
  with assms have ok: "merge_allowed vc oc"
    using Merge_live_refused [of vc oc] by auto
  obtain g where g: "vc' = vc\<lparr>clocks := Some g\<rparr>"
    and l: "\<And>k. fmlookup g k = opt_max (fmlookup f k) (gm_lookup (clocks oc) k)"
    using Merge_live_ok [OF f ok] assms(2) by auto
  have "k |\<in>| fmdom g \<longleftrightarrow> k |\<in>| fmdom f \<or> k |\<in>| fmdom (gm_fmap (clocks oc))" for k
    using l [of k] by (cases "fmlookup f k"; cases "gm_lookup (clocks oc) k")
      (auto simp: gm_lookup_def fmlookup_dom_iff)
  with g f show ?thesis by (auto simp: joint_nodes_def)
qed

section \<open>Increment\<close>

text \<open>What it takes for an increment to be accepted.\<close>

definition increment_allowed :: "vector_clock \<Rightarrow> string \<Rightarrow> bool" where
  "increment_allowed vc n \<longleftrightarrow> n \<noteq> [] \<and> length n \<le> MaxNodeIDLength
     \<and> (gm_lookup (clocks vc) n = None \<longrightarrow> gm_len (clocks vc) < MaxNodes)"

lemma Increment_ok:
  assumes "clocks vc = Some f" and "increment_allowed vc n"
  shows "Increment vc n = Some (vc\<lparr>clocks := Some (fmupd n (GetClock vc n + 1) f)\<rparr>, None)"
  using assms by (auto simp: Increment_def increment_allowed_def)

lemma Increment_refused:
  "\<not> increment_allowed vc n \<Longrightarrow> \<exists>err. Increment vc n = Some (vc, Some err)"
  by (auto simp: Increment_def increment_allowed_def)

lemma Increment_GetClock:
  assumes "Increment vc n = Some (vc', None)"
  shows "GetClock vc' k = (if k = n then GetClock vc n + 1 else GetClock vc k)"
  using assms by (cases "clocks vc") (auto simp: Increment_def GetClock_def split: if_splits)

lemma Increment_wf:
  assumes "clock_wf vc" and "Increment vc n = Some (vc', err)"
  shows "clock_wf vc'"
proof (cases "increment_allowed vc n")
  case True
  obtain f where f: "clocks vc = Some f"
    using assms(1) by (auto simp: clock_wf_def)
  with True assms show ?thesis
    using Increment_ok [OF f True]
    by (auto simp: clock_wf_def increment_allowed_def fcard_finsert_if fmlookup_None_iff fmdom'_alt_def)
next
  case False
  with assms show ?thesis using Increment_refused [of vc n] by auto
qed

lemma Merge_wf:
  assumes "clock_wf vc" and "Merge vc oc = Some (vc', err)"
  shows "clock_wf vc'"
proof (cases oc)
  case None
  with assms show ?thesis by (simp add: Merge_def)
next
  case (Some c)
  have live: "clocks vc \<noteq> None" using assms(1) by (simp add: clock_wf_def)
  show ?thesis
  proof (cases "merge_allowed vc c")
    case True
    obtain f where f: "clocks vc = Some f" using live by auto
    obtain g where "Merge vc (Some c) = Some (vc\<lparr>clocks := Some g\<rparr>, None)"
      using Merge_live_ok [OF f True] by auto
    with assms Some have "err = None" by simp
    with assms Some Merge_nodes [OF live, of c vc'] True show ?thesis
      by (auto simp: clock_wf_def merge_allowed_def joint_nodes_def gm_len_def fmdom'_alt_def)
  next
    case False
    with assms Some live show ?thesis using Merge_live_refused [of vc c] by auto
  qed
qed

section \<open>Equality of clocks\<close>

text \<open>A clock is positive when it has no explicit zero counter.\<close>

definition clock_pos :: "vector_clock \<Rightarrow> bool" where
  "clock_pos vc \<longleftrightarrow> (\<forall>n. gm_lookup (clocks vc) n \<noteq> Some 0)"

lemma GetClock_pos_iff: "clock_pos a \<Longrightarrow> GetClock a n = 0 \<longleftrightarrow> n |\<notin>| fmdom (gm_fmap (clocks a))"
  by (auto simp: clock_pos_def GetClock_def gm_lookup_def fmlookup_dom_iff split: option.splits)

lemma IsEqual_pos:
  assumes "clock_pos a" and "clock_pos b"
  shows "IsEqual a (Some b) \<longleftrightarrow> gm_fmap (clocks a) = gm_fmap (clocks b)"
proof
  let ?A = "fmdom (gm_fmap (clocks a))" and ?B = "fmdom (gm_fmap (clocks b))"
  assume eq: "IsEqual a (Some b)"
  then have card: "fcard ?A = fcard ?B"
    and val: "\<And>n. n |\<in>| ?A \<Longrightarrow> GetClock b n = the (fmlookup (gm_fmap (clocks a)) n)"
    by (auto simp: IsEqual_def list_all_iff gm_len_def gm_keys_def gm_lookup_def fmdom'_alt_def split: if_splits)
  have same: "GetClock b n = GetClock a n" if "n |\<in>| ?A" for n
    using val [OF that] that by (auto simp: GetClock_def [of a] gm_lookup_def fmlookup_dom_iff)
  have "?A |\<subseteq>| ?B"
    using same GetClock_pos_iff [OF assms(1)] GetClock_pos_iff [OF assms(2)] by (metis fsubsetI)
  then have doms: "?A = ?B"
    using card by (metis fcard_seteq order_refl)
  show "gm_fmap (clocks a) = gm_fmap (clocks b)"
  proof (rule fmap_ext)
    fix n
    show "fmlookup (gm_fmap (clocks a)) n = fmlookup (gm_fmap (clocks b)) n"
    proof (cases "n |\<in>| ?A")
      case True
      then obtain x y where "fmlookup (gm_fmap (clocks a)) n = Some x" "fmlookup (gm_fmap (clocks b)) n = Some y"
        using doms by (metis fmlookup_dom_iff)
      with same [OF True] show ?thesis by (simp add: GetClock_def gm_lookup_def)
    next
      case False
      with doms show ?thesis by (metis fmlookup_None_iff)
    qed
  qed
next
  assume "gm_fmap (clocks a) = gm_fmap (clocks b)"
  then show "IsEqual a (Some b)"
    by (auto simp: IsEqual_def list_all_iff gm_len_def gm_keys_def GetClock_def gm_lookup_def fmlookup_dom'_iff)
qed

section \<open>Runs of a clock\<close>

text \<open>
  The clocks a program can obtain with the constructor \<open>NewVectorClock\<close> and the two mutating
  operations, whatever the calls return.
\<close>

inductive clock_run :: "vector_clock \<Rightarrow> bool" where
  run_new: "clock_run NewVectorClock"
| run_increment: "clock_run vc \<Longrightarrow> Increment vc n = Some (vc', err) \<Longrightarrow> clock_run vc'"
| run_merge: "clock_run vc \<Longrightarrow> Merge vc oc = Some (vc', err) \<Longrightarrow> clock_run vc'"

lemma clock_wf_New: "clock_wf NewVectorClock"
  by (simp add: clock_wf_def MaxNodes_def)

text \<open>Merging the clocks of a list one after the other, as a replica does with what it receives.\<close>

fun merge_list :: "vector_clock \<Rightarrow> vector_clock list \<Rightarrow> (vector_clock \<times> go_error option) go" where
  "merge_list vc [] = Some (vc, None)"
| "merge_list vc (c # cs) =
     (case Merge vc (Some c) of
        None \<Rightarrow> None
      | Some (vc', Some err) \<Rightarrow> Some (vc', Some err)
      | Some (vc', None) \<Rightarrow> merge_list vc' cs)"

definition list_nodes :: "vector_clock \<Rightarrow> vector_clock list \<Rightarrow> string fset" where
  "list_nodes vc cs = fmdom (gm_fmap (clocks vc)) |\<union>| ffUnion (fset_of_list (map (\<lambda>c. fmdom (gm_fmap (clocks c))) cs))"

lemma list_nodes_Cons: "list_nodes vc (c # cs) = joint_nodes vc c |\<union>| list_nodes c cs"
  by (auto simp: list_nodes_def joint_nodes_def)

lemma merge_list_result:
  assumes "clocks vc \<noteq> None"
    and "\<forall>c \<in> set cs. \<forall>n \<in> fmdom' (gm_fmap (clocks c)). length n \<le> MaxNodeIDLength"
    and "fcard (list_nodes vc cs) \<le> MaxNodes"
  shows "\<exists>vc'. merge_list vc cs = Some (vc', None) \<and> clocks vc' \<noteq> None
     \<and> fmdom (gm_fmap (clocks vc')) = list_nodes vc cs
     \<and> (\<forall>n. GetClock vc' n = Max (insert (GetClock vc n) ((\<lambda>c. GetClock c n) ` set cs)))"
  using assms
proof (induction cs arbitrary: vc)
  case Nil
  then show ?case by (auto simp: list_nodes_def)
next
  case (Cons c cs)
  have "joint_nodes vc c |\<subseteq>| list_nodes vc (c # cs)"
    by (auto simp: list_nodes_def joint_nodes_def)
  then have ok: "merge_allowed vc c"
    using Cons.prems by (auto simp: merge_allowed_def intro: order_trans [OF fcard_mono])
  from Cons.prems(1) obtain f where f: "clocks vc = Some f" by auto
  obtain g where m: "Merge vc (Some c) = Some (vc\<lparr>clocks := Some g\<rparr>, None)"
    using Merge_live_ok [OF f ok] by auto
  let ?v = "vc\<lparr>clocks := Some g\<rparr>"
  have nodes: "fmdom g = joint_nodes vc c"
    using Merge_nodes [OF Cons.prems(1) m] by simp
  have get: "GetClock ?v n = max (GetClock vc n) (GetClock c n)" for n
    by (rule Merge_GetClock [OF Cons.prems(1) m])
  have sub: "list_nodes ?v cs = list_nodes vc (c # cs)"
    using nodes by (auto simp: list_nodes_def joint_nodes_def)
  obtain v' where "merge_list ?v cs = Some (v', None)" "clocks v' \<noteq> None"
    "fmdom (gm_fmap (clocks v')) = list_nodes ?v cs"
    "\<forall>n. GetClock v' n = Max (insert (GetClock ?v n) ((\<lambda>c. GetClock c n) ` set cs))"
    using Cons.IH [of ?v] Cons.prems sub by auto
  then show ?case
    using m sub get by (simp add: Max_insert_max del: Max_insert)
qed

lemma clock_determined:
  assumes "clocks a \<noteq> None" "clocks b \<noteq> None"
    and "fmdom (gm_fmap (clocks a)) = fmdom (gm_fmap (clocks b))" and "\<And>n. GetClock a n = GetClock b n"
  shows "a = b"
proof -
  obtain f g where fg: "clocks a = Some f" "clocks b = Some g" using assms(1,2) by auto
  have "f = g"
  proof (rule fmap_ext)
    fix n
    show "fmlookup f n = fmlookup g n"
    proof (cases "n |\<in>| fmdom f")
      case True
      then have "n |\<in>| fmdom g" using assms(3) fg by simp
      with True assms(4) [of n] fg show ?thesis
        by (auto simp: GetClock_def fmlookup_dom_iff)
    next
      case False
      with assms(3) fg show ?thesis by (metis fmlookup_None_iff gm_fmap_simps(2))
    qed
  qed
  with fg show ?thesis by (cases a; cases b) simp
qed

section \<open>Properties\<close>

text \<open>
  C6: \<open>Compare\<close> decides the causal order of vector clocks: it returns -1 exactly when every
  counter of the first clock is at most the second's and some counter is smaller, 1 exactly in
  the converse case, and 0 exactly when the clocks are concurrent or have the same counters.
\<close>

theorem Compare_decides_causality:
  "(Compare_clock a (Some b) = - 1 \<longleftrightarrow>
      (\<forall>n. GetClock a n \<le> GetClock b n) \<and> (\<exists>n. GetClock a n < GetClock b n))
   \<and> (Compare_clock a (Some b) = 1 \<longleftrightarrow>
      (\<forall>n. GetClock b n \<le> GetClock a n) \<and> (\<exists>n. GetClock b n < GetClock a n))
   \<and> (Compare_clock a (Some b) = 0 \<longleftrightarrow>
      GetClock a = GetClock b \<or>
      (\<exists>n. GetClock a n < GetClock b n) \<and> (\<exists>n. GetClock b n < GetClock a n))"
proof -
  have "\<not> clock_le x y \<longleftrightarrow> (\<exists>n. GetClock y n < GetClock x n)" for x y
    by (auto simp: clock_le_def not_le)
  moreover have "clock_le a b \<and> clock_le b a \<longleftrightarrow> GetClock a = GetClock b"
    by (auto simp: clock_le_def fun_eq_iff intro: antisym)
  ultimately show ?thesis
    unfolding clock_le_def [symmetric] by (auto simp: Compare_clock_le)
qed

text \<open>
  C4: \<open>Merge\<close> on a clock with a map, when the joint node set and the other clock's identifiers
  are within the limits, succeeds and yields the least upper bound of the two clocks: it is
  at or after both, at or before every clock that is, and tracks exactly the nodes of both.
\<close>

theorem Merge_least_upper_bound:
  assumes "clocks vc \<noteq> None" and "merge_allowed vc oc"
  shows "\<exists>vc'. Merge vc (Some oc) = Some (vc', None)
    \<and> clock_le vc vc' \<and> clock_le oc vc'
    \<and> (\<forall>c. clock_le vc c \<longrightarrow> clock_le oc c \<longrightarrow> clock_le vc' c)
    \<and> fmdom (gm_fmap (clocks vc')) = joint_nodes vc oc"
proof -
  obtain f where f: "clocks vc = Some f" using assms(1) by auto
  obtain g where m: "Merge vc (Some oc) = Some (vc\<lparr>clocks := Some g\<rparr>, None)"
    using Merge_live_ok [OF f assms(2)] by auto
  note get = Merge_GetClock [OF assms(1) m]
  show ?thesis
    using m get Merge_nodes [OF assms(1) m] by (auto simp: clock_le_def)
qed

theorem Merge_least_upper_bound_witness:
  "\<exists>vc'. Merge \<lparr>clocks = Some (fmupd ''a'' 2 (fmupd ''b'' 1 fmempty))\<rparr>
        (Some \<lparr>clocks = Some (fmupd ''a'' 1 (fmupd ''c'' 2 fmempty))\<rparr>) = Some (vc', None)
    \<and> clock_le \<lparr>clocks = Some (fmupd ''a'' 2 (fmupd ''b'' 1 fmempty))\<rparr> vc'"
proof -
  let ?x = "\<lparr>clocks = Some (fmupd ''a'' 2 (fmupd ''b'' 1 fmempty))\<rparr> :: vector_clock"
  let ?y = "\<lparr>clocks = Some (fmupd ''a'' 1 (fmupd ''c'' 2 fmempty))\<rparr> :: vector_clock"
  have "merge_allowed ?x ?y"
    by (simp add: merge_allowed_def joint_nodes_def MaxNodeIDLength_def MaxNodes_def fcard_finsert_if)
  then show ?thesis
    using Merge_least_upper_bound [of ?x ?y] by auto
qed

text \<open>
  A refused \<open>Merge\<close> (an overlong identifier in the other clock, or more than \<open>MaxNodes\<close> joint
  nodes) or a refused \<open>Increment\<close> (empty or overlong identifier, or a new node at the limit)
  returns an error and leaves the clock as it was; in particular neither of them panics.
\<close>

theorem refused_operations_keep_clock:
  "(clocks vc \<noteq> None \<longrightarrow> \<not> merge_allowed vc oc \<longrightarrow> (\<exists>err. Merge vc (Some oc) = Some (vc, Some err)))
   \<and> (\<not> increment_allowed vc n \<longrightarrow> (\<exists>err. Increment vc n = Some (vc, Some err)))"
  using Merge_live_refused [of vc oc] Increment_refused [of vc n] by blast

theorem refused_operations_keep_clock_witness:
  "(\<exists>err. Merge NewVectorClock (Some \<lparr>clocks = Some (fmupd (replicate 256 CHR ''x'') 1 fmempty)\<rparr>)
       = Some (NewVectorClock, Some err))
   \<and> (\<exists>err. Increment NewVectorClock [] = Some (NewVectorClock, Some err))"
proof -
  let ?y = "\<lparr>clocks = Some (fmupd (replicate 256 CHR ''x'') 1 fmempty)\<rparr> :: vector_clock"
  have "\<not> merge_allowed NewVectorClock ?y"
    by (simp add: merge_allowed_def MaxNodeIDLength_def)
  moreover have "\<not> increment_allowed NewVectorClock []"
    by (simp add: increment_allowed_def)
  ultimately show ?thesis
    using refused_operations_keep_clock [of NewVectorClock ?y "[]"] by simp
qed

text \<open>
  Go does not fix the order in which a map is ranged over; \<open>Merge\<close> and \<open>Compare\<close> return
  the same result for every order of the keys.
\<close>

theorem range_order_irrelevant:
  assumes "clocks vc \<noteq> None" and "enumerates ks (clocks oc)" and "set js = set (all_nodes vc oc)"
  shows "Merge_in_order ks vc oc = Merge vc (Some oc)
    \<and> Compare_in_order js vc oc = Compare_clock vc (Some oc)"
  using Merge_any_order [OF assms(2,1)] Compare_any_order [OF assms(3)] by simp

theorem range_order_irrelevant_witness:
  "Merge_in_order [''b'', ''a''] NewVectorClock \<lparr>clocks = Some (fmupd ''a'' 1 (fmupd ''b'' 1 fmempty))\<rparr>
     = Merge NewVectorClock (Some \<lparr>clocks = Some (fmupd ''a'' 1 (fmupd ''b'' 1 fmempty))\<rparr>)"
proof -
  let ?y = "\<lparr>clocks = Some (fmupd ''a'' 1 (fmupd ''b'' 1 fmempty))\<rparr> :: vector_clock"
  have e: "enumerates [''b'', ''a''] (clocks ?y)"
    by (auto simp: enumerates_def)
  have "clocks NewVectorClock \<noteq> None" by simp
  then show ?thesis
    using range_order_irrelevant [OF _ e, of NewVectorClock "all_nodes NewVectorClock ?y"] by blast
qed

text \<open>
  C5: convergence: two replicas that start from the same clock and merge the same clocks, in
  any order and with any repetitions, end with the same clock, and none of the merges fails,
  provided the nodes involved are within the limits.
\<close>

theorem replicas_converge:
  assumes "clocks vc \<noteq> None" and "set xs = set ys"
    and "\<forall>c \<in> set xs. \<forall>n \<in> fmdom' (gm_fmap (clocks c)). length n \<le> MaxNodeIDLength"
    and "fcard (list_nodes vc xs) \<le> MaxNodes"
  shows "\<exists>vc'. merge_list vc xs = Some (vc', None) \<and> merge_list vc ys = Some (vc', None)"
proof -
  have nodes: "list_nodes vc ys = list_nodes vc xs"
    using fset_of_list_cong [OF assms(2)] by (simp add: list_nodes_def)
  obtain a where a: "merge_list vc xs = Some (a, None)" "clocks a \<noteq> None"
    "fmdom (gm_fmap (clocks a)) = list_nodes vc xs"
    "\<forall>n. GetClock a n = Max (insert (GetClock vc n) ((\<lambda>c. GetClock c n) ` set xs))"
    using merge_list_result [OF assms(1,3,4)] by auto
  obtain b where b: "merge_list vc ys = Some (b, None)" "clocks b \<noteq> None"
    "fmdom (gm_fmap (clocks b)) = list_nodes vc ys"
    "\<forall>n. GetClock b n = Max (insert (GetClock vc n) ((\<lambda>c. GetClock c n) ` set ys))"
    using merge_list_result [OF assms(1), of ys] assms(2-4) nodes by auto
  have "a = b"
    using a b nodes assms(2) by (intro clock_determined) auto
  with a b show ?thesis by blast
qed

theorem replicas_converge_witness:
  "\<exists>vc'. merge_list NewVectorClock [\<lparr>clocks = Some (fmupd ''a'' 1 fmempty)\<rparr>, \<lparr>clocks = Some (fmupd ''b'' 2 fmempty)\<rparr>]
       = Some (vc', None)
    \<and> merge_list NewVectorClock [\<lparr>clocks = Some (fmupd ''b'' 2 fmempty)\<rparr>, \<lparr>clocks = Some (fmupd ''a'' 1 fmempty)\<rparr>,
         \<lparr>clocks = Some (fmupd ''b'' 2 fmempty)\<rparr>] = Some (vc', None)"
proof -
  let ?a = "\<lparr>clocks = Some (fmupd ''a'' 1 fmempty)\<rparr> :: vector_clock"
  let ?b = "\<lparr>clocks = Some (fmupd ''b'' 2 fmempty)\<rparr> :: vector_clock"
  have "fcard (list_nodes NewVectorClock [?a, ?b]) \<le> MaxNodes"
    by (simp add: list_nodes_def MaxNodes_def fcard_finsert_if)
  moreover have "\<forall>c \<in> set [?a, ?b]. \<forall>n \<in> fmdom' (gm_fmap (clocks c)). length n \<le> MaxNodeIDLength"
    by (simp add: MaxNodeIDLength_def)
  moreover have "set [?a, ?b] = set [?b, ?a, ?b]" by auto
  ultimately show ?thesis
    using replicas_converge [of NewVectorClock "[?a, ?b]" "[?b, ?a, ?b]"] by simp
qed

text \<open>
  Every clock a program obtains with \<open>NewVectorClock\<close>, \<open>Increment\<close> and \<open>Merge\<close>, whatever the
  arguments and the errors returned on the way, has a map, tracks at most \<open>MaxNodes\<close> nodes and
  has no identifier longer than \<open>MaxNodeIDLength\<close>.
\<close>

theorem clock_run_wf:
  assumes "clock_run vc"
  shows "clock_wf vc"
  using assms
proof (induction rule: clock_run.induct)
  case run_new
  show ?case by (rule clock_wf_New)
next
  case (run_increment vc n vc' err)
  then show ?case by (blast intro: Increment_wf)
next
  case (run_merge vc oc vc' err)
  then show ?case by (blast intro: Merge_wf)
qed

theorem clock_run_wf_witness:
  "clock_wf \<lparr>clocks = Some (fmupd ''a'' 1 fmempty)\<rparr>"
proof -
  have "Increment NewVectorClock ''a'' = Some (\<lparr>clocks = Some (fmupd ''a'' 1 fmempty)\<rparr>, None)"
    by (simp add: Increment_def MaxNodeIDLength_def MaxNodes_def NewVectorClock_def GetClock_def)
  then show ?thesis
    using clock_run_wf [OF clock_run.run_increment [OF clock_run.run_new]] by blast
qed

text \<open>
  Two events produced at different nodes from the same causal past are detected as
  concurrent: after accepted increments of different nodes (with no counter at its maximum),
  each result happened after the common past and the two results are concurrent.
\<close>

theorem increments_concurrent:
  assumes "Increment vc n = Some (a, None)" and "Increment vc m = Some (b, None)" and "n \<noteq> m"
    and "GetClock vc n \<noteq> - 1" and "GetClock vc m \<noteq> - 1"
  shows "HappenedBefore vc (Some a) \<and> HappenedBefore vc (Some b) \<and> IsConcurrentWith a (Some b)"
proof -
  have up: "GetClock vc k < GetClock vc k + 1" if "GetClock vc k \<noteq> - 1" for k
    using that unat_inc_no_wrap [of "GetClock vc k"] by (simp add: word_less_nat_alt)
  note ga = Increment_GetClock [OF assms(1)] and gb = Increment_GetClock [OF assms(2)]
  have le: "clock_le vc a" "clock_le vc b" "\<not> clock_le a vc" "\<not> clock_le b vc"
    "\<not> clock_le a b" "\<not> clock_le b a"
    using up [OF assms(4)] up [OF assms(5)] assms(3) ga gb
    by (auto simp: clock_le_def less_imp_le not_le intro: exI [of _ n] exI [of _ m])
  have "n \<in> set (gm_keys (clocks a))" "the (gm_lookup (clocks a) n) = GetClock vc n + 1"
    using assms(1) by (cases "clocks vc";
      auto simp: Increment_def GetClock_def gm_keys_def split: if_splits)+
  moreover have "GetClock b n \<noteq> GetClock vc n + 1"
    using gb assms(3) by auto
  ultimately have "\<not> IsEqual a (Some b)"
    by (auto simp: IsEqual_def list_all_iff intro!: bexI [of _ n])
  with le show ?thesis
    by (simp add: HappenedBefore_le IsConcurrentWith_def Compare_clock_le)
qed

theorem increments_concurrent_witness:
  "IsConcurrentWith \<lparr>clocks = Some (fmupd ''a'' 1 fmempty)\<rparr> (Some \<lparr>clocks = Some (fmupd ''b'' 1 fmempty)\<rparr>)"
proof -
  have "Increment NewVectorClock ''a'' = Some (\<lparr>clocks = Some (fmupd ''a'' 1 fmempty)\<rparr>, None)"
    and "Increment NewVectorClock ''b'' = Some (\<lparr>clocks = Some (fmupd ''b'' 1 fmempty)\<rparr>, None)"
    by (simp_all add: Increment_def MaxNodeIDLength_def MaxNodes_def NewVectorClock_def GetClock_def)
  then show ?thesis
    using increments_concurrent [of NewVectorClock "''a''" _ "''b''"] by simp
qed

text \<open>
  \<open>IsEqual\<close> is equality of the counters on clocks without explicit zero counters. With a
  zero counter it is not: {"a":0} is reported equal to {"b":5} although it happened before
  it, and {"b":5} is not reported equal to {"a":0}.
\<close>

theorem IsEqual_zero_counters:
  "(clock_pos a \<longrightarrow> clock_pos b \<longrightarrow> (IsEqual a (Some b) \<longleftrightarrow> gm_fmap (clocks a) = gm_fmap (clocks b)))
   \<and> (let x = NewVectorClockFromMap (Some (fmupd ''a'' 0 fmempty));
          y = NewVectorClockFromMap (Some (fmupd ''b'' 5 fmempty))
      in IsEqual x (Some y) \<and> HappenedBefore x (Some y) \<and> \<not> IsEqual y (Some x))"
proof -
  have "(let x = NewVectorClockFromMap (Some (fmupd ''a'' 0 fmempty));
          y = NewVectorClockFromMap (Some (fmupd ''b'' 5 fmempty))
      in IsEqual x (Some y) \<and> HappenedBefore x (Some y) \<and> \<not> IsEqual y (Some x))"
    by code_simp
  then show ?thesis using IsEqual_pos by blast
qed

theorem IsEqual_zero_counters_witness:
  "IsEqual \<lparr>clocks = Some (fmupd ''a'' 1 fmempty)\<rparr> (Some \<lparr>clocks = Some (fmupd ''a'' 1 fmempty)\<rparr>)"
proof -
  have "clock_pos \<lparr>clocks = Some (fmupd ''a'' 1 fmempty)\<rparr>"
    by (simp add: clock_pos_def)
  then show ?thesis using IsEqual_zero_counters by simp
qed

end
