(* ===== verification/Json_Text.thy ===== *)
theory Json_Text
  imports Go_Values
begin

text \<open>
  The text that \<open>encoding/json\<close> produces for a \<open>map[string]uint64\<close>, byte for byte: keys in
  ascending byte order, strings quoted and escaped with the HTML-safe escapes of
  \<open>json.Marshal\<close>, bytes that are not valid UTF-8 replaced by the escape of U+FFFD, the nil map
  as null. \<open>bytes_compare\<close> is \<open>bytes.Compare\<close>.
\<close>

section \<open>Strings\<close>

definition byte_of :: "char \<Rightarrow> nat" where
  "byte_of c = of_char c"

definition hex_digit :: "nat \<Rightarrow> char" where
  "hex_digit d = (if d < 10 then char_of (48 + d) else char_of (87 + d))"

definition escape_ascii :: "char \<Rightarrow> string" where
  "escape_ascii c =
     (let b = byte_of c in
      if b = 34 \<or> b = 92 then [CHR 0x5C, c]
      else if b = 8 then [CHR 0x5C, CHR ''b'']
      else if b = 12 then [CHR 0x5C, CHR ''f'']
      else if b = 10 then [CHR 0x5C, CHR ''n'']
      else if b = 13 then [CHR 0x5C, CHR ''r'']
      else if b = 9 then [CHR 0x5C, CHR ''t'']
      else if b < 32 \<or> b = 60 \<or> b = 62 \<or> b = 38
        then [CHR 0x5C, CHR ''u'', CHR ''0'', CHR ''0'', hex_digit (b div 16), hex_digit (b mod 16)]
      else [c])"

definition utf8_cont :: "char \<Rightarrow> bool" where
  "utf8_cont c \<longleftrightarrow> 128 \<le> byte_of c \<and> byte_of c \<le> 191"

text \<open>The length of the multi-byte UTF-8 sequence at the head of a string, 0 if it is not valid.\<close>

fun utf8_len :: "string \<Rightarrow> nat" where
  "utf8_len (a # b # s) =
     (let x = byte_of a; y = byte_of b in
      if 194 \<le> x \<and> x \<le> 223 then (if utf8_cont b then 2 else 0)
      else if 224 \<le> x \<and> x \<le> 239 then
        (case s of
           c # _ \<Rightarrow> if utf8_cont b \<and> utf8_cont c \<and> (x = 224 \<longrightarrow> 160 \<le> y) \<and> (x = 237 \<longrightarrow> y \<le> 159) then 3 else 0
         | [] \<Rightarrow> 0)
      else if 240 \<le> x \<and> x \<le> 244 then
        (case s of
           c # d # _ \<Rightarrow>
             if utf8_cont b \<and> utf8_cont c \<and> utf8_cont d \<and> (x = 240 \<longrightarrow> 144 \<le> y) \<and> (x = 244 \<longrightarrow> y \<le> 143)
             then 4 else 0
         | _ \<Rightarrow> 0)
      else 0)"
| "utf8_len _ = 0"

function json_escape :: "string \<Rightarrow> string" where
  "json_escape [] = []"
| "json_escape (c # s) =
     (if byte_of c < 128 then escape_ascii c @ json_escape s
      else let n = utf8_len (c # s) in
        if n = 0 then [CHR 0x5C] @ ''ufffd'' @ json_escape s
        else if take 3 (c # s) = [CHR 0xE2, CHR 0x80, CHR 0xA8] then [CHR 0x5C] @ ''u2028'' @ json_escape (drop (n - 1) s)
        else if take 3 (c # s) = [CHR 0xE2, CHR 0x80, CHR 0xA9] then [CHR 0x5C] @ ''u2029'' @ json_escape (drop (n - 1) s)
        else take n (c # s) @ json_escape (drop (n - 1) s))"
  by pat_completeness auto
termination
  by (relation "measure length") (auto simp: le_imp_less_Suc)

definition json_string :: "string \<Rightarrow> string" where
  "json_string s = [CHR 0x22] @ json_escape s @ [CHR 0x22]"

section \<open>Maps of counters\<close>

definition json_member :: "string \<Rightarrow> u64 \<Rightarrow> string" where
  "json_member k v = json_string k @ '':'' @ u64_dec v"

definition json_counters :: "(string, u64) gomap \<Rightarrow> string" where
  "json_counters m = (case m of
       None \<Rightarrow> ''null''
     | Some f \<Rightarrow> ''{'' @ join '','' (map (\<lambda>k. json_member k (the (fmlookup f k))) (fm_keys f)) @ ''}'')"

section \<open>Comparison of texts\<close>

definition bytes_compare :: "string \<Rightarrow> string \<Rightarrow> int" where
  "bytes_compare a b = (if a < b then - 1 else if a = b then 0 else 1)"

lemma bytes_compare_self [simp]: "bytes_compare a a = 0"
  by (simp add: bytes_compare_def)

lemma bytes_compare_lt_iff [simp]: "bytes_compare a b = - 1 \<longleftrightarrow> a < b"
  by (simp add: bytes_compare_def)

lemma bytes_compare_gt_iff [simp]: "bytes_compare a b = 1 \<longleftrightarrow> b < a"
  by (auto simp: bytes_compare_def)

lemma bytes_compare_eq_iff [simp]: "bytes_compare a b = 0 \<longleftrightarrow> a = b"
  by (simp add: bytes_compare_def)

end
