(* ===== verification/Versions.thy ===== *)
theory Versions
  imports Vector_Clock Json_Text
begin

text \<open>
  The \<open>Version\<close> interface (synckit/types/types.go) over its implementations: the integer and
  vector cursors of cursor/cursor.go and the vector clock of version/vector_clock.go, a pointer
  that may be nil. A value of interface type is a \<open>version option\<close>, \<open>None\<close> being the nil
  interface; a method call on it panics. The locale \<open>version_order\<close> states what clients rely on
  when they compare versions; it is interpreted on the model's \<open>Compare\<close>, and
  its lemmas (the latest version of a list is maximal) serve the sync manager and the
  transports.
\<close>

section \<open>Versions\<close>

datatype version =
    IntegerCursor (Seq: u64)
  | VectorCursor (Counters: "(string, u64) gomap")
  | VClock "vector_clock option"

definition NewInteger :: "u64 \<Rightarrow> version" where
  "NewInteger seq = IntegerCursor seq"

definition NewVector :: "(string, u64) gomap \<Rightarrow> version" where
  "NewVector counters = VectorCursor counters"

definition Compare_integer :: "u64 \<Rightarrow> version option \<Rightarrow> int" where
  "Compare_integer seq other =
     (case other of
        None \<Rightarrow> 1
      | Some (IntegerCursor oseq) \<Rightarrow> if seq < oseq then - 1 else if seq > oseq then 1 else 0
      | Some _ \<Rightarrow> 0)"

definition Compare_vector :: "(string, u64) gomap \<Rightarrow> version option \<Rightarrow> int" where
  "Compare_vector counters other =
     (case other of
        None \<Rightarrow> 1
      | Some (VectorCursor ocounters) \<Rightarrow> bytes_compare (json_counters counters) (json_counters ocounters)
      | Some _ \<Rightarrow> 0)"

text \<open>
  The dispatch of a \<open>Compare\<close> call on the dynamic type of the receiver. A nil \<open>*VectorClock\<close>
  receiver is dereferenced only after the argument was found to be a \<open>*VectorClock\<close>.
\<close>

fun Compare :: "version \<Rightarrow> version option \<Rightarrow> int go" where
  "Compare (IntegerCursor seq) other = Some (Compare_integer seq other)"
| "Compare (VectorCursor counters) other = Some (Compare_vector counters other)"
| "Compare (VClock (Some vc)) other =
     Some (case other of Some (VClock oc) \<Rightarrow> Compare_clock vc oc | _ \<Rightarrow> 0)"
| "Compare (VClock None) other = (case other of Some (VClock _) \<Rightarrow> None | _ \<Rightarrow> Some 0)"

fun IsZero :: "version \<Rightarrow> bool go" where
  "IsZero (IntegerCursor seq) = Some (seq = 0)"
| "IsZero (VectorCursor counters) = Some (gm_len counters = 0)"
| "IsZero (VClock (Some vc)) = Some (IsZero_clock vc)"
| "IsZero (VClock None) = None"

definition String_clock :: "vector_clock \<Rightarrow> string" where
  "String_clock vc = (if IsZero_clock vc then ''{}'' else json_counters (clocks vc))"

fun Version_String :: "version \<Rightarrow> string go" where
  "Version_String (IntegerCursor seq) = Some (u64_dec seq)"
| "Version_String (VectorCursor counters) = Some (json_counters counters)"
| "Version_String (VClock (Some vc)) = Some (String_clock vc)"
| "Version_String (VClock None) = None"

text \<open>Method calls through a \<open>Version\<close> interface value.\<close>

definition iface_Compare :: "version option \<Rightarrow> version option \<Rightarrow> int go" where
  "iface_Compare v other = v \<bind> (\<lambda>r. Compare r other)"

definition iface_IsZero :: "version option \<Rightarrow> bool go" where
  "iface_IsZero v = v \<bind> IsZero"

definition iface_String :: "version option \<Rightarrow> string go" where
  "iface_String v = v \<bind> Version_String"

text \<open>A proper version is one on which no method panics: not a nil vector clock.\<close>

definition proper :: "version \<Rightarrow> bool" where
  "proper v \<longleftrightarrow> v \<noteq> VClock None"

lemma proper_simps [simp]:
  "proper (IntegerCursor s)" "proper (VectorCursor m)" "proper (VClock c) \<longleftrightarrow> c \<noteq> None"
  by (simp_all add: proper_def)

section \<open>The order on versions\<close>

locale version_order =
  fixes ok :: "'v \<Rightarrow> bool"
    and cmp :: "'v \<Rightarrow> 'v \<Rightarrow> int"
  assumes cmp_values: "ok a \<Longrightarrow> ok b \<Longrightarrow> cmp a b \<in> {- 1, 0, 1}"
    and cmp_flip: "ok a \<Longrightarrow> ok b \<Longrightarrow> cmp b a = - cmp a b"
    and cmp_trans: "ok a \<Longrightarrow> ok b \<Longrightarrow> ok c \<Longrightarrow> cmp a b = - 1 \<Longrightarrow> cmp b c = - 1 \<Longrightarrow> cmp a c = - 1"
begin

lemma cmp_self: "ok a \<Longrightarrow> cmp a a = 0"
  using cmp_flip [of a a] by simp

lemma cmp_pos_iff: "ok a \<Longrightarrow> ok b \<Longrightarrow> cmp a b > 0 \<longleftrightarrow> cmp b a = - 1"
  using cmp_values [of a b] cmp_flip [of a b] by auto

text \<open>
  Taking over an element whenever it is after the current one leaves an element of the list
  that no element of the list is after.
\<close>

definition keep_later :: "'v \<Rightarrow> 'v \<Rightarrow> 'v" where
  "keep_later latest v = (if cmp v latest > 0 then v else latest)"

lemma keep_later_mem: "foldl keep_later x xs \<in> insert x (set xs)"
  by (induction xs arbitrary: x) (auto simp: keep_later_def)

lemma keep_later_grows:
  assumes "ok x" and "\<forall>v \<in> set xs. ok v"
  shows "foldl keep_later x xs = x \<or> cmp x (foldl keep_later x xs) = - 1"
  using assms
proof (induction xs arbitrary: x)
  case (Cons v xs)
  show ?case
  proof (cases "cmp v x > 0")
    case True
    then have lt: "cmp x v = - 1" using Cons.prems cmp_pos_iff by simp
    have "foldl keep_later v xs = v \<or> cmp v (foldl keep_later v xs) = - 1"
      using Cons by simp
    moreover have "ok (foldl keep_later v xs)"
      using keep_later_mem [of v xs] Cons.prems by auto
    ultimately have "cmp x (foldl keep_later v xs) = - 1"
      using lt Cons.prems cmp_trans [of x v] by auto
    moreover have "keep_later x v = v" using True by (simp add: keep_later_def)
    ultimately show ?thesis by simp
  next
    case False
    then have "keep_later x v = x" by (simp add: keep_later_def)
    with Cons show ?thesis by simp
  qed
qed simp

lemma keep_later_maximal:
  assumes "ok x" and "\<forall>v \<in> set xs. ok v" and "v \<in> insert x (set xs)"
  shows "\<not> cmp v (foldl keep_later x xs) > 0"
  using assms
proof (induction xs arbitrary: x)
  case Nil
  then show ?case using cmp_self by simp
next
  case (Cons w xs)
  let ?y = "keep_later x w"
  have y: "ok ?y" using Cons.prems by (simp add: keep_later_def)
  have r: "ok (foldl keep_later ?y xs)"
    using keep_later_mem [of ?y xs] Cons.prems y by auto
  have above: "\<not> cmp u (foldl keep_later ?y xs) > 0" if "u \<in> {x, w}" for u
  proof
    assume pos: "cmp u (foldl keep_later ?y xs) > 0"
    have u: "ok u" using that Cons.prems by auto
    have "cmp (foldl keep_later ?y xs) u = - 1"
      using pos cmp_pos_iff [OF u r] by simp
    moreover have "foldl keep_later ?y xs = ?y \<or> cmp ?y (foldl keep_later ?y xs) = - 1"
      using keep_later_grows [OF y] Cons.prems by simp
    ultimately have "cmp ?y u = - 1"
      using cmp_trans [OF y r u] by auto
    then show False
      using that cmp_self cmp_pos_iff [of w x] cmp_flip [of x w] Cons.prems
      by (auto simp: keep_later_def split: if_splits)
  qed
  show ?case
  proof (cases "v \<in> {x, w}")
    case True
    then show ?thesis using above by simp
  next
    case False
    then show ?thesis using Cons.IH [OF y] Cons.prems by simp
  qed
qed

end

text \<open>The comparison of two proper versions, without the panic.\<close>

definition vcmp :: "version \<Rightarrow> version \<Rightarrow> int" where
  "vcmp a b = the (Compare a (Some b))"

lemma Compare_proper: "proper a \<Longrightarrow> Compare a (Some b) = Some (vcmp a b)"
  by (cases "(a, Some b)" rule: Compare.cases) (auto simp: vcmp_def)

lemma vcmp_simps:
  "vcmp (IntegerCursor s) (IntegerCursor t) = (if s < t then - 1 else if t < s then 1 else 0)"
  "vcmp (VectorCursor m) (VectorCursor n) = bytes_compare (json_counters m) (json_counters n)"
  "vcmp (VClock (Some a)) (VClock (Some b)) =
     (if clock_le a b then if clock_le b a then 0 else - 1 else if clock_le b a then 1 else 0)"
  "vcmp (IntegerCursor s) (VectorCursor m) = 0" "vcmp (IntegerCursor s) (VClock c) = 0"
  "vcmp (VectorCursor m) (IntegerCursor s) = 0" "vcmp (VectorCursor m) (VClock c) = 0"
  "vcmp (VClock (Some a)) (IntegerCursor s) = 0" "vcmp (VClock (Some a)) (VectorCursor m) = 0"
  by (simp_all add: vcmp_def Compare_integer_def Compare_vector_def Compare_clock_le)

interpretation vo: version_order proper vcmp
proof unfold_locales
  fix a b :: version
  assume "proper a" "proper b"
  then show "vcmp a b \<in> {- 1, 0, 1}"
    by (cases a; cases b) (auto simp: vcmp_simps bytes_compare_def split: if_splits)
  show "vcmp b a = - vcmp a b"
    using \<open>proper a\<close> \<open>proper b\<close> by (cases a; cases b) (auto simp: vcmp_simps bytes_compare_def)
next
  fix a b c :: version
  assume "proper a" "proper b" "proper c" "vcmp a b = - 1" "vcmp b c = - 1"
  then show "vcmp a c = - 1"
    by (cases a; cases b; cases c)
      (auto simp: vcmp_simps split: if_splits intro: clock_le_trans)
qed

section \<open>Properties\<close>

text \<open>
  Across all implementations of \<open>Version\<close>, \<open>Compare\<close> on proper versions never panics, returns
  only -1, 0 or 1, flips its sign when the operands are exchanged, and the relation "before" it
  decides is a strict partial order (versions of different kinds are never ordered).
\<close>

theorem Compare_strict_partial_order:
  assumes "proper a" and "proper b" and "proper c"
  shows "(\<exists>r \<in> {- 1, 0, 1}. Compare a (Some b) = Some r \<and> Compare b (Some a) = Some (- r))
    \<and> Compare a (Some a) = Some 0
    \<and> (Compare a (Some b) = Some (- 1) \<longrightarrow> Compare b (Some c) = Some (- 1) \<longrightarrow> Compare a (Some c) = Some (- 1))"
  using vo.cmp_values [OF assms(1,2)] vo.cmp_flip [OF assms(1,2)] vo.cmp_self [OF assms(1)]
    vo.cmp_trans [OF assms] assms
  by (simp add: Compare_proper)

theorem Compare_strict_partial_order_witness:
  "Compare (IntegerCursor 1) (Some (IntegerCursor 3)) = Some (- 1)"
proof -
  have "Compare (IntegerCursor 1) (Some (IntegerCursor 2)) = Some (- 1)"
    and "Compare (IntegerCursor 2) (Some (IntegerCursor 3)) = Some (- 1)"
    by (simp_all add: Compare_integer_def)
  then show ?thesis
    using Compare_strict_partial_order [of "IntegerCursor 1" "IntegerCursor 2" "IntegerCursor 3"] by simp
qed

text \<open>
  The order of vector cursors is the byte order of their JSON texts and not the causal
  order: the cursor with counter 10 for a node is reported before the cursor with counter 9
  for it, although as vector clocks the first happened after the second.
\<close>

theorem vector_cursor_order_not_causal:
  "Compare (VectorCursor m) (Some (VectorCursor n)) = Some (bytes_compare (json_counters m) (json_counters n))
   \<and> Compare (VectorCursor (Some (fmupd ''a'' 10 fmempty))) (Some (VectorCursor (Some (fmupd ''a'' 9 fmempty))))
       = Some (- 1)
   \<and> HappenedAfter (NewVectorClockFromMap (Some (fmupd ''a'' 10 fmempty)))
       (Some (NewVectorClockFromMap (Some (fmupd ''a'' 9 fmempty))))"
proof -
  have "Compare (VectorCursor (Some (fmupd ''a'' 10 fmempty))) (Some (VectorCursor (Some (fmupd ''a'' 9 fmempty))))
       = Some (- 1)"
    by code_simp
  moreover have "HappenedAfter (NewVectorClockFromMap (Some (fmupd ''a'' 10 fmempty)))
       (Some (NewVectorClockFromMap (Some (fmupd ''a'' 9 fmempty))))"
    by code_simp
  ultimately show ?thesis by (simp add: Compare_vector_def)
qed

end
