(* ===== verification/Events.thy ===== *)
theory Events
  imports Versions
begin

text \<open>
  Events and the conflict data (event/event.go, synckit/types/types.go). The record \<open>event\<close>
  is a value of the \<open>Event\<close> interface as its clients see it: the results of its five methods,
  together with the \<open>Timestamp\<close> and \<open>Offset\<close> fields of the concrete \<open>event.Event\<close> (zero for other
  implementations) and, for events that carry a vector clock (the interface the versioned
  store looks for), that clock. Times are nanoseconds, 0 for the zero time.
\<close>

datatype clock_slot = NoClock | HasClock "vector_clock option"

record event =
  EventID :: string
  EventType :: string
  EventAggregateID :: string
  EventData :: go_any
  EventMetadata :: metadata
  Timestamp :: int
  Offset :: i64
  ClockSlot :: clock_slot

record event_with_version =
  ev_Event :: "event option"
  ev_Version :: "version option"

text \<open>
  Both fields of an \<open>EventWithVersion\<close> are interfaces and may be nil (\<open>None\<close>).

  Constructors of event.Event, which takes its time stamp from the clock.\<close>

definition New_event :: "int \<Rightarrow> string \<Rightarrow> string \<Rightarrow> string \<Rightarrow> 8 word list \<Rightarrow> event" where
  "New_event now eid etype aggregateID data =
     \<lparr>EventID = eid, EventType = etype, EventAggregateID = aggregateID, EventData = GBytes data,
      EventMetadata = Some fmempty, Timestamp = now, Offset = 0, ClockSlot = NoClock\<rparr>"

definition NewWithMetadata :: "int \<Rightarrow> string \<Rightarrow> string \<Rightarrow> string \<Rightarrow> 8 word list \<Rightarrow> metadata \<Rightarrow> event" where
  "NewWithMetadata now eid etype aggregateID data md =
     \<lparr>EventID = eid, EventType = etype, EventAggregateID = aggregateID, EventData = GBytes data,
      EventMetadata = (case md of None \<Rightarrow> Some fmempty | Some _ \<Rightarrow> md), Timestamp = now, Offset = 0,
      ClockSlot = NoClock\<rparr>"

text \<open>\<open>Metadata()\<close> of event.Event never returns the nil map.\<close>

definition Metadata_method :: "metadata \<Rightarrow> metadata" where
  "Metadata_method md = (case md of None \<Rightarrow> Some fmempty | Some _ \<Rightarrow> md)"

text \<open>Filters of the store interface, and the conflict types.\<close>

record filter_kv =
  Key :: string
  Value :: string

record conflict =
  cf_EventType :: string
  cf_AggregateID :: string
  cf_ChangedFields :: "string list"
  cf_Metadata :: metadata
  cf_Local :: event_with_version
  cf_Remote :: event_with_version

record resolved_conflict =
  ResolvedEvents :: "event_with_version list"
  Decision :: string
  Reasons :: "string list"

end
