(* ===== verification/Resolvers.thy ===== *)
theory Resolvers
  imports Events
begin

text \<open>
  Conflict resolution (synckit/spec.go, synckit/resolver.go, synckit/resolvers.go): matching
  specifications, the built-in strategies and the dynamic resolver that dispatches a conflict
  to the first rule that matches. A specification and a resolver are functions that may panic
  (user code, and comparison of uncomparable metadata); nil ones are \<open>None\<close>. The hooks the
  dynamic resolver calls are recorded, in order, as a list of \<open>hook_call\<close>.
\<close>

section \<open>Specifications\<close>

type_synonym spec = "conflict \<Rightarrow> bool go"
type_synonym resolver = "go_error option \<Rightarrow> conflict \<Rightarrow> (go_error + resolved_conflict) go"

text \<open>\<open>&&\<close> on computations: the right operand is evaluated only if the left one is true.\<close>

definition and_then :: "bool go \<Rightarrow> bool go \<Rightarrow> bool go" where
  "and_then a b = a \<bind> (\<lambda>x. if x then b else Some False)"

definition or_else :: "bool go \<Rightarrow> bool go \<Rightarrow> bool go" where
  "or_else a b = a \<bind> (\<lambda>x. if x then Some True else b)"

definition call_spec :: "spec option \<Rightarrow> conflict \<Rightarrow> bool go" where
  "call_spec a c = a \<bind> (\<lambda>f. f c)"

definition And :: "spec option \<Rightarrow> spec option \<Rightarrow> spec" where
  "And a b = (\<lambda>c. if a \<noteq> None \<and> b \<noteq> None then and_then (call_spec a c) (call_spec b c) else Some False)"

definition Or :: "spec option \<Rightarrow> spec option \<Rightarrow> spec" where
  "Or a b = (\<lambda>c. or_else (if a \<noteq> None then call_spec a c else Some False)
                        (if b \<noteq> None then call_spec b c else Some False))"

definition Not_spec :: "spec option \<Rightarrow> spec" where
  "Not_spec a = (\<lambda>c. case a of None \<Rightarrow> Some True | Some f \<Rightarrow> map_option Not (f c))"

definition EventTypeIs :: "string \<Rightarrow> spec" where
  "EventTypeIs t = (\<lambda>c. Some (cf_EventType c = t))"

definition AnyFieldIn :: "string list \<Rightarrow> spec" where
  "AnyFieldIn names = (\<lambda>c. Some (list_ex (\<lambda>f. f \<in> set names) (cf_ChangedFields c)))"

fun anyEqual :: "go_any \<Rightarrow> go_any \<Rightarrow> bool go" where
  "anyEqual (GString a) b = Some (case b of GString x \<Rightarrow> a = x | _ \<Rightarrow> False)"
| "anyEqual (GInt a) b = Some (case b of GInt x \<Rightarrow> a = x | _ \<Rightarrow> False)"
| "anyEqual (GInt64 a) b = Some (case b of GInt64 x \<Rightarrow> a = x | _ \<Rightarrow> False)"
| "anyEqual (GUint64 a) b = Some (case b of GUint64 x \<Rightarrow> a = x | _ \<Rightarrow> False)"
| "anyEqual (GBool a) b = Some (case b of GBool x \<Rightarrow> a = x | _ \<Rightarrow> False)"
| "anyEqual a b = iface_eq a b"

definition MetadataEq :: "string \<Rightarrow> go_any \<Rightarrow> spec" where
  "MetadataEq key value = (\<lambda>c.
     case cf_Metadata c of
       None \<Rightarrow> Some False
     | Some md \<Rightarrow> (case fmlookup md key of None \<Rightarrow> Some False | Some v \<Rightarrow> anyEqual v value))"

definition FieldChanged :: "string \<Rightarrow> spec" where
  "FieldChanged field = (\<lambda>c. Some (list_ex (\<lambda>f. f = field) (cf_ChangedFields c)))"

definition AggregateIDMatches :: "string \<Rightarrow> spec" where
  "AggregateIDMatches pattern = (\<lambda>c. Some (cf_AggregateID c = pattern))"

definition AlwaysMatch :: spec where
  "AlwaysMatch = (\<lambda>c. Some True)"

fun AndMatcher :: "spec option list \<Rightarrow> spec" where
  "AndMatcher [] c = Some True"
| "AndMatcher (sp # sps) c =
     (case sp of None \<Rightarrow> Some False | Some f \<Rightarrow> f c \<bind> (\<lambda>b. if b then AndMatcher sps c else Some False))"

section \<open>Strategies\<close>

definition decide :: "event_with_version list \<Rightarrow> string \<Rightarrow> string list \<Rightarrow> (go_error + resolved_conflict) go" where
  "decide evs decision reasons = Some (Inr \<lparr>ResolvedEvents = evs, Decision = decision, Reasons = reasons\<rparr>)"

definition LastWriteWins :: resolver where
  "LastWriteWins ctx c =
     (if ev_Version (cf_Local c) = None \<and> ev_Version (cf_Remote c) = None then decide [] ''noop'' [''no versions'']
      else if ev_Version (cf_Local c) = None then decide [cf_Remote c] ''keep_remote'' [''local missing'']
      else if ev_Version (cf_Remote c) = None then decide [cf_Local c] ''keep_local'' [''remote missing'']
      else do {
        r \<leftarrow> iface_Compare (ev_Version (cf_Local c)) (ev_Version (cf_Remote c));
        if r = - 1 then decide [cf_Remote c] ''keep_remote'' [''remote newer'']
        else if r = 1 then decide [cf_Local c] ''keep_local'' [''local newer'']
        else decide [cf_Remote c] ''keep_remote'' [''equal versions, prefer remote'']
      })"

definition FirstWriteWins :: resolver where
  "FirstWriteWins ctx c =
     (if ev_Version (cf_Local c) = None \<and> ev_Version (cf_Remote c) = None then decide [] ''noop'' [''no versions'']
      else if ev_Version (cf_Local c) = None then decide [cf_Remote c] ''keep_remote'' [''local missing'']
      else if ev_Version (cf_Remote c) = None then decide [cf_Local c] ''keep_local'' [''remote missing'']
      else do {
        r \<leftarrow> iface_Compare (ev_Version (cf_Local c)) (ev_Version (cf_Remote c));
        if r = - 1 then decide [cf_Local c] ''keep_local'' [''local is first'']
        else if r = 1 then decide [cf_Remote c] ''keep_remote'' [''remote is first'']
        else decide [cf_Local c] ''keep_local'' [''equal versions, prefer local'']
      })"

text \<open>The zero \<open>EventWithVersion\<close> has neither an event nor a version.\<close>

definition zero_ewv :: "event_with_version \<Rightarrow> bool" where
  "zero_ewv ev \<longleftrightarrow> ev_Event ev = None \<and> ev_Version ev = None"

definition AdditiveMerge :: resolver where
  "AdditiveMerge ctx c =
     decide ((if \<not> zero_ewv (cf_Local c) then [cf_Local c] else []) @
             (if \<not> zero_ewv (cf_Remote c) then [cf_Remote c] else [])) ''merge'' [''additive merge'']"

definition ManualReview :: "string \<Rightarrow> resolver" where
  "ManualReview reason ctx c =
     decide [] ''manual_review'' ([''manual review required''] @ (if reason \<noteq> [] then [reason] else []))"

section \<open>Decimal conversion without strconv\<close>

fun itoa_loop :: "nat \<Rightarrow> string \<Rightarrow> string" where
  "itoa_loop i buf = (if i > 0 then itoa_loop (i div 10) (digit_char (i mod 10) # buf) else buf)"

declare itoa_loop.simps [simp del]

text \<open>
  The buffer is filled from its end, so it is the list of the digits so far. The negation of
  the least int wraps to itself and leaves the loop without a digit.
\<close>

definition itoa :: "i64 \<Rightarrow> string" where
  "itoa i =
     (if i = 0 then ''0''
      else let neg = sint i < 0; a = (if neg then - i else i); buf = itoa_loop (nat (sint a)) []
        in if neg then CHR ''-'' # buf else buf)"

section \<open>The dynamic resolver\<close>

record rule =
  rule_Name :: string
  rule_Matcher :: "spec option"
  rule_Resolver :: "resolver option"

record hooks =
  OnRuleMatched :: bool
  OnResolved :: bool
  OnFallback :: bool
  OnError :: bool

datatype hook_call =
    CallRuleMatched string
  | CallResolved resolved_conflict
  | CallFallback
  | CallError go_error

record resolver_options =
  ro_rules :: "rule list"
  ro_fallback :: "resolver option"
  ro_logger :: go_any
  ro_hooks :: hooks
  ro_validator :: "(rule list \<Rightarrow> resolver option \<Rightarrow> go_any \<Rightarrow> hooks \<Rightarrow> go_error option) option"

definition no_hooks :: hooks where
  "no_hooks = \<lparr>OnRuleMatched = False, OnResolved = False, OnFallback = False, OnError = False\<rparr>"

definition zero_options :: resolver_options where
  "zero_options = \<lparr>ro_rules = [], ro_fallback = None, ro_logger = GNil, ro_hooks = no_hooks, ro_validator = None\<rparr>"

type_synonym resolver_option = "resolver_options \<Rightarrow> resolver_options"

definition WithFallback :: "resolver option \<Rightarrow> resolver_option" where
  "WithFallback r o' = o'\<lparr>ro_fallback := r\<rparr>"

definition WithRule :: "string \<Rightarrow> spec option \<Rightarrow> resolver option \<Rightarrow> resolver_option" where
  "WithRule name matcher resolver o' =
     o'\<lparr>ro_rules := ro_rules o' @ [\<lparr>rule_Name = name, rule_Matcher = matcher, rule_Resolver = resolver\<rparr>]\<rparr>"

definition WithEventTypeRule :: "string \<Rightarrow> string \<Rightarrow> resolver option \<Rightarrow> resolver_option" where
  "WithEventTypeRule name eventType resolver = WithRule name (Some (EventTypeIs eventType)) resolver"

definition WithLogger :: "go_any \<Rightarrow> resolver_option" where
  "WithLogger l o' = o'\<lparr>ro_logger := l\<rparr>"

definition WithHooks :: "hooks \<Rightarrow> resolver_option" where
  "WithHooks h o' = o'\<lparr>ro_hooks := h\<rparr>"

definition WithValidator :: "(rule list \<Rightarrow> resolver option \<Rightarrow> go_any \<Rightarrow> hooks \<Rightarrow> go_error option) option \<Rightarrow> resolver_option" where
  "WithValidator v o' = o'\<lparr>ro_validator := v\<rparr>"

record dynamic_resolver =
  dr_rules :: "rule list"
  dr_fallback :: "resolver option"
  dr_logger :: go_any
  dr_hooks :: hooks

fun check_rules :: "rule list \<Rightarrow> nat \<Rightarrow> go_error option" where
  "check_rules [] i = None"
| "check_rules (r # rs) i =
     (if rule_Matcher r = None then Some (ErrorString (''rule has nil matcher at index '' @ itoa (of_nat i)))
      else if rule_Resolver r = None then Some (ErrorString (''rule has nil resolver at index '' @ itoa (of_nat i)))
      else check_rules rs (Suc i))"

definition NewDynamicResolver :: "resolver_option list \<Rightarrow> go_error + dynamic_resolver" where
  "NewDynamicResolver opts =
     (let cfg = foldl (\<lambda>o' opt. opt o') zero_options opts in
      if ro_rules cfg = [] \<and> ro_fallback cfg = None then
        Inl (ErrorString ''dynamic resolver requires at least one rule or a non-nil fallback'')
      else case check_rules (ro_rules cfg) 0 of
        Some err \<Rightarrow> Inl err
      | None \<Rightarrow>
          (case (case ro_validator cfg of None \<Rightarrow> None | Some v \<Rightarrow> v (ro_rules cfg) (ro_fallback cfg) (ro_logger cfg) (ro_hooks cfg)) of
             Some err \<Rightarrow> Inl err
           | None \<Rightarrow> Inr \<lparr>dr_rules = ro_rules cfg, dr_fallback = ro_fallback cfg,
                          dr_logger = ro_logger cfg, dr_hooks = ro_hooks cfg\<rparr>))"

text \<open>Running one resolver and calling the hook for its outcome.\<close>

definition run_resolver ::
  "hooks \<Rightarrow> resolver option \<Rightarrow> go_error option \<Rightarrow> conflict \<Rightarrow> (hook_call list \<times> (go_error + resolved_conflict)) go" where
  "run_resolver h r ctx c = do {
     f \<leftarrow> r;
     res \<leftarrow> f ctx c;
     (case res of
        Inl err \<Rightarrow> Some (if OnError h then [CallError err] else [], Inl err)
      | Inr x \<Rightarrow> Some (if OnResolved h then [CallResolved x] else [], Inr x))
   }"

definition err_no_rule :: go_error where
  "err_no_rule = ErrorString ''no rule matched and no fallback configured''"

fun resolve_rules ::
  "hooks \<Rightarrow> resolver option \<Rightarrow> rule list \<Rightarrow> go_error option \<Rightarrow> conflict
     \<Rightarrow> (hook_call list \<times> (go_error + resolved_conflict)) go" where
  "resolve_rules h fb [] ctx c =
     (case fb of
        None \<Rightarrow> Some (if OnError h then [CallError err_no_rule] else [], Inl err_no_rule)
      | Some _ \<Rightarrow> do {
          (calls, res) \<leftarrow> run_resolver h fb ctx c;
          Some ((if OnFallback h then [CallFallback] else []) @ calls, res) })"
| "resolve_rules h fb (r # rs) ctx c = do {
     b \<leftarrow> (case rule_Matcher r of None \<Rightarrow> Some False | Some f \<Rightarrow> f c);
     if b then do {
       (calls, res) \<leftarrow> run_resolver h (rule_Resolver r) ctx c;
       Some ((if OnRuleMatched h then [CallRuleMatched (rule_Name r)] else []) @ calls, res) }
     else resolve_rules h fb rs ctx c
   }"

definition Resolve_dynamic ::
  "dynamic_resolver \<Rightarrow> go_error option \<Rightarrow> conflict \<Rightarrow> (hook_call list \<times> (go_error + resolved_conflict)) go" where
  "Resolve_dynamic d ctx c = resolve_rules (dr_hooks d) (dr_fallback d) (dr_rules d) ctx c"

text \<open>The dynamic resolver as a resolver, for the places that only look at its result.\<close>

definition dynamic_as_resolver :: "dynamic_resolver \<Rightarrow> resolver" where
  "dynamic_as_resolver d ctx c = map_option snd (Resolve_dynamic d ctx c)"

section \<open>Facts\<close>

lemma itoa_loop_dec: "0 < n \<Longrightarrow> itoa_loop n buf = nat_dec n @ buf"
proof (induction n arbitrary: buf rule: nat_dec.induct)
  case (1 n)
  show ?case
  proof (cases "n < 10")
    case True
    with 1(2) show ?thesis
      by (simp add: itoa_loop.simps [of n] itoa_loop.simps [of 0] nat_dec.simps [of n])
  next
    case False
    then have "itoa_loop (n div 10) (digit_char (n mod 10) # buf) = nat_dec (n div 10) @ digit_char (n mod 10) # buf"
      using 1 by (simp add: div_greater_zero_iff)
    with False show ?thesis
      by (simp add: itoa_loop.simps [of n] nat_dec.simps [of n])
  qed
qed

text \<open>First match: the rules before the chosen one do not match, the chosen one does.\<close>

definition matches :: "rule \<Rightarrow> conflict \<Rightarrow> bool" where
  "matches r c \<longleftrightarrow> (\<exists>f. rule_Matcher r = Some f \<and> f c = Some True)"

definition decided :: "rule \<Rightarrow> conflict \<Rightarrow> bool" where
  "decided r c \<longleftrightarrow> (\<forall>f. rule_Matcher r = Some f \<longrightarrow> f c \<noteq> None)"

lemma call_matcher:
  "decided r c \<Longrightarrow> (case rule_Matcher r of None \<Rightarrow> Some False | Some f \<Rightarrow> f c) = Some (matches r c)"
  by (auto simp: matches_def decided_def split: option.split)

lemma matches_decided: "matches r c \<Longrightarrow> decided r c"
  by (auto simp: matches_def decided_def)

lemma resolve_rules_skip:
  assumes "\<forall>r \<in> set xs. decided r c \<and> \<not> matches r c"
  shows "resolve_rules h fb (xs @ rs) ctx c = resolve_rules h fb rs ctx c"
  using assms by (induction xs) (simp_all add: call_matcher)

lemma resolve_rules_hit:
  assumes "matches r c" and "rule_Resolver r = Some f"
  shows "resolve_rules h fb (r # rs) ctx c = map_option (\<lambda>res.
      ((if OnRuleMatched h then [CallRuleMatched (rule_Name r)] else [])
       @ (case res of Inl err \<Rightarrow> if OnError h then [CallError err] else []
                    | Inr x \<Rightarrow> if OnResolved h then [CallResolved x] else []), res)) (f ctx c)"
  using assms
  by (cases "f ctx c") (auto simp: call_matcher matches_decided run_resolver_def split: sum.split)

lemma resolve_rules_at:
  assumes "i < length rs" and "matches (rs ! i) c"
    and "\<forall>j < i. \<not> matches (rs ! j) c \<and> decided (rs ! j) c"
  shows "resolve_rules h fb rs ctx c = resolve_rules h fb (rs ! i # drop (Suc i) rs) ctx c"
proof -
  have "\<forall>r \<in> set (take i rs). decided r c \<and> \<not> matches r c"
    using assms(1,3) by (auto simp: in_set_conv_nth)
  then have "resolve_rules h fb (take i rs @ rs ! i # drop (Suc i) rs) ctx c
      = resolve_rules h fb (rs ! i # drop (Suc i) rs) ctx c"
    by (rule resolve_rules_skip)
  with id_take_nth_drop [OF assms(1)] show ?thesis by simp
qed

lemma check_rules_None: "check_rules rs i = None \<longleftrightarrow> (\<forall>r \<in> set rs. rule_Matcher r \<noteq> None \<and> rule_Resolver r \<noteq> None)"
  by (induction rs arbitrary: i) auto

section \<open>Properties\<close>

lemma NewDynamicResolver_valid:
  assumes "NewDynamicResolver opts = Inr d"
  shows "(dr_rules d \<noteq> [] \<or> dr_fallback d \<noteq> None)
    \<and> (\<forall>r \<in> set (dr_rules d). rule_Matcher r \<noteq> None \<and> rule_Resolver r \<noteq> None)"
  using assms by (auto simp: NewDynamicResolver_def Let_def check_rules_None split: if_splits option.splits)

text \<open>
  C34: a resolver built by \<open>NewDynamicResolver\<close> decides by its first matching rule. When rule
  number i matches and no earlier one does, the outcome is that rule's resolver's outcome, error
  or result, whatever the later rules and the fallback are; the hooks called are OnRuleMatched with
  that rule's name and then OnResolved or OnError, those that are set. No rule without a matcher or a
  resolver is ever in the list, so no nil resolver is called.
\<close>

theorem dynamic_resolver_first_match:
  assumes "NewDynamicResolver opts = Inr d"
    and "i < length (dr_rules d)"
    and "matches (dr_rules d ! i) c"
    and "\<forall>j < i. \<not> matches (dr_rules d ! j) c \<and> decided (dr_rules d ! j) c"
  shows "\<exists>f. rule_Resolver (dr_rules d ! i) = Some f \<and>
    Resolve_dynamic d ctx c = map_option (\<lambda>res.
      ((if OnRuleMatched (dr_hooks d) then [CallRuleMatched (rule_Name (dr_rules d ! i))] else [])
       @ (case res of Inl err \<Rightarrow> if OnError (dr_hooks d) then [CallError err] else []
                    | Inr x \<Rightarrow> if OnResolved (dr_hooks d) then [CallResolved x] else []), res)) (f ctx c)"
proof -
  obtain f where f: "rule_Resolver (dr_rules d ! i) = Some f"
    using NewDynamicResolver_valid [OF assms(1)] assms(2) nth_mem by blast
  show ?thesis
    unfolding Resolve_dynamic_def resolve_rules_at [OF assms(2-4)] resolve_rules_hit [OF assms(3) f]
    using f by blast
qed

definition sample_conflict :: conflict where
  "sample_conflict = \<lparr>cf_EventType = ''Created'', cf_AggregateID = ''a1'', cf_ChangedFields = [''name''],
     cf_Metadata = None, cf_Local = \<lparr>ev_Event = None, ev_Version = Some (IntegerCursor 1)\<rparr>,
     cf_Remote = \<lparr>ev_Event = None, ev_Version = Some (IntegerCursor 2)\<rparr>\<rparr>"

definition sample_options :: "resolver_option list" where
  "sample_options = [WithEventTypeRule ''other'' ''Deleted'' (Some FirstWriteWins),
     WithEventTypeRule ''created'' ''Created'' (Some LastWriteWins),
     WithHooks \<lparr>OnRuleMatched = True, OnResolved = False, OnFallback = True, OnError = True\<rparr>]"

theorem dynamic_resolver_first_match_witness:
  "\<exists>d. NewDynamicResolver sample_options = Inr d \<and>
     Resolve_dynamic d None sample_conflict =
       Some ([CallRuleMatched ''created''],
         Inr \<lparr>ResolvedEvents = [cf_Remote sample_conflict], Decision = ''keep_remote'', Reasons = [''remote newer'']\<rparr>)"
proof -
  obtain d where d: "NewDynamicResolver sample_options = Inr d"
    and rules: "dr_rules d = [\<lparr>rule_Name = ''other'', rule_Matcher = Some (EventTypeIs ''Deleted''), rule_Resolver = Some FirstWriteWins\<rparr>,
       \<lparr>rule_Name = ''created'', rule_Matcher = Some (EventTypeIs ''Created''), rule_Resolver = Some LastWriteWins\<rparr>]"
    and h: "dr_hooks d = \<lparr>OnRuleMatched = True, OnResolved = False, OnFallback = True, OnError = True\<rparr>"
    by (simp add: NewDynamicResolver_def sample_options_def WithEventTypeRule_def WithRule_def WithHooks_def
        zero_options_def Let_def)
  have "LastWriteWins None sample_conflict =
      Some (Inr \<lparr>ResolvedEvents = [cf_Remote sample_conflict], Decision = ''keep_remote'', Reasons = [''remote newer'']\<rparr>)"
    by (simp add: LastWriteWins_def sample_conflict_def decide_def iface_Compare_def Compare_integer_def)
  then show ?thesis
    using dynamic_resolver_first_match [OF d, of 1 sample_conflict None] d
    by (simp add: rules h matches_def decided_def EventTypeIs_def sample_conflict_def ex_bool_eq)
qed

text \<open>
  Swapping the roles of the two sides gives the conflict as the other replica sees it.
\<close>

definition swap_sides :: "conflict \<Rightarrow> conflict" where
  "swap_sides c = c\<lparr>cf_Local := cf_Remote c, cf_Remote := cf_Local c\<rparr>"

definition kept :: "(go_error + resolved_conflict) go \<Rightarrow> event_with_version list option" where
  "kept r = (case r of Some (Inr x) \<Rightarrow> Some (ResolvedEvents x) | _ \<Rightarrow> None)"

lemma version_strategies:
  assumes "ev_Version (cf_Local c) = Some a" and "ev_Version (cf_Remote c) = Some b" and "proper a"
  shows "kept (LastWriteWins ctx c) = Some [if vcmp a b = 1 then cf_Local c else cf_Remote c]"
    and "kept (FirstWriteWins ctx c) = Some [if vcmp a b = 1 then cf_Remote c else cf_Local c]"
  using assms
  by (simp_all add: LastWriteWins_def FirstWriteWins_def kept_def decide_def iface_Compare_def Compare_proper)

text \<open>
  Two replicas that see the same conflict, each with its own event as the local one, keep the
  same event under last-write-wins, and the same event under first-write-wins, exactly when the
  two versions are ordered (or the two sides are equal). For equal or concurrent versions each
  replica keeps the other's event under last-write-wins and its own under first-write-wins.
\<close>

theorem write_wins_agreement:
  assumes "ev_Version (cf_Local c) = Some a" and "ev_Version (cf_Remote c) = Some b"
    and "proper a" and "proper b"
  shows "(kept (LastWriteWins ctx c) = kept (LastWriteWins ctx' (swap_sides c))
           \<longleftrightarrow> vcmp a b \<noteq> 0 \<or> cf_Local c = cf_Remote c)
    \<and> (kept (FirstWriteWins ctx c) = kept (FirstWriteWins ctx' (swap_sides c))
           \<longleftrightarrow> vcmp a b \<noteq> 0 \<or> cf_Local c = cf_Remote c)
    \<and> (vcmp a b = 0 \<longrightarrow> kept (LastWriteWins ctx c) = Some [cf_Remote c]
           \<and> kept (FirstWriteWins ctx c) = Some [cf_Local c])"
proof -
  have sw: "ev_Version (cf_Local (swap_sides c)) = Some b" "ev_Version (cf_Remote (swap_sides c)) = Some a"
    "cf_Local (swap_sides c) = cf_Remote c" "cf_Remote (swap_sides c) = cf_Local c"
    using assms by (simp_all add: swap_sides_def)
  have "vcmp b a = - vcmp a b" and "vcmp a b \<in> {- 1, 0, 1}"
    using assms vo.cmp_flip [of a b] vo.cmp_values [of a b] by simp_all
  then show ?thesis
    using version_strategies [OF assms(1-3)] version_strategies [OF sw(1,2) assms(4)]
    by (auto simp: sw(3,4))
qed

theorem write_wins_agreement_witness:
  "kept (LastWriteWins None sample_conflict) = kept (LastWriteWins None (swap_sides sample_conflict))"
  using write_wins_agreement [of sample_conflict "IntegerCursor 1" "IntegerCursor 2" None None]
  by (simp add: sample_conflict_def vcmp_simps)

lemma sint_uminus_no_wrap:
  fixes i :: i64
  assumes "i \<noteq> 2 ^ 63"
  shows "sint (- i) = - sint i"
proof -
  have "sint i \<noteq> - (2 ^ 63)"
    using assms signed_word_eqI [of i "2 ^ 63"] by auto
  moreover have "- (2 ^ 63) \<le> sint i" "sint i < 2 ^ 63"
    using sint_greater_eq [of i] sint_less [of i] by simp_all
  ultimately show ?thesis
    by (simp add: sint_word_ariths signed_take_bit_int_eq_self)
qed

text \<open>
  The hand-written \<open>itoa\<close> prints the decimal numeral of every int except the least one, whose
  negation wraps, and which it prints as a lone minus sign.
\<close>

theorem itoa_decimal:
  "itoa i = (if i = 2 ^ 63 then ''-'' else i64_dec i)"
proof (cases "i = 0 \<or> i = 2 ^ 63")
  case True
  then show ?thesis
    by (auto simp: itoa_def i64_dec_def itoa_loop.simps [of 0] nat_dec.simps [of 0] digit_char_def char_of_def bit_0)
next
  case False
  then have "sint i \<noteq> 0" using signed_word_eqI [of i 0] by auto
  with False show ?thesis
    by (simp add: itoa_def i64_dec_def Let_def sint_uminus_no_wrap itoa_loop_dec)
qed

end
