(* ===== verification/Composite.thy ===== *)
theory Composite
  imports Resolvers
begin

text \<open>
  Hierarchical rule groups (synckit/composite.go). A \<open>rule_group\<close> is the tree that a
  \<open>*RuleGroup\<close> reaches at one moment: its rules, its subgroups, whether it is enabled and its
  optional fallback. The lemmas reduce the recursive resolution of a group to a first-match search
  over one flat rule list, and relate the composite resolver to the dynamic resolver over the
  flattened rules.
\<close>

section \<open>Groups\<close>

datatype rule_group = RuleGroup
  (rg_Name: string) (rg_Description: string) (rg_rules: "rule list")
  (rg_subGroups: "rule_group list") (rg_enabled: bool) (rg_fallback: "resolver option")

type_synonym rule_group_option = "rule_group \<Rightarrow> rule_group"

fun WithDescription :: "string \<Rightarrow> rule_group_option" where
  "WithDescription desc (RuleGroup n d rs gs en fb) = RuleGroup n desc rs gs en fb"

fun WithGroupFallback :: "resolver option \<Rightarrow> rule_group_option" where
  "WithGroupFallback r (RuleGroup n d rs gs en fb) = RuleGroup n d rs gs en r"

fun WithEnabled :: "bool \<Rightarrow> rule_group_option" where
  "WithEnabled b (RuleGroup n d rs gs en fb) = RuleGroup n d rs gs b fb"

definition NewRuleGroup :: "string \<Rightarrow> rule_group_option list \<Rightarrow> rule_group" where
  "NewRuleGroup name opts = foldl (\<lambda>rg opt. opt rg) (RuleGroup name [] [] [] True None) opts"

text \<open>\<open>fmt.Sprintf\<close> of two names joined by a dot.\<close>

definition dotted :: "string \<Rightarrow> string \<Rightarrow> string" where
  "dotted a b = a @ ''.'' @ b"

fun AddRule :: "rule_group \<Rightarrow> rule \<Rightarrow> rule_group" where
  "AddRule (RuleGroup n d rs gs en fb) r =
     (if \<not> en then RuleGroup n d rs gs en fb
      else let r' = (if rule_Name r \<noteq> [] then r\<lparr>rule_Name := dotted n (rule_Name r)\<rparr> else r)
        in RuleGroup n d (rs @ [r']) gs en fb)"

text \<open>The loop of \<open>AddSubGroup\<close> over the rules of the subgroup, for its old and its new name.\<close>

definition strip_prefix :: "string \<Rightarrow> string \<Rightarrow> string" where
  "strip_prefix pre name =
     (if length name > length pre \<and> take (length pre) name = pre then drop (length pre) name else name)"

definition renamespace :: "string \<Rightarrow> string \<Rightarrow> rule \<Rightarrow> rule" where
  "renamespace old new r =
     (if rule_Name r \<noteq> [] then r\<lparr>rule_Name := dotted new (strip_prefix (old @ ''.'') (rule_Name r))\<rparr> else r)"

text \<open>The subgroup as \<open>AddSubGroup\<close> leaves it.\<close>

fun adopt :: "string \<Rightarrow> rule_group \<Rightarrow> rule_group" where
  "adopt parent (RuleGroup n d rs gs en fb) =
     (let n' = dotted parent n in RuleGroup n' d (map (renamespace n n') rs) gs en fb)"

fun AddSubGroup :: "rule_group \<Rightarrow> rule_group option \<Rightarrow> rule_group go" where
  "AddSubGroup (RuleGroup n d rs gs en fb) sub =
     (if \<not> en then Some (RuleGroup n d rs gs en fb)
      else do { sg \<leftarrow> sub; Some (RuleGroup n d rs (gs @ [adopt n sg]) en fb) })"

fun Enable :: "rule_group \<Rightarrow> rule_group" where
  "Enable (RuleGroup n d rs gs en fb) = RuleGroup n d rs gs True fb"

fun Disable :: "rule_group \<Rightarrow> rule_group" where
  "Disable (RuleGroup n d rs gs en fb) = RuleGroup n d rs gs False fb"

definition IsEnabled :: "rule_group \<Rightarrow> bool" where
  "IsEnabled rg = rg_enabled rg"

fun GetAllRules :: "rule_group \<Rightarrow> rule list" where
  "GetAllRules (RuleGroup n d rs gs en fb) = (if \<not> en then [] else rs @ concat (map GetAllRules gs))"

section \<open>Resolution inside a group\<close>

text \<open>
  \<open>Inr None\<close> is the result "not matched". Unlike the dynamic resolver,
  a group calls a rule's matcher and resolver without a nil check.
\<close>

type_synonym group_result = "(go_error + resolved_conflict option) go"

definition run_rule :: "resolver option \<Rightarrow> go_error option \<Rightarrow> conflict \<Rightarrow> group_result" where
  "run_rule r ctx c = do {
     f \<leftarrow> r;
     res \<leftarrow> f ctx c;
     (case res of Inl err \<Rightarrow> Some (Inl err) | Inr x \<Rightarrow> Some (Inr (Some x))) }"

fun group_rules :: "rule list \<Rightarrow> go_error option \<Rightarrow> conflict \<Rightarrow> group_result" where
  "group_rules [] ctx c = Some (Inr None)"
| "group_rules (r # rs) ctx c = do {
     m \<leftarrow> rule_Matcher r;
     b \<leftarrow> m c;
     if b then run_rule (rule_Resolver r) ctx c else group_rules rs ctx c }"

text \<open>The next stage of a resolution is tried only when the previous one did not match.\<close>

definition or_try :: "group_result \<Rightarrow> group_result \<Rightarrow> group_result" where
  "or_try a b = a \<bind> (\<lambda>x. case x of Inr None \<Rightarrow> b | _ \<Rightarrow> Some x)"

fun ResolveInGroup :: "rule_group \<Rightarrow> go_error option \<Rightarrow> conflict \<Rightarrow> group_result"
and resolve_subgroups :: "rule_group list \<Rightarrow> go_error option \<Rightarrow> conflict \<Rightarrow> group_result" where
  "ResolveInGroup (RuleGroup n d rs gs en fb) ctx c =
     (if \<not> en then Some (Inr None)
      else or_try (group_rules rs ctx c)
        (or_try (resolve_subgroups gs ctx c)
          (if fb \<noteq> None then run_rule fb ctx c else Some (Inr None))))"
| "resolve_subgroups [] ctx c = Some (Inr None)"
| "resolve_subgroups (g # gs) ctx c = or_try (ResolveInGroup g ctx c) (resolve_subgroups gs ctx c)"

datatype rule_group_stats = RuleGroupStats
  (gs_Name: string) (gs_Enabled: bool) (gs_RuleCount: nat) (gs_SubGroupCount: nat)
  (gs_TotalRules: nat) (gs_SubGroups: "rule_group_stats list")

fun GetStats :: "rule_group \<Rightarrow> rule_group_stats" where
  "GetStats (RuleGroup n d rs gs en fb) =
     RuleGroupStats n en (length rs) (length gs) (length (GetAllRules (RuleGroup n d rs gs en fb))) (map GetStats gs)"

section \<open>The composite resolver\<close>

text \<open>Calls of the optional logger, in order.\<close>

datatype log_call = LogError string string go_error | LogDebug string "string list"

record composite_resolver =
  cr_groups :: "rule_group list"
  cr_fallback :: "resolver option"
  cr_logger :: bool

definition NewCompositeResolver ::
  "resolver option \<Rightarrow> (composite_resolver \<Rightarrow> composite_resolver) list \<Rightarrow> composite_resolver" where
  "NewCompositeResolver fb opts =
     foldl (\<lambda>cr opt. opt cr) \<lparr>cr_groups = [], cr_fallback = fb, cr_logger = False\<rparr> opts"

definition WithCompositeLogger :: "bool \<Rightarrow> composite_resolver \<Rightarrow> composite_resolver" where
  "WithCompositeLogger l cr = cr\<lparr>cr_logger := l\<rparr>"

definition AddGroup :: "composite_resolver \<Rightarrow> rule_group \<Rightarrow> composite_resolver" where
  "AddGroup cr g = cr\<lparr>cr_groups := cr_groups cr @ [g]\<rparr>"

fun resolve_groups ::
  "bool \<Rightarrow> resolver option \<Rightarrow> rule_group list \<Rightarrow> go_error option \<Rightarrow> conflict
     \<Rightarrow> (log_call list \<times> (go_error + resolved_conflict)) go" where
  "resolve_groups lg fb [] ctx c =
     (case fb of
        None \<Rightarrow> Some ([], Inl (ErrorString ''no rule groups matched conflict and no fallback provided''))
      | Some f \<Rightarrow> map_option (Pair (if lg then [LogDebug ''Using global fallback for conflict'' [cf_AggregateID c]] else []))
                    (f ctx c))"
| "resolve_groups lg fb (g # gs) ctx c = do {
     r \<leftarrow> ResolveInGroup g ctx c;
     (case r of
        Inl err \<Rightarrow> Some (if lg then [LogError ''Group resolution error'' (rg_Name g) err] else [], Inl err)
      | Inr (Some x) \<Rightarrow>
          Some (if lg then [LogDebug ''Conflict resolved by group'' [rg_Name g, cf_AggregateID c]] else [], Inr x)
      | Inr None \<Rightarrow> resolve_groups lg fb gs ctx c) }"

definition Resolve_composite ::
  "composite_resolver \<Rightarrow> go_error option \<Rightarrow> conflict \<Rightarrow> (log_call list \<times> (go_error + resolved_conflict)) go" where
  "Resolve_composite cr ctx c = resolve_groups (cr_logger cr) (cr_fallback cr) (cr_groups cr) ctx c"

definition GetAllGroups :: "composite_resolver \<Rightarrow> rule_group list" where
  "GetAllGroups cr = cr_groups cr"

definition GetGroupStats :: "composite_resolver \<Rightarrow> rule_group_stats list" where
  "GetGroupStats cr = map GetStats (cr_groups cr)"

section \<open>Flattening\<close>

text \<open>
  The rules of a group in the order they are tried, a group's fallback being a last rule
  that always matches.
\<close>

fun effective_rules :: "rule_group \<Rightarrow> rule list" where
  "effective_rules (RuleGroup n d rs gs en fb) =
     (if \<not> en then []
      else rs @ concat (map effective_rules gs)
        @ (case fb of None \<Rightarrow> []
           | Some f \<Rightarrow> [\<lparr>rule_Name = n, rule_Matcher = Some AlwaysMatch, rule_Resolver = Some f\<rparr>]))"

fun no_group_fallback :: "rule_group \<Rightarrow> bool" where
  "no_group_fallback (RuleGroup n d rs gs en fb) \<longleftrightarrow> fb = None \<and> list_all no_group_fallback gs"

definition complete :: "rule \<Rightarrow> bool" where
  "complete r \<longleftrightarrow> rule_Matcher r \<noteq> None \<and> rule_Resolver r \<noteq> None"

lemma or_try_simps [simp]:
  "or_try (Some (Inr None)) b = b"
  "or_try (Some (Inl e)) b = Some (Inl e)"
  "or_try (Some (Inr (Some x))) b = Some (Inr (Some x))"
  "or_try None b = None"
  by (simp_all add: or_try_def)

lemma or_try_not_matched [simp]: "or_try a (Some (Inr None)) = a"
  by (cases a) (auto simp: or_try_def split: sum.split option.split)

lemma run_rule_or_try [simp]: "or_try (run_rule r ctx c) b = run_rule r ctx c"
  by (auto simp: run_rule_def or_try_def split: option.split sum.split bind_split)

lemma group_rules_append:
  "group_rules (xs @ ys) ctx c = or_try (group_rules xs ctx c) (group_rules ys ctx c)"
proof (induction xs)
  case (Cons r xs)
  show ?case
  proof (cases "rule_Matcher r")
    case (Some m)
    then show ?thesis using Cons by (cases "m c") simp_all
  qed simp
qed simp

lemma ResolveInGroup_flat:
  "ResolveInGroup g ctx c = group_rules (effective_rules g) ctx c"
  "resolve_subgroups gs ctx c = group_rules (concat (map effective_rules gs)) ctx c"
proof (induction g ctx c and gs ctx c rule: ResolveInGroup_resolve_subgroups.induct)
  case (1 n d rs gs en fb ctx c)
  then show ?case
    by (cases fb) (simp_all add: group_rules_append AlwaysMatch_def)
qed (simp_all add: group_rules_append)

lemma effective_rules_no_fallback:
  "no_group_fallback g \<Longrightarrow> effective_rules g = GetAllRules g"
proof (induction g rule: effective_rules.induct)
  case (1 n d rs gs en fb)
  then have "en \<Longrightarrow> map effective_rules gs = map GetAllRules gs"
    by (auto simp: list_all_iff)
  then have "en \<Longrightarrow> concat (map effective_rules gs) = concat (map GetAllRules gs)" by (rule arg_cong)
  with 1 show ?case by simp
qed

text \<open>What the caller makes of a search: the fallback when nothing matched.\<close>

definition with_fallback ::
  "group_result \<Rightarrow> (go_error + resolved_conflict) go \<Rightarrow> (go_error + resolved_conflict) go" where
  "with_fallback a fb = a \<bind> (\<lambda>x. case x of Inl err \<Rightarrow> Some (Inl err) | Inr (Some y) \<Rightarrow> Some (Inr y) | Inr None \<Rightarrow> fb)"

lemma with_fallback_or_try: "with_fallback (or_try a b) fb = with_fallback a (with_fallback b fb)"
  by (cases a) (auto simp: with_fallback_def or_try_def split: sum.split option.split)

lemma resolve_groups_flat:
  "map_option snd (resolve_groups lg fb gs ctx c)
     = with_fallback (group_rules (concat (map effective_rules gs)) ctx c)
         (map_option snd (resolve_groups lg fb [] ctx c))"
proof (induction gs)
  case Nil
  then show ?case by (simp add: with_fallback_def)
next
  case (Cons g gs)
  have "map_option snd (resolve_groups lg fb (g # gs) ctx c)
     = with_fallback (ResolveInGroup g ctx c) (map_option snd (resolve_groups lg fb gs ctx c))"
    by (cases "ResolveInGroup g ctx c") (auto simp: with_fallback_def split: sum.split option.split)
  then show ?case
    by (simp add: Cons ResolveInGroup_flat group_rules_append with_fallback_or_try del: resolve_groups.simps)
qed

lemma run_resolver_result:
  "map_option snd (run_resolver h (Some f) ctx c) = f ctx c"
  by (cases "f ctx c") (auto simp: run_resolver_def split: sum.split)

lemma resolve_rules_flat:
  assumes "\<forall>r \<in> set rs. complete r"
  shows "map_option snd (resolve_rules h fb rs ctx c)
     = with_fallback (group_rules rs ctx c) (map_option snd (resolve_rules h fb [] ctx c))"
  using assms
proof (induction rs)
  case Nil
  then show ?case by (simp add: with_fallback_def)
next
  case (Cons r rs)
  then obtain m f where r: "rule_Matcher r = Some m" "rule_Resolver r = Some f"
    by (auto simp: complete_def)
  show ?case
  proof (cases "m c")
    case None
    with r show ?thesis by (simp add: with_fallback_def)
  next
    case (Some b)
    have "map_option snd (resolve_rules h fb (r # rs) ctx c) =
        (if b then f ctx c else map_option snd (resolve_rules h fb rs ctx c))"
      using Some r run_resolver_result [of h f ctx c]
      by (cases "run_resolver h (Some f) ctx c") (auto simp: case_prod_beta')
    with Some r Cons show ?thesis
      by (cases "f ctx c") (auto simp: with_fallback_def run_rule_def split: sum.split)
  qed
qed

section \<open>Properties\<close>

text \<open>
  C35: resolving through a tree of rule groups is the same as resolving with one dynamic resolver
  whose rules are the groups' rules laid out depth first (each group's own rules, then its
  subgroups, then its fallback as a rule that always matches, disabled groups skipped), with the same
  global fallback: the same error, the same resolution, and a panic of user code in the same cases. For groups
  without fallbacks of their own that list is what \<open>GetAllRules\<close> returns.
\<close>

theorem composite_equals_flat_dynamic:
  assumes "dr_rules d = concat (map effective_rules (cr_groups cr))"
    and "dr_fallback d = cr_fallback cr" and "cr_fallback cr \<noteq> None"
    and "\<forall>r \<in> set (dr_rules d). complete r"
  shows "map_option snd (Resolve_composite cr ctx c) = dynamic_as_resolver d ctx c
    \<and> (list_all no_group_fallback (cr_groups cr) \<longrightarrow> dr_rules d = concat (map GetAllRules (cr_groups cr)))"
proof
  obtain f where f: "cr_fallback cr = Some f" using assms(3) by blast
  have c: "map_option snd (resolve_groups lg (Some f) [] ctx c) = f ctx c" for lg
    by (cases "f ctx c") simp_all
  have d: "map_option snd (resolve_rules h (Some f) [] ctx c) = f ctx c" for h
    using run_resolver_result [of h f ctx c]
    by (cases "run_resolver h (Some f) ctx c") (auto split: prod.splits)
  have "map_option snd (Resolve_composite cr ctx c) =
      with_fallback (group_rules (dr_rules d) ctx c) (f ctx c)"
    unfolding Resolve_composite_def resolve_groups_flat [of _ _ "cr_groups cr"] f c assms(1) ..
  moreover have "dynamic_as_resolver d ctx c = with_fallback (group_rules (dr_rules d) ctx c) (f ctx c)"
    unfolding dynamic_as_resolver_def Resolve_dynamic_def resolve_rules_flat [OF assms(4)] assms(2) f d ..
  ultimately show "map_option snd (Resolve_composite cr ctx c) = dynamic_as_resolver d ctx c"
    by simp
  show "list_all no_group_fallback (cr_groups cr) \<longrightarrow> dr_rules d = concat (map GetAllRules (cr_groups cr))"
    using assms(1) by (auto simp: list_all_iff effective_rules_no_fallback cong: map_cong)
qed

definition sample_composite :: composite_resolver where
  "sample_composite = AddGroup (NewCompositeResolver (Some FirstWriteWins) [])
     (AddRule (NewRuleGroup ''orders'' [])
       \<lparr>rule_Name = ''created'', rule_Matcher = Some (EventTypeIs ''Created''), rule_Resolver = Some LastWriteWins\<rparr>)"

theorem composite_equals_flat_dynamic_witness:
  "map_option snd (Resolve_composite sample_composite None sample_conflict) =
     Some (Inr \<lparr>ResolvedEvents = [cf_Remote sample_conflict], Decision = ''keep_remote'', Reasons = [''remote newer'']\<rparr>)"
proof -
  let ?r = "\<lparr>rule_Name = ''orders.created'', rule_Matcher = Some (EventTypeIs ''Created''), rule_Resolver = Some LastWriteWins\<rparr>"
  let ?d = "\<lparr>dr_rules = [?r], dr_fallback = Some FirstWriteWins, dr_logger = GNil, dr_hooks = no_hooks\<rparr>"
  have g: "cr_groups sample_composite = [RuleGroup ''orders'' [] [?r] [] True None]"
    and fb: "cr_fallback sample_composite = Some FirstWriteWins"
    by (simp_all add: sample_composite_def AddGroup_def NewCompositeResolver_def NewRuleGroup_def dotted_def)
  have "map_option snd (Resolve_composite sample_composite None sample_conflict)
      = dynamic_as_resolver ?d None sample_conflict"
    using composite_equals_flat_dynamic [of ?d sample_composite None sample_conflict] g fb
    by (simp add: complete_def)
  then show ?thesis
    by (simp add: dynamic_as_resolver_def Resolve_dynamic_def run_resolver_def no_hooks_def
        EventTypeIs_def LastWriteWins_def sample_conflict_def decide_def iface_Compare_def Compare_integer_def)
qed

text \<open>A group is well named when each of its own named rules carries the group's name as prefix.\<close>

definition well_named :: "rule_group \<Rightarrow> bool" where
  "well_named g \<longleftrightarrow> (\<forall>r \<in> set (rg_rules g). rule_Name r \<noteq> [] \<longrightarrow>
     (\<exists>base. rule_Name r = dotted (rg_Name g) base))"

lemma renamespace_own:
  "rule_Name r = dotted n base \<Longrightarrow> base \<noteq> [] \<Longrightarrow> rule_Name (renamespace n n' r) = dotted n' base"
  by (simp add: renamespace_def strip_prefix_def dotted_def)

text \<open>
  Names of rules. \<open>AddRule\<close> and \<open>AddSubGroup\<close> keep a group well named, and a subgroup that is
  taken over becomes well named under its new full name; a rule its owner had added under the
  name \<open>base\<close> is then called parent.group.base. The renaming does not reach nested subgroups: when
  B, which already holds C, is added to A, the rule of C keeps the name B.C.r and C the name B.C,
  although B is now A.B.
\<close>

theorem rule_names:
  "(well_named g \<longrightarrow> well_named (AddRule g r))
   \<and> (well_named g \<longrightarrow> AddSubGroup g (Some sub) = Some g' \<longrightarrow> well_named g')
   \<and> well_named (adopt parent sub)
   \<and> (r' \<in> set (rg_rules sub) \<and> rule_Name r' = dotted (rg_Name sub) base \<and> base \<noteq> [] \<longrightarrow>
        (\<exists>r'' \<in> set (rg_rules (adopt parent sub)). rule_Matcher r'' = rule_Matcher r' \<and>
           rule_Resolver r'' = rule_Resolver r' \<and> rule_Name r'' = dotted (dotted parent (rg_Name sub)) base))
   \<and> (let c = AddRule (NewRuleGroup ''C'' []) \<lparr>rule_Name = ''r'', rule_Matcher = None, rule_Resolver = None\<rparr>;
          b = AddSubGroup (NewRuleGroup ''B'' []) (Some c);
          a = AddSubGroup (NewRuleGroup ''A'' []) b
      in map_option (\<lambda>a. map rule_Name (GetAllRules a)) a = Some [''B.C.r''])"
proof (intro conjI)
  show "well_named g \<longrightarrow> well_named (AddRule g r)"
    by (cases g) (auto simp: well_named_def Let_def)
  show "well_named g \<longrightarrow> AddSubGroup g (Some sub) = Some g' \<longrightarrow> well_named g'"
    by (cases g) (auto simp: well_named_def split: if_splits)
  show "well_named (adopt parent sub)"
    by (cases sub) (auto simp: well_named_def renamespace_def Let_def)
  show "r' \<in> set (rg_rules sub) \<and> rule_Name r' = dotted (rg_Name sub) base \<and> base \<noteq> [] \<longrightarrow>
        (\<exists>r'' \<in> set (rg_rules (adopt parent sub)). rule_Matcher r'' = rule_Matcher r' \<and>
           rule_Resolver r'' = rule_Resolver r' \<and> rule_Name r'' = dotted (dotted parent (rg_Name sub)) base)"
  proof (cases sub)
    case (RuleGroup n d rs gs en fb)
    then show ?thesis
      by (auto simp: Let_def renamespace_own intro!: bexI [of _ r'])
        (simp_all add: renamespace_def)
  qed
  show "let c = AddRule (NewRuleGroup ''C'' []) \<lparr>rule_Name = ''r'', rule_Matcher = None, rule_Resolver = None\<rparr>;
          b = AddSubGroup (NewRuleGroup ''B'' []) (Some c);
          a = AddSubGroup (NewRuleGroup ''A'' []) b
      in map_option (\<lambda>a. map rule_Name (GetAllRules a)) a = Some [''B.C.r'']"
    by (simp add: NewRuleGroup_def dotted_def renamespace_def strip_prefix_def)
qed

theorem rule_names_witness:
  "well_named (AddRule (NewRuleGroup ''g'' []) \<lparr>rule_Name = ''r'', rule_Matcher = None, rule_Resolver = None\<rparr>)
   \<and> rule_Name (rg_rules (adopt ''p'' (AddRule (NewRuleGroup ''g'' [])
        \<lparr>rule_Name = ''r'', rule_Matcher = None, rule_Resolver = None\<rparr>)) ! 0) = ''p.g.r''"
proof -
  let ?r = "\<lparr>rule_Name = ''r'', rule_Matcher = None, rule_Resolver = None\<rparr>"
  let ?sub = "AddRule (NewRuleGroup ''g'' []) ?r"
  have "well_named (NewRuleGroup ''g'' [])" by (simp add: NewRuleGroup_def well_named_def)
  then show ?thesis
    using rule_names [of "NewRuleGroup ''g'' []" ?r ?sub _ "''p''" "?r\<lparr>rule_Name := ''g.r''\<rparr>" "''r''"]
    by (simp add: NewRuleGroup_def dotted_def Let_def)
qed

end
