(* ===== verification/Interfaces.thy ===== *)
theory Interfaces
  imports Events
begin

text \<open>
  The two interfaces the sync manager is built on (synckit/types/interfaces.go), as records of
  operations over a state of any type. The context an operation receives is what \<open>ctx.Err()\<close>
  returns when it polls it; the optional filters of the two loading operations are left out, since the
  manager passes none. The locale \<open>event_store\<close> states the laws an event store promises its
  clients: nothing is strictly after the latest version, a successful \<open>Store\<close> appends one event
  with the payload of its argument, a failed one keeps the events. The lemmas of its clients are
  proved in the locale, in the theories of the clients.
\<close>

record 's store_ops =
  st_Store :: "'s \<Rightarrow> go_error option \<Rightarrow> event option \<Rightarrow> version option \<Rightarrow> ('s \<times> go_error option) go"
  st_Load :: "'s \<Rightarrow> go_error option \<Rightarrow> version option \<Rightarrow> (go_error + event_with_version list) go"
  st_LoadByAggregate :: "'s \<Rightarrow> go_error option \<Rightarrow> string \<Rightarrow> version option \<Rightarrow> (go_error + event_with_version list) go"
  st_LatestVersion :: "'s \<Rightarrow> go_error option \<Rightarrow> (go_error + version option) go"
  st_ParseVersion :: "'s \<Rightarrow> go_error option \<Rightarrow> string \<Rightarrow> (go_error + version option) go"
  st_Close :: "'s \<Rightarrow> ('s \<times> go_error option) go"

record 't transport_ops =
  tr_Push :: "'t \<Rightarrow> go_error option \<Rightarrow> event_with_version list \<Rightarrow> ('t \<times> go_error option) go"
  tr_Pull :: "'t \<Rightarrow> go_error option \<Rightarrow> version option \<Rightarrow> ('t \<times> (go_error + event_with_version list)) go"
  tr_GetLatestVersion :: "'t \<Rightarrow> go_error option \<Rightarrow> ('t \<times> (go_error + version option)) go"
  tr_Close :: "'t \<Rightarrow> ('t \<times> go_error option) go"

text \<open>What an event keeps when a store copies it.\<close>

definition same_payload :: "event \<Rightarrow> event \<Rightarrow> bool" where
  "same_payload a b \<longleftrightarrow> EventID a = EventID b \<and> EventType a = EventType b
     \<and> EventAggregateID a = EventAggregateID b"

locale event_store =
  fixes ops :: "'s store_ops"
    and inv :: "nat \<Rightarrow> 's \<Rightarrow> bool"
    and seen :: "'s \<Rightarrow> event list"
    and storable :: "event \<Rightarrow> bool"
  assumes nothing_after_latest:
      "inv k s \<Longrightarrow> st_LatestVersion ops s c = Some (Inr v) \<Longrightarrow> st_Load ops s c' v = Some (Inr evs) \<Longrightarrow> evs = []"
    and latest_total: "inv k s \<Longrightarrow> st_LatestVersion ops s c \<noteq> None"
    and store_total: "inv k s \<Longrightarrow> storable e \<Longrightarrow> st_Store ops s c (Some e) v \<noteq> None"
    and store_appends:
      "inv (Suc k) s \<Longrightarrow> st_Store ops s c (Some e) v = Some (s', None) \<Longrightarrow>
         inv k s' \<and> (\<exists>e'. same_payload e e' \<and> seen s' = seen s @ [e'])"
    and store_fails: "inv k s \<Longrightarrow> st_Store ops s c (Some e) v = Some (s', Some err) \<Longrightarrow>
         inv k s' \<and> seen s' = seen s"
    and store_nil: "st_Store ops s c None v \<noteq> Some (s', None)"
    and inv_less: "inv (Suc k) s \<Longrightarrow> inv k s"
begin

text \<open>
  \<open>inv k\<close> is the invariant of a store with room for \<open>k\<close> more events, \<open>seen\<close> the events it holds, in order, and
  \<open>storable\<close> the events that can be stored without a panic.
\<close>

lemma inv_mono: "inv (k + n) s \<Longrightarrow> inv k s"
  by (induction n) (auto dest: inv_less)

end

end
