(* ===== verification/State_Machine.thy ===== *)
theory State_Machine
  imports Sync_Errors
begin

text \<open>
  The generic state machine (synckit/statemachine/types.go, machine.go, persistence.go), for any
  type of states. Calls into user code that the machine starts in goroutines (observers, auto-save)
  or makes on its metrics collector are returned as a list of effects in the order the machine
  issues them. Time and the random transition identifier are arguments. Slices are values here:
  a snapshot holds the history it was taken with.
\<close>

section \<open>Data\<close>

type_synonym 's transition_rules = "('s, 's list) gomap"

definition Contains :: "'s transition_rules \<Rightarrow> 's \<Rightarrow> 's \<Rightarrow> bool" where
  "Contains tr from to = (case gm_lookup tr from of None \<Rightarrow> False | Some allowed \<Rightarrow> list_ex (\<lambda>a. a = to) allowed)"

record 's state_transition =
  st_From :: 's
  st_To :: 's
  st_Timestamp :: int
  st_Duration :: int
  st_Metadata :: metadata
  st_TransitionID :: string

type_synonym 's validator = "'s \<Rightarrow> 's \<Rightarrow> go_error option"

record 's sm_config =
  InitialState :: 's
  TransitionRules :: "'s transition_rules"
  Validator :: "'s validator option"
  Metrics :: bool
  MaxHistorySize :: int
  EnableMetrics :: bool
  Name :: string

definition DefaultConfig :: "'s \<Rightarrow> 's transition_rules \<Rightarrow> 's sm_config" where
  "DefaultConfig initialState rules =
     \<lparr>InitialState = initialState, TransitionRules = rules, Validator = None, Metrics = False,
      MaxHistorySize = 50, EnableMetrics = True, Name = []\<rparr>"

record persistence_config =
  AutoSave :: bool
  SaveInterval :: int
  RetentionPeriod :: int
  MaxSnapshots :: int
  CompressSnapshots :: bool

definition DefaultPersistenceConfig :: persistence_config where
  "DefaultPersistenceConfig =
     \<lparr>AutoSave = True, SaveInterval = 5 * 60 * 10 ^ 9, RetentionPeriod = 24 * 3600 * 10 ^ 9,
      MaxSnapshots = 10, CompressSnapshots = False\<rparr>"

definition zero_persistence_config :: persistence_config where
  "zero_persistence_config =
     \<lparr>AutoSave = False, SaveInterval = 0, RetentionPeriod = 0, MaxSnapshots = 0, CompressSnapshots = False\<rparr>"

record 's snapshot =
  sn_MachineID :: string
  sn_CurrentState :: 's
  sn_InitialState :: 's
  sn_StateEnteredAt :: int
  sn_Config :: "'s sm_config"
  sn_History :: "'s state_transition list"
  sn_Metadata :: metadata
  sn_SnapshotTime :: int
  sn_Version :: int

text \<open>
  The persistence a machine uses is known to it only by its presence. The flag \<open>m_metrics\<close> says
  whether a metrics collector is set, \<open>m_observers\<close> holds the identities of the observers.
\<close>

record 's machine =
  m_config :: "'s sm_config"
  m_state :: 's
  m_stateStart :: int
  m_observers :: "nat list"
  m_history :: "'s state_transition list"
  m_validator :: "'s validator option"
  m_metrics :: bool
  m_persistence :: bool
  m_machineID :: string
  m_persistenceEnabled :: bool
  m_persistenceConfig :: persistence_config

datatype 's sm_effect =
    NotifyTransition nat "'s state_transition"
  | NotifyTransitionFailed nat 's 's go_error metadata
  | RecordTransition 's 's int metadata
  | RecordTransitionError 's 's go_error metadata
  | RecordCurrentState 's
  | RecordStateDuration 's int
  | SpawnAutoSave

section \<open>Construction and transitions\<close>

definition New :: "int \<Rightarrow> 's sm_config \<Rightarrow> go_error + 's machine \<times> 's sm_effect list" where
  "New now config =
     (if TransitionRules config = None then Inl (ErrorString ''transition rules cannot be nil'')
      else let config = (if MaxHistorySize config \<le> 0 then config\<lparr>MaxHistorySize := 50\<rparr> else config)
        in Inr (\<lparr>m_config = config, m_state = InitialState config, m_stateStart = now, m_observers = [],
                 m_history = [], m_validator = Validator config, m_metrics = Metrics config,
                 m_persistence = False, m_machineID = [], m_persistenceEnabled = False,
                 m_persistenceConfig = zero_persistence_config\<rparr>,
                if Metrics config \<and> EnableMetrics config then [RecordCurrentState (InitialState config)] else []))"

definition Current :: "'s machine \<Rightarrow> 's" where
  "Current m = m_state m"

definition CanTransition :: "'s machine \<Rightarrow> 's \<Rightarrow> bool" where
  "CanTransition m to = Contains (TransitionRules (m_config m)) (m_state m) to"

definition addToHistory :: "'s machine \<Rightarrow> 's state_transition \<Rightarrow> 's machine" where
  "addToHistory m t =
     (let h = m_history m @ [t]
      in m\<lparr>m_history := (if int (length h) > MaxHistorySize (m_config m) then drop 1 h else h)\<rparr>)"

definition notifyTransition :: "'s machine \<Rightarrow> 's state_transition \<Rightarrow> 's sm_effect list" where
  "notifyTransition m t = map (\<lambda>ob. NotifyTransition ob t) (m_observers m)"

definition notifyTransitionFailed :: "'s machine \<Rightarrow> 's \<Rightarrow> 's \<Rightarrow> go_error \<Rightarrow> metadata \<Rightarrow> 's sm_effect list" where
  "notifyTransitionFailed m from to err md = map (\<lambda>ob. NotifyTransitionFailed ob from to err md) (m_observers m)"

definition metrics_on :: "'s machine \<Rightarrow> bool" where
  "metrics_on m \<longleftrightarrow> m_metrics m \<and> EnableMetrics (m_config m)"

text \<open>\<open>vstr\<close> is how the fmt package prints a state.\<close>

definition TransitionWithContext ::
  "('s \<Rightarrow> string) \<Rightarrow> int \<Rightarrow> string \<Rightarrow> 's machine \<Rightarrow> 's \<Rightarrow> metadata
     \<Rightarrow> 's machine \<times> 's sm_effect list \<times> go_error option" where
  "TransitionWithContext vstr now tid m to md =
     (let from = m_state m in
      if \<not> CanTransition m to then
        let err = ErrorString (''invalid transition from '' @ vstr from @ '' to '' @ vstr to) in
        (m, notifyTransitionFailed m from to err md
            @ (if metrics_on m then [RecordTransitionError from to err md] else []), Some err)
      else case (case m_validator m of None \<Rightarrow> None | Some v \<Rightarrow> v from to) of
        Some err \<Rightarrow>
          (m, notifyTransitionFailed m from to err md
              @ (if metrics_on m then [RecordTransitionError from to err md] else []),
           Some (WrapError ''transition validation failed: '' err))
      | None \<Rightarrow>
          let duration = time_Sub now (m_stateStart m);
              m1 = m\<lparr>m_state := to, m_stateStart := now\<rparr>;
              t = \<lparr>st_From = from, st_To = to, st_Timestamp = now, st_Duration = duration,
                   st_Metadata = md, st_TransitionID = tid\<rparr>;
              m2 = addToHistory m1 t
          in (m2, notifyTransition m2 t
                  @ (if metrics_on m2 then [RecordTransition from to duration md, RecordCurrentState to,
                                            RecordStateDuration from duration] else [])
                  @ (if m_persistenceEnabled m2 \<and> AutoSave (m_persistenceConfig m2) \<and> m_persistence m2
                     then [SpawnAutoSave] else []),
              None))"

definition Transition ::
  "('s \<Rightarrow> string) \<Rightarrow> int \<Rightarrow> string \<Rightarrow> 's machine \<Rightarrow> 's \<Rightarrow> 's machine \<times> 's sm_effect list \<times> go_error option" where
  "Transition vstr now tid m to = TransitionWithContext vstr now tid m to None"

definition Reset ::
  "('s \<Rightarrow> string) \<Rightarrow> int \<Rightarrow> string \<Rightarrow> 's machine \<Rightarrow> 's machine \<times> 's sm_effect list \<times> go_error option" where
  "Reset vstr now tid m =
     TransitionWithContext vstr now tid m (InitialState (m_config m)) (Some (fmupd ''reset'' (GBool True) fmempty))"

section \<open>Observers and history\<close>

definition Subscribe :: "'s machine \<Rightarrow> nat option \<Rightarrow> 's machine" where
  "Subscribe m ob = (case ob of None \<Rightarrow> m | Some i \<Rightarrow> m\<lparr>m_observers := m_observers m @ [i]\<rparr>)"

text \<open>
  \<open>Unsubscribe\<close> compares the address of its loop variable with the address of its parameter.
  These are two variables, so the addresses differ for every element.
\<close>

definition same_address :: "nat \<Rightarrow> nat \<Rightarrow> bool" where
  "same_address loop_variable parameter = False"

fun remove_first :: "(nat \<Rightarrow> bool) \<Rightarrow> nat list \<Rightarrow> nat list" where
  "remove_first P [] = []"
| "remove_first P (x # xs) = (if P x then xs else x # remove_first P xs)"

definition Unsubscribe :: "'s machine \<Rightarrow> nat option \<Rightarrow> 's machine" where
  "Unsubscribe m ob =
     (case ob of None \<Rightarrow> m
      | Some i \<Rightarrow> m\<lparr>m_observers := remove_first (\<lambda>x. same_address x i) (m_observers m)\<rparr>)"

definition History :: "'s machine \<Rightarrow> 's state_transition list" where
  "History m = m_history m"

section \<open>Export in DOT format\<close>

text \<open>
  The orders in which the two maps are ranged over are arguments: \<open>state_order\<close> enumerates
  the states collected from the rules (\<open>dot_states\<close>), \<open>rule_order'\<close> the keys of the rules.
\<close>

definition nl :: string where "nl = [CHR 0x0A]"
definition tab :: string where "tab = [CHR 0x09]"
definition quoted :: "string \<Rightarrow> string" where "quoted s = [CHR 0x22] @ s @ [CHR 0x22]"

definition rule_targets :: "'s machine \<Rightarrow> 's \<Rightarrow> 's list" where
  "rule_targets m from = (case gm_lookup (TransitionRules (m_config m)) from of None \<Rightarrow> [] | Some ts \<Rightarrow> ts)"

definition dot_states :: "'s machine \<Rightarrow> 's list \<Rightarrow> 's set" where
  "dot_states m rule_order =
     {InitialState (m_config m), m_state m} \<union> (\<Union>from \<in> set rule_order. insert from (set (rule_targets m from)))"

definition dot_node :: "('s \<Rightarrow> string) \<Rightarrow> 's machine \<Rightarrow> 's \<Rightarrow> string" where
  "dot_node vstr m s =
     (let (color, fillColor) =
            (if s = m_state m then (''red'', ''lightcoral'')
             else if s = InitialState (m_config m) then (''green'', ''lightgreen'')
             else (''black'', ''lightblue''))
      in tab @ quoted (vstr s) @ '' [color='' @ color @ '', fillcolor='' @ fillColor @ '', label='' @ quoted (vstr s)
         @ ''];'' @ nl)"

definition dot_edge :: "('s \<Rightarrow> string) \<Rightarrow> 's \<Rightarrow> 's \<Rightarrow> string" where
  "dot_edge vstr from to = tab @ quoted (vstr from) @ '' -> '' @ quoted (vstr to) @ '';'' @ nl"

definition dot_legend :: string where
  "dot_legend = nl @ tab @ ''// Legend'' @ nl @ tab @ ''subgraph cluster_legend {'' @ nl
     @ tab @ tab @ ''label='' @ quoted ''Legend'' @ '';'' @ nl @ tab @ tab @ ''style=filled;'' @ nl
     @ tab @ tab @ ''color=lightgrey;'' @ nl
     @ tab @ tab @ quoted ''Current State'' @ '' [color=red, fillcolor=lightcoral, shape=circle];'' @ nl
     @ tab @ tab @ quoted ''Initial State'' @ '' [color=green, fillcolor=lightgreen, shape=circle];'' @ nl
     @ tab @ tab @ quoted ''Other States'' @ '' [color=black, fillcolor=lightblue, shape=circle];'' @ nl
     @ tab @ ''}'' @ nl"

definition dot_edges :: "('s \<Rightarrow> string) \<Rightarrow> 's machine \<Rightarrow> 's list \<Rightarrow> string list" where
  "dot_edges vstr m rule_order' =
     concat (map (\<lambda>from. map (dot_edge vstr from) (rule_targets m from)) rule_order')"

definition ExportDOT :: "('s \<Rightarrow> string) \<Rightarrow> 's machine \<Rightarrow> 's list \<Rightarrow> 's list \<Rightarrow> string" where
  "ExportDOT vstr m state_order rule_order' =
     (let graphName = (if Name (m_config m) = [] then ''StateMachine'' else Name (m_config m))
      in ''digraph '' @ quoted graphName @ '' {'' @ nl @ tab @ ''rankdir=LR;'' @ nl
         @ tab @ ''node [shape=circle, style=filled];'' @ nl @ nl
         @ concat (map (dot_node vstr m) state_order) @ nl
         @ concat (dot_edges vstr m rule_order')
         @ dot_legend @ ''}'')"

section \<open>Persistence\<close>

definition CreateSnapshot :: "int \<Rightarrow> 's machine \<Rightarrow> 's snapshot" where
  "CreateSnapshot now m =
     \<lparr>sn_MachineID = m_machineID m, sn_CurrentState = m_state m, sn_InitialState = InitialState (m_config m),
      sn_StateEnteredAt = m_stateStart m, sn_Config = m_config m, sn_History = m_history m,
      sn_Metadata = None, sn_SnapshotTime = now, sn_Version = 1\<rparr>"

definition restoreFromSnapshot :: "'s machine \<Rightarrow> 's snapshot \<Rightarrow> 's machine" where
  "restoreFromSnapshot m s =
     m\<lparr>m_config := sn_Config s, m_state := sn_CurrentState s, m_stateStart := sn_StateEnteredAt s,
       m_history := sn_History s\<rparr>"

text \<open>
  A persistence is given by its \<open>LoadState\<close>; \<open>None\<close> is the nil persistence. A load error is ignored.
\<close>

definition EnablePersistence ::
  "'s machine \<Rightarrow> (string \<Rightarrow> go_error + 's snapshot option) option \<Rightarrow> string \<Rightarrow> persistence_config \<Rightarrow> 's machine" where
  "EnablePersistence m load machineID config =
     (let m1 = m\<lparr>m_persistence := (load \<noteq> None), m_machineID := machineID,
                 m_persistenceConfig := config, m_persistenceEnabled := True\<rparr>
      in case load of
           None \<Rightarrow> m1
         | Some l \<Rightarrow> (case l machineID of Inr (Some s) \<Rightarrow> restoreFromSnapshot m1 s | _ \<Rightarrow> m1))"

definition DisablePersistence :: "'s machine \<Rightarrow> 's machine" where
  "DisablePersistence m =
     m\<lparr>m_persistence := False, m_machineID := [], m_persistenceConfig := zero_persistence_config,
       m_persistenceEnabled := False\<rparr>"

text \<open>The in-memory persistence, which never fails.\<close>

type_synonym 's memory_persistence = "(string, 's snapshot) fmap"

definition NewMemoryStatePersistence :: "'s memory_persistence" where
  "NewMemoryStatePersistence = fmempty"

definition SaveState :: "'s memory_persistence \<Rightarrow> string \<Rightarrow> 's snapshot \<Rightarrow> 's memory_persistence \<times> go_error option" where
  "SaveState mp machineID s = (fmupd machineID s mp, None)"

definition LoadState :: "'s memory_persistence \<Rightarrow> string \<Rightarrow> go_error + 's snapshot option" where
  "LoadState mp machineID = Inr (fmlookup mp machineID)"

definition DeleteState :: "'s memory_persistence \<Rightarrow> string \<Rightarrow> 's memory_persistence \<times> go_error option" where
  "DeleteState mp machineID = (fmdrop machineID mp, None)"

definition ListMachines :: "'s memory_persistence \<Rightarrow> string list \<Rightarrow> go_error + string list" where
  "ListMachines mp key_order = Inr key_order"

section \<open>The builder\<close>

definition NewBuilder :: "'s \<Rightarrow> 's sm_config" where
  "NewBuilder initialState =
     \<lparr>InitialState = initialState, TransitionRules = Some fmempty, Validator = None, Metrics = False,
      MaxHistorySize = 50, EnableMetrics = True, Name = []\<rparr>"

definition Allow :: "'s \<Rightarrow> 's list \<Rightarrow> 's sm_config \<Rightarrow> 's sm_config" where
  "Allow from to b =
     (let rules = (case TransitionRules b of None \<Rightarrow> fmempty | Some r \<Rightarrow> r);
          old = (case fmlookup rules from of None \<Rightarrow> [] | Some xs \<Rightarrow> xs)
      in b\<lparr>TransitionRules := Some (fmupd from (old @ to) rules)\<rparr>)"

definition WithValidator_builder :: "'s validator option \<Rightarrow> 's sm_config \<Rightarrow> 's sm_config" where
  "WithValidator_builder v b = b\<lparr>Validator := v\<rparr>"

definition WithMetrics_builder :: "bool \<Rightarrow> 's sm_config \<Rightarrow> 's sm_config" where
  "WithMetrics_builder mt b = b\<lparr>Metrics := mt\<rparr>"

definition WithHistorySize :: "int \<Rightarrow> 's sm_config \<Rightarrow> 's sm_config" where
  "WithHistorySize n b = b\<lparr>MaxHistorySize := n\<rparr>"

definition WithName :: "string \<Rightarrow> 's sm_config \<Rightarrow> 's sm_config" where
  "WithName name b = b\<lparr>Name := name\<rparr>"

definition EnableMetrics_builder :: "bool \<Rightarrow> 's sm_config \<Rightarrow> 's sm_config" where
  "EnableMetrics_builder enabled b = b\<lparr>EnableMetrics := enabled\<rparr>"

definition Build :: "int \<Rightarrow> 's sm_config \<Rightarrow> go_error + 's machine \<times> 's sm_effect list" where
  "Build now b = New now b"

section \<open>The contract of a machine with fixed rules\<close>

text \<open>
  What the clients of a machine rely on: a move succeeds exactly when the rules allow it, and then
  the machine is in the target state; a refused move changes nothing. \<open>attempts\<close> is a sequence of
  moves whose errors are ignored.
\<close>

locale guarded_machine =
  fixes inv :: "'m \<Rightarrow> bool"
    and cur :: "'m \<Rightarrow> 's"
    and allowed :: "'s \<Rightarrow> 's \<Rightarrow> bool"
    and move :: "'m \<Rightarrow> 's \<Rightarrow> 'm \<times> go_error option"
  assumes move_ok: "inv m \<Longrightarrow> allowed (cur m) to \<Longrightarrow> \<exists>m'. move m to = (m', None) \<and> cur m' = to \<and> inv m'"
    and move_refused: "inv m \<Longrightarrow> \<not> allowed (cur m) to \<Longrightarrow> \<exists>e. move m to = (m, Some e)"
begin

lemma move_cur: "inv m \<Longrightarrow> cur (fst (move m to)) = (if allowed (cur m) to then to else cur m)"
  using move_ok [of m to] move_refused [of m to] by (cases "allowed (cur m) to") auto

lemma move_inv: "inv m \<Longrightarrow> inv (fst (move m to))"
  using move_ok [of m to] move_refused [of m to] by (cases "allowed (cur m) to") auto

lemma move_err: "inv m \<Longrightarrow> snd (move m to) = None \<longleftrightarrow> allowed (cur m) to"
  using move_ok [of m to] move_refused [of m to] by (cases "allowed (cur m) to") auto

definition attempts :: "'m \<Rightarrow> 's list \<Rightarrow> 'm" where
  "attempts m tos = foldl (\<lambda>m to. fst (move m to)) m tos"

lemma attempts_spec:
  "inv m \<Longrightarrow> inv (attempts m tos) \<and> cur (attempts m tos) = foldl (\<lambda>s to. if allowed s to then to else s) (cur m) tos"
proof (induction tos arbitrary: m)
  case (Cons to tos)
  then show ?case
    using Cons.IH [of "fst (move m to)"] by (simp add: attempts_def move_inv move_cur)
qed (simp add: attempts_def)

lemma attempts_path: "inv m \<Longrightarrow> allowed\<^sup>*\<^sup>* (cur m) (cur (attempts m tos))"
proof (induction tos arbitrary: m)
  case (Cons to tos)
  have "allowed\<^sup>*\<^sup>* (cur m) (cur (fst (move m to)))"
    using Cons.prems by (auto simp: move_cur)
  also have "allowed\<^sup>*\<^sup>* (cur (fst (move m to))) (cur (attempts (fst (move m to)) tos))"
    using Cons by (simp add: move_inv)
  finally show ?case by (simp add: attempts_def)
qed (simp add: attempts_def)

end

definition sm_move :: "('s \<Rightarrow> string) \<Rightarrow> int \<Rightarrow> string \<Rightarrow> metadata \<Rightarrow> 's machine \<Rightarrow> 's \<Rightarrow> 's machine \<times> go_error option" where
  "sm_move vstr now tid md m to = (case TransitionWithContext vstr now tid m to md of (m', _, e) \<Rightarrow> (m', e))"

definition fixed_rules :: "'s transition_rules \<Rightarrow> 's machine \<Rightarrow> bool" where
  "fixed_rules R m \<longleftrightarrow> TransitionRules (m_config m) = R \<and> m_validator m = None"

lemma addToHistory_simps [simp]:
  "m_state (addToHistory m t) = m_state m" "m_config (addToHistory m t) = m_config m"
  "m_validator (addToHistory m t) = m_validator m" "m_observers (addToHistory m t) = m_observers m"
  "m_stateStart (addToHistory m t) = m_stateStart m"
  by (simp_all add: addToHistory_def Let_def)

lemma addToHistory_history:
  "m_history (addToHistory m t) =
     (if int (length (m_history m)) < MaxHistorySize (m_config m) then m_history m @ [t]
      else drop 1 (m_history m @ [t]))"
  by (simp add: addToHistory_def Let_def)

lemma Transition_accepted:
  assumes "CanTransition m to" and "(case m_validator m of None \<Rightarrow> None | Some v \<Rightarrow> v (m_state m) to) = None"
  shows "\<exists>t eff. st_From t = m_state m \<and> st_To t = to \<and> st_Timestamp t = now \<and> st_Metadata t = md
     \<and> TransitionWithContext vstr now tid m to md = (addToHistory (m\<lparr>m_state := to, m_stateStart := now\<rparr>) t, eff, None)
     \<and> (\<forall>ob \<in> set (m_observers m). NotifyTransition ob t \<in> set eff)"
proof -
  let ?t = "\<lparr>st_From = m_state m, st_To = to, st_Timestamp = now, st_Duration = time_Sub now (m_stateStart m),
     st_Metadata = md, st_TransitionID = tid\<rparr>"
  show ?thesis
    by (rule exI [of _ ?t]) (use assms in \<open>simp add: TransitionWithContext_def Let_def notifyTransition_def\<close>)
qed

lemma Transition_refused:
  assumes "\<not> (CanTransition m to \<and> (case m_validator m of None \<Rightarrow> None | Some v \<Rightarrow> v (m_state m) to) = None)"
  shows "\<exists>eff err. TransitionWithContext vstr now tid m to md = (m, eff, Some err)
    \<and> (\<forall>ob t. NotifyTransition ob t \<notin> set eff)"
  using assms
  by (auto simp: TransitionWithContext_def Let_def notifyTransitionFailed_def split: option.splits)

interpretation gm: guarded_machine "fixed_rules R" m_state "Contains R" "sm_move vstr now tid md" for R vstr now tid md
proof unfold_locales
  fix m to
  assume inv: "fixed_rules R m"
  show "\<exists>m'. sm_move vstr now tid md m to = (m', None) \<and> m_state m' = to \<and> fixed_rules R m'"
    if "Contains R (m_state m) to"
    using that inv Transition_accepted [of m to now md vstr tid]
    by (auto simp: sm_move_def fixed_rules_def CanTransition_def)
  show "\<exists>e. sm_move vstr now tid md m to = (m, Some e)" if "\<not> Contains R (m_state m) to"
    using that inv Transition_refused [of m to vstr now tid md]
    by (auto simp: sm_move_def fixed_rules_def CanTransition_def)
qed

section \<open>Reachable machines\<close>

inductive sm_reachable :: "('s \<Rightarrow> string) \<Rightarrow> 's machine \<Rightarrow> bool" for vstr where
  new: "New now config = Inr (m, eff) \<Longrightarrow> sm_reachable vstr m"
| move: "sm_reachable vstr m \<Longrightarrow> TransitionWithContext vstr now tid m to md = (m', eff, e) \<Longrightarrow> sm_reachable vstr m'"
| reset: "sm_reachable vstr m \<Longrightarrow> Reset vstr now tid m = (m', eff, e) \<Longrightarrow> sm_reachable vstr m'"
| subscribe: "sm_reachable vstr m \<Longrightarrow> sm_reachable vstr (Subscribe m ob)"
| unsubscribe: "sm_reachable vstr m \<Longrightarrow> sm_reachable vstr (Unsubscribe m ob)"
| restore: "sm_reachable vstr m \<Longrightarrow> sm_reachable vstr m0 \<Longrightarrow> l mid = Inr (Some (CreateSnapshot now m0)) \<Longrightarrow>
     sm_reachable vstr (EnablePersistence m (Some l) mid pc)"
| enable: "sm_reachable vstr m \<Longrightarrow> (\<forall>l. load = Some l \<longrightarrow> (\<forall>s. l mid \<noteq> Inr (Some s))) \<Longrightarrow>
     sm_reachable vstr (EnablePersistence m load mid pc)"
| disable: "sm_reachable vstr m \<Longrightarrow> sm_reachable vstr (DisablePersistence m)"

text \<open>
  The recorded history is a suffix of a run: consecutive records fit together, each record is an
  allowed transition, the last one ends in the current state, and there are at most
  \<open>MaxHistorySize\<close> of them.
\<close>

definition history_ok :: "'s transition_rules \<Rightarrow> 's state_transition list \<Rightarrow> 's \<Rightarrow> bool" where
  "history_ok rules h s \<longleftrightarrow> successively (\<lambda>a b. st_To a = st_From b) h
     \<and> (\<forall>t \<in> set h. Contains rules (st_From t) (st_To t)) \<and> (h \<noteq> [] \<longrightarrow> st_To (last h) = s)"

definition machine_ok :: "'s machine \<Rightarrow> bool" where
  "machine_ok m \<longleftrightarrow> history_ok (TransitionRules (m_config m)) (m_history m) (m_state m)
     \<and> TransitionRules (m_config m) \<noteq> None \<and> 0 < MaxHistorySize (m_config m)
     \<and> int (length (m_history m)) \<le> MaxHistorySize (m_config m)"

lemma history_ok_snoc:
  "history_ok rules h (st_From t) \<Longrightarrow> Contains rules (st_From t) (st_To t) \<Longrightarrow> history_ok rules (h @ [t]) (st_To t)"
  by (auto simp: history_ok_def successively_append_iff)

lemma history_ok_drop: "history_ok rules h s \<Longrightarrow> length h > 1 \<Longrightarrow> history_ok rules (drop 1 h) s"
  by (cases h) (auto simp: history_ok_def successively_Cons)

lemma machine_ok_move:
  assumes "machine_ok m" and "TransitionWithContext vstr now tid m to md = (m', eff, e)"
  shows "machine_ok m'"
proof (cases "CanTransition m to \<and> (case m_validator m of None \<Rightarrow> None | Some v \<Rightarrow> v (m_state m) to) = None")
  case False
  then show ?thesis using Transition_refused [OF False, of vstr now tid md] assms by auto
next
  case True
  then obtain t where t: "st_From t = m_state m" "st_To t = to"
    and m': "m' = addToHistory (m\<lparr>m_state := to, m_stateStart := now\<rparr>) t"
    using Transition_accepted [of m to now md vstr tid] assms(2) by auto
  let ?R = "TransitionRules (m_config m)"
  have h: "history_ok ?R (m_history m @ [t]) to"
    using history_ok_snoc [of ?R "m_history m" t] assms(1) True t
    by (auto simp: machine_ok_def CanTransition_def)
  show ?thesis
  proof (cases "m_history m = []")
    case True
    then show ?thesis using h assms(1) by (simp add: machine_ok_def m' addToHistory_history)
  next
    case False
    then have "history_ok ?R (drop 1 (m_history m @ [t])) to"
      using history_ok_drop [OF h] by simp
    then show ?thesis
      using h assms(1) by (auto simp: machine_ok_def m' addToHistory_history)
  qed
qed

lemma EnablePersistence_keeps:
  "(\<forall>l. load = Some l \<longrightarrow> (\<forall>s. l mid \<noteq> Inr (Some s))) \<Longrightarrow>
     machine_ok (EnablePersistence m load mid pc) = machine_ok m"
  by (auto simp: EnablePersistence_def machine_ok_def Let_def split: option.split sum.split)

lemma EnablePersistence_restores:
  "l mid = Inr (Some s) \<Longrightarrow> EnablePersistence m (Some l) mid pc =
     restoreFromSnapshot (m\<lparr>m_persistence := True, m_machineID := mid,
        m_persistenceConfig := pc, m_persistenceEnabled := True\<rparr>) s"
  by (simp add: EnablePersistence_def Let_def)

lemma remove_first_False: "remove_first (\<lambda>x. False) xs = xs"
  by (induction xs) simp_all

lemma machine_ok_frame:
  "machine_ok (Subscribe m ob) = machine_ok m"
  "machine_ok (Unsubscribe m ob) = machine_ok m"
  "machine_ok (DisablePersistence m) = machine_ok m"
  by (auto simp: machine_ok_def Subscribe_def Unsubscribe_def DisablePersistence_def split: option.split)

lemma sm_reachable_ok: "sm_reachable vstr m \<Longrightarrow> machine_ok m"
proof (induction rule: sm_reachable.induct)
  case (new now config m eff)
  then show ?case
    by (auto simp: New_def Let_def machine_ok_def history_ok_def split: if_splits)
next
  case (restore m m0 l mid now pc)
  then show ?case
    by (simp add: EnablePersistence_restores restoreFromSnapshot_def CreateSnapshot_def machine_ok_def)
qed (auto simp: Reset_def machine_ok_frame EnablePersistence_keeps intro: machine_ok_move)

section \<open>Properties\<close>


definition toggle_machine :: "bool machine" where
  "toggle_machine = fst (projr (Build 0 (Allow True [False] (Allow False [True] (NewBuilder False)))))"

definition bool_str :: "bool \<Rightarrow> string" where
  "bool_str b = (if b then ''true'' else ''false'')"

lemma toggle_reachable: "sm_reachable bool_str toggle_machine"
  by (rule sm_reachable.new [of 0 "Allow True [False] (Allow False [True] (NewBuilder False))" _ "[]"])
    (simp add: toggle_machine_def Build_def New_def Allow_def NewBuilder_def Let_def)

lemma toggle_allows: "CanTransition (Subscribe toggle_machine ob) True" "m_validator (Subscribe toggle_machine ob) = None"
  by (auto simp: toggle_machine_def Build_def New_def Allow_def NewBuilder_def Let_def Subscribe_def
      CanTransition_def Contains_def split: option.split)




text \<open>
  \<open>Unsubscribe\<close> never removes anything, because it compares the addresses of two different
  variables; an observer that was subscribed and unsubscribed is still notified of the
  next transition.
\<close>

theorem unsubscribed_observer_still_notified:
  assumes "CanTransition m to" and "m_validator m = None"
  shows "Unsubscribe m ob = m
    \<and> (\<exists>t m' eff. TransitionWithContext vstr now tid (Unsubscribe (Subscribe m (Some i)) (Some i)) to md = (m', eff, None)
        \<and> st_To t = to \<and> NotifyTransition i t \<in> set eff)"
proof -
  have noop: "Unsubscribe m' ob' = m'" for m' :: "'a machine" and ob'
    by (cases ob') (simp_all add: Unsubscribe_def same_address_def remove_first_False)
  have "CanTransition (Subscribe m (Some i)) to" "m_validator (Subscribe m (Some i)) = None"
    using assms by (simp_all add: CanTransition_def Subscribe_def)
  then have "\<exists>t m' eff. TransitionWithContext vstr now tid (Subscribe m (Some i)) to md = (m', eff, None)
      \<and> st_To t = to \<and> NotifyTransition i t \<in> set eff"
    using Transition_accepted [of "Subscribe m (Some i)" to now md vstr tid]
    by (fastforce simp: Subscribe_def)
  then show ?thesis by (simp only: noop simp_thms)
qed

theorem unsubscribed_observer_still_notified_witness:
  "\<exists>t m' eff. TransitionWithContext bool_str 5 ''id'' (Unsubscribe (Subscribe toggle_machine (Some 7)) (Some 7)) True None
     = (m', eff, None) \<and> st_To t \<and> NotifyTransition 7 t \<in> set eff"
  using unsubscribed_observer_still_notified [of toggle_machine True None bool_str 5 "''id''" 7 None]
    toggle_allows [of None]
  by (simp add: Subscribe_def)

text \<open>
  A machine that enables persistence on a store holding the snapshot another machine saved
  under the same identifier takes over its state, the time it was entered, its history and its
  configuration, hence allows exactly the same transitions.
\<close>

theorem snapshot_roundtrip:
  "let mp = fst (SaveState mp0 mid (CreateSnapshot now m));
       m' = EnablePersistence fresh (Some (LoadState mp)) mid pc
   in Current m' = Current m \<and> History m' = History m \<and> m_config m' = m_config m
      \<and> m_stateStart m' = m_stateStart m \<and> CanTransition m' = CanTransition m
      \<and> m_observers m' = m_observers fresh \<and> m_persistenceEnabled m'"
  by (auto simp: SaveState_def LoadState_def CreateSnapshot_def EnablePersistence_restores
      restoreFromSnapshot_def Current_def History_def CanTransition_def Let_def)

end
