(* ===== verification/Sync_State.thy ===== *)
theory Sync_State
  imports State_Machine
begin

text \<open>
  The states of a sync operation and their state machine (synckit/sync_state.go). \<open>SyncState\<close> is
  an int in the source; the eight named values have a constructor each and \<open>SyncOther\<close> stands for
  the remaining ints.
\<close>

datatype sync_state =
    SyncIdle | SyncInitializing | SyncPushing | SyncPulling | SyncResolvingConflicts
  | SyncCompleted | SyncFailed | SyncCancelled | SyncOther i64

fun SyncState_String :: "sync_state \<Rightarrow> string" where
  "SyncState_String SyncIdle = ''idle''"
| "SyncState_String SyncInitializing = ''initializing''"
| "SyncState_String SyncPushing = ''pushing''"
| "SyncState_String SyncPulling = ''pulling''"
| "SyncState_String SyncResolvingConflicts = ''resolving_conflicts''"
| "SyncState_String SyncCompleted = ''completed''"
| "SyncState_String SyncFailed = ''failed''"
| "SyncState_String SyncCancelled = ''cancelled''"
| "SyncState_String (SyncOther i) = ''unknown('' @ i64_dec i @ '')''"

definition IsTerminal :: "sync_state \<Rightarrow> bool" where
  "IsTerminal s \<longleftrightarrow> s = SyncCompleted \<or> s = SyncFailed \<or> s = SyncCancelled"

definition IsActive :: "sync_state \<Rightarrow> bool" where
  "IsActive s \<longleftrightarrow> s = SyncInitializing \<or> s = SyncPushing \<or> s = SyncPulling \<or> s = SyncResolvingConflicts"

definition CanAutoSync :: "sync_state \<Rightarrow> bool" where
  "CanAutoSync s \<longleftrightarrow> s = SyncIdle"

definition SyncStateTransitionRules :: "sync_state transition_rules" where
  "SyncStateTransitionRules = Some (fmap_of_list [
     (SyncIdle, [SyncInitializing]),
     (SyncInitializing, [SyncPushing, SyncPulling, SyncFailed, SyncCancelled]),
     (SyncPushing, [SyncPulling, SyncCompleted, SyncFailed, SyncCancelled]),
     (SyncPulling, [SyncPushing, SyncResolvingConflicts, SyncCompleted, SyncFailed, SyncCancelled]),
     (SyncResolvingConflicts, [SyncCompleted, SyncFailed, SyncCancelled]),
     (SyncCompleted, [SyncIdle]),
     (SyncFailed, [SyncIdle]),
     (SyncCancelled, [SyncIdle])])"

definition NewSyncStateMachine :: "int \<Rightarrow> go_error + sync_state machine \<times> sync_state sm_effect list" where
  "NewSyncStateMachine now = Build now
     (WithName ''sync_operations''
       (Allow SyncCancelled [SyncIdle]
       (Allow SyncFailed [SyncIdle]
       (Allow SyncCompleted [SyncIdle]
       (Allow SyncResolvingConflicts [SyncCompleted, SyncFailed, SyncCancelled]
       (Allow SyncPulling [SyncPushing, SyncResolvingConflicts, SyncCompleted, SyncFailed, SyncCancelled]
       (Allow SyncPushing [SyncPulling, SyncCompleted, SyncFailed, SyncCancelled]
       (Allow SyncInitializing [SyncPushing, SyncPulling, SyncFailed, SyncCancelled]
       (Allow SyncIdle [SyncInitializing]
       (NewBuilder SyncIdle))))))))))"

text \<open>The callbacks of a \<open>SyncStateObserver\<close>, when they are set.\<close>

record sync_state_observer =
  OnStateChange :: bool
  OnStateChangeError :: bool

datatype observer_call =
    StateChange sync_state sync_state int metadata
  | StateChangeError sync_state sync_state go_error metadata

definition OnTransition :: "sync_state_observer \<Rightarrow> sync_state state_transition \<Rightarrow> observer_call list" where
  "OnTransition ob t = (if OnStateChange ob then [StateChange (st_From t) (st_To t) (st_Duration t) (st_Metadata t)] else [])"

definition OnTransitionFailed ::
  "sync_state_observer \<Rightarrow> sync_state \<Rightarrow> sync_state \<Rightarrow> go_error \<Rightarrow> metadata \<Rightarrow> observer_call list" where
  "OnTransitionFailed ob from to err md = (if OnStateChangeError ob then [StateChangeError from to err md] else [])"

section \<open>Facts\<close>

definition sync_allowed :: "sync_state \<Rightarrow> sync_state \<Rightarrow> bool" where
  "sync_allowed = Contains SyncStateTransitionRules"

lemma sync_allowed_iff:
  "sync_allowed a b \<longleftrightarrow> (case a of
       SyncIdle \<Rightarrow> b = SyncInitializing
     | SyncInitializing \<Rightarrow> b \<in> {SyncPushing, SyncPulling, SyncFailed, SyncCancelled}
     | SyncPushing \<Rightarrow> b \<in> {SyncPulling, SyncCompleted, SyncFailed, SyncCancelled}
     | SyncPulling \<Rightarrow> b \<in> {SyncPushing, SyncResolvingConflicts, SyncCompleted, SyncFailed, SyncCancelled}
     | SyncResolvingConflicts \<Rightarrow> b \<in> {SyncCompleted, SyncFailed, SyncCancelled}
     | SyncCompleted \<Rightarrow> b = SyncIdle | SyncFailed \<Rightarrow> b = SyncIdle | SyncCancelled \<Rightarrow> b = SyncIdle
     | SyncOther i \<Rightarrow> False)"
  by (auto simp: sync_allowed_def Contains_def SyncStateTransitionRules_def fmlookup_of_list split: sync_state.split)

text \<open>A machine of the sync manager: the rules of sync operations and no custom validator.\<close>

abbreviation sync_machine_ok :: "sync_state machine \<Rightarrow> bool" where
  "sync_machine_ok \<equiv> fixed_rules SyncStateTransitionRules"

definition sync_builder :: "sync_state sm_config" where
  "sync_builder = foldl (\<lambda>b (from, to). Allow from to b) (NewBuilder SyncIdle)
     [(SyncIdle, [SyncInitializing]),
      (SyncInitializing, [SyncPushing, SyncPulling, SyncFailed, SyncCancelled]),
      (SyncPushing, [SyncPulling, SyncCompleted, SyncFailed, SyncCancelled]),
      (SyncPulling, [SyncPushing, SyncResolvingConflicts, SyncCompleted, SyncFailed, SyncCancelled]),
      (SyncResolvingConflicts, [SyncCompleted, SyncFailed, SyncCancelled]),
      (SyncCompleted, [SyncIdle]), (SyncFailed, [SyncIdle]), (SyncCancelled, [SyncIdle])]"

lemma sync_builder_rules: "TransitionRules sync_builder = SyncStateTransitionRules"
proof -
  obtain f where f: "TransitionRules sync_builder = Some f"
    and l: "fmlookup f s = fmlookup (the SyncStateTransitionRules) s" for s
    by (auto simp: sync_builder_def Allow_def NewBuilder_def SyncStateTransitionRules_def fmlookup_of_list Let_def)
  have "f = the SyncStateTransitionRules" by (rule fmap_ext) (rule l)
  with f show ?thesis by (simp add: SyncStateTransitionRules_def)
qed

lemma NewSyncStateMachine_builder: "NewSyncStateMachine now = Build now (WithName ''sync_operations'' sync_builder)"
  by (simp add: NewSyncStateMachine_def sync_builder_def)

lemma NewSyncStateMachine_result:
  "\<exists>m. NewSyncStateMachine now = Inr (m, []) \<and> m_state m = SyncIdle \<and> sync_machine_ok m
     \<and> MaxHistorySize (m_config m) = 50 \<and> m_observers m = []"
proof -
  have "InitialState sync_builder = SyncIdle" "MaxHistorySize sync_builder = 50" "Validator sync_builder = None"
    "Metrics sync_builder = False"
    by (simp_all add: sync_builder_def Allow_def NewBuilder_def Let_def)
  moreover have "TransitionRules sync_builder \<noteq> None"
    by (simp add: sync_builder_rules SyncStateTransitionRules_def)
  ultimately show ?thesis
    by (auto simp: NewSyncStateMachine_builder Build_def New_def WithName_def fixed_rules_def sync_builder_rules Let_def)
qed

section \<open>Properties\<close>

text \<open>
  The machine that \<open>NewSyncStateMachine\<close> builds starts idle and has exactly the documented rule
  table \<open>SyncStateTransitionRules\<close>; in that table a new operation starts only from Idle, the terminal
  states lead back to Idle and nowhere else, every active state can fail or be cancelled, and from every named state
  Idle can be reached again.
\<close>

theorem sync_state_rules:
  "(\<exists>m. NewSyncStateMachine now = Inr (m, []) \<and> Current m = SyncIdle
      \<and> TransitionRules (m_config m) = SyncStateTransitionRules)
   \<and> (Contains SyncStateTransitionRules a SyncInitializing \<longleftrightarrow> CanAutoSync a)
   \<and> (IsTerminal a \<longrightarrow> (Contains SyncStateTransitionRules a b \<longleftrightarrow> b = SyncIdle))
   \<and> (IsActive a \<longrightarrow> Contains SyncStateTransitionRules a SyncFailed \<and> Contains SyncStateTransitionRules a SyncCancelled
        \<and> \<not> Contains SyncStateTransitionRules a SyncIdle)
   \<and> ((\<forall>i. a \<noteq> SyncOther i) \<longrightarrow> (Contains SyncStateTransitionRules)\<^sup>*\<^sup>* a SyncIdle)"
proof (intro conjI)
  show "\<exists>m. NewSyncStateMachine now = Inr (m, []) \<and> Current m = SyncIdle
      \<and> TransitionRules (m_config m) = SyncStateTransitionRules"
    using NewSyncStateMachine_result [of now] by (auto simp: fixed_rules_def Current_def)
  note r = sync_allowed_iff [unfolded sync_allowed_def]
  show "Contains SyncStateTransitionRules a SyncInitializing \<longleftrightarrow> CanAutoSync a"
    by (cases a) (simp_all add: r CanAutoSync_def)
  show "IsTerminal a \<longrightarrow> (Contains SyncStateTransitionRules a b \<longleftrightarrow> b = SyncIdle)"
    by (cases a) (simp_all add: r IsTerminal_def)
  show "IsActive a \<longrightarrow> Contains SyncStateTransitionRules a SyncFailed \<and> Contains SyncStateTransitionRules a SyncCancelled
        \<and> \<not> Contains SyncStateTransitionRules a SyncIdle"
    by (cases a) (simp_all add: r IsActive_def)
  show "(\<forall>i. a \<noteq> SyncOther i) \<longrightarrow> (Contains SyncStateTransitionRules)\<^sup>*\<^sup>* a SyncIdle"
  proof
    assume named: "\<forall>i. a \<noteq> SyncOther i"
    show "(Contains SyncStateTransitionRules)\<^sup>*\<^sup>* a SyncIdle"
    proof (cases "IsActive a")
      case True
      then have "Contains SyncStateTransitionRules a SyncFailed" "Contains SyncStateTransitionRules SyncFailed SyncIdle"
        by (cases a; simp add: r IsActive_def)+
      then show ?thesis by (meson converse_rtranclp_into_rtranclp rtranclp.rtrancl_refl)
    next
      case False
      with named have "a = SyncIdle \<or> Contains SyncStateTransitionRules a SyncIdle"
        by (cases a) (simp_all add: r IsActive_def)
      then show ?thesis by auto
    qed
  qed
qed

theorem sync_state_rules_witness:
  "(Contains SyncStateTransitionRules)\<^sup>*\<^sup>* SyncResolvingConflicts SyncIdle
   \<and> \<not> Contains SyncStateTransitionRules SyncPulling SyncIdle
   \<and> Contains SyncStateTransitionRules SyncFailed SyncIdle"
  using sync_state_rules [of 0 SyncResolvingConflicts SyncIdle] sync_state_rules [of 0 SyncPulling SyncIdle]
    sync_state_rules [of 0 SyncFailed SyncIdle]
  by (simp add: IsActive_def IsTerminal_def)

end
