(* ===== verification/Sync_Manager.thy ===== *)
theory Sync_Manager
  imports Interfaces Resolvers Sync_State
begin

text \<open>
  The sync manager (synckit/manager.go, and the types and constructor of synckit/sync.go) over any
  event store and transport, given by their operations. What the manager cannot decide comes from an
  environment indexed by a counter of polls: the time, the random transition identifiers, what the
  caller's context reports, whether a derived timeout has expired, the next event of the
  projection wait loop, and the formatting of times and durations. The metrics calls, subscriber
  notifications and effects of the state machine are recorded in \<open>mg_trace\<close> in the order they are
  issued; logging is left out. A result \<open>None\<close> is a panic.
\<close>

section \<open>Data\<close>

record retry_config =
  MaxAttempts :: int
  InitialDelay :: int
  MaxDelay :: int

record sync_options =
  PushOnly :: bool
  PullOnly :: bool
  ConflictResolver :: "resolver option"
  Filter :: "(event option \<Rightarrow> bool go) option"
  BatchSize :: int
  SyncInterval :: int
  RetryConfig :: "retry_config option"
  EnableValidation :: bool
  Timeout :: int
  EnableCompression :: bool

record sync_result =
  EventsPushed :: int
  EventsPulled :: int
  ConflictsResolved :: int
  Errors :: "go_error list"
  StartTime :: int
  Duration :: int
  LocalVersion :: "version option"
  RemoteVersion :: "version option"

definition new_result :: "int \<Rightarrow> sync_result" where
  "new_result start = \<lparr>EventsPushed = 0, EventsPulled = 0, ConflictsResolved = 0, Errors = [],
     StartTime = start, Duration = 0, LocalVersion = None, RemoteVersion = None\<rparr>"

datatype proj_event =
    RunnerCompleted
  | RunnerFailed nat go_error
  | RunnerNoSlot nat
  | ProjectionsTimedOut

record projection_config =
  Runners :: nat
  RunOnSync :: bool
  MaxWorkers :: int
  ProjTimeout :: int

record env =
  now_at :: "nat \<Rightarrow> int"
  id_at :: "nat \<Rightarrow> string"
  done_at :: "nat \<Rightarrow> go_error option"
  expired_at :: "nat \<Rightarrow> bool"
  proj_at :: "nat \<Rightarrow> proj_event"
  rfc3339 :: "int \<Rightarrow> string"
  fmt_duration :: "int \<Rightarrow> string"

datatype trace_event =
    RecordSyncDuration string int
  | RecordSyncEvents int int
  | RecordConflicts int
  | RecordSyncErrors string string
  | NotifySubscriber nat sync_result
  | MachineEffect "sync_state sm_effect"

record ('s, 't) manager =
  mg_store :: 's
  mg_transport :: 't
  mg_options :: sync_options
  mg_stateMachine :: "sync_state machine option"
  mg_autoSync :: bool
  mg_autoSyncInterval :: int
  mg_subscribers :: "nat list"
  mg_closed :: bool
  mg_projectionConfig :: "projection_config option"
  mg_tick :: nat
  mg_trace :: "trace_event list"

section \<open>The environment\<close>

definition tick :: "('s, 't) manager \<Rightarrow> ('s, 't) manager" where
  "tick w = w\<lparr>mg_tick := Suc (mg_tick w)\<rparr>"

definition emit :: "trace_event list \<Rightarrow> ('s, 't) manager \<Rightarrow> ('s, 't) manager" where
  "emit es w = w\<lparr>mg_trace := mg_trace w @ es\<rparr>"

definition time_Now :: "env \<Rightarrow> ('s, 't) manager \<Rightarrow> int" where
  "time_Now en w = now_at en (mg_tick w)"

text \<open>What the caller's context, or a context derived from it with a timeout, reports now.\<close>

definition ctx_err :: "env \<Rightarrow> ('s, 't) manager \<Rightarrow> go_error option" where
  "ctx_err en w = done_at en (mg_tick w)"

definition op_err :: "env \<Rightarrow> ('s, 't) manager \<Rightarrow> go_error option" where
  "op_err en w = (case done_at en (mg_tick w) of
     Some e \<Rightarrow> Some e | None \<Rightarrow> if expired_at en (mg_tick w) then Some DeadlineExceeded else None)"

definition withTimeout :: "sync_options \<Rightarrow> int" where
  "withTimeout opts = (if Timeout opts > 0 then Timeout opts else 30 * 10 ^ 9)"

text \<open>A transition of the optional state machine. Without a machine there is nothing to do.\<close>

definition sm_transition ::
  "env \<Rightarrow> ('s, 't) manager \<Rightarrow> sync_state \<Rightarrow> metadata \<Rightarrow> ('s, 't) manager \<times> go_error option" where
  "sm_transition en w to md =
     (case mg_stateMachine w of
        None \<Rightarrow> (w, None)
      | Some m \<Rightarrow>
          (case TransitionWithContext SyncState_String (time_Now en w) (id_at en (mg_tick w)) m to md of
             (m', eff, e) \<Rightarrow> (tick (emit (map MachineEffect eff) (w\<lparr>mg_stateMachine := Some m'\<rparr>)), e)))"

definition errors_any :: "go_error list \<Rightarrow> go_any" where
  "errors_any es = GOther ''[]error'' 0 (''['' @ join '' '' (map Error_text es) @ '']'') False"

section \<open>Versions and conflicts\<close>

fun latest_loop :: "version option \<Rightarrow> event_with_version list \<Rightarrow> (version option) go" where
  "latest_loop latest [] = Some latest"
| "latest_loop latest (ev # evs) = do {
     r \<leftarrow> iface_Compare (ev_Version ev) latest;
     latest_loop (if r > 0 then ev_Version ev else latest) evs }"

definition findLatestVersion :: "event_with_version list \<Rightarrow> (version option) go" where
  "findLatestVersion events = (case events of [] \<Rightarrow> Some None | ev # evs \<Rightarrow> latest_loop (ev_Version ev) evs)"

definition detectChangedFields :: "event \<Rightarrow> event \<Rightarrow> string list" where
  "detectChangedFields local remote =
     (let ld = EventData local; rd = EventData remote in
      if ld = GNil \<and> rd = GNil then []
      else if ld = GNil \<or> rd = GNil then [''data'']
      else if sprintf_v ld \<noteq> sprintf_v rd then [''data'']
      else [])"

definition conflict_key :: "event \<Rightarrow> string" where
  "conflict_key e = EventAggregateID e @ '':'' @ EventType e"

fun local_by_key :: "event_with_version list \<Rightarrow> (string, event_with_version list) fmap \<Rightarrow> (string, event_with_version list) fmap go" where
  "local_by_key [] m = Some m"
| "local_by_key (l # ls) m = do {
     e \<leftarrow> ev_Event l;
     let key = conflict_key e;
     let old = (case fmlookup m key of None \<Rightarrow> [] | Some xs \<Rightarrow> xs);
     local_by_key ls (fmupd key (old @ [l]) m) }"

definition copy_key :: "metadata \<Rightarrow> string \<Rightarrow> string \<Rightarrow> (string \<times> go_any) list" where
  "copy_key md from to = (case gm_lookup md from of None \<Rightarrow> [] | Some v \<Rightarrow> [(to, v)])"

text \<open>The body of the inner loop: the conflict of a local and a remote event, if their versions differ.\<close>

definition make_conflict :: "event_with_version \<Rightarrow> event_with_version \<Rightarrow> (conflict list) go" where
  "make_conflict local remote = do {
     le \<leftarrow> ev_Event local;
     re \<leftarrow> ev_Event remote;
     r \<leftarrow> iface_Compare (ev_Version local) (ev_Version remote);
     if r = 0 then Some []
     else do {
       ls \<leftarrow> iface_String (ev_Version local);
       rs \<leftarrow> iface_String (ev_Version remote);
       Some [\<lparr>cf_EventType = EventType re, cf_AggregateID = EventAggregateID re,
              cf_ChangedFields = detectChangedFields le re,
              cf_Metadata = md_of ([(''local_version'', GString ls), (''remote_version'', GString rs),
                  (''version_comparison'', GInt_of r)]
                @ copy_key (EventMetadata le) ''origin'' ''local_origin''
                @ copy_key (EventMetadata le) ''timestamp'' ''local_timestamp''
                @ copy_key (EventMetadata re) ''origin'' ''remote_origin''
                @ copy_key (EventMetadata re) ''timestamp'' ''remote_timestamp''),
              cf_Local = local, cf_Remote = remote\<rparr>] } }"

fun conflicts_with :: "event_with_version list \<Rightarrow> event_with_version \<Rightarrow> (conflict list) go" where
  "conflicts_with [] remote = Some []"
| "conflicts_with (l # ls) remote = do {
     c \<leftarrow> make_conflict l remote;
     cs \<leftarrow> conflicts_with ls remote;
     Some (c @ cs) }"

fun conflicts_loop ::
  "(string, event_with_version list) fmap \<Rightarrow> event_with_version list \<Rightarrow> (conflict list) go" where
  "conflicts_loop m [] = Some []"
| "conflicts_loop m (r # rs) = do {
     e \<leftarrow> ev_Event r;
     cs \<leftarrow> (case fmlookup m (conflict_key e) of None \<Rightarrow> Some [] | Some ls \<Rightarrow> conflicts_with ls r);
     cs' \<leftarrow> conflicts_loop m rs;
     Some (cs @ cs') }"

definition detectConflicts :: "event_with_version list \<Rightarrow> event_with_version list \<Rightarrow> (conflict list) go" where
  "detectConflicts locals remotes = do { m \<leftarrow> local_by_key locals fmempty; conflicts_loop m remotes }"

section \<open>Filtering\<close>

fun filter_events :: "(event option \<Rightarrow> bool go) \<Rightarrow> event_with_version list \<Rightarrow> (event_with_version list) go" where
  "filter_events f [] = Some []"
| "filter_events f (ev # evs) = do {
     b \<leftarrow> f (ev_Event ev);
     rest \<leftarrow> filter_events f evs;
     Some (if b then ev # rest else rest) }"

definition apply_filter :: "sync_options \<Rightarrow> event_with_version list \<Rightarrow> (event_with_version list) go" where
  "apply_filter opts evs = (case Filter opts of None \<Rightarrow> Some evs | Some f \<Rightarrow> filter_events f evs)"

section \<open>Push\<close>

text \<open>How a failed transport call is classified for the metrics.\<close>

definition error_class :: "go_error \<Rightarrow> string \<Rightarrow> string" where
  "error_class err failure =
     (if errors_Is err Canceled then ''context_canceled''
      else if errors_Is err DeadlineExceeded then ''timeout'' else failure)"

definition batch_size :: "sync_options \<Rightarrow> nat" where
  "batch_size opts = nat (if BatchSize opts \<le> 0 then 100 else BatchSize opts)"

function push_batches ::
  "env \<Rightarrow> 't transport_ops \<Rightarrow> nat \<Rightarrow> event_with_version list \<Rightarrow> ('s, 't) manager \<Rightarrow> sync_result
     \<Rightarrow> (('s, 't) manager \<times> sync_result \<times> go_error option) go" where
  "push_batches en tops bs evs w result =
     (if evs = [] \<or> bs = 0 then Some (w, result, None)
      else case ctx_err en w of
        Some e \<Rightarrow> Some (tick w, result, Some e)
      | None \<Rightarrow> do {
          let w1 = tick w;
          (t', err) \<leftarrow> tr_Push tops (mg_transport w1) (ctx_err en w1) (take bs evs);
          let w2 = tick (w1\<lparr>mg_transport := t'\<rparr>);
          (case err of
             Some e \<Rightarrow> Some (w2, result, Some (NewWithComponent OpPush ''transport'' e))
           | None \<Rightarrow> push_batches en tops bs (drop bs evs) w2
               (result\<lparr>EventsPushed := EventsPushed result + int (length (take bs evs))\<rparr>)) })"
  by pat_completeness auto
termination
  by (relation "measure (\<lambda>(en, tops, bs, evs, w, result). length evs)") auto

declare push_batches.simps [simp del]

definition push_body ::
  "env \<Rightarrow> 's store_ops \<Rightarrow> 't transport_ops \<Rightarrow> ('s, 't) manager \<Rightarrow> sync_result
     \<Rightarrow> (('s, 't) manager \<times> sync_result \<times> go_error option) go" where
  "push_body en sops tops w result = do {
     (t', r) \<leftarrow> tr_GetLatestVersion tops (mg_transport w) (op_err en w);
     let w1 = tick (w\<lparr>mg_transport := t'\<rparr>);
     (case r of
        Inl err \<Rightarrow> Some (emit [RecordSyncErrors ''push'' (error_class err ''push_failure'')] w1, result,
                      Some (NewWithComponent OpPush ''transport'' err))
      | Inr remoteVersion \<Rightarrow> do {
          l \<leftarrow> st_Load sops (mg_store w1) (op_err en w1) remoteVersion;
          let w2 = tick w1;
          (case l of
             Inl err \<Rightarrow> Some (w2, result, Some (NewWithComponent OpLoad ''store'' err))
           | Inr localEvents \<Rightarrow>
               if localEvents = [] then Some (w2, result, None)
               else do {
                 evs \<leftarrow> apply_filter (mg_options w2) localEvents;
                 push_batches en tops (batch_size (mg_options w2)) evs w2 result }) }) }"

text \<open>The deferred function of \<open>push\<close>.\<close>

definition push_finish :: "env \<Rightarrow> int \<Rightarrow> ('s, 't) manager \<times> sync_result \<times> go_error option
     \<Rightarrow> ('s, 't) manager \<times> sync_result \<times> go_error option" where
  "push_finish en start x = (case x of (w, result, err) \<Rightarrow>
     let result' = result\<lparr>Duration := time_Sub (time_Now en w) (StartTime result)\<rparr>; w1 = tick w in
     (tick (emit (RecordSyncDuration ''push'' (time_Sub (time_Now en w1) start)
            # (if EventsPushed result > 0 then [RecordSyncEvents (EventsPushed result) 0] else [])) w1), result', err))"

definition push ::
  "env \<Rightarrow> 's store_ops \<Rightarrow> 't transport_ops \<Rightarrow> ('s, 't) manager
     \<Rightarrow> (('s, 't) manager \<times> sync_result \<times> go_error option) go" where
  "push en sops tops w = (let start = time_Now en w; w1 = tick w in
     map_option (push_finish en start) (push_body en sops tops (tick w1) (new_result (time_Now en w1))))"

section \<open>Pull\<close>

text \<open>Resolving the conflicts one after the other; the first error ends the loop.\<close>

fun resolve_all ::
  "env \<Rightarrow> resolver \<Rightarrow> conflict list \<Rightarrow> event_with_version list \<Rightarrow> ('s, 't) manager
     \<Rightarrow> (('s, 't) manager \<times> (go_error + event_with_version list)) go" where
  "resolve_all en rv [] acc w = Some (w, Inr acc)"
| "resolve_all en rv (c # cs) acc w = do {
     r \<leftarrow> rv (ctx_err en w) c;
     let w1 = tick w;
     (case r of
        Inl err \<Rightarrow> Some (if errors_Is err Canceled
              then emit [RecordSyncErrors ''conflict_resolution'' ''context_canceled''] w1 else w1,
            Inl (NewWithComponent OpConflictResolve ''resolver'' err))
      | Inr res \<Rightarrow> resolve_all en rv cs (acc @ ResolvedEvents res) w1) }"

fun store_events ::
  "env \<Rightarrow> 's store_ops \<Rightarrow> event_with_version list \<Rightarrow> ('s, 't) manager \<Rightarrow> sync_result
     \<Rightarrow> (('s, 't) manager \<times> sync_result \<times> go_error option) go" where
  "store_events en sops [] w result = Some (w, result, None)"
| "store_events en sops (ev # evs) w result =
     (case ctx_err en w of
        Some e \<Rightarrow> Some (tick w, result, Some e)
      | None \<Rightarrow> do {
          let w1 = tick w;
          (s', err) \<leftarrow> st_Store sops (mg_store w1) (ctx_err en w1) (ev_Event ev) (ev_Version ev);
          let w2 = tick (w1\<lparr>mg_store := s'\<rparr>);
          (case err of
             Some e \<Rightarrow> Some (w2, result, Some (NewWithComponent OpStore ''store'' e))
           | None \<Rightarrow> store_events en sops evs w2 (result\<lparr>EventsPulled := EventsPulled result + 1\<rparr>)) })"

text \<open>The end of \<open>pull\<close>: the events are stored and the latest of their versions is reported.\<close>

definition pull_store ::
  "env \<Rightarrow> 's store_ops \<Rightarrow> event_with_version list \<Rightarrow> ('s, 't) manager \<Rightarrow> sync_result
     \<Rightarrow> (('s, 't) manager \<times> sync_result \<times> go_error option) go" where
  "pull_store en sops evs w result = do {
     (w', result', err) \<leftarrow> store_events en sops evs w result;
     (case err of
        Some e \<Rightarrow> Some (w', result', Some e)
      | None \<Rightarrow> if evs \<noteq> [] then do {
            v \<leftarrow> findLatestVersion evs;
            Some (w', result'\<lparr>RemoteVersion := v\<rparr>, None) }
          else Some (w', result', None)) }"

text \<open>Conflict handling when there are conflicts: transition, context check, resolution, storing.\<close>

definition pull_resolve ::
  "env \<Rightarrow> 's store_ops \<Rightarrow> resolver \<Rightarrow> conflict list \<Rightarrow> ('s, 't) manager \<Rightarrow> sync_result
     \<Rightarrow> (('s, 't) manager \<times> sync_result \<times> go_error option) go" where
  "pull_resolve en sops rv conflicts w result =
     (case sm_transition en w SyncResolvingConflicts
             (md_of [(''operation'', GString ''conflict_resolution''), (''conflict_count'', GInt_of (int (length conflicts)))]) of
        (w1, Some err) \<Rightarrow> Some (w1, result\<lparr>Errors := Errors result @ [NewWithComponent OpSync ''state_machine'' err]\<rparr>, None)
      | (w1, None) \<Rightarrow>
          (case ctx_err en w1 of
             Some e \<Rightarrow> Some (emit [RecordSyncErrors ''conflict_resolution'' ''context_canceled''] (tick w1), result,
                        Some (NewWithComponent OpConflictResolve ''resolver'' e))
           | None \<Rightarrow> do {
               (w2, r) \<leftarrow> resolve_all en rv conflicts [] (tick w1);
               (case r of
                  Inl err \<Rightarrow> Some (w2, result, Some err)
                | Inr resolved \<Rightarrow>
                    pull_store en sops resolved w2 (result\<lparr>ConflictsResolved := int (length conflicts)\<rparr>)) }))"

definition pull_conflicts ::
  "env \<Rightarrow> 's store_ops \<Rightarrow> version option \<Rightarrow> event_with_version list \<Rightarrow> ('s, 't) manager \<Rightarrow> sync_result
     \<Rightarrow> (('s, 't) manager \<times> sync_result \<times> go_error option) go" where
  "pull_conflicts en sops localVersion remoteEvents w result =
     (case ConflictResolver (mg_options w) of
        None \<Rightarrow> pull_store en sops remoteEvents w result
      | Some rv \<Rightarrow> do {
          l \<leftarrow> st_Load sops (mg_store w) (op_err en w) localVersion;
          let w1 = tick w;
          (case l of
             Inl err \<Rightarrow> Some (if errors_Is err DeadlineExceeded
                   then emit [RecordSyncErrors ''conflict_resolution'' ''db_timeout''] w1 else w1,
                 result, Some (NewWithComponent OpLoad ''store'' err))
           | Inr localEvents \<Rightarrow>
               if localEvents = [] then pull_store en sops remoteEvents w1 result
               else do {
                 conflicts \<leftarrow> detectConflicts localEvents remoteEvents;
                 if conflicts = [] then pull_store en sops remoteEvents w1 result
                 else pull_resolve en sops rv conflicts w1 result }) })"

definition pull_body ::
  "env \<Rightarrow> 's store_ops \<Rightarrow> 't transport_ops \<Rightarrow> ('s, 't) manager \<Rightarrow> sync_result
     \<Rightarrow> (('s, 't) manager \<times> sync_result \<times> go_error option) go" where
  "pull_body en sops tops w result = do {
     v \<leftarrow> st_LatestVersion sops (mg_store w) (ctx_err en w);
     let w1 = tick w;
     (case v of
        Inl err \<Rightarrow> Some (w1, result, Some (NewWithComponent OpLoad ''store'' err))
      | Inr localVersion \<Rightarrow> do {
          (t', r) \<leftarrow> tr_Pull tops (mg_transport w1) (op_err en w1) localVersion;
          let w2 = tick (w1\<lparr>mg_transport := t'\<rparr>);
          (case r of
             Inl err \<Rightarrow> Some (emit [RecordSyncErrors ''pull'' (error_class err ''pull_failure'')] w2, result,
                           Some (NewWithComponent OpPull ''transport'' err))
           | Inr remoteEvents \<Rightarrow>
               if remoteEvents = [] then Some (w2, result, None)
               else do {
                 evs \<leftarrow> apply_filter (mg_options w2) remoteEvents;
                 pull_conflicts en sops localVersion evs w2 result }) }) }"

definition pull_finish :: "env \<Rightarrow> int \<Rightarrow> ('s, 't) manager \<times> sync_result \<times> go_error option
     \<Rightarrow> ('s, 't) manager \<times> sync_result \<times> go_error option" where
  "pull_finish en start x = (case x of (w, result, err) \<Rightarrow>
     let result' = result\<lparr>Duration := time_Sub (time_Now en w) (StartTime result)\<rparr>; w1 = tick w in
     (tick (emit (RecordSyncDuration ''pull'' (time_Sub (time_Now en w1) start)
            # (if EventsPulled result > 0 then [RecordSyncEvents 0 (EventsPulled result)] else [])
            @ (if ConflictsResolved result > 0 then [RecordConflicts (ConflictsResolved result)] else [])) w1), result', err))"

definition pull ::
  "env \<Rightarrow> 's store_ops \<Rightarrow> 't transport_ops \<Rightarrow> ('s, 't) manager
     \<Rightarrow> (('s, 't) manager \<times> sync_result \<times> go_error option) go" where
  "pull en sops tops w = (let start = time_Now en w; w1 = tick w in
     map_option (pull_finish en start) (pull_body en sops tops (tick w1) (new_result (time_Now en w1))))"

section \<open>Projections\<close>

text \<open>
  The wait loop of \<open>runProjectionsAfterSync\<close>: the environment says which case of the select is taken
  next. The runners work concurrently; what they report is one of the events.
\<close>

fun wait_loop :: "env \<Rightarrow> int \<Rightarrow> nat \<Rightarrow> nat \<Rightarrow> go_error list \<Rightarrow> nat \<times> go_error list" where
  "wait_loop en tmo k 0 errs = (k, errs)"
| "wait_loop en tmo k (Suc remaining) errs =
     (case proj_at en k of
        RunnerCompleted \<Rightarrow> wait_loop en tmo (Suc k) remaining errs
      | RunnerFailed i e \<Rightarrow> wait_loop en tmo (Suc k) remaining
          (errs @ [WrapError (''projection runner '' @ nat_dec i @ '' failed: '') e])
      | RunnerNoSlot i \<Rightarrow> wait_loop en tmo (Suc k) remaining
          (errs @ [ErrorString (''projection runner '' @ nat_dec i @ '' timed out waiting for worker slot'')])
      | ProjectionsTimedOut \<Rightarrow> (Suc k, errs @ [ErrorString (''projection execution timed out with ''
            @ nat_dec (Suc remaining) @ '' runners still pending after '' @ fmt_duration en tmo)]))"

definition runProjectionsAfterSync :: "env \<Rightarrow> ('s, 't) manager \<Rightarrow> ('s, 't) manager \<times> go_error option" where
  "runProjectionsAfterSync en w =
     (case mg_projectionConfig w of
        None \<Rightarrow> (w, None)
      | Some pc \<Rightarrow>
          if \<not> RunOnSync pc \<or> Runners pc = 0 then (w, None)
          else (case wait_loop en (ProjTimeout pc) (mg_tick w) (Runners pc) [] of
                  (k, errs) \<Rightarrow> (w\<lparr>mg_tick := k\<rparr>,
                    if errs = [] then None
                    else Some (ErrorString (''projection execution failed: '' @ join ''; '' (map Error_text errs))))))"

section \<open>Sync\<close>

definition notifySubscribers :: "sync_result \<Rightarrow> ('s, 't) manager \<Rightarrow> ('s, 't) manager" where
  "notifySubscribers result w = emit (map (\<lambda>h. NotifySubscriber h result) (mg_subscribers w)) w"

definition add_error :: "go_error \<Rightarrow> sync_result \<Rightarrow> sync_result" where
  "add_error e result = result\<lparr>Errors := Errors result @ [e]\<rparr>"

text \<open>The last part of \<open>Sync\<close>: projections, if there was no error, and the final local version.\<close>

definition sync_projections :: "env \<Rightarrow> ('s, 't) manager \<Rightarrow> sync_result \<Rightarrow> ('s, 't) manager \<times> sync_result" where
  "sync_projections en w result =
     (if Errors result = [] then
        (case runProjectionsAfterSync en w of
           (w1, None) \<Rightarrow> (w1, result)
         | (w1, Some err) \<Rightarrow> (w1, add_error (NewWithComponent OpSync ''projections'' err) result))
      else (w, result))"

definition sync_tail ::
  "env \<Rightarrow> 's store_ops \<Rightarrow> ('s, 't) manager \<Rightarrow> sync_result \<Rightarrow> (('s, 't) manager \<times> sync_result) go" where
  "sync_tail en sops w result = (case sync_projections en w result of (w1, result1) \<Rightarrow> do {
     v \<leftarrow> st_LatestVersion sops (mg_store w1) (ctx_err en w1);
     (case v of
        Inl err \<Rightarrow> Some (tick w1, add_error (NewWithComponent OpLoad ''store'' err) result1)
      | Inr lv \<Rightarrow> Some (tick w1, result1\<lparr>LocalVersion := lv\<rparr>)) })"

text \<open>How the outcome of a phase enters the result of the sync.\<close>

definition merge_push :: "go_error option \<Rightarrow> sync_result \<Rightarrow> sync_result \<Rightarrow> sync_result" where
  "merge_push err pr result = (case err of
       Some e \<Rightarrow> add_error (NewWithComponent OpPush ''transport'' e) result
     | None \<Rightarrow> result\<lparr>EventsPushed := EventsPushed pr\<rparr>)"

definition merge_pull :: "go_error option \<Rightarrow> sync_result \<Rightarrow> sync_result \<Rightarrow> sync_result" where
  "merge_pull err pr result = (case err of
       Some e \<Rightarrow> add_error (NewWithComponent OpPull ''transport'' e) result
     | None \<Rightarrow> result\<lparr>EventsPulled := EventsPulled pr, ConflictsResolved := ConflictsResolved pr,
                      RemoteVersion := RemoteVersion pr\<rparr>)"

definition sync_push ::
  "env \<Rightarrow> 's store_ops \<Rightarrow> 't transport_ops \<Rightarrow> ('s, 't) manager \<Rightarrow> sync_result \<Rightarrow> (('s, 't) manager \<times> sync_result) go" where
  "sync_push en sops tops w result =
     (if PullOnly (mg_options w) then sync_tail en sops w result
      else case sm_transition en w SyncPushing (md_of [(''operation'', GString ''push''), (''pull_only'', GBool False)]) of
        (w1, Some err) \<Rightarrow> Some (w1, add_error (NewWithComponent OpSync ''state_machine'' err) result)
      | (w1, None) \<Rightarrow> do {
          (w2, pr, err) \<leftarrow> push en sops tops w1;
          sync_tail en sops w2 (merge_push err pr result) })"

definition sync_body ::
  "env \<Rightarrow> 's store_ops \<Rightarrow> 't transport_ops \<Rightarrow> ('s, 't) manager \<Rightarrow> sync_result \<Rightarrow> (('s, 't) manager \<times> sync_result) go" where
  "sync_body en sops tops w result =
     (if PushOnly (mg_options w) then sync_push en sops tops w result
      else case sm_transition en w SyncPulling (md_of [(''operation'', GString ''pull''), (''push_only'', GBool False)]) of
        (w1, Some err) \<Rightarrow> Some (w1, add_error (NewWithComponent OpSync ''state_machine'' err) result)
      | (w1, None) \<Rightarrow> do {
          (w2, pr, err) \<leftarrow> pull en sops tops w1;
          sync_push en sops tops w2 (merge_pull err pr result) })"

text \<open>
  The deferred function of \<open>Sync\<close>: final state, back to idle, notification, metrics. Errors of the two
  transitions are only logged.
\<close>

definition final_metadata :: "sync_result \<Rightarrow> metadata" where
  "final_metadata result = md_of ([(''operation'', GString ''full_sync''),
       (''duration_ms'', GInt64 (of_int (milliseconds (Duration result)))),
       (''events_pushed'', GInt_of (EventsPushed result)), (''events_pulled'', GInt_of (EventsPulled result)),
       (''conflicts_resolved'', GInt_of (ConflictsResolved result))]
     @ (if Errors result \<noteq> [] then [(''error_count'', GInt_of (int (length (Errors result)))),
          (''errors'', errors_any (Errors result))] else []))"

definition sync_finish ::
  "env \<Rightarrow> int \<Rightarrow> ('s, 't) manager \<Rightarrow> sync_result \<Rightarrow> ('s, 't) manager \<times> sync_result" where
  "sync_finish en start w result =
     (let result = result\<lparr>Duration := time_Sub (time_Now en w) (StartTime result)\<rparr>;
          w = tick w;
          finalState = (if Errors result \<noteq> [] then SyncFailed else SyncCompleted);
          w = fst (sm_transition en w finalState (final_metadata result));
          w = fst (sm_transition en w SyncIdle (md_of [(''operation_completed'', GBool True),
                (''final_state'', GString (SyncState_String finalState))]));
          w = notifySubscribers result w;
          w = emit (RecordSyncDuration ''full_sync'' (time_Sub (time_Now en w) start)
                # (if Errors result = [] then
                     RecordSyncEvents (EventsPushed result) (EventsPulled result)
                     # (if ConflictsResolved result > 0 then [RecordConflicts (ConflictsResolved result)] else [])
                   else [RecordSyncErrors ''full_sync'' ''sync_failure''])) (tick w)
      in (w, result))"

definition err_manager_closed :: "string \<Rightarrow> go_error" where
  "err_manager_closed op = New_SyncError op (ErrorString ''sync manager is closed'')"

definition Sync ::
  "env \<Rightarrow> 's store_ops \<Rightarrow> 't transport_ops \<Rightarrow> ('s, 't) manager
     \<Rightarrow> (('s, 't) manager \<times> (go_error + sync_result)) go" where
  "Sync en sops tops w0 =
     (let start = time_Now en w0; w = tick w0 in
      if mg_closed w then Some (w, Inl (err_manager_closed OpSync))
      else if (case mg_stateMachine w of None \<Rightarrow> False | Some m \<Rightarrow> \<not> CanAutoSync (Current m)) then
        Some (w, Inl (New_SyncError OpSync (ErrorString (''sync operation already in progress: ''
              @ SyncState_String (Current (the (mg_stateMachine w)))))))
      else case sm_transition en w SyncInitializing
             (md_of [(''operation'', GString ''full_sync''), (''started_at'', GString (rfc3339 en start))]) of
        (w1, Some err) \<Rightarrow> Some (w1, Inl (NewWithComponent OpSync ''state_machine'' err))
      | (w1, None) \<Rightarrow> do {
          (w2, result) \<leftarrow> sync_body en sops tops (tick w1) (new_result (time_Now en w1));
          let (w3, result') = sync_finish en start w2 result;
          Some (w3, Inr result') })"

definition Push ::
  "env \<Rightarrow> 's store_ops \<Rightarrow> 't transport_ops \<Rightarrow> ('s, 't) manager
     \<Rightarrow> (('s, 't) manager \<times> sync_result option \<times> go_error option) go" where
  "Push en sops tops w =
     (if mg_closed w then Some (w, None, Some (err_manager_closed OpPush))
      else map_option (\<lambda>(w', r, e). (w', Some r, e)) (push en sops tops w))"

definition Pull ::
  "env \<Rightarrow> 's store_ops \<Rightarrow> 't transport_ops \<Rightarrow> ('s, 't) manager
     \<Rightarrow> (('s, 't) manager \<times> sync_result option \<times> go_error option) go" where
  "Pull en sops tops w =
     (if mg_closed w then Some (w, None, Some (err_manager_closed OpPull))
      else map_option (\<lambda>(w', r, e). (w', Some r, e)) (pull en sops tops w))"

section \<open>Automatic sync, subscription, closing\<close>

definition StartAutoSync :: "env \<Rightarrow> ('s, 't) manager \<Rightarrow> ('s, 't) manager \<times> go_error option" where
  "StartAutoSync en w =
     (case ctx_err en w of
        Some e \<Rightarrow> (tick w, Some e)
      | None \<Rightarrow>
          if mg_autoSync w then (tick w, None)
          else if mg_closed w then (tick w, Some (err_manager_closed OpSync))
          else if SyncInterval (mg_options w) \<le> 0 then
            (tick w, Some (New_SyncError OpSync (ErrorString ''sync interval must be positive'')))
          else (tick (w\<lparr>mg_autoSync := True, mg_autoSyncInterval := SyncInterval (mg_options w)\<rparr>), None))"

definition StopAutoSync :: "('s, 't) manager \<Rightarrow> ('s, 't) manager \<times> go_error option" where
  "StopAutoSync w =
     (if \<not> mg_autoSync w then (w, None)
      else (w\<lparr>mg_autoSync := False, mg_autoSyncInterval := 0\<rparr>, None))"

text \<open>What a transport offers for health checks, by the methods it has.\<close>

datatype transport_health =
    NoHealthMethods
  | HasIsHealthy bool
  | HasSendReceive bool bool

definition isTransportHealthyForSync :: "transport_health \<Rightarrow> bool" where
  "isTransportHealthyForSync h =
     (case h of HasIsHealthy b \<Rightarrow> b
      | HasSendReceive canSend canReceive \<Rightarrow> \<not> (\<not> canSend \<or> \<not> canReceive)
      | NoHealthMethods \<Rightarrow> True)"

text \<open>One tick of the auto-sync goroutine, while its context is not cancelled.\<close>

definition auto_sync_tick ::
  "env \<Rightarrow> 's store_ops \<Rightarrow> 't transport_ops \<Rightarrow> ('t \<Rightarrow> transport_health) \<Rightarrow> ('s, 't) manager \<Rightarrow> ('s, 't) manager go" where
  "auto_sync_tick en sops tops health w =
     (if (case mg_stateMachine w of None \<Rightarrow> False | Some m \<Rightarrow> \<not> CanAutoSync (Current m)) then Some w
      else if \<not> isTransportHealthyForSync (health (mg_transport w)) then Some w
      else do {
        (w1, r) \<leftarrow> Sync en sops tops w;
        Some (case r of
            Inl err \<Rightarrow> notifySubscribers ((new_result (time_Now en w1))\<lparr>Errors := [err]\<rparr>) (tick w1)
          | Inr _ \<Rightarrow> w1) })"

definition Subscribe_manager :: "('s, 't) manager \<Rightarrow> nat \<Rightarrow> ('s, 't) manager \<times> go_error option" where
  "Subscribe_manager w handler =
     (if mg_closed w then (w, Some (err_manager_closed OpSync))
      else (w\<lparr>mg_subscribers := mg_subscribers w @ [handler]\<rparr>, None))"

definition Close_manager ::
  "'s store_ops \<Rightarrow> 't transport_ops \<Rightarrow> ('s, 't) manager \<Rightarrow> (('s, 't) manager \<times> go_error option) go" where
  "Close_manager sops tops w =
     (if mg_closed w then Some (w, None)
      else let w1 = w\<lparr>mg_closed := True\<rparr>;
               w2 = (if mg_autoSync w1 then w1\<lparr>mg_autoSync := False, mg_autoSyncInterval := 0\<rparr> else w1)
        in do {
          (t', terr) \<leftarrow> tr_Close tops (mg_transport w2);
          (s', serr) \<leftarrow> st_Close sops (mg_store w2);
          let errs = (case terr of None \<Rightarrow> [] | Some e \<Rightarrow> [NewWithComponent OpClose ''transport'' e])
                   @ (case serr of None \<Rightarrow> [] | Some e \<Rightarrow> [NewWithComponent OpClose ''store'' e]);
          Some (w2\<lparr>mg_transport := t', mg_store := s'\<rparr>,
            if errs \<noteq> [] then Some (New_SyncError OpClose (ErrorString
                (''multiple close errors: ['' @ join '' '' (map Error_text errs) @ '']'')))
            else None) })"

section \<open>Retrying\<close>

text \<open>
  \<open>syncWithRetry\<close> over an operation on any state. The wait before an attempt ends with the timer, or
  with the context when \<open>interrupted\<close> says so for that attempt; the length of the wait (\<open>nextDelay\<close>,
  floating point) does not influence the result.
\<close>

fun retry_loop ::
  "(nat \<Rightarrow> go_error option) \<Rightarrow> ('x \<Rightarrow> ('x \<times> go_error option) go) \<Rightarrow> nat \<Rightarrow> nat \<Rightarrow> go_error \<Rightarrow> 'x
     \<Rightarrow> ('x \<times> go_error option) go" where
  "retry_loop interrupted operation attempt 0 err x = Some (x, Some err)"
| "retry_loop interrupted operation attempt (Suc left) err x =
     (case interrupted attempt of
        Some e \<Rightarrow> Some (x, Some e)
      | None \<Rightarrow> do {
          (x', r) \<leftarrow> operation x;
          (case r of
             None \<Rightarrow> Some (x', None)
           | Some e \<Rightarrow> if \<not> IsRetryable (Some e) then Some (x', Some e)
                       else retry_loop interrupted operation (Suc attempt) left e x') })"

definition syncWithRetry ::
  "retry_config option \<Rightarrow> (nat \<Rightarrow> go_error option) \<Rightarrow> ('x \<Rightarrow> ('x \<times> go_error option) go) \<Rightarrow> 'x
     \<Rightarrow> ('x \<times> go_error option) go" where
  "syncWithRetry rc interrupted operation x =
     (case rc of
        None \<Rightarrow> operation x
      | Some config \<Rightarrow> do {
          (x', r) \<leftarrow> operation x;
          (case r of
             None \<Rightarrow> Some (x', None)
           | Some e \<Rightarrow> if \<not> IsRetryable (Some e) then Some (x', Some e)
                       else retry_loop interrupted operation 1 (nat (MaxAttempts config - 1)) e x') })"

section \<open>Construction\<close>

definition default_options :: sync_options where
  "default_options = \<lparr>PushOnly = False, PullOnly = False, ConflictResolver = None, Filter = None, BatchSize = 100,
     SyncInterval = 0,
     RetryConfig = Some \<lparr>MaxAttempts = 3, InitialDelay = 100 * 10 ^ 6, MaxDelay = 5 * 10 ^ 9\<rparr>,
     EnableValidation = False, Timeout = 0, EnableCompression = False\<rparr>"

definition createSyncStateMachine :: "int \<Rightarrow> nat \<Rightarrow> go_error + sync_state machine" where
  "createSyncStateMachine now hooks =
     (case NewSyncStateMachine now of
        Inl err \<Rightarrow> Inl err
      | Inr (m, _) \<Rightarrow> Inr (Subscribe m (Some hooks)))"

text \<open>
  The metrics collector is never nil after the defaults, so the observability hooks (observer
  \<open>hooks\<close>) are always subscribed.
\<close>

definition NewSyncManager ::
  "int \<Rightarrow> nat \<Rightarrow> 's \<Rightarrow> 't \<Rightarrow> sync_options option \<Rightarrow> go_any \<Rightarrow> projection_config option \<Rightarrow> ('s, 't) manager" where
  "NewSyncManager now hooks store transport opts logger pc =
     (let o1 = (case opts of None \<Rightarrow> default_options | Some x \<Rightarrow> x);
          o2 = (case ConflictResolver o1 of
                  Some _ \<Rightarrow> o1
                | None \<Rightarrow> o1\<lparr>ConflictResolver :=
                    (case NewDynamicResolver [WithFallback (Some LastWriteWins), WithLogger logger] of
                       Inl _ \<Rightarrow> Some LastWriteWins
                     | Inr d \<Rightarrow> Some (dynamic_as_resolver d))\<rparr>);
          machine = (case createSyncStateMachine now hooks of Inl _ \<Rightarrow> None | Inr m \<Rightarrow> Some m)
      in \<lparr>mg_store = store, mg_transport = transport, mg_options = o2, mg_stateMachine = machine,
          mg_autoSync = False, mg_autoSyncInterval = 0, mg_subscribers = [], mg_closed = False,
          mg_projectionConfig = pc, mg_tick = 0, mg_trace = []\<rparr>)"

end
