(* ===== verification/Mem_Store.thy ===== *)
theory Mem_Store
  imports Interfaces
begin

text \<open>
  The in-memory event store (storage/memstore/memstore.go). The state keeps every event in
  order with its sequence number, an index from aggregate identifiers to positions, the next
  sequence number and the closed flag. A context is what \<open>ctx.Err()\<close> returns when the
  operation polls it. \<open>store_inv\<close> is the representation invariant, \<open>store_log\<close> the abstract
  value: the sequence of stored events. Sequence numbers are 64-bit words.
\<close>

section \<open>State and constructors\<close>

record mem_store =
  events :: "event_with_version list"
  streams :: "(string, nat list) gomap"
  nextSeq :: u64
  closed :: bool

definition New_store :: mem_store where
  "New_store = \<lparr>events = [], streams = Some fmempty, nextSeq = 1, closed = False\<rparr>"

definition err_closed :: go_error where
  "err_closed = ErrorString ''store is closed''"

definition err_incompatible :: go_error where
  "err_incompatible = ErrorString ''incompatible version type: expected cursor.IntegerCursor''"

section \<open>Storing\<close>

text \<open>The stored payload: byte slices are copied, other values are printed, nil gives no bytes.\<close>

definition copy_data :: "go_any \<Rightarrow> go_any" where
  "copy_data d = (case d of
       GNil \<Rightarrow> GBytes []
     | GBytes bs \<Rightarrow> GBytes bs
     | _ \<Rightarrow> GBytes (string_bytes (sprintf_v d)))"

definition copy_metadata :: "metadata \<Rightarrow> metadata" where
  "copy_metadata md = Some (fold (\<lambda>k f. fmupd k (the (gm_lookup md k)) f) (gm_keys md) fmempty)"

definition copy_event :: "event \<Rightarrow> u64 \<Rightarrow> event" where
  "copy_event evt seq =
     \<lparr>EventID = EventID evt, EventType = EventType evt, EventAggregateID = EventAggregateID evt,
      EventData = copy_data (EventData evt), EventMetadata = copy_metadata (EventMetadata evt),
      Timestamp = 0, Offset = seq, ClockSlot = NoClock\<rparr>"

text \<open>The body that \<open>Store\<close> and the loop of \<open>StoreBatch\<close> share.\<close>

definition append_event :: "mem_store \<Rightarrow> event option \<Rightarrow> mem_store go" where
  "append_event s evt = do {
     e \<leftarrow> evt;
     let entry = \<lparr>ev_Event = Some (copy_event e (nextSeq s)), ev_Version = Some (IntegerCursor (nextSeq s))\<rparr>;
     let eventIndex = length (events s);
     let streamID = EventAggregateID e;
     let indices = (case gm_lookup (streams s) streamID of None \<Rightarrow> [] | Some is \<Rightarrow> is);
     m \<leftarrow> gm_put (streams s) streamID (indices @ [eventIndex]);
     Some (s\<lparr>events := events s @ [entry], streams := m, nextSeq := nextSeq s + 1\<rparr>)
   }"

definition Store ::
  "mem_store \<Rightarrow> go_error option \<Rightarrow> event option \<Rightarrow> version option \<Rightarrow> (mem_store \<times> go_error option) go" where
  "Store s ctx evt version =
     (case ctx of
        Some e \<Rightarrow> Some (s, Some e)
      | None \<Rightarrow>
          if closed s then Some (s, Some err_closed)
          else do { s' \<leftarrow> append_event s evt; Some (s', None) })"

fun store_each :: "mem_store \<Rightarrow> event_with_version list \<Rightarrow> mem_store go" where
  "store_each s [] = Some s"
| "store_each s (ev # evs) = do { s' \<leftarrow> append_event s (ev_Event ev); store_each s' evs }"

definition StoreBatch ::
  "mem_store \<Rightarrow> go_error option \<Rightarrow> event_with_version list \<Rightarrow> (mem_store \<times> go_error option) go" where
  "StoreBatch s ctx evs =
     (case ctx of
        Some e \<Rightarrow> Some (s, Some e)
      | None \<Rightarrow>
          if evs = [] then Some (s, None)
          else if closed s then Some (s, Some err_closed)
          else do { s' \<leftarrow> store_each s evs; Some (s', None) })"

section \<open>Loading\<close>

definition filter_map :: "filter_kv list \<Rightarrow> (string, string) fmap" where
  "filter_map fs = foldl (\<lambda>m f. fmupd (Key f) (Value f) m) fmempty fs"

definition matchesFilters :: "event \<Rightarrow> (string, string) fmap \<Rightarrow> bool go" where
  "matchesFilters e filters =
     (if fcard (fmdom filters) = 0 then Some True
      else if (case fmlookup filters ''type'' of None \<Rightarrow> False | Some t \<Rightarrow> EventType e \<noteq> t) then Some False
      else if (case fmlookup filters ''aggregate_id'' of None \<Rightarrow> False | Some a \<Rightarrow> EventAggregateID e \<noteq> a)
        then Some False
      else (case fmlookup filters ''tenant'' of
              None \<Rightarrow> Some True
            | Some tenant \<Rightarrow>
                (case EventMetadata e of
                   None \<Rightarrow> Some False
                 | Some meta \<Rightarrow>
                     (case fmlookup meta ''tenant'' of
                        None \<Rightarrow> Some False
                      | Some eventTenant \<Rightarrow> iface_eq eventTenant (GString tenant)))))"

text \<open>
  One event is loaded when it has an integer version after the given sequence number and
  matches the filters.
\<close>

definition wanted :: "u64 \<Rightarrow> (string, string) fmap \<Rightarrow> event_with_version \<Rightarrow> bool go" where
  "wanted sinceSeq filters ev =
     (case ev_Version ev of
        Some (IntegerCursor q) \<Rightarrow>
          if q > sinceSeq then ev_Event ev \<bind> (\<lambda>e. matchesFilters e filters) else Some False
      | _ \<Rightarrow> Some False)"

fun load_loop :: "u64 \<Rightarrow> (string, string) fmap \<Rightarrow> event_with_version list \<Rightarrow> event_with_version list go" where
  "load_loop sinceSeq filters [] = Some []"
| "load_loop sinceSeq filters (ev # evs) = do {
     b \<leftarrow> wanted sinceSeq filters ev;
     rest \<leftarrow> load_loop sinceSeq filters evs;
     Some (if b then ev # rest else rest)
   }"

text \<open>The type assertion on the \<open>since\<close> argument: another kind of version is accepted only if zero.\<close>

definition since_seq :: "version option \<Rightarrow> (go_error + u64) go" where
  "since_seq since =
     (case since of
        Some (IntegerCursor q) \<Rightarrow> Some (Inr q)
      | _ \<Rightarrow> do { z \<leftarrow> iface_IsZero since; Some (if z then Inr 0 else Inl err_incompatible) })"

definition Load ::
  "mem_store \<Rightarrow> go_error option \<Rightarrow> version option \<Rightarrow> filter_kv list \<Rightarrow> (go_error + event_with_version list) go" where
  "Load s ctx since filters =
     (case ctx of
        Some e \<Rightarrow> Some (Inl e)
      | None \<Rightarrow>
          if closed s then Some (Inl err_closed)
          else do {
            r \<leftarrow> since_seq since;
            (case r of
               Inl e \<Rightarrow> Some (Inl e)
             | Inr q \<Rightarrow> do { res \<leftarrow> load_loop q (filter_map filters) (events s); Some (Inr res) })
          })"

definition select_indices :: "event_with_version list \<Rightarrow> nat list \<Rightarrow> event_with_version list" where
  "select_indices evs is = map (\<lambda>i. evs ! i) (filter (\<lambda>i. i < length evs) is)"

definition LoadByAggregate ::
  "mem_store \<Rightarrow> go_error option \<Rightarrow> string \<Rightarrow> version option \<Rightarrow> filter_kv list
     \<Rightarrow> (go_error + event_with_version list) go" where
  "LoadByAggregate s ctx aggregateID since filters =
     (case ctx of
        Some e \<Rightarrow> Some (Inl e)
      | None \<Rightarrow>
          if closed s then Some (Inl err_closed)
          else do {
            r \<leftarrow> since_seq since;
            (case r of
               Inl e \<Rightarrow> Some (Inl e)
             | Inr q \<Rightarrow>
                 (case gm_lookup (streams s) aggregateID of
                    None \<Rightarrow> Some (Inr [])
                  | Some is \<Rightarrow> do {
                      res \<leftarrow> load_loop q (filter_map filters) (select_indices (events s) is);
                      Some (Inr res) }))
          })"

section \<open>Versions, closing, statistics\<close>

definition LatestVersion :: "mem_store \<Rightarrow> go_error option \<Rightarrow> go_error + version option" where
  "LatestVersion s ctx =
     (case ctx of
        Some e \<Rightarrow> Inl e
      | None \<Rightarrow>
          if closed s then Inl err_closed
          else if length (events s) = 0 then Inr (Some (IntegerCursor 0))
          else Inr (Some (IntegerCursor (nextSeq s - 1))))"

definition Close :: "mem_store \<Rightarrow> mem_store \<times> go_error option" where
  "Close s = (if closed s then (s, None)
     else (s\<lparr>closed := True, events := [], streams := None\<rparr>, None))"

record mem_store_stats =
  TotalEvents :: nat
  TotalStreams :: nat
  NextSequence :: u64
  Closed :: bool

definition Stats :: "mem_store \<Rightarrow> mem_store_stats" where
  "Stats s = \<lparr>TotalEvents = length (events s), TotalStreams = gm_len (streams s),
     NextSequence = nextSeq s, Closed = closed s\<rparr>"

section \<open>Parsing versions\<close>

text \<open>
  \<open>fmt.Sscanf\<close> with the verb for decimal integers into a \<open>uint64\<close>: white space other than a
  newline is skipped, then digits are read as far as they go; what follows them is not looked
  at. The spaces are those of the fmt package, the multi-byte ones as UTF-8.
\<close>

definition scan_spaces :: "string list" where
  "scan_spaces = [[CHR 0x09], [CHR 0x0B], [CHR 0x0C], [CHR 0x0D], [CHR 0x20], [CHR 0xC2, CHR 0x85],
     [CHR 0xC2, CHR 0xA0], [CHR 0xE1, CHR 0x9A, CHR 0x80], [CHR 0xE2, CHR 0x80, CHR 0x80],
     [CHR 0xE2, CHR 0x80, CHR 0x81], [CHR 0xE2, CHR 0x80, CHR 0x82], [CHR 0xE2, CHR 0x80, CHR 0x83],
     [CHR 0xE2, CHR 0x80, CHR 0x84], [CHR 0xE2, CHR 0x80, CHR 0x85], [CHR 0xE2, CHR 0x80, CHR 0x86],
     [CHR 0xE2, CHR 0x80, CHR 0x87], [CHR 0xE2, CHR 0x80, CHR 0x88], [CHR 0xE2, CHR 0x80, CHR 0x89],
     [CHR 0xE2, CHR 0x80, CHR 0x8A], [CHR 0xE2, CHR 0x80, CHR 0xA8], [CHR 0xE2, CHR 0x80, CHR 0xA9],
     [CHR 0xE2, CHR 0x80, CHR 0xAF], [CHR 0xE2, CHR 0x81, CHR 0x9F], [CHR 0xE3, CHR 0x80, CHR 0x80]]"

fun strip_prefix :: "string \<Rightarrow> string \<Rightarrow> string option" where
  "strip_prefix [] s = Some s"
| "strip_prefix (p # ps) [] = None"
| "strip_prefix (p # ps) (c # s) = (if p = c then strip_prefix ps s else None)"

definition strip_space :: "string \<Rightarrow> string option" where
  "strip_space s = (case filter (\<lambda>r. r \<noteq> None) (map (\<lambda>sp. strip_prefix sp s) scan_spaces) of
     [] \<Rightarrow> None | r # _ \<Rightarrow> r)"

lemma strip_prefix_length: "strip_prefix p s = Some r \<Longrightarrow> length s = length p + length r"
  by (induction p s rule: strip_prefix.induct) (auto split: if_splits)

lemma strip_space_shorter:
  assumes "strip_space s = Some r"
  shows "length r < length s"
proof -
  let ?f = "filter (\<lambda>r. r \<noteq> None) (map (\<lambda>sp. strip_prefix sp s) scan_spaces)"
  have "Some r \<in> set ?f"
    using assms unfolding strip_space_def by (cases ?f) (simp, force)
  then obtain sp where "sp \<in> set scan_spaces" "strip_prefix sp s = Some r"
    by auto
  then show ?thesis
    using strip_prefix_length [of sp s r] by (auto simp: scan_spaces_def)
qed

function skip_space :: "string \<Rightarrow> string" where
  "skip_space s = (case strip_space s of None \<Rightarrow> s | Some r \<Rightarrow> skip_space r)"
  by pat_completeness auto
termination
  by (relation "measure length") (auto dest: strip_space_shorter)

declare skip_space.simps [simp del]

definition sscanf_d :: "string \<Rightarrow> go_error + u64" where
  "sscanf_d str =
     (let s = skip_space str; tok = takeWhile is_digit s in
      if s = [] then Inl (ErrorString ''unexpected EOF'')
      else if hd s = CHR 0x0A then Inl (ErrorString ''unexpected newline'')
      else if tok = [] then Inl (ErrorString ''expected integer'')
      else if dec_val tok \<ge> 2 ^ 64 then
        Inl (ErrorString (''strconv.ParseUint: parsing '' @ [CHR 0x22] @ tok @ [CHR 0x22] @ '': value out of range''))
      else Inr (of_nat (dec_val tok)))"

definition ParseVersion :: "string \<Rightarrow> go_error + version option" where
  "ParseVersion versionStr =
     (if versionStr = [] \<or> versionStr = ''0'' then Inr (Some (IntegerCursor 0))
      else (case sscanf_d versionStr of
              Inl err \<Rightarrow> Inl (WrapError (''invalid version string '' @ [CHR 0x27] @ versionStr @ [CHR 0x27] @ '': '') err)
            | Inr seq \<Rightarrow> Inr (Some (IntegerCursor seq))))"

section \<open>Representation invariant\<close>

definition agg_of :: "event_with_version \<Rightarrow> string" where
  "agg_of ev = EventAggregateID (the (ev_Event ev))"

definition stream_index :: "event_with_version list \<Rightarrow> string \<Rightarrow> nat list" where
  "stream_index evs a = filter (\<lambda>i. agg_of (evs ! i) = a) [0..<length evs]"

definition entry_ok :: "nat \<Rightarrow> event_with_version \<Rightarrow> bool" where
  "entry_ok i ev \<longleftrightarrow> ev_Version ev = Some (IntegerCursor (of_nat (Suc i))) \<and>
     (case ev_Event ev of None \<Rightarrow> False | Some e \<Rightarrow> Offset e = of_nat (Suc i) \<and> EventMetadata e \<noteq> None)"

definition store_inv :: "mem_store \<Rightarrow> bool" where
  "store_inv s \<longleftrightarrow>
     (if closed s then events s = [] \<and> streams s = None
      else nextSeq s = of_nat (Suc (length (events s)))
        \<and> (\<forall>i < length (events s). entry_ok i (events s ! i))
        \<and> streams s \<noteq> None
        \<and> (\<forall>a. gm_lookup (streams s) a =
              (if stream_index (events s) a = [] then None else Some (stream_index (events s) a))))"

definition store_log :: "mem_store \<Rightarrow> event list" where
  "store_log s = map (\<lambda>ev. the (ev_Event ev)) (events s)"

lemma store_inv_New: "store_inv New_store"
  by (simp add: store_inv_def New_store_def stream_index_def)

lemma stream_index_snoc:
  "stream_index (evs @ [x]) a = stream_index evs a @ (if agg_of x = a then [length evs] else [])"
proof -
  have "filter (\<lambda>i. agg_of ((evs @ [x]) ! i) = a) [0..<length evs] = filter (\<lambda>i. agg_of (evs ! i) = a) [0..<length evs]"
    by (rule filter_cong) (auto simp: nth_append)
  then show ?thesis by (simp add: stream_index_def)
qed

text \<open>The entry \<open>append_event\<close> adds for an event.\<close>

definition new_entry :: "mem_store \<Rightarrow> event \<Rightarrow> event_with_version" where
  "new_entry s e = \<lparr>ev_Event = Some (copy_event e (nextSeq s)), ev_Version = Some (IntegerCursor (nextSeq s))\<rparr>"

lemma append_event_open:
  assumes "store_inv s" and "\<not> closed s"
  shows "\<exists>s'. append_event s (Some e) = Some s' \<and> store_inv s' \<and> \<not> closed s'
     \<and> events s' = events s @ [new_entry s e] \<and> nextSeq s' = nextSeq s + 1"
proof -
  obtain m where m: "streams s = Some m" and
    idx: "\<And>a. fmlookup m a = (if stream_index (events s) a = [] then None else Some (stream_index (events s) a))"
    using assms by (auto simp: store_inv_def)
  let ?s' = "s\<lparr>events := events s @ [new_entry s e],
      streams := Some (fmupd (EventAggregateID e) (stream_index (events s) (EventAggregateID e) @ [length (events s)]) m),
      nextSeq := nextSeq s + 1\<rparr>"
  have "append_event s (Some e) = Some ?s'"
    using idx by (simp add: append_event_def m new_entry_def Let_def)
  moreover have "agg_of (new_entry s e) = EventAggregateID e"
    by (simp add: agg_of_def new_entry_def copy_event_def)
  moreover have "entry_ok (length (events s)) (new_entry s e)"
    using assms by (simp add: entry_ok_def new_entry_def copy_event_def copy_metadata_def store_inv_def)
  ultimately show ?thesis
    using assms by (auto simp: store_inv_def idx stream_index_snoc nth_append less_Suc_eq)
qed

lemma store_each_open:
  assumes "store_inv s" and "\<not> closed s" and "\<forall>ev \<in> set evs. ev_Event ev \<noteq> None"
  shows "\<exists>s'. store_each s evs = Some s' \<and> store_inv s' \<and> \<not> closed s'
     \<and> length (events s') = length (events s) + length evs \<and> take (length (events s)) (events s') = events s
     \<and> map agg_of (drop (length (events s)) (events s')) = map agg_of evs"
  using assms
proof (induction evs arbitrary: s)
  case (Cons ev evs)
  then obtain e where e: "ev_Event ev = Some e" by auto
  obtain s1 where s1: "append_event s (Some e) = Some s1" "store_inv s1" "\<not> closed s1"
    "events s1 = events s @ [new_entry s e]"
    using append_event_open [OF Cons.prems(1,2)] by blast
  obtain s' where s': "store_each s1 evs = Some s'" "store_inv s'" "\<not> closed s'"
    "length (events s') = length (events s1) + length evs" "take (length (events s1)) (events s') = events s1"
    "map agg_of (drop (length (events s1)) (events s')) = map agg_of evs"
    using Cons.IH [OF s1(2,3)] Cons.prems by auto
  have split: "events s' = events s @ new_entry s e # drop (Suc (length (events s))) (events s')"
    using s'(5) s1(4) append_take_drop_id [of "length (events s1)" "events s'"] by simp
  have "agg_of (new_entry s e) = agg_of ev"
    by (simp add: agg_of_def new_entry_def copy_event_def e)
  then have "map agg_of (drop (length (events s)) (events s')) = map agg_of (ev # evs)"
    using s'(6) s1(4) by (subst split) simp
  moreover have "take (length (events s)) (events s') = events s"
    by (subst split) simp
  ultimately show ?case
    using e s1 s' by auto
qed auto

section \<open>Loading, as a filter\<close>

lemma matchesFilters_total: "\<exists>b. matchesFilters e fs = Some b"
  by (auto simp: matchesFilters_def split: option.splits)

lemma matchesFilters_none [simp]: "matchesFilters e fmempty = Some True"
  by (simp add: matchesFilters_def)

text \<open>The specification of the filters: every recognised key that is present must agree.\<close>

definition filter_spec :: "event \<Rightarrow> (string, string) fmap \<Rightarrow> bool" where
  "filter_spec e fs \<longleftrightarrow>
     (\<forall>t. fmlookup fs ''type'' = Some t \<longrightarrow> EventType e = t) \<and>
     (\<forall>a. fmlookup fs ''aggregate_id'' = Some a \<longrightarrow> EventAggregateID e = a) \<and>
     (\<forall>x. fmlookup fs ''tenant'' = Some x \<longrightarrow> gm_lookup (EventMetadata e) ''tenant'' = Some (GString x))"

lemma matchesFilters_spec: "matchesFilters e fs = Some (filter_spec e fs)"
  by (cases "fs = fmempty") (auto simp: matchesFilters_def filter_spec_def split: option.splits)

definition seq_of :: "event_with_version \<Rightarrow> u64" where
  "seq_of ev = (case ev_Version ev of Some (IntegerCursor q) \<Rightarrow> q | _ \<Rightarrow> 0)"

lemma load_loop_filter:
  assumes "\<forall>ev \<in> set evs. \<exists>i. entry_ok i ev"
  shows "load_loop q fs evs = Some (filter (\<lambda>ev. seq_of ev > q \<and> filter_spec (the (ev_Event ev)) fs) evs)"
  using assms
  by (induction evs) (auto simp: wanted_def entry_ok_def seq_of_def matchesFilters_spec split: option.splits)

lemma inv_entries: "store_inv s \<Longrightarrow> ev \<in> set (events s) \<Longrightarrow> \<exists>i. entry_ok i ev"
  by (cases "closed s") (auto simp: store_inv_def in_set_conv_nth)

lemma Load_open:
  assumes "store_inv s" and "\<not> closed s"
  shows "Load s None (Some (IntegerCursor q)) fs =
    Some (Inr (filter (\<lambda>ev. seq_of ev > q \<and> filter_spec (the (ev_Event ev)) (filter_map fs)) (events s)))"
  using assms load_loop_filter [of "events s"] inv_entries [OF assms(1)]
  by (simp add: Load_def since_seq_def)

lemma seq_of_nth:
  assumes "store_inv s" and "\<not> closed s" and "i < length (events s)" and "length (events s) < 2 ^ 64"
  shows "unat (seq_of (events s ! i)) = Suc i"
proof -
  have "seq_of (events s ! i) = of_nat (Suc i)"
    using assms(1-3) by (auto simp: store_inv_def seq_of_def entry_ok_def)
  moreover have "Suc i < 2 ^ 64" using assms(3,4) by simp
  ultimately show ?thesis
    by (simp only: unat_of_nat64)
qed

lemma filter_after_drop:
  assumes "\<And>i. i < length xs \<Longrightarrow> f (xs ! i) = Suc i"
  shows "filter (\<lambda>x. f x > k) xs = drop k xs"
  using assms
proof (induction xs arbitrary: k rule: rev_induct)
  case (snoc x xs)
  have "f x = Suc (length xs)" using snoc.prems [of "length xs"] by simp
  moreover have "filter (\<lambda>x. f x > k) xs = drop k xs"
  proof (rule snoc.IH)
    fix i assume "i < length xs"
    then show "f (xs ! i) = Suc i" using snoc.prems [of i] by (simp add: nth_append)
  qed
  ultimately show ?case by simp
qed simp

lemma filter_map_Nil [simp]: "filter_map [] = fmempty"
  by (simp add: filter_map_def)

lemma filter_spec_empty [simp]: "filter_spec e fmempty"
  by (simp add: filter_spec_def)

lemma Load_drop:
  assumes "store_inv s" and "\<not> closed s" and "length (events s) < 2 ^ 64"
  shows "Load s None (Some (IntegerCursor q)) [] = Some (Inr (drop (unat q) (events s)))"
proof -
  have "filter (\<lambda>ev. seq_of ev > q) (events s) = filter (\<lambda>ev. unat (seq_of ev) > unat q) (events s)"
    by (simp add: word_less_nat_alt)
  also have "\<dots> = drop (unat q) (events s)"
    by (rule filter_after_drop) (rule seq_of_nth [OF assms(1,2) _ assms(3)])
  finally show ?thesis
    using Load_open [OF assms(1,2), of q "[]"] by simp
qed

lemma LatestVersion_open:
  assumes "store_inv s" and "\<not> closed s"
  shows "LatestVersion s None = Inr (Some (IntegerCursor (of_nat (length (events s)))))"
  using assms by (auto simp: LatestVersion_def store_inv_def)

lemma select_stream_index:
  "select_indices evs (stream_index evs a) = filter (\<lambda>ev. agg_of ev = a) evs"
proof -
  have "filter (\<lambda>i. i < length evs) (stream_index evs a) = stream_index evs a"
    by (auto simp: stream_index_def intro!: filter_cong)
  moreover have "map (\<lambda>i. evs ! i) (stream_index evs a) = filter (\<lambda>ev. agg_of ev = a) (map (\<lambda>i. evs ! i) [0..<length evs])"
    by (simp add: stream_index_def filter_map comp_def)
  ultimately show ?thesis
    by (simp add: select_indices_def map_nth)
qed

lemma LoadByAggregate_open:
  assumes "store_inv s" and "\<not> closed s"
  shows "LoadByAggregate s None a (Some (IntegerCursor q)) fs =
    Some (Inr (filter (\<lambda>ev. seq_of ev > q \<and> filter_spec (the (ev_Event ev)) (filter_map fs))
       (filter (\<lambda>ev. agg_of ev = a) (events s))))"
proof -
  have lk: "gm_lookup (streams s) a = (if stream_index (events s) a = [] then None else Some (stream_index (events s) a))"
    using assms by (simp add: store_inv_def)
  show ?thesis
  proof (cases "stream_index (events s) a = []")
    case True
    then have "filter (\<lambda>ev. agg_of ev = a) (events s) = []"
      using select_stream_index [of "events s" a] by (simp add: select_indices_def)
    with True lk assms(2) show ?thesis
      by (simp add: LoadByAggregate_def since_seq_def)
  next
    case False
    have ok: "\<forall>ev \<in> set (filter (\<lambda>ev. agg_of ev = a) (events s)). \<exists>i. entry_ok i ev"
      using inv_entries [OF assms(1)] by auto
    from False lk assms(2) load_loop_filter [OF ok] show ?thesis
      by (simp add: LoadByAggregate_def since_seq_def select_stream_index)
  qed
qed

section \<open>The store interface\<close>

definition memstore_ops :: "mem_store store_ops" where
  "memstore_ops = \<lparr>st_Store = Store, st_Load = (\<lambda>s c v. Load s c v []),
     st_LoadByAggregate = (\<lambda>s c a v. LoadByAggregate s c a v []),
     st_LatestVersion = (\<lambda>s c. Some (LatestVersion s c)), st_ParseVersion = (\<lambda>s c txt. Some (ParseVersion txt)),
     st_Close = (\<lambda>s. Some (Close s))\<rparr>"

definition memstore_room :: "nat \<Rightarrow> mem_store \<Rightarrow> bool" where
  "memstore_room k s \<longleftrightarrow> store_inv s \<and> length (events s) + k < 2 ^ 64"

text \<open>A consistent, open store whose sequence numbers have not wrapped.\<close>

definition log_ok :: "mem_store \<Rightarrow> bool" where
  "log_ok s \<longleftrightarrow> store_inv s \<and> \<not> closed s \<and> length (events s) < 2 ^ 64"

lemma memstore_Load_None:
  "log_ok s \<Longrightarrow> st_Load memstore_ops s c (Some (IntegerCursor q)) = Some (Inr evs) \<Longrightarrow> evs = drop (unat q) (events s)"
  using Load_drop [of s q] by (cases c) (auto simp: memstore_ops_def Load_def log_ok_def)

lemma same_payload_copy: "same_payload e (copy_event e q)"
  by (simp add: same_payload_def copy_event_def)

lemma Store_open:
  assumes "store_inv s" and "\<not> closed s"
  shows "\<exists>s'. Store s None (Some e) v = Some (s', None) \<and> store_inv s' \<and> \<not> closed s'
     \<and> events s' = events s @ [new_entry s e]"
  using append_event_open [OF assms, of e] assms(2) by (auto simp: Store_def)

lemma Store_cases:
  assumes "store_inv s"
  obtains (refused) err where "Store s c (Some e) v = Some (s, Some err)"
  | (stored) s' where "Store s c (Some e) v = Some (s', None)" "store_inv s'" "\<not> closed s'" "\<not> closed s"
      "events s' = events s @ [new_entry s e]"
proof (cases c)
  case (Some x)
  then show ?thesis using refused by (simp add: Store_def)
next
  case None
  show ?thesis
  proof (cases "closed s")
    case True
    with None show ?thesis using refused by (simp add: Store_def)
  next
    case False
    with None show ?thesis using stored Store_open [OF assms False] by blast
  qed
qed

interpretation ms: event_store memstore_ops memstore_room store_log "\<lambda>_. True"
proof unfold_locales
  fix k s c v c' evs
  assume room: "memstore_room k s" and lv: "st_LatestVersion memstore_ops s c = Some (Inr v)"
    and ld: "st_Load memstore_ops s c' v = Some (Inr evs)"
  have "c = None" "c' = None" "\<not> closed s"
    using lv ld by (auto simp: memstore_ops_def LatestVersion_def Load_def split: option.splits if_splits)
  with room lv ld show "evs = []"
    using LatestVersion_open [of s] Load_drop [of s "of_nat (length (events s))"]
    by (auto simp: memstore_ops_def memstore_room_def unat_of_nat64)
next
  fix k s c e v
  assume "memstore_room k s"
  then have "store_inv s" by (simp add: memstore_room_def)
  then show "st_Store memstore_ops s c (Some e) v \<noteq> None"
    by (cases rule: Store_cases [of s c e v]) (auto simp: memstore_ops_def)
next
  fix k s c e v s'
  assume room: "memstore_room (Suc k) s" and st: "st_Store memstore_ops s c (Some e) v = Some (s', None)"
  from room have "store_inv s" by (simp add: memstore_room_def)
  then show "memstore_room k s' \<and> (\<exists>e'. same_payload e e' \<and> store_log s' = store_log s @ [e'])"
    using room st by (cases rule: Store_cases [of s c e v])
      (auto simp: memstore_room_def memstore_ops_def store_log_def new_entry_def same_payload_copy)
next
  fix k s c e v s' err
  assume room: "memstore_room k s" and st: "st_Store memstore_ops s c (Some e) v = Some (s', Some err)"
  then have "store_inv s" by (simp add: memstore_room_def)
  then have "s' = s"
    using st by (cases rule: Store_cases [of s c e v]) (auto simp: memstore_ops_def)
  then show "memstore_room k s' \<and> store_log s' = store_log s" using room by simp
next
  fix k s c
  show "st_LatestVersion memstore_ops s c \<noteq> None" by (simp add: memstore_ops_def)
next
  fix s c v s'
  show "st_Store memstore_ops s c None v \<noteq> Some (s', None)"
    by (auto simp: memstore_ops_def Store_def append_event_def split: option.split)
next
  fix k s
  assume "memstore_room (Suc k) s"
  then show "memstore_room k s" by (simp add: memstore_room_def)
qed

section \<open>Runs\<close>

text \<open>The states a memory store goes through, whatever the calls and their results.\<close>

inductive store_run :: "mem_store \<Rightarrow> bool" where
  run_new: "store_run New_store"
| run_store: "store_run s \<Longrightarrow> Store s c evt v = Some (s', err) \<Longrightarrow> store_run s'"
| run_batch: "store_run s \<Longrightarrow> StoreBatch s c evs = Some (s', err) \<Longrightarrow> store_run s'"
| run_close: "store_run s \<Longrightarrow> Close s = (s', err) \<Longrightarrow> store_run s'"

lemma append_event_inv:
  assumes "store_inv s" and "\<not> closed s" and "append_event s evt = Some s'"
  shows "store_inv s' \<and> \<not> closed s'"
proof (cases evt)
  case None
  with assms show ?thesis by (simp add: append_event_def)
next
  case (Some e)
  with assms show ?thesis using append_event_open [OF assms(1,2), of e] by auto
qed

lemma store_each_inv:
  "store_inv s \<Longrightarrow> \<not> closed s \<Longrightarrow> store_each s evs = Some s' \<Longrightarrow> store_inv s' \<and> \<not> closed s'"
  by (induction evs arbitrary: s) (auto simp: bind_eq_Some_conv dest: append_event_inv)

lemma store_run_inv: "store_run s \<Longrightarrow> store_inv s"
proof (induction rule: store_run.induct)
  case run_new
  show ?case by (rule store_inv_New)
next
  case (run_store s c evt v s' err)
  then show ?case
    by (auto simp: Store_def bind_eq_Some_conv split: option.splits if_splits dest: append_event_inv)
next
  case (run_batch s c evs s' err)
  then show ?case
    by (auto simp: StoreBatch_def bind_eq_Some_conv split: option.splits if_splits dest: store_each_inv)
next
  case (run_close s s' err)
  then show ?case by (auto simp: Close_def store_inv_def split: if_splits)
qed

text \<open>The store after storing a list of events in an empty one.\<close>

definition store_all :: "event list \<Rightarrow> mem_store" where
  "store_all es = foldl (\<lambda>s e. case Store s None (Some e) None of None \<Rightarrow> s | Some (s', _) \<Rightarrow> s') New_store es"

lemma store_all_ok:
  assumes "length es < 2 ^ 64"
  shows "log_ok (store_all es) \<and> length (events (store_all es)) = length es"
  using assms
proof (induction es rule: rev_induct)
  case Nil
  show ?case using store_inv_New by (simp add: store_all_def log_ok_def New_store_def)
next
  case (snoc e es)
  then have "store_inv (store_all es)" "\<not> closed (store_all es)" "length (events (store_all es)) = length es"
    by (simp_all add: log_ok_def)
  moreover from Store_open [OF this(1,2)] obtain s' where "Store (store_all es) None (Some e) None = Some (s', None)"
    "store_inv s'" "\<not> closed s'" "events s' = events (store_all es) @ [new_entry (store_all es) e]" by blast
  ultimately show ?case using snoc.prems by (simp add: store_all_def log_ok_def)
qed

section \<open>Reading back a printed version\<close>

lemma spaces_not_digits:
  "list_all (\<lambda>sp. case sp of [] \<Rightarrow> False | p # _ \<Rightarrow> \<not> is_digit p) scan_spaces"
  by code_simp

lemma strip_space_digit:
  assumes "is_digit c"
  shows "strip_space (c # s) = None"
proof -
  have "strip_prefix sp (c # s) = None" if "sp \<in> set scan_spaces" for sp
  proof -
    have "case sp of [] \<Rightarrow> False | p # _ \<Rightarrow> \<not> is_digit p"
      by (rule spaces_not_digits [unfolded list_all_iff, THEN bspec, OF that])
    then obtain p ps where "sp = p # ps" "\<not> is_digit p"
      by (simp split: list.splits)
    with assms show ?thesis by auto
  qed
  then have "filter (\<lambda>r. r \<noteq> None) (map (\<lambda>sp. strip_prefix sp (c # s)) scan_spaces) = []"
    by (simp add: filter_empty_conv)
  then show ?thesis by (simp only: strip_space_def list.case)
qed

lemma takeWhile_digits:
  "\<lbrakk>\<And>c. c \<in> set ds \<Longrightarrow> is_digit c; r = [] \<or> \<not> is_digit (hd r)\<rbrakk> \<Longrightarrow> takeWhile is_digit (ds @ r) = ds"
  by (induction ds) (auto simp: takeWhile_eq_Nil_iff)

lemma sscanf_d_dec:
  assumes "n < 2 ^ 64" and "r = [] \<or> \<not> is_digit (hd r)"
  shows "sscanf_d (nat_dec n @ r) = Inr (of_nat n)"
proof -
  obtain c cs where ds: "nat_dec n = c # cs"
    by (cases "nat_dec n") auto
  have dig: "\<And>c. c \<in> set (nat_dec n) \<Longrightarrow> is_digit c"
    by (rule nat_dec_digits)
  then have c: "is_digit c" using ds by simp
  have "skip_space (nat_dec n @ r) = nat_dec n @ r"
    using strip_space_digit [OF c] by (simp add: ds skip_space.simps)
  moreover have "takeWhile is_digit (nat_dec n @ r) = nat_dec n"
    using dig assms(2) by (rule takeWhile_digits)
  moreover have "c \<noteq> CHR 0x0A" using c by (auto simp: is_digit_def)
  moreover have "dec_val (c # cs) = n" using ds dec_val_nat_dec [of n] by simp
  ultimately show ?thesis
    using assms(1) ds by (simp add: sscanf_d_def Let_def)
qed

lemma ParseVersion_dec: "ParseVersion (u64_dec q) = Inr (Some (IntegerCursor q))"
proof (cases "u64_dec q = ''0''")
  case True
  moreover have "u64_dec 0 = ''0''" by code_simp
  ultimately have "q = 0" by (metis u64_dec_inject)
  with True show ?thesis by (simp add: ParseVersion_def)
next
  case False
  have "unat q < 2 ^ 64" using unat_le_max [of q] by simp
  with False show ?thesis
    using sscanf_d_dec [of "unat q" "[]"] by (simp add: ParseVersion_def u64_dec_def)
qed

section \<open>Properties\<close>

text \<open>
  C8: in every state a memory store can reach, the representation is consistent: the entry at
  position i has version and offset i + 1, the next sequence number is one more than the number
  of events, every aggregate's index lists exactly the positions of its events in order, and a
  closed store holds nothing. (Sequence numbers are 64-bit words.)
\<close>

theorem store_run_consistent:
  assumes "store_run s" and "\<not> closed s"
  shows "nextSeq s = of_nat (Suc (length (events s)))
    \<and> (\<forall>i < length (events s).
         ev_Version (events s ! i) = Some (IntegerCursor (of_nat (Suc i)))
         \<and> (\<exists>e. ev_Event (events s ! i) = Some e \<and> Offset e = of_nat (Suc i)))
    \<and> (\<forall>a. gm_lookup (streams s) a =
         (let is = filter (\<lambda>i. agg_of (events s ! i) = a) [0..<length (events s)]
          in if is = [] then None else Some is))"
  using store_run_inv [OF assms(1)] assms(2)
  by (auto simp: store_inv_def entry_ok_def stream_index_def Let_def split: option.splits)

theorem store_run_consistent_witness:
  "nextSeq New_store = of_nat (Suc (length (events New_store)))"
proof -
  have "\<not> closed New_store" by (simp add: New_store_def)
  then show ?thesis using store_run_consistent [OF store_run.run_new] by blast
qed

text \<open>
  C9: \<open>Store\<close> then \<open>Load\<close>: on a consistent open store with fewer than 2^64 - 1 events, storing an
  event succeeds, the latest version grows by one, and loading since the previous latest
  version returns exactly that event, under the new version and with its identifier, type,
  aggregate, payload bytes and metadata.
\<close>

theorem Store_then_Load:
  assumes "store_inv s" and "\<not> closed s" and "Suc (length (events s)) < 2 ^ 64"
  shows "\<exists>s' q e'. Store s None (Some e) v = Some (s', None) \<and> store_inv s'
    \<and> LatestVersion s None = Inr (Some (IntegerCursor q))
    \<and> LatestVersion s' None = Inr (Some (IntegerCursor (q + 1))) \<and> q < q + 1
    \<and> Load s' None (Some (IntegerCursor q)) [] =
        Some (Inr [\<lparr>ev_Event = Some e', ev_Version = Some (IntegerCursor (q + 1))\<rparr>])
    \<and> same_payload e e' \<and> EventData e' = copy_data (EventData e)
    \<and> (\<forall>k. gm_lookup (EventMetadata e') k = gm_lookup (EventMetadata e) k)"
proof -
  let ?n = "length (events s)"
  obtain s' where s': "Store s None (Some e) v = Some (s', None)" "store_inv s'" "\<not> closed s'"
    "events s' = events s @ [new_entry s e]"
    using Store_open [OF assms(1,2)] by blast
  have seq: "nextSeq s = of_nat ?n + 1"
    using assms(1,2) by (simp add: store_inv_def add.commute)
  have n: "unat (of_nat ?n :: u64) = ?n" "unat (of_nat ?n + 1 :: u64) = Suc ?n"
    using assms(3) unat_of_nat64 [of ?n] unat_of_nat64 [of "Suc ?n"] by (simp_all add: add.commute)
  then have lt: "(of_nat ?n :: u64) < of_nat ?n + 1"
    by (simp add: word_less_nat_alt)
  have "Load s' None (Some (IntegerCursor (of_nat ?n))) [] = Some (Inr [new_entry s e])"
    using Load_drop [OF s'(2,3), of "of_nat ?n"] s'(4) assms(3) n by simp
  moreover have "LatestVersion s' None = Inr (Some (IntegerCursor (of_nat ?n + 1)))"
    using LatestVersion_open [OF s'(2,3)] s'(4) by (simp add: add.commute)
  moreover have "gm_lookup (EventMetadata (copy_event e q)) k = gm_lookup (EventMetadata e) k" for k q
    using fold_fmupd_lookup [of "\<lambda>k. the (gm_lookup (EventMetadata e) k)" "gm_keys (EventMetadata e)" fmempty k]
    by (auto simp: copy_event_def copy_metadata_def gm_keys_def gm_lookup_def fmlookup_dom'_iff)
  ultimately show ?thesis
    using s' LatestVersion_open [OF assms(1,2)] same_payload_copy [of e] lt
    by (intro exI [of _ s'] exI [of _ "of_nat ?n"] exI [of _ "copy_event e (nextSeq s)"])
      (simp add: new_entry_def seq copy_event_def)
qed

theorem Store_then_Load_witness:
  "\<exists>s' q e'. Store New_store None (Some (New_event 0 ''e1'' ''Created'' ''user-1'' [])) None = Some (s', None)
    \<and> Load s' None (Some (IntegerCursor q)) [] =
        Some (Inr [\<lparr>ev_Event = Some e', ev_Version = Some (IntegerCursor (q + 1))\<rparr>])"
proof -
  have "\<not> closed New_store" "Suc (length (events New_store)) < 2 ^ 64"
    by (simp_all add: New_store_def)
  then show ?thesis
    using Store_then_Load [OF store_inv_New] by blast
qed

text \<open>
  The index is right: on a consistent open store \<open>LoadByAggregate\<close>, which follows the
  per-aggregate index, returns exactly the events of \<open>Load\<close> with that aggregate, in the same
  order, for every filter and starting version; an event is returned by \<open>Load\<close> exactly when its
  sequence number is after the given one and it agrees with every type, aggregate and tenant
  filter present.
\<close>

theorem LoadByAggregate_is_filtered_Load:
  assumes "store_inv s" and "\<not> closed s"
  shows "\<exists>evs. Load s None (Some (IntegerCursor q)) fs = Some (Inr evs)
    \<and> LoadByAggregate s None a (Some (IntegerCursor q)) fs = Some (Inr (filter (\<lambda>ev. agg_of ev = a) evs))
    \<and> evs = filter (\<lambda>ev. seq_of ev > q \<and> filter_spec (the (ev_Event ev)) (filter_map fs)) (events s)"
  using Load_open [OF assms] LoadByAggregate_open [OF assms]
  by (simp add: conj_commute)

theorem LoadByAggregate_is_filtered_Load_witness:
  "\<exists>evs. Load New_store None (Some (IntegerCursor 0)) [] = Some (Inr evs)
    \<and> LoadByAggregate New_store None ''a'' (Some (IntegerCursor 0)) [] = Some (Inr (filter (\<lambda>ev. agg_of ev = ''a'') evs))"
proof -
  have "\<not> closed New_store" by (simp add: New_store_def)
  then show ?thesis using LoadByAggregate_is_filtered_Load [OF store_inv_New] by blast
qed

text \<open>
  After \<open>Close\<close>, and under a cancelled context, every operation returns an error and stores
  nothing; \<open>Close\<close> itself is idempotent and never fails.
\<close>

theorem closed_store_rejects:
  "(let s' = fst (Close s) in
      closed s' \<and> Close s' = (s', None) \<and> snd (Close s) = None
      \<and> (\<forall>c evt v. \<exists>err. Store s' c evt v = Some (s', Some err))
      \<and> (\<forall>c since fs. \<exists>err. Load s' c since fs = Some (Inl err))
      \<and> (\<forall>c a since fs. \<exists>err. LoadByAggregate s' c a since fs = Some (Inl err))
      \<and> (\<forall>c. \<exists>err. LatestVersion s' c = Inl err))
   \<and> (\<forall>x evt v evs since fs a.
        Store s (Some x) evt v = Some (s, Some x) \<and> StoreBatch s (Some x) evs = Some (s, Some x)
        \<and> Load s (Some x) since fs = Some (Inl x) \<and> LoadByAggregate s (Some x) a since fs = Some (Inl x)
        \<and> LatestVersion s (Some x) = Inl x)"
  by (auto simp: Let_def Close_def Store_def StoreBatch_def Load_def LoadByAggregate_def LatestVersion_def
      split: option.split)

text \<open>
  A printed integer cursor is read back by \<open>ParseVersion\<close>, also when it is followed by text that
  does not start with a digit: trailing garbage is accepted.
\<close>

theorem ParseVersion_String_roundtrip:
  "(\<forall>txt. Version_String (IntegerCursor q) = Some txt \<longrightarrow> ParseVersion txt = Inr (Some (IntegerCursor q)))
   \<and> ParseVersion (u64_dec q @ ''xyz'') = Inr (Some (IntegerCursor q))"
proof -
  have q: "unat q < 2 ^ 64" using unat_le_max [of q] by simp
  have "ParseVersion (u64_dec q) = Inr (Some (IntegerCursor q))" by (rule ParseVersion_dec)
  moreover have "ParseVersion (u64_dec q @ ''xyz'') = Inr (Some (IntegerCursor q))"
  proof -
    have "length (u64_dec q @ ''xyz'') \<noteq> length ''0''" by simp
    then have "u64_dec q @ ''xyz'' \<noteq> ''0''" by metis
    then show ?thesis
      using sscanf_d_dec [OF q, of "''xyz''"] by (simp add: ParseVersion_def u64_dec_def is_digit_def)
  qed
  ultimately show ?thesis by simp
qed

theorem ParseVersion_String_roundtrip_witness:
  "ParseVersion (u64_dec 42) = Inr (Some (IntegerCursor 42))"
  using ParseVersion_String_roundtrip [of 42] by simp

end
