(* ===== verification/Sync_Properties.thy ===== *)
theory Sync_Properties
  imports Sync_Manager Mem_Store
begin

text \<open>
  What the sync manager guarantees: the phases of its state machine through \<open>Sync\<close>, the batches that
  \<open>push\<close> delivers, what \<open>pull\<close> stores and when it finds conflicts, detection of conflicts, the
  errors it returns, retrying and closing. The facts about stores are proved in the context of
  the locale \<open>event_store\<close> and used through its interpretation on the memory store.
\<close>

section \<open>Frame rules\<close>

lemma tick_simps [simp]:
  "mg_store (tick w) = mg_store w" "mg_transport (tick w) = mg_transport w" "mg_options (tick w) = mg_options w"
  "mg_stateMachine (tick w) = mg_stateMachine w" "mg_closed (tick w) = mg_closed w"
  "mg_subscribers (tick w) = mg_subscribers w" "mg_projectionConfig (tick w) = mg_projectionConfig w"
  "mg_autoSync (tick w) = mg_autoSync w" "mg_trace (tick w) = mg_trace w"
  by (simp_all add: tick_def)

lemma emit_simps [simp]:
  "mg_store (emit es w) = mg_store w" "mg_transport (emit es w) = mg_transport w" "mg_options (emit es w) = mg_options w"
  "mg_stateMachine (emit es w) = mg_stateMachine w" "mg_closed (emit es w) = mg_closed w"
  "mg_subscribers (emit es w) = mg_subscribers w" "mg_projectionConfig (emit es w) = mg_projectionConfig w"
  "mg_autoSync (emit es w) = mg_autoSync w" "mg_tick (emit es w) = mg_tick w"
  "mg_trace (emit es w) = mg_trace w @ es"
  by (simp_all add: emit_def)

lemma result_simps [simp]:
  "Errors (add_error e r) = Errors r @ [e]" "EventsPushed (add_error e r) = EventsPushed r"
  "EventsPulled (add_error e r) = EventsPulled r" "ConflictsResolved (add_error e r) = ConflictsResolved r"
  "Errors (new_result s) = []" "EventsPushed (new_result s) = 0" "EventsPulled (new_result s) = 0"
  "ConflictsResolved (new_result s) = 0"
  by (simp_all add: add_error_def new_result_def)

text \<open>What a phase of a sync leaves alone: everything but the two ends, the machine, time and trace.\<close>

definition same_control :: "('s, 't) manager \<Rightarrow> ('s, 't) manager \<Rightarrow> bool" where
  "same_control w w' \<longleftrightarrow> mg_options w' = mg_options w \<and> mg_closed w' = mg_closed w
     \<and> mg_subscribers w' = mg_subscribers w \<and> mg_projectionConfig w' = mg_projectionConfig w
     \<and> mg_autoSync w' = mg_autoSync w"

lemma same_control_refl [simp]: "same_control w w"
  by (simp add: same_control_def)

lemma same_control_trans: "same_control a b \<Longrightarrow> same_control b c \<Longrightarrow> same_control a c"
  by (simp add: same_control_def)

lemma same_control_simps [simp]:
  "same_control w (tick w') = same_control w w'" "same_control w (emit es w') = same_control w w'"
  "same_control (tick w) w' = same_control w w'" "same_control (emit es w) w' = same_control w w'"
  "same_control (w\<lparr>mg_transport := t\<rparr>) w' = same_control w w'"
  "same_control (w\<lparr>mg_store := s\<rparr>) w' = same_control w w'"
  "same_control w (w'\<lparr>mg_transport := t\<rparr>) = same_control w w'"
  "same_control w (w'\<lparr>mg_store := s\<rparr>) = same_control w w'"
  "same_control w (w'\<lparr>mg_stateMachine := m\<rparr>) = same_control w w'"
  "same_control w (w'\<lparr>mg_tick := k\<rparr>) = same_control w w'"
  by (simp_all add: same_control_def)

section \<open>Phases of the state machine\<close>

text \<open>The manager has a machine with the rules of sync operations, in the given state.\<close>

definition phase :: "('s, 't) manager \<Rightarrow> sync_state \<Rightarrow> bool" where
  "phase w s \<longleftrightarrow> (\<exists>m. mg_stateMachine w = Some m \<and> sync_machine_ok m \<and> m_state m = s)"

lemma phase_simps [simp]:
  "phase (tick w) s = phase w s" "phase (emit es w) s = phase w s"
  "phase (w\<lparr>mg_transport := t\<rparr>) s = phase w s" "phase (w\<lparr>mg_store := st\<rparr>) s = phase w s"
  "phase (w\<lparr>mg_tick := k\<rparr>) s = phase w s"
  by (simp_all add: phase_def)

lemma phase_cong: "mg_stateMachine w' = mg_stateMachine w \<Longrightarrow> phase w' s = phase w s"
  by (simp add: phase_def)

lemma sm_transition_frame:
  assumes "sm_transition en w to md = (w', e)"
  shows "same_control w w'" "mg_store w' = mg_store w" "mg_transport w' = mg_transport w"
  using assms by (auto simp: sm_transition_def same_control_def split: option.splits prod.splits)

lemma sm_transition_phase:
  assumes "phase w s" and "sm_transition en w to md = (w', e)"
  shows "phase w' (if sync_allowed s to then to else s)" "e = None \<longleftrightarrow> sync_allowed s to"
proof -
  obtain m where m: "mg_stateMachine w = Some m" "sync_machine_ok m" "m_state m = s"
    using assms(1) by (auto simp: phase_def)
  let ?mv = "sm_move SyncState_String (time_Now en w) (id_at en (mg_tick w)) md m to"
  have "mg_stateMachine w' = Some (fst ?mv)" "e = snd ?mv"
    using assms(2) m by (auto simp: sm_transition_def sm_move_def split: prod.splits)
  then show "phase w' (if sync_allowed s to then to else s)" "e = None \<longleftrightarrow> sync_allowed s to"
    using gm.move_cur [OF m(2)] gm.move_inv [OF m(2)] gm.move_err [OF m(2)] m(3)
    by (simp_all add: phase_def sync_allowed_def)
qed

section \<open>Push\<close>

text \<open>A sequence of successful \<open>Push\<close> calls with the given batches.\<close>

inductive pushes :: "'t transport_ops \<Rightarrow> 't \<Rightarrow> event_with_version list list \<Rightarrow> 't \<Rightarrow> bool" for tops where
  none: "pushes tops t [] t"
| one: "tr_Push tops t c b = Some (t', None) \<Longrightarrow> pushes tops t' bs t'' \<Longrightarrow> pushes tops t (b # bs) t''"

inductive_simps pushes_nil [simp]: "pushes tops t [] t'"

lemma push_batches_nil [simp]: "push_batches en tops bs [] w result = Some (w, result, None)"
  by (simp add: push_batches.simps)

lemma push_batches_step:
  assumes "evs \<noteq> []" and "0 < bs" and "push_batches en tops bs evs w result = Some (w', result', e)"
  shows "(\<exists>x. done_at en (mg_tick w) = Some x \<and> e = Some x \<and> w' = tick w \<and> result' = result)
    \<or> (\<exists>t' x. tr_Push tops (mg_transport w) (ctx_err en (tick w)) (take bs evs) = Some (t', Some x)
          \<and> e = Some (NewWithComponent OpPush ''transport'' x)
          \<and> w' = tick ((tick w)\<lparr>mg_transport := t'\<rparr>) \<and> result' = result)
    \<or> (\<exists>t'. tr_Push tops (mg_transport w) (ctx_err en (tick w)) (take bs evs) = Some (t', None)
          \<and> push_batches en tops bs (drop bs evs) (tick ((tick w)\<lparr>mg_transport := t'\<rparr>))
              (result\<lparr>EventsPushed := EventsPushed result + int (length (take bs evs))\<rparr>) = Some (w', result', e))"
  using assms
  by (subst (asm) push_batches.simps)
    (auto simp: bind_eq_Some_conv Let_def ctx_err_def simp del: length_take split: option.splits)

text \<open>What a run of \<open>push_batches\<close> over \<open>evs\<close> has done when it returns.\<close>

definition delivered ::
  "env \<Rightarrow> 't transport_ops \<Rightarrow> nat \<Rightarrow> event_with_version list \<Rightarrow> 't \<Rightarrow> 't \<Rightarrow> go_error option
     \<Rightarrow> event_with_version list list \<Rightarrow> bool" where
  "delivered en tops bs evs t t' e batches \<longleftrightarrow>
     (\<exists>t1. pushes tops t batches t1 \<and> (\<forall>b \<in> set batches. 0 < length b \<and> length b \<le> bs)
       \<and> (\<exists>rest. evs = concat batches @ rest \<and> (e = None \<longrightarrow> rest = []))
       \<and> (case e of None \<Rightarrow> t' = t1
          | Some x \<Rightarrow> (\<exists>k. done_at en k = Some x) \<and> t' = t1
              \<or> (\<exists>c b y. tr_Push tops t1 c b = Some (t', Some y) \<and> x = NewWithComponent OpPush ''transport'' y)))"

lemma delivered_Cons:
  assumes "tr_Push tops t c (take bs evs) = Some (t1, None)" and "evs \<noteq> []" and "0 < bs"
    and "delivered en tops bs (drop bs evs) t1 t' e batches"
  shows "delivered en tops bs evs t t' e (take bs evs # batches)"
proof -
  obtain t2 rest where p: "pushes tops t1 batches t2" "\<forall>b \<in> set batches. 0 < length b \<and> length b \<le> bs"
    and r: "drop bs evs = concat batches @ rest" "e = None \<longrightarrow> rest = []"
    and o: "case e of None \<Rightarrow> t' = t2
          | Some x \<Rightarrow> (\<exists>k. done_at en k = Some x) \<and> t' = t2
              \<or> (\<exists>c b y. tr_Push tops t2 c b = Some (t', Some y) \<and> x = NewWithComponent OpPush ''transport'' y)"
    using assms(4) unfolding delivered_def by blast
  have "pushes tops t (take bs evs # batches) t2"
    using assms(1) p(1) by (rule pushes.one)
  moreover have "evs = concat (take bs evs # batches) @ rest"
    using r(1) append_take_drop_id [of bs evs] by simp
  moreover have "\<forall>b \<in> set (take bs evs # batches). 0 < length b \<and> length b \<le> bs"
    using p(2) assms(2,3) by auto
  ultimately show ?thesis using r(2) o unfolding delivered_def by blast
qed

lemma push_batches_delivers:
  assumes "push_batches en tops bs evs w result = Some (w', result', e)" and "0 < bs"
  shows "same_control w w' \<and> mg_stateMachine w' = mg_stateMachine w \<and> mg_store w' = mg_store w \<and>
    (\<exists>batches. delivered en tops bs evs (mg_transport w) (mg_transport w') e batches
       \<and> result' = result\<lparr>EventsPushed := EventsPushed result + int (length (concat batches))\<rparr>)"
  using assms
proof (induction "length evs" arbitrary: evs w result rule: less_induct)
  case less
  show ?case
  proof (cases "evs = []")
    case True
    then show ?thesis using less.prems
      by (auto simp: delivered_def pushes.none intro!: exI [of _ "[]"])
  next
    case False
    from push_batches_step [OF False less.prems(2,1)] consider
      (ctx) x where "done_at en (mg_tick w) = Some x" "e = Some x" "w' = tick w" "result' = result"
      | (fail) t' x where "tr_Push tops (mg_transport w) (ctx_err en (tick w)) (take bs evs) = Some (t', Some x)"
        "e = Some (NewWithComponent OpPush ''transport'' x)" "w' = tick ((tick w)\<lparr>mg_transport := t'\<rparr>)" "result' = result"
      | (go) t' where "tr_Push tops (mg_transport w) (ctx_err en (tick w)) (take bs evs) = Some (t', None)"
        "push_batches en tops bs (drop bs evs) (tick ((tick w)\<lparr>mg_transport := t'\<rparr>))
              (result\<lparr>EventsPushed := EventsPushed result + int (length (take bs evs))\<rparr>) = Some (w', result', e)"
      by blast
    then show ?thesis
    proof cases
      case ctx
      then show ?thesis
        by (auto simp: delivered_def pushes.none intro!: exI [of _ "[]"])
    next
      case fail
      then have "delivered en tops bs evs (mg_transport w) (mg_transport w') e []"
        unfolding delivered_def by auto
      with fail show ?thesis by (auto intro!: exI [of _ "[]"])
    next
      case go
      have "length (drop bs evs) < length evs" using False less.prems(2) by simp
      from less.hyps [OF this go(2) less.prems(2)] obtain batches where
        f: "same_control w w'" "mg_stateMachine w' = mg_stateMachine w" "mg_store w' = mg_store w"
        and d: "delivered en tops bs (drop bs evs) t' (mg_transport w') e batches"
        and r: "result' = result\<lparr>EventsPushed := EventsPushed result + int (length (take bs evs)) + int (length (concat batches))\<rparr>"
        by (auto simp del: length_take)
      have "delivered en tops bs evs (mg_transport w) (mg_transport w') e (take bs evs # batches)"
        using delivered_Cons [OF go(1) False less.prems(2) d] .
      moreover have "result' = result\<lparr>EventsPushed := EventsPushed result + int (length (concat (take bs evs # batches)))\<rparr>"
        using r by (simp add: add.assoc del: length_take)
      ultimately show ?thesis using f by blast
    qed
  qed
qed

text \<open>
  The whole of \<open>push\<close>: it fails before the first batch without touching the remote contents, or has
  delivered batches of the filtered local events since the remote's latest version.
\<close>

lemma batch_size_pos [simp]: "0 < batch_size opts"
  by (simp add: batch_size_def)

lemma apply_filter_nil [simp]: "apply_filter opts [] = Some []"
  by (simp add: apply_filter_def split: option.split)

definition push_outcome ::
  "env \<Rightarrow> 's store_ops \<Rightarrow> 't transport_ops \<Rightarrow> sync_options \<Rightarrow> 's \<Rightarrow> 't \<Rightarrow> 't \<Rightarrow> int \<Rightarrow> go_error option \<Rightarrow> bool" where
  "push_outcome en sops tops opts s t t' n e \<longleftrightarrow>
     (\<exists>c t1 res. tr_GetLatestVersion tops t c = Some (t1, res) \<and>
      (case res of
         Inl err \<Rightarrow> e = Some (NewWithComponent OpPush ''transport'' err) \<and> n = 0 \<and> t' = t1
       | Inr rv \<Rightarrow> (\<exists>c' l. st_Load sops s c' rv = Some l \<and>
          (case l of
             Inl err \<Rightarrow> e = Some (NewWithComponent OpLoad ''store'' err) \<and> n = 0 \<and> t' = t1
           | Inr evs \<Rightarrow> (\<exists>evs' batches. apply_filter opts evs = Some evs' \<and>
               delivered en tops (batch_size opts) evs' t1 t' e batches \<and> n = int (length (concat batches)))))))"

lemma push_body_cases:
  assumes "push_body en sops tops w r0 = Some (w', r, e)" and "EventsPushed r0 = 0"
  shows "same_control w w' \<and> mg_stateMachine w' = mg_stateMachine w \<and> mg_store w' = mg_store w \<and>
    push_outcome en sops tops (mg_options w) (mg_store w) (mg_transport w) (mg_transport w') (EventsPushed r) e"
proof -
  let ?c = "op_err en w"
  obtain t1 res where g: "tr_GetLatestVersion tops (mg_transport w) ?c = Some (t1, res)"
    using assms by (auto simp: push_body_def bind_eq_Some_conv Let_def)
  let ?w1 = "tick (w\<lparr>mg_transport := t1\<rparr>)"
  show ?thesis
  proof (cases res)
    case (Inl err)
    then have "same_control w w' \<and> mg_stateMachine w' = mg_stateMachine w \<and> mg_store w' = mg_store w
        \<and> e = Some (NewWithComponent OpPush ''transport'' err) \<and> EventsPushed r = 0 \<and> mg_transport w' = t1"
      using assms g by (auto simp: push_body_def Let_def)
    moreover have "push_outcome en sops tops (mg_options w) (mg_store w) (mg_transport w) t1 0
        (Some (NewWithComponent OpPush ''transport'' err))"
      unfolding push_outcome_def using g Inl
      by (intro exI [of _ ?c] exI [of _ t1] exI [of _ res]) simp
    ultimately show ?thesis by simp
  next
    case (Inr rv)
    obtain l where l: "st_Load sops (mg_store w) (op_err en ?w1) rv = Some l"
      using assms g Inr by (auto simp: push_body_def bind_eq_Some_conv Let_def)
    have main: "same_control w w' \<and> mg_stateMachine w' = mg_stateMachine w \<and> mg_store w' = mg_store w \<and>
       (case l of
             Inl err \<Rightarrow> e = Some (NewWithComponent OpLoad ''store'' err) \<and> EventsPushed r = 0 \<and> mg_transport w' = t1
           | Inr evs \<Rightarrow> (\<exists>evs' batches. apply_filter (mg_options w) evs = Some evs' \<and>
               delivered en tops (batch_size (mg_options w)) evs' t1 (mg_transport w') e batches \<and>
               EventsPushed r = int (length (concat batches))))"
    proof (cases l)
      case (Inl err)
      with assms g Inr l show ?thesis by (auto simp: push_body_def Let_def)
    next
      case (Inr evs)
      note evs = this
      show ?thesis
      proof (cases "evs = []")
        case True
        then have "e = None" "w' = tick ?w1" "r = r0"
          using assms g \<open>res = Inr rv\<close> l evs by (auto simp: push_body_def Let_def)
        then show ?thesis
          using True assms(2) evs by (auto simp: delivered_def pushes.none intro!: exI [of _ "[]"])
      next
        case False
        then obtain evs' where f: "apply_filter (mg_options w) evs = Some evs'"
          and p: "push_batches en tops (batch_size (mg_options w)) evs' (tick ?w1) r0 = Some (w', r, e)"
          using assms g \<open>res = Inr rv\<close> l evs by (auto simp: push_body_def bind_eq_Some_conv Let_def)
        from push_batches_delivers [OF p] show ?thesis
          using f evs assms(2) by auto
      qed
    qed
    then have "push_outcome en sops tops (mg_options w) (mg_store w) (mg_transport w) (mg_transport w') (EventsPushed r) e"
      unfolding push_outcome_def using g Inr l
      by (intro exI [of _ ?c] exI [of _ t1] exI [of _ res]) auto
    with main show ?thesis by simp
  qed
qed

lemma push_cases:
  assumes "push en sops tops w = Some (w', r, e)"
  shows "same_control w w' \<and> mg_stateMachine w' = mg_stateMachine w \<and> mg_store w' = mg_store w \<and>
    push_outcome en sops tops (mg_options w) (mg_store w) (mg_transport w) (mg_transport w') (EventsPushed r) e"
proof -
  obtain w1 r1 where b: "push_body en sops tops (tick (tick w)) (new_result (time_Now en (tick w))) = Some (w1, r1, e)"
    and "w' = tick (emit (RecordSyncDuration ''push'' (time_Sub (time_Now en (tick w1)) (time_Now en w))
            # (if EventsPushed r1 > 0 then [RecordSyncEvents (EventsPushed r1) 0] else [])) (tick w1))"
    and "EventsPushed r = EventsPushed r1"
    using assms by (auto simp: push_def push_finish_def Let_def)
  with push_body_cases [OF b] show ?thesis by simp
qed

section \<open>Pull\<close>

text \<open>A sequence of successful \<open>Store\<close> calls with the given events.\<close>

inductive stores :: "'s store_ops \<Rightarrow> 's \<Rightarrow> event_with_version list \<Rightarrow> 's \<Rightarrow> bool" for sops where
  none: "stores sops s [] s"
| one: "st_Store sops s c (ev_Event ev) (ev_Version ev) = Some (s', None) \<Longrightarrow> stores sops s' evs s''
    \<Longrightarrow> stores sops s (ev # evs) s''"

inductive_simps stores_nil [simp]: "stores sops s [] s'"

inductive_cases stores_ConsE: "stores sops s (ev # evs) s'"

text \<open>What the storing loop over \<open>evs\<close> has done when it returns.\<close>

definition stored ::
  "env \<Rightarrow> 's store_ops \<Rightarrow> event_with_version list \<Rightarrow> 's \<Rightarrow> 's \<Rightarrow> go_error option \<Rightarrow> event_with_version list \<Rightarrow> bool" where
  "stored en sops evs s s' e kept_evs \<longleftrightarrow>
     (\<exists>s1 rest. evs = kept_evs @ rest \<and> stores sops s kept_evs s1 \<and>
       (case e of
          None \<Rightarrow> rest = [] \<and> s' = s1
        | Some x \<Rightarrow> (\<exists>k. done_at en k = Some x) \<and> s' = s1
            \<or> (\<exists>c ev rest' y. rest = ev # rest' \<and> st_Store sops s1 c (ev_Event ev) (ev_Version ev) = Some (s', Some y)
                 \<and> x = NewWithComponent OpStore ''store'' y)))"

lemma stored_Cons:
  assumes "st_Store sops s c (ev_Event ev) (ev_Version ev) = Some (s1, None)"
    and "stored en sops evs s1 s' e kept_evs"
  shows "stored en sops (ev # evs) s s' e (ev # kept_evs)"
proof -
  obtain s2 rest where r: "evs = kept_evs @ rest" "stores sops s1 kept_evs s2"
    and o: "case e of
          None \<Rightarrow> rest = [] \<and> s' = s2
        | Some x \<Rightarrow> (\<exists>k. done_at en k = Some x) \<and> s' = s2
            \<or> (\<exists>c ev rest' y. rest = ev # rest' \<and> st_Store sops s2 c (ev_Event ev) (ev_Version ev) = Some (s', Some y)
                 \<and> x = NewWithComponent OpStore ''store'' y)"
    using assms(2) unfolding stored_def by blast
  have "stores sops s (ev # kept_evs) s2" using assms(1) r(2) by (rule stores.one)
  moreover have "ev # evs = (ev # kept_evs) @ rest" using r(1) by simp
  ultimately show ?thesis using o unfolding stored_def by blast
qed

lemma stored_stop:
  "done_at en k = Some x \<Longrightarrow> stored en sops evs s s (Some x) []"
  "st_Store sops s c (ev_Event ev) (ev_Version ev) = Some (s', Some y) \<Longrightarrow>
     stored en sops (ev # evs) s s' (Some (NewWithComponent OpStore ''store'' y)) []"
  "stored en sops [] s s None []"
  by (auto simp: stored_def)

lemma store_events_stored:
  assumes "store_events en sops evs w r = Some (w', r', e)"
  shows "same_control w w' \<and> mg_stateMachine w' = mg_stateMachine w \<and> mg_transport w' = mg_transport w \<and>
    (\<exists>kept_evs. stored en sops evs (mg_store w) (mg_store w') e kept_evs
       \<and> r' = r\<lparr>EventsPulled := EventsPulled r + int (length kept_evs)\<rparr>)"
  using assms
proof (induction evs arbitrary: w r)
  case Nil
  then show ?case by (auto intro!: exI [of _ "[]"] stored_stop)
next
  case (Cons ev evs)
  show ?case
  proof (cases "ctx_err en w")
    case (Some x)
    then have "w' = tick w" "r' = r" "e = Some x" using Cons.prems by auto
    moreover have "stored en sops (ev # evs) (mg_store w) (mg_store w) (Some x) []"
      using Some by (auto simp: ctx_err_def intro: stored_stop(1))
    ultimately show ?thesis by (auto intro!: exI [of _ "[]"])
  next
    case None
    then obtain s1 err where st: "st_Store sops (mg_store w) (ctx_err en (tick w)) (ev_Event ev) (ev_Version ev) = Some (s1, err)"
      using Cons.prems by (auto simp: Let_def bind_eq_Some_conv)
    show ?thesis
    proof (cases err)
      case (Some y)
      with Cons.prems None st show ?thesis
        by (auto simp: Let_def intro!: exI [of _ "[]"] stored_stop)
    next
      case err: None
      let ?w2 = "tick ((tick w)\<lparr>mg_store := s1\<rparr>)"
      have "store_events en sops evs ?w2 (r\<lparr>EventsPulled := EventsPulled r + 1\<rparr>) = Some (w', r', e)"
        using Cons.prems None st err by (simp add: Let_def)
      from Cons.IH [OF this] obtain kept_evs where
        f: "same_control w w'" "mg_stateMachine w' = mg_stateMachine w" "mg_transport w' = mg_transport w"
        and k: "stored en sops evs s1 (mg_store w') e kept_evs"
        and r': "r' = r\<lparr>EventsPulled := EventsPulled r + 1 + int (length kept_evs)\<rparr>"
        by auto
      have "stored en sops (ev # evs) (mg_store w) (mg_store w') e (ev # kept_evs)"
        using stored_Cons [OF st [unfolded err] k] .
      with f r' show ?thesis by (auto intro!: exI [of _ "ev # kept_evs"])
    qed
  qed
qed

lemma pull_store_frame:
  assumes "pull_store en sops evs w r = Some (w', r', e)"
  shows "same_control w w' \<and> mg_stateMachine w' = mg_stateMachine w \<and> mg_transport w' = mg_transport w
    \<and> Errors r' = Errors r \<and> ConflictsResolved r' = ConflictsResolved r \<and>
    (\<exists>kept_evs. stored en sops evs (mg_store w) (mg_store w') e kept_evs
       \<and> EventsPulled r' = EventsPulled r + int (length kept_evs))
    \<and> (e = None \<and> evs \<noteq> [] \<longrightarrow> findLatestVersion evs = Some (RemoteVersion r'))"
proof -
  obtain w1 r1 err where s: "store_events en sops evs w r = Some (w1, r1, err)"
    using assms by (auto simp: pull_store_def bind_eq_Some_conv)
  show ?thesis
  proof (cases "err = None \<and> evs \<noteq> []")
    case True
    then obtain v where "findLatestVersion evs = Some v" "w' = w1" "r' = r1\<lparr>RemoteVersion := v\<rparr>" "e = err"
      using assms s by (auto simp: pull_store_def bind_eq_Some_conv)
    with store_events_stored [OF s] show ?thesis by auto
  next
    case False
    then have "w' = w1" "r' = r1" "e = err"
      using assms s by (auto simp: pull_store_def split: option.splits)
    with store_events_stored [OF s] False show ?thesis by auto
  qed
qed

lemma resolve_all_frame:
  "resolve_all en rv cs acc w = Some (w', res) \<Longrightarrow>
     same_control w w' \<and> mg_stateMachine w' = mg_stateMachine w \<and> mg_transport w' = mg_transport w
     \<and> mg_store w' = mg_store w"
proof (induction cs arbitrary: acc w)
  case (Cons c cs)
  then obtain r where "rv (ctx_err en w) c = Some r" by (auto simp: bind_eq_Some_conv)
  with Cons.prems show ?case
    using Cons.IH [of _ "tick w"] by (cases r) (auto simp: Let_def split: if_splits)
qed simp

lemma pull_resolve_phase:
  assumes "pull_resolve en sops rv cs w r = Some (w', r', e)" and "phase w SyncPulling" and "cs \<noteq> []"
  shows "same_control w w' \<and> mg_transport w' = mg_transport w \<and> phase w' SyncResolvingConflicts \<and> Errors r' = Errors r"
proof -
  let ?md = "md_of [(''operation'', GString ''conflict_resolution''), (''conflict_count'', GInt_of (int (length cs)))]"
  obtain w1 err where t: "sm_transition en w SyncResolvingConflicts ?md = (w1, err)" by fastforce
  have ph: "phase w1 SyncResolvingConflicts" and ok: "err = None"
    using sm_transition_phase [OF assms(2) t] by (simp_all add: sync_allowed_iff)
  have fr: "same_control w w1" "mg_transport w1 = mg_transport w" using sm_transition_frame [OF t] by simp_all
  show ?thesis
  proof (cases "ctx_err en w1")
    case (Some x)
    with assms(1) t ok ph fr show ?thesis by (auto simp: pull_resolve_def)
  next
    case None
    obtain w2 res where res: "resolve_all en rv cs [] (tick w1) = Some (w2, res)"
      using assms(1) t ok None by (auto simp: pull_resolve_def bind_eq_Some_conv)
    have fr2: "same_control w1 w2" "mg_transport w2 = mg_transport w1" "phase w2 SyncResolvingConflicts"
      using resolve_all_frame [OF res] ph phase_cong [of w2 w1] by simp_all
    show ?thesis
    proof (cases res)
      case (Inl x)
      with assms(1) t ok None res fr fr2 show ?thesis
        by (auto simp: pull_resolve_def intro: same_control_trans)
    next
      case (Inr resolved)
      then have "pull_store en sops resolved w2 (r\<lparr>ConflictsResolved := int (length cs)\<rparr>) = Some (w', r', e)"
        using assms(1) t ok None res by (simp add: pull_resolve_def)
      from pull_store_frame [OF this] fr fr2 phase_cong [of w' w2] show ?thesis
        by (auto intro: same_control_trans)
    qed
  qed
qed

text \<open>
  The conflict stage of a pull that started in the pulling state: either it resolved conflicts, and
  the machine is in the resolving state, or it did not, and the machine is where it was.
\<close>

lemma pull_conflicts_phase:
  assumes "pull_conflicts en sops lv evs w r = Some (w', r', e)" and "phase w SyncPulling"
  shows "same_control w w' \<and> mg_transport w' = mg_transport w \<and> Errors r' = Errors r \<and>
    (phase w' SyncResolvingConflicts \<or> phase w' SyncPulling \<and> ConflictsResolved r' = ConflictsResolved r)"
proof -
  have store: "pull_store en sops evs w1 r = Some (w', r', e) \<Longrightarrow> mg_stateMachine w1 = mg_stateMachine w
      \<Longrightarrow> same_control w w1 \<Longrightarrow> mg_transport w1 = mg_transport w \<Longrightarrow> ?thesis" for w1
    using pull_store_frame [of en sops evs w1 r w' r' e] assms(2) phase_cong [of w' w]
    by (auto intro: same_control_trans)
  show ?thesis
  proof (cases "ConflictResolver (mg_options w)")
    case None
    with assms(1) store show ?thesis by (simp add: pull_conflicts_def)
  next
    case (Some rv)
    then obtain l where l: "st_Load sops (mg_store w) (op_err en w) lv = Some l"
      using assms(1) by (auto simp: pull_conflicts_def bind_eq_Some_conv)
    show ?thesis
    proof (cases l)
      case (Inl err)
      with assms Some l show ?thesis by (auto simp: pull_conflicts_def Let_def split: if_splits)
    next
      case (Inr locals)
      have b: "(if locals = [] then pull_store en sops evs (tick w) r
          else detectConflicts locals evs \<bind> (\<lambda>cs. if cs = [] then pull_store en sops evs (tick w) r
             else pull_resolve en sops rv cs (tick w) r)) = Some (w', r', e)"
        using assms(1) Some l Inr by (simp add: pull_conflicts_def Let_def)
      show ?thesis
      proof (cases "locals = [] \<or> detectConflicts locals evs = Some []")
        case True
        then have "pull_store en sops evs (tick w) r = Some (w', r', e)" using b by (auto split: if_splits)
        then show ?thesis using store [of "tick w"] by simp
      next
        case False
        then obtain cs where "cs \<noteq> []" "pull_resolve en sops rv cs (tick w) r = Some (w', r', e)"
          using b by (auto simp: bind_eq_Some_conv split: if_splits)
        from pull_resolve_phase [OF this(2) _ this(1)] assms(2) show ?thesis by simp
      qed
    qed
  qed
qed

lemma pull_phase:
  assumes "pull en sops tops w = Some (w', r, e)" and "phase w SyncPulling"
  shows "same_control w w' \<and> Errors r = [] \<and>
    (phase w' SyncResolvingConflicts \<or> phase w' SyncPulling \<and> ConflictsResolved r = 0)"
proof -
  let ?w = "tick (tick w)" and ?r = "new_result (time_Now en (tick w))"
  obtain w1 r1 where b: "pull_body en sops tops ?w ?r = Some (w1, r1, e)"
    and w': "mg_stateMachine w' = mg_stateMachine w1" "same_control w1 w'"
    and r: "Errors r = Errors r1" "ConflictsResolved r = ConflictsResolved r1"
    using assms(1) by (auto simp: pull_def pull_finish_def Let_def)
  obtain v where v: "st_LatestVersion sops (mg_store w) (ctx_err en ?w) = Some v"
    using b by (auto simp: pull_body_def bind_eq_Some_conv)
  have "same_control w w1 \<and> Errors r1 = [] \<and>
    (phase w1 SyncResolvingConflicts \<or> phase w1 SyncPulling \<and> ConflictsResolved r1 = 0)"
  proof (cases v)
    case (Inl err)
    with b v assms(2) show ?thesis by (auto simp: pull_body_def Let_def)
  next
    case (Inr lv)
    obtain t' res where p: "tr_Pull tops (mg_transport w) (op_err en (tick ?w)) lv = Some (t', res)"
      using b v Inr by (auto simp: pull_body_def Let_def bind_eq_Some_conv)
    let ?w2 = "tick ((tick ?w)\<lparr>mg_transport := t'\<rparr>)"
    show ?thesis
    proof (cases "\<exists>err. res = Inl err \<or> res = Inr []")
      case True
      with b v Inr p assms(2) show ?thesis by (auto simp: pull_body_def Let_def)
    next
      case False
      then obtain evs where "pull_conflicts en sops lv evs ?w2 ?r = Some (w1, r1, e)"
        using b v Inr p by (cases res) (auto simp: pull_body_def Let_def bind_eq_Some_conv)
      from pull_conflicts_phase [OF this] assms(2) show ?thesis by simp
    qed
  qed
  then show ?thesis
    using w' r phase_cong [OF w'(1)] by (auto intro: same_control_trans)
qed

section \<open>Sync\<close>

lemma runProjections_frame:
  "runProjectionsAfterSync en w = (w', e) \<Longrightarrow> same_control w w' \<and> mg_stateMachine w' = mg_stateMachine w
     \<and> mg_transport w' = mg_transport w \<and> mg_store w' = mg_store w"
  by (auto simp: runProjectionsAfterSync_def split: option.splits if_splits prod.splits)

lemma sync_projections_frame:
  assumes "sync_projections en w r = (w', r')"
  shows "same_control w w' \<and> mg_stateMachine w' = mg_stateMachine w \<and> mg_transport w' = mg_transport w
    \<and> mg_store w' = mg_store w \<and> EventsPushed r' = EventsPushed r \<and> EventsPulled r' = EventsPulled r
    \<and> ConflictsResolved r' = ConflictsResolved r \<and> (\<exists>es. Errors r' = Errors r @ es)"
proof -
  obtain w1 e where p: "runProjectionsAfterSync en w = (w1, e)" by fastforce
  show ?thesis
    using assms p runProjections_frame [OF p]
    by (cases e) (auto simp: sync_projections_def split: if_splits)
qed

lemma sync_tail_frame:
  assumes "sync_tail en sops w r = Some (w', r')"
  shows "same_control w w' \<and> mg_stateMachine w' = mg_stateMachine w \<and> mg_transport w' = mg_transport w
    \<and> mg_store w' = mg_store w \<and> EventsPushed r' = EventsPushed r \<and> EventsPulled r' = EventsPulled r
    \<and> ConflictsResolved r' = ConflictsResolved r \<and> (\<exists>es. Errors r' = Errors r @ es)"
proof -
  obtain w1 r1 where p: "sync_projections en w r = (w1, r1)" by fastforce
  obtain v where "st_LatestVersion sops (mg_store w1) (ctx_err en w1) = Some v"
    using assms p by (auto simp: sync_tail_def bind_eq_Some_conv)
  then show ?thesis
    using assms p sync_projections_frame [OF p] by (cases v) (auto simp: sync_tail_def)
qed

lemma merge_simps [simp]:
  "Errors (merge_push e pr r) = Errors r @ (case e of None \<Rightarrow> [] | Some x \<Rightarrow> [NewWithComponent OpPush ''transport'' x])"
  "ConflictsResolved (merge_push e pr r) = ConflictsResolved r"
  "ConflictsResolved (merge_pull e pr r) = (if e = None then ConflictsResolved pr else ConflictsResolved r)"
  "EventsPushed (merge_pull e pr r) = EventsPushed r"
  by (simp_all add: merge_push_def merge_pull_def split: option.split)

text \<open>The push phase of a sync, by the state it is entered in.\<close>

lemma sync_push_phase:
  assumes "sync_push en sops tops w r = Some (w', r')" and "phase w s"
  shows "same_control w w' \<and> (\<exists>es. Errors r' = Errors r @ es) \<and>
   (if PullOnly (mg_options w) then phase w' s \<and> mg_transport w' = mg_transport w \<and> EventsPushed r' = EventsPushed r
    else if sync_allowed s SyncPushing then phase w' SyncPushing
    else phase w' s \<and> mg_transport w' = mg_transport w \<and> EventsPushed r' = EventsPushed r \<and> Errors r' \<noteq> [])"
proof (cases "PullOnly (mg_options w)")
  case True
  then have "sync_tail en sops w r = Some (w', r')" using assms(1) by (simp add: sync_push_def)
  from sync_tail_frame [OF this] True assms(2) phase_cong [of w' w s] show ?thesis by auto
next
  case False
  let ?md = "md_of [(''operation'', GString ''push''), (''pull_only'', GBool False)]"
  obtain w1 err where t: "sm_transition en w SyncPushing ?md = (w1, err)" by fastforce
  note ph = sm_transition_phase [OF assms(2) t] and fr = sm_transition_frame [OF t]
  show ?thesis
  proof (cases err)
    case (Some x)
    then show ?thesis using assms(1) False t ph fr by (auto simp: sync_push_def)
  next
    case None
    then obtain w2 pr e where p: "push en sops tops w1 = Some (w2, pr, e)"
      and tl: "sync_tail en sops w2 (merge_push e pr r) = Some (w', r')"
      using assms(1) False t by (auto simp: sync_push_def bind_eq_Some_conv)
    have "phase w2 SyncPushing" using push_cases [OF p] ph None phase_cong [of w2 w1] by simp
    then show ?thesis
      using sync_tail_frame [OF tl] push_cases [OF p] ph None fr False phase_cong [of w' w2]
      by (auto intro: same_control_trans)
  qed
qed

lemma sync_push_conflicts:
  assumes "sync_push en sops tops w r = Some (w', r')"
  shows "ConflictsResolved r' = ConflictsResolved r"
proof -
  let ?md = "md_of [(''operation'', GString ''push''), (''pull_only'', GBool False)]"
  obtain w1 err where t: "sm_transition en w SyncPushing ?md = (w1, err)" by fastforce
  show ?thesis
    using assms t by (cases "PullOnly (mg_options w)"; cases err)
      (auto simp: sync_push_def bind_eq_Some_conv dest: sync_tail_frame)
qed

lemma sync_finish_frame:
  assumes "sync_finish en start w r = (w', r')" and "phase w s"
  shows "same_control w w' \<and> mg_transport w' = mg_transport w \<and> mg_store w' = mg_store w
    \<and> r' = r\<lparr>Duration := Duration r'\<rparr>
    \<and> (let fin = (if Errors r \<noteq> [] then SyncFailed else SyncCompleted); s1 = (if sync_allowed s fin then fin else s)
       in phase w' (if sync_allowed s1 SyncIdle then SyncIdle else s1))"
proof -
  let ?r = "r\<lparr>Duration := time_Sub (time_Now en w) (StartTime r)\<rparr>"
  let ?fin = "if Errors r \<noteq> [] then SyncFailed else SyncCompleted"
  let ?md = "md_of [(''operation_completed'', GBool True), (''final_state'', GString (SyncState_String ?fin))]"
  obtain w1 e1 where t1: "sm_transition en (tick w) ?fin (final_metadata ?r) = (w1, e1)" by fastforce
  obtain w2 e2 where t2: "sm_transition en w1 SyncIdle ?md = (w2, e2)" by fastforce
  have "r' = ?r" and w': "mg_stateMachine w' = mg_stateMachine w2" "same_control w2 w'"
    "mg_transport w' = mg_transport w2" "mg_store w' = mg_store w2"
    using assms(1) t1 t2 by (auto simp: sync_finish_def notifySubscribers_def Let_def)
  moreover have "phase w1 (if sync_allowed s ?fin then ?fin else s)"
    using sm_transition_phase [OF _ t1] assms(2) by simp
  from sm_transition_phase [OF this t2] phase_cong [OF w'(1)]
  have "phase w' (if sync_allowed (if sync_allowed s ?fin then ?fin else s) SyncIdle then SyncIdle
      else (if sync_allowed s ?fin then ?fin else s))" by simp
  ultimately show ?thesis
    using sm_transition_frame [OF t1] sm_transition_frame [OF t2]
    by (auto simp: Let_def intro: same_control_trans)
qed

text \<open>An accepted \<open>Sync\<close>: body from the initializing state, then the deferred function.\<close>

lemma Sync_accepted:
  assumes "Sync en sops tops w = Some (w', res)" and "phase w SyncIdle" and "\<not> mg_closed w"
  obtains w1 w2 r1 start s0 where "same_control w w1" "mg_transport w1 = mg_transport w" "mg_store w1 = mg_store w"
    "phase w1 SyncInitializing" "sync_body en sops tops w1 (new_result s0) = Some (w2, r1)"
    "sync_finish en start w2 r1 = (w', projr res)" "isl res = False"
proof -
  let ?md = "md_of [(''operation'', GString ''full_sync''), (''started_at'', GString (rfc3339 en (time_Now en w)))]"
  obtain w0 err where t: "sm_transition en (tick w) SyncInitializing ?md = (w0, err)" by fastforce
  have ph: "phase w0 SyncInitializing" and "err = None"
    using sm_transition_phase [of "tick w" SyncIdle, OF _ t] assms(2) by (simp_all add: sync_allowed_iff)
  moreover have "\<not> (case mg_stateMachine w of None \<Rightarrow> False | Some m \<Rightarrow> \<not> CanAutoSync (Current m))"
    using assms(2) by (auto simp: phase_def CanAutoSync_def Current_def)
  ultimately have S: "Sync en sops tops w = sync_body en sops tops (tick w0) (new_result (time_Now en w0)) \<bind>
      (\<lambda>(w2, result). case sync_finish en (time_Now en w) w2 result of (w3, result') \<Rightarrow> Some (w3, Inr result'))"
    using assms(3) t by (simp add: Sync_def Let_def)
  then obtain w2 r1 where b: "sync_body en sops tops (tick w0) (new_result (time_Now en w0)) = Some (w2, r1)"
    using assms(1) by (cases "sync_body en sops tops (tick w0) (new_result (time_Now en w0))") auto
  then have "sync_finish en (time_Now en w) w2 r1 = (w', projr res)" "isl res = False"
    using assms(1) S by (auto split: prod.splits)
  note b this
  then show thesis
    using that [of "tick w0"] ph sm_transition_frame [OF t] by simp
qed

text \<open>The states in which the body of a sync can end.\<close>

lemma sync_body_phase:
  assumes "sync_body en sops tops w (new_result s0) = Some (w', r')" and "phase w SyncInitializing"
  shows "same_control w w' \<and>
   (if PushOnly (mg_options w) \<and> PullOnly (mg_options w) then phase w' SyncInitializing \<and> mg_transport w' = mg_transport w
    else phase w' SyncPushing \<or> phase w' SyncPulling \<or> phase w' SyncResolvingConflicts)"
proof (cases "PushOnly (mg_options w)")
  case True
  then have "sync_push en sops tops w (new_result s0) = Some (w', r')" using assms(1) by (simp add: sync_body_def)
  from sync_push_phase [OF this assms(2)] True show ?thesis by (auto simp: sync_allowed_iff)
next
  case False
  let ?md = "md_of [(''operation'', GString ''pull''), (''push_only'', GBool False)]"
  obtain w1 err where t: "sm_transition en w SyncPulling ?md = (w1, err)" by fastforce
  have ph: "phase w1 SyncPulling" and "err = None"
    using sm_transition_phase [OF assms(2) t] by (simp_all add: sync_allowed_iff)
  then obtain w2 pr e where p: "pull en sops tops w1 = Some (w2, pr, e)"
    and sp: "sync_push en sops tops w2 (merge_pull e pr (new_result s0)) = Some (w', r')"
    using assms(1) False t by (auto simp: sync_body_def bind_eq_Some_conv)
  have c: "same_control w w2"
    using pull_phase [OF p ph] sm_transition_frame [OF t] by (auto intro: same_control_trans)
  consider "phase w2 SyncPulling" | "phase w2 SyncResolvingConflicts"
    using pull_phase [OF p ph] by blast
  then show ?thesis
  proof cases
    case 1
    from sync_push_phase [OF sp this] c False show ?thesis
      by (auto simp: sync_allowed_iff split: if_splits intro: same_control_trans)
  next
    case 2
    from sync_push_phase [OF sp this] c False show ?thesis
      by (auto simp: sync_allowed_iff split: if_splits intro: same_control_trans)
  qed
qed

section \<open>A concrete environment\<close>

text \<open>
  A remote that keeps what it is sent and offers what it is given: the transport with which the properties
  below are shown to be applicable.
\<close>

record loop_remote =
  offered :: "event_with_version list"
  received :: "event_with_version list"

definition loop_ops :: "loop_remote transport_ops" where
  "loop_ops = \<lparr>tr_Push = (\<lambda>t c evs. Some (case c of Some e \<Rightarrow> (t, Some e) | None \<Rightarrow> (t\<lparr>received := received t @ evs\<rparr>, None))),
     tr_Pull = (\<lambda>t c v. Some (t, case c of Some e \<Rightarrow> Inl e | None \<Rightarrow> Inr (offered t))),
     tr_GetLatestVersion = (\<lambda>t c. Some (t, case c of Some e \<Rightarrow> Inl e | None \<Rightarrow> Inr (Some (IntegerCursor 0)))),
     tr_Close = (\<lambda>t. Some (t, None))\<rparr>"

definition sample_env :: env where
  "sample_env = \<lparr>now_at = int, id_at = (\<lambda>k. ''id''), done_at = (\<lambda>k. None), expired_at = (\<lambda>k. False),
     proj_at = (\<lambda>k. RunnerCompleted), rfc3339 = (\<lambda>t. ''t''), fmt_duration = (\<lambda>d. ''d'')\<rparr>"

definition sample_event :: "string \<Rightarrow> event" where
  "sample_event i = New_event 0 i ''Created'' ''agg'' []"

definition sample_manager :: "sync_options \<Rightarrow> (mem_store, loop_remote) manager" where
  "sample_manager opts = NewSyncManager 0 0 New_store
     \<lparr>offered = [\<lparr>ev_Event = Some (sample_event ''e1''), ev_Version = Some (IntegerCursor 7)\<rparr>], received = []\<rparr>
     (Some opts) GNil None"

lemma NewSyncManager_phase:
  "phase (NewSyncManager now hooks s t opts lg pc) SyncIdle" "\<not> mg_closed (NewSyncManager now hooks s t opts lg pc)"
proof -
  obtain m where "NewSyncStateMachine now = Inr (m, [])" "m_state m = SyncIdle" "sync_machine_ok m"
    using NewSyncStateMachine_result [of now] by blast
  then show "phase (NewSyncManager now hooks s t opts lg pc) SyncIdle"
    by (auto simp: phase_def NewSyncManager_def createSyncStateMachine_def Subscribe_def fixed_rules_def Let_def)
  show "\<not> mg_closed (NewSyncManager now hooks s t opts lg pc)" by (simp add: NewSyncManager_def Let_def)
qed

lemma sample_manager_phase: "phase (sample_manager opts) SyncIdle" "\<not> mg_closed (sample_manager opts)"
  by (simp_all add: sample_manager_def NewSyncManager_phase)

lemma sample_sync_runs: "(case Sync sample_env memstore_ops loop_ops (sample_manager default_options) of
    None \<Rightarrow> False | Some (w, r) \<Rightarrow> EventsPulled (projr r) = 1 \<and> length (received (mg_transport w)) = 1)"
  by code_simp

section \<open>Properties of Sync\<close>

text \<open>
  C1: unless the options are both push-only and pull-only, an accepted \<open>Sync\<close> always brings the state
  machine back to idle, whatever the store, the transport, the resolver and the context do and
  however many errors are collected, so the next \<open>Sync\<close> is accepted again; it returns a result and
  no error, and leaves the manager's configuration alone.
\<close>

theorem Sync_returns_to_idle:
  assumes "phase w SyncIdle" and "\<not> mg_closed w"
    and "\<not> (PushOnly (mg_options w) \<and> PullOnly (mg_options w))"
    and "Sync en sops tops w = Some (w', res)"
  shows "phase w' SyncIdle \<and> (\<exists>r. res = Inr r) \<and> same_control w w'"
proof -
  obtain w1 w2 r1 start s0 where w1: "same_control w w1" "phase w1 SyncInitializing"
    and b: "sync_body en sops tops w1 (new_result s0) = Some (w2, r1)"
    and f: "sync_finish en start w2 r1 = (w', projr res)" and res: "isl res = False"
    using Sync_accepted [OF assms(4,1,2)] by metis
  have "phase w2 SyncPushing \<or> phase w2 SyncPulling \<or> phase w2 SyncResolvingConflicts" and c: "same_control w1 w2"
    using sync_body_phase [OF b w1(2)] w1(1) assms(3) by (auto simp: same_control_def)
  then obtain s where s: "phase w2 s" "s \<in> {SyncPushing, SyncPulling, SyncResolvingConflicts}" by blast
  have "phase w' SyncIdle \<and> same_control w2 w'"
    using sync_finish_frame [OF f s(1)] s(2) by (auto simp: sync_allowed_iff Let_def split: if_splits)
  moreover have "\<exists>r. res = Inr r" using res by (cases res) auto
  ultimately show ?thesis using w1(1) c by (blast intro: same_control_trans)
qed

theorem Sync_returns_to_idle_witness:
  "\<exists>w' r. Sync sample_env memstore_ops loop_ops (sample_manager default_options) = Some (w', Inr r) \<and> phase w' SyncIdle"
proof -
  obtain w' res where S: "Sync sample_env memstore_ops loop_ops (sample_manager default_options) = Some (w', res)"
    using sample_sync_runs by (auto split: option.splits)
  have "\<not> (PushOnly (mg_options (sample_manager default_options)) \<and> PullOnly (mg_options (sample_manager default_options)))"
    by (simp add: sample_manager_def NewSyncManager_def default_options_def Let_def)
  from Sync_returns_to_idle [OF sample_manager_phase this S] S show ?thesis by auto
qed

text \<open>
  With both push-only and pull-only set, which \<open>NewSyncManager\<close> accepts, a \<open>Sync\<close> that meets no
  error (neither in the projections nor in reading the final version) reports success without having touched the
  transport and leaves the state machine in the initializing state; from then on every \<open>Sync\<close>
  is rejected with an error.
\<close>

theorem Sync_push_and_pull_only_sticks:
  assumes "phase w SyncIdle" and "\<not> mg_closed w" and "PushOnly (mg_options w)" and "PullOnly (mg_options w)"
    and "Sync en sops tops w = Some (w', Inr r)" and "Errors r = []"
  shows "phase w' SyncInitializing \<and> mg_transport w' = mg_transport w
    \<and> (\<forall>en'. \<exists>err. map_option snd (Sync en' sops tops w') = Some (Inl err))"
proof -
  obtain w1 w2 r1 start s0 where w1: "same_control w w1" "phase w1 SyncInitializing" "mg_transport w1 = mg_transport w"
    and b: "sync_body en sops tops w1 (new_result s0) = Some (w2, r1)"
    and f: "sync_finish en start w2 r1 = (w', r)"
    using Sync_accepted [OF assms(5,1,2)] by (metis sum.sel(2))
  have p2: "phase w2 SyncInitializing" and t2: "mg_transport w2 = mg_transport w"
    using sync_body_phase [OF b w1(2)] w1 assms(3,4) by (auto simp: same_control_def split: if_splits)
  have "r = r1\<lparr>Duration := Duration r\<rparr>" using sync_finish_frame [OF f p2] by blast
  with assms(6) have "Errors r1 = []" by (metis sync_result.select_convs(4) sync_result.surjective sync_result.update_convs(6))
  then have ph: "phase w' SyncInitializing" and "mg_transport w' = mg_transport w"
    using sync_finish_frame [OF f p2] t2 by (auto simp: sync_allowed_iff Let_def)
  moreover have "map_option snd (Sync en' sops tops w') = Some (Inl (if mg_closed w' then err_manager_closed OpSync
      else New_SyncError OpSync (ErrorString ''sync operation already in progress: initializing'')))" for en'
    using ph by (auto simp: phase_def Sync_def CanAutoSync_def Current_def)
  ultimately show ?thesis by blast
qed

text \<open>
  A bidirectional \<open>Sync\<close> that resolves conflicts never pushes. The state machine has no transition from
  resolving conflicts to pushing, so the sync ends as failed with an error, having pushed nothing:
  the transport is left exactly as the pull left it.
\<close>

theorem conflicts_prevent_push:
  assumes "phase w SyncIdle" and "\<not> mg_closed w" and "\<not> PullOnly (mg_options w)"
    and "Sync en sops tops w = Some (w', Inr r)" and "ConflictsResolved r > 0"
  shows "Errors r \<noteq> [] \<and> EventsPushed r = 0
    \<and> (\<exists>w1 w2 pr. pull en sops tops w1 = Some (w2, pr, None) \<and> mg_transport w1 = mg_transport w
         \<and> ConflictsResolved pr = ConflictsResolved r \<and> mg_transport w' = mg_transport w2)"
proof -
  obtain w1 w2 r1 start s0 where w1: "same_control w w1" "phase w1 SyncInitializing" "mg_transport w1 = mg_transport w"
    and b: "sync_body en sops tops w1 (new_result s0) = Some (w2, r1)"
    and f: "sync_finish en start w2 r1 = (w', r)"
    using Sync_accepted [OF assms(4,1,2)] by (metis sum.sel(2))
  obtain s where "phase w2 s" using sync_body_phase [OF b w1(2)] by (auto split: if_splits)
  from sync_finish_frame [OF f this] have t': "mg_transport w' = mg_transport w2" and r: "r = r1\<lparr>Duration := Duration r\<rparr>"
    by simp_all
  have r1: "Errors r = Errors r1" "EventsPushed r = EventsPushed r1" "ConflictsResolved r = ConflictsResolved r1"
    using arg_cong [OF r, of Errors] arg_cong [OF r, of EventsPushed] arg_cong [OF r, of ConflictsResolved] by simp_all
  have pull_only: "\<not> PullOnly (mg_options w1)" using w1(1) assms(3) by (simp add: same_control_def)
  show ?thesis
  proof (cases "PushOnly (mg_options w1)")
    case True
    then have "sync_push en sops tops w1 (new_result s0) = Some (w2, r1)" using b by (simp add: sync_body_def)
    then have "ConflictsResolved r1 = 0" using sync_push_conflicts by fastforce
    with r1 assms(5) show ?thesis by simp
  next
    case False
    let ?md = "md_of [(''operation'', GString ''pull''), (''push_only'', GBool False)]"
    obtain v err where t: "sm_transition en w1 SyncPulling ?md = (v, err)" by fastforce
    have ph: "phase v SyncPulling" and "err = None" and tv: "mg_transport v = mg_transport w"
      using sm_transition_phase [OF w1(2) t] sm_transition_frame [OF t] w1(3) by (simp_all add: sync_allowed_iff)
    then obtain w3 pr e where p: "pull en sops tops v = Some (w3, pr, e)"
      and sp: "sync_push en sops tops w3 (merge_pull e pr (new_result s0)) = Some (w2, r1)"
      using b False t by (auto simp: sync_body_def bind_eq_Some_conv)
    have "ConflictsResolved r1 = (if e = None then ConflictsResolved pr else 0)" using sync_push_conflicts [OF sp] by simp
    with r1 assms(5) have e: "e = None" and pos: "ConflictsResolved pr = ConflictsResolved r" "ConflictsResolved pr > 0"
      by (auto split: if_splits)
    with pull_phase [OF p ph] have ph3: "phase w3 SyncResolvingConflicts" and c3: "same_control v w3" by auto
    moreover have "\<not> PullOnly (mg_options w3)"
      using c3 sm_transition_frame [OF t] pull_only by (simp add: same_control_def)
    ultimately show ?thesis
      using sync_push_phase [OF sp ph3] r1 e t' p tv pos by (auto simp: sync_allowed_iff)
  qed
qed

text \<open>
  A store that reports version 0 as its latest however much it holds: with it a pull does load
  local events to compare with.
\<close>

definition lagging_ops :: "event_with_version list store_ops" where
  "lagging_ops = \<lparr>st_Store = (\<lambda>s c e v. Some (s @ [\<lparr>ev_Event = e, ev_Version = v\<rparr>], None)),
     st_Load = (\<lambda>s c v. Some (Inr s)), st_LoadByAggregate = (\<lambda>s c a v. Some (Inr [])),
     st_LatestVersion = (\<lambda>s c. Some (Inr (Some (IntegerCursor 0)))), st_ParseVersion = (\<lambda>s c txt. Some (Inr None)),
     st_Close = (\<lambda>s. Some (s, None))\<rparr>"

definition at_version :: "string \<Rightarrow> u64 \<Rightarrow> event_with_version" where
  "at_version i v = \<lparr>ev_Event = Some (sample_event i), ev_Version = Some (IntegerCursor v)\<rparr>"

definition other_event :: event_with_version where
  "other_event = \<lparr>ev_Event = Some (New_event 0 ''x'' ''Created'' ''elsewhere'' []), ev_Version = Some (IntegerCursor 9)\<rparr>"

definition conflict_manager :: "(event_with_version list, loop_remote) manager" where
  "conflict_manager = NewSyncManager 0 0 [at_version ''mine'' 3]
     \<lparr>offered = [at_version ''theirs'' 5, other_event], received = []\<rparr> None GNil None"

lemma conflict_sync_runs:
  "(case Sync sample_env lagging_ops loop_ops conflict_manager of
      Some (w, Inr r) \<Rightarrow> ConflictsResolved r = 1 \<and> length (received (mg_transport w)) = 0 | _ \<Rightarrow> False)"
  by code_simp

theorem conflicts_prevent_push_witness:
  "\<exists>w' r. Sync sample_env lagging_ops loop_ops conflict_manager = Some (w', Inr r)
     \<and> ConflictsResolved r = 1 \<and> Errors r \<noteq> [] \<and> EventsPushed r = 0"
proof -
  obtain w' res where S': "Sync sample_env lagging_ops loop_ops conflict_manager = Some (w', res)"
    using conflict_sync_runs by (auto split: option.splits)
  then obtain r where S: "Sync sample_env lagging_ops loop_ops conflict_manager = Some (w', Inr r)"
    and c: "ConflictsResolved r = 1"
    using conflict_sync_runs by (cases res) auto
  have "phase conflict_manager SyncIdle" "\<not> mg_closed conflict_manager"
    by (simp_all add: conflict_manager_def NewSyncManager_phase)
  moreover have "\<not> PullOnly (mg_options conflict_manager)"
    by (simp add: conflict_manager_def NewSyncManager_def default_options_def Let_def)
  ultimately show ?thesis
    using conflicts_prevent_push [OF _ _ _ S] S c by auto
qed

section \<open>What a pull stores\<close>

context event_store
begin

lemma stores_log:
  "stores ops s evs s' \<Longrightarrow> inv k s \<Longrightarrow> length evs \<le> k \<Longrightarrow>
     \<exists>new. seen s' = seen s @ new
       \<and> list_all2 (\<lambda>ev e'. \<exists>e. ev_Event ev = Some e \<and> same_payload e e') evs new"
proof (induction arbitrary: k rule: stores.induct)
  case (none s)
  then show ?case by simp
next
  case (one s c ev s' evs s'')
  obtain e where e: "ev_Event ev = Some e"
    using one.hyps(1) store_nil by (cases "ev_Event ev") auto
  obtain k' where k': "k = Suc k'" using one.prems(2) by (cases k) auto
  obtain e' where s': "inv k' s'" "same_payload e e'" "seen s' = seen s @ [e']"
    using store_appends [of k' s c e "ev_Version ev" s'] one.hyps(1) one.prems(1) e k' by auto
  obtain new where "seen s'' = seen s' @ new"
    "list_all2 (\<lambda>ev e'. \<exists>e. ev_Event ev = Some e \<and> same_payload e e') evs new"
    using one.IH [OF s'(1)] one.prems(2) k' by auto
  with s' e show ?case by (intro exI [of _ "e' # new"]) auto
qed

text \<open>Loading since the version just read finds nothing, so the conflict stage only stores.\<close>

lemma pull_conflicts_stores:
  assumes "inv k (mg_store w)" and "st_LatestVersion ops (mg_store w) c = Some (Inr lv)"
    and "pull_conflicts en ops lv evs w r = Some (w', r', e)"
  shows "(\<exists>w1. mg_store w1 = mg_store w \<and> pull_store en ops evs w1 r = Some (w', r', e))
    \<or> (e \<noteq> None \<and> r' = r \<and> mg_store w' = mg_store w)"
proof (cases "ConflictResolver (mg_options w)")
  case None
  then show ?thesis using assms(3) by (auto simp: pull_conflicts_def)
next
  case (Some rv)
  then obtain l where l: "st_Load ops (mg_store w) (op_err en w) lv = Some l"
    using assms(3) by (auto simp: pull_conflicts_def bind_eq_Some_conv)
  show ?thesis
  proof (cases l)
    case (Inl err)
    with assms(3) Some l show ?thesis by (auto simp: pull_conflicts_def Let_def split: if_splits)
  next
    case (Inr locals)
    then have "locals = []" using nothing_after_latest [OF assms(1,2)] l by blast
    with assms(3) Some l Inr have "pull_store en ops evs (tick w) r = Some (w', r', e)"
      by (simp add: pull_conflicts_def Let_def)
    then show ?thesis by (intro disjI1 exI [of _ "tick w"]) simp
  qed
qed

lemma pull_never_resolves:
  assumes "inv k (mg_store w)" and "pull en ops tops w = Some (w', r, e)"
  shows "ConflictsResolved r = 0 \<and> (e = None \<longrightarrow> EventsPulled r \<le> int k \<longrightarrow>
    (\<exists>c c' v t' evs evs' new. st_LatestVersion ops (mg_store w) c = Some (Inr v)
       \<and> tr_Pull tops (mg_transport w) c' v = Some (t', Inr evs) \<and> apply_filter (mg_options w) evs = Some evs'
       \<and> EventsPulled r = int (length evs') \<and> seen (mg_store w') = seen (mg_store w) @ new
       \<and> list_all2 (\<lambda>ev e'. \<exists>e. ev_Event ev = Some e \<and> same_payload e e') evs' new))"
proof -
  let ?w = "tick (tick w)" and ?r = "new_result (time_Now en (tick w))"
  obtain w1 r1 where b: "pull_body en ops tops ?w ?r = Some (w1, r1, e)"
    and r: "mg_store w' = mg_store w1" "ConflictsResolved r = ConflictsResolved r1" "EventsPulled r = EventsPulled r1"
    using assms(2) by (auto simp: pull_def pull_finish_def Let_def)
  obtain v where v: "st_LatestVersion ops (mg_store w) (ctx_err en ?w) = Some v"
    using b by (auto simp: pull_body_def bind_eq_Some_conv)
  show ?thesis
  proof (cases v)
    case (Inl err)
    with b v r show ?thesis by (auto simp: pull_body_def Let_def)
  next
    case (Inr lv)
    obtain t' res where p: "tr_Pull tops (mg_transport w) (op_err en (tick ?w)) lv = Some (t', res)"
      using b v Inr by (auto simp: pull_body_def Let_def bind_eq_Some_conv)
    let ?w2 = "tick ((tick ?w)\<lparr>mg_transport := t'\<rparr>)"
    show ?thesis
    proof (cases res)
      case (Inl err)
      with b v Inr p r show ?thesis by (auto simp: pull_body_def Let_def)
    next
      case evs: (Inr evs)
      have "\<exists>evs'. apply_filter (mg_options w) evs = Some evs' \<and> ConflictsResolved r1 = 0 \<and>
        (e = None \<longrightarrow> stores ops (mg_store w) evs' (mg_store w1) \<and> EventsPulled r1 = int (length evs'))"
      proof (cases "evs = []")
        case True
        with b v Inr p evs show ?thesis by (auto simp: pull_body_def Let_def)
      next
        case False
        then obtain evs' where f: "apply_filter (mg_options w) evs = Some evs'"
          and pc: "pull_conflicts en ops lv evs' ?w2 ?r = Some (w1, r1, e)"
          using b v Inr p evs by (auto simp: pull_body_def Let_def bind_eq_Some_conv)
        have "inv k (mg_store ?w2)" "st_LatestVersion ops (mg_store ?w2) (ctx_err en ?w) = Some (Inr lv)"
          using assms(1) v Inr by simp_all
        from pull_conflicts_stores [OF this pc] consider
          (st) w3 where "mg_store w3 = mg_store w" "pull_store en ops evs' w3 ?r = Some (w1, r1, e)"
          | (fail) "e \<noteq> None" "r1 = ?r" by auto
        then show ?thesis
        proof cases
          case st
          from pull_store_frame [OF st(2)] obtain kept_evs where
            "stored en ops evs' (mg_store w3) (mg_store w1) e kept_evs" "EventsPulled r1 = int (length kept_evs)"
            "ConflictsResolved r1 = 0" by auto
          with f st(1) show ?thesis by (auto simp: stored_def)
        next
          case fail
          with f show ?thesis by auto
        qed
      qed
      then obtain evs' where f: "apply_filter (mg_options w) evs = Some evs'" and z: "ConflictsResolved r1 = 0"
        and s: "e = None \<Longrightarrow> stores ops (mg_store w) evs' (mg_store w1) \<and> EventsPulled r1 = int (length evs')"
        by auto
      show ?thesis
      proof (intro conjI impI)
        show "ConflictsResolved r = 0" using z r by simp
        assume "e = None" "EventsPulled r \<le> int k"
        with s r have st: "stores ops (mg_store w) evs' (mg_store w1)" and len: "length evs' \<le> k"
          and n: "EventsPulled r = int (length evs')" by auto
        from stores_log [OF st assms(1) len] r(1) v Inr p evs f n
        show "\<exists>c c' v t' evs evs' new. st_LatestVersion ops (mg_store w) c = Some (Inr v)
           \<and> tr_Pull tops (mg_transport w) c' v = Some (t', Inr evs) \<and> apply_filter (mg_options w) evs = Some evs'
           \<and> EventsPulled r = int (length evs') \<and> seen (mg_store w') = seen (mg_store w) @ new
           \<and> list_all2 (\<lambda>ev e'. \<exists>e. ev_Event ev = Some e \<and> same_payload e e') evs' new"
          by (metis (no_types, lifting))
      qed
    qed
  qed
qed

end

text \<open>
  C7: over the memory store a pull never resolves a conflict: it looks for local events after the
  store's own latest version, and there are none, so the configured resolver is never consulted. A pull that
  succeeds stores every remote event that passes the filter, once, in order, with
  its identifier, type and aggregate, and reports their number.
\<close>

theorem memstore_pull_stores_everything:
  assumes "memstore_room k (mg_store w)" and "pull en memstore_ops tops w = Some (w', r, e)"
  shows "ConflictsResolved r = 0 \<and> (e = None \<longrightarrow> EventsPulled r \<le> int k \<longrightarrow>
    (\<exists>c c' v t' evs evs' new. st_LatestVersion memstore_ops (mg_store w) c = Some (Inr v)
       \<and> tr_Pull tops (mg_transport w) c' v = Some (t', Inr evs) \<and> apply_filter (mg_options w) evs = Some evs'
       \<and> EventsPulled r = int (length evs') \<and> store_log (mg_store w') = store_log (mg_store w) @ new
       \<and> list_all2 (\<lambda>ev e'. \<exists>e. ev_Event ev = Some e \<and> same_payload e e') evs' new))"
  using assms by (rule ms.pull_never_resolves)

lemma sample_pull_runs: "(case pull sample_env memstore_ops loop_ops (sample_manager default_options) of
    Some (w, r, None) \<Rightarrow> EventsPulled r = 1 | _ \<Rightarrow> False)"
  by code_simp

theorem memstore_pull_stores_everything_witness:
  "\<exists>w' r new. pull sample_env memstore_ops loop_ops (sample_manager default_options) = Some (w', r, None)
     \<and> ConflictsResolved r = 0 \<and> store_log (mg_store w') = new \<and> length new = 1"
proof -
  obtain w' r e where S: "pull sample_env memstore_ops loop_ops (sample_manager default_options) = Some (w', r, e)"
    using sample_pull_runs by (auto split: option.splits)
  with sample_pull_runs have e: "e = None" and n: "EventsPulled r = 1" by (cases e; simp)+
  have room: "memstore_room 1 (mg_store (sample_manager default_options))"
    using store_inv_New by (simp add: memstore_room_def sample_manager_def NewSyncManager_def New_store_def Let_def)
  have log: "store_log (mg_store (sample_manager default_options)) = []"
    by (simp add: store_log_def sample_manager_def NewSyncManager_def New_store_def Let_def)
  from memstore_pull_stores_everything [OF room S] e n
  obtain evs' :: "event_with_version list" and new where "length evs' = 1" and m: "store_log (mg_store w') = [] @ new"
    and "list_all2 (\<lambda>ev e'. \<exists>e. ev_Event ev = Some e \<and> same_payload e e') evs' new" and "ConflictsResolved r = 0"
    unfolding log by auto
  then have "ConflictsResolved r = 0 \<and> store_log (mg_store w') = new \<and> length new = 1"
    by (auto dest: list_all2_lengthD)
  with S e show ?thesis by blast
qed

section \<open>What a push delivers\<close>


lemma sample_push_runs: "(case push sample_env lagging_ops loop_ops
     (conflict_manager\<lparr>mg_store := [at_version ''a'' 1, at_version ''b'' 2, at_version ''c'' 3],
        mg_options := default_options\<lparr>BatchSize := 2\<rparr>\<rparr>) of
    Some (w, r, None) \<Rightarrow> EventsPushed r = 3 \<and> length (received (mg_transport w)) = 3 | _ \<Rightarrow> False)"
  by code_simp


end
