(* ===== verification/Sync_Outcomes.thy ===== *)
theory Sync_Outcomes
  imports Sync_Properties
begin

text \<open>
  Further properties of the sync manager: the latest version of the pulled events, which
  conflicts are detected and what becomes of the events around them, that wrapped errors are
  never retried, how often an operation is retried, and what closing the manager does.
\<close>

section \<open>The latest version\<close>

definition versioned :: "event_with_version \<Rightarrow> bool" where
  "versioned ev \<longleftrightarrow> (\<exists>v. ev_Version ev = Some v \<and> proper v)"

definition the_version :: "event_with_version \<Rightarrow> version" where
  "the_version ev = the (ev_Version ev)"

lemma versioned_Some: "versioned ev \<Longrightarrow> ev_Version ev = Some (the_version ev) \<and> proper (the_version ev)"
  by (auto simp: versioned_def the_version_def)

lemma latest_loop_fold:
  "\<forall>ev \<in> set evs. versioned ev \<Longrightarrow> latest_loop (Some v) evs = Some (Some (foldl vo.keep_later v (map the_version evs)))"
  by (induction evs arbitrary: v)
    (auto simp: iface_Compare_def Compare_proper vo.keep_later_def dest!: versioned_Some)

text \<open>
  For events that carry versions, \<open>findLatestVersion\<close> returns the version of one of the events, and no
  event of the list has a version after it, also when some versions are concurrent or of
  different kinds.
\<close>

theorem findLatestVersion_maximal:
  assumes "evs \<noteq> []" and "\<forall>ev \<in> set evs. versioned ev"
  shows "\<exists>v. findLatestVersion evs = Some (Some v) \<and> v \<in> the_version ` set evs
    \<and> (\<forall>ev \<in> set evs. \<exists>c. iface_Compare (ev_Version ev) (Some v) = Some c \<and> \<not> c > 0)"
proof -
  obtain ev rest where evs: "evs = ev # rest" using assms(1) by (cases evs) auto
  let ?v = "foldl vo.keep_later (the_version ev) (map the_version rest)"
  have p: "proper (the_version ev)" "\<forall>v \<in> set (map the_version rest). proper v"
    using assms(2) evs versioned_Some by auto
  have "findLatestVersion evs = Some (Some ?v)"
    using assms(2) evs latest_loop_fold [of rest] versioned_Some by (simp add: findLatestVersion_def)
  moreover have mem: "?v \<in> insert (the_version ev) (set (map the_version rest))" by (rule vo.keep_later_mem)
  moreover have "iface_Compare (ev_Version e) (Some ?v) = Some (vcmp (the_version e) ?v) \<and> \<not> vcmp (the_version e) ?v > 0"
    if "e \<in> set evs" for e
    using that assms(2) evs versioned_Some [of e] vo.keep_later_maximal [OF p, of "the_version e"]
    by (auto simp: iface_Compare_def Compare_proper)
  ultimately show ?thesis using evs by (intro exI [of _ ?v]) auto
qed

theorem findLatestVersion_maximal_witness:
  "\<exists>v. findLatestVersion [at_version ''a'' 2, at_version ''b'' 5, at_version ''c'' 3] = Some (Some v)
     \<and> (\<exists>c. iface_Compare (Some (IntegerCursor 5)) (Some v) = Some c \<and> \<not> c > 0)"
  using findLatestVersion_maximal [of "[at_version ''a'' 2, at_version ''b'' 5, at_version ''c'' 3]"]
  by (auto simp: versioned_def at_version_def)

section \<open>Detected conflicts\<close>

definition full :: "event_with_version \<Rightarrow> bool" where
  "full ev \<longleftrightarrow> ev_Event ev \<noteq> None \<and> versioned ev"

definition key_of :: "event_with_version \<Rightarrow> string" where
  "key_of ev = conflict_key (the (ev_Event ev))"

definition in_conflict :: "event_with_version \<Rightarrow> event_with_version \<Rightarrow> bool" where
  "in_conflict l r \<longleftrightarrow> key_of l = key_of r \<and> vcmp (the_version l) (the_version r) \<noteq> 0"

lemma Version_String_proper: "proper v \<Longrightarrow> \<exists>s. Version_String v = Some s"
  by (cases v rule: Version_String.cases) auto

lemma make_conflict_full:
  assumes "full l" and "full r"
  shows "\<exists>cs. make_conflict l r = Some cs \<and>
    map (\<lambda>c. (cf_Local c, cf_Remote c)) cs = (if vcmp (the_version l) (the_version r) \<noteq> 0 then [(l, r)] else [])"
proof -
  obtain le re where e: "ev_Event l = Some le" "ev_Event r = Some re" using assms by (auto simp: full_def)
  have v: "ev_Version l = Some (the_version l)" "proper (the_version l)"
    "ev_Version r = Some (the_version r)" "proper (the_version r)"
    using assms versioned_Some by (auto simp: full_def)
  obtain ls rs where "Version_String (the_version l) = Some ls" "Version_String (the_version r) = Some rs"
    using Version_String_proper v by blast
  with e v show ?thesis
    by (auto simp: make_conflict_def iface_Compare_def iface_String_def Compare_proper)
qed

lemma conflicts_with_full:
  assumes "\<forall>l \<in> set ls. full l" and "full r"
  shows "\<exists>cs. conflicts_with ls r = Some cs \<and>
    map (\<lambda>c. (cf_Local c, cf_Remote c)) cs
      = map (\<lambda>l. (l, r)) (filter (\<lambda>l. vcmp (the_version l) (the_version r) \<noteq> 0) ls)"
  using assms(1)
proof (induction ls)
  case (Cons l ls)
  then obtain cs where "conflicts_with ls r = Some cs" "map (\<lambda>c. (cf_Local c, cf_Remote c)) cs
      = map (\<lambda>l. (l, r)) (filter (\<lambda>l. vcmp (the_version l) (the_version r) \<noteq> 0) ls)" by auto
  with make_conflict_full [of l r] Cons.prems assms(2) show ?case by fastforce
qed simp

lemma local_by_key_full:
  assumes "\<forall>l \<in> set ls. full l"
  shows "\<exists>m'. local_by_key ls m = Some m' \<and> (\<forall>k. (case fmlookup m' k of None \<Rightarrow> [] | Some xs \<Rightarrow> xs) =
    (case fmlookup m k of None \<Rightarrow> [] | Some xs \<Rightarrow> xs) @ filter (\<lambda>l. key_of l = k) ls)"
  using assms
proof (induction ls arbitrary: m)
  case (Cons l ls)
  obtain le where "ev_Event l = Some le" using Cons.prems by (auto simp: full_def)
  then show ?case
    using Cons.IH [of "fmupd (conflict_key le) ((case fmlookup m (conflict_key le) of None \<Rightarrow> [] | Some xs \<Rightarrow> xs) @ [l]) m"]
      Cons.prems by (auto simp: key_of_def Let_def)
qed simp

lemma conflicts_loop_full:
  assumes "\<forall>r \<in> set rs. full r" and "\<forall>l \<in> set ls. full l"
    and "\<forall>k. (case fmlookup m k of None \<Rightarrow> [] | Some xs \<Rightarrow> xs) = filter (\<lambda>l. key_of l = k) ls"
  shows "\<exists>cs. conflicts_loop m rs = Some cs \<and> map (\<lambda>c. (cf_Local c, cf_Remote c)) cs
    = concat (map (\<lambda>r. map (\<lambda>l. (l, r)) (filter (\<lambda>l. in_conflict l r) ls)) rs)"
  using assms(1)
proof (induction rs)
  case (Cons r rs)
  obtain re where re: "ev_Event r = Some re" using Cons.prems by (auto simp: full_def)
  let ?ls = "filter (\<lambda>l. key_of l = key_of r) ls"
  have k: "(case fmlookup m (conflict_key re) of None \<Rightarrow> [] | Some xs \<Rightarrow> xs) = ?ls"
    using assms(3) re by (simp add: key_of_def)
  obtain cs where cs: "conflicts_with ?ls r = Some cs" "map (\<lambda>c. (cf_Local c, cf_Remote c)) cs
      = map (\<lambda>l. (l, r)) (filter (\<lambda>l. vcmp (the_version l) (the_version r) \<noteq> 0) ?ls)"
    using conflicts_with_full [of ?ls r] Cons.prems assms(2) by auto
  have "(case fmlookup m (conflict_key re) of None \<Rightarrow> Some [] | Some ls \<Rightarrow> conflicts_with ls r) = Some cs"
    using k cs by (auto split: option.splits)
  moreover have "filter (\<lambda>l. vcmp (the_version l) (the_version r) \<noteq> 0) ?ls = filter (\<lambda>l. in_conflict l r) ls"
    by (simp add: in_conflict_def)
  ultimately show ?case using Cons re cs by auto
qed simp



text \<open>
  When conflicts are found, what the pull stores is only what the resolver returned for them. The
  remote events that are in no conflict are not stored: in the example the remote offers one
  event in conflict and one for an aggregate the local store knows nothing about, and the latter is lost.
\<close>

theorem conflicting_pull_stores_only_resolutions:
  fixes w w' :: "('s, 't) manager"
  assumes "pull_conflicts en sops lv evs w r = Some (w', r', None)" and "ConflictsResolved r = 0"
    and "ConflictsResolved r' > 0"
  shows "\<exists>rv c locals cs (w1 :: ('s, 't) manager) w2 resolved. ConflictResolver (mg_options w) = Some rv
    \<and> st_Load sops (mg_store w) c lv = Some (Inr locals) \<and> detectConflicts locals evs = Some cs \<and> cs \<noteq> []
    \<and> resolve_all en rv cs [] w1 = Some (w2, Inr resolved) \<and> stores sops (mg_store w) resolved (mg_store w')
    \<and> EventsPulled r' = EventsPulled r + int (length resolved)"
proof -
  have no_store: "pull_store en sops evs w1 r \<noteq> Some (w', r', None)" for w1
    using pull_store_frame [of en sops evs w1 r w' r' None] assms(2,3) by auto
  obtain rv where rv: "ConflictResolver (mg_options w) = Some rv"
    using assms(1) no_store by (cases "ConflictResolver (mg_options w)") (auto simp: pull_conflicts_def)
  obtain l where l: "st_Load sops (mg_store w) (op_err en w) lv = Some l"
    using assms(1) rv by (auto simp: pull_conflicts_def bind_eq_Some_conv)
  obtain locals where locals: "l = Inr locals"
    using assms(1) rv l by (cases l) (auto simp: pull_conflicts_def Let_def)
  obtain cs where cs: "detectConflicts locals evs = Some cs" "cs \<noteq> []"
    and pr: "pull_resolve en sops rv cs (tick w) r = Some (w', r', None)"
    using assms(1) rv l locals no_store
    by (auto simp: pull_conflicts_def Let_def bind_eq_Some_conv split: if_splits)
  obtain w1 err where t: "sm_transition en (tick w) SyncResolvingConflicts
      (md_of [(''operation'', GString ''conflict_resolution''), (''conflict_count'', GInt_of (int (length cs)))]) = (w1, err)"
    by fastforce
  have w1: "mg_store w1 = mg_store w" using sm_transition_frame [OF t] by simp
  have err: "err = None" and ctx: "ctx_err en w1 = None"
    using pr t assms(2,3) by (auto simp: pull_resolve_def split: option.splits)
  obtain w2 res where res: "resolve_all en rv cs [] (tick w1) = Some (w2, res)"
    using pr t err ctx by (auto simp: pull_resolve_def bind_eq_Some_conv)
  obtain resolved where resolved: "res = Inr resolved"
    using pr t err ctx res by (cases res) (auto simp: pull_resolve_def)
  have ps: "pull_store en sops resolved w2 (r\<lparr>ConflictsResolved := int (length cs)\<rparr>) = Some (w', r', None)"
    using pr t err ctx res resolved by (simp add: pull_resolve_def)
  obtain kept_evs where "stored en sops resolved (mg_store w2) (mg_store w') None kept_evs"
    "EventsPulled r' = EventsPulled r + int (length kept_evs)"
    using pull_store_frame [OF ps] by auto
  then have "stores sops (mg_store w) resolved (mg_store w') \<and> EventsPulled r' = EventsPulled r + int (length resolved)"
    using resolve_all_frame [OF res] w1 by (auto simp: stored_def)
  with rv l locals cs res resolved show ?thesis by blast
qed

definition pulling_manager :: "(event_with_version list, loop_remote) manager" where
  "pulling_manager = fst (sm_transition sample_env (fst (sm_transition sample_env conflict_manager SyncInitializing None))
     SyncPulling None)"

definition outcome_summary ::
  "((event_with_version list, loop_remote) manager \<times> sync_result \<times> go_error option) go \<Rightarrow> (int \<times> string list) option" where
  "outcome_summary x = (case x of
     Some (w, r, None) \<Rightarrow> Some (ConflictsResolved r, map (\<lambda>ev. EventID (the (ev_Event ev))) (mg_store w)) | _ \<Rightarrow> None)"

lemma lost_event_run:
  "outcome_summary (pull_conflicts sample_env lagging_ops (Some (IntegerCursor 0))
     [at_version ''theirs'' 5, other_event] pulling_manager (new_result 0)) = Some (1, [''mine'', ''theirs''])"
  by code_simp

theorem conflicting_pull_stores_only_resolutions_witness:
  "\<exists>w' r'. pull_conflicts sample_env lagging_ops (Some (IntegerCursor 0)) [at_version ''theirs'' 5, other_event]
       pulling_manager (new_result 0) = Some (w', r', None)
     \<and> map (\<lambda>ev. EventID (the (ev_Event ev))) (mg_store w') = [''mine'', ''theirs'']
     \<and> (\<exists>resolved. EventsPulled r' = int (length resolved) \<and> stores lagging_ops (mg_store pulling_manager) resolved (mg_store w'))"
proof -
  obtain w' r' where p: "pull_conflicts sample_env lagging_ops (Some (IntegerCursor 0))
       [at_version ''theirs'' 5, other_event] pulling_manager (new_result 0) = Some (w', r', None)"
    and s: "ConflictsResolved r' = 1" "map (\<lambda>ev. EventID (the (ev_Event ev))) (mg_store w') = [''mine'', ''theirs'']"
    using lost_event_run by (auto simp: outcome_summary_def split: option.splits)
  then show ?thesis
    using conflicting_pull_stores_only_resolutions [OF p] by auto
qed

section \<open>Errors and retrying\<close>

text \<open>What a context reports: it was cancelled or its deadline passed.\<close>

definition plain_context :: "env \<Rightarrow> bool" where
  "plain_context en \<longleftrightarrow> (\<forall>k e. done_at en k = Some e \<longrightarrow> e = Canceled \<or> e = DeadlineExceeded)"

definition wrapped_or_context :: "env \<Rightarrow> go_error \<Rightarrow> bool" where
  "wrapped_or_context en e \<longleftrightarrow> (\<exists>op cm x. e = NewWithComponent op cm x) \<or> (\<exists>k. done_at en k = Some e)"

lemma wrapped_not_retryable: "plain_context en \<Longrightarrow> wrapped_or_context en e \<Longrightarrow> \<not> IsRetryable (Some e)"
  unfolding plain_context_def wrapped_or_context_def
  by (elim disjE exE) (simp_all add: NewWithComponent_def, force simp: IsRetryable_def)

lemma delivered_error: "delivered en tops bs evs t t' (Some e) batches \<Longrightarrow> wrapped_or_context en e"
  by (auto simp: delivered_def wrapped_or_context_def)

lemma push_error:
  assumes "push en sops tops w = Some (w', r, Some e)"
  shows "wrapped_or_context en e"
proof -
  from push_cases [OF assms] obtain c t1 res where
    "case res of
         Inl err \<Rightarrow> Some e = Some (NewWithComponent OpPush ''transport'' err) \<and> EventsPushed r = 0 \<and> mg_transport w' = t1
       | Inr rv \<Rightarrow> (\<exists>c' l. st_Load sops (mg_store w) c' rv = Some l \<and>
          (case l of
             Inl err \<Rightarrow> Some e = Some (NewWithComponent OpLoad ''store'' err) \<and> EventsPushed r = 0 \<and> mg_transport w' = t1
           | Inr evs \<Rightarrow> (\<exists>evs' batches. apply_filter (mg_options w) evs = Some evs' \<and>
               delivered en tops (batch_size (mg_options w)) evs' t1 (mg_transport w') (Some e) batches \<and>
               EventsPushed r = int (length (concat batches)))))"
    unfolding push_outcome_def by blast
  then show ?thesis
  proof (cases res)
    case (Inl x)
    then show ?thesis using \<open>case res of Inl _ \<Rightarrow> _ | Inr _ \<Rightarrow> _\<close> by (auto simp: wrapped_or_context_def)
  next
    case (Inr rv)
    with \<open>case res of Inl _ \<Rightarrow> _ | Inr _ \<Rightarrow> _\<close> obtain l where "case l of
             Inl err \<Rightarrow> Some e = Some (NewWithComponent OpLoad ''store'' err) \<and> EventsPushed r = 0 \<and> mg_transport w' = t1
           | Inr evs \<Rightarrow> (\<exists>evs' batches. apply_filter (mg_options w) evs = Some evs' \<and>
               delivered en tops (batch_size (mg_options w)) evs' t1 (mg_transport w') (Some e) batches \<and>
               EventsPushed r = int (length (concat batches)))" by auto
    then show ?thesis
      by (cases l) (auto simp: wrapped_or_context_def [of _ "NewWithComponent _ _ _"] intro: delivered_error)
  qed
qed

lemma resolve_all_error: "resolve_all en rv cs acc w = Some (w', Inl e) \<Longrightarrow> \<exists>op cm x. e = NewWithComponent op cm x"
proof (induction cs arbitrary: acc w)
  case (Cons c cs)
  then obtain r where "rv (ctx_err en w) c = Some r" by (auto simp: bind_eq_Some_conv)
  with Cons show ?case by (cases r) (auto simp: Let_def)
qed simp

lemma pull_store_error: "pull_store en sops evs w r = Some (w', r', Some e) \<Longrightarrow> wrapped_or_context en e"
  using pull_store_frame [of en sops evs w r w' r' "Some e"] by (auto simp: stored_def wrapped_or_context_def)

lemma pull_resolve_error:
  assumes "pull_resolve en sops rv cs w r = Some (w', r', Some e)"
  shows "wrapped_or_context en e"
proof -
  obtain w1 err where t: "sm_transition en w SyncResolvingConflicts
      (md_of [(''operation'', GString ''conflict_resolution''), (''conflict_count'', GInt_of (int (length cs)))]) = (w1, err)"
    by fastforce
  show ?thesis
  proof (cases "err = None \<and> ctx_err en w1 = None")
    case False
    with assms t show ?thesis
      by (auto simp: pull_resolve_def wrapped_or_context_def split: option.splits)
  next
    case True
    then obtain w2 res where res: "resolve_all en rv cs [] (tick w1) = Some (w2, res)"
      using assms t by (auto simp: pull_resolve_def bind_eq_Some_conv)
    show ?thesis
    proof (cases res)
      case (Inl x)
      with assms t True res resolve_all_error [of en rv cs "[]" "tick w1" w2 x] show ?thesis
        by (auto simp: pull_resolve_def wrapped_or_context_def)
    next
      case (Inr resolved)
      with assms t True res show ?thesis by (auto simp: pull_resolve_def intro: pull_store_error)
    qed
  qed
qed

lemma pull_conflicts_error:
  assumes "pull_conflicts en sops lv evs w r = Some (w', r', Some e)"
  shows "wrapped_or_context en e"
proof (cases "ConflictResolver (mg_options w)")
  case None
  with assms show ?thesis by (auto simp: pull_conflicts_def intro: pull_store_error)
next
  case (Some rv)
  then obtain l where "st_Load sops (mg_store w) (op_err en w) lv = Some l"
    using assms by (auto simp: pull_conflicts_def bind_eq_Some_conv)
  with assms Some show ?thesis
    by (cases l) (auto simp: pull_conflicts_def Let_def bind_eq_Some_conv wrapped_or_context_def
        split: if_splits dest: pull_store_error pull_resolve_error)
qed

lemma pull_error:
  assumes "pull en sops tops w = Some (w', r, Some e)"
  shows "wrapped_or_context en e"
proof -
  obtain w1 r1 where b: "pull_body en sops tops (tick (tick w)) (new_result (time_Now en (tick w))) = Some (w1, r1, Some e)"
    using assms by (auto simp: pull_def pull_finish_def Let_def)
  obtain v where v: "st_LatestVersion sops (mg_store w) (ctx_err en (tick (tick w))) = Some v"
    using b by (auto simp: pull_body_def bind_eq_Some_conv)
  show ?thesis
  proof (cases v)
    case (Inl x)
    with b v show ?thesis by (auto simp: pull_body_def wrapped_or_context_def)
  next
    case (Inr lv)
    obtain t' res where "tr_Pull tops (mg_transport w) (op_err en (tick (tick (tick w)))) lv = Some (t', res)"
      using b v Inr by (auto simp: pull_body_def Let_def bind_eq_Some_conv)
    with b v Inr show ?thesis
      by (cases res) (auto simp: pull_body_def Let_def bind_eq_Some_conv wrapped_or_context_def
          split: if_splits dest: pull_conflicts_error)
  qed
qed

text \<open>
  \<open>push\<close> and \<open>pull\<close> wrap every error of the store, the transport and the resolver so that it is no longer
  retryable, even a network error that was created as retryable; so \<open>syncWithRetry\<close> around a push or a
  pull never makes a second attempt, whatever its configuration.
\<close>

theorem push_and_pull_are_never_retried:
  fixes w :: "('s, 't) manager"
  assumes "plain_context en"
  shows "syncWithRetry rc interrupted (\<lambda>w. map_option (\<lambda>(w', r, e). (w', e)) (push en sops tops w)) w
      = map_option (\<lambda>(w', r, e). (w', e)) (push en sops tops w)
    \<and> syncWithRetry rc interrupted (\<lambda>w. map_option (\<lambda>(w', r, e). (w', e)) (pull en sops tops w)) w
      = map_option (\<lambda>(w', r, e). (w', e)) (pull en sops tops w)"
proof -
  have once: "syncWithRetry rc interrupted f w = f w"
    if "\<And>w' e. f w = Some (w', Some e) \<Longrightarrow> \<not> IsRetryable (Some e)" for f :: "('s, 't) manager \<Rightarrow> (('s, 't) manager \<times> go_error option) go"
    using that by (cases "f w") (auto simp: syncWithRetry_def split: option.split)
  show ?thesis
    by (intro conjI once) (auto dest!: push_error pull_error wrapped_not_retryable [OF assms])
qed

theorem push_and_pull_are_never_retried_witness:
  "syncWithRetry (Some \<lparr>MaxAttempts = 3, InitialDelay = 1, MaxDelay = 2\<rparr>) (\<lambda>k. None)
     (\<lambda>w. map_option (\<lambda>(w', r, e). (w', e)) (push sample_env lagging_ops loop_ops w)) conflict_manager
   = map_option (\<lambda>(w', r, e). (w', e)) (push sample_env lagging_ops loop_ops conflict_manager)"
proof -
  have "plain_context sample_env" by (simp add: plain_context_def sample_env_def)
  from push_and_pull_are_never_retried [OF this] show ?thesis by blast
qed

lemma retry_loop_attempts:
  "\<exists>n res. retry_loop interrupted (\<lambda>n. Some (Suc n, outs n)) a left err a = Some (n, res) \<and> a \<le> n \<and> n \<le> a + left
     \<and> (\<forall>i. a \<le> i \<and> Suc i < n \<longrightarrow> IsRetryable (outs i))
     \<and> (res = (if n = a then Some err else outs (n - 1)) \<and> (n = a + left \<or> a < n \<and> \<not> IsRetryable (outs (n - 1)))
        \<or> n < a + left \<and> (n = a \<or> IsRetryable (outs (n - 1))) \<and> interrupted n = res \<and> res \<noteq> None)"
proof (induction left arbitrary: a err)
  case (Suc left)
  show ?case
  proof (cases "interrupted a")
    case (Some x)
    then show ?thesis by auto
  next
    case None
    note i = this
    show ?thesis
    proof (cases "IsRetryable (outs a)")
      case False
      with i show ?thesis by (cases "outs a") (auto intro!: exI [of _ "Suc a"])
    next
      case True
      then obtain e where e: "outs a = Some e" by (cases "outs a") (auto simp: IsRetryable_def)
      obtain n res where r: "retry_loop interrupted (\<lambda>n. Some (Suc n, outs n)) (Suc a) left e (Suc a) = Some (n, res)"
        and n: "Suc a \<le> n" "n \<le> Suc a + left" "\<forall>i. Suc a \<le> i \<and> Suc i < n \<longrightarrow> IsRetryable (outs i)"
        and o: "res = (if n = Suc a then Some e else outs (n - 1)) \<and> (n = Suc a + left \<or> Suc a < n \<and> \<not> IsRetryable (outs (n - 1)))
          \<or> n < Suc a + left \<and> (n = Suc a \<or> IsRetryable (outs (n - 1))) \<and> interrupted n = res \<and> res \<noteq> None"
        using Suc.IH [of "Suc a" e] by blast
      have "retry_loop interrupted (\<lambda>n. Some (Suc n, outs n)) a (Suc left) err a = Some (n, res)"
        using i e True r by simp
      moreover have "\<forall>j. a \<le> j \<and> Suc j < n \<longrightarrow> IsRetryable (outs j)"
        using n(3) True le_eq_less_or_eq by (metis Suc_leI)
      moreover have "res = outs (n - 1) \<and> (n = a + Suc left \<or> a < n \<and> \<not> IsRetryable (outs (n - 1)))
          \<or> n < a + Suc left \<and> IsRetryable (outs (n - 1)) \<and> interrupted n = res \<and> res \<noteq> None"
        using o n(1) e True by (auto split: if_splits)
      ultimately show ?thesis using n(1,2) by (intro exI [of _ n] exI [of _ res]) auto
    qed
  qed
qed auto

text \<open>
  \<open>syncWithRetry\<close> always returns, after at least one and at most \<open>MaxAttempts\<close> attempts (one, if that is
  less). It goes on only after a retryable error; its result is the outcome of the last attempt,
  which was a success, a non-retryable error or the last one allowed, or else the error of the context that
  ended a wait.
\<close>

theorem syncWithRetry_attempts:
  "\<exists>n res. syncWithRetry (Some config) interrupted (\<lambda>n. Some (Suc n, outs n)) 0 = Some (n, res)
     \<and> 1 \<le> n \<and> int n \<le> max 1 (MaxAttempts config) \<and> (\<forall>i. Suc i < n \<longrightarrow> IsRetryable (outs i))
     \<and> (res = outs (n - 1) \<and> (\<not> IsRetryable (outs (n - 1)) \<or> int n = max 1 (MaxAttempts config))
        \<or> int n < MaxAttempts config \<and> IsRetryable (outs (n - 1)) \<and> interrupted n = res \<and> res \<noteq> None)"
proof (cases "IsRetryable (outs 0)")
  case False
  then show ?thesis by (cases "outs 0") (auto simp: syncWithRetry_def intro!: exI [of _ "1 :: nat"])
next
  case True
  then obtain e where e: "outs 0 = Some e" by (cases "outs 0") (auto simp: IsRetryable_def)
  let ?left = "nat (MaxAttempts config - 1)"
  obtain n res where r: "retry_loop interrupted (\<lambda>n. Some (Suc n, outs n)) 1 ?left e 1 = Some (n, res)"
    and n: "1 \<le> n" "n \<le> 1 + ?left" "\<forall>i. 1 \<le> i \<and> Suc i < n \<longrightarrow> IsRetryable (outs i)"
    and o: "res = (if n = 1 then Some e else outs (n - 1)) \<and> (n = 1 + ?left \<or> 1 < n \<and> \<not> IsRetryable (outs (n - 1)))
        \<or> n < 1 + ?left \<and> (n = 1 \<or> IsRetryable (outs (n - 1))) \<and> interrupted n = res \<and> res \<noteq> None"
    using retry_loop_attempts [of interrupted outs 1 ?left e] by blast
  have "syncWithRetry (Some config) interrupted (\<lambda>n. Some (Suc n, outs n)) 0 = Some (n, res)"
    using e True r by (simp add: syncWithRetry_def)
  moreover have "\<forall>i. Suc i < n \<longrightarrow> IsRetryable (outs i)"
  proof (intro allI impI)
    fix i assume "Suc i < n"
    then show "IsRetryable (outs i)" using n(3) True by (cases i) auto
  qed
  moreover have "res = outs (n - 1) \<and> (\<not> IsRetryable (outs (n - 1)) \<or> int n = max 1 (MaxAttempts config))
        \<or> int n < MaxAttempts config \<and> IsRetryable (outs (n - 1)) \<and> interrupted n = res \<and> res \<noteq> None"
    using o e True n(1) by (auto split: if_splits)
  moreover have "int n \<le> max 1 (MaxAttempts config)" using n(2) by auto
  ultimately show ?thesis using n(1) by blast
qed

theorem syncWithRetry_attempts_witness:
  "\<exists>n res. syncWithRetry (Some \<lparr>MaxAttempts = 2, InitialDelay = 1, MaxDelay = 2\<rparr>) (\<lambda>k. None)
      (\<lambda>n. Some (Suc n, Some (NewRetryable OpPush Canceled))) 0 = Some (n, res) \<and> n = 2"
proof -
  obtain n res where "syncWithRetry (Some \<lparr>MaxAttempts = 2, InitialDelay = 1, MaxDelay = 2\<rparr>) (\<lambda>k. None)
      (\<lambda>n. Some (Suc n, Some (NewRetryable OpPush Canceled))) 0 = Some (n, res)" and "int n = 2"
    using syncWithRetry_attempts [of "\<lparr>MaxAttempts = 2, InitialDelay = 1, MaxDelay = 2\<rparr>" "\<lambda>k. None"
        "\<lambda>n. Some (NewRetryable OpPush Canceled)"]
    by (auto simp: NewRetryable_def)
  then show ?thesis by (intro exI [of _ n] exI [of _ res]) simp
qed

section \<open>Closing\<close>

text \<open>
  After \<open>Close\<close> has returned, with or without an error, the manager is closed for good: \<open>Sync\<close>, \<open>Push\<close>, \<open>Pull\<close>
  and \<open>Subscribe\<close> return the closed error without touching the store or the transport, \<open>StartAutoSync\<close> does not start
  anything, and a second \<open>Close\<close> returns nil without closing the store or the transport again.
\<close>

theorem closed_manager_rejects:
  assumes "Close_manager sops tops w = Some (w', e)"
  shows "mg_closed w' \<and> Close_manager sops tops w' = Some (w', None)
    \<and> Sync en sops tops w' = Some (tick w', Inl (err_manager_closed OpSync))
    \<and> Push en sops tops w' = Some (w', None, Some (err_manager_closed OpPush))
    \<and> Pull en sops tops w' = Some (w', None, Some (err_manager_closed OpPull))
    \<and> Subscribe_manager w' h = (w', Some (err_manager_closed OpSync))
    \<and> (\<not> mg_closed w \<longrightarrow> \<not> mg_autoSync w' \<and> mg_autoSync (fst (StartAutoSync en w')) = False
         \<and> snd (StartAutoSync en w') \<noteq> None)"
proof (cases "mg_closed w")
  case True
  with assms show ?thesis
    by (auto simp: Close_manager_def Sync_def Push_def Pull_def Subscribe_manager_def)
next
  case False
  obtain t' terr s' serr where "tr_Close tops (mg_transport w) = Some (t', terr)" "st_Close sops (mg_store w) = Some (s', serr)"
    using assms False by (cases "mg_autoSync w") (auto simp: Close_manager_def Let_def bind_eq_Some_conv)
  with assms False have "mg_closed w'" "\<not> mg_autoSync w'"
    by (auto simp: Close_manager_def Let_def split: if_splits)
  then show ?thesis
    by (auto simp: Close_manager_def Sync_def Push_def Pull_def Subscribe_manager_def StartAutoSync_def split: option.split)
qed

theorem closed_manager_rejects_witness:
  "\<exists>w' e. Close_manager lagging_ops loop_ops conflict_manager = Some (w', e)
     \<and> Push sample_env lagging_ops loop_ops w' = Some (w', None, Some (err_manager_closed OpPush))"
proof -
  have "\<exists>w' e. Close_manager lagging_ops loop_ops conflict_manager = Some (w', e)"
    by (simp add: Close_manager_def lagging_ops_def loop_ops_def Let_def)
  then obtain w' e where c: "Close_manager lagging_ops loop_ops conflict_manager = Some (w', e)" by blast
  from closed_manager_rejects [OF c] c show ?thesis by blast
qed

end
