(* ===== verification/Versioned_Store.thy ===== *)
theory Versioned_Store
  imports Interfaces Mem_Store
begin

text \<open>
  The versioned store (version/store_decorator.go), a decorator that gives events vector clocks, and the
  vector clock manager it uses. The decorator is parameterised by the operations of the store it
  wraps. The lemmas show that the decorated store keeps the contract \<open>event_store\<close> of the wrapped one, which
  is then interpreted on the decorated memory store.
\<close>

section \<open>The version manager\<close>

text \<open>A vector clock manager is the clock it holds.\<close>

definition NewVectorClockManager :: vector_clock where
  "NewVectorClockManager = NewVectorClock"

definition version_is_unset :: "version option \<Rightarrow> bool go" where
  "version_is_unset v = (case v of None \<Rightarrow> Some True | Some _ \<Rightarrow> iface_IsZero v)"

definition type_name :: "version option \<Rightarrow> string" where
  "type_name v = (case v of None \<Rightarrow> ''<nil>'' | Some (IntegerCursor _) \<Rightarrow> ''cursor.IntegerCursor''
     | Some (VectorCursor _) \<Rightarrow> ''cursor.VectorCursor'' | Some (VClock _) \<Rightarrow> ''*version.VectorClock'')"

definition not_a_clock :: "version option \<Rightarrow> go_error" where
  "not_a_clock v = ErrorString (''version is not a VectorClock: '' @ type_name v)"

definition NewVectorClockManagerFromVersion :: "version option \<Rightarrow> (go_error + vector_clock) go" where
  "NewVectorClockManagerFromVersion v = do {
     unset \<leftarrow> version_is_unset v;
     if unset then Some (Inr NewVectorClockManager)
     else (case v of Some (VClock vc) \<Rightarrow> map_option (Inr \<circ> Clone) vc | _ \<Rightarrow> Some (Inl (not_a_clock v))) }"

definition CurrentVersion :: "vector_clock \<Rightarrow> version" where
  "CurrentVersion vm = VClock (Some (Clone vm))"

definition NextVersion :: "vector_clock \<Rightarrow> string \<Rightarrow> (vector_clock \<times> version option) go" where
  "NextVersion vm nodeID = do {
     (vm', err) \<leftarrow> Increment vm nodeID;
     Some (vm', if err \<noteq> None then None else Some (VClock (Some (Clone vm')))) }"

definition UpdateFromVersion :: "vector_clock \<Rightarrow> version option \<Rightarrow> (vector_clock \<times> go_error option) go" where
  "UpdateFromVersion vm v = do {
     unset \<leftarrow> version_is_unset v;
     if unset then Some (vm, None)
     else (case v of Some (VClock vc) \<Rightarrow> Merge vm vc | _ \<Rightarrow> Some (vm, Some (not_a_clock v))) }"

definition Clone_manager :: "vector_clock \<Rightarrow> vector_clock" where
  "Clone_manager vm = Clone vm"

section \<open>The decorator\<close>

definition ErrIncompatibleVersion :: go_error where
  "ErrIncompatibleVersion = ErrorString ''incompatible version type''"

definition ErrStoreClosed :: go_error where
  "ErrStoreClosed = ErrorString ''store is closed''"

record 's versioned_store =
  vs_store :: 's
  vs_nodeID :: string
  vs_versionManager :: vector_clock
  vs_closed :: bool

definition cursorToVectorClock :: "u64 \<Rightarrow> vector_clock" where
  "cursorToVectorClock seq = \<lparr>clocks = Some (fmupd ''sequence'' seq fmempty)\<rparr>"

definition LatestVersion_versioned ::
  "'s store_ops \<Rightarrow> 's versioned_store \<Rightarrow> go_error option \<Rightarrow> (go_error + version option) go" where
  "LatestVersion_versioned ops s ctx =
     (if vs_closed s then Some (Inl ErrStoreClosed)
      else do {
        r \<leftarrow> st_LatestVersion ops (vs_store s) ctx;
        Some (case r of
            Inl err \<Rightarrow> Inl err
          | Inr (Some (IntegerCursor q)) \<Rightarrow> Inr (Some (IntegerCursor q))
          | Inr _ \<Rightarrow> Inl ErrIncompatibleVersion) })"

definition NewVersionedStore ::
  "'s store_ops \<Rightarrow> 's \<Rightarrow> string \<Rightarrow> vector_clock option \<Rightarrow> (go_error + 's versioned_store) go" where
  "NewVersionedStore ops store nodeID versionManager =
     (case versionManager of
        None \<Rightarrow> Some (Inl (ErrorString ''version manager cannot be nil''))
      | Some vm \<Rightarrow>
          let vs = \<lparr>vs_store = store, vs_nodeID = nodeID, vs_versionManager = vm, vs_closed = False\<rparr>
          in do {
            r \<leftarrow> LatestVersion_versioned ops vs None;
            (case r of
               Inl err \<Rightarrow> Some (Inl (WrapError ''failed to get latest version: '' err))
             | Inr (Some (IntegerCursor q)) \<Rightarrow> do {
                 (vm', err) \<leftarrow> UpdateFromVersion vm (Some (VClock (Some (cursorToVectorClock q))));
                 Some (case err of
                     Some e \<Rightarrow> Inl (WrapError ''failed to initialize version manager: '' e)
                   | None \<Rightarrow> Inr (vs\<lparr>vs_versionManager := vm'\<rparr>)) }
             | Inr _ \<Rightarrow> Some (Inr vs)) })"

text \<open>
  The clock an event with a \<open>Version\<close>/\<open>SetVersion\<close> pair carries is updated in place; the result of the
  node's increment is ignored.
\<close>

definition stamp_event :: "string \<Rightarrow> u64 \<Rightarrow> event \<Rightarrow> event go" where
  "stamp_event nodeID seq e =
     (case ClockSlot e of
        NoClock \<Rightarrow> Some e
      | HasClock c \<Rightarrow> do {
          let vc = (case c of None \<Rightarrow> NewVectorClock | Some vc \<Rightarrow> vc);
          m \<leftarrow> gm_put (clocks vc) ''sequence'' seq;
          (vc', _) \<leftarrow> Increment (vc\<lparr>clocks := m\<rparr>) nodeID;
          Some (e\<lparr>ClockSlot := HasClock (Some vc')\<rparr>) })"

definition Store_versioned ::
  "'s store_ops \<Rightarrow> 's versioned_store \<Rightarrow> go_error option \<Rightarrow> event option \<Rightarrow> version option
     \<Rightarrow> ('s versioned_store \<times> go_error option) go" where
  "Store_versioned ops s ctx evt version = do {
     r \<leftarrow> st_LatestVersion ops (vs_store s) ctx;
     (case r of
        Inl err \<Rightarrow> Some (s, Some (WrapError ''failed to get latest version: '' err))
      | Inr (Some (IntegerCursor q)) \<Rightarrow> do {
          let seq = q + 1;
          evt' \<leftarrow> (case evt of None \<Rightarrow> Some None | Some e \<Rightarrow> map_option Some (stamp_event (vs_nodeID s) seq e));
          (st', err) \<leftarrow> st_Store ops (vs_store s) ctx evt' (Some (IntegerCursor seq));
          Some (s\<lparr>vs_store := st'\<rparr>, err) }
      | Inr v \<Rightarrow> Some (s, Some (ErrorString (''incompatible version type: '' @ type_name v)))) }"

text \<open>
  The loop over loaded events: every event with a cursor version gets the clock of that cursor, if it can
  carry one, and the version manager merges it; an error of the merge is only logged.
\<close>

definition set_clock :: "vector_clock \<Rightarrow> event option \<Rightarrow> event option" where
  "set_clock vc evt = map_option (\<lambda>e. case ClockSlot e of NoClock \<Rightarrow> e | HasClock _ \<Rightarrow> e\<lparr>ClockSlot := HasClock (Some vc)\<rparr>) evt"

fun observe_events ::
  "vector_clock \<Rightarrow> event_with_version list \<Rightarrow> (vector_clock \<times> event_with_version list) go" where
  "observe_events vm [] = Some (vm, [])"
| "observe_events vm (ev # evs) =
     (case ev_Version ev of
        Some (IntegerCursor q) \<Rightarrow> do {
          let vc = cursorToVectorClock q;
          (vm', _) \<leftarrow> UpdateFromVersion vm (Some (VClock (Some vc)));
          (vm'', evs') \<leftarrow> observe_events vm' evs;
          Some (vm'', ev\<lparr>ev_Event := set_clock vc (ev_Event ev)\<rparr> # evs') }
      | _ \<Rightarrow> do {
          (vm'', evs') \<leftarrow> observe_events vm evs;
          Some (vm'', ev # evs') })"

definition default_since :: "version option \<Rightarrow> version option" where
  "default_since since = (case since of None \<Rightarrow> Some (IntegerCursor 0) | Some _ \<Rightarrow> since)"

definition observe_result ::
  "'s versioned_store \<Rightarrow> go_error + event_with_version list
     \<Rightarrow> ('s versioned_store \<times> (go_error + event_with_version list)) go" where
  "observe_result s r = (case r of
       Inl err \<Rightarrow> Some (s, Inl err)
     | Inr evs \<Rightarrow> do {
         (vm', evs') \<leftarrow> observe_events (vs_versionManager s) evs;
         Some (s\<lparr>vs_versionManager := vm'\<rparr>, Inr evs') })"

definition Load_versioned ::
  "'s store_ops \<Rightarrow> 's versioned_store \<Rightarrow> go_error option \<Rightarrow> version option
     \<Rightarrow> ('s versioned_store \<times> (go_error + event_with_version list)) go" where
  "Load_versioned ops s ctx since = do {
     r \<leftarrow> st_Load ops (vs_store s) ctx (default_since since);
     observe_result s r }"

definition LoadByAggregate_versioned ::
  "'s store_ops \<Rightarrow> 's versioned_store \<Rightarrow> go_error option \<Rightarrow> string \<Rightarrow> version option
     \<Rightarrow> ('s versioned_store \<times> (go_error + event_with_version list)) go" where
  "LoadByAggregate_versioned ops s ctx aggregateID since = do {
     r \<leftarrow> st_LoadByAggregate ops (vs_store s) ctx aggregateID (default_since since);
     observe_result s r }"

definition ParseVersion_versioned ::
  "'s store_ops \<Rightarrow> 's versioned_store \<Rightarrow> go_error option \<Rightarrow> string \<Rightarrow> (go_error + version option) go" where
  "ParseVersion_versioned ops s ctx versionStr = st_ParseVersion ops (vs_store s) ctx versionStr"

definition Close_versioned :: "'s store_ops \<Rightarrow> 's versioned_store \<Rightarrow> ('s versioned_store \<times> go_error option) go" where
  "Close_versioned ops s = do {
     (st', err) \<leftarrow> st_Close ops (vs_store s);
     Some (s\<lparr>vs_store := st'\<rparr>, err) }"

definition GetVersionManager :: "'s versioned_store \<Rightarrow> vector_clock" where
  "GetVersionManager s = vs_versionManager s"

definition SetNodeID :: "'s versioned_store \<Rightarrow> string \<Rightarrow> 's versioned_store" where
  "SetNodeID s nodeID = s\<lparr>vs_nodeID := nodeID\<rparr>"

text \<open>
  The decorated operations in the shape of the store interface. Loading also advances the version manager,
  which the interface of a store does not show.
\<close>

definition versioned_ops :: "'s store_ops \<Rightarrow> 's versioned_store store_ops" where
  "versioned_ops ops = \<lparr>st_Store = Store_versioned ops,
     st_Load = (\<lambda>s c v. map_option snd (Load_versioned ops s c v)),
     st_LoadByAggregate = (\<lambda>s c a v. map_option snd (LoadByAggregate_versioned ops s c a v)),
     st_LatestVersion = LatestVersion_versioned ops, st_ParseVersion = ParseVersion_versioned ops,
     st_Close = Close_versioned ops\<rparr>"

section \<open>The decorator keeps the contract\<close>

lemma stamp_event_Some:
  assumes "ClockSlot e \<noteq> HasClock (Some \<lparr>clocks = None\<rparr>)"
  shows "\<exists>c. stamp_event nodeID seq e = Some (e\<lparr>ClockSlot := c\<rparr>)"
proof (cases "ClockSlot e")
  case NoClock
  then show ?thesis by (auto simp: stamp_event_def intro!: exI [of _ NoClock])
next
  case (HasClock c)
  let ?vc = "case c of None \<Rightarrow> NewVectorClock | Some vc \<Rightarrow> vc"
  obtain f where "clocks ?vc = Some f"
    using assms HasClock by (cases "clocks ?vc") (auto simp: NewVectorClock_def split: option.splits)
  then have "gm_put (clocks ?vc) ''sequence'' seq = Some (Some (fmupd ''sequence'' seq f))" by simp
  moreover have "Increment (?vc\<lparr>clocks := Some (fmupd ''sequence'' seq f)\<rparr>) nodeID \<noteq> None"
    by (simp add: Increment_def)
  ultimately show ?thesis using HasClock by (auto simp: stamp_event_def Let_def)
qed

lemma stamp_event_payload: "stamp_event nodeID seq e = Some e' \<Longrightarrow> same_payload e e'"
  by (auto simp: stamp_event_def same_payload_def Let_def bind_eq_Some_conv split: clock_slot.splits)

lemma same_payload_trans: "same_payload a b \<Longrightarrow> same_payload b c \<Longrightarrow> same_payload a c"
  by (simp add: same_payload_def)

lemma LatestVersion_versioned_Inr:
  assumes "LatestVersion_versioned ops s c = Some (Inr v)"
  shows "st_LatestVersion ops (vs_store s) c = Some (Inr v)" and "\<exists>q. v = Some (IntegerCursor q)"
proof -
  obtain r where r: "st_LatestVersion ops (vs_store s) c = Some r" and o: "\<not> vs_closed s"
    using assms by (auto simp: LatestVersion_versioned_def bind_eq_Some_conv split: if_splits)
  show "st_LatestVersion ops (vs_store s) c = Some (Inr v)" "\<exists>q. v = Some (IntegerCursor q)"
    using assms r o by (cases r; cases "projr r"; cases "the (projr r)"; auto simp: LatestVersion_versioned_def)+
qed

text \<open>
  The cases of a decorated \<open>Store\<close>: the version of the wrapped store cannot be used, or the stamped event
  goes to the wrapped store with the next sequence number.
\<close>

lemma Store_versioned_cases:
  assumes "Store_versioned ops s c evt v = Some (s', err)"
  obtains (fail) "s' = s" "err \<noteq> None"
  | (store) q evt' st' where "st_LatestVersion ops (vs_store s) c = Some (Inr (Some (IntegerCursor q)))"
      "(case evt of None \<Rightarrow> evt' = None | Some e \<Rightarrow> \<exists>e'. stamp_event (vs_nodeID s) (q + 1) e = Some e' \<and> evt' = Some e')"
      "st_Store ops (vs_store s) c evt' (Some (IntegerCursor (q + 1))) = Some (st', err)" "s' = s\<lparr>vs_store := st'\<rparr>"
proof -
  obtain r where r: "st_LatestVersion ops (vs_store s) c = Some r"
    using assms by (auto simp: Store_versioned_def bind_eq_Some_conv)
  show thesis
  proof (cases "\<exists>q. r = Inr (Some (IntegerCursor q))")
    case True
    then obtain q where q: "r = Inr (Some (IntegerCursor q))" by blast
    then obtain evt' st' where "(case evt of None \<Rightarrow> Some None | Some e \<Rightarrow> map_option Some (stamp_event (vs_nodeID s) (q + 1) e)) = Some evt'"
      and "st_Store ops (vs_store s) c evt' (Some (IntegerCursor (q + 1))) = Some (st', err)" "s' = s\<lparr>vs_store := st'\<rparr>"
      using assms r by (auto simp: Store_versioned_def Let_def bind_eq_Some_conv)
    with r q show thesis by (intro store [of q evt' st']) (auto split: option.splits)
  next
    case False
    then have "s' = s \<and> err \<noteq> None"
      using assms r by (auto simp: Store_versioned_def split: sum.splits option.splits version.splits)
    then show thesis using fail by blast
  qed
qed

text \<open>
  The events the decorated store takes without a panic: those the wrapped store takes with any clock, but
  for an event whose clock has no map, which the decorator writes to.
\<close>

definition storable_versioned :: "(event \<Rightarrow> bool) \<Rightarrow> event \<Rightarrow> bool" where
  "storable_versioned storable e \<longleftrightarrow>
     ClockSlot e \<noteq> HasClock (Some \<lparr>clocks = None\<rparr>) \<and> (\<forall>c. storable (e\<lparr>ClockSlot := c\<rparr>))"

context event_store
begin

lemma Store_versioned_total:
  assumes "inv k (vs_store s)" and "storable_versioned storable e"
  shows "Store_versioned ops s c (Some e) v \<noteq> None"
proof -
  obtain r where r: "st_LatestVersion ops (vs_store s) c = Some r" using latest_total [OF assms(1)] by blast
  show ?thesis
  proof (cases "\<exists>q. r = Inr (Some (IntegerCursor q))")
    case True
    then obtain q where q: "r = Inr (Some (IntegerCursor q))" by blast
    obtain cs where "stamp_event (vs_nodeID s) (q + 1) e = Some (e\<lparr>ClockSlot := cs\<rparr>)"
      using stamp_event_Some assms(2) unfolding storable_versioned_def by blast
    moreover have "st_Store ops (vs_store s) c (Some (e\<lparr>ClockSlot := cs\<rparr>)) (Some (IntegerCursor (q + 1))) \<noteq> None"
      using store_total [OF assms(1)] assms(2) by (simp add: storable_versioned_def)
    ultimately show ?thesis using r q by (auto simp: Store_versioned_def Let_def)
  next
    case False
    then show ?thesis using r by (auto simp: Store_versioned_def split: sum.splits option.splits version.splits)
  qed
qed

lemma versioned_event_store:
  "event_store (versioned_ops ops) (\<lambda>k s. inv k (vs_store s)) (\<lambda>s. seen (vs_store s)) (storable_versioned storable)"
proof unfold_locales
  fix k c v c' evs and s :: "'s versioned_store"
  assume i: "inv k (vs_store s)" and lv: "st_LatestVersion (versioned_ops ops) s c = Some (Inr v)"
    and ld: "st_Load (versioned_ops ops) s c' v = Some (Inr evs)"
  obtain q where v: "v = Some (IntegerCursor q)" and l: "st_LatestVersion ops (vs_store s) c = Some (Inr v)"
    using LatestVersion_versioned_Inr [of ops s c v] lv by (auto simp: versioned_ops_def)
  obtain r where r: "st_Load ops (vs_store s) c' v = Some r" and o: "map_option snd (observe_result s r) = Some (Inr evs)"
    using ld v by (auto simp: versioned_ops_def Load_versioned_def default_since_def bind_eq_Some_conv)
  obtain es where es: "r = Inr es" using o by (cases r) (auto simp: observe_result_def)
  then have "es = []" using nothing_after_latest [OF i l] r by simp
  with o es show "evs = []" by (simp add: observe_result_def)
next
  fix k c and s :: "'s versioned_store"
  assume "inv k (vs_store s)"
  then obtain r where "st_LatestVersion ops (vs_store s) c = Some r" using latest_total by blast
  then show "st_LatestVersion (versioned_ops ops) s c \<noteq> None"
    by (simp add: versioned_ops_def LatestVersion_versioned_def)
next
  fix k e c v and s :: "'s versioned_store"
  assume "inv k (vs_store s)" and "storable_versioned storable e"
  then show "st_Store (versioned_ops ops) s c (Some e) v \<noteq> None"
    by (simp add: versioned_ops_def Store_versioned_total)
next
  fix k c e v and s s' :: "'s versioned_store"
  assume i: "inv (Suc k) (vs_store s)" and "st_Store (versioned_ops ops) s c (Some e) v = Some (s', None)"
  then have "Store_versioned ops s c (Some e) v = Some (s', None)" by (simp add: versioned_ops_def)
  then show "inv k (vs_store s') \<and> (\<exists>e'. same_payload e e' \<and> seen (vs_store s') = seen (vs_store s) @ [e'])"
  proof (cases rule: Store_versioned_cases)
    case (store q evt' st')
    then obtain e1 where e1: "stamp_event (vs_nodeID s) (q + 1) e = Some e1" "evt' = Some e1" by auto
    with store have "st_Store ops (vs_store s) c (Some e1) (Some (IntegerCursor (q + 1))) = Some (st', None)" by simp
    from store_appends [OF i this] obtain e' where "inv k st'" "same_payload e1 e'" "seen st' = seen (vs_store s) @ [e']"
      by blast
    then show ?thesis using store(4) same_payload_trans [OF stamp_event_payload [OF e1(1)]] by auto
  qed simp
next
  fix k c e v err and s s' :: "'s versioned_store"
  assume i: "inv k (vs_store s)" and "st_Store (versioned_ops ops) s c (Some e) v = Some (s', Some err)"
  then have "Store_versioned ops s c (Some e) v = Some (s', Some err)" by (simp add: versioned_ops_def)
  then show "inv k (vs_store s') \<and> seen (vs_store s') = seen (vs_store s)"
  proof (cases rule: Store_versioned_cases)
    case (store q evt' st')
    then obtain e1 where "evt' = Some e1" by auto
    with store store_fails [OF i, of c e1] have "inv k st' \<and> seen st' = seen (vs_store s)" by simp
    with store show ?thesis by simp
  qed (use i in simp)
next
  fix c v and s s' :: "'s versioned_store"
  show "st_Store (versioned_ops ops) s c None v \<noteq> Some (s', None)"
  proof
    assume "st_Store (versioned_ops ops) s c None v = Some (s', None)"
    then have "Store_versioned ops s c None v = Some (s', None)" by (simp add: versioned_ops_def)
    then show False
      by (cases rule: Store_versioned_cases) (auto simp: store_nil)
  qed
next
  fix k and s :: "'s versioned_store"
  assume "inv (Suc k) (vs_store s)"
  then show "inv k (vs_store s)" by (rule inv_less)
qed

end

interpretation vms: event_store "versioned_ops memstore_ops" "\<lambda>k s. memstore_room k (vs_store s)"
  "\<lambda>s. store_log (vs_store s)" "storable_versioned (\<lambda>_. True)"
  by (rule ms.versioned_event_store)

section \<open>Properties\<close>



lemma set_clock_Some:
  "set_clock vc evt = Some e \<Longrightarrow> ClockSlot e = HasClock c \<Longrightarrow> c = Some vc"
  by (cases evt; cases "ClockSlot (the evt)") (auto simp: set_clock_def)

text \<open>What a load makes of an event, and what it does to the version manager.\<close>

definition as_loaded :: "event_with_version \<Rightarrow> event_with_version" where
  "as_loaded ev = (case ev_Version ev of
       Some (IntegerCursor q) \<Rightarrow> ev\<lparr>ev_Event := set_clock (cursorToVectorClock q) (ev_Event ev)\<rparr> | _ \<Rightarrow> ev)"

lemma as_loaded_Version [simp]: "ev_Version (as_loaded ev) = ev_Version ev"
  by (simp add: as_loaded_def split: option.splits version.splits)

lemma as_loaded_clock:
  "ev_Version ev = Some (IntegerCursor q) \<Longrightarrow> ev_Event (as_loaded ev) = Some e \<Longrightarrow> ClockSlot e = HasClock c \<Longrightarrow>
     c = Some (cursorToVectorClock q)"
  by (simp add: as_loaded_def set_clock_Some)

lemma GetClock_cursor: "GetClock (cursorToVectorClock x) n = (if n = ''sequence'' then x else 0)"
  by (simp add: GetClock_def cursorToVectorClock_def)

lemma UpdateFromVersion_cursor:
  assumes "clocks vm \<noteq> None"
  obtains vm' err where "UpdateFromVersion vm (Some (VClock (Some (cursorToVectorClock q)))) = Some (vm', err)"
    and "clocks vm' \<noteq> None" and "\<And>n. n \<noteq> ''sequence'' \<Longrightarrow> GetClock vm' n = GetClock vm n"
    and "GetClock vm ''sequence'' \<le> GetClock vm' ''sequence''"
proof -
  let ?c = "cursorToVectorClock q"
  have u: "UpdateFromVersion vm (Some (VClock (Some ?c))) = Merge vm (Some ?c) \<or>
      UpdateFromVersion vm (Some (VClock (Some ?c))) = Some (vm, None)"
    by (simp add: UpdateFromVersion_def version_is_unset_def iface_IsZero_def)
  show thesis
  proof (cases "merge_allowed vm ?c")
    case True
    obtain f where f: "clocks vm = Some f" using assms by auto
    obtain g where m: "Merge vm (Some ?c) = Some (vm\<lparr>clocks := Some g\<rparr>, None)" using Merge_live_ok [OF f True] by blast
    show thesis using u
    proof
      assume *: "UpdateFromVersion vm (Some (VClock (Some ?c))) = Merge vm (Some ?c)"
      show thesis
        by (rule that [of "vm\<lparr>clocks := Some g\<rparr>" None])
          (simp_all add: * m Merge_GetClock [OF assms m] GetClock_cursor)
    qed (rule that [of vm None], simp_all add: assms)
  next
    case False
    then obtain err where "Merge vm (Some ?c) = Some (vm, Some err)" using Merge_live_refused [OF assms] by blast
    with u that [of vm] assms show thesis by auto
  qed
qed

lemma observe_events_live:
  assumes "clocks vm \<noteq> None"
  shows "\<exists>vm'. observe_events vm evs = Some (vm', map as_loaded evs) \<and> clocks vm' \<noteq> None
    \<and> (\<forall>n. n \<noteq> ''sequence'' \<longrightarrow> GetClock vm' n = GetClock vm n) \<and> GetClock vm ''sequence'' \<le> GetClock vm' ''sequence''"
  using assms
proof (induction evs arbitrary: vm)
  case (Cons ev evs)
  show ?case
  proof (cases "\<exists>q. ev_Version ev = Some (IntegerCursor q)")
    case True
    then obtain q where q: "ev_Version ev = Some (IntegerCursor q)" by blast
    obtain vm1 err where "UpdateFromVersion vm (Some (VClock (Some (cursorToVectorClock q)))) = Some (vm1, err)"
      and "clocks vm1 \<noteq> None" and "\<And>n. n \<noteq> ''sequence'' \<Longrightarrow> GetClock vm1 n = GetClock vm n"
      and "GetClock vm ''sequence'' \<le> GetClock vm1 ''sequence''"
      using UpdateFromVersion_cursor [OF Cons.prems] by blast
    with Cons.IH [of vm1] q show ?thesis by (auto simp: as_loaded_def)
  next
    case False
    with Cons.IH [OF Cons.prems] show ?thesis by (auto simp: as_loaded_def split: option.splits version.splits)
  qed
qed simp

lemma Load_versioned_live:
  assumes "clocks (vs_versionManager s) \<noteq> None" and "st_Load ops (vs_store s) ctx (default_since since) = Some (Inr es)"
  shows "\<exists>vm'. Load_versioned ops s ctx since = Some (s\<lparr>vs_versionManager := vm'\<rparr>, Inr (map as_loaded es))
    \<and> clocks vm' \<noteq> None \<and> (\<forall>n. n \<noteq> ''sequence'' \<longrightarrow> GetClock vm' n = GetClock (vs_versionManager s) n)
    \<and> GetClock (vs_versionManager s) ''sequence'' \<le> GetClock vm' ''sequence''"
  using observe_events_live [OF assms(1), of es] assms(2) by (auto simp: Load_versioned_def observe_result_def)

lemma cursor_clocks_ordered: "\<not> IsConcurrentWith (cursorToVectorClock p) (Some (cursorToVectorClock q))"
proof (cases "p = q")
  case True
  have "gm_keys (clocks (cursorToVectorClock q)) = [''sequence'']"
    by (simp add: gm_keys_def fm_keys_def cursorToVectorClock_def sorted_list_of_fset.rep_eq)
  then have "IsEqual (cursorToVectorClock q) (Some (cursorToVectorClock q))"
    by (simp add: IsEqual_def GetClock_def cursorToVectorClock_def)
  with True show ?thesis by (simp add: IsConcurrentWith_def)
next
  case False
  have "clock_le (cursorToVectorClock x) (cursorToVectorClock y) \<longleftrightarrow> x \<le> y" for x y
    by (auto simp: clock_le_def GetClock_cursor)
  with False show ?thesis by (auto simp: IsConcurrentWith_def Compare_clock_le)
qed

lemma stamp_event_clock:
  assumes "ClockSlot e = HasClock (Some vc)" and "clocks vc = Some f" and "nodeID \<noteq> ''sequence''"
    and "increment_allowed (vc\<lparr>clocks := Some (fmupd ''sequence'' seq f)\<rparr>) nodeID"
  shows "\<exists>vc'. stamp_event nodeID seq e = Some (e\<lparr>ClockSlot := HasClock (Some vc')\<rparr>)
    \<and> (\<forall>n. GetClock vc' n = (if n = ''sequence'' then seq else if n = nodeID then GetClock vc n + 1 else GetClock vc n))"
  using assms Increment_ok [OF _ assms(4), of "fmupd ''sequence'' seq f"]
  by (auto simp: stamp_event_def Let_def GetClock_def)

text \<open>
  With a version manager that has a clock, a load returns every event the wrapped store returns, with
  its version, and only raises the "sequence" counter of the manager. But it overwrites the clock of every event
  that has a cursor version by the clock that holds only its sequence number, so two such events are never concurrent after a
  load: the causal information of the stored clocks is lost.
\<close>

theorem versioned_load_loses_causality:
  assumes live: "clocks (vs_versionManager s) \<noteq> None"
    and load: "st_Load ops (vs_store s) ctx (default_since since) = Some (Inr es)"
    and i: "i < length es" "ev_Version (es ! i) = Some (IntegerCursor p)"
    and j: "j < length es" "ev_Version (es ! j) = Some (IntegerCursor q)"
  shows "\<exists>vm' evs. Load_versioned ops s ctx since = Some (s\<lparr>vs_versionManager := vm'\<rparr>, Inr evs)
    \<and> map ev_Version evs = map ev_Version es
    \<and> (\<forall>n. GetClock (vs_versionManager s) n \<le> GetClock vm' n)
    \<and> (\<forall>e c e' c'. ev_Event (evs ! i) = Some e \<and> ClockSlot e = HasClock (Some c) \<and>
         ev_Event (evs ! j) = Some e' \<and> ClockSlot e' = HasClock (Some c') \<longrightarrow>
         c = cursorToVectorClock p \<and> \<not> IsConcurrentWith c (Some c'))"
proof -
  obtain vm' where vm': "Load_versioned ops s ctx since = Some (s\<lparr>vs_versionManager := vm'\<rparr>, Inr (map as_loaded es))"
    and o: "\<And>n. n \<noteq> ''sequence'' \<Longrightarrow> GetClock vm' n = GetClock (vs_versionManager s) n"
    and q: "GetClock (vs_versionManager s) ''sequence'' \<le> GetClock vm' ''sequence''"
    using Load_versioned_live [of s ops ctx since, OF live load] by blast
  have "GetClock (vs_versionManager s) n \<le> GetClock vm' n" for n using o [of n] q by (cases "n = ''sequence''") auto
  moreover have "c = cursorToVectorClock p \<and> \<not> IsConcurrentWith c (Some c')"
    if "ev_Event (as_loaded (es ! i)) = Some e" "ClockSlot e = HasClock (Some c)"
      "ev_Event (as_loaded (es ! j)) = Some e'" "ClockSlot e' = HasClock (Some c')" for e c e' c'
    using as_loaded_clock [OF i(2) that(1,2)] as_loaded_clock [OF j(2) that(3,4)] cursor_clocks_ordered by auto
  ultimately show ?thesis using vm' i(1) j(1) by (intro exI [of _ vm'] exI [of _ "map as_loaded es"]) auto
qed

text \<open>Two events written by two nodes that did not see each other, and a store that holds them.\<close>

definition written_by :: "string \<Rightarrow> u64 \<Rightarrow> event_with_version" where
  "written_by n q = \<lparr>ev_Event = Some ((New_event 0 n n n [])\<lparr>ClockSlot := HasClock (Some \<lparr>clocks = Some (fmupd n 1 fmempty)\<rparr>)\<rparr>),
     ev_Version = Some (IntegerCursor q)\<rparr>"

definition two_writers :: "unit store_ops" where
  "two_writers = \<lparr>st_Store = (\<lambda>s _ _ _. Some (s, None)),
     st_Load = (\<lambda>_ _ _. Some (Inr [written_by ''a'' 1, written_by ''b'' 2])),
     st_LoadByAggregate = (\<lambda>_ _ _ _. Some (Inr [])), st_LatestVersion = (\<lambda>_ _. Some (Inr (Some (IntegerCursor 2)))),
     st_ParseVersion = (\<lambda>_ _ _. Some (Inr None)), st_Close = (\<lambda>s. Some (s, None))\<rparr>"

definition two_writers_store :: "unit versioned_store" where
  "two_writers_store = \<lparr>vs_store = (), vs_nodeID = ''a'', vs_versionManager = NewVectorClock, vs_closed = False\<rparr>"

theorem versioned_load_loses_causality_witness:
  "\<exists>vm' evs. Load_versioned two_writers two_writers_store None None
       = Some (two_writers_store\<lparr>vs_versionManager := vm'\<rparr>, Inr evs)
    \<and> map ev_Version evs = [Some (IntegerCursor 1), Some (IntegerCursor 2)]
    \<and> (\<forall>n. GetClock NewVectorClock n \<le> GetClock vm' n)
    \<and> (\<forall>e c e' c'. ev_Event (evs ! 0) = Some e \<and> ClockSlot e = HasClock (Some c) \<and>
         ev_Event (evs ! 1) = Some e' \<and> ClockSlot e' = HasClock (Some c') \<longrightarrow>
         c = cursorToVectorClock 1 \<and> \<not> IsConcurrentWith c (Some c'))"
  using versioned_load_loses_causality [of two_writers_store two_writers None None
      "[written_by ''a'' 1, written_by ''b'' 2]" 0 1 1 2]
  by (simp add: two_writers_store_def two_writers_def written_by_def NewVectorClock_def)

end
