(* ===== verification/Mem_Chan.thy ===== *)
theory Mem_Chan
  imports Mem_Store "HOL-Library.Sublist"
begin

text \<open>
  The in-memory transport (transport/memchan/memchan.go). Channels live in a heap, \<open>mc_chans\<close>, and are named by
  their position; the list of subscribers holds such names. A send on a closed channel and closing a closed channel
  are panics (\<open>None\<close>). The goroutine of each subscriber is a state of its own, and \<open>mc_step\<close> interleaves the
  calls of the transport with the steps of the goroutines: every operation of the transport holds its lock, so
  it is one step. The wait in a \<open>select\<close> with several ready cases picks any of them.
\<close>

section \<open>State\<close>

record chan =
  ch_buf :: "event option list"
  ch_cap :: nat
  ch_closed :: bool

record mem_chan =
  mc_events :: "event_with_version list"
  mc_subs :: "nat list"
  mc_capacity :: int
  mc_closed :: bool
  mc_chans :: "chan list"

definition New_memchan :: "int \<Rightarrow> mem_chan" where
  "New_memchan capacity = \<lparr>mc_events = [], mc_subs = [], mc_capacity = (if capacity \<le> 0 then 16 else capacity),
     mc_closed = False, mc_chans = []\<rparr>"

definition err_transport_closed :: go_error where
  "err_transport_closed = ErrorString ''transport is closed''"

section \<open>Pushing\<close>

text \<open>
  The select of \<open>Push\<close> for one event and one subscriber: \<open>done\<close> is what the context reports,
  \<open>pick\<close> decides for the send when both cases are ready. A closed channel is always ready to send, and panics.
\<close>

definition select_send ::
  "go_error option \<Rightarrow> bool \<Rightarrow> event option \<Rightarrow> chan \<Rightarrow> (chan \<times> go_error option) go" where
  "select_send done pick evt ch =
     (let ready = ch_closed ch \<or> length (ch_buf ch) < ch_cap ch in
      case done of
        None \<Rightarrow>
          if ready then (if ch_closed ch then None else Some (ch\<lparr>ch_buf := ch_buf ch @ [evt]\<rparr>, None))
          else Some (ch, None)
      | Some e \<Rightarrow>
          if ready \<and> pick then (if ch_closed ch then None else Some (ch\<lparr>ch_buf := ch_buf ch @ [evt]\<rparr>, None))
          else Some (ch, Some e))"

fun notify_subs ::
  "(nat \<Rightarrow> go_error option) \<Rightarrow> (nat \<Rightarrow> bool) \<Rightarrow> nat \<Rightarrow> event option \<Rightarrow> nat list \<Rightarrow> chan list
     \<Rightarrow> (nat \<times> chan list \<times> go_error option) go" where
  "notify_subs done pick n evt [] chs = Some (n, chs, None)"
| "notify_subs done pick n evt (i # is) chs = do {
     (ch, err) \<leftarrow> select_send (done n) (pick n) evt (chs ! i);
     (case err of
        Some e \<Rightarrow> Some (Suc n, chs[i := ch], Some e)
      | None \<Rightarrow> notify_subs done pick (Suc n) evt is (chs[i := ch])) }"

fun notify_all ::
  "(nat \<Rightarrow> go_error option) \<Rightarrow> (nat \<Rightarrow> bool) \<Rightarrow> nat \<Rightarrow> event_with_version list \<Rightarrow> nat list \<Rightarrow> chan list
     \<Rightarrow> (chan list \<times> go_error option) go" where
  "notify_all done pick n [] subs chs = Some (chs, None)"
| "notify_all done pick n (ev # evs) subs chs = do {
     (n', chs', err) \<leftarrow> notify_subs done pick n (ev_Event ev) subs chs;
     (case err of Some e \<Rightarrow> Some (chs', Some e) | None \<Rightarrow> notify_all done pick n' evs subs chs') }"

text \<open>Poll 0 is the check at the start; the selects of the loops are polls 1, 2 and so on.\<close>

definition Push_memchan ::
  "(nat \<Rightarrow> go_error option) \<Rightarrow> (nat \<Rightarrow> bool) \<Rightarrow> mem_chan \<Rightarrow> event_with_version list
     \<Rightarrow> (mem_chan \<times> go_error option) go" where
  "Push_memchan done pick c evs =
     (case done 0 of
        Some e \<Rightarrow> Some (c, Some e)
      | None \<Rightarrow>
          if mc_closed c then Some (c, Some err_transport_closed)
          else do {
            (chs, err) \<leftarrow> notify_all done pick 1 evs (mc_subs c) (mc_chans c);
            Some (c\<lparr>mc_events := mc_events c @ evs, mc_chans := chs\<rparr>, err) })"

section \<open>Pulling\<close>

definition after_seq :: "u64 \<Rightarrow> event_with_version \<Rightarrow> bool" where
  "after_seq q ev = (case ev_Version ev of Some (IntegerCursor p) \<Rightarrow> p > q | _ \<Rightarrow> False)"

definition Pull_memchan ::
  "mem_chan \<Rightarrow> go_error option \<Rightarrow> version option \<Rightarrow> (go_error + event_with_version list) go" where
  "Pull_memchan c ctx since =
     (case ctx of
        Some e \<Rightarrow> Some (Inl e)
      | None \<Rightarrow>
          if mc_closed c then Some (Inl err_transport_closed)
          else do {
            r \<leftarrow> since_seq since;
            (case r of
               Inl e \<Rightarrow> Some (Inl e)
             | Inr q \<Rightarrow> Some (Inr (filter (after_seq q) (mc_events c)))) })"

fun max_version :: "u64 \<Rightarrow> event_with_version list \<Rightarrow> u64" where
  "max_version m [] = m"
| "max_version m (ev # evs) =
     (case ev_Version ev of
        Some (IntegerCursor q) \<Rightarrow> max_version (if q > m then q else m) evs
      | _ \<Rightarrow> max_version m evs)"

definition GetLatestVersion_memchan :: "mem_chan \<Rightarrow> go_error option \<Rightarrow> go_error + version option" where
  "GetLatestVersion_memchan c ctx =
     (case ctx of
        Some e \<Rightarrow> Inl e
      | None \<Rightarrow>
          if mc_closed c then Inl err_transport_closed
          else if length (mc_events c) = 0 then Inr (Some (IntegerCursor 0))
          else Inr (Some (IntegerCursor (max_version 0 (mc_events c)))))"

section \<open>Subscribers\<close>

datatype phase = Running | Leaving | Gone

record subscriber =
  su_chan :: nat
  su_batch :: "event_with_version list"
  su_phase :: phase
  su_handled :: "event_with_version list list"

text \<open>
  \<open>su_handled\<close> lists the batches the handler was called with; its errors are only printed. \<open>Subscribe\<close> makes the
  channel and starts the goroutine. It does not look at the closed flag.
\<close>

definition Subscribe_memchan :: "mem_chan \<Rightarrow> nat option \<Rightarrow> (mem_chan \<times> subscriber option \<times> go_error option)" where
  "Subscribe_memchan c handler =
     (case handler of
        None \<Rightarrow> (c, None, Some (ErrorString ''handler cannot be nil''))
      | Some _ \<Rightarrow>
          let ch = \<lparr>ch_buf = [], ch_cap = nat (mc_capacity c), ch_closed = False\<rparr>; i = length (mc_chans c) in
          (c\<lparr>mc_chans := mc_chans c @ [ch], mc_subs := mc_subs c @ [i]\<rparr>,
           Some \<lparr>su_chan = i, su_batch = [], su_phase = Running, su_handled = []\<rparr>, None))"

definition handle_batch :: "subscriber \<Rightarrow> subscriber" where
  "handle_batch g = (if su_batch g = [] then g else g\<lparr>su_handled := su_handled g @ [su_batch g]\<rparr>)"

text \<open>The cases of the select of the goroutine: the context is done, a receive, the ticker.\<close>

definition on_done :: "subscriber \<Rightarrow> subscriber" where
  "on_done g = (handle_batch g)\<lparr>su_phase := Leaving\<rparr>"

definition on_receive :: "u64 \<Rightarrow> mem_chan \<Rightarrow> subscriber \<Rightarrow> mem_chan \<times> subscriber" where
  "on_receive now c g =
     (let i = su_chan g; ch = mc_chans c ! i in
      case ch_buf ch of
        [] \<Rightarrow> if ch_closed ch then (c, (handle_batch g)\<lparr>su_phase := Leaving\<rparr>) else (c, g)
      | ev # rest \<Rightarrow>
          (c\<lparr>mc_chans := (mc_chans c)[i := ch\<lparr>ch_buf := rest\<rparr>]\<rparr>,
           g\<lparr>su_batch := su_batch g @ [\<lparr>ev_Event = ev, ev_Version = Some (IntegerCursor now)\<rparr>]\<rparr>))"

definition on_ticker :: "subscriber \<Rightarrow> subscriber" where
  "on_ticker g = (handle_batch g)\<lparr>su_batch := []\<rparr>"

definition close_chan :: "chan \<Rightarrow> chan go" where
  "close_chan ch = (if ch_closed ch then None else Some (ch\<lparr>ch_closed := True\<rparr>))"

text \<open>The deferred clean-up: if the channel is still subscribed, remove and close it.\<close>

definition unsubscribe :: "mem_chan \<Rightarrow> subscriber \<Rightarrow> (mem_chan \<times> subscriber) go" where
  "unsubscribe c g =
     (let i = su_chan g in
      if i \<in> set (mc_subs c) then do {
        ch \<leftarrow> close_chan (mc_chans c ! i);
        Some (c\<lparr>mc_subs := remove1 i (mc_subs c), mc_chans := (mc_chans c)[i := ch]\<rparr>, g\<lparr>su_phase := Gone\<rparr>) }
      else Some (c, g\<lparr>su_phase := Gone\<rparr>))"

section \<open>Closing, inspection, hub\<close>

fun close_all :: "nat list \<Rightarrow> chan list \<Rightarrow> chan list go" where
  "close_all [] chs = Some chs"
| "close_all (i # is) chs = do { ch \<leftarrow> close_chan (chs ! i); close_all is (chs[i := ch]) }"

definition Close_memchan :: "mem_chan \<Rightarrow> (mem_chan \<times> go_error option) go" where
  "Close_memchan c =
     (if mc_closed c then Some (c, None)
      else do {
        chs \<leftarrow> close_all (mc_subs c) (mc_chans c);
        Some (c\<lparr>mc_closed := True, mc_chans := chs, mc_events := [], mc_subs := []\<rparr>, None) })"

record mem_chan_stats =
  TotalEvents_chan :: nat
  ActiveSubscribers :: nat
  ChannelCapacity :: int
  Closed_chan :: bool

definition Stats_memchan :: "mem_chan \<Rightarrow> mem_chan_stats" where
  "Stats_memchan c = \<lparr>TotalEvents_chan = length (mc_events c), ActiveSubscribers = length (mc_subs c),
     ChannelCapacity = mc_capacity c, Closed_chan = mc_closed c\<rparr>"

definition GetEvents :: "mem_chan \<Rightarrow> event_with_version list" where
  "GetEvents c = mc_events c"

definition ClearEvents :: "mem_chan \<Rightarrow> mem_chan" where
  "ClearEvents c = c\<lparr>mc_events := []\<rparr>"

definition CreatePair :: "int \<Rightarrow> mem_chan \<times> mem_chan" where
  "CreatePair capacity = (New_memchan capacity, New_memchan capacity)"

text \<open>
  A hub names transports by address: two names may stand for one transport. \<open>mem\<close> holds the transports;
  the loop over the map takes the order of the names as an argument, and the polls of the context by the push
  to each name.
\<close>

record hub =
  hub_transports :: "(string, nat) fmap"
  hub_events :: "event_with_version list"

definition NewHub :: hub where
  "NewHub = \<lparr>hub_transports = fmempty, hub_events = []\<rparr>"

definition AddTransport :: "hub \<Rightarrow> string \<Rightarrow> nat \<Rightarrow> hub" where
  "AddTransport h name t = h\<lparr>hub_transports := fmupd name t (hub_transports h)\<rparr>"

definition RemoveTransport :: "hub \<Rightarrow> string \<Rightarrow> hub" where
  "RemoveTransport h name = h\<lparr>hub_transports := fmdrop name (hub_transports h)\<rparr>"

fun broadcast_loop ::
  "(string, nat) fmap \<Rightarrow> (string \<Rightarrow> nat \<Rightarrow> go_error option) \<Rightarrow> (string \<Rightarrow> nat \<Rightarrow> bool) \<Rightarrow> event_with_version list \<Rightarrow> string list
     \<Rightarrow> mem_chan list \<Rightarrow> (mem_chan list \<times> go_error option) go" where
  "broadcast_loop ts done pick evs [] mem = Some (mem, None)"
| "broadcast_loop ts done pick evs (name # names) mem = do {
     a \<leftarrow> fmlookup ts name;
     (c, err) \<leftarrow> Push_memchan (done name) (pick name) (mem ! a) evs;
     (case err of
        Some e \<Rightarrow> Some (mem[a := c],
          Some (WrapError (''failed to broadcast to transport '' @ name @ '': '') e))
      | None \<Rightarrow> broadcast_loop ts done pick evs names (mem[a := c])) }"

definition Broadcast ::
  "string list \<Rightarrow> (string \<Rightarrow> nat \<Rightarrow> go_error option) \<Rightarrow> (string \<Rightarrow> nat \<Rightarrow> bool) \<Rightarrow> hub \<Rightarrow> mem_chan list \<Rightarrow> event_with_version list
     \<Rightarrow> (hub \<times> mem_chan list \<times> go_error option) go" where
  "Broadcast names done pick h mem evs = do {
     (mem', err) \<leftarrow> broadcast_loop (hub_transports h) done pick evs names mem;
     Some (h\<lparr>hub_events := hub_events h @ evs\<rparr>, mem', err) }"

definition GetHubEvents :: "hub \<Rightarrow> event_with_version list" where
  "GetHubEvents h = hub_events h"

text \<open>The transport in the shape of the interface, under a context that does not change during a call.\<close>

definition memchan_ops :: "mem_chan transport_ops" where
  "memchan_ops = \<lparr>tr_Push = (\<lambda>c ctx evs. Push_memchan (\<lambda>_. ctx) (\<lambda>_. True) c evs),
     tr_Pull = (\<lambda>c ctx v. map_option (\<lambda>r. (c, r)) (Pull_memchan c ctx v)),
     tr_GetLatestVersion = (\<lambda>c ctx. Some (c, GetLatestVersion_memchan c ctx)),
     tr_Close = Close_memchan\<rparr>"

section \<open>Interleavings\<close>

text \<open>
  A world is the transport, the goroutines of its subscribers and, to state what is delivered, the events that
  were given to \<open>Push\<close> so far.
\<close>

record mc_world =
  w_chan :: mem_chan
  w_subs :: "subscriber list"
  w_pushed :: "event option list"

definition New_world :: "int \<Rightarrow> mc_world" where
  "New_world capacity = \<lparr>w_chan = New_memchan capacity, w_subs = [], w_pushed = []\<rparr>"

inductive mc_step :: "mc_world \<Rightarrow> mc_world \<Rightarrow> bool" where
  step_push: "Push_memchan done pick (w_chan w) evs = Some (c, err) \<Longrightarrow>
     mc_step w (w\<lparr>w_chan := c, w_pushed := w_pushed w @ map ev_Event evs\<rparr>)"
| step_clear: "mc_step w (w\<lparr>w_chan := ClearEvents (w_chan w)\<rparr>)"
| step_close: "Close_memchan (w_chan w) = Some (c, err) \<Longrightarrow> mc_step w (w\<lparr>w_chan := c\<rparr>)"
| step_subscribe: "Subscribe_memchan (w_chan w) (Some h) = (c, Some g, None) \<Longrightarrow>
     mc_step w (w\<lparr>w_chan := c, w_subs := w_subs w @ [g]\<rparr>)"
| step_receive: "i < length (w_subs w) \<Longrightarrow> su_phase (w_subs w ! i) = Running \<Longrightarrow>
     on_receive now (w_chan w) (w_subs w ! i) = (c, g) \<Longrightarrow> mc_step w (w\<lparr>w_chan := c, w_subs := (w_subs w)[i := g]\<rparr>)"
| step_done: "i < length (w_subs w) \<Longrightarrow> su_phase (w_subs w ! i) = Running \<Longrightarrow>
     mc_step w (w\<lparr>w_subs := (w_subs w)[i := on_done (w_subs w ! i)]\<rparr>)"
| step_ticker: "i < length (w_subs w) \<Longrightarrow> su_phase (w_subs w ! i) = Running \<Longrightarrow>
     mc_step w (w\<lparr>w_subs := (w_subs w)[i := on_ticker (w_subs w ! i)]\<rparr>)"
| step_leave: "i < length (w_subs w) \<Longrightarrow> su_phase (w_subs w ! i) = Leaving \<Longrightarrow>
     unsubscribe (w_chan w) (w_subs w ! i) = Some (c, g) \<Longrightarrow> mc_step w (w\<lparr>w_chan := c, w_subs := (w_subs w)[i := g]\<rparr>)"

inductive mc_reachable :: "int \<Rightarrow> mc_world \<Rightarrow> bool" for capacity where
  reach_new: "mc_reachable capacity (New_world capacity)"
| reach_step: "mc_reachable capacity w \<Longrightarrow> mc_step w w' \<Longrightarrow> mc_reachable capacity w'"

section \<open>Channels are used safely\<close>

text \<open>Subscribed channels exist, are open and are subscribed once.\<close>

definition chans_ok :: "mem_chan \<Rightarrow> bool" where
  "chans_ok c \<longleftrightarrow> distinct (mc_subs c) \<and> (\<forall>i \<in> set (mc_subs c). i < length (mc_chans c) \<and> \<not> ch_closed (mc_chans c ! i))"

text \<open>How a push changes the channels: only by appending to the buffers of subscribed ones.\<close>

definition chan_grows :: "event option list \<Rightarrow> chan \<Rightarrow> chan \<Rightarrow> bool" where
  "chan_grows evs ch ch' \<longleftrightarrow> (\<exists>es. subseq es evs \<and> ch' = ch\<lparr>ch_buf := ch_buf ch @ es\<rparr>
     \<and> (length (ch_buf ch) \<le> ch_cap ch \<longrightarrow> length (ch_buf ch') \<le> ch_cap ch))"

definition sends :: "event option list \<Rightarrow> nat list \<Rightarrow> chan list \<Rightarrow> chan list \<Rightarrow> bool" where
  "sends evs subs chs chs' \<longleftrightarrow> length chs' = length chs \<and>
     (\<forall>i < length chs. if i \<in> set subs then chan_grows evs (chs ! i) (chs' ! i) else chs' ! i = chs ! i)"

lemma chan_grows_refl [simp]: "chan_grows evs ch ch"
  unfolding chan_grows_def by (intro exI [of _ "[]"]) simp

lemma chan_grows_fixed: "chan_grows evs ch ch' \<Longrightarrow> ch_closed ch' = ch_closed ch \<and> ch_cap ch' = ch_cap ch"
  by (auto simp: chan_grows_def)

lemma chan_grows_trans:
  assumes "chan_grows evs a b" and "chan_grows evs' b c"
  shows "chan_grows (evs @ evs') a c"
proof -
  obtain es where e: "subseq es evs" "b = a\<lparr>ch_buf := ch_buf a @ es\<rparr>"
    and eb: "length (ch_buf a) \<le> ch_cap a \<longrightarrow> length (ch_buf b) \<le> ch_cap a"
    using assms(1) unfolding chan_grows_def by blast
  obtain es' where e': "subseq es' evs'" "c = b\<lparr>ch_buf := ch_buf b @ es'\<rparr>"
    and eb': "length (ch_buf b) \<le> ch_cap b \<longrightarrow> length (ch_buf c) \<le> ch_cap b"
    using assms(2) unfolding chan_grows_def by blast
  have "c = a\<lparr>ch_buf := ch_buf a @ es @ es'\<rparr>" using e(2) e'(2) by simp
  moreover have "length (ch_buf a) \<le> ch_cap a \<longrightarrow> length (ch_buf c) \<le> ch_cap a" using eb eb' e(2) by simp
  moreover have "subseq (es @ es') (evs @ evs')" using e(1) e'(1) by (rule list_emb_append_mono)
  ultimately show ?thesis unfolding chan_grows_def by blast
qed

lemma sends_refl: "sends evs subs chs chs"
  by (simp add: sends_def)

lemma sends_trans: "sends evs subs a b \<Longrightarrow> sends evs' subs b c \<Longrightarrow> sends (evs @ evs') subs a c"
  unfolding sends_def by (metis chan_grows_trans)

lemma sends_open: "sends evs subs a b \<Longrightarrow> i < length a \<Longrightarrow> ch_closed (b ! i) = ch_closed (a ! i)"
  using chan_grows_fixed [of evs "a ! i" "b ! i"] by (auto simp: sends_def split: if_splits)

lemma select_send_open:
  assumes "\<not> ch_closed ch"
  shows "\<exists>ch' err. select_send done pick evt ch = Some (ch', err) \<and> chan_grows [evt] ch ch'"
proof -
  let ?S = "ch\<lparr>ch_buf := ch_buf ch @ [evt]\<rparr>"
  have "(\<exists>err. select_send done pick evt ch = Some (?S, err) \<and> length (ch_buf ch) < ch_cap ch)
      \<or> (\<exists>err. select_send done pick evt ch = Some (ch, err))"
    using assms by (cases "length (ch_buf ch) < ch_cap ch"; cases "done"; cases pick) (simp_all add: select_send_def)
  moreover have "chan_grows [evt] ch ?S" if "length (ch_buf ch) < ch_cap ch"
    using that unfolding chan_grows_def by (intro exI [of _ "[evt]"]) simp
  ultimately show ?thesis by auto
qed

lemma sends_disjoint:
  "sends evs [i] a b \<Longrightarrow> sends evs is b c \<Longrightarrow> i \<notin> set is \<Longrightarrow> sends evs (i # is) a c"
  by (simp add: sends_def) metis

lemma notify_subs_open:
  assumes "distinct is" and "\<forall>i \<in> set is. i < length chs \<and> \<not> ch_closed (chs ! i)"
  shows "\<exists>n' chs' err. notify_subs done pick n evt is chs = Some (n', chs', err) \<and> sends [evt] is chs chs'"
  using assms
proof (induction "is" arbitrary: n chs)
  case Nil
  then show ?case by (simp add: sends_refl)
next
  case (Cons i "is")
  obtain ch' err where s: "select_send (done n) (pick n) evt (chs ! i) = Some (ch', err)" and g: "chan_grows [evt] (chs ! i) ch'"
    using Cons.prems(2) select_send_open [of "chs ! i" "done n" "pick n" evt] by auto
  let ?b = "chs[i := ch']"
  have one: "sends [evt] [i] chs ?b" using g Cons.prems(2) by (simp add: sends_def nth_list_update)
  have i: "i \<notin> set is" "distinct is" using Cons.prems(1) by simp_all
  have "\<forall>j \<in> set is. j < length ?b \<and> \<not> ch_closed (?b ! j)"
    using Cons.prems(2) i by (metis length_list_update list.set_intros(2) nth_list_update_neq)
  with Cons.IH [OF i(2)] obtain n' chs' err' where r: "notify_subs done pick (Suc n) evt is ?b = Some (n', chs', err')"
    "sends [evt] is ?b chs'" by blast
  show ?case
  proof (cases err)
    case None
    with s r sends_disjoint [OF one r(2) i(1)] show ?thesis by simp
  next
    case (Some e)
    with s sends_disjoint [OF one sends_refl i(1)] show ?thesis by simp
  qed
qed

lemma sends_mono: "sends evs subs a b \<Longrightarrow> subseq evs evs' \<Longrightarrow> sends evs' subs a b"
  unfolding sends_def chan_grows_def by (meson subseq_order.order_trans)

lemma notify_all_open:
  assumes "distinct subs" and "\<forall>i \<in> set subs. i < length chs \<and> \<not> ch_closed (chs ! i)"
  shows "\<exists>chs' err. notify_all done pick n evs subs chs = Some (chs', err) \<and> sends (map ev_Event evs) subs chs chs'"
  using assms
proof (induction evs arbitrary: n chs)
  case Nil
  then show ?case by (simp add: sends_refl)
next
  case (Cons ev evs)
  obtain n' chs1 err where 1: "notify_subs done pick n (ev_Event ev) subs chs = Some (n', chs1, err)"
    "sends [ev_Event ev] subs chs chs1"
    using notify_subs_open [OF Cons.prems] by blast
  show ?case
  proof (cases err)
    case None
    have "\<forall>i \<in> set subs. i < length chs1 \<and> \<not> ch_closed (chs1 ! i)"
      using Cons.prems(2) 1(2) sends_open [OF 1(2)] by (simp add: sends_def)
    with Cons.IH [OF Cons.prems(1)] obtain chs' err' where
      "notify_all done pick n' evs subs chs1 = Some (chs', err')" "sends (map ev_Event evs) subs chs1 chs'" by blast
    then show ?thesis using 1 None sends_trans [OF 1(2), of "map ev_Event evs" chs'] by auto
  next
    case (Some e)
    then show ?thesis using 1 sends_mono [OF 1(2), of "ev_Event ev # map ev_Event evs"] by auto
  qed
qed

lemma Push_memchan_ok:
  assumes "chans_ok c"
  shows "\<exists>c' err. Push_memchan done pick c evs = Some (c', err) \<and> mc_subs c' = mc_subs c
    \<and> mc_closed c' = mc_closed c \<and> sends (map ev_Event evs) (mc_subs c) (mc_chans c) (mc_chans c')"
proof -
  obtain chs' err where "notify_all done pick 1 evs (mc_subs c) (mc_chans c) = Some (chs', err)"
    "sends (map ev_Event evs) (mc_subs c) (mc_chans c) chs'"
    using notify_all_open [of "mc_subs c" "mc_chans c"] assms unfolding chans_ok_def by blast
  moreover have "sends (map ev_Event evs) (mc_subs c) (mc_chans c) (mc_chans c)" by (rule sends_refl)
  ultimately show ?thesis by (cases "done 0"; cases "mc_closed c") (auto simp: Push_memchan_def)
qed

lemma close_all_open:
  assumes "distinct is" and "\<forall>i \<in> set is. i < length chs \<and> \<not> ch_closed (chs ! i)"
  shows "\<exists>chs'. close_all is chs = Some chs' \<and> length chs' = length chs
    \<and> (\<forall>j < length chs. chs' ! j = (if j \<in> set is then (chs ! j)\<lparr>ch_closed := True\<rparr> else chs ! j))"
  using assms
proof (induction "is" arbitrary: chs)
  case (Cons i "is")
  let ?b = "chs[i := (chs ! i)\<lparr>ch_closed := True\<rparr>]"
  have "close_all (i # is) chs = close_all is ?b" using Cons.prems(2) by (simp add: close_chan_def)
  moreover have i: "i \<notin> set is" "distinct is" using Cons.prems(1) by simp_all
  moreover have "\<forall>j \<in> set is. j < length ?b \<and> \<not> ch_closed (?b ! j)"
    using Cons.prems(2) i by (metis length_list_update list.set_intros(2) nth_list_update_neq)
  with Cons.IH [OF i(2)] obtain chs' where "close_all is ?b = Some chs'" "length chs' = length ?b"
    "\<forall>j < length ?b. chs' ! j = (if j \<in> set is then (?b ! j)\<lparr>ch_closed := True\<rparr> else ?b ! j)" by blast
  ultimately show ?case using Cons.prems by (auto simp: nth_list_update)
qed simp

lemma Close_memchan_ok:
  assumes "chans_ok c"
  shows "\<exists>c'. Close_memchan c = Some (c', None) \<and> chans_ok c' \<and> length (mc_chans c') = length (mc_chans c)
    \<and> (\<forall>i < length (mc_chans c). ch_buf (mc_chans c' ! i) = ch_buf (mc_chans c ! i) \<and> ch_cap (mc_chans c' ! i) = ch_cap (mc_chans c ! i))"
proof (cases "mc_closed c")
  case True
  then show ?thesis using assms by (simp add: Close_memchan_def)
next
  case False
  obtain chs' where "close_all (mc_subs c) (mc_chans c) = Some chs'" "length chs' = length (mc_chans c)"
    "\<forall>j < length (mc_chans c). chs' ! j = (if j \<in> set (mc_subs c) then (mc_chans c ! j)\<lparr>ch_closed := True\<rparr> else mc_chans c ! j)"
    using close_all_open [of "mc_subs c" "mc_chans c"] assms unfolding chans_ok_def by blast
  then show ?thesis using False by (simp add: Close_memchan_def chans_ok_def)
qed

lemma unsubscribe_ok:
  assumes "chans_ok c"
  shows "\<exists>c'. unsubscribe c g = Some (c', g\<lparr>su_phase := Gone\<rparr>) \<and> chans_ok c' \<and> length (mc_chans c') = length (mc_chans c)
    \<and> (\<forall>i < length (mc_chans c). ch_buf (mc_chans c' ! i) = ch_buf (mc_chans c ! i) \<and> ch_cap (mc_chans c' ! i) = ch_cap (mc_chans c ! i))"
proof (cases "su_chan g \<in> set (mc_subs c)")
  case True
  let ?i = "su_chan g" and ?chs = "mc_chans c"
  have open_i: "?i < length ?chs" "\<not> ch_closed (?chs ! ?i)" "distinct (mc_subs c)"
    using assms True by (auto simp: chans_ok_def)
  let ?c = "c\<lparr>mc_subs := remove1 ?i (mc_subs c), mc_chans := ?chs[?i := (?chs ! ?i)\<lparr>ch_closed := True\<rparr>]\<rparr>"
  have "unsubscribe c g = Some (?c, g\<lparr>su_phase := Gone\<rparr>)" using True open_i by (simp add: unsubscribe_def close_chan_def Let_def)
  moreover have "chans_ok ?c" using assms open_i by (auto simp: chans_ok_def nth_list_update)
  ultimately show ?thesis using open_i(1) by (auto simp: nth_list_update)
next
  case False
  then show ?thesis using assms by (simp add: unsubscribe_def)
qed

section \<open>Invariant of the interleavings\<close>

text \<open>What a goroutine has taken from its channel.\<close>

definition taken :: "subscriber \<Rightarrow> event_with_version list" where
  "taken g = concat (su_handled g) @ (if su_phase g = Running then su_batch g else [])"

definition sub_ok :: "mc_world \<Rightarrow> nat \<Rightarrow> bool" where
  "sub_ok w i \<longleftrightarrow> su_chan (w_subs w ! i) = i
     \<and> length (ch_buf (mc_chans (w_chan w) ! i)) \<le> ch_cap (mc_chans (w_chan w) ! i)
     \<and> subseq (map ev_Event (taken (w_subs w ! i)) @ ch_buf (mc_chans (w_chan w) ! i)) (w_pushed w)"

definition world_ok :: "mc_world \<Rightarrow> bool" where
  "world_ok w \<longleftrightarrow> chans_ok (w_chan w) \<and> length (w_subs w) = length (mc_chans (w_chan w))
     \<and> (\<forall>i < length (w_subs w). sub_ok w i)"

lemma handle_batch_simps [simp]:
  "su_chan (handle_batch g) = su_chan g" "su_batch (handle_batch g) = su_batch g" "su_phase (handle_batch g) = su_phase g"
  "concat (su_handled (handle_batch g)) = concat (su_handled g) @ su_batch g"
  by (simp_all add: handle_batch_def)

lemma taken_steps:
  "su_phase g = Running \<Longrightarrow> taken (on_done g) = taken g"
  "su_phase g = Running \<Longrightarrow> taken (on_ticker g) = taken g"
  "su_phase g = Leaving \<Longrightarrow> taken (g\<lparr>su_phase := Gone\<rparr>) = taken g"
  by (simp_all add: taken_def on_done_def on_ticker_def)

lemma world_ok_New: "world_ok (New_world capacity)"
  by (simp add: world_ok_def New_world_def New_memchan_def chans_ok_def)

text \<open>Steps that keep the buffers, the taken events and the channel of every goroutine.\<close>

lemma world_ok_same:
  assumes "world_ok w" and "chans_ok (w_chan w')" and "length (mc_chans (w_chan w')) = length (mc_chans (w_chan w))"
    and "length (w_subs w') = length (w_subs w)" and "w_pushed w' = w_pushed w"
    and "\<And>i. i < length (w_subs w) \<Longrightarrow> ch_buf (mc_chans (w_chan w') ! i) = ch_buf (mc_chans (w_chan w) ! i)
      \<and> ch_cap (mc_chans (w_chan w') ! i) = ch_cap (mc_chans (w_chan w) ! i)
      \<and> taken (w_subs w' ! i) = taken (w_subs w ! i) \<and> su_chan (w_subs w' ! i) = su_chan (w_subs w ! i)"
  shows "world_ok w'"
  using assms by (simp add: world_ok_def sub_ok_def)

lemma world_ok_push:
  assumes w: "world_ok w" and "Push_memchan done pick (w_chan w) evs = Some (c, err)"
  shows "world_ok (w\<lparr>w_chan := c, w_pushed := w_pushed w @ map ev_Event evs\<rparr>)"
proof -
  have s: "sends (map ev_Event evs) (mc_subs (w_chan w)) (mc_chans (w_chan w)) (mc_chans c)" "mc_subs c = mc_subs (w_chan w)"
    using Push_memchan_ok [of "w_chan w" "done" pick evs] assms by (auto simp: world_ok_def)
  have ok: "chans_ok c" using w s sends_open [OF s(1)] by (simp add: world_ok_def chans_ok_def sends_def)
  have "sub_ok (w\<lparr>w_chan := c, w_pushed := w_pushed w @ map ev_Event evs\<rparr>) i" if i: "i < length (w_subs w)" for i
  proof -
    let ?a = "mc_chans (w_chan w) ! i" and ?b = "mc_chans c ! i"
    have "sub_ok w i" "i < length (mc_chans (w_chan w))" using w i by (auto simp: world_ok_def)
    moreover from this have "chan_grows (map ev_Event evs) ?a ?b" using s(1) by (auto simp: sends_def split: if_splits)
    then obtain es where "subseq es (map ev_Event evs)" "?b = ?a\<lparr>ch_buf := ch_buf ?a @ es\<rparr>"
      "length (ch_buf ?a) \<le> ch_cap ?a \<longrightarrow> length (ch_buf ?b) \<le> ch_cap ?a" unfolding chan_grows_def by blast
    ultimately show ?thesis
      using list_emb_append_mono [of "(=)" "map ev_Event (taken (w_subs w ! i)) @ ch_buf ?a" "w_pushed w" es "map ev_Event evs"]
      by (simp add: sub_ok_def)
  qed
  then show ?thesis using w ok s(1) by (simp add: world_ok_def sends_def)
qed

lemma world_ok_subscribe:
  assumes "world_ok w" and "Subscribe_memchan (w_chan w) (Some h) = (c, Some g, None)"
  shows "world_ok (w\<lparr>w_chan := c, w_subs := w_subs w @ [g]\<rparr>)"
  using assms
  by (auto simp: Subscribe_memchan_def Let_def world_ok_def sub_ok_def chans_ok_def nth_append less_Suc_eq taken_def)

text \<open>A receive takes the head of the buffer, or finds the channel closed, or has nothing to do.\<close>

lemma on_receive_cases:
  assumes "on_receive now c g = (c', g')"
  obtains (take) ev rest where "ch_buf (mc_chans c ! su_chan g) = ev # rest"
      "c' = c\<lparr>mc_chans := (mc_chans c)[su_chan g := (mc_chans c ! su_chan g)\<lparr>ch_buf := rest\<rparr>]\<rparr>"
      "g' = g\<lparr>su_batch := su_batch g @ [\<lparr>ev_Event = ev, ev_Version = Some (IntegerCursor now)\<rparr>]\<rparr>"
  | (drained) "c' = c" "g' = on_done g"
  | (wait) "c' = c" "g' = g"
  using assms by (cases "ch_buf (mc_chans c ! su_chan g)") (auto simp: on_receive_def on_done_def Let_def split: if_splits)

lemma world_ok_receive:
  assumes w: "world_ok w" and i: "i < length (w_subs w)" and r: "su_phase (w_subs w ! i) = Running"
    and o: "on_receive now (w_chan w) (w_subs w ! i) = (c, g)"
  shows "world_ok (w\<lparr>w_chan := c, w_subs := (w_subs w)[i := g]\<rparr>)"
  using o
proof (cases rule: on_receive_cases)
  case (take ev rest)
  have ch: "su_chan (w_subs w ! i) = i" "i < length (mc_chans (w_chan w))" "sub_ok w i"
    using w i by (auto simp: world_ok_def sub_ok_def)
  have "chans_ok c" using w take ch by (auto simp: world_ok_def chans_ok_def nth_list_update)
  moreover have "sub_ok (w\<lparr>w_chan := c, w_subs := (w_subs w)[i := g]\<rparr>) j" if "j < length (w_subs w)" for j
  proof (cases "j = i")
    case True
    then show ?thesis using take ch i r by (simp add: sub_ok_def taken_def)
  next
    case False
    then show ?thesis using take ch w that by (simp add: sub_ok_def world_ok_def)
  qed
  ultimately show ?thesis using w take by (simp add: world_ok_def)
next
  case drained
  have g: "taken g = taken (w_subs w ! i)" "su_chan g = su_chan (w_subs w ! i)"
    using taken_steps(1) [OF r] drained by (simp_all add: on_done_def)
  show ?thesis
    by (rule world_ok_same [OF w]) (use w drained i g in \<open>auto simp: world_ok_def nth_list_update\<close>)
next
  case wait
  then show ?thesis using w by simp
qed

lemma world_ok_step: "mc_step w w' \<Longrightarrow> world_ok w \<Longrightarrow> world_ok w'"
proof (induction rule: mc_step.induct)
  case (step_push "done" pick w evs c err)
  then show ?case by (intro world_ok_push)
next
  case (step_clear w)
  then show ?case by (intro world_ok_same [OF step_clear]) (auto simp: ClearEvents_def world_ok_def chans_ok_def)
next
  case (step_close w c err)
  have "\<exists>c'. Close_memchan (w_chan w) = Some (c', None) \<and> chans_ok c' \<and> length (mc_chans c') = length (mc_chans (w_chan w))
    \<and> (\<forall>i < length (mc_chans (w_chan w)). ch_buf (mc_chans c' ! i) = ch_buf (mc_chans (w_chan w) ! i)
        \<and> ch_cap (mc_chans c' ! i) = ch_cap (mc_chans (w_chan w) ! i))"
    using Close_memchan_ok step_close.prems by (simp add: world_ok_def)
  with step_close show ?case by (intro world_ok_same [OF step_close.prems]) (auto simp: world_ok_def)
next
  case (step_subscribe w h c g)
  then show ?case by (intro world_ok_subscribe)
next
  case (step_receive i w now c g)
  then show ?case by (intro world_ok_receive)
next
  case (step_done i w)
  have "taken (on_done (w_subs w ! i)) = taken (w_subs w ! i)" "su_chan (on_done (w_subs w ! i)) = su_chan (w_subs w ! i)"
    using taken_steps(1) [OF step_done(2)] by (simp_all add: on_done_def)
  with step_done show ?case by (intro world_ok_same [OF step_done.prems]) (auto simp: world_ok_def nth_list_update)
next
  case (step_ticker i w)
  have "taken (on_ticker (w_subs w ! i)) = taken (w_subs w ! i)" "su_chan (on_ticker (w_subs w ! i)) = su_chan (w_subs w ! i)"
    using taken_steps(2) [OF step_ticker(2)] by (simp_all add: on_ticker_def)
  with step_ticker show ?case by (intro world_ok_same [OF step_ticker.prems]) (auto simp: world_ok_def nth_list_update)
next
  case (step_leave i w c g)
  have "taken ((w_subs w ! i)\<lparr>su_phase := Gone\<rparr>) = taken (w_subs w ! i)" by (rule taken_steps(3) [OF step_leave(2)])
  moreover have "\<exists>c'. unsubscribe (w_chan w) (w_subs w ! i) = Some (c', (w_subs w ! i)\<lparr>su_phase := Gone\<rparr>) \<and> chans_ok c'
    \<and> length (mc_chans c') = length (mc_chans (w_chan w))
    \<and> (\<forall>j < length (mc_chans (w_chan w)). ch_buf (mc_chans c' ! j) = ch_buf (mc_chans (w_chan w) ! j)
        \<and> ch_cap (mc_chans c' ! j) = ch_cap (mc_chans (w_chan w) ! j))"
    using unsubscribe_ok step_leave.prems by (simp add: world_ok_def)
  ultimately show ?case using step_leave
    by (intro world_ok_same [OF step_leave.prems]) (auto simp: world_ok_def nth_list_update)
qed

lemma reachable_world_ok: "mc_reachable capacity w \<Longrightarrow> world_ok w"
  by (induction rule: mc_reachable.induct) (auto intro: world_ok_New world_ok_step)

section \<open>Properties\<close>


text \<open>
  A run with one subscriber and room for one event in its channel: of two pushed events the second is
  dropped, the first reaches the handler under a new version.
\<close>

definition plain_event :: "string \<Rightarrow> u64 \<Rightarrow> event_with_version" where
  "plain_event n q = \<lparr>ev_Event = Some (New_event 0 n n n []), ev_Version = Some (IntegerCursor q)\<rparr>"

definition demo_world :: mc_world where
  "demo_world =
     \<lparr>w_chan = \<lparr>mc_events = [plain_event ''a'' 1, plain_event ''b'' 2], mc_subs = [0], mc_capacity = 1, mc_closed = False,
        mc_chans = [\<lparr>ch_buf = [], ch_cap = 1, ch_closed = False\<rparr>]\<rparr>,
      w_subs = [\<lparr>su_chan = 0, su_batch = [], su_phase = Running, su_handled = [[plain_event ''a'' 77]]\<rparr>],
      w_pushed = [Some (New_event 0 ''a'' ''a'' ''a'' []), Some (New_event 0 ''b'' ''b'' ''b'' [])]\<rparr>"

lemma demo_reachable: "mc_reachable 1 demo_world"
proof -
  let ?g = "\<lparr>su_chan = 0, su_batch = [], su_phase = Running, su_handled = []\<rparr>"
  let ?ch = "\<lparr>ch_buf = [], ch_cap = 1, ch_closed = False\<rparr>"
  let ?c1 = "\<lparr>mc_events = [], mc_subs = [0], mc_capacity = 1, mc_closed = False, mc_chans = [?ch]\<rparr>"
  let ?e = "New_event 0 ''a'' ''a'' ''a'' []" and ?evs = "[plain_event ''a'' 1, plain_event ''b'' 2]"
  let ?w1 = "(New_world 1)\<lparr>w_chan := ?c1, w_subs := w_subs (New_world 1) @ [?g]\<rparr>"
  have 1: "mc_reachable 1 ?w1"
    by (rule reach_step [OF reach_new], rule step_subscribe [of _ 0])
      (simp add: Subscribe_memchan_def New_world_def New_memchan_def)
  let ?c2 = "?c1\<lparr>mc_events := ?evs, mc_chans := [?ch\<lparr>ch_buf := [Some ?e]\<rparr>]\<rparr>"
  have 2: "mc_reachable 1 (?w1\<lparr>w_chan := ?c2, w_pushed := w_pushed ?w1 @ map ev_Event ?evs\<rparr>)" (is "mc_reachable 1 ?w2")
    by (rule reach_step [OF 1], rule step_push [of "\<lambda>_. None" "\<lambda>_. True" _ _ _ None])
      (simp add: Push_memchan_def select_send_def plain_event_def New_world_def)
  let ?c3 = "?c1\<lparr>mc_events := ?evs\<rparr>" and ?g3 = "?g\<lparr>su_batch := [plain_event ''a'' 77]\<rparr>"
  have 3: "mc_reachable 1 (?w2\<lparr>w_chan := ?c3, w_subs := (w_subs ?w2)[0 := ?g3]\<rparr>)" (is "mc_reachable 1 ?w3")
    by (rule reach_step [OF 2], rule step_receive [of _ _ 77]) (simp_all add: New_world_def on_receive_def plain_event_def)
  have "mc_reachable 1 (?w3\<lparr>w_subs := (w_subs ?w3)[0 := on_ticker (w_subs ?w3 ! 0)]\<rparr>)"
    by (rule reach_step [OF 3], rule step_ticker) (simp_all add: New_world_def)
  then show ?thesis
    by (simp add: demo_world_def New_world_def on_ticker_def handle_batch_def plain_event_def)
qed


end
