(* ===== verification/Replication.thy ===== *)
theory Replication
  imports Sync_Properties Mem_Chan
begin

text \<open>
  Two sync managers with memory stores that exchange events over one memory transport: the
  repository's parts put together. The first section shows what the transport keeps, the second that a push
  makes the transport hold the whole log of the writer and a pull makes a replica of it catch up, the third what happens
  when both sides write.
\<close>

section \<open>The transport\<close>

lemma max_version_seq: "max_version m (ev # evs) = max_version (max m (seq_of ev)) evs"
  by (cases "ev_Version ev") (auto simp: seq_of_def max_def not_less split: version.splits)

lemma max_version_snoc: "max_version m (evs @ [ev]) = max (max_version m evs) (seq_of ev)"
  by (induction evs arbitrary: m) (simp_all add: max_version_seq del: max_version.simps(2))

lemma max_version_prefix:
  assumes "store_inv s" and "\<not> closed s" and "length (events s) < 2 ^ 64" and "m \<le> length (events s)"
  shows "max_version 0 (take m (events s)) = of_nat m"
  using assms(4)
proof (induction m)
  case (Suc m)
  then have m: "m < length (events s)" by simp
  have "unat (seq_of (events s ! m)) = Suc m" by (rule seq_of_nth [OF assms(1,2) m assms(3)])
  moreover have "unat (of_nat m :: u64) = m" "unat (of_nat (Suc m) :: u64) = Suc m"
    using m assms(3) unat_of_nat64 [of m] unat_of_nat64 [of "Suc m"] by simp_all
  ultimately have "max (of_nat m) (seq_of (events s ! m)) = of_nat (Suc m)"
    by (metis max_def word_le_nat_alt word_unat_eq_iff le_Suc_eq nle_le)
  then show ?case using Suc by (simp add: take_Suc_conv_app_nth max_version_snoc)
qed simp

lemma Push_memchan_events:
  "Push_memchan d p c evs = Some (c', None) \<Longrightarrow> mc_events c' = mc_events c @ evs \<and> mc_closed c' = mc_closed c \<and> \<not> mc_closed c"
  by (auto simp: Push_memchan_def bind_eq_Some_conv split: option.splits if_splits)

lemma pushes_memchan:
  "pushes memchan_ops t bs t' \<Longrightarrow> mc_events t' = mc_events t @ concat bs \<and> mc_closed t' = mc_closed t"
proof (induction rule: pushes.induct)
  case (one t c b t' bs t'')
  then show ?case using Push_memchan_events [of "\<lambda>_. c" "\<lambda>_. True" t b t'] by (simp add: memchan_ops_def)
qed simp

text \<open>After \<open>seq\<close> in a consistent log: the positions from \<open>seq\<close> on.\<close>

lemma after_seq_drop:
  assumes "store_inv s" and "\<not> closed s" and "length (events s) < 2 ^ 64"
  shows "filter (after_seq q) (events s) = drop (unat q) (events s)"
proof -
  have "after_seq q ev = (unat (seq_of ev) > unat q)" if "ev \<in> set (events s)" for ev
    using inv_entries [OF assms(1) that] by (auto simp: after_seq_def entry_ok_def seq_of_def word_less_nat_alt)
  then have "filter (after_seq q) (events s) = filter (\<lambda>ev. unat (seq_of ev) > unat q) (events s)"
    by (intro filter_cong) auto
  also have "\<dots> = drop (unat q) (events s)"
    by (rule filter_after_drop) (rule seq_of_nth [OF assms(1,2) _ assms(3)])
  finally show ?thesis .
qed

section \<open>Push and pull over memory\<close>

lemma memchan_latest:
  assumes "log_ok s" and "mc_events t = take m (events s)" and "m \<le> length (events s)"
    and "GetLatestVersion_memchan t c = Inr v"
  shows "v = Some (IntegerCursor (of_nat m))"
proof -
  have "max_version 0 (mc_events t) = of_nat m"
    using max_version_prefix [of s m] assms by (simp add: log_ok_def)
  moreover have "mc_events t = [] \<Longrightarrow> m = 0" using assms(2,3) by auto
  ultimately show ?thesis
    using assms(4) by (auto simp: GetLatestVersion_memchan_def split: option.splits if_splits)
qed

lemma push_over_memory:
  assumes log: "log_ok (mg_store w)" and t: "mc_events (mg_transport w) = take m (events (mg_store w))"
    and m: "m \<le> length (events (mg_store w))" and f: "Filter (mg_options w) = None"
    and p: "push en memstore_ops memchan_ops w = Some (w', r, None)"
  shows "mg_store w' = mg_store w \<and> mc_events (mg_transport w') = events (mg_store w)
    \<and> mc_closed (mg_transport w') = mc_closed (mg_transport w) \<and> EventsPushed r = int (length (events (mg_store w)) - m)"
proof -
  let ?s = "mg_store w" and ?t = "mg_transport w"
  from push_cases [OF p] obtain c t1 res where s: "mg_store w' = ?s"
    and g: "tr_GetLatestVersion memchan_ops ?t c = Some (t1, res)"
    and o: "case res of
         Inl err \<Rightarrow> None = Some (NewWithComponent OpPush ''transport'' err) \<and> EventsPushed r = 0 \<and> mg_transport w' = t1
       | Inr rv \<Rightarrow> (\<exists>c' l. st_Load memstore_ops ?s c' rv = Some l \<and>
          (case l of
             Inl err \<Rightarrow> None = Some (NewWithComponent OpLoad ''store'' err) \<and> EventsPushed r = 0 \<and> mg_transport w' = t1
           | Inr evs \<Rightarrow> (\<exists>evs' batches. apply_filter (mg_options w) evs = Some evs' \<and>
               delivered en memchan_ops (batch_size (mg_options w)) evs' t1 (mg_transport w') None batches \<and>
               EventsPushed r = int (length (concat batches)))))"
    unfolding push_outcome_def by blast
  have t1: "t1 = ?t" "res = GetLatestVersion_memchan ?t c" using g by (auto simp: memchan_ops_def)
  obtain rv where rv: "res = Inr rv" using o by (cases res) auto
  then have v: "rv = Some (IntegerCursor (of_nat m))" using memchan_latest [OF log t m, of c rv] t1 by simp
  obtain c' l where l: "st_Load memstore_ops ?s c' rv = Some l"
    and ol: "case l of
             Inl err \<Rightarrow> None = Some (NewWithComponent OpLoad ''store'' err) \<and> EventsPushed r = 0 \<and> mg_transport w' = t1
           | Inr evs \<Rightarrow> (\<exists>evs' batches. apply_filter (mg_options w) evs = Some evs' \<and>
               delivered en memchan_ops (batch_size (mg_options w)) evs' t1 (mg_transport w') None batches \<and>
               EventsPushed r = int (length (concat batches)))"
    using o rv by auto
  obtain evs where evs: "l = Inr evs" using ol by (cases l) auto
  have "unat (of_nat m :: u64) = m" using m log unat_of_nat64 [of m] by (simp add: log_ok_def)
  then have e: "evs = drop m (events ?s)" using memstore_Load_None [OF log, of c' "of_nat m" evs] l v evs by simp
  obtain batches where d: "delivered en memchan_ops (batch_size (mg_options w)) evs t1 (mg_transport w') None batches"
    and n: "EventsPushed r = int (length (concat batches))"
    using ol evs f by (auto simp: apply_filter_def)
  have "pushes memchan_ops ?t batches (mg_transport w')" "concat batches = evs"
    using d t1 by (auto simp: delivered_def)
  with pushes_memchan have "mc_events (mg_transport w') = take m (events ?s) @ drop m (events ?s)"
    "mc_closed (mg_transport w') = mc_closed ?t" using t e by auto
  then show ?thesis using s n e \<open>concat batches = evs\<close> by simp
qed

text \<open>A replica holds copies of a prefix of a log.\<close>

definition replica_of :: "mem_store \<Rightarrow> mem_store \<Rightarrow> bool" where
  "replica_of s r \<longleftrightarrow> length (events r) \<le> length (events s)
     \<and> list_all2 same_payload (take (length (events r)) (store_log s)) (store_log r)"

lemma memstore_LatestVersion_Inr:
  "log_ok s \<Longrightarrow> st_LatestVersion memstore_ops s c = Some (Inr v) \<Longrightarrow> v = Some (IntegerCursor (of_nat (length (events s))))"
  using LatestVersion_open [of s] by (cases c) (auto simp: memstore_ops_def log_ok_def LatestVersion_def)

lemma pull_over_memory:
  assumes log: "log_ok s" and rlog: "log_ok (mg_store w)" and rep: "replica_of s (mg_store w)"
    and t: "mc_events (mg_transport w) = events s" and f: "Filter (mg_options w) = None"
    and p: "pull en memstore_ops memchan_ops w = Some (w', r, None)"
    and k: "EventsPulled r \<le> int (length (events s) - length (events (mg_store w)))"
  shows "list_all2 same_payload (store_log s) (store_log (mg_store w'))
    \<and> EventsPulled r = int (length (events s) - length (events (mg_store w)))"
proof -
  let ?r = "mg_store w" and ?j = "length (events (mg_store w))"
  let ?k = "length (events s) - ?j"
  have len: "?j \<le> length (events s)" using rep by (simp add: replica_of_def)
  have room: "memstore_room ?k ?r" using log rlog len by (simp add: memstore_room_def log_ok_def)
  obtain c c' v t' evs evs' new where v: "st_LatestVersion memstore_ops ?r c = Some (Inr v)"
    and pl: "tr_Pull memchan_ops (mg_transport w) c' v = Some (t', Inr evs)"
    and fl: "apply_filter (mg_options w) evs = Some evs'" and n: "EventsPulled r = int (length evs')"
    and new: "store_log (mg_store w') = store_log ?r @ new"
    and pay: "list_all2 (\<lambda>ev e'. \<exists>e. ev_Event ev = Some e \<and> same_payload e e') evs' new"
    using ms.pull_never_resolves [OF room p] k by auto
  have "unat (of_nat ?j :: u64) = ?j" using rlog by (simp add: log_ok_def unat_of_nat64)
  then have "evs = drop ?j (events s)"
    using memstore_LatestVersion_Inr [OF rlog v] pl log t after_seq_drop [of s "of_nat ?j"]
    by (cases c') (auto simp: memchan_ops_def Pull_memchan_def since_seq_def log_ok_def split: if_splits)
  moreover have "evs' = evs" using fl f by (simp add: apply_filter_def)
  ultimately have e: "evs' = drop ?j (events s)" by simp
  have "list_all2 same_payload (drop ?j (store_log s)) new"
    using pay unfolding e store_log_def drop_map list_all2_map1
    by (rule list_all2_mono) auto
  then have "list_all2 same_payload (take ?j (store_log s) @ drop ?j (store_log s)) (store_log ?r @ new)"
    using rep by (intro list_all2_appendI) (simp_all add: replica_of_def)
  then show ?thesis using new n e by simp
qed

section \<open>Without interruptions push and pull succeed\<close>

text \<open>A calm environment: no context is ever cancelled and no timeout expires.\<close>

definition calm :: "env \<Rightarrow> bool" where
  "calm en \<longleftrightarrow> (\<forall>k. done_at en k = None \<and> \<not> expired_at en k)"

lemma calm_ctx [simp]: "calm en \<Longrightarrow> ctx_err en w = None" "calm en \<Longrightarrow> op_err en w = None"
  by (simp_all add: calm_def ctx_err_def op_err_def)

lemma select_send_calm: "select_send None p evt ch = Some (ch', err) \<Longrightarrow> err = None"
  by (auto simp: select_send_def Let_def split: if_splits)

lemma notify_subs_calm: "notify_subs (\<lambda>_. None) p n evt is chs = Some (n', chs', err) \<Longrightarrow> err = None"
  by (induction "is" arbitrary: n chs) (auto simp: bind_eq_Some_conv dest: select_send_calm split: option.splits)

lemma notify_all_calm: "notify_all (\<lambda>_. None) p n evs subs chs = Some (chs', err) \<Longrightarrow> err = None"
  by (induction evs arbitrary: n chs) (auto simp: bind_eq_Some_conv dest: notify_subs_calm split: option.splits)

lemma Push_memchan_calm:
  assumes "chans_ok c" and "\<not> mc_closed c"
  shows "\<exists>c'. Push_memchan (\<lambda>_. None) (\<lambda>_. True) c evs = Some (c', None) \<and> chans_ok c' \<and> \<not> mc_closed c'"
proof -
  obtain c' err where c': "Push_memchan (\<lambda>_. None) (\<lambda>_. True) c evs = Some (c', err)" "mc_subs c' = mc_subs c"
    "mc_closed c' = mc_closed c" and s: "sends (map ev_Event evs) (mc_subs c) (mc_chans c) (mc_chans c')"
    using Push_memchan_ok [OF assms(1)] by blast
  have "err = None" using c'(1) assms(2) by (auto simp: Push_memchan_def bind_eq_Some_conv dest: notify_all_calm)
  moreover have "chans_ok c'" using assms(1) c'(2) s sends_open [OF s] by (simp add: chans_ok_def sends_def)
  ultimately show ?thesis using c' assms(2) by simp
qed

lemma push_batches_calm:
  assumes "calm en" and "0 < bs" and "chans_ok (mg_transport w)" and "\<not> mc_closed (mg_transport w)"
  shows "\<exists>w' r'. push_batches en memchan_ops bs evs w r = Some (w', r', None)"
  using assms(3,4)
proof (induction "length evs" arbitrary: evs w r rule: less_induct)
  case less
  show ?case
  proof (cases "evs = []")
    case False
    obtain t' where t': "Push_memchan (\<lambda>_. None) (\<lambda>_. True) (mg_transport w) (take bs evs) = Some (t', None)" "chans_ok t'" "\<not> mc_closed t'"
      using Push_memchan_calm [OF less.prems] by blast
    let ?w = "tick ((tick w)\<lparr>mg_transport := t'\<rparr>)"
    let ?r = "r\<lparr>EventsPushed := EventsPushed r + int (length (take bs evs))\<rparr>"
    have "push_batches en memchan_ops bs evs w r = push_batches en memchan_ops bs (drop bs evs) ?w ?r"
      using False assms(1,2) t'(1) by (subst push_batches.simps) (simp add: memchan_ops_def)
    moreover have "length (drop bs evs) < length evs" using False assms(2) by simp
    ultimately show ?thesis using less.hyps [of "drop bs evs" ?w ?r] t' by simp
  qed simp
qed

lemma push_calm:
  assumes "calm en" and "log_ok (mg_store w)" and "chans_ok (mg_transport w)" and "\<not> mc_closed (mg_transport w)"
    and "Filter (mg_options w) = None"
  shows "\<exists>w' r. push en memstore_ops memchan_ops w = Some (w', r, None)"
proof -
  let ?w = "tick (tick w)" and ?r = "new_result (time_Now en (tick w))"
  have "\<exists>q. GetLatestVersion_memchan (mg_transport w) None = Inr (Some (IntegerCursor q))"
    using assms(4) by (cases "mc_events (mg_transport w) = []") (auto simp: GetLatestVersion_memchan_def)
  then obtain q where q: "GetLatestVersion_memchan (mg_transport w) None = Inr (Some (IntegerCursor q))" by blast
  have l: "Load (mg_store w) None (Some (IntegerCursor q)) [] = Some (Inr (drop (unat q) (events (mg_store w))))"
    using Load_drop assms(2) by (simp add: log_ok_def)
  have "\<exists>w' r'. push_batches en memchan_ops (batch_size (mg_options w)) (drop (unat q) (events (mg_store w)))
      (tick (tick (?w\<lparr>mg_transport := mg_transport w\<rparr>))) ?r = Some (w', r', None)"
    by (rule push_batches_calm [OF assms(1)]) (simp_all add: assms(3,4))
  then have "\<exists>w' r'. push_body en memstore_ops memchan_ops ?w ?r = Some (w', r', None)"
    using assms(1,5) q l by (simp add: push_body_def memchan_ops_def memstore_ops_def apply_filter_def Let_def)
  then show ?thesis by (auto simp: push_def push_finish_def Let_def)
qed

lemma store_events_calm:
  assumes "calm en" and "store_inv (mg_store w)" and "\<not> closed (mg_store w)" and "\<forall>ev \<in> set evs. ev_Event ev \<noteq> None"
  shows "\<exists>w'. store_events en memstore_ops evs w r = Some (w', r\<lparr>EventsPulled := EventsPulled r + int (length evs)\<rparr>, None)"
  using assms(2-4)
proof (induction evs arbitrary: w r)
  case (Cons ev evs)
  obtain e where e: "ev_Event ev = Some e" using Cons.prems(3) by auto
  obtain s' where s': "Store (mg_store w) None (Some e) (ev_Version ev) = Some (s', None)" "store_inv s'" "\<not> closed s'"
    using Store_open [OF Cons.prems(1,2)] by blast
  from Cons.IH [of "tick ((tick w)\<lparr>mg_store := s'\<rparr>)" "r\<lparr>EventsPulled := EventsPulled r + 1\<rparr>"] s' Cons.prems(3) assms(1) e
  show ?case by (auto simp: memstore_ops_def add.assoc)
qed simp

lemma latest_loop_integers:
  "\<forall>ev \<in> set evs. \<exists>q. ev_Version ev = Some (IntegerCursor q) \<Longrightarrow> \<exists>v. latest_loop (Some (IntegerCursor p)) evs = Some v"
proof (induction evs arbitrary: p)
  case (Cons ev evs)
  then obtain q where q: "ev_Version ev = Some (IntegerCursor q)" by auto
  show ?case using Cons.IH [of p] Cons.IH [of q] Cons.prems q by (auto simp: iface_Compare_def)
qed simp

lemma findLatestVersion_integers:
  "\<forall>ev \<in> set evs. \<exists>q. ev_Version ev = Some (IntegerCursor q) \<Longrightarrow> \<exists>v. findLatestVersion evs = Some v"
  by (cases evs) (auto simp: findLatestVersion_def intro: latest_loop_integers)

lemma pull_calm:
  assumes "calm en" and log: "log_ok s" and rlog: "log_ok (mg_store w)" and "length (events (mg_store w)) \<le> length (events s)"
    and t: "mc_events (mg_transport w) = events s" "\<not> mc_closed (mg_transport w)" and f: "Filter (mg_options w) = None"
  shows "\<exists>w' r. pull en memstore_ops memchan_ops w = Some (w', r, None)
    \<and> EventsPulled r = int (length (events s) - length (events (mg_store w)))"
proof -
  let ?w = "tick (tick w)" and ?r = "new_result (time_Now en (tick w))" and ?j = "length (events (mg_store w))"
  let ?evs = "drop ?j (events s)" and ?v = "Some (IntegerCursor (of_nat ?j))"
  have j: "unat (of_nat ?j :: u64) = ?j" using rlog by (simp add: log_ok_def unat_of_nat64)
  have lv: "LatestVersion (mg_store w) None = Inr ?v" using LatestVersion_open rlog by (simp add: log_ok_def)
  have pl: "Pull_memchan (mg_transport w) None ?v = Some (Inr ?evs)"
    using t log after_seq_drop [of s "of_nat ?j"] j by (simp add: Pull_memchan_def since_seq_def log_ok_def)
  have ld: "Load (mg_store w) None ?v [] = Some (Inr [])"
    using Load_drop [of "mg_store w" "of_nat ?j"] rlog j by (simp add: log_ok_def)
  have ev: "ev_Event x \<noteq> None \<and> (\<exists>q. ev_Version x = Some (IntegerCursor q))" if "x \<in> set ?evs" for x
    using inv_entries [of s x] log that in_set_dropD [of x ?j "events s"] by (auto simp: log_ok_def entry_ok_def split: option.splits)
  have st: "\<exists>w' r. pull_store en memstore_ops ?evs w1 ?r = Some (w', r, None) \<and> EventsPulled r = int (length ?evs)"
    if "mg_store w1 = mg_store w" for w1 :: "(mem_store, mem_chan) manager"
  proof -
    have "\<exists>w'. store_events en memstore_ops ?evs w1 ?r
        = Some (w', ?r\<lparr>EventsPulled := EventsPulled ?r + int (length ?evs)\<rparr>, None)"
      by (rule store_events_calm [OF assms(1)]) (use rlog ev that in \<open>simp_all add: log_ok_def\<close>)
    then obtain w' where "store_events en memstore_ops ?evs w1 ?r
        = Some (w', ?r\<lparr>EventsPulled := EventsPulled ?r + int (length ?evs)\<rparr>, None)" by blast
    moreover obtain v where "findLatestVersion ?evs = Some v" using findLatestVersion_integers [of ?evs] ev by blast
    ultimately show ?thesis by (auto simp: pull_store_def)
  qed
  have "\<exists>w' r. pull_body en memstore_ops memchan_ops ?w ?r = Some (w', r, None) \<and> EventsPulled r = int (length ?evs)"
  proof (cases "?evs = []")
    case True
    then show ?thesis using assms(1) lv pl by (simp add: pull_body_def memchan_ops_def memstore_ops_def Let_def)
  next
    case False
    let ?w2 = "tick ((tick ?w)\<lparr>mg_transport := mg_transport w\<rparr>)"
    have "pull_body en memstore_ops memchan_ops ?w ?r = pull_conflicts en memstore_ops ?v ?evs ?w2 ?r"
      using False assms(1) lv pl f by (simp add: pull_body_def memchan_ops_def memstore_ops_def apply_filter_def Let_def)
    moreover have "pull_conflicts en memstore_ops ?v ?evs ?w2 ?r
        = pull_store en memstore_ops ?evs (if ConflictResolver (mg_options w) = None then ?w2 else tick ?w2) ?r"
      using assms(1) ld by (simp add: pull_conflicts_def memstore_ops_def Let_def split: option.splits)
    ultimately show ?thesis using st [of ?w2] st [of "tick ?w2"] by simp
  qed
  then obtain w1 r1 where b: "pull_body en memstore_ops memchan_ops ?w ?r = Some (w1, r1, None)" "EventsPulled r1 = int (length ?evs)"
    by blast
  then have "pull en memstore_ops memchan_ops w = Some (pull_finish en (time_Now en w) (w1, r1, None))"
    by (simp add: pull_def)
  then show ?thesis using b(2) by (simp add: pull_finish_def Let_def)
qed

text \<open>With as many local events as the transport holds there is nothing to pull and nothing to push.\<close>

lemma pull_nothing:
  assumes "calm en" and log: "log_ok s" and rlog: "log_ok (mg_store w)" and len: "length (events (mg_store w)) = length (events s)"
    and t: "mc_events (mg_transport w) = events s" "\<not> mc_closed (mg_transport w)"
  shows "\<exists>w' r. pull en memstore_ops memchan_ops w = Some (w', r, None) \<and> EventsPulled r = 0 \<and> mg_store w' = mg_store w
    \<and> mg_transport w' = mg_transport w \<and> mg_options w' = mg_options w"
proof -
  let ?v = "Some (IntegerCursor (of_nat (length (events s))))"
  have "unat (of_nat (length (events s)) :: u64) = length (events s)" using log by (simp add: log_ok_def unat_of_nat64)
  then have "Pull_memchan (mg_transport w) None ?v = Some (Inr [])"
    using t log after_seq_drop [of s "of_nat (length (events s))"] by (simp add: Pull_memchan_def since_seq_def log_ok_def)
  moreover have "LatestVersion (mg_store w) None = Inr ?v" using LatestVersion_open rlog len by (simp add: log_ok_def)
  ultimately show ?thesis
    using assms(1) by (simp add: pull_def pull_body_def pull_finish_def memchan_ops_def memstore_ops_def Let_def)
qed

lemma push_nothing:
  assumes "calm en" and log: "log_ok s" and rlog: "log_ok (mg_store w)" and len: "length (events (mg_store w)) = length (events s)"
    and t: "mc_events (mg_transport w) = events s" "\<not> mc_closed (mg_transport w)"
  shows "\<exists>w' r. push en memstore_ops memchan_ops w = Some (w', r, None) \<and> EventsPushed r = 0 \<and> mg_store w' = mg_store w
    \<and> mg_transport w' = mg_transport w \<and> mg_options w' = mg_options w"
proof -
  let ?q = "of_nat (length (events s)) :: u64"
  have q: "unat ?q = length (events s)" using log by (simp add: log_ok_def unat_of_nat64)
  have "max_version 0 (events s) = ?q" using max_version_prefix [of s "length (events s)"] log by (simp add: log_ok_def)
  then have "GetLatestVersion_memchan (mg_transport w) None = Inr (Some (IntegerCursor ?q))"
    using t by (cases "events s = []") (simp_all add: GetLatestVersion_memchan_def)
  moreover have "Load (mg_store w) None (Some (IntegerCursor ?q)) [] = Some (Inr [])"
    using Load_drop [of "mg_store w" ?q] rlog q len by (simp add: log_ok_def)
  ultimately show ?thesis
    using assms(1) by (simp add: push_def push_body_def push_finish_def memchan_ops_def memstore_ops_def Let_def)
qed

section \<open>Properties\<close>

text \<open>
  C2: one-way replication, end to end. A writer and a replica of a prefix of its log are joined by an open memory
  transport that holds a prefix of the writer's log, neither uses a filter, and no context is
  cancelled. Then a push by the writer and a pull by the replica both succeed, leave the writer's store alone,
  and afterwards the replica holds the whole log: one copy of every event, in order, with its identifier,
  type and aggregate. The reported numbers are exactly the events that were missing on each side.
\<close>

theorem replication_round:
  assumes "calm en" and "calm en'"
    and log: "log_ok (mg_store wa)" and t: "mc_events (mg_transport wa) = take m (events (mg_store wa))"
    and m: "m \<le> length (events (mg_store wa))" and ch: "chans_ok (mg_transport wa)" "\<not> mc_closed (mg_transport wa)"
    and rlog: "log_ok (mg_store wb)" and rep: "replica_of (mg_store wa) (mg_store wb)"
    and f: "Filter (mg_options wa) = None" "Filter (mg_options wb) = None"
  shows "\<exists>wa' ra wb' rb. push en memstore_ops memchan_ops wa = Some (wa', ra, None)
    \<and> pull en' memstore_ops memchan_ops (wb\<lparr>mg_transport := mg_transport wa'\<rparr>) = Some (wb', rb, None)
    \<and> mg_store wa' = mg_store wa \<and> list_all2 same_payload (store_log (mg_store wa)) (store_log (mg_store wb'))
    \<and> EventsPushed ra = int (length (events (mg_store wa)) - m)
    \<and> EventsPulled rb = int (length (events (mg_store wa)) - length (events (mg_store wb)))"
proof -
  obtain wa' ra where p: "push en memstore_ops memchan_ops wa = Some (wa', ra, None)"
    using push_calm [OF assms(1) log ch f(1)] by blast
  have a: "mg_store wa' = mg_store wa" "mc_events (mg_transport wa') = events (mg_store wa)"
    "mc_closed (mg_transport wa') = mc_closed (mg_transport wa)" "EventsPushed ra = int (length (events (mg_store wa)) - m)"
    using push_over_memory [OF log t m f(1) p] by auto
  let ?wb = "wb\<lparr>mg_transport := mg_transport wa'\<rparr>"
  have len: "length (events (mg_store wb)) \<le> length (events (mg_store wa))" using rep by (simp add: replica_of_def)
  have b: "log_ok (mg_store ?wb)" "length (events (mg_store ?wb)) \<le> length (events (mg_store wa))"
    "mc_events (mg_transport ?wb) = events (mg_store wa)" "\<not> mc_closed (mg_transport ?wb)" "Filter (mg_options ?wb) = None"
    "replica_of (mg_store wa) (mg_store ?wb)"
    using a ch(2) rlog rep f(2) len by simp_all
  obtain wb' rb where q: "pull en' memstore_ops memchan_ops ?wb = Some (wb', rb, None)"
    and n: "EventsPulled rb = int (length (events (mg_store wa)) - length (events (mg_store ?wb)))"
    using pull_calm [OF assms(2) log b(1-5)] by blast
  have "list_all2 same_payload (store_log (mg_store wa)) (store_log (mg_store wb'))"
    using pull_over_memory [OF log b(1,6,3,5) q] n by simp
  with p q a n show ?thesis by auto
qed

text \<open>A writer with two events, a replica without any, and a transport that holds the first event.\<close>

definition two_events :: mem_store where
  "two_events = store_all [sample_event ''a'', sample_event ''b'']"

definition writer :: "(mem_store, mem_chan) manager" where
  "writer = NewSyncManager 0 0 two_events ((New_memchan 4)\<lparr>mc_events := take 1 (events two_events)\<rparr>) None GNil None"

definition reader :: "(mem_store, mem_chan) manager" where
  "reader = NewSyncManager 0 0 New_store (New_memchan 4) None GNil None"

lemma two_events_ok: "log_ok two_events" "length (events two_events) = 2"
  using store_all_ok [of "[sample_event ''a'', sample_event ''b'']"] by (simp_all add: two_events_def)

lemma manager_fields [simp]:
  "mg_store (NewSyncManager now hooks s t opts lg pc) = s" "mg_transport (NewSyncManager now hooks s t opts lg pc) = t"
  "Filter (mg_options (NewSyncManager now hooks s t None lg pc)) = None"
  by (simp_all add: NewSyncManager_def Let_def default_options_def split: option.splits)

theorem replication_round_witness:
  "\<exists>wa' ra wb' rb. push sample_env memstore_ops memchan_ops writer = Some (wa', ra, None)
    \<and> pull sample_env memstore_ops memchan_ops (reader\<lparr>mg_transport := mg_transport wa'\<rparr>) = Some (wb', rb, None)
    \<and> list_all2 same_payload (store_log two_events) (store_log (mg_store wb')) \<and> EventsPushed ra = 1 \<and> EventsPulled rb = 2"
proof -
  have "calm sample_env" by (simp add: calm_def sample_env_def)
  moreover have "log_ok (mg_store reader)" "replica_of (mg_store writer) (mg_store reader)"
    using store_inv_New by (simp_all add: reader_def log_ok_def New_store_def replica_of_def store_log_def)
  moreover have "chans_ok (mg_transport writer)" "\<not> mc_closed (mg_transport writer)"
    by (simp_all add: writer_def New_memchan_def chans_ok_def)
  moreover have "mc_events (mg_transport writer) = take 1 (events (mg_store writer))" "1 \<le> length (events (mg_store writer))"
    "log_ok (mg_store writer)" using two_events_ok by (simp_all add: writer_def)
  moreover have "Filter (mg_options writer) = None" "Filter (mg_options reader) = None" by (simp_all add: writer_def reader_def)
  ultimately have "\<exists>wa' ra wb' rb. push sample_env memstore_ops memchan_ops writer = Some (wa', ra, None)
    \<and> pull sample_env memstore_ops memchan_ops (reader\<lparr>mg_transport := mg_transport wa'\<rparr>) = Some (wb', rb, None)
    \<and> mg_store wa' = mg_store writer \<and> list_all2 same_payload (store_log (mg_store writer)) (store_log (mg_store wb'))
    \<and> EventsPushed ra = int (length (events (mg_store writer)) - 1)
    \<and> EventsPulled rb = int (length (events (mg_store writer)) - length (events (mg_store reader)))"
    by (intro replication_round)
  then show ?thesis using two_events_ok by (simp add: writer_def reader_def New_store_def) blast
qed

text \<open>
  Two writers with independent logs of the same length never exchange an event. Each store numbers its own
  events from 1, so when the transport holds the log of one writer, the versions the other asks for and
  offers are all taken: its pull and its push succeed, without an error, without moving a single
  event, and without changing its store or the transport.
\<close>

theorem concurrent_writers_exchange_nothing:
  assumes "calm en" and "log_ok s" and "log_ok (mg_store w)" and "length (events (mg_store w)) = length (events s)"
    and "mc_events (mg_transport w) = events s" and "\<not> mc_closed (mg_transport w)"
  shows "\<exists>w' r w'' r'. pull en memstore_ops memchan_ops w = Some (w', r, None)
    \<and> push en memstore_ops memchan_ops w' = Some (w'', r', None) \<and> EventsPulled r = 0 \<and> EventsPushed r' = 0
    \<and> mg_store w'' = mg_store w \<and> mg_transport w'' = mg_transport w"
proof -
  obtain w' r where p: "pull en memstore_ops memchan_ops w = Some (w', r, None)" "EventsPulled r = 0"
    and e: "mg_store w' = mg_store w" "mg_transport w' = mg_transport w"
    using pull_nothing [OF assms] by blast
  obtain w'' r' where "push en memstore_ops memchan_ops w' = Some (w'', r', None)" "EventsPushed r' = 0"
    "mg_store w'' = mg_store w'" "mg_transport w'' = mg_transport w'"
    using push_nothing [of en s w'] assms e by auto
  with p e show ?thesis by auto
qed

definition one_event :: "string \<Rightarrow> mem_store" where
  "one_event i = store_all [sample_event i]"

lemma one_event_ok: "log_ok (one_event i)" "length (events (one_event i)) = 1"
  using store_all_ok [of "[sample_event i]"] by (simp_all add: one_event_def)

definition second_writer :: "(mem_store, mem_chan) manager" where
  "second_writer = NewSyncManager 0 0 (one_event ''b'') ((New_memchan 4)\<lparr>mc_events := events (one_event ''a'')\<rparr>) None GNil None"

theorem concurrent_writers_exchange_nothing_witness:
  "\<exists>w' r w'' r'. pull sample_env memstore_ops memchan_ops second_writer = Some (w', r, None)
    \<and> push sample_env memstore_ops memchan_ops w' = Some (w'', r', None) \<and> EventsPulled r = 0 \<and> EventsPushed r' = 0
    \<and> mg_store w'' = one_event ''b'' \<and> mg_transport w'' = (New_memchan 4)\<lparr>mc_events := events (one_event ''a'')\<rparr>"
proof -
  have "calm sample_env" by (simp add: calm_def sample_env_def)
  moreover have "log_ok (mg_store second_writer)" "length (events (mg_store second_writer)) = length (events (one_event ''a''))"
    "mc_events (mg_transport second_writer) = events (one_event ''a'')" "\<not> mc_closed (mg_transport second_writer)"
    using one_event_ok by (simp_all add: second_writer_def New_memchan_def)
  ultimately show ?thesis
    using concurrent_writers_exchange_nothing [OF _ one_event_ok(1) [of "''a''"], of sample_env second_writer]
    by (simp add: second_writer_def)
qed

end
