(* ===== verification/Projection.thy ===== *)
theory Projection
  imports Mem_Store
begin

text \<open>
  Read-model projections (projection/runner.go, projection/interfaces.go) and the offset store over a
  key-value database (projection/badger/offsets.go). The runner loads events since the stored offset,
  applies them in batches and advances the offset after each batch. Store, offset store and projector
  are given by their operations; the context and the clock are indexed by a counter of calls. A
  store that keeps returning the same events would keep the loop running, so the loop is a partial function, with
  \<open>None\<close> for a panic or no return; over the memory store it is shown to return.
\<close>

section \<open>Interfaces\<close>

record 'o offset_ops =
  of_Get :: "'o \<Rightarrow> go_error option \<Rightarrow> string \<Rightarrow> (go_error + version option) go"
  of_Set :: "'o \<Rightarrow> go_error option \<Rightarrow> string \<Rightarrow> version option \<Rightarrow> ('o \<times> go_error option) go"

record 'p projector_ops =
  pj_Name :: string
  pj_Apply :: "'p \<Rightarrow> go_error option \<Rightarrow> event_with_version list \<Rightarrow> ('p \<times> go_error option) go"

section \<open>The runner\<close>

text \<open>\<open>r_metrics\<close> says whether there is a metrics collector.\<close>

record runner =
  r_batchSize :: int
  r_metricsEnabled :: bool
  r_metrics :: bool

definition WithBatchSize :: "int \<Rightarrow> runner \<Rightarrow> runner" where
  "WithBatchSize n r = (if n > 0 then r\<lparr>r_batchSize := n\<rparr> else r)"

definition WithMetrics :: "bool \<Rightarrow> runner \<Rightarrow> runner" where
  "WithMetrics collector r = r\<lparr>r_metricsEnabled := True, r_metrics := collector\<rparr>"

definition WithMetricsEnabled :: "bool \<Rightarrow> runner \<Rightarrow> runner" where
  "WithMetricsEnabled enabled r = r\<lparr>r_metricsEnabled := enabled\<rparr>"

definition NewRunner :: "(runner \<Rightarrow> runner) list \<Rightarrow> runner" where
  "NewRunner opts = foldl (\<lambda>r opt. opt r) \<lparr>r_batchSize = 500, r_metricsEnabled = False, r_metrics = False\<rparr> opts"

datatype projection_metric =
    RecordProjectionError string string string
  | RecordProjectionOperation string string int bool int

record ('s, 'o, 'p) run_state =
  rs_store :: 's
  rs_offsets :: 'o
  rs_projector :: 'p
  rs_tick :: nat
  rs_trace :: "projection_metric list"

record run_env =
  re_ctx :: "nat \<Rightarrow> go_error option"
  re_now :: "nat \<Rightarrow> int"

definition next_call :: "('s, 'o, 'p) run_state \<Rightarrow> ('s, 'o, 'p) run_state" where
  "next_call w = w\<lparr>rs_tick := Suc (rs_tick w)\<rparr>"

definition record_metric :: "runner \<Rightarrow> projection_metric \<Rightarrow> ('s, 'o, 'p) run_state \<Rightarrow> ('s, 'o, 'p) run_state" where
  "record_metric r m w = (if r_metricsEnabled r \<and> r_metrics r then w\<lparr>rs_trace := rs_trace w @ [m]\<rparr> else w)"

definition run_ctx :: "run_env \<Rightarrow> ('s, 'o, 'p) run_state \<Rightarrow> go_error option" where
  "run_ctx en w = re_ctx en (rs_tick w)"

definition getStartVersion ::
  "run_env \<Rightarrow> 's store_ops \<Rightarrow> 'o offset_ops \<Rightarrow> 'p projector_ops \<Rightarrow> ('s, 'o, 'p) run_state
     \<Rightarrow> (('s, 'o, 'p) run_state \<times> (go_error + version option)) go" where
  "getStartVersion en sops offs pops w = do {
     g \<leftarrow> of_Get offs (rs_offsets w) (run_ctx en w) (pj_Name pops);
     (case g of
        Inl err \<Rightarrow> Some (next_call w, Inl (WrapError (''failed to get offset for projection '' @ pj_Name pops @ '': '') err))
      | Inr (Some v) \<Rightarrow> Some (next_call w, Inr (Some v))
      | Inr None \<Rightarrow> do {
          z \<leftarrow> st_ParseVersion sops (rs_store w) (run_ctx en (next_call w)) [];
          Some (next_call (next_call w), (case z of
              Inl err \<Rightarrow> Inl (WrapError ''failed to create zero version for projection start: '' err)
            | Inr v \<Rightarrow> Inr v)) }) }"

definition runner_error :: "string \<Rightarrow> string \<Rightarrow> string \<Rightarrow> go_error \<Rightarrow> go_error" where
  "runner_error op what name err = E [AOp op, AComponent ''projection'', AErr (WrapError (what @ name @ '': '') err)]"

definition ApplyBatch ::
  "run_env \<Rightarrow> runner \<Rightarrow> 'o offset_ops \<Rightarrow> 'p projector_ops \<Rightarrow> event_with_version list \<Rightarrow> ('s, 'o, 'p) run_state
     \<Rightarrow> (('s, 'o, 'p) run_state \<times> go_error option) go" where
  "ApplyBatch en r offs pops batch w0 =
     (if batch = [] then Some (w0, None)
      else do {
        let start = re_now en (rs_tick w0);
        let w = next_call w0;
        (p', err) \<leftarrow> pj_Apply pops (rs_projector w) (run_ctx en w) batch;
        let w1 = next_call (w\<lparr>rs_projector := p'\<rparr>);
        (case err of
           Some e \<Rightarrow> Some (record_metric r (RecordProjectionError (pj_Name pops) ''apply_batch'' ''apply_error'') w1,
             Some (runner_error ''runner.ApplyBatch'' ''failed to apply batch to projection '' (pj_Name pops) e))
         | None \<Rightarrow> do {
             (o', err2) \<leftarrow> of_Set offs (rs_offsets w1) (run_ctx en w1) (pj_Name pops) (ev_Version (last batch));
             let w2 = next_call (w1\<lparr>rs_offsets := o'\<rparr>);
             (case err2 of
                Some e \<Rightarrow> Some (record_metric r (RecordProjectionError (pj_Name pops) ''apply_batch'' ''offset_error'') w2,
                  Some (runner_error ''runner.ApplyBatch'' ''failed to update offset for projection '' (pj_Name pops) e))
              | None \<Rightarrow> Some (record_metric r (RecordProjectionOperation (pj_Name pops) ''apply_batch''
                    (re_now en (rs_tick w2) - start) True (int (length batch))) (next_call w2), None)) }) })"

text \<open>The slice of the loaded events; the bounds check of a negative batch size panics.\<close>

definition limit_batch :: "int \<Rightarrow> event_with_version list \<Rightarrow> event_with_version list go" where
  "limit_batch n evs = (if int (length evs) > n then (if n < 0 then None else Some (take (nat n) evs)) else Some evs)"

partial_function (option) apply_loop ::
  "run_env \<Rightarrow> runner \<Rightarrow> 's store_ops \<Rightarrow> 'o offset_ops \<Rightarrow> 'p projector_ops \<Rightarrow> version option \<Rightarrow> int \<Rightarrow> version option
     \<Rightarrow> ('s, 'o, 'p) run_state \<Rightarrow> (('s, 'o, 'p) run_state \<times> int \<times> version option \<times> go_error option) option" where
  "apply_loop en r sops offs pops currentAfter totalApplied lastProcessed w =
     Option.bind (st_Load sops (rs_store w) (run_ctx en w) currentAfter) (\<lambda>l.
       (case l of
          Inl err \<Rightarrow> Some (next_call w, totalApplied, lastProcessed,
            Some (runner_error ''runner.ApplySince'' ''failed to load events for projection '' (pj_Name pops) err))
        | Inr allEvents \<Rightarrow>
            Option.bind (limit_batch (r_batchSize r) allEvents) (\<lambda>batch.
              if batch = [] then Some (next_call w, totalApplied, lastProcessed, None)
              else Option.bind (ApplyBatch en r offs pops batch (next_call w)) (\<lambda>res.
                (case snd res of
                   Some e \<Rightarrow> Some (fst res, totalApplied, lastProcessed, Some e)
                 | None \<Rightarrow>
                     if int (length batch) < r_batchSize r
                     then Some (fst res, totalApplied + int (length batch), ev_Version (last batch), None)
                     else apply_loop en r sops offs pops (ev_Version (last batch))
                       (totalApplied + int (length batch)) (ev_Version (last batch)) (fst res))))))"

text \<open>The deferred function of \<open>ApplySince\<close> records a returned error.\<close>

definition since_finish ::
  "runner \<Rightarrow> 'p projector_ops \<Rightarrow> ('s, 'o, 'p) run_state \<times> int \<times> version option \<times> go_error option
     \<Rightarrow> ('s, 'o, 'p) run_state \<times> int \<times> version option \<times> go_error option" where
  "since_finish r pops x = (case x of (w, applied, lst, err) \<Rightarrow>
     (if err \<noteq> None then record_metric r (RecordProjectionError (pj_Name pops) ''apply_since''
          (if applied > 0 then ''apply_error'' else ''load_error'')) w else w, applied, lst, err))"

definition ApplySince ::
  "run_env \<Rightarrow> runner \<Rightarrow> 's store_ops \<Rightarrow> 'o offset_ops \<Rightarrow> 'p projector_ops \<Rightarrow> ('s, 'o, 'p) run_state
     \<Rightarrow> (('s, 'o, 'p) run_state \<times> int \<times> version option \<times> go_error option) go" where
  "ApplySince en r sops offs pops w0 = do {
     let start = re_now en (rs_tick w0);
     (w, sv) \<leftarrow> getStartVersion en sops offs pops (next_call w0);
     (case sv of
        Inl err \<Rightarrow> Some (since_finish r pops
          (record_metric r (RecordProjectionError (pj_Name pops) ''apply_since'' ''offset_error'') w, 0, None,
           Some (runner_error ''runner.ApplySince'' ''failed to determine start version for projection '' (pj_Name pops) err)))
      | Inr startVersion \<Rightarrow> do {
          (w1, applied, lst, err) \<leftarrow> apply_loop en r sops offs pops startVersion 0 None w;
          Some (since_finish r pops
            (if err = None \<and> applied > 0
             then record_metric r (RecordProjectionOperation (pj_Name pops) ''apply_since''
                    (re_now en (rs_tick w1) - start) True applied) (next_call w1)
             else w1, applied, lst, err)) }) }"

section \<open>The offset store\<close>

text \<open>
  The key-value database is given by its operations: reading a key (\<open>None\<close> for a key that is not found), writing,
  deleting, listing the keys, closing, and one step of garbage collection; \<open>bd_NotFound\<close> is the error value it
  exports for a missing key.
\<close>

datatype gc_result = GC_done | GC_no_rewrite | GC_failed go_error

record 'd badger_ops =
  bd_Get :: "'d \<Rightarrow> string \<Rightarrow> go_error + string option"
  bd_Set :: "'d \<Rightarrow> string \<Rightarrow> string \<Rightarrow> 'd \<times> go_error option"
  bd_Delete :: "'d \<Rightarrow> string \<Rightarrow> 'd \<times> go_error option"
  bd_Keys :: "'d \<Rightarrow> go_error + string list"
  bd_Close :: "'d \<Rightarrow> 'd \<times> go_error option"
  bd_GC :: "'d \<Rightarrow> 'd \<times> gc_result"
  bd_NotFound :: go_error

type_synonym version_parser = "go_error option \<Rightarrow> string \<Rightarrow> (go_error + version option) go"

record 'd offset_store =
  os_db :: 'd
  os_closed :: bool

definition invalid_error :: "string \<Rightarrow> string \<Rightarrow> go_error" where
  "invalid_error op what = E [AOp op, AComponent ''projection/badger'', AKind KindInvalid, AErr (ErrorString what)]"

definition store_error :: "string \<Rightarrow> go_error \<Rightarrow> go_error" where
  "store_error what err = E [AOp OpOffsetStore, AComponent ''projection/badger'', AErr (WrapError what err)]"

definition NewOffsetStore ::
  "(string \<Rightarrow> go_error + 'd) \<Rightarrow> string option \<Rightarrow> version_parser option \<Rightarrow> go_error + 'd offset_store" where
  "NewOffsetStore badgerOpen config parseVersion =
     (case config of
        None \<Rightarrow> Inl (invalid_error ''NewOffsetStore'' ''config cannot be nil'')
      | Some path \<Rightarrow>
          if path = [] then Inl (invalid_error ''NewOffsetStore'' ''config.Path cannot be empty'')
          else if parseVersion = None then Inl (invalid_error ''NewOffsetStore'' ''parseVersion function cannot be nil'')
          else (case badgerOpen path of
              Inl err \<Rightarrow> Inl (E [AOp ''NewOffsetStore'', AComponent ''projection/badger'',
                AErr (WrapError ''failed to open BadgerDB: '' err)])
            | Inr db \<Rightarrow> Inr \<lparr>os_db = db, os_closed = False\<rparr>))"

definition name_empty :: go_error where
  "name_empty = invalid_error OpOffsetStore ''projection name cannot be empty''"

definition offsets_closed :: go_error where
  "offsets_closed = invalid_error OpOffsetStore ''offset store is closed''"

definition Get_offset ::
  "'d badger_ops \<Rightarrow> version_parser \<Rightarrow> 'd offset_store \<Rightarrow> go_error option \<Rightarrow> string \<Rightarrow> (go_error + version option) go" where
  "Get_offset db parseVersion os ctx name =
     (if name = [] then Some (Inl name_empty)
      else if os_closed os then Some (Inl offsets_closed)
      else (case bd_Get db (os_db os) name of
          Inl err \<Rightarrow> Some (Inl (store_error (''failed to get offset for projection '' @ name @ '': '') err))
        | Inr None \<Rightarrow> Some (Inr None)
        | Inr (Some versionStr) \<Rightarrow> do {
            v \<leftarrow> parseVersion ctx versionStr;
            Some (case v of
                Inl err \<Rightarrow> Inl (store_error (''failed to parse version for projection '' @ name @ '': '') err)
              | Inr version \<Rightarrow> Inr version) }))"

definition Set_offset ::
  "'d badger_ops \<Rightarrow> 'd offset_store \<Rightarrow> go_error option \<Rightarrow> string \<Rightarrow> version option
     \<Rightarrow> ('d offset_store \<times> go_error option) go" where
  "Set_offset db os ctx name v =
     (if name = [] then Some (os, Some name_empty)
      else if v = None then Some (os, Some (invalid_error OpOffsetStore ''version cannot be nil''))
      else if os_closed os then Some (os, Some offsets_closed)
      else do {
        versionStr \<leftarrow> iface_String v;
        (case bd_Set db (os_db os) name versionStr of
           (d', None) \<Rightarrow> Some (os\<lparr>os_db := d'\<rparr>, None)
         | (d', Some err) \<Rightarrow> Some (os\<lparr>os_db := d'\<rparr>, Some (store_error
             (''failed to set offset for projection '' @ name @ '' to '' @ versionStr @ '': '') err))) })"

definition ListProjections :: "'d badger_ops \<Rightarrow> 'd offset_store \<Rightarrow> go_error + string list" where
  "ListProjections db os =
     (if os_closed os then Inl offsets_closed
      else (case bd_Keys db (os_db os) of
          Inl err \<Rightarrow> Inl (store_error ''failed to list projections: '' err)
        | Inr ks \<Rightarrow> Inr ks))"

definition Reset_offset :: "'d badger_ops \<Rightarrow> 'd offset_store \<Rightarrow> string \<Rightarrow> 'd offset_store \<times> go_error option" where
  "Reset_offset db os name =
     (if name = [] then (os, Some name_empty)
      else if os_closed os then (os, Some offsets_closed)
      else (case bd_Delete db (os_db os) name of (d', err) \<Rightarrow>
        (os\<lparr>os_db := d'\<rparr>, case err of
            None \<Rightarrow> None
          | Some e \<Rightarrow> if e \<noteq> bd_NotFound db
              then Some (store_error (''failed to reset offset for projection '' @ name @ '': '') e) else None)))"

definition Close_offsets :: "'d badger_ops \<Rightarrow> 'd offset_store \<Rightarrow> 'd offset_store \<times> go_error option" where
  "Close_offsets db os =
     (if os_closed os then (os, None)
      else (case bd_Close db (os_db os) of (d', err) \<Rightarrow> (os\<lparr>os_closed := True, os_db := d'\<rparr>, err)))"

text \<open>Collecting garbage until there is nothing to rewrite, with the context polled before every step.\<close>

partial_function (option) gc_loop ::
  "(nat \<Rightarrow> go_error option) \<Rightarrow> 'd badger_ops \<Rightarrow> nat \<Rightarrow> 'd \<Rightarrow> ('d \<times> go_error option) option" where
  "gc_loop ctx db n d =
     (case ctx n of
        Some e \<Rightarrow> Some (d, Some e)
      | None \<Rightarrow>
          (case bd_GC db d of
             (d', GC_done) \<Rightarrow> gc_loop ctx db (Suc n) d'
           | (d', GC_no_rewrite) \<Rightarrow> Some (d', None)
           | (d', GC_failed err) \<Rightarrow> Some (d', Some (WrapError ''GC failed: '' err))))"

definition RunGC ::
  "(nat \<Rightarrow> go_error option) \<Rightarrow> 'd badger_ops \<Rightarrow> 'd offset_store \<Rightarrow> ('d offset_store \<times> go_error option) go" where
  "RunGC ctx db os =
     (if os_closed os then Some (os, Some offsets_closed)
      else do { (d', err) \<leftarrow> gc_loop ctx db 0 (os_db os); Some (os\<lparr>os_db := d'\<rparr>, err) })"

definition offsets_over :: "'d badger_ops \<Rightarrow> version_parser \<Rightarrow> 'd offset_store offset_ops" where
  "offsets_over db parseVersion = \<lparr>of_Get = Get_offset db parseVersion, of_Set = Set_offset db\<rparr>"

section \<open>Batches\<close>

text \<open>Batches that were applied and whose last version was then saved.\<close>

inductive applied ::
  "'o offset_ops \<Rightarrow> 'p projector_ops \<Rightarrow> 'p \<Rightarrow> 'o \<Rightarrow> event_with_version list list \<Rightarrow> 'p \<Rightarrow> 'o \<Rightarrow> bool" for offs pops where
  none: "applied offs pops p os [] p os"
| one: "pj_Apply pops p c b = Some (p1, None) \<Longrightarrow>
    of_Set offs os c' (pj_Name pops) (ev_Version (last b)) = Some (o1, None) \<Longrightarrow>
    applied offs pops p1 o1 bs p2 o2 \<Longrightarrow> applied offs pops p os (b # bs) p2 o2"

lemma run_state_simps [simp]:
  "rs_store (next_call w) = rs_store w" "rs_offsets (next_call w) = rs_offsets w"
  "rs_projector (next_call w) = rs_projector w" "rs_store (record_metric r m w) = rs_store w"
  "rs_offsets (record_metric r m w) = rs_offsets w" "rs_projector (record_metric r m w) = rs_projector w"
  by (simp_all add: next_call_def record_metric_def)

text \<open>What stops a run early: the projector or the offset store refuses a batch, or an event cannot be loaded.\<close>

definition stopped ::
  "'o offset_ops \<Rightarrow> 'p projector_ops \<Rightarrow> 'p \<Rightarrow> 'o \<Rightarrow> ('s, 'o, 'p) run_state \<Rightarrow> bool" where
  "stopped offs pops p os w \<longleftrightarrow> rs_offsets w = os
     \<or> (\<exists>c b p' c' e. pj_Apply pops p c b = Some (p', None) \<and>
          of_Set offs os c' (pj_Name pops) (ev_Version (last b)) = Some (rs_offsets w, Some e))"

text \<open>Components that do not panic: the projector, and the offset store on cursor versions.\<close>

definition no_panics :: "'o offset_ops \<Rightarrow> 'p projector_ops \<Rightarrow> bool" where
  "no_panics offs pops \<longleftrightarrow> (\<forall>p c b. pj_Apply pops p c b \<noteq> None)
     \<and> (\<forall>os c q. of_Set offs os c (pj_Name pops) (Some (IntegerCursor q)) \<noteq> None)"

lemma ApplyBatch_result:
  assumes "b \<noteq> []" and "no_panics offs pops" and v: "ev_Version (last b) = Some (IntegerCursor q)"
  shows "\<exists>w' err. ApplyBatch en r offs pops b w = Some (w', err) \<and> rs_store w' = rs_store w \<and>
    (if err = None then \<exists>c c'. pj_Apply pops (rs_projector w) c b = Some (rs_projector w', None) \<and>
         of_Set offs (rs_offsets w) c' (pj_Name pops) (ev_Version (last b)) = Some (rs_offsets w', None)
     else stopped offs pops (rs_projector w) (rs_offsets w) w')"
proof -
  let ?w = "next_call w"
  have "pj_Apply pops (rs_projector w) (run_ctx en ?w) b \<noteq> None" using assms(2) by (simp add: no_panics_def)
  then obtain p' err where a: "pj_Apply pops (rs_projector w) (run_ctx en ?w) b = Some (p', err)" by auto
  show ?thesis
  proof (cases err)
    case (Some e)
    then show ?thesis using a assms(1) by (simp add: ApplyBatch_def Let_def stopped_def)
  next
    case None
    let ?w1 = "next_call (?w\<lparr>rs_projector := p'\<rparr>)"
    have "of_Set offs (rs_offsets w) (run_ctx en ?w1) (pj_Name pops) (ev_Version (last b)) \<noteq> None"
      using assms(2) v by (simp add: no_panics_def)
    then obtain o' err2 where off: "of_Set offs (rs_offsets w) (run_ctx en ?w1) (pj_Name pops) (ev_Version (last b)) = Some (o', err2)"
      by auto
    show ?thesis
      using a None off assms(1) by (cases err2) (auto simp: ApplyBatch_def Let_def stopped_def)
  qed
qed

text \<open>
  What a run from position \<open>k\<close> of a log has done: it applied the first of the remaining events in batches, all of
  them unless it stopped with an error.
\<close>

definition progress ::
  "runner \<Rightarrow> 'o offset_ops \<Rightarrow> 'p projector_ops \<Rightarrow> event_with_version list \<Rightarrow> 'p \<Rightarrow> 'o
     \<Rightarrow> ('s, 'o, 'p) run_state \<Rightarrow> go_error option \<Rightarrow> event_with_version list list \<Rightarrow> bool" where
  "progress r offs pops evs p os w' err batches \<longleftrightarrow>
     (\<exists>p1 o1 rest. applied offs pops p os batches p1 o1 \<and> evs = concat batches @ rest
       \<and> (\<forall>b \<in> set batches. b \<noteq> [] \<and> int (length b) \<le> r_batchSize r)
       \<and> (case err of None \<Rightarrow> rest = [] \<and> rs_projector w' = p1 \<and> rs_offsets w' = o1 | Some _ \<Rightarrow> stopped offs pops p1 o1 w'))"

lemma progress_none: "progress r offs pops [] p os w' None [] \<longleftrightarrow> rs_projector w' = p \<and> rs_offsets w' = os"
  by (auto simp: progress_def intro: applied.none elim: applied.cases)

lemma progress_stop: "stopped offs pops p os w' \<Longrightarrow> progress r offs pops evs p os w' (Some e) []"
  by (auto simp: progress_def intro: applied.none)

lemma progress_Cons:
  assumes "pj_Apply pops p c b = Some (p1, None)" and "of_Set offs os c' (pj_Name pops) (ev_Version (last b)) = Some (o1, None)"
    and "b \<noteq> []" and "int (length b) \<le> r_batchSize r" and "progress r offs pops evs p1 o1 w' err batches"
  shows "progress r offs pops (b @ evs) p os w' err (b # batches)"
proof -
  obtain p2 o2 rest where "applied offs pops p1 o1 batches p2 o2" and 1: "evs = concat batches @ rest"
    "\<forall>b \<in> set batches. b \<noteq> [] \<and> int (length b) \<le> r_batchSize r"
    "case err of None \<Rightarrow> rest = [] \<and> rs_projector w' = p2 \<and> rs_offsets w' = o2 | Some _ \<Rightarrow> stopped offs pops p2 o2 w'"
    using assms(5) unfolding progress_def by blast
  moreover from this(1) have "applied offs pops p os (b # batches) p2 o2"
    by (rule applied.one [OF assms(1,2)])
  moreover have "b @ evs = concat (b # batches) @ rest" using 1(1) by simp
  ultimately show ?thesis using assms(3,4) unfolding progress_def by auto
qed

text \<open>The version of the last event of a prefix of a log.\<close>

lemma log_version:
  "log_ok s \<Longrightarrow> i < length (events s) \<Longrightarrow> ev_Version (events s ! i) = Some (IntegerCursor (of_nat (Suc i)))"
  by (auto simp: log_ok_def store_inv_def entry_ok_def)

lemma last_of_slice:
  assumes "log_ok s" and "b = take n (drop k (events s))" and "b \<noteq> []"
  shows "ev_Version (last b) = Some (IntegerCursor (of_nat (k + length b)))"
proof -
  obtain m where m: "length b = Suc m" using assms(3) by (cases "length b") auto
  have "k + m < length (events s)" "last b = events s ! (k + m)"
    using assms(2,3) m by (auto simp: last_conv_nth)
  then show ?thesis using log_version [OF assms(1), of "k + m"] m by simp
qed

text \<open>The slice the runner takes.\<close>

lemma limit_batch_pos: "0 < n \<Longrightarrow> limit_batch n evs = Some (take (nat n) evs)"
  by (simp add: limit_batch_def)

lemma memstore_Load_calm:
  "log_ok s \<Longrightarrow> st_Load memstore_ops s c (Some (IntegerCursor q)) =
     (case c of None \<Rightarrow> Some (Inr (drop (unat q) (events s))) | Some e \<Rightarrow> Some (Inl e))"
  using Load_drop [of s q] by (auto simp: memstore_ops_def Load_def log_ok_def split: option.split)

text \<open>One round of the loop over a consistent memory store.\<close>

lemma apply_loop_round:
  assumes "log_ok (rs_store w)" and "0 < r_batchSize r" and "k \<le> length (events (rs_store w))"
    and "b = take (nat (r_batchSize r)) (drop k (events (rs_store w)))"
  shows "apply_loop en r memstore_ops offs pops (Some (IntegerCursor (of_nat k))) tot lastp w =
      (case run_ctx en w of
         Some e \<Rightarrow> Some (next_call w, tot, lastp,
           Some (runner_error ''runner.ApplySince'' ''failed to load events for projection '' (pj_Name pops) e))
       | None \<Rightarrow> if b = [] then Some (next_call w, tot, lastp, None)
           else Option.bind (ApplyBatch en r offs pops b (next_call w)) (\<lambda>res.
                (case snd res of
                   Some e \<Rightarrow> Some (fst res, tot, lastp, Some e)
                 | None \<Rightarrow>
                     if int (length b) < r_batchSize r
                     then Some (fst res, tot + int (length b), ev_Version (last b), None)
                     else apply_loop en r memstore_ops offs pops (ev_Version (last b))
                       (tot + int (length b)) (ev_Version (last b)) (fst res))))"
proof -
  have "unat (of_nat k :: u64) = k" using assms(1,3) unat_of_nat64 [of k] by (simp add: log_ok_def)
  then show ?thesis unfolding assms(4)
    by (subst apply_loop.simps)
      (simp add: memstore_Load_calm [OF assms(1)] limit_batch_pos [OF assms(2)] split: option.split)
qed

text \<open>The outcome of the loop from position \<open>k\<close>, in terms of what it applied.\<close>

definition loop_result ::
  "runner \<Rightarrow> 'o offset_ops \<Rightarrow> 'p projector_ops \<Rightarrow> nat \<Rightarrow> int \<Rightarrow> version option \<Rightarrow> (mem_store, 'o, 'p) run_state
     \<Rightarrow> ((mem_store, 'o, 'p) run_state \<times> int \<times> version option \<times> go_error option) option \<Rightarrow> bool" where
  "loop_result r offs pops k tot lastp w res \<longleftrightarrow> (\<exists>w' n lst err batches. res = Some (w', n, lst, err)
     \<and> rs_store w' = rs_store w
     \<and> progress r offs pops (drop k (events (rs_store w))) (rs_projector w) (rs_offsets w) w' err batches
     \<and> n = tot + int (length (concat batches))
     \<and> lst = (if batches = [] then lastp else Some (IntegerCursor (of_nat (k + length (concat batches))))))"

lemma loop_result_nothing:
  assumes "rs_store w' = rs_store w"
    and "progress r offs pops (drop k (events (rs_store w))) (rs_projector w) (rs_offsets w) w' err []"
  shows "loop_result r offs pops k tot lastp w (Some (w', tot, lastp, err))"
  unfolding loop_result_def using assms by (intro exI [of _ "[]"] exI conjI) auto

lemma loop_result_Cons:
  assumes "b = take (nat (r_batchSize r)) (drop k (events (rs_store w)))" and "b \<noteq> []"
    and c: "pj_Apply pops (rs_projector w) c b = Some (rs_projector w1, None)"
      "of_Set offs (rs_offsets w) c' (pj_Name pops) (ev_Version (last b)) = Some (rs_offsets w1, None)"
    and s: "rs_store w1 = rs_store w" and v: "lastp1 = Some (IntegerCursor (of_nat (k + length b)))"
    and r: "loop_result r offs pops (k + length b) (tot + int (length b)) lastp1 w1 res"
  shows "loop_result r offs pops k tot lastp w res"
proof -
  obtain w' n lst err batches where res: "res = Some (w', n, lst, err)" "rs_store w' = rs_store w"
    "progress r offs pops (drop (k + length b) (events (rs_store w))) (rs_projector w1) (rs_offsets w1) w' err batches"
    "n = tot + int (length b) + int (length (concat batches))"
    "lst = (if batches = [] then lastp1 else Some (IntegerCursor (of_nat (k + length b + length (concat batches)))))"
    using r s unfolding loop_result_def by auto
  have "drop k (events (rs_store w)) = b @ drop (length b) (drop k (events (rs_store w)))"
    unfolding assms(1) by (metis append_take_drop_id append_eq_conv_conj)
  then have split: "drop k (events (rs_store w)) = b @ drop (k + length b) (events (rs_store w))"
    by (simp add: add.commute)
  have "0 < nat (r_batchSize r)" using assms(1,2) by (cases "nat (r_batchSize r)") auto
  then have "int (length b) \<le> r_batchSize r" unfolding assms(1) by simp
  then have "progress r offs pops (drop k (events (rs_store w))) (rs_projector w) (rs_offsets w) w' err (b # batches)"
    using progress_Cons [OF c assms(2) _ res(3)] split by simp
  then show ?thesis unfolding loop_result_def using res v
    by (intro exI [of _ w'] exI [of _ n] exI [of _ lst] exI [of _ err] exI [of _ "b # batches"]) (simp add: add.assoc)
qed

lemma apply_loop_progress:
  assumes pos: "0 < r_batchSize r" and np: "no_panics offs pops"
    and "log_ok (rs_store w)" and "k \<le> length (events (rs_store w))"
  shows "loop_result r offs pops k tot lastp w
    (apply_loop en r memstore_ops offs pops (Some (IntegerCursor (of_nat k))) tot lastp w)"
  using assms(3,4)
proof (induction "length (events (rs_store w)) - k" arbitrary: k w tot lastp rule: less_induct)
  case less
  let ?b = "take (nat (r_batchSize r)) (drop k (events (rs_store w)))" and ?k = "k + length (take (nat (r_batchSize r)) (drop k (events (rs_store w))))"
  note step = apply_loop_round [OF less.prems(1) pos less.prems(2) refl, of en offs pops tot lastp]
  show ?case
  proof (cases "run_ctx en w")
    case (Some e)
    then show ?thesis unfolding step
      by (auto intro!: loop_result_nothing progress_stop simp: stopped_def)
  next
    case None
    show ?thesis
    proof (cases "?b = []")
      case True
      then have "drop k (events (rs_store w)) = []" using pos by auto
      then show ?thesis unfolding step using None True by (auto intro!: loop_result_nothing simp: progress_none)
    next
      case False
      have le: "?k \<le> length (events (rs_store w))" "0 < length ?b" using False by auto
      have v: "ev_Version (last ?b) = Some (IntegerCursor (of_nat ?k))"
        by (rule last_of_slice [OF less.prems(1) refl False])
      obtain w1 err where ab: "ApplyBatch en r offs pops ?b (next_call w) = Some (w1, err)" "rs_store w1 = rs_store w"
        and o: "if err = None then \<exists>c c'. pj_Apply pops (rs_projector w) c ?b = Some (rs_projector w1, None) \<and>
           of_Set offs (rs_offsets w) c' (pj_Name pops) (ev_Version (last ?b)) = Some (rs_offsets w1, None)
         else stopped offs pops (rs_projector w) (rs_offsets w) w1"
        using ApplyBatch_result [OF False np v, of en r "next_call w"] unfolding run_state_simps by blast
      show ?thesis
      proof (cases err)
        case (Some e)
        then show ?thesis unfolding step using None False ab o by (auto intro!: loop_result_nothing progress_stop)
      next
        case ok: None
        then obtain c c' where c: "pj_Apply pops (rs_projector w) c ?b = Some (rs_projector w1, None)"
          "of_Set offs (rs_offsets w) c' (pj_Name pops) (ev_Version (last ?b)) = Some (rs_offsets w1, None)"
          using o by auto
        note cons = loop_result_Cons [OF refl False c ab(2) v]
        show ?thesis
        proof (cases "int (length ?b) < r_batchSize r")
          case True
          then have "drop ?k (events (rs_store w)) = []" by (simp add: min_def split: if_splits)
          then show ?thesis unfolding step using None False ab ok True
            by (auto intro!: cons loop_result_nothing simp: progress_none)
        next
          case more: False
          have "length (events (rs_store w1)) - ?k < length (events (rs_store w)) - k" unfolding ab(2) using le by linarith
          from less.hyps [OF this] less.prems(1) le(1) ab(2)
          have "loop_result r offs pops ?k (tot + int (length ?b)) (ev_Version (last ?b)) w1
              (apply_loop en r memstore_ops offs pops (ev_Version (last ?b)) (tot + int (length ?b)) (ev_Version (last ?b)) w1)"
            using v by simp
          then have "loop_result r offs pops k tot lastp w
              (apply_loop en r memstore_ops offs pops (ev_Version (last ?b)) (tot + int (length ?b)) (ev_Version (last ?b)) w1)"
            by (rule cons)
          then show ?thesis unfolding step using None False ab ok more by simp
        qed
      qed
    qed
  qed
qed

section \<open>Properties\<close>

text \<open>Where a run starts: at the stored position, or at the beginning if none is stored.\<close>

definition starts_at :: "'o offset_ops \<Rightarrow> 'p projector_ops \<Rightarrow> 'o \<Rightarrow> nat \<Rightarrow> bool" where
  "starts_at offs pops os k \<longleftrightarrow> (\<forall>c. of_Get offs os c (pj_Name pops) = Some (Inr (Some (IntegerCursor (of_nat k)))))
     \<or> (k = 0 \<and> (\<forall>c. of_Get offs os c (pj_Name pops) = Some (Inr None)))"

lemma getStartVersion_at:
  assumes "starts_at offs pops (rs_offsets w) k"
  shows "\<exists>w'. getStartVersion en memstore_ops offs pops w = Some (w', Inr (Some (IntegerCursor (of_nat k))))
    \<and> rs_store w' = rs_store w \<and> rs_offsets w' = rs_offsets w \<and> rs_projector w' = rs_projector w"
  using assms by (auto simp: starts_at_def getStartVersion_def memstore_ops_def ParseVersion_def)

lemma since_finish_simps [simp]:
  "since_finish r pops (w, n, lst, err) = (fst (since_finish r pops (w, n, lst, err)), n, lst, err)"
  "rs_store (fst (since_finish r pops (w, n, lst, err))) = rs_store w"
  "rs_offsets (fst (since_finish r pops (w, n, lst, err))) = rs_offsets w"
  "rs_projector (fst (since_finish r pops (w, n, lst, err))) = rs_projector w"
  by (simp_all add: since_finish_def)

lemma progress_cong:
  "rs_projector w1 = rs_projector w2 \<Longrightarrow> rs_offsets w1 = rs_offsets w2 \<Longrightarrow>
     progress r offs pops evs p os w1 err batches = progress r offs pops evs p os w2 err batches"
  by (cases err) (simp_all add: progress_def stopped_def)

lemma ApplySince_progress:
  assumes "log_ok (rs_store w)" and "0 < r_batchSize r" and "no_panics offs pops"
    and "starts_at offs pops (rs_offsets w) k" and "k \<le> length (events (rs_store w))"
  shows "\<exists>w' n lst err batches. ApplySince en r memstore_ops offs pops w = Some (w', n, lst, err)
    \<and> rs_store w' = rs_store w
    \<and> progress r offs pops (drop k (events (rs_store w))) (rs_projector w) (rs_offsets w) w' err batches
    \<and> n = int (length (concat batches))
    \<and> lst = (if batches = [] then None else Some (IntegerCursor (of_nat (k + length (concat batches)))))"
proof -
  obtain w1 where w1: "getStartVersion en memstore_ops offs pops (next_call w) = Some (w1, Inr (Some (IntegerCursor (of_nat k))))"
    "rs_store w1 = rs_store w" "rs_offsets w1 = rs_offsets w" "rs_projector w1 = rs_projector w"
    using getStartVersion_at [of offs pops "next_call w" k en] assms(4) by auto
  obtain w2 n lst err batches where l: "apply_loop en r memstore_ops offs pops (Some (IntegerCursor (of_nat k))) 0 None w1 = Some (w2, n, lst, err)"
    "rs_store w2 = rs_store w"
    "progress r offs pops (drop k (events (rs_store w))) (rs_projector w) (rs_offsets w) w2 err batches"
    "n = int (length (concat batches))"
    "lst = (if batches = [] then None else Some (IntegerCursor (of_nat (k + length (concat batches)))))"
    using apply_loop_progress [OF assms(2,3), of w1 k 0 None en] assms(1,5) w1 by (auto simp: loop_result_def)
  define w3 where "w3 = (if err = None \<and> n > 0
             then record_metric r (RecordProjectionOperation (pj_Name pops) ''apply_since''
                    (re_now en (rs_tick w2) - re_now en (rs_tick w)) True n) (next_call w2) else w2)"
  have "ApplySince en r memstore_ops offs pops w = Some (since_finish r pops (w3, n, lst, err))"
    using w1(1) l(1) by (simp add: ApplySince_def w3_def del: since_finish_simps(1))
  moreover have "rs_store w3 = rs_store w" "rs_offsets w3 = rs_offsets w2" "rs_projector w3 = rs_projector w2"
    using l(2) by (simp_all add: w3_def)
  ultimately show ?thesis using l(3-5) progress_cong [of w3 "fst (since_finish r pops (w3, n, lst, err))" r offs pops]
      progress_cong [of w3 w2 r offs pops]
    by (subst (asm) since_finish_simps(1)) (auto simp del: since_finish_simps(1))
qed

text \<open>
  C40: a run of the projection runner over a consistent memory store always returns. It has applied the
  events after the stored offset in order, from the first on, in non-empty batches of at most the batch
  size, and the offset was saved after each of them, before the next was applied; it reports their number and the version of
  the last. Without an error all events were applied. An error leaves the offset of the last applied batch in place, unless
  saving that of the next batch is what failed.
\<close>

theorem projection_applies_each_event_once:
  assumes "log_ok (rs_store w)" and "0 < r_batchSize r" and "no_panics offs pops"
    and "starts_at offs pops (rs_offsets w) k" and "k \<le> length (events (rs_store w))"
  shows "\<exists>w' n lst err batches rest p1 o1. ApplySince en r memstore_ops offs pops w = Some (w', n, lst, err)
    \<and> rs_store w' = rs_store w \<and> applied offs pops (rs_projector w) (rs_offsets w) batches p1 o1
    \<and> drop k (events (rs_store w)) = concat batches @ rest
    \<and> (\<forall>b \<in> set batches. b \<noteq> [] \<and> int (length b) \<le> r_batchSize r) \<and> n = int (length (concat batches))
    \<and> lst = (if batches = [] then None else Some (IntegerCursor (of_nat (k + length (concat batches)))))
    \<and> (err = None \<longrightarrow> rest = [] \<and> rs_projector w' = p1 \<and> rs_offsets w' = o1)
    \<and> (err \<noteq> None \<longrightarrow> stopped offs pops p1 o1 w')"
proof -
  obtain w' n lst err batches where a: "ApplySince en r memstore_ops offs pops w = Some (w', n, lst, err)" "rs_store w' = rs_store w"
    "progress r offs pops (drop k (events (rs_store w))) (rs_projector w) (rs_offsets w) w' err batches"
    "n = int (length (concat batches))" "lst = (if batches = [] then None else Some (IntegerCursor (of_nat (k + length (concat batches)))))"
    using ApplySince_progress [OF assms] by blast
  then obtain p1 o1 rest where "applied offs pops (rs_projector w) (rs_offsets w) batches p1 o1"
    "drop k (events (rs_store w)) = concat batches @ rest" "\<forall>b \<in> set batches. b \<noteq> [] \<and> int (length b) \<le> r_batchSize r"
    "case err of None \<Rightarrow> rest = [] \<and> rs_projector w' = p1 \<and> rs_offsets w' = o1 | Some _ \<Rightarrow> stopped offs pops p1 o1 w'"
    unfolding progress_def by blast
  moreover from this(4) have "err = None \<longrightarrow> rest = [] \<and> rs_projector w' = p1 \<and> rs_offsets w' = o1" "err \<noteq> None \<longrightarrow> stopped offs pops p1 o1 w'"
    by (auto split: option.splits)
  ultimately show ?thesis using a(1,2,4,5) by blast
qed

text \<open>
  A database that is a map, a projector that collects the events it is given, and a log of three events, of which
  the first was projected before.
\<close>

definition map_db :: "(string \<Rightarrow> string option) badger_ops" where
  "map_db = \<lparr>bd_Get = (\<lambda>d k. Inr (d k)), bd_Set = (\<lambda>d k v. (d(k := Some v), None)), bd_Delete = (\<lambda>d k. (d(k := None), None)),
     bd_Keys = (\<lambda>d. Inr []), bd_Close = (\<lambda>d. (d, None)), bd_GC = (\<lambda>d. (d, GC_no_rewrite)),
     bd_NotFound = ErrorString ''Key not found''\<rparr>"

definition collector :: "event_with_version list projector_ops" where
  "collector = \<lparr>pj_Name = ''users'', pj_Apply = (\<lambda>p c b. Some (p @ b, None))\<rparr>"

definition parse_offset :: version_parser where
  "parse_offset ctx txt = Some (ParseVersion txt)"

definition three_events :: mem_store where
  "three_events = store_all [New_event 0 ''a'' ''T'' ''x'' [], New_event 0 ''b'' ''T'' ''y'' [], New_event 0 ''c'' ''T'' ''x'' []]"

definition sample_run :: "(mem_store, (string \<Rightarrow> string option) offset_store, event_with_version list) run_state" where
  "sample_run = \<lparr>rs_store = three_events, rs_offsets = \<lparr>os_db = [''users'' \<mapsto> ''1''], os_closed = False\<rparr>, rs_projector = [],
     rs_tick = 0, rs_trace = []\<rparr>"

definition quiet :: run_env where
  "quiet = \<lparr>re_ctx = (\<lambda>_. None), re_now = int\<rparr>"

lemma Set_offset_total: "Set_offset db os c name (Some (IntegerCursor q)) \<noteq> None"
  by (simp add: Set_offset_def iface_String_def split: option.splits prod.splits)

lemma sample_run_ok:
  "log_ok (rs_store sample_run)" "no_panics (offsets_over map_db parse_offset) collector"
  "starts_at (offsets_over map_db parse_offset) collector (rs_offsets sample_run) 1" "1 \<le> length (events (rs_store sample_run))"
proof -
  show "log_ok (rs_store sample_run)" "1 \<le> length (events (rs_store sample_run))"
    using store_all_ok [of "[New_event 0 ''a'' ''T'' ''x'' [], New_event 0 ''b'' ''T'' ''y'' [], New_event 0 ''c'' ''T'' ''x'' []]"]
    by (simp_all add: sample_run_def three_events_def)
  show "no_panics (offsets_over map_db parse_offset) collector"
    by (simp add: no_panics_def offsets_over_def Set_offset_total) (simp add: collector_def)
  have "u64_dec 1 = ''1''" by code_simp
  with ParseVersion_dec [of 1] have "ParseVersion ''1'' = Inr (Some (IntegerCursor 1))" by simp
  then show "starts_at (offsets_over map_db parse_offset) collector (rs_offsets sample_run) 1"
    by (simp add: starts_at_def offsets_over_def Get_offset_def map_db_def collector_def sample_run_def parse_offset_def)
qed

theorem projection_applies_each_event_once_witness:
  "\<exists>w' n lst err batches. ApplySince quiet (NewRunner [WithBatchSize 1]) memstore_ops (offsets_over map_db parse_offset) collector sample_run
      = Some (w', n, lst, err) \<and> n = int (length (concat batches)) \<and> (\<forall>b \<in> set batches. int (length b) \<le> 1)
    \<and> (\<exists>rest. drop 1 (events three_events) = concat batches @ rest)"
proof -
  have "r_batchSize (NewRunner [WithBatchSize 1]) = 1" by (simp add: NewRunner_def WithBatchSize_def)
  with projection_applies_each_event_once [OF sample_run_ok(1) _ sample_run_ok(2-4), of "NewRunner [WithBatchSize 1]" quiet]
  show ?thesis by (fastforce simp: sample_run_def)
qed

section \<open>Saved offsets are found again\<close>

definition reads_back :: "'d badger_ops \<Rightarrow> bool" where
  "reads_back db \<longleftrightarrow> (\<forall>d k v d'. bd_Set db d k v = (d', None) \<longrightarrow> bd_Get db d' k = Inr (Some v))"

lemma Get_after_Set:
  assumes "reads_back db" and "Set_offset db os c name (Some (IntegerCursor q)) = Some (os', None)"
  shows "Get_offset db parse_offset os' c' name = Some (Inr (Some (IntegerCursor q)))"
proof -
  have n: "name \<noteq> []" "\<not> os_closed os" using assms(2) by (auto simp: Set_offset_def split: if_splits)
  obtain d' where d': "bd_Set db (os_db os) name (u64_dec q) = (d', None)" "os' = os\<lparr>os_db := d'\<rparr>"
    using assms(2) n by (auto simp: Set_offset_def iface_String_def split: prod.splits option.splits)
  then have "bd_Get db d' name = Inr (Some (u64_dec q))" using assms(1) by (simp add: reads_back_def)
  with n d'(2) show ?thesis by (simp add: Get_offset_def parse_offset_def ParseVersion_dec)
qed

lemma last_of_concat: "bs \<noteq> [] \<Longrightarrow> \<forall>b \<in> set bs. b \<noteq> [] \<Longrightarrow> last (concat bs) = last (last bs)"
  by (induction bs rule: rev_induct) auto

lemma applied_offset:
  assumes "reads_back db" and "applied (offsets_over db parse_offset) pops p os batches p1 o1" and "batches \<noteq> []"
    and "ev_Version (last (last batches)) = Some (IntegerCursor q)"
  shows "Get_offset db parse_offset o1 c (pj_Name pops) = Some (Inr (Some (IntegerCursor q)))"
  using assms(2-4)
proof (induction rule: applied.induct)
  case (one p c b p1 os c' o1 bs p2 o2)
  show ?case
  proof (cases "bs = []")
    case True
    with one have "o2 = o1" "ev_Version (last b) = Some (IntegerCursor q)" by (auto elim: applied.cases)
    with one.hyps(2) show ?thesis using Get_after_Set [OF assms(1)] by (simp add: offsets_over_def)
  next
    case False
    with one show ?thesis by simp
  qed
qed simp

text \<open>
  With the offset store over a database that reads back what it wrote, a run without errors leaves
  the offset at the end of the log: running the projection again, before anything new is stored, returns without an
  error, applies no event and leaves the read model and the offset as they are.
\<close>

theorem projection_rerun_applies_nothing:
  assumes rb: "reads_back db" and log: "log_ok (rs_store w)" and pos: "0 < r_batchSize r"
    and np: "\<forall>p c b. pj_Apply pops p c b \<noteq> None"
    and st: "starts_at (offsets_over db parse_offset) pops (rs_offsets w) k" and k: "k \<le> length (events (rs_store w))"
    and run: "ApplySince en r memstore_ops (offsets_over db parse_offset) pops w = Some (w1, n, lst, None)"
    and calm: "\<forall>i. re_ctx en' i = None"
  shows "\<exists>w2. ApplySince en' r memstore_ops (offsets_over db parse_offset) pops w1 = Some (w2, 0, None, None)
    \<and> rs_projector w2 = rs_projector w1 \<and> rs_offsets w2 = rs_offsets w1 \<and> rs_store w2 = rs_store w1"
proof -
  let ?offs = "offsets_over db parse_offset" and ?L = "length (events (rs_store w))"
  have "no_panics ?offs pops" using np by (simp add: no_panics_def offsets_over_def Set_offset_total)
  from ApplySince_progress [OF log pos this st k, of en] run obtain batches where s: "rs_store w1 = rs_store w"
    and pr: "progress r ?offs pops (drop k (events (rs_store w))) (rs_projector w) (rs_offsets w) w1 None batches"
    by auto
  then have a: "applied ?offs pops (rs_projector w) (rs_offsets w) batches (rs_projector w1) (rs_offsets w1)"
    and c: "drop k (events (rs_store w)) = concat batches" and ne: "\<forall>b \<in> set batches. b \<noteq> []"
    by (auto simp: progress_def)
  have "starts_at ?offs pops (rs_offsets w1) ?L"
  proof (cases "batches = []")
    case True
    then have "k = ?L" "rs_offsets w1 = rs_offsets w" using a c k by (auto elim: applied.cases)
    with st show ?thesis by simp
  next
    case False
    then have l: "last (last batches) = last (drop k (events (rs_store w)))" "drop k (events (rs_store w)) \<noteq> []"
      using c ne last_of_concat [OF False ne] False by (auto simp: neq_Nil_conv)
    have "ev_Version (last (take ?L (drop k (events (rs_store w)))))
        = Some (IntegerCursor (of_nat (k + length (take ?L (drop k (events (rs_store w)))))))"
      by (rule last_of_slice [OF log refl]) (use l(2) in simp)
    then have "ev_Version (last (last batches)) = Some (IntegerCursor (of_nat ?L))" using l k by simp
    from applied_offset [OF rb a False this] show ?thesis by (simp add: starts_at_def offsets_over_def)
  qed
  then obtain w2 where w2: "getStartVersion en' memstore_ops ?offs pops (next_call w1) = Some (w2, Inr (Some (IntegerCursor (of_nat ?L))))"
    "rs_store w2 = rs_store w1" "rs_offsets w2 = rs_offsets w1" "rs_projector w2 = rs_projector w1"
    using getStartVersion_at [of ?offs pops "next_call w1" ?L en'] by auto
  have "apply_loop en' r memstore_ops ?offs pops (Some (IntegerCursor (of_nat ?L))) 0 None w2 = Some (next_call w2, 0, None, None)"
    using apply_loop_round [of w2 r ?L "[]" en' ?offs pops 0 None] w2(2) s log pos calm by (simp add: run_ctx_def)
  then show ?thesis using w2 by (simp add: ApplySince_def since_finish_def del: since_finish_simps(1))
qed

lemma sample_batch:
  assumes "b \<noteq> []" and "ev_Version (last b) = Some (IntegerCursor q)" and "\<not> os_closed (rs_offsets w)"
  shows "\<exists>w'. ApplyBatch en r (offsets_over map_db parse_offset) collector b w = Some (w', None)"
  using assms by (simp add: ApplyBatch_def offsets_over_def collector_def map_db_def Set_offset_def iface_String_def Let_def)

lemma sample_run_succeeds:
  "\<exists>w1 n lst. ApplySince quiet (NewRunner []) memstore_ops (offsets_over map_db parse_offset) collector sample_run = Some (w1, n, lst, None)"
proof -
  let ?offs = "offsets_over map_db parse_offset" and ?r = "NewRunner []"
  obtain w1 where w1: "getStartVersion quiet memstore_ops ?offs collector (next_call sample_run) = Some (w1, Inr (Some (IntegerCursor (of_nat 1))))"
    "rs_store w1 = rs_store sample_run" "rs_offsets w1 = rs_offsets sample_run"
    using getStartVersion_at [of ?offs collector "next_call sample_run" 1 quiet] sample_run_ok(3) by auto
  have r: "r_batchSize ?r = 500" by (simp add: NewRunner_def)
  have e: "length (events (rs_store w1)) = 3"
    using store_all_ok [of "[New_event 0 ''a'' ''T'' ''x'' [], New_event 0 ''b'' ''T'' ''y'' [], New_event 0 ''c'' ''T'' ''x'' []]"] w1(2)
    by (simp add: sample_run_def three_events_def)
  let ?b = "take (nat (r_batchSize ?r)) (drop 1 (events (rs_store w1)))"
  have b: "length ?b = 2" using e r by simp
  then have ne: "?b \<noteq> []" by (metis length_0_conv zero_neq_numeral)
  have log: "log_ok (rs_store w1)" using sample_run_ok(1) w1(2) by simp
  obtain w2 where w2: "ApplyBatch quiet ?r ?offs collector ?b (next_call w1) = Some (w2, None)"
    using sample_batch [OF ne last_of_slice [OF log refl ne], of "next_call w1"] w1(3) by (auto simp: sample_run_def)
  have "apply_loop quiet ?r memstore_ops ?offs collector (Some (IntegerCursor (of_nat 1))) 0 None w1
      = Some (w2, int (length ?b), ev_Version (last ?b), None)"
    using apply_loop_round [OF log _ _ refl, of ?r 1 quiet ?offs collector 0 None] w2 ne e r b by (simp add: run_ctx_def quiet_def)
  then show ?thesis using w1(1) by (simp add: ApplySince_def since_finish_def del: since_finish_simps(1))
qed

theorem projection_rerun_applies_nothing_witness:
  "\<exists>w1 n lst w2. ApplySince quiet (NewRunner []) memstore_ops (offsets_over map_db parse_offset) collector sample_run = Some (w1, n, lst, None)
    \<and> ApplySince quiet (NewRunner []) memstore_ops (offsets_over map_db parse_offset) collector w1 = Some (w2, 0, None, None)
    \<and> rs_projector w2 = rs_projector w1"
proof -
  obtain w1 n lst where run: "ApplySince quiet (NewRunner []) memstore_ops (offsets_over map_db parse_offset) collector sample_run = Some (w1, n, lst, None)"
    using sample_run_succeeds by blast
  have "reads_back map_db" by (simp add: reads_back_def map_db_def)
  moreover have "0 < r_batchSize (NewRunner [])" by (simp add: NewRunner_def)
  moreover have "\<forall>p c b. pj_Apply collector p c b \<noteq> None" "\<forall>i. re_ctx quiet i = None" by (simp_all add: collector_def quiet_def)
  ultimately show ?thesis
    using projection_rerun_applies_nothing [OF _ sample_run_ok(1) _ _ sample_run_ok(3,4) run] run by blast
qed

end
