(* ===== verification/Observability.thy ===== *)
theory Observability
  imports State_Machine
begin

text \<open>
  The observability hooks of a state machine (synckit/statemachine/observability.go): the observer that reports
  transitions to a metrics collector, a health updater and a logger, the adapters to the collector and tracer of the sync manager,
  and the default health updater. Calls on the injected collectors are returned as lists, in the order they are made. \<open>vstr\<close> is
  how the fmt package prints a state, \<open>key_order\<close> the order in which a map is ranged over.
\<close>

section \<open>The hooks\<close>

text \<open>Which collectors are set, and the component name.\<close>

record observability_hooks =
  oh_MetricsCollector :: bool
  oh_Tracer :: bool
  oh_HealthUpdater :: bool
  oh_Logger :: bool
  oh_ComponentName :: string

datatype metrics_call =
    RecordStateTransition string string string int metadata
  | RecordStateTransitionError string string string string metadata
  | RecordState string string
  | RecordDuration string string int
  | RecordStateTransitionLatency string string string int

datatype hook_call =
    MetricsCall metrics_call
  | HealthState string string metadata
  | HealthError string string "go_error option"
  | LogTransition string string string int string int
  | LogFailure string string string string

definition NewObservabilityHooks :: "bool \<Rightarrow> bool \<Rightarrow> bool \<Rightarrow> bool \<Rightarrow> string \<Rightarrow> observability_hooks" where
  "NewObservabilityHooks metricsCollector tracer healthUpdater logger componentName =
     \<lparr>oh_MetricsCollector = metricsCollector, oh_Tracer = tracer, oh_HealthUpdater = healthUpdater,
      oh_Logger = logger, oh_ComponentName = componentName\<rparr>"

definition OnTransition_hooks :: "('s \<Rightarrow> string) \<Rightarrow> observability_hooks \<Rightarrow> 's state_transition \<Rightarrow> hook_call list" where
  "OnTransition_hooks vstr h t =
     (let fromStr = vstr (st_From t); toStr = vstr (st_To t); c = oh_ComponentName h in
      (if oh_MetricsCollector h
       then [MetricsCall (RecordStateTransition c fromStr toStr (st_Duration t) (st_Metadata t)),
             MetricsCall (RecordState c toStr), MetricsCall (RecordDuration c fromStr (st_Duration t))] else [])
      @ (if oh_HealthUpdater h then [HealthState c toStr (st_Metadata t)] else [])
      @ (if oh_Logger h then [LogTransition c fromStr toStr (st_Duration t) (st_TransitionID t) (st_Timestamp t)] else []))"

text \<open>
  The second component says whether the callback returned: the log call reads the text of the error, which panics when it
  is nil, after the metrics and the health error were recorded.
\<close>

definition OnTransitionFailed_hooks ::
  "('s \<Rightarrow> string) \<Rightarrow> observability_hooks \<Rightarrow> 's \<Rightarrow> 's \<Rightarrow> go_error option \<Rightarrow> metadata \<Rightarrow> hook_call list \<times> bool" where
  "OnTransitionFailed_hooks vstr h from to err md =
     (let fromStr = vstr from; toStr = vstr to; c = oh_ComponentName h;
          errorType = (case err of None \<Rightarrow> ''transition_failed'' | Some e \<Rightarrow> Error_text e);
          calls = (if oh_MetricsCollector h then [MetricsCall (RecordStateTransitionError c fromStr toStr errorType md)] else [])
            @ (if oh_HealthUpdater h then [HealthError c fromStr err] else [])
      in if \<not> oh_Logger h then (calls, True)
         else (case err of None \<Rightarrow> (calls, False) | Some e \<Rightarrow> (calls @ [LogFailure c fromStr toStr (Error_text e)], True)))"

text \<open>The calls that one effect of the machine causes when the hooks are the observer \<open>ob\<close>.\<close>

fun hook_calls :: "('s \<Rightarrow> string) \<Rightarrow> observability_hooks \<Rightarrow> nat \<Rightarrow> 's sm_effect \<Rightarrow> hook_call list" where
  "hook_calls vstr h ob (NotifyTransition i t) = (if i = ob then OnTransition_hooks vstr h t else [])"
| "hook_calls vstr h ob (NotifyTransitionFailed i from to err md) =
     (if i = ob then fst (OnTransitionFailed_hooks vstr h from to (Some err) md) else [])"
| "hook_calls vstr h ob _ = []"

definition CreateObservableStateMachine ::
  "int \<Rightarrow> 's sm_config \<Rightarrow> nat \<Rightarrow> go_error + 's machine \<times> 's sm_effect list" where
  "CreateObservableStateMachine now config hooks =
     (case New now config of
        Inl err \<Rightarrow> Inl err
      | Inr (m, eff) \<Rightarrow> Inr (Subscribe m (Some hooks), eff))"

section \<open>Adapters to the collectors of the sync manager\<close>

datatype collector_call =
    SyncDuration string int
  | SyncErrors string string

fun metrics_adapter :: "metrics_call \<Rightarrow> collector_call list" where
  "metrics_adapter (RecordStateTransition c from to d md) = [SyncDuration (c @ ''_'' @ from @ ''_to_'' @ to) d]"
| "metrics_adapter (RecordStateTransitionError c from to errorType md) = [SyncErrors (c @ ''_transition'') errorType]"
| "metrics_adapter (RecordState c s) = []"
| "metrics_adapter (RecordDuration c s d) = [SyncDuration (c @ ''_state_'' @ s) d]"
| "metrics_adapter (RecordStateTransitionLatency c from to d) = [SyncDuration (c @ ''_transition_latency'') d]"

datatype attribute_value = AString string | AInt64 int | ABool bool

definition StartStateTransition :: "string \<Rightarrow> string \<Rightarrow> string \<Rightarrow> string" where
  "StartStateTransition c from to = c @ ''.state.'' @ from @ ''.to.'' @ to"

definition RecordTransitionSuccess ::
  "string list \<Rightarrow> string \<Rightarrow> string \<Rightarrow> string \<Rightarrow> string \<Rightarrow> int \<Rightarrow> metadata \<Rightarrow> (string \<times> attribute_value) list" where
  "RecordTransitionSuccess key_order c from to transitionID duration md =
     [(''state.component'', AString c), (''state.from'', AString from), (''state.to'', AString to),
      (''state.transition_id'', AString transitionID), (''state.duration_ms'', AInt64 (milliseconds duration))]
     @ map (\<lambda>k. (''state.meta.'' @ k, AString (sprintf_v (the (gm_lookup md k))))) key_order"

definition RecordTransitionError_tracer ::
  "string \<Rightarrow> string \<Rightarrow> string \<Rightarrow> string \<times> (string \<times> attribute_value) list" where
  "RecordTransitionError_tracer c from to =
     (''State transition failed: '' @ from @ '' -> '' @ to,
      [(''state.component'', AString c), (''state.from'', AString from), (''state.to'', AString to),
       (''state.transition_failed'', ABool True)])"

section \<open>The default health updater\<close>

datatype state_health = StateHealthHealthy | StateHealthDegraded | StateHealthUnhealthy | StateHealthCritical

fun state_health_text :: "state_health \<Rightarrow> string" where
  "state_health_text StateHealthHealthy = ''healthy''"
| "state_health_text StateHealthDegraded = ''degraded''"
| "state_health_text StateHealthUnhealthy = ''unhealthy''"
| "state_health_text StateHealthCritical = ''critical''"

definition stateHealthMap :: "(string \<times> state_health) list" where
  "stateHealthMap = [
     (''idle'', StateHealthHealthy), (''initializing'', StateHealthHealthy), (''pushing'', StateHealthHealthy),
     (''pulling'', StateHealthHealthy), (''resolving_conflicts'', StateHealthDegraded), (''completed'', StateHealthHealthy),
     (''failed'', StateHealthCritical), (''cancelled'', StateHealthDegraded),
     (''connected'', StateHealthHealthy), (''connecting'', StateHealthDegraded), (''disconnected'', StateHealthUnhealthy),
     (''reconnecting'', StateHealthDegraded), (''transport_failed'', StateHealthCritical)]"

definition state_status :: "string \<Rightarrow> state_health" where
  "state_status s = (case map_of stateHealthMap s of None \<Rightarrow> StateHealthHealthy | Some h \<Rightarrow> h)"

datatype health_call =
    UpdateStatus string string metadata
  | RecordError string "go_error option"

text \<open>\<open>checker\<close> says whether there is a health checker. The entries of the transition come last and win.\<close>

definition UpdateComponentState ::
  "bool \<Rightarrow> time_fmt \<Rightarrow> int \<Rightarrow> string \<Rightarrow> string \<Rightarrow> metadata \<Rightarrow> health_call list" where
  "UpdateComponentState checker tf now c s md =
     (if \<not> checker then []
      else [UpdateStatus c (state_health_text (state_status s))
        (Some (fmadd (gm_fmap (md_of [(''state'', GString s), (''timestamp'', GString (tf_RFC3339 tf now))])) (gm_fmap md)))])"

definition RecordStateError :: "bool \<Rightarrow> string \<Rightarrow> string \<Rightarrow> go_error option \<Rightarrow> health_call list" where
  "RecordStateError checker c s err = (if \<not> checker then [] else [RecordError c err])"

section \<open>Reports of a run\<close>

text \<open>
  A sequence of transition attempts and the effects it causes. An attempt is the time, the transition identifier, the target and the metadata.
\<close>

type_synonym 's attempt = "int \<times> string \<times> 's \<times> metadata"

fun attempt_all :: "('s \<Rightarrow> string) \<Rightarrow> 's machine \<Rightarrow> 's attempt list \<Rightarrow> 's machine \<times> 's sm_effect list \<times> nat" where
  "attempt_all vstr m [] = (m, [], 0)"
| "attempt_all vstr m ((now, tid, to, md) # as) =
     (case TransitionWithContext vstr now tid m to md of (m1, eff, e) \<Rightarrow>
      case attempt_all vstr m1 as of (m2, eff2, n) \<Rightarrow> (m2, eff @ eff2, if e = None then Suc n else n))"

fun state_reports :: "hook_call list \<Rightarrow> (string \<times> string) list" where
  "state_reports [] = []"
| "state_reports (MetricsCall (RecordStateTransition c from to d md) # cs) = (from, to) # state_reports cs"
| "state_reports (_ # cs) = state_reports cs"

fun failure_reports :: "hook_call list \<Rightarrow> nat" where
  "failure_reports [] = 0"
| "failure_reports (MetricsCall (RecordStateTransitionError c from to et md) # cs) = Suc (failure_reports cs)"
| "failure_reports (_ # cs) = failure_reports cs"

text \<open>A path of reported transitions from one state to another.\<close>

fun path :: "string \<Rightarrow> (string \<times> string) list \<Rightarrow> string \<Rightarrow> bool" where
  "path a [] b \<longleftrightarrow> a = b"
| "path a ((x, y) # ps) b \<longleftrightarrow> a = x \<and> path y ps b"

lemma state_reports_append [simp]: "state_reports (xs @ ys) = state_reports xs @ state_reports ys"
  by (induction xs rule: state_reports.induct) auto

lemma failure_reports_append [simp]: "failure_reports (xs @ ys) = failure_reports xs + failure_reports ys"
  by (induction xs rule: failure_reports.induct) auto

lemma reports_of_transition:
  "oh_MetricsCollector h \<Longrightarrow> state_reports (OnTransition_hooks vstr h t) = [(vstr (st_From t), vstr (st_To t))]"
  "failure_reports (OnTransition_hooks vstr h t) = 0"
  by (simp_all add: OnTransition_hooks_def Let_def)

lemma reports_of_failure:
  "state_reports (fst (OnTransitionFailed_hooks vstr h from to e md)) = []"
  "oh_MetricsCollector h \<Longrightarrow> failure_reports (fst (OnTransitionFailed_hooks vstr h from to e md)) = 1"
  by (auto simp: OnTransitionFailed_hooks_def Let_def split: option.splits)

lemma calls_of_one:
  "[i \<leftarrow> obs. i = ob] = [ob] \<Longrightarrow> concat (map (\<lambda>i. if i = ob then X else []) obs) = X"
proof -
  have "concat (map (\<lambda>i. if i = ob then X else []) obs) = concat (map (\<lambda>_. X) [i \<leftarrow> obs. i = ob])"
    by (induction obs) auto
  then show "[i \<leftarrow> obs. i = ob] = [ob] \<Longrightarrow> ?thesis" by simp
qed

abbreviation subscribed_once :: "nat \<Rightarrow> 's machine \<Rightarrow> bool" where
  "subscribed_once ob m \<equiv> [i \<leftarrow> m_observers m. i = ob] = [ob]"

lemma hook_calls_notify:
  assumes "subscribed_once ob m"
  shows "concat (map (hook_calls vstr h ob) (notifyTransition m t)) = OnTransition_hooks vstr h t"
    and "concat (map (hook_calls vstr h ob) (notifyTransitionFailed m from to e md))
      = fst (OnTransitionFailed_hooks vstr h from to (Some e) md)"
  using calls_of_one [OF assms] by (simp_all add: notifyTransition_def notifyTransitionFailed_def comp_def)

lemma attempt_reports:
  assumes "TransitionWithContext vstr now tid m to md = (m1, eff, e)" and "subscribed_once ob m" and "oh_MetricsCollector h"
  shows "subscribed_once ob m1"
    and "path (vstr (m_state m)) (state_reports (concat (map (hook_calls vstr h ob) eff))) (vstr (m_state m1))"
    and "length (state_reports (concat (map (hook_calls vstr h ob) eff))) = (if e = None then 1 else 0)"
    and "failure_reports (concat (map (hook_calls vstr h ob) eff)) = (if e = None then 0 else 1)"
  using assms
  by (auto simp: TransitionWithContext_def Let_def hook_calls_notify reports_of_transition reports_of_failure
      split: if_splits option.splits)

lemma path_append: "path a (xs @ ys) c \<longleftrightarrow> (\<exists>b. path a xs b \<and> path b ys c)"
  by (induction xs arbitrary: a) auto

lemma attempt_all_reports:
  assumes "attempt_all vstr m as = (m', eff, n)" and "subscribed_once ob m" and "oh_MetricsCollector h"
  shows "path (vstr (m_state m)) (state_reports (concat (map (hook_calls vstr h ob) eff))) (vstr (m_state m'))
    \<and> length (state_reports (concat (map (hook_calls vstr h ob) eff))) = n
    \<and> failure_reports (concat (map (hook_calls vstr h ob) eff)) = length as - n \<and> n \<le> length as"
  using assms(1,2)
proof (induction vstr m as arbitrary: m' eff n rule: attempt_all.induct)
  case (2 vstr m now tid to md as)
  obtain m1 eff1 e where t: "TransitionWithContext vstr now tid m to md = (m1, eff1, e)" by (cases "TransitionWithContext vstr now tid m to md")
  obtain eff2 k where a: "attempt_all vstr m1 as = (m', eff2, k)" "eff = eff1 @ eff2" "n = (if e = None then Suc k else k)"
    using 2(2) t by (auto split: prod.splits)
  note one = attempt_reports [OF t 2(3) assms(3)]
  from "2.IH" [OF t [symmetric] refl a(1) one(1)] one a show ?case by (auto simp: path_append)
qed simp

text \<open>
  The transitions that the hooks of an observable state machine report to the metrics collector, in the order the
  machine issues the notifications, form a path from the initial state to the current state with one step for each accepted
  attempt, and every refused attempt is reported as an error once.
\<close>

theorem hooks_report_the_run:
  assumes "CreateObservableStateMachine now config ob = Inr (m, eff0)" and "attempt_all vstr m as = (m', eff, n)"
    and "oh_MetricsCollector h"
  shows "path (vstr (InitialState config)) (state_reports (concat (map (hook_calls vstr h ob) eff))) (vstr (Current m'))
    \<and> length (state_reports (concat (map (hook_calls vstr h ob) eff))) = n
    \<and> failure_reports (concat (map (hook_calls vstr h ob) eff)) = length as - n"
proof -
  have "m_state m = InitialState config" "m_observers m = [ob]"
    using assms(1) by (auto simp: CreateObservableStateMachine_def New_def Subscribe_def Let_def split: if_splits sum.splits)
  then show ?thesis using attempt_all_reports [OF assms(2) _ assms(3), of ob] by (simp add: Current_def)
qed

definition two_states :: "string sm_config" where
  "two_states = DefaultConfig ''a'' (Some (fmap_of_list [(''a'', [''b'']), (''b'', [''a''])]))"

theorem hooks_report_the_run_witness:
  "\<exists>m eff0 m' eff. CreateObservableStateMachine 0 two_states 7 = Inr (m, eff0)
    \<and> attempt_all id m [(1, ''x'', ''b'', None), (2, ''y'', ''b'', None)] = (m', eff, 1) \<and> Current m' = ''b''
    \<and> failure_reports (concat (map (hook_calls id (NewObservabilityHooks True False False False ''c'') 7) eff)) = 1"
proof -
  let ?as = "[(1, ''x'', ''b'', None), (2, ''y'', ''b'', None)] :: string attempt list"
  let ?h = "NewObservabilityHooks True False False False ''c''"
  obtain m eff0 where m: "CreateObservableStateMachine 0 two_states 7 = Inr (m, eff0)"
    by (simp add: CreateObservableStateMachine_def New_def two_states_def DefaultConfig_def)
  obtain m' eff where a: "attempt_all id m ?as = (m', eff, 1)" "Current m' = ''b''"
    using m by (auto simp: CreateObservableStateMachine_def New_def two_states_def DefaultConfig_def Subscribe_def
        TransitionWithContext_def CanTransition_def Contains_def Let_def Current_def)
  have "oh_MetricsCollector ?h" by (simp add: NewObservabilityHooks_def)
  from hooks_report_the_run [OF m a(1) this] a m show ?thesis by auto
qed

end
