(* ===== verification/Transport_State.thy ===== *)
theory Transport_State
  imports Observability
begin

text \<open>
  Connection states of a transport and their manager (synckit/statemachine/transport_states.go, transport_manager.go).
  \<open>TransportState\<close> is an int in the source; \<open>TransportOther\<close> stands for the ints without a name. The state machine notifies the
  manager in goroutines, so the notifications of a transition are pending until they are delivered, in any order.
\<close>

section \<open>States\<close>

datatype transport_state =
    TransportDisconnected | TransportConnecting | TransportConnected | TransportReconnecting | TransportFailed
  | TransportShuttingDown | TransportOther i64

fun TransportState_String :: "transport_state \<Rightarrow> string" where
  "TransportState_String TransportDisconnected = ''disconnected''"
| "TransportState_String TransportConnecting = ''connecting''"
| "TransportState_String TransportConnected = ''connected''"
| "TransportState_String TransportReconnecting = ''reconnecting''"
| "TransportState_String TransportFailed = ''failed''"
| "TransportState_String TransportShuttingDown = ''shutting_down''"
| "TransportState_String (TransportOther i) = ''unknown_transport_state_'' @ i64_dec i"

definition CanConnect :: "transport_state \<Rightarrow> bool" where
  "CanConnect ts \<longleftrightarrow> ts = TransportDisconnected \<or> ts = TransportFailed"

definition CanReconnect :: "transport_state \<Rightarrow> bool" where
  "CanReconnect ts \<longleftrightarrow> ts = TransportConnected \<or> ts = TransportDisconnected \<or> ts = TransportFailed"

definition CanSendData :: "transport_state \<Rightarrow> bool" where
  "CanSendData ts \<longleftrightarrow> ts = TransportConnected"

definition CanReceiveData :: "transport_state \<Rightarrow> bool" where
  "CanReceiveData ts \<longleftrightarrow> ts = TransportConnected"

definition IsConnected :: "transport_state \<Rightarrow> bool" where
  "IsConnected ts \<longleftrightarrow> ts = TransportConnected"

definition IsTerminal_transport :: "transport_state \<Rightarrow> bool" where
  "IsTerminal_transport ts \<longleftrightarrow> ts = TransportFailed"

definition transport_rules :: "transport_state transition_rules" where
  "transport_rules = Some (fmap_of_list [
     (TransportDisconnected, [TransportConnecting, TransportShuttingDown]),
     (TransportConnecting, [TransportConnected, TransportFailed, TransportDisconnected, TransportShuttingDown]),
     (TransportConnected, [TransportReconnecting, TransportDisconnected, TransportFailed, TransportShuttingDown]),
     (TransportReconnecting, [TransportConnected, TransportFailed, TransportDisconnected, TransportShuttingDown]),
     (TransportFailed, [TransportConnecting, TransportShuttingDown]),
     (TransportShuttingDown, [])])"

definition ValidateTransition :: "transport_state validator" where
  "ValidateTransition from to =
     (if from = TransportShuttingDown then Some (ErrorString ''cannot transition from shutting down state'') else None)"

definition NewTransportStateMachine :: "int \<Rightarrow> go_error + transport_state machine \<times> transport_state sm_effect list" where
  "NewTransportStateMachine now = New now
     \<lparr>InitialState = TransportDisconnected, TransitionRules = transport_rules, Validator = Some ValidateTransition,
      Metrics = False, MaxHistorySize = 50, EnableMetrics = True, Name = ''transport_connection''\<rparr>"

section \<open>Metadata of transitions\<close>

definition ConnectingMetadata :: "time_fmt \<Rightarrow> int \<Rightarrow> string \<Rightarrow> int \<Rightarrow> metadata" where
  "ConnectingMetadata tf now endpoint timeout = md_of [(''endpoint'', GString endpoint), (''timeout'', GDuration tf timeout),
     (''started_at'', GString (tf_RFC3339 tf now)), (''operation'', GString ''connecting'')]"

definition ConnectedMetadata :: "time_fmt \<Rightarrow> int \<Rightarrow> string \<Rightarrow> int \<Rightarrow> metadata" where
  "ConnectedMetadata tf now endpoint connectionTime = md_of [(''endpoint'', GString endpoint),
     (''connection_time'', GDuration tf connectionTime), (''connected_at'', GString (tf_RFC3339 tf now)),
     (''operation'', GString ''connected'')]"

definition ReconnectingMetadata :: "time_fmt \<Rightarrow> int \<Rightarrow> string \<Rightarrow> int \<Rightarrow> int \<Rightarrow> metadata" where
  "ReconnectingMetadata tf now reason attempt nextRetry = md_of [(''disconnect_reason'', GString reason),
     (''attempt'', GInt_of attempt), (''next_retry'', GDuration tf nextRetry), (''started_at'', GString (tf_RFC3339 tf now)),
     (''operation'', GString ''reconnecting'')]"

definition FailedMetadata :: "time_fmt \<Rightarrow> int \<Rightarrow> go_error option \<Rightarrow> int \<Rightarrow> int \<Rightarrow> metadata go" where
  "FailedMetadata tf now err attempts duration =
     (case err of
        None \<Rightarrow> None
      | Some e \<Rightarrow> Some (md_of [(''error'', GString (Error_text e)), (''total_attempts'', GInt_of attempts),
          (''total_duration'', GDuration tf duration), (''failed_at'', GString (tf_RFC3339 tf now)),
          (''operation'', GString ''failed'')]))"

definition DisconnectedMetadata :: "time_fmt \<Rightarrow> int \<Rightarrow> string \<Rightarrow> bool \<Rightarrow> metadata" where
  "DisconnectedMetadata tf now reason graceful = md_of [(''disconnect_reason'', GString reason), (''graceful'', GBool graceful),
     (''disconnected_at'', GString (tf_RFC3339 tf now)), (''operation'', GString ''disconnected'')]"

definition ShuttingDownMetadata :: "time_fmt \<Rightarrow> int \<Rightarrow> string \<Rightarrow> metadata" where
  "ShuttingDownMetadata tf now reason = md_of [(''shutdown_reason'', GString reason),
     (''started_at'', GString (tf_RFC3339 tf now)), (''operation'', GString ''shutting_down'')]"

section \<open>The manager\<close>

text \<open>
  The manager subscribes itself under the identity \<open>manager_id\<close> and the hooks, if there are any, under \<open>hooks_id\<close>.
\<close>

record transport_manager =
  tm_stateMachine :: "transport_state machine"
  tm_endpoint :: string
  tm_lastError :: "go_error option"
  tm_connectionTime :: int
  tm_totalAttempts :: i64
  tm_hooks :: "observability_hooks option"
  tm_stateHandlers :: "nat list"

record transport_manager_config =
  tc_Endpoint :: string
  tc_MetricsCollector :: bool
  tc_Tracer :: bool
  tc_HealthUpdater :: bool
  tc_ComponentName :: string

definition manager_id :: nat where "manager_id = 0"
definition hooks_id :: nat where "hooks_id = 1"

definition NewTransportStateManager :: "int \<Rightarrow> transport_manager_config \<Rightarrow> go_error + transport_manager" where
  "NewTransportStateManager now config =
     (case NewTransportStateMachine now of
        Inl err \<Rightarrow> Inl (WrapError ''failed to create transport state machine: '' err)
      | Inr (m, _) \<Rightarrow>
          let componentName = (if tc_ComponentName config = [] then ''transport_manager'' else tc_ComponentName config);
              hooked = tc_MetricsCollector config \<or> tc_Tracer config \<or> tc_HealthUpdater config;
              m1 = (if hooked then Subscribe m (Some hooks_id) else m)
          in Inr \<lparr>tm_stateMachine = Subscribe m1 (Some manager_id), tm_endpoint = tc_Endpoint config, tm_lastError = None,
                 tm_connectionTime = zero_time, tm_totalAttempts = 0,
                 tm_hooks = (if hooked then Some (NewObservabilityHooks (tc_MetricsCollector config) (tc_Tracer config)
                     (tc_HealthUpdater config) True componentName) else None),
                 tm_stateHandlers = []\<rparr>)"

text \<open>The handlers are started in goroutines; the second component lists these calls.\<close>

definition OnTransition_manager ::
  "transport_manager \<Rightarrow> transport_state state_transition \<Rightarrow> transport_manager \<times> (nat \<times> transport_state state_transition) list" where
  "OnTransition_manager tsm t =
     (let tsm1 = (case st_To t of
            TransportConnecting \<Rightarrow> tsm\<lparr>tm_totalAttempts := tm_totalAttempts tsm + 1, tm_lastError := None\<rparr>
          | TransportConnected \<Rightarrow> tsm\<lparr>tm_connectionTime := st_Timestamp t, tm_lastError := None\<rparr>
          | TransportFailed \<Rightarrow> (case gm_lookup (st_Metadata t) ''error'' of
                Some (GString s) \<Rightarrow> tsm\<lparr>tm_lastError := Some (ErrorString s)\<rparr>
              | _ \<Rightarrow> tsm)
          | TransportDisconnected \<Rightarrow> tsm\<lparr>tm_lastError := None\<rparr>
          | _ \<Rightarrow> tsm)
      in (tsm1, map (\<lambda>h. (h, t)) (tm_stateHandlers tsm1)))"

definition GetConnectionState :: "transport_manager \<Rightarrow> transport_state" where
  "GetConnectionState tsm = Current (tm_stateMachine tsm)"

definition SubscribeToStateChanges :: "transport_manager \<Rightarrow> nat option \<Rightarrow> transport_manager \<times> go_error option" where
  "SubscribeToStateChanges tsm handler =
     (case handler of
        None \<Rightarrow> (tsm, Some (ErrorString ''handler cannot be nil''))
      | Some h \<Rightarrow> (tsm\<lparr>tm_stateHandlers := tm_stateHandlers tsm @ [h]\<rparr>, None))"

text \<open>A transition of the manager's machine, with the notifications it causes.\<close>

type_synonym transport_effects = "transport_state sm_effect list"

definition tm_transition ::
  "int \<Rightarrow> string \<Rightarrow> transport_manager \<Rightarrow> transport_state \<Rightarrow> metadata \<Rightarrow> transport_manager \<times> transport_effects \<times> go_error option" where
  "tm_transition now tid tsm to md =
     (case TransitionWithContext TransportState_String now tid (tm_stateMachine tsm) to md of
        (m, eff, e) \<Rightarrow> (tsm\<lparr>tm_stateMachine := m\<rparr>, eff, e))"

text \<open>
  \<open>at\<close> is the time read for the metadata, \<open>now\<close> the time the machine reads.
\<close>

definition TransitionToConnecting ::
  "time_fmt \<Rightarrow> int \<Rightarrow> int \<Rightarrow> string \<Rightarrow> transport_manager \<Rightarrow> int \<Rightarrow> transport_manager \<times> transport_effects \<times> go_error option" where
  "TransitionToConnecting tf at now tid tsm timeout =
     (let currentState = GetConnectionState tsm in
      if \<not> CanConnect currentState
      then (tsm, [], Some (ErrorString (''cannot connect from state: '' @ TransportState_String currentState)))
      else tm_transition now tid tsm TransportConnecting (ConnectingMetadata tf at (tm_endpoint tsm) timeout))"

definition TransitionToConnected ::
  "time_fmt \<Rightarrow> int \<Rightarrow> int \<Rightarrow> string \<Rightarrow> transport_manager \<Rightarrow> int \<Rightarrow> transport_manager \<times> transport_effects \<times> go_error option" where
  "TransitionToConnected tf at now tid tsm connectionTime =
     tm_transition now tid tsm TransportConnected (ConnectedMetadata tf at (tm_endpoint tsm) connectionTime)"

definition TransitionToReconnecting ::
  "time_fmt \<Rightarrow> int \<Rightarrow> int \<Rightarrow> string \<Rightarrow> transport_manager \<Rightarrow> string \<Rightarrow> int \<Rightarrow> int
     \<Rightarrow> transport_manager \<times> transport_effects \<times> go_error option" where
  "TransitionToReconnecting tf at now tid tsm reason attempt nextRetry =
     (let currentState = GetConnectionState tsm in
      if \<not> CanReconnect currentState
      then (tsm, [], Some (ErrorString (''cannot reconnect from state: '' @ TransportState_String currentState)))
      else tm_transition now tid tsm TransportReconnecting (ReconnectingMetadata tf at reason attempt nextRetry))"

definition TransitionToFailed ::
  "time_fmt \<Rightarrow> int \<Rightarrow> int \<Rightarrow> string \<Rightarrow> transport_manager \<Rightarrow> go_error option \<Rightarrow> int \<Rightarrow> int
     \<Rightarrow> (transport_manager \<times> transport_effects \<times> go_error option) go" where
  "TransitionToFailed tf at now tid tsm err attempts duration = do {
     md \<leftarrow> FailedMetadata tf at err attempts duration;
     Some (tm_transition now tid tsm TransportFailed md) }"

definition TransitionToDisconnected ::
  "time_fmt \<Rightarrow> int \<Rightarrow> int \<Rightarrow> string \<Rightarrow> transport_manager \<Rightarrow> string \<Rightarrow> bool \<Rightarrow> transport_manager \<times> transport_effects \<times> go_error option" where
  "TransitionToDisconnected tf at now tid tsm reason graceful =
     tm_transition now tid tsm TransportDisconnected (DisconnectedMetadata tf at reason graceful)"

definition TransitionToShuttingDown ::
  "time_fmt \<Rightarrow> int \<Rightarrow> int \<Rightarrow> string \<Rightarrow> transport_manager \<Rightarrow> string \<Rightarrow> transport_manager \<times> transport_effects \<times> go_error option" where
  "TransitionToShuttingDown tf at now tid tsm reason =
     tm_transition now tid tsm TransportShuttingDown (ShuttingDownMetadata tf at reason)"

definition IsHealthy :: "transport_manager \<Rightarrow> bool" where
  "IsHealthy tsm = (let s = GetConnectionState tsm in CanSendData s \<or> CanReceiveData s)"

definition CanSendData_manager :: "transport_manager \<Rightarrow> bool" where
  "CanSendData_manager tsm = CanSendData (GetConnectionState tsm)"

definition CanReceiveData_manager :: "transport_manager \<Rightarrow> bool" where
  "CanReceiveData_manager tsm = CanReceiveData (GetConnectionState tsm)"

definition GetLastError :: "transport_manager \<Rightarrow> go_error option" where
  "GetLastError tsm = tm_lastError tsm"

definition GetConnectionMetadata :: "time_fmt \<Rightarrow> int \<Rightarrow> transport_manager \<Rightarrow> metadata" where
  "GetConnectionMetadata tf now tsm =
     (let s = GetConnectionState tsm in md_of ([
        (''current_state'', GString (TransportState_String s)), (''endpoint'', GString (tm_endpoint tsm)),
        (''total_attempts'', GInt (tm_totalAttempts tsm)), (''is_connected'', GBool (IsConnected s)),
        (''can_send_data'', GBool (CanSendData s)), (''can_receive_data'', GBool (CanReceiveData s))]
      @ (if \<not> time_IsZero (tm_connectionTime tsm)
         then [(''connected_at'', GString (tf_RFC3339 tf (tm_connectionTime tsm))),
               (''connection_duration'', GString (tf_Duration tf (time_Sub now (tm_connectionTime tsm))))] else [])
      @ (case tm_lastError tsm of None \<Rightarrow> [] | Some e \<Rightarrow> [(''last_error'', GString (Error_text e))])))"

definition Close_transport_manager ::
  "time_fmt \<Rightarrow> int \<Rightarrow> int \<Rightarrow> string \<Rightarrow> transport_manager \<Rightarrow> transport_manager \<times> transport_effects \<times> go_error option" where
  "Close_transport_manager tf at now tid tsm =
     (let (tsm1, eff) = (if GetConnectionState tsm \<noteq> TransportShuttingDown
            then (case TransitionToShuttingDown tf at now tid tsm ''manager_close'' of (t, eff, _) \<Rightarrow> (t, eff))
            else (tsm, []))
      in (tsm1\<lparr>tm_stateHandlers := []\<rparr>, eff, None))"

text \<open>The wrapper closes the manager and the transport it wraps, given by its \<open>Close\<close>.\<close>

record 't transport_wrapper =
  tw_transport :: 't
  tw_stateManager :: transport_manager

definition NewStatefulTransportWrapper ::
  "int \<Rightarrow> 't \<Rightarrow> transport_manager_config \<Rightarrow> go_error + 't transport_wrapper" where
  "NewStatefulTransportWrapper now transport config =
     (case NewTransportStateManager now config of
        Inl err \<Rightarrow> Inl (WrapError ''failed to create transport state manager: '' err)
      | Inr tsm \<Rightarrow> Inr \<lparr>tw_transport = transport, tw_stateManager = tsm\<rparr>)"

definition Close_wrapper ::
  "time_fmt \<Rightarrow> int \<Rightarrow> int \<Rightarrow> string \<Rightarrow> ('t \<Rightarrow> 't \<times> go_error option) \<Rightarrow> 't transport_wrapper
     \<Rightarrow> 't transport_wrapper \<times> transport_effects \<times> go_error option" where
  "Close_wrapper tf at now tid close_transport w =
     (case Close_transport_manager tf at now tid (tw_stateManager w) of (tsm, eff, e1) \<Rightarrow>
      case close_transport (tw_transport w) of (t, e2) \<Rightarrow>
        let errs = (case e1 of None \<Rightarrow> [] | Some e \<Rightarrow> [WrapError ''state manager close error: '' e])
              @ (case e2 of None \<Rightarrow> [] | Some e \<Rightarrow> [WrapError ''transport close error: '' e])
        in (w\<lparr>tw_transport := t, tw_stateManager := tsm\<rparr>, eff,
            if errs \<noteq> [] then Some (ErrorString (''multiple close errors: ['' @ join '' '' (map Error_text errs) @ '']'')) else None))"

section \<open>Interleavings\<close>

text \<open>The calls of the manager that make transitions, with the effects they cause.\<close>

inductive tm_call :: "time_fmt \<Rightarrow> transport_manager \<Rightarrow> transport_manager \<Rightarrow> transport_effects \<Rightarrow> bool" for tf tsm where
  connecting: "TransitionToConnecting tf at now tid tsm timeout = (tsm', eff, e) \<Longrightarrow> tm_call tf tsm tsm' eff"
| connected: "TransitionToConnected tf at now tid tsm d = (tsm', eff, e) \<Longrightarrow> tm_call tf tsm tsm' eff"
| reconnecting: "TransitionToReconnecting tf at now tid tsm reason n d = (tsm', eff, e) \<Longrightarrow> tm_call tf tsm tsm' eff"
| failed: "TransitionToFailed tf at now tid tsm err n d = Some (tsm', eff, e) \<Longrightarrow> tm_call tf tsm tsm' eff"
| disconnected: "TransitionToDisconnected tf at now tid tsm reason g = (tsm', eff, e) \<Longrightarrow> tm_call tf tsm tsm' eff"
| shutting_down: "TransitionToShuttingDown tf at now tid tsm reason = (tsm', eff, e) \<Longrightarrow> tm_call tf tsm tsm' eff"
| close: "Close_transport_manager tf at now tid tsm = (tsm', eff, e) \<Longrightarrow> tm_call tf tsm tsm' eff"
| subscribe: "SubscribeToStateChanges tsm h = (tsm', e) \<Longrightarrow> tm_call tf tsm tsm' []"

fun manager_moves :: "transport_effects \<Rightarrow> transport_state state_transition list" where
  "manager_moves [] = []"
| "manager_moves (NotifyTransition i t # es) = (if i = manager_id then t # manager_moves es else manager_moves es)"
| "manager_moves (_ # es) = manager_moves es"

text \<open>
  \<open>tm_reach tf tsm P A D\<close>: a manager that its calls and the goroutines of its machine can lead to, with the notifications
  \<open>P\<close> still pending, the transitions \<open>A\<close> accepted so far and the transitions \<open>D\<close> delivered to the manager so far.
\<close>

inductive tm_reach ::
  "time_fmt \<Rightarrow> transport_manager \<Rightarrow> transport_effects \<Rightarrow> transport_state state_transition list
     \<Rightarrow> transport_state state_transition list \<Rightarrow> bool" for tf where
  start: "NewTransportStateManager now config = Inr tsm \<Longrightarrow> tm_reach tf tsm [] [] []"
| call: "tm_reach tf tsm P A D \<Longrightarrow> tm_call tf tsm tsm' eff \<Longrightarrow> tm_reach tf tsm' (P @ eff) (A @ manager_moves eff) D"
| deliver: "tm_reach tf tsm (P1 @ NotifyTransition manager_id t # P2) A D \<Longrightarrow> OnTransition_manager tsm t = (tsm', hs)
    \<Longrightarrow> tm_reach tf tsm' (P1 @ P2) A (D @ [t])"
| deliver_other: "tm_reach tf tsm (P1 @ x # P2) A D \<Longrightarrow> \<forall>t. x \<noteq> NotifyTransition manager_id t
    \<Longrightarrow> tm_reach tf tsm (P1 @ P2) A D"

lemma manager_moves_append [simp]: "manager_moves (xs @ ys) = manager_moves xs @ manager_moves ys"
  by (induction xs rule: manager_moves.induct) auto

definition transport_allowed :: "transport_state \<Rightarrow> transport_state \<Rightarrow> bool" where
  "transport_allowed = Contains transport_rules"

lemma transport_allowed_iff:
  "transport_allowed a b \<longleftrightarrow> (case a of
       TransportDisconnected \<Rightarrow> b \<in> {TransportConnecting, TransportShuttingDown}
     | TransportConnecting \<Rightarrow> b \<in> {TransportConnected, TransportFailed, TransportDisconnected, TransportShuttingDown}
     | TransportConnected \<Rightarrow> b \<in> {TransportReconnecting, TransportDisconnected, TransportFailed, TransportShuttingDown}
     | TransportReconnecting \<Rightarrow> b \<in> {TransportConnected, TransportFailed, TransportDisconnected, TransportShuttingDown}
     | TransportFailed \<Rightarrow> b \<in> {TransportConnecting, TransportShuttingDown}
     | _ \<Rightarrow> False)"
  by (auto simp: transport_allowed_def Contains_def transport_rules_def fmlookup_of_list split: transport_state.split)

text \<open>The machine of a manager.\<close>

definition manager_ok :: "transport_manager \<Rightarrow> bool" where
  "manager_ok tsm \<longleftrightarrow> TransitionRules (m_config (tm_stateMachine tsm)) = transport_rules
     \<and> m_validator (tm_stateMachine tsm) = Some ValidateTransition \<and> subscribed_once manager_id (tm_stateMachine tsm)"

lemma manager_moves_notify:
  assumes "subscribed_once manager_id m"
  shows "manager_moves (notifyTransition m t) = [t]"
proof -
  have "manager_moves (map (\<lambda>i. NotifyTransition i t) obs) = map (\<lambda>_. t) [i \<leftarrow> obs. i = manager_id]" for obs
    by (induction obs) auto
  then show ?thesis using assms by (simp add: notifyTransition_def)
qed

lemma manager_moves_failed [simp]: "manager_moves (notifyTransitionFailed m from to e md) = []"
proof -
  have "manager_moves (map (\<lambda>i. NotifyTransitionFailed i from to e md) obs) = []" for obs by (induction obs) auto
  then show ?thesis by (simp add: notifyTransitionFailed_def)
qed

lemma validator_agrees: "transport_allowed a b \<Longrightarrow> ValidateTransition a b = None"
  by (auto simp: ValidateTransition_def transport_allowed_iff)

lemma tm_transition_cases:
  assumes "manager_ok tsm"
  obtains t m eff where "transport_allowed (GetConnectionState tsm) to" "tm_transition now tid tsm to md = (tsm\<lparr>tm_stateMachine := m\<rparr>, eff, None)"
      "manager_moves eff = [t]" "st_From t = GetConnectionState tsm" "st_To t = to" "st_Metadata t = md" "st_Timestamp t = now"
      "m_state m = to" "manager_ok (tsm\<lparr>tm_stateMachine := m\<rparr>)"
  | eff err where "\<not> transport_allowed (GetConnectionState tsm) to" "tm_transition now tid tsm to md = (tsm, eff, Some err)"
      "manager_moves eff = []"
proof (cases "transport_allowed (GetConnectionState tsm) to")
  case True
  let ?m = "tm_stateMachine tsm"
  let ?t = "\<lparr>st_From = m_state ?m, st_To = to, st_Timestamp = now, st_Duration = time_Sub now (m_stateStart ?m),
     st_Metadata = md, st_TransitionID = tid\<rparr>"
  let ?m' = "addToHistory (?m\<lparr>m_state := to, m_stateStart := now\<rparr>) ?t"
  have "CanTransition ?m to" "ValidateTransition (m_state ?m) to = None"
    using True assms validator_agrees [of "m_state ?m" to]
    by (simp_all add: CanTransition_def manager_ok_def transport_allowed_def GetConnectionState_def Current_def)
  then obtain eff where "tm_transition now tid tsm to md = (tsm\<lparr>tm_stateMachine := ?m'\<rparr>, eff, None)" "manager_moves eff = [?t]"
    using assms manager_moves_notify [of ?m'] by (auto simp: tm_transition_def TransitionWithContext_def Let_def manager_ok_def)
  with True assms show ?thesis
    by (intro that(1) [of ?m' eff ?t]) (auto simp: GetConnectionState_def Current_def manager_ok_def)
next
  case False
  then have "\<not> CanTransition (tm_stateMachine tsm) to"
    using assms by (simp add: CanTransition_def manager_ok_def transport_allowed_def GetConnectionState_def Current_def)
  then show ?thesis using False by (intro that(2)) (auto simp: tm_transition_def TransitionWithContext_def Let_def)
qed

text \<open>
  The transitions accepted so far are a path of the rules, and a transition to Failed carries the text of its error. \<open>track_error\<close>
  and \<open>track_attempts\<close> are what a delivered transition does to the manager.
\<close>

fun legal_path :: "transport_state \<Rightarrow> transport_state state_transition list \<Rightarrow> transport_state \<Rightarrow> bool" where
  "legal_path a [] b \<longleftrightarrow> a = b"
| "legal_path a (t # ts) b \<longleftrightarrow> a = st_From t \<and> transport_allowed a (st_To t) \<and> legal_path (st_To t) ts b"

lemma legal_path_snoc: "legal_path a (ts @ [t]) b \<longleftrightarrow> legal_path a ts (st_From t) \<and> transport_allowed (st_From t) (st_To t) \<and> st_To t = b"
  by (induction ts arbitrary: a) auto

definition error_of :: "transport_state state_transition \<Rightarrow> string option" where
  "error_of t = (case gm_lookup (st_Metadata t) ''error'' of Some (GString s) \<Rightarrow> Some s | _ \<Rightarrow> None)"

definition failures_explained :: "transport_state state_transition list \<Rightarrow> bool" where
  "failures_explained A \<longleftrightarrow> (\<forall>t \<in> set A. st_To t = TransportFailed \<longrightarrow> error_of t \<noteq> None)"

fun track_error :: "go_error option \<Rightarrow> transport_state state_transition \<Rightarrow> go_error option" where
  "track_error e t = (case st_To t of
      TransportConnecting \<Rightarrow> None | TransportConnected \<Rightarrow> None | TransportDisconnected \<Rightarrow> None
    | TransportFailed \<Rightarrow> (case error_of t of Some s \<Rightarrow> Some (ErrorString s) | None \<Rightarrow> e)
    | _ \<Rightarrow> e)"

definition connect_attempts :: "transport_state state_transition list \<Rightarrow> nat" where
  "connect_attempts ts = length [t \<leftarrow> ts. st_To t = TransportConnecting]"

lemma OnTransition_manager_tracks:
  assumes "OnTransition_manager tsm t = (tsm', hs)"
  shows "tm_lastError tsm' = track_error (tm_lastError tsm) t"
    "tm_totalAttempts tsm' = tm_totalAttempts tsm + of_nat (connect_attempts [t])"
    "tm_stateMachine tsm' = tm_stateMachine tsm" "hs = map (\<lambda>h. (h, t)) (tm_stateHandlers tsm)"
  using assms
  by (auto simp: OnTransition_manager_def Let_def error_of_def connect_attempts_def split: transport_state.splits option.splits go_any.splits)

definition tm_inv ::
  "transport_manager \<Rightarrow> transport_effects \<Rightarrow> transport_state state_transition list \<Rightarrow> transport_state state_transition list \<Rightarrow> bool" where
  "tm_inv tsm P A D \<longleftrightarrow> manager_ok tsm \<and> legal_path TransportDisconnected A (GetConnectionState tsm) \<and> failures_explained A
     \<and> mset A = mset D + mset (manager_moves P) \<and> tm_lastError tsm = foldl track_error None D
     \<and> tm_totalAttempts tsm = of_nat (connect_attempts D)"

text \<open>Every call is a transition attempt, or leaves machine and tracking alone; handlers do not matter.\<close>

lemma failed_metadata: "FailedMetadata tf at err n d = Some md \<Longrightarrow> gm_lookup md ''error'' = Some (GString (Error_text (the err)))"
  by (auto simp: FailedMetadata_def md_of_def split: option.splits)

lemma tm_call_cases:
  assumes "tm_call tf tsm tsm' eff"
  obtains "tm_stateMachine tsm' = tm_stateMachine tsm" "tm_lastError tsm' = tm_lastError tsm"
      "tm_totalAttempts tsm' = tm_totalAttempts tsm" "eff = []"
  | now tid to md tsm1 e where "tm_transition now tid tsm to md = (tsm1, eff, e)" "tm_stateMachine tsm' = tm_stateMachine tsm1"
      "tm_lastError tsm' = tm_lastError tsm1" "tm_totalAttempts tsm' = tm_totalAttempts tsm1"
      "to = TransportFailed \<longrightarrow> (\<exists>s. gm_lookup md ''error'' = Some (GString s))"
  using assms
proof cases
  case (connecting at now tid timeout e)
  then show ?thesis using that(1) that(2) [of now tid TransportConnecting] by (fastforce simp: TransitionToConnecting_def Let_def split: if_splits)
next
  case (connected at now tid d e)
  then show ?thesis using that(2) [of now tid TransportConnected] by (fastforce simp: TransitionToConnected_def)
next
  case (reconnecting at now tid reason n d e)
  then show ?thesis using that(1) that(2) [of now tid TransportReconnecting] by (fastforce simp: TransitionToReconnecting_def Let_def split: if_splits)
next
  case (failed at now tid err n d e)
  then obtain md where "FailedMetadata tf at err n d = Some md" "tm_transition now tid tsm TransportFailed md = (tsm', eff, e)"
    by (auto simp: TransitionToFailed_def split: bind_splits)
  then show ?thesis using that(2) [of now tid TransportFailed md] failed_metadata by auto
next
  case (disconnected at now tid reason g e)
  then show ?thesis using that(2) [of now tid TransportDisconnected] by (fastforce simp: TransitionToDisconnected_def)
next
  case (shutting_down at now tid reason e)
  then show ?thesis using that(2) [of now tid TransportShuttingDown] by (fastforce simp: TransitionToShuttingDown_def)
next
  case (close at now tid e)
  then show ?thesis using that(1) that(2) [of now tid TransportShuttingDown]
    by (fastforce simp: Close_transport_manager_def TransitionToShuttingDown_def Let_def split: if_splits prod.splits)
next
  case (subscribe h e)
  then show ?thesis using that(1) by (auto simp: SubscribeToStateChanges_def split: option.splits)
qed

lemma tm_inv_call:
  assumes "tm_inv tsm P A D" and "tm_call tf tsm tsm' eff"
  shows "tm_inv tsm' (P @ eff) (A @ manager_moves eff) D"
  using assms(2)
proof (cases rule: tm_call_cases)
  case 1
  then show ?thesis using assms(1) by (simp add: tm_inv_def manager_ok_def GetConnectionState_def)
next
  case (2 now tid to md tsm1 e)
  have ok: "manager_ok tsm" using assms(1) by (simp add: tm_inv_def)
  show ?thesis
  proof (cases rule: tm_transition_cases [OF ok, of to now tid md])
    case (1 t m eff')
    then have "legal_path TransportDisconnected (A @ [t]) to" "failures_explained (A @ [t])"
      using assms(1) 2(5) by (auto simp: tm_inv_def legal_path_snoc failures_explained_def error_of_def)
    then show ?thesis using 1 2 assms(1)
      by (auto simp: tm_inv_def manager_ok_def GetConnectionState_def Current_def)
  next
    case (2 eff' err)
    then show ?thesis using \<open>tm_transition now tid tsm to md = (tsm1, eff, e)\<close> \<open>tm_stateMachine tsm' = tm_stateMachine tsm1\<close>
        \<open>tm_lastError tsm' = tm_lastError tsm1\<close> \<open>tm_totalAttempts tsm' = tm_totalAttempts tsm1\<close> assms(1)
      by (auto simp: tm_inv_def manager_ok_def GetConnectionState_def)
  qed
qed

lemma tm_start:
  assumes "NewTransportStateManager now config = Inr tsm"
  shows "manager_ok tsm" "GetConnectionState tsm = TransportDisconnected" "tm_lastError tsm = None" "tm_totalAttempts tsm = 0"
  using assms by (auto simp: NewTransportStateManager_def NewTransportStateMachine_def New_def transport_rules_def manager_ok_def
      GetConnectionState_def Current_def Subscribe_def manager_id_def hooks_id_def Let_def split: if_splits)

lemma tm_reach_inv: "tm_reach tf tsm P A D \<Longrightarrow> tm_inv tsm P A D"
proof (induction rule: tm_reach.induct)
  case (start now config tsm)
  then show ?case using tm_start by (auto simp: tm_inv_def failures_explained_def connect_attempts_def)
next
  case (deliver tsm P1 t P2 A D tsm' hs)
  then show ?case using OnTransition_manager_tracks [OF deliver.hyps(2)]
    by (auto simp: tm_inv_def manager_ok_def GetConnectionState_def connect_attempts_def)
next
  case (deliver_other tsm P1 x P2 A D)
  then have "manager_moves (P1 @ x # P2) = manager_moves (P1 @ P2)" by (cases x) auto
  with deliver_other show ?case by (simp add: tm_inv_def)
qed (rule tm_inv_call)

lemma tracked_in_order:
  assumes "legal_path TransportDisconnected A s" and "failures_explained A"
  shows "(s = TransportFailed \<longrightarrow> foldl track_error None A \<noteq> None)
    \<and> (foldl track_error None A \<noteq> None \<longrightarrow> s = TransportFailed \<or> s = TransportShuttingDown)"
  using assms
proof (induction A arbitrary: s rule: rev_induct)
  case (snoc t A)
  then have "legal_path TransportDisconnected A (st_From t)" "transport_allowed (st_From t) (st_To t)" "s = st_To t"
    "failures_explained A" "st_To t = TransportFailed \<longrightarrow> error_of t \<noteq> None"
    by (auto simp: legal_path_snoc failures_explained_def)
  then show ?case using snoc.IH [of "st_From t"] by (cases "st_To t") (auto simp: transport_allowed_iff split: transport_state.splits)
qed simp

section \<open>Properties\<close>

lemma connect_attempts_mset: "connect_attempts ts = size (filter_mset (\<lambda>t. st_To t = TransportConnecting) (mset ts))"
  by (simp add: connect_attempts_def flip: mset_filter)


text \<open>A manager without collectors, and a connection that fails before it succeeds.\<close>

definition plain_fmt :: time_fmt where
  "plain_fmt = \<lparr>tf_RFC3339 = (\<lambda>_. []), tf_Duration = (\<lambda>_. [])\<rparr>"

definition plain_config :: transport_manager_config where
  "plain_config = \<lparr>tc_Endpoint = ''host'', tc_MetricsCollector = False, tc_Tracer = False, tc_HealthUpdater = False, tc_ComponentName = []\<rparr>"

definition first_manager :: transport_manager where
  "first_manager = (case NewTransportStateManager 0 plain_config of Inr m \<Rightarrow> m | Inl _ \<Rightarrow> undefined)"

lemma first_manager_reach: "tm_reach tf first_manager [] [] []"
proof -
  have "NewTransportStateManager 0 plain_config = Inr first_manager"
    by (simp add: first_manager_def NewTransportStateManager_def NewTransportStateMachine_def New_def transport_rules_def Let_def)
  then show ?thesis by (rule tm_reach.start)
qed

lemma first_manager_observers: "m_observers (tm_stateMachine first_manager) = [manager_id]" "manager_ok first_manager"
  "GetConnectionState first_manager = TransportDisconnected"
  by (auto simp: first_manager_def NewTransportStateManager_def NewTransportStateMachine_def New_def transport_rules_def Let_def
      plain_config_def Subscribe_def manager_ok_def GetConnectionState_def Current_def)

text \<open>An accepted transition of a manager that only itself observes: one notification is pending.\<close>

lemma lone_transition:
  assumes "manager_ok tsm" and "m_observers (tm_stateMachine tsm) = [manager_id]" and "m_metrics (tm_stateMachine tsm) = False"
    and "\<not> m_persistenceEnabled (tm_stateMachine tsm)" and "transport_allowed (GetConnectionState tsm) to"
  shows "\<exists>tsm' t. tm_transition now tid tsm to md = (tsm', [NotifyTransition manager_id t], None) \<and> st_To t = to \<and> st_Metadata t = md
    \<and> manager_ok tsm' \<and> m_observers (tm_stateMachine tsm') = [manager_id] \<and> m_metrics (tm_stateMachine tsm') = False
    \<and> \<not> m_persistenceEnabled (tm_stateMachine tsm') \<and> GetConnectionState tsm' = to \<and> tm_lastError tsm' = tm_lastError tsm"
proof -
  have "CanTransition (tm_stateMachine tsm) to" "ValidateTransition (m_state (tm_stateMachine tsm)) to = None"
    using assms(1,5) validator_agrees [of "m_state (tm_stateMachine tsm)" to]
    by (simp_all add: CanTransition_def manager_ok_def transport_allowed_def GetConnectionState_def Current_def)
  then show ?thesis using assms(1-4)
    by (auto simp: tm_transition_def TransitionWithContext_def manager_ok_def notifyTransition_def Let_def metrics_on_def
        addToHistory_def GetConnectionState_def Current_def)
qed

definition lone :: "transport_manager \<Rightarrow> bool" where
  "lone tsm \<longleftrightarrow> manager_ok tsm \<and> m_observers (tm_stateMachine tsm) = [manager_id] \<and> m_metrics (tm_stateMachine tsm) = False
     \<and> \<not> m_persistenceEnabled (tm_stateMachine tsm)"

lemma lone_first: "lone first_manager"
  using first_manager_observers(1,2)
  by (auto simp: lone_def first_manager_def NewTransportStateManager_def NewTransportStateMachine_def New_def transport_rules_def Let_def
      plain_config_def Subscribe_def)

lemma lone_move:
  assumes "tm_reach tf tsm P A D" and "lone tsm" and "transport_allowed (GetConnectionState tsm) to"
    and "\<And>tsm' eff e. tm_transition 0 [] tsm to md = (tsm', eff, e) \<Longrightarrow> tm_call tf tsm tsm' eff"
  shows "\<exists>tsm' t. tm_reach tf tsm' (P @ [NotifyTransition manager_id t]) (A @ [t]) D \<and> lone tsm' \<and> GetConnectionState tsm' = to
    \<and> st_To t = to \<and> st_Metadata t = md"
proof -
  obtain tsm' t where t: "tm_transition 0 [] tsm to md = (tsm', [NotifyTransition manager_id t], None)" "st_To t = to" "st_Metadata t = md"
    "lone tsm'" "GetConnectionState tsm' = to"
    using lone_transition [of tsm to 0 "[]" md] assms(2,3) by (auto simp: lone_def)
  from tm_reach.call [OF assms(1) assms(4) [OF t(1)]] t show ?thesis by auto
qed

text \<open>Two attempts, the first of which fails, with all four notifications pending.\<close>

lemma two_attempts:
  "\<exists>tsm t1 t2 t3 t4. tm_reach plain_fmt tsm (map (NotifyTransition manager_id) [t1, t2, t3, t4]) [t1, t2, t3, t4] []
    \<and> GetConnectionState tsm = TransportConnected \<and> st_To t1 = TransportConnecting \<and> st_To t2 = TransportFailed \<and> st_To t3 = TransportConnecting
    \<and> st_To t4 = TransportConnected \<and> error_of t2 = Some ''refused''"
proof -
  let ?f = "plain_fmt"
  obtain a t1 where a: "tm_reach ?f a [NotifyTransition manager_id t1] [t1] []" "lone a" "GetConnectionState a = TransportConnecting"
    "st_To t1 = TransportConnecting"
    using lone_move [OF first_manager_reach lone_first, of TransportConnecting "ConnectingMetadata ?f 0 (tm_endpoint first_manager) 0" ?f]
      tm_call.connecting [of ?f 0 0 "[]" first_manager 0]
    by (auto simp: first_manager_observers transport_allowed_iff TransitionToConnecting_def CanConnect_def)
  obtain md where md: "FailedMetadata ?f 0 (Some (ErrorString ''refused'')) 0 0 = Some md" "gm_lookup md ''error'' = Some (GString ''refused'')"
    using failed_metadata [of ?f 0 "Some (ErrorString ''refused'')" 0 0] by (auto simp: FailedMetadata_def)
  obtain b t2 where b: "tm_reach ?f b (map (NotifyTransition manager_id) [t1, t2]) [t1, t2] []" "lone b" "GetConnectionState b = TransportFailed"
    "st_To t2 = TransportFailed" "st_Metadata t2 = md"
    using lone_move [OF a(1,2), of TransportFailed md] tm_call.failed [of ?f 0 0 "[]" a "Some (ErrorString ''refused'')" 0 0] md(1)
    by (auto simp: a(3) transport_allowed_iff TransitionToFailed_def)
  obtain c t3 where c: "tm_reach ?f c (map (NotifyTransition manager_id) [t1, t2, t3]) [t1, t2, t3] []" "lone c"
    "GetConnectionState c = TransportConnecting" "st_To t3 = TransportConnecting"
    using lone_move [OF b(1,2), of TransportConnecting "ConnectingMetadata ?f 0 (tm_endpoint b) 0"]
      tm_call.connecting [of ?f 0 0 "[]" b 0]
    by (auto simp: b(3) transport_allowed_iff TransitionToConnecting_def CanConnect_def)
  obtain d t4 where d: "tm_reach ?f d (map (NotifyTransition manager_id) [t1, t2, t3, t4]) [t1, t2, t3, t4] []"
    "GetConnectionState d = TransportConnected" "st_To t4 = TransportConnected"
    using lone_move [OF c(1,2), of TransportConnected "ConnectedMetadata ?f 0 (tm_endpoint c) 0"]
      tm_call.connected [of ?f 0 0 "[]" c 0]
    by (auto simp: c(3) transport_allowed_iff TransitionToConnected_def)
  have "error_of t2 = Some ''refused''" using b(5) md(2) by (simp add: error_of_def)
  with a(4) b(4) c(4) d show ?thesis by blast
qed

lemma deliver_step:
  assumes "tm_reach tf tsm (P1 @ NotifyTransition manager_id t # P2) A D"
  shows "\<exists>tsm'. tm_reach tf tsm' (P1 @ P2) A (D @ [t]) \<and> GetConnectionState tsm' = GetConnectionState tsm
    \<and> (\<forall>s. st_To t = TransportFailed \<longrightarrow> error_of t = Some s \<longrightarrow> tm_lastError tsm' = Some (ErrorString s))"
proof -
  obtain tsm' hs where "OnTransition_manager tsm t = (tsm', hs)" by (cases "OnTransition_manager tsm t")
  with tm_reach.deliver [OF assms this] OnTransition_manager_tracks [OF this] show ?thesis
    by (auto simp: GetConnectionState_def)
qed


text \<open>
  The notifications run in goroutines of their own, so a failure can be delivered after the success that followed it: a
  transport whose first attempt failed and whose second succeeded can be connected and healthy, with every notification
  delivered, and still report the error of the first attempt as its last error.
\<close>

theorem stale_error_after_reconnect:
  "\<exists>tsm A D. tm_reach plain_fmt tsm [] A D \<and> GetConnectionState tsm = TransportConnected \<and> IsHealthy tsm
    \<and> GetLastError tsm = Some (ErrorString ''refused'')"
proof -
  obtain a t1 t2 t3 t4 where a: "tm_reach plain_fmt a (map (NotifyTransition manager_id) [t1, t2, t3, t4]) [t1, t2, t3, t4] []"
    "GetConnectionState a = TransportConnected" "st_To t2 = TransportFailed" "error_of t2 = Some ''refused''"
    using two_attempts by blast
  obtain b where b: "tm_reach plain_fmt b (map (NotifyTransition manager_id) [t2, t3, t4]) [t1, t2, t3, t4] [t1]" "GetConnectionState b = TransportConnected"
    using deliver_step [of plain_fmt a "[]" t1 "map (NotifyTransition manager_id) [t2, t3, t4]" "[t1, t2, t3, t4]" "[]"] a by auto
  obtain c where c: "tm_reach plain_fmt c (map (NotifyTransition manager_id) [t2, t4]) [t1, t2, t3, t4] [t1, t3]" "GetConnectionState c = TransportConnected"
    using deliver_step [of plain_fmt b "[NotifyTransition manager_id t2]" t3 "[NotifyTransition manager_id t4]" "[t1, t2, t3, t4]" "[t1]"] b by auto
  obtain d where d: "tm_reach plain_fmt d [NotifyTransition manager_id t2] [t1, t2, t3, t4] [t1, t3, t4]" "GetConnectionState d = TransportConnected"
    using deliver_step [of plain_fmt c "[NotifyTransition manager_id t2]" t4 "[]" "[t1, t2, t3, t4]" "[t1, t3]"] c by auto
  obtain e where "tm_reach plain_fmt e [] [t1, t2, t3, t4] [t1, t3, t4, t2]" "GetConnectionState e = TransportConnected"
    "tm_lastError e = Some (ErrorString ''refused'')"
    using deliver_step [of plain_fmt d "[]" t2 "[]" "[t1, t2, t3, t4]" "[t1, t3, t4]"] d a(3,4) by auto
  moreover from this(2) have "IsHealthy e" by (simp add: IsHealthy_def CanSendData_def)
  ultimately show ?thesis unfolding GetLastError_def by blast
qed

lemma path_named: "legal_path TransportDisconnected A s \<Longrightarrow> s \<noteq> TransportOther i"
  by (induction A arbitrary: s rule: rev_induct) (auto simp: legal_path_snoc transport_allowed_iff split: transport_state.splits)

lemma manager_calls:
  assumes "tm_reach tf tsm P A D"
  shows "snd (snd (TransitionToConnecting tf at now tid tsm d)) = None \<longleftrightarrow> CanConnect (GetConnectionState tsm)"
    and "snd (snd (TransitionToReconnecting tf at now tid tsm reason n d)) = None \<longleftrightarrow> GetConnectionState tsm = TransportConnected"
    and "GetConnectionState (fst (Close_transport_manager tf at now tid tsm)) = TransportShuttingDown"
    and "GetConnectionState tsm = TransportShuttingDown \<Longrightarrow> tm_call tf tsm tsm' eff \<Longrightarrow>
      GetConnectionState tsm' = TransportShuttingDown \<and> manager_moves eff = []"
proof -
  have i: "tm_inv tsm P A D" using assms by (rule tm_reach_inv)
  then have ok: "manager_ok tsm" by (simp add: tm_inv_def)
  have e: "snd (snd (tm_transition now tid tsm to md)) = None \<longleftrightarrow> transport_allowed (GetConnectionState tsm) to" for to md
    by (cases rule: tm_transition_cases [OF ok, of to now tid md]) auto
  show "snd (snd (TransitionToConnecting tf at now tid tsm d)) = None \<longleftrightarrow> CanConnect (GetConnectionState tsm)"
    by (auto simp: TransitionToConnecting_def Let_def e transport_allowed_iff CanConnect_def)
  show "snd (snd (TransitionToReconnecting tf at now tid tsm reason n d)) = None \<longleftrightarrow> GetConnectionState tsm = TransportConnected"
    by (auto simp: TransitionToReconnecting_def Let_def e transport_allowed_iff CanReconnect_def split: transport_state.splits)
  have "GetConnectionState tsm \<noteq> TransportShuttingDown \<Longrightarrow> transport_allowed (GetConnectionState tsm) TransportShuttingDown"
    using i path_named [of A] by (cases "GetConnectionState tsm") (auto simp: tm_inv_def transport_allowed_iff)
  then show "GetConnectionState (fst (Close_transport_manager tf at now tid tsm)) = TransportShuttingDown"
    by (cases rule: tm_transition_cases [OF ok, of TransportShuttingDown now tid "ShuttingDownMetadata tf at ''manager_close''"])
       (auto simp: Close_transport_manager_def TransitionToShuttingDown_def GetConnectionState_def Current_def Let_def)
  show "GetConnectionState tsm' = TransportShuttingDown \<and> manager_moves eff = []"
    if down: "GetConnectionState tsm = TransportShuttingDown" and call: "tm_call tf tsm tsm' eff"
    using call
  proof (cases rule: tm_call_cases)
    case 1
    then show ?thesis using down by (simp add: GetConnectionState_def)
  next
    case (2 now tid to md tsm1 e)
    then show ?thesis using down
      by (cases rule: tm_transition_cases [OF ok, of to now tid md]) (auto simp: transport_allowed_iff GetConnectionState_def)
  qed
qed

text \<open>
  Which calls of the manager succeed in a reachable state: connecting exactly where \<open>CanConnect\<close> says so, reconnecting only from
  Connected, although \<open>CanReconnect\<close> also holds in Disconnected and Failed, and nothing once the manager is shutting down. Closing it leads
  to ShuttingDown from each named state and no later call leaves that state.
\<close>

theorem transport_calls:
  assumes "tm_reach tf tsm P A D"
  shows "(snd (snd (TransitionToConnecting tf at now tid tsm d)) = None \<longleftrightarrow> CanConnect (GetConnectionState tsm))
    \<and> (snd (snd (TransitionToReconnecting tf at now tid tsm reason n d)) = None \<longleftrightarrow> GetConnectionState tsm = TransportConnected)
    \<and> GetConnectionState (fst (Close_transport_manager tf at now tid tsm)) = TransportShuttingDown
    \<and> (GetConnectionState tsm = TransportShuttingDown \<and> tm_call tf tsm tsm' eff
         \<longrightarrow> GetConnectionState tsm' = TransportShuttingDown \<and> manager_moves eff = [])"
  using manager_calls [OF assms] by blast

theorem transport_calls_witness:
  "snd (snd (TransitionToConnecting plain_fmt 0 0 [] first_manager 0)) = None
    \<and> snd (snd (TransitionToReconnecting plain_fmt 0 0 [] first_manager ''lost'' 1 0)) \<noteq> None
    \<and> CanReconnect (GetConnectionState first_manager)
    \<and> GetConnectionState (fst (Close_transport_manager plain_fmt 0 0 [] first_manager)) = TransportShuttingDown"
  using transport_calls [OF first_manager_reach [of plain_fmt], of 0 0 "[]" 0 "''lost''" 1 first_manager "[]"]
  by (simp add: first_manager_observers CanConnect_def CanReconnect_def)

end
