(* ===== verification/Conflict_Lifecycle.thy ===== *)
theory Conflict_Lifecycle
  imports State_Machine Events
begin

text \<open>
  The life cycle of a conflict resolution: its states and state machine (synckit/statemachine/dcr_state.go), the tracking
  of one resolution with its audit trail and the manager of active workflows (conflict_workflow.go), and the performance tracker
  (stateful_resolver.go of the same package). Every reading of the clock is an argument, in the order the code makes them.
\<close>

section \<open>States and state machine\<close>

datatype dcr_state =
    DCRIdle | DCRAnalyzing | DCRApplyingRules | DCRResolved | DCRManualReview | DCREscalated | DCRFailed | DCROther i64

fun DCRState_String :: "dcr_state \<Rightarrow> string" where
  "DCRState_String DCRIdle = ''idle''"
| "DCRState_String DCRAnalyzing = ''analyzing''"
| "DCRState_String DCRApplyingRules = ''applying_rules''"
| "DCRState_String DCRResolved = ''resolved''"
| "DCRState_String DCRManualReview = ''manual_review''"
| "DCRState_String DCREscalated = ''escalated''"
| "DCRState_String DCRFailed = ''failed''"
| "DCRState_String (DCROther _) = ''unknown''"

definition IsTerminalState :: "dcr_state \<Rightarrow> bool" where
  "IsTerminalState s \<longleftrightarrow> s = DCRResolved \<or> s = DCREscalated \<or> s = DCRFailed"

definition IsActiveState :: "dcr_state \<Rightarrow> bool" where
  "IsActiveState s \<longleftrightarrow> s = DCRAnalyzing \<or> s = DCRApplyingRules"

definition RequiresIntervention :: "dcr_state \<Rightarrow> bool" where
  "RequiresIntervention s \<longleftrightarrow> s = DCRManualReview \<or> s = DCREscalated"

definition dcr_rules :: "dcr_state transition_rules" where
  "dcr_rules = Some (fmap_of_list [
     (DCRIdle, [DCRAnalyzing]),
     (DCRAnalyzing, [DCRApplyingRules, DCRFailed]),
     (DCRApplyingRules, [DCRResolved, DCRManualReview, DCREscalated, DCRFailed]),
     (DCRResolved, [DCRIdle]),
     (DCRManualReview, [DCRResolved, DCREscalated, DCRFailed, DCRIdle]),
     (DCREscalated, [DCRResolved, DCRFailed, DCRIdle]),
     (DCRFailed, [DCRIdle])])"

record dcr_machine =
  dm_stateMachine :: "dcr_state machine"
  dm_currentConflictID :: string
  dm_resolutionPath :: "string list"
  dm_matchedRules :: "string list"
  dm_failedRules :: "string list"
  dm_startTime :: int
  dm_analysisMetadata :: metadata

type_synonym dcr_effects = "dcr_state sm_effect list"

text \<open>
  A machine that cannot be created falls back to the default configuration; the result is \<open>None\<close> where both fail, in which case the
  source keeps a nil machine.
\<close>

definition NewConflictResolutionStateMachine ::
  "int \<Rightarrow> dcr_state sm_config option \<Rightarrow> (dcr_machine \<times> dcr_effects) go" where
  "NewConflictResolutionStateMachine now config =
     (let config1 = (case config of
            None \<Rightarrow> \<lparr>InitialState = DCRIdle, TransitionRules = dcr_rules, Validator = None, Metrics = False,
                     MaxHistorySize = 100, EnableMetrics = True, Name = ''ConflictResolutionStateMachine''\<rparr>
          | Some c \<Rightarrow> c);
          config2 = (if TransitionRules config1 = None then config1\<lparr>TransitionRules := dcr_rules\<rparr> else config1);
          made = (case New now config2 of
              Inr x \<Rightarrow> Some x
            | Inl _ \<Rightarrow> (case New now ((DefaultConfig DCRIdle (TransitionRules config2))\<lparr>Name := ''ConflictResolutionStateMachine''\<rparr>) of
                Inr x \<Rightarrow> Some x | Inl _ \<Rightarrow> None))
      in do {
        (sm, eff) \<leftarrow> made;
        Some (\<lparr>dm_stateMachine = sm, dm_currentConflictID = [], dm_resolutionPath = [], dm_matchedRules = [],
               dm_failedRules = [], dm_startTime = zero_time, dm_analysisMetadata = Some fmempty\<rparr>, eff) })"

definition dcr_transition ::
  "int \<Rightarrow> string \<Rightarrow> dcr_machine \<Rightarrow> dcr_state \<Rightarrow> dcr_machine \<times> dcr_effects \<times> go_error option" where
  "dcr_transition now tid sm to =
     (case Transition DCRState_String now tid (dm_stateMachine sm) to of
        (m, eff, e) \<Rightarrow> (sm\<lparr>dm_stateMachine := m\<rparr>, eff, e))"

definition StartResolution ::
  "int \<Rightarrow> string \<Rightarrow> int \<Rightarrow> dcr_machine \<Rightarrow> string \<Rightarrow> dcr_machine \<times> dcr_effects \<times> go_error option" where
  "StartResolution now tid start sm conflictID =
     (case dcr_transition now tid sm DCRAnalyzing of
        (sm1, eff, Some err) \<Rightarrow> (sm1, eff, Some err)
      | (sm1, eff, None) \<Rightarrow>
          (sm1\<lparr>dm_currentConflictID := conflictID, dm_startTime := start, dm_resolutionPath := [], dm_matchedRules := [],
               dm_failedRules := [], dm_analysisMetadata := Some fmempty\<rparr>, eff, None))"

definition AddAnalysisMetadata :: "dcr_machine \<Rightarrow> string \<Rightarrow> go_any \<Rightarrow> dcr_machine go" where
  "AddAnalysisMetadata sm key v = do {
     md \<leftarrow> gm_put (dm_analysisMetadata sm) key v;
     Some (sm\<lparr>dm_analysisMetadata := md\<rparr>) }"

definition RecordRuleEvaluation_dcr :: "dcr_machine \<Rightarrow> string \<Rightarrow> dcr_machine" where
  "RecordRuleEvaluation_dcr sm ruleName = sm\<lparr>dm_resolutionPath := dm_resolutionPath sm @ [ruleName]\<rparr>"

definition RecordRuleMatched :: "dcr_machine \<Rightarrow> string \<Rightarrow> dcr_machine" where
  "RecordRuleMatched sm ruleName = sm\<lparr>dm_matchedRules := dm_matchedRules sm @ [ruleName]\<rparr>"

definition RecordRuleFailed :: "dcr_machine \<Rightarrow> string \<Rightarrow> dcr_machine" where
  "RecordRuleFailed sm ruleName = sm\<lparr>dm_failedRules := dm_failedRules sm @ [ruleName]\<rparr>"

definition BeginRuleApplication :: "int \<Rightarrow> string \<Rightarrow> dcr_machine \<Rightarrow> dcr_machine \<times> dcr_effects \<times> go_error option" where
  "BeginRuleApplication now tid sm = dcr_transition now tid sm DCRApplyingRules"

definition CompleteResolution_dcr :: "int \<Rightarrow> string \<Rightarrow> dcr_machine \<Rightarrow> dcr_machine \<times> dcr_effects \<times> go_error option" where
  "CompleteResolution_dcr now tid sm = dcr_transition now tid sm DCRResolved"

definition RequireManualReview :: "int \<Rightarrow> string \<Rightarrow> dcr_machine \<Rightarrow> dcr_machine \<times> dcr_effects \<times> go_error option" where
  "RequireManualReview now tid sm = dcr_transition now tid sm DCRManualReview"

definition EscalateConflict :: "int \<Rightarrow> string \<Rightarrow> dcr_machine \<Rightarrow> dcr_machine \<times> dcr_effects \<times> go_error option" where
  "EscalateConflict now tid sm = dcr_transition now tid sm DCREscalated"

definition FailResolution :: "int \<Rightarrow> string \<Rightarrow> dcr_machine \<Rightarrow> dcr_machine \<times> dcr_effects \<times> go_error option" where
  "FailResolution now tid sm = dcr_transition now tid sm DCRFailed"

definition Reset_dcr :: "int \<Rightarrow> string \<Rightarrow> dcr_machine \<Rightarrow> dcr_machine \<times> dcr_effects \<times> go_error option" where
  "Reset_dcr now tid sm =
     (case dcr_transition now tid sm DCRIdle of
        (sm1, eff, Some err) \<Rightarrow> (sm1, eff, Some err)
      | (sm1, eff, None) \<Rightarrow>
          (sm1\<lparr>dm_currentConflictID := [], dm_resolutionPath := [], dm_matchedRules := [], dm_failedRules := [],
               dm_analysisMetadata := Some fmempty, dm_startTime := zero_time\<rparr>, eff, None))"

definition Current_dcr :: "dcr_machine \<Rightarrow> dcr_state" where
  "Current_dcr sm = Current (dm_stateMachine sm)"

text \<open>A copy of a map is a new map, also of a nil map.\<close>

definition copyMetadata :: "('k, 'v) gomap \<Rightarrow> ('k, 'v) gomap" where
  "copyMetadata src = Some (gm_fmap src)"

record resolution_summary =
  rsm_ConflictID :: string
  rsm_CurrentState :: dcr_state
  rsm_ResolutionPath :: "string list"
  rsm_MatchedRules :: "string list"
  rsm_FailedRules :: "string list"
  rsm_AnalysisMetadata :: metadata
  rsm_Duration :: int
  rsm_StartTime :: int

definition GetResolutionSummary :: "int \<Rightarrow> dcr_machine \<Rightarrow> resolution_summary" where
  "GetResolutionSummary now sm =
     \<lparr>rsm_ConflictID = dm_currentConflictID sm, rsm_CurrentState = Current_dcr sm, rsm_ResolutionPath = dm_resolutionPath sm,
      rsm_MatchedRules = dm_matchedRules sm, rsm_FailedRules = dm_failedRules sm,
      rsm_AnalysisMetadata = copyMetadata (dm_analysisMetadata sm),
      rsm_Duration = (if \<not> time_IsZero (dm_startTime sm) then time_Sub now (dm_startTime sm) else 0),
      rsm_StartTime = dm_startTime sm\<rparr>"

definition History_dcr :: "dcr_machine \<Rightarrow> dcr_state state_transition list" where
  "History_dcr sm = History (dm_stateMachine sm)"

definition Subscribe_dcr :: "dcr_machine \<Rightarrow> nat option \<Rightarrow> dcr_machine" where
  "Subscribe_dcr sm ob = sm\<lparr>dm_stateMachine := Subscribe (dm_stateMachine sm) ob\<rparr>"

definition Unsubscribe_dcr :: "dcr_machine \<Rightarrow> nat option \<Rightarrow> dcr_machine" where
  "Unsubscribe_dcr sm ob = sm\<lparr>dm_stateMachine := Unsubscribe (dm_stateMachine sm) ob\<rparr>"

section \<open>The performance tracker\<close>

text \<open>Its maps are made by the constructor and never nil.\<close>

record performance_tracker =
  pt_startTime :: int
  pt_lastCheckpoint :: int
  pt_checkpoints :: "(string, int) fmap"
  pt_durations :: "(string, int) fmap"
  pt_counters :: "(string, i64) fmap"

definition NewPerformanceTracker :: "int \<Rightarrow> performance_tracker" where
  "NewPerformanceTracker now = \<lparr>pt_startTime = now, pt_lastCheckpoint = now, pt_checkpoints = fmempty,
     pt_durations = fmempty, pt_counters = fmempty\<rparr>"

definition Checkpoint :: "int \<Rightarrow> performance_tracker \<Rightarrow> string \<Rightarrow> performance_tracker \<times> int" where
  "Checkpoint now pt name =
     (let duration = time_Sub now (pt_lastCheckpoint pt)
      in (pt\<lparr>pt_checkpoints := fmupd name now (pt_checkpoints pt), pt_durations := fmupd name duration (pt_durations pt),
            pt_lastCheckpoint := now\<rparr>, duration))"

definition GetCounter :: "performance_tracker \<Rightarrow> string \<Rightarrow> i64" where
  "GetCounter pt name = (case fmlookup (pt_counters pt) name of None \<Rightarrow> 0 | Some n \<Rightarrow> n)"

definition Increment_counter :: "performance_tracker \<Rightarrow> string \<Rightarrow> performance_tracker" where
  "Increment_counter pt name = pt\<lparr>pt_counters := fmupd name (GetCounter pt name + 1) (pt_counters pt)\<rparr>"

definition GetDuration :: "performance_tracker \<Rightarrow> string \<Rightarrow> int" where
  "GetDuration pt name = (case fmlookup (pt_durations pt) name of None \<Rightarrow> 0 | Some d \<Rightarrow> d)"

definition GetTotalDuration :: "int \<Rightarrow> performance_tracker \<Rightarrow> int" where
  "GetTotalDuration now pt = time_Sub now (pt_startTime pt)"

record tracker_summary =
  ts_StartTime :: int
  ts_TotalDuration :: int
  ts_Checkpoints :: "(string, int) fmap"
  ts_Durations :: "(string, int) fmap"
  ts_Counters :: "(string, i64) fmap"

definition GetSummary :: "int \<Rightarrow> performance_tracker \<Rightarrow> tracker_summary" where
  "GetSummary now pt = \<lparr>ts_StartTime = pt_startTime pt, ts_TotalDuration = GetTotalDuration now pt,
     ts_Checkpoints = pt_checkpoints pt, ts_Durations = pt_durations pt, ts_Counters = pt_counters pt\<rparr>"

section \<open>Facts\<close>

lemma tracker_counters [simp]:
  "GetCounter (fst (Checkpoint now pt name)) k = GetCounter pt k"
  "GetCounter (Increment_counter pt name) k = (if k = name then GetCounter pt k + 1 else GetCounter pt k)"
  "GetCounter (NewPerformanceTracker now) k = 0"
  by (simp_all add: GetCounter_def Checkpoint_def Increment_counter_def NewPerformanceTracker_def Let_def)

definition dcr_allowed :: "dcr_state \<Rightarrow> dcr_state \<Rightarrow> bool" where
  "dcr_allowed = Contains dcr_rules"

lemma dcr_allowed_iff:
  "dcr_allowed a b \<longleftrightarrow> (case a of
       DCRIdle \<Rightarrow> b = DCRAnalyzing
     | DCRAnalyzing \<Rightarrow> b \<in> {DCRApplyingRules, DCRFailed}
     | DCRApplyingRules \<Rightarrow> b \<in> {DCRResolved, DCRManualReview, DCREscalated, DCRFailed}
     | DCRResolved \<Rightarrow> b = DCRIdle
     | DCRManualReview \<Rightarrow> b \<in> {DCRResolved, DCREscalated, DCRFailed, DCRIdle}
     | DCREscalated \<Rightarrow> b \<in> {DCRResolved, DCRFailed, DCRIdle}
     | DCRFailed \<Rightarrow> b = DCRIdle
     | DCROther _ \<Rightarrow> False)"
  by (auto simp: dcr_allowed_def Contains_def dcr_rules_def fmlookup_of_list split: dcr_state.split)

abbreviation dcr_ok :: "dcr_machine \<Rightarrow> bool" where
  "dcr_ok sm \<equiv> fixed_rules dcr_rules (dm_stateMachine sm)"

definition dcr_move :: "int \<Rightarrow> string \<Rightarrow> dcr_machine \<Rightarrow> dcr_state \<Rightarrow> dcr_machine \<times> go_error option" where
  "dcr_move now tid sm to = (case dcr_transition now tid sm to of (sm', _, e) \<Rightarrow> (sm', e))"

text \<open>The machine of conflict resolution is a guarded machine in its own right.\<close>

interpretation dcr: guarded_machine dcr_ok Current_dcr dcr_allowed "dcr_move now tid" for now tid
proof unfold_locales
  fix sm to
  assume ok: "dcr_ok sm"
  have g: "sm_move DCRState_String now tid None (dm_stateMachine sm) to = (m, e) \<Longrightarrow> dcr_move now tid sm to = (sm\<lparr>dm_stateMachine := m\<rparr>, e)" for m e
    by (auto simp: sm_move_def dcr_move_def dcr_transition_def Transition_def split: prod.splits)
  show "\<exists>sm'. dcr_move now tid sm to = (sm', None) \<and> Current_dcr sm' = to \<and> dcr_ok sm'" if "dcr_allowed (Current_dcr sm) to"
    using gm.move_ok [OF ok, of to DCRState_String now tid None] that g by (auto simp: dcr_allowed_def Current_dcr_def Current_def)
  show "\<exists>e. dcr_move now tid sm to = (sm, Some e)" if "\<not> dcr_allowed (Current_dcr sm) to"
    using gm.move_refused [OF ok, of to DCRState_String now tid None] that g by (fastforce simp: dcr_allowed_def Current_dcr_def Current_def)
qed

lemma dcr_transition_cases:
  assumes "dcr_ok sm"
  obtains sm' eff where "dcr_allowed (Current_dcr sm) to" "dcr_transition now tid sm to = (sm', eff, None)" "Current_dcr sm' = to" "dcr_ok sm'"
  | eff e where "\<not> dcr_allowed (Current_dcr sm) to" "dcr_transition now tid sm to = (sm, eff, Some e)"
  using dcr.move_ok [OF assms, of to now tid] dcr.move_refused [OF assms, of to now tid]
  by (cases "dcr_allowed (Current_dcr sm) to") (auto simp: dcr_move_def split: prod.splits)

end
