(* ===== verification/Conflict_Workflow.thy ===== *)
theory Conflict_Workflow
  imports Conflict_Lifecycle Resolvers
begin

text \<open>
  Workflows (synckit/statemachine/conflict_workflow.go): what is recorded while one conflict is resolved, the audit trail
  made from it, and the manager of the active workflows. A workflow is shared between the manager and the resolver that
  records in it, so workflows live in a heap and the manager maps identifiers to addresses.
\<close>

section \<open>Data\<close>

record rule_evaluation =
  re_RuleName :: string
  re_Matched :: bool
  re_EvaluatedAt :: int
  re_Duration :: int
  re_Error :: "go_error option"
  re_Metadata :: metadata

record rule_failure =
  rf_RuleName :: string
  rf_Error :: "go_error option"
  rf_FailedAt :: int
  rf_Context :: string
  rf_Retryable :: bool
  rf_Metadata :: metadata

record workflow_metrics =
  wp_TotalDuration :: int
  wp_AnalysisDuration :: int
  wp_RulesDuration :: int
  wp_ResolutionDuration :: int
  wp_RulesEvaluated :: i64
  wp_RulesMatched :: i64
  wp_RulesFailed :: i64
  wp_MemoryUsage :: i64

text \<open>The state machine of a workflow is shared; \<open>cw_stateMachine\<close> says whether there is one.\<close>

record conflict_workflow =
  cw_conflict :: conflict
  cw_conflictID :: string
  cw_startTime :: int
  cw_endTime :: int
  cw_rulesEvaluated :: "rule_evaluation list"
  cw_rulesMatched :: "string list"
  cw_rulesFailed :: "rule_failure list"
  cw_decision :: string
  cw_reasons :: "string list"
  cw_resolvedEvents :: "event_with_version list"
  cw_stateMachine :: bool
  cw_stateHistory :: "dcr_state state_transition list"
  cw_analysisResults :: metadata
  cw_performanceMetrics :: workflow_metrics

record audit_trail =
  at_ConflictID :: string
  at_Timestamp :: int
  at_CompletedAt :: int
  at_EventType :: string
  at_AggregateID :: string
  at_ChangedFields :: "string list"
  at_Decision :: string
  at_Reasons :: "string list"
  at_RulesEvaluated :: "rule_evaluation list"
  at_RulesMatched :: "string list"
  at_RulesFailed :: "rule_failure list"
  at_StateHistory :: "dcr_state state_transition list"
  at_AnalysisResults :: metadata
  at_PerformanceMetrics :: workflow_metrics
  at_ResolvedEvents :: "event_with_version list"

record workflow_status =
  ws_ConflictID :: string
  ws_CurrentState :: dcr_state
  ws_Duration :: int
  ws_RulesEvaluated :: nat
  ws_RulesMatched :: nat
  ws_RulesFailed :: nat
  ws_Decision :: string
  ws_IsComplete :: bool
  ws_LastActivity :: int

record workflow_options =
  EnableDetailedTracking :: bool
  MaxRuleEvaluations :: int
  MaxStateHistory :: int
  TrackPerformance :: bool
  IncludeMetadata :: bool

definition DefaultWorkflowOptions :: workflow_options where
  "DefaultWorkflowOptions = \<lparr>EnableDetailedTracking = True, MaxRuleEvaluations = 100, MaxStateHistory = 50,
     TrackPerformance = True, IncludeMetadata = True\<rparr>"

section \<open>One workflow\<close>

definition generateConflictID :: "int \<Rightarrow> conflict \<Rightarrow> string" where
  "generateConflictID now c = cf_EventType c @ '':'' @ cf_AggregateID c @ '':'' @ i64_dec (of_int now)"

definition isRetryableError :: "go_error option \<Rightarrow> bool" where
  "isRetryableError err =
     (case err of None \<Rightarrow> False | Some e \<Rightarrow> if e = Canceled \<or> e = DeadlineExceeded then False else True)"

text \<open>The options are not used by the code. \<open>at\<close> is the time in the identifier, \<open>now\<close> the start time.\<close>

definition NewConflictWorkflow ::
  "int \<Rightarrow> int \<Rightarrow> conflict \<Rightarrow> bool \<Rightarrow> workflow_options option \<Rightarrow> conflict_workflow" where
  "NewConflictWorkflow at now c stateMachine options =
     \<lparr>cw_conflict = c, cw_conflictID = generateConflictID at c, cw_startTime = now, cw_endTime = zero_time,
      cw_rulesEvaluated = [], cw_rulesMatched = [], cw_rulesFailed = [], cw_decision = [], cw_reasons = [],
      cw_resolvedEvents = [], cw_stateMachine = stateMachine, cw_stateHistory = [], cw_analysisResults = Some fmempty,
      cw_performanceMetrics = \<lparr>wp_TotalDuration = 0, wp_AnalysisDuration = 0, wp_RulesDuration = 0, wp_ResolutionDuration = 0,
        wp_RulesEvaluated = 0, wp_RulesMatched = 0, wp_RulesFailed = 0, wp_MemoryUsage = 0\<rparr>\<rparr>"

fun put_all :: "(string \<times> go_any) list \<Rightarrow> metadata \<Rightarrow> metadata go" where
  "put_all [] md = Some md"
| "put_all ((k, v) # kvs) md = do { md' \<leftarrow> gm_put md k v; put_all kvs md' }"

definition version_relationship :: "int \<Rightarrow> (string \<times> go_any) list" where
  "version_relationship r =
     (if r = -1 then [(''version_relationship'', GString ''local_older'')]
      else if r = 0 then [(''version_relationship'', GString ''equal'')]
      else if r = 1 then [(''version_relationship'', GString ''local_newer'')]
      else [])"

definition version_analysis :: "conflict \<Rightarrow> metadata \<Rightarrow> metadata go" where
  "version_analysis c md =
     (if ev_Version (cf_Local c) \<noteq> None \<and> ev_Version (cf_Remote c) \<noteq> None
      then do {
        comparison \<leftarrow> iface_Compare (ev_Version (cf_Local c)) (ev_Version (cf_Remote c));
        put_all ((''version_comparison'', GInt_of comparison) # version_relationship comparison) md }
      else Some md)"

definition StartAnalysis :: "int \<Rightarrow> conflict_workflow \<Rightarrow> conflict_workflow go" where
  "StartAnalysis now cw = (let c = cw_conflict cw in do {
     md1 \<leftarrow> put_all [(''conflict_type'', GString (cf_EventType c)), (''aggregate_id'', GString (cf_AggregateID c)),
        (''changed_fields_count'', GInt_of (int (length (cf_ChangedFields c)))),
        (''has_local_version'', GBool (ev_Version (cf_Local c) \<noteq> None)),
        (''has_remote_version'', GBool (ev_Version (cf_Remote c) \<noteq> None))] (cw_analysisResults cw);
     md2 \<leftarrow> version_analysis c md1;
     Some (cw\<lparr>cw_performanceMetrics := (cw_performanceMetrics cw)\<lparr>wp_AnalysisDuration := time_Sub now (cw_startTime cw)\<rparr>,
       cw_analysisResults := md2\<rparr>) })"

text \<open>The time of a failure is read after the time of the evaluation.\<close>

definition RecordRuleEvaluation ::
  "int \<Rightarrow> int \<Rightarrow> conflict_workflow \<Rightarrow> string \<Rightarrow> bool \<Rightarrow> int \<Rightarrow> go_error option \<Rightarrow> metadata \<Rightarrow> conflict_workflow" where
  "RecordRuleEvaluation now failedAt cw ruleName matched duration err md =
     (let evaluation = \<lparr>re_RuleName = ruleName, re_Matched = matched, re_EvaluatedAt = now, re_Duration = duration,
            re_Error = err, re_Metadata = md\<rparr>;
          perf = cw_performanceMetrics cw;
          cw1 = cw\<lparr>cw_rulesEvaluated := cw_rulesEvaluated cw @ [evaluation],
                   cw_performanceMetrics := perf\<lparr>wp_RulesEvaluated := wp_RulesEvaluated perf + 1\<rparr>\<rparr>;
          cw2 = (if matched
            then cw1\<lparr>cw_rulesMatched := cw_rulesMatched cw1 @ [ruleName],
                     cw_performanceMetrics := (cw_performanceMetrics cw1)\<lparr>wp_RulesMatched := wp_RulesMatched (cw_performanceMetrics cw1) + 1\<rparr>\<rparr>
            else cw1)
      in if err \<noteq> None
         then cw2\<lparr>cw_rulesFailed := cw_rulesFailed cw2 @ [\<lparr>rf_RuleName = ruleName, rf_Error = err, rf_FailedAt = failedAt,
                    rf_Context = ''rule_evaluation'', rf_Retryable = isRetryableError err, rf_Metadata = md\<rparr>],
                  cw_performanceMetrics := (cw_performanceMetrics cw2)\<lparr>wp_RulesFailed := wp_RulesFailed (cw_performanceMetrics cw2) + 1\<rparr>\<rparr>
         else cw2)"

definition RecordStateTransition_workflow ::
  "int \<Rightarrow> conflict_workflow \<Rightarrow> dcr_state \<Rightarrow> dcr_state \<Rightarrow> int \<Rightarrow> metadata \<Rightarrow> conflict_workflow" where
  "RecordStateTransition_workflow now cw from to duration md =
     cw\<lparr>cw_stateHistory := cw_stateHistory cw @ [\<lparr>st_From = from, st_To = to, st_Timestamp = now, st_Duration = duration,
        st_Metadata = md, st_TransitionID = []\<rparr>]\<rparr>"

definition CompleteResolution ::
  "int \<Rightarrow> int \<Rightarrow> conflict_workflow \<Rightarrow> string \<Rightarrow> string list \<Rightarrow> event_with_version list \<Rightarrow> conflict_workflow" where
  "CompleteResolution endTime now cw decision reasons resolvedEvents =
     cw\<lparr>cw_endTime := endTime, cw_decision := decision, cw_reasons := cw_reasons cw @ reasons,
       cw_resolvedEvents := cw_resolvedEvents cw @ resolvedEvents,
       cw_performanceMetrics := (cw_performanceMetrics cw)\<lparr>wp_TotalDuration := time_Sub endTime (cw_startTime cw),
         wp_ResolutionDuration := time_Sub now (endTime - wp_RulesDuration (cw_performanceMetrics cw))\<rparr>\<rparr>"

definition GenerateAuditTrail :: "conflict_workflow \<Rightarrow> audit_trail" where
  "GenerateAuditTrail cw =
     \<lparr>at_ConflictID = cw_conflictID cw, at_Timestamp = cw_startTime cw, at_CompletedAt = cw_endTime cw,
      at_EventType = cf_EventType (cw_conflict cw), at_AggregateID = cf_AggregateID (cw_conflict cw),
      at_ChangedFields = cf_ChangedFields (cw_conflict cw), at_Decision = cw_decision cw, at_Reasons = cw_reasons cw,
      at_RulesEvaluated = cw_rulesEvaluated cw, at_RulesMatched = cw_rulesMatched cw, at_RulesFailed = cw_rulesFailed cw,
      at_StateHistory = cw_stateHistory cw, at_AnalysisResults = copyMetadata (cw_analysisResults cw),
      at_PerformanceMetrics = cw_performanceMetrics cw, at_ResolvedEvents = cw_resolvedEvents cw\<rparr>"

definition getLastActivityTime :: "conflict_workflow \<Rightarrow> int" where
  "getLastActivityTime cw =
     (if cw_stateHistory cw \<noteq> [] then st_Timestamp (last (cw_stateHistory cw))
      else if cw_rulesEvaluated cw \<noteq> [] then re_EvaluatedAt (last (cw_rulesEvaluated cw))
      else cw_startTime cw)"

text \<open>\<open>sm\<close> is the shared state machine.\<close>

definition GetCurrentStatus :: "int \<Rightarrow> dcr_machine option \<Rightarrow> conflict_workflow \<Rightarrow> workflow_status" where
  "GetCurrentStatus now sm cw =
     \<lparr>ws_ConflictID = cw_conflictID cw,
      ws_CurrentState = (if cw_stateMachine cw then (case sm of Some m \<Rightarrow> Current_dcr m | None \<Rightarrow> DCRIdle) else DCRIdle),
      ws_Duration = time_Sub now (cw_startTime cw), ws_RulesEvaluated = length (cw_rulesEvaluated cw),
      ws_RulesMatched = length (cw_rulesMatched cw), ws_RulesFailed = length (cw_rulesFailed cw),
      ws_Decision = cw_decision cw, ws_IsComplete = (\<not> time_IsZero (cw_endTime cw)),
      ws_LastActivity = getLastActivityTime cw\<rparr>"

section \<open>The manager\<close>

record workflow_manager =
  wm_heap :: "conflict_workflow list"
  wm_workflows :: "(string, nat) fmap"

definition NewWorkflowManager :: workflow_manager where
  "NewWorkflowManager = \<lparr>wm_heap = [], wm_workflows = fmempty\<rparr>"

definition StartWorkflow ::
  "int \<Rightarrow> int \<Rightarrow> workflow_manager \<Rightarrow> conflict \<Rightarrow> bool \<Rightarrow> workflow_options option \<Rightarrow> workflow_manager \<times> nat" where
  "StartWorkflow at now wm c stateMachine options =
     (let cw = NewConflictWorkflow at now c stateMachine options; a = length (wm_heap wm)
      in (wm\<lparr>wm_heap := wm_heap wm @ [cw], wm_workflows := fmupd (cw_conflictID cw) a (wm_workflows wm)\<rparr>, a))"

definition GetWorkflow :: "workflow_manager \<Rightarrow> string \<Rightarrow> nat option" where
  "GetWorkflow wm conflictID = fmlookup (wm_workflows wm) conflictID"

definition CompleteWorkflow :: "workflow_manager \<Rightarrow> string \<Rightarrow> workflow_manager \<times> audit_trail option" where
  "CompleteWorkflow wm conflictID =
     (case fmlookup (wm_workflows wm) conflictID of
        None \<Rightarrow> (wm, None)
      | Some a \<Rightarrow> (wm\<lparr>wm_workflows := fmdrop conflictID (wm_workflows wm)\<rparr>, Some (GenerateAuditTrail (wm_heap wm ! a))))"

definition ListActiveWorkflows :: "(nat \<Rightarrow> int) \<Rightarrow> string list \<Rightarrow> dcr_machine option \<Rightarrow> workflow_manager \<Rightarrow> workflow_status list" where
  "ListActiveWorkflows clock key_order sm wm =
     map (\<lambda>(i, k). GetCurrentStatus (clock i) sm (wm_heap wm ! the (fmlookup (wm_workflows wm) k))) (enumerate 0 key_order)"

text \<open>A call on a workflow through its address.\<close>

definition on_workflow :: "nat \<Rightarrow> (conflict_workflow \<Rightarrow> conflict_workflow) \<Rightarrow> workflow_manager \<Rightarrow> workflow_manager" where
  "on_workflow a f wm = wm\<lparr>wm_heap := (wm_heap wm)[a := f (wm_heap wm ! a)]\<rparr>"

section \<open>Consistency of the records\<close>

text \<open>The lists and counters of a workflow all derive from the rule evaluations.\<close>

definition workflow_ok :: "conflict_workflow \<Rightarrow> bool" where
  "workflow_ok cw \<longleftrightarrow>
     cw_rulesMatched cw = map re_RuleName [e \<leftarrow> cw_rulesEvaluated cw. re_Matched e]
   \<and> map (\<lambda>f. (rf_RuleName f, rf_Error f)) (cw_rulesFailed cw)
       = map (\<lambda>e. (re_RuleName e, re_Error e)) [e \<leftarrow> cw_rulesEvaluated cw. re_Error e \<noteq> None]
   \<and> wp_RulesEvaluated (cw_performanceMetrics cw) = of_nat (length (cw_rulesEvaluated cw))
   \<and> wp_RulesMatched (cw_performanceMetrics cw) = of_nat (length (cw_rulesMatched cw))
   \<and> wp_RulesFailed (cw_performanceMetrics cw) = of_nat (length (cw_rulesFailed cw))
   \<and> cw_analysisResults cw \<noteq> None"

inductive workflow_run :: "conflict_workflow \<Rightarrow> bool" where
  new: "workflow_run (NewConflictWorkflow at now c sm opts)"
| analysis: "workflow_run cw \<Longrightarrow> StartAnalysis now cw = Some cw' \<Longrightarrow> workflow_run cw'"
| evaluation: "workflow_run cw \<Longrightarrow> workflow_run (RecordRuleEvaluation now fl cw name matched d err md)"
| transition: "workflow_run cw \<Longrightarrow> workflow_run (RecordStateTransition_workflow now cw from to d md)"
| completion: "workflow_run cw \<Longrightarrow> workflow_run (CompleteResolution en now cw decision reasons evs)"

lemma put_all_Some: "md \<noteq> None \<Longrightarrow> \<exists>md'. put_all kvs md = Some md' \<and> md' \<noteq> None"
  by (induction kvs md rule: put_all.induct) (auto simp: gm_put_def split: option.splits)

lemma put_all_result: "put_all kvs md = Some md' \<Longrightarrow> md \<noteq> None \<Longrightarrow> md' \<noteq> None"
  using put_all_Some [of md kvs] by auto

lemma version_analysis_result: "version_analysis c md = Some md' \<Longrightarrow> md \<noteq> None \<Longrightarrow> md' \<noteq> None"
  by (auto simp: version_analysis_def bind_eq_Some_conv simp del: put_all.simps dest: put_all_result split: if_splits)

lemma StartAnalysis_keeps:
  assumes "StartAnalysis now cw = Some cw'"
  shows "\<exists>md d. cw' = cw\<lparr>cw_performanceMetrics := (cw_performanceMetrics cw)\<lparr>wp_AnalysisDuration := d\<rparr>, cw_analysisResults := md\<rparr>
    \<and> (cw_analysisResults cw \<noteq> None \<longrightarrow> md \<noteq> None)"
proof -
  obtain kvs md1 md2 where "put_all kvs (cw_analysisResults cw) = Some md1" "version_analysis (cw_conflict cw) md1 = Some md2"
    and cw': "cw' = cw\<lparr>cw_performanceMetrics := (cw_performanceMetrics cw)\<lparr>wp_AnalysisDuration := time_Sub now (cw_startTime cw)\<rparr>,
      cw_analysisResults := md2\<rparr>"
    using assms unfolding StartAnalysis_def Let_def bind_eq_Some_conv option.inject by blast
  then have "cw_analysisResults cw \<noteq> None \<longrightarrow> md2 \<noteq> None" using put_all_result version_analysis_result by blast
  with cw' show ?thesis by blast
qed

lemma RecordRuleEvaluation_simps [simp]:
  "cw_rulesEvaluated (RecordRuleEvaluation now fl cw name matched d err md) = cw_rulesEvaluated cw
     @ [\<lparr>re_RuleName = name, re_Matched = matched, re_EvaluatedAt = now, re_Duration = d, re_Error = err, re_Metadata = md\<rparr>]"
  "cw_rulesMatched (RecordRuleEvaluation now fl cw name matched d err md) = cw_rulesMatched cw @ (if matched then [name] else [])"
  "cw_conflictID (RecordRuleEvaluation now fl cw name matched d err md) = cw_conflictID cw"
  "length (cw_rulesFailed (RecordRuleEvaluation now fl cw name matched d err md)) = length (cw_rulesFailed cw) + (if err = None then 0 else 1)"
  by (auto simp: RecordRuleEvaluation_def Let_def)

lemma workflow_run_ok: "workflow_run cw \<Longrightarrow> workflow_ok cw"
proof (induction rule: workflow_run.induct)
  case (analysis cw now cw')
  then show ?case using StartAnalysis_keeps [of now cw cw'] by (auto simp: workflow_ok_def)
next
  case (evaluation cw now fl name matched d err md)
  then show ?case by (auto simp: workflow_ok_def RecordRuleEvaluation_def Let_def)
qed (simp_all add: workflow_ok_def NewConflictWorkflow_def RecordStateTransition_workflow_def CompleteResolution_def)

text \<open>
  The audit trail of a workflow is consistent after any sequence of its operations: the matched rules are the names of the
  evaluations that matched, in order, the failures are the evaluations with an error, and the counters of the performance
  metrics are the lengths of these lists, modulo the width of an int.
\<close>

theorem audit_trail_consistent:
  assumes "workflow_run cw"
  shows "at_RulesMatched (GenerateAuditTrail cw) = map re_RuleName [e \<leftarrow> at_RulesEvaluated (GenerateAuditTrail cw). re_Matched e]
    \<and> map (\<lambda>f. (rf_RuleName f, rf_Error f)) (at_RulesFailed (GenerateAuditTrail cw))
        = map (\<lambda>e. (re_RuleName e, re_Error e)) [e \<leftarrow> at_RulesEvaluated (GenerateAuditTrail cw). re_Error e \<noteq> None]
    \<and> wp_RulesEvaluated (at_PerformanceMetrics (GenerateAuditTrail cw)) = of_nat (length (at_RulesEvaluated (GenerateAuditTrail cw)))
    \<and> wp_RulesMatched (at_PerformanceMetrics (GenerateAuditTrail cw)) = of_nat (length (at_RulesMatched (GenerateAuditTrail cw)))
    \<and> wp_RulesFailed (at_PerformanceMetrics (GenerateAuditTrail cw)) = of_nat (length (at_RulesFailed (GenerateAuditTrail cw)))"
  using workflow_run_ok [OF assms] by (simp add: workflow_ok_def GenerateAuditTrail_def)

theorem audit_trail_consistent_witness:
  "let cw = RecordRuleEvaluation 3 4 (RecordRuleEvaluation 1 2 (NewConflictWorkflow 0 0 sample_conflict True None) ''a'' False 1 None None)
       ''b'' True 1 (Some Canceled) None
   in at_RulesMatched (GenerateAuditTrail cw) = [''b''] \<and> wp_RulesFailed (at_PerformanceMetrics (GenerateAuditTrail cw)) = 1"
proof -
  let ?cw = "RecordRuleEvaluation 3 4 (RecordRuleEvaluation 1 2 (NewConflictWorkflow 0 0 sample_conflict True None) ''a'' False 1 None None)
       ''b'' True 1 (Some Canceled) None"
  have "workflow_run ?cw" by (rule workflow_run.evaluation)+ (rule workflow_run.new)
  note t = audit_trail_consistent [OF this]
  have e: "at_RulesEvaluated (GenerateAuditTrail ?cw) = [\<lparr>re_RuleName = ''a'', re_Matched = False, re_EvaluatedAt = 1, re_Duration = 1,
      re_Error = None, re_Metadata = None\<rparr>, \<lparr>re_RuleName = ''b'', re_Matched = True, re_EvaluatedAt = 3, re_Duration = 1,
      re_Error = Some Canceled, re_Metadata = None\<rparr>]"
    by (simp add: GenerateAuditTrail_def NewConflictWorkflow_def)
  have f: "length (at_RulesFailed (GenerateAuditTrail ?cw)) = 1"
    by (simp add: GenerateAuditTrail_def NewConflictWorkflow_def)
  from t have "at_RulesMatched (GenerateAuditTrail ?cw) = map re_RuleName [e \<leftarrow> at_RulesEvaluated (GenerateAuditTrail ?cw). re_Matched e]" by blast
  then have "at_RulesMatched (GenerateAuditTrail ?cw) = [''b'']" unfolding e by simp
  moreover from t f have "wp_RulesFailed (at_PerformanceMetrics (GenerateAuditTrail ?cw)) = 1" by (metis of_nat_1)
  ultimately show ?thesis unfolding Let_def by blast
qed

end
