(* ===== verification/Stateful_Resolver.thy ===== *)
theory Stateful_Resolver
  imports Conflict_Workflow
begin

text \<open>
  The stateful dynamic resolver (synckit/stateful_resolver.go): the dynamic resolver of \<open>Resolvers\<close> with a state
  machine, workflow tracking and performance metrics around it. The clock and the random transition identifiers are read from an
  environment by a counter; calls of hooks and effects of the state machine go to a trace. A panic of a matcher or a resolver is the
  result \<open>None\<close>, together with the state it leaves behind.
\<close>

section \<open>Options, metrics, state\<close>

text \<open>Which observability hooks are set.\<close>

record dcr_hooks =
  OnStateTransition :: bool
  OnStateTransitionFailed :: bool
  OnWorkflowStarted :: bool
  OnWorkflowCompleted :: bool
  OnRuleEvaluationStarted :: bool
  OnRuleEvaluationCompleted :: bool
  OnRuleEvaluationFailed :: bool
  OnMetricsRecorded :: bool

record stateful_options =
  so_EnableStateMachine :: bool
  so_MaxStateHistorySize :: int
  so_StateTransitionTimeout :: int
  so_EnableWorkflowTracking :: bool
  so_MaxConcurrentWorkflows :: int
  so_WorkflowRetentionTime :: int
  so_WorkflowOptions :: "workflow_options option"
  so_EnablePerformanceMetrics :: bool
  so_MetricsRetentionTime :: int
  so_EnableAuditTrail :: bool
  so_AuditRetentionTime :: int
  so_ObservabilityHooks :: "dcr_hooks option"

definition DefaultStatefulResolverOptions :: stateful_options where
  "DefaultStatefulResolverOptions = \<lparr>so_EnableStateMachine = True, so_MaxStateHistorySize = 100,
     so_StateTransitionTimeout = 5 * 10 ^ 9, so_EnableWorkflowTracking = True, so_MaxConcurrentWorkflows = 1000,
     so_WorkflowRetentionTime = 24 * 3600 * 10 ^ 9, so_WorkflowOptions = Some DefaultWorkflowOptions,
     so_EnablePerformanceMetrics = True, so_MetricsRetentionTime = 7 * 24 * 3600 * 10 ^ 9, so_EnableAuditTrail = True,
     so_AuditRetentionTime = 30 * 24 * 3600 * 10 ^ 9, so_ObservabilityHooks = None\<rparr>"

text \<open>Counters and durations are 64-bit signed integers.\<close>

record resolver_metrics =
  rm_TotalConflictsResolved :: i64
  rm_TotalResolutionTime :: i64
  rm_AverageResolutionTime :: i64
  rm_FastestResolutionTime :: i64
  rm_SlowestResolutionTime :: i64
  rm_AutoResolvedCount :: i64
  rm_ManualReviewCount :: i64
  rm_EscalatedCount :: i64
  rm_FailedCount :: i64
  rm_RuleEvaluationCount :: i64
  rm_RuleMatchCount :: i64
  rm_CurrentActiveWorkflows :: int
  rm_LastResetTime :: int
  rm_MetricsCollectionStart :: int

datatype resolver_call =
    CallWorkflowStarted string conflict
  | CallWorkflowCompleted string audit_trail
  | CallRuleEvaluationStarted string string
  | CallRuleEvaluationCompleted string string bool int
  | CallRuleEvaluationFailed string string go_error
  | CallMetricsRecorded resolver_metrics
  | BaseHook hook_call
  | DCREffect "dcr_state sm_effect"

record stateful_resolver =
  sr_base :: dynamic_resolver
  sr_stateMachine :: "dcr_machine option"
  sr_workflowManager :: "workflow_manager option"
  sr_options :: stateful_options
  sr_metrics :: "resolver_metrics option"
  sr_stateObservers :: "nat list"
  sr_enabled :: bool
  sr_tick :: nat
  sr_trace :: "resolver_call list"

record resolver_env =
  sv_now :: "nat \<Rightarrow> int"
  sv_id :: "nat \<Rightarrow> string"
  sv_rfc3339nano :: "int \<Rightarrow> string"

definition sv_time :: "resolver_env \<Rightarrow> stateful_resolver \<Rightarrow> int" where
  "sv_time en w = sv_now en (sr_tick w)"

definition sv_tick :: "stateful_resolver \<Rightarrow> stateful_resolver" where
  "sv_tick w = w\<lparr>sr_tick := Suc (sr_tick w)\<rparr>"

definition sv_emit :: "resolver_call list \<Rightarrow> stateful_resolver \<Rightarrow> stateful_resolver" where
  "sv_emit cs w = w\<lparr>sr_trace := sr_trace w @ cs\<rparr>"

definition hook_set :: "(dcr_hooks \<Rightarrow> bool) \<Rightarrow> stateful_resolver \<Rightarrow> bool" where
  "hook_set h w = (case so_ObservabilityHooks (sr_options w) of None \<Rightarrow> False | Some hs \<Rightarrow> h hs)"

definition zero_metrics :: "int \<Rightarrow> int \<Rightarrow> resolver_metrics" where
  "zero_metrics start reset = \<lparr>rm_TotalConflictsResolved = 0, rm_TotalResolutionTime = 0, rm_AverageResolutionTime = 0,
     rm_FastestResolutionTime = 0, rm_SlowestResolutionTime = 0, rm_AutoResolvedCount = 0, rm_ManualReviewCount = 0,
     rm_EscalatedCount = 0, rm_FailedCount = 0, rm_RuleEvaluationCount = 0, rm_RuleMatchCount = 0,
     rm_CurrentActiveWorkflows = 0, rm_LastResetTime = reset, rm_MetricsCollectionStart = start\<rparr>"

section \<open>Construction\<close>

definition SubscribeToStateChanges_resolver :: "stateful_resolver \<Rightarrow> nat \<Rightarrow> stateful_resolver" where
  "SubscribeToStateChanges_resolver w ob =
     w\<lparr>sr_stateObservers := sr_stateObservers w @ [ob],
       sr_stateMachine := map_option (\<lambda>sm. Subscribe_dcr sm (Some ob)) (sr_stateMachine w)\<rparr>"

text \<open>The observer that forwards transitions to the hooks has the identity 0.\<close>

definition NewStatefulDynamicResolver ::
  "resolver_env \<Rightarrow> dynamic_resolver option \<Rightarrow> stateful_options option \<Rightarrow> (go_error + stateful_resolver) go" where
  "NewStatefulDynamicResolver en baseResolver options =
     (case baseResolver of
        None \<Rightarrow> Some (Inl (ErrorString ''base resolver cannot be nil''))
      | Some base \<Rightarrow>
          let opts = (case options of None \<Rightarrow> DefaultStatefulResolverOptions | Some x \<Rightarrow> x) in do {
            (sm, eff) \<leftarrow> (if so_EnableStateMachine opts
              then (case NewConflictResolutionStateMachine (sv_now en 0) (Some \<lparr>InitialState = DCRIdle, TransitionRules = None,
                      Validator = None, Metrics = False, MaxHistorySize = so_MaxStateHistorySize opts, EnableMetrics = True,
                      Name = ''StatefulDynamicResolver''\<rparr>) of
                    None \<Rightarrow> None | Some (m, eff) \<Rightarrow> Some (Some m, eff))
              else Some (None, []));
            let w = \<lparr>sr_base = base, sr_stateMachine = sm,
                  sr_workflowManager = (if so_EnableWorkflowTracking opts then Some NewWorkflowManager else None),
                  sr_options = opts,
                  sr_metrics = (if so_EnablePerformanceMetrics opts then Some (zero_metrics (sv_now en 1) (sv_now en 2)) else None),
                  sr_stateObservers = [], sr_enabled = True, sr_tick = 3, sr_trace = map DCREffect eff\<rparr>;
            Some (Inr (if so_ObservabilityHooks opts \<noteq> None \<and> sm \<noteq> None
              then SubscribeToStateChanges_resolver w 0 else w)) })"

definition NewStatefulDynamicResolverFromOptions ::
  "resolver_env \<Rightarrow> resolver_option list \<Rightarrow> stateful_options option \<Rightarrow> (go_error + stateful_resolver) go" where
  "NewStatefulDynamicResolverFromOptions en dynamicOpts statefulOpts =
     (case NewDynamicResolver dynamicOpts of
        Inl err \<Rightarrow> Some (Inl err)
      | Inr base \<Rightarrow> NewStatefulDynamicResolver en (Some base) statefulOpts)"

section \<open>Tracking\<close>

text \<open>Calls on the state machine, on the workflow at an address, and on the performance tracker, where they exist.\<close>

definition dcr_call ::
  "resolver_env \<Rightarrow> (int \<Rightarrow> string \<Rightarrow> dcr_machine \<Rightarrow> dcr_machine \<times> dcr_effects \<times> go_error option) \<Rightarrow> dcr_machine
     \<Rightarrow> stateful_resolver \<Rightarrow> stateful_resolver \<times> go_error option" where
  "dcr_call en f sm w =
     (case f (sv_time en w) (sv_id en (sr_tick w)) sm of
        (sm', eff, e) \<Rightarrow> (sv_tick (sv_emit (map DCREffect eff) (w\<lparr>sr_stateMachine := Some sm'\<rparr>)), e))"

definition on_machine :: "(dcr_machine \<Rightarrow> dcr_machine) \<Rightarrow> stateful_resolver \<Rightarrow> stateful_resolver" where
  "on_machine f w = w\<lparr>sr_stateMachine := map_option f (sr_stateMachine w)\<rparr>"

definition on_wf :: "nat option \<Rightarrow> (conflict_workflow \<Rightarrow> conflict_workflow) \<Rightarrow> stateful_resolver \<Rightarrow> stateful_resolver" where
  "on_wf wk f w = (case wk of None \<Rightarrow> w | Some a \<Rightarrow> w\<lparr>sr_workflowManager := map_option (on_workflow a f) (sr_workflowManager w)\<rparr>)"

definition wf_id :: "nat option \<Rightarrow> stateful_resolver \<Rightarrow> string" where
  "wf_id wk w = (case wk of None \<Rightarrow> [] | Some a \<Rightarrow>
     (case sr_workflowManager w of None \<Rightarrow> [] | Some wm \<Rightarrow> cw_conflictID (wm_heap wm ! a)))"

definition checkpoint :: "resolver_env \<Rightarrow> string \<Rightarrow> performance_tracker option \<Rightarrow> stateful_resolver \<Rightarrow> performance_tracker option" where
  "checkpoint en name tr w = map_option (\<lambda>pt. fst (Checkpoint (sv_time en w) pt name)) tr"

definition count_in :: "string \<Rightarrow> performance_tracker option \<Rightarrow> performance_tracker option" where
  "count_in name tr = map_option (\<lambda>pt. Increment_counter pt name) tr"

definition base_hook :: "(hooks \<Rightarrow> bool) \<Rightarrow> hook_call \<Rightarrow> stateful_resolver \<Rightarrow> stateful_resolver" where
  "base_hook h call w = (if h (dr_hooks (sr_base w)) then sv_emit [BaseHook call] w else w)"

definition obs_hook :: "(dcr_hooks \<Rightarrow> bool) \<Rightarrow> resolver_call \<Rightarrow> stateful_resolver \<Rightarrow> stateful_resolver" where
  "obs_hook h call w = (if hook_set h w then sv_emit [call] w else w)"

definition record_evaluation ::
  "resolver_env \<Rightarrow> nat option \<Rightarrow> string \<Rightarrow> bool \<Rightarrow> int \<Rightarrow> go_error option \<Rightarrow> stateful_resolver \<Rightarrow> stateful_resolver" where
  "record_evaluation en wk name matched d err w =
     sv_tick (sv_tick (on_wf wk (\<lambda>cw. RecordRuleEvaluation (sv_time en w) (sv_time en (sv_tick w)) cw name matched d err None) w))"

type_synonym resolve_result = "stateful_resolver \<times> performance_tracker option \<times> (go_error + resolved_conflict) option"

definition resolve_fallback ::
  "resolver_env \<Rightarrow> go_error option \<Rightarrow> conflict \<Rightarrow> performance_tracker option \<Rightarrow> stateful_resolver \<Rightarrow> resolve_result" where
  "resolve_fallback en ctx c tr w =
     (case dr_fallback (sr_base w) of
        None \<Rightarrow> (base_hook OnError (CallError err_no_rule) w, tr, Some (Inl err_no_rule))
      | Some f \<Rightarrow>
          let w1 = base_hook OnFallback CallFallback w in
          (case f ctx c of
             None \<Rightarrow> (w1, tr, None)
           | Some (Inl err) \<Rightarrow> (base_hook OnError (CallError err) w1, tr, Some (Inl err))
           | Some (Inr res) \<Rightarrow>
               let w2 = base_hook OnResolved (CallResolved res) w1
               in (sv_tick w2, count_in ''fallback_used'' (checkpoint en ''fallback_completed'' tr w2), Some (Inr res))))"

text \<open>What happens once a rule has matched.\<close>

definition apply_rule ::
  "resolver_env \<Rightarrow> rule \<Rightarrow> go_error option \<Rightarrow> conflict \<Rightarrow> nat option \<Rightarrow> int \<Rightarrow> performance_tracker option
     \<Rightarrow> stateful_resolver \<Rightarrow> resolve_result" where
  "apply_rule en r ctx c wk ruleDuration tr w =
     (let w1 = base_hook OnRuleMatched (CallRuleMatched (rule_Name r)) (on_machine (\<lambda>sm. RecordRuleMatched sm (rule_Name r)) w) in
      case (case rule_Resolver r of None \<Rightarrow> None | Some f \<Rightarrow> f ctx c) of
        None \<Rightarrow> (w1, tr, None)
      | Some (Inl err) \<Rightarrow>
          let w2 = record_evaluation en wk (rule_Name r) True ruleDuration (Some err)
                (on_machine (\<lambda>sm. RecordRuleFailed sm (rule_Name r)) w1);
              w3 = obs_hook OnRuleEvaluationFailed (CallRuleEvaluationFailed (wf_id wk w2) (rule_Name r) err) w2
          in (base_hook OnError (CallError err) w3, tr, Some (Inl err))
      | Some (Inr res) \<Rightarrow>
          let w2 = base_hook OnResolved (CallResolved res) w1
          in (sv_tick w2, count_in ''rules_matched'' (checkpoint en ''resolution_completed'' tr w2), Some (Inr res)))"

fun evaluate_rules ::
  "resolver_env \<Rightarrow> rule list \<Rightarrow> go_error option \<Rightarrow> conflict \<Rightarrow> nat option \<Rightarrow> performance_tracker option
     \<Rightarrow> stateful_resolver \<Rightarrow> resolve_result" where
  "evaluate_rules en [] ctx c wk tr w = resolve_fallback en ctx c tr w"
| "evaluate_rules en (r # rs) ctx c wk tr w =
     (let ruleStart = sv_time en w;
          w1 = obs_hook OnRuleEvaluationStarted (CallRuleEvaluationStarted (wf_id wk w) (rule_Name r)) (sv_tick w);
          w2 = on_machine (\<lambda>sm. RecordRuleEvaluation_dcr sm (rule_Name r)) w1
      in case (case rule_Matcher r of None \<Rightarrow> Some False | Some f \<Rightarrow> f c) of
           None \<Rightarrow> (w2, tr, None)
         | Some matched \<Rightarrow>
             let ruleDuration = time_Sub (sv_time en w2) ruleStart;
                 w3 = record_evaluation en wk (rule_Name r) matched ruleDuration None (sv_tick w2);
                 w4 = obs_hook OnRuleEvaluationCompleted
                   (CallRuleEvaluationCompleted (wf_id wk w3) (rule_Name r) matched ruleDuration) w3
             in if matched then apply_rule en r ctx c wk ruleDuration tr w4
                else evaluate_rules en rs ctx c wk (count_in ''rules_evaluated'' tr) w4)"

definition resolveWithTracking ::
  "resolver_env \<Rightarrow> go_error option \<Rightarrow> conflict \<Rightarrow> nat option \<Rightarrow> performance_tracker option \<Rightarrow> stateful_resolver \<Rightarrow> resolve_result" where
  "resolveWithTracking en ctx c wk tr w =
     (case (case sr_stateMachine w of None \<Rightarrow> (w, None) | Some sm \<Rightarrow> dcr_call en BeginRuleApplication sm w) of
        (w1, Some err) \<Rightarrow> (w1, tr, Some (Inl err))
      | (w1, None) \<Rightarrow> evaluate_rules en (dr_rules (sr_base w1)) ctx c wk (checkpoint en ''rules_started'' tr w1) (sv_tick w1))"

section \<open>Performance metrics\<close>

definition count_outcome :: "go_error + resolved_conflict \<Rightarrow> resolver_metrics \<Rightarrow> resolver_metrics" where
  "count_outcome res m =
     (case res of
        Inl _ \<Rightarrow> m\<lparr>rm_FailedCount := rm_FailedCount m + 1\<rparr>
      | Inr x \<Rightarrow>
          if Decision x = ''manual_review'' then m\<lparr>rm_ManualReviewCount := rm_ManualReviewCount m + 1\<rparr>
          else if Decision x = ''escalated'' then m\<lparr>rm_EscalatedCount := rm_EscalatedCount m + 1\<rparr>
          else m\<lparr>rm_AutoResolvedCount := rm_AutoResolvedCount m + 1\<rparr>)"

definition record_resolution ::
  "i64 \<Rightarrow> go_error + resolved_conflict \<Rightarrow> i64 \<Rightarrow> i64 \<Rightarrow> resolver_metrics \<Rightarrow> resolver_metrics" where
  "record_resolution totalDuration res evaluated matched m =
     (let m1 = m\<lparr>rm_TotalConflictsResolved := rm_TotalConflictsResolved m + 1,
                 rm_TotalResolutionTime := rm_TotalResolutionTime m + totalDuration\<rparr>;
          m2 = (if 0 < sint (rm_TotalConflictsResolved m1)
                then m1\<lparr>rm_AverageResolutionTime := i64_quot (rm_TotalResolutionTime m1) (rm_TotalConflictsResolved m1)\<rparr> else m1);
          m3 = (if rm_FastestResolutionTime m2 = 0 \<or> sint totalDuration < sint (rm_FastestResolutionTime m2)
                then m2\<lparr>rm_FastestResolutionTime := totalDuration\<rparr> else m2);
          m4 = (if sint totalDuration > sint (rm_SlowestResolutionTime m3)
                then m3\<lparr>rm_SlowestResolutionTime := totalDuration\<rparr> else m3);
          m5 = count_outcome res m4
      in m5\<lparr>rm_RuleEvaluationCount := rm_RuleEvaluationCount m5 + evaluated, rm_RuleMatchCount := rm_RuleMatchCount m5 + matched\<rparr>)"

definition updatePerformanceMetrics ::
  "resolver_env \<Rightarrow> performance_tracker \<Rightarrow> go_error + resolved_conflict \<Rightarrow> stateful_resolver \<Rightarrow> stateful_resolver" where
  "updatePerformanceMetrics en pt res w =
     (case sr_metrics w of
        None \<Rightarrow> w
      | Some m \<Rightarrow>
          let m' = record_resolution (of_int (GetTotalDuration (sv_time en w) pt)) res (GetCounter pt ''rules_evaluated'')
                (GetCounter pt ''rules_matched'') m
          in obs_hook OnMetricsRecorded (CallMetricsRecorded m') (sv_tick (w\<lparr>sr_metrics := Some m'\<rparr>)))"

section \<open>Resolve\<close>

definition start_tracker :: "resolver_env \<Rightarrow> stateful_resolver \<Rightarrow> stateful_resolver \<times> performance_tracker option" where
  "start_tracker en w =
     (if so_EnablePerformanceMetrics (sr_options w)
      then (sv_tick (sv_tick w), checkpoint en ''resolve_started'' (Some (NewPerformanceTracker (sv_time en w))) (sv_tick w))
      else (w, None))"

definition start_workflow :: "resolver_env \<Rightarrow> conflict \<Rightarrow> stateful_resolver \<Rightarrow> stateful_resolver \<times> nat option" where
  "start_workflow en c w =
     (case sr_workflowManager w of
        Some wm \<Rightarrow>
          if so_EnableWorkflowTracking (sr_options w)
          then (case StartWorkflow (sv_time en w) (sv_time en (sv_tick w)) wm c (sr_stateMachine w \<noteq> None)
                  (so_WorkflowOptions (sr_options w)) of
                  (wm', a) \<Rightarrow>
                    let w1 = sv_tick (sv_tick (w\<lparr>sr_workflowManager := Some wm'\<rparr>))
                    in (obs_hook OnWorkflowStarted (CallWorkflowStarted (wf_id (Some a) w1) c) w1, Some a))
          else (w, None)
      | None \<Rightarrow> (w, None))"

definition generateConflictID_synckit :: "resolver_env \<Rightarrow> int \<Rightarrow> conflict \<Rightarrow> string" where
  "generateConflictID_synckit en now c = cf_EventType c @ '':'' @ cf_AggregateID c @ '':'' @ sv_rfc3339nano en now"

text \<open>Starting the analysis of the workflow; \<open>None\<close> is a panic of a version comparison.\<close>

definition start_analysis :: "resolver_env \<Rightarrow> nat option \<Rightarrow> stateful_resolver \<Rightarrow> stateful_resolver go" where
  "start_analysis en wk w =
     (case (wk, sr_workflowManager w) of
        (Some a, Some wm) \<Rightarrow> do {
          cw \<leftarrow> StartAnalysis (sv_time en w) (wm_heap wm ! a);
          Some (sv_tick (on_wf (Some a) (\<lambda>_. cw) w)) }
      | _ \<Rightarrow> Some w)"

text \<open>
  The initialisation of the state machine: an error of \<open>StartResolution\<close> ends the call. The second component is that outcome,
  \<open>None\<close> where the resolution goes on.
\<close>

definition start_machine ::
  "resolver_env \<Rightarrow> conflict \<Rightarrow> nat option \<Rightarrow> performance_tracker option \<Rightarrow> stateful_resolver
     \<Rightarrow> stateful_resolver \<times> (go_error option) option \<times> performance_tracker option" where
  "start_machine en c wk tr w =
     (case sr_stateMachine w of
        None \<Rightarrow> (w, None, tr)
      | Some sm \<Rightarrow>
          let conflictID = generateConflictID_synckit en (sv_time en w) c; w1 = sv_tick w in
          (case dcr_call en (\<lambda>now tid sm. StartResolution now tid (sv_time en (sv_tick w1)) sm conflictID) sm w1 of
             (w2, Some err) \<Rightarrow> (w2, Some (Some err), tr)
           | (w2, None) \<Rightarrow>
               (case start_analysis en wk (sv_tick w2) of
                  None \<Rightarrow> (sv_tick w2, Some None, tr)
                | Some w3 \<Rightarrow> (sv_tick w3, None, checkpoint en ''analysis_started'' tr w3))))"

definition finish_machine :: "resolver_env \<Rightarrow> go_error + resolved_conflict \<Rightarrow> stateful_resolver \<Rightarrow> stateful_resolver" where
  "finish_machine en res w =
     (case sr_stateMachine w of
        None \<Rightarrow> w
      | Some sm \<Rightarrow> fst (dcr_call en (case res of
            Inl _ \<Rightarrow> FailResolution
          | Inr x \<Rightarrow> if Decision x = ''manual_review'' then RequireManualReview
              else if Decision x = ''escalated'' then EscalateConflict else CompleteResolution_dcr) sm w))"

definition finish_workflow ::
  "resolver_env \<Rightarrow> nat option \<Rightarrow> go_error + resolved_conflict \<Rightarrow> stateful_resolver \<Rightarrow> stateful_resolver" where
  "finish_workflow en wk res w =
     (case (wk, sr_workflowManager w) of
        (Some a, Some _) \<Rightarrow>
          let w1 = (case res of
                Inl _ \<Rightarrow> w
              | Inr x \<Rightarrow> sv_tick (sv_tick (on_wf wk (\<lambda>cw. CompleteResolution (sv_time en w) (sv_time en (sv_tick w)) cw
                  (Decision x) (Reasons x) (ResolvedEvents x)) w)))
          in (case sr_workflowManager w1 of
                None \<Rightarrow> w1
              | Some wm \<Rightarrow>
                  (case CompleteWorkflow wm (wf_id wk w1) of
                     (wm', None) \<Rightarrow> w1\<lparr>sr_workflowManager := Some wm'\<rparr>
                   | (wm', Some trail) \<Rightarrow>
                       obs_hook OnWorkflowCompleted (CallWorkflowCompleted (at_ConflictID trail) trail)
                         (w1\<lparr>sr_workflowManager := Some wm'\<rparr>)))
      | _ \<Rightarrow> w)"

text \<open>The deferred reset, registered once the resolution returned; its error is only logged.\<close>

definition reset_machine :: "resolver_env \<Rightarrow> stateful_resolver \<Rightarrow> stateful_resolver" where
  "reset_machine en w = (case sr_stateMachine w of None \<Rightarrow> w | Some sm \<Rightarrow> fst (dcr_call en Reset_dcr sm w))"

definition update_metrics ::
  "resolver_env \<Rightarrow> performance_tracker option \<Rightarrow> go_error + resolved_conflict \<Rightarrow> stateful_resolver \<Rightarrow> stateful_resolver" where
  "update_metrics en tr res w = (case tr of None \<Rightarrow> w | Some pt \<Rightarrow> updatePerformanceMetrics en pt res w)"

definition Resolve_stateful ::
  "resolver_env \<Rightarrow> go_error option \<Rightarrow> conflict \<Rightarrow> stateful_resolver \<Rightarrow> stateful_resolver \<times> (go_error + resolved_conflict) option" where
  "Resolve_stateful en ctx c w =
     (case start_tracker en w of (w1, tr1) \<Rightarrow>
      case start_workflow en c w1 of (w2, wk) \<Rightarrow>
      case start_machine en c wk tr1 w2 of
        (w3, Some (Some err), _) \<Rightarrow> (w3, Some (Inl err))
      | (w3, Some None, _) \<Rightarrow> (w3, None)
      | (w3, None, tr3) \<Rightarrow>
          (case resolveWithTracking en ctx c wk tr3 w3 of
             (w4, _, None) \<Rightarrow> (w4, None)
           | (w4, tr4, Some res) \<Rightarrow>
               (reset_machine en (update_metrics en tr4 res (finish_workflow en wk res (finish_machine en res w4))), Some res)))"

section \<open>The rest of the interface\<close>

definition GetCurrentState :: "stateful_resolver \<Rightarrow> dcr_state" where
  "GetCurrentState w = (case sr_stateMachine w of None \<Rightarrow> DCRIdle | Some sm \<Rightarrow> Current_dcr sm)"

definition GetStateHistory :: "stateful_resolver \<Rightarrow> dcr_state state_transition list" where
  "GetStateHistory w = (case sr_stateMachine w of None \<Rightarrow> [] | Some sm \<Rightarrow> History_dcr sm)"

definition GetActiveWorkflows :: "(nat \<Rightarrow> int) \<Rightarrow> string list \<Rightarrow> stateful_resolver \<Rightarrow> workflow_status list" where
  "GetActiveWorkflows clock key_order w =
     (case sr_workflowManager w of None \<Rightarrow> [] | Some wm \<Rightarrow> ListActiveWorkflows clock key_order (sr_stateMachine w) wm)"

definition GetWorkflowByID :: "stateful_resolver \<Rightarrow> string \<Rightarrow> nat option" where
  "GetWorkflowByID w conflictID = (case sr_workflowManager w of None \<Rightarrow> None | Some wm \<Rightarrow> GetWorkflow wm conflictID)"

definition GetAuditTrail :: "stateful_resolver \<Rightarrow> string \<Rightarrow> go_error + audit_trail" where
  "GetAuditTrail w conflictID =
     (case sr_workflowManager w of
        None \<Rightarrow> Inl (ErrorString ''workflow tracking is not enabled'')
      | Some wm \<Rightarrow>
          (case GetWorkflow wm conflictID of
             Some a \<Rightarrow> Inr (GenerateAuditTrail (wm_heap wm ! a))
           | None \<Rightarrow> Inl (ErrorString (''audit trail not found for conflict ID: '' @ conflictID))))"

definition Configure :: "stateful_resolver \<Rightarrow> stateful_options option \<Rightarrow> stateful_resolver \<times> go_error option" where
  "Configure w options =
     (case options of
        None \<Rightarrow> (w, Some (ErrorString ''options cannot be nil''))
      | Some x \<Rightarrow> (w\<lparr>sr_options := x\<rparr>, None))"

definition IsStateMachineEnabled :: "stateful_resolver \<Rightarrow> bool" where
  "IsStateMachineEnabled w \<longleftrightarrow> sr_stateMachine w \<noteq> None \<and> so_EnableStateMachine (sr_options w)"

definition GetPerformanceMetrics :: "stateful_resolver \<Rightarrow> resolver_metrics option" where
  "GetPerformanceMetrics w =
     map_option (\<lambda>m. case sr_workflowManager w of
        None \<Rightarrow> m
      | Some wm \<Rightarrow> m\<lparr>rm_CurrentActiveWorkflows := int (fcard (fmdom (wm_workflows wm)))\<rparr>) (sr_metrics w)"

text \<open>The observer of the state machine forwards to the hooks.\<close>

datatype state_hook_call =
    CallStateTransition dcr_state dcr_state metadata
  | CallStateTransitionFailed dcr_state dcr_state go_error

fun resolver_observer :: "dcr_hooks \<Rightarrow> nat \<Rightarrow> dcr_state sm_effect \<Rightarrow> state_hook_call list" where
  "resolver_observer hs ob (NotifyTransition i t) =
     (if i = ob \<and> OnStateTransition hs then [CallStateTransition (st_From t) (st_To t) (st_Metadata t)] else [])"
| "resolver_observer hs ob (NotifyTransitionFailed i from to err md) =
     (if i = ob \<and> OnStateTransitionFailed hs then [CallStateTransitionFailed from to err] else [])"
| "resolver_observer hs ob _ = []"

section \<open>Facts\<close>

text \<open>
  What the tracking leaves alone: the base resolver, the options and the underlying state machine. \<open>base_calls\<close> are the
  calls of the hooks of the base resolver.
\<close>

definition base_calls :: "stateful_resolver \<Rightarrow> hook_call list" where
  "base_calls w = concat (map (\<lambda>c. case c of BaseHook h \<Rightarrow> [h] | _ \<Rightarrow> []) (sr_trace w))"

definition mach :: "stateful_resolver \<Rightarrow> dcr_state machine option" where
  "mach w = map_option dm_stateMachine (sr_stateMachine w)"

lemma GetCurrentState_mach: "GetCurrentState w = (case mach w of None \<Rightarrow> DCRIdle | Some m \<Rightarrow> m_state m)"
  by (simp add: GetCurrentState_def mach_def Current_dcr_def Current_def split: option.splits)

lemma base_calls_emit [simp]:
  "base_calls (sv_emit cs w) = base_calls w @ concat (map (\<lambda>c. case c of BaseHook h \<Rightarrow> [h] | _ \<Rightarrow> []) cs)"
  "base_calls (sv_tick w) = base_calls w" "base_calls (w\<lparr>sr_stateMachine := sm\<rparr>) = base_calls w"
  "base_calls (w\<lparr>sr_workflowManager := wm\<rparr>) = base_calls w" "base_calls (w\<lparr>sr_metrics := ms\<rparr>) = base_calls w"
  by (simp_all add: base_calls_def sv_emit_def sv_tick_def)

lemma emit_frame [simp]:
  "sr_base (sv_emit cs w) = sr_base w" "sr_options (sv_emit cs w) = sr_options w" "mach (sv_emit cs w) = mach w"
  "sr_workflowManager (sv_emit cs w) = sr_workflowManager w" "sr_stateMachine (sv_emit cs w) = sr_stateMachine w"
  "sr_metrics (sv_emit cs w) = sr_metrics w"
  "sr_base (sv_tick w) = sr_base w" "sr_options (sv_tick w) = sr_options w" "mach (sv_tick w) = mach w"
  "sr_workflowManager (sv_tick w) = sr_workflowManager w" "sr_stateMachine (sv_tick w) = sr_stateMachine w"
  "sr_metrics (sv_tick w) = sr_metrics w"
  "mach (w\<lparr>sr_workflowManager := wm\<rparr>) = mach w" "mach (w\<lparr>sr_metrics := ms\<rparr>) = mach w"
  "mach (w\<lparr>sr_stateMachine := sm\<rparr>) = map_option dm_stateMachine sm"
  by (simp_all add: sv_emit_def sv_tick_def mach_def)

definition base_hook_call :: "resolver_call \<Rightarrow> bool" where
  "base_hook_call c \<longleftrightarrow> (\<exists>h. c = BaseHook h)"

lemma obs_hook_frame [simp]:
  "sr_base (obs_hook h c w) = sr_base w" "sr_options (obs_hook h c w) = sr_options w" "mach (obs_hook h c w) = mach w"
  "sr_workflowManager (obs_hook h c w) = sr_workflowManager w" "sr_stateMachine (obs_hook h c w) = sr_stateMachine w"
  "sr_metrics (obs_hook h c w) = sr_metrics w" "\<not> base_hook_call c \<Longrightarrow> base_calls (obs_hook h c w) = base_calls w"
  by (auto simp: obs_hook_def base_hook_call_def split: resolver_call.splits)

lemma base_hook_frame [simp]:
  "sr_base (base_hook h c w) = sr_base w" "sr_options (base_hook h c w) = sr_options w" "mach (base_hook h c w) = mach w"
  "sr_workflowManager (base_hook h c w) = sr_workflowManager w" "sr_stateMachine (base_hook h c w) = sr_stateMachine w"
  "sr_metrics (base_hook h c w) = sr_metrics w"
  "base_calls (base_hook h c w) = base_calls w @ (if h (dr_hooks (sr_base w)) then [c] else [])"
  by (auto simp: base_hook_def)

lemma on_wf_frame [simp]:
  "sr_base (on_wf wk f w) = sr_base w" "sr_options (on_wf wk f w) = sr_options w" "mach (on_wf wk f w) = mach w"
  "base_calls (on_wf wk f w) = base_calls w" "sr_stateMachine (on_wf wk f w) = sr_stateMachine w" "sr_metrics (on_wf wk f w) = sr_metrics w"
  by (simp_all add: on_wf_def mach_def split: option.splits)

lemma on_machine_frame [simp]:
  "sr_base (on_machine f w) = sr_base w" "sr_options (on_machine f w) = sr_options w" "base_calls (on_machine f w) = base_calls w"
  "sr_workflowManager (on_machine f w) = sr_workflowManager w" "sr_metrics (on_machine f w) = sr_metrics w"
  by (simp_all add: on_machine_def)

lemma on_machine_mach [simp]:
  "mach (on_machine (\<lambda>sm. RecordRuleMatched sm n) w) = mach w" "mach (on_machine (\<lambda>sm. RecordRuleFailed sm n) w) = mach w"
  "mach (on_machine (\<lambda>sm. RecordRuleEvaluation_dcr sm n) w) = mach w"
  by (cases "sr_stateMachine w"; simp add: on_machine_def mach_def RecordRuleMatched_def RecordRuleFailed_def RecordRuleEvaluation_dcr_def)+

lemma record_evaluation_frame [simp]:
  "sr_base (record_evaluation en wk n mt d e w) = sr_base w" "sr_options (record_evaluation en wk n mt d e w) = sr_options w"
  "mach (record_evaluation en wk n mt d e w) = mach w" "base_calls (record_evaluation en wk n mt d e w) = base_calls w"
  "sr_metrics (record_evaluation en wk n mt d e w) = sr_metrics w"
  by (simp_all add: record_evaluation_def)

lemma not_base [simp]:
  "\<not> base_hook_call (CallWorkflowStarted a b)" "\<not> base_hook_call (CallWorkflowCompleted a t)" "\<not> base_hook_call (CallRuleEvaluationStarted a n)"
  "\<not> base_hook_call (CallRuleEvaluationCompleted a n m d)" "\<not> base_hook_call (CallRuleEvaluationFailed a n e)"
  "\<not> base_hook_call (CallMetricsRecorded m')" "\<not> base_hook_call (DCREffect x)"
  by (simp_all add: base_hook_call_def)

text \<open>Evaluating the rules with tracking decides as the base resolver does.\<close>

definition agrees ::
  "stateful_resolver \<Rightarrow> (hook_call list \<times> (go_error + resolved_conflict)) go \<Rightarrow> resolve_result \<Rightarrow> bool" where
  "agrees w d x \<longleftrightarrow> (case x of (w', tr', res) \<Rightarrow> res = map_option snd d \<and> sr_base w' = sr_base w \<and> sr_options w' = sr_options w
     \<and> mach w' = mach w \<and> sr_metrics w' = sr_metrics w \<and> (\<forall>calls r. d = Some (calls, r) \<longrightarrow> base_calls w' = base_calls w @ calls))"

lemma resolve_fallback_agrees:
  "agrees w (resolve_rules (dr_hooks (sr_base w)) (dr_fallback (sr_base w)) [] ctx c) (resolve_fallback en ctx c tr w)"
  by (auto simp: agrees_def resolve_fallback_def run_resolver_def Let_def split: option.splits sum.splits)

lemma apply_rule_agrees:
  "agrees w (Option.bind (run_resolver (dr_hooks (sr_base w)) (rule_Resolver r) ctx c) (\<lambda>(calls, res).
      Some ((if OnRuleMatched (dr_hooks (sr_base w)) then [CallRuleMatched (rule_Name r)] else []) @ calls, res)))
    (apply_rule en r ctx c wk d tr w)"
  by (auto simp: agrees_def apply_rule_def run_resolver_def Let_def split: option.splits sum.splits)

lemma agrees_trans:
  "agrees w1 d x \<Longrightarrow> sr_base w1 = sr_base w \<Longrightarrow> sr_options w1 = sr_options w \<Longrightarrow> mach w1 = mach w \<Longrightarrow> sr_metrics w1 = sr_metrics w
     \<Longrightarrow> base_calls w1 = base_calls w \<Longrightarrow> agrees w d x"
  by (simp add: agrees_def split: prod.splits)

lemma evaluate_rules_agrees:
  "agrees w (resolve_rules (dr_hooks (sr_base w)) (dr_fallback (sr_base w)) rs ctx c) (evaluate_rules en rs ctx c wk tr w)"
proof (induction rs arbitrary: tr w)
  case Nil
  show ?case using resolve_fallback_agrees by simp
next
  case (Cons r rs)
  let ?w2 = "on_machine (\<lambda>sm. RecordRuleEvaluation_dcr sm (rule_Name r))
     (obs_hook OnRuleEvaluationStarted (CallRuleEvaluationStarted (wf_id wk w) (rule_Name r)) (sv_tick w))"
  show ?case
  proof (cases "case rule_Matcher r of None \<Rightarrow> Some False | Some f \<Rightarrow> f c")
    case None
    then show ?thesis by (simp add: agrees_def Let_def)
  next
    case (Some matched)
    let ?d = "time_Sub (sv_time en ?w2) (sv_time en w)"
    let ?w3 = "record_evaluation en wk (rule_Name r) matched ?d None (sv_tick ?w2)"
    let ?w4 = "obs_hook OnRuleEvaluationCompleted (CallRuleEvaluationCompleted (wf_id wk ?w3) (rule_Name r) matched ?d) ?w3"
    have f: "sr_base ?w4 = sr_base w" "sr_options ?w4 = sr_options w" "mach ?w4 = mach w" "sr_metrics ?w4 = sr_metrics w"
      "base_calls ?w4 = base_calls w" by simp_all
    show ?thesis
    proof (cases matched)
      case True
      have "evaluate_rules en (r # rs) ctx c wk tr w = apply_rule en r ctx c wk ?d tr ?w4" using Some True by (simp add: Let_def)
      then show ?thesis using agrees_trans [OF apply_rule_agrees f, of r ctx c en wk ?d tr] Some True f(1) by (simp split: option.splits)
    next
      case False
      have "evaluate_rules en (r # rs) ctx c wk tr w = evaluate_rules en rs ctx c wk (count_in ''rules_evaluated'' tr) ?w4"
        using Some False by (simp add: Let_def)
      then show ?thesis using agrees_trans [OF Cons.IH f, of "count_in ''rules_evaluated'' tr"] Some False f(1) by (simp split: option.splits)
    qed
  qed
qed

text \<open>Calls of the state machine that amount to a transition.\<close>

definition moves ::
  "(int \<Rightarrow> string \<Rightarrow> dcr_machine \<Rightarrow> dcr_machine \<times> dcr_effects \<times> go_error option) \<Rightarrow> dcr_state \<Rightarrow> bool" where
  "moves f to \<longleftrightarrow> (\<forall>now tid sm. case dcr_transition now tid sm to of (sm1, eff, e) \<Rightarrow>
     \<exists>sm'. f now tid sm = (sm', eff, e) \<and> dm_stateMachine sm' = dm_stateMachine sm1)"

lemma moves_intros:
  "moves BeginRuleApplication DCRApplyingRules" "moves CompleteResolution_dcr DCRResolved" "moves RequireManualReview DCRManualReview"
  "moves EscalateConflict DCREscalated" "moves FailResolution DCRFailed" "moves Reset_dcr DCRIdle"
  "moves (\<lambda>now tid sm. StartResolution now tid (g now) sm cid) DCRAnalyzing"
  by (auto simp: moves_def BeginRuleApplication_def CompleteResolution_dcr_def RequireManualReview_def EscalateConflict_def
      FailResolution_def Reset_dcr_def StartResolution_def split: prod.splits option.splits)

definition resolver_ok :: "stateful_resolver \<Rightarrow> bool" where
  "resolver_ok w \<longleftrightarrow> (\<forall>m. mach w = Some m \<longrightarrow> fixed_rules dcr_rules m)"

lemma dcr_call_frame:
  assumes "dcr_call en f sm w = (w', e)"
  shows "sr_base w' = sr_base w" "sr_options w' = sr_options w" "base_calls w' = base_calls w" "sr_metrics w' = sr_metrics w"
    "sr_workflowManager w' = sr_workflowManager w" "sr_stateMachine w' \<noteq> None"
  using assms by (auto simp: dcr_call_def comp_def split: prod.splits)

lemma dcr_call_cases:
  assumes "moves f to" and "sr_stateMachine w = Some sm" and "resolver_ok w"
  shows "dcr_allowed (GetCurrentState w) to \<Longrightarrow> \<exists>w'. dcr_call en f sm w = (w', None) \<and> GetCurrentState w' = to \<and> resolver_ok w'"
    and "\<not> dcr_allowed (GetCurrentState w) to \<Longrightarrow> \<exists>w' e. dcr_call en f sm w = (w', Some e) \<and> mach w' = mach w"
proof -
  have ok: "dcr_ok sm" using assms(2,3) by (simp add: resolver_ok_def mach_def)
  have c: "GetCurrentState w = Current_dcr sm" using assms(2) by (simp add: GetCurrentState_def)
  obtain sm1 eff e where t: "dcr_transition (sv_time en w) (sv_id en (sr_tick w)) sm to = (sm1, eff, e)"
    by (cases "dcr_transition (sv_time en w) (sv_id en (sr_tick w)) sm to")
  then have "\<exists>sm'. f (sv_time en w) (sv_id en (sr_tick w)) sm = (sm', eff, e) \<and> dm_stateMachine sm' = dm_stateMachine sm1"
    using assms(1) [unfolded moves_def, rule_format, of "sv_time en w" "sv_id en (sr_tick w)" sm] by simp
  then obtain sm' where f: "f (sv_time en w) (sv_id en (sr_tick w)) sm = (sm', eff, e)" "dm_stateMachine sm' = dm_stateMachine sm1"
    by blast
  then have call: "dcr_call en f sm w = (sv_tick (sv_emit (map DCREffect eff) (w\<lparr>sr_stateMachine := Some sm'\<rparr>)), e)"
    by (simp add: dcr_call_def)
  show "\<exists>w'. dcr_call en f sm w = (w', None) \<and> GetCurrentState w' = to \<and> resolver_ok w'" if "dcr_allowed (GetCurrentState w) to"
    using that t f call c
    by (cases rule: dcr_transition_cases [OF ok, of to "sv_time en w" "sv_id en (sr_tick w)"])
       (auto simp: GetCurrentState_mach resolver_ok_def Current_dcr_def Current_def)
  show "\<exists>w' e. dcr_call en f sm w = (w', Some e) \<and> mach w' = mach w" if "\<not> dcr_allowed (GetCurrentState w) to"
    using that t f call c assms(2)
    by (cases rule: dcr_transition_cases [OF ok, of to "sv_time en w" "sv_id en (sr_tick w)"]) (auto simp: mach_def [of w])
qed

lemma start_tracker_frame:
  assumes "start_tracker en w = (w', tr)"
  shows "sr_base w' = sr_base w" "sr_options w' = sr_options w" "mach w' = mach w" "base_calls w' = base_calls w"
    "sr_metrics w' = sr_metrics w" "sr_workflowManager w' = sr_workflowManager w" "sr_stateMachine w' = sr_stateMachine w"
  using assms by (auto simp: start_tracker_def split: if_splits)

text \<open>A conflict whose versions can be compared: the comparison of two versions panics only on a nil vector clock.\<close>

definition comparable :: "conflict \<Rightarrow> bool" where
  "comparable c \<longleftrightarrow> ev_Version (cf_Local c) = None \<or> ev_Version (cf_Remote c) = None
     \<or> iface_Compare (ev_Version (cf_Local c)) (ev_Version (cf_Remote c)) \<noteq> None"

lemma bind_total: "\<exists>x. a = Some x \<and> P x \<Longrightarrow> (\<And>x. P x \<Longrightarrow> \<exists>y. f x = Some y) \<Longrightarrow> \<exists>y. Option.bind a f = Some y"
  by auto

lemma StartAnalysis_total:
  assumes "comparable (cw_conflict cw)" and "cw_analysisResults cw \<noteq> None"
  shows "\<exists>cw'. StartAnalysis now cw = Some cw'"
proof -
  let ?c = "cw_conflict cw"
  have "\<exists>md2. version_analysis ?c md1 = Some md2" if "md1 \<noteq> None" for md1
    using assms(1) put_all_Some [OF that] by (fastforce simp: version_analysis_def comparable_def simp del: put_all.simps)
  then have v: "\<exists>md2. version_analysis ?c md1 = Some md2 \<and> True" if "md1 \<noteq> None" for md1 using that by blast
  show ?thesis unfolding StartAnalysis_def Let_def
    by (rule bind_total [OF put_all_Some [OF assms(2)]], rule bind_total [OF v]) simp_all
qed

lemma start_workflow_frame:
  assumes "start_workflow en c w = (w', wk)"
  shows "sr_base w' = sr_base w" "sr_options w' = sr_options w" "mach w' = mach w" "base_calls w' = base_calls w"
    "sr_metrics w' = sr_metrics w" "sr_stateMachine w' = sr_stateMachine w"
    "\<And>a. wk = Some a \<Longrightarrow> \<exists>wm. sr_workflowManager w' = Some wm \<and> cw_conflict (wm_heap wm ! a) = c \<and> cw_analysisResults (wm_heap wm ! a) \<noteq> None"
  using assms by (auto simp: start_workflow_def StartWorkflow_def NewConflictWorkflow_def Let_def split: option.splits if_splits prod.splits)

text \<open>What every phase keeps: base resolver, options and the calls of base hooks.\<close>

definition frame :: "stateful_resolver \<Rightarrow> stateful_resolver \<Rightarrow> bool" where
  "frame w w' \<longleftrightarrow> sr_base w' = sr_base w \<and> sr_options w' = sr_options w \<and> base_calls w' = base_calls w"

lemma frame_refl [simp]: "frame w w"
  by (simp add: frame_def)

lemma frame_trans: "frame w w1 \<Longrightarrow> frame w1 w2 \<Longrightarrow> frame w w2"
  by (simp add: frame_def)

lemma start_machine_idle:
  assumes "resolver_ok w" and "GetCurrentState w = DCRIdle"
    and wk: "\<And>a. wk = Some a \<Longrightarrow> \<exists>wm. sr_workflowManager w = Some wm \<and> comparable (cw_conflict (wm_heap wm ! a))
        \<and> cw_analysisResults (wm_heap wm ! a) \<noteq> None"
  shows "\<exists>w' tr'. start_machine en c wk tr w = (w', None, tr') \<and> frame w w' \<and> sr_metrics w' = sr_metrics w \<and> resolver_ok w'
    \<and> (if mach w = None then mach w' = None else mach w' \<noteq> None \<and> GetCurrentState w' = DCRAnalyzing)"
proof (cases "sr_stateMachine w")
  case None
  then show ?thesis using assms(1) by (simp add: start_machine_def mach_def)
next
  case (Some sm)
  let ?w1 = "sv_tick w"
  let ?f = "\<lambda>now tid sm. StartResolution now tid (sv_time en (sv_tick ?w1)) sm (generateConflictID_synckit en (sv_time en w) c)"
  have "sr_stateMachine ?w1 = Some sm" "resolver_ok ?w1" "GetCurrentState ?w1 = DCRIdle"
    using Some assms(1,2) by (simp_all add: resolver_ok_def GetCurrentState_mach)
  then obtain w2 where w2: "dcr_call en ?f sm ?w1 = (w2, None)" "GetCurrentState w2 = DCRAnalyzing" "resolver_ok w2"
    using dcr_call_cases(1) [of ?f DCRAnalyzing ?w1 sm en] moves_intros(7) by (auto simp: dcr_allowed_iff)
  note fr = dcr_call_frame [OF w2(1)]
  have "\<exists>w3. start_analysis en wk (sv_tick w2) = Some w3 \<and> frame w2 w3 \<and> mach w3 = mach w2 \<and> sr_metrics w3 = sr_metrics w2"
  proof (cases wk)
    case None
    then show ?thesis by (simp add: start_analysis_def frame_def)
  next
    case (Some a)
    then obtain wm where wm: "sr_workflowManager w = Some wm" "comparable (cw_conflict (wm_heap wm ! a))" "cw_analysisResults (wm_heap wm ! a) \<noteq> None"
      using wk by blast
    then obtain cw where "StartAnalysis (sv_time en (sv_tick w2)) (wm_heap wm ! a) = Some cw" using StartAnalysis_total by blast
    then show ?thesis using Some wm(1) fr(5) by (simp add: start_analysis_def frame_def)
  qed
  then obtain w3 where w3: "start_analysis en wk (sv_tick w2) = Some w3" "frame w2 w3" "mach w3 = mach w2" "sr_metrics w3 = sr_metrics w2" by blast
  have "start_machine en c wk tr w = (sv_tick w3, None, checkpoint en ''analysis_started'' tr w3)"
    using Some w2(1) w3(1) by (simp add: start_machine_def Let_def)
  moreover have "frame w (sv_tick w3)" using fr w3(2) by (simp add: frame_def)
  moreover have "sr_metrics (sv_tick w3) = sr_metrics w" using fr w3(4) by simp
  moreover have "mach (sv_tick w3) \<noteq> None" "GetCurrentState (sv_tick w3) = DCRAnalyzing" "resolver_ok (sv_tick w3)"
    using w2 w3(3) fr(6) by (auto simp: mach_def GetCurrentState_mach resolver_ok_def)
  ultimately show ?thesis using Some by (auto simp: mach_def)
qed

lemma resolveWithTracking_agrees:
  assumes "resolver_ok w" and "mach w \<noteq> None \<longrightarrow> GetCurrentState w = DCRAnalyzing"
  shows "\<exists>w' tr'. resolveWithTracking en ctx c wk tr w = (w', tr', map_option snd (Resolve_dynamic (sr_base w) ctx c))
    \<and> sr_base w' = sr_base w \<and> sr_options w' = sr_options w \<and> resolver_ok w' \<and> sr_metrics w' = sr_metrics w
    \<and> (\<forall>calls r. Resolve_dynamic (sr_base w) ctx c = Some (calls, r) \<longrightarrow> base_calls w' = base_calls w @ calls)
    \<and> (if mach w = None then mach w' = None else mach w' \<noteq> None \<and> GetCurrentState w' = DCRApplyingRules)"
proof -
  have "\<exists>w1. (case sr_stateMachine w of None \<Rightarrow> (w, None) | Some sm \<Rightarrow> dcr_call en BeginRuleApplication sm w) = (w1, None)
    \<and> frame w w1 \<and> resolver_ok w1 \<and> sr_metrics w1 = sr_metrics w
    \<and> (if mach w = None then mach w1 = None else mach w1 \<noteq> None \<and> GetCurrentState w1 = DCRApplyingRules)"
  proof (cases "sr_stateMachine w")
    case None
    then show ?thesis using assms(1) by (simp add: mach_def)
  next
    case (Some sm)
    then have "GetCurrentState w = DCRAnalyzing" using assms(2) by (simp add: mach_def)
    then obtain w1 where w1: "dcr_call en BeginRuleApplication sm w = (w1, None)" "GetCurrentState w1 = DCRApplyingRules" "resolver_ok w1"
      using dcr_call_cases(1) [OF moves_intros(1) Some assms(1), of en] by (auto simp: dcr_allowed_iff)
    then show ?thesis using Some dcr_call_frame [OF w1(1)] by (simp add: mach_def frame_def)
  qed
  then obtain w1 where w1: "(case sr_stateMachine w of None \<Rightarrow> (w, None) | Some sm \<Rightarrow> dcr_call en BeginRuleApplication sm w) = (w1, None)"
    "frame w w1" "resolver_ok w1" "sr_metrics w1 = sr_metrics w"
    "if mach w = None then mach w1 = None else mach w1 \<noteq> None \<and> GetCurrentState w1 = DCRApplyingRules" by blast
  obtain w' tr' res where e: "evaluate_rules en (dr_rules (sr_base w1)) ctx c wk (checkpoint en ''rules_started'' tr w1) (sv_tick w1) = (w', tr', res)"
    by (cases "evaluate_rules en (dr_rules (sr_base w1)) ctx c wk (checkpoint en ''rules_started'' tr w1) (sv_tick w1)")
  have "agrees (sv_tick w1) (Resolve_dynamic (sr_base w) ctx c) (w', tr', res)"
    using evaluate_rules_agrees [of "sv_tick w1" "dr_rules (sr_base w1)" ctx c en wk "checkpoint en ''rules_started'' tr w1"] e w1(2)
    by (simp add: Resolve_dynamic_def frame_def)
  moreover have "resolveWithTracking en ctx c wk tr w = (w', tr', res)" using w1(1) e by (simp add: resolveWithTracking_def)
  ultimately show ?thesis using w1(2-5) by (auto simp: agrees_def frame_def resolver_ok_def GetCurrentState_mach)
qed

lemma finish_machine_state:
  assumes "resolver_ok w" and "mach w \<noteq> None \<longrightarrow> GetCurrentState w = DCRApplyingRules"
  shows "frame w (finish_machine en res w)" "resolver_ok (finish_machine en res w)" "sr_metrics (finish_machine en res w) = sr_metrics w"
    "mach (finish_machine en res w) = None \<longleftrightarrow> mach w = None"
    "mach w \<noteq> None \<Longrightarrow> dcr_allowed (GetCurrentState (finish_machine en res w)) DCRIdle"
proof -
  define f where "f = (case res of Inl _ \<Rightarrow> FailResolution
     | Inr x \<Rightarrow> if Decision x = ''manual_review'' then RequireManualReview
              else if Decision x = ''escalated'' then EscalateConflict else CompleteResolution_dcr)"
  have "\<exists>to \<in> {DCRFailed, DCRManualReview, DCREscalated, DCRResolved}. moves f to"
    using moves_intros by (auto simp: f_def split: sum.split)
  then obtain to where to: "moves f to" "dcr_allowed DCRApplyingRules to" "dcr_allowed to DCRIdle" by (auto simp: dcr_allowed_iff)
  have "frame w (finish_machine en res w) \<and> resolver_ok (finish_machine en res w) \<and> sr_metrics (finish_machine en res w) = sr_metrics w
    \<and> (mach (finish_machine en res w) = None \<longleftrightarrow> mach w = None)
    \<and> (mach w \<noteq> None \<longrightarrow> dcr_allowed (GetCurrentState (finish_machine en res w)) DCRIdle)"
  proof (cases "sr_stateMachine w")
    case None
    then show ?thesis using assms(1) by (simp add: finish_machine_def mach_def)
  next
    case (Some sm)
    then have "GetCurrentState w = DCRApplyingRules" using assms(2) by (simp add: mach_def)
    then obtain w' where w': "dcr_call en f sm w = (w', None)" "GetCurrentState w' = to" "resolver_ok w'"
      using dcr_call_cases(1) [OF to(1) Some assms(1), of en] to(2) by auto
    have "finish_machine en res w = w'" using Some w'(1) by (simp add: finish_machine_def f_def)
    then show ?thesis using Some w' to(3) dcr_call_frame [OF w'(1)] by (simp add: mach_def frame_def)
  qed
  then show "frame w (finish_machine en res w)" "resolver_ok (finish_machine en res w)" "sr_metrics (finish_machine en res w) = sr_metrics w"
    "mach (finish_machine en res w) = None \<longleftrightarrow> mach w = None"
    "mach w \<noteq> None \<Longrightarrow> dcr_allowed (GetCurrentState (finish_machine en res w)) DCRIdle"
    by blast+
qed

lemma finish_workflow_frame [simp]: "frame w (finish_workflow en wk res w)" "mach (finish_workflow en wk res w) = mach w"
  "sr_metrics (finish_workflow en wk res w) = sr_metrics w"
  by (auto simp: finish_workflow_def frame_def Let_def split: option.splits sum.splits prod.splits)

lemma update_metrics_frame [simp]: "frame w (update_metrics en tr res w)" "mach (update_metrics en tr res w) = mach w"
  by (auto simp: update_metrics_def updatePerformanceMetrics_def frame_def Let_def split: option.splits)

lemma reset_machine_state:
  assumes "resolver_ok w" and "mach w \<noteq> None \<longrightarrow> dcr_allowed (GetCurrentState w) DCRIdle"
  shows "frame w (reset_machine en w)" "resolver_ok (reset_machine en w)" "GetCurrentState (reset_machine en w) = DCRIdle"
    "mach (reset_machine en w) = None \<longleftrightarrow> mach w = None"
proof -
  have "frame w (reset_machine en w) \<and> resolver_ok (reset_machine en w) \<and> GetCurrentState (reset_machine en w) = DCRIdle
    \<and> (mach (reset_machine en w) = None \<longleftrightarrow> mach w = None)"
  proof (cases "sr_stateMachine w")
    case None
    then show ?thesis using assms(1) by (simp add: reset_machine_def mach_def GetCurrentState_def)
  next
    case (Some sm)
    then obtain w' where w': "dcr_call en Reset_dcr sm w = (w', None)" "GetCurrentState w' = DCRIdle" "resolver_ok w'"
      using dcr_call_cases(1) [OF moves_intros(6) Some assms(1), of en] assms(2) by (auto simp: mach_def)
    then show ?thesis using Some dcr_call_frame [OF w'(1)] by (simp add: reset_machine_def mach_def frame_def)
  qed
  then show "frame w (reset_machine en w)" "resolver_ok (reset_machine en w)" "GetCurrentState (reset_machine en w) = DCRIdle"
    "mach (reset_machine en w) = None \<longleftrightarrow> mach w = None"
    by blast+
qed

lemma resolver_ok_mach: "mach w' = mach w \<Longrightarrow> resolver_ok w' = resolver_ok w" "mach w' = mach w \<Longrightarrow> GetCurrentState w' = GetCurrentState w"
  by (simp_all add: resolver_ok_def GetCurrentState_mach)

lemma Resolve_stateful_idle:
  assumes "resolver_ok w" and "GetCurrentState w = DCRIdle" and "comparable c"
  shows "\<exists>w'. Resolve_stateful en ctx c w = (w', map_option snd (Resolve_dynamic (sr_base w) ctx c))
    \<and> sr_base w' = sr_base w \<and> sr_options w' = sr_options w \<and> resolver_ok w' \<and> (mach w' = None \<longleftrightarrow> mach w = None)
    \<and> (case Resolve_dynamic (sr_base w) ctx c of
         Some (calls, r) \<Rightarrow> base_calls w' = base_calls w @ calls \<and> GetCurrentState w' = DCRIdle
       | None \<Rightarrow> mach w \<noteq> None \<longrightarrow> GetCurrentState w' = DCRApplyingRules)"
proof -
  obtain w1 tr1 where w1: "start_tracker en w = (w1, tr1)" by (cases "start_tracker en w")
  note f1 = start_tracker_frame [OF w1]
  obtain w2 wk where w2: "start_workflow en c w1 = (w2, wk)" by (cases "start_workflow en c w1")
  note f2 = start_workflow_frame [OF w2]
  have r2: "resolver_ok w2" "GetCurrentState w2 = DCRIdle" "frame w w2" "mach w2 = mach w"
    using assms(1,2) f1 f2 by (simp_all add: resolver_ok_def GetCurrentState_mach frame_def)
  have "\<exists>w3 tr3. start_machine en c wk tr1 w2 = (w3, None, tr3) \<and> frame w2 w3 \<and> sr_metrics w3 = sr_metrics w2 \<and> resolver_ok w3
    \<and> (if mach w2 = None then mach w3 = None else mach w3 \<noteq> None \<and> GetCurrentState w3 = DCRAnalyzing)"
    by (rule start_machine_idle [OF r2(1,2)]) (use f2(7) assms(3) in fastforce)
  then obtain w3 tr3 where w3: "start_machine en c wk tr1 w2 = (w3, None, tr3)" "frame w2 w3" "resolver_ok w3"
    "if mach w2 = None then mach w3 = None else mach w3 \<noteq> None \<and> GetCurrentState w3 = DCRAnalyzing" by blast
  have fr3: "frame w w3" using r2(3) w3(2) by (rule frame_trans)
  have "mach w3 \<noteq> None \<longrightarrow> GetCurrentState w3 = DCRAnalyzing" using w3(4) by (auto split: if_splits)
  from resolveWithTracking_agrees [OF w3(3) this, of en ctx c wk tr3]
  obtain w4 tr4 where w4: "resolveWithTracking en ctx c wk tr3 w3 = (w4, tr4, map_option snd (Resolve_dynamic (sr_base w3) ctx c))"
    "sr_base w4 = sr_base w3" "sr_options w4 = sr_options w3" "resolver_ok w4"
    "\<forall>calls r. Resolve_dynamic (sr_base w3) ctx c = Some (calls, r) \<longrightarrow> base_calls w4 = base_calls w3 @ calls"
    "if mach w3 = None then mach w4 = None else mach w4 \<noteq> None \<and> GetCurrentState w4 = DCRApplyingRules" by blast
  have m4: "mach w4 = None \<longleftrightarrow> mach w = None" using w4(6) w3(4) r2(4) by (auto split: if_splits)
  have a4: "mach w4 \<noteq> None \<longrightarrow> GetCurrentState w4 = DCRApplyingRules" using w4(6) by (auto split: if_splits)
  have b: "sr_base w3 = sr_base w" using fr3 by (simp add: frame_def)
  show ?thesis
  proof (cases "Resolve_dynamic (sr_base w) ctx c")
    case None
    then have "Resolve_stateful en ctx c w = (w4, None)" using w1 w2 w3(1) w4(1) b by (simp add: Resolve_stateful_def)
    then show ?thesis using None w4(2-4) m4 a4 fr3 by (simp add: frame_def)
  next
    case (Some x)
    then obtain calls r where x: "Resolve_dynamic (sr_base w) ctx c = Some (calls, r)" by (cases x) auto
    let ?w5 = "finish_machine en r w4"
    let ?w6 = "finish_workflow en wk r ?w5"
    let ?w7 = "update_metrics en tr4 r ?w6"
    note f5 = finish_machine_state [OF w4(4) a4, where en = en and res = r]
    have m7: "mach ?w7 = mach ?w5" by simp
    have "resolver_ok ?w7" "mach ?w7 \<noteq> None \<longrightarrow> dcr_allowed (GetCurrentState ?w7) DCRIdle"
      using f5 resolver_ok_mach [OF m7] m7 by auto
    note f8 = reset_machine_state [OF this, where en = en]
    have fr: "frame w4 (reset_machine en ?w7)" using f5(1) f8(1) frame_trans finish_workflow_frame(1) update_metrics_frame(1) by meson
    have "Resolve_stateful en ctx c w = (reset_machine en ?w7, Some r)" using w1 w2 w3(1) w4(1) b x by (simp add: Resolve_stateful_def)
    then show ?thesis using x fr f8(2-4) m7 m4 f5(4) w4(2,3,5) b fr3 by (simp add: frame_def)
  qed
qed

section \<open>Properties\<close>

fun resolve_run ::
  "resolver_env \<Rightarrow> (go_error option \<times> conflict) list \<Rightarrow> stateful_resolver
     \<Rightarrow> stateful_resolver \<times> (go_error + resolved_conflict) option list" where
  "resolve_run en [] w = (w, [])"
| "resolve_run en ((ctx, c) # cs) w =
     (case Resolve_stateful en ctx c w of (w1, r) \<Rightarrow> case resolve_run en cs w1 of (w2, rs) \<Rightarrow> (w2, r # rs))"

definition dynamic_calls :: "dynamic_resolver \<Rightarrow> (go_error option \<times> conflict) list \<Rightarrow> hook_call list" where
  "dynamic_calls d cs = concat (map (\<lambda>(ctx, c). case Resolve_dynamic d ctx c of None \<Rightarrow> [] | Some (calls, _) \<Rightarrow> calls) cs)"

lemma resolve_run_idle:
  assumes "resolver_ok w" and "GetCurrentState w = DCRIdle"
    and "\<forall>(ctx, c) \<in> set cs. comparable c \<and> Resolve_dynamic (sr_base w) ctx c \<noteq> None"
  shows "\<exists>w'. resolve_run en cs w = (w', map (\<lambda>(ctx, c). map_option snd (Resolve_dynamic (sr_base w) ctx c)) cs)
    \<and> resolver_ok w' \<and> GetCurrentState w' = DCRIdle \<and> base_calls w' = base_calls w @ dynamic_calls (sr_base w) cs"
  using assms
proof (induction cs arbitrary: w)
  case (Cons x cs)
  obtain ctx c where x: "x = (ctx, c)" by (cases x)
  then obtain calls r where d: "Resolve_dynamic (sr_base w) ctx c = Some (calls, r)" "comparable c" using Cons.prems(3) by auto
  obtain w1 where w1: "Resolve_stateful en ctx c w = (w1, Some r)" "sr_base w1 = sr_base w" "resolver_ok w1" "GetCurrentState w1 = DCRIdle"
    "base_calls w1 = base_calls w @ calls"
    using Resolve_stateful_idle [OF Cons.prems(1,2) d(2), of en ctx] d(1) by auto
  have "\<exists>w'. resolve_run en cs w1 = (w', map (\<lambda>(ctx, c). map_option snd (Resolve_dynamic (sr_base w1) ctx c)) cs)
    \<and> resolver_ok w' \<and> GetCurrentState w' = DCRIdle \<and> base_calls w' = base_calls w1 @ dynamic_calls (sr_base w1) cs"
    by (rule Cons.IH) (use w1 Cons.prems(3) in auto)
  then show ?case using x w1 d(1) by (auto simp: dynamic_calls_def)
qed (simp add: dynamic_calls_def)

lemma NewStatefulDynamicResolver_ok:
  assumes "NewStatefulDynamicResolver en (Some base) opts = Some (Inr w)"
  shows "resolver_ok w" "GetCurrentState w = DCRIdle" "sr_base w = base" "base_calls w = []"
proof -
  have "sr_base w = base \<and> base_calls w = [] \<and> (\<forall>m. mach w = Some m \<longrightarrow> fixed_rules dcr_rules m \<and> m_state m = DCRIdle)"
    using assms
    by (auto simp: NewStatefulDynamicResolver_def NewConflictResolutionStateMachine_def New_def dcr_rules_def Let_def
        SubscribeToStateChanges_resolver_def Subscribe_dcr_def Subscribe_def mach_def fixed_rules_def base_calls_def
        split: if_splits option.splits)
  then show "resolver_ok w" "GetCurrentState w = DCRIdle" "sr_base w = base" "base_calls w = []"
    by (auto simp: resolver_ok_def GetCurrentState_mach split: option.splits)
qed

text \<open>
  State machine, workflow tracking and metrics do not change what the dynamic resolver decides: a new stateful resolver,
  whatever its options are, returns for each of a sequence of conflicts the result or error of the base resolver and calls the
  same hooks in the same order, and after each call its state machine is idle again, as long as no matcher or resolver
  panics and the versions of the conflicts can be compared.
\<close>

theorem stateful_equals_dynamic:
  assumes "NewStatefulDynamicResolver en (Some base) opts = Some (Inr w)"
    and "\<forall>(ctx, c) \<in> set cs. comparable c \<and> Resolve_dynamic base ctx c \<noteq> None"
  shows "\<exists>w'. resolve_run en cs w = (w', map (\<lambda>(ctx, c). map_option snd (Resolve_dynamic base ctx c)) cs)
    \<and> base_calls w' = dynamic_calls base cs \<and> GetCurrentState w' = DCRIdle"
  using resolve_run_idle [of w cs en] NewStatefulDynamicResolver_ok [OF assms(1)] assms(2) by auto

lemma Resolve_stateful_busy:
  assumes "resolver_ok w" and "mach w \<noteq> None" and "GetCurrentState w \<noteq> DCRIdle"
  shows "\<exists>w' e. Resolve_stateful en ctx c w = (w', Some (Inl e)) \<and> mach w' = mach w \<and> base_calls w' = base_calls w \<and> sr_metrics w' = sr_metrics w
    \<and> (\<forall>wm. sr_workflowManager w = Some wm \<and> so_EnableWorkflowTracking (sr_options w) \<longrightarrow>
         (\<exists>wm' id. sr_workflowManager w' = Some wm' \<and> GetWorkflow wm' id = Some (length (wm_heap wm))))"
proof -
  obtain w1 tr1 where w1: "start_tracker en w = (w1, tr1)" by (cases "start_tracker en w")
  note f1 = start_tracker_frame [OF w1]
  obtain w2 wk where w2: "start_workflow en c w1 = (w2, wk)" by (cases "start_workflow en c w1")
  note f2 = start_workflow_frame [OF w2]
  have wm: "\<exists>wm' id. sr_workflowManager w2 = Some wm' \<and> GetWorkflow wm' id = Some (length (wm_heap wm))"
    if "sr_workflowManager w = Some wm" "so_EnableWorkflowTracking (sr_options w)" for wm
    using w2 that f1 by (auto simp: start_workflow_def StartWorkflow_def GetWorkflow_def Let_def)
  obtain sm where sm: "sr_stateMachine w2 = Some sm" using assms(2) f1 f2 by (auto simp: mach_def)
  let ?w = "sv_tick w2"
  let ?f = "\<lambda>now tid sm. StartResolution now tid (sv_time en (sv_tick ?w)) sm (generateConflictID_synckit en (sv_time en w2) c)"
  have s: "sr_stateMachine ?w = Some sm" "resolver_ok ?w" "GetCurrentState ?w = GetCurrentState w"
    using sm assms(1) f1 f2 by (simp_all add: resolver_ok_def GetCurrentState_mach)
  have "\<not> dcr_allowed (GetCurrentState w) DCRAnalyzing" using assms(3) by (auto simp: dcr_allowed_iff split: dcr_state.splits)
  then obtain w3 e where w3: "dcr_call en ?f sm ?w = (w3, Some e)" "mach w3 = mach w"
    using dcr_call_cases(2) [of ?f DCRAnalyzing ?w sm en] moves_intros(7) s f1 f2 by auto
  have "start_machine en c wk tr1 w2 = (w3, Some (Some e), tr1)" using sm w3(1) by (simp add: start_machine_def Let_def)
  then have "Resolve_stateful en ctx c w = (w3, Some (Inl e))" using w1 w2 by (simp add: Resolve_stateful_def)
  then show ?thesis using w3(2) dcr_call_frame [OF w3(1)] f1 f2 wm by auto
qed

text \<open>
  A panic of a matcher or resolver, recovered by the caller, leaves the state machine of the resolver in ApplyingRules,
  since the reset is only registered after the resolution returned. From then on every call returns an error without
  consulting a rule, leaves the state as it is, and leaves the workflow that it started in the list of active workflows.
\<close>

theorem panic_blocks_resolver:
  assumes "resolver_ok w" and "GetCurrentState w = DCRIdle" and "mach w \<noteq> None" and "comparable c"
    and "Resolve_dynamic (sr_base w) ctx c = None"
  shows "\<exists>w1. Resolve_stateful en ctx c w = (w1, None) \<and> GetCurrentState w1 = DCRApplyingRules
    \<and> (\<forall>ctx' c'. \<exists>w2 e. Resolve_stateful en ctx' c' w1 = (w2, Some (Inl e)) \<and> GetCurrentState w2 = DCRApplyingRules
         \<and> base_calls w2 = base_calls w1
         \<and> (\<forall>wm. sr_workflowManager w1 = Some wm \<and> so_EnableWorkflowTracking (sr_options w1) \<longrightarrow>
              (\<exists>wm' id. sr_workflowManager w2 = Some wm' \<and> GetWorkflow wm' id = Some (length (wm_heap wm)))))"
proof -
  obtain w1 where w1: "Resolve_stateful en ctx c w = (w1, None)" "resolver_ok w1" "mach w1 \<noteq> None" "GetCurrentState w1 = DCRApplyingRules"
    using Resolve_stateful_idle [OF assms(1,2,4), of en ctx] assms(3,5) by auto
  have "\<exists>w2 e. Resolve_stateful en ctx' c' w1 = (w2, Some (Inl e)) \<and> GetCurrentState w2 = DCRApplyingRules
         \<and> base_calls w2 = base_calls w1
         \<and> (\<forall>wm. sr_workflowManager w1 = Some wm \<and> so_EnableWorkflowTracking (sr_options w1) \<longrightarrow>
              (\<exists>wm' id. sr_workflowManager w2 = Some wm' \<and> GetWorkflow wm' id = Some (length (wm_heap wm))))" for ctx' c'
  proof -
    have "GetCurrentState w1 \<noteq> DCRIdle" using w1(4) by simp
    from Resolve_stateful_busy [OF w1(2,3) this, of en ctx' c'] obtain w2 e where
      w2: "Resolve_stateful en ctx' c' w1 = (w2, Some (Inl e))" "mach w2 = mach w1" "base_calls w2 = base_calls w1"
      "\<forall>wm. sr_workflowManager w1 = Some wm \<and> so_EnableWorkflowTracking (sr_options w1) \<longrightarrow>
         (\<exists>wm' id. sr_workflowManager w2 = Some wm' \<and> GetWorkflow wm' id = Some (length (wm_heap wm)))" by blast
    have "GetCurrentState w2 = DCRApplyingRules" using resolver_ok_mach(2) [OF w2(2)] w1(4) by simp
    with w2 show ?thesis by blast
  qed
  with w1(1,4) show ?thesis by blast
qed

text \<open>Recording a sequence of resolutions: duration, outcome, and the two rule counters of each.\<close>

type_synonym recorded = "i64 \<times> (go_error + resolved_conflict) \<times> i64 \<times> i64"

definition record_all :: "recorded list \<Rightarrow> resolver_metrics \<Rightarrow> resolver_metrics" where
  "record_all rs m = foldl (\<lambda>m (d, res, e, k). record_resolution d res e k m) m rs"

definition durations :: "recorded list \<Rightarrow> int list" where
  "durations rs = map (\<lambda>(d, _). sint d) rs"

lemma record_resolution_fields:
  "rm_TotalConflictsResolved (record_resolution d res e k m) = rm_TotalConflictsResolved m + 1"
  "rm_TotalResolutionTime (record_resolution d res e k m) = rm_TotalResolutionTime m + d"
  "rm_FastestResolutionTime (record_resolution d res e k m)
     = (if rm_FastestResolutionTime m = 0 \<or> sint d < sint (rm_FastestResolutionTime m) then d else rm_FastestResolutionTime m)"
  "rm_SlowestResolutionTime (record_resolution d res e k m)
     = (if sint d > sint (rm_SlowestResolutionTime m) then d else rm_SlowestResolutionTime m)"
  "0 < sint (rm_TotalConflictsResolved m + 1) \<Longrightarrow> rm_AverageResolutionTime (record_resolution d res e k m)
     = i64_quot (rm_TotalResolutionTime m + d) (rm_TotalConflictsResolved m + 1)"
  by (auto simp: record_resolution_def count_outcome_def Let_def split: sum.splits)

lemma record_resolution_outcomes:
  "rm_AutoResolvedCount (record_resolution d res e k m) + rm_ManualReviewCount (record_resolution d res e k m)
     + rm_EscalatedCount (record_resolution d res e k m) + rm_FailedCount (record_resolution d res e k m)
   = rm_AutoResolvedCount m + rm_ManualReviewCount m + rm_EscalatedCount m + rm_FailedCount m + 1"
  by (auto simp: record_resolution_def count_outcome_def Let_def split: sum.splits)

lemma record_all_snoc: "record_all (rs @ [(d, res, e, k)]) m = record_resolution d res e k (record_all rs m)"
  by (simp add: record_all_def)

definition outcomes :: "resolver_metrics \<Rightarrow> i64" where
  "outcomes m = rm_AutoResolvedCount m + rm_ManualReviewCount m + rm_EscalatedCount m + rm_FailedCount m"

lemma record_all_sums:
  assumes "\<forall>d \<in> set (durations rs). 0 < d" and "sum_list (durations rs) < 2 ^ 63" and "length rs < 2 ^ 63"
  shows "sint (rm_TotalConflictsResolved (record_all rs (zero_metrics a b))) = int (length rs)
    \<and> sint (rm_TotalResolutionTime (record_all rs (zero_metrics a b))) = sum_list (durations rs)
    \<and> rm_TotalConflictsResolved (record_all rs (zero_metrics a b)) = outcomes (record_all rs (zero_metrics a b))"
  using assms
proof (induction rs rule: rev_induct)
  case Nil
  then show ?case by (simp add: record_all_def zero_metrics_def durations_def outcomes_def)
next
  case (snoc x rs)
  obtain d res e k where x: "x = (d, res, e, k)" by (cases x)
  let ?m = "record_all rs (zero_metrics a b)"
  have "\<forall>y \<in> set (durations rs). 0 \<le> y" using snoc.prems(1) by (auto simp: durations_def)
  then have "0 \<le> sum_list (durations rs)" by (intro sum_list_nonneg) blast
  with snoc.prems x have pos: "0 < sint d" "0 \<le> sum_list (durations rs)" and sum: "sum_list (durations rs) + sint d < 2 ^ 63"
    by (auto simp: durations_def)
  then have IH: "sint (rm_TotalConflictsResolved ?m) = int (length rs)" "sint (rm_TotalResolutionTime ?m) = sum_list (durations rs)"
    "rm_TotalConflictsResolved ?m = outcomes ?m"
    using snoc x by (auto simp: durations_def)
  have "sint (rm_TotalResolutionTime ?m + d) = sum_list (durations rs) + sint d"
    using sint_add_i64 [of "rm_TotalResolutionTime ?m" d] IH(2) pos sum by simp
  moreover have "sint (rm_TotalConflictsResolved ?m + 1) = int (length rs) + 1"
    using sint_add_i64 [of "rm_TotalConflictsResolved ?m" 1] IH(1) snoc.prems(3) by simp
  moreover have "rm_TotalConflictsResolved ?m + 1 = outcomes (record_resolution d res e k ?m)"
    using IH(3) record_resolution_outcomes [of d res e k ?m] by (simp add: outcomes_def)
  ultimately show ?case
    by (simp add: x record_all_snoc record_resolution_fields durations_def)
qed

lemma record_all_extremes:
  assumes "\<forall>d \<in> set (durations rs). 0 < d"
  shows "(rs = [] \<longrightarrow> rm_FastestResolutionTime (record_all rs (zero_metrics a b)) = 0 \<and> rm_SlowestResolutionTime (record_all rs (zero_metrics a b)) = 0)
    \<and> (rs \<noteq> [] \<longrightarrow> sint (rm_FastestResolutionTime (record_all rs (zero_metrics a b))) = Min (set (durations rs))
         \<and> sint (rm_SlowestResolutionTime (record_all rs (zero_metrics a b))) = Max (set (durations rs)))"
  using assms
proof (induction rs rule: rev_induct)
  case Nil
  then show ?case by (simp add: record_all_def zero_metrics_def)
next
  case (snoc x rs)
  obtain d res e k where x: "x = (d, res, e, k)" by (cases x)
  let ?m = "record_all rs (zero_metrics a b)"
  have pos: "0 < sint d" "\<forall>d \<in> set (durations rs). 0 < d" using snoc.prems x by (auto simp: durations_def)
  show ?case
  proof (cases "rs = []")
    case True
    then show ?thesis using snoc.IH [OF pos(2)] pos(1)
      by (simp add: x record_all_def record_resolution_fields zero_metrics_def durations_def)
  next
    case False
    then have ne: "durations rs \<noteq> []" by (simp add: durations_def)
    with snoc.IH [OF pos(2)] False have f: "sint (rm_FastestResolutionTime ?m) = Min (set (durations rs))"
      "sint (rm_SlowestResolutionTime ?m) = Max (set (durations rs))" by auto
    have "Min (set (durations rs)) \<in> set (durations rs)" using ne by simp
    then have "rm_FastestResolutionTime ?m \<noteq> 0" using f(1) pos(2) by (metis less_irrefl signed_0)
    then have "sint (rm_FastestResolutionTime (record_resolution d res e k ?m)) = min (sint d) (Min (set (durations rs)))"
      "sint (rm_SlowestResolutionTime (record_resolution d res e k ?m)) = max (sint d) (Max (set (durations rs)))"
      using f by (auto simp: record_resolution_fields min_def max_def simp del: Min_less_iff Min_gr_iff Max_less_iff Max_gr_iff Min_le_iff Min_ge_iff Max_ge_iff Max_le_iff)
    moreover have "set (durations (rs @ [x])) = insert (sint d) (set (durations rs))" by (simp add: durations_def x)
    ultimately show ?thesis using ne by (simp add: x record_all_snoc)
  qed
qed

lemma mean_between:
  fixes xs :: "int list"
  assumes "xs \<noteq> []"
  shows "Min (set xs) \<le> sum_list xs div int (length xs) \<and> sum_list xs div int (length xs) \<le> Max (set xs)"
proof -
  have l: "0 < int (length xs)" using assms by simp
  have "int (length xs) * Min (set xs) \<le> sum_list xs"
    using sum_list_mono [of xs "\<lambda>_. Min (set xs)" "\<lambda>x. x"] by (simp add: sum_list_triv)
  then have "Min (set xs) \<le> sum_list xs div int (length xs)" using l by (simp add: zdiv_mono1 [of "int (length xs) * Min (set xs)" _ "int (length xs)", simplified] mult.commute)
  moreover have "sum_list xs \<le> int (length xs) * Max (set xs)"
    using sum_list_mono [of xs "\<lambda>x. x" "\<lambda>_. Max (set xs)"] by (simp add: sum_list_triv)
  then have "sum_list xs div int (length xs) \<le> int (length xs) * Max (set xs) div int (length xs)" using l by (intro zdiv_mono1) auto
  ultimately show ?thesis using l by simp
qed

text \<open>
  After any sequence of resolutions that each took some time, without overflow of the total, the performance metrics of the
  resolver hold the number of resolutions, which is the sum of the four outcome counters, and the shortest and the longest
  duration, and the average lies between these two.
\<close>

theorem metrics_bounds:
  assumes "rs \<noteq> []" and "\<forall>d \<in> set (durations rs). 0 < d" and "sum_list (durations rs) < 2 ^ 63" and "length rs < 2 ^ 63"
    and "m = record_all rs (zero_metrics a b)"
  shows "sint (rm_TotalConflictsResolved m) = int (length rs) \<and> rm_TotalConflictsResolved m = outcomes m
    \<and> sint (rm_FastestResolutionTime m) = Min (set (durations rs)) \<and> sint (rm_SlowestResolutionTime m) = Max (set (durations rs))
    \<and> sint (rm_FastestResolutionTime m) \<le> sint (rm_AverageResolutionTime m)
    \<and> sint (rm_AverageResolutionTime m) \<le> sint (rm_SlowestResolutionTime m)"
proof -
  note s = record_all_sums [OF assms(2-4), of a b, folded assms(5)]
  note x = record_all_extremes [OF assms(2), of a b, folded assms(5)]
  obtain rs0 d res e k where rs: "rs = rs0 @ [(d, res, e, k)]" using assms(1) by (metis append_butlast_last_id surj_pair)
  let ?m0 = "record_all rs0 (zero_metrics a b)"
  have m: "m = record_resolution d res e k ?m0" using assms(5) by (simp add: rs record_all_snoc)
  have "0 \<le> sum_list (durations rs)" using assms(2) by (intro sum_list_nonneg) (auto intro: less_imp_le)
  moreover have n: "sint (rm_TotalConflictsResolved m) = int (length rs)" and t: "sint (rm_TotalResolutionTime m) = sum_list (durations rs)"
    using s by blast+
  ultimately have pos: "0 < sint (rm_TotalConflictsResolved m)" "0 \<le> sint (rm_TotalResolutionTime m)" using assms(1) by simp_all
  have "rm_AverageResolutionTime m = i64_quot (rm_TotalResolutionTime m) (rm_TotalConflictsResolved m)"
    using record_resolution_fields(5) [of ?m0 d res e k] pos(1) by (simp add: m record_resolution_fields(1,2))
  then have "sint (rm_AverageResolutionTime m) = sum_list (durations rs) div int (length (durations rs))"
    using i64_quot_nonneg [OF pos(2,1)] n t by (simp add: durations_def)
  moreover have "durations rs \<noteq> []" using assms(1) by (simp add: durations_def)
  ultimately show ?thesis using mean_between [of "durations rs"] s x assms(1) by metis
qed

theorem metrics_bounds_witness:
  "let m = record_all [(4, Inl Canceled, 0, 0), (10, Inl Canceled, 0, 0)] (zero_metrics 0 0)
   in sint (rm_FastestResolutionTime m) = 4 \<and> sint (rm_SlowestResolutionTime m) = 10 \<and> rm_TotalConflictsResolved m = outcomes m"
proof -
  let ?rs = "[(4, Inl Canceled, 0, 0), (10, Inl Canceled, 0, 0)] :: recorded list"
  have d: "durations ?rs = [4, 10]" by (simp add: durations_def)
  show ?thesis unfolding Let_def
    using metrics_bounds [of ?rs "record_all ?rs (zero_metrics 0 0)" 0 0] by (simp add: d)
qed

text \<open>A resolution that took no measurable time is forgotten as the fastest one by the next.\<close>

lemma fastest_forgets_zero:
  "let m = record_all [(0, r1, 0, 0), (5, r2, 0, 0)] (zero_metrics a b)
   in rm_FastestResolutionTime m = 5 \<and> rm_AverageResolutionTime m = 2"
  by (simp add: record_all_def record_resolution_fields zero_metrics_def i64_quot_def)

section \<open>Witnesses\<close>

definition plain_env :: resolver_env where
  "plain_env = \<lparr>sv_now = int, sv_id = (\<lambda>_. []), sv_rfc3339nano = (\<lambda>_. [])\<rparr>"

definition fallback_only :: "resolver \<Rightarrow> dynamic_resolver" where
  "fallback_only f = \<lparr>dr_rules = [], dr_fallback = Some f, dr_logger = GNil, dr_hooks = no_hooks\<rparr>"

lemma new_default: "\<exists>w. NewStatefulDynamicResolver en (Some base) None = Some (Inr w) \<and> mach w \<noteq> None"
  by (simp add: NewStatefulDynamicResolver_def NewConflictResolutionStateMachine_def New_def dcr_rules_def Let_def
      DefaultStatefulResolverOptions_def mach_def)

lemma sample_conflict_comparable: "comparable sample_conflict"
  by (simp add: comparable_def sample_conflict_def iface_Compare_def)

lemma AdditiveMerge_total: "\<exists>x. AdditiveMerge ctx c = Some (Inr x)"
  by (simp add: AdditiveMerge_def decide_def)

theorem stateful_equals_dynamic_witness:
  "\<exists>w w' x. NewStatefulDynamicResolver plain_env (Some (fallback_only AdditiveMerge)) None = Some (Inr w)
    \<and> resolve_run plain_env [(None, sample_conflict), (None, sample_conflict)] w = (w', [Some (Inr x), Some (Inr x)])
    \<and> GetCurrentState w' = DCRIdle"
proof -
  obtain w where w: "NewStatefulDynamicResolver plain_env (Some (fallback_only AdditiveMerge)) None = Some (Inr w)"
    using new_default by blast
  obtain x where x: "AdditiveMerge None sample_conflict = Some (Inr x)" using AdditiveMerge_total by blast
  then have "Resolve_dynamic (fallback_only AdditiveMerge) None sample_conflict = Some ([], Inr x)"
    by (simp add: Resolve_dynamic_def fallback_only_def run_resolver_def no_hooks_def)
  with stateful_equals_dynamic [OF w, of "[(None, sample_conflict), (None, sample_conflict)]"] sample_conflict_comparable w
  show ?thesis by fastforce
qed

theorem panic_blocks_resolver_witness:
  "\<exists>w w1. resolver_ok w \<and> Resolve_stateful plain_env None sample_conflict w = (w1, None)
    \<and> (\<exists>w2 e. Resolve_stateful plain_env None sample_conflict w1 = (w2, Some (Inl e)))"
proof -
  obtain w where w: "NewStatefulDynamicResolver plain_env (Some (fallback_only (\<lambda>_ _. None))) None = Some (Inr w)" "mach w \<noteq> None"
    using new_default by blast
  note ok = NewStatefulDynamicResolver_ok [OF w(1)]
  have "Resolve_dynamic (sr_base w) None sample_conflict = None"
    by (simp add: ok(3) Resolve_dynamic_def fallback_only_def run_resolver_def)
  from panic_blocks_resolver [OF ok(1,2) w(2) sample_conflict_comparable this, of plain_env] ok(1) show ?thesis by blast
qed

end
