(* ===== verification/Timeouts.thy ===== *)
theory Timeouts
  imports State_Machine
begin

text \<open>
  Timeouts of states (synckit/statemachine/timeout.go): the handler that starts a monitoring goroutine for the current state, the
  observer that restarts it on transitions, the actions on a timeout, and the timeout metrics. A monitor waits for its timer or for
  its cancellation; once its timer has fired it runs the action at some later moment. Timers may fire at any time. A type
  assertion on the configured target state, or on a string, to the type of states is an argument or an optional field.
\<close>

section \<open>Handler\<close>

datatype timeout_action =
    TimeoutActionTransition | TimeoutActionFail | TimeoutActionCallback | TimeoutActionReset | TimeoutActionIgnore
  | TimeoutActionOther i64

record 's timeout_config =
  tc_DefaultTimeout :: int
  tc_EnableTimeouts :: bool
  tc_TimeoutAction :: timeout_action
  tc_TargetState :: "'s option"
  tc_MaxRetries :: int
  tc_RetryDelay :: int

definition DefaultTimeoutConfig :: "'s \<Rightarrow> 's timeout_config" where
  "DefaultTimeoutConfig failureState = \<lparr>tc_DefaultTimeout = 5 * 60 * 10 ^ 9, tc_EnableTimeouts = True,
     tc_TimeoutAction = TimeoutActionTransition, tc_TargetState = Some failureState, tc_MaxRetries = 3,
     tc_RetryDelay = 30 * 10 ^ 9\<rparr>"

text \<open>\<open>th_currentTimeout\<close> is the monitor that the stored cancel function cancels; \<open>th_onTimeout\<close> says whether there is a callback.\<close>

record 's timeout_handler =
  th_timeouts :: "('s, int) fmap"
  th_currentTimeout :: "nat option"
  th_config :: "'s timeout_config"
  th_onTimeout :: bool

datatype monitor_phase = Waiting | Fired | Finished

record 's monitor =
  mo_state :: 's
  mo_timeout :: int
  mo_cancelled :: bool
  mo_phase :: monitor_phase

record 's timeout_system =
  ts_machine :: "'s machine"
  ts_handler :: "'s timeout_handler"
  ts_monitors :: "'s monitor list"
  ts_callbacks :: "('s \<times> int) list"
  ts_pending :: "'s sm_effect list"

definition NewTimeoutHandler :: "'s timeout_config \<Rightarrow> 's timeout_handler" where
  "NewTimeoutHandler config = \<lparr>th_timeouts = fmempty, th_currentTimeout = None, th_config = config, th_onTimeout = False\<rparr>"

definition on_handler :: "('s timeout_handler \<Rightarrow> 's timeout_handler) \<Rightarrow> 's timeout_system \<Rightarrow> 's timeout_system" where
  "on_handler f w = w\<lparr>ts_handler := f (ts_handler w)\<rparr>"

definition SetTimeout :: "'s \<Rightarrow> int \<Rightarrow> 's timeout_handler \<Rightarrow> 's timeout_handler" where
  "SetTimeout s timeout th = th\<lparr>th_timeouts := fmupd s timeout (th_timeouts th)\<rparr>"

definition SetTimeouts :: "('s, int) gomap \<Rightarrow> 's timeout_handler \<Rightarrow> 's timeout_handler" where
  "SetTimeouts timeouts th = th\<lparr>th_timeouts := fmadd (th_timeouts th) (gm_fmap timeouts)\<rparr>"

definition RemoveTimeout :: "'s \<Rightarrow> 's timeout_handler \<Rightarrow> 's timeout_handler" where
  "RemoveTimeout s th = th\<lparr>th_timeouts := fmdrop s (th_timeouts th)\<rparr>"

definition OnTimeout :: "bool \<Rightarrow> 's timeout_handler \<Rightarrow> 's timeout_handler" where
  "OnTimeout callback th = th\<lparr>th_onTimeout := callback\<rparr>"

definition getTimeoutForState :: "'s timeout_handler \<Rightarrow> 's \<Rightarrow> int" where
  "getTimeoutForState th s =
     (case fmlookup (th_timeouts th) s of Some timeout \<Rightarrow> timeout | None \<Rightarrow> tc_DefaultTimeout (th_config th))"

definition StopTimeout :: "'s timeout_system \<Rightarrow> 's timeout_system" where
  "StopTimeout w =
     (case th_currentTimeout (ts_handler w) of
        None \<Rightarrow> w
      | Some i \<Rightarrow> w\<lparr>ts_monitors := (ts_monitors w)[i := (ts_monitors w ! i)\<lparr>mo_cancelled := True\<rparr>],
          ts_handler := (ts_handler w)\<lparr>th_currentTimeout := None\<rparr>\<rparr>)"

definition StartTimeout :: "'s timeout_system \<Rightarrow> 's timeout_system" where
  "StartTimeout w =
     (if \<not> tc_EnableTimeouts (th_config (ts_handler w)) then w
      else let w1 = StopTimeout w; currentState = Current (ts_machine w1);
               timeout = getTimeoutForState (ts_handler w1) currentState
        in if timeout \<le> 0 then w1
           else w1\<lparr>ts_handler := (ts_handler w1)\<lparr>th_currentTimeout := Some (length (ts_monitors w1))\<rparr>,
                   ts_monitors := ts_monitors w1 @ [\<lparr>mo_state = currentState, mo_timeout = timeout, mo_cancelled = False,
                     mo_phase = Waiting\<rparr>]\<rparr>)"

section \<open>Actions\<close>

text \<open>
  \<open>vstr\<close> prints a state, \<open>any_of\<close> is a state as an interface value, \<open>as_state\<close> the type assertion of a string to the type of states.
\<close>

definition ts_transition ::
  "('s \<Rightarrow> string) \<Rightarrow> int \<Rightarrow> string \<Rightarrow> 's timeout_system \<Rightarrow> 's \<Rightarrow> metadata \<Rightarrow> 's timeout_system" where
  "ts_transition vstr now tid w to md =
     (case TransitionWithContext vstr now tid (ts_machine w) to md of
        (m, eff, _) \<Rightarrow> w\<lparr>ts_machine := m, ts_pending := ts_pending w @ eff\<rparr>)"

definition timeout_metadata :: "('s \<Rightarrow> go_any) \<Rightarrow> 's \<Rightarrow> string \<Rightarrow> metadata" where
  "timeout_metadata any_of s reason =
     md_of [(''timeout'', GBool True), (''timeout_from'', any_of s), (''reason'', GString reason)]"

definition handleTimeoutTransition ::
  "('s \<Rightarrow> string) \<Rightarrow> ('s \<Rightarrow> go_any) \<Rightarrow> int \<Rightarrow> string \<Rightarrow> 's \<Rightarrow> 's timeout_system \<Rightarrow> 's timeout_system" where
  "handleTimeoutTransition vstr any_of now tid s w =
     (case tc_TargetState (th_config (ts_handler w)) of
        None \<Rightarrow> w
      | Some targetState \<Rightarrow> ts_transition vstr now tid w targetState (timeout_metadata any_of s ''state_timeout''))"

fun first_failure_state :: "(string \<Rightarrow> 's option) \<Rightarrow> 's machine \<Rightarrow> string list \<Rightarrow> 's option" where
  "first_failure_state as_state m [] = None"
| "first_failure_state as_state m (n # ns) =
     (case as_state n of
        Some s \<Rightarrow> if CanTransition m s then Some s else first_failure_state as_state m ns
      | None \<Rightarrow> first_failure_state as_state m ns)"

definition handleTimeoutFail ::
  "('s \<Rightarrow> string) \<Rightarrow> ('s \<Rightarrow> go_any) \<Rightarrow> (string \<Rightarrow> 's option) \<Rightarrow> int \<Rightarrow> string \<Rightarrow> 's \<Rightarrow> 's timeout_system \<Rightarrow> 's timeout_system" where
  "handleTimeoutFail vstr any_of as_state now tid s w =
     (case first_failure_state as_state (ts_machine w) [''failed'', ''error'', ''timeout'', ''stuck''] of
        None \<Rightarrow> w
      | Some typedState \<Rightarrow> ts_transition vstr now tid w typedState (timeout_metadata any_of s ''state_timeout_failure''))"

definition handleTimeoutReset :: "('s \<Rightarrow> string) \<Rightarrow> int \<Rightarrow> string \<Rightarrow> 's timeout_system \<Rightarrow> 's timeout_system" where
  "handleTimeoutReset vstr now tid w =
     (case Reset vstr now tid (ts_machine w) of (m, eff, _) \<Rightarrow> w\<lparr>ts_machine := m, ts_pending := ts_pending w @ eff\<rparr>)"

definition handleTimeout ::
  "('s \<Rightarrow> string) \<Rightarrow> ('s \<Rightarrow> go_any) \<Rightarrow> (string \<Rightarrow> 's option) \<Rightarrow> int \<Rightarrow> string \<Rightarrow> 's \<Rightarrow> int \<Rightarrow> 's timeout_system \<Rightarrow> 's timeout_system" where
  "handleTimeout vstr any_of as_state now tid s duration w0 =
     (let w = (if th_onTimeout (ts_handler w0) then w0\<lparr>ts_callbacks := ts_callbacks w0 @ [(s, duration)]\<rparr> else w0) in
      case tc_TimeoutAction (th_config (ts_handler w)) of
        TimeoutActionTransition \<Rightarrow> handleTimeoutTransition vstr any_of now tid s w
      | TimeoutActionFail \<Rightarrow> handleTimeoutFail vstr any_of as_state now tid s w
      | TimeoutActionReset \<Rightarrow> handleTimeoutReset vstr now tid w
      | _ \<Rightarrow> w)"

section \<open>Interleavings\<close>

definition set_phase :: "nat \<Rightarrow> monitor_phase \<Rightarrow> 's timeout_system \<Rightarrow> 's timeout_system" where
  "set_phase i p w = w\<lparr>ts_monitors := (ts_monitors w)[i := (ts_monitors w ! i)\<lparr>mo_phase := p\<rparr>]\<rparr>"

text \<open>
  Steps of the system: calls of the handler, transitions of the machine by its users, notifications of the timeout observer \<open>ob\<close>, and
  the steps of the monitor goroutines.
\<close>

inductive timeout_step ::
  "('s \<Rightarrow> string) \<Rightarrow> ('s \<Rightarrow> go_any) \<Rightarrow> (string \<Rightarrow> 's option) \<Rightarrow> nat \<Rightarrow> 's timeout_system \<Rightarrow> 's timeout_system \<Rightarrow> bool"
  for vstr any_of as_state ob where
  set: "timeout_step vstr any_of as_state ob w (on_handler (SetTimeout s d) w)"
| set_all: "timeout_step vstr any_of as_state ob w (on_handler (SetTimeouts ds) w)"
| remove: "timeout_step vstr any_of as_state ob w (on_handler (RemoveTimeout s) w)"
| callback: "timeout_step vstr any_of as_state ob w (on_handler (OnTimeout b) w)"
| start: "timeout_step vstr any_of as_state ob w (StartTimeout w)"
| stop: "timeout_step vstr any_of as_state ob w (StopTimeout w)"
| transition: "timeout_step vstr any_of as_state ob w (ts_transition vstr now tid w to md)"
| notify: "ts_pending w = P1 @ NotifyTransition ob t # P2 \<Longrightarrow>
    timeout_step vstr any_of as_state ob w (StartTimeout (w\<lparr>ts_pending := P1 @ P2\<rparr>))"
| cancelled: "i < length (ts_monitors w) \<Longrightarrow> mo_phase (ts_monitors w ! i) = Waiting \<Longrightarrow> mo_cancelled (ts_monitors w ! i) \<Longrightarrow>
    timeout_step vstr any_of as_state ob w (set_phase i Finished w)"
| fire: "i < length (ts_monitors w) \<Longrightarrow> mo_phase (ts_monitors w ! i) = Waiting \<Longrightarrow> \<not> mo_cancelled (ts_monitors w ! i) \<Longrightarrow>
    timeout_step vstr any_of as_state ob w (set_phase i Fired w)"
| handle: "i < length (ts_monitors w) \<Longrightarrow> mo_phase (ts_monitors w ! i) = Fired \<Longrightarrow>
    timeout_step vstr any_of as_state ob w (handleTimeout vstr any_of as_state now tid (mo_state (ts_monitors w ! i))
      (mo_timeout (ts_monitors w ! i)) (set_phase i Finished w))"

definition new_system :: "'s machine \<Rightarrow> 's timeout_config \<Rightarrow> 's timeout_system" where
  "new_system m config = \<lparr>ts_machine = m, ts_handler = NewTimeoutHandler config, ts_monitors = [], ts_callbacks = [], ts_pending = []\<rparr>"

text \<open>A monitor that is armed: it waits and has not been cancelled. \<open>armed_ok\<close> relates the monitors to the one the handler knows.\<close>

definition armed :: "'s monitor list \<Rightarrow> nat \<Rightarrow> bool" where
  "armed ms i \<longleftrightarrow> i < length ms \<and> mo_phase (ms ! i) = Waiting \<and> \<not> mo_cancelled (ms ! i)"

definition armed_ok :: "'s monitor list \<Rightarrow> nat option \<Rightarrow> bool" where
  "armed_ok ms cur \<longleftrightarrow> (\<forall>i. armed ms i \<longrightarrow> cur = Some i) \<and> (\<forall>i. cur = Some i \<longrightarrow> i < length ms) \<and> (\<forall>i < length ms. 0 < mo_timeout (ms ! i))"

abbreviation one_armed :: "'s timeout_system \<Rightarrow> bool" where
  "one_armed w \<equiv> armed_ok (ts_monitors w) (th_currentTimeout (ts_handler w))"

lemma armed_cancel: "armed (ms[i := (ms ! i)\<lparr>mo_cancelled := True\<rparr>]) j \<longleftrightarrow> armed ms j \<and> i \<noteq> j"
  by (cases "i < length ms") (auto simp: armed_def nth_list_update)

lemma armed_phase: "p \<noteq> Waiting \<Longrightarrow> armed (ms[i := (ms ! i)\<lparr>mo_phase := p\<rparr>]) j \<longleftrightarrow> armed ms j \<and> i \<noteq> j"
  by (cases "i < length ms") (auto simp: armed_def nth_list_update)

lemma timeout_update:
  "mo_timeout (ms[i := (ms ! i)\<lparr>mo_cancelled := c\<rparr>] ! j) = mo_timeout (ms ! j)"
  "mo_timeout (ms[i := (ms ! i)\<lparr>mo_phase := p\<rparr>] ! j) = mo_timeout (ms ! j)"
  by (cases "i < length ms"; auto simp: nth_list_update list_update_beyond)+

lemma armed_ok_cancel: "armed_ok ms (Some i) \<Longrightarrow> armed_ok (ms[i := (ms ! i)\<lparr>mo_cancelled := True\<rparr>]) None"
  by (auto simp: armed_ok_def armed_cancel timeout_update)

lemma armed_ok_phase: "armed_ok ms cur \<Longrightarrow> p \<noteq> Waiting \<Longrightarrow> armed_ok (ms[i := (ms ! i)\<lparr>mo_phase := p\<rparr>]) cur"
  by (auto simp: armed_ok_def armed_phase timeout_update)

lemma armed_ok_new: "armed_ok ms None \<Longrightarrow> 0 < mo_timeout mo \<Longrightarrow> armed_ok (ms @ [mo]) (Some (length ms))"
  by (auto simp: armed_ok_def armed_def nth_append less_Suc_eq)

lemma StopTimeout_disarms:
  assumes "one_armed w"
  shows "armed_ok (ts_monitors (StopTimeout w)) None" "th_currentTimeout (ts_handler (StopTimeout w)) = None"
  using assms armed_ok_cancel by (auto simp: StopTimeout_def split: option.splits)

lemma StartTimeout_one_armed: "one_armed w \<Longrightarrow> one_armed (StartTimeout w)"
  using StopTimeout_disarms [of w] by (auto simp: StartTimeout_def Let_def intro: armed_ok_new)

lemma handler_frame [simp]:
  "ts_monitors (ts_transition vstr now tid w to md) = ts_monitors w" "ts_handler (ts_transition vstr now tid w to md) = ts_handler w"
  "ts_monitors (handleTimeoutReset vstr now tid w) = ts_monitors w" "ts_handler (handleTimeoutReset vstr now tid w) = ts_handler w"
  "ts_monitors (handleTimeoutTransition vstr any_of now tid s w) = ts_monitors w" "ts_handler (handleTimeoutTransition vstr any_of now tid s w) = ts_handler w"
  "ts_monitors (handleTimeoutFail vstr any_of as_state now tid s w) = ts_monitors w" "ts_handler (handleTimeoutFail vstr any_of as_state now tid s w) = ts_handler w"
  by (simp_all add: ts_transition_def handleTimeoutReset_def handleTimeoutTransition_def handleTimeoutFail_def split: prod.splits option.splits)

lemma handleTimeout_frame [simp]:
  "ts_monitors (handleTimeout vstr any_of as_state now tid s d w) = ts_monitors w" "ts_handler (handleTimeout vstr any_of as_state now tid s d w) = ts_handler w"
  by (simp_all add: handleTimeout_def Let_def split: timeout_action.splits)

lemma timeout_step_one_armed: "timeout_step vstr any_of as_state ob w w' \<Longrightarrow> one_armed w \<Longrightarrow> one_armed w'"
proof (induction rule: timeout_step.induct)
  case (notify w P1 t P2)
  then show ?case by (intro StartTimeout_one_armed) simp
qed (simp_all add: StartTimeout_one_armed StopTimeout_disarms armed_ok_phase set_phase_def on_handler_def SetTimeout_def SetTimeouts_def
    RemoveTimeout_def OnTimeout_def)

text \<open>
  In every interleaving of calls, transitions, notifications and monitor goroutines at most one timer is armed, the one that the
  handler can cancel, and stopping the handler leaves none; every monitor was started with a positive timeout.
\<close>

theorem at_most_one_timer:
  assumes "(timeout_step vstr any_of as_state ob)\<^sup>*\<^sup>* (new_system m config) w"
  shows "(armed (ts_monitors w) i \<longrightarrow> th_currentTimeout (ts_handler w) = Some i)
    \<and> (armed (ts_monitors w) i \<and> armed (ts_monitors w) j \<longrightarrow> i = j) \<and> \<not> armed (ts_monitors (StopTimeout w)) i
    \<and> (i < length (ts_monitors w) \<longrightarrow> 0 < mo_timeout (ts_monitors w ! i))"
proof -
  have "one_armed w" using assms
  proof (induction rule: rtranclp_induct)
    case base
    show ?case by (simp add: armed_ok_def armed_def new_system_def NewTimeoutHandler_def)
  next
    case (step y z)
    then show ?case using timeout_step_one_armed by blast
  qed
  with StopTimeout_disarms(1) [OF this] show ?thesis unfolding armed_ok_def by (metis option.distinct(1) option.inject)
qed

text \<open>A machine with three states, and a timeout that leads to the third.\<close>

definition three_states :: "string sm_config" where
  "three_states = DefaultConfig ''a'' (Some (fmap_of_list [(''a'', [''b'', ''failed'']), (''b'', [''a'', ''failed''])]))"

definition machine_in_a :: "string machine" where
  "machine_in_a = (case New 0 three_states of Inr (m, _) \<Rightarrow> m | Inl _ \<Rightarrow> undefined)"

definition short_timeouts :: "string timeout_config" where
  "short_timeouts = (DefaultTimeoutConfig ''failed'')\<lparr>tc_DefaultTimeout := 1\<rparr>"

abbreviation sample_step :: "string timeout_system \<Rightarrow> string timeout_system \<Rightarrow> bool" where
  "sample_step \<equiv> timeout_step id GString Some 0"

definition started :: "string timeout_system" where
  "started = StartTimeout (new_system machine_in_a short_timeouts)"

text \<open>The timer of the first state has fired, the machine went on to the second state, and the timeout was restarted.\<close>

definition late_handler :: "string timeout_system" where
  "late_handler = StartTimeout (ts_transition id 5 ''t'' (set_phase 0 Fired started) ''b'' None)"

lemmas sample_defs = late_handler_def started_def new_system_def machine_in_a_def short_timeouts_def three_states_def DefaultConfig_def New_def
  DefaultTimeoutConfig_def NewTimeoutHandler_def StartTimeout_def StopTimeout_def getTimeoutForState_def Current_def set_phase_def
  ts_transition_def TransitionWithContext_def CanTransition_def Contains_def addToHistory_def Let_def

lemma started_reachable: "sample_step\<^sup>*\<^sup>* (new_system machine_in_a short_timeouts) started"
  unfolding started_def by (rule r_into_rtranclp) (rule timeout_step.start)

lemma started_monitors: "ts_monitors started = [\<lparr>mo_state = ''a'', mo_timeout = 1, mo_cancelled = False, mo_phase = Waiting\<rparr>]"
  by (simp add: sample_defs)

lemma late_handler_reachable: "sample_step\<^sup>*\<^sup>* (new_system machine_in_a short_timeouts) late_handler"
proof -
  have "sample_step started (set_phase 0 Fired started)" by (rule timeout_step.fire) (simp_all add: started_monitors)
  moreover have "sample_step (set_phase 0 Fired started) (ts_transition id 5 ''t'' (set_phase 0 Fired started) ''b'' None)"
    by (rule timeout_step.transition)
  moreover have "sample_step (ts_transition id 5 ''t'' (set_phase 0 Fired started) ''b'' None) late_handler"
    unfolding late_handler_def by (rule timeout_step.start)
  ultimately show ?thesis using started_reachable by (meson rtranclp.rtrancl_into_rtrancl)
qed

lemma late_handler_facts:
  "Current (ts_machine late_handler) = ''b''"
  "ts_monitors late_handler = [\<lparr>mo_state = ''a'', mo_timeout = 1, mo_cancelled = True, mo_phase = Fired\<rparr>,
     \<lparr>mo_state = ''b'', mo_timeout = 1, mo_cancelled = False, mo_phase = Waiting\<rparr>]"
  by (simp_all add: sample_defs)

theorem at_most_one_timer_witness:
  "armed (ts_monitors late_handler) 1 \<and> th_currentTimeout (ts_handler late_handler) = Some 1 \<and> \<not> armed (ts_monitors late_handler) 0
    \<and> \<not> armed (ts_monitors (StopTimeout late_handler)) 1"
proof -
  have "armed (ts_monitors late_handler) 1" "\<not> armed (ts_monitors late_handler) 0" by (simp_all add: late_handler_facts armed_def)
  with at_most_one_timer [OF late_handler_reachable, of 1 1] show ?thesis by blast
qed

text \<open>
  A timeout is not checked against the state it was started for: there is a run in which the timer of a state fires,
  the machine leaves that state in time and the handler cancels the monitor and arms a timer for the new state, and then the action of the old, cancelled
  timeout moves the machine out of the new state, whose own timer is still running.
\<close>

theorem stale_timeout_moves_later_state:
  "\<exists>w w' i. sample_step\<^sup>*\<^sup>* (new_system machine_in_a short_timeouts) w \<and> sample_step w w' \<and> mo_cancelled (ts_monitors w ! i)
    \<and> mo_state (ts_monitors w ! i) = ''a'' \<and> Current (ts_machine w) = ''b'' \<and> armed (ts_monitors w) 1
    \<and> w' = handleTimeout id GString Some 6 ''u'' ''a'' 1 (set_phase i Finished w) \<and> Current (ts_machine w') = ''failed''"
proof -
  let ?w' = "handleTimeout id GString Some 6 ''u'' ''a'' 1 (set_phase 0 Finished late_handler)"
  have "sample_step late_handler (handleTimeout id GString Some 6 ''u'' (mo_state (ts_monitors late_handler ! 0))
      (mo_timeout (ts_monitors late_handler ! 0)) (set_phase 0 Finished late_handler))"
    by (rule timeout_step.handle) (simp_all add: late_handler_facts)
  then have "sample_step late_handler ?w'" by (simp add: late_handler_facts)
  moreover have "Current (ts_machine ?w') = ''failed''"
    by (simp add: handleTimeout_def handleTimeoutTransition_def sample_defs)
  moreover have "armed (ts_monitors late_handler) 1" by (simp add: late_handler_facts armed_def)
  ultimately show ?thesis using late_handler_reachable late_handler_facts
    by (intro exI [of _ late_handler] exI [of _ ?w'] exI [of _ 0]) simp
qed

section \<open>Metrics\<close>

record timeout_metrics =
  tx_TotalTimeouts :: i64
  tx_TimeoutsByState :: "(string, i64) fmap"
  tx_AverageTimeoutTime :: i64
  tx_MaxTimeoutTime :: i64
  tx_LastTimeout :: int

definition NewTimeoutMetrics :: timeout_metrics where
  "NewTimeoutMetrics = \<lparr>tx_TotalTimeouts = 0, tx_TimeoutsByState = fmempty, tx_AverageTimeoutTime = 0, tx_MaxTimeoutTime = 0,
     tx_LastTimeout = zero_time\<rparr>"

definition state_count :: "timeout_metrics \<Rightarrow> string \<Rightarrow> i64" where
  "state_count tm s = (case fmlookup (tx_TimeoutsByState tm) s of None \<Rightarrow> 0 | Some n \<Rightarrow> n)"

definition RecordTimeout :: "int \<Rightarrow> string \<Rightarrow> i64 \<Rightarrow> timeout_metrics \<Rightarrow> timeout_metrics" where
  "RecordTimeout now s duration tm =
     (let tm1 = tm\<lparr>tx_TotalTimeouts := tx_TotalTimeouts tm + 1,
                  tx_TimeoutsByState := fmupd s (state_count tm s + 1) (tx_TimeoutsByState tm), tx_LastTimeout := now\<rparr>;
          tm2 = (if sint duration > sint (tx_MaxTimeoutTime tm1) then tm1\<lparr>tx_MaxTimeoutTime := duration\<rparr> else tm1)
      in if tx_TotalTimeouts tm2 = 1 then tm2\<lparr>tx_AverageTimeoutTime := duration\<rparr>
         else tm2\<lparr>tx_AverageTimeoutTime := tx_AverageTimeoutTime tm2
                + i64_quot (duration - tx_AverageTimeoutTime tm2) (tx_TotalTimeouts tm2)\<rparr>)"

definition record_timeouts :: "(int \<times> string \<times> i64) list \<Rightarrow> timeout_metrics" where
  "record_timeouts xs = foldl (\<lambda>tm (now, s, d). RecordTimeout now s d tm) NewTimeoutMetrics xs"

lemma RecordTimeout_fields:
  "tx_TotalTimeouts (RecordTimeout now s d tm) = tx_TotalTimeouts tm + 1"
  "tx_MaxTimeoutTime (RecordTimeout now s d tm) = (if sint d > sint (tx_MaxTimeoutTime tm) then d else tx_MaxTimeoutTime tm)"
  "tx_AverageTimeoutTime (RecordTimeout now s d tm) = (if tx_TotalTimeouts tm + 1 = 1 then d
     else tx_AverageTimeoutTime tm + i64_quot (d - tx_AverageTimeoutTime tm) (tx_TotalTimeouts tm + 1))"
  "state_count (RecordTimeout now s d tm) s' = (if s' = s then state_count tm s' + 1 else state_count tm s')"
  by (simp_all add: RecordTimeout_def state_count_def Let_def)

text \<open>One step of the running average stays between the old average and the new value.\<close>

lemma running_average_step:
  assumes "0 \<le> sint a" and "0 \<le> sint d" and "0 < sint n"
  shows "min (sint a) (sint d) \<le> sint (a + i64_quot (d - a) n)" and "sint (a + i64_quot (d - a) n) \<le> max (sint a) (sint d)"
proof -
  let ?q = "\<bar>sint d - sint a\<bar> div sint n"
  have diff: "sint (d - a) = sint d - sint a"
    using sint_bounds_i64(2) [of a] sint_bounds_i64(2) [of d] assms(1,2) by (intro sint_diff_i64) simp_all
  have q: "0 \<le> ?q" "?q \<le> \<bar>sint d - sint a\<bar>"
    using assms(3) zdiv_mono2 [of "\<bar>sint d - sint a\<bar>" 1 "sint n"] by (simp_all add: pos_imp_zdiv_nonneg_iff)
  have s: "sint (i64_quot (d - a) n) = sgn (sint d - sint a) * ?q"
    using i64_quot_pos [of "d - a" n] diff assms sint_bounds_i64(2) [of a] by simp
  have r: "min (sint a) (sint d) \<le> sint a + sgn (sint d - sint a) * ?q" "sint a + sgn (sint d - sint a) * ?q \<le> max (sint a) (sint d)"
    using q by (auto simp: sgn_if min_def max_def)
  have "sint (a + i64_quot (d - a) n) = sint a + sgn (sint d - sint a) * ?q"
    using r assms(1,2) sint_bounds_i64(2) [of a] sint_bounds_i64(2) [of d] s
    by (subst sint_add_i64) (simp_all add: min_def max_def split: if_splits)
  with r show "min (sint a) (sint d) \<le> sint (a + i64_quot (d - a) n)" "sint (a + i64_quot (d - a) n) \<le> max (sint a) (sint d)" by simp_all
qed

definition timeout_durations :: "(int \<times> string \<times> i64) list \<Rightarrow> int list" where
  "timeout_durations xs = map (\<lambda>(_, _, d). sint d) xs"

lemma record_timeouts_snoc: "record_timeouts (xs @ [(now, s, d)]) = RecordTimeout now s d (record_timeouts xs)"
  by (simp add: record_timeouts_def)

lemma record_timeouts_total:
  "tx_TotalTimeouts (record_timeouts xs) = of_nat (length xs)
   \<and> state_count (record_timeouts xs) s = of_nat (length [x \<leftarrow> xs. fst (snd x) = s])"
proof (induction xs rule: rev_induct)
  case (snoc x xs)
  then show ?case by (cases x) (auto simp: record_timeouts_snoc RecordTimeout_fields)
qed (simp add: record_timeouts_def NewTimeoutMetrics_def state_count_def)

lemma record_timeouts_average:
  assumes "\<forall>d \<in> set (timeout_durations xs). 0 \<le> d" and "length xs < 2 ^ 63"
  shows "0 \<le> sint (tx_AverageTimeoutTime (record_timeouts xs))
    \<and> sint (tx_AverageTimeoutTime (record_timeouts xs)) \<le> sint (tx_MaxTimeoutTime (record_timeouts xs))
    \<and> sint (tx_MaxTimeoutTime (record_timeouts xs)) = Max (insert 0 (set (timeout_durations xs)))"
  using assms
proof (induction xs rule: rev_induct)
  case Nil
  then show ?case by (simp add: record_timeouts_def NewTimeoutMetrics_def timeout_durations_def)
next
  case (snoc x xs)
  obtain now s d where x: "x = (now, s, d)" by (cases x)
  let ?tm = "record_timeouts xs"
  have d: "0 \<le> sint d" "\<forall>d \<in> set (timeout_durations xs). 0 \<le> d" "length xs < 2 ^ 63"
    using snoc.prems x by (auto simp: timeout_durations_def)
  note IH = snoc.IH [OF d(2,3)]
  have max: "sint (tx_MaxTimeoutTime (RecordTimeout now s d ?tm)) = max (sint d) (sint (tx_MaxTimeoutTime ?tm))"
    by (simp add: RecordTimeout_fields)
  have n: "sint (tx_TotalTimeouts ?tm + 1) = int (length xs) + 1"
    using record_timeouts_total [of xs] snoc.prems(2) sint_of_int_i64 [of "int (length xs) + 1"] by simp
  have "0 \<le> sint (tx_AverageTimeoutTime (RecordTimeout now s d ?tm))
    \<and> sint (tx_AverageTimeoutTime (RecordTimeout now s d ?tm)) \<le> max (sint d) (sint (tx_MaxTimeoutTime ?tm))"
    using running_average_step [of "tx_AverageTimeoutTime ?tm" d "tx_TotalTimeouts ?tm + 1"] IH d(1) n
    by (auto simp: RecordTimeout_fields)
  moreover have "max (sint d) (sint (tx_MaxTimeoutTime ?tm)) = Max (insert 0 (set (timeout_durations (xs @ [x]))))"
  proof -
    have "insert 0 (set (timeout_durations (xs @ [x]))) = insert (sint d) (insert 0 (set (timeout_durations xs)))"
      by (auto simp: timeout_durations_def x)
    then show ?thesis using IH by (metis Max_insert finite.insertI finite_set insert_not_empty)
  qed
  ultimately show ?case using max by (simp add: x record_timeouts_snoc)
qed

text \<open>
  After any sequence of recorded timeouts the counters are the number of timeouts, in all and for each state, and as long as no
  duration is negative the running average, with its truncating division on 64-bit integers, never leaves the range from zero to the longest duration.
\<close>

theorem timeout_average_bounds:
  assumes "\<forall>d \<in> set (timeout_durations xs). 0 \<le> d" and "length xs < 2 ^ 63"
  shows "tx_TotalTimeouts (record_timeouts xs) = of_nat (length xs)
    \<and> state_count (record_timeouts xs) s = of_nat (length [x \<leftarrow> xs. fst (snd x) = s])
    \<and> sint (tx_MaxTimeoutTime (record_timeouts xs)) = Max (insert 0 (set (timeout_durations xs)))
    \<and> 0 \<le> sint (tx_AverageTimeoutTime (record_timeouts xs))
    \<and> sint (tx_AverageTimeoutTime (record_timeouts xs)) \<le> sint (tx_MaxTimeoutTime (record_timeouts xs))"
  using record_timeouts_total [of xs s] record_timeouts_average [OF assms] by blast

theorem timeout_average_bounds_witness:
  "sint (tx_AverageTimeoutTime (record_timeouts [(1, ''a'', 10), (2, ''b'', 4), (3, ''a'', 3)])) \<le> 10
    \<and> state_count (record_timeouts [(1, ''a'', 10), (2, ''b'', 4), (3, ''a'', 3)]) ''a'' = 2"
  using timeout_average_bounds [of "[(1, ''a'', 10), (2, ''b'', 4), (3, ''a'', 3)]" "''a''"] by (simp add: timeout_durations_def)

end
