(* ===== verification/Memento.thy ===== *)
theory Memento
  imports Resolvers
begin

text \<open>
  Audit records of conflict resolutions (synckit/memento.go) and the two wrappers of a resolver: the auditable one, which saves a
  memento of every resolution, and the observable one, which reports to metrics and hooks (synckit/observer.go). Mementos are
  copied by writing and reading JSON. What that does to a dynamically typed value (an int becomes a float, bytes become
  a string, some values cannot be written) is an argument \<open>jany\<close>; what it does to the fields of a memento is
  defined here. Readings of the clock are arguments.
\<close>

section \<open>Data\<close>

record conflict_state =
  cs_AggregateID :: string
  cs_EventType :: string
  cs_LocalVersion :: string
  cs_RemoteVersion :: string
  cs_LocalData :: go_any
  cs_RemoteData :: go_any
  cs_ResolvedData :: go_any
  cs_Metadata :: metadata

text \<open>The last two fields are for internal use and not serialised.\<close>

record resolution_memento =
  me_ID :: string
  me_Timestamp :: int
  me_EventType :: string
  me_AggregateID :: string
  me_ChangedFields :: "string list"
  me_Metadata :: metadata
  me_Decision :: string
  me_Reasons :: "string list"
  me_ResolverName :: string
  me_RuleName :: string
  me_GroupName :: string
  me_Context :: metadata
  me_UserID :: string
  me_SessionID :: string
  me_Origin :: string
  me_ResolutionDuration :: int
  me_BeforeState :: "conflict_state option"
  me_AfterState :: "conflict_state option"
  me_OriginalConflict :: "conflict option"
  me_ResolvedConflict :: "resolved_conflict option"

record memento_criteria =
  mc_AggregateID :: string
  mc_UserID :: string
  mc_ResolverName :: string
  mc_GroupName :: string
  mc_FromTime :: "int option"
  mc_ToTime :: "int option"
  mc_Limit :: int
  mc_Offset :: int

section \<open>Copies through JSON\<close>

type_synonym json_any = "go_any \<Rightarrow> go_error + go_any"

definition sum_bind :: "'e + 'a \<Rightarrow> ('a \<Rightarrow> 'e + 'b) \<Rightarrow> 'e + 'b" where
  "sum_bind x f = (case x of Inl e \<Rightarrow> Inl e | Inr a \<Rightarrow> f a)"

fun copy_entries :: "json_any \<Rightarrow> (string, go_any) fmap \<Rightarrow> string list \<Rightarrow> go_error + (string, go_any) fmap" where
  "copy_entries jany f [] = Inr fmempty"
| "copy_entries jany f (k # ks) =
     sum_bind (jany (the (fmlookup f k))) (\<lambda>v. sum_bind (copy_entries jany f ks) (\<lambda>g. Inr (fmupd k v g)))"

text \<open>A map with \<open>omitempty\<close>: the empty map is left out and read back as nil; the keys are written in ascending order.\<close>

definition copy_map :: "json_any \<Rightarrow> metadata \<Rightarrow> go_error + metadata" where
  "copy_map jany md =
     (if gm_len md = 0 then Inr None else sum_bind (copy_entries jany (gm_fmap md) (gm_keys md)) (\<lambda>g. Inr (Some g)))"

text \<open>A nil interface is left out and read back as nil.\<close>

definition copy_any :: "json_any \<Rightarrow> go_any \<Rightarrow> go_error + go_any" where
  "copy_any jany v = (if v = GNil then Inr GNil else jany v)"

definition copy_state :: "json_any \<Rightarrow> conflict_state \<Rightarrow> go_error + conflict_state" where
  "copy_state jany s =
     sum_bind (copy_any jany (cs_LocalData s)) (\<lambda>l. sum_bind (copy_any jany (cs_RemoteData s)) (\<lambda>r.
     sum_bind (copy_any jany (cs_ResolvedData s)) (\<lambda>d. sum_bind (copy_map jany (cs_Metadata s)) (\<lambda>md.
       Inr (s\<lparr>cs_LocalData := l, cs_RemoteData := r, cs_ResolvedData := d, cs_Metadata := md\<rparr>)))))"

definition copy_state_opt :: "json_any \<Rightarrow> conflict_state option \<Rightarrow> go_error + conflict_state option" where
  "copy_state_opt jany s = (case s of None \<Rightarrow> Inr None | Some x \<Rightarrow> sum_bind (copy_state jany x) (\<lambda>y. Inr (Some y)))"

definition copy_memento :: "json_any \<Rightarrow> resolution_memento \<Rightarrow> go_error + resolution_memento" where
  "copy_memento jany m =
     sum_bind (copy_map jany (me_Metadata m)) (\<lambda>md. sum_bind (copy_map jany (me_Context m)) (\<lambda>cx.
     sum_bind (copy_state_opt jany (me_BeforeState m)) (\<lambda>b. sum_bind (copy_state_opt jany (me_AfterState m)) (\<lambda>a.
       Inr (m\<lparr>me_Metadata := md, me_Context := cx, me_BeforeState := b, me_AfterState := a,
              me_OriginalConflict := None, me_ResolvedConflict := None\<rparr>)))))"

section \<open>The caretaker\<close>

type_synonym caretaker = "(string, resolution_memento) fmap"

definition NewInMemoryMementoCaretaker :: caretaker where
  "NewInMemoryMementoCaretaker = fmempty"

definition Save :: "json_any \<Rightarrow> caretaker \<Rightarrow> resolution_memento \<Rightarrow> caretaker \<times> go_error option" where
  "Save jany c m =
     (if me_ID m = [] then (c, Some (ErrorString ''memento ID cannot be empty''))
      else (case copy_memento jany m of
          Inl err \<Rightarrow> (c, Some (WrapError ''failed to serialize memento: '' err))
        | Inr x \<Rightarrow> (fmupd (me_ID m) x c, None)))"

definition not_found :: "string \<Rightarrow> go_error" where
  "not_found mid = ErrorString (''memento with ID '' @ mid @ '' not found'')"

definition Get_memento :: "json_any \<Rightarrow> caretaker \<Rightarrow> string \<Rightarrow> go_error + resolution_memento" where
  "Get_memento jany c mid =
     (case fmlookup c mid of
        None \<Rightarrow> Inl (not_found mid)
      | Some m \<Rightarrow> (case copy_memento jany m of
            Inl err \<Rightarrow> Inl (WrapError ''failed to serialize memento: '' err)
          | Inr x \<Rightarrow> Inr x))"

definition matchesCriteria :: "resolution_memento \<Rightarrow> memento_criteria option \<Rightarrow> bool" where
  "matchesCriteria m criteria =
     (case criteria of
        None \<Rightarrow> True
      | Some k \<Rightarrow>
          \<not> (mc_AggregateID k \<noteq> [] \<and> me_AggregateID m \<noteq> mc_AggregateID k)
        \<and> \<not> (mc_UserID k \<noteq> [] \<and> me_UserID m \<noteq> mc_UserID k)
        \<and> \<not> (mc_ResolverName k \<noteq> [] \<and> me_ResolverName m \<noteq> mc_ResolverName k)
        \<and> \<not> (mc_GroupName k \<noteq> [] \<and> me_GroupName m \<noteq> mc_GroupName k)
        \<and> (case mc_FromTime k of None \<Rightarrow> True | Some t \<Rightarrow> \<not> me_Timestamp m < t)
        \<and> (case mc_ToTime k of None \<Rightarrow> True | Some t \<Rightarrow> \<not> me_Timestamp m > t))"

definition apply_page :: "memento_criteria option \<Rightarrow> 'a list \<Rightarrow> 'a list" where
  "apply_page criteria results =
     (case criteria of
        None \<Rightarrow> results
      | Some k \<Rightarrow>
          let r1 = (if mc_Offset k > 0 \<and> mc_Offset k < int (length results) then drop (nat (mc_Offset k)) results else results)
          in if mc_Limit k > 0 \<and> mc_Limit k < int (length r1) then take (nat (mc_Limit k)) r1 else r1)"

text \<open>A memento that cannot be copied is skipped.\<close>

fun list_loop :: "json_any \<Rightarrow> caretaker \<Rightarrow> memento_criteria option \<Rightarrow> string list \<Rightarrow> resolution_memento list" where
  "list_loop jany c criteria [] = []"
| "list_loop jany c criteria (k # ks) =
     (case fmlookup c k of
        None \<Rightarrow> list_loop jany c criteria ks
      | Some m \<Rightarrow>
          if matchesCriteria m criteria
          then (case copy_memento jany m of Inl _ \<Rightarrow> list_loop jany c criteria ks | Inr x \<Rightarrow> x # list_loop jany c criteria ks)
          else list_loop jany c criteria ks)"

definition List_mementos ::
  "json_any \<Rightarrow> string list \<Rightarrow> caretaker \<Rightarrow> memento_criteria option \<Rightarrow> go_error + resolution_memento list" where
  "List_mementos jany key_order c criteria = Inr (apply_page criteria (list_loop jany c criteria key_order))"

definition Delete_memento :: "caretaker \<Rightarrow> string \<Rightarrow> caretaker \<times> go_error option" where
  "Delete_memento c mid =
     (case fmlookup c mid of None \<Rightarrow> (c, Some (not_found mid)) | Some _ \<Rightarrow> (fmdrop mid c, None))"

definition GetAuditTrail_caretaker ::
  "json_any \<Rightarrow> string list \<Rightarrow> caretaker \<Rightarrow> string \<Rightarrow> go_error + resolution_memento list" where
  "GetAuditTrail_caretaker jany key_order c aggregateID =
     List_mementos jany key_order c (Some \<lparr>mc_AggregateID = aggregateID, mc_UserID = [], mc_ResolverName = [], mc_GroupName = [],
       mc_FromTime = None, mc_ToTime = None, mc_Limit = 0, mc_Offset = 0\<rparr>)"

section \<open>The auditable resolver\<close>

record auditable_resolver =
  ar_wrapped :: resolver
  ar_typeName :: string
  ar_logger :: bool
  ar_userIDExtractor :: "(go_error option \<Rightarrow> string) option"
  ar_sessionIDExtractor :: "(go_error option \<Rightarrow> string) option"
  ar_originExtractor :: "(go_error option \<Rightarrow> string) option"

definition NewAuditableResolver :: "resolver \<Rightarrow> string \<Rightarrow> (auditable_resolver \<Rightarrow> auditable_resolver) list \<Rightarrow> auditable_resolver" where
  "NewAuditableResolver wrapped typeName opts = foldl (\<lambda>ar opt. opt ar)
     \<lparr>ar_wrapped = wrapped, ar_typeName = typeName, ar_logger = False, ar_userIDExtractor = None,
      ar_sessionIDExtractor = None, ar_originExtractor = None\<rparr> opts"

definition WithAuditLogger :: "bool \<Rightarrow> auditable_resolver \<Rightarrow> auditable_resolver" where
  "WithAuditLogger logger ar = ar\<lparr>ar_logger := logger\<rparr>"

definition WithUserIDExtractor :: "(go_error option \<Rightarrow> string) option \<Rightarrow> auditable_resolver \<Rightarrow> auditable_resolver" where
  "WithUserIDExtractor f ar = ar\<lparr>ar_userIDExtractor := f\<rparr>"

definition WithSessionIDExtractor :: "(go_error option \<Rightarrow> string) option \<Rightarrow> auditable_resolver \<Rightarrow> auditable_resolver" where
  "WithSessionIDExtractor f ar = ar\<lparr>ar_sessionIDExtractor := f\<rparr>"

definition WithOriginExtractor :: "(go_error option \<Rightarrow> string) option \<Rightarrow> auditable_resolver \<Rightarrow> auditable_resolver" where
  "WithOriginExtractor f ar = ar\<lparr>ar_originExtractor := f\<rparr>"

definition generateMementoID :: "int \<Rightarrow> string" where
  "generateMementoID now = ''memento_'' @ i64_dec (of_int now)"

definition event_data :: "event_with_version \<Rightarrow> go_any go" where
  "event_data ev = map_option EventData (ev_Event ev)"

definition before_state :: "conflict \<Rightarrow> conflict_state go" where
  "before_state c = do {
     lv \<leftarrow> iface_String (ev_Version (cf_Local c));
     rv \<leftarrow> iface_String (ev_Version (cf_Remote c));
     ld \<leftarrow> event_data (cf_Local c);
     rd \<leftarrow> event_data (cf_Remote c);
     Some \<lparr>cs_AggregateID = cf_AggregateID c, cs_EventType = cf_EventType c, cs_LocalVersion = lv, cs_RemoteVersion = rv,
           cs_LocalData = ld, cs_RemoteData = rd, cs_ResolvedData = GNil, cs_Metadata = cf_Metadata c\<rparr> }"

definition after_state :: "conflict \<Rightarrow> conflict_state \<Rightarrow> resolved_conflict \<Rightarrow> conflict_state option go" where
  "after_state c before resolved =
     (case ResolvedEvents resolved of
        [] \<Rightarrow> Some None
      | ev # _ \<Rightarrow> do {
          d \<leftarrow> event_data ev;
          Some (Some \<lparr>cs_AggregateID = cf_AggregateID c, cs_EventType = [], cs_LocalVersion = cs_LocalVersion before,
            cs_RemoteVersion = cs_RemoteVersion before, cs_LocalData = GNil, cs_RemoteData = GNil, cs_ResolvedData = d,
            cs_Metadata = cf_Metadata c\<rparr>) })"

definition from_context :: "(go_error option \<Rightarrow> string) option \<Rightarrow> go_error option \<Rightarrow> string" where
  "from_context f ctx = (case f of None \<Rightarrow> [] | Some g \<Rightarrow> g ctx)"

text \<open>The times of a resolution: its start, its end, the one in the identifier and the time stamp.\<close>

record audit_times =
  tm_start :: int
  tm_end :: int
  tm_id :: int
  tm_stamp :: int

definition new_memento :: "audit_times \<Rightarrow> auditable_resolver \<Rightarrow> go_error option \<Rightarrow> conflict \<Rightarrow> conflict_state \<Rightarrow> resolution_memento" where
  "new_memento t ar ctx c before =
     \<lparr>me_ID = generateMementoID (tm_id t), me_Timestamp = tm_stamp t, me_EventType = cf_EventType c,
      me_AggregateID = cf_AggregateID c, me_ChangedFields = cf_ChangedFields c, me_Metadata = cf_Metadata c, me_Decision = [],
      me_Reasons = [], me_ResolverName = ar_typeName ar, me_RuleName = [], me_GroupName = [], me_Context = Some fmempty,
      me_UserID = from_context (ar_userIDExtractor ar) ctx, me_SessionID = from_context (ar_sessionIDExtractor ar) ctx,
      me_Origin = from_context (ar_originExtractor ar) ctx,
      me_ResolutionDuration = time_Sub (tm_end t) (tm_start t),
      me_BeforeState = Some before, me_AfterState = None, me_OriginalConflict = Some c, me_ResolvedConflict = None\<rparr>"

definition complete_memento ::
  "conflict \<Rightarrow> conflict_state \<Rightarrow> go_error + resolved_conflict \<Rightarrow> resolution_memento \<Rightarrow> resolution_memento go" where
  "complete_memento c before res m =
     (case res of
        Inl err \<Rightarrow> Some (m\<lparr>me_Context := md_of [(''error'', GString (Error_text err)), (''success'', GBool False)]\<rparr>)
      | Inr x \<Rightarrow> do {
          after \<leftarrow> after_state c before x;
          Some (m\<lparr>me_ResolvedConflict := Some x, me_Decision := Decision x, me_Reasons := Reasons x,
                 me_Context := md_of [(''success'', GBool True)], me_AfterState := after\<rparr>) })"

datatype audit_log = SaveFailed go_error string | MementoSaved string string

definition Resolve_auditable ::
  "json_any \<Rightarrow> audit_times \<Rightarrow> auditable_resolver \<Rightarrow> go_error option \<Rightarrow> conflict \<Rightarrow> caretaker
     \<Rightarrow> (caretaker \<times> audit_log list \<times> (go_error + resolved_conflict)) go" where
  "Resolve_auditable jany t ar ctx c ct = do {
     before \<leftarrow> before_state c;
     res \<leftarrow> ar_wrapped ar ctx c;
     m \<leftarrow> complete_memento c before res (new_memento t ar ctx c before);
     (case Save jany ct m of
        (ct', Some e) \<Rightarrow> Some (ct', if ar_logger ar then [SaveFailed e (me_ID m)] else [], res)
      | (ct', None) \<Rightarrow> Some (ct', if ar_logger ar then [MementoSaved (me_ID m) (cf_AggregateID c)] else [], res)) }"

section \<open>Rollback analysis\<close>

record rollback_analysis =
  TargetMemento :: resolution_memento
  AffectedResolutions :: "resolution_memento list"
  RollbackComplexity :: string
  RequiresReprocessing :: bool

definition calculateComplexity :: "'a list \<Rightarrow> string" where
  "calculateComplexity affected =
     (if length affected = 0 then ''simple'' else if length affected \<le> 3 then ''moderate'' else ''complex'')"

definition AnalyzeRollback :: "json_any \<Rightarrow> string list \<Rightarrow> caretaker \<Rightarrow> string \<Rightarrow> go_error + rollback_analysis" where
  "AnalyzeRollback jany key_order ct mementoID =
     (case Get_memento jany ct mementoID of
        Inl err \<Rightarrow> Inl (WrapError ''failed to get memento: '' err)
      | Inr m \<Rightarrow>
          (case GetAuditTrail_caretaker jany key_order ct (me_AggregateID m) of
             Inl err \<Rightarrow> Inl (WrapError ''failed to get audit trail: '' err)
           | Inr subsequent \<Rightarrow>
               let affected = [other \<leftarrow> subsequent. me_Timestamp other > me_Timestamp m]
               in Inr \<lparr>TargetMemento = m, AffectedResolutions = affected, RollbackComplexity = calculateComplexity affected,
                      RequiresReprocessing = (affected \<noteq> [])\<rparr>))"

section \<open>The observable resolver\<close>

text \<open>
  Which collaborators are set; \<open>ob_extended\<close> says whether the metrics collector has the extended methods, \<open>ob_hook\<close> which of the
  three hooks this resolver calls are set.
\<close>

record observable_resolver =
  ob_wrapped :: resolver
  ob_metrics :: bool
  ob_extended :: bool
  ob_OnConflict :: bool
  ob_OnResolution :: bool
  ob_OnError :: bool
  ob_groupName :: string

datatype observable_call =
    CallOnConflict conflict
  | CallOnResolution resolved_conflict int
  | CallOnError conflict go_error
  | RecordResolution string string string int bool
  | RecordResolutionError string string string
  | RecordManualReview string

definition classifyError :: "go_error \<Rightarrow> string" where
  "classifyError err =
     (if errors_Is err Canceled then ''context_canceled''
      else if errors_Is err DeadlineExceeded then ''timeout'' else ''generic'')"

definition getManualReviewReason :: "resolved_conflict \<Rightarrow> string" where
  "getManualReviewReason resolved = (case Reasons resolved of [] \<Rightarrow> ''unknown'' | r # _ \<Rightarrow> r)"

text \<open>The rule name is always empty.\<close>

definition Resolve_observable ::
  "int \<Rightarrow> int \<Rightarrow> observable_resolver \<Rightarrow> go_error option \<Rightarrow> conflict \<Rightarrow> (observable_call list \<times> (go_error + resolved_conflict)) go" where
  "Resolve_observable start finish r ctx c = do {
     res \<leftarrow> ob_wrapped r ctx c;
     let duration = time_Sub finish start;
     let on = ob_metrics r \<and> ob_extended r;
     Some ((if ob_OnConflict r then [CallOnConflict c] else []) @
       (case res of
          Inl err \<Rightarrow>
            (if on then [RecordResolution [] (ob_groupName r) ''error'' duration False,
                         RecordResolutionError [] (ob_groupName r) (classifyError err)] else [])
            @ (if ob_OnError r then [CallOnError c err] else [])
        | Inr x \<Rightarrow>
            (if on then RecordResolution [] (ob_groupName r) (Decision x) duration True #
                        (if Decision x = ''manual_review'' then [RecordManualReview (getManualReviewReason x)] else []) else [])
            @ (if ob_OnResolution r then [CallOnResolution x duration] else [])), res) }"

section \<open>Facts\<close>

lemma sum_bind_Inr [simp]: "sum_bind x f = Inr b \<longleftrightarrow> (\<exists>a. x = Inr a \<and> f a = Inr b)"
  by (cases x) (simp_all add: sum_bind_def)

lemma sum_bind_simps [simp]: "sum_bind (Inr a) f = f a" "sum_bind (Inl e) f = Inl e"
  by (simp_all add: sum_bind_def)

text \<open>A copy read back once more is the same: what JSON made of a value it keeps.\<close>

definition json_stable :: "json_any \<Rightarrow> bool" where
  "json_stable jany \<longleftrightarrow> (\<forall>v w. jany v = Inr w \<longrightarrow> jany w = Inr w)"

lemma copy_entries_Inr:
  "copy_entries jany f ks = Inr g \<Longrightarrow> fmdom' g = set ks \<and> (\<forall>k \<in> set ks. \<exists>v. jany (the (fmlookup f k)) = Inr v \<and> fmlookup g k = Some v)"
  by (induction ks arbitrary: g) auto

lemma copy_entries_fixed:
  "\<forall>k \<in> set ks. \<exists>v. fmlookup f k = Some v \<and> jany v = Inr v \<Longrightarrow>
     \<exists>g. copy_entries jany f ks = Inr g \<and> fmdom' g = set ks \<and> (\<forall>k \<in> set ks. fmlookup g k = fmlookup f k)"
proof (induction ks)
  case (Cons k ks)
  then obtain g v where "copy_entries jany f ks = Inr g" "fmdom' g = set ks" "\<forall>k \<in> set ks. fmlookup g k = fmlookup f k"
    "fmlookup f k = Some v" "jany v = Inr v" by auto
  then show ?case by (intro exI [of _ "fmupd k v g"]) auto
qed simp

lemma copy_map_again:
  assumes "json_stable jany" and "copy_map jany md = Inr md'"
  shows "copy_map jany md' = Inr md'"
proof (cases "gm_len md = 0")
  case True
  then show ?thesis using assms(2) by (auto simp: copy_map_def)
next
  case False
  then obtain g where g: "copy_entries jany (gm_fmap md) (gm_keys md) = Inr g" "md' = Some g" using assms(2) by (auto simp: copy_map_def)
  note e = copy_entries_Inr [OF g(1)]
  have dom: "fmdom' g = fmdom' (gm_fmap md)" using e by (simp add: gm_keys_def)
  have "\<forall>k \<in> set (gm_keys (Some g)). \<exists>v. fmlookup g k = Some v \<and> jany v = Inr v"
    using e dom assms(1) by (fastforce simp: gm_keys_def json_stable_def)
  from copy_entries_fixed [OF this] obtain h where h: "copy_entries jany g (gm_keys (Some g)) = Inr h" "fmdom' h = fmdom' g"
    "\<forall>k \<in> fmdom' g. fmlookup h k = fmlookup g k" by (auto simp: gm_keys_def)
  have "h = g" by (rule fmap_ext) (metis fmdom'_notD h(2,3))
  moreover have "fmdom g = fmdom (gm_fmap md)" using dom by (simp add: fmdom'_alt_def fset_inject)
  then have "gm_len (Some g) \<noteq> 0" using False unfolding gm_len_def gm_fmap_simps by argo
  ultimately show ?thesis using h(1) g(2) by (simp add: copy_map_def)
qed

lemma copy_any_again: "json_stable jany \<Longrightarrow> copy_any jany v = Inr w \<Longrightarrow> copy_any jany w = Inr w"
  by (auto simp: copy_any_def json_stable_def split: if_splits)

lemma copy_state_again: "json_stable jany \<Longrightarrow> copy_state jany s = Inr t \<Longrightarrow> copy_state jany t = Inr t"
  using copy_any_again copy_map_again by (auto simp: copy_state_def)

lemma copy_state_opt_again: "json_stable jany \<Longrightarrow> copy_state_opt jany s = Inr t \<Longrightarrow> copy_state_opt jany t = Inr t"
  using copy_state_again by (auto simp: copy_state_opt_def split: option.splits)

lemma copy_memento_again:
  assumes "json_stable jany" and "copy_memento jany m = Inr x"
  shows "copy_memento jany x = Inr x" "me_ID x = me_ID m"
  using assms copy_map_again [OF assms(1)] copy_state_opt_again [OF assms(1)] by (auto simp: copy_memento_def)

text \<open>Caretakers that calls can lead to.\<close>

inductive care_run :: "json_any \<Rightarrow> caretaker \<Rightarrow> bool" for jany where
  new: "care_run jany NewInMemoryMementoCaretaker"
| save: "care_run jany ct \<Longrightarrow> Save jany ct m = (ct', e) \<Longrightarrow> care_run jany ct'"
| delete: "care_run jany ct \<Longrightarrow> Delete_memento ct mid = (ct', e) \<Longrightarrow> care_run jany ct'"
| resolve: "care_run jany ct \<Longrightarrow> Resolve_auditable jany t ar ctx c ct = Some (ct', logs, r) \<Longrightarrow> care_run jany ct'"

definition care_ok :: "json_any \<Rightarrow> caretaker \<Rightarrow> bool" where
  "care_ok jany ct \<longleftrightarrow> (\<forall>k m. fmlookup ct k = Some m \<longrightarrow> me_ID m = k \<and> copy_memento jany m = Inr m)"

lemma Save_ok: "json_stable jany \<Longrightarrow> care_ok jany ct \<Longrightarrow> Save jany ct m = (ct', e) \<Longrightarrow> care_ok jany ct'"
proof -
  assume a: "json_stable jany" "care_ok jany ct" "Save jany ct m = (ct', e)"
  then consider "ct' = ct" | x where "copy_memento jany m = Inr x" "ct' = fmupd (me_ID m) x ct"
    by (auto simp: Save_def split: if_splits sum.splits)
  then show "care_ok jany ct'"
  proof cases
    case (2 x)
    with copy_memento_again [OF a(1) 2(1)] a(2) show ?thesis by (simp add: care_ok_def)
  qed (use a(2) in simp)
qed

lemma Resolve_auditable_saves:
  assumes "Resolve_auditable jany t ar ctx c ct = Some (ct', logs, r)"
  shows "\<exists>before m e. before_state c = Some before \<and> ar_wrapped ar ctx c = Some r
    \<and> complete_memento c before r (new_memento t ar ctx c before) = Some m \<and> Save jany ct m = (ct', e)"
proof -
  obtain before res m where b: "before_state c = Some before" "ar_wrapped ar ctx c = Some res"
    "complete_memento c before res (new_memento t ar ctx c before) = Some m"
    and s: "(case Save jany ct m of
        (ct', Some e) \<Rightarrow> Some (ct', if ar_logger ar then [SaveFailed e (me_ID m)] else [], res)
      | (ct', None) \<Rightarrow> Some (ct', if ar_logger ar then [MementoSaved (me_ID m) (cf_AggregateID c)] else [], res)) = Some (ct', logs, r)"
    using assms unfolding Resolve_auditable_def bind_eq_Some_conv by blast
  obtain ct1 e where "Save jany ct m = (ct1, e)" by (cases "Save jany ct m")
  with s have "res = r" "Save jany ct m = (ct', e)" by (auto split: option.splits)
  with b show ?thesis by blast
qed

lemma care_run_ok: "care_run jany ct \<Longrightarrow> json_stable jany \<Longrightarrow> care_ok jany ct"
proof (induction rule: care_run.induct)
  case new
  show ?case by (simp add: care_ok_def NewInMemoryMementoCaretaker_def)
next
  case (save ct m ct' e)
  then show ?case using Save_ok by blast
next
  case (delete ct mid ct' e)
  then show ?case by (auto simp: Delete_memento_def care_ok_def split: option.splits if_splits)
next
  case (resolve ct t ar ctx c ct' logs r)
  then show ?case using Save_ok Resolve_auditable_saves by blast
qed

lemma list_loop_ok:
  assumes "care_ok jany ct"
  shows "list_loop jany ct k ks = [m \<leftarrow> List.map_filter (fmlookup ct) ks. matchesCriteria m k]"
  using assms by (induction ks) (auto simp: care_ok_def List.map_filter_def split: option.splits)

section \<open>Properties\<close>

text \<open>
  A saved memento is found again under its identifier: it is returned with all its serialised fields as JSON keeps them and
  without the internal ones, and all other mementos are as before, provided that what JSON makes of a value is stable.
\<close>

theorem memento_Save_Get:
  assumes "json_stable jany" and "Save jany ct m = (ct', None)"
  shows "\<exists>x. copy_memento jany m = Inr x \<and> Get_memento jany ct' (me_ID m) = Inr x \<and> me_ID x = me_ID m
    \<and> me_Timestamp x = me_Timestamp m \<and> me_AggregateID x = me_AggregateID m \<and> me_Decision x = me_Decision m \<and> me_Reasons x = me_Reasons m
    \<and> me_OriginalConflict x = None \<and> (\<forall>k. k \<noteq> me_ID m \<longrightarrow> Get_memento jany ct' k = Get_memento jany ct k)"
proof -
  obtain x where x: "copy_memento jany m = Inr x" "ct' = fmupd (me_ID m) x ct"
    using assms(2) by (auto simp: Save_def split: if_splits sum.splits)
  have "me_Timestamp x = me_Timestamp m \<and> me_AggregateID x = me_AggregateID m \<and> me_Decision x = me_Decision m
    \<and> me_Reasons x = me_Reasons m \<and> me_OriginalConflict x = None" using x(1) by (auto simp: copy_memento_def)
  with x copy_memento_again [OF assms(1) x(1)] show ?thesis by (auto simp: Get_memento_def)
qed

text \<open>
  Wrapping a resolver for auditing and for observation does not change its decisions: where both events and versions of the
  conflict are present and the resolved events are, the auditable resolver returns the result or error of the wrapped one whether or not
  the memento can be saved, and the observable resolver always does.
\<close>

theorem wrappers_transparent:
  assumes "before_state c \<noteq> None" and "\<And>x. r ctx c = Some (Inr x) \<Longrightarrow> \<forall>ev \<in> set (ResolvedEvents x). ev_Event ev \<noteq> None"
  shows "map_option (snd \<circ> snd) (Resolve_auditable jany t (NewAuditableResolver r n [WithAuditLogger b]) ctx c ct) = r ctx c
    \<and> map_option snd (Resolve_observable t0 t1 (ob\<lparr>ob_wrapped := r\<rparr>) ctx c) = r ctx c"
proof
  obtain before where b: "before_state c = Some before" using assms(1) by blast
  show "map_option (snd \<circ> snd) (Resolve_auditable jany t (NewAuditableResolver r n [WithAuditLogger b]) ctx c ct) = r ctx c"
  proof (cases "r ctx c")
    case None
    then show ?thesis by (simp add: Resolve_auditable_def NewAuditableResolver_def WithAuditLogger_def b)
  next
    case (Some res)
    have "\<exists>m'. complete_memento c before res m = Some m'" for m
    proof (cases res)
      case (Inr x)
      then have "\<exists>a. after_state c before x = Some a"
        using assms(2) [of x] Some by (auto simp: after_state_def event_data_def split: list.splits)
      then show ?thesis using Inr by (auto simp: complete_memento_def)
    qed (simp add: complete_memento_def)
    moreover obtain ar where ar: "NewAuditableResolver r n [WithAuditLogger b] = ar" "ar_wrapped ar = r"
      by (simp add: NewAuditableResolver_def WithAuditLogger_def)
    ultimately obtain m where m: "complete_memento c before res (new_memento t ar ctx c before) = Some m" by blast
    obtain ct1 e where "Save jany ct m = (ct1, e)" by (cases "Save jany ct m")
    then show ?thesis using Some b m ar by (cases e) (simp_all add: Resolve_auditable_def)
  qed
  show "map_option snd (Resolve_observable t0 t1 (ob\<lparr>ob_wrapped := r\<rparr>) ctx c) = r ctx c"
    by (cases "r ctx c") (simp_all add: Resolve_observable_def Let_def)
qed

lemma set_map_filter_fmlookup: "set (List.map_filter (fmlookup ct) ks) = {m. \<exists>k \<in> set ks. fmlookup ct k = Some m}"
  by (induction ks) (auto simp: map_filter_simps split: option.splits)

lemma GetAuditTrail_members:
  assumes "care_ok jany ct" and "agg \<noteq> []" and "distinct ks" and "set ks = fmdom' ct"
  shows "\<exists>ms. GetAuditTrail_caretaker jany ks ct agg = Inr ms \<and> set ms = {m. (\<exists>k. fmlookup ct k = Some m) \<and> me_AggregateID m = agg} \<and> distinct ms"
proof -
  let ?k = "Some \<lparr>mc_AggregateID = agg, mc_UserID = [], mc_ResolverName = [], mc_GroupName = [], mc_FromTime = None, mc_ToTime = None,
     mc_Limit = 0, mc_Offset = 0\<rparr>"
  let ?ms = "[m \<leftarrow> List.map_filter (fmlookup ct) ks. matchesCriteria m ?k]"
  have mset: "set (List.map_filter (fmlookup ct) ks) = {m. \<exists>k. fmlookup ct k = Some m}"
    using assms(4) set_map_filter_fmlookup [of ct ks] by (auto simp: fmlookup_dom'_iff)
  have "GetAuditTrail_caretaker jany ks ct agg = Inr ?ms"
    using list_loop_ok [OF assms(1)] by (simp add: GetAuditTrail_caretaker_def List_mementos_def apply_page_def)
  moreover have "set ?ms = {m. (\<exists>k. fmlookup ct k = Some m) \<and> me_AggregateID m = agg}"
    using assms(2) mset by (auto simp: matchesCriteria_def)
  moreover have "distinct (List.map_filter (fmlookup ct) ks)"
  proof -
    have "inj_on (the \<circ> fmlookup ct) (fmdom' ct)"
      using assms(1) unfolding inj_on_def care_ok_def by (metis comp_apply fmlookup_dom'_iff option.sel)
    then show ?thesis using assms(3,4) by (auto simp: List.map_filter_def distinct_map fmlookup_dom'_iff intro: inj_on_subset)
  qed
  ultimately show ?thesis by auto
qed

text \<open>
  The rollback analysis of a saved resolution of a named aggregate succeeds and lists, each once, exactly the saved resolutions
  of the same aggregate with a later time stamp; reprocessing is required exactly when there are any, and the complexity
  goes by their number.
\<close>

theorem rollback_affected:
  assumes "json_stable jany" and "care_run jany ct" and "fmlookup ct mid = Some m" and "me_AggregateID m \<noteq> []"
    and "distinct ks" and "set ks = fmdom' ct"
  shows "\<exists>a. AnalyzeRollback jany ks ct mid = Inr a \<and> TargetMemento a = m \<and> distinct (AffectedResolutions a)
    \<and> set (AffectedResolutions a)
        = {x. (\<exists>k. fmlookup ct k = Some x) \<and> me_AggregateID x = me_AggregateID m \<and> me_Timestamp x > me_Timestamp m}
    \<and> (RequiresReprocessing a \<longleftrightarrow> AffectedResolutions a \<noteq> [])
    \<and> (RollbackComplexity a = ''simple'' \<longleftrightarrow> AffectedResolutions a = [])"
proof -
  have ok: "care_ok jany ct" by (rule care_run_ok [OF assms(2,1)])
  then have g: "Get_memento jany ct mid = Inr m" using assms(3) by (auto simp: Get_memento_def care_ok_def)
  obtain ms where ms: "GetAuditTrail_caretaker jany ks ct (me_AggregateID m) = Inr ms"
    "set ms = {x. (\<exists>k. fmlookup ct k = Some x) \<and> me_AggregateID x = me_AggregateID m}" "distinct ms"
    using GetAuditTrail_members [OF ok assms(4-6)] by blast
  then show ?thesis using g by (auto simp: AnalyzeRollback_def Let_def calculateComplexity_def)
qed

text \<open>Paging past the end returns everything instead of nothing.\<close>

lemma page_past_the_end:
  "int (length results) \<le> mc_Offset k \<Longrightarrow> mc_Limit k \<le> 0 \<Longrightarrow> apply_page (Some k) results = results"
  by (simp add: apply_page_def)

text \<open>A conflict without a local version, which last-write-wins decides, makes the auditable resolver panic.\<close>

lemma audit_panics_without_version:
  "ev_Version (cf_Local c) = None \<Longrightarrow> Resolve_auditable jany t (NewAuditableResolver LastWriteWins n []) ctx c ct = None
     \<and> LastWriteWins ctx c \<noteq> None"
  by (simp add: Resolve_auditable_def before_state_def iface_String_def LastWriteWins_def decide_def)

section \<open>Witnesses\<close>

text \<open>A JSON copy that keeps strings and booleans, turns ints into floats and refuses the rest.\<close>

definition simple_json :: json_any where
  "simple_json v = (case v of
      GString s \<Rightarrow> Inr (GString s) | GBool b \<Rightarrow> Inr (GBool b)
    | GInt i \<Rightarrow> Inr (GOther ''float64'' (unat i) (i64_dec i) True)
    | GOther ty x txt cmp \<Rightarrow> if ty = ''float64'' then Inr (GOther ty x txt cmp) else Inl (ErrorString ''json: unsupported type'')
    | _ \<Rightarrow> Inl (ErrorString ''json: unsupported type''))"

lemma simple_json_stable: "json_stable simple_json"
  by (auto simp: json_stable_def simple_json_def split: go_any.splits if_splits)

definition sample_memento :: "string \<Rightarrow> int \<Rightarrow> resolution_memento" where
  "sample_memento mid now = \<lparr>me_ID = mid, me_Timestamp = now, me_EventType = ''T'', me_AggregateID = ''agg'', me_ChangedFields = [],
     me_Metadata = None, me_Decision = ''merge'', me_Reasons = [], me_ResolverName = ''r'', me_RuleName = [], me_GroupName = [],
     me_Context = None, me_UserID = [], me_SessionID = [], me_Origin = [], me_ResolutionDuration = 0, me_BeforeState = None,
     me_AfterState = None, me_OriginalConflict = None, me_ResolvedConflict = None\<rparr>"

lemma sample_memento_copies: "copy_memento simple_json (sample_memento mid now) = Inr (sample_memento mid now)"
  by (simp add: copy_memento_def sample_memento_def copy_map_def copy_state_opt_def)

definition two_mementos :: caretaker where
  "two_mementos = fmupd ''b'' (sample_memento ''b'' 2) (fmupd ''a'' (sample_memento ''a'' 1) fmempty)"

lemma two_mementos_run: "care_run simple_json two_mementos"
proof -
  have "Save simple_json NewInMemoryMementoCaretaker (sample_memento ''a'' 1) = (fmupd ''a'' (sample_memento ''a'' 1) fmempty, None)"
    "Save simple_json (fmupd ''a'' (sample_memento ''a'' 1) fmempty) (sample_memento ''b'' 2) = (two_mementos, None)"
    using sample_memento_copies by (simp_all add: Save_def two_mementos_def NewInMemoryMementoCaretaker_def) (simp_all add: sample_memento_def)
  then show ?thesis by (meson care_run.new care_run.save)
qed

theorem memento_Save_Get_witness:
  "\<exists>ct' x. Save simple_json two_mementos (sample_memento ''c'' 3) = (ct', None) \<and> Get_memento simple_json ct' ''c'' = Inr x \<and> me_Decision x = ''merge''"
proof -
  have "Save simple_json two_mementos (sample_memento ''c'' 3) = (fmupd ''c'' (sample_memento ''c'' 3) two_mementos, None)"
    using sample_memento_copies by (simp add: Save_def) (simp add: sample_memento_def)
  with memento_Save_Get [OF simple_json_stable this] show ?thesis by (auto simp: sample_memento_def)
qed

definition full_conflict :: conflict where
  "full_conflict = sample_conflict\<lparr>cf_Local := \<lparr>ev_Event = Some (New_event 1 ''l'' ''T'' ''agg'' []), ev_Version = Some (IntegerCursor 1)\<rparr>,
     cf_Remote := \<lparr>ev_Event = Some (New_event 2 ''r'' ''T'' ''agg'' []), ev_Version = Some (IntegerCursor 2)\<rparr>\<rparr>"

theorem wrappers_transparent_witness:
  "before_state full_conflict \<noteq> None
    \<and> map_option (snd \<circ> snd) (Resolve_auditable simple_json \<lparr>tm_start = 0, tm_end = 1, tm_id = 2, tm_stamp = 3\<rparr>
        (NewAuditableResolver (\<lambda>_ _. Some (Inl Canceled)) ''r'' [WithAuditLogger True]) None full_conflict two_mementos) = Some (Inl Canceled)"
proof -
  have "before_state full_conflict \<noteq> None"
    by (simp add: before_state_def full_conflict_def iface_String_def event_data_def)
  with wrappers_transparent [of full_conflict "\<lambda>_ _. Some (Inl Canceled)" None simple_json
      "\<lparr>tm_start = 0, tm_end = 1, tm_id = 2, tm_stamp = 3\<rparr>" "''r''" True two_mementos]
  show ?thesis by simp
qed

theorem rollback_affected_witness:
  "\<exists>a. AnalyzeRollback simple_json [''a'', ''b''] two_mementos ''a'' = Inr a \<and> sample_memento ''b'' 2 \<in> set (AffectedResolutions a)
    \<and> RequiresReprocessing a"
proof -
  have l: "fmlookup two_mementos ''a'' = Some (sample_memento ''a'' 1)" "fmlookup two_mementos ''b'' = Some (sample_memento ''b'' 2)"
    "set [''a'', ''b''] = fmdom' two_mementos" "me_AggregateID (sample_memento ''a'' 1) \<noteq> []"
    by (auto simp: two_mementos_def sample_memento_def)
  have "distinct [''a'', ''b'']" by simp
  from rollback_affected [OF simple_json_stable two_mementos_run l(1,4) this l(3)]
  obtain a where a: "AnalyzeRollback simple_json [''a'', ''b''] two_mementos ''a'' = Inr a" "RequiresReprocessing a \<longleftrightarrow> AffectedResolutions a \<noteq> []"
    "set (AffectedResolutions a) = {x. (\<exists>k. fmlookup two_mementos k = Some x) \<and> me_AggregateID x = me_AggregateID (sample_memento ''a'' 1)
       \<and> me_Timestamp x > me_Timestamp (sample_memento ''a'' 1)}" by blast
  have "sample_memento ''b'' 2 \<in> set (AffectedResolutions a)" using a(3) l(2) by (auto simp: sample_memento_def)
  then show ?thesis using a by auto
qed

end
