(* ===== verification/Json_Decode.thy ===== *)
theory Json_Decode
  imports Json_Text Sync_Errors
begin

text \<open>
  What \<open>json.Unmarshal\<close> makes of a text when the target is a \<open>uint64\<close> or a \<open>map[string]uint64\<close>, the two
  types the cursors and the vector clock decode into. The whole text is checked first, so the parser is one
  for all of JSON: white space, literals, numbers in the JSON grammar, strings with their escapes (surrogate
  pairs included, bytes that are no UTF-8 replaced by U+FFFD), arrays and objects up to a nesting depth of
  10000. A null leaves the zero value, a repeated key keeps the last value, and a number that is no
  unsigned 64-bit integer is a type error. The message of a syntax error, which names the offending
  character, is not modelled: \<open>json_syntax_error\<close> stands for all of them.

  The parser and the text of theory \<open>Json_Text\<close> are inverse to each other on maps whose
  keys are valid UTF-8 (\<open>unmarshal_json_counters\<close>).
\<close>

section \<open>Values and lexical parts\<close>

datatype json =
    JNull
  | JBool bool
  | JNum string
  | JStr string
  | JArr "json list"
  | JObj "(string \<times> json) list"

definition is_ws :: "char \<Rightarrow> bool" where
  "is_ws c \<longleftrightarrow> byte_of c \<in> {32, 9, 13, 10}"

definition skip_ws :: "string \<Rightarrow> string" where
  "skip_ws s = dropWhile is_ws s"

definition hex_val :: "char \<Rightarrow> nat option" where
  "hex_val c = (let b = byte_of c in
     if 48 \<le> b \<and> b \<le> 57 then Some (b - 48)
     else if 97 \<le> b \<and> b \<le> 102 then Some (b - 87)
     else if 65 \<le> b \<and> b \<le> 70 then Some (b - 55)
     else None)"

text \<open>Four hexadecimal digits after a backslash and the letter u.\<close>

definition hex4 :: "char \<Rightarrow> char \<Rightarrow> char \<Rightarrow> char \<Rightarrow> nat option" where
  "hex4 a b c d = do {
     w \<leftarrow> hex_val a; x \<leftarrow> hex_val b; y \<leftarrow> hex_val c; z \<leftarrow> hex_val d;
     Some (4096 * w + 256 * x + 16 * y + z) }"

definition utf8_enc :: "nat \<Rightarrow> string" where
  "utf8_enc r =
     (if r < 128 then [char_of r]
      else if r < 2048 then [char_of (192 + r div 64), char_of (128 + r mod 64)]
      else if r < 65536 then [char_of (224 + r div 4096), char_of (128 + r div 64 mod 64), char_of (128 + r mod 64)]
      else [char_of (240 + r div 262144), char_of (128 + r div 4096 mod 64), char_of (128 + r div 64 mod 64),
            char_of (128 + r mod 64)])"

definition rune_error :: string where
  "rune_error = utf8_enc 65533"

definition simple_escape :: "char \<Rightarrow> char option" where
  "simple_escape c = (let b = byte_of c in
     if b \<in> {34, 92, 47} then Some c
     else if b = 98 then Some (char_of (8 :: nat)) else if b = 102 then Some (char_of (12 :: nat))
     else if b = 110 then Some (char_of (10 :: nat)) else if b = 114 then Some (char_of (13 :: nat))
     else if b = 116 then Some (char_of (9 :: nat)) else None)"

text \<open>The low half of a surrogate pair, if the rest of the string starts with its escape.\<close>

definition low_surrogate :: "string \<Rightarrow> nat option" where
  "low_surrogate s = (case s of
       x # u # a # b # c # d # _ \<Rightarrow>
         (if x = CHR 0x5C \<and> u = CHR ''u'' then
            (case hex4 a b c d of Some l \<Rightarrow> if 56320 \<le> l \<and> l \<le> 57343 then Some l else None | None \<Rightarrow> None)
          else None)
     | _ \<Rightarrow> None)"

definition put_front :: "string \<Rightarrow> (string \<times> string) option \<Rightarrow> (string \<times> string) option" where
  "put_front t r = map_option (\<lambda>(u, rest). (t @ u, rest)) r"

text \<open>A string after its opening quote: the decoded bytes and what follows the closing quote.\<close>

function scan_string :: "string \<Rightarrow> (string \<times> string) option" where
  "scan_string [] = None"
| "scan_string (c # s) =
     (if c = CHR 0x22 then Some ([], s)
      else if c = CHR 0x5C then
        (case s of
           [] \<Rightarrow> None
         | e # r \<Rightarrow>
             if e = CHR ''u'' then
               (if length r < 4 then None
                else case hex4 (r ! 0) (r ! 1) (r ! 2) (r ! 3) of
                  None \<Rightarrow> None
                | Some h \<Rightarrow>
                    if 55296 \<le> h \<and> h \<le> 57343 then
                      (case (if h \<le> 56319 then low_surrogate (drop 4 r) else None) of
                         Some l \<Rightarrow> put_front (utf8_enc (65536 + (h - 55296) * 1024 + (l - 56320))) (scan_string (drop 10 r))
                       | None \<Rightarrow> put_front rune_error (scan_string (drop 4 r)))
                    else put_front (utf8_enc h) (scan_string (drop 4 r)))
             else (case simple_escape e of None \<Rightarrow> None | Some x \<Rightarrow> put_front [x] (scan_string r)))
      else if byte_of c < 32 then None
      else if byte_of c < 128 then put_front [c] (scan_string s)
      else let n = utf8_len (c # s) in
        if n = 0 then put_front rune_error (scan_string s)
        else put_front (take n (c # s)) (scan_string (drop (n - 1) s)))"
  by pat_completeness auto
termination
  by (relation "measure length") (auto simp: less_Suc_eq_le)

declare scan_string.simps(2) [simp del]

definition span_digits :: "string \<Rightarrow> string \<times> string" where
  "span_digits s = (takeWhile is_digit s, dropWhile is_digit s)"

text \<open>The integer part, the fraction and the exponent of a number: the text read and the rest.\<close>

definition scan_int :: "string \<Rightarrow> (string \<times> string) option" where
  "scan_int s = (case s of
       [] \<Rightarrow> None
     | c # r \<Rightarrow> if c = CHR ''0'' then Some ([c], r) else if is_digit c then Some (span_digits s) else None)"

definition scan_frac :: "string \<Rightarrow> (string \<times> string) option" where
  "scan_frac s = (case s of
       [] \<Rightarrow> Some ([], [])
     | c # r \<Rightarrow> if c = CHR ''.'' then (let (ds, t) = span_digits r in if ds = [] then None else Some (c # ds, t))
                else Some ([], s))"

definition scan_exp :: "string \<Rightarrow> (string \<times> string) option" where
  "scan_exp s = (case s of
       [] \<Rightarrow> Some ([], [])
     | c # r \<Rightarrow>
         if c = CHR ''e'' \<or> c = CHR ''E'' then
           (let (sg, r') = (case r of x # y \<Rightarrow> if x = CHR ''+'' \<or> x = CHR ''-'' then ([x], y) else ([], r) | [] \<Rightarrow> ([], []));
                (ds, t) = span_digits r'
            in if ds = [] then None else Some (c # sg @ ds, t))
         else Some ([], s))"

definition scan_number :: "string \<Rightarrow> (string \<times> string) option" where
  "scan_number s = do {
     let (neg, s1) = (case s of c # r \<Rightarrow> if c = CHR ''-'' then ([c], r) else ([], s) | [] \<Rightarrow> ([], []));
     (i, s2) \<leftarrow> scan_int s1;
     (f, s3) \<leftarrow> scan_frac s2;
     (e, s4) \<leftarrow> scan_exp s3;
     Some (neg @ i @ f @ e, s4) }"

definition scan_literal :: "string \<Rightarrow> json \<Rightarrow> string \<Rightarrow> (json \<times> string) option" where
  "scan_literal w v s = (if take (length w) s = w then Some (v, drop (length w) s) else None)"

section \<open>Parser\<close>

text \<open>
  A value, the elements of an array after its bracket and the members of an object after its brace. The first
  argument counts the levels of nesting that are left. The comparisons of lengths always hold, they make the
  recursion visibly end.
\<close>

function (sequential) parse_value :: "nat \<Rightarrow> string \<Rightarrow> (json \<times> string) option"
  and parse_elements :: "nat \<Rightarrow> string \<Rightarrow> (json list \<times> string) option"
  and parse_members :: "nat \<Rightarrow> string \<Rightarrow> ((string \<times> json) list \<times> string) option"
where
  "parse_value d s =
     (case skip_ws s of
        [] \<Rightarrow> None
      | c # r \<Rightarrow>
          if length r \<ge> length s then None
          else if c = CHR ''{'' then
            (if d = 0 then None
             else (case skip_ws r of
                     x # t \<Rightarrow> if x = CHR ''}'' then Some (JObj [], t)
                              else map_option (\<lambda>(ms, t). (JObj ms, t)) (parse_members (d - 1) r)
                   | [] \<Rightarrow> None))
          else if c = CHR ''['' then
            (if d = 0 then None
             else (case skip_ws r of
                     x # t \<Rightarrow> if x = CHR '']'' then Some (JArr [], t)
                              else map_option (\<lambda>(vs, t). (JArr vs, t)) (parse_elements (d - 1) r)
                   | [] \<Rightarrow> None))
          else if c = CHR 0x22 then map_option (\<lambda>(t, u). (JStr t, u)) (scan_string r)
          else if c = CHR ''t'' then scan_literal ''true'' (JBool True) (c # r)
          else if c = CHR ''f'' then scan_literal ''false'' (JBool False) (c # r)
          else if c = CHR ''n'' then scan_literal ''null'' JNull (c # r)
          else map_option (\<lambda>(t, u). (JNum t, u)) (scan_number (c # r)))"
| "parse_elements d s =
     (case parse_value d s of
        None \<Rightarrow> None
      | Some (v, r) \<Rightarrow>
          (case skip_ws r of
             [] \<Rightarrow> None
           | c # t \<Rightarrow>
               if c = CHR '']'' then Some ([v], t)
               else if c = CHR '','' \<and> length t < length s
                 then map_option (\<lambda>(vs, u). (v # vs, u)) (parse_elements d t)
               else None))"
| "parse_members d s =
     (case skip_ws s of
        [] \<Rightarrow> None
      | q # r \<Rightarrow>
          if q \<noteq> CHR 0x22 then None
          else (case scan_string r of
             None \<Rightarrow> None
           | Some (k, r1) \<Rightarrow>
               (case skip_ws r1 of
                  [] \<Rightarrow> None
                | c # r2 \<Rightarrow>
                    if c \<noteq> CHR '':'' \<or> length r2 \<ge> length s then None
                    else (case parse_value d r2 of
                       None \<Rightarrow> None
                     | Some (v, r3) \<Rightarrow>
                         (case skip_ws r3 of
                            [] \<Rightarrow> None
                          | e # t \<Rightarrow>
                              if e = CHR ''}'' then Some ([(k, v)], t)
                              else if e = CHR '','' \<and> length t < length s
                                then map_option (\<lambda>(ms, u). ((k, v) # ms, u)) (parse_members d t)
                              else None)))))"
  by pat_completeness auto
termination
  by (relation "measure (\<lambda>x. case x of Inl (_, s) \<Rightarrow> 2 * length s | Inr (Inl (_, s)) \<Rightarrow> 2 * length s + 1
        | Inr (Inr (_, s)) \<Rightarrow> 2 * length s + 1)") auto

declare parse_value.simps [simp del] parse_elements.simps [simp del] parse_members.simps [simp del]

definition maxNestingDepth :: nat where
  "maxNestingDepth = 10000"

definition json_syntax_error :: go_error where
  "json_syntax_error = ErrorString ''json: syntax error''"

definition parse_json :: "string \<Rightarrow> json option" where
  "parse_json s = (case parse_value maxNestingDepth s of
       None \<Rightarrow> None | Some (v, r) \<Rightarrow> if skip_ws r = [] then Some v else None)"

section \<open>Decoding into Go types\<close>

definition type_error :: "string \<Rightarrow> string \<Rightarrow> go_error" where
  "type_error what ty = ErrorString (''json: cannot unmarshal '' @ what @ '' into Go value of type '' @ ty)"

definition parse_uint :: "string \<Rightarrow> u64 option" where
  "parse_uint s = (if s \<noteq> [] \<and> list_all is_digit s \<and> dec_val s < 2 ^ 64 then Some (of_nat (dec_val s)) else None)"

fun value_kind :: "json \<Rightarrow> string" where
  "value_kind JNull = ''null''"
| "value_kind (JBool _) = ''bool''"
| "value_kind (JNum t) = ''number '' @ t"
| "value_kind (JStr _) = ''string''"
| "value_kind (JArr _) = ''array''"
| "value_kind (JObj _) = ''object''"

text \<open>Decoding into a variable that holds zero: null leaves it unchanged.\<close>

definition decode_uint64 :: "json \<Rightarrow> go_error + u64" where
  "decode_uint64 v = (case v of
       JNull \<Rightarrow> Inr 0
     | JNum t \<Rightarrow> (case parse_uint t of Some n \<Rightarrow> Inr n | None \<Rightarrow> Inl (type_error (value_kind v) ''uint64''))
     | _ \<Rightarrow> Inl (type_error (value_kind v) ''uint64''))"

text \<open>The members of an object in order; the first type error is the one that is reported.\<close>

fun decode_members :: "(string, u64) fmap \<Rightarrow> (string \<times> json) list \<Rightarrow> go_error + (string, u64) fmap" where
  "decode_members f [] = Inr f"
| "decode_members f ((k, v) # ms) =
     (case decode_uint64 v of Inl e \<Rightarrow> Inl e | Inr n \<Rightarrow> decode_members (fmupd k n f) ms)"

text \<open>Decoding into a map variable, whose old entries stay unless the text is null.\<close>

definition kind_of_number :: "json \<Rightarrow> string" where
  "kind_of_number v = (case v of JNum _ \<Rightarrow> ''number'' | _ \<Rightarrow> value_kind v)"

definition decode_counters :: "(string, u64) gomap \<Rightarrow> json \<Rightarrow> go_error + (string, u64) gomap" where
  "decode_counters m v = (case v of
       JNull \<Rightarrow> Inr None
     | JObj ms \<Rightarrow> (case decode_members (gm_fmap m) ms of Inl e \<Rightarrow> Inl e | Inr f \<Rightarrow> Inr (Some f))
     | _ \<Rightarrow> Inl (type_error (kind_of_number v) ''map[string]uint64''))"

definition Unmarshal_uint64 :: "string \<Rightarrow> go_error + u64" where
  "Unmarshal_uint64 data = (case parse_json data of None \<Rightarrow> Inl json_syntax_error | Some v \<Rightarrow> decode_uint64 v)"

definition Unmarshal_counters :: "(string, u64) gomap \<Rightarrow> string \<Rightarrow> go_error + (string, u64) gomap" where
  "Unmarshal_counters m data = (case parse_json data of None \<Rightarrow> Inl json_syntax_error | Some v \<Rightarrow> decode_counters m v)"

section \<open>Reading back what was written\<close>

function valid_utf8 :: "string \<Rightarrow> bool" where
  "valid_utf8 [] = True"
| "valid_utf8 (c # s) =
     (if byte_of c < 128 then valid_utf8 s
      else utf8_len (c # s) \<noteq> 0 \<and> valid_utf8 (drop (utf8_len (c # s) - 1) s))"
  by pat_completeness auto
termination
  by (relation "measure length") (auto simp: less_Suc_eq_le)

lemma byte_of_char_of [simp]: "n < 256 \<Longrightarrow> byte_of (char_of n) = n"
  by (simp add: byte_of_def)

lemma char_of_byte_of [simp]: "char_of (byte_of c) = c"
  by (simp add: byte_of_def)

lemma byte_of_less [simp]: "byte_of c < 256"
  using of_char_of [of "byte_of c"] by (simp add: byte_of_def)

lemma byte_of_eq_iff: "n < 256 \<Longrightarrow> byte_of c = n \<longleftrightarrow> c = char_of n"
  by (metis byte_of_char_of char_of_byte_of)

lemma put_front_Some [simp]: "put_front t (Some (u, r)) = Some (t @ u, r)"
  by (simp add: put_front_def)

lemma put_front_append: "put_front a (put_front b r) = put_front (a @ b) r"
  by (cases r) (auto simp: put_front_def)

lemma hex_val_hex_digit: "d < 16 \<Longrightarrow> hex_val (hex_digit d) = Some d"
  by (auto simp: hex_val_def hex_digit_def Let_def)

lemma hex4_byte:
  assumes "b < 128"
  shows "hex4 (CHR ''0'') (CHR ''0'') (hex_digit (b div 16)) (hex_digit (b mod 16)) = Some b"
proof -
  have "hex_val (CHR ''0'') = Some 0" by (simp add: hex_val_def byte_of_def)
  moreover have "16 * (b div 16) + b mod 16 = b" by simp
  ultimately show ?thesis using assms by (simp add: hex4_def hex_val_hex_digit)
qed

lemma scan_string_plain:
  assumes "32 \<le> byte_of c" and "byte_of c < 128" and "byte_of c \<noteq> 34" and "byte_of c \<noteq> 92"
  shows "scan_string (c # r) = put_front [c] (scan_string r)"
proof -
  have "c \<noteq> CHR 0x22" "c \<noteq> CHR 0x5C" using assms by (auto simp: byte_of_def)
  with assms show ?thesis by (simp add: scan_string.simps)
qed

lemma scan_string_simple:
  assumes "simple_escape e = Some x" and "e \<noteq> CHR ''u''"
  shows "scan_string (CHR 0x5C # e # r) = put_front [x] (scan_string r)"
  using assms by (simp add: scan_string.simps)

lemma scan_string_hex:
  assumes "hex4 a b c d = Some h" and "h < 55296 \<or> 57343 < h"
  shows "scan_string (CHR 0x5C # CHR ''u'' # a # b # c # d # r) = put_front (utf8_enc h) (scan_string r)"
  using assms by (auto simp: scan_string.simps)

lemma escaped_chars:
  "char_of (34 :: nat) = CHR 0x22" "char_of (92 :: nat) = CHR 0x5C" "char_of (8 :: nat) = CHR 0x08" "char_of (12 :: nat) = CHR 0x0C"
  "char_of (10 :: nat) = CHR 0x0A" "char_of (13 :: nat) = CHR 0x0D" "char_of (9 :: nat) = CHR 0x09"
  by code_simp+

lemma simple_escapes:
  "simple_escape (CHR 0x22) = Some (CHR 0x22)" "simple_escape (CHR 0x5C) = Some (CHR 0x5C)" "simple_escape (CHR ''b'') = Some (CHR 0x08)"
  "simple_escape (CHR ''f'') = Some (CHR 0x0C)" "simple_escape (CHR ''n'') = Some (CHR 0x0A)" "simple_escape (CHR ''r'') = Some (CHR 0x0D)"
  "simple_escape (CHR ''t'') = Some (CHR 0x09)"
  by code_simp+

lemma escape_simple:
  "escape_ascii (CHR 0x22) = [CHR 0x5C, CHR 0x22]" "escape_ascii (CHR 0x5C) = [CHR 0x5C, CHR 0x5C]"
  "escape_ascii (CHR 0x08) = [CHR 0x5C, CHR ''b'']" "escape_ascii (CHR 0x0C) = [CHR 0x5C, CHR ''f'']"
  "escape_ascii (CHR 0x0A) = [CHR 0x5C, CHR ''n'']" "escape_ascii (CHR 0x0D) = [CHR 0x5C, CHR ''r'']"
  "escape_ascii (CHR 0x09) = [CHR 0x5C, CHR ''t'']"
  by code_simp+

lemma scan_escape_ascii:
  assumes "byte_of c < 128"
  shows "scan_string (escape_ascii c @ r) = put_front [c] (scan_string r)"
proof -
  let ?b = "byte_of c"
  consider "?b = 34" | "?b = 92" | "?b = 8" | "?b = 12" | "?b = 10" | "?b = 13" | "?b = 9"
    | "?b \<notin> {34, 92, 8, 12, 10, 13, 9}" "?b < 32 \<or> ?b = 60 \<or> ?b = 62 \<or> ?b = 38"
    | "?b \<notin> {34, 92, 8, 12, 10, 13, 9}" "\<not> (?b < 32 \<or> ?b = 60 \<or> ?b = 62 \<or> ?b = 38)" by blast
  then show ?thesis
  proof cases
    case 8
    then have e: "escape_ascii c = [CHR 0x5C, CHR ''u'', CHR ''0'', CHR ''0'', hex_digit (?b div 16), hex_digit (?b mod 16)]"
      by (simp add: escape_ascii_def Let_def)
    have "utf8_enc ?b = [c]" using assms by (simp add: utf8_enc_def)
    then show ?thesis using scan_string_hex [OF hex4_byte [OF assms], of r] assms e by simp
  next
    case 9
    then show ?thesis using scan_string_plain [of c r] assms by (simp add: escape_ascii_def Let_def)
  qed (simp_all add: byte_of_eq_iff escaped_chars escape_simple scan_string_simple simple_escapes)
qed

lemma utf8_len_bound: "utf8_len s \<le> length s"
  by (induction s rule: utf8_len.induct) (auto simp: Let_def split: list.splits)

lemma take_length_take: "n \<le> length xs \<Longrightarrow> take n (take n xs @ r) = take n xs"
  by simp

lemma utf8_len_prefix:
  assumes "utf8_len s \<noteq> 0"
  shows "utf8_len (take (utf8_len s) s @ r) = utf8_len s"
proof (cases s rule: utf8_len.cases)
  case (1 a b t)
  then show ?thesis using assms
    by (auto simp: Let_def split: list.splits if_splits)
qed (use assms in auto)

lemma scan_string_high:
  assumes "128 \<le> byte_of c" and "utf8_len (c # u) = Suc m"
  shows "scan_string (c # u) = put_front (c # take m u) (scan_string (drop m u))"
proof -
  have c: "c \<noteq> CHR 0x22" "c \<noteq> CHR 0x5C" "\<not> byte_of c < 32" "\<not> byte_of c < 128" using assms(1) by (auto simp: byte_of_def)
  show ?thesis
    by (subst scan_string.simps(2)) (simp only: c if_False Let_def assms(2) nat.simps take_Suc_Cons diff_Suc_1)
qed

lemma scan_string_multibyte:
  assumes "128 \<le> byte_of c" and "utf8_len (c # s) = Suc m"
  shows "scan_string (c # take m s @ r) = put_front (c # take m s) (scan_string r)"
proof -
  have m: "m \<le> length s" using utf8_len_bound [of "c # s"] assms(2) by simp
  have "utf8_len (c # (take m s @ r)) = Suc m" using utf8_len_prefix [of "c # s" r] assms(2) by simp
  from scan_string_high [OF assms(1) this] m show ?thesis by simp
qed

lemma separator_bytes:
  "char_of (226 :: nat) = CHR 0xE2" "char_of (128 :: nat) = CHR 0x80" "char_of (168 :: nat) = CHR 0xA8" "char_of (169 :: nat) = CHR 0xA9"
  by code_simp+

lemma utf8_enc_separators:
  "hex4 (CHR ''2'') (CHR ''0'') (CHR ''2'') (CHR ''8'') = Some 8232" "utf8_enc 8232 = [CHR 0xE2, CHR 0x80, CHR 0xA8]"
  "hex4 (CHR ''2'') (CHR ''0'') (CHR ''2'') (CHR ''9'') = Some 8233" "utf8_enc 8233 = [CHR 0xE2, CHR 0x80, CHR 0xA9]"
  by (simp_all add: hex4_def hex_val_def byte_of_def utf8_enc_def separator_bytes)

lemma take3_separator:
  assumes "take 3 (c # s) = [CHR 0xE2, CHR 0x80, x]" and "utf8_len (c # s) \<noteq> 0"
  shows "utf8_len (c # s) = 3"
proof -
  obtain t where "c # s = CHR 0xE2 # CHR 0x80 # x # t" using assms(1) by (cases s; cases "tl s") auto
  then show ?thesis using assms(2) by (auto simp: Let_def byte_of_def split: if_splits)
qed

lemma scan_json_escape: "valid_utf8 k \<Longrightarrow> scan_string (json_escape k @ r) = put_front k (scan_string r)"
proof (induction k rule: json_escape.induct)
  case 1
  then show ?case by (cases "scan_string r") (auto simp: put_front_def)
next
  case (2 c s)
  show ?case
  proof (cases "byte_of c < 128")
    case True
    then show ?thesis using 2 by (simp add: scan_escape_ascii put_front_append)
  next
    case False
    let ?n = "utf8_len (c # s)" and ?x = "take 3 (c # s)"
    have n: "?n \<noteq> 0" and v: "valid_utf8 (drop (?n - 1) s)" using 2(6) False by auto
    obtain m where m: "?n = Suc m" using n by (cases ?n) auto
    have two: "take 2 s = [x, y] \<Longrightarrow> x # y # drop 2 s = s" for x y
      using append_take_drop_id [of 2 s] by simp
    have join: "take ?n (c # s) @ drop (?n - 1) s = c # s" using m by simp
    show ?thesis
    proof (cases "?x = [CHR 0xE2, CHR 0x80, CHR 0xA8] \<or> ?x = [CHR 0xE2, CHR 0x80, CHR 0xA9]")
      case True
      then have three: "?n = 3" using take3_separator n by blast
      have "scan_string (json_escape (drop (?n - 1) s) @ r) = put_front (drop (?n - 1) s) (scan_string r)"
        using 2(3,4) False n True v by auto
      then show ?thesis using False n True join three
        by (auto simp: scan_string_hex [OF utf8_enc_separators(1)] scan_string_hex [OF utf8_enc_separators(3)]
            utf8_enc_separators put_front_append Let_def two)
    next
      case no: False
      have "scan_string (json_escape (drop (?n - 1) s) @ r) = put_front (drop (?n - 1) s) (scan_string r)"
        using 2(5) False n no v by auto
      moreover have "json_escape (c # s) = take ?n (c # s) @ json_escape (drop (?n - 1) s)"
        using False n no by (auto simp: Let_def)
      ultimately show ?thesis using scan_string_multibyte [of c s m "json_escape (drop m s) @ r"] False m
        by (simp add: put_front_append del: json_escape.simps)
    qed
  qed
qed

lemma nat_dec_head:
  assumes "nat_dec n = c # cs"
  shows "is_digit c \<and> (c = CHR ''0'' \<longrightarrow> cs = [])"
  using assms
proof (induction n arbitrary: c cs rule: nat_dec.induct)
  case (1 n)
  show ?case
  proof (cases "n < 10")
    case True
    then show ?thesis using 1(2) by (auto simp: nat_dec.simps [of n])
  next
    case False
    then obtain ds where ds: "nat_dec (n div 10) = c # ds" "cs = ds @ [digit_char (n mod 10)]"
      using 1(2) by (cases "nat_dec (n div 10)") (auto simp: nat_dec.simps [of n])
    have d: "is_digit c \<and> (c = CHR ''0'' \<longrightarrow> ds = [])" using 1(1) [OF False ds(1)] .
    have "c \<noteq> CHR ''0''"
    proof
      assume "c = CHR ''0''"
      moreover have "nat_dec 0 = ''0''" by code_simp
      ultimately have "nat_dec (n div 10) = nat_dec 0" using d ds(1) by simp
      then show False using False by simp
    qed
    then show ?thesis using d by simp
  qed
qed

definition ends_number :: "string \<Rightarrow> bool" where
  "ends_number r \<longleftrightarrow> (case r of [] \<Rightarrow> True | c # _ \<Rightarrow> \<not> is_digit c \<and> c \<notin> {CHR ''.'', CHR ''e'', CHR ''E''})"

lemma span_digits_stop: "(\<And>c. c \<in> set ds \<Longrightarrow> is_digit c) \<Longrightarrow> ends_number r \<Longrightarrow> span_digits (ds @ r) = (ds, r)"
  by (cases r) (auto simp: span_digits_def ends_number_def takeWhile_append2 dropWhile_append2)

lemma is_digit_chars: "\<not> is_digit (CHR ''-'')" "\<not> is_digit (CHR ''{'')" "\<not> is_digit (CHR ''['')" "\<not> is_digit (CHR 0x22)"
  "\<not> is_digit (CHR ''t'')" "\<not> is_digit (CHR ''f'')" "\<not> is_digit (CHR ''n'')" "\<not> is_digit (CHR '','')" "\<not> is_digit (CHR ''}'')"
  by (simp_all add: is_digit_def)

lemma is_digit_not_ws: "is_digit c \<Longrightarrow> \<not> is_ws c"
  by (auto simp: is_digit_def is_ws_def byte_of_def)

lemma scan_number_dec:
  assumes "ends_number r"
  shows "scan_number (nat_dec n @ r) = Some (nat_dec n, r)"
proof -
  obtain c cs where cs: "nat_dec n = c # cs" by (cases "nat_dec n") auto
  have c: "is_digit c" "c = CHR ''0'' \<Longrightarrow> cs = []" using nat_dec_head [OF cs] by auto
  have "c \<noteq> CHR ''-''" using c(1) is_digit_chars by auto
  moreover have "scan_int (c # cs @ r) = Some (c # cs, r)"
    using c span_digits_stop [of "c # cs" r] nat_dec_digits [of _ n] assms cs by (auto simp: scan_int_def)
  moreover have "scan_frac r = Some ([], r)" "scan_exp r = Some ([], r)"
    using assms by (auto simp: scan_frac_def scan_exp_def ends_number_def split: list.splits)
  ultimately show ?thesis using cs by (simp add: scan_number_def)
qed

lemma skip_ws_Cons [simp]: "\<not> is_ws c \<Longrightarrow> skip_ws (c # s) = c # s" "skip_ws [] = []"
  by (simp_all add: skip_ws_def)

lemma not_ws [simp]: "\<not> is_ws (CHR ''{'')" "\<not> is_ws (CHR ''}'')" "\<not> is_ws (CHR '':'')" "\<not> is_ws (CHR '','')" "\<not> is_ws (CHR 0x22)"
  "\<not> is_ws (CHR ''n'')"
  by (simp_all add: is_ws_def byte_of_def)

lemma parse_value_dec:
  assumes "ends_number r"
  shows "parse_value d (nat_dec n @ r) = Some (JNum (nat_dec n), r)"
proof -
  obtain c cs where cs: "nat_dec n = c # cs" by (cases "nat_dec n") auto
  have c: "is_digit c" using nat_dec_head [OF cs] by auto
  then have "c \<notin> {CHR ''{'', CHR ''['', CHR 0x22, CHR ''t'', CHR ''f'', CHR ''n''}" using is_digit_chars by auto
  then show ?thesis using scan_number_dec [OF assms, of n] is_digit_not_ws [OF c] cs by (simp add: parse_value.simps)
qed

lemma parse_uint_dec: "parse_uint (u64_dec v) = Some v"
  using unat_le_max [of v] by (simp add: parse_uint_def u64_dec_def list_all_iff nat_dec_digits)

lemma decode_dec: "decode_uint64 (JNum (u64_dec v)) = Inr v"
  by (simp add: decode_uint64_def parse_uint_dec)

lemma unmarshal_u64: "Unmarshal_uint64 (u64_dec v) = Inr v"
proof -
  have "parse_json (u64_dec v) = Some (JNum (u64_dec v))"
    using parse_value_dec [of "[]" maxNestingDepth "unat v"] by (simp add: parse_json_def u64_dec_def ends_number_def)
  then show ?thesis by (simp add: Unmarshal_uint64_def decode_dec)
qed

section \<open>Maps of counters read back\<close>

lemma scan_json_string: "valid_utf8 k \<Longrightarrow> scan_string (json_escape k @ CHR 0x22 # r) = Some (k, r)"
  by (simp add: scan_json_escape scan_string.simps(2) [of "CHR 0x22"])

lemma parse_members_json:
  assumes "ks \<noteq> []" and "\<And>k. k \<in> set ks \<Longrightarrow> valid_utf8 k"
  shows "parse_members d (join '','' (map (\<lambda>k. json_member k (g k)) ks) @ CHR ''}'' # t)
    = Some (map (\<lambda>k. (k, JNum (u64_dec (g k)))) ks, t)"
  using assms
proof (induction ks rule: induct_list012)
  case (2 k)
  have "ends_number (CHR ''}'' # t)" by (simp add: ends_number_def is_digit_chars)
  then show ?case using 2(2) [of k] parse_value_dec [of "CHR ''}'' # t" d "unat (g k)"]
    by (simp add: parse_members.simps json_member_def json_string_def scan_json_string u64_dec_def)
next
  case (3 k k' ks)
  let ?r = "CHR '','' # join '','' (map (\<lambda>k. json_member k (g k)) (k' # ks)) @ CHR ''}'' # t"
  have "ends_number ?r" by (simp add: ends_number_def is_digit_chars)
  then show ?case using 3(2) 3(4) [of k] 3(4) parse_value_dec [of ?r d "unat (g k)"]
    by (subst parse_members.simps) (simp add: json_member_def json_string_def scan_json_string u64_dec_def)
qed simp

lemma decode_members_json:
  "decode_members f (map (\<lambda>k. (k, JNum (u64_dec (g k)))) ks) = Inr (fold (\<lambda>k m. fmupd k (g k) m) ks f)"
  by (induction ks arbitrary: f) (simp_all add: decode_dec)

lemma fold_fmupd_keys: "fold (\<lambda>k m. fmupd k (the (fmlookup f k)) m) (fm_keys f) fmempty = f"
proof -
  have "fmlookup (fold (\<lambda>k m. fmupd k (the (fmlookup f k)) m) ks m0) x
      = (if x \<in> set ks then Some (the (fmlookup f x)) else fmlookup m0 x)" for ks m0 x
    by (induction ks arbitrary: m0) auto
  then show ?thesis by (auto intro!: fmap_ext simp: fmlookup_dom'_iff)
qed

lemma join_member_head: "ks \<noteq> [] \<Longrightarrow> \<exists>u. join '','' (map (\<lambda>k. json_member k (g k)) ks) = CHR 0x22 # u"
  by (cases ks; cases "tl ks") (auto simp: json_member_def json_string_def)

lemma parse_json_counters:
  assumes "\<And>k. k \<in> fmdom' f \<Longrightarrow> valid_utf8 k"
  shows "parse_json (json_counters (Some f)) = Some (JObj (map (\<lambda>k. (k, JNum (u64_dec (the (fmlookup f k))))) (fm_keys f)))"
proof (cases "fm_keys f = []")
  case True
  then show ?thesis by (simp add: json_counters_def parse_json_def parse_value.simps maxNestingDepth_def)
next
  case False
  let ?j = "join '','' (map (\<lambda>k. json_member k (the (fmlookup f k))) (fm_keys f))"
  obtain u where u: "?j = CHR 0x22 # u" using join_member_head [OF False, of "\<lambda>k. the (fmlookup f k)"] by blast
  have "parse_members (maxNestingDepth - 1) (?j @ CHR ''}'' # []) = Some (map (\<lambda>k. (k, JNum (u64_dec (the (fmlookup f k))))) (fm_keys f), [])"
    by (rule parse_members_json [OF False]) (use assms in auto)
  then show ?thesis by (simp add: u json_counters_def parse_json_def parse_value.simps maxNestingDepth_def)
qed

lemma unmarshal_json_counters:
  assumes "\<And>k. k \<in> fmdom' (gm_fmap m) \<Longrightarrow> valid_utf8 k"
  shows "Unmarshal_counters None (json_counters m) = Inr m" "m \<noteq> None \<Longrightarrow> Unmarshal_counters (Some fmempty) (json_counters m) = Inr m"
proof -
  have "parse_json (json_counters None) = Some JNull"
    by (simp add: json_counters_def parse_json_def parse_value.simps scan_literal_def)
  then show "Unmarshal_counters None (json_counters m) = Inr m"
    using assms by (cases m) (auto simp: Unmarshal_counters_def decode_counters_def parse_json_counters decode_members_json fold_fmupd_keys)
  show "m \<noteq> None \<Longrightarrow> Unmarshal_counters (Some fmempty) (json_counters m) = Inr m"
    using assms by (auto simp: Unmarshal_counters_def decode_counters_def parse_json_counters decode_members_json fold_fmupd_keys)
qed

end
