(* ===== verification/Cursor_Wire.thy ===== *)
theory Cursor_Wire
  imports Mem_Store Json_Decode
begin

text \<open>
  Cursors on the wire (cursor/cursor.go): the registry of codecs, the two codecs of the package, marshalling
  and unmarshalling of wire cursors with the size limit, and the reading of vector clocks from
  text (\<open>NewVectorClockFromString\<close> of version/vector_clock.go). The registry is the state of the
  operations \<open>Register\<close> and \<open>Lookup\<close>; a codec is a record of its three methods. A value of the interface type
  \<open>Cursor\<close> is an integer or vector cursor, or one of another package, which has a kind, a type name and an
  identity.
\<close>

section \<open>Cursors, codecs and the registry\<close>

datatype cursor =
    Integer_cursor u64
  | Vector_cursor "(string, u64) gomap"
  | Other_cursor string string nat

definition KindInteger :: string where "KindInteger = ''integer''"
definition KindVector :: string where "KindVector = ''vector''"

fun cursor_Kind :: "cursor \<Rightarrow> string" where
  "cursor_Kind (Integer_cursor _) = KindInteger"
| "cursor_Kind (Vector_cursor _) = KindVector"
| "cursor_Kind (Other_cursor kind _ _) = kind"

text \<open>The name of the dynamic type, as the verb percent-T prints it.\<close>

fun cursor_type :: "cursor \<Rightarrow> string" where
  "cursor_type (Integer_cursor _) = ''cursor.IntegerCursor''"
| "cursor_type (Vector_cursor _) = ''cursor.VectorCursor''"
| "cursor_type (Other_cursor _ ty _) = ty"

record codec =
  codec_Kind :: string
  codec_Marshal :: "cursor \<Rightarrow> go_error + string"
  codec_Unmarshal :: "string \<Rightarrow> go_error + cursor option"

type_synonym codec_registry = "(string, codec) fmap"

definition Register :: "codec_registry \<Rightarrow> codec \<Rightarrow> codec_registry" where
  "Register reg c = fmupd (codec_Kind c) c reg"

definition Lookup :: "codec_registry \<Rightarrow> string \<Rightarrow> codec option" where
  "Lookup reg kind = fmlookup reg kind"

definition integerCodec :: codec where
  "integerCodec = \<lparr>codec_Kind = KindInteger,
     codec_Marshal = (\<lambda>c. case c of Integer_cursor seq \<Rightarrow> Inr (u64_dec seq)
       | _ \<Rightarrow> Inl (ErrorString (''expected IntegerCursor, got '' @ cursor_type c))),
     codec_Unmarshal = (\<lambda>data. case Unmarshal_uint64 data of Inl e \<Rightarrow> Inl e | Inr seq \<Rightarrow> Inr (Some (Integer_cursor seq)))\<rparr>"

definition vectorCodec :: codec where
  "vectorCodec = \<lparr>codec_Kind = KindVector,
     codec_Marshal = (\<lambda>c. case c of Vector_cursor counters \<Rightarrow> Inr (json_counters counters)
       | _ \<Rightarrow> Inl (ErrorString (''expected VectorCursor, got '' @ cursor_type c))),
     codec_Unmarshal = (\<lambda>data. case Unmarshal_counters None data of Inl e \<Rightarrow> Inl e | Inr m \<Rightarrow> Inr (Some (Vector_cursor m)))\<rparr>"

definition InitDefaultCodecs :: "codec_registry \<Rightarrow> codec_registry" where
  "InitDefaultCodecs reg = Register (Register reg integerCodec) vectorCodec"

section \<open>Wire cursors\<close>

record wire_cursor =
  wc_Kind :: string
  wc_Data :: string

definition maxWireCursorSize :: nat where
  "maxWireCursorSize = 64 * 1024"

text \<open>The method call on a nil cursor panics.\<close>

definition MarshalWire :: "codec_registry \<Rightarrow> cursor option \<Rightarrow> (go_error + wire_cursor) go" where
  "MarshalWire reg co = do {
     c \<leftarrow> co;
     Some (case Lookup reg (cursor_Kind c) of
        None \<Rightarrow> Inl (ErrorString (''unknown cursor kind: '' @ cursor_Kind c))
      | Some cd \<Rightarrow> (case codec_Marshal cd c of
           Inl err \<Rightarrow> Inl err
         | Inr data \<Rightarrow> Inr \<lparr>wc_Kind = codec_Kind cd, wc_Data = data\<rparr>)) }"

definition ValidateWireCursor :: "codec_registry \<Rightarrow> wire_cursor option \<Rightarrow> go_error option" where
  "ValidateWireCursor reg wc = (case wc of
       None \<Rightarrow> Some (ErrorString ''nil wire cursor'')
     | Some w \<Rightarrow>
         if length (wc_Data w) > maxWireCursorSize
           then Some (ErrorString (''cursor payload too large: '' @ nat_dec (length (wc_Data w)) @ '' bytes''))
         else if Lookup reg (wc_Kind w) = None then Some (ErrorString (''unknown cursor kind: '' @ wc_Kind w))
         else None)"

definition UnmarshalWire :: "codec_registry \<Rightarrow> wire_cursor option \<Rightarrow> go_error + cursor option" where
  "UnmarshalWire reg wc = (case ValidateWireCursor reg wc of
       Some err \<Rightarrow> Inl err
     | None \<Rightarrow> (case wc of
         None \<Rightarrow> Inr None
       | Some w \<Rightarrow> (case Lookup reg (wc_Kind w) of
           None \<Rightarrow> Inl (ErrorString (''unknown cursor kind: '' @ wc_Kind w))
         | Some cd \<Rightarrow> codec_Unmarshal cd (wc_Data w))))"

text \<open>
  The two variants that panic on an error. How \<open>encoding/json\<close> reads the two fields of a wire cursor
  is an argument.
\<close>

definition MustMarshalWire :: "codec_registry \<Rightarrow> cursor option \<Rightarrow> wire_cursor go" where
  "MustMarshalWire reg c = MarshalWire reg c \<bind> (\<lambda>r. case r of Inl _ \<Rightarrow> None | Inr wc \<Rightarrow> Some wc)"

definition MustUnmarshalWire :: "(string \<Rightarrow> go_error + wire_cursor) \<Rightarrow> codec_registry \<Rightarrow> string \<Rightarrow> cursor option go" where
  "MustUnmarshalWire read_wire reg data = (case read_wire data of
       Inl _ \<Rightarrow> None
     | Inr wc \<Rightarrow> (case UnmarshalWire reg (Some wc) of Inl _ \<Rightarrow> None | Inr c \<Rightarrow> Some c))"

text \<open>The variable-length encoding of \<open>binary.PutUvarint\<close>: seven bits a byte, least significant first.\<close>

function put_uvarint :: "nat \<Rightarrow> 8 word list" where
  "put_uvarint n = (if n < 128 then [of_nat n] else of_nat (128 + n mod 128) # put_uvarint (n div 128))"
  by pat_completeness auto
termination
  by (relation "measure (\<lambda>n. n)") auto

declare put_uvarint.simps [simp del]

definition EncodeUvarint :: "u64 \<Rightarrow> 8 word list" where
  "EncodeUvarint u = put_uvarint (unat u)"

section \<open>Vector clocks from text\<close>

text \<open>Whether \<open>strings.TrimSpace\<close> leaves nothing of a text.\<close>

definition drop_space :: "string \<Rightarrow> string option" where
  "drop_space s = (case s of c # r \<Rightarrow> if c = CHR 0x0A then Some r else strip_space s | [] \<Rightarrow> None)"

lemma drop_space_shorter: "drop_space s = Some r \<Longrightarrow> length r < length s"
  by (auto simp: drop_space_def dest: strip_space_shorter split: list.splits if_splits)

function all_space :: "string \<Rightarrow> bool" where
  "all_space s = (case drop_space s of None \<Rightarrow> s = [] | Some r \<Rightarrow> all_space r)"
  by pat_completeness auto
termination
  by (relation "measure length") (auto dest: drop_space_shorter)

declare all_space.simps [simp del]

definition NewVectorClockFromString :: "string \<Rightarrow> go_error + vector_clock" where
  "NewVectorClockFromString data =
     (if all_space data \<or> data = ''{}'' then Inr NewVectorClock
      else (case Unmarshal_counters (clocks NewVectorClock) data of
         Inl err \<Rightarrow> Inl (WrapError (''failed to unmarshal vector clock from '' @ [CHR 0x27] @ data @ [CHR 0x27] @ '': '') err)
       | Inr m \<Rightarrow> if [] \<in> set (gm_keys m) then Inl (ErrorString ''vector clock contains empty node ID'')
                  else Inr \<lparr>clocks = m\<rparr>))"

section \<open>Lemmas\<close>

lemma lookup_default:
  assumes "\<And>cd. cd \<in> set cs \<Longrightarrow> codec_Kind cd \<notin> {KindInteger, KindVector}"
  shows "Lookup (foldl Register (InitDefaultCodecs reg) cs) KindInteger = Some integerCodec
    \<and> Lookup (foldl Register (InitDefaultCodecs reg) cs) KindVector = Some vectorCodec"
proof -
  have keep: "k \<notin> codec_Kind ` set cs \<Longrightarrow> fmlookup (foldl Register r cs) k = fmlookup r k" for k r
    by (induction cs arbitrary: r) (auto simp: Register_def)
  have "KindInteger \<notin> codec_Kind ` set cs" "KindVector \<notin> codec_Kind ` set cs" using assms by force+
  then show ?thesis
    by (auto simp: Lookup_def keep InitDefaultCodecs_def Register_def integerCodec_def vectorCodec_def KindInteger_def KindVector_def)
qed

lemma nat_dec_length_le: "n < 10 ^ k \<Longrightarrow> 0 < k \<Longrightarrow> length (nat_dec n) \<le> k"
proof (induction n arbitrary: k rule: nat_dec.induct)
  case (1 n)
  show ?case
  proof (cases "n < 10")
    case True
    then show ?thesis using 1(3) by (simp add: nat_dec.simps [of n])
  next
    case False
    then obtain j where j: "k = Suc (Suc j)" using 1(2,3) by (cases k; cases "k - 1") auto
    then have "n div 10 < 10 ^ Suc j" using 1(2) by (simp add: less_mult_imp_div_less)
    then show ?thesis using 1(1) [of "Suc j"] False j by (simp add: nat_dec.simps [of n])
  qed
qed

lemma u64_dec_length: "length (u64_dec v) \<le> 20"
  using unat_le_max [of v] by (auto simp: u64_dec_def intro!: nat_dec_length_le)

lemma escape_ascii_nonempty: "1 \<le> length (escape_ascii c)"
  by (auto simp: escape_ascii_def Let_def)

lemma json_escape_length: "length s \<le> length (json_escape s)"
proof (induction s rule: json_escape.induct)
  case (2 c s)
  show ?case
  proof (cases "byte_of c < 128")
    case True
    then show ?thesis using 2(1) escape_ascii_nonempty [of c] by simp
  next
    case False
    have n: "utf8_len (c # s) \<le> 4" by (cases "c # s" rule: utf8_len.cases) (auto simp: Let_def split: list.splits)
    show ?thesis using False 2(2-) n by (auto simp: Let_def)
  qed
qed simp

lemma join_length: "sum_list (map length xs) \<le> length (join sep xs)"
  by (induction sep xs rule: join.induct) auto

lemma json_counters_length: "sum_list (map length (fm_keys f)) \<le> length (json_counters (Some f))"
proof -
  have "sum_list (map length (fm_keys f)) \<le> sum_list (map length (map (\<lambda>k. json_member k (the (fmlookup f k))) (fm_keys f)))"
    unfolding map_map comp_def json_member_def json_string_def by (rule sum_list_mono) (simp add: json_escape_length trans_le_add1 le_SucI)
  also have "\<dots> \<le> length (json_counters (Some f))"
    using join_length [of "map (\<lambda>k. json_member k (the (fmlookup f k))) (fm_keys f)" "'',''"] by (simp add: json_counters_def)
  finally show ?thesis .
qed

definition uvarint_value :: "8 word list \<Rightarrow> nat" where
  "uvarint_value bs = foldr (\<lambda>b v. unat b mod 128 + 128 * v) bs 0"

lemma uvarint_byte: "unat (128 + word_of_nat (n mod 128) :: 8 word) = 128 + n mod 128"
proof -
  have "unat (of_nat (128 + n mod 128) :: 8 word) = 128 + n mod 128" unfolding unat_of_nat by simp
  then show ?thesis by simp
qed

lemma put_uvarint_value: "uvarint_value (put_uvarint n) = n"
proof (induction n rule: put_uvarint.induct)
  case (1 n)
  then show ?case
    by (subst put_uvarint.simps) (auto simp: uvarint_value_def unat_of_nat uvarint_byte)
qed

lemma put_uvarint_last:
  "put_uvarint n \<noteq> [] \<and> (\<forall>b \<in> set (butlast (put_uvarint n)). 128 \<le> unat b) \<and> unat (last (put_uvarint n)) < 128"
proof (induction n rule: put_uvarint.induct)
  case (1 n)
  then show ?case
    by (subst (1 2 3) put_uvarint.simps) (auto simp: unat_of_nat uvarint_byte)
qed

lemma put_uvarint_length: "n < 128 ^ k \<Longrightarrow> 0 < k \<Longrightarrow> length (put_uvarint n) \<le> k"
proof (induction n arbitrary: k rule: put_uvarint.induct)
  case (1 n)
  show ?case
  proof (cases "n < 128")
    case True
    then show ?thesis using 1(3) by (simp add: put_uvarint.simps [of n])
  next
    case False
    then obtain j where j: "k = Suc (Suc j)" using 1(2,3) by (cases k; cases "k - 1") auto
    then have "n div 128 < 128 ^ Suc j" using 1(2) by (simp add: less_mult_imp_div_less)
    then show ?thesis using 1(1) [of "Suc j"] False j by (simp add: put_uvarint.simps [of n])
  qed
qed

lemma all_space_brace: "\<not> all_space (CHR ''{'' # s)"
proof -
  have "strip_space (CHR ''{'' # s) = None" by (simp add: strip_space_def scan_spaces_def)
  then show ?thesis by (simp add: all_space.simps drop_space_def)
qed

section \<open>Properties\<close>

text \<open>
  C16: as long as nobody registers another codec under their kinds, the two cursors of the package survive the
  wire: what \<open>UnmarshalWire\<close> makes of the output of \<open>MarshalWire\<close> is the cursor that was marshalled, for every integer cursor, and for
  every vector cursor, the nil map included, whose node names are valid UTF-8, unless its text exceeds the limit of 64 KB: then the
  receiver refuses it.
\<close>

theorem wire_roundtrip:
  assumes "\<And>cd. cd \<in> set cs \<Longrightarrow> codec_Kind cd \<notin> {KindInteger, KindVector}"
    and "c = Integer_cursor n \<or> (c = Vector_cursor m \<and> (\<forall>k \<in> fmdom' (gm_fmap m). valid_utf8 k))"
  shows "\<exists>wc. MarshalWire (foldl Register (InitDefaultCodecs reg) cs) (Some c) = Some (Inr wc) \<and> wc_Kind wc = cursor_Kind c
    \<and> UnmarshalWire (foldl Register (InitDefaultCodecs reg) cs) (Some wc) =
        (if length (wc_Data wc) > maxWireCursorSize
         then Inl (ErrorString (''cursor payload too large: '' @ nat_dec (length (wc_Data wc)) @ '' bytes'')) else Inr (Some c))
    \<and> (c = Integer_cursor n \<longrightarrow> length (wc_Data wc) \<le> 20)"
  using assms(2)
proof
  assume c: "c = Integer_cursor n"
  have "MarshalWire (foldl Register (InitDefaultCodecs reg) cs) (Some c) = Some (Inr \<lparr>wc_Kind = KindInteger, wc_Data = u64_dec n\<rparr>)"
    using lookup_default [OF assms(1)] by (simp add: MarshalWire_def c integerCodec_def)
  moreover have "UnmarshalWire (foldl Register (InitDefaultCodecs reg) cs) (Some \<lparr>wc_Kind = KindInteger, wc_Data = u64_dec n\<rparr>) = Inr (Some c)"
    using lookup_default [OF assms(1)] u64_dec_length [of n]
    by (simp add: UnmarshalWire_def ValidateWireCursor_def maxWireCursorSize_def integerCodec_def unmarshal_u64 c)
  ultimately show ?thesis using u64_dec_length [of n] c by (simp add: maxWireCursorSize_def)
next
  assume c: "c = Vector_cursor m \<and> (\<forall>k \<in> fmdom' (gm_fmap m). valid_utf8 k)"
  have "MarshalWire (foldl Register (InitDefaultCodecs reg) cs) (Some c) = Some (Inr \<lparr>wc_Kind = KindVector, wc_Data = json_counters m\<rparr>)"
    using lookup_default [OF assms(1)] c by (simp add: MarshalWire_def vectorCodec_def)
  then show ?thesis
    using lookup_default [OF assms(1)] c unmarshal_json_counters(1) [of m]
    by (auto simp: UnmarshalWire_def ValidateWireCursor_def vectorCodec_def)
qed

text \<open>
  A vector clock survives its text: \<open>NewVectorClockFromString\<close> of what \<open>String\<close> prints is the same clock, when it was made by
  the operations of the package from an empty one (its node names are not empty) and the names are valid UTF-8.
\<close>

theorem vector_clock_String_roundtrip:
  assumes "clocks vc = Some f" and "\<forall>k \<in> fmdom' f. k \<noteq> [] \<and> valid_utf8 k"
  shows "NewVectorClockFromString (String_clock vc) = Inr vc"
proof (cases "f = fmempty")
  case True
  then show ?thesis using assms(1)
    by (cases vc) (simp add: String_clock_def IsZero_clock_def NewVectorClockFromString_def NewVectorClock_def)
next
  case False
  obtain s where s: "json_counters (Some f) = CHR ''{'' # s" by (simp add: json_counters_def)
  have "Unmarshal_counters (Some fmempty) (json_counters (Some f)) = Inr (Some f)"
    using unmarshal_json_counters(2) [of "Some f"] assms(2) by simp
  moreover have "[] \<notin> set (gm_keys (Some f))" using assms(2) by (auto simp: gm_keys_def)
  moreover have "json_counters (Some f) \<noteq> ''{}''"
  proof
    assume "json_counters (Some f) = ''{}''"
    then have "json_counters (Some f) = json_counters (Some fmempty)" by (simp add: json_counters_def fm_keys_def sorted_list_of_fset.rep_eq)
    then show False using False \<open>Unmarshal_counters (Some fmempty) (json_counters (Some f)) = Inr (Some f)\<close>
        unmarshal_json_counters(2) [of "Some fmempty"] by simp
  qed
  moreover have "\<not> all_space (json_counters (Some f))" using all_space_brace s by simp
  ultimately show ?thesis using False assms(1)
    by (cases vc) (simp add: String_clock_def IsZero_clock_def NewVectorClockFromString_def)
qed

text \<open>
  The encoding of \<open>EncodeUvarint\<close> takes at most ten bytes, marks all but the last of them by the top bit, and holds the number in the seven low bits
  of its bytes, least significant first.
\<close>

theorem EncodeUvarint_bounds:
  "length (EncodeUvarint u) \<le> 10 \<and> EncodeUvarint u \<noteq> [] \<and> (\<forall>i < length (EncodeUvarint u). 128 \<le> unat (EncodeUvarint u ! i) \<longleftrightarrow> Suc i < length (EncodeUvarint u))
    \<and> uvarint_value (EncodeUvarint u) = unat u"
proof -
  let ?bs = "EncodeUvarint u"
  have l: "?bs \<noteq> []" "\<forall>b \<in> set (butlast ?bs). 128 \<le> unat b" "unat (last ?bs) < 128"
    using put_uvarint_last [of "unat u"] by (auto simp: EncodeUvarint_def)
  have "128 \<le> unat (?bs ! i) \<longleftrightarrow> Suc i < length ?bs" if "i < length ?bs" for i
  proof (cases "Suc i < length ?bs")
    case True
    then have "?bs ! i = butlast ?bs ! i" "i < length (butlast ?bs)" by (simp_all add: nth_butlast)
    then have "?bs ! i \<in> set (butlast ?bs)" by (metis nth_mem)
    then show ?thesis using l True by blast
  next
    case False
    then have "i = length ?bs - 1" using that by simp
    then show ?thesis using l(1,3) False by (simp add: last_conv_nth)
  qed
  moreover have "length ?bs \<le> 10"
    using put_uvarint_length [of "unat u" 10] unat_le_max [of u] by (simp add: EncodeUvarint_def)
  ultimately show ?thesis using l(1) put_uvarint_value [of "unat u"] by (simp add: EncodeUvarint_def)
qed

text \<open>
  A clock whose node names take more than 64 KB together is within the limits of the vector clock (1000 nodes of 255 bytes) and
  cannot be sent: the receiver refuses the cursor.
\<close>

lemma large_vector_cursor_refused:
  assumes "\<And>cd. cd \<in> set cs \<Longrightarrow> codec_Kind cd \<notin> {KindInteger, KindVector}" and "\<forall>k \<in> fmdom' f. valid_utf8 k"
    and "maxWireCursorSize < sum_list (map length (fm_keys f))"
    and "MarshalWire (foldl Register (InitDefaultCodecs reg) cs) (Some (Vector_cursor (Some f))) = Some (Inr wc)"
  shows "\<exists>e. UnmarshalWire (foldl Register (InitDefaultCodecs reg) cs) (Some wc) = Inl e"
proof -
  have "wc = \<lparr>wc_Kind = KindVector, wc_Data = json_counters (Some f)\<rparr>"
    using assms(4) lookup_default [OF assms(1)] by (simp add: MarshalWire_def vectorCodec_def)
  then show ?thesis using json_counters_length [of f] assms(3) by (simp add: UnmarshalWire_def ValidateWireCursor_def)
qed

text \<open>The text null gives a clock with a nil map, on which \<open>Increment\<close> panics.\<close>

lemma null_clock_panics:
  "NewVectorClockFromString ''null'' = Inr \<lparr>clocks = None\<rparr> \<and> Increment \<lparr>clocks = None\<rparr> ''a'' = None"
proof -
  have "parse_json ''null'' = Some JNull"
    by (simp add: parse_json_def parse_value.simps scan_literal_def)
  moreover have "strip_space ''null'' = None" by (simp add: strip_space_def scan_spaces_def)
  ultimately show ?thesis
    by (simp add: NewVectorClockFromString_def all_space.simps drop_space_def Unmarshal_counters_def decode_counters_def Increment_def
        MaxNodeIDLength_def MaxNodes_def)
qed

section \<open>Witnesses\<close>

theorem wire_roundtrip_witness:
  "\<exists>wc. MarshalWire (foldl Register (InitDefaultCodecs fmempty) []) (Some (Vector_cursor (Some (fmupd ''n<1>'' 7 fmempty)))) = Some (Inr wc)
    \<and> UnmarshalWire (foldl Register (InitDefaultCodecs fmempty) []) (Some wc) = Inr (Some (Vector_cursor (Some (fmupd ''n<1>'' 7 fmempty))))"
proof -
  let ?c = "Vector_cursor (Some (fmupd ''n<1>'' 7 fmempty))"
  have v: "valid_utf8 ''n<1>''" by code_simp
  obtain wc where wc: "MarshalWire (foldl Register (InitDefaultCodecs fmempty) []) (Some ?c) = Some (Inr wc)"
    "UnmarshalWire (foldl Register (InitDefaultCodecs fmempty) []) (Some wc) =
        (if length (wc_Data wc) > maxWireCursorSize
         then Inl (ErrorString (''cursor payload too large: '' @ nat_dec (length (wc_Data wc)) @ '' bytes'')) else Inr (Some ?c))"
    using wire_roundtrip [of "[]" ?c 0 "Some (fmupd ''n<1>'' 7 fmempty)" fmempty] v by auto
  have "wc_Data wc = json_counters (Some (fmupd ''n<1>'' 7 fmempty))"
    using wc(1) lookup_default [of "[]" fmempty] by (auto simp: MarshalWire_def vectorCodec_def)
  moreover have "length (json_counters (Some (fmupd ''n<1>'' 7 fmempty))) = 20" by code_simp
  ultimately show ?thesis using wc by (simp add: maxWireCursorSize_def)
qed

theorem vector_clock_String_roundtrip_witness:
  "NewVectorClockFromString (String_clock \<lparr>clocks = Some (fmupd ''node-1'' 5 fmempty)\<rparr>) = Inr \<lparr>clocks = Some (fmupd ''node-1'' 5 fmempty)\<rparr>"
proof -
  have "valid_utf8 ''node-1''" by code_simp
  then show ?thesis
    using vector_clock_String_roundtrip [of "\<lparr>clocks = Some (fmupd ''node-1'' 5 fmempty)\<rparr>" "fmupd ''node-1'' 5 fmempty"] by simp
qed

theorem EncodeUvarint_bounds_witness: "length (EncodeUvarint 300) \<le> 10 \<and> uvarint_value (EncodeUvarint 300) = 300"
  using EncodeUvarint_bounds [of 300] by simp

end
