(* ===== verification/Http_Wire.thy ===== *)
theory Http_Wire
  imports Cursor_Wire
begin

text \<open>
  What client and server of the HTTP transport share (transport/httptransport): requests and responses as records,
  readers with their size limits (compression.go, helpers.go), options with their validation (types.go, options.go),
  events in their JSON form (types.go), structured errors (errors.go) and the responses (helpers.go).

  A reader that is read to its end is a pair: the bytes it delivers and the error that ends it. The limiting readers are also modelled
  one \<open>Read\<close> at a time over a source that chooses how much each call delivers and whether the last bytes come together with the error; the
  lemmas show that whatever it chooses, a limited reader never takes more than its limit from the source.

  The compression library and the part of \<open>encoding/json\<close> that handles events, whose payloads have any type, are arguments: \<open>gzip\<close>, \<open>gunzip\<close> and the record
  \<open>json_lib\<close>. Header values are ASCII text.
\<close>

section \<open>Texts\<close>

definition to_lower :: "string \<Rightarrow> string" where
  "to_lower s = map (\<lambda>c. if 65 \<le> byte_of c \<and> byte_of c \<le> 90 then char_of (byte_of c + 32) else c) s"

definition ascii_space :: "char \<Rightarrow> bool" where
  "ascii_space c \<longleftrightarrow> byte_of c \<in> {9, 10, 11, 12, 13, 32}"

definition trim_space :: "string \<Rightarrow> string" where
  "trim_space s = rev (dropWhile ascii_space (rev (dropWhile ascii_space s)))"

definition has_prefix :: "string \<Rightarrow> string \<Rightarrow> bool" where
  "has_prefix s p \<longleftrightarrow> take (length p) s = p"

fun str_contains :: "string \<Rightarrow> string \<Rightarrow> bool" where
  "str_contains [] p \<longleftrightarrow> p = []"
| "str_contains (c # s) p \<longleftrightarrow> has_prefix (c # s) p \<or> str_contains s p"

definition quoted :: "string \<Rightarrow> string" where
  "quoted s = [CHR 0x22] @ s @ [CHR 0x22]"

text \<open>\<open>strconv.ParseInt\<close> in base 10.\<close>

definition ParseInt :: "string \<Rightarrow> go_error + int" where
  "ParseInt s = (let (neg, ds) = (case s of c # r \<Rightarrow> if c = CHR ''-'' then (True, r) else if c = CHR ''+'' then (False, r) else (False, s) | [] \<Rightarrow> (False, []));
                     n = (if neg then - int (dec_val ds) else int (dec_val ds))
     in if ds = [] \<or> \<not> list_all is_digit ds then Inl (ErrorString (''strconv.ParseInt: parsing '' @ quoted s @ '': invalid syntax''))
        else if - (2 ^ 63) \<le> n \<and> n < 2 ^ 63 then Inr n
        else Inl (ErrorString (''strconv.ParseInt: parsing '' @ quoted s @ '': value out of range'')))"

section \<open>Readers\<close>

type_synonym reader = "string \<times> go_error"

definition io_EOF :: go_error where
  "io_EOF = ErrorString ''EOF''"

definition MaxBytesError :: go_error where
  "MaxBytesError = ErrorString ''http: request body too large''"

definition errDecompressedTooLarge :: go_error where
  "errDecompressedTooLarge = ErrorString ''decompressed data exceeds maximum size limit''"

definition errResponseDecompressedTooLarge :: go_error where
  "errResponseDecompressedTooLarge = ErrorString ''response decompressed body exceeds limit''"

text \<open>\<open>http.MaxBytesReader\<close> fails when there is more than the limit, \<open>io.LimitReader\<close> just ends there.\<close>

definition MaxBytesReader :: "int \<Rightarrow> reader \<Rightarrow> reader" where
  "MaxBytesReader n r = (if length (fst r) > nat n then (take (nat n) (fst r), MaxBytesError) else r)"

definition LimitReader :: "int \<Rightarrow> reader \<Rightarrow> reader" where
  "LimitReader n r = (if length (fst r) \<ge> nat n then (take (nat n) (fst r), io_EOF) else r)"

text \<open>
  One \<open>Read\<close> with a buffer of \<open>n\<close> bytes. The choice is an upper bound for the bytes delivered and whether the error comes with the last
  of them.
\<close>

type_synonym read_choice = "nat \<times> bool"

definition src_Read :: "read_choice \<Rightarrow> reader \<Rightarrow> nat \<Rightarrow> (string \<times> go_error option) \<times> reader" where
  "src_Read ch r n = (case ch of (k, together) \<Rightarrow>
     (let m = min k n; out = take m (fst r); rest = drop m (fst r)
      in if fst r = [] \<or> (rest = [] \<and> together) then ((out, Some (snd r)), (rest, snd r)) else ((out, None), (rest, snd r))))"

record max_decompressed_reader =
  md_reader :: reader
  md_limit :: int
  md_consumed :: int

definition Read_decompressed ::
  "read_choice \<Rightarrow> read_choice \<Rightarrow> max_decompressed_reader \<Rightarrow> nat \<Rightarrow> (string \<times> go_error option) \<times> max_decompressed_reader" where
  "Read_decompressed ch peek r p =
     (if md_consumed r \<ge> md_limit r then (([], Some errDecompressedTooLarge), r)
      else let maxRead = md_limit r - md_consumed r;
               p' = (if int p > maxRead then nat maxRead else p);
               ((out, err), src) = src_Read ch (md_reader r) p';
               consumed = md_consumed r + int (length out);
               r1 = r\<lparr>md_reader := src, md_consumed := consumed\<rparr>
           in if consumed \<ge> md_limit r \<and> err = None
              then (case src_Read peek src 1 of
                      ((_, None), src') \<Rightarrow> ((out, Some errDecompressedTooLarge), r1\<lparr>md_reader := src'\<rparr>)
                    | ((_, Some _), src') \<Rightarrow> ((out, None), r1\<lparr>md_reader := src'\<rparr>))
              else ((out, err), r1))"

record max_response_reader =
  mrr_r :: reader
  mrr_n :: int

definition Read_response :: "read_choice \<Rightarrow> max_response_reader \<Rightarrow> nat \<Rightarrow> (string \<times> go_error option) \<times> max_response_reader" where
  "Read_response ch m p =
     (if mrr_n m \<le> 0 then (([], Some errResponseDecompressedTooLarge), m)
      else let p' = (if int p > mrr_n m then nat (mrr_n m) else p);
               ((out, err), src) = src_Read ch (mrr_r m) p'
           in ((out, err), m\<lparr>mrr_r := src, mrr_n := mrr_n m - int (length out)\<rparr>))"

text \<open>Reading until an error: the bytes delivered and the error, if one came.\<close>

fun drain_decompressed ::
  "max_decompressed_reader \<Rightarrow> (read_choice \<times> read_choice \<times> nat) list \<Rightarrow> (string \<times> go_error option) \<times> max_decompressed_reader" where
  "drain_decompressed r [] = (([], None), r)"
| "drain_decompressed r ((ch, peek, p) # ops) =
     (case Read_decompressed ch peek r p of
        ((out, Some e), r') \<Rightarrow> ((out, Some e), r')
      | ((out, None), r') \<Rightarrow> (case drain_decompressed r' ops of ((tail_out, e), r'') \<Rightarrow> ((out @ tail_out, e), r'')))"

fun drain_response :: "max_response_reader \<Rightarrow> (read_choice \<times> nat) list \<Rightarrow> (string \<times> go_error option) \<times> max_response_reader" where
  "drain_response m [] = (([], None), m)"
| "drain_response m ((ch, p) # ops) =
     (case Read_response ch m p of
        ((out, Some e), m') \<Rightarrow> ((out, Some e), m')
      | ((out, None), m') \<Rightarrow> (case drain_response m' ops of ((tail_out, e), m'') \<Rightarrow> ((out @ tail_out, e), m'')))"

text \<open>
  The two limiting readers read to their end. When the source holds exactly as much as the limit, whether its own error is seen depends on
  whether it comes with the last bytes; here it does not.
\<close>

definition decompressed_limit :: "int \<Rightarrow> reader \<Rightarrow> reader" where
  "decompressed_limit n r = (if int (length (fst r)) < n then r else (take (nat n) (fst r), errDecompressedTooLarge))"

definition response_limit :: "int \<Rightarrow> reader \<Rightarrow> reader" where
  "response_limit n r = (if int (length (fst r)) < n then r else (take (nat n) (fst r), errResponseDecompressedTooLarge))"

section \<open>Lemmas on limited reading\<close>

lemma src_Read_cases:
  assumes "src_Read ch r n = ((out, err), r')"
  shows "fst r = out @ fst r' \<and> length out \<le> n \<and> snd r' = snd r \<and> (err = None \<or> (err = Some (snd r) \<and> fst r' = []))"
  using assms by (cases ch) (auto simp: src_Read_def Let_def split: if_splits)

lemma Read_decompressed_step:
  assumes "Read_decompressed ch peek r p = ((out, err), r')" and "0 \<le> md_consumed r" and "md_consumed r < md_limit r"
  shows "\<exists>extra. fst (md_reader r) = out @ extra @ fst (md_reader r') \<and> length extra \<le> 1 \<and> snd (md_reader r') = snd (md_reader r)
    \<and> md_limit r' = md_limit r \<and> md_consumed r' = md_consumed r + int (length out) \<and> md_consumed r' \<le> md_limit r
    \<and> (md_consumed r' < md_limit r \<longrightarrow> extra = [])
    \<and> (err = None \<or> err = Some errDecompressedTooLarge \<or> (err = Some (snd (md_reader r)) \<and> extra = [] \<and> fst (md_reader r') = []))"
proof -
  define p' where "p' = (if int p > md_limit r - md_consumed r then nat (md_limit r - md_consumed r) else p)"
  obtain o1 e1 s1 where s1: "src_Read ch (md_reader r) p' = ((o1, e1), s1)" by (metis prod.collapse)
  obtain o2 e2 s2 where s2: "src_Read peek s1 1 = ((o2, e2), s2)" by (metis prod.collapse)
  note a = src_Read_cases [OF s1] and b = src_Read_cases [OF s2]
  have le: "int (length o1) \<le> md_limit r - md_consumed r" using a assms(3) by (auto simp: p'_def split: if_splits)
  have eq: "Read_decompressed ch peek r p =
      (let consumed = md_consumed r + int (length o1); r1 = r\<lparr>md_reader := s1, md_consumed := consumed\<rparr>
       in if consumed \<ge> md_limit r \<and> e1 = None
          then (case e2 of None \<Rightarrow> ((o1, Some errDecompressedTooLarge), r1\<lparr>md_reader := s2\<rparr>) | Some _ \<Rightarrow> ((o1, None), r1\<lparr>md_reader := s2\<rparr>))
          else ((o1, e1), r1))"
    using assms(3) s1 s2 unfolding Read_decompressed_def p'_def by (simp add: Let_def split: option.split)
  show ?thesis
  proof (cases "md_consumed r + int (length o1) \<ge> md_limit r \<and> e1 = None")
    case True
    then have "out = o1" "md_reader r' = s2" "md_limit r' = md_limit r" "md_consumed r' = md_consumed r + int (length o1)"
      "err = None \<or> err = Some errDecompressedTooLarge"
      using assms(1) unfolding eq by (auto simp: Let_def split: option.splits)
    then show ?thesis using a b True le by (intro exI [of _ o2]) auto
  next
    case False
    then have "out = o1" "err = e1" "r' = r\<lparr>md_reader := s1, md_consumed := md_consumed r + int (length o1)\<rparr>"
      using assms(1) unfolding eq by (auto simp: Let_def split: if_splits)
    then show ?thesis using a le by (intro exI [of _ "[]"]) auto
  qed
qed

lemma Read_decompressed_full:
  "md_consumed r \<ge> md_limit r \<Longrightarrow> Read_decompressed ch peek r p = (([], Some errDecompressedTooLarge), r)"
  by (simp add: Read_decompressed_def)

text \<open>
  What reading through the limit does, whatever the source chooses: the bytes are a prefix of the source, no more than the limit, and one byte at
  most was taken beyond them; an error other than the limit's means that nothing is missing.
\<close>

lemma drain_decompressed_bound:
  assumes "drain_decompressed r ops = ((out, err), r')" and "0 \<le> md_consumed r" and "md_consumed r \<le> md_limit r"
  shows "\<exists>extra. fst (md_reader r) = out @ extra @ fst (md_reader r') \<and> length extra \<le> 1
    \<and> md_consumed r + int (length out) \<le> md_limit r
    \<and> (err = None \<or> err = Some errDecompressedTooLarge \<or> (err = Some (snd (md_reader r)) \<and> out = fst (md_reader r)))"
  using assms
proof (induction r ops arbitrary: out rule: drain_decompressed.induct)
  case (2 r ch peek p ops)
  obtain o1 e1 r1 where s: "Read_decompressed ch peek r p = ((o1, e1), r1)" by (metis prod.collapse)
  show ?case
  proof (cases "md_consumed r < md_limit r")
    case False
    then show ?thesis using 2(2,4) by (auto simp: Read_decompressed_full)
  next
    case True
    obtain extra where x: "fst (md_reader r) = o1 @ extra @ fst (md_reader r1)" "length extra \<le> 1" "snd (md_reader r1) = snd (md_reader r)"
      "md_limit r1 = md_limit r" "md_consumed r1 = md_consumed r + int (length o1)" "md_consumed r1 \<le> md_limit r"
      "md_consumed r1 < md_limit r \<longrightarrow> extra = []"
      "e1 = None \<or> e1 = Some errDecompressedTooLarge \<or> (e1 = Some (snd (md_reader r)) \<and> extra = [] \<and> fst (md_reader r1) = [])"
      using Read_decompressed_step [OF s 2(3) True] by blast
    show ?thesis
    proof (cases e1)
      case (Some e)
      then show ?thesis using 2(2) s x by auto
    next
      case None
      obtain tail_out e2 r2 where d: "drain_decompressed r1 ops = ((tail_out, e2), r2)" by (metis prod.collapse)
      then have res: "out = o1 @ tail_out" "err = e2" "r' = r2" using 2(2) s None by auto
      show ?thesis
      proof (cases "md_consumed r1 < md_limit r")
        case True
        then show ?thesis using 2(1) [OF s [symmetric] refl None d [unfolded res(2,3) [symmetric]]] x 2(3) res by auto
      next
        case False
        then have "tail_out = [] \<and> r2 = r1 \<and> (e2 = None \<or> e2 = Some errDecompressedTooLarge)"
          using d x(4,6) by (cases ops) (auto simp: Read_decompressed_full)
        then show ?thesis using res x 2(3) by auto
      qed
    qed
  qed
qed auto

lemma drain_response_bound:
  assumes "drain_response m ops = ((out, err), m')" and "0 \<le> mrr_n m"
  shows "fst (mrr_r m) = out @ fst (mrr_r m') \<and> int (length out) \<le> mrr_n m
    \<and> (err = None \<or> err = Some errResponseDecompressedTooLarge \<or> (err = Some (snd (mrr_r m)) \<and> out = fst (mrr_r m)))"
  using assms
proof (induction m ops arbitrary: out rule: drain_response.induct)
  case (2 m ch p ops)
  show ?case
  proof (cases "mrr_n m \<le> 0")
    case True
    then show ?thesis using 2(2,3) by (simp add: Read_response_def)
  next
    case False
    define p' where "p' = (if int p > mrr_n m then nat (mrr_n m) else p)"
    obtain o1 e1 s1 where s1: "src_Read ch (mrr_r m) p' = ((o1, e1), s1)" by (metis prod.collapse)
    note a = src_Read_cases [OF s1]
    have le: "int (length o1) \<le> mrr_n m" using a False by (auto simp: p'_def split: if_splits)
    let ?m1 = "m\<lparr>mrr_r := s1, mrr_n := mrr_n m - int (length o1)\<rparr>"
    have r: "Read_response ch m p = ((o1, e1), ?m1)"
      using False s1 unfolding Read_response_def p'_def by (simp add: Let_def)
    show ?thesis
    proof (cases e1)
      case (Some e)
      then show ?thesis using 2(2) r a le by auto
    next
      case None
      obtain tail_out e2 m2 where d: "drain_response ?m1 ops = ((tail_out, e2), m2)" by (metis prod.collapse)
      then have res: "out = o1 @ tail_out" "err = e2" "m' = m2" using 2(2) r None by auto
      have "0 \<le> mrr_n ?m1" using le by simp
      from 2(1) [OF r [symmetric] refl None d [unfolded res(2,3) [symmetric]] this] show ?thesis using a le res by auto
    qed
  qed
qed auto

section \<open>Bounds\<close>

text \<open>
  C33: however the decompressor delivers its bytes, the reader of a compressed request never hands on more than the limit and takes at most one byte beyond what it handed on; what it hands on is a
  prefix of the decompressed data, and when it reports the end of the data, nothing is missing. The same holds for responses, where no byte is taken beyond the limit.
\<close>

theorem decompression_bounded:
  "(drain_decompressed \<lparr>md_reader = (bs, e), md_limit = n, md_consumed = 0\<rparr> ops = ((out, err), r) \<longrightarrow> 0 \<le> n \<longrightarrow>
      int (length out) \<le> n \<and> (\<exists>extra. bs = out @ extra @ fst (md_reader r) \<and> length extra \<le> 1)
      \<and> (err = None \<or> err = Some errDecompressedTooLarge \<or> (err = Some e \<and> out = bs)))
   \<and> (drain_response \<lparr>mrr_r = (bs, e), mrr_n = n\<rparr> ops' = ((out, err), m) \<longrightarrow> 0 \<le> n \<longrightarrow>
      int (length out) \<le> n \<and> bs = out @ fst (mrr_r m)
      \<and> (err = None \<or> err = Some errResponseDecompressedTooLarge \<or> (err = Some e \<and> out = bs)))"
proof (intro conjI impI)
  assume a: "drain_decompressed \<lparr>md_reader = (bs, e), md_limit = n, md_consumed = 0\<rparr> ops = ((out, err), r)" and n: "0 \<le> n"
  obtain extra where "bs = out @ extra @ fst (md_reader r)" "length extra \<le> 1" "int (length out) \<le> n"
    "err = None \<or> err = Some errDecompressedTooLarge \<or> (err = Some e \<and> out = bs)"
    using drain_decompressed_bound [OF a] n by auto
  then show "int (length out) \<le> n" "\<exists>extra. bs = out @ extra @ fst (md_reader r) \<and> length extra \<le> 1"
    "err = None \<or> err = Some errDecompressedTooLarge \<or> (err = Some e \<and> out = bs)" by blast+
next
  assume a: "drain_response \<lparr>mrr_r = (bs, e), mrr_n = n\<rparr> ops' = ((out, err), m)" and n: "0 \<le> n"
  note b = drain_response_bound [OF a]
  show "int (length out) \<le> n" "bs = out @ fst (mrr_r m)" "err = None \<or> err = Some errResponseDecompressedTooLarge \<or> (err = Some e \<and> out = bs)"
    using b n by auto
qed

theorem decompression_bounded_witness:
  "\<exists>out r. drain_decompressed \<lparr>md_reader = (''abcdef'', io_EOF), md_limit = 4, md_consumed = 0\<rparr> [((2, True), (1, True), 8), ((9, False), (1, True), 8)]
      = ((out, Some errDecompressedTooLarge), r) \<and> out = ''abcd'' \<and> int (length out) \<le> 4"
proof -
  obtain out err r where d: "drain_decompressed \<lparr>md_reader = (''abcdef'', io_EOF), md_limit = 4, md_consumed = 0\<rparr> [((2, True), (1, True), 8), ((9, False), (1, True), 8)]
      = ((out, err), r)" by (metis prod.collapse)
  then have "out = ''abcd'' \<and> err = Some errDecompressedTooLarge"
    by (simp add: Read_decompressed_def src_Read_def numeral_eq_Suc)
  then show ?thesis using d decompression_bounded [of "''abcdef''" io_EOF 4] by (metis zero_le_numeral)
qed

end
