(* ===== verification/Http_Types.thy ===== *)
theory Http_Types
  imports Http_Wire
begin

text \<open>
  Options, JSON forms, requests and responses of the HTTP transport (transport/httptransport: types.go, options.go,
  errors.go, helpers.go, headers.go and the mapping of errors to status codes in compression.go).
\<close>

section \<open>Options\<close>

record server_options =
  MaxRequestSize :: int
  MaxDecompressedSize :: int
  CompressionEnabled :: bool
  CompressionThreshold :: int
  RequestTimeout :: int
  ShutdownTimeout :: int

record client_options =
  co_CompressionEnabled :: bool
  co_DisableAutoDecompression :: bool
  co_GzipMinBytes :: int
  co_MaxResponseSize :: int
  co_MaxDecompressedResponseSize :: int
  co_RequestTimeout :: int
  co_RetryMax :: int
  co_RetryWaitMin :: int
  co_RetryWaitMax :: int

text \<open>Durations are nanoseconds, and \<open>second\<close> is one second.\<close>

definition second :: int where
  "second = 10 ^ 9"

definition int_dec :: "int \<Rightarrow> string" where
  "int_dec i = (if i < 0 then CHR ''-'' # nat_dec (nat (- i)) else nat_dec (nat i))"

text \<open>\<open>ServerOptions.Validate\<close>; the text of a duration is an argument.\<close>

definition Validate :: "(int \<Rightarrow> string) \<Rightarrow> server_options option \<Rightarrow> go_error option" where
  "Validate dur o' = (case o' of
       None \<Rightarrow> Some (ErrorString ''nil server options'')
     | Some opts \<Rightarrow>
         if MaxRequestSize opts \<le> 0 then Some (ErrorString (''MaxRequestSize must be positive, got '' @ int_dec (MaxRequestSize opts)))
         else if MaxDecompressedSize opts \<le> 0
           then Some (ErrorString (''MaxDecompressedSize must be positive, got '' @ int_dec (MaxDecompressedSize opts)))
         else if MaxDecompressedSize opts < MaxRequestSize opts
           then Some (ErrorString (''MaxDecompressedSize ('' @ int_dec (MaxDecompressedSize opts) @ '') must be >= MaxRequestSize (''
             @ int_dec (MaxRequestSize opts) @ '') to prevent zip-bomb attacks''))
         else if CompressionEnabled opts \<and> CompressionThreshold opts < 0
           then Some (ErrorString (''CompressionThreshold cannot be negative when compression is enabled, got '' @ int_dec (CompressionThreshold opts)))
         else if RequestTimeout opts < 0 then Some (ErrorString (''RequestTimeout cannot be negative, got '' @ dur (RequestTimeout opts)))
         else if ShutdownTimeout opts < 0 then Some (ErrorString (''ShutdownTimeout cannot be negative, got '' @ dur (ShutdownTimeout opts)))
         else None)"

definition default_server_options :: server_options where
  "default_server_options = \<lparr>MaxRequestSize = 10 * 1024 * 1024, MaxDecompressedSize = 20 * 1024 * 1024, CompressionEnabled = True,
     CompressionThreshold = 1024, RequestTimeout = 30 * second, ShutdownTimeout = 10 * second\<rparr>"

text \<open>It panics when its own defaults are not valid.\<close>

definition DefaultServerOptions :: "(int \<Rightarrow> string) \<Rightarrow> server_options go" where
  "DefaultServerOptions dur = (case Validate dur (Some default_server_options) of None \<Rightarrow> Some default_server_options | Some _ \<Rightarrow> None)"

definition ValidateServerOptions :: "server_options option \<Rightarrow> go_error option" where
  "ValidateServerOptions o' = (case o' of
       None \<Rightarrow> None
     | Some opts \<Rightarrow>
         if MaxRequestSize opts \<le> 0 then Some (ErrorString ''MaxRequestSize must be > 0'')
         else if MaxDecompressedSize opts \<le> 0 then Some (ErrorString ''MaxDecompressedSize must be > 0'')
         else if MaxDecompressedSize opts < MaxRequestSize opts
           then Some (ErrorString ''MaxDecompressedSize must be >= MaxRequestSize to handle uncompressed requests'')
         else if CompressionThreshold opts < 0 then Some (ErrorString ''CompressionThreshold must be >= 0'')
         else if RequestTimeout opts < 0 then Some (ErrorString ''RequestTimeout must be >= 0'')
         else if ShutdownTimeout opts < 0 then Some (ErrorString ''ShutdownTimeout must be >= 0'')
         else None)"

definition DefaultClientOptions :: client_options where
  "DefaultClientOptions = \<lparr>co_CompressionEnabled = True, co_DisableAutoDecompression = False, co_GzipMinBytes = 1024,
     co_MaxResponseSize = 10 * 1024 * 1024, co_MaxDecompressedResponseSize = 20 * 1024 * 1024, co_RequestTimeout = 30 * second,
     co_RetryMax = 3, co_RetryWaitMin = second, co_RetryWaitMax = 30 * second\<rparr>"

definition ValidateClientOptions :: "client_options option \<Rightarrow> go_error option" where
  "ValidateClientOptions o' = (case o' of
       None \<Rightarrow> None
     | Some opts \<Rightarrow>
         if co_MaxResponseSize opts \<le> 0 then Some (ErrorString ''MaxResponseSize must be > 0'')
         else if co_MaxDecompressedResponseSize opts \<le> 0 then Some (ErrorString ''MaxDecompressedResponseSize must be > 0'')
         else if co_DisableAutoDecompression opts \<and> co_MaxDecompressedResponseSize opts < co_MaxResponseSize opts
           then Some (ErrorString ''MaxDecompressedResponseSize must be >= MaxResponseSize when DisableAutoDecompression is true'')
         else if co_GzipMinBytes opts < 0 then Some (ErrorString ''GzipMinBytes must be >= 0'')
         else if co_RequestTimeout opts < 0 then Some (ErrorString ''RequestTimeout must be >= 0'')
         else if co_RetryMax opts < 0 then Some (ErrorString ''RetryMax must be >= 0'')
         else if co_RetryWaitMin opts < 0 then Some (ErrorString ''RetryWaitMin must be >= 0'')
         else if co_RetryWaitMax opts < 0 then Some (ErrorString ''RetryWaitMax must be >= 0'')
         else if co_RetryWaitMax opts > 0 \<and> co_RetryWaitMin opts > co_RetryWaitMax opts
           then Some (ErrorString ''RetryWaitMin must be <= RetryWaitMax'')
         else None)"

text \<open>The setters of single options.\<close>

definition WithMaxRequestSize :: "int \<Rightarrow> server_options \<Rightarrow> server_options" where
  "WithMaxRequestSize n opts = opts\<lparr>MaxRequestSize := n\<rparr>"

definition WithMaxDecompressedSize :: "int \<Rightarrow> server_options \<Rightarrow> server_options" where
  "WithMaxDecompressedSize n opts = opts\<lparr>MaxDecompressedSize := n\<rparr>"

definition WithCompression :: "bool \<Rightarrow> server_options \<Rightarrow> server_options" where
  "WithCompression enabled opts = opts\<lparr>CompressionEnabled := enabled\<rparr>"

definition WithCompressionThreshold :: "int \<Rightarrow> server_options \<Rightarrow> server_options" where
  "WithCompressionThreshold n opts = opts\<lparr>CompressionThreshold := n\<rparr>"

definition WithRequestTimeout :: "int \<Rightarrow> server_options \<Rightarrow> server_options" where
  "WithRequestTimeout d opts = opts\<lparr>RequestTimeout := d\<rparr>"

definition WithShutdownTimeout :: "int \<Rightarrow> server_options \<Rightarrow> server_options" where
  "WithShutdownTimeout d opts = opts\<lparr>ShutdownTimeout := d\<rparr>"

definition WithClientCompression :: "bool \<Rightarrow> client_options \<Rightarrow> client_options" where
  "WithClientCompression enabled opts = opts\<lparr>co_CompressionEnabled := enabled\<rparr>"

definition WithGzipThreshold :: "int \<Rightarrow> client_options \<Rightarrow> client_options" where
  "WithGzipThreshold n opts = opts\<lparr>co_GzipMinBytes := n\<rparr>"

definition WithDisableAutoDecompression :: "bool \<Rightarrow> client_options \<Rightarrow> client_options" where
  "WithDisableAutoDecompression disabled opts = opts\<lparr>co_DisableAutoDecompression := disabled\<rparr>"

definition WithMaxResponseSize :: "int \<Rightarrow> client_options \<Rightarrow> client_options" where
  "WithMaxResponseSize n opts = opts\<lparr>co_MaxResponseSize := n\<rparr>"

definition WithMaxDecompressedResponseSize :: "int \<Rightarrow> client_options \<Rightarrow> client_options" where
  "WithMaxDecompressedResponseSize n opts = opts\<lparr>co_MaxDecompressedResponseSize := n\<rparr>"

definition WithRetryConfig :: "int \<Rightarrow> int \<Rightarrow> int \<Rightarrow> client_options \<Rightarrow> client_options" where
  "WithRetryConfig maxAttempts waitMin waitMax opts = opts\<lparr>co_RetryMax := maxAttempts, co_RetryWaitMin := waitMin, co_RetryWaitMax := waitMax\<rparr>"

definition WithClientTimeout :: "int \<Rightarrow> client_options \<Rightarrow> client_options" where
  "WithClientTimeout d opts = opts\<lparr>co_RequestTimeout := d\<rparr>"

text \<open>Both validations of server options agree, except on a nil pointer and on a negative threshold without compression.\<close>

lemma validations_agree:
  "Validate dur (Some opts) = None \<longleftrightarrow> ValidateServerOptions (Some opts) = None \<or>
     (\<not> CompressionEnabled opts \<and> CompressionThreshold opts < 0 \<and> ValidateServerOptions (Some (opts\<lparr>CompressionThreshold := 0\<rparr>)) = None)"
  by (auto simp: Validate_def ValidateServerOptions_def)

section \<open>Events in JSON form\<close>

record json_event =
  je_ID :: string
  je_Type :: string
  je_AggregateID :: string
  je_Data :: go_any
  je_Metadata :: metadata

record json_event_with_version =
  jv_Event :: json_event
  jv_Version :: string

text \<open>A method call on a nil event panics; so does printing a nil vector clock.\<close>

definition toJSONEvent :: "event option \<Rightarrow> json_event go" where
  "toJSONEvent eo = do {
     e \<leftarrow> eo;
     Some \<lparr>je_ID = EventID e, je_Type = EventType e, je_AggregateID = EventAggregateID e, je_Data = EventData e, je_Metadata = EventMetadata e\<rparr> }"

definition toJSONEventWithVersion :: "event_with_version \<Rightarrow> json_event_with_version go" where
  "toJSONEventWithVersion ev = do {
     version \<leftarrow> (case ev_Version ev of None \<Rightarrow> Some [] | Some v \<Rightarrow> Version_String v);
     je \<leftarrow> toJSONEvent (ev_Event ev);
     Some \<lparr>jv_Event = je, jv_Version = version\<rparr> }"

text \<open>A \<open>SimpleEvent\<close> has only the five fields that its methods return.\<close>

definition SimpleEvent :: "json_event \<Rightarrow> event" where
  "SimpleEvent je = \<lparr>EventID = je_ID je, EventType = je_Type je, EventAggregateID = je_AggregateID je, EventData = je_Data je,
     EventMetadata = je_Metadata je, Timestamp = zero_time, Offset = 0, ClockSlot = NoClock\<rparr>"

type_synonym http_version_parser = "string \<Rightarrow> (go_error + version option) go"

definition fromJSONEventWithVersion :: "http_version_parser \<Rightarrow> json_event_with_version \<Rightarrow> (go_error + event_with_version) go" where
  "fromJSONEventWithVersion parser jev = do {
     r \<leftarrow> parser (jv_Version jev);
     Some (case r of
        Inl err \<Rightarrow> Inl (WrapError ''invalid version: '' err)
      | Inr v \<Rightarrow> Inr \<lparr>ev_Event = Some (SimpleEvent (jv_Event jev)), ev_Version = v\<rparr>) }"

section \<open>Structured errors\<close>

definition ErrCodeInvalidCursor :: string where "ErrCodeInvalidCursor = ''INVALID_CURSOR''"
definition ErrCodeInvalidRequest :: string where "ErrCodeInvalidRequest = ''INVALID_REQUEST''"
definition ErrCodeAuthRequired :: string where "ErrCodeAuthRequired = ''AUTH_REQUIRED''"
definition ErrCodeInvalidTenant :: string where "ErrCodeInvalidTenant = ''INVALID_TENANT''"
definition ErrCodeInvalidIdempotency :: string where "ErrCodeInvalidIdempotency = ''INVALID_IDEMPOTENCY_KEY''"
definition ErrCodeConflict :: string where "ErrCodeConflict = ''CONFLICT''"
definition ErrCodeInternal :: string where "ErrCodeInternal = ''INTERNAL_ERROR''"
definition ErrCodeNotFound :: string where "ErrCodeNotFound = ''NOT_FOUND''"
definition ErrCodeTooLarge :: string where "ErrCodeTooLarge = ''REQUEST_TOO_LARGE''"

lemmas http_error_codes [model_defs] = ErrCodeInvalidCursor_def ErrCodeInvalidRequest_def ErrCodeAuthRequired_def ErrCodeInvalidTenant_def
  ErrCodeInvalidIdempotency_def ErrCodeConflict_def ErrCodeInternal_def ErrCodeNotFound_def ErrCodeTooLarge_def

record error_detail =
  ed_Code :: string
  ed_Message :: string
  ed_Op :: string

definition NewErrorResponse :: "string \<Rightarrow> string \<Rightarrow> string \<Rightarrow> error_detail" where
  "NewErrorResponse op code msg = \<lparr>ed_Code = code, ed_Message = msg, ed_Op = op\<rparr>"

definition HTTPStatusFromCode :: "string \<Rightarrow> nat" where
  "HTTPStatusFromCode code =
     (if code \<in> {ErrCodeInvalidCursor, ErrCodeInvalidRequest, ErrCodeInvalidTenant, ErrCodeInvalidIdempotency} then 400
      else if code = ErrCodeAuthRequired then 401
      else if code = ErrCodeNotFound then 404
      else if code = ErrCodeConflict then 409
      else if code = ErrCodeTooLarge then 413
      else 500)"

definition mapErrorToHTTPStatus :: "go_error option \<Rightarrow> nat" where
  "mapErrorToHTTPStatus eo = (case eo of
       None \<Rightarrow> 200
     | Some err \<Rightarrow>
         let errMsg = Error_text err in
         if errors_Is err errDecompressedTooLarge then 413
         else if errors_Is err MaxBytesError then 413
         else if str_contains errMsg ''unsupported media type'' then 415
         else if str_contains errMsg ''unsupported content encoding'' then 415
         else if str_contains errMsg ''compressed request body too large'' then 413
         else if str_contains errMsg ''invalid gzip'' \<or> str_contains errMsg ''gzip:'' then 400
         else if str_contains errMsg ''invalid version'' \<or> str_contains errMsg ''version'' then 400
         else 400)"

section \<open>Requests and responses\<close>

text \<open>
  Headers are stored under canonical names. \<open>rq_Closed\<close> is what the body delivers after it was closed, and
  \<open>rq_ctx\<close> what \<open>Err()\<close> of the context of the request returns.
\<close>

record request =
  rq_Method :: string
  rq_Path :: string
  rq_Query :: "(string \<times> string) list"
  rq_Header :: "(string \<times> string) list"
  rq_ContentLength :: int
  rq_Body :: reader
  rq_Closed :: reader
  rq_ctx :: "go_error option"

record response =
  rs_Code :: nat
  rs_Header :: "(string \<times> string) list"
  rs_Body :: reader

definition values_Get :: "(string \<times> string) list \<Rightarrow> string \<Rightarrow> string" where
  "values_Get kvs k = (case map_of kvs k of None \<Rightarrow> [] | Some v \<Rightarrow> v)"

definition HeaderSyncKitTenant :: string where "HeaderSyncKitTenant = ''X-SyncKit-Tenant''"
definition HeaderIdempotencyKey :: string where "HeaderIdempotencyKey = ''Idempotency-Key''"

definition ExtractTenant :: "request \<Rightarrow> string" where
  "ExtractTenant r = (let tenant = values_Get (rq_Header r) HeaderSyncKitTenant
     in if tenant \<noteq> [] then tenant else values_Get (rq_Query r) ''tenant'')"

text \<open>
  The payloads of responses and their text. Only the text of a list of events depends on values of any type, and is left to \<open>json_lib\<close>;
  of the request and response bodies that are read, what the decoder makes of a reader is an argument too.
\<close>

datatype payload =
    PStatus string string
  | PText string
  | PErrorResponse error_detail
  | PEvents "json_event_with_version list"
  | PPage "json_event_with_version list" "wire_cursor option"

record json_lib =
  jl_Events :: "json_event_with_version list \<Rightarrow> go_error + string"
  jl_read_Events :: "reader \<Rightarrow> go_error + json_event_with_version list"
  jl_read_Text :: "reader \<Rightarrow> go_error + string"
  jl_read_PullRequest :: "reader \<Rightarrow> go_error + (wire_cursor option \<times> int)"
  jl_read_Page :: "reader \<Rightarrow> go_error + (json_event_with_version list \<times> wire_cursor option)"

definition json_wire_cursor :: "wire_cursor \<Rightarrow> string" where
  "json_wire_cursor w = ''{'' @ json_string ''kind'' @ '':'' @ json_string (wc_Kind w) @ '','' @ json_string ''data'' @ '':'' @ wc_Data w @ ''}''"

fun json_Marshal :: "json_lib \<Rightarrow> payload \<Rightarrow> go_error + string" where
  "json_Marshal jl (PStatus k v) = Inr (''{'' @ json_string k @ '':'' @ json_string v @ ''}'')"
| "json_Marshal jl (PText s) = Inr (json_string s)"
| "json_Marshal jl (PErrorResponse d) = Inr (''{'' @ json_string ''error'' @ '':{'' @ json_string ''code'' @ '':'' @ json_string (ed_Code d)
     @ '','' @ json_string ''message'' @ '':'' @ json_string (ed_Message d) @ '','' @ json_string ''op'' @ '':'' @ json_string (ed_Op d) @ ''}}'')"
| "json_Marshal jl (PEvents evs) = jl_Events jl evs"
| "json_Marshal jl (PPage evs next) = (case jl_Events jl evs of
     Inl e \<Rightarrow> Inl e
   | Inr t \<Rightarrow> Inr (''{'' @ json_string ''events'' @ '':'' @ t
       @ (case next of None \<Rightarrow> [] | Some w \<Rightarrow> '','' @ json_string ''next'' @ '':'' @ json_wire_cursor w) @ ''}''))"

definition negotiateCompression :: "request \<Rightarrow> server_options option \<Rightarrow> nat \<Rightarrow> bool" where
  "negotiateCompression r o' responseSize = (case o' of
       None \<Rightarrow> False
     | Some opts \<Rightarrow> CompressionEnabled opts \<and> \<not> int responseSize < CompressionThreshold opts
         \<and> str_contains (to_lower (values_Get (rq_Header r) ''Accept-Encoding'')) ''gzip'')"

text \<open>The bytes sent: writing to the connection does not fail here.\<close>

definition send :: "(string \<Rightarrow> string) \<Rightarrow> request \<Rightarrow> nat \<Rightarrow> string \<Rightarrow> server_options option \<Rightarrow> response" where
  "send gzip r code txt o' =
     (if negotiateCompression r o' (length txt)
      then \<lparr>rs_Code = code, rs_Header = [(''Content-Encoding'', ''gzip''), (''Vary'', ''Accept-Encoding''), (''Content-Type'', ''application/json'')],
             rs_Body = (gzip txt, io_EOF)\<rparr>
      else \<lparr>rs_Code = code, rs_Header = [(''Content-Type'', ''application/json'')], rs_Body = (txt, io_EOF)\<rparr>)"

definition respondWithError :: "(string \<Rightarrow> string) \<Rightarrow> request \<Rightarrow> nat \<Rightarrow> string \<Rightarrow> server_options option \<Rightarrow> response" where
  "respondWithError gzip r code msg o' = send gzip r code (''{'' @ json_string ''error'' @ '':'' @ json_string msg @ ''}'') o'"

definition respondWithJSON :: "json_lib \<Rightarrow> (string \<Rightarrow> string) \<Rightarrow> request \<Rightarrow> nat \<Rightarrow> payload \<Rightarrow> server_options option \<Rightarrow> response" where
  "respondWithJSON jl gzip r code p o' = (case json_Marshal jl p of
       Inl _ \<Rightarrow> respondWithError gzip r 500 ''failed to marshal response'' o'
     | Inr txt \<Rightarrow> send gzip r code txt o')"

definition respondWithMappedError :: "(string \<Rightarrow> string) \<Rightarrow> request \<Rightarrow> go_error option \<Rightarrow> string \<Rightarrow> server_options option \<Rightarrow> response" where
  "respondWithMappedError gzip r err fallback o' =
     respondWithError gzip r (mapErrorToHTTPStatus err) (case err of None \<Rightarrow> fallback | Some e \<Rightarrow> Error_text e) o'"

definition respondWithStructuredError ::
  "json_lib \<Rightarrow> (string \<Rightarrow> string) \<Rightarrow> request \<Rightarrow> string \<Rightarrow> string \<Rightarrow> string \<Rightarrow> server_options option \<Rightarrow> response" where
  "respondWithStructuredError jl gzip r op code msg o' =
     respondWithJSON jl gzip r (HTTPStatusFromCode code) (PErrorResponse (NewErrorResponse op code msg)) o'"

text \<open>\<open>None\<close> lets the request pass, \<open>Some\<close> is the response that was sent.\<close>

definition validateContentType :: "(string \<Rightarrow> string) \<Rightarrow> request \<Rightarrow> server_options option \<Rightarrow> response option" where
  "validateContentType gzip r o' =
     (let contentType = values_Get (rq_Header r) ''Content-Type'' in
      if rq_Method r \<in> {''GET'', ''HEAD'', ''DELETE''} then None
      else if contentType = [] then None
      else if \<not> has_prefix contentType ''application/json'' then Some (respondWithError gzip r 415 ''unsupported media type'' o')
      else None)"

section \<open>Safe readers\<close>

definition createSafeRequestReader :: "(reader \<Rightarrow> go_error + reader) \<Rightarrow> request \<Rightarrow> server_options \<Rightarrow> go_error + reader" where
  "createSafeRequestReader gunzip r opts =
     (let maxRequestSize = (if MaxRequestSize opts = 0 then 10 * 1024 * 1024 else MaxRequestSize opts);
          maxDecompressedSize = (if MaxDecompressedSize opts = 0 then 20 * 1024 * 1024 else MaxDecompressedSize opts);
          contentType = values_Get (rq_Header r) ''Content-Type'';
          limitedReader = MaxBytesReader maxRequestSize (rq_Body r);
          contentEncoding = trim_space (to_lower (values_Get (rq_Header r) ''Content-Encoding''))
      in if contentType \<noteq> [] \<and> \<not> has_prefix contentType ''application/json''
           then Inl (ErrorString (''unsupported media type: '' @ contentType))
         else if rq_ContentLength r > 0 \<and> rq_ContentLength r > maxRequestSize
           then Inl (ErrorString (''compressed request body too large: '' @ int_dec (rq_ContentLength r) @ '' bytes (max '' @ int_dec maxRequestSize @ '')''))
         else if contentEncoding \<noteq> [] \<and> contentEncoding \<noteq> ''gzip''
           then Inl (ErrorString (''unsupported content encoding: '' @ contentEncoding @ '' (only gzip is supported)''))
         else if contentEncoding = []
           then (let maxSize = (if maxDecompressedSize < maxRequestSize then maxDecompressedSize else maxRequestSize)
                 in if maxSize < maxRequestSize then Inr (MaxBytesReader maxSize (rq_Closed r)) else Inr limitedReader)
         else (case gunzip limitedReader of
                 Inl err \<Rightarrow> Inl (WrapError ''invalid gzip data: '' err)
               | Inr gzReader \<Rightarrow> Inr (decompressed_limit maxDecompressedSize gzReader)))"

definition createSafeResponseReader :: "(reader \<Rightarrow> go_error + reader) \<Rightarrow> response \<Rightarrow> client_options \<Rightarrow> go_error + reader" where
  "createSafeResponseReader gunzip resp opts =
     (let limited = LimitReader (co_MaxResponseSize opts) (rs_Body resp)
      in if to_lower (values_Get (rs_Header resp) ''Content-Encoding'') = ''gzip''
         then (case gunzip limited of
                 Inl err \<Rightarrow> Inl err
               | Inr gz \<Rightarrow> Inr (response_limit (co_MaxDecompressedResponseSize opts) gz))
         else Inr limited)"

end
