(* ===== verification/Idempotency.thy ===== *)
theory Idempotency
  imports Http_Types
begin

text \<open>
  The tracker of idempotency keys (transport/httptransport/idempotency.go). An entry holds the time it was recorded and the
  cached response. \<open>Record\<close> makes room by removing an oldest entry; which one of several equally old ones depends on the order in
  which the map is ranged over, an argument. The goroutine that removes expired entries is the operation \<open>cleanup\<close>, which may run
  between any two others.

  \<open>tracker_run\<close> are the states a tracker can reach. The lemmas bound its size and show that an entry stays until it expires as
  long as fewer keys than the capacity are recorded after it.
\<close>

section \<open>Tracker\<close>

record idempotency_entry =
  ie_timestamp :: int
  ie_response :: payload

record idempotency_tracker =
  it_keys :: "(string, idempotency_entry) fmap"
  it_maxAge :: int
  it_maxSize :: int

definition NewIdempotencyTracker :: "int \<Rightarrow> int \<Rightarrow> idempotency_tracker" where
  "NewIdempotencyTracker maxAge maxSize =
     \<lparr>it_keys = fmempty, it_maxAge = (if maxAge = 0 then 24 * 3600 * second else maxAge), it_maxSize = (if maxSize = 0 then 10000 else maxSize)\<rparr>"

definition Check :: "int \<Rightarrow> idempotency_tracker \<Rightarrow> string \<Rightarrow> payload option" where
  "Check now t key = (case fmlookup (it_keys t) key of
       None \<Rightarrow> None
     | Some entry \<Rightarrow> if time_Sub now (ie_timestamp entry) > it_maxAge t then None else Some (ie_response entry))"

text \<open>The loop that looks for an oldest entry, over the keys in range order.\<close>

fun oldest_loop :: "(string, idempotency_entry) fmap \<Rightarrow> string list \<Rightarrow> (string \<times> int) option \<Rightarrow> (string \<times> int) option" where
  "oldest_loop m [] best = best"
| "oldest_loop m (k # ks) best =
     (case fmlookup m k of
        None \<Rightarrow> oldest_loop m ks best
      | Some v \<Rightarrow> oldest_loop m ks (case best of
            None \<Rightarrow> Some (k, ie_timestamp v)
          | Some (_, oldestTime) \<Rightarrow> if ie_timestamp v < oldestTime then Some (k, ie_timestamp v) else best))"

definition oldestKey :: "(string, idempotency_entry) fmap \<Rightarrow> string list \<Rightarrow> string" where
  "oldestKey m ks = (case oldest_loop m ks None of None \<Rightarrow> [] | Some (k, _) \<Rightarrow> k)"

definition Record :: "int \<Rightarrow> string list \<Rightarrow> idempotency_tracker \<Rightarrow> string \<Rightarrow> payload \<Rightarrow> idempotency_tracker" where
  "Record now order t key response =
     (let m = (if int (fcard (fmdom (it_keys t))) \<ge> it_maxSize t then fmdrop (oldestKey (it_keys t) order) (it_keys t) else it_keys t)
      in t\<lparr>it_keys := fmupd key \<lparr>ie_timestamp = now, ie_response = response\<rparr> m\<rparr>)"

definition cleanup :: "int \<Rightarrow> idempotency_tracker \<Rightarrow> idempotency_tracker" where
  "cleanup now t = t\<lparr>it_keys := fmfilter (\<lambda>k. case fmlookup (it_keys t) k of
       None \<Rightarrow> False | Some entry \<Rightarrow> \<not> time_Sub now (ie_timestamp entry) > it_maxAge t) (it_keys t)\<rparr>"

definition Size_tracker :: "idempotency_tracker \<Rightarrow> nat" where
  "Size_tracker t = fcard (fmdom (it_keys t))"

definition Clear :: "idempotency_tracker \<Rightarrow> idempotency_tracker" where
  "Clear t = t\<lparr>it_keys := fmempty\<rparr>"

section \<open>Oldest entries\<close>

lemma oldest_loop_min:
  assumes "oldest_loop m ks best = Some (k, t)" and "\<And>k0 t0. best = Some (k0, t0) \<Longrightarrow> \<exists>v. fmlookup m k0 = Some v \<and> ie_timestamp v = t0"
  shows "(\<exists>v. fmlookup m k = Some v \<and> ie_timestamp v = t)
    \<and> (\<forall>x v. x \<in> set ks \<longrightarrow> fmlookup m x = Some v \<longrightarrow> t \<le> ie_timestamp v) \<and> (\<forall>k0 t0. best = Some (k0, t0) \<longrightarrow> t \<le> t0)"
  using assms
proof (induction m ks best rule: oldest_loop.induct)
  case (2 m x ks best)
  show ?case
  proof (cases "fmlookup m x")
    case None
    then show ?thesis using 2(1,3,4) by auto
  next
    case (Some v)
    let ?b = "case best of None \<Rightarrow> Some (x, ie_timestamp v)
       | Some (_, oldestTime) \<Rightarrow> if ie_timestamp v < oldestTime then Some (x, ie_timestamp v) else best"
    have b: "\<And>k0 t0. ?b = Some (k0, t0) \<Longrightarrow> \<exists>v. fmlookup m k0 = Some v \<and> ie_timestamp v = t0"
      using 2(4) Some by (auto split: option.splits if_splits)
    have le: "\<And>k0 t0. best = Some (k0, t0) \<Longrightarrow> \<exists>k1 t1. ?b = Some (k1, t1) \<and> t1 \<le> t0 \<and> t1 \<le> ie_timestamp v"
      by (auto split: if_splits)
    have le': "\<exists>k1 t1. ?b = Some (k1, t1) \<and> t1 \<le> ie_timestamp v"
      by (auto split: option.splits if_splits)
    have "oldest_loop m ks ?b = Some (k, t)" using 2(3) Some by simp
    from 2(2) [OF Some this b] show ?thesis using le le' Some by (fastforce dest: spec)
  qed
qed auto

lemma oldest_loop_total: "best \<noteq> None \<or> (\<exists>k \<in> set ks. fmlookup m k \<noteq> None) \<Longrightarrow> oldest_loop m ks best \<noteq> None"
  by (induction m ks best rule: oldest_loop.induct) (auto split: option.splits)

lemma oldestKey_min:
  assumes "m \<noteq> fmempty" and "set ks = fmdom' m"
  shows "\<exists>v. fmlookup m (oldestKey m ks) = Some v \<and> (\<forall>x w. fmlookup m x = Some w \<longrightarrow> ie_timestamp v \<le> ie_timestamp w)"
proof -
  have "\<exists>k \<in> set ks. fmlookup m k \<noteq> None"
  proof (rule ccontr)
    assume "\<not> ?thesis"
    then have "fmlookup m k = None" for k using assms(2) by (metis fmdom'_notD)
    then have "m = fmempty" by (intro fmap_ext) simp
    then show False using assms(1) by simp
  qed
  then obtain k t where kt: "oldest_loop m ks None = Some (k, t)"
    using oldest_loop_total [of None ks m] by fastforce
  from oldest_loop_min [OF this] show ?thesis
    using kt assms(2) by (auto simp: oldestKey_def fmlookup_dom'_iff)
qed

lemma fcard_fmdrop: "fmlookup m k = Some v \<Longrightarrow> Suc (fcard (fmdom (fmdrop k m))) = fcard (fmdom m)"
  by (metis fmdom_drop fcard_Suc_fminus1 fmdomI)

section \<open>Reachable trackers\<close>

inductive tracker_run :: "int \<Rightarrow> int \<Rightarrow> idempotency_tracker \<Rightarrow> bool" for maxAge maxSize where
  fresh: "tracker_run maxAge maxSize (NewIdempotencyTracker maxAge maxSize)"
| recorded: "tracker_run maxAge maxSize t \<Longrightarrow> distinct order \<Longrightarrow> set order = fmdom' (it_keys t) \<Longrightarrow>
    tracker_run maxAge maxSize (Record now order t key response)"
| cleaned: "tracker_run maxAge maxSize t \<Longrightarrow> tracker_run maxAge maxSize (cleanup now t)"
| cleared: "tracker_run maxAge maxSize t \<Longrightarrow> tracker_run maxAge maxSize (Clear t)"

lemma Record_fields [simp]: "it_maxSize (Record now order t key p) = it_maxSize t" "it_maxAge (Record now order t key p) = it_maxAge t"
  by (simp_all add: Record_def Let_def)

lemma Record_keys:
  "it_keys (Record now order t key p) = fmupd key \<lparr>ie_timestamp = now, ie_response = p\<rparr>
     (if int (fcard (fmdom (it_keys t))) \<ge> it_maxSize t then fmdrop (oldestKey (it_keys t) order) (it_keys t) else it_keys t)"
  by (simp add: Record_def Let_def)

lemma Record_card:
  assumes "int (fcard (fmdom (it_keys t))) \<le> max 1 (it_maxSize t)" and "set order = fmdom' (it_keys t)"
  shows "int (fcard (fmdom (it_keys (Record now order t key p)))) \<le> max 1 (it_maxSize t)"
proof (cases "int (fcard (fmdom (it_keys t))) \<ge> it_maxSize t \<and> it_keys t \<noteq> fmempty")
  case True
  obtain v where "fmlookup (it_keys t) (oldestKey (it_keys t) order) = Some v"
    using oldestKey_min [of "it_keys t" order] True assms(2) by blast
  from fcard_fmdrop [OF this] have "Suc (fcard (fmdom (fmdrop (oldestKey (it_keys t) order) (it_keys t)))) = fcard (fmdom (it_keys t))" .
  moreover have "fcard (fmdom (fmupd key e m)) \<le> Suc (fcard (fmdom m))" for e m by (simp add: fcard_fmdom_upd del: fmdom_fmupd)
  moreover have "it_keys (Record now order t key p)
      = fmupd key \<lparr>ie_timestamp = now, ie_response = p\<rparr> (fmdrop (oldestKey (it_keys t) order) (it_keys t))"
    using True by (simp only: Record_keys if_True)
  ultimately have "fcard (fmdom (it_keys (Record now order t key p))) \<le> fcard (fmdom (it_keys t))"
    by metis
  then show ?thesis using assms(1) by simp
next
  case False
  then show ?thesis using assms(1) by (auto simp: Record_def Let_def fcard_finsert_if)
qed

lemma fcard_filter: "fcard (fmdom (fmfilter P m)) \<le> fcard (fmdom m)"
  by (auto intro!: fcard_mono)

lemma tracker_run_bound:
  assumes "tracker_run maxAge maxSize t"
  shows "int (fcard (fmdom (it_keys t))) \<le> max 1 (it_maxSize t) \<and> it_maxSize t = (if maxSize = 0 then 10000 else maxSize)
    \<and> it_maxAge t = (if maxAge = 0 then 24 * 3600 * second else maxAge)"
  using assms
proof (induction rule: tracker_run.induct)
  case (recorded t order now key response)
  then show ?case using Record_card [of t order now key response] by (metis Record_fields)
next
  case (cleaned t now)
  have "fcard (fmdom (it_keys (cleanup now t))) \<le> fcard (fmdom (it_keys t))"
    using fcard_filter [of _ "it_keys t"] unfolding cleanup_def by (metis idempotency_tracker.select_convs(1) idempotency_tracker.surjective idempotency_tracker.update_convs(1))
  moreover have "it_maxSize (cleanup now t) = it_maxSize t" "it_maxAge (cleanup now t) = it_maxAge t" by (simp_all add: cleanup_def)
  ultimately show ?case using cleaned.IH by auto
qed (simp_all add: NewIdempotencyTracker_def Clear_def)

section \<open>How long an entry stays\<close>

text \<open>
  Operations after an entry was recorded: further keys recorded at later times, and cleanups. The number counts
  the records.
\<close>

inductive later :: "int \<Rightarrow> string \<Rightarrow> idempotency_tracker \<Rightarrow> nat \<Rightarrow> idempotency_tracker \<Rightarrow> bool" for t1 key t0 where
  start: "later t1 key t0 0 t0"
| more_records: "later t1 key t0 n t \<Longrightarrow> t1 < now \<Longrightarrow> k \<noteq> key \<Longrightarrow> distinct order \<Longrightarrow> set order = fmdom' (it_keys t) \<Longrightarrow>
    later t1 key t0 (Suc n) (Record now order t k p)"
| expiry: "later t1 key t0 n t \<Longrightarrow> time_Sub now t1 \<le> it_maxAge t \<Longrightarrow> later t1 key t0 n (cleanup now t)"

definition younger :: "int \<Rightarrow> (string, idempotency_entry) fmap \<Rightarrow> string fset" where
  "younger t1 m = ffilter (\<lambda>k. case fmlookup m k of None \<Rightarrow> False | Some v \<Rightarrow> t1 < ie_timestamp v) (fmdom m)"

lemma younger_iff: "k |\<in>| younger t1 m \<longleftrightarrow> (\<exists>v. fmlookup m k = Some v \<and> t1 < ie_timestamp v)"
  by (auto simp: younger_def fmlookup_dom_iff split: option.splits)

text \<open>
  The entry of the key keeps its time and response while the number of younger entries, which is at most the number of
  records made since, stays below the capacity.
\<close>

lemma later_keeps:
  assumes "later t1 key t0 n t" and "fmlookup (it_keys t0) key = Some v" and "ie_timestamp v = t1"
    and "\<And>k w. fmlookup (it_keys t0) k = Some w \<Longrightarrow> k \<noteq> key \<Longrightarrow> ie_timestamp w < t1" and "int n < it_maxSize t0"
  shows "fmlookup (it_keys t) key = Some v \<and> fcard (younger t1 (it_keys t)) \<le> n \<and> it_maxSize t = it_maxSize t0 \<and> it_maxAge t = it_maxAge t0
    \<and> (\<forall>k w. fmlookup (it_keys t) k = Some w \<longrightarrow> k \<noteq> key \<longrightarrow> ie_timestamp w \<noteq> t1)"
  using assms
proof (induction rule: later.induct)
  case start
  have "younger t1 (it_keys t0) = {||}"
    using start.prems(2,3) start.prems(1) by (auto simp: younger_iff) (metis less_asym option.inject order_less_irrefl)
  then show ?case using start.prems by (auto dest: less_imp_neq)
next
  case (more_records n t now k order p)
  have ih: "fmlookup (it_keys t) key = Some v" "fcard (younger t1 (it_keys t)) \<le> n" "it_maxSize t = it_maxSize t0" "it_maxAge t = it_maxAge t0"
    "\<forall>k w. fmlookup (it_keys t) k = Some w \<longrightarrow> k \<noteq> key \<longrightarrow> ie_timestamp w \<noteq> t1"
    using more_records.IH more_records.prems by auto
  let ?old = "oldestKey (it_keys t) order"
  define m where "m = (if int (fcard (fmdom (it_keys t))) \<ge> it_maxSize t then fmdrop ?old (it_keys t) else it_keys t)"
  have sub: "fmlookup m x = Some w \<Longrightarrow> fmlookup (it_keys t) x = Some w" for x w by (auto simp: m_def split: if_splits)
  have "fmlookup m key = Some v"
  proof (cases "int (fcard (fmdom (it_keys t))) \<ge> it_maxSize t")
    case True
    obtain u where u: "fmlookup (it_keys t) ?old = Some u" "\<forall>x w. fmlookup (it_keys t) x = Some w \<longrightarrow> ie_timestamp u \<le> ie_timestamp w"
      using oldestKey_min [of "it_keys t" order] more_records.hyps(5) ih(1) by force
    have "?old \<noteq> key"
    proof
      assume eq: "?old = key"
      have "fmdom (it_keys t) |\<subseteq>| finsert key (younger t1 (it_keys t))"
      proof
        fix x assume "x |\<in>| fmdom (it_keys t)"
        then obtain w where w: "fmlookup (it_keys t) x = Some w" by (auto simp: fmlookup_dom_iff)
        show "x |\<in>| finsert key (younger t1 (it_keys t))"
        proof (cases "x = key")
          case False
          then have "ie_timestamp w \<noteq> t1" "t1 \<le> ie_timestamp w" using ih(1,5) u eq w more_records.prems(2) by auto
          then show ?thesis using w by (simp add: younger_iff)
        qed simp
      qed
      then have "fcard (fmdom (it_keys t)) \<le> Suc n"
        using fcard_mono [of "fmdom (it_keys t)" "finsert key (younger t1 (it_keys t))"] fcard_finsert_le [of "younger t1 (it_keys t)" key] ih(2)
        by (simp add: fcard_finsert_if split: if_splits)
      then show False using True ih(3) more_records.prems(4) by simp
    qed
    then show ?thesis using True ih(1) by (simp add: m_def)
  qed (simp add: m_def ih(1))
  moreover have keys: "it_keys (Record now order t k p) = fmupd k \<lparr>ie_timestamp = now, ie_response = p\<rparr> m"
    by (simp add: Record_def m_def Let_def)
  moreover have "fcard (younger t1 (fmupd k \<lparr>ie_timestamp = now, ie_response = p\<rparr> m)) \<le> Suc n"
  proof -
    have "younger t1 (fmupd k \<lparr>ie_timestamp = now, ie_response = p\<rparr> m) |\<subseteq>| finsert k (younger t1 (it_keys t))"
      using sub by (auto simp: younger_iff split: if_splits)
    then have "fcard (younger t1 (fmupd k \<lparr>ie_timestamp = now, ie_response = p\<rparr> m)) \<le> fcard (finsert k (younger t1 (it_keys t)))"
      by (rule fcard_mono)
    then show ?thesis using ih(2) by (simp add: fcard_finsert_if split: if_splits)
  qed
  ultimately show ?case using ih more_records.hyps(2,3) sub by auto
next
  case (expiry n t now)
  then have ih: "fmlookup (it_keys t) key = Some v" "fcard (younger t1 (it_keys t)) \<le> n" "it_maxSize t = it_maxSize t0" "it_maxAge t = it_maxAge t0"
    "\<forall>k w. fmlookup (it_keys t) k = Some w \<longrightarrow> k \<noteq> key \<longrightarrow> ie_timestamp w \<noteq> t1" by auto
  have "younger t1 (it_keys (cleanup now t)) |\<subseteq>| younger t1 (it_keys t)"
    by (auto simp: younger_iff cleanup_def split: if_splits option.splits)
  then have "fcard (younger t1 (it_keys (cleanup now t))) \<le> n" using fcard_mono ih(2) le_trans by blast
  then show ?case using ih expiry.hyps(2) expiry.prems(2) by (auto simp: cleanup_def split: if_splits option.splits)
qed

text \<open>The tracker never holds more keys than its capacity, which is one at least, whatever is recorded.\<close>

lemma tracker_size_bound:
  "tracker_run maxAge maxSize t \<Longrightarrow> int (Size_tracker t) \<le> max 1 (if maxSize = 0 then 10000 else maxSize)"
  using tracker_run_bound [of maxAge maxSize t] unfolding Size_tracker_def by metis

text \<open>Recording a key again at capacity removes another, possibly unexpired key although no room is needed.\<close>

lemma rerecord_evicts:
  "let e = (\<lambda>n. \<lparr>ie_timestamp = n, ie_response = PText []\<rparr>);
       t = \<lparr>it_keys = fmupd ''b'' (e 2) (fmupd ''a'' (e 1) fmempty), it_maxAge = 100, it_maxSize = 2\<rparr>
   in Check 3 t ''a'' \<noteq> None \<and> Check 3 (Record 3 [''a'', ''b''] t ''b'' (PText [])) ''a'' = None"
  by code_simp

end
