(* ===== verification/Http_Server.thy ===== *)
theory Http_Server
  imports Idempotency
begin

text \<open>
  The HTTP server of the transport (transport/httptransport: http.go, query.go, cursor_api.go). The handler's state is its event store and its
  tracker of idempotency keys. Every endpoint is a function of that state and a request that gives the new state, the response and the calls of the hooks;
  a panic is \<open>None\<close>. The store is a record of operations, interpreted by the memory store. Clock readings and the order in which the tracker ranges over its map are
  arguments, as are the JSON and compression libraries. Log output is left out, except where a log call evaluates a method that can panic.
\<close>

section \<open>Queries\<close>

definition atoi :: "string \<Rightarrow> int option" where
  "atoi s = (let (neg, ds) = (case s of c # r \<Rightarrow> if c = CHR ''-'' then (True, r) else if c = CHR ''+'' then (False, r) else (False, s) | [] \<Rightarrow> (False, []));
                 n = (if neg then - int (dec_val ds) else int (dec_val ds))
             in if ds \<noteq> [] \<and> list_all is_digit ds \<and> - (2 ^ 63) \<le> n \<and> n < 2 ^ 63 then Some n else None)"

record pull_query =
  pq_Since :: "version option"
  pq_Limit :: int
  pq_Filters :: "filter_kv list"

definition query_filter :: "request \<Rightarrow> string \<Rightarrow> filter_kv list" where
  "query_filter r k = (let v = values_Get (rq_Query r) k in if v = [] then [] else [\<lparr>Key = k, Value = v\<rparr>])"

definition parse_limit :: "request \<Rightarrow> go_error + int" where
  "parse_limit r = (let limitStr = values_Get (rq_Query r) ''limit'' in
     if limitStr = [] then Inr 100
     else (case atoi limitStr of
        None \<Rightarrow> Inl (ErrorString ''invalid limit: must be integer'')
      | Some limit \<Rightarrow>
          if limit \<le> 0 then Inl (ErrorString ''invalid limit: must be positive'')
          else if limit > 1000 then Inl (ErrorString ''invalid limit: maximum is 1000'')
          else Inr limit))"

definition ParsePullQuery :: "request \<Rightarrow> http_version_parser \<Rightarrow> (go_error + pull_query) go" where
  "ParsePullQuery r parser = do {
     let sinceStr = (let s = values_Get (rq_Query r) ''since'' in if s = [] then ''0'' else s);
     v \<leftarrow> parser sinceStr;
     Some (case v of
        Inl err \<Rightarrow> Inl (WrapError ''invalid since cursor: '' err)
      | Inr version \<Rightarrow> (case parse_limit r of
           Inl err \<Rightarrow> Inl err
         | Inr limit \<Rightarrow> Inr \<lparr>pq_Since = version, pq_Limit = limit,
             pq_Filters = query_filter r ''type'' @ query_filter r ''tenant'' @ query_filter r ''aggregate_id''\<rparr>)) }"

fun GetFilter :: "filter_kv list \<Rightarrow> string \<Rightarrow> string \<times> bool" where
  "GetFilter [] k = ([], False)"
| "GetFilter (f # fs) k = (if Key f = k then (Value f, True) else GetFilter fs k)"

section \<open>Handler\<close>

record 's server_store =
  ss_Store :: "'s \<Rightarrow> go_error option \<Rightarrow> event option \<Rightarrow> version option \<Rightarrow> ('s \<times> go_error option) go"
  ss_Load :: "'s \<Rightarrow> go_error option \<Rightarrow> version option \<Rightarrow> filter_kv list \<Rightarrow> (go_error + event_with_version list) go"
  ss_LatestVersion :: "'s \<Rightarrow> go_error option \<Rightarrow> (go_error + version option) go"
  ss_ParseVersion :: "go_error option \<Rightarrow> http_version_parser"

text \<open>
  The configuration does not change. \<open>hd_parser\<close> is \<open>None\<close> when the parser of the store is used, and the two flags tell which
  hooks are set.
\<close>

record 's handler_config =
  hd_store :: "'s server_store"
  hd_parser :: "http_version_parser option"
  hd_options :: server_options
  hd_AfterCommit :: bool
  hd_BeforePull :: bool
  hd_json :: json_lib
  hd_gzip :: "string \<Rightarrow> string"
  hd_gunzip :: "reader \<Rightarrow> go_error + reader"
  hd_registry :: codec_registry

record 's sync_handler =
  sh_store :: 's
  sh_tracker :: idempotency_tracker

datatype http_hook = AfterCommit "event_with_version list" | BeforePull "version option"

definition NewSyncHandlerWithHooks :: "'s \<Rightarrow> 's sync_handler" where
  "NewSyncHandlerWithHooks s = \<lparr>sh_store = s, sh_tracker = NewIdempotencyTracker (10 * 60 * second) 1000\<rparr>"

definition versionParser :: "'s handler_config \<Rightarrow> go_error option \<Rightarrow> http_version_parser" where
  "versionParser cfg ctx = (case hd_parser cfg of None \<Rightarrow> ss_ParseVersion (hd_store cfg) ctx | Some p \<Rightarrow> p)"

definition respond :: "'s handler_config \<Rightarrow> request \<Rightarrow> nat \<Rightarrow> payload \<Rightarrow> response" where
  "respond cfg r code p = respondWithJSON (hd_json cfg) (hd_gzip cfg) r code p (Some (hd_options cfg))"

definition respondErr :: "'s handler_config \<Rightarrow> request \<Rightarrow> nat \<Rightarrow> string \<Rightarrow> response" where
  "respondErr cfg r code msg = respondWithError (hd_gzip cfg) r code msg (Some (hd_options cfg))"

section \<open>Push\<close>

text \<open>The loop over the events of a push request: what cannot be parsed or stored is skipped.\<close>

fun push_events ::
  "'s handler_config \<Rightarrow> go_error option \<Rightarrow> json_event_with_version list \<Rightarrow> 's \<Rightarrow> ('s \<times> event_with_version list) go" where
  "push_events cfg ctx [] s = Some (s, [])"
| "push_events cfg ctx (jev # jevs) s = do {
     r \<leftarrow> fromJSONEventWithVersion (versionParser cfg ctx) jev;
     (case r of
        Inl _ \<Rightarrow> push_events cfg ctx jevs s
      | Inr ev \<Rightarrow> do {
          (s', err) \<leftarrow> ss_Store (hd_store cfg) s ctx (ev_Event ev) (ev_Version ev);
          (s'', committed) \<leftarrow> push_events cfg ctx jevs s';
          Some (s'', if err = None then ev # committed else committed) }) }"

definition status_ok :: payload where
  "status_ok = PStatus ''status'' ''ok''"

text \<open>The part of \<open>handlePush\<close> after the check of the idempotency key; the times are those of \<open>Record\<close>.\<close>

definition process_push ::
  "'s handler_config \<Rightarrow> int \<Rightarrow> string list \<Rightarrow> 's sync_handler \<Rightarrow> request \<Rightarrow> ('s sync_handler \<times> response \<times> http_hook list) go" where
  "process_push cfg now order h r =
     (let opts = hd_options cfg; key = values_Get (rq_Header r) HeaderIdempotencyKey in
      if rq_Method r \<noteq> ''POST'' then Some (h, respondErr cfg r 405 ''method not allowed'', [])
      else (case validateContentType (hd_gzip cfg) r (Some opts) of
        Some resp \<Rightarrow> Some (h, resp, [])
      | None \<Rightarrow>
          if rq_ContentLength r > MaxRequestSize opts
            then Some (h, respondErr cfg r 413 (''request body too large: maximum size is '' @ int_dec (MaxRequestSize opts) @ '' bytes''), [])
          else (case createSafeRequestReader (hd_gunzip cfg) r opts of
            Inl err \<Rightarrow> Some (h, respondWithMappedError (hd_gzip cfg) r (Some err) ''invalid request body'' (Some opts), [])
          | Inr safeReader \<Rightarrow>
              (case jl_read_Events (hd_json cfg) safeReader of
                 Inl err \<Rightarrow>
                   if err = io_EOF then Some (h, respondErr cfg r 400 ''empty request body'', [])
                   else Some (h, respondWithMappedError (hd_gzip cfg) r (Some err) ''invalid request body'' (Some opts), [])
               | Inr jsonEvents \<Rightarrow> do {
                   (s', committed) \<leftarrow> push_events cfg (rq_ctx r) jsonEvents (sh_store h);
                   let h' = h\<lparr>sh_store := s',
                     sh_tracker := (if key \<noteq> [] then Record now order (sh_tracker h) key status_ok else sh_tracker h)\<rparr>;
                   Some (h', respond cfg r 200 status_ok, if hd_AfterCommit cfg \<and> committed \<noteq> [] then [AfterCommit committed] else []) }))))"

definition handlePush ::
  "'s handler_config \<Rightarrow> int \<Rightarrow> int \<Rightarrow> string list \<Rightarrow> 's sync_handler \<Rightarrow> request \<Rightarrow> ('s sync_handler \<times> response \<times> http_hook list) go" where
  "handlePush cfg checked now order h r =
     (let key = values_Get (rq_Header r) HeaderIdempotencyKey in
      case (if key \<noteq> [] then Check checked (sh_tracker h) key else None) of
        Some cached \<Rightarrow> Some (h, respond cfg r 200 cached, [])
      | None \<Rightarrow> process_push cfg now order h r)"

section \<open>Latest version and pull\<close>

definition handleLatestVersion :: "'s handler_config \<Rightarrow> 's sync_handler \<Rightarrow> request \<Rightarrow> ('s sync_handler \<times> response \<times> http_hook list) go" where
  "handleLatestVersion cfg h r =
     (if rq_Method r \<noteq> ''GET'' then Some (h, respondErr cfg r 405 ''method not allowed'', [])
      else do {
        v \<leftarrow> ss_LatestVersion (hd_store cfg) (sh_store h) (rq_ctx r);
        (case v of
           Inl _ \<Rightarrow> Some (h, respondErr cfg r 500 ''could not get latest version'', [])
         | Inr version \<Rightarrow> do {
             txt \<leftarrow> iface_String version;
             Some (h, respond cfg r 200 (PText txt), []) }) })"

definition opPull :: string where
  "opPull = ''httptransport.Pull''"

definition add_tenant :: "request \<Rightarrow> filter_kv list \<Rightarrow> filter_kv list" where
  "add_tenant r filters = (let tenant = ExtractTenant r in
     if tenant \<noteq> [] \<and> \<not> list_ex (\<lambda>f. Key f = ''tenant'') filters then filters @ [\<lparr>Key = ''tenant'', Value = tenant\<rparr>] else filters)"

fun map_go :: "('a \<Rightarrow> 'b go) \<Rightarrow> 'a list \<Rightarrow> 'b list go" where
  "map_go f [] = Some []"
| "map_go f (x # xs) = do { y \<leftarrow> f x; ys \<leftarrow> map_go f xs; Some (y # ys) }"

text \<open>At most as many events as the limit says, the first ones.\<close>

definition limit_page :: "int \<Rightarrow> 'a list \<Rightarrow> 'a list" where
  "limit_page limit evs = (if int (length evs) > limit then take (nat limit) evs else evs)"

lemma limit_page_take: "0 \<le> n \<Longrightarrow> limit_page n xs = take (nat n) xs"
  by (auto simp: limit_page_def)

text \<open>The debug log prints the version to pull from, so a nil one panics.\<close>

definition handlePull :: "'s handler_config \<Rightarrow> 's sync_handler \<Rightarrow> request \<Rightarrow> ('s sync_handler \<times> response \<times> http_hook list) go" where
  "handlePull cfg h r =
     (if rq_Method r \<noteq> ''GET''
      then Some (h, respondWithStructuredError (hd_json cfg) (hd_gzip cfg) r opPull ErrCodeInvalidRequest ''method not allowed'' (Some (hd_options cfg)), [])
      else do {
        q \<leftarrow> ParsePullQuery r (versionParser cfg (rq_ctx r));
        (case q of
           Inl err \<Rightarrow> Some (h, respondWithStructuredError (hd_json cfg) (hd_gzip cfg) r opPull ErrCodeInvalidCursor (Error_text err) (Some (hd_options cfg)), [])
         | Inr query \<Rightarrow> do {
             _ \<leftarrow> iface_String (pq_Since query);
             let filters = add_tenant r (pq_Filters query);
             let hooks = (if hd_BeforePull cfg then [BeforePull (pq_Since query)] else []);
             l \<leftarrow> ss_Load (hd_store cfg) (sh_store h) (rq_ctx r) (pq_Since query) filters;
             (case l of
                Inl _ \<Rightarrow> Some (h, respondWithStructuredError (hd_json cfg) (hd_gzip cfg) r opPull ErrCodeInternal ''failed to load events''
                  (Some (hd_options cfg)), hooks)
              | Inr evs \<Rightarrow> do {
                  let page = limit_page (pq_Limit query) evs;
                  jsonEvents \<leftarrow> map_go toJSONEventWithVersion page;
                  Some (h, respond cfg r 200 (PEvents jsonEvents), hooks) }) }) })"

section \<open>Pull with a cursor\<close>

text \<open>
  This endpoint ignores the options of the handler for its own limits and for the final response, and always uses the defaults. The largest sequence number is compared as a signed integer.
\<close>

fun max_seq :: "event_with_version list \<Rightarrow> int \<Rightarrow> int" where
  "max_seq [] acc = acc"
| "max_seq (ev # evs) acc = max_seq evs (case ev_Version ev of
     Some (IntegerCursor q) \<Rightarrow> if sint q > acc then sint q else acc | _ \<Rightarrow> acc)"

definition cursor_limit :: "int \<Rightarrow> int" where
  "cursor_limit limit = (if limit \<le> 0 \<or> limit > 1000 then 200 else limit)"

text \<open>The position to start from: only integer cursors are supported.\<close>

definition cursor_since :: "codec_registry \<Rightarrow> wire_cursor option \<Rightarrow> string + u64" where
  "cursor_since reg w = (case w of
       None \<Rightarrow> Inr 0
     | Some wc \<Rightarrow> (case UnmarshalWire reg (Some wc) of
         Inl err \<Rightarrow> Inl (''bad cursor: '' @ Error_text err)
       | Inr (Some (Integer_cursor seq)) \<Rightarrow> Inr seq
       | Inr _ \<Rightarrow> Inl ''cursor kind not supported by this store''))"

definition next_wire :: "codec_registry \<Rightarrow> event_with_version list \<Rightarrow> wire_cursor option" where
  "next_wire reg evs = (let maxSeq = max_seq evs 0 in
     if maxSeq > 0 then (case MarshalWire reg (Some (Integer_cursor (of_int maxSeq))) of Some (Inr w) \<Rightarrow> Some w | _ \<Rightarrow> None) else None)"

definition handlePullCursor :: "'s handler_config \<Rightarrow> 's sync_handler \<Rightarrow> request \<Rightarrow> ('s sync_handler \<times> response \<times> http_hook list) go" where
  "handlePullCursor cfg h r =
     (let opts = default_server_options in
      if rq_Method r \<noteq> ''POST'' then Some (h, respondErr cfg r 405 ''method not allowed'', [])
      else (case validateContentType (hd_gzip cfg) r (Some opts) of
        Some resp \<Rightarrow> Some (h, resp, [])
      | None \<Rightarrow>
          if rq_ContentLength r > MaxRequestSize opts
            then Some (h, respondWithError (hd_gzip cfg) r 413 (''request body too large: maximum size is '' @ int_dec (MaxRequestSize opts) @ '' bytes'') (Some opts), [])
          else (case createSafeRequestReader (hd_gunzip cfg) r opts of
            Inl err \<Rightarrow> Some (h, respondWithMappedError (hd_gzip cfg) r (Some err) ''invalid request body'' (Some opts), [])
          | Inr safeReader \<Rightarrow>
              (case jl_read_PullRequest (hd_json cfg) safeReader of
                 Inl err \<Rightarrow>
                   if err = io_EOF then Some (h, respondErr cfg r 400 ''empty request body'', [])
                   else Some (h, respondWithMappedError (hd_gzip cfg) r (Some err) ''invalid request body'' (Some opts), [])
               | Inr (sinceWire, limit) \<Rightarrow>
                   (case cursor_since (hd_registry cfg) sinceWire of
                      Inl msg \<Rightarrow> Some (h, respondErr cfg r 400 msg, [])
                    | Inr since \<Rightarrow> do {
                        l \<leftarrow> ss_Load (hd_store cfg) (sh_store h) (rq_ctx r) (Some (IntegerCursor since)) [];
                        (case l of
                           Inl _ \<Rightarrow> Some (h, respondErr cfg r 500 ''could not load events'', [])
                         | Inr evs \<Rightarrow> do {
                             let page = limit_page (cursor_limit limit) evs;
                             jsonEvents \<leftarrow> map_go toJSONEventWithVersion page;
                             Some (h, respondWithJSON (hd_json cfg) (hd_gzip cfg) r 200 (PPage jsonEvents (next_wire (hd_registry cfg) page)) (Some opts), []) }) })))))"

section \<open>Routing\<close>

definition strip_sync :: "string \<Rightarrow> string" where
  "strip_sync path = (if take 5 path = ''/sync'' then drop 5 path else path)"

definition ServeHTTP ::
  "'s handler_config \<Rightarrow> int \<Rightarrow> int \<Rightarrow> string list \<Rightarrow> 's sync_handler \<Rightarrow> request \<Rightarrow> ('s sync_handler \<times> response \<times> http_hook list) go" where
  "ServeHTTP cfg checked now order h r =
     (let path = strip_sync (rq_Path r) in
      if path = ''/push'' then handlePush cfg checked now order h r
      else if path = ''/pull'' then handlePull cfg h r
      else if path = ''/latest-version'' then handleLatestVersion cfg h r
      else if path = ''/pull-cursor'' then handlePullCursor cfg h r
      else Some (h, respondErr cfg r 404 ''not found'', []))"

definition memstore_server :: "mem_store server_store" where
  "memstore_server = \<lparr>ss_Store = Store, ss_Load = Load, ss_LatestVersion = (\<lambda>s c. Some (LatestVersion s c)),
     ss_ParseVersion = (\<lambda>c txt. Some (ParseVersion txt))\<rparr>"

end
