(* ===== verification/Http_Client.thy ===== *)
theory Http_Client
  imports Http_Server
begin

text \<open>
  The HTTP client of the transport (transport/httptransport: client.go, cursor_client.go): construction with its defaults, and the operations \<open>Push\<close>, \<open>Pull\<close>,
  \<open>GetLatestVersion\<close>, \<open>PullWithCursor\<close>, \<open>Subscribe\<close> and \<open>Close\<close>. How a request travels is the argument \<open>net\<close>, a function of a state (the server and what lies in between) and the
  request. The text of a URL is parsed the way net/url does it: a version text is put into the query without escaping.

  The logger may be nil, which makes every operation that logs panic.
\<close>

section \<open>Queries in URLs\<close>

definition is_ctl :: "char \<Rightarrow> bool" where
  "is_ctl c \<longleftrightarrow> byte_of c < 32 \<or> byte_of c = 127"

fun query_unescape :: "string \<Rightarrow> string option" where
  "query_unescape [] = Some []"
| "query_unescape (c # s) =
     (if c = CHR ''%'' then
        (case s of
           a # b # r \<Rightarrow> (case (hex_val a, hex_val b) of
               (Some x, Some y) \<Rightarrow> map_option (Cons (char_of (16 * x + y))) (query_unescape r)
             | _ \<Rightarrow> None)
         | _ \<Rightarrow> None)
      else map_option (Cons (if c = CHR ''+'' then CHR '' '' else c)) (query_unescape s))"

definition cut :: "char \<Rightarrow> string \<Rightarrow> string \<times> string" where
  "cut c s = (takeWhile (\<lambda>x. x \<noteq> c) s, drop 1 (dropWhile (\<lambda>x. x \<noteq> c) s))"

function split_on :: "char \<Rightarrow> string \<Rightarrow> string list" where
  "split_on c s = (if c \<in> set s then fst (cut c s) # split_on c (snd (cut c s)) else [s])"
  by pat_completeness auto
termination
proof (relation "measure (length \<circ> snd)")
  fix c and s :: string
  assume "c \<in> set s"
  then obtain a b where "s = a @ c # b" "c \<notin> set a" by (metis split_list_first)
  then have "dropWhile (\<lambda>x. x \<noteq> c) s = c # b" by (auto simp: dropWhile_append3)
  then show "((c, snd (cut c s)), c, s) \<in> measure (length \<circ> snd)"
    using \<open>s = a @ c # b\<close> by (simp add: cut_def)
qed simp

declare split_on.simps [simp del]

definition query_pair :: "string \<Rightarrow> (string \<times> string) list" where
  "query_pair p =
     (if p = [] \<or> CHR '';'' \<in> set p then []
      else (case cut (CHR ''='') p of (k, v) \<Rightarrow> (case (query_unescape k, query_unescape v) of (Some k', Some v') \<Rightarrow> [(k', v')] | _ \<Rightarrow> [])))"

text \<open>The values of a raw query, whose fragment is cut off first; malformed pairs are skipped.\<close>

definition parse_query :: "string \<Rightarrow> (string \<times> string) list" where
  "parse_query s = concat (map query_pair (split_on (CHR ''&'') (fst (cut (CHR ''#'') s))))"

section \<open>Construction\<close>

record limits =
  MaxBodyBytes :: int
  MaxDecompressedBytes :: int
  EnableGzip :: bool
  GzipMinBytes :: int

record transport_client =
  tc_baseURL :: string
  tc_timeout :: "int option"
  tc_limits :: limits
  tc_parseVersion :: "http_version_parser option"

text \<open>The HTTP client is given by its timeout; \<open>None\<close> is a nil client.\<close>

definition WithHTTPClient :: "int option \<Rightarrow> transport_client \<Rightarrow> transport_client" where
  "WithHTTPClient cl c = c\<lparr>tc_timeout := cl\<rparr>"

definition WithLimits :: "limits \<Rightarrow> transport_client \<Rightarrow> transport_client" where
  "WithLimits l c = c\<lparr>tc_limits := l\<rparr>"

definition WithVersionParser :: "http_version_parser option \<Rightarrow> transport_client \<Rightarrow> transport_client" where
  "WithVersionParser vp c = c\<lparr>tc_parseVersion := vp\<rparr>"

definition NewTransportClient :: "string \<Rightarrow> (transport_client \<Rightarrow> transport_client) list \<Rightarrow> transport_client" where
  "NewTransportClient baseURL opts = foldl (\<lambda>c opt. opt c)
     \<lparr>tc_baseURL = baseURL, tc_timeout = Some (30 * second),
      tc_limits = \<lparr>MaxBodyBytes = 8 * 2 ^ 20, MaxDecompressedBytes = 64 * 2 ^ 20, EnableGzip = True, GzipMinBytes = 1024\<rparr>,
      tc_parseVersion = None\<rparr> opts"

record http_transport =
  ht_baseURL :: string
  ht_parser :: http_version_parser
  ht_logger :: bool
  ht_options :: client_options

text \<open>The default parser: zero is refused, a negative number wraps around.\<close>

definition default_parser :: http_version_parser where
  "default_parser s = Some (case ParseInt s of
       Inl err \<Rightarrow> Inl err
     | Inr v \<Rightarrow> if v = 0 then Inl (ErrorString ''invalid version: zero is not a valid version'') else Inr (Some (IntegerCursor (of_int v))))"

definition fill_options :: "client_options option \<Rightarrow> client_options" where
  "fill_options o' =
     (let opts = (case o' of None \<Rightarrow> DefaultClientOptions | Some x \<Rightarrow> x);
          opts1 = (if co_MaxResponseSize opts = 0 then opts\<lparr>co_MaxResponseSize := 10 * 1024 * 1024\<rparr> else opts);
          opts2 = (if co_MaxDecompressedResponseSize opts1 = 0 then opts1\<lparr>co_MaxDecompressedResponseSize := 20 * 1024 * 1024\<rparr> else opts1)
      in if ValidateClientOptions (Some opts2) \<noteq> None then DefaultClientOptions else opts2)"

definition NewTransportWithLogger :: "string \<Rightarrow> http_version_parser option \<Rightarrow> client_options option \<Rightarrow> bool \<Rightarrow> http_transport" where
  "NewTransportWithLogger baseURL parser options logger =
     \<lparr>ht_baseURL = baseURL, ht_parser = (case parser of None \<Rightarrow> default_parser | Some p \<Rightarrow> p), ht_logger = logger, ht_options = fill_options options\<rparr>"

definition NewTransport :: "string \<Rightarrow> http_version_parser option \<Rightarrow> client_options option \<Rightarrow> http_transport" where
  "NewTransport baseURL parser options = NewTransportWithLogger baseURL parser options True"

definition ToHTTPTransport :: "transport_client \<Rightarrow> http_transport go" where
  "ToHTTPTransport c = do {
     timeout \<leftarrow> tc_timeout c;
     Some (NewTransportWithLogger (tc_baseURL c) (tc_parseVersion c)
       (Some \<lparr>co_CompressionEnabled = EnableGzip (tc_limits c), co_DisableAutoDecompression = False, co_GzipMinBytes = GzipMinBytes (tc_limits c),
         co_MaxResponseSize = MaxBodyBytes (tc_limits c), co_MaxDecompressedResponseSize = MaxDecompressedBytes (tc_limits c),
         co_RequestTimeout = timeout, co_RetryMax = 3, co_RetryWaitMin = second, co_RetryWaitMax = 30 * second\<rparr>) False) }"

section \<open>Requests\<close>

type_synonym 'n net = "'n \<Rightarrow> request \<Rightarrow> 'n \<times> (go_error + response)"

definition component :: string where
  "component = ''transport/httptransport''"

definition wrap :: "string \<Rightarrow> string \<Rightarrow> go_error \<Rightarrow> go_error option" where
  "wrap op pre err = WrapOpComponent (Some (WrapError pre err)) op component"

definition wrap_text :: "string \<Rightarrow> string \<Rightarrow> go_error option" where
  "wrap_text op msg = WrapOpComponent (Some (ErrorString msg)) op component"

text \<open>The path part of a base URL such as the one of a server's sync endpoint is kept as it is; the body of a request, once closed, cannot be read.\<close>

definition closed_body :: reader where
  "closed_body = ([], ErrorString ''http: invalid Read on closed Body'')"

definition new_request :: "go_error option \<Rightarrow> string \<Rightarrow> string \<Rightarrow> string \<Rightarrow> string \<Rightarrow> go_error + request" where
  "new_request ctx meth path query body =
     (if list_ex is_ctl (path @ query) then Inl (ErrorString ''net/url: invalid control character in URL'')
      else Inr \<lparr>rq_Method = meth, rq_Path = path, rq_Query = parse_query query, rq_Header = [], rq_ContentLength = int (length body),
                rq_Body = (body, io_EOF), rq_Closed = closed_body, rq_ctx = ctx\<rparr>)"

definition set_header :: "string \<Rightarrow> string \<Rightarrow> request \<Rightarrow> request" where
  "set_header k v r = r\<lparr>rq_Header := (k, v) # filter (\<lambda>(k', _). k' \<noteq> k) (rq_Header r)\<rparr>"

definition accept_encoding :: "client_options \<Rightarrow> request \<Rightarrow> request" where
  "accept_encoding opts r =
     (if co_CompressionEnabled opts
      then set_header ''Accept-Encoding'' (if co_DisableAutoDecompression opts then ''gzip'' else ''gzip, deflate'') r else r)"

section \<open>Push\<close>

definition opPush :: string where
  "opPush = ''httptransport.Push''"

definition compress_request :: "(string \<Rightarrow> string) \<Rightarrow> client_options \<Rightarrow> string \<Rightarrow> request \<Rightarrow> request" where
  "compress_request gzip opts payload r =
     (let gzipMinBytes = (if co_GzipMinBytes opts = 0 then 1024 else co_GzipMinBytes opts)
      in if co_CompressionEnabled opts \<and> int (length payload) > gzipMinBytes
         then (set_header ''Content-Encoding'' ''gzip'' r)\<lparr>rq_Body := (gzip payload, io_EOF), rq_ContentLength := int (length (gzip payload))\<rparr>
         else r)"

definition Push_http ::
  "json_lib \<Rightarrow> (string \<Rightarrow> string) \<Rightarrow> 'n net \<Rightarrow> http_transport \<Rightarrow> 'n \<Rightarrow> go_error option \<Rightarrow> event_with_version list \<Rightarrow> ('n \<times> go_error option) go" where
  "Push_http jl gzip net c n ctx evs =
     (if \<not> ht_logger c then None
      else if evs = [] then Some (n, None)
      else do {
        jsonData \<leftarrow> map_go toJSONEventWithVersion evs;
        Some (case jl_Events jl jsonData of
           Inl err \<Rightarrow> (n, wrap opPush ''failed to marshal events: '' err)
         | Inr payload \<Rightarrow> (case new_request ctx ''POST'' (ht_baseURL c @ ''/push'') [] payload of
              Inl err \<Rightarrow> (n, wrap opPush ''failed to create request: '' err)
            | Inr r0 \<Rightarrow>
                let r1 = set_header ''Content-Type'' ''application/json'' r0;
                    r2 = compress_request gzip (ht_options c) payload r1
                in (case net n (accept_encoding (ht_options c) r2) of
                      (n', Inl err) \<Rightarrow> (n', wrap opPush ''network error: '' err)
                    | (n', Inr resp) \<Rightarrow>
                        if rs_Code resp \<noteq> 200
                        then (n', wrap_text opPush (''server error (status '' @ nat_dec (rs_Code resp) @ ''): '' @ fst (rs_Body resp)))
                        else (n', None)))) })"

section \<open>Pull\<close>

fun parse_events :: "http_version_parser \<Rightarrow> json_event_with_version list \<Rightarrow> (go_error + event_with_version list) go" where
  "parse_events parser [] = Some (Inr [])"
| "parse_events parser (jev # jevs) = do {
     v \<leftarrow> parser (jv_Version jev);
     (case v of
        Inl err \<Rightarrow> Some (Inl err)
      | Inr version \<Rightarrow> do {
          rest \<leftarrow> parse_events parser jevs;
          Some (case rest of Inl err \<Rightarrow> Inl err
            | Inr evs \<Rightarrow> Inr (\<lparr>ev_Event = Some (SimpleEvent (jv_Event jev)), ev_Version = version\<rparr> # evs)) }) }"

definition too_large :: "string \<Rightarrow> string \<Rightarrow> go_error \<Rightarrow> go_error option" where
  "too_large op what err =
     (if errors_Is err errResponseDecompressedTooLarge then wrap op ''response decompressed size exceeds limit: '' err else wrap op what err)"

definition read_events ::
  "json_lib \<Rightarrow> (reader \<Rightarrow> go_error + reader) \<Rightarrow> http_transport \<Rightarrow> response \<Rightarrow> (go_error option + event_with_version list) go" where
  "read_events jl gunzip c resp =
     (case createSafeResponseReader gunzip resp (ht_options c) of
        Inl err \<Rightarrow> Some (Inl (wrap opPull ''failed to create safe response reader: '' err))
      | Inr rd \<Rightarrow> (case jl_read_Events jl rd of
           Inl err \<Rightarrow> Some (Inl (too_large opPull ''failed to decode response: '' err))
         | Inr jevs \<Rightarrow> do {
             p \<leftarrow> parse_events (ht_parser c) jevs;
             Some (case p of Inl err \<Rightarrow> Inl (wrap opPull ''invalid version in response: '' err) | Inr evs \<Rightarrow> Inr evs) }))"

definition Pull_http ::
  "json_lib \<Rightarrow> (reader \<Rightarrow> go_error + reader) \<Rightarrow> 'n net \<Rightarrow> http_transport \<Rightarrow> 'n \<Rightarrow> go_error option \<Rightarrow> version option
     \<Rightarrow> ('n \<times> (go_error option + event_with_version list)) go" where
  "Pull_http jl gunzip net c n ctx since =
     (if \<not> ht_logger c then None
      else do {
        txt \<leftarrow> iface_String since;
        (case new_request ctx ''GET'' (ht_baseURL c @ ''/pull'') (''since='' @ txt) [] of
           Inl err \<Rightarrow> Some (n, Inl (wrap opPull ''failed to create request: '' err))
         | Inr r0 \<Rightarrow> (case net n (accept_encoding (ht_options c) r0) of
             (n', Inl err) \<Rightarrow> Some (n', Inl (wrap opPull ''network error: '' err))
           | (n', Inr resp) \<Rightarrow>
               if rs_Code resp \<noteq> 200
               then Some (n', Inl (wrap_text opPull (''server error (status '' @ nat_dec (rs_Code resp) @ ''): '' @ fst (rs_Body resp))))
               else do { res \<leftarrow> read_events jl gunzip c resp; Some (n', res) })) })"

section \<open>Latest version, subscriptions\<close>

definition opLatestVersion :: string where
  "opLatestVersion = ''httptransport.GetLatestVersion''"

definition GetLatestVersion_http ::
  "json_lib \<Rightarrow> (reader \<Rightarrow> go_error + reader) \<Rightarrow> 'n net \<Rightarrow> http_transport \<Rightarrow> 'n \<Rightarrow> go_error option \<Rightarrow> ('n \<times> (go_error option + version option)) go" where
  "GetLatestVersion_http jl gunzip net c n ctx =
     (case new_request ctx ''GET'' (ht_baseURL c @ ''/latest-version'') [] [] of
        Inl err \<Rightarrow> Some (n, Inl (wrap opLatestVersion ''failed to create request for latest version: '' err))
      | Inr r0 \<Rightarrow> (case net n r0 of
          (n', Inl err) \<Rightarrow> Some (n', Inl (wrap opLatestVersion ''network error while getting latest version: '' err))
        | (n', Inr resp) \<Rightarrow>
            if rs_Code resp \<noteq> 200
            then Some (n', Inl (wrap_text opLatestVersion (''server error while fetching latest version (status '' @ nat_dec (rs_Code resp) @ ''): '' @ fst (rs_Body resp))))
            else (case createSafeResponseReader gunzip resp (ht_options c) of
               Inl err \<Rightarrow> Some (n', Inl (wrap opLatestVersion ''failed to create safe response reader: '' err))
             | Inr rd \<Rightarrow> (case jl_read_Text jl rd of
                 Inl err \<Rightarrow> Some (n', Inl (too_large opLatestVersion ''failed to decode latest version: '' err))
               | Inr versionStr \<Rightarrow> do {
                   v \<leftarrow> ht_parser c versionStr;
                   Some (n', case v of Inl err \<Rightarrow> Inl (wrap opLatestVersion ''invalid version format: '' err) | Inr version \<Rightarrow> Inr version) }))))"

definition Subscribe_http :: "go_error option" where
  "Subscribe_http = WrapOpComponent (Some (ErrorString ''subscribe is not implemented for HTTP transport'')) ''httptransport.Subscribe'' component"

definition Close_http :: "go_error option" where
  "Close_http = None"

section \<open>Pull with a cursor\<close>

text \<open>The body of the request: a wire cursor, if any, and the limit, which is never zero here.\<close>

definition json_pull_request :: "wire_cursor option \<Rightarrow> int \<Rightarrow> string" where
  "json_pull_request w limit = ''{'' @ (case w of None \<Rightarrow> [] | Some wc \<Rightarrow> json_string ''since'' @ '':'' @ json_wire_cursor wc @ '','')
     @ json_string ''limit'' @ '':'' @ int_dec limit @ ''}''"

definition PullWithCursor_http ::
  "json_lib \<Rightarrow> (reader \<Rightarrow> go_error + reader) \<Rightarrow> codec_registry \<Rightarrow> 'n net \<Rightarrow> http_transport \<Rightarrow> 'n \<Rightarrow> go_error option \<Rightarrow> cursor option \<Rightarrow> int
     \<Rightarrow> ('n \<times> (go_error + event_with_version list \<times> cursor option)) go" where
  "PullWithCursor_http jl gunzip reg net c n ctx since limit = do {
     w \<leftarrow> (case since of None \<Rightarrow> Some (Inr None)
            | Some cu \<Rightarrow> map_option (\<lambda>r. case r of Inl e \<Rightarrow> Inl e | Inr wc \<Rightarrow> Inr (Some wc)) (MarshalWire reg (Some cu)));
     (case w of
        Inl err \<Rightarrow> Some (n, Inl err)
      | Inr sinceWire \<Rightarrow>
          (case new_request ctx ''POST'' (ht_baseURL c @ ''/pull-cursor'') [] (json_pull_request sinceWire (cursor_limit limit)) of
             Inl err \<Rightarrow> Some (n, Inl err)
           | Inr r0 \<Rightarrow> (case net n (set_header ''Content-Type'' ''application/json'' r0) of
               (n', Inl err) \<Rightarrow> Some (n', Inl err)
             | (n', Inr resp) \<Rightarrow>
                 if rs_Code resp \<noteq> 200
                 then Some (n', Inl (ErrorString (''pull-cursor failed: '' @ nat_dec (rs_Code resp) @ '': '' @ fst (rs_Body resp))))
                 else (case createSafeResponseReader gunzip resp (ht_options c) of
                    Inl err \<Rightarrow> Some (n', Inl (WrapError ''failed to create safe response reader: '' err))
                  | Inr rd \<Rightarrow> (case jl_read_Page jl rd of
                      Inl err \<Rightarrow> Some (n', Inl (if errors_Is err errResponseDecompressedTooLarge
                        then WrapError ''response decompressed size exceeds limit: '' err else err))
                    | Inr (jevs, nextWire) \<Rightarrow> do {
                        p \<leftarrow> parse_events (ht_parser c) jevs;
                        Some (n', case p of
                           Inl err \<Rightarrow> Inl (WrapError ''invalid version: '' err)
                         | Inr evs \<Rightarrow> (case nextWire of
                             None \<Rightarrow> Inr (evs, None)
                           | Some wc \<Rightarrow> (case UnmarshalWire reg (Some wc) of
                               Inl err \<Rightarrow> Inl (WrapError ''bad next cursor: '' err)
                             | Inr next \<Rightarrow> Inr (evs, next)))) }))))) }"

end
