(* ===== verification/Http_Sync.thy ===== *)
theory Http_Sync
  imports Http_Client Projection
begin

text \<open>
  The HTTP client and server together: a network that hands every request to the handler and its response back (\<open>direct\<close>), with
  a memory store behind the handler and the default options on both sides. The lemmas follow a push, a pull and a pull with a cursor from the call of the client through the
  text of the request, the handler, the store and the text of the response back to the client. What they need of the JSON and compression libraries is \<open>carries\<close>: the texts of these
  events are within the limits, a compressed text is decompressed to itself, and reading a text back gives the events, up to what JSON does to their payloads (\<open>cp\<close>).
\<close>

section \<open>A direct link\<close>

definition direct :: "'s handler_config \<Rightarrow> int \<Rightarrow> int \<Rightarrow> string list \<Rightarrow> 's sync_handler net" where
  "direct cfg checked now order h r = (case ServeHTTP cfg checked now order h r of
       None \<Rightarrow> (h, Inl io_EOF) | Some (h', resp, _) \<Rightarrow> (h', Inr resp))"

definition carries ::
  "json_lib \<Rightarrow> (string \<Rightarrow> string) \<Rightarrow> (reader \<Rightarrow> go_error + reader) \<Rightarrow> (json_event_with_version \<Rightarrow> json_event_with_version)
     \<Rightarrow> json_event_with_version list \<Rightarrow> bool" where
  "carries jl gzip gunzip cp js \<longleftrightarrow> (\<exists>t. jl_Events jl js = Inr t \<and> length t < 10 * 1024 * 1024 \<and> length (gzip t) < 10 * 1024 * 1024
     \<and> gunzip (gzip t, io_EOF) = Inr (t, io_EOF) \<and> jl_read_Events jl (t, io_EOF) = Inr (map cp js))"

definition mem_config :: "json_lib \<Rightarrow> (string \<Rightarrow> string) \<Rightarrow> (reader \<Rightarrow> go_error + reader) \<Rightarrow> bool \<Rightarrow> bool \<Rightarrow> mem_store handler_config" where
  "mem_config jl gzip gunzip after before = \<lparr>hd_store = memstore_server, hd_parser = None, hd_options = default_server_options,
     hd_AfterCommit = after, hd_BeforePull = before, hd_json = jl, hd_gzip = gzip, hd_gunzip = gunzip, hd_registry = InitDefaultCodecs fmempty\<rparr>"

lemma mem_config_simps [simp]:
  "hd_store (mem_config jl gz gu a b) = memstore_server" "hd_parser (mem_config jl gz gu a b) = None"
  "hd_options (mem_config jl gz gu a b) = default_server_options" "hd_json (mem_config jl gz gu a b) = jl"
  "hd_gzip (mem_config jl gz gu a b) = gz" "hd_gunzip (mem_config jl gz gu a b) = gu" "hd_registry (mem_config jl gz gu a b) = InitDefaultCodecs fmempty"
  "hd_AfterCommit (mem_config jl gz gu a b) = a" "hd_BeforePull (mem_config jl gz gu a b) = b"
  "versionParser (mem_config jl gz gu a b) ctx = (\<lambda>txt. Some (ParseVersion txt))"
  by (auto simp: mem_config_def versionParser_def memstore_server_def)

lemma default_options_valid: "DefaultServerOptions dur = Some default_server_options"
  "ValidateClientOptions (Some DefaultClientOptions) = None" "ValidateServerOptions (Some default_server_options) = None"
  by (simp_all add: DefaultServerOptions_def Validate_def default_server_options_def second_def ValidateClientOptions_def DefaultClientOptions_def
      ValidateServerOptions_def)

lemma NewTransport_default [simp]:
  "ht_logger (NewTransport base None None)" "ht_baseURL (NewTransport base None None) = base" "ht_parser (NewTransport base None None) = default_parser"
  "ht_options (NewTransport base None None) = DefaultClientOptions"
proof -
  have "fill_options None = DefaultClientOptions"
    using default_options_valid(2) by (simp add: fill_options_def) (simp add: DefaultClientOptions_def)
  then show "ht_options (NewTransport base None None) = DefaultClientOptions"
    by (simp add: NewTransport_def NewTransportWithLogger_def)
qed (simp_all add: NewTransport_def NewTransportWithLogger_def)

section \<open>What the memory store makes of a push\<close>

fun stored_as :: "nat \<Rightarrow> json_event_with_version list \<Rightarrow> event_with_version list" where
  "stored_as n [] = []"
| "stored_as n (j # js) = \<lparr>ev_Event = Some (copy_event (SimpleEvent (jv_Event j)) (of_nat (Suc n))), ev_Version = Some (IntegerCursor (of_nat (Suc n)))\<rparr>
     # stored_as (Suc n) js"

definition version_parses :: "json_event_with_version \<Rightarrow> bool" where
  "version_parses j \<longleftrightarrow> (\<exists>v. ParseVersion (jv_Version j) = Inr v)"

lemma push_events_memstore:
  assumes "store_inv s" and "\<not> closed s"
  shows "\<exists>s' committed. push_events (mem_config jl gz gu a b) None js s = Some (s', committed) \<and> store_inv s' \<and> \<not> closed s'
    \<and> events s' = events s @ stored_as (length (events s)) (filter version_parses js)"
  using assms
proof (induction js arbitrary: s)
  case (Cons j js)
  show ?case
  proof (cases "ParseVersion (jv_Version j)")
    case (Inl err)
    then show ?thesis using Cons by (simp add: fromJSONEventWithVersion_def version_parses_def)
  next
    case (Inr v)
    let ?e = "SimpleEvent (jv_Event j)"
    obtain s1 where s1: "Store s None (Some ?e) v = Some (s1, None)" "store_inv s1" "\<not> closed s1" "events s1 = events s @ [new_entry s ?e]"
      using Store_open [OF Cons(2,3)] by blast
    have seq: "nextSeq s = of_nat (Suc (length (events s)))" using Cons(2,3) by (simp add: store_inv_def)
    obtain s2 cm where s2: "push_events (mem_config jl gz gu a b) None js s1 = Some (s2, cm)" "store_inv s2" "\<not> closed s2"
      "events s2 = events s1 @ stored_as (length (events s1)) (filter version_parses js)"
      using Cons(1) [OF s1(2,3)] by blast
    moreover have "version_parses j" using Inr by (simp add: version_parses_def)
    ultimately show ?thesis using s1 Inr seq
      by (simp add: fromJSONEventWithVersion_def memstore_server_def new_entry_def)
  qed
qed simp

lemma push_events_closed:
  assumes "closed s"
  shows "push_events (mem_config jl gz gu a b) None js s = Some (s, [])"
proof (induction js)
  case (Cons j js)
  then show ?case using assms
    by (cases "ParseVersion (jv_Version j)") (simp_all add: fromJSONEventWithVersion_def memstore_server_def Store_def)
qed simp

section \<open>Requests of the client\<close>

definition known_base :: "string \<Rightarrow> bool" where
  "known_base base \<longleftrightarrow> base = [] \<or> base = ''/sync''"

lemma strip_sync_base:
  assumes "known_base base"
  shows "strip_sync (base @ ''/push'') = ''/push''" "strip_sync (base @ ''/pull'') = ''/pull''"
    "strip_sync (base @ ''/latest-version'') = ''/latest-version''" "strip_sync (base @ ''/pull-cursor'') = ''/pull-cursor''"
    "\<not> list_ex is_ctl base"
  using assms by (auto simp: known_base_def strip_sync_def is_ctl_def byte_of_def)

lemma new_request_path:
  assumes "known_base base" and "\<not> list_ex is_ctl p" and "\<not> list_ex is_ctl q"
  shows "new_request ctx m (base @ p) q body = Inr \<lparr>rq_Method = m, rq_Path = base @ p, rq_Query = parse_query q, rq_Header = [],
     rq_ContentLength = int (length body), rq_Body = (body, io_EOF), rq_Closed = closed_body, rq_ctx = ctx\<rparr>"
  using assms strip_sync_base(5) [OF assms(1)] by (simp add: new_request_def)

lemma endpoint_plain: "\<not> list_ex is_ctl ''/push''" "\<not> list_ex is_ctl ''/pull''" "\<not> list_ex is_ctl ''/latest-version''" "\<not> list_ex is_ctl ''/pull-cursor''"
  by (simp_all add: is_ctl_def byte_of_def)

lemma to_lower_gzip: "to_lower ''gzip'' = ''gzip''" "to_lower ''gzip, deflate'' = ''gzip, deflate''" "to_lower [] = []" "trim_space [] = []"
  "trim_space ''gzip'' = ''gzip''" "str_contains ''gzip, deflate'' ''gzip''" "\<not> str_contains [] ''gzip''"
  by code_simp+

definition accepted :: "'s handler_config \<Rightarrow> request \<Rightarrow> json_event_with_version list \<Rightarrow> bool" where
  "accepted cfg r js \<longleftrightarrow> rq_Method r = ''POST'' \<and> validateContentType (hd_gzip cfg) r (Some (hd_options cfg)) = None
     \<and> rq_ContentLength r \<le> MaxRequestSize (hd_options cfg)
     \<and> (\<exists>rd. createSafeRequestReader (hd_gunzip cfg) r (hd_options cfg) = Inr rd \<and> jl_read_Events (hd_json cfg) rd = Inr js)"

lemma process_push_accepted:
  assumes "accepted cfg r js"
  shows "process_push cfg now order h r = do {
     (s', committed) \<leftarrow> push_events cfg (rq_ctx r) js (sh_store h);
     let h' = h\<lparr>sh_store := s', sh_tracker := (if values_Get (rq_Header r) HeaderIdempotencyKey \<noteq> []
       then Record now order (sh_tracker h) (values_Get (rq_Header r) HeaderIdempotencyKey) status_ok else sh_tracker h)\<rparr>;
     Some (h', respond cfg r 200 status_ok, if hd_AfterCommit cfg \<and> committed \<noteq> [] then [AfterCommit committed] else []) }"
  using assms by (auto simp: accepted_def process_push_def Let_def)

text \<open>The request that \<open>Push\<close> sends: compressed when its text is longer than a kilobyte.\<close>

definition push_request :: "(string \<Rightarrow> string) \<Rightarrow> string \<Rightarrow> go_error option \<Rightarrow> string \<Rightarrow> request" where
  "push_request gz base ctx t =
     \<lparr>rq_Method = ''POST'', rq_Path = base @ ''/push'', rq_Query = [],
      rq_Header = (if length t > 1024 then [(''Accept-Encoding'', ''gzip, deflate''), (''Content-Encoding'', ''gzip''), (''Content-Type'', ''application/json'')]
        else [(''Accept-Encoding'', ''gzip, deflate''), (''Content-Type'', ''application/json'')]),
      rq_ContentLength = int (length (if length t > 1024 then gz t else t)), rq_Body = (if length t > 1024 then gz t else t, io_EOF),
      rq_Closed = closed_body, rq_ctx = ctx\<rparr>"

lemma Push_http_sends:
  assumes "known_base base" and "evs \<noteq> []" and "map_go toJSONEventWithVersion evs = Some js" and "jl_Events jl js = Inr t"
  shows "Push_http jl gz net (NewTransport base None None) n ctx evs = Some (case net n (push_request gz base ctx t) of
       (n', Inl err) \<Rightarrow> (n', wrap opPush ''network error: '' err)
     | (n', Inr resp) \<Rightarrow> if rs_Code resp \<noteq> 200
         then (n', wrap_text opPush (''server error (status '' @ nat_dec (rs_Code resp) @ ''): '' @ fst (rs_Body resp))) else (n', None))"
proof -
  have "parse_query [] = []" by (simp add: parse_query_def cut_def split_on.simps query_pair_def)
  then have "accept_encoding DefaultClientOptions (compress_request gz DefaultClientOptions t (set_header ''Content-Type'' ''application/json''
      \<lparr>rq_Method = ''POST'', rq_Path = base @ ''/push'', rq_Query = parse_query [], rq_Header = [],
       rq_ContentLength = int (length t), rq_Body = (t, io_EOF), rq_Closed = closed_body, rq_ctx = ctx\<rparr>)) = push_request gz base ctx t"
    by (simp add: accept_encoding_def compress_request_def set_header_def push_request_def DefaultClientOptions_def)
  then show ?thesis
    using assms new_request_path [OF assms(1) endpoint_plain(1), of "[]" ctx "''POST''" t]
    by (simp add: Push_http_def)
qed

lemma push_request_accepted:
  assumes "length t < 10 * 1024 * 1024" and "length (gz t) < 10 * 1024 * 1024"
    and "gu (gz t, io_EOF) = Inr (t, io_EOF)" and "jl_read_Events jl (t, io_EOF) = Inr js'"
  shows "accepted (mem_config jl gz gu a b) (push_request gz base ctx t) js'"
proof (cases "length t > 1024")
  case True
  then show ?thesis using assms
    by (simp add: accepted_def push_request_def validateContentType_def createSafeRequestReader_def default_server_options_def values_Get_def Let_def
        to_lower_gzip has_prefix_def MaxBytesReader_def decompressed_limit_def)
next
  case False
  then show ?thesis using assms
    by (simp add: accepted_def push_request_def validateContentType_def createSafeRequestReader_def default_server_options_def values_Get_def Let_def
        to_lower_gzip has_prefix_def MaxBytesReader_def)
qed

lemma push_request_key: "values_Get (rq_Header (push_request gz base ctx t)) HeaderIdempotencyKey = []"
  by (simp add: push_request_def values_Get_def HeaderIdempotencyKey_def)

lemma respond_status: "rs_Code (respond cfg r 200 status_ok) = 200"
  by (simp add: respond_def respondWithJSON_def status_ok_def send_def)

lemma Push_http_direct:
  assumes "known_base base" and "evs \<noteq> []" and "map_go toJSONEventWithVersion evs = Some js" and "carries jl gz gu cp js"
    and "push_events (mem_config jl gz gu a b) ctx (map cp js) (sh_store h) = Some (s', cm)"
  shows "Push_http jl gz (direct (mem_config jl gz gu a b) t0 t1 order) (NewTransport base None None) h ctx evs = Some (h\<lparr>sh_store := s'\<rparr>, None)"
proof -
  obtain t where t: "jl_Events jl js = Inr t" "length t < 10 * 1024 * 1024" "length (gz t) < 10 * 1024 * 1024"
     "gu (gz t, io_EOF) = Inr (t, io_EOF)" "jl_read_Events jl (t, io_EOF) = Inr (map cp js)"
    using assms(4) by (auto simp: carries_def)
  let ?cfg = "mem_config jl gz gu a b" and ?r = "push_request gz base ctx t"
  have acc: "accepted ?cfg ?r (map cp js)" by (rule push_request_accepted) (rule t)+
  have "rq_ctx ?r = ctx" "strip_sync (rq_Path ?r) = ''/push''" using strip_sync_base(1) [OF assms(1)] by (simp_all add: push_request_def)
  then have "\<exists>hooks. ServeHTTP ?cfg t0 t1 order h ?r = Some (h\<lparr>sh_store := s'\<rparr>, respond ?cfg ?r 200 status_ok, hooks)"
    using process_push_accepted [OF acc, of t1 order h] assms(5)
    by (simp add: ServeHTTP_def handlePush_def push_request_key Let_def)
  then show ?thesis using Push_http_sends [OF assms(1-3) t(1), of gz "direct ?cfg t0 t1 order" h ctx] by (auto simp: direct_def respond_status)
qed

section \<open>Pulling\<close>

definition pulled :: "(json_event_with_version \<Rightarrow> json_event_with_version) \<Rightarrow> event_with_version \<Rightarrow> event_with_version" where
  "pulled cp ev = \<lparr>ev_Event = map_option SimpleEvent (map_option (jv_Event \<circ> cp) (toJSONEventWithVersion ev)), ev_Version = ev_Version ev\<rparr>"

text \<open>Every entry of a log has a JSON form with the text of its sequence number.\<close>

lemma log_entry_json:
  assumes "log_ok s" and "ev \<in> set (events s)"
  shows "\<exists>j q. toJSONEventWithVersion ev = Some j \<and> ev_Version ev = Some (IntegerCursor q) \<and> jv_Version j = u64_dec q \<and> q \<noteq> 0
    \<and> unat q \<le> length (events s)"
proof -
  obtain i where i: "i < length (events s)" "ev = events s ! i" using assms(2) by (auto simp: in_set_conv_nth)
  then have "entry_ok i ev" "length (events s) < 2 ^ 64" using assms(1) by (auto simp: log_ok_def store_inv_def)
  moreover from this i have "unat (of_nat (Suc i) :: u64) = Suc i" by (intro unat_of_nat64) simp
  moreover from this have "(of_nat (Suc i) :: u64) \<noteq> 0" by (metis Zero_not_Suc unat_0)
  ultimately show ?thesis using i
    by (auto simp: entry_ok_def toJSONEventWithVersion_def toJSONEvent_def split: option.splits)
qed

lemma map_go_Some: "(\<And>x. x \<in> set xs \<Longrightarrow> f x \<noteq> None) \<Longrightarrow> map_go f xs = Some (map (\<lambda>x. the (f x)) xs)"
  by (induction xs) (auto, metis bind.bind_lunit option.sel)

lemma is_digit_unreserved: "is_digit c \<Longrightarrow> c \<notin> {CHR ''#'', CHR ''&'', CHR '';'', CHR ''='', CHR ''%'', CHR ''+''} \<and> \<not> is_ctl c"
  by (auto simp: is_digit_def is_ctl_def byte_of_def)

lemma query_unescape_plain: "(\<And>c. c \<in> set s \<Longrightarrow> c \<noteq> CHR ''%'' \<and> c \<noteq> CHR ''+'') \<Longrightarrow> query_unescape s = Some s"
  by (induction s) auto

lemma cut_none: "c \<notin> set s \<Longrightarrow> cut c s = (s, [])"
  unfolding cut_def by (metis (mono_tags, lifting) drop_Nil dropWhile_eq_Nil_conv takeWhile_eq_all_conv)

lemma parse_query_since:
  assumes "\<And>c. c \<in> set t \<Longrightarrow> is_digit c"
  shows "parse_query (''since='' @ t) = [(''since'', t)]"
proof -
  let ?q = "''since='' @ t"
  have d: "c \<in> set t \<Longrightarrow> c \<notin> {CHR ''#'', CHR ''&'', CHR '';'', CHR ''='', CHR ''%'', CHR ''+''}" for c
    using assms is_digit_unreserved by blast
  have n: "CHR ''#'' \<notin> set ?q" "CHR ''&'' \<notin> set ?q" "CHR '';'' \<notin> set ?q" using d by auto
  have c: "cut (CHR ''='') ?q = (''since'', t)" by (simp add: cut_def)
  have "query_unescape t = Some t" by (rule query_unescape_plain) (use d in blast)
  moreover have "query_unescape ''since'' = Some ''since''" by simp
  ultimately have "query_pair ?q = [(''since'', t)]" using n c by (simp add: query_pair_def)
  then show ?thesis unfolding parse_query_def cut_none [OF n(1)] fst_conv split_on.simps [of _ ?q] using n(2) by simp
qed

lemma default_parser_dec:
  assumes "q \<noteq> 0" and "unat q < 2 ^ 63"
  shows "default_parser (u64_dec q) = Some (Inr (Some (IntegerCursor q)))"
proof -
  obtain c cs where cs: "nat_dec (unat q) = c # cs" by (cases "nat_dec (unat q)") auto
  have "is_digit c" using nat_dec_head [OF cs] by simp
  then have "c \<noteq> CHR ''-''" "c \<noteq> CHR ''+''" by (auto simp: is_digit_def)
  moreover have "list_all is_digit (c # cs)" using nat_dec_digits [of _ "unat q"] cs by (auto simp: list_all_iff)
  moreover have "dec_val (c # cs) = unat q" using cs by (metis dec_val_nat_dec)
  moreover have "unat q \<noteq> 0" using assms(1) by (simp add: unat_eq_0)
  moreover have u: "0 \<le> uint q \<and> uint q < 2 ^ 63" 
    using assms(2) of_nat_less_iff [where 'a = int, of "unat q" "2 ^ 63"] by simp
  ultimately have "ParseInt (c # cs) = Inr (int (unat q))"
    unfolding ParseInt_def Let_def by (simp, intro order_trans [of "- 9223372036854775808" 0 "uint q"]) simp_all
  moreover have "uint q \<noteq> 0" using assms(1) by (metis uint_0_iff)
  ultimately show ?thesis using cs by (simp add: default_parser_def u64_dec_def)
qed

text \<open>The response to a successful request, read back by the client, compressed or not.\<close>

lemma safe_reader_of_response:
  assumes "length t < 10 * 1024 * 1024" and "length (gz t) < 10 * 1024 * 1024" and "gu (gz t, io_EOF) = Inr (t, io_EOF)"
  shows "createSafeResponseReader gu (send gz r code t (Some default_server_options)) DefaultClientOptions = Inr (t, io_EOF)"
  using assms
  by (simp add: createSafeResponseReader_def send_def DefaultClientOptions_def LimitReader_def values_Get_def to_lower_gzip response_limit_def)

definition pull_request :: "string \<Rightarrow> go_error option \<Rightarrow> u64 \<Rightarrow> request" where
  "pull_request base ctx q = \<lparr>rq_Method = ''GET'', rq_Path = base @ ''/pull'', rq_Query = [(''since'', u64_dec q)],
     rq_Header = [(''Accept-Encoding'', ''gzip, deflate'')], rq_ContentLength = 0, rq_Body = ([], io_EOF), rq_Closed = closed_body, rq_ctx = ctx\<rparr>"

lemma handlePull_memstore:
  assumes "log_ok (sh_store h)"
  shows "\<exists>hooks. handlePull (mem_config jl gz gu a b) h (pull_request base None q)
    = Some (h, respond (mem_config jl gz gu a b) (pull_request base None q) 200
        (PEvents (map (\<lambda>x. the (toJSONEventWithVersion x)) (take 100 (drop (unat q) (events (sh_store h)))))), hooks)"
proof -
  let ?r = "pull_request base None q" and ?evs = "drop (unat q) (events (sh_store h))"
  have "u64_dec q \<noteq> []" by (simp add: u64_dec_def)
  then have "ParsePullQuery ?r (\<lambda>txt. Some (ParseVersion txt)) = Some (Inr \<lparr>pq_Since = Some (IntegerCursor q), pq_Limit = 100, pq_Filters = []\<rparr>)"
    by (simp add: ParsePullQuery_def pull_request_def values_Get_def parse_limit_def query_filter_def ParseVersion_dec)
  moreover have "add_tenant ?r [] = []"
    by (simp add: add_tenant_def ExtractTenant_def pull_request_def values_Get_def HeaderSyncKitTenant_def)
  moreover have "Load (sh_store h) None (Some (IntegerCursor q)) [] = Some (Inr ?evs)"
    using assms Load_drop by (simp add: log_ok_def)
  moreover have "limit_page 100 ?evs = take 100 ?evs" by (simp add: limit_page_take)
  moreover have "map_go toJSONEventWithVersion (take 100 ?evs) = Some (map (\<lambda>x. the (toJSONEventWithVersion x)) (take 100 ?evs))"
    by (rule map_go_Some) (use log_entry_json [OF assms] in \<open>auto dest!: in_set_takeD in_set_dropD\<close>)
  moreover have "rq_Method ?r = ''GET''" "rq_ctx ?r = None" by (simp_all add: pull_request_def)
  ultimately show ?thesis by (simp add: handlePull_def iface_String_def memstore_server_def)
qed

lemma parse_events_Some:
  assumes "\<And>j. j \<in> set js \<Longrightarrow> p (jv_Version j) = Some (Inr (g j))"
  shows "parse_events p js = Some (Inr (map (\<lambda>j. \<lparr>ev_Event = Some (SimpleEvent (jv_Event j)), ev_Version = g j\<rparr>) js))"
  using assms by (induction js) auto

text \<open>What comes back to the client of a slice of the log.\<close>

lemma parse_events_log:
  assumes "log_ok s" and "length (events s) < 2 ^ 63" and "\<And>j. jv_Version (cp j) = jv_Version j" and "set evs \<subseteq> set (events s)"
  shows "parse_events default_parser (map cp (map (\<lambda>x. the (toJSONEventWithVersion x)) evs)) = Some (Inr (map (pulled cp) evs))"
  using assms(4)
proof (induction evs)
  case (Cons ev evs)
  obtain j q where j: "toJSONEventWithVersion ev = Some j" "ev_Version ev = Some (IntegerCursor q)" "jv_Version j = u64_dec q" "q \<noteq> 0"
    "unat q \<le> length (events s)"
    using log_entry_json [OF assms(1), of ev] Cons(2) by auto
  then have "default_parser (jv_Version (cp j)) = Some (Inr (Some (IntegerCursor q)))"
    using assms(2,3) default_parser_dec [of q] by simp
  then show ?case using Cons j by (simp add: pulled_def)
qed simp

lemma Pull_http_direct:
  assumes "known_base base" and "log_ok (sh_store h)" and "length (events (sh_store h)) < 2 ^ 63" and "\<And>j. jv_Version (cp j) = jv_Version j"
    and "carries jl gz gu cp (map (\<lambda>x. the (toJSONEventWithVersion x)) (take 100 (drop (unat q) (events (sh_store h)))))"
  shows "Pull_http jl gu (direct (mem_config jl gz gu a b) t0 t1 order) (NewTransport base None None) h None (Some (IntegerCursor q))
    = Some (h, Inr (map (pulled cp) (take 100 (drop (unat q) (events (sh_store h))))))"
proof -
  let ?cfg = "mem_config jl gz gu a b" and ?r = "pull_request base None q" and ?page = "take 100 (drop (unat q) (events (sh_store h)))"
  let ?js = "map (\<lambda>x. the (toJSONEventWithVersion x)) ?page"
  obtain t where t: "jl_Events jl ?js = Inr t" "length t < 10 * 1024 * 1024" "length (gz t) < 10 * 1024 * 1024"
     "gu (gz t, io_EOF) = Inr (t, io_EOF)" "jl_read_Events jl (t, io_EOF) = Inr (map cp ?js)"
    using assms(5) by (auto simp: carries_def)
  have dig: "c \<in> set (u64_dec q) \<Longrightarrow> is_digit c" for c by (auto simp: u64_dec_def dest: nat_dec_digits)
  then have ctl: "\<not> list_ex is_ctl (''since='' @ u64_dec q)"
    using is_digit_unreserved by (auto simp: list_ex_iff is_ctl_def byte_of_def)
  have req: "new_request None ''GET'' (base @ ''/pull'') (''since='' @ u64_dec q) [] = Inr \<lparr>rq_Method = ''GET'', rq_Path = base @ ''/pull'',
     rq_Query = [(''since'', u64_dec q)], rq_Header = [], rq_ContentLength = 0, rq_Body = ([], io_EOF), rq_Closed = closed_body, rq_ctx = None\<rparr>"
    using new_request_path [OF assms(1) endpoint_plain(2) ctl, of None "''GET''" "[]"] parse_query_since [OF dig] by simp
  have enc: "accept_encoding DefaultClientOptions \<lparr>rq_Method = ''GET'', rq_Path = base @ ''/pull'',
     rq_Query = [(''since'', u64_dec q)], rq_Header = [], rq_ContentLength = 0, rq_Body = ([], io_EOF), rq_Closed = closed_body, rq_ctx = None\<rparr> = ?r"
    by (simp add: accept_encoding_def set_header_def pull_request_def DefaultClientOptions_def)
  let ?resp = "send gz ?r 200 t (Some default_server_options)"
  have "respond ?cfg ?r 200 (PEvents ?js) = ?resp" using t(1) by (simp add: respond_def respondWithJSON_def)
  moreover have "strip_sync (rq_Path ?r) = ''/pull''" using strip_sync_base(2) [OF assms(1)] by (simp add: pull_request_def)
  ultimately have serve: "direct ?cfg t0 t1 order h ?r = (h, Inr ?resp)"
    using handlePull_memstore [OF assms(2), of jl gz gu a b base q] by (auto simp: direct_def ServeHTTP_def Let_def)
  have "set ?page \<subseteq> set (events (sh_store h))" by (auto dest!: in_set_takeD in_set_dropD)
  then have "parse_events default_parser (map cp ?js) = Some (Inr (map (pulled cp) ?page))"
    using parse_events_log [OF assms(2,3,4)] by blast
  then have "read_events jl gu (NewTransport base None None) ?resp = Some (Inr (map (pulled cp) ?page))"
    unfolding read_events_def using safe_reader_of_response [of t gz gu ?r 200] t(2-5) by simp
  moreover have "rs_Code ?resp = 200" by (simp add: send_def)
  ultimately show ?thesis using req enc serve by (simp add: Pull_http_def iface_String_def)
qed

text \<open>A client that pulls again from the last version it received.\<close>

fun pull_rounds ::
  "json_lib \<Rightarrow> (reader \<Rightarrow> go_error + reader) \<Rightarrow> 'n net \<Rightarrow> http_transport \<Rightarrow> nat \<Rightarrow> 'n \<Rightarrow> version option
     \<Rightarrow> ('n \<times> (go_error option + event_with_version list)) go" where
  "pull_rounds jl gu net c 0 n since = Some (n, Inr [])"
| "pull_rounds jl gu net c (Suc k) n since = do {
     (n', r) \<leftarrow> Pull_http jl gu net c n None since;
     (case r of
        Inl e \<Rightarrow> Some (n', Inl e)
      | Inr evs \<Rightarrow> do {
          (n'', r') \<leftarrow> pull_rounds jl gu net c k n' (if evs = [] then since else ev_Version (last evs));
          Some (n'', case r' of Inl e \<Rightarrow> Inl e | Inr evs' \<Rightarrow> Inr (evs @ evs')) }) }"

lemma pulled_Version [simp]: "ev_Version (pulled cp ev) = ev_Version ev"
  by (simp add: pulled_def)

lemma take_page: "take n xs @ take m (drop (length (take n xs)) xs) = take (n + m) xs"
  by (cases "length xs \<le> n") (simp_all add: take_add)

lemma pull_rounds_direct:
  assumes "known_base base" and "log_ok (sh_store h)" and "length (events (sh_store h)) < 2 ^ 63" and "\<And>j. jv_Version (cp j) = jv_Version j"
    and "\<And>js. set js \<subseteq> (\<lambda>x. the (toJSONEventWithVersion x)) ` set (events (sh_store h)) \<Longrightarrow> length js \<le> 100 \<Longrightarrow> carries jl gz gu cp js"
  shows "pull_rounds jl gu (direct (mem_config jl gz gu a b) t0 t1 order) (NewTransport base None None) k h (Some (IntegerCursor q))
    = Some (h, Inr (map (pulled cp) (take (100 * k) (drop (unat q) (events (sh_store h))))))"
proof (induction k arbitrary: q)
  case (Suc k)
  let ?log = "events (sh_store h)"
  let ?page = "take 100 (drop (unat q) ?log)"
  have "carries jl gz gu cp (map (\<lambda>x. the (toJSONEventWithVersion x)) ?page)"
    by (rule assms(5)) (auto dest!: in_set_takeD in_set_dropD)
  note pull = Pull_http_direct [OF assms(1-4) this, of a b t0 t1 order]
  show ?case
  proof (cases "?page = []")
    case True
    then have "drop (unat q) ?log = []" by simp
    then show ?thesis using pull Suc by simp
  next
    case False
    then have "unat q < length ?log" by simp
    then have n: "unat q + length ?page \<le> length ?log" by simp
    have v: "ev_Version (last (map (pulled cp) ?page)) = Some (IntegerCursor (of_nat (unat q + length ?page)))"
      using False last_of_slice [OF assms(2) refl False] by (simp add: last_map)
    have u: "unat (of_nat (unat q + length ?page) :: u64) = unat q + length ?page"
      by (rule unat_of_nat64 [OF less_trans [OF le_less_trans [OF n assms(3)]]]) simp
    have "take 100 (drop (unat q) ?log) @ take (100 * k) (drop (unat q + length ?page) ?log) = take (100 * Suc k) (drop (unat q) ?log)"
      using take_page [of 100 "drop (unat q) ?log" "100 * k"] by (simp add: add.commute)
    then show ?thesis using pull Suc [of "of_nat (unat q + length ?page)"] v u False
      by (simp flip: map_append)
  qed
qed simp

end
