(* ===== verification/Http_Properties.thy ===== *)
theory Http_Properties
  imports Http_Sync
begin

text \<open>
  What the HTTP transport guarantees, and what it does not: delivery of pushes, paging of pulls, repeated pushes under an idempotency key, tenants, bounded decompression, and
  the conversion of a \<open>TransportClient\<close> that panics. The witnesses use a log of 150 events and a
  JSON library that carries only the version of an event.
\<close>

section \<open>Repeated pushes\<close>

text \<open>
  Requests and cleanups between two pushes under the same key: other requests have another key or none, their clock readings are later, and the number counts the requests that have a key.
\<close>

inductive served :: "'s handler_config \<Rightarrow> int \<Rightarrow> string \<Rightarrow> 's sync_handler \<Rightarrow> nat \<Rightarrow> 's sync_handler \<Rightarrow> bool" for cfg t1 key h0 where
  start: "served cfg t1 key h0 0 h0"
| request: "served cfg t1 key h0 n h \<Longrightarrow> ServeHTTP cfg checked now order h r = Some (h', resp, hooks) \<Longrightarrow> t1 < now
    \<Longrightarrow> values_Get (rq_Header r) HeaderIdempotencyKey \<noteq> key \<Longrightarrow> distinct order \<Longrightarrow> set order = fmdom' (it_keys (sh_tracker h))
    \<Longrightarrow> served cfg t1 key h0 (if values_Get (rq_Header r) HeaderIdempotencyKey = [] then n else Suc n) h'"
| expire: "served cfg t1 key h0 n h \<Longrightarrow> time_Sub now t1 \<le> it_maxAge (sh_tracker h)
    \<Longrightarrow> served cfg t1 key h0 n (h\<lparr>sh_tracker := cleanup now (sh_tracker h)\<rparr>)"

lemma process_push_tracker:
  assumes "process_push cfg now order h r = Some (h', resp, hooks)"
  shows "sh_tracker h' = sh_tracker h \<or> (values_Get (rq_Header r) HeaderIdempotencyKey \<noteq> []
    \<and> sh_tracker h' = Record now order (sh_tracker h) (values_Get (rq_Header r) HeaderIdempotencyKey) status_ok)"
  using assms
  by (auto simp: process_push_def Let_def bind_eq_Some_conv split: if_splits option.splits sum.splits prod.splits)

lemma handlePull_cases:
  assumes "handlePull cfg h r = Some (h', resp, hooks)"
  obtains (refused) code msg where "h' = h" "resp = respondWithStructuredError (hd_json cfg) (hd_gzip cfg) r opPull code msg (Some (hd_options cfg))"
      "code \<in> {ErrCodeInvalidRequest, ErrCodeInvalidCursor, ErrCodeInternal}"
  | (page) q evs js where "h' = h" "ParsePullQuery r (versionParser cfg (rq_ctx r)) = Some (Inr q)"
      "ss_Load (hd_store cfg) (sh_store h) (rq_ctx r) (pq_Since q) (add_tenant r (pq_Filters q)) = Some (Inr evs)"
      "map_go toJSONEventWithVersion (limit_page (pq_Limit q) evs) = Some js" "resp = respond cfg r 200 (PEvents js)"
proof (cases "rq_Method r = ''GET''")
  case False
  then show ?thesis using assms refused by (auto simp: handlePull_def)
next
  case get: True
  obtain pq where pq: "ParsePullQuery r (versionParser cfg (rq_ctx r)) = Some pq"
    using assms get by (cases "ParsePullQuery r (versionParser cfg (rq_ctx r))") (auto simp: handlePull_def)
  show ?thesis
  proof (cases pq)
    case (Inl e)
    then show ?thesis using assms get pq refused by (auto simp: handlePull_def)
  next
    case (Inr q)
    obtain sv l where tl: "iface_String (pq_Since q) = Some sv"
        "ss_Load (hd_store cfg) (sh_store h) (rq_ctx r) (pq_Since q) (add_tenant r (pq_Filters q)) = Some l"
      using assms get pq Inr by (auto simp: handlePull_def Let_def bind_eq_Some_conv)
    show ?thesis
    proof (cases l)
      case (Inl e)
      then show ?thesis using assms get pq Inr tl refused by (auto simp: handlePull_def Let_def)
    next
      case evs: (Inr evs)
      then obtain js where "map_go toJSONEventWithVersion (limit_page (pq_Limit q) evs) = Some js"
        using assms get pq Inr tl by (auto simp: handlePull_def Let_def bind_eq_Some_conv)
      then show ?thesis using assms get pq Inr tl evs page [of q evs js] by (auto simp: handlePull_def Let_def)
    qed
  qed
qed

text \<open>The part of \<open>handlePullCursor\<close> that follows the decoding of the request does not change the handler.\<close>

lemma handlePullCursor_state:
  assumes "handlePullCursor cfg h r = Some (h', resp, hooks)"
  shows "h' = h"
proof -
  let ?v = "validateContentType (hd_gzip cfg) r (Some default_server_options)" and ?s = "createSafeRequestReader (hd_gunzip cfg) r default_server_options"
  show ?thesis
  proof (cases "rq_Method r = ''POST'' \<and> ?v = None \<and> rq_ContentLength r \<le> MaxRequestSize default_server_options \<and> (\<exists>rd. ?s = Inr rd)")
    case False
    then show ?thesis using assms
      by (cases ?v; cases ?s) (auto simp: handlePullCursor_def Let_def split: if_splits)
  next
    case True
    then obtain rd where rd: "?s = Inr rd" by blast
    show ?thesis
    proof (cases "jl_read_PullRequest (hd_json cfg) rd")
      case (Inl e)
      then show ?thesis using assms True rd by (auto simp: handlePullCursor_def Let_def split: if_splits)
    next
      case (Inr p)
      obtain w limit where p: "p = (w, limit)" by (cases p)
      show ?thesis
      proof (cases "cursor_since (hd_registry cfg) w")
        case (Inl m)
        then show ?thesis using assms True rd Inr p by (auto simp: handlePullCursor_def Let_def)
      next
        case since: (Inr n)
        then obtain l where l: "ss_Load (hd_store cfg) (sh_store h) (rq_ctx r) (Some (IntegerCursor n)) [] = Some l"
          using assms True rd Inr p by (auto simp: handlePullCursor_def Let_def bind_eq_Some_conv)
        then show ?thesis using assms True rd Inr p since
          by (cases l) (auto simp: handlePullCursor_def Let_def bind_eq_Some_conv)
      qed
    qed
  qed
qed

lemma ServeHTTP_tracker:
  assumes "ServeHTTP cfg checked now order h r = Some (h', resp, hooks)"
  shows "sh_tracker h' = sh_tracker h \<or> (values_Get (rq_Header r) HeaderIdempotencyKey \<noteq> []
    \<and> sh_tracker h' = Record now order (sh_tracker h) (values_Get (rq_Header r) HeaderIdempotencyKey) status_ok)"
proof -
  have "handlePush cfg checked now order h r = Some (h', resp, hooks) \<Longrightarrow> ?thesis"
    using process_push_tracker [of cfg now order h r h' resp hooks] by (auto simp: handlePush_def Let_def split: if_splits option.splits)
  moreover have "handlePull cfg h r = Some (h', resp, hooks) \<Longrightarrow> h' = h"
    by (erule handlePull_cases) auto
  moreover have "handleLatestVersion cfg h r = Some (h', resp, hooks) \<Longrightarrow> h' = h"
    by (cases "ss_LatestVersion (hd_store cfg) (sh_store h) (rq_ctx r)"; cases "the (ss_LatestVersion (hd_store cfg) (sh_store h) (rq_ctx r))")
      (auto simp: handleLatestVersion_def bind_eq_Some_conv split: if_splits)
  moreover have "handlePullCursor cfg h r = Some (h', resp, hooks) \<Longrightarrow> h' = h"
    by (rule handlePullCursor_state)
  ultimately show ?thesis using assms by (auto simp: ServeHTTP_def Let_def split: if_splits)
qed

lemma served_later:
  assumes "served cfg t1 key h0 n h"
  shows "\<exists>m \<le> n. later t1 key (sh_tracker h0) m (sh_tracker h)"
  using assms
proof (induction rule: served.induct)
  case start
  then show ?case by (auto intro: later.start)
next
  case (request n h checked now order r h' resp hooks)
  then obtain m where m: "m \<le> n" "later t1 key (sh_tracker h0) m (sh_tracker h)" by blast
  from ServeHTTP_tracker [OF request(2)] show ?case
  proof
    assume "sh_tracker h' = sh_tracker h"
    then show ?thesis using m by (auto intro!: exI [of _ m])
  next
    let ?k = "values_Get (rq_Header r) HeaderIdempotencyKey"
    assume a: "?k \<noteq> [] \<and> sh_tracker h' = Record now order (sh_tracker h) ?k status_ok"
    have "later t1 key (sh_tracker h0) (Suc m) (Record now order (sh_tracker h) ?k status_ok)"
      by (rule later.more_records [OF m(2) request(3-6)])
    then show ?thesis using a m(1) by (auto intro!: exI [of _ "Suc m"])
  qed
next
  case (expire n h now)
  then show ?case by (auto intro: later.expiry)
qed

section \<open>Tenants\<close>

text \<open>The tenant whose events a pull request gets: the query parameter first, then the header.\<close>

definition effective_tenant :: "request \<Rightarrow> string" where
  "effective_tenant r = (if values_Get (rq_Query r) ''tenant'' \<noteq> [] then values_Get (rq_Query r) ''tenant'' else ExtractTenant r)"

lemma ParsePullQuery_filters:
  assumes "ParsePullQuery r p = Some (Inr q)"
  shows "pq_Filters q = query_filter r ''type'' @ query_filter r ''tenant'' @ query_filter r ''aggregate_id''"
proof -
  define since where "since = (if values_Get (rq_Query r) ''since'' = [] then ''0'' else values_Get (rq_Query r) ''since'')"
  show ?thesis using assms
    by (cases "p since"; cases "the (p since)"; cases "parse_limit r") (auto simp: ParsePullQuery_def Let_def since_def [symmetric])
qed

lemma tenant_filter:
  assumes "ParsePullQuery r p = Some (Inr q)" and "effective_tenant r \<noteq> []"
  shows "fmlookup (filter_map (add_tenant r (pq_Filters q))) ''tenant'' = Some (effective_tenant r)"
  using assms(2) ParsePullQuery_filters [OF assms(1)]
  by (auto simp: effective_tenant_def add_tenant_def query_filter_def Let_def filter_map_def ExtractTenant_def split: if_splits)

section \<open>Properties\<close>


text \<open>
  Pushing to a server whose store is closed stores nothing, and \<open>Push\<close> reports success: the handler skips every event that cannot be stored and answers
  with status 200.
\<close>

theorem http_push_hides_loss:
  assumes "known_base base" and "closed (sh_store h)" and "evs \<noteq> []" and "map_go toJSONEventWithVersion evs = Some js" and "carries jl gz gu cp js"
  shows "Push_http jl gz (direct (mem_config jl gz gu a b) t0 t1 order) (NewTransport base None None) h None evs = Some (h, None)"
  using Push_http_direct [OF assms(1,3,4,5) push_events_closed [OF assms(2)], of a b t0 t1 order] by simp

text \<open>
  C13: \<open>Pull\<close> over HTTP never asks for a number of events and the server sends a hundred: one call returns at most the next hundred events of the log. Pulling again from the last
  version received gets the whole log, in order and without duplicates, in as many rounds as there are hundreds. (The default parser of the client reads versions as signed integers.)
\<close>

theorem http_pull_rounds:
  assumes "known_base base" and "log_ok (sh_store h)" and "length (events (sh_store h)) < 2 ^ 63" and "\<And>j. jv_Version (cp j) = jv_Version j"
    and "\<And>js. set js \<subseteq> (\<lambda>x. the (toJSONEventWithVersion x)) ` set (events (sh_store h)) \<Longrightarrow> length js \<le> 100 \<Longrightarrow> carries jl gz gu cp js"
  shows "(\<forall>q. Pull_http jl gu (direct (mem_config jl gz gu a b) t0 t1 order) (NewTransport base None None) h None (Some (IntegerCursor q))
      = Some (h, Inr (map (pulled cp) (take 100 (drop (unat q) (events (sh_store h)))))))
    \<and> (\<forall>k q. length (events (sh_store h)) \<le> unat q + 100 * k \<longrightarrow>
      pull_rounds jl gu (direct (mem_config jl gz gu a b) t0 t1 order) (NewTransport base None None) k h (Some (IntegerCursor q))
        = Some (h, Inr (map (pulled cp) (drop (unat q) (events (sh_store h))))))"
proof -
  have "Pull_http jl gu (direct (mem_config jl gz gu a b) t0 t1 order) (NewTransport base None None) h None (Some (IntegerCursor q))
      = Some (h, Inr (map (pulled cp) (take 100 (drop (unat q) (events (sh_store h))))))" for q
    by (rule Pull_http_direct [OF assms(1-4)]) (rule assms(5), auto dest!: in_set_takeD in_set_dropD)
  moreover have "length (events (sh_store h)) \<le> unat q + 100 * k \<Longrightarrow> take (100 * k) (drop (unat q) (events (sh_store h))) = drop (unat q) (events (sh_store h))" for q k
    by simp
  ultimately show ?thesis using pull_rounds_direct [OF assms] by metis
qed

text \<open>
  C14: a push that was accepted under an idempotency key is not carried out again: as long as fewer pushes under other keys than the tracker has room for come in between, and until the key is too
  old, every further push request with the same key leaves the store alone and is answered with status 200, whatever it contains.
\<close>

theorem duplicate_push_ignored:
  assumes "accepted cfg r js" and "values_Get (rq_Header r) HeaderIdempotencyKey = key" and "key \<noteq> []" and "Check c0 (sh_tracker h) key = None"
    and "handlePush cfg c0 t1 order h r = Some (h1, resp, hooks)"
    and "\<forall>k w. fmlookup (it_keys (sh_tracker h)) k = Some w \<longrightarrow> ie_timestamp w < t1"
    and "served cfg t1 key h1 n h2" and "int n < it_maxSize (sh_tracker h)"
    and "values_Get (rq_Header r2) HeaderIdempotencyKey = key" and "time_Sub c2 t1 \<le> it_maxAge (sh_tracker h)"
  shows "handlePush cfg c2 t2 order2 h2 r2 = Some (h2, respond cfg r2 200 status_ok, [])"
proof -
  have tr: "sh_tracker h1 = Record t1 order (sh_tracker h) key status_ok"
    using assms(2-5) process_push_accepted [OF assms(1), of t1 order h]
    by (auto simp: handlePush_def Let_def bind_eq_Some_conv)
  obtain m where m: "m \<le> n" "later t1 key (sh_tracker h1) m (sh_tracker h2)" using served_later [OF assms(7)] by blast
  have key1: "fmlookup (it_keys (sh_tracker h1)) key = Some \<lparr>ie_timestamp = t1, ie_response = status_ok\<rparr>"
    by (simp add: tr Record_keys)
  moreover have "fmlookup (it_keys (sh_tracker h1)) k = Some w \<Longrightarrow> k \<noteq> key \<Longrightarrow> ie_timestamp w < t1" for k w
    using assms(6) by (auto simp: tr Record_keys split: if_splits)
  moreover have "int m < it_maxSize (sh_tracker h1)" using m(1) assms(8) by (simp add: tr)
  ultimately have "fmlookup (it_keys (sh_tracker h2)) key = Some \<lparr>ie_timestamp = t1, ie_response = status_ok\<rparr>"
    "it_maxAge (sh_tracker h2) = it_maxAge (sh_tracker h)"
    using later_keeps [OF m(2) key1] by (simp_all add: tr)
  then show ?thesis using assms(3,9,10) by (simp add: handlePush_def Check_def Let_def)
qed

text \<open>
  A pull request that names a tenant, by a query parameter or by the header, is answered only with events whose metadata hold that tenant. When both are given the
  query parameter decides, and the header, documented as the preferred one, is ignored.
\<close>

theorem pull_respects_tenant:
  assumes "log_ok (sh_store h)" and "rq_ctx r = None" and "effective_tenant r \<noteq> []"
    and "handlePull (mem_config jl gz gu a b) h r = Some (h', resp, hooks)" and "rs_Code resp = 200"
  shows "h' = h \<and> (\<exists>js. resp = respond (mem_config jl gz gu a b) r 200 (PEvents js)
    \<and> (\<forall>j \<in> set js. gm_lookup (je_Metadata (jv_Event j)) ''tenant'' = Some (GString (effective_tenant r))))"
  using assms(4)
proof (cases rule: handlePull_cases)
  case (refused code msg)
  then have "rs_Code resp = HTTPStatusFromCode code"
    by (simp add: respondWithStructuredError_def respondWithJSON_def send_def)
  then show ?thesis using assms(5) refused(3) by (auto simp: HTTPStatusFromCode_def http_error_codes split: if_splits)
next
  case (page q evs js)
  have open_store: "store_inv (sh_store h)" "\<not> closed (sh_store h)" using assms(1) by (auto simp: log_ok_def)
  obtain n where load: "load_loop n (filter_map (add_tenant r (pq_Filters q))) (events (sh_store h)) = Some evs"
    using page(3) assms(2) open_store(2)
    by (cases "since_seq (pq_Since q)"; cases "the (since_seq (pq_Since q))") (auto simp: memstore_server_def Load_def bind_eq_Some_conv)
  have "\<forall>ev \<in> set (events (sh_store h)). \<exists>i. entry_ok i ev" using inv_entries [OF open_store(1)] by blast
  from load_loop_filter [OF this, of n "filter_map (add_tenant r (pq_Filters q))"] load
  have evs: "evs = filter (\<lambda>ev. seq_of ev > n \<and> filter_spec (the (ev_Event ev)) (filter_map (add_tenant r (pq_Filters q)))) (events (sh_store h))" by simp
  have t: "ev \<in> set evs \<Longrightarrow> \<exists>j. toJSONEventWithVersion ev = Some j \<and> gm_lookup (je_Metadata (jv_Event j)) ''tenant'' = Some (GString (effective_tenant r))" for ev
  proof -
    assume "ev \<in> set evs"
    then have "ev \<in> set (events (sh_store h))" "gm_lookup (EventMetadata (the (ev_Event ev))) ''tenant'' = Some (GString (effective_tenant r))"
      using tenant_filter [OF page(2) assms(3)] by (auto simp: evs filter_spec_def)
    moreover obtain j where "toJSONEventWithVersion ev = Some j" using log_entry_json [OF assms(1)] calculation(1) by blast
    ultimately show ?thesis by (auto simp: toJSONEventWithVersion_def toJSONEvent_def bind_eq_Some_conv)
  qed
  have sub: "set (limit_page (pq_Limit q) evs) \<subseteq> set evs" by (auto simp: limit_page_def dest: in_set_takeD)
  have "\<forall>x \<in> set (limit_page (pq_Limit q) evs). toJSONEventWithVersion x \<noteq> None" using t sub by fastforce
  then have "js = map (\<lambda>x. the (toJSONEventWithVersion x)) (limit_page (pq_Limit q) evs)"
    using page(4) map_go_Some [of "limit_page (pq_Limit q) evs" toJSONEventWithVersion] by simp
  then have "\<forall>j \<in> set js. gm_lookup (je_Metadata (jv_Event j)) ''tenant'' = Some (GString (effective_tenant r))" using t sub by fastforce
  then show ?thesis using page by blast
qed

text \<open>
  A transport made from a \<open>TransportClient\<close> has no logger: every \<open>Push\<close> and every \<open>Pull\<close> on it panics, whatever the options.
\<close>

theorem converted_client_panics:
  "ToHTTPTransport (NewTransportClient url opts) = Some c \<Longrightarrow>
     Push_http jl gz net c n ctx evs = None \<and> Pull_http jl gu net c n ctx since = None"
  by (auto simp: ToHTTPTransport_def NewTransportWithLogger_def Push_http_def Pull_http_def bind_eq_Some_conv)

section \<open>Witnesses\<close>

definition sample_je :: json_event where
  "sample_je = \<lparr>je_ID = ''e'', je_Type = ''T'', je_AggregateID = ''agg'', je_Data = GBytes [], je_Metadata = Some fmempty\<rparr>"

text \<open>A text holds one character for each event, whose code is the version.\<close>

definition version_json :: json_lib where
  "version_json = \<lparr>jl_Events = (\<lambda>js. Inr (map (\<lambda>j. char_of (dec_val (jv_Version j))) js)),
     jl_read_Events = (\<lambda>(t, e). Inr (map (\<lambda>c. \<lparr>jv_Event = sample_je, jv_Version = nat_dec (byte_of c)\<rparr>) t)),
     jl_read_Text = (\<lambda>r. Inl io_EOF), jl_read_PullRequest = (\<lambda>r. Inl io_EOF), jl_read_Page = (\<lambda>r. Inl io_EOF)\<rparr>"

definition keep_version :: "json_event_with_version \<Rightarrow> json_event_with_version" where
  "keep_version j = j\<lparr>jv_Event := sample_je\<rparr>"

lemma version_json_carries:
  assumes "\<And>j. j \<in> set js \<Longrightarrow> \<exists>k < 256. jv_Version j = nat_dec k" and "length js \<le> 100"
  shows "carries version_json (\<lambda>t. t) (\<lambda>r. Inr r) keep_version js"
proof -
  have "\<lparr>jv_Event = sample_je, jv_Version = nat_dec (byte_of (char_of (dec_val (jv_Version j))))\<rparr> = keep_version j" if "j \<in> set js" for j
    using assms(1) [OF that] by (auto simp: keep_version_def)
  then show ?thesis using assms(2) by (auto simp: carries_def version_json_def)
qed

definition sample_event_http :: event where
  "sample_event_http = New_event 0 ''e'' ''T'' ''agg'' []"

definition long_log :: "mem_store sync_handler" where
  "long_log = NewSyncHandlerWithHooks (store_all (replicate 150 sample_event_http))"

lemma long_log_ok: "log_ok (sh_store long_log)" "length (events (sh_store long_log)) = 150"
  using store_all_ok [of "replicate 150 sample_event_http"] by (simp_all add: long_log_def NewSyncHandlerWithHooks_def)

lemma long_log_carries:
  assumes "set js \<subseteq> (\<lambda>x. the (toJSONEventWithVersion x)) ` set (events (sh_store long_log))" and "length js \<le> 100"
  shows "carries version_json (\<lambda>t. t) (\<lambda>r. Inr r) keep_version js"
proof (rule version_json_carries [OF _ assms(2)])
  fix j assume "j \<in> set js"
  then obtain ev where "ev \<in> set (events (sh_store long_log))" "j = the (toJSONEventWithVersion ev)" using assms(1) by blast
  with log_entry_json [OF long_log_ok(1)] obtain q where "jv_Version j = u64_dec q" "unat q \<le> 150" using long_log_ok(2) by force
  then show "\<exists>k < 256. jv_Version j = nat_dec k" by (auto simp: u64_dec_def intro!: exI [of _ "unat q"])
qed

theorem http_pull_rounds_witness:
  "(\<exists>evs. Pull_http version_json (\<lambda>r. Inr r) (direct (mem_config version_json (\<lambda>t. t) (\<lambda>r. Inr r) True True) 0 1 []) (NewTransport ''/sync'' None None) long_log
      None (Some (IntegerCursor 0)) = Some (long_log, Inr evs) \<and> length evs = 100)
   \<and> (\<exists>evs. pull_rounds version_json (\<lambda>r. Inr r) (direct (mem_config version_json (\<lambda>t. t) (\<lambda>r. Inr r) True True) 0 1 []) (NewTransport ''/sync'' None None) 2 long_log
      (Some (IntegerCursor 0)) = Some (long_log, Inr evs) \<and> length evs = 150)"
proof -
  have b: "known_base ''/sync''" by (simp add: known_base_def)
  have l: "length (events (sh_store long_log)) < 2 ^ 63" by (simp add: long_log_ok(2))
  have k: "jv_Version (keep_version j) = jv_Version j" for j by (simp add: keep_version_def)
  note w = http_pull_rounds [OF b long_log_ok(1) l k long_log_carries, of True True 0 1 "[]"]
  have "length (events (sh_store long_log)) \<le> unat (0 :: u64) + 100 * 2" by (simp add: long_log_ok(2))
  then show ?thesis using w long_log_ok(2) by auto
qed

definition pushed_event :: event_with_version where
  "pushed_event = \<lparr>ev_Event = Some sample_event_http, ev_Version = Some (IntegerCursor 7)\<rparr>"

lemma pushed_event_json:
  "map_go toJSONEventWithVersion [pushed_event] = Some [\<lparr>jv_Event = sample_je, jv_Version = nat_dec 7\<rparr>]"
  by (simp add: pushed_event_def toJSONEventWithVersion_def toJSONEvent_def sample_event_http_def New_event_def sample_je_def u64_dec_def)

lemma pushed_carries: "carries version_json (\<lambda>t. t) (\<lambda>r. Inr r) keep_version [\<lparr>jv_Event = sample_je, jv_Version = nat_dec 7\<rparr>]"
  by (rule version_json_carries) (auto intro!: exI [of _ 7])

lemma pushed_parses: "version_parses (keep_version \<lparr>jv_Event = sample_je, jv_Version = nat_dec 7\<rparr>)"
  using ParseVersion_dec [of 7] by (auto simp: version_parses_def keep_version_def u64_dec_def)


definition closed_handler :: "mem_store sync_handler" where
  "closed_handler = NewSyncHandlerWithHooks (fst (Close New_store))"

theorem http_push_hides_loss_witness:
  "events (sh_store closed_handler) = []
   \<and> Push_http version_json (\<lambda>t. t) (direct (mem_config version_json (\<lambda>t. t) (\<lambda>r. Inr r) True True) 0 1 []) (NewTransport [] None None) closed_handler None [pushed_event]
      = Some (closed_handler, None)"
proof -
  have c: "closed (sh_store closed_handler)" "events (sh_store closed_handler) = []"
    by (simp_all add: closed_handler_def NewSyncHandlerWithHooks_def Close_def New_store_def)
  have b: "known_base []" by (simp add: known_base_def)
  show ?thesis using http_push_hides_loss [OF b c(1) _ pushed_event_json pushed_carries, of True True 0 1 "[]"] c(2) by simp
qed

theorem converted_client_panics_witness:
  "\<exists>c. ToHTTPTransport (NewTransportClient ''/sync'' []) = Some c \<and> Push_http version_json (\<lambda>t. t) (\<lambda>n r. (n, Inl io_EOF)) c () None [] = None"
proof -
  obtain c where c: "ToHTTPTransport (NewTransportClient ''/sync'' []) = Some c" by (auto simp: ToHTTPTransport_def NewTransportClient_def)
  show ?thesis using converted_client_panics [OF c, of version_json "\<lambda>t. t" "\<lambda>n r. (n, Inl io_EOF)" "()" None "[]"] c by blast
qed

text \<open>A push of one event under a key, and a second one with an empty body.\<close>

definition keyed_request :: "string \<Rightarrow> request" where
  "keyed_request body = \<lparr>rq_Method = ''POST'', rq_Path = ''/push'', rq_Query = [], rq_Header = [(HeaderIdempotencyKey, ''k1'')],
     rq_ContentLength = int (length body), rq_Body = (body, io_EOF), rq_Closed = closed_body, rq_ctx = None\<rparr>"

lemma keyed_accepted: "accepted (mem_config version_json (\<lambda>t. t) (\<lambda>r. Inr r) True True) (keyed_request [char_of (7 :: nat)])
    [\<lparr>jv_Event = sample_je, jv_Version = nat_dec 7\<rparr>]"
  by (simp add: accepted_def keyed_request_def validateContentType_def values_Get_def HeaderIdempotencyKey_def createSafeRequestReader_def Let_def
      default_server_options_def to_lower_gzip MaxBytesReader_def version_json_def)

theorem duplicate_push_ignored_witness:
  "\<exists>h1. handlePush (mem_config version_json (\<lambda>t. t) (\<lambda>r. Inr r) True True) 0 1 [] long_log (keyed_request [char_of (7 :: nat)])
        = Some (h1, respond (mem_config version_json (\<lambda>t. t) (\<lambda>r. Inr r) True True) (keyed_request [char_of (7 :: nat)]) 200 status_ok,
            [AfterCommit [\<lparr>ev_Event = Some (SimpleEvent sample_je), ev_Version = Some (IntegerCursor 7)\<rparr>]])
      \<and> length (events (sh_store h1)) = 151
      \<and> handlePush (mem_config version_json (\<lambda>t. t) (\<lambda>r. Inr r) True True) 2 3 [] h1 (keyed_request [])
        = Some (h1, respond (mem_config version_json (\<lambda>t. t) (\<lambda>r. Inr r) True True) (keyed_request []) 200 status_ok, [])"
proof -
  let ?cfg = "mem_config version_json (\<lambda>t. t) (\<lambda>r. Inr r) True True" and ?r = "keyed_request [char_of (7 :: nat)]"
  let ?js = "[\<lparr>jv_Event = sample_je, jv_Version = nat_dec 7\<rparr>]"
  have key: "values_Get (rq_Header (keyed_request body)) HeaderIdempotencyKey = ''k1''" for body by (simp add: keyed_request_def values_Get_def)
  have tr: "sh_tracker long_log = NewIdempotencyTracker (10 * 60 * second) 1000" by (simp add: long_log_def NewSyncHandlerWithHooks_def)
  then have chk: "Check 0 (sh_tracker long_log) ''k1'' = None" by (simp add: NewIdempotencyTracker_def Check_def)
  have "ParseVersion (nat_dec 7) = Inr (Some (IntegerCursor 7))" using ParseVersion_dec [of 7] by (simp add: u64_dec_def)
  moreover obtain s1 where s1: "Store (sh_store long_log) None (Some (SimpleEvent sample_je)) (Some (IntegerCursor 7)) = Some (s1, None)"
      "events s1 = events (sh_store long_log) @ [new_entry (sh_store long_log) (SimpleEvent sample_je)]"
    using Store_open [of "sh_store long_log"] long_log_ok(1) by (auto simp: log_ok_def)
  ultimately have p: "push_events ?cfg (rq_ctx ?r) ?js (sh_store long_log) = Some (s1, [\<lparr>ev_Event = Some (SimpleEvent sample_je), ev_Version = Some (IntegerCursor 7)\<rparr>])"
    by (simp add: fromJSONEventWithVersion_def memstore_server_def keyed_request_def)
  let ?h1 = "long_log\<lparr>sh_store := s1, sh_tracker := Record 1 [] (sh_tracker long_log) ''k1'' status_ok\<rparr>"
  have h: "handlePush ?cfg 0 1 [] long_log ?r = Some (?h1, respond ?cfg ?r 200 status_ok,
      [AfterCommit [\<lparr>ev_Event = Some (SimpleEvent sample_je), ev_Version = Some (IntegerCursor 7)\<rparr>]])"
    using process_push_accepted [OF keyed_accepted, of 1 "[]" long_log] p chk key by (simp add: handlePush_def Let_def del: push_events.simps)
  have "\<forall>k w. fmlookup (it_keys (sh_tracker long_log)) k = Some w \<longrightarrow> ie_timestamp w < 1" "int 0 < it_maxSize (sh_tracker long_log)"
    "time_Sub 2 1 \<le> it_maxAge (sh_tracker long_log)"
    by (simp_all add: tr NewIdempotencyTracker_def time_Sub_def second_def)
  from duplicate_push_ignored [OF keyed_accepted key _ chk h this(1) served.start this(2) key this(3), of 3 "[]"]
  show ?thesis using h s1(2) long_log_ok(2) by auto
qed

definition tenant_request :: request where
  "tenant_request = \<lparr>rq_Method = ''GET'', rq_Path = ''/pull'', rq_Query = [(''tenant'', ''b'')], rq_Header = [(HeaderSyncKitTenant, ''a'')],
     rq_ContentLength = 0, rq_Body = ([], io_EOF), rq_Closed = closed_body, rq_ctx = None\<rparr>"

theorem pull_respects_tenant_witness:
  "effective_tenant tenant_request = ''b'' \<and> ExtractTenant tenant_request = ''a''
   \<and> (\<exists>js. handlePull (mem_config version_json (\<lambda>t. t) (\<lambda>r. Inr r) True False) (NewSyncHandlerWithHooks New_store) tenant_request
        = Some (NewSyncHandlerWithHooks New_store, respond (mem_config version_json (\<lambda>t. t) (\<lambda>r. Inr r) True False) tenant_request 200 (PEvents js), []))"
proof -
  let ?cfg = "mem_config version_json (\<lambda>t. t) (\<lambda>r. Inr r) True False" and ?h = "NewSyncHandlerWithHooks New_store"
  have t: "effective_tenant tenant_request = ''b''" "ExtractTenant tenant_request = ''a''"
    by (simp_all add: effective_tenant_def ExtractTenant_def tenant_request_def values_Get_def)
  have ok: "log_ok (sh_store ?h)" using store_inv_New by (simp add: NewSyncHandlerWithHooks_def log_ok_def New_store_def)
  have "parse_limit tenant_request = Inr 100" by (simp add: parse_limit_def tenant_request_def values_Get_def)
  then have run: "handlePull ?cfg ?h tenant_request = Some (?h, respond ?cfg tenant_request 200 (PEvents []), [])"
    using ok Load_open [of "sh_store ?h" 0]
    by (simp add: handlePull_def ParsePullQuery_def tenant_request_def values_Get_def ParseVersion_def iface_String_def memstore_server_def limit_page_def
        log_ok_def NewSyncHandlerWithHooks_def New_store_def)
  have "rs_Code (respond ?cfg tenant_request 200 (PEvents [])) = 200"
    by (simp add: respond_def respondWithJSON_def send_def version_json_def)
  from pull_respects_tenant [OF ok _ _ run this] show ?thesis using t run by (auto simp: tenant_request_def)
qed

end
