(* ===== verification/Sse_Transport.thy ===== *)
theory Sse_Transport
  imports Http_Sync
begin

text \<open>
  The transport over server sent events (transport/sse: server.go, client.go, types.go). The handler of the server is a loop over one connection: every iteration polls the context,
  loads the next events after the cursor and sends them, or sleeps when there are none; an iteration is \<open>sse_iterate\<close>, and \<open>sse_reach\<close> interleaves
  iterations with stores by others. The client reads the lines of the response (\<open>consumeStream\<close>) and connects again when the connection ends (\<open>Subscribe\<close>); what
  the network and the context do in an attempt to connect is an argument. The JSON records of this package have the fields of those of the HTTP
  transport and are shared with it. The text that \<open>encoding/json\<close> makes of the events is \<open>jl_Events\<close>; how it reads a payload and a wire cursor are arguments.
\<close>

section \<open>JSON form\<close>

text \<open>Only the texts 1 and 2 are read as versions.\<close>

definition sse_version :: "string \<Rightarrow> version" where
  "sse_version v = (if v = ''1'' then NewInteger 1 else if v = ''2'' then NewInteger 2 else NewInteger 0)"

definition sse_fromJSONEventWithVersion :: "json_event_with_version \<Rightarrow> event_with_version" where
  "sse_fromJSONEventWithVersion jev = \<lparr>ev_Event = Some (SimpleEvent (jv_Event jev)), ev_Version = Some (sse_version (jv_Version jev))\<rparr>"

section \<open>Server\<close>

record 's sse_server =
  sse_Store :: "'s store_ops"
  sse_BatchSize :: int

definition sse_NewServer :: "'s store_ops \<Rightarrow> 's sse_server" where
  "sse_NewServer ops = \<lparr>sse_Store = ops, sse_BatchSize = 100\<rparr>"

definition cursor_version :: "cursor option \<Rightarrow> version option" where
  "cursor_version cur = (case cur of
       Some (Integer_cursor n) \<Rightarrow> Some (IntegerCursor n)
     | Some (Vector_cursor m) \<Rightarrow> Some (VectorCursor m)
     | _ \<Rightarrow> None)"

definition cursor_after :: "event_with_version list \<Rightarrow> cursor option \<Rightarrow> cursor option" where
  "cursor_after evs cur = (if evs = [] then cur else (case ev_Version (last evs) of
       Some (IntegerCursor q) \<Rightarrow> Some (Integer_cursor q)
     | Some (VectorCursor m) \<Rightarrow> Some (Vector_cursor m)
     | _ \<Rightarrow> Some (Integer_cursor (of_nat (length evs)))))"

text \<open>Slicing to a negative length panics.\<close>

definition loadNext ::
  "'s store_ops \<Rightarrow> 's \<Rightarrow> go_error option \<Rightarrow> cursor option \<Rightarrow> int \<Rightarrow> (go_error + event_with_version list \<times> cursor option) go" where
  "loadNext ops s ctx cur batch = do {
     r \<leftarrow> st_Load ops s ctx (cursor_version cur);
     (case r of
        Inl err \<Rightarrow> Some (Inl err)
      | Inr evs \<Rightarrow>
          if evs = [] then Some (Inr ([], cur))
          else if batch < 0 then None
          else Some (Inr (limit_page batch evs, cursor_after (limit_page batch evs) cur))) }"

text \<open>What a connection begins with: an error response, or a stream from a cursor.\<close>

datatype sse_open = SseRefused nat string | SseOpened "cursor option"

definition sse_connect :: "(string \<Rightarrow> go_error + wire_cursor) \<Rightarrow> codec_registry \<Rightarrow> bool \<Rightarrow> request \<Rightarrow> sse_open" where
  "sse_connect read_wire reg flusher r =
     (let curParam = values_Get (rq_Query r) ''cursor'' in
      if \<not> flusher then SseRefused 500 ''streaming unsupported''
      else if curParam = [] then SseOpened None
      else (case read_wire curParam of
              Inl _ \<Rightarrow> SseRefused 400 ''bad cursor format''
            | Inr wc \<Rightarrow> (case UnmarshalWire reg (Some wc) of
                Inl _ \<Rightarrow> SseRefused 400 ''bad cursor''
              | Inr parsed \<Rightarrow> SseOpened parsed)))"

definition sse_payload :: "string \<Rightarrow> wire_cursor \<Rightarrow> string" where
  "sse_payload t w = ''{'' @ json_string ''events'' @ '':'' @ t @ '','' @ json_string ''next_cursor'' @ '':'' @ json_wire_cursor w @ ''}''"

text \<open>The error of \<open>json.Marshal\<close> is dropped; the text is then empty.\<close>

definition sse_chunk :: "json_lib \<Rightarrow> json_event_with_version list \<Rightarrow> wire_cursor \<Rightarrow> string" where
  "sse_chunk jl js w = ''data: '' @ (case jl_Events jl js of Inl _ \<Rightarrow> [] | Inr t \<Rightarrow> sse_payload t w) @ [CHR 0x0A, CHR 0x0A]"

datatype sse_iteration = SseReturn | SseSleep | SseSend string "cursor option"

definition sse_iterate ::
  "json_lib \<Rightarrow> codec_registry \<Rightarrow> 's sse_server \<Rightarrow> 's \<Rightarrow> go_error option \<Rightarrow> go_error option \<Rightarrow> cursor option \<Rightarrow> sse_iteration go" where
  "sse_iterate jl reg srv s done ctx cur =
     (if done \<noteq> None then Some SseReturn
      else do {
        r \<leftarrow> loadNext (sse_Store srv) s ctx cur (sse_BatchSize srv);
        (case r of
           Inl _ \<Rightarrow> Some SseReturn
         | Inr (evs, nextCur) \<Rightarrow>
             if evs = [] then Some SseSleep
             else do {
               jsonEvents \<leftarrow> map_go toJSONEventWithVersion evs;
               w \<leftarrow> MustMarshalWire reg nextCur;
               Some (SseSend (sse_chunk jl jsonEvents w) nextCur) }) })"

record 's sse_session =
  se_store :: 's
  se_cur :: "cursor option"
  se_out :: "string list"

inductive sse_reach ::
  "json_lib \<Rightarrow> codec_registry \<Rightarrow> 's sse_server \<Rightarrow> 's \<Rightarrow> cursor option \<Rightarrow> 's sse_session \<Rightarrow> bool" for jl reg srv s0 cur0 where
  start: "sse_reach jl reg srv s0 cur0 \<lparr>se_store = s0, se_cur = cur0, se_out = []\<rparr>"
| iterate: "sse_reach jl reg srv s0 cur0 z \<Longrightarrow> sse_iterate jl reg srv (se_store z) None ctx (se_cur z) = Some (SseSend chunk n)
    \<Longrightarrow> sse_reach jl reg srv s0 cur0 (z\<lparr>se_cur := n, se_out := se_out z @ [chunk]\<rparr>)"
| store: "sse_reach jl reg srv s0 cur0 z \<Longrightarrow> st_Store (sse_Store srv) (se_store z) ctx (Some e) v = Some (s', err)
    \<Longrightarrow> sse_reach jl reg srv s0 cur0 (z\<lparr>se_store := s'\<rparr>)"

section \<open>Client\<close>

definition maxLine :: nat where
  "maxLine = 10 * 1024 * 1024"

definition drop_cr :: "string \<Rightarrow> string" where
  "drop_cr l = (if l \<noteq> [] \<and> last l = CHR 0x0D then butlast l else l)"

text \<open>The lines of a \<open>bufio.Scanner\<close>, and whether it gave up on a line that does not fit its buffer.\<close>

function scan_lines :: "string \<Rightarrow> string list \<times> bool" where
  "scan_lines s =
     (if s = [] then ([], False)
      else let l = takeWhile (\<lambda>c. c \<noteq> CHR 0x0A) s in
           if length l \<ge> maxLine then ([], True)
           else (case scan_lines (drop (Suc (length l)) s) of (ls, tooLong) \<Rightarrow> (drop_cr l # ls, tooLong)))"
  by pat_completeness auto
termination
  by (relation "measure length") auto

declare scan_lines.simps [simp del]

text \<open>
  A handler of events is user code with a state of its own. \<open>ctx\<close> gives the result of the poll before each line.
\<close>

type_synonym 'h sse_handler = "'h \<Rightarrow> event_with_version list \<Rightarrow> ('h \<times> go_error option) go"

definition handler_error :: "go_error \<Rightarrow> go_error" where
  "handler_error err = E [AOp ''sse.consumeStream'', AComponent ''transport/sse'', AErr err, AMsg ''handler'']"

fun consume_lines ::
  "(string \<Rightarrow> go_error + json_event_with_version list) \<Rightarrow> 'h sse_handler \<Rightarrow> (nat \<Rightarrow> go_error option) \<Rightarrow> string list \<Rightarrow> 'h \<Rightarrow> ('h \<times> go_error option) go" where
  "consume_lines read handler ctx [] h = Some (h, None)"
| "consume_lines read handler ctx (line # ls) h =
     (case ctx 0 of
        Some e \<Rightarrow> Some (h, Some e)
      | None \<Rightarrow>
          if \<not> has_prefix line ''data: '' then consume_lines read handler (\<lambda>i. ctx (Suc i)) ls h
          else (case read (drop 6 line) of
             Inl _ \<Rightarrow> consume_lines read handler (\<lambda>i. ctx (Suc i)) ls h
           | Inr js \<Rightarrow>
               if js = [] then consume_lines read handler (\<lambda>i. ctx (Suc i)) ls h
               else do {
                 (h', err) \<leftarrow> handler h (map sse_fromJSONEventWithVersion js);
                 (case err of
                    Some e \<Rightarrow> Some (h', Some (handler_error e))
                  | None \<Rightarrow> consume_lines read handler (\<lambda>i. ctx (Suc i)) ls h') }))"

definition ErrTooLong :: go_error where
  "ErrTooLong = ErrorString ''bufio.Scanner: token too long''"

definition scanner_Err :: "bool \<Rightarrow> reader \<Rightarrow> go_error option" where
  "scanner_Err tooLong body = (if tooLong then Some ErrTooLong else if snd body = io_EOF then None else Some (snd body))"

definition consumeStream ::
  "(string \<Rightarrow> go_error + json_event_with_version list) \<Rightarrow> 'h sse_handler \<Rightarrow> (nat \<Rightarrow> go_error option) \<Rightarrow> reader \<Rightarrow> 'h \<Rightarrow> ('h \<times> go_error option) go" where
  "consumeStream read handler ctx body h = do {
     let (ls, tooLong) = scan_lines (fst body);
     (h', r) \<leftarrow> consume_lines read handler ctx ls h;
     Some (h', case r of
        Some err \<Rightarrow> Some err
      | None \<Rightarrow> (case scanner_Err tooLong body of
          None \<Rightarrow> None
        | Some err \<Rightarrow> if \<not> str_contains (Error_text err) ''context canceled''
            then Some (E [AOp ''sse.consumeStream'', AComponent ''transport/sse'', AErr err, AMsg ''scan'']) else Some Canceled)) }"

text \<open>
  One attempt to connect: what the context reports before it, what the network does, what the context reports after a stream ended, and, for the pause that follows, the
  error of the context when it ends the pause before the timer.
\<close>

datatype sse_conn = ConnFailed go_error | ConnResponse nat reader "nat \<Rightarrow> go_error option"

record sse_attempt =
  at_ctx :: "go_error option"
  at_conn :: sse_conn
  at_after :: "go_error option"
  at_pause :: "go_error option"

datatype sse_outcome = SubReturned "go_error option" | SubRunning int

definition milli :: int where
  "milli = 10 ^ 6"

definition firstDelay :: int where
  "firstDelay = 250 * milli"

definition maxDelay :: int where
  "maxDelay = 10 * 1000 * milli"

definition longer_delay :: "int \<Rightarrow> int" where
  "longer_delay delay = (if delay < maxDelay then 2 * delay else delay)"

text \<open>The state of the handler, how the call ended, and the pauses it made. \<open>SubRunning\<close> holds the current delay when the attempts given are over.\<close>

fun Subscribe_loop ::
  "string \<Rightarrow> (string \<Rightarrow> go_error + json_event_with_version list) \<Rightarrow> 'h sse_handler \<Rightarrow> int \<Rightarrow> sse_attempt list \<Rightarrow> 'h \<Rightarrow> ('h \<times> sse_outcome \<times> int list) go" where
  "Subscribe_loop base read handler delay [] h = Some (h, SubRunning delay, [])"
| "Subscribe_loop base read handler delay (a # as) h =
     (if at_ctx a \<noteq> None then Some (h, SubReturned (at_ctx a), [])
      else (case new_request (at_ctx a) ''GET'' (base @ ''/sse'') [] [] of
        Inl err \<Rightarrow> Some (h, SubReturned (Some (E [AOp ''sse.Subscribe'', AComponent ''transport/sse'', AErr err, AMsg ''create request''])), [])
      | Inr _ \<Rightarrow> (case at_conn a of
          ConnFailed _ \<Rightarrow>
            if at_pause a \<noteq> None then Some (h, SubReturned (at_pause a), [delay])
            else do { (h', res, ds) \<leftarrow> Subscribe_loop base read handler (longer_delay delay) as h; Some (h', res, delay # ds) }
        | ConnResponse code body polls \<Rightarrow>
            if code \<noteq> 200
            then if at_pause a \<noteq> None then Some (h, SubReturned (at_pause a), [delay])
                 else do { (h', res, ds) \<leftarrow> Subscribe_loop base read handler (longer_delay delay) as h; Some (h', res, delay # ds) }
            else do {
              (h1, err) \<leftarrow> consumeStream read handler polls body h;
              if (case err of None \<Rightarrow> False | Some e \<Rightarrow> errors_Is e Canceled) \<or> at_after a \<noteq> None then Some (h1, SubReturned (at_after a), [])
              else if (case err of None \<Rightarrow> False | Some e \<Rightarrow> str_contains (Error_text e) ''handler'') then Some (h1, SubReturned err, [])
              else if at_pause a \<noteq> None then Some (h1, SubReturned (at_pause a), [150 * milli])
              else do { (h', res, ds) \<leftarrow> Subscribe_loop base read handler firstDelay as h1; Some (h', res, 150 * milli # ds) } })))"

definition Subscribe_sse ::
  "string \<Rightarrow> (string \<Rightarrow> go_error + json_event_with_version list) \<Rightarrow> 'h sse_handler \<Rightarrow> sse_attempt list \<Rightarrow> 'h \<Rightarrow> ('h \<times> sse_outcome \<times> int list) go" where
  "Subscribe_sse base read handler as h = Subscribe_loop base read handler firstDelay as h"

text \<open>The other operations of a transport only fail.\<close>

definition sse_not_implemented :: "string \<Rightarrow> go_error" where
  "sse_not_implemented op = E [AOp op, AComponent ''transport/sse'', AKind KindMethodNotAllowed, AMsg ''not implemented'']"

definition sse_ops :: "unit transport_ops" where
  "sse_ops = \<lparr>tr_Push = (\<lambda>c ctx evs. Some (c, Some (sse_not_implemented ''sse.Push''))),
     tr_Pull = (\<lambda>c ctx v. Some (c, Inl (sse_not_implemented ''sse.Pull''))),
     tr_GetLatestVersion = (\<lambda>c ctx. Some (c, Inl (sse_not_implemented ''sse.GetLatestVersion''))),
     tr_Close = (\<lambda>c. Some (c, None))\<rparr>"

end
