(* ===== verification/Sse_Properties.thy ===== *)
theory Sse_Properties
  imports Sse_Transport Http_Properties
begin

text \<open>
  What the transport over server sent events does: which events a connection carries, what reaches the handler of the client, how long it pauses, and
  that the client's own requests make the server panic over the stores of the repository.
\<close>

section \<open>The stream of a connection\<close>

definition default_codecs :: codec_registry where
  "default_codecs = InitDefaultCodecs fmempty"

lemma marshal_integer: "MustMarshalWire default_codecs (Some (Integer_cursor q)) = Some \<lparr>wc_Kind = KindInteger, wc_Data = u64_dec q\<rparr>"
  using lookup_default [of "[]" fmempty] by (simp add: MustMarshalWire_def MarshalWire_def default_codecs_def integerCodec_def)

text \<open>The text of a batch of the log, whose last event has sequence number \<open>n\<close>.\<close>

definition batch_chunk :: "json_lib \<Rightarrow> event_with_version list \<Rightarrow> nat \<Rightarrow> string" where
  "batch_chunk jl b n = sse_chunk jl (map (\<lambda>x. the (toJSONEventWithVersion x)) b) \<lparr>wc_Kind = KindInteger, wc_Data = u64_dec (of_nat n)\<rparr>"

fun batch_chunks :: "json_lib \<Rightarrow> nat \<Rightarrow> event_with_version list list \<Rightarrow> string list" where
  "batch_chunks jl n [] = []"
| "batch_chunks jl n (b # bs) = batch_chunk jl b (n + length b) # batch_chunks jl (n + length b) bs"

lemma batch_chunks_snoc: "batch_chunks jl n (bs @ [b]) = batch_chunks jl n bs @ [batch_chunk jl b (n + length (concat bs) + length b)]"
  by (induction bs arbitrary: n) (simp_all add: add.assoc)

lemma chunk_end_version:
  assumes "log_ok s" and "take k (drop p (events s)) \<noteq> []"
  shows "ev_Version (last (take k (drop p (events s)))) = Some (IntegerCursor (of_nat (p + length (take k (drop p (events s))))))"
proof -
  define m where "m = length (take k (drop p (events s)))"
  have m: "0 < m" "p + m - 1 < length (events s)" "m \<le> k" using assms(2) by (auto simp: m_def)
  have "last (take k (drop p (events s))) = take k (drop p (events s)) ! (m - 1)"
    unfolding m_def by (rule last_conv_nth) (rule assms(2))
  also have "\<dots> = events s ! (p + m - 1)" using m by simp
  finally have "last (take k (drop p (events s))) = events s ! (p + m - 1)" .
  moreover have "entry_ok (p + m - 1) (events s ! (p + m - 1))" using assms(1) m by (auto simp: log_ok_def store_inv_def)
  ultimately show ?thesis unfolding m_def [symmetric] using m(1) by (simp add: entry_ok_def)
qed

lemma iterate_memstore:
  assumes "log_ok s" and "0 < k" and "p < 2 ^ 64"
  shows "sse_iterate jl default_codecs \<lparr>sse_Store = memstore_ops, sse_BatchSize = int k\<rparr> s None None (Some (Integer_cursor (of_nat p))) =
    Some (let b = take k (drop p (events s)) in if b = [] then SseSleep
          else SseSend (batch_chunk jl b (p + length b)) (Some (Integer_cursor (of_nat (p + length b)))))"
proof -
  let ?evs = "drop p (events s)"
  have ld: "st_Load memstore_ops s None (Some (IntegerCursor (of_nat p))) = Some (Inr ?evs)"
    using assms Load_drop [of s "of_nat p"] by (simp add: memstore_ops_def log_ok_def unat_of_nat64)
  show ?thesis
  proof (cases "?evs = []")
    case True
    then show ?thesis using ld by (simp add: sse_iterate_def loadNext_def cursor_version_def)
  next
    case False
    let ?b = "take k ?evs"
    have b: "?b \<noteq> []" "p < length (events s)" using False assms(2) by auto
    have js: "map_go toJSONEventWithVersion ?b = Some (map (\<lambda>x. the (toJSONEventWithVersion x)) ?b)"
      by (rule map_go_Some) (use log_entry_json [OF assms(1)] in \<open>auto dest!: in_set_takeD in_set_dropD\<close>)
    have "ev_Version (last ?b) = Some (IntegerCursor (of_nat (p + length ?b)))" by (rule chunk_end_version) (rule assms(1), rule b(1))
    then have "cursor_after ?b c = Some (Integer_cursor (of_nat (p + length ?b)))" for c
      using b(1) by (simp add: cursor_after_def)
    then show ?thesis
      using ld False assms(2) b js by (simp add: sse_iterate_def loadNext_def cursor_version_def limit_page_take marshal_integer batch_chunk_def Let_def)
  qed
qed

lemma iterate_ctx: "sse_iterate jl reg \<lparr>sse_Store = memstore_ops, sse_BatchSize = n\<rparr> s None ctx cur = Some (SseSend c m) \<Longrightarrow> ctx = None"
  by (cases ctx) (auto simp: sse_iterate_def loadNext_def memstore_ops_def Load_def)

text \<open>Storing by others keeps the log that was sent a prefix.\<close>

lemma Store_extends:
  assumes "store_inv s" and "Store s ctx (Some e) v = Some (s', err)"
  shows "store_inv s' \<and> closed s' = closed s \<and> (\<exists>tl. events s' = events s @ tl)"
  using assms(1)
proof (cases rule: Store_cases [of s ctx e v])
  case (refused err')
  then show ?thesis using assms by auto
next
  case (stored s'')
  then show ?thesis using assms by auto
qed

definition stream_ok :: "json_lib \<Rightarrow> nat \<Rightarrow> nat \<Rightarrow> mem_store sse_session \<Rightarrow> bool" where
  "stream_ok jl k p0 z \<longleftrightarrow> (\<exists>bs. se_out z = batch_chunks jl p0 bs \<and> concat bs = take (length (concat bs)) (drop p0 (events (se_store z)))
     \<and> (\<forall>b \<in> set bs. b \<noteq> [] \<and> length b \<le> k) \<and> se_cur z = Some (Integer_cursor (of_nat (p0 + length (concat bs)))))"

lemma take_drop_extend:
  assumes "xs = take (length xs) (drop p ys)" and "zs = take n (drop (p + length xs) ys)"
  shows "xs @ zs = take (length (xs @ zs)) (drop p ys)"
proof -
  have "take (length xs + length zs) (drop p ys) = take (length xs) (drop p ys) @ take (length zs) (drop (p + length xs) ys)"
    by (simp add: take_add add.commute)
  also have "\<dots> = xs @ zs" using assms by (simp add: min_def split: if_splits)
  finally show ?thesis by simp
qed

lemma reach_stream_ok:
  assumes "sse_reach jl default_codecs \<lparr>sse_Store = memstore_ops, sse_BatchSize = int k\<rparr> s0 (Some (Integer_cursor (of_nat p0))) z"
    and "log_ok s0" and "0 < k" and "p0 \<le> length (events s0)" and "length (events (se_store z)) < 2 ^ 64"
  shows "stream_ok jl k p0 z \<and> store_inv (se_store z) \<and> \<not> closed (se_store z) \<and> p0 \<le> length (events (se_store z))"
  using assms(1,5)
proof (induction rule: sse_reach.induct)
  case start
  have "stream_ok jl k p0 \<lparr>se_store = s0, se_cur = Some (Integer_cursor (of_nat p0)), se_out = []\<rparr>"
    unfolding stream_ok_def by (rule exI [of _ "[]"]) simp
  then show ?case using assms(2,4) by (simp add: log_ok_def)
next
  case (iterate z ctx chunk n)
  then have ok: "stream_ok jl k p0 z" "log_ok (se_store z)" "p0 \<le> length (events (se_store z))" by (auto simp: log_ok_def)
  then obtain bs where bs: "se_out z = batch_chunks jl p0 bs" "concat bs = take (length (concat bs)) (drop p0 (events (se_store z)))"
     "\<forall>b \<in> set bs. b \<noteq> [] \<and> length b \<le> k" "se_cur z = Some (Integer_cursor (of_nat (p0 + length (concat bs))))"
    by (auto simp: stream_ok_def)
  let ?p = "p0 + length (concat bs)" and ?b = "take k (drop (p0 + length (concat bs)) (events (se_store z)))"
  have "length (concat bs) \<le> length (drop p0 (events (se_store z)))" using bs(2) by (metis length_take min.cobounded1)
  then have p: "?p < 2 ^ 64" using iterate.prems ok(3) by simp
  have "ctx = None" using iterate.hyps(2) by (rule iterate_ctx)
  then have step: "?b \<noteq> []" "chunk = batch_chunk jl ?b (?p + length ?b)" "n = Some (Integer_cursor (of_nat (?p + length ?b)))"
    using iterate.hyps(2) iterate_memstore [OF ok(2) assms(3) p, of jl] bs(4) by (auto simp: Let_def split: if_splits)
  have same: "se_store (z\<lparr>se_cur := n, se_out := se_out z @ [chunk]\<rparr>) = se_store z" by simp
  have "stream_ok jl k p0 (z\<lparr>se_cur := n, se_out := se_out z @ [chunk]\<rparr>)"
    unfolding stream_ok_def
  proof (intro exI conjI)
    show "se_out (z\<lparr>se_cur := n, se_out := se_out z @ [chunk]\<rparr>) = batch_chunks jl p0 (bs @ [?b])"
      using bs(1) step(2) by (simp add: batch_chunks_snoc add.assoc)
    show "concat (bs @ [?b]) = take (length (concat (bs @ [?b]))) (drop p0 (events (se_store (z\<lparr>se_cur := n, se_out := se_out z @ [chunk]\<rparr>))))"
      using take_drop_extend [OF bs(2) refl, of k] by (simp only: same concat_append concat.simps append_Nil2)
    show "\<forall>b \<in> set (bs @ [?b]). b \<noteq> [] \<and> length b \<le> k" using bs(3) step(1) by auto
    show "se_cur (z\<lparr>se_cur := n, se_out := se_out z @ [chunk]\<rparr>) = Some (Integer_cursor (of_nat (p0 + length (concat (bs @ [?b])))))"
      using step(3) by (simp add: add.assoc)
  qed
  then show ?case using ok by (simp add: log_ok_def)
next
  case (store z ctx e v s' err)
  have st: "Store (se_store z) ctx (Some e) v = Some (s', err)" using store.hyps(2) by (simp add: memstore_ops_def)
  have "store_inv (se_store z)"
    using store.hyps(1)
  proof (induction rule: sse_reach.induct)
    case start then show ?case using assms(2) by (simp add: log_ok_def)
  next
    case store then show ?case using Store_extends by (auto simp: memstore_ops_def)
  qed simp
  then have ext: "store_inv s'" "closed s' = closed (se_store z)" "\<exists>tl. events s' = events (se_store z) @ tl"
    using Store_extends [OF _ st] by auto
  then have "length (events (se_store z)) < 2 ^ 64" using store.prems by auto
  with store.IH have ih: "stream_ok jl k p0 z" "\<not> closed (se_store z)" "p0 \<le> length (events (se_store z))" by auto
  obtain tl where tl: "events s' = events (se_store z) @ tl" using ext(3) by blast
  have "stream_ok jl k p0 (z\<lparr>se_store := s'\<rparr>)"
  proof -
    obtain bs where bs: "se_out z = batch_chunks jl p0 bs" "concat bs = take (length (concat bs)) (drop p0 (events (se_store z)))"
       "\<forall>b \<in> set bs. b \<noteq> [] \<and> length b \<le> k" "se_cur z = Some (Integer_cursor (of_nat (p0 + length (concat bs))))"
      using ih(1) by (auto simp: stream_ok_def)
    have "length (concat bs) \<le> length (drop p0 (events (se_store z)))" using bs(2) by (metis length_take min.cobounded1)
    then have "take (length (concat bs)) (drop p0 (events s')) = concat bs" using bs(2) ih(3) by (simp add: tl)
    then show ?thesis unfolding stream_ok_def using bs by (intro exI [of _ bs]) auto
  qed
  then show ?case using ext ih tl by simp
qed

section \<open>Reading the stream\<close>

lemma scan_line:
  assumes "CHR 0x0A \<notin> set l" and "length l < maxLine"
  shows "scan_lines (l @ CHR 0x0A # r) = (case scan_lines r of (ls, tooLong) \<Rightarrow> (drop_cr l # ls, tooLong))"
proof -
  have "takeWhile (\<lambda>c. c \<noteq> CHR 0x0A) (l @ CHR 0x0A # r) = l" using assms(1) by (induction l) auto
  then show ?thesis using assms(2) by (subst scan_lines.simps) (simp add: Let_def)
qed

text \<open>
  What the client needs of the JSON library for a batch whose last sequence number is \<open>n\<close>: the text of the events has no line break and is not too long, and the payload is read back, up to what
  JSON does to the values of any type in the events (\<open>cp\<close>).
\<close>

definition sse_carries ::
  "json_lib \<Rightarrow> (string \<Rightarrow> go_error + json_event_with_version list) \<Rightarrow> (json_event_with_version \<Rightarrow> json_event_with_version)
     \<Rightarrow> event_with_version list \<Rightarrow> nat \<Rightarrow> bool" where
  "sse_carries jl read cp b n \<longleftrightarrow> (\<exists>t. jl_Events jl (map (\<lambda>x. the (toJSONEventWithVersion x)) b) = Inr t \<and> CHR 0x0A \<notin> set t \<and> length t < 10 ^ 7
     \<and> read (sse_payload t \<lparr>wc_Kind = KindInteger, wc_Data = u64_dec (of_nat n)\<rparr>) = Inr (map (\<lambda>x. cp (the (toJSONEventWithVersion x))) b))"

definition sse_received :: "(json_event_with_version \<Rightarrow> json_event_with_version) \<Rightarrow> event_with_version \<Rightarrow> event_with_version" where
  "sse_received cp ev = sse_fromJSONEventWithVersion (cp (the (toJSONEventWithVersion ev)))"

lemma payload_parts:
  "CHR 0x0A \<notin> set (json_string ''events'' @ json_string ''next_cursor'' @ json_string ''kind'' @ json_string ''data'' @ json_string KindInteger)"
  "length (json_string ''events'') + length (json_string ''next_cursor'') + length (json_string ''kind'') + length (json_string ''data'')
     + length (json_string KindInteger) < 60"
  by code_simp+

lemma u64_dec_no_newline: "CHR 0x0A \<notin> set (u64_dec q)"
proof
  assume "CHR 0x0A \<in> set (u64_dec q)"
  then have "is_digit (CHR 0x0A)" unfolding u64_dec_def by (rule nat_dec_digits)
  then show False by (simp add: is_digit_def)
qed

lemma chunk_line:
  assumes "CHR 0x0A \<notin> set t" and "length t < 10 ^ 7"
  shows "scan_lines (''data: '' @ sse_payload t \<lparr>wc_Kind = KindInteger, wc_Data = u64_dec q\<rparr> @ CHR 0x0A # CHR 0x0A # r) =
    (case scan_lines r of (ls, tooLong) \<Rightarrow> ((''data: '' @ sse_payload t \<lparr>wc_Kind = KindInteger, wc_Data = u64_dec q\<rparr>) # [] # ls, tooLong))"
proof -
  let ?l = "''data: '' @ sse_payload t \<lparr>wc_Kind = KindInteger, wc_Data = u64_dec q\<rparr>"
  have "CHR 0x0A \<notin> set ?l" using assms(1) payload_parts(1) u64_dec_no_newline [of q] by (simp add: sse_payload_def json_wire_cursor_def)
  moreover have "length ?l < maxLine"
    using assms(2) payload_parts(2) u64_dec_length [of q] by (simp add: sse_payload_def json_wire_cursor_def maxLine_def)
  moreover have "drop_cr ?l = ?l" by (simp add: drop_cr_def sse_payload_def)
  moreover have "scan_lines (CHR 0x0A # r) = (case scan_lines r of (ls, tooLong) \<Rightarrow> ([] # ls, tooLong))"
    using scan_line [of "[]" r] by (simp add: drop_cr_def maxLine_def)
  ultimately show ?thesis using scan_line [of ?l "CHR 0x0A # r"] by (simp split: prod.split)
qed

text \<open>A handler that never fails, with state transformer \<open>f\<close>, sees the batches one after the other.\<close>

lemma consume_chunks:
  assumes "\<And>b n. b \<in> set bs \<Longrightarrow> sse_carries jl read cp b n" and "\<forall>b \<in> set bs. b \<noteq> []"
  shows "(case scan_lines (concat (batch_chunks jl p bs)) of (ls, tooLong) \<Rightarrow> \<not> tooLong \<and>
    consume_lines read (\<lambda>h evs. Some (f h evs, None)) (\<lambda>_. None) ls h = Some (foldl f h (map (map (sse_received cp)) bs), None))"
  using assms
proof (induction bs arbitrary: p h)
  case Nil
  then show ?case by (simp add: scan_lines.simps)
next
  case (Cons b bs)
  let ?w = "\<lparr>wc_Kind = KindInteger, wc_Data = u64_dec (of_nat (p + length b))\<rparr>"
  obtain t where t: "jl_Events jl (map (\<lambda>x. the (toJSONEventWithVersion x)) b) = Inr t" "CHR 0x0A \<notin> set t" "length t < 10 ^ 7"
     "read (sse_payload t ?w) = Inr (map (\<lambda>x. cp (the (toJSONEventWithVersion x))) b)"
    using Cons.prems(1) [of b "p + length b"] unfolding sse_carries_def by force
  obtain ls tl where sc: "scan_lines (concat (batch_chunks jl (p + length b) bs)) = (ls, tl)" by fastforce
  have ih: "\<not> tl" "consume_lines read (\<lambda>h evs. Some (f h evs, None)) (\<lambda>_. None) ls (f h (map (sse_received cp) b))
      = Some (foldl f (f h (map (sse_received cp) b)) (map (map (sse_received cp)) bs), None)"
    using Cons.IH [where p = "p + length b" and h = "f h (map (sse_received cp) b)"] Cons.prems sc by auto
  have cat: "concat (batch_chunks jl p (b # bs)) = ''data: '' @ sse_payload t ?w @ CHR 0x0A # CHR 0x0A # concat (batch_chunks jl (p + length b) bs)"
    using t(1) by (simp add: batch_chunk_def sse_chunk_def)
  have "sse_fromJSONEventWithVersion \<circ> (\<lambda>x. cp (the (toJSONEventWithVersion x))) = sse_received cp"
    by (simp add: sse_received_def fun_eq_iff)
  then show ?case
    unfolding cat chunk_line [OF t(2,3)] sc
    using ih t(4) Cons.prems(2) by (simp add: has_prefix_def)
qed

section \<open>Pauses\<close>

lemma longer_delay_steps:
  assumes "d = firstDelay * 2 ^ k" and "k \<le> 6"
  shows "\<exists>j \<le> 6. longer_delay d = firstDelay * 2 ^ j"
proof (cases "k = 6")
  case True
  then show ?thesis using assms by (intro exI [of _ 6]) (simp add: longer_delay_def firstDelay_def maxDelay_def milli_def)
next
  case False
  then have "k \<in> {0, 1, 2, 3, 4, 5}" using assms(2) by auto
  then show ?thesis using assms(1) by (intro exI [of _ "Suc k"]) (auto simp: longer_delay_def firstDelay_def maxDelay_def milli_def)
qed

definition sse_pauses :: "int set" where
  "sse_pauses = insert (150 * milli) ((\<lambda>j. firstDelay * 2 ^ j) ` {..6})"

lemma Subscribe_pauses:
  assumes "Subscribe_loop base read handler d as h = Some (h', res, ds)" and "d = firstDelay * 2 ^ k" and "k \<le> 6"
  shows "set ds \<subseteq> sse_pauses"
  using assms
proof (induction as arbitrary: d k h h' res ds)
  case (Cons a as)
  have first: "firstDelay = firstDelay * 2 ^ 0" by simp
  have now: "d \<in> sse_pauses" "150 * milli \<in> sse_pauses" using Cons.prems(2,3) by (auto simp: sse_pauses_def)
  obtain j where j: "longer_delay d = firstDelay * 2 ^ j" "j \<le> 6" using longer_delay_steps [OF Cons.prems(2,3)] by blast
  have retry: "set ds \<subseteq> sse_pauses"
    if "(do { (h', res, ds) \<leftarrow> Subscribe_loop base read handler (longer_delay d) as h; Some (h', res, d # ds) }) = Some (h', res, ds)"
    using that Cons.IH [OF _ j] now by (auto simp: bind_eq_Some_conv subset_iff)
  show ?case
  proof (cases "at_ctx a = None \<and> (\<exists>r. new_request (at_ctx a) ''GET'' (base @ ''/sse'') [] [] = Inr r)")
    case False
    then show ?thesis using Cons.prems(1) by (auto split: sum.splits if_splits)
  next
    case True
    then obtain r where r: "new_request None ''GET'' (base @ ''/sse'') [] [] = Inr r" "at_ctx a = None" by auto
    show ?thesis
    proof (cases "at_conn a")
      case (ConnFailed e)
      then show ?thesis using Cons.prems(1) r now retry by (auto split: if_splits)
    next
      case (ConnResponse code body polls)
      show ?thesis
      proof (cases "code = 200")
        case False
        then show ?thesis using Cons.prems(1) r ConnResponse now retry by (auto split: if_splits)
      next
        case ok: True
        obtain h1 err where cs: "consumeStream read handler polls body h = Some (h1, err)"
          using Cons.prems(1) r ConnResponse ok by (auto simp: bind_eq_Some_conv)
        show ?thesis
          using Cons.prems(1) r ConnResponse ok cs Cons.IH [OF _ first] now by (auto simp: bind_eq_Some_conv subset_iff split: if_splits)
      qed
    qed
  qed
qed simp

definition failing :: "sse_attempt \<Rightarrow> bool" where
  "failing a \<longleftrightarrow> at_ctx a = None \<and> (\<exists>e. at_conn a = ConnFailed e) \<and> at_pause a = None"

lemma longer_delay_min: "longer_delay (firstDelay * 2 ^ min k 6) = firstDelay * 2 ^ min (Suc k) 6"
proof (cases "6 \<le> k")
  case True
  then show ?thesis by (simp add: min_def longer_delay_def firstDelay_def maxDelay_def milli_def)
next
  case False
  then have "k \<in> {0, 1, 2, 3, 4, 5}" by auto
  then show ?thesis by (auto simp: longer_delay_def firstDelay_def maxDelay_def milli_def)
qed

lemma failing_pauses:
  assumes "\<forall>a \<in> set as. failing a" and "\<not> list_ex is_ctl base" and "d = firstDelay * 2 ^ min k 6"
  shows "\<exists>d'. Subscribe_loop base read handler d as h = Some (h, SubRunning d', map (\<lambda>i. firstDelay * 2 ^ min (k + i) 6) [0..<length as])"
  using assms
proof (induction as arbitrary: d k)
  case (Cons a as)
  have "\<not> list_ex is_ctl ''/sse''" by (simp add: is_ctl_def byte_of_def)
  then have "\<not> list_ex is_ctl (base @ ''/sse'')" using Cons.prems(2) by simp
  then obtain r where r: "new_request None ''GET'' (base @ ''/sse'') [] [] = Inr r" by (simp add: new_request_def)
  have "longer_delay d = firstDelay * 2 ^ min (Suc k) 6" using longer_delay_min [of k] Cons.prems(3) by simp
  then obtain d' where "Subscribe_loop base read handler (longer_delay d) as h
      = Some (h, SubRunning d', map (\<lambda>i. firstDelay * 2 ^ min (Suc k + i) 6) [0..<length as])"
    using Cons.IH [of "longer_delay d" "Suc k"] Cons.prems(1,2) by auto
  moreover have "map (\<lambda>i. firstDelay * 2 ^ min (k + i) 6) [0..<length (a # as)] = d # map (\<lambda>i. firstDelay * 2 ^ min (Suc k + i) 6) [0..<length as]"
    unfolding length_Cons upt_conv_Cons [OF zero_less_Suc] map_Suc_upt [symmetric] using Cons.prems(3) by simp
  ultimately show ?case using r Cons.prems(1) by (auto simp: failing_def)
qed simp

section \<open>Versions\<close>

lemma sse_version_dec: "sse_version (u64_dec q) = IntegerCursor (if unat q \<le> 2 then q else 0)"
proof -
  have "u64_dec 1 = ''1''" "u64_dec 2 = ''2''" by code_simp+
  then have iff: "u64_dec q = ''1'' \<longleftrightarrow> q = 1" "u64_dec q = ''2'' \<longleftrightarrow> q = 2" using u64_dec_inject [of q 1] u64_dec_inject [of q 2] by auto
  have "unat q \<le> 2 \<longleftrightarrow> q = 0 \<or> q = 1 \<or> q = 2"
  proof
    assume "unat q \<le> 2"
    then have "unat q = unat (0 :: u64) \<or> unat q = unat (1 :: u64) \<or> unat q = unat (2 :: u64)" by auto
    then show "q = 0 \<or> q = 1 \<or> q = 2" by (simp only: word_unat_eq_iff)
  qed auto
  then show ?thesis by (auto simp: sse_version_def NewInteger_def iff)
qed

lemma received_versions:
  assumes "log_ok s" and "\<And>j. jv_Version (cp j) = jv_Version j" and "p + m \<le> length (events s)"
  shows "map ev_Version (map (sse_received cp) (take m (drop p (events s)))) = map (\<lambda>i. Some (IntegerCursor (if i \<le> 2 then of_nat i else 0))) [Suc p..<Suc (p + m)]"
proof (rule nth_equalityI)
  show "length (map ev_Version (map (sse_received cp) (take m (drop p (events s))))) =
      length (map (\<lambda>i. Some (IntegerCursor (if i \<le> 2 then of_nat i else 0))) [Suc p..<Suc (p + m)])"
    using assms(3) by simp
next
  fix i assume "i < length (map ev_Version (map (sse_received cp) (take m (drop p (events s)))))"
  then have i: "i < m" "p + i < length (events s)" using assms(3) by auto
  let ?ev = "events s ! (p + i)"
  have "ev_Version ?ev = Some (IntegerCursor (of_nat (Suc (p + i))))"
    using assms(1) i by (auto simp: log_ok_def store_inv_def entry_ok_def)
  moreover obtain j q where "toJSONEventWithVersion ?ev = Some j" "ev_Version ?ev = Some (IntegerCursor q)" "jv_Version j = u64_dec q"
    using log_entry_json [OF assms(1), of ?ev] i by auto
  ultimately have "ev_Version (sse_received cp ?ev) = Some (sse_version (u64_dec (of_nat (Suc (p + i)))))"
    by (simp add: sse_received_def sse_fromJSONEventWithVersion_def assms(2))
  moreover have "unat (of_nat (Suc (p + i)) :: u64) = Suc (p + i)" using assms(1) i by (intro unat_of_nat64) (simp add: log_ok_def)
  ultimately have "ev_Version (sse_received cp ?ev) = Some (IntegerCursor (if Suc (p + i) \<le> 2 then of_nat (Suc (p + i)) else 0))"
    unfolding sse_version_dec by presburger
  then show "map ev_Version (map (sse_received cp) (take m (drop p (events s)))) ! i =
      map (\<lambda>i. Some (IntegerCursor (if i \<le> 2 then of_nat i else 0))) [Suc p..<Suc (p + m)] ! i"
    using i nth_upt [of "Suc p" i "Suc (p + m)"] by (simp del: upt_Suc)
qed

section \<open>Properties\<close>


text \<open>
  A client that reads the stream of such a connection hands its handler the same events in the same order, when JSON carries them; but the third and all later events of the log
  arrive with version 0.
\<close>

theorem sse_client_receives:
  assumes "sse_reach jl default_codecs \<lparr>sse_Store = memstore_ops, sse_BatchSize = int k\<rparr> s0 (Some (Integer_cursor (of_nat p0))) z"
    and "log_ok s0" and "0 < k" and "p0 \<le> length (events s0)" and "length (events (se_store z)) < 2 ^ 64"
    and "\<And>b n. set b \<subseteq> set (events (se_store z)) \<Longrightarrow> b \<noteq> [] \<Longrightarrow> length b \<le> k \<Longrightarrow> sse_carries jl read cp b n" and "\<And>j. jv_Version (cp j) = jv_Version j"
  shows "\<exists>m bss. consumeStream read (\<lambda>h evs. Some (f h evs, None)) (\<lambda>_. None) (concat (se_out z), io_EOF) h = Some (foldl f h bss, None)
    \<and> concat bss = map (sse_received cp) (take m (drop p0 (events (se_store z)))) \<and> se_cur z = Some (Integer_cursor (of_nat (p0 + m)))
    \<and> map ev_Version (concat bss) = map (\<lambda>i. Some (IntegerCursor (if i \<le> 2 then of_nat i else 0))) [Suc p0..<Suc (p0 + m)]"
proof -
  note ok = reach_stream_ok [OF assms(1-5)]
  then obtain bs where bs: "se_out z = batch_chunks jl p0 bs" "concat bs = take (length (concat bs)) (drop p0 (events (se_store z)))"
     "\<forall>b \<in> set bs. b \<noteq> [] \<and> length b \<le> k" "se_cur z = Some (Integer_cursor (of_nat (p0 + length (concat bs))))"
    by (auto simp: stream_ok_def)
  have "length (concat bs) \<le> length (drop p0 (events (se_store z)))" using bs(2) by (metis length_take min.cobounded1)
  then have le: "p0 + length (concat bs) \<le> length (events (se_store z))" using ok unfolding length_drop by linarith
  have "set (concat bs) \<subseteq> set (events (se_store z))" by (subst bs(2)) (auto dest!: in_set_takeD in_set_dropD)
  then have "sse_carries jl read cp b n" if "b \<in> set bs" for b n using that bs(3) by (intro assms(6)) auto
  note cc = consume_chunks [of bs, OF this, where p = p0 and f = f and h = h]
  obtain ls tl where sc: "scan_lines (concat (batch_chunks jl p0 bs)) = (ls, tl)" by fastforce
  have "consumeStream read (\<lambda>h evs. Some (f h evs, None)) (\<lambda>_. None) (concat (se_out z), io_EOF) h
      = Some (foldl f h (map (map (sse_received cp)) bs), None)"
    using cc bs(1,3) sc by (simp add: consumeStream_def scanner_Err_def)
  moreover have "concat (map (map (sse_received cp)) bs) = map (sse_received cp) (take (length (concat bs)) (drop p0 (events (se_store z))))"
    by (subst bs(2) [symmetric]) (simp add: map_concat)
  moreover have "log_ok (se_store z)" using ok assms(5) by (simp add: log_ok_def)
  ultimately show ?thesis using bs(4) received_versions [OF _ assms(7) le] by (intro exI conjI) auto
qed

text \<open>
  The client asks without a cursor, in every connection anew. The server then loads since a nil version, on which the memory store, like any store that
  asks the version whether it is zero, panics: a connection of this client never receives an event.
\<close>

theorem sse_first_poll_panics:
  assumes "new_request ctx ''GET'' (base @ ''/sse'') [] [] = Inr r" and "\<not> closed s"
  shows "sse_connect read_wire reg True r = SseOpened None \<and> sse_iterate jl reg (sse_NewServer memstore_ops) s None None None = None"
proof -
  have "parse_query [] = []" by (simp add: parse_query_def cut_def split_on.simps query_pair_def)
  then have "rq_Query r = []" using assms(1) by (auto simp: new_request_def split: if_splits)
  then have "sse_connect read_wire reg True r = SseOpened None" by (simp add: sse_connect_def values_Get_def)
  moreover have "loadNext memstore_ops s None None 100 = None"
    using assms(2) by (simp add: loadNext_def cursor_version_def memstore_ops_def Load_def since_seq_def iface_IsZero_def)
  ultimately show ?thesis by (simp add: sse_iterate_def sse_NewServer_def)
qed

text \<open>
  The pauses between two attempts to connect are 150 ms after a stream and otherwise a quarter of a second doubled at most six times; after six failures in a row the pause is 16
  seconds, which is more than the intended maximum of 10.
\<close>

theorem sse_backoff:
  assumes "Subscribe_sse base read handler as h = Some (h', res, ds)"
  shows "(\<forall>d \<in> set ds. d = 150 * milli \<or> (\<exists>j \<le> 6. d = firstDelay * 2 ^ j))
    \<and> ((\<forall>a \<in> set as. failing a) \<and> \<not> list_ex is_ctl base \<longrightarrow> ds = map (\<lambda>i. firstDelay * 2 ^ min i 6) [0..<length as])
    \<and> maxDelay < firstDelay * 2 ^ 6"
proof -
  have "set ds \<subseteq> sse_pauses" using Subscribe_pauses [of base read handler firstDelay as h h' res ds 0] assms by (simp add: Subscribe_sse_def)
  then show ?thesis using failing_pauses [of as base firstDelay 0 read handler h] assms
    by (auto simp: sse_pauses_def Subscribe_sse_def maxDelay_def firstDelay_def milli_def)
qed

section \<open>Witnesses\<close>

text \<open>A log of three events, of which a connection with batches of two has sent the first batch.\<close>

definition sse_json :: json_lib where
  "sse_json = version_json\<lparr>jl_Events := (\<lambda>js. Inr (map (\<lambda>j. char_of (48 + dec_val (jv_Version j))) js))\<rparr>"

definition sse_read :: "string \<Rightarrow> go_error + json_event_with_version list" where
  "sse_read p = Inr (map (\<lambda>c. \<lparr>jv_Event = sample_je, jv_Version = nat_dec (byte_of c - 48)\<rparr>) (takeWhile (\<lambda>c. c \<noteq> CHR '','') (drop 10 p)))"

definition three_log :: mem_store where
  "three_log = store_all (replicate 3 sample_event_http)"

definition two_sent :: "mem_store sse_session" where
  "two_sent = \<lparr>se_store = three_log, se_cur = Some (Integer_cursor 2), se_out = [batch_chunk sse_json (take 2 (events three_log)) 2]\<rparr>"

lemma three_log_ok: "log_ok three_log" "length (events three_log) = 3"
  using store_all_ok [of "replicate 3 sample_event_http"] by (simp_all add: three_log_def)

lemma two_sent_reached:
  "sse_reach sse_json default_codecs \<lparr>sse_Store = memstore_ops, sse_BatchSize = int 2\<rparr> three_log (Some (Integer_cursor (of_nat 0))) two_sent"
proof -
  let ?srv = "\<lparr>sse_Store = memstore_ops, sse_BatchSize = int 2\<rparr>" and ?z0 = "\<lparr>se_store = three_log, se_cur = Some (Integer_cursor (of_nat 0)), se_out = []\<rparr>"
  have "events three_log \<noteq> []" using three_log_ok(2) by auto
  then have it: "sse_iterate sse_json default_codecs ?srv (se_store ?z0) None None (se_cur ?z0) =
      Some (SseSend (batch_chunk sse_json (take 2 (events three_log)) 2) (Some (Integer_cursor 2)))"
    using iterate_memstore [OF three_log_ok(1), of 2 0 sse_json] three_log_ok(2) by (simp add: Let_def numeral_2_eq_2)
  from sse_reach.iterate [OF sse_reach.start it] show ?thesis by (simp add: two_sent_def)
qed

lemma payload_events:
  assumes "CHR '','' \<notin> set t"
  shows "takeWhile (\<lambda>c. c \<noteq> CHR '','') (drop 10 (sse_payload t w)) = t"
proof -
  have "''{'' @ json_string ''events'' @ '':'' = ''{'' @ [CHR 0x22] @ ''events'' @ [CHR 0x22] @ '':''" by code_simp
  then have "sse_payload t w = (''{'' @ [CHR 0x22] @ ''events'' @ [CHR 0x22] @ '':'') @ t @ CHR '','' # (json_string ''next_cursor'' @ '':'' @ json_wire_cursor w @ ''}'')"
    by (simp add: sse_payload_def)
  moreover have "takeWhile (\<lambda>c. c \<noteq> CHR '','') (t @ CHR '','' # r) = t" for r using assms by (induction t) auto
  ultimately show ?thesis by simp
qed


theorem sse_client_receives_witness:
  "\<exists>evs. consumeStream sse_read (\<lambda>h evs. Some (h @ evs, None)) (\<lambda>_. None) (concat (se_out two_sent), io_EOF) [] = Some (evs, None)
    \<and> map ev_Version evs = [Some (IntegerCursor 1), Some (IntegerCursor 2)]"
proof -
  have len: "length (events (se_store two_sent)) = 3" using three_log_ok(2) by (simp add: two_sent_def)
  have carr: "sse_carries sse_json sse_read keep_version b n" if b: "set b \<subseteq> set (events (se_store two_sent))" "length b \<le> 2" for b n
  proof -
    let ?js = "map (\<lambda>x. the (toJSONEventWithVersion x)) b"
    have v: "\<exists>k \<le> 3. jv_Version j = nat_dec k" if "j \<in> set ?js" for j
    proof -
      from that b(1) obtain ev where "ev \<in> set (events three_log)" "j = the (toJSONEventWithVersion ev)" by (auto simp: two_sent_def)
      with log_entry_json [OF three_log_ok(1)] obtain q where "jv_Version j = u64_dec q" "unat q \<le> 3" using three_log_ok(2) by force
      then show ?thesis by (auto simp: u64_dec_def)
    qed
    let ?t = "map (\<lambda>j. char_of (48 + dec_val (jv_Version j))) ?js"
    have ch: "c \<noteq> CHR '','' \<and> c \<noteq> CHR 0x0A" if c: "c \<in> set ?t" for c
    proof -
      obtain j where "j \<in> set ?js" "c = char_of (48 + dec_val (jv_Version j))" using c unfolding set_map [of _ ?js] by blast
      then have "(of_char c :: nat) \<ge> 48 \<and> (of_char c :: nat) \<le> 51" using v [of j] by auto
      then show ?thesis by auto
    qed
    have "CHR '','' \<notin> set ?t" using ch by blast
    then have "takeWhile (\<lambda>c. c \<noteq> CHR '','') (drop 10 (sse_payload ?t w)) = ?t" for w by (rule payload_events)
    moreover have "\<lparr>jv_Event = sample_je, jv_Version = nat_dec (byte_of (char_of (48 + dec_val (jv_Version j))) - 48)\<rparr> = keep_version j" if "j \<in> set ?js" for j
      using v [OF that] by (auto simp: keep_version_def byte_of_def)
    ultimately have "sse_read (sse_payload ?t w) = Inr (map keep_version ?js)" for w
      by (simp add: sse_read_def)
    then show ?thesis using ch b(2) by (auto simp: sse_carries_def sse_json_def comp_def)
  qed
  have keep: "jv_Version (keep_version j) = jv_Version j" for j by (simp add: keep_version_def)
  obtain m bss where m: "consumeStream sse_read (\<lambda>h evs. Some (h @ evs, None)) (\<lambda>_. None) (concat (se_out two_sent), io_EOF) [] = Some (foldl (@) [] bss, None)"
      "concat bss = map (sse_received keep_version) (take m (drop 0 (events (se_store two_sent))))" "se_cur two_sent = Some (Integer_cursor (of_nat (0 + m)))"
      "map ev_Version (concat bss) = map (\<lambda>i. Some (IntegerCursor (if i \<le> 2 then of_nat i else 0))) [Suc 0..<Suc (0 + m)]"
    using sse_client_receives [OF two_sent_reached three_log_ok(1) _ _ _ carr keep, where f = "(@)" and h = "[]"] len by auto
  have "length (map ev_Version (concat bss)) = m" unfolding m(4) by simp
  then have "m \<le> 3" using len m(2) by simp
  have "(2 :: u64) = of_nat m" using m(3) by (simp add: two_sent_def)
  then have "unat (2 :: u64) = m" using \<open>m \<le> 3\<close> unat_of_nat64 [of m] by simp
  then have "m = 2" by simp
  moreover have "foldl (@) zs bss = zs @ concat bss" for zs by (induction bss arbitrary: zs) auto
  ultimately show ?thesis using m(1,4) by (simp add: upt_rec)
qed

theorem sse_first_poll_panics_witness:
  "\<exists>r. new_request None ''GET'' (''http://h'' @ ''/sse'') [] [] = Inr r \<and> sse_iterate sse_json default_codecs (sse_NewServer memstore_ops) three_log None None None = None"
proof -
  have "\<not> list_ex is_ctl (''http://h'' @ ''/sse'')" by (simp add: is_ctl_def byte_of_def)
  then obtain r where r: "new_request None ''GET'' (''http://h'' @ ''/sse'') [] [] = Inr r" by (simp add: new_request_def)
  have "\<not> closed three_log" using three_log_ok(1) by (simp add: log_ok_def)
  then show ?thesis using sse_first_poll_panics [OF r, of three_log "\<lambda>_. Inl io_EOF" default_codecs sse_json] r by blast
qed

definition refused_attempt :: sse_attempt where
  "refused_attempt = \<lparr>at_ctx = None, at_conn = ConnFailed (ErrorString ''connection refused''), at_after = None, at_pause = None\<rparr>"

theorem sse_backoff_witness:
  "\<exists>res ds. Subscribe_sse ''http://h'' sse_read (\<lambda>h evs. Some (h @ evs, None)) (replicate 8 refused_attempt) [] = Some ([], res, ds)
    \<and> ds ! 6 = 16000 * milli \<and> maxDelay < ds ! 6"
proof -
  have f: "\<forall>a \<in> set (replicate 8 refused_attempt). failing a" "\<not> list_ex is_ctl ''http://h''"
    by (auto simp: failing_def refused_attempt_def is_ctl_def byte_of_def)
  obtain res ds where run: "Subscribe_sse ''http://h'' sse_read (\<lambda>h evs. Some (h @ evs, None)) (replicate 8 refused_attempt) [] = Some ([], res, ds)"
    using failing_pauses [OF f, of firstDelay 0 sse_read "\<lambda>h evs. Some (h @ evs, None)" "[]"] unfolding Subscribe_sse_def by auto
  have "ds = map (\<lambda>i. firstDelay * 2 ^ min i 6) [0..<length (replicate 8 refused_attempt)]" "maxDelay < firstDelay * 2 ^ 6"
    using sse_backoff [OF run] f by auto
  then have "ds ! 6 = firstDelay * 2 ^ 6" by (simp del: upt_Suc)
  then show ?thesis using run \<open>maxDelay < firstDelay * 2 ^ 6\<close> by (auto simp: firstDelay_def)
qed

end
