(* ===== verification/Sql_Reference.thy ===== *)
theory Sql_Reference
  imports Sql_Database
begin

text \<open>
  A database that keeps the documented behaviour of \<open>Sql_Database\<close>: a table, a counter for versions and the open transactions. It reads the texts of the statements: a query is
  answered by finding the conditions whose text it is. With \<open>single\<close> only one transaction at a time can write. The interpretations show that the laws can hold, for any treatment of JSON texts, in the
  dialects of both stores.
\<close>

section \<open>State and operations\<close>

record ref_db =
  rd_rows :: "sql_row list"
  rd_next :: nat
  rd_txs :: "nat \<Rightarrow> sql_row list option"
  rd_tid :: nat

definition ref_empty :: ref_db where
  "ref_empty = \<lparr>rd_rows = [], rd_next = 1, rd_txs = (\<lambda>_. None), rd_tid = 0\<rparr>"

definition ref_Begin :: "ref_db \<Rightarrow> go_error option \<Rightarrow> ref_db \<times> (go_error + nat)" where
  "ref_Begin d c = (case c of Some e \<Rightarrow> (d, Inl e)
     | None \<Rightarrow> (d\<lparr>rd_txs := (rd_txs d)(rd_tid d \<mapsto> []), rd_tid := Suc (rd_tid d)\<rparr>, Inr (rd_tid d)))"

definition ref_busy :: "ref_db \<Rightarrow> nat \<Rightarrow> bool" where
  "ref_busy d t \<longleftrightarrow> list_ex (\<lambda>t'. t' \<noteq> t \<and> rd_txs d t' \<notin> {None, Some []}) [0..<rd_tid d]"

fun value_text :: "sql_value \<Rightarrow> string option" where
  "value_text (SqlText s) = Some s"
| "value_text (SqlBytes s) = Some s"
| "value_text (SqlInt _) = None"

definition ref_row :: "(string \<Rightarrow> string) \<Rightarrow> nat \<Rightarrow> sql_value list \<Rightarrow> sql_row option" where
  "ref_row norm n vs = (case map value_text vs of
       [Some i, Some a, Some ty, Some js, Some md] \<Rightarrow> Some \<lparr>r_version = of_nat n, r_id = i, r_aggregate_id = a, r_event_type = ty,
         r_data = Some (norm js), r_metadata = Some (norm md)\<rparr>
     | _ \<Rightarrow> None)"

definition id_taken :: "ref_db \<Rightarrow> string \<Rightarrow> bool" where
  "id_taken d i \<longleftrightarrow> i \<in> r_id ` set (rd_rows d) \<or> list_ex (\<lambda>t. case rd_txs d t of None \<Rightarrow> False | Some ps \<Rightarrow> i \<in> r_id ` set ps) [0..<rd_tid d]"

definition ref_Exec ::
  "bool \<Rightarrow> sql_dialect \<Rightarrow> (string \<Rightarrow> string) \<Rightarrow> ref_db \<Rightarrow> nat \<Rightarrow> go_error option \<Rightarrow> string \<Rightarrow> sql_value list \<Rightarrow> ref_db \<times> go_error option" where
  "ref_Exec single di norm d t c q vs = (case (c, rd_txs d t) of
       (Some e, _) \<Rightarrow> (d, Some e)
     | (None, None) \<Rightarrow> (d, Some (ErrorString ''sql: transaction has already been committed or rolled back''))
     | (None, Some ps) \<Rightarrow>
         if single \<and> ref_busy d t then (d, Some (ErrorString ''database is locked''))
         else if q \<noteq> insert_text di \<or> int (rd_next d) \<ge> 2 ^ 63 then (d, Some (ErrorString ''SQL logic error''))
         else (case ref_row norm (rd_next d) vs of
                 None \<Rightarrow> (d, Some (ErrorString ''SQL logic error''))
               | Some r \<Rightarrow>
                   if id_taken d (r_id r) then (d, Some (ErrorString ''UNIQUE constraint failed: events.id''))
                   else (d\<lparr>rd_txs := (rd_txs d)(t \<mapsto> ps @ [r]), rd_next := Suc (rd_next d)\<rparr>, None)))"

definition ref_Commit :: "ref_db \<Rightarrow> nat \<Rightarrow> ref_db \<times> go_error option" where
  "ref_Commit d t = (case rd_txs d t of
       None \<Rightarrow> (d, Some (ErrorString ''sql: transaction has already been committed or rolled back''))
     | Some ps \<Rightarrow> (d\<lparr>rd_rows := sort_key (\<lambda>r. sint (r_version r)) (rd_rows d @ ps), rd_txs := (rd_txs d)(t := None)\<rparr>, None))"

definition ref_Rollback :: "ref_db \<Rightarrow> nat \<Rightarrow> ref_db \<times> go_error option" where
  "ref_Rollback d t = (d\<lparr>rd_txs := (rd_txs d)(t := None)\<rparr>,
     if rd_txs d t = None then Some (ErrorString ''sql: transaction has already been committed or rolled back'') else None)"

fun conds_of :: "sql_value \<Rightarrow> sql_cond list" where
  "conds_of (SqlInt v) = [CAfter v]"
| "conds_of (SqlText s) = [CAggregate s, CType s, CTenant s]"
| "conds_of (SqlBytes s) = []"

definition ref_Query ::
  "sql_dialect \<Rightarrow> (string option \<Rightarrow> string option) \<Rightarrow> ref_db \<Rightarrow> go_error option \<Rightarrow> string \<Rightarrow> sql_value list
     \<Rightarrow> go_error + ((go_error + sql_row) list \<times> go_error option)" where
  "ref_Query di tenant d c q vs = (case c of
       Some e \<Rightarrow> Inl e
     | None \<Rightarrow> (case filter (\<lambda>cs. select_text di cs = q) (product_lists (map conds_of vs)) of
         [] \<Rightarrow> Inl (ErrorString ''SQL logic error'')
       | cs # _ \<Rightarrow> Inr (map Inr (filter (\<lambda>r. list_all (cond_holds tenant r) cs) (rd_rows d)), None)))"

definition ref_ops :: "bool \<Rightarrow> sql_dialect \<Rightarrow> (string \<Rightarrow> string) \<Rightarrow> (string option \<Rightarrow> string option) \<Rightarrow> ref_db sql_ops" where
  "ref_ops single di norm tenant = \<lparr>sq_Begin = ref_Begin, sq_Exec = ref_Exec single di norm, sq_Prepare = (\<lambda>d t c q. (d, None)), sq_Commit = ref_Commit,
     sq_Rollback = ref_Rollback, sq_Query = ref_Query di tenant,
     sq_QueryInt = (\<lambda>d c q. case c of Some e \<Rightarrow> Inl e
       | None \<Rightarrow> Inr (if rd_rows d = [] then None else Some (r_version (last (rd_rows d))))),
     sq_ExecDB = (\<lambda>d q. (d, None)), sq_SetPool = (\<lambda>d a b e f. d), sq_Ping = (\<lambda>d. (d, None)), sq_Close = (\<lambda>d. (d, None))\<rparr>"

section \<open>Invariant\<close>

definition apart :: "sql_row \<Rightarrow> sql_row \<Rightarrow> bool" where
  "apart a b \<longleftrightarrow> r_id a \<noteq> r_id b \<and> sint (r_version a) \<noteq> sint (r_version b)"

definition ref_valid :: "ref_db \<Rightarrow> bool" where
  "ref_valid d \<longleftrightarrow> sorted_wrt later (rd_rows d) \<and> distinct (map r_id (rd_rows d)) \<and> 0 < rd_next d \<and> rd_next d \<le> 2 ^ 63
     \<and> (\<forall>r \<in> set (rd_rows d). 0 < sint (r_version r) \<and> sint (r_version r) < int (rd_next d))
     \<and> (\<forall>t ps. rd_txs d t = Some ps \<longrightarrow> t < rd_tid d \<and> sorted_wrt later ps \<and> distinct (map r_id ps)
          \<and> (\<forall>p \<in> set ps. 0 < sint (r_version p) \<and> sint (r_version p) < int (rd_next d) \<and> (\<forall>r \<in> set (rd_rows d). apart r p)))
     \<and> (\<forall>t t' ps ps'. t \<noteq> t' \<longrightarrow> rd_txs d t = Some ps \<longrightarrow> rd_txs d t' = Some ps' \<longrightarrow> (\<forall>p \<in> set ps. \<forall>p' \<in> set ps'. apart p p'))"

lemma ref_valid_empty: "ref_valid ref_empty"
  by (simp add: ref_valid_def ref_empty_def)

lemma ref_valid_tx:
  assumes "ref_valid d" and "rd_txs d t = Some ps"
  shows "t < rd_tid d" "sorted_wrt later ps" "distinct (map r_id ps)" "p \<in> set ps \<Longrightarrow> 0 < sint (r_version p) \<and> sint (r_version p) < int (rd_next d)"
    "p \<in> set ps \<Longrightarrow> r \<in> set (rd_rows d) \<Longrightarrow> apart r p"
    "t \<noteq> t' \<Longrightarrow> rd_txs d t' = Some ps' \<Longrightarrow> p \<in> set ps \<Longrightarrow> p' \<in> set ps' \<Longrightarrow> apart p p'"
  using assms unfolding ref_valid_def by blast+

lemma ref_valid_rows:
  assumes "ref_valid d"
  shows "sorted_wrt later (rd_rows d)" "distinct (map r_id (rd_rows d))" "0 < rd_next d" "rd_next d \<le> 2 ^ 63"
    "r \<in> set (rd_rows d) \<Longrightarrow> 0 < sint (r_version r) \<and> sint (r_version r) < int (rd_next d)"
  using assms unfolding ref_valid_def by blast+

lemma version_of_counter: "0 < n \<Longrightarrow> n < 2 ^ 63 \<Longrightarrow> sint (of_nat n :: i64) = int n"
  using sint_of_int_i64 [of "int n"] by simp

lemma id_free:
  assumes "ref_valid d" and "\<not> id_taken d i"
  shows "i \<notin> r_id ` set (rd_rows d)" "rd_txs d t = Some ps \<Longrightarrow> i \<notin> r_id ` set ps"
proof -
  show "i \<notin> r_id ` set (rd_rows d)" using assms(2) by (simp add: id_taken_def)
  assume t: "rd_txs d t = Some ps"
  then have "t \<in> set [0..<rd_tid d]" using ref_valid_tx(1) [OF assms(1)] by simp
  moreover have "\<forall>t \<in> set [0..<rd_tid d]. \<not> (case rd_txs d t of None \<Rightarrow> False | Some ps \<Rightarrow> i \<in> r_id ` set ps)"
    using assms(2) by (simp add: id_taken_def list_ex_iff)
  ultimately have "\<not> (case rd_txs d t of None \<Rightarrow> False | Some ps \<Rightarrow> i \<in> r_id ` set ps)" by blast
  then show "i \<notin> r_id ` set ps" using t by simp
qed

lemma ref_Exec_ok:
  assumes "ref_valid d" and "ref_Exec single di norm d t c q vs = (d', None)"
  shows "\<exists>ps r. rd_txs d t = Some ps \<and> ref_row norm (rd_next d) vs = Some r \<and> \<not> id_taken d (r_id r) \<and> rd_next d < 2 ^ 63
    \<and> d' = d\<lparr>rd_txs := (rd_txs d)(t \<mapsto> ps @ [r]), rd_next := Suc (rd_next d)\<rparr>"
  using assms(2) by (auto simp: ref_Exec_def split: option.splits if_splits)

lemma ref_row_version: "ref_row norm n vs = Some r \<Longrightarrow> r_version r = of_nat n"
  by (auto simp: ref_row_def split: list.splits option.splits)

lemma ref_Exec_valid:
  assumes "ref_valid d" and "ref_Exec single di norm d t c q vs = (d', None)"
  shows "ref_valid d'"
proof -
  obtain ps r where e: "rd_txs d t = Some ps" "ref_row norm (rd_next d) vs = Some r" "\<not> id_taken d (r_id r)"
      "rd_next d < 2 ^ 63" "d' = d\<lparr>rd_txs := (rd_txs d)(t \<mapsto> ps @ [r]), rd_next := Suc (rd_next d)\<rparr>"
    using ref_Exec_ok [OF assms] by blast
  have v: "sint (r_version r) = int (rd_next d)"
    using ref_valid_rows(3) [OF assms(1)] e(4) ref_row_version [OF e(2)] version_of_counter [of "rd_next d"] by simp
  note rows = ref_valid_rows [OF assms(1)] and tx = ref_valid_tx [OF assms(1)] and free = id_free [OF assms(1) e(3)]
  have fresh: "apart x r" if w: "x \<in> set (rd_rows d) \<or> (\<exists>t' ps'. rd_txs d t' = Some ps' \<and> x \<in> set ps')" for x
  proof (cases "x \<in> set (rd_rows d)")
    case True
    then have "r_id x \<noteq> r_id r" using free(1) by (metis imageI)
    then show ?thesis using rows(5) [OF True] v by (simp add: apart_def)
  next
    case False
    then obtain t' ps' where x: "rd_txs d t' = Some ps'" "x \<in> set ps'" using w by blast
    then have "r_id x \<noteq> r_id r" using free(2) by (metis imageI)
    then show ?thesis using tx(4) [OF x] v by (simp add: apart_def)
  qed
  have old: "t' < rd_tid d \<and> sorted_wrt later ps' \<and> distinct (map r_id ps') \<and> (\<forall>p \<in> set ps'. 0 < sint (r_version p) \<and> sint (r_version p) < int (Suc (rd_next d))
      \<and> (\<forall>r \<in> set (rd_rows d). apart r p))" if "rd_txs d t' = Some ps'" for t' ps' using tx(1-5) [OF that] by fastforce
  have new: "sorted_wrt later (ps @ [r]) \<and> distinct (map r_id (ps @ [r])) \<and> (\<forall>p \<in> set (ps @ [r]). 0 < sint (r_version p) \<and> sint (r_version p) < int (Suc (rd_next d))
      \<and> (\<forall>r \<in> set (rd_rows d). apart r p))"
    using old [OF e(1)] tx(4) [OF e(1)] free(2) [OF e(1)] rows(3) fresh v by (auto simp: sorted_wrt_append later_def)
  have "rows_less": "0 < sint (r_version x) \<and> sint (r_version x) < int (Suc (rd_next d))" if "x \<in> set (rd_rows d)" for x using rows(5) [OF that] by simp
  have cross: "apart p p'" if "t1 \<noteq> t2" "rd_txs d' t1 = Some ps1" "rd_txs d' t2 = Some ps2" "p \<in> set ps1" "p' \<in> set ps2" for t1 t2 ps1 ps2 p p'
  proof -
    have sym: "apart a b \<Longrightarrow> apart b a" for a b by (auto simp: apart_def)
    show ?thesis
      using that tx(6) [OF e(1)] tx(6) [of t1 ps1 t2 ps2 p p'] fresh sym e(1) unfolding e(5)
      by (cases "t1 = t"; cases "t2 = t") (auto, metis+)
  qed
  have txs: "t' < rd_tid d \<and> sorted_wrt later ps' \<and> distinct (map r_id ps') \<and> (\<forall>p \<in> set ps'. 0 < sint (r_version p) \<and> sint (r_version p) < int (Suc (rd_next d))
      \<and> (\<forall>r \<in> set (rd_rows d). apart r p))" if "rd_txs d' t' = Some ps'" for t' ps'
    using that old new tx(1) [OF e(1)] by (cases "t' = t") (auto simp: e(5))
  have sel: "rd_rows d' = rd_rows d" "rd_next d' = Suc (rd_next d)" "rd_tid d' = rd_tid d" by (simp_all add: e(5))
  show ?thesis unfolding ref_valid_def sel using rows(1,2) rows_less txs cross e(4) by auto
qed

lemma sort_apart:
  assumes "sorted_wrt later rs" and "sorted_wrt later ps" and "\<And>r p. r \<in> set rs \<Longrightarrow> p \<in> set ps \<Longrightarrow> sint (r_version r) \<noteq> sint (r_version p)"
  shows "sorted_wrt later (sort_key (\<lambda>r. sint (r_version r)) (rs @ ps))"
proof -
  let ?f = "\<lambda>r. sint (r_version r)"
  have d: "sorted_wrt later xs \<Longrightarrow> distinct (map ?f xs)" for xs by (induction xs) (auto simp: later_def)
  have "distinct (map ?f (rs @ ps))" using d [OF assms(1)] d [OF assms(2)] assms(3) by force
  moreover have "mset (map ?f (sort_key ?f (rs @ ps))) = mset (map ?f (rs @ ps))" by simp
  ultimately have "distinct (map ?f (sort_key ?f (rs @ ps)))" using mset_eq_imp_distinct_iff by blast
  then have "sorted_wrt (<) (map ?f (sort_key ?f (rs @ ps)))" by (simp add: strict_sorted_iff)
  then show ?thesis by (simp add: sorted_wrt_map later_def [abs_def])
qed

lemma ref_Commit_valid:
  assumes "ref_valid d" and "rd_txs d t = Some ps"
  shows "ref_valid (d\<lparr>rd_rows := sort_key (\<lambda>r. sint (r_version r)) (rd_rows d @ ps), rd_txs := (rd_txs d)(t := None)\<rparr>)"
proof -
  note rows = ref_valid_rows [OF assms(1)] and mine = ref_valid_tx [OF assms] and tx = ref_valid_tx [OF assms(1)]
  let ?rs = "sort_key (\<lambda>r. sint (r_version r)) (rd_rows d @ ps)"
  have "sorted_wrt later ?rs" using mine(5) by (intro sort_apart rows(1) mine(2)) (auto simp: apart_def)
  moreover have "mset (map r_id ?rs) = mset (map r_id (rd_rows d @ ps))" by simp
  then have "distinct (map r_id ?rs) \<longleftrightarrow> distinct (map r_id (rd_rows d @ ps))" by (rule mset_eq_imp_distinct_iff)
  then have "distinct (map r_id ?rs)" using rows(2) mine(3,5) by (force simp: apart_def)
  moreover have "0 < sint (r_version r) \<and> sint (r_version r) < int (rd_next d)" if "r \<in> set ?rs" for r using that rows(5) mine(4) by auto
  moreover have "apart r p" if "r \<in> set ?rs" "t' \<noteq> t" "rd_txs d t' = Some ps'" "p \<in> set ps'" for r p t' ps'
    using that mine(6) [of t' ps' r p] tx(5) [OF that(3)] by auto
  ultimately show ?thesis using assms(1) rows(3,4) unfolding ref_valid_def by auto
qed

section \<open>Reading conditions back\<close>

definition good_dialect :: "sql_dialect \<Rightarrow> bool" where
  "good_dialect di \<longleftrightarrow> di_tenant di \<noteq> [] \<and> hd (di_tenant di) \<notin> {CHR ''v'', CHR ''a'', CHR ''e''}"

lemma cond_text_inject:
  assumes "good_dialect di" and "cond_arg c = cond_arg c'" and "cond_text di i c @ x = cond_text di i c' @ y"
  shows "c = c' \<and> x = y"
  using assms by (cases c; cases c') (auto simp: good_dialect_def neq_Nil_conv)

lemma conds_text_inject:
  assumes "good_dialect di" and "map cond_arg cs = map cond_arg cs'" and "conds_text di i cs @ x = conds_text di i cs' @ x"
  shows "cs = cs'"
  using assms(2,3)
proof (induction cs arbitrary: cs' i)
  case (Cons c cs)
  then obtain c' ds where c': "cs' = c' # ds" "cond_arg c = cond_arg c'" "map cond_arg cs = map cond_arg ds" by (cases cs') auto
  show ?case
  proof (cases cs)
    case Nil
    then have "ds = []" using c'(3) by simp
    with Nil c' Cons.prems(2) cond_text_inject [OF assms(1) c'(2), of i x x] show ?thesis by simp
  next
    case (Cons a as)
    then obtain b bs where b: "ds = b # bs" using c'(3) by (cases ds) auto
    have "cond_text di i c @ ('' AND '' @ conds_text di (Suc i) cs @ x) = cond_text di i c' @ ('' AND '' @ conds_text di (Suc i) ds @ x)"
      using Cons.prems(2) c'(1) Cons b by simp
    from cond_text_inject [OF assms(1) c'(2) this] show ?thesis using Cons.IH [OF c'(3), of "Suc i"] c'(1) by simp
  qed
qed simp

lemma conds_of_args: "cs \<in> set (product_lists (map conds_of (map cond_arg cs)))"
proof -
  have "c \<in> set (conds_of (cond_arg c))" for c by (cases c) auto
  then show ?thesis by (auto simp: product_lists_set list_all2_conv_all_nth)
qed

lemma conds_of_arg_of: "cs' \<in> set (product_lists (map conds_of vs)) \<Longrightarrow> map cond_arg cs' = vs"
proof -
  have "c \<in> set (conds_of v) \<Longrightarrow> cond_arg c = v" for c v by (cases v) auto
  then show "cs' \<in> set (product_lists (map conds_of vs)) \<Longrightarrow> map cond_arg cs' = vs"
    by (auto simp: product_lists_set list_all2_conv_all_nth intro!: nth_equalityI)
qed

lemma ref_Query_ok:
  assumes "good_dialect di"
  shows "ref_Query di tenant d None (select_text di cs) (map cond_arg cs) = Inr (map Inr (filter (\<lambda>r. list_all (cond_holds tenant r) cs) (rd_rows d)), None)"
proof -
  define f where "f = filter (\<lambda>cs'. select_text di cs' = select_text di cs) (product_lists (map conds_of (map cond_arg cs)))"
  have "cs' = cs" if "cs' \<in> set f" for cs'
    using that conds_text_inject [OF assms, of cs' cs 1 "'' ORDER BY version ASC''"] conds_of_arg_of [of cs' "map cond_arg cs"]
    by (simp add: select_text_def f_def)
  moreover have "cs \<in> set f" using conds_of_args [of cs] by (simp add: f_def)
  ultimately obtain zs where "f = cs # zs" by (cases f) auto
  then show ?thesis unfolding f_def by (simp add: ref_Query_def)
qed

section \<open>The laws\<close>

lemma ref_sure_commit:
  assumes "good_dialect di"
  shows "sql_sure_commit (ref_ops single di norm tenant) di ref_valid rd_rows rd_txs norm tenant"
proof unfold_locales
  show "ref_valid d \<Longrightarrow> sorted_wrt later (rd_rows d)" for d by (simp add: ref_valid_def)
  show "ref_valid d \<Longrightarrow> r \<in> set (rd_rows d) \<Longrightarrow> 0 < sint (r_version r)" for d r by (simp add: ref_valid_def)
  show "ref_valid d \<Longrightarrow> distinct (map r_id (rd_rows d))" for d by (simp add: ref_valid_def)
next
  fix d c d' t assume v: "ref_valid d" and "sq_Begin (ref_ops single di norm tenant) d c = (d', Inr t)"
  then have d': "t = rd_tid d" "d' = d\<lparr>rd_txs := (rd_txs d)(rd_tid d \<mapsto> []), rd_tid := Suc (rd_tid d)\<rparr>"
    by (auto simp: ref_ops_def ref_Begin_def split: option.splits)
  have n: "rd_txs d (rd_tid d) = None" using v by (cases "rd_txs d (rd_tid d)") (auto simp: ref_valid_def)
  have "ref_valid d'" using v unfolding d'(2) ref_valid_def by (auto simp: less_Suc_eq)
  then show "ref_valid d' \<and> rd_rows d' = rd_rows d \<and> rd_txs d t = None \<and> rd_txs d' = (rd_txs d)(t \<mapsto> [])" using d' n by simp
next
  fix d c d' e assume "ref_valid d" and "sq_Begin (ref_ops single di norm tenant) d c = (d', Inl e)"
  then show "ref_valid d' \<and> rd_rows d' = rd_rows d \<and> rd_txs d' = rd_txs d" by (auto simp: ref_ops_def ref_Begin_def split: option.splits)
next
  fix d t ps x js y md c i a ty d'
  assume v: "ref_valid d" and t: "rd_txs d t = Some ps" and xy: "x \<in> {SqlText js, SqlBytes js}" "y \<in> {SqlText md, SqlBytes md}"
    and "sq_Exec (ref_ops single di norm tenant) d t c (insert_text di) [SqlText i, SqlText a, SqlText ty, x, y] = (d', None)"
  then have ex: "ref_Exec single di norm d t c (insert_text di) [SqlText i, SqlText a, SqlText ty, x, y] = (d', None)" by (simp add: ref_ops_def)
  let ?r = "\<lparr>r_version = of_nat (rd_next d), r_id = i, r_aggregate_id = a, r_event_type = ty, r_data = Some (norm js), r_metadata = Some (norm md)\<rparr>"
  have row: "ref_row norm (rd_next d) [SqlText i, SqlText a, SqlText ty, x, y] = Some ?r" using xy by (auto simp: ref_row_def)
  from ref_Exec_ok [OF v ex] row t have e: "\<not> id_taken d i" "rd_next d < 2 ^ 63"
      "d' = d\<lparr>rd_txs := (rd_txs d)(t \<mapsto> ps @ [?r]), rd_next := Suc (rd_next d)\<rparr>" by auto
  have nx: "sint (of_nat (rd_next d) :: i64) = int (rd_next d)" using v e(2) version_of_counter by (simp add: ref_valid_def)
  have lt: "\<forall>r \<in> set (rd_rows d). sint (r_version r) < int (rd_next d)" "\<forall>t' ps'. rd_txs d t' = Some ps' \<longrightarrow> (\<forall>r \<in> set ps'. sint (r_version r) < int (rd_next d))"
    "0 < rd_next d" using v unfolding ref_valid_def by blast+
  show "\<exists>v. ref_valid d' \<and> rd_rows d' = rd_rows d \<and> 0 < sint v \<and> i \<notin> r_id ` set (rd_rows d) \<and> (\<forall>r \<in> set (rd_rows d). sint (r_version r) < sint v) \<and>
      (\<forall>t' ps'. rd_txs d t' = Some ps' \<longrightarrow> (\<forall>r \<in> set ps'. sint (r_version r) < sint v)) \<and>
      rd_txs d' = (rd_txs d)(t \<mapsto> ps @ [\<lparr>r_version = v, r_id = i, r_aggregate_id = a, r_event_type = ty, r_data = Some (norm js), r_metadata = Some (norm md)\<rparr>])"
    using ref_Exec_valid [OF v ex] e lt nx id_free(1) [OF v e(1)] by (intro exI [of _ "of_nat (rd_next d)"]) simp
next
  fix d t c q vs d' e assume v: "ref_valid d" and "sq_Exec (ref_ops single di norm tenant) d t c q vs = (d', Some e)"
  then have "d' = d" by (auto simp: ref_ops_def ref_Exec_def split: option.splits if_splits)
  then show "ref_valid d' \<and> rd_rows d' = rd_rows d \<and> rd_txs d' = rd_txs d" using v by simp
next
  fix d t c q d' er assume "ref_valid d" and "sq_Prepare (ref_ops single di norm tenant) d t c q = (d', er)"
  then show "ref_valid d' \<and> rd_rows d' = rd_rows d \<and> rd_txs d' = rd_txs d" by (simp add: ref_ops_def)
next
  fix d t ps d' assume v: "ref_valid d" and t: "rd_txs d t = Some ps" and "sq_Commit (ref_ops single di norm tenant) d t = (d', None)"
  then have d': "d' = d\<lparr>rd_rows := sort_key (\<lambda>r. sint (r_version r)) (rd_rows d @ ps), rd_txs := (rd_txs d)(t := None)\<rparr>" by (simp add: ref_ops_def ref_Commit_def)
  then show "ref_valid d' \<and> rd_rows d' = sort_key (\<lambda>r. sint (r_version r)) (rd_rows d @ ps) \<and> rd_txs d' = (rd_txs d)(t := None)"
    using ref_Commit_valid [OF v t] d' by simp
next
  fix d t ps d' e assume "ref_valid d" and "rd_txs d t = Some ps" and "sq_Commit (ref_ops single di norm tenant) d t = (d', Some e)"
  then show "ref_valid d' \<and> rd_rows d' \<in> {rd_rows d, sort_key (\<lambda>r. sint (r_version r)) (rd_rows d @ ps)} \<and> rd_txs d' = (rd_txs d)(t := None)"
    by (simp add: ref_ops_def ref_Commit_def)
next
  fix d t d' er assume v: "ref_valid d" and "sq_Rollback (ref_ops single di norm tenant) d t = (d', er)"
  then have d': "d' = d\<lparr>rd_txs := (rd_txs d)(t := None)\<rparr>" by (simp add: ref_ops_def ref_Rollback_def)
  have "ref_valid d'" using v unfolding d' ref_valid_def by auto
  then show "ref_valid d' \<and> rd_rows d' = rd_rows d \<and> rd_txs d' = (rd_txs d)(t := None)" using d' by simp
next
  fix d cs c rows assume "sq_Query (ref_ops single di norm tenant) d c (select_text di cs) (map cond_arg cs) = Inr (rows, None)"
  then show "(\<exists>e. Inl e \<in> set rows) \<or> rows = map Inr (filter (\<lambda>r. list_all (cond_holds tenant r) cs) (rd_rows d))"
    using ref_Query_ok [OF assms, of tenant d cs] by (cases c) (auto simp: ref_ops_def ref_Query_def)
next
  fix d c m assume "sq_QueryInt (ref_ops single di norm tenant) d c max_text = Inr m"
  then show "m = (if rd_rows d = [] then None else Some (r_version (last (rd_rows d))))" by (cases c) (auto simp: ref_ops_def)
next
  fix d t ps d' e assume "rd_txs d t = Some ps" and "sq_Commit (ref_ops single di norm tenant) d t = (d', Some e)"
  then show "rd_rows d' = rd_rows d" by (simp add: ref_ops_def ref_Commit_def)
qed

lemma ref_single_writer:
  assumes "good_dialect di"
  shows "sql_single_writer (ref_ops True di norm tenant) di ref_valid rd_rows rd_txs norm tenant"
proof (intro sql_single_writer.intro sql_single_writer_axioms.intro)
  show "sql_sure_commit (ref_ops True di norm tenant) di ref_valid rd_rows rd_txs norm tenant" by (rule ref_sure_commit) (rule assms)
next
  fix d t' ps t c vs assume "ref_valid d" and "rd_txs d t' = Some ps" and "ps \<noteq> []" and "t \<noteq> t'"
  then have "ref_busy d t" by (auto simp: ref_busy_def list_ex_iff ref_valid_def intro!: bexI [of _ t'])
  then show "\<exists>d' e. sq_Exec (ref_ops True di norm tenant) d t c (insert_text di) vs = (d', Some e)"
    by (auto simp: ref_ops_def ref_Exec_def split: option.splits)
qed

end
