(* ===== verification/Sqlite_Store.thy ===== *)
theory Sqlite_Store
  imports Sql_Reference
begin

text \<open>
  The SQLite store (storage/sqlite/store.go) over the operations of a database: configuration, opening with its pragmas and schema, storing in a transaction, batches, loading with
  queries built from the filters, closing. \<open>sql_env\<close> holds what the store gets from outside: \<open>json.Marshal\<close> of payloads and metadata, \<open>json.Unmarshal\<close> of metadata,
  and for a context with a deadline the time left at the two readings of the clock, with the text of a duration. A deferred rollback happens exactly when the variable \<open>err\<close> of the function
  is not nil, which inside the loop of \<open>StoreBatch\<close> another variable hides. Log output is left out.
\<close>

section \<open>Configuration\<close>

record sqlite_config =
  DataSourceName :: string
  EnableWAL :: bool
  TableName :: string
  MaxOpenConns :: int
  MaxIdleConns :: int
  ConnMaxLifetime :: int
  ConnMaxIdleTime :: int

definition minute :: int where
  "minute = 60 * second"

definition hour :: int where
  "hour = 60 * minute"

definition sqlite_setDefaults :: "sqlite_config \<Rightarrow> sqlite_config" where
  "sqlite_setDefaults c =
     c\<lparr>TableName := (if TableName c = [] then ''events'' else TableName c),
       MaxOpenConns := (if MaxOpenConns c = 0 then 25 else MaxOpenConns c),
       MaxIdleConns := (if MaxIdleConns c = 0 then 5 else MaxIdleConns c),
       ConnMaxLifetime := (if ConnMaxLifetime c = 0 then hour else ConnMaxLifetime c),
       ConnMaxIdleTime := (if ConnMaxIdleTime c = 0 then 5 * minute else ConnMaxIdleTime c),
       DataSourceName := (if EnableWAL c \<and> \<not> str_contains (DataSourceName c) ''?_journal_mode=''
         then DataSourceName c @ ''?_journal_mode=WAL'' else DataSourceName c)\<rparr>"

definition sqlite_DefaultConfig :: "string \<Rightarrow> sqlite_config" where
  "sqlite_DefaultConfig dsn = sqlite_setDefaults
     \<lparr>DataSourceName = dsn, EnableWAL = True, TableName = [], MaxOpenConns = 0, MaxIdleConns = 0, ConnMaxLifetime = 0, ConnMaxIdleTime = 0\<rparr>"

section \<open>Opening\<close>

record 'd sqlite_store =
  sl_db :: 'd
  sl_closed :: bool
  sl_tableName :: string

definition sqlite_pragmas :: "sqlite_config \<Rightarrow> (string \<times> string) list" where
  "sqlite_pragmas cfg = (if EnableWAL cfg then [(''PRAGMA journal_mode = WAL;'', ''failed to set WAL mode: '')] else [])
     @ [(''PRAGMA busy_timeout = 5000;'', ''failed to set busy timeout: ''), (''PRAGMA synchronous = NORMAL;'', ''failed to set synchronous mode: ''),
        (''PRAGMA temp_store = MEMORY;'', ''failed to set temp store: ''), (''PRAGMA cache_size = -20000;'', ''failed to set cache size: '')]"

fun exec_each :: "'d sql_ops \<Rightarrow> (string \<times> string) list \<Rightarrow> 'd \<Rightarrow> 'd \<times> go_error option" where
  "exec_each ops [] d = (d, None)"
| "exec_each ops ((q, msg) # qs) d = (case sq_ExecDB ops d q of
     (d', Some err) \<Rightarrow> (d', Some (WrapError msg err)) | (d', None) \<Rightarrow> exec_each ops qs d')"

definition applyPragmaSettings :: "'d sql_ops \<Rightarrow> sqlite_config \<Rightarrow> 'd \<Rightarrow> 'd \<times> go_error option" where
  "applyPragmaSettings ops cfg d = exec_each ops (sqlite_pragmas cfg) d"

text \<open>The text of the schema, one statement after the other, with single spaces for the white space of the source.\<close>

definition sqlite_schema :: "string list" where
  "sqlite_schema =
     [''CREATE TABLE IF NOT EXISTS events (version INTEGER PRIMARY KEY AUTOINCREMENT, id TEXT NOT NULL UNIQUE, aggregate_id TEXT NOT NULL, event_type TEXT NOT NULL, data TEXT, metadata TEXT, created_at TIMESTAMP DEFAULT CURRENT_TIMESTAMP);'',
      ''CREATE INDEX IF NOT EXISTS idx_aggregate_id ON events (aggregate_id);'', ''CREATE INDEX IF NOT EXISTS idx_version ON events (version);'',
      ''CREATE INDEX IF NOT EXISTS idx_created_at ON events (created_at);'']"

definition sqlite_setupSchema :: "'d sql_ops \<Rightarrow> 'd \<Rightarrow> 'd \<times> go_error option" where
  "sqlite_setupSchema ops d = sq_ExecDB ops d (concat sqlite_schema)"

definition pool_value :: "int \<Rightarrow> int \<Rightarrow> int" where
  "pool_value n dflt = (if n > 0 then n else dflt)"

definition sqlite_New ::
  "'d sql_ops \<Rightarrow> (string \<Rightarrow> go_error + 'd) \<Rightarrow> sqlite_config option \<Rightarrow> go_error + 'd sqlite_store" where
  "sqlite_New ops sql_Open config = (case config of
       None \<Rightarrow> Inl (ErrorString ''config cannot be nil'')
     | Some c0 \<Rightarrow>
         let c = sqlite_setDefaults c0 in
         if DataSourceName c = [] then Inl (ErrorString ''DataSourceName is required'')
         else (case sql_Open (DataSourceName c) of
           Inl err \<Rightarrow> Inl (WrapError ''failed to open sqlite database: '' err)
         | Inr d0 \<Rightarrow> (case applyPragmaSettings ops c d0 of
             (_, Some err) \<Rightarrow> Inl (WrapError ''failed to apply PRAGMA settings: '' err)
           | (d1, None) \<Rightarrow>
               let d2 = sq_SetPool ops d1 (pool_value (MaxOpenConns c) 25) (pool_value (MaxIdleConns c) 5) (pool_value (ConnMaxLifetime c) hour)
                          (pool_value (ConnMaxIdleTime c) (5 * minute))
               in (case sq_Ping ops d2 of
                     (_, Some err) \<Rightarrow> Inl (WrapError ''failed to connect to sqlite database: '' err)
                   | (d3, None) \<Rightarrow> (case sqlite_setupSchema ops d3 of
                       (_, Some err) \<Rightarrow> Inl (WrapError ''failed to setup database schema: '' err)
                     | (d4, None) \<Rightarrow> Inr \<lparr>sl_db = d4, sl_closed = False, sl_tableName = TableName c\<rparr>)))))"

definition NewWithDataSource :: "'d sql_ops \<Rightarrow> (string \<Rightarrow> go_error + 'd) \<Rightarrow> string \<Rightarrow> go_error + 'd sqlite_store" where
  "NewWithDataSource ops sql_Open dsn = sqlite_New ops sql_Open (Some (sqlite_DefaultConfig dsn))"

section \<open>Events and rows\<close>

record sql_env =
  sv_json :: "go_any \<Rightarrow> go_error + string"
  sv_json_md :: "metadata \<Rightarrow> go_error + string"
  sv_unjson :: "string \<Rightarrow> metadata"
  sv_left :: "(int \<times> int) option"
  sv_dur :: "int \<Rightarrow> string"

text \<open>A value of type \<open>json.RawMessage\<close>: its identity is that of its text.\<close>

definition text_number :: "string \<Rightarrow> nat" where
  "text_number s = foldr (\<lambda>c n. Suc (of_char c) + 257 * n) s 0"

definition RawMessage :: "string \<Rightarrow> go_any" where
  "RawMessage s = GOther ''json.RawMessage'' (text_number s) (sprintf_v (GBytes (string_bytes s))) False"

definition StoredEvent :: "sql_env \<Rightarrow> sql_row \<Rightarrow> event" where
  "StoredEvent env r = \<lparr>EventID = r_id r, EventType = r_event_type r, EventAggregateID = r_aggregate_id r,
     EventData = RawMessage (case r_data r of None \<Rightarrow> [] | Some s \<Rightarrow> s),
     EventMetadata = (case r_metadata r of None \<Rightarrow> None | Some m \<Rightarrow> sv_unjson env m), Timestamp = 0, Offset = 0, ClockSlot = NoClock\<rparr>"

definition row_event :: "sql_env \<Rightarrow> sql_row \<Rightarrow> event_with_version" where
  "row_event env r = \<lparr>ev_Event = Some (StoredEvent env r), ev_Version = Some (IntegerCursor (r_version r))\<rparr>"

fun scan_rows :: "sql_env \<Rightarrow> (go_error + sql_row) list \<Rightarrow> go_error + event_with_version list" where
  "scan_rows env [] = Inr []"
| "scan_rows env (Inl err # rows) = Inl (WrapError ''failed to scan event row: '' err)"
| "scan_rows env (Inr r # rows) = (case scan_rows env rows of Inl err \<Rightarrow> Inl err | Inr evs \<Rightarrow> Inr (row_event env r # evs))"

definition scanEvents :: "sql_env \<Rightarrow> (go_error + sql_row) list \<times> go_error option \<Rightarrow> go_error + event_with_version list" where
  "scanEvents env res = (case scan_rows env (fst res) of
       Inl err \<Rightarrow> Inl err
     | Inr evs \<Rightarrow> (case snd res of Some err \<Rightarrow> Inl (WrapError ''error during row iteration: '' err) | None \<Rightarrow> Inr evs))"

section \<open>Storing\<close>

definition sqlite_dialect :: sql_dialect where
  "sqlite_dialect = \<lparr>di_arg = (\<lambda>_. ''?''), di_tenant = ''json_extract(metadata, '' @ [CHR 0x27] @ ''$.tenant'' @ [CHR 0x27] @ '')''\<rparr>"

definition deadline_error :: "sql_env \<Rightarrow> go_error option" where
  "deadline_error env = (case sv_left env of
       None \<Rightarrow> None
     | Some (left, left') \<Rightarrow> if left < second then Some (ErrorString (''context deadline too close: '' @ sv_dur env left' @ '' remaining'')) else None)"

definition sqlite_component :: string where
  "sqlite_component = ''storage/sqlite''"

text \<open>The transaction of \<open>Store\<close> up to the commit: the state of the database and the final value of \<open>err\<close>.\<close>

definition insert_event :: "sql_env \<Rightarrow> 'd sql_ops \<Rightarrow> go_error option \<Rightarrow> nat \<Rightarrow> event \<Rightarrow> 'd \<Rightarrow> 'd \<times> go_error option" where
  "insert_event env ops ctx t e d = (case sv_json env (EventData e) of
       Inl err \<Rightarrow> (d, Some err)
     | Inr dataJSON \<Rightarrow> (case sv_json_md env (EventMetadata e) of
         Inl err \<Rightarrow> (d, Some err)
       | Inr metadataJSON \<Rightarrow> (case sq_Exec ops d t ctx ''INSERT INTO events (id, aggregate_id, event_type, data, metadata) VALUES (?, ?, ?, ?, ?)''
             [SqlText (EventID e), SqlText (EventAggregateID e), SqlText (EventType e), SqlText dataJSON, SqlText metadataJSON] of
           (d', Some err) \<Rightarrow> (d', Some err)
         | (d', None) \<Rightarrow> sq_Commit ops d' t)))"

definition Store_sqlite ::
  "sql_env \<Rightarrow> 'd sql_ops \<Rightarrow> 'd sqlite_store \<Rightarrow> go_error option \<Rightarrow> event option \<Rightarrow> version option \<Rightarrow> ('d sqlite_store \<times> go_error option) go" where
  "Store_sqlite env ops s ctx evt version =
     (if ctx \<noteq> None then Some (s, ctx)
      else if deadline_error env \<noteq> None then Some (s, deadline_error env)
      else if sl_closed s then Some (s, Some err_closed)
      else (case sq_Begin ops (sl_db s) ctx of
        (d, Inl err) \<Rightarrow> Some (s\<lparr>sl_db := d\<rparr>, WrapOpComponent (Some err) ''sqlite.Store'' sqlite_component)
      | (d, Inr t) \<Rightarrow> do {
          e \<leftarrow> evt;
          Some (case insert_event env ops ctx t e d of
             (d', None) \<Rightarrow> (s\<lparr>sl_db := d'\<rparr>, None)
           | (d', Some err) \<Rightarrow> (s\<lparr>sl_db := fst (sq_Rollback ops d' t)\<rparr>, WrapOpComponent (Some err) ''sqlite.Store'' sqlite_component)) }))"

text \<open>The loop of \<open>StoreBatch\<close>: its own \<open>err\<close> is returned, the one that the deferred function looks at stays nil.\<close>

fun batch_insert ::
  "sql_env \<Rightarrow> 'd sql_ops \<Rightarrow> go_error option \<Rightarrow> nat \<Rightarrow> event_with_version list \<Rightarrow> 'd \<Rightarrow> ('d \<times> go_error option) go" where
  "batch_insert env ops ctx t [] d = Some (d, None)"
| "batch_insert env ops ctx t (ev # evs) d = do {
     e \<leftarrow> ev_Event ev;
     (case sv_json env (EventData e) of
        Inl err \<Rightarrow> Some (d, Some (WrapError ''failed to marshal event data: '' err))
      | Inr dataJSON \<Rightarrow> (case sv_json_md env (EventMetadata e) of
          Inl err \<Rightarrow> Some (d, Some (WrapError ''failed to marshal event metadata: '' err))
        | Inr metadataJSON \<Rightarrow> (case sq_Exec ops d t ctx ''INSERT INTO events (id, aggregate_id, event_type, data, metadata) VALUES (?, ?, ?, ?, ?)''
              [SqlText (EventID e), SqlText (EventAggregateID e), SqlText (EventType e), SqlText dataJSON, SqlText metadataJSON] of
            (d', Some err) \<Rightarrow> Some (d', Some (WrapError ''failed to insert event: '' err))
          | (d', None) \<Rightarrow> batch_insert env ops ctx t evs d'))) }"

definition StoreBatch_sqlite ::
  "sql_env \<Rightarrow> 'd sql_ops \<Rightarrow> 'd sqlite_store \<Rightarrow> go_error option \<Rightarrow> event_with_version list \<Rightarrow> ('d sqlite_store \<times> go_error option) go" where
  "StoreBatch_sqlite env ops s ctx evs =
     (if deadline_error env \<noteq> None then Some (s, deadline_error env)
      else if sl_closed s then Some (s, Some err_closed)
      else if evs = [] then Some (s, None)
      else (case sq_Begin ops (sl_db s) ctx of
        (d, Inl err) \<Rightarrow> Some (s\<lparr>sl_db := d\<rparr>, Some (WrapError ''failed to begin batch transaction: '' err))
      | (d, Inr t) \<Rightarrow> (case sq_Prepare ops d t ctx ''INSERT INTO events (id, aggregate_id, event_type, data, metadata) VALUES (?, ?, ?, ?, ?)'' of
          (d1, Some err) \<Rightarrow> Some (s\<lparr>sl_db := fst (sq_Rollback ops d1 t)\<rparr>, Some (WrapError ''failed to prepare batch statement: '' err))
        | (d1, None) \<Rightarrow> do {
            (d2, loopErr) \<leftarrow> batch_insert env ops ctx t evs d1;
            Some (case loopErr of
               Some err \<Rightarrow> (s\<lparr>sl_db := d2\<rparr>, Some err)
             | None \<Rightarrow> (case sq_Commit ops d2 t of
                 (d3, Some err) \<Rightarrow> (s\<lparr>sl_db := fst (sq_Rollback ops d3 t)\<rparr>, Some (WrapError ''failed to commit batch transaction: '' err))
               | (d3, None) \<Rightarrow> (s\<lparr>sl_db := d3\<rparr>, None))) })))"

section \<open>Loading\<close>

text \<open>One optional filter appended to the text and the arguments of a query.\<close>

definition add_clause :: "(string, string) fmap \<Rightarrow> string \<Rightarrow> string \<Rightarrow> string \<times> sql_value list \<Rightarrow> string \<times> sql_value list" where
  "add_clause filters k clause q = (case fmlookup filters k of None \<Rightarrow> q | Some v \<Rightarrow> (fst q @ clause, snd q @ [SqlText v]))"

definition tenant_clause :: string where
  "tenant_clause = '' AND json_extract(metadata, '' @ [CHR 0x27] @ ''$.tenant'' @ [CHR 0x27] @ '') = ?''"

definition sqlite_load_query :: "u64 \<Rightarrow> (string, string) fmap \<Rightarrow> string \<times> sql_value list" where
  "sqlite_load_query q filters =
     (let q0 = (''SELECT version, id, aggregate_id, event_type, data, metadata FROM events WHERE version > ?'', [SqlInt q]);
          q1 = add_clause filters ''type'' '' AND event_type = ?'' q0;
          q2 = add_clause filters ''aggregate_id'' '' AND aggregate_id = ?'' q1;
          q3 = add_clause filters ''tenant'' tenant_clause q2
      in (fst q3 @ '' ORDER BY version ASC'', snd q3))"

definition sqlite_aggregate_query :: "string \<Rightarrow> u64 \<Rightarrow> (string, string) fmap \<Rightarrow> string \<times> sql_value list" where
  "sqlite_aggregate_query aggregateID q filters =
     (let q0 = (''SELECT version, id, aggregate_id, event_type, data, metadata FROM events WHERE aggregate_id = ? AND version > ?'', [SqlText aggregateID, SqlInt q]);
          q1 = add_clause filters ''type'' '' AND event_type = ?'' q0;
          q2 = add_clause filters ''tenant'' tenant_clause q1
      in (fst q2 @ '' ORDER BY version ASC'', snd q2))"

definition sqlite_run_query ::
  "sql_env \<Rightarrow> 'd sql_ops \<Rightarrow> 'd sqlite_store \<Rightarrow> go_error option \<Rightarrow> string \<Rightarrow> string \<times> sql_value list \<Rightarrow> go_error + event_with_version list" where
  "sqlite_run_query env ops s ctx op q = (case sq_Query ops (sl_db s) ctx (fst q) (snd q) of
       Inl err \<Rightarrow> Inl (the (WrapOpComponent (Some err) op sqlite_component))
     | Inr res \<Rightarrow> scanEvents env res)"

definition Load_sqlite ::
  "sql_env \<Rightarrow> 'd sql_ops \<Rightarrow> 'd sqlite_store \<Rightarrow> go_error option \<Rightarrow> version option \<Rightarrow> filter_kv list \<Rightarrow> (go_error + event_with_version list) go" where
  "Load_sqlite env ops s ctx since filters =
     (if sl_closed s then Some (Inl err_closed)
      else do {
        r \<leftarrow> since_seq since;
        Some (case r of
           Inl e \<Rightarrow> Inl e
         | Inr q \<Rightarrow> sqlite_run_query env ops s ctx ''sqlite.Load'' (sqlite_load_query q (filter_map filters))) })"

definition LoadByAggregate_sqlite ::
  "sql_env \<Rightarrow> 'd sql_ops \<Rightarrow> 'd sqlite_store \<Rightarrow> go_error option \<Rightarrow> string \<Rightarrow> version option \<Rightarrow> filter_kv list
     \<Rightarrow> (go_error + event_with_version list) go" where
  "LoadByAggregate_sqlite env ops s ctx aggregateID since filters =
     (if sl_closed s then Some (Inl err_closed)
      else do {
        r \<leftarrow> since_seq since;
        Some (case r of
           Inl e \<Rightarrow> Inl e
         | Inr q \<Rightarrow> sqlite_run_query env ops s ctx ''sqlite.LoadByAggregate'' (sqlite_aggregate_query aggregateID q (filter_map filters))) })"

definition LatestVersion_sqlite :: "'d sql_ops \<Rightarrow> 'd sqlite_store \<Rightarrow> go_error option \<Rightarrow> go_error + version option" where
  "LatestVersion_sqlite ops s ctx =
     (if sl_closed s then Inl err_closed
      else (case sq_QueryInt ops (sl_db s) ctx ''SELECT MAX(version) FROM events'' of
        Inl err \<Rightarrow> Inl (the (WrapOpComponent (Some err) ''sqlite.LatestVersion'' sqlite_component))
      | Inr None \<Rightarrow> Inr (Some (IntegerCursor 0))
      | Inr (Some v) \<Rightarrow> Inr (Some (IntegerCursor v))))"

definition ParseVersion_sqlite :: "string \<Rightarrow> go_error + version option" where
  "ParseVersion_sqlite versionStr =
     (if versionStr = [] \<or> versionStr = ''0'' then Inr (Some (IntegerCursor 0))
      else (case ParseInt versionStr of
        Inl err \<Rightarrow> Inl (WrapError (''invalid integer version string '' @ [CHR 0x27] @ versionStr @ [CHR 0x27] @ '': '') err)
      | Inr v \<Rightarrow> Inr (Some (IntegerCursor (of_int v)))))"

definition Close_sqlite :: "'d sql_ops \<Rightarrow> 'd sqlite_store \<Rightarrow> 'd sqlite_store \<times> go_error option" where
  "Close_sqlite ops s = (if sl_closed s then (s, None)
     else (case sq_Close ops (sl_db s) of (d, err) \<Rightarrow> (s\<lparr>sl_closed := True, sl_db := d\<rparr>, err)))"

definition sqlite_ops :: "sql_env \<Rightarrow> 'd sql_ops \<Rightarrow> 'd sqlite_store store_ops" where
  "sqlite_ops env ops = \<lparr>st_Store = Store_sqlite env ops, st_Load = (\<lambda>s c v. Load_sqlite env ops s c v []),
     st_LoadByAggregate = (\<lambda>s c a v. LoadByAggregate_sqlite env ops s c a v []),
     st_LatestVersion = (\<lambda>s c. Some (LatestVersion_sqlite ops s c)), st_ParseVersion = (\<lambda>s c txt. Some (ParseVersion_sqlite txt)),
     st_Close = (\<lambda>s. Some (Close_sqlite ops s))\<rparr>"

section \<open>Texts of the queries\<close>

lemma sqlite_insert_text: "insert_text sqlite_dialect = ''INSERT INTO events (id, aggregate_id, event_type, data, metadata) VALUES (?, ?, ?, ?, ?)''"
  by (simp add: insert_text_def sqlite_dialect_def)

definition opt_cond :: "(string, string) fmap \<Rightarrow> string \<Rightarrow> (string \<Rightarrow> sql_cond) \<Rightarrow> sql_cond list" where
  "opt_cond filters k f = (case fmlookup filters k of None \<Rightarrow> [] | Some v \<Rightarrow> [f v])"

definition load_conds :: "u64 \<Rightarrow> (string, string) fmap \<Rightarrow> sql_cond list" where
  "load_conds q filters = CAfter q # opt_cond filters ''type'' CType @ opt_cond filters ''aggregate_id'' CAggregate @ opt_cond filters ''tenant'' CTenant"

definition aggregate_conds :: "string \<Rightarrow> u64 \<Rightarrow> (string, string) fmap \<Rightarrow> sql_cond list" where
  "aggregate_conds a q filters = CAggregate a # CAfter q # opt_cond filters ''type'' CType @ opt_cond filters ''tenant'' CTenant"

lemma sqlite_load_query_text: "sqlite_load_query q filters = (select_text sqlite_dialect (load_conds q filters), map cond_arg (load_conds q filters))"
  by (cases "fmlookup filters ''type''"; cases "fmlookup filters ''aggregate_id''"; cases "fmlookup filters ''tenant''")
    (simp_all add: sqlite_load_query_def add_clause_def load_conds_def opt_cond_def select_text_def sqlite_dialect_def tenant_clause_def Let_def)

lemma sqlite_aggregate_query_text:
  "sqlite_aggregate_query a q filters = (select_text sqlite_dialect (aggregate_conds a q filters), map cond_arg (aggregate_conds a q filters))"
  by (cases "fmlookup filters ''type''"; cases "fmlookup filters ''tenant''")
    (simp_all add: sqlite_aggregate_query_def add_clause_def aggregate_conds_def opt_cond_def select_text_def sqlite_dialect_def tenant_clause_def Let_def)

lemma scanEvents_ok: "scanEvents env (map Inr rows, None) = Inr (map (row_event env) rows)"
  by (induction rows) (auto simp: scanEvents_def split: sum.splits)

lemma scanEvents_Inr:
  assumes "scanEvents env res = Inr evs"
  shows "\<exists>rows. res = (map Inr rows, None) \<and> evs = map (row_event env) rows"
proof -
  have "scan_rows env rs = Inr evs' \<Longrightarrow> \<exists>rows. rs = map Inr rows \<and> evs' = map (row_event env) rows" for rs evs'
  proof (induction rs arbitrary: evs')
    case (Cons x rs)
    then show ?case by (cases x) (auto split: sum.splits, metis list.simps(9))
  qed simp
  then show ?thesis using assms by (cases res) (auto simp: scanEvents_def split: sum.splits option.splits)
qed

end
