(* ===== verification/Postgres_Store.thy ===== *)
theory Postgres_Store
  imports Sqlite_Store
begin

text \<open>
  The PostgreSQL store (storage/postgres/store.go), over the same operations of a database as the SQLite store: configuration, masking of connection strings, opening, storing,
  batches, loading, closing. It differs from the SQLite store in its dialect, its error values and in the notification listener that it owns (a parameter here, modelled in
  \<open>Pg_Listener\<close>). Events, rows and \<open>sql_env\<close> are shared. A failed commit may have taken effect on the server.
\<close>

section \<open>Configuration\<close>

record pg_config =
  pg_ConnectionString :: string
  pg_TableName :: string
  pg_MaxOpenConns :: int
  pg_MaxIdleConns :: int
  pg_ConnMaxLifetime :: int
  pg_ConnMaxIdleTime :: int
  pg_NotificationTimeout :: int
  pg_ReconnectInterval :: int
  pg_MaxReconnectAttempts :: int
  pg_BatchSize :: int
  pg_EnablePreparedStmts :: bool
  pg_EnableMetrics :: bool

definition or_default :: "int \<Rightarrow> int \<Rightarrow> int" where
  "or_default n dflt = (if n = 0 then dflt else n)"

definition pg_setDefaults :: "pg_config \<Rightarrow> pg_config" where
  "pg_setDefaults c =
     c\<lparr>pg_TableName := (if pg_TableName c = [] then ''events'' else pg_TableName c),
       pg_MaxOpenConns := or_default (pg_MaxOpenConns c) 25,
       pg_MaxIdleConns := or_default (pg_MaxIdleConns c) 10,
       pg_ConnMaxLifetime := or_default (pg_ConnMaxLifetime c) hour,
       pg_ConnMaxIdleTime := or_default (pg_ConnMaxIdleTime c) (15 * minute),
       pg_NotificationTimeout := or_default (pg_NotificationTimeout c) (30 * second),
       pg_ReconnectInterval := or_default (pg_ReconnectInterval c) (5 * second),
       pg_MaxReconnectAttempts := or_default (pg_MaxReconnectAttempts c) 10,
       pg_BatchSize := or_default (pg_BatchSize c) 1000,
       pg_EnablePreparedStmts := (if \<not> pg_EnablePreparedStmts c then True else pg_EnablePreparedStmts c)\<rparr>"

definition pg_DefaultConfig :: "string \<Rightarrow> pg_config" where
  "pg_DefaultConfig connectionString = pg_setDefaults
     \<lparr>pg_ConnectionString = connectionString, pg_TableName = [], pg_MaxOpenConns = 0, pg_MaxIdleConns = 0, pg_ConnMaxLifetime = 0, pg_ConnMaxIdleTime = 0,
      pg_NotificationTimeout = 0, pg_ReconnectInterval = 0, pg_MaxReconnectAttempts = 0, pg_BatchSize = 0, pg_EnablePreparedStmts = False, pg_EnableMetrics = False\<rparr>"

text \<open>\<open>strings.Split\<close> at single characters.\<close>

fun split_char :: "char \<Rightarrow> string \<Rightarrow> string list" where
  "split_char c [] = [[]]"
| "split_char c (x # s) = (if x = c then [] # split_char c s else (case split_char c s of p # ps \<Rightarrow> (x # p) # ps | [] \<Rightarrow> [[x]]))"

definition maskConnectionString :: "string \<Rightarrow> string" where
  "maskConnectionString connStr =
     (if str_contains connStr ''password=''
      then join '' '' (map (\<lambda>part. if has_prefix part ''password='' then ''password=***'' else part) (split_char (CHR '' '') connStr))
      else connStr)"

section \<open>Opening and closing\<close>

text \<open>\<open>'l\<close> is the notification listener; the text of the schema is an argument of \<open>setupSchema\<close>.\<close>

record ('d, 'l) pg_store =
  pg_db :: 'd
  pg_closed :: bool
  pg_conf :: pg_config
  pg_listener :: "'l option"

definition pg_setupSchema :: "'d sql_ops \<Rightarrow> string \<Rightarrow> 'd \<Rightarrow> 'd \<times> go_error option" where
  "pg_setupSchema ops migrationSQL d = sq_ExecDB ops d migrationSQL"

definition pg_New ::
  "'d sql_ops \<Rightarrow> string \<Rightarrow> (string \<Rightarrow> go_error + 'd) \<Rightarrow> (string \<Rightarrow> go_error + 'l) \<Rightarrow> pg_config option \<Rightarrow> go_error + ('d, 'l) pg_store" where
  "pg_New ops migrationSQL sql_Open newListener config = (case config of
       None \<Rightarrow> Inl (ErrorString ''config cannot be nil'')
     | Some c0 \<Rightarrow>
         let c = pg_setDefaults c0 in
         if pg_ConnectionString c = [] then Inl (ErrorString ''ConnectionString is required'')
         else (case sql_Open (pg_ConnectionString c) of
           Inl err \<Rightarrow> Inl (WrapError ''failed to open postgres database: '' err)
         | Inr d0 \<Rightarrow>
             let d1 = sq_SetPool ops d0 (pg_MaxOpenConns c) (pg_MaxIdleConns c) (pg_ConnMaxLifetime c) (pg_ConnMaxIdleTime c)
             in (case sq_Ping ops d1 of
                   (_, Some err) \<Rightarrow> Inl (WrapError ''failed to connect to postgres database: '' err)
                 | (d2, None) \<Rightarrow> (case pg_setupSchema ops migrationSQL d2 of
                     (_, Some err) \<Rightarrow> Inl (WrapError ''failed to setup database schema: '' err)
                   | (d3, None) \<Rightarrow> (case newListener (pg_ConnectionString c) of
                       Inl err \<Rightarrow> Inl (WrapError ''failed to create notification listener: '' err)
                     | Inr l \<Rightarrow> Inr \<lparr>pg_db = d3, pg_closed = False, pg_conf = c, pg_listener = Some l\<rparr>)))))"

definition Close_pg :: "'d sql_ops \<Rightarrow> ('l \<Rightarrow> 'l \<times> go_error option) \<Rightarrow> ('d, 'l) pg_store \<Rightarrow> ('d, 'l) pg_store \<times> go_error option" where
  "Close_pg ops closeListener s = (if pg_closed s then (s, None)
     else (case sq_Close ops (pg_db s) of (d, err) \<Rightarrow>
       (s\<lparr>pg_closed := True, pg_listener := map_option (\<lambda>l. fst (closeListener l)) (pg_listener s), pg_db := d\<rparr>, err)))"

section \<open>Storing\<close>

definition pg_dialect :: sql_dialect where
  "pg_dialect = \<lparr>di_arg = (\<lambda>i. CHR ''$'' # nat_dec i), di_tenant = ''metadata->>'' @ [CHR 0x27] @ ''tenant'' @ [CHR 0x27]\<rparr>"

definition pg_insert :: string where
  "pg_insert = ''INSERT INTO events (id, aggregate_id, event_type, data, metadata) VALUES ($1, $2, $3, $4, $5)''"

definition pg_error :: "string \<Rightarrow> string \<Rightarrow> go_error \<Rightarrow> go_error" where
  "pg_error op msg err = NewWithComponent op ''postgres'' (WrapError msg err)"

text \<open>The transaction of \<open>Store\<close>: the state of the database, the final value of \<open>err\<close> and the text it is wrapped with.\<close>

definition pg_insert_event :: "sql_env \<Rightarrow> 'd sql_ops \<Rightarrow> go_error option \<Rightarrow> nat \<Rightarrow> event \<Rightarrow> 'd \<Rightarrow> 'd \<times> go_error option \<times> string" where
  "pg_insert_event env ops ctx t e d = (case sv_json env (EventData e) of
       Inl err \<Rightarrow> (d, Some err, ''failed to marshal event data: '')
     | Inr dataJSON \<Rightarrow> (case sv_json_md env (EventMetadata e) of
         Inl err \<Rightarrow> (d, Some err, ''failed to marshal event metadata: '')
       | Inr metadataJSON \<Rightarrow> (case sq_Exec ops d t ctx pg_insert
             [SqlText (EventID e), SqlText (EventAggregateID e), SqlText (EventType e), SqlBytes dataJSON, SqlBytes metadataJSON] of
           (d', Some err) \<Rightarrow> (d', Some err, ''failed to insert event: '')
         | (d', None) \<Rightarrow> (case sq_Commit ops d' t of (d'', err) \<Rightarrow> (d'', err, ''failed to commit transaction: '')))))"

definition Store_pg ::
  "sql_env \<Rightarrow> 'd sql_ops \<Rightarrow> ('d, 'l) pg_store \<Rightarrow> go_error option \<Rightarrow> event option \<Rightarrow> version option \<Rightarrow> (('d, 'l) pg_store \<times> go_error option) go" where
  "Store_pg env ops s ctx evt version =
     (if ctx \<noteq> None then Some (s, ctx)
      else if deadline_error env \<noteq> None then Some (s, deadline_error env)
      else if pg_closed s then Some (s, Some err_closed)
      else (case sq_Begin ops (pg_db s) ctx of
        (d, Inl err) \<Rightarrow> Some (s\<lparr>pg_db := d\<rparr>, Some (pg_error OpStore ''failed to begin transaction: '' err))
      | (d, Inr t) \<Rightarrow> do {
          e \<leftarrow> evt;
          Some (case pg_insert_event env ops ctx t e d of
             (d', None, _) \<Rightarrow> (s\<lparr>pg_db := d'\<rparr>, None)
           | (d', Some err, msg) \<Rightarrow> (s\<lparr>pg_db := fst (sq_Rollback ops d' t)\<rparr>, Some (pg_error OpStore msg err))) }))"

fun pg_batch_insert ::
  "sql_env \<Rightarrow> 'd sql_ops \<Rightarrow> go_error option \<Rightarrow> nat \<Rightarrow> event_with_version list \<Rightarrow> 'd \<Rightarrow> ('d \<times> go_error option) go" where
  "pg_batch_insert env ops ctx t [] d = Some (d, None)"
| "pg_batch_insert env ops ctx t (ev # evs) d = do {
     e \<leftarrow> ev_Event ev;
     (case sv_json env (EventData e) of
        Inl err \<Rightarrow> Some (d, Some (WrapError ''failed to marshal event data: '' err))
      | Inr dataJSON \<Rightarrow> (case sv_json_md env (EventMetadata e) of
          Inl err \<Rightarrow> Some (d, Some (WrapError ''failed to marshal event metadata: '' err))
        | Inr metadataJSON \<Rightarrow> (case sq_Exec ops d t ctx pg_insert
              [SqlText (EventID e), SqlText (EventAggregateID e), SqlText (EventType e), SqlBytes dataJSON, SqlBytes metadataJSON] of
            (d', Some err) \<Rightarrow> Some (d', Some (WrapError ''failed to insert event: '' err))
          | (d', None) \<Rightarrow> pg_batch_insert env ops ctx t evs d'))) }"

definition StoreBatch_pg ::
  "sql_env \<Rightarrow> 'd sql_ops \<Rightarrow> ('d, 'l) pg_store \<Rightarrow> go_error option \<Rightarrow> event_with_version list \<Rightarrow> (('d, 'l) pg_store \<times> go_error option) go" where
  "StoreBatch_pg env ops s ctx evs =
     (if deadline_error env \<noteq> None then Some (s, deadline_error env)
      else if pg_closed s then Some (s, Some err_closed)
      else if evs = [] then Some (s, None)
      else (case sq_Begin ops (pg_db s) ctx of
        (d, Inl err) \<Rightarrow> Some (s\<lparr>pg_db := d\<rparr>, Some (WrapError ''failed to begin batch transaction: '' err))
      | (d, Inr t) \<Rightarrow> (case sq_Prepare ops d t ctx pg_insert of
          (d1, Some err) \<Rightarrow> Some (s\<lparr>pg_db := fst (sq_Rollback ops d1 t)\<rparr>, Some (WrapError ''failed to prepare batch statement: '' err))
        | (d1, None) \<Rightarrow> do {
            (d2, loopErr) \<leftarrow> pg_batch_insert env ops ctx t evs d1;
            Some (case loopErr of
               Some err \<Rightarrow> (s\<lparr>pg_db := d2\<rparr>, Some err)
             | None \<Rightarrow> (case sq_Commit ops d2 t of
                 (d3, Some err) \<Rightarrow> (s\<lparr>pg_db := fst (sq_Rollback ops d3 t)\<rparr>, Some (WrapError ''failed to commit batch transaction: '' err))
               | (d3, None) \<Rightarrow> (s\<lparr>pg_db := d3\<rparr>, None))) })))"

section \<open>Loading\<close>

text \<open>A query under construction: text, arguments and the number of the next argument.\<close>

definition pg_clause :: "(string, string) fmap \<Rightarrow> string \<Rightarrow> string \<Rightarrow> string \<times> sql_value list \<times> nat \<Rightarrow> string \<times> sql_value list \<times> nat" where
  "pg_clause filters k clause q = (case q of (txt, args, i) \<Rightarrow>
     (case fmlookup filters k of None \<Rightarrow> q | Some v \<Rightarrow> (txt @ clause @ CHR ''$'' # nat_dec i, args @ [SqlText v], Suc i)))"

definition pg_tenant_clause :: string where
  "pg_tenant_clause = '' AND metadata->>'' @ [CHR 0x27] @ ''tenant'' @ [CHR 0x27] @ '' = ''"

definition pg_load_query :: "u64 \<Rightarrow> (string, string) fmap \<Rightarrow> string \<times> sql_value list" where
  "pg_load_query q filters =
     (let q0 = (''SELECT version, id, aggregate_id, event_type, data, metadata FROM events WHERE version > $1'', [SqlInt q], 2);
          q1 = pg_clause filters ''type'' '' AND event_type = '' q0;
          q2 = pg_clause filters ''aggregate_id'' '' AND aggregate_id = '' q1;
          (txt, args, i) = pg_clause filters ''tenant'' pg_tenant_clause q2
      in (txt @ '' ORDER BY version ASC'', args))"

definition pg_aggregate_query :: "string \<Rightarrow> u64 \<Rightarrow> (string, string) fmap \<Rightarrow> string \<times> sql_value list" where
  "pg_aggregate_query aggregateID q filters =
     (let q0 = (''SELECT version, id, aggregate_id, event_type, data, metadata FROM events WHERE aggregate_id = $1 AND version > $2'', [SqlText aggregateID, SqlInt q], 3);
          q1 = pg_clause filters ''type'' '' AND event_type = '' q0;
          (txt, args, i) = pg_clause filters ''tenant'' pg_tenant_clause q1
      in (txt @ '' ORDER BY version ASC'', args))"

fun pg_scan_rows :: "sql_env \<Rightarrow> (go_error + sql_row) list \<Rightarrow> go_error + event_with_version list" where
  "pg_scan_rows env [] = Inr []"
| "pg_scan_rows env (Inl err # rows) = Inl (WrapError ''failed to scan event row: '' err)"
| "pg_scan_rows env (Inr r # rows) = (case pg_scan_rows env rows of Inl err \<Rightarrow> Inl err | Inr evs \<Rightarrow> Inr (row_event env r # evs))"

definition pg_scanEvents :: "sql_env \<Rightarrow> (go_error + sql_row) list \<times> go_error option \<Rightarrow> go_error + event_with_version list" where
  "pg_scanEvents env res = (case pg_scan_rows env (fst res) of
       Inl err \<Rightarrow> Inl err
     | Inr evs \<Rightarrow> (case snd res of Some err \<Rightarrow> Inl (WrapError ''error during row iteration: '' err) | None \<Rightarrow> Inr evs))"

definition pg_run_query ::
  "sql_env \<Rightarrow> 'd sql_ops \<Rightarrow> ('d, 'l) pg_store \<Rightarrow> go_error option \<Rightarrow> string \<Rightarrow> string \<times> sql_value list \<Rightarrow> go_error + event_with_version list" where
  "pg_run_query env ops s ctx msg q = (case sq_Query ops (pg_db s) ctx (fst q) (snd q) of
       Inl err \<Rightarrow> Inl (pg_error OpLoad msg err)
     | Inr res \<Rightarrow> pg_scanEvents env res)"

definition Load_pg ::
  "sql_env \<Rightarrow> 'd sql_ops \<Rightarrow> ('d, 'l) pg_store \<Rightarrow> go_error option \<Rightarrow> version option \<Rightarrow> filter_kv list \<Rightarrow> (go_error + event_with_version list) go" where
  "Load_pg env ops s ctx since filters =
     (if pg_closed s then Some (Inl err_closed)
      else do {
        r \<leftarrow> since_seq since;
        Some (case r of
           Inl e \<Rightarrow> Inl e
         | Inr q \<Rightarrow> pg_run_query env ops s ctx ''failed to query events: '' (pg_load_query q (filter_map filters))) })"

definition LoadByAggregate_pg ::
  "sql_env \<Rightarrow> 'd sql_ops \<Rightarrow> ('d, 'l) pg_store \<Rightarrow> go_error option \<Rightarrow> string \<Rightarrow> version option \<Rightarrow> filter_kv list
     \<Rightarrow> (go_error + event_with_version list) go" where
  "LoadByAggregate_pg env ops s ctx aggregateID since filters =
     (if pg_closed s then Some (Inl err_closed)
      else do {
        r \<leftarrow> since_seq since;
        Some (case r of
           Inl e \<Rightarrow> Inl e
         | Inr q \<Rightarrow> pg_run_query env ops s ctx ''failed to query events by aggregate: '' (pg_aggregate_query aggregateID q (filter_map filters))) })"

definition LatestVersion_pg :: "'d sql_ops \<Rightarrow> ('d, 'l) pg_store \<Rightarrow> go_error option \<Rightarrow> go_error + version option" where
  "LatestVersion_pg ops s ctx =
     (if pg_closed s then Inl err_closed
      else (case sq_QueryInt ops (pg_db s) ctx ''SELECT MAX(version) FROM events'' of
        Inl err \<Rightarrow> Inl (pg_error OpLoad ''failed to query latest version: '' err)
      | Inr None \<Rightarrow> Inr (Some (IntegerCursor 0))
      | Inr (Some v) \<Rightarrow> Inr (Some (IntegerCursor v))))"

definition ParseVersion_pg :: "string \<Rightarrow> go_error + version option" where
  "ParseVersion_pg versionStr =
     (if versionStr = [] \<or> versionStr = ''0'' then Inr (Some (IntegerCursor 0))
      else (case ParseInt versionStr of
        Inl err \<Rightarrow> Inl (WrapError (''invalid integer version string '' @ [CHR 0x27] @ versionStr @ [CHR 0x27] @ '': '') err)
      | Inr v \<Rightarrow> Inr (Some (IntegerCursor (of_int v)))))"

section \<open>Lemmas\<close>

lemma nat_dec_digit: "nat_dec (Suc 0) = ''1''" "nat_dec 2 = ''2''" "nat_dec 3 = ''3''" "nat_dec 4 = ''4''" "nat_dec 5 = ''5''"
  "nat_dec (Suc (Suc 0)) = ''2''" "nat_dec (Suc (Suc (Suc 0))) = ''3''" "nat_dec (Suc (Suc (Suc (Suc 0)))) = ''4''"
  by code_simp+

lemma pg_insert_text: "insert_text pg_dialect = pg_insert"
  by (simp add: insert_text_def pg_dialect_def pg_insert_def nat_dec_digit)

lemma pg_load_query_text: "pg_load_query q filters = (select_text pg_dialect (load_conds q filters), map cond_arg (load_conds q filters))"
  by (cases "fmlookup filters ''type''"; cases "fmlookup filters ''aggregate_id''"; cases "fmlookup filters ''tenant''")
    (simp_all add: pg_load_query_def pg_clause_def load_conds_def opt_cond_def select_text_def pg_dialect_def pg_tenant_clause_def Let_def nat_dec_digit)

lemma pg_aggregate_query_text:
  "pg_aggregate_query a q filters = (select_text pg_dialect (aggregate_conds a q filters), map cond_arg (aggregate_conds a q filters))"
  by (cases "fmlookup filters ''type''"; cases "fmlookup filters ''tenant''")
    (simp_all add: pg_aggregate_query_def pg_clause_def aggregate_conds_def opt_cond_def select_text_def pg_dialect_def pg_tenant_clause_def Let_def
      nat_dec_digit)

lemma pg_scanEvents_same: "pg_scanEvents env res = scanEvents env res"
proof -
  have "pg_scan_rows env rows = scan_rows env rows" for rows by (induction env rows rule: pg_scan_rows.induct) simp_all
  then show ?thesis by (simp add: pg_scanEvents_def scanEvents_def)
qed

end
