(* ===== verification/Sqlite_Properties.thy ===== *)
theory Sqlite_Properties
  imports Sqlite_Store
begin

text \<open>
  What the SQLite store guarantees over a database with the documented behaviour: it keeps the contract of an event store, loads exactly the rows asked for, stores a batch
  completely or not at all; and that a failed batch leaves its transaction open, which blocks all later writers.
\<close>

section \<open>One event\<close>

definition row_for :: "sql_env \<Rightarrow> (string \<Rightarrow> string) \<Rightarrow> event \<Rightarrow> sql_row \<Rightarrow> bool" where
  "row_for env norm e r \<longleftrightarrow> r_id r = EventID e \<and> r_aggregate_id r = EventAggregateID e \<and> r_event_type r = EventType e
     \<and> (\<exists>js md. sv_json env (EventData e) = Inr js \<and> sv_json_md env (EventMetadata e) = Inr md \<and> r_data r = Some (norm js) \<and> r_metadata r = Some (norm md))"

context sql_database
begin

lemma insert_event_cases:
  assumes "inserted d t []" and "insert_event env ops c t e d = (d', err)" and "di = sqlite_dialect"
  shows "valid d' \<and> (\<exists>r. row_for env norm e r \<and> r_id r \<notin> r_id ` set (tbl d) \<and> err = None \<and> tbl d' = tbl d @ [r] \<and> pend d' = (pend d)(t := None))
    \<or> valid d' \<and> err \<noteq> None \<and> tbl d' = tbl d \<and> pend d' = pend d
    \<or> valid d' \<and> (\<exists>r dc e'. row_for env norm e r \<and> sq_Commit ops dc t = (d', Some e') \<and> inserted dc t [r] \<and> tbl dc = tbl d \<and> pend dc = (pend d)(t \<mapsto> [r]))
       \<and> err \<noteq> None \<and> pend d' = (pend d)(t := None)"
proof (cases "(\<exists>js. sv_json env (EventData e) = Inr js) \<and> (\<exists>md. sv_json_md env (EventMetadata e) = Inr md)")
  case False
  then have "d' = d" "err \<noteq> None" using assms(2) by (auto simp: insert_event_def split: sum.splits)
  then show ?thesis using assms(1) by (auto simp: inserted_def)
next
  case True
  then obtain js md where j: "sv_json env (EventData e) = Inr js" "sv_json_md env (EventMetadata e) = Inr md" by blast
  obtain d1 e1 where ex: "sq_Exec ops d t c (insert_text di) [SqlText (EventID e), SqlText (EventAggregateID e), SqlText (EventType e), SqlText js, SqlText md] = (d1, e1)"
    by fastforce
  have v: "valid d" "pend d t = Some []" using assms(1) by (simp_all add: inserted_def)
  show ?thesis
  proof (cases e1)
    case (Some x)
    then have "d' = d1" "err = Some x" using assms(2) j ex sqlite_insert_text assms(3) by (auto simp: insert_event_def)
    then show ?thesis using exec_fails [OF v(1)] ex Some by auto
  next
    case None
    let ?r = "\<lambda>v. \<lparr>r_version = v, r_id = EventID e, r_aggregate_id = EventAggregateID e, r_event_type = EventType e, r_data = Some (norm js), r_metadata = Some (norm md)\<rparr>"
    obtain n where n: "inserted d1 t ([] @ [?r n])" "tbl d1 = tbl d" "EventID e \<notin> r_id ` set (tbl d)"
      using inserted_exec [OF assms(1), of "SqlText js" js "SqlText md" md] ex None by blast
    have p1: "pend d1 = (pend d)(t \<mapsto> [?r n])"
    proof -
      have "\<exists>v. pend d1 = (pend d)(t \<mapsto> [?r v])" using insert_ok [OF v, of "SqlText js" js "SqlText md" md] ex None by fastforce
      then show ?thesis using n(1) by (auto simp: inserted_def)
    qed
    have row: "row_for env norm e (?r n)" using j by (auto simp: row_for_def)
    have cm: "sq_Commit ops d1 t = (d', err)" using assms(2,3) j ex None sqlite_insert_text by (simp add: insert_event_def)
    show ?thesis
    proof (cases err)
      case None
      then have "valid d' \<and> tbl d' = tbl d @ [?r n] \<and> pend d' = (pend d)(t := None)"
        using inserted_commit [OF n(1), of d'] cm n(2) p1 by auto
      then show ?thesis using row n(3) None by (intro disjI1 conjI exI [of _ "?r n"]) auto
    next
      case (Some x)
      then have "valid d' \<and> pend d' = (pend d)(t := None)" using inserted_in_doubt [OF n(1), of d' x] cm p1 by auto
      then show ?thesis using row cm Some n(1,2) p1 by (intro disjI2 conjI exI [of _ "?r n"] exI [of _ d1] exI [of _ x]) auto
    qed
  qed
qed

lemma Store_sqlite_outcome:
  assumes "valid (sl_db s)" and "Store_sqlite env ops s c evt v = Some (s', err)" and "di = sqlite_dialect"
  shows "valid (sl_db s') \<and> pend (sl_db s') = pend (sl_db s) \<and> sl_closed s' = sl_closed s \<and>
    (if err = None then \<exists>e r. evt = Some e \<and> row_for env norm e r \<and> r_id r \<notin> r_id ` set (tbl (sl_db s)) \<and> tbl (sl_db s') = tbl (sl_db s) @ [r]
     else tbl (sl_db s') = tbl (sl_db s) \<or> (\<exists>dc t d' e' r. inserted dc t [r] \<and> tbl dc = tbl (sl_db s) \<and> sq_Commit ops dc t = (d', Some e') \<and> tbl (sl_db s') = tbl d'))"
proof (cases "c = None \<and> deadline_error env = None \<and> \<not> sl_closed s")
  case False
  then show ?thesis using assms by (auto simp: Store_sqlite_def split: if_splits) (metis option.exhaust)
next
  case go: True
  obtain d b where b: "sq_Begin ops (sl_db s) None = (d, b)" by fastforce
  show ?thesis
  proof (cases b)
    case (Inl x)
    then have "s' = s\<lparr>sl_db := d\<rparr>" "err \<noteq> None" using assms(2) go b by (auto simp: Store_sqlite_def WrapOpComponent_def)
    then show ?thesis using begin_fails [OF assms(1)] b Inl by auto
  next
    case (Inr t)
    note bg = begin_ok [OF assms(1), of None d t] inserted_begin [OF assms(1), of None d t]
    have n: "pend (sl_db s) t = None" "pend d = (pend (sl_db s))(t \<mapsto> [])" "tbl d = tbl (sl_db s)" "inserted d t []" using bg b Inr by auto
    have undo: "(pend d)(t := None) = pend (sl_db s)" using n(1,2) by (auto simp: fun_eq_iff)
    obtain e where e: "evt = Some e" using assms(2) go b Inr by (cases evt) (auto simp: Store_sqlite_def)
    obtain d' er where ins: "insert_event env ops None t e d = (d', er)" by fastforce
    obtain d2 er2 where rb: "sq_Rollback ops d' t = (d2, er2)" by fastforce
    from insert_event_cases [OF n(4) ins assms(3)] show ?thesis
    proof (elim disjE conjE exE)
      fix r assume "valid d'" "row_for env norm e r" "r_id r \<notin> r_id ` set (tbl d)" "er = None" "tbl d' = tbl d @ [r]" "pend d' = (pend d)(t := None)"
      then show ?thesis using assms(2) go b Inr e ins undo n(3) by (auto simp: Store_sqlite_def)
    next
      assume "valid d'" "er \<noteq> None" "tbl d' = tbl d" "pend d' = pend d"
      then show ?thesis using rollback [of d' t d2 er2] rb assms(2) go b Inr e ins undo n(3)
        by (auto simp: Store_sqlite_def WrapOpComponent_def)
    next
      fix r dc e' assume "valid d'" "row_for env norm e r" "er \<noteq> None" "pend d' = (pend d)(t := None)" "sq_Commit ops dc t = (d', Some e')"
        "inserted dc t [r]" "tbl dc = tbl d"
      moreover from this have "valid d2 \<and> tbl d2 = tbl d' \<and> pend d2 = pend (sl_db s)" using rollback [of d' t d2 er2] rb undo n(1) by (auto simp: fun_eq_iff)
      ultimately show ?thesis using assms(2) go b Inr e ins rb n(3)
        by (auto simp: Store_sqlite_def WrapOpComponent_def) blast
    qed
  qed
qed

lemma run_query_rows:
  assumes "valid (sl_db s)" and "cs \<noteq> []" and "sqlite_run_query env ops s c op (select_text di cs, map cond_arg cs) = Inr evs"
  shows "evs = map (row_event env) (filter (\<lambda>r. list_all (cond_holds tenant r) cs) (tbl (sl_db s)))"
proof -
  obtain res where res: "sq_Query ops (sl_db s) c (select_text di cs) (map cond_arg cs) = Inr res" "scanEvents env res = Inr evs"
    using assms(3) by (auto simp: sqlite_run_query_def split: sum.splits)
  obtain rows where rows: "res = (map Inr rows, None)" "evs = map (row_event env) rows" using scanEvents_Inr [OF res(2)] by blast
  have "map Inr rows = map Inr (filter (\<lambda>r. list_all (cond_holds tenant r) cs) (tbl (sl_db s)))"
    using query [OF assms(1,2)] res(1) rows(1) by fastforce
  then show ?thesis using rows(2) by (simp add: inj_on_def inj_map_eq_map)
qed

end

lemma filter_conds:
  "list_all (cond_holds tenant r) (load_conds q fs) \<longleftrightarrow> sint q < sint (r_version r) \<and> (\<forall>t. fmlookup fs ''type'' = Some t \<longrightarrow> r_event_type r = t)
     \<and> (\<forall>a. fmlookup fs ''aggregate_id'' = Some a \<longrightarrow> r_aggregate_id r = a) \<and> (\<forall>x. fmlookup fs ''tenant'' = Some x \<longrightarrow> tenant (r_metadata r) = Some x)"
  by (auto simp: load_conds_def opt_cond_def split: option.splits)

section \<open>The contract of an event store\<close>

context sql_sure_commit
begin

lemma sqlite_event_store:
  assumes "di = sqlite_dialect"
  shows "event_store (sqlite_ops env ops) (\<lambda>k s. valid (sl_db s)) (\<lambda>s. map (StoredEvent env) (tbl (sl_db s))) (\<lambda>_. True)"
proof unfold_locales
  fix k c v c' evs and s :: "'a sqlite_store"
  assume i: "valid (sl_db s)" and lv: "st_LatestVersion (sqlite_ops env ops) s c = Some (Inr v)" and ld: "st_Load (sqlite_ops env ops) s c' v = Some (Inr evs)"
  obtain m where m: "sq_QueryInt ops (sl_db s) c max_text = Inr m" "v = Some (IntegerCursor (case m of None \<Rightarrow> 0 | Some x \<Rightarrow> x))"
    using lv by (auto simp: sqlite_ops_def LatestVersion_sqlite_def max_text_def split: if_splits sum.splits option.splits)
  let ?q = "case m of None \<Rightarrow> 0 | Some x \<Rightarrow> x"
  have "sqlite_run_query env ops s c' ''sqlite.Load'' (sqlite_load_query ?q fmempty) = Inr evs"
    using ld m(2) by (auto simp: sqlite_ops_def Load_sqlite_def since_seq_def split: if_splits)
  then have evs: "evs = map (row_event env) (filter (\<lambda>r. list_all (cond_holds tenant r) (load_conds ?q fmempty)) (tbl (sl_db s)))"
    using run_query_rows [OF i, of "load_conds ?q fmempty"] unfolding sqlite_load_query_text assms by (simp add: load_conds_def)
  have "\<not> sint ?q < sint (r_version r)" if r: "r \<in> set (tbl (sl_db s))" for r
  proof -
    have "m = Some (r_version (last (tbl (sl_db s))))" using query_max [OF i m(1)] r by (auto split: if_splits)
    moreover have "r = last (tbl (sl_db s)) \<or> later r (last (tbl (sl_db s)))"
      using rows_ordered [OF i] r by (cases "tbl (sl_db s)" rule: rev_cases) (auto simp: sorted_wrt_append)
    ultimately show ?thesis by (auto simp: later_def)
  qed
  then show "evs = []" unfolding evs by (simp add: filter_conds filter_empty_conv)
next
  fix k c and s :: "'a sqlite_store"
  show "st_LatestVersion (sqlite_ops env ops) s c \<noteq> None" by (simp add: sqlite_ops_def)
next
  fix k e c v and s :: "'a sqlite_store"
  show "st_Store (sqlite_ops env ops) s c (Some e) v \<noteq> None"
    by (auto simp: sqlite_ops_def Store_sqlite_def split: prod.splits sum.splits option.splits)
next
  fix k c e v and s s' :: "'a sqlite_store"
  assume i: "valid (sl_db s)" and "st_Store (sqlite_ops env ops) s c (Some e) v = Some (s', None)"
  then have "Store_sqlite env ops s c (Some e) v = Some (s', None)" by (simp add: sqlite_ops_def)
  from Store_sqlite_outcome [OF i this assms] obtain r where "valid (sl_db s')" "row_for env norm e r" "tbl (sl_db s') = tbl (sl_db s) @ [r]" by auto
  then show "valid (sl_db s') \<and> (\<exists>e'. same_payload e e' \<and> map (StoredEvent env) (tbl (sl_db s')) = map (StoredEvent env) (tbl (sl_db s)) @ [e'])"
    by (auto simp: same_payload_def StoredEvent_def row_for_def)
next
  fix k c e v err and s s' :: "'a sqlite_store"
  assume i: "valid (sl_db s)" and "st_Store (sqlite_ops env ops) s c (Some e) v = Some (s', Some err)"
  then have "Store_sqlite env ops s c (Some e) v = Some (s', Some err)" by (simp add: sqlite_ops_def)
  from Store_sqlite_outcome [OF i this assms] have "valid (sl_db s')" "tbl (sl_db s') = tbl (sl_db s)"
    using commit_rejected by (auto simp: inserted_def)
  then show "valid (sl_db s') \<and> map (StoredEvent env) (tbl (sl_db s')) = map (StoredEvent env) (tbl (sl_db s))" by simp
next
  fix c v and s s' :: "'a sqlite_store"
  show "st_Store (sqlite_ops env ops) s c None v \<noteq> Some (s', None)"
    by (auto simp: sqlite_ops_def Store_sqlite_def WrapOpComponent_def split: prod.splits sum.splits)
qed

end

section \<open>Batches\<close>

definition rows_for :: "sql_env \<Rightarrow> (string \<Rightarrow> string) \<Rightarrow> event_with_version list \<Rightarrow> sql_row list \<Rightarrow> bool" where
  "rows_for env norm evs rs \<longleftrightarrow> list_all2 (\<lambda>ev r. \<exists>e. ev_Event ev = Some e \<and> row_for env norm e r) evs rs"

context sql_database
begin

lemma batch_insert_outcome:
  assumes "inserted d t ps" and "batch_insert env ops c t evs d = Some (d', err)" and "di = sqlite_dialect"
  shows "\<exists>qs. inserted d' t (ps @ qs) \<and> tbl d' = tbl d \<and> pend d' = (pend d)(t \<mapsto> ps @ qs) \<and> rows_for env norm (take (length qs) evs) qs
    \<and> (if err = None then length qs = length evs else length qs < length evs)"
  using assms(1,2)
proof (induction evs arbitrary: d ps)
  case Nil
  then show ?case by (intro exI [of _ "[]"]) (auto simp: inserted_def rows_for_def)
next
  case (Cons ev evs)
  have p: "pend d t = Some ps" "valid d" using Cons.prems(1) by (auto simp: inserted_def)
  have stop: ?case if "valid d'" "tbl d' = tbl d" "pend d' = pend d" "err \<noteq> None"
    using that Cons.prems(1) by (intro exI [of _ "[]"]) (auto simp: inserted_def rows_for_def)
  obtain e where e: "ev_Event ev = Some e" using Cons.prems(2) by (cases "ev_Event ev") auto
  show ?case
  proof (cases "(\<exists>js. sv_json env (EventData e) = Inr js) \<and> (\<exists>md. sv_json_md env (EventMetadata e) = Inr md)")
    case False
    then show ?thesis using Cons.prems(2) e p(2) by (intro stop) (auto split: sum.splits)
  next
    case True
    then obtain js md where j: "sv_json env (EventData e) = Inr js" "sv_json_md env (EventMetadata e) = Inr md" by blast
    obtain d1 e1 where ex: "sq_Exec ops d t c (insert_text di) [SqlText (EventID e), SqlText (EventAggregateID e), SqlText (EventType e), SqlText js, SqlText md] = (d1, e1)"
      by fastforce
    show ?thesis
    proof (cases e1)
      case (Some x)
      then show ?thesis using Cons.prems(2) e j ex sqlite_insert_text assms(3) exec_fails [OF p(2)] by (intro stop) auto
    next
      case None
      let ?r = "\<lambda>v. \<lparr>r_version = v, r_id = EventID e, r_aggregate_id = EventAggregateID e, r_event_type = EventType e, r_data = Some (norm js), r_metadata = Some (norm md)\<rparr>"
      obtain n where n: "inserted d1 t (ps @ [?r n])" "tbl d1 = tbl d"
        using inserted_exec [OF Cons.prems(1), of "SqlText js" js "SqlText md" md] ex None by blast
      have p1: "pend d1 = (pend d)(t \<mapsto> ps @ [?r n])"
      proof -
        have "\<exists>v. pend d1 = (pend d)(t \<mapsto> ps @ [?r v])" using insert_ok [OF p(2,1), of "SqlText js" js "SqlText md" md] ex None by fastforce
        then show ?thesis using n(1) by (auto simp: inserted_def)
      qed
      have "batch_insert env ops c t evs d1 = Some (d', err)" using Cons.prems(2) e j ex None sqlite_insert_text assms(3) by simp
      from Cons.IH [OF n(1) this] obtain qs where qs: "inserted d' t ((ps @ [?r n]) @ qs)" "tbl d' = tbl d1" "pend d' = (pend d1)(t \<mapsto> (ps @ [?r n]) @ qs)"
          "rows_for env norm (take (length qs) evs) qs" "if err = None then length qs = length evs else length qs < length evs" by blast
      moreover have "row_for env norm e (?r n)" using j by (auto simp: row_for_def)
      ultimately show ?thesis using n(2) p1 e by (intro exI [of _ "?r n # qs"]) (auto simp: rows_for_def split: if_splits)
    qed
  qed
qed

lemma Prepare_inserted: "inserted d t ps \<Longrightarrow> sq_Prepare ops d t c q = (d', er) \<Longrightarrow> inserted d' t ps \<and> tbl d' = tbl d \<and> pend d' = pend d"
  using prepare [of d t c q d' er] by (auto simp: inserted_def)

lemma StoreBatch_sqlite_outcome:
  assumes "valid (sl_db s)" and "StoreBatch_sqlite env ops s c evs = Some (s', err)" and "di = sqlite_dialect"
  shows "valid (sl_db s') \<and> sl_closed s' = sl_closed s \<and>
    (if err = None then pend (sl_db s') = pend (sl_db s) \<and> (\<exists>rs. rows_for env norm evs rs \<and> tbl (sl_db s') = tbl (sl_db s) @ rs)
     else (tbl (sl_db s') = tbl (sl_db s)
         \<and> (pend (sl_db s') = pend (sl_db s)
            \<or> (\<exists>t qs. pend (sl_db s) t = None \<and> pend (sl_db s') = (pend (sl_db s))(t \<mapsto> qs) \<and> length qs < length evs \<and> rows_for env norm (take (length qs) evs) qs)))
       \<or> (pend (sl_db s') = pend (sl_db s) \<and> (\<exists>dc t d' e' qs. inserted dc t qs \<and> tbl dc = tbl (sl_db s) \<and> sq_Commit ops dc t = (d', Some e') \<and> tbl (sl_db s') = tbl d')))"
proof (cases "deadline_error env = None \<and> \<not> sl_closed s \<and> evs \<noteq> []")
  case False
  then show ?thesis using assms
    by (auto simp: StoreBatch_sqlite_def rows_for_def split: if_splits)
next
  case go: True
  obtain d b where b: "sq_Begin ops (sl_db s) c = (d, b)" by fastforce
  show ?thesis
  proof (cases b)
    case (Inl x)
    then show ?thesis using assms(2) go b begin_fails [OF assms(1)] by (auto simp: StoreBatch_sqlite_def)
  next
    case (Inr t)
    have n: "pend (sl_db s) t = None" "pend d = (pend (sl_db s))(t \<mapsto> [])" "tbl d = tbl (sl_db s)" "inserted d t []"
      using begin_ok [OF assms(1), of c d t] inserted_begin [OF assms(1), of c d t] b Inr by auto
    have undo: "(pend d)(t := None) = pend (sl_db s)" using n(1,2) by (auto simp: fun_eq_iff)
    obtain d1 e1 where pr: "sq_Prepare ops d t c (insert_text di) = (d1, e1)" by fastforce
    have d1: "inserted d1 t []" "tbl d1 = tbl (sl_db s)" "pend d1 = pend d" using Prepare_inserted [OF n(4) pr] n(3) by auto
    show ?thesis
    proof (cases e1)
      case (Some x)
      obtain d2 er2 where rb: "sq_Rollback ops d1 t = (d2, er2)" by fastforce
      then show ?thesis using assms(2,3) go b Inr pr Some d1 undo rollback [of d1 t d2 er2] sqlite_insert_text
        by (auto simp: StoreBatch_sqlite_def inserted_def)
    next
      case None
      obtain d2 le where bi: "batch_insert env ops c t evs d1 = Some (d2, le)"
        using assms(2,3) go b Inr pr None sqlite_insert_text by (cases "batch_insert env ops c t evs d1") (auto simp: StoreBatch_sqlite_def)
      from batch_insert_outcome [OF d1(1) bi assms(3)] obtain qs where qs: "inserted d2 t qs" "tbl d2 = tbl d1" "pend d2 = (pend d1)(t \<mapsto> qs)"
          "rows_for env norm (take (length qs) evs) qs" "if le = None then length qs = length evs else length qs < length evs" by auto
      show ?thesis
      proof (cases le)
        case (Some x)
        then have "s' = s\<lparr>sl_db := d2\<rparr>" "err = Some x" using assms(2,3) go b Inr pr None bi sqlite_insert_text by (auto simp: StoreBatch_sqlite_def)
        then show ?thesis using qs d1 n Some by (auto simp: inserted_def)
      next
        case le: None
        obtain d3 ce where cm: "sq_Commit ops d2 t = (d3, ce)" by fastforce
        obtain d4 er4 where rb: "sq_Rollback ops d3 t = (d4, er4)" by fastforce
        show ?thesis
        proof (cases ce)
          case ok: None
          then have "s' = s\<lparr>sl_db := d3\<rparr>" "err = None" using assms(2,3) go b Inr pr None bi le cm sqlite_insert_text by (auto simp: StoreBatch_sqlite_def)
          then show ?thesis using inserted_commit [OF qs(1), of d3] cm ok qs d1 undo le by auto
        next
          case (Some x)
          have d3: "valid d3" "pend d3 = pend (sl_db s)" using inserted_in_doubt [OF qs(1), of d3 x] cm Some qs(3) d1(3) undo by auto
          have "s' = s\<lparr>sl_db := d4\<rparr>" "err \<noteq> None" using assms(2,3) go b Inr pr None bi le cm Some rb sqlite_insert_text by (auto simp: StoreBatch_sqlite_def)
          moreover have "valid d4 \<and> tbl d4 = tbl d3 \<and> pend d4 = pend (sl_db s)" using rollback [OF d3(1), of t d4 er4] rb d3(2) n(1) by (auto simp: fun_eq_iff)
          ultimately show ?thesis using qs(1,2) d1(2) cm Some by auto
        qed
      qed
    qed
  qed
qed

end

text \<open>The states of a store that the calls of its writers lead to.\<close>

inductive sqlite_writes :: "sql_env \<Rightarrow> 'd sql_ops \<Rightarrow> 'd sqlite_store \<Rightarrow> 'd sqlite_store \<Rightarrow> bool" for env ops s0 where
  none: "sqlite_writes env ops s0 s0"
| one: "sqlite_writes env ops s0 s \<Longrightarrow> Store_sqlite env ops s c (Some e) v = Some (s', err) \<Longrightarrow> sqlite_writes env ops s0 s'"
| batch: "sqlite_writes env ops s0 s \<Longrightarrow> StoreBatch_sqlite env ops s c evs = Some (s', err) \<Longrightarrow> sqlite_writes env ops s0 s'"

context sql_single_writer
begin

lemma blocked_insert:
  assumes "valid d" and "pend d t' = Some ps" and "ps \<noteq> []" and "t \<noteq> t'" and "di = sqlite_dialect"
  shows "insert_event env ops c t e d = (d', err) \<Longrightarrow> err \<noteq> None"
    and "batch_insert env ops c t (ev # evs) d = Some (d', err) \<Longrightarrow> err \<noteq> None"
proof -
  obtain d1 x where "sq_Exec ops d t c (insert_text di) vs = (d1 vs, Some (x vs))" for vs
    using busy [OF assms(1-4)] by metis
  then show "insert_event env ops c t e d = (d', err) \<Longrightarrow> err \<noteq> None" "batch_insert env ops c t (ev # evs) d = Some (d', err) \<Longrightarrow> err \<noteq> None"
    unfolding assms(5) sqlite_insert_text by (auto simp: insert_event_def split: sum.splits option.splits) (cases "ev_Event ev"; auto split: sum.splits)
qed

lemma blocked_Store:
  assumes "valid (sl_db s)" and "pend (sl_db s) t' = Some ps" and "ps \<noteq> []" and "di = sqlite_dialect" and "Store_sqlite env ops s c (Some e) v = Some (s', err)"
  shows "err \<noteq> None"
proof
  assume err: "err = None"
  then have go: "c = None" "deadline_error env = None" "\<not> sl_closed s" using assms(5) by (auto simp: Store_sqlite_def split: if_splits)
  obtain d b where b: "sq_Begin ops (sl_db s) None = (d, b)" by fastforce
  then obtain t where t: "b = Inr t" using assms(5) err go by (cases b) (auto simp: Store_sqlite_def WrapOpComponent_def)
  have d: "valid d" "pend d t' = Some ps" "t \<noteq> t'" using begin_ok [OF assms(1), of None d t] b t assms(2) by auto
  obtain d' er where "insert_event env ops None t e d = (d', er)" by fastforce
  moreover from this have "er \<noteq> None" using blocked_insert(1) [OF d(1,2) assms(3) d(3) assms(4)] by blast
  ultimately show False using assms(5) err go b t by (auto simp: Store_sqlite_def WrapOpComponent_def)
qed

lemma blocked_Batch:
  assumes "valid (sl_db s)" and "pend (sl_db s) t' = Some ps" and "ps \<noteq> []" and "di = sqlite_dialect" and "StoreBatch_sqlite env ops s c evs = Some (s', err)"
    and "evs \<noteq> []"
  shows "err \<noteq> None"
proof
  assume err: "err = None"
  then have go: "deadline_error env = None" "\<not> sl_closed s" using assms(5) by (auto simp: StoreBatch_sqlite_def split: if_splits)
  obtain d b where b: "sq_Begin ops (sl_db s) c = (d, b)" by fastforce
  then obtain t where t: "b = Inr t" using assms(5,6) err go by (cases b) (auto simp: StoreBatch_sqlite_def)
  have d: "valid d" "pend d t' = Some ps" "t \<noteq> t'" using begin_ok [OF assms(1), of c d t] b t assms(2) by auto
  obtain d1 e1 where pr: "sq_Prepare ops d t c (insert_text di) = (d1, e1)" by fastforce
  have d1: "valid d1" "pend d1 t' = Some ps" using prepare [OF d(1) pr] d(2) by auto
  have "e1 = None" using assms(4,5,6) err go b t pr sqlite_insert_text by (cases e1) (auto simp: StoreBatch_sqlite_def)
  then obtain d2 where "batch_insert env ops c t evs d1 = Some (d2, None)"
    using assms(4,5,6) err go b t pr sqlite_insert_text by (auto simp: StoreBatch_sqlite_def bind_eq_Some_conv split: option.splits)
  moreover obtain ev evs' where "evs = ev # evs'" using assms(6) by (cases evs) auto
  ultimately show False using blocked_insert(2) [OF d1 assms(3) d(3) assms(4), of env c ev evs' d2 None] by blast
qed

lemma blocked_forever:
  assumes "sqlite_writes env ops s s'" and "valid (sl_db s)" and "pend (sl_db s) t = Some ps" and "ps \<noteq> []" and "di = sqlite_dialect"
  shows "valid (sl_db s') \<and> tbl (sl_db s') = tbl (sl_db s) \<and> pend (sl_db s') t = Some ps"
  using assms(1)
proof (induction rule: sqlite_writes.induct)
  case none
  then show ?case using assms by simp
next
  case (one s1 c e v s2 err)
  then have "err \<noteq> None" using blocked_Store [OF _ _ assms(4,5)] by blast
  then show ?case using Store_sqlite_outcome [OF _ one.hyps(2) assms(5)] one.IH commit_rejected by (auto simp: inserted_def)
next
  case (batch s1 c evs s2 err)
  have "err \<noteq> None \<or> evs = []" using blocked_Batch [OF _ _ assms(4,5) batch.hyps(2)] batch.IH by blast
  then show ?case
    using StoreBatch_sqlite_outcome [OF _ batch.hyps(2) assms(5)] batch.IH commit_rejected by (auto simp: inserted_def rows_for_def split: if_splits)
qed

end

section \<open>Loading\<close>

context sql_database
begin

lemma sqlite_loads:
  assumes "di = sqlite_dialect" and "valid (sl_db s)"
    and "Load_sqlite env ops s c (Some (IntegerCursor q)) fs = Some (Inr evs)"
  shows "evs = map (row_event env) (filter (\<lambda>r. sint q < sint (r_version r) \<and> (\<forall>t. fmlookup (filter_map fs) ''type'' = Some t \<longrightarrow> r_event_type r = t)
       \<and> (\<forall>a. fmlookup (filter_map fs) ''aggregate_id'' = Some a \<longrightarrow> r_aggregate_id r = a)
       \<and> (\<forall>x. fmlookup (filter_map fs) ''tenant'' = Some x \<longrightarrow> tenant (r_metadata r) = Some x)) (tbl (sl_db s)))
    \<and> (\<forall>c' a evs'. LoadByAggregate_sqlite env ops s c' a (Some (IntegerCursor q)) fs = Some (Inr evs') \<and> fmlookup (filter_map fs) ''aggregate_id'' = None
         \<longrightarrow> evs' = filter (\<lambda>ev. agg_of ev = a) evs)"
proof -
  let ?fs = "filter_map fs" and ?rows = "tbl (sl_db s)"
  have open': "\<not> sl_closed s" using assms(3) by (auto simp: Load_sqlite_def split: if_splits)
  have "sqlite_run_query env ops s c ''sqlite.Load'' (sqlite_load_query q ?fs) = Inr evs" using assms(3) open' by (simp add: Load_sqlite_def since_seq_def)
  then have evs: "evs = map (row_event env) (filter (\<lambda>r. list_all (cond_holds tenant r) (load_conds q ?fs)) ?rows)"
    using run_query_rows [OF assms(2), of "load_conds q ?fs"] unfolding sqlite_load_query_text assms(1) by (simp add: load_conds_def)
  have "evs' = filter (\<lambda>ev. agg_of ev = a) evs"
    if "LoadByAggregate_sqlite env ops s c' a (Some (IntegerCursor q)) fs = Some (Inr evs')" "fmlookup ?fs ''aggregate_id'' = None" for c' a evs'
  proof -
    have "sqlite_run_query env ops s c' ''sqlite.LoadByAggregate'' (sqlite_aggregate_query a q ?fs) = Inr evs'"
      using that(1) open' by (simp add: LoadByAggregate_sqlite_def since_seq_def)
    then have "evs' = map (row_event env) (filter (\<lambda>r. list_all (cond_holds tenant r) (aggregate_conds a q ?fs)) ?rows)"
      using run_query_rows [OF assms(2), of "aggregate_conds a q ?fs"] unfolding sqlite_aggregate_query_text assms(1) by (simp add: aggregate_conds_def)
    moreover have "list_all (cond_holds tenant r) (aggregate_conds a q ?fs) \<longleftrightarrow> r_aggregate_id r = a \<and> list_all (cond_holds tenant r) (load_conds q ?fs)" for r
      using that(2) by (auto simp: aggregate_conds_def load_conds_def opt_cond_def)
    moreover have "agg_of (row_event env r) = r_aggregate_id r" for r by (simp add: agg_of_def row_event_def StoredEvent_def)
    ultimately show ?thesis by (simp add: evs filter_map comp_def conj_commute)
  qed
  then show ?thesis using evs by (auto simp: filter_conds)
qed

end

section \<open>Properties\<close>

lemma sqlite_good_dialect: "good_dialect sqlite_dialect"
  by (simp add: good_dialect_def sqlite_dialect_def)

interpretation sdb: sql_single_writer "ref_ops True sqlite_dialect norm tenant" sqlite_dialect ref_valid rd_rows rd_txs norm tenant for norm tenant
  by (rule ref_single_writer) (rule sqlite_good_dialect)

interpretation sqe: event_store "sqlite_ops env (ref_ops True sqlite_dialect norm tenant)" "\<lambda>k s. ref_valid (sl_db s)"
  "\<lambda>s. map (StoredEvent env) (rd_rows (sl_db s))" "\<lambda>_. True" for env norm tenant
  by (rule sdb.sqlite_event_store) (rule refl)


text \<open>
  A successful \<open>Load\<close> of the SQLite store returns exactly the committed rows after the given sequence number, as a signed number, that agree with the filters, in the order of versions,
  and \<open>LoadByAggregate\<close> those of them that belong to the aggregate.
\<close>

theorem sqlite_load_exact:
  assumes "sql_database ops sqlite_dialect valid tbl pend norm tenant" and "valid (sl_db s)"
    and "Load_sqlite env ops s c (Some (IntegerCursor q)) fs = Some (Inr evs)"
  shows "evs = map (row_event env) (filter (\<lambda>r. sint q < sint (r_version r) \<and> (\<forall>t. fmlookup (filter_map fs) ''type'' = Some t \<longrightarrow> r_event_type r = t)
       \<and> (\<forall>a. fmlookup (filter_map fs) ''aggregate_id'' = Some a \<longrightarrow> r_aggregate_id r = a)
       \<and> (\<forall>x. fmlookup (filter_map fs) ''tenant'' = Some x \<longrightarrow> tenant (r_metadata r) = Some x)) (tbl (sl_db s)))
    \<and> (\<forall>c' a evs'. LoadByAggregate_sqlite env ops s c' a (Some (IntegerCursor q)) fs = Some (Inr evs') \<and> fmlookup (filter_map fs) ''aggregate_id'' = None
         \<longrightarrow> evs' = filter (\<lambda>ev. agg_of ev = a) evs)"
  by (rule sql_database.sqlite_loads [OF assms(1) refl assms(2,3)])

text \<open>
  C18: a batch is stored completely or not at all: after a successful \<open>StoreBatch\<close> the committed rows are followed by one row for each event, in order; a failed one leaves the
  committed rows as they were. But when it fails at one of the events its transaction is left open, holding the rows of the events before it.
\<close>

theorem sqlite_batch_atomic:
  assumes "sql_sure_commit ops sqlite_dialect valid tbl pend norm tenant" and "valid (sl_db s)" and "StoreBatch_sqlite env ops s c evs = Some (s', err)"
  shows "valid (sl_db s') \<and>
    (if err = None then pend (sl_db s') = pend (sl_db s) \<and> (\<exists>rs. rows_for env norm evs rs \<and> tbl (sl_db s') = tbl (sl_db s) @ rs)
     else tbl (sl_db s') = tbl (sl_db s) \<and> (pend (sl_db s') = pend (sl_db s)
       \<or> (\<exists>t qs. pend (sl_db s) t = None \<and> pend (sl_db s') = (pend (sl_db s))(t \<mapsto> qs) \<and> length qs < length evs \<and> rows_for env norm (take (length qs) evs) qs)))"
proof -
  note db = sql_sure_commit.axioms(1) [OF assms(1)]
  have "tbl d' = tbl dc" if "sql_database.inserted valid tbl pend dc t qs" "sq_Commit ops dc t = (d', Some e')" for dc t qs d' e'
    using that sql_sure_commit.commit_rejected [OF assms(1)] by (auto simp: sql_database.inserted_def [OF db])
  then show ?thesis using sql_database.StoreBatch_sqlite_outcome [OF db assms(2,3) refl] by (auto split: if_splits)
qed

text \<open>
  In a database with one writer at a time, an open transaction that holds rows, as a failed batch leaves it behind, makes every later \<open>Store\<close> fail and every later \<open>StoreBatch\<close> that is
  not empty, whatever is called in between: nothing can be stored any more.
\<close>

theorem sqlite_failed_batch_blocks:
  assumes "sql_single_writer ops sqlite_dialect valid tbl pend norm tenant" and "valid (sl_db s)"
    and "StoreBatch_sqlite env ops s c evs = Some (s1, Some err)" and "pend (sl_db s1) t = Some qs" and "qs \<noteq> []" and "sqlite_writes env ops s1 s2"
  shows "tbl (sl_db s2) = tbl (sl_db s1)
    \<and> (\<forall>c e v s3 err. Store_sqlite env ops s2 c (Some e) v = Some (s3, err) \<longrightarrow> err \<noteq> None)
    \<and> (\<forall>c evs s3 err. evs \<noteq> [] \<longrightarrow> StoreBatch_sqlite env ops s2 c evs = Some (s3, err) \<longrightarrow> err \<noteq> None)"
proof -
  note sw = assms(1) and db = sql_sure_commit.axioms(1) [OF sql_single_writer.axioms(1) [OF assms(1)]]
  have "valid (sl_db s1)" using sql_database.StoreBatch_sqlite_outcome [OF db assms(2,3) refl] by blast
  then have s2: "valid (sl_db s2)" "tbl (sl_db s2) = tbl (sl_db s1)" "pend (sl_db s2) t = Some qs"
    using sql_single_writer.blocked_forever [OF sw assms(6) _ assms(4,5) refl] by auto
  then show ?thesis
    using sql_single_writer.blocked_Store [OF sw s2(1,3) assms(5) refl] sql_single_writer.blocked_Batch [OF sw s2(1,3) assms(5) refl] by blast
qed

text \<open>The check for an empty data source name comes after the journal mode was appended to it, so with the default configuration it never fails.\<close>

lemma empty_data_source_accepted: "NewWithDataSource ops sql_Open dsn \<noteq> Inl (ErrorString ''DataSourceName is required'')"
proof -
  have "DataSourceName (sqlite_setDefaults (sqlite_DefaultConfig dsn)) \<noteq> []"
    by (auto simp: sqlite_DefaultConfig_def sqlite_setDefaults_def has_prefix_def)
  then show ?thesis
    by (auto simp: NewWithDataSource_def sqlite_New_def Let_def split: sum.splits prod.splits option.splits)
qed

text \<open>A sequence number from \<open>2\<^sup>6\<^sup>3\<close> on is negative as an argument of the query, so that \<open>Load\<close> returns the whole log again.\<close>

lemma huge_cursor_reloads:
  assumes "sql_database ops sqlite_dialect valid tbl pend norm tenant" and "valid (sl_db s)" and "sint q < 0"
    and "Load_sqlite env ops s c (Some (IntegerCursor q)) [] = Some (Inr evs)"
  shows "evs = map (row_event env) (tbl (sl_db s))"
proof -
  have "filter (\<lambda>r. sint q < sint (r_version r)) (tbl (sl_db s)) = tbl (sl_db s)"
    using assms(3) sql_database.rows_positive [OF assms(1,2)] by (force intro!: filter_True)
  then show ?thesis using sql_database.sqlite_loads [OF assms(1) refl assms(2,4)] by simp
qed

section \<open>Witnesses\<close>

definition plain_env :: sql_env where
  "plain_env = \<lparr>sv_json = (\<lambda>_. Inr ''{}''), sv_json_md = (\<lambda>_. Inr ''{}''), sv_unjson = (\<lambda>_. Some fmempty), sv_left = None, sv_dur = (\<lambda>_. [])\<rparr>"

definition sqlite_sample :: "ref_db sqlite_store" where
  "sqlite_sample = \<lparr>sl_db = ref_empty, sl_closed = False, sl_tableName = ''events''\<rparr>"

definition sample_ref_ops :: "ref_db sql_ops" where
  "sample_ref_ops = ref_ops True sqlite_dialect (\<lambda>s. s) (\<lambda>m. m)"

definition ev_of :: "string \<Rightarrow> event_with_version" where
  "ev_of i = \<lparr>ev_Event = Some (New_event 0 i ''T'' ''a'' []), ev_Version = None\<rparr>"

lemma sample_single_writer: "sql_single_writer sample_ref_ops sqlite_dialect ref_valid rd_rows rd_txs (\<lambda>s. s) (\<lambda>m. m)"
  unfolding sample_ref_ops_def by (rule sdb.sql_single_writer_axioms)

lemmas sample_sure_commit = sql_single_writer.axioms(1) [OF sample_single_writer]
lemmas sample_database = sql_sure_commit.axioms(1) [OF sample_sure_commit]

lemma sample_valid: "ref_valid (sl_db sqlite_sample)"
  by (simp add: sqlite_sample_def ref_valid_empty)


definition two_rows :: "ref_db sqlite_store" where
  "two_rows = fst (the (StoreBatch_sqlite plain_env sample_ref_ops sqlite_sample None [ev_of ''x'', ev_of ''y'']))"

lemma two_rows_stored: "StoreBatch_sqlite plain_env sample_ref_ops sqlite_sample None [ev_of ''x'', ev_of ''y''] = Some (two_rows, None)"
proof -
  have "map_option snd (StoreBatch_sqlite plain_env sample_ref_ops sqlite_sample None [ev_of ''x'', ev_of ''y'']) = Some None" by code_simp
  then show ?thesis by (auto simp: two_rows_def)
qed

theorem sqlite_batch_atomic_witness:
  "\<exists>rs. rows_for plain_env (\<lambda>s. s) [ev_of ''x'', ev_of ''y''] rs \<and> rd_rows (sl_db two_rows) = rd_rows (sl_db sqlite_sample) @ rs"
  using sqlite_batch_atomic [OF sample_sure_commit sample_valid two_rows_stored] by simp

lemma sample_Load:
  assumes "\<not> sl_closed s"
  shows "Load_sqlite env sample_ref_ops s None (Some (IntegerCursor q)) []
    = Some (Inr (map (row_event env) (filter (\<lambda>r. sint q < sint (r_version r)) (rd_rows (sl_db s)))))"
proof -
  have "ref_Query sqlite_dialect (\<lambda>m. m) (sl_db s) None (fst (sqlite_load_query q fmempty)) (snd (sqlite_load_query q fmempty))
    = Inr (map Inr (filter (\<lambda>r. sint q < sint (r_version r)) (rd_rows (sl_db s))), None)"
    using ref_Query_ok [OF sqlite_good_dialect, of "\<lambda>m. m" "sl_db s" "load_conds q fmempty"]
    by (simp add: sqlite_load_query_text) (simp add: load_conds_def opt_cond_def)
  then show ?thesis using assms by (simp add: sample_ref_ops_def ref_ops_def Load_sqlite_def since_seq_def sqlite_run_query_def scanEvents_ok)
qed

theorem sqlite_load_exact_witness:
  "\<exists>evs. Load_sqlite plain_env sample_ref_ops two_rows None (Some (IntegerCursor 1)) [] = Some (Inr evs)
    \<and> evs = map (row_event plain_env) (filter (\<lambda>r. 1 < sint (r_version r)) (rd_rows (sl_db two_rows))) \<and> length evs = 1"
proof -
  have n: "length (filter (\<lambda>r. 1 < sint (r_version r)) (rd_rows (sl_db two_rows))) = 1" "\<not> sl_closed two_rows" by code_simp+
  have "ref_valid (sl_db two_rows)" using sdb.StoreBatch_sqlite_outcome [OF sample_valid _ refl] two_rows_stored unfolding sample_ref_ops_def by blast
  from sqlite_load_exact [OF sample_database this sample_Load [OF n(2)], of plain_env 1] show ?thesis using n by (simp add: sample_Load)
qed

definition half_batch :: "ref_db sqlite_store" where
  "half_batch = fst (the (StoreBatch_sqlite plain_env sample_ref_ops sqlite_sample None [ev_of ''x'', ev_of ''x'']))"

theorem sqlite_failed_batch_blocks_witness:
  "(\<exists>err. StoreBatch_sqlite plain_env sample_ref_ops sqlite_sample None [ev_of ''x'', ev_of ''x''] = Some (half_batch, Some err))
    \<and> (\<exists>s3 err. Store_sqlite plain_env sample_ref_ops half_batch None (ev_Event (ev_of ''z'')) None = Some (s3, Some err))"
proof -
  have "map_option (\<lambda>(s, e). (e \<noteq> None, map_option length (rd_txs (sl_db s) 0)))
      (StoreBatch_sqlite plain_env sample_ref_ops sqlite_sample None [ev_of ''x'', ev_of ''x'']) = Some (True, Some 1)" by code_simp
  then obtain err qs where run: "StoreBatch_sqlite plain_env sample_ref_ops sqlite_sample None [ev_of ''x'', ev_of ''x''] = Some (half_batch, Some err)"
      "rd_txs (sl_db half_batch) 0 = Some qs" "length qs = 1"
    by (auto simp: half_batch_def)
  have "qs \<noteq> []" using run(3) by auto
  note blocks = sqlite_failed_batch_blocks [OF sample_single_writer sample_valid run(1,2) this sqlite_writes.none]
  have "\<not> Option.is_none (Store_sqlite plain_env sample_ref_ops half_batch None (ev_Event (ev_of ''z'')) None)" by code_simp
  then obtain s3 e3 where z: "Store_sqlite plain_env sample_ref_ops half_batch None (ev_Event (ev_of ''z'')) None = Some (s3, e3)"
    by (cases "Store_sqlite plain_env sample_ref_ops half_batch None (ev_Event (ev_of ''z'')) None") (auto simp: Option.is_none_def)
  then have "e3 \<noteq> None" using blocks by (auto simp: ev_of_def)
  then show ?thesis using run(1) z by auto
qed

end
