(* ===== verification/Pg_Listener.thy ===== *)
theory Pg_Listener
  imports Http_Types
begin

text \<open>
  The notification listener of the PostgreSQL store (storage/postgres/listener.go): subscriptions by channel, the handling of a notification, the loop that receives
  notifications one iteration at a time, and the store with subscriptions. The listener of the database driver is a parameter, a record of operations; \<open>pq_conforms\<close> is what its documentation says of
  \<open>Listen\<close>: a channel that is already open is refused. Handlers are user code with a state \<open>'w\<close>; how JSON reads a payload is an argument. Log output is left out.
\<close>

section \<open>Subscriptions\<close>

record notification_payload =
  np_Version :: i64
  np_ID :: string
  np_AggregateID :: string
  np_EventType :: string
  np_StreamName :: string
  np_CreatedAt :: int

type_synonym 'w event_handler = "notification_payload \<Rightarrow> 'w \<Rightarrow> ('w \<times> go_error option) go"
type_synonym 'w subscription_manager = "(string, 'w event_handler list) fmap"

definition NewSubscriptionManager :: "'w subscription_manager" where
  "NewSubscriptionManager = fmempty"

definition channel_handlers :: "'w subscription_manager \<Rightarrow> string \<Rightarrow> 'w event_handler list" where
  "channel_handlers sm channel = (case fmlookup sm channel of None \<Rightarrow> [] | Some hs \<Rightarrow> hs)"

definition sub_Subscribe :: "'w subscription_manager \<Rightarrow> string \<Rightarrow> 'w event_handler \<Rightarrow> 'w subscription_manager" where
  "sub_Subscribe sm channel handler = fmupd channel (channel_handlers sm channel @ [handler]) sm"

definition sub_Unsubscribe :: "'w subscription_manager \<Rightarrow> string \<Rightarrow> 'w subscription_manager" where
  "sub_Unsubscribe sm channel = fmdrop channel sm"

text \<open>The channels in the order in which the map is ranged over.\<close>

definition GetChannels :: "string list \<Rightarrow> 'w subscription_manager \<Rightarrow> string list" where
  "GetChannels order sm = filter (\<lambda>c. c |\<in>| fmdom sm) order"

fun call_handlers :: "string \<Rightarrow> 'w event_handler list \<Rightarrow> notification_payload \<Rightarrow> 'w \<Rightarrow> ('w \<times> go_error option) go" where
  "call_handlers channel [] p w = Some (w, None)"
| "call_handlers channel (h # hs) p w = do {
     (w', err) \<leftarrow> h p w;
     (case err of
        Some e \<Rightarrow> Some (w', Some (WrapError (''handler error for channel '' @ channel @ '': '') e))
      | None \<Rightarrow> call_handlers channel hs p w') }"

definition HandleNotification ::
  "(string \<Rightarrow> go_error + notification_payload) \<Rightarrow> 'w subscription_manager \<Rightarrow> string \<Rightarrow> string \<Rightarrow> 'w \<Rightarrow> ('w \<times> go_error option) go" where
  "HandleNotification read sm channel payload w = (case fmlookup sm channel of
       None \<Rightarrow> Some (w, None)
     | Some handlers \<Rightarrow> (case read payload of
         Inl err \<Rightarrow> Some (w, Some (WrapError ''failed to parse notification payload: '' err))
       | Inr p \<Rightarrow> call_handlers channel handlers p w))"

section \<open>Listener\<close>

record 'p pq_ops =
  pq_Listen :: "'p \<Rightarrow> string \<Rightarrow> 'p \<times> go_error option"
  pq_Unlisten :: "'p \<Rightarrow> string \<Rightarrow> 'p \<times> go_error option"
  pq_Ping :: "'p \<Rightarrow> go_error option"
  pq_Close :: "'p \<Rightarrow> 'p \<times> go_error option"

text \<open>\<open>nl_loops\<close> counts the goroutines that were started for the listen loop.\<close>

record ('p, 'w) notification_listener =
  nl_listener :: 'p
  nl_closed :: bool
  nl_subscriptions :: "'w subscription_manager"
  nl_reconnectInterval :: int
  nl_maxReconnectAttempts :: int
  nl_notificationTimeout :: int
  nl_loops :: nat

definition err_listener_closed :: go_error where
  "err_listener_closed = ErrorString ''listener is closed''"

definition NewNotificationListener :: "(string \<Rightarrow> int \<Rightarrow> int \<Rightarrow> 'p) \<Rightarrow> string \<Rightarrow> go_error + ('p, 'w) notification_listener" where
  "NewNotificationListener newListener connectionString =
     (if connectionString = [] then Inl (ErrorString ''connection string cannot be empty'')
      else Inr \<lparr>nl_listener = newListener connectionString (5 * second) (30 * second), nl_closed = False, nl_subscriptions = NewSubscriptionManager,
        nl_reconnectInterval = 5 * second, nl_maxReconnectAttempts = 10, nl_notificationTimeout = 30 * second, nl_loops = 0\<rparr>)"

text \<open>After a reconnection every channel is listened to again; errors are only logged.\<close>

definition resubscribeAllChannels :: "'p pq_ops \<Rightarrow> string list \<Rightarrow> ('p, 'w) notification_listener \<Rightarrow> ('p, 'w) notification_listener" where
  "resubscribeAllChannels pqo order nl = nl\<lparr>nl_listener := foldl (\<lambda>p c. fst (pq_Listen pqo p c)) (nl_listener nl) (GetChannels order (nl_subscriptions nl))\<rparr>"

datatype pq_event = ListenerEventConnected | ListenerEventDisconnected | ListenerEventReconnected | ListenerEventConnectionAttemptFailed

definition eventCallback :: "'p pq_ops \<Rightarrow> string list \<Rightarrow> pq_event \<Rightarrow> ('p, 'w) notification_listener \<Rightarrow> ('p, 'w) notification_listener" where
  "eventCallback pqo order ev nl = (case ev of ListenerEventReconnected \<Rightarrow> resubscribeAllChannels pqo order nl | _ \<Rightarrow> nl)"

definition Start_listener :: "('p, 'w) notification_listener \<Rightarrow> ('p, 'w) notification_listener \<times> go_error option" where
  "Start_listener nl = (if nl_closed nl then (nl, Some err_listener_closed) else (nl\<lparr>nl_loops := Suc (nl_loops nl)\<rparr>, None))"

text \<open>One iteration of the loop: what the select chose. The result says whether the loop goes on.\<close>

datatype loop_choice = LoopCtxDone | LoopDone | LoopNotify "(string \<times> string) option" | LoopPing

definition handle_one ::
  "(string \<Rightarrow> go_error + notification_payload) \<Rightarrow> ('p, 'w) notification_listener \<Rightarrow> (string \<times> string) option \<Rightarrow> 'w \<Rightarrow> 'w go" where
  "handle_one read nl notification w = (case notification of
       None \<Rightarrow> Some w
     | Some (channel, extra) \<Rightarrow> HandleNotification read (nl_subscriptions nl) channel extra w \<bind> (\<lambda>(w', _). Some w'))"

definition listen_iterate ::
  "(string \<Rightarrow> go_error + notification_payload) \<Rightarrow> ('p, 'w) notification_listener \<Rightarrow> loop_choice \<Rightarrow> 'w \<Rightarrow> (bool \<times> 'w) go" where
  "listen_iterate read nl choice w = (case choice of
       LoopCtxDone \<Rightarrow> Some (False, w)
     | LoopDone \<Rightarrow> Some (False, w)
     | LoopNotify n \<Rightarrow> handle_one read nl n w \<bind> (\<lambda>w'. Some (True, w'))
     | LoopPing \<Rightarrow> Some (True, w))"

definition stream_channel :: "string \<Rightarrow> string" where
  "stream_channel aggregateID = ''stream_'' @ aggregateID"

text \<open>The part that the two subscriptions share: when the driver refuses the channel, all its handlers are removed.\<close>

definition listen_with ::
  "'p pq_ops \<Rightarrow> string \<Rightarrow> string \<Rightarrow> 'w event_handler \<Rightarrow> ('p, 'w) notification_listener \<Rightarrow> ('p, 'w) notification_listener \<times> go_error option" where
  "listen_with pqo channel msg handler nl =
     (let nl1 = nl\<lparr>nl_subscriptions := sub_Subscribe (nl_subscriptions nl) channel handler\<rparr>
      in (case pq_Listen pqo (nl_listener nl1) channel of
            (p, Some err) \<Rightarrow> (nl1\<lparr>nl_listener := p, nl_subscriptions := sub_Unsubscribe (nl_subscriptions nl1) channel\<rparr>, Some (WrapError msg err))
          | (p, None) \<Rightarrow> (nl1\<lparr>nl_listener := p\<rparr>, None)))"

definition SubscribeToStream ::
  "'p pq_ops \<Rightarrow> string \<Rightarrow> 'w event_handler \<Rightarrow> ('p, 'w) notification_listener \<Rightarrow> ('p, 'w) notification_listener \<times> go_error option" where
  "SubscribeToStream pqo aggregateID handler nl =
     (if nl_closed nl then (nl, Some err_listener_closed)
      else listen_with pqo (stream_channel aggregateID) (''failed to listen to channel '' @ stream_channel aggregateID @ '': '') handler nl)"

definition SubscribeToAll ::
  "'p pq_ops \<Rightarrow> 'w event_handler \<Rightarrow> ('p, 'w) notification_listener \<Rightarrow> ('p, 'w) notification_listener \<times> go_error option" where
  "SubscribeToAll pqo handler nl =
     (if nl_closed nl then (nl, Some err_listener_closed)
      else listen_with pqo ''events_global'' ''failed to listen to global channel: '' handler nl)"

definition filteringHandler :: "string \<Rightarrow> 'w event_handler \<Rightarrow> 'w event_handler" where
  "filteringHandler eventType handler = (\<lambda>p w. if np_EventType p = eventType then handler p w else Some (w, None))"

definition SubscribeToEventType ::
  "'p pq_ops \<Rightarrow> string \<Rightarrow> 'w event_handler \<Rightarrow> ('p, 'w) notification_listener \<Rightarrow> ('p, 'w) notification_listener \<times> go_error option" where
  "SubscribeToEventType pqo eventType handler nl =
     (if nl_closed nl then (nl, Some err_listener_closed) else SubscribeToAll pqo (filteringHandler eventType handler) nl)"

definition unlisten ::
  "'p pq_ops \<Rightarrow> string \<Rightarrow> string \<Rightarrow> ('p, 'w) notification_listener \<Rightarrow> ('p, 'w) notification_listener \<times> go_error option" where
  "unlisten pqo channel msg nl = (case pq_Unlisten pqo (nl_listener nl) channel of (p, err) \<Rightarrow>
     (nl\<lparr>nl_subscriptions := sub_Unsubscribe (nl_subscriptions nl) channel, nl_listener := p\<rparr>, map_option (WrapError msg) err))"

definition UnsubscribeFromStream ::
  "'p pq_ops \<Rightarrow> string \<Rightarrow> ('p, 'w) notification_listener \<Rightarrow> ('p, 'w) notification_listener \<times> go_error option" where
  "UnsubscribeFromStream pqo aggregateID nl = unlisten pqo (stream_channel aggregateID) (''failed to unlisten from channel '' @ stream_channel aggregateID @ '': '') nl"

definition UnsubscribeFromAll :: "'p pq_ops \<Rightarrow> ('p, 'w) notification_listener \<Rightarrow> ('p, 'w) notification_listener \<times> go_error option" where
  "UnsubscribeFromAll pqo nl = unlisten pqo ''events_global'' ''failed to unlisten from global channel: '' nl"

definition IsConnected_listener :: "'p pq_ops \<Rightarrow> ('p, 'w) notification_listener \<Rightarrow> bool" where
  "IsConnected_listener pqo nl = (if nl_closed nl then False else pq_Ping pqo (nl_listener nl) = None)"

definition Close_listener :: "'p pq_ops \<Rightarrow> ('p, 'w) notification_listener \<Rightarrow> ('p, 'w) notification_listener \<times> go_error option" where
  "Close_listener pqo nl = (if nl_closed nl then (nl, None)
     else (case pq_Close pqo (nl_listener nl) of (p, err) \<Rightarrow> (nl\<lparr>nl_closed := True, nl_listener := p\<rparr>, err)))"

definition WithReconnectSettings :: "int \<Rightarrow> int \<Rightarrow> ('p, 'w) notification_listener \<Rightarrow> ('p, 'w) notification_listener" where
  "WithReconnectSettings interval maxAttempts nl = nl\<lparr>nl_reconnectInterval := interval, nl_maxReconnectAttempts := maxAttempts\<rparr>"

definition WithNotificationTimeout :: "int \<Rightarrow> ('p, 'w) notification_listener \<Rightarrow> ('p, 'w) notification_listener" where
  "WithNotificationTimeout timeout nl = nl\<lparr>nl_notificationTimeout := timeout\<rparr>"

section \<open>The store with subscriptions\<close>

text \<open>Every subscription starts the listener again.\<close>

definition rs_start ::
  "(('p, 'w) notification_listener \<Rightarrow> ('p, 'w) notification_listener \<times> go_error option) \<Rightarrow> ('p, 'w) notification_listener
     \<Rightarrow> ('p, 'w) notification_listener \<times> go_error option" where
  "rs_start subscribe nl = (case Start_listener nl of
       (nl', Some err) \<Rightarrow> (nl', Some (WrapError ''failed to start listener: '' err))
     | (nl', None) \<Rightarrow> subscribe nl')"

definition rs_SubscribeToStream ::
  "'p pq_ops \<Rightarrow> string \<Rightarrow> 'w event_handler \<Rightarrow> ('p, 'w) notification_listener \<Rightarrow> ('p, 'w) notification_listener \<times> go_error option" where
  "rs_SubscribeToStream pqo aggregateID handler nl = rs_start (SubscribeToStream pqo aggregateID handler) nl"

definition rs_SubscribeToAll ::
  "'p pq_ops \<Rightarrow> 'w event_handler \<Rightarrow> ('p, 'w) notification_listener \<Rightarrow> ('p, 'w) notification_listener \<times> go_error option" where
  "rs_SubscribeToAll pqo handler nl = rs_start (SubscribeToAll pqo handler) nl"

definition rs_SubscribeToEventType ::
  "'p pq_ops \<Rightarrow> string \<Rightarrow> 'w event_handler \<Rightarrow> ('p, 'w) notification_listener \<Rightarrow> ('p, 'w) notification_listener \<times> go_error option" where
  "rs_SubscribeToEventType pqo eventType handler nl = rs_start (SubscribeToEventType pqo eventType handler) nl"

section \<open>Properties\<close>

definition pq_conforms :: "'p pq_ops \<Rightarrow> ('p \<Rightarrow> string set) \<Rightarrow> bool" where
  "pq_conforms pqo chans \<longleftrightarrow> (\<forall>p ch p' err. pq_Listen pqo p ch = (p', err) \<longrightarrow>
     (ch \<in> chans p \<longrightarrow> err \<noteq> None) \<and> chans p' = (if err = None then insert ch (chans p) else chans p))"

text \<open>A call of any of the three subscriptions of the store to the global channel.\<close>

inductive global_subscribe :: "'p pq_ops \<Rightarrow> ('p, 'w) notification_listener \<Rightarrow> ('p, 'w) notification_listener \<Rightarrow> go_error option \<Rightarrow> bool" for pqo where
  "rs_SubscribeToAll pqo h nl = (nl', err) \<Longrightarrow> global_subscribe pqo nl nl' err"
| "rs_SubscribeToEventType pqo ty h nl = (nl', err) \<Longrightarrow> global_subscribe pqo nl nl' err"

lemma global_subscribe_listen:
  assumes "global_subscribe pqo nl nl' err" and "\<not> nl_closed nl"
  shows "\<exists>h. listen_with pqo ''events_global'' ''failed to listen to global channel: '' h (nl\<lparr>nl_loops := Suc (nl_loops nl)\<rparr>) = (nl', err)"
  using assms(1)
proof cases
  case (1 h)
  then show ?thesis using assms(2) by (auto simp: rs_SubscribeToAll_def rs_start_def Start_listener_def SubscribeToAll_def)
next
  case (2 ty h)
  then show ?thesis using assms(2)
    by (auto simp: rs_SubscribeToEventType_def rs_start_def Start_listener_def SubscribeToEventType_def SubscribeToAll_def)
qed

inductive later_subscribes :: "'p pq_ops \<Rightarrow> ('p, 'w) notification_listener \<Rightarrow> ('p, 'w) notification_listener \<Rightarrow> bool" for pqo nl1 where
  first: "global_subscribe pqo nl1 nl2 err \<Longrightarrow> later_subscribes pqo nl1 nl2"
| more: "later_subscribes pqo nl1 nl2 \<Longrightarrow> global_subscribe pqo nl2 nl3 err \<Longrightarrow> later_subscribes pqo nl1 nl3"

text \<open>
  With the first subscription to all events, or to a type of events, the channel is open. Every further one is then refused by the driver and removes all handlers of the channel, the first
  included: from then on no handler is called for any notification on it, whatever is subscribed later.
\<close>

theorem second_subscription_silences:
  assumes "pq_conforms pqo chans" and "\<not> nl_closed nl" and "global_subscribe pqo nl nl1 None" and "later_subscribes pqo nl1 nl2"
  shows "(\<exists>hs. hs \<noteq> [] \<and> channel_handlers (nl_subscriptions nl1) ''events_global'' = hs)
    \<and> fmlookup (nl_subscriptions nl2) ''events_global'' = None
    \<and> (\<forall>read extra w. handle_one read nl2 (Some (''events_global'', extra)) w = Some w)
    \<and> (\<forall>nl3 err. global_subscribe pqo nl2 nl3 err \<longrightarrow> err \<noteq> None)"
proof -
  let ?g = "''events_global''"
  have sub: "(err \<noteq> None \<longleftrightarrow> snd (pq_Listen pqo (nl_listener a) ?g) \<noteq> None) \<and> nl_listener b = fst (pq_Listen pqo (nl_listener a) ?g) \<and> nl_closed b = nl_closed a
      \<and> (if err = None then channel_handlers (nl_subscriptions b) ?g \<noteq> [] else fmlookup (nl_subscriptions b) ?g = None)"
    if s: "global_subscribe pqo a b err" "\<not> nl_closed a" for a b err
  proof -
    obtain h where "listen_with pqo ?g ''failed to listen to global channel: '' h (a\<lparr>nl_loops := Suc (nl_loops a)\<rparr>) = (b, err)"
      using global_subscribe_listen [OF s] by blast
    moreover obtain p e where "pq_Listen pqo (nl_listener a) ?g = (p, e)" by fastforce
    ultimately show ?thesis by (cases e) (auto simp: listen_with_def Let_def sub_Subscribe_def sub_Unsubscribe_def channel_handlers_def)
  qed
  have opened: "?g \<in> chans (nl_listener nl1)" "\<not> nl_closed nl1" "channel_handlers (nl_subscriptions nl1) ?g \<noteq> []"
    using sub [OF assms(3,2)] assms(1,2) unfolding pq_conforms_def by (metis insertI1 prod.collapse, auto)
  have step: "err \<noteq> None \<and> ?g \<in> chans (nl_listener b) \<and> \<not> nl_closed b \<and> fmlookup (nl_subscriptions b) ?g = None"
    if s: "global_subscribe pqo a b err" "?g \<in> chans (nl_listener a)" "\<not> nl_closed a" for a b err
  proof -
    obtain p e where pe: "pq_Listen pqo (nl_listener a) ?g = (p, e)" by fastforce
    then have "e \<noteq> None" "chans p = chans (nl_listener a)" using assms(1) s(2) unfolding pq_conforms_def by metis+
    then show ?thesis using sub [OF s(1,3)] pe s(2,3) by auto
  qed
  have end': "?g \<in> chans (nl_listener nl2) \<and> \<not> nl_closed nl2 \<and> fmlookup (nl_subscriptions nl2) ?g = None"
    using assms(4)
  proof (induction rule: later_subscribes.induct)
    case (first nl2 err)
    then show ?case using step [OF first opened(1,2)] by blast
  next
    case (more nl2 nl3 err)
    then show ?case using step [OF more.hyps(2)] by blast
  qed
  then have "global_subscribe pqo nl2 nl3 err \<longrightarrow> err \<noteq> None" for nl3 err using step by blast
  then show ?thesis using opened(3) end' by (auto simp: handle_one_def HandleNotification_def)
qed

text \<open>A driver that keeps the set of its channels.\<close>

definition set_pq :: "string list pq_ops" where
  "set_pq = \<lparr>pq_Listen = (\<lambda>p ch. if ch \<in> set p then (p, Some (ErrorString ''pq: channel is already open'')) else (ch # p, None)),
     pq_Unlisten = (\<lambda>p ch. (removeAll ch p, None)), pq_Ping = (\<lambda>p. None), pq_Close = (\<lambda>p. ([], None))\<rparr>"

definition fresh_listener :: "(string list, nat) notification_listener" where
  "fresh_listener = \<lparr>nl_listener = [], nl_closed = False, nl_subscriptions = NewSubscriptionManager, nl_reconnectInterval = 5, nl_maxReconnectAttempts = 10,
     nl_notificationTimeout = 30, nl_loops = 0\<rparr>"

definition count_handler :: "nat event_handler" where
  "count_handler p n = Some (Suc n, None)"

theorem second_subscription_silences_witness:
  "\<exists>nl1 nl2 err. rs_SubscribeToAll set_pq count_handler fresh_listener = (nl1, None) \<and> rs_SubscribeToEventType set_pq ''T'' count_handler nl1 = (nl2, err)
    \<and> handle_one (\<lambda>_. Inl io_EOF) nl2 (Some (''events_global'', ''{}'')) 0 = Some 0"
proof -
  have c: "pq_conforms set_pq set" by (auto simp: pq_conforms_def set_pq_def)
  obtain nl1 where 1: "rs_SubscribeToAll set_pq count_handler fresh_listener = (nl1, None)"
    by (simp add: rs_SubscribeToAll_def rs_start_def Start_listener_def SubscribeToAll_def fresh_listener_def listen_with_def set_pq_def)
  obtain nl2 err where 2: "rs_SubscribeToEventType set_pq ''T'' count_handler nl1 = (nl2, err)" by fastforce
  have "\<not> nl_closed fresh_listener" by (simp add: fresh_listener_def)
  from second_subscription_silences [OF c this global_subscribe.intros(1) [OF 1] later_subscribes.first [OF global_subscribe.intros(2) [OF 2]]]
  show ?thesis using 1 2 by blast
qed

text \<open>Handlers run in the order of subscription, and the first error keeps the later ones from being called.\<close>

lemma call_handlers_stops:
  "(\<And>h. h \<in> set hs \<Longrightarrow> \<exists>f. \<forall>w. h p w = Some (f w, None)) \<Longrightarrow> bad p = (\<lambda>w. Some (w, Some e)) \<Longrightarrow>
     call_handlers ch (hs @ bad # rest) p w = map_option (\<lambda>(w', _). (w', Some (WrapError (''handler error for channel '' @ ch @ '': '') e))) (call_handlers ch hs p w)"
proof (induction hs arbitrary: w)
  case (Cons h hs)
  then obtain f where "\<forall>w. h p w = Some (f w, None)" by (metis list.set_intros(1))
  then show ?case using Cons by simp
qed simp

text \<open>Every subscription of the store starts one more listen loop.\<close>

lemma subscriptions_start_loops:
  assumes "\<not> nl_closed nl" and "global_subscribe pqo nl nl' err"
  shows "nl_loops nl' = Suc (nl_loops nl)"
proof -
  let ?nl = "nl\<lparr>nl_loops := Suc (nl_loops nl)\<rparr>"
  obtain h where h: "listen_with pqo ''events_global'' ''failed to listen to global channel: '' h ?nl = (nl', err)"
    using global_subscribe_listen [OF assms(2,1)] by blast
  obtain p e where "pq_Listen pqo (nl_listener nl) ''events_global'' = (p, e)" by fastforce
  with h show ?thesis by (cases e) (auto simp: listen_with_def Let_def)
qed

end
