(* ===== verification/Realtime.thy ===== *)
theory Realtime
  imports Sync_Properties
begin

text \<open>
  Real-time synchronisation (synckit/realtime.go): a sync manager that reacts to the notifications of a notifier, with reconnection and a fallback that polls.
  The goroutines that \<open>EnableRealtime\<close> and the fallback start are threads with a control point between two critical sections, so that all interleavings with each other and with
  the calls of users are runs of \<open>rt_step\<close>. Stop channels, tickers and contexts are named by numbers; \<open>None\<close> stands for a nil channel or ticker. A panic in a goroutine
  ends the program, which \<open>rt_crashed\<close> records. A sync that is started in the background is one step, as in the other theories. The notifier is a parameter: its state may change at any time.
\<close>

section \<open>Data\<close>

record notification =
  nt_Type :: string
  nt_Source :: string
  nt_AggregateIDs :: "string list"
  nt_Metadata :: metadata
  nt_Timestamp :: int

record 'n notifier_ops =
  nf_Unsubscribe :: "'n \<Rightarrow> 'n \<times> go_error option"
  nf_IsConnected :: "'n \<Rightarrow> bool"
  nf_Close :: "'n \<Rightarrow> 'n \<times> go_error option"

text \<open>\<open>eb_scaled n\<close> is the value of \<open>time.Duration(float64(InitialDelay) * math.Pow(Multiplier, n))\<close>.\<close>

record exponential_backoff =
  eb_InitialDelay :: int
  eb_MaxDelay :: int
  eb_scaled :: "int \<Rightarrow> int"

definition min_duration :: "int \<Rightarrow> int \<Rightarrow> int" where
  "min_duration a b = (if a < b then a else b)"

definition NextDelay_exponential :: "exponential_backoff \<Rightarrow> int \<Rightarrow> int" where
  "NextDelay_exponential eb attempt =
     (if attempt \<le> 0 then min_duration (eb_InitialDelay eb) (eb_MaxDelay eb)
      else let delay = eb_scaled eb attempt in if delay > eb_MaxDelay eb \<or> delay < 0 then eb_MaxDelay eb else delay)"

text \<open>Other strategies than the one of the package are given by their \<open>NextDelay\<close>.\<close>

datatype backoff_strategy = Exponential exponential_backoff | OtherStrategy "int \<Rightarrow> int"

fun NextDelay :: "backoff_strategy \<Rightarrow> int \<Rightarrow> int" where
  "NextDelay (Exponential eb) attempt = NextDelay_exponential eb attempt"
| "NextDelay (OtherStrategy f) attempt = f attempt"

definition default_backoff :: "(int \<Rightarrow> int) \<Rightarrow> backoff_strategy" where
  "default_backoff doubled = Exponential \<lparr>eb_InitialDelay = 10 ^ 9, eb_MaxDelay = 30 * 10 ^ 9, eb_scaled = doubled\<rparr>"

record 'n realtime_options =
  ro_SyncOptions :: sync_options
  ro_RealtimeNotifier :: "'n option"
  ro_NotificationFilter :: "(notification \<Rightarrow> bool) option"
  ro_DisablePolling :: bool
  ro_FallbackInterval :: int
  ro_ReconnectBackoff :: "backoff_strategy option"

record connection_status =
  cs_Connected :: bool
  cs_LastConnected :: int
  cs_ReconnectAttempts :: int
  cs_Error :: "go_error option"

text \<open>Control points: before the read of the stop channel, in a select on the channel that was read, inside a call.\<close>

datatype handler_pc = HTop | HSelect nat | HCall | HErr go_error | HAttempts | HFallback | HStart | HDelay | HWait nat int
datatype monitor_pc = MTop | MWait nat | MTicked | MCompare bool | MUpdate bool | MPolling bool
datatype poller_pc = PTop | PWait nat nat | PTicked

datatype rt_thread =
    Handler nat int handler_pc
  | Monitor nat monitor_pc
  | Poller nat nat poller_pc
  | SyncTask
  | Done

record ('s, 't, 'n) realtime =
  rt_manager :: "('s, 't) manager"
  rt_options :: "'n realtime_options"
  rt_status :: connection_status
  rt_stop :: "nat option"
  rt_ticker :: "nat option"
  rt_closed :: "nat list"
  rt_stopped :: "nat list"
  rt_cancelled :: "nat list"
  rt_next :: nat
  rt_subscribed :: bool
  rt_threads :: "rt_thread list"
  rt_crashed :: bool

section \<open>Construction and status\<close>

definition default_realtime_options :: "(int \<Rightarrow> int) \<Rightarrow> 'n realtime_options" where
  "default_realtime_options doubled = \<lparr>
     ro_SyncOptions = \<lparr>PushOnly = False, PullOnly = False, ConflictResolver = None, Filter = None, BatchSize = 100, SyncInterval = 0, RetryConfig = None,
       EnableValidation = False, Timeout = 0, EnableCompression = False\<rparr>,
     ro_RealtimeNotifier = None, ro_NotificationFilter = None, ro_DisablePolling = False, ro_FallbackInterval = 30 * 10 ^ 9,
     ro_ReconnectBackoff = Some (default_backoff doubled)\<rparr>"

text \<open>The base manager is built without a state machine and without the default resolver of \<open>NewSyncManager\<close>.\<close>

definition NewRealtimeSyncManager :: "(int \<Rightarrow> int) \<Rightarrow> 's \<Rightarrow> 't \<Rightarrow> 'n realtime_options option \<Rightarrow> ('s, 't, 'n) realtime" where
  "NewRealtimeSyncManager doubled store transport opts =
     (let ro = (case opts of None \<Rightarrow> default_realtime_options doubled | Some x \<Rightarrow> x)
      in \<lparr>rt_manager = \<lparr>mg_store = store, mg_transport = transport, mg_options = ro_SyncOptions ro, mg_stateMachine = None, mg_autoSync = False,
            mg_autoSyncInterval = 0, mg_subscribers = [], mg_closed = False, mg_projectionConfig = None, mg_tick = 0, mg_trace = []\<rparr>,
          rt_options = ro,
          rt_status = \<lparr>cs_Connected = False, cs_LastConnected = zero_time, cs_ReconnectAttempts = 0, cs_Error = None\<rparr>,
          rt_stop = None, rt_ticker = None, rt_closed = [], rt_stopped = [], rt_cancelled = [], rt_next = 0, rt_subscribed = False, rt_threads = [],
          rt_crashed = False\<rparr>)"

definition updateConnectionStatus :: "bool \<Rightarrow> int \<Rightarrow> go_error option \<Rightarrow> ('s, 't, 'n) realtime \<Rightarrow> ('s, 't, 'n) realtime" where
  "updateConnectionStatus connected lastConnected err rt =
     rt\<lparr>rt_status := (rt_status rt)\<lparr>cs_Connected := connected,
          cs_LastConnected := (if \<not> time_IsZero lastConnected then lastConnected else cs_LastConnected (rt_status rt)), cs_Error := err\<rparr>\<rparr>"

definition updateReconnectAttempts :: "int \<Rightarrow> ('s, 't, 'n) realtime \<Rightarrow> ('s, 't, 'n) realtime" where
  "updateReconnectAttempts attempts rt = rt\<lparr>rt_status := (rt_status rt)\<lparr>cs_ReconnectAttempts := attempts\<rparr>\<rparr>"

definition IsRealtimeActive :: "('s, 't, 'n) realtime \<Rightarrow> bool" where
  "IsRealtimeActive rt \<longleftrightarrow> rt_stop rt \<noteq> None"

definition GetConnectionStatus :: "('s, 't, 'n) realtime \<Rightarrow> connection_status" where
  "GetConnectionStatus rt = rt_status rt"

definition spawn :: "rt_thread \<Rightarrow> ('s, 't, 'n) realtime \<Rightarrow> ('s, 't, 'n) realtime" where
  "spawn th rt = rt\<lparr>rt_threads := rt_threads rt @ [th]\<rparr>"

section \<open>Fallback polling\<close>

text \<open>\<open>time.NewTicker\<close> panics for an interval that is not positive.\<close>

definition startFallbackPolling :: "nat \<Rightarrow> ('s, 't, 'n) realtime \<Rightarrow> ('s, 't, 'n) realtime go" where
  "startFallbackPolling ctx rt =
     (if rt_ticker rt \<noteq> None \<or> ro_DisablePolling (rt_options rt) then Some rt
      else if ro_FallbackInterval (rt_options rt) \<le> 0 then None
      else Some (spawn (Poller ctx (rt_next rt) PTop) (rt\<lparr>rt_ticker := Some (rt_next rt), rt_next := Suc (rt_next rt)\<rparr>)))"

definition stopFallbackPolling :: "('s, 't, 'n) realtime \<Rightarrow> ('s, 't, 'n) realtime" where
  "stopFallbackPolling rt = (case rt_ticker rt of None \<Rightarrow> rt | Some tk \<Rightarrow> rt\<lparr>rt_ticker := None, rt_stopped := tk # rt_stopped rt\<rparr>)"

section \<open>Calls of users\<close>

definition EnableRealtime :: "nat \<Rightarrow> ('s, 't, 'n) realtime \<Rightarrow> ('s, 't, 'n) realtime \<times> go_error option" where
  "EnableRealtime ctx rt =
     (if ro_RealtimeNotifier (rt_options rt) = None then (rt, Some (ErrorString ''no realtime notifier configured''))
      else if rt_stop rt \<noteq> None then (rt, Some (ErrorString ''realtime notifications already active''))
      else (spawn (Monitor ctx MTop) (spawn (Handler ctx 0 HTop) (rt\<lparr>rt_stop := Some (rt_next rt), rt_next := Suc (rt_next rt)\<rparr>)), None))"

definition set_notifier :: "'n option \<Rightarrow> ('s, 't, 'n) realtime \<Rightarrow> ('s, 't, 'n) realtime" where
  "set_notifier n rt = rt\<lparr>rt_options := (rt_options rt)\<lparr>ro_RealtimeNotifier := n\<rparr>\<rparr>"

text \<open>Closing a channel twice panics.\<close>

definition DisableRealtime :: "'n notifier_ops \<Rightarrow> ('s, 't, 'n) realtime \<Rightarrow> (('s, 't, 'n) realtime \<times> go_error option) go" where
  "DisableRealtime nops rt = (case rt_stop rt of
       None \<Rightarrow> Some (rt, Some (ErrorString ''realtime notifications not active''))
     | Some ch \<Rightarrow>
         if ch \<in> set (rt_closed rt) then None
         else let rt1 = stopFallbackPolling (rt\<lparr>rt_closed := ch # rt_closed rt, rt_stop := None\<rparr>)
              in Some (case ro_RealtimeNotifier (rt_options rt1) of
                         None \<Rightarrow> (rt1, None)
                       | Some n \<Rightarrow> (set_notifier (Some (fst (nf_Unsubscribe nops n))) rt1, None)))"

definition Close_realtime ::
  "'n notifier_ops \<Rightarrow> 's store_ops \<Rightarrow> 't transport_ops \<Rightarrow> ('s, 't, 'n) realtime \<Rightarrow> (('s, 't, 'n) realtime \<times> go_error option) go" where
  "Close_realtime nops sops tops rt = do {
     (rt1, _) \<leftarrow> DisableRealtime nops rt;
     let rt2 = (case ro_RealtimeNotifier (rt_options rt1) of None \<Rightarrow> rt1 | Some n \<Rightarrow> set_notifier (Some (fst (nf_Close nops n))) rt1);
     (w, err) \<leftarrow> Close_manager sops tops (rt_manager rt2);
     Some (rt2\<lparr>rt_manager := w\<rparr>, err) }"

section \<open>Notifications and background syncs\<close>

definition triggers_sync :: "'n realtime_options \<Rightarrow> notification \<Rightarrow> bool" where
  "triggers_sync ro n \<longleftrightarrow> (case ro_NotificationFilter ro of None \<Rightarrow> True | Some f \<Rightarrow> f n) \<and> nt_Type n \<in> {''data_changed'', ''sync_requested''}"

definition on_notification :: "int \<Rightarrow> notification \<Rightarrow> ('s, 't, 'n) realtime \<Rightarrow> ('s, 't, 'n) realtime" where
  "on_notification now n rt =
     (let rt1 = updateConnectionStatus True now None rt
      in if triggers_sync (rt_options rt1) n then spawn SyncTask rt1 else rt1)"

definition background_sync ::
  "env \<Rightarrow> 's store_ops \<Rightarrow> 't transport_ops \<Rightarrow> ('s, 't, 'n) realtime \<Rightarrow> ('s, 't, 'n) realtime go" where
  "background_sync en sops tops rt = do {
     (w, r) \<leftarrow> Sync en sops tops (rt_manager rt);
     Some (rt\<lparr>rt_manager := (case r of Inl _ \<Rightarrow> w | Inr result \<Rightarrow> notifySubscribers result w)\<rparr>) }"

section \<open>Threads\<close>

text \<open>What a step of a thread may depend on: nothing, the result of \<open>Subscribe\<close>, a timer that fires, or the environment of a sync.\<close>

datatype rt_input = InGo | InReturned "go_error option" | InTimer | InSync env

definition reconnect_delay :: "(int \<Rightarrow> int) \<Rightarrow> 'n realtime_options \<Rightarrow> int \<Rightarrow> int" where
  "reconnect_delay doubled ro attempt =
     (let delay = NextDelay (case ro_ReconnectBackoff ro of None \<Rightarrow> default_backoff doubled | Some b \<Rightarrow> b) attempt
      in if delay > 300 * 10 ^ 9 then 300 * 10 ^ 9 else delay)"

definition stop_seen :: "nat \<Rightarrow> nat \<Rightarrow> ('s, 't, 'n) realtime \<Rightarrow> bool" where
  "stop_seen ctx ch rt \<longleftrightarrow> ctx \<in> set (rt_cancelled rt) \<or> ch \<in> set (rt_closed rt)"

fun handler_run ::
  "(int \<Rightarrow> int) \<Rightarrow> rt_input \<Rightarrow> nat \<Rightarrow> int \<Rightarrow> handler_pc \<Rightarrow> ('s, 't, 'n) realtime \<Rightarrow> (rt_thread \<times> ('s, 't, 'n) realtime) go" where
  "handler_run doubled i ctx a HTop rt = Some (case rt_stop rt of None \<Rightarrow> (Done, rt) | Some ch \<Rightarrow> (Handler ctx a (HSelect ch), rt))"
| "handler_run doubled i ctx a (HSelect ch) rt =
     Some (if stop_seen ctx ch rt then (Done, rt) else (Handler ctx a HCall, rt\<lparr>rt_subscribed := True\<rparr>))"
| "handler_run doubled i ctx a HCall rt = Some (case i of
       InReturned (Some e) \<Rightarrow> (Handler ctx a (HErr e), rt)
     | InReturned None \<Rightarrow> (Handler ctx a HTop, stopFallbackPolling rt)
     | _ \<Rightarrow> (Handler ctx a HCall, rt))"
| "handler_run doubled i ctx a (HErr e) rt = Some (Handler ctx a HAttempts, updateConnectionStatus False zero_time (Some e) rt)"
| "handler_run doubled i ctx a HAttempts rt = Some (Handler ctx a HFallback, updateReconnectAttempts a rt)"
| "handler_run doubled i ctx a HFallback rt =
     Some (Handler ctx a (if \<not> ro_DisablePolling (rt_options rt) \<and> rt_ticker rt = None then HStart else HDelay), rt)"
| "handler_run doubled i ctx a HStart rt = map_option (\<lambda>rt'. (Handler ctx a HDelay, rt')) (startFallbackPolling ctx rt)"
| "handler_run doubled i ctx a HDelay rt = Some (case rt_stop rt of
       None \<Rightarrow> (Done, rt) | Some ch \<Rightarrow> (Handler ctx (a + 1) (HWait ch (reconnect_delay doubled (rt_options rt) a)), rt))"
| "handler_run doubled i ctx a (HWait ch d) rt = Some (case i of
       InTimer \<Rightarrow> (Handler ctx a HTop, rt)
     | _ \<Rightarrow> if stop_seen ctx ch rt then (Done, rt) else (Handler ctx a (HWait ch d), rt))"

fun monitor_run ::
  "'n notifier_ops \<Rightarrow> int \<Rightarrow> rt_input \<Rightarrow> nat \<Rightarrow> monitor_pc \<Rightarrow> ('s, 't, 'n) realtime \<Rightarrow> (rt_thread \<times> ('s, 't, 'n) realtime) go" where
  "monitor_run nops now i ctx MTop rt = Some (case rt_stop rt of None \<Rightarrow> (Done, rt) | Some ch \<Rightarrow> (Monitor ctx (MWait ch), rt))"
| "monitor_run nops now i ctx (MWait ch) rt = Some (case i of
       InTimer \<Rightarrow> (Monitor ctx MTicked, rt)
     | _ \<Rightarrow> if stop_seen ctx ch rt then (Done, rt) else (Monitor ctx (MWait ch), rt))"
| "monitor_run nops now i ctx MTicked rt = Some (case ro_RealtimeNotifier (rt_options rt) of
       None \<Rightarrow> (Monitor ctx MTop, rt) | Some n \<Rightarrow> (Monitor ctx (MCompare (nf_IsConnected nops n)), rt))"
| "monitor_run nops now i ctx (MCompare connected) rt =
     Some (Monitor ctx (if cs_Connected (rt_status rt) \<noteq> connected then MUpdate connected else MTop), rt)"
| "monitor_run nops now i ctx (MUpdate connected) rt =
     Some (Monitor ctx (MPolling connected), updateConnectionStatus connected (if connected then now else zero_time) None rt)"
| "monitor_run nops now i ctx (MPolling connected) rt = map_option (\<lambda>rt'. (Monitor ctx MTop, rt'))
     (if connected then Some (stopFallbackPolling rt) else startFallbackPolling ctx rt)"

text \<open>The loop reads the channel of the current ticker, which panics when there is none; its own ticker is stopped when it returns. A stopped ticker does not fire.\<close>

fun poller_run ::
  "'n notifier_ops \<Rightarrow> rt_input \<Rightarrow> nat \<Rightarrow> nat \<Rightarrow> poller_pc \<Rightarrow> ('s, 't, 'n) realtime \<Rightarrow> (rt_thread \<times> ('s, 't, 'n) realtime) go" where
  "poller_run nops i ctx own PTop rt = (case rt_ticker rt of
       None \<Rightarrow> None
     | Some tk \<Rightarrow> Some (case rt_stop rt of
         None \<Rightarrow> (Done, rt\<lparr>rt_stopped := own # rt_stopped rt\<rparr>)
       | Some ch \<Rightarrow> (Poller ctx own (PWait ch tk), rt)))"
| "poller_run nops i ctx own (PWait ch tk) rt = Some (
       if i = InTimer \<and> tk \<notin> set (rt_stopped rt) then (Poller ctx own PTicked, rt)
       else if stop_seen ctx ch rt then (Done, rt\<lparr>rt_stopped := own # rt_stopped rt\<rparr>)
       else (Poller ctx own (PWait ch tk), rt))"
| "poller_run nops i ctx own PTicked rt = (case ro_RealtimeNotifier (rt_options rt) of
       None \<Rightarrow> None
     | Some n \<Rightarrow> Some (Poller ctx own PTop, if \<not> nf_IsConnected nops n then spawn SyncTask rt else rt))"

fun run_thread ::
  "(int \<Rightarrow> int) \<Rightarrow> 'n notifier_ops \<Rightarrow> 's store_ops \<Rightarrow> 't transport_ops \<Rightarrow> int \<Rightarrow> rt_input \<Rightarrow> rt_thread \<Rightarrow> ('s, 't, 'n) realtime
     \<Rightarrow> (rt_thread \<times> ('s, 't, 'n) realtime) go" where
  "run_thread doubled nops sops tops now i (Handler ctx a pc) rt = handler_run doubled i ctx a pc rt"
| "run_thread doubled nops sops tops now i (Monitor ctx pc) rt = monitor_run nops now i ctx pc rt"
| "run_thread doubled nops sops tops now i (Poller ctx own pc) rt = poller_run nops i ctx own pc rt"
| "run_thread doubled nops sops tops now i SyncTask rt = (case i of
       InSync en \<Rightarrow> map_option (\<lambda>rt'. (Done, rt')) (background_sync en sops tops rt)
     | _ \<Rightarrow> Some (SyncTask, rt))"
| "run_thread doubled nops sops tops now i Done rt = Some (Done, rt)"

text \<open>One step of the thread with number \<open>k\<close>.\<close>

definition step_thread ::
  "(int \<Rightarrow> int) \<Rightarrow> 'n notifier_ops \<Rightarrow> 's store_ops \<Rightarrow> 't transport_ops \<Rightarrow> nat \<Rightarrow> int \<Rightarrow> rt_input \<Rightarrow> ('s, 't, 'n) realtime \<Rightarrow> ('s, 't, 'n) realtime" where
  "step_thread doubled nops sops tops k now i rt = (case run_thread doubled nops sops tops now i (rt_threads rt ! k) rt of
       None \<Rightarrow> rt\<lparr>rt_crashed := True\<rparr>
     | Some (th, rt') \<Rightarrow> rt'\<lparr>rt_threads := (rt_threads rt')[k := th]\<rparr>)"

text \<open>A notification resets the attempts of the loop whose subscription it comes from.\<close>

fun reset_attempt :: "rt_thread \<Rightarrow> rt_thread" where
  "reset_attempt (Handler ctx a pc) = Handler ctx 0 pc"
| "reset_attempt th = th"

definition notify_step :: "nat \<Rightarrow> int \<Rightarrow> notification \<Rightarrow> ('s, 't, 'n) realtime \<Rightarrow> ('s, 't, 'n) realtime" where
  "notify_step k now n rt = (let rt1 = on_notification now n rt in rt1\<lparr>rt_threads := (rt_threads rt1)[k := reset_attempt (rt_threads rt1 ! k)]\<rparr>)"

inductive rt_step ::
  "(int \<Rightarrow> int) \<Rightarrow> 'n notifier_ops \<Rightarrow> 's store_ops \<Rightarrow> 't transport_ops \<Rightarrow> ('s, 't, 'n) realtime \<Rightarrow> ('s, 't, 'n) realtime \<Rightarrow> bool"
  for doubled nops sops tops where
  enable: "\<not> rt_crashed rt \<Longrightarrow> EnableRealtime ctx rt = (rt', err) \<Longrightarrow> rt_step doubled nops sops tops rt rt'"
| disable: "\<not> rt_crashed rt \<Longrightarrow> DisableRealtime nops rt = Some (rt', err) \<Longrightarrow> rt_step doubled nops sops tops rt rt'"
| close: "\<not> rt_crashed rt \<Longrightarrow> Close_realtime nops sops tops rt = Some (rt', err) \<Longrightarrow> rt_step doubled nops sops tops rt rt'"
| thread: "\<not> rt_crashed rt \<Longrightarrow> k < length (rt_threads rt) \<Longrightarrow> rt' = step_thread doubled nops sops tops k now i rt \<Longrightarrow> rt_step doubled nops sops tops rt rt'"
| notified: "\<not> rt_crashed rt \<Longrightarrow> rt_subscribed rt \<Longrightarrow> k < length (rt_threads rt) \<Longrightarrow> rt' = notify_step k now n rt \<Longrightarrow> rt_step doubled nops sops tops rt rt'"
| cancelled: "\<not> rt_crashed rt \<Longrightarrow> rt_step doubled nops sops tops rt (rt\<lparr>rt_cancelled := ctx # rt_cancelled rt\<rparr>)"
| notifier: "\<not> rt_crashed rt \<Longrightarrow> ro_RealtimeNotifier (rt_options rt) = Some n \<Longrightarrow> rt_step doubled nops sops tops rt (set_notifier (Some n') rt)"
| manager: "\<not> rt_crashed rt \<Longrightarrow> rt_step doubled nops sops tops rt (rt\<lparr>rt_manager := w\<rparr>)"

inductive rt_reach ::
  "(int \<Rightarrow> int) \<Rightarrow> 'n notifier_ops \<Rightarrow> 's store_ops \<Rightarrow> 't transport_ops \<Rightarrow> ('s, 't, 'n) realtime \<Rightarrow> ('s, 't, 'n) realtime \<Rightarrow> bool"
  for doubled nops sops tops rt0 where
  start: "rt_reach doubled nops sops tops rt0 rt0"
| more: "rt_reach doubled nops sops tops rt0 rt \<Longrightarrow> rt_step doubled nops sops tops rt rt' \<Longrightarrow> rt_reach doubled nops sops tops rt0 rt'"

end
