(* ===== verification/Realtime_Properties.thy ===== *)
theory Realtime_Properties
  imports Realtime
begin

text \<open>
  Properties of the real-time manager in every interleaving of its goroutines: stopping is safe and final for the loops, the ways in which the fallback polling fails, and what
  a background sync reports.
\<close>

section \<open>The stop channel\<close>

fun held :: "rt_thread \<Rightarrow> nat option" where
  "held (Handler ctx a (HSelect ch)) = Some ch"
| "held (Handler ctx a (HWait ch d)) = Some ch"
| "held (Monitor ctx (MWait ch)) = Some ch"
| "held (Poller ctx own (PWait ch tk)) = Some ch"
| "held _ = None"

definition channel_ok :: "('s, 't, 'n) realtime \<Rightarrow> rt_thread \<Rightarrow> bool" where
  "channel_ok rt th \<longleftrightarrow> (\<forall>ch. held th = Some ch \<longrightarrow> ch \<in> set (rt_closed rt) \<or> rt_stop rt = Some ch)"

definition rt_ok :: "('s, 't, 'n) realtime \<Rightarrow> bool" where
  "rt_ok rt \<longleftrightarrow> (\<forall>ch. rt_stop rt = Some ch \<longrightarrow> ch < rt_next rt \<and> ch \<notin> set (rt_closed rt)) \<and> (\<forall>ch \<in> set (rt_closed rt). ch < rt_next rt)
     \<and> list_all (channel_ok rt) (rt_threads rt)"

text \<open>What a thread or a notification leaves alone: only threads that hold no channel are added.\<close>

definition rt_frame :: "('s, 't, 'n) realtime \<Rightarrow> ('s, 't, 'n) realtime \<Rightarrow> bool" where
  "rt_frame rt rt' \<longleftrightarrow> rt_stop rt' = rt_stop rt \<and> rt_closed rt' = rt_closed rt \<and> rt_next rt \<le> rt_next rt' \<and> rt_crashed rt' = rt_crashed rt
     \<and> (\<exists>new. rt_threads rt' = rt_threads rt @ new \<and> list_all (\<lambda>th. held th = None \<and> (\<forall>c a. th \<noteq> Handler c a HCall)) new)"

named_theorems rt_frames

lemma rt_frame_refl [rt_frames]: "rt_frame rt rt"
  by (auto simp: rt_frame_def)

lemma rt_frame_trans: "rt_frame a b \<Longrightarrow> rt_frame b c \<Longrightarrow> rt_frame a c"
  by (auto simp: rt_frame_def)

lemma rt_frame_spawn [rt_frames]: "held th = None \<Longrightarrow> (\<And>c a. th \<noteq> Handler c a HCall) \<Longrightarrow> rt_frame rt (spawn th rt)"
  by (auto simp: rt_frame_def spawn_def)

lemma rt_frame_status [rt_frames]:
  "rt_frame rt (updateConnectionStatus c l e rt)" "rt_frame rt (updateReconnectAttempts n rt)" "rt_frame rt (stopFallbackPolling rt)"
  "rt_frame rt (rt\<lparr>rt_subscribed := b\<rparr>)" "rt_frame rt (rt\<lparr>rt_stopped := tks\<rparr>)" "rt_frame rt (rt\<lparr>rt_manager := w\<rparr>)"
  by (auto simp: rt_frame_def updateConnectionStatus_def updateReconnectAttempts_def stopFallbackPolling_def split: option.splits)

lemma rt_frame_start: "startFallbackPolling ctx rt = Some rt' \<Longrightarrow> rt_frame rt rt'"
  by (auto simp: startFallbackPolling_def rt_frame_def spawn_def split: if_splits)

lemma rt_frame_notification: "rt_frame rt (on_notification now n rt)"
proof -
  have "rt_frame rt (spawn SyncTask (updateConnectionStatus True now None rt))" by (rule rt_frame_trans [OF rt_frame_status(1) rt_frame_spawn]) simp_all
  then show ?thesis by (simp add: on_notification_def Let_def rt_frames)
qed

lemma rt_frame_sync: "background_sync en sops tops rt = Some rt' \<Longrightarrow> rt_frame rt rt'"
  by (auto simp: background_sync_def rt_frame_status split: bind_splits)

text \<open>A step of a thread: the channel it holds afterwards it held before, or read just now, and a call starts only with an open channel.\<close>

definition moved :: "('s, 't, 'n) realtime \<Rightarrow> rt_thread \<Rightarrow> rt_thread \<Rightarrow> bool" where
  "moved rt th th' \<longleftrightarrow> (\<forall>ch. held th' = Some ch \<longrightarrow> held th = Some ch \<or> rt_stop rt = Some ch)
     \<and> (\<forall>c a. th' = Handler c a HCall \<longrightarrow> th = Handler c a HCall \<or> (\<exists>ch. held th = Some ch \<and> ch \<notin> set (rt_closed rt)))"

lemma handler_run_moves:
  "handler_run doubled i ctx a pc rt = Some (th', rt') \<Longrightarrow> rt_frame rt rt' \<and> moved rt (Handler ctx a pc) th'"
  by (induction doubled i ctx a pc rt rule: handler_run.induct)
    (auto simp: moved_def stop_seen_def rt_frames rt_frame_start split: option.splits if_splits rt_input.splits)

lemma monitor_run_moves:
  "monitor_run nops now i ctx pc rt = Some (th', rt') \<Longrightarrow> rt_frame rt rt' \<and> moved rt (Monitor ctx pc) th'"
  by (induction nops now i ctx pc rt rule: monitor_run.induct)
    (auto simp: moved_def rt_frames rt_frame_start split: option.splits if_splits rt_input.splits)

lemma poller_run_moves:
  "poller_run nops i ctx own pc rt = Some (th', rt') \<Longrightarrow> rt_frame rt rt' \<and> moved rt (Poller ctx own pc) th'"
  by (induction nops i ctx own pc rt rule: poller_run.induct) (auto simp: moved_def rt_frames split: option.splits if_splits)

lemma run_thread_moves:
  assumes "run_thread doubled nops sops tops now i th rt = Some (th', rt')"
  shows "rt_frame rt rt' \<and> moved rt th th'"
proof (cases th)
  case (Handler c a pc)
  then show ?thesis using assms handler_run_moves [of doubled i c a pc rt th' rt'] by simp
next
  case (Monitor c pc)
  then show ?thesis using assms monitor_run_moves [of nops now i c pc rt th' rt'] by simp
next
  case (Poller c own pc)
  then show ?thesis using assms poller_run_moves [of nops i c own pc rt th' rt'] by simp
next
  case SyncTask
  then show ?thesis using assms by (auto simp: moved_def rt_frames rt_frame_sync split: rt_input.splits)
next
  case Done
  then show ?thesis using assms by (auto simp: moved_def rt_frames)
qed

lemma rt_ok_frame:
  assumes "rt_ok rt" and "rt_frame rt rt'"
  shows "rt_ok rt'"
proof -
  obtain new where f: "rt_stop rt' = rt_stop rt" "rt_closed rt' = rt_closed rt" "rt_next rt \<le> rt_next rt'" "rt_threads rt' = rt_threads rt @ new"
    "list_all (\<lambda>th. held th = None) new" using assms(2) by (auto simp: rt_frame_def list_all_iff)
  have "channel_ok rt' = channel_ok rt" using f(1,2) by (simp add: channel_ok_def fun_eq_iff)
  moreover have "list_all (channel_ok rt) new" using f(5) by (simp add: channel_ok_def list_all_iff)
  ultimately show ?thesis using assms(1) f(1-4) by (auto simp: rt_ok_def dest: less_le_trans)
qed

lemma rt_ok_put:
  assumes "rt_ok rt" and "channel_ok rt th"
  shows "rt_ok (rt\<lparr>rt_threads := (rt_threads rt)[k := th]\<rparr>)"
  using assms by (auto simp: rt_ok_def channel_ok_def list_all_iff dest!: subsetD [OF set_update_subset_insert])

lemma rt_ok_thread:
  assumes "rt_ok rt" and "k < length (rt_threads rt)"
  shows "rt_ok (step_thread doubled nops sops tops k now i rt)"
proof (cases "run_thread doubled nops sops tops now i (rt_threads rt ! k) rt")
  case None
  then show ?thesis using assms(1) by (simp add: step_thread_def rt_ok_def channel_ok_def list_all_iff)
next
  case (Some r)
  obtain th rt' where r: "r = (th, rt')" by fastforce
  have f: "rt_frame rt rt'" and m: "moved rt (rt_threads rt ! k) th" using run_thread_moves Some r by blast+
  have "channel_ok rt (rt_threads rt ! k)" using assms by (auto simp: rt_ok_def list_all_iff)
  then have "channel_ok rt' th" using m f by (auto simp: moved_def channel_ok_def rt_frame_def)
  then show ?thesis using rt_ok_put [OF rt_ok_frame [OF assms(1) f]] Some r by (simp add: step_thread_def)
qed

lemma rt_ok_enable: "rt_ok rt \<Longrightarrow> EnableRealtime ctx rt = (rt', err) \<Longrightarrow> rt_ok rt'"
  by (auto simp: EnableRealtime_def rt_ok_def spawn_def channel_ok_def list_all_iff split: if_splits) (meson less_SucI nat_less_le)+

lemma disabled:
  assumes "rt_ok rt" and "DisableRealtime nops rt = Some (rt', err)"
  shows "rt_ok rt' \<and> rt_stop rt' = None"
  using assms
  by (cases "rt_stop rt"; cases "rt_ticker rt")
    (auto simp: DisableRealtime_def stopFallbackPolling_def set_notifier_def rt_ok_def channel_ok_def list_all_iff Let_def split: if_splits option.splits, blast+)

lemma rt_ok_same: "rt_ok rt \<Longrightarrow> rt_ok (set_notifier n rt)" "rt_ok rt \<Longrightarrow> rt_ok (rt\<lparr>rt_manager := w\<rparr>)" "rt_ok rt \<Longrightarrow> rt_ok (rt\<lparr>rt_cancelled := cs\<rparr>)"
  by (simp_all add: rt_ok_def channel_ok_def list_all_iff set_notifier_def)

lemma held_reset [simp]: "held (reset_attempt th) = held th"
  by (cases th rule: held.cases) auto

lemma rt_ok_step:
  assumes "rt_step doubled nops sops tops rt rt'" and "rt_ok rt"
  shows "rt_ok rt'"
  using assms
proof (induction rule: rt_step.induct)
  case (close rt rt' err)
  then obtain rt1 e where d: "DisableRealtime nops rt = Some (rt1, e)" by (auto simp: Close_realtime_def split: bind_splits)
  with close disabled [OF close.prems d] show ?case
    by (auto simp: Close_realtime_def Let_def rt_ok_same split: bind_splits option.splits)
next
  case (notified rt k rt' now n)
  let ?r = "on_notification now n rt"
  have f: "rt_frame rt ?r" by (rule rt_frame_notification)
  then have ok: "rt_ok ?r" and "k < length (rt_threads ?r)" using rt_ok_frame notified by (auto simp: rt_frame_def)
  then have "channel_ok ?r (rt_threads ?r ! k)" by (auto simp: rt_ok_def list_all_iff)
  then have "channel_ok ?r (reset_attempt (rt_threads ?r ! k))" by (simp add: channel_ok_def)
  then show ?case using rt_ok_put [OF ok] notified(4) by (simp add: notify_step_def Let_def)
next
  case (enable rt ctx rt' err)
  then show ?case using rt_ok_enable by blast
next
  case (disable rt rt' err)
  then show ?case using disabled by blast
next
  case (thread rt k rt' now i)
  then show ?case using rt_ok_thread by simp
qed (simp_all add: rt_ok_same)

lemma rt_ok_new: "rt_ok (NewRealtimeSyncManager doubled s t opts)"
  by (simp add: NewRealtimeSyncManager_def rt_ok_def Let_def)

lemma rt_reach_ok: "rt_reach doubled nops sops tops (NewRealtimeSyncManager doubled s t opts) rt \<Longrightarrow> rt_ok rt"
  by (induction rule: rt_reach.induct) (auto intro: rt_ok_new rt_ok_step)

definition in_call :: "rt_thread \<Rightarrow> bool" where
  "in_call th \<longleftrightarrow> (case th of Handler c a pc \<Rightarrow> pc = HCall | _ \<Rightarrow> False)"

definition calls :: "('s, 't, 'n) realtime \<Rightarrow> nat" where
  "calls rt = length (filter in_call (rt_threads rt))"

fun waits :: "rt_thread \<Rightarrow> bool" where
  "waits (Handler c a pc) = (pc \<in> {HTop, HDelay} \<or> held (Handler c a pc) \<noteq> None)"
| "waits (Monitor c pc) = (pc = MTop \<or> held (Monitor c pc) \<noteq> None)"
| "waits (Poller c own pc) = (held (Poller c own pc) \<noteq> None)"
| "waits _ = False"

lemma filter_update_le:
  assumes "k < length xs" and "P x \<longrightarrow> P (xs ! k)"
  shows "length (filter P (xs[k := x])) \<le> length (filter P xs)"
proof -
  have "length (filter P ((as @ y # bs)[length as := x])) \<le> length (filter P (as @ y # bs))" if "P x \<longrightarrow> P y" for as y bs
    using that by simp
  from this [OF assms(2), of "take k xs" "drop (Suc k) xs"] show ?thesis
    using assms(1) by (simp add: id_take_nth_drop [OF assms(1), symmetric])
qed

lemma stopped_calls:
  assumes "rt_ok rt" and "rt_stop rt = None" and "k < length (rt_threads rt)"
  shows "calls (step_thread doubled nops sops tops k now i rt) \<le> calls rt"
proof (cases "run_thread doubled nops sops tops now i (rt_threads rt ! k) rt")
  case None
  then show ?thesis by (simp add: step_thread_def calls_def)
next
  case (Some r)
  obtain th rt' where r: "r = (th, rt')" by fastforce
  have f: "rt_frame rt rt'" and m: "moved rt (rt_threads rt ! k) th" using run_thread_moves Some r by blast+
  have call: "in_call x \<longleftrightarrow> (\<exists>c a. x = Handler c a HCall)" for x by (auto simp: in_call_def split: rt_thread.splits)
  obtain new where new: "rt_threads rt' = rt_threads rt @ new" "list_all (\<lambda>th. \<not> in_call th) new"
    using f unfolding rt_frame_def call by (auto simp: list_all_iff)
  have "channel_ok rt (rt_threads rt ! k)" using assms by (auto simp: rt_ok_def list_all_iff)
  then have "in_call th \<longrightarrow> in_call (rt_threads rt ! k)" using m assms(2) by (auto simp: moved_def in_call_def channel_ok_def split: rt_thread.splits)
  from filter_update_le [where P = in_call, OF assms(3) this] show ?thesis
    using new assms(3) Some r by (simp add: step_thread_def calls_def list_update_append list_all_iff filter_empty_conv)
qed

lemma stopped_waits:
  assumes "rt_ok rt" and "rt_stop rt = None" and "k < length (rt_threads rt)" and "waits (rt_threads rt ! k)"
  shows "rt_threads (step_thread doubled nops sops tops k now InGo rt) ! k = Done"
proof -
  have "channel_ok rt (rt_threads rt ! k)" using assms by (auto simp: rt_ok_def list_all_iff)
  then show ?thesis
    using assms(2-4) by (cases "rt_threads rt ! k" rule: held.cases) (auto simp: step_thread_def channel_ok_def stop_seen_def)
qed


section \<open>Scripts of thread steps\<close>

fun run_script ::
  "(int \<Rightarrow> int) \<Rightarrow> 'n notifier_ops \<Rightarrow> 's store_ops \<Rightarrow> 't transport_ops \<Rightarrow> (nat \<times> int \<times> rt_input) list \<Rightarrow> ('s, 't, 'n) realtime \<Rightarrow> ('s, 't, 'n) realtime" where
  "run_script doubled nops sops tops [] rt = rt"
| "run_script doubled nops sops tops ((k, now, i) # steps) rt =
     (if rt_crashed rt \<or> \<not> k < length (rt_threads rt) then rt else run_script doubled nops sops tops steps (step_thread doubled nops sops tops k now i rt))"

lemma rt_reach_trans:
  "rt_reach doubled nops sops tops b c \<Longrightarrow> rt_reach doubled nops sops tops a b \<Longrightarrow> rt_reach doubled nops sops tops a c"
  by (induction rule: rt_reach.induct) (auto intro: rt_reach.more)

lemma script_reach:
  "rt_reach doubled nops sops tops rt0 rt \<Longrightarrow> rt_reach doubled nops sops tops rt0 (run_script doubled nops sops tops steps rt)"
proof (induction steps arbitrary: rt)
  case (Cons x steps)
  obtain k now i where x: "x = (k, now, i)" by (cases x) auto
  show ?case
  proof (cases "rt_crashed rt \<or> \<not> k < length (rt_threads rt)")
    case False
    then show ?thesis using Cons.IH [OF rt_reach.more [OF Cons.prems rt_step.thread [OF _ _ refl]]] x by auto
  qed (use Cons.prems x in auto)
qed simp

lemmas rt_run_simps = step_thread_def spawn_def updateConnectionStatus_def updateReconnectAttempts_def stopFallbackPolling_def startFallbackPolling_def stop_seen_def

text \<open>The handler from a fresh start to the fallback, when the first subscription fails.\<close>

definition failing_start :: "go_error \<Rightarrow> (nat \<times> int \<times> rt_input) list" where
  "failing_start e = [(0, 0, InGo), (0, 0, InGo), (0, 0, InReturned (Some e)), (0, 0, InGo), (0, 0, InGo), (0, 0, InGo), (0, 0, InGo)]"

definition monitor_ticks :: "(nat \<times> int \<times> rt_input) list" where
  "monitor_ticks = [(1, 0, InGo), (1, 0, InTimer), (1, 0, InGo), (1, 0, InGo), (1, 0, InGo), (1, 0, InGo)]"

definition enabled :: "(int \<Rightarrow> int) \<Rightarrow> 's \<Rightarrow> 't \<Rightarrow> 'n realtime_options \<Rightarrow> ('s, 't, 'n) realtime" where
  "enabled doubled s t ro = fst (EnableRealtime 0 (NewRealtimeSyncManager doubled s t (Some ro)))"

lemma enabled_reach: "rt_reach doubled nops sops tops (NewRealtimeSyncManager doubled s t (Some ro)) (enabled doubled s t ro)"
proof -
  have "EnableRealtime 0 (NewRealtimeSyncManager doubled s t (Some ro)) = (enabled doubled s t ro, snd (EnableRealtime 0 (NewRealtimeSyncManager doubled s t (Some ro))))"
    by (simp add: enabled_def)
  moreover have "\<not> rt_crashed (NewRealtimeSyncManager doubled s t (Some ro))" by (simp add: NewRealtimeSyncManager_def Let_def)
  ultimately show ?thesis using rt_step.enable rt_reach.intros by metis
qed

lemma failing_start_result:
  assumes "ro_RealtimeNotifier ro = Some n0" and "\<not> ro_DisablePolling ro" and "0 < ro_FallbackInterval ro"
    and "rt = run_script doubled nops sops tops (failing_start e) (enabled doubled s t ro)"
  shows "\<not> rt_crashed rt \<and> rt_ticker rt = Some 1 \<and> rt_stop rt = Some 0 \<and> \<not> cs_Connected (rt_status rt) \<and> rt_options rt = ro
    \<and> rt_closed rt = [] \<and> rt_cancelled rt = [] \<and> rt_threads rt = [Handler 0 0 HDelay, Monitor 0 MTop, Poller 0 1 PTop]"
  using assms(1-3) unfolding assms(4) failing_start_def
  by (simp add: enabled_def EnableRealtime_def NewRealtimeSyncManager_def Let_def rt_run_simps)

text \<open>
  The fallback polling can crash the program. With a notifier and polling configured there is a run in which a subscription fails, the fallback starts, and
  the connection comes back before its goroutine reads the ticker: the goroutine dereferences nil and the program ends.
\<close>

theorem fallback_race_crashes:
  assumes "ro_RealtimeNotifier ro = Some n0" and "\<not> ro_DisablePolling ro" and "0 < ro_FallbackInterval ro" and "nf_IsConnected nops n1"
  shows "\<exists>rt. rt_reach doubled nops sops tops (NewRealtimeSyncManager doubled s t (Some ro)) rt \<and> rt_crashed rt"
proof -
  define e where "e = ErrorString ''connection refused''"
  define r1 where "r1 = run_script doubled nops sops tops (failing_start e) (enabled doubled s t ro)"
  note r = failing_start_result [OF assms(1-3) r1_def]
  define r2 where "r2 = set_notifier (Some n1) r1"
  have "rt_reach doubled nops sops tops (NewRealtimeSyncManager doubled s t (Some ro)) r1"
    unfolding r1_def by (rule script_reach [OF enabled_reach])
  moreover have "rt_step doubled nops sops tops r1 r2" unfolding r2_def using r assms(1) by (intro rt_step.notifier) auto
  ultimately have reach: "rt_reach doubled nops sops tops (NewRealtimeSyncManager doubled s t (Some ro)) r2" by (rule rt_reach.more)
  have "rt_crashed (run_script doubled nops sops tops (monitor_ticks @ [(2, 0, InGo)]) r2)"
    using r assms(4) by (simp add: r2_def set_notifier_def monitor_ticks_def rt_run_simps)
  then show ?thesis using script_reach [OF reach] by blast
qed

text \<open>With options that leave the fallback interval at zero, the first failed subscription crashes the program: a ticker with this interval panics.\<close>

lemma unset_interval_crashes:
  assumes "ro_RealtimeNotifier ro = Some n0" and "\<not> ro_DisablePolling ro" and "ro_FallbackInterval ro \<le> 0"
  shows "rt_crashed (run_script doubled nops sops tops (failing_start e) (enabled doubled s t ro))"
  using assms unfolding failing_start_def by (simp add: enabled_def EnableRealtime_def NewRealtimeSyncManager_def Let_def rt_run_simps)

text \<open>
  After the real-time mode was stopped, a handler whose subscription ends with an error, as it does when it is unsubscribed, starts the fallback once more before it ends. The poller
  ends at once, but its stopped ticker stays in place, so that after the next start of the real-time mode no fallback polling can be started.
\<close>

theorem stopped_handler_blocks_fallback:
  assumes "rt_stop rt = None" and "k < length (rt_threads rt)" and "rt_threads rt ! k = Handler ctx a (HErr e)" and "\<not> rt_crashed rt"
    and "\<not> ro_DisablePolling (rt_options rt)" and "0 < ro_FallbackInterval (rt_options rt)" and "rt_ticker rt = None"
    and "rt' = run_script doubled nops sops tops (replicate 5 (k, now, InGo) @ [(length (rt_threads rt), now, InGo)]) rt"
  shows "\<not> rt_crashed rt' \<and> rt_threads rt' ! k = Done \<and> rt_threads rt' ! length (rt_threads rt) = Done
    \<and> (\<exists>tk. rt_ticker rt' = Some tk \<and> tk \<in> set (rt_stopped rt'))
    \<and> (\<forall>c c'. startFallbackPolling c (fst (EnableRealtime c' rt')) = Some (fst (EnableRealtime c' rt')))"
proof -
  have s: "replicate 5 x = [x, x, x, x, x]" for x :: "nat \<times> int \<times> rt_input" by (simp add: numeral_eq_Suc)
  have ne: "length (rt_threads rt) \<noteq> k" using assms(2) by simp
  have r: "rt_stop rt' = None \<and> \<not> rt_crashed rt' \<and> rt_threads rt' ! k = Done \<and> rt_threads rt' ! length (rt_threads rt) = Done
    \<and> rt_ticker rt' = Some (rt_next rt) \<and> rt_next rt \<in> set (rt_stopped rt')"
    unfolding assms(8) s using assms(1-7) ne by (simp add: rt_run_simps nth_append list_update_append nth_list_update)
  then show ?thesis by (simp add: startFallbackPolling_def EnableRealtime_def spawn_def)
qed

section \<open>Background syncs\<close>

text \<open>
  A background sync that succeeds notifies every subscriber twice with the same result: once at the end of \<open>Sync\<close> itself, and again after it.
\<close>

theorem background_sync_notifies_twice:
  assumes "background_sync en sops tops rt = Some rt'" and "Sync en sops tops (rt_manager rt) = Some (w, Inr result)"
  shows "\<exists>before metrics. mg_trace (rt_manager rt') = before @ map (\<lambda>h. NotifySubscriber h result) (mg_subscribers w) @ metrics
      @ map (\<lambda>h. NotifySubscriber h result) (mg_subscribers w) \<and> (\<forall>h r. NotifySubscriber h r \<notin> set metrics)"
proof -
  have w: "rt_manager rt' = notifySubscribers result w" using assms by (auto simp: background_sync_def)
  obtain start w2 r where "sync_finish en start w2 r = (w, result)"
    using assms(2) by (auto simp: Sync_def Let_def split: if_splits prod.splits option.splits bind_splits)
  then obtain w0 metrics where "w = emit metrics (tick (notifySubscribers result w0))" "\<forall>h r. NotifySubscriber h r \<notin> set metrics"
    by (auto simp: sync_finish_def Let_def)
  then have "mg_trace w = mg_trace w0 @ map (\<lambda>h. NotifySubscriber h result) (mg_subscribers w0) @ metrics" "mg_subscribers w = mg_subscribers w0"
    by (simp_all add: notifySubscribers_def emit_def tick_def)
  then show ?thesis using w \<open>\<forall>h r. NotifySubscriber h r \<notin> set metrics\<close> by (auto simp: notifySubscribers_def emit_def)
qed

section \<open>Delays\<close>

text \<open>No delay exceeds the maximum of the strategy, whatever the floating point result is, nor five minutes.\<close>

lemma reconnect_delay_bounds:
  "NextDelay_exponential eb n \<le> eb_MaxDelay eb" "reconnect_delay doubled ro n \<le> 300 * 10 ^ 9"
  by (simp_all add: NextDelay_exponential_def min_duration_def reconnect_delay_def Let_def)

text \<open>
  With the default strategy the delays double from one second up to thirty. Powers of two are exact in floating point; a product that exceeds the range of a duration is converted to a
  negative value or to one above the maximum.
\<close>

theorem default_reconnect_delay:
  assumes "0 \<le> n" and "\<And>k. 0 < k \<Longrightarrow> (if 10 ^ 9 * 2 ^ nat k < (2 ^ 63 :: int) then doubled k = 10 ^ 9 * 2 ^ nat k else doubled k < 0 \<or> doubled k > 30 * 10 ^ 9)"
    and "ro_ReconnectBackoff ro = None \<or> ro_ReconnectBackoff ro = Some (default_backoff doubled)"
  shows "reconnect_delay doubled ro n = min (30 * 10 ^ 9) (10 ^ 9 * 2 ^ nat n)"
proof -
  have b: "(case ro_ReconnectBackoff ro of None \<Rightarrow> default_backoff doubled | Some b \<Rightarrow> b) = default_backoff doubled" using assms(3) by auto
  have "(10 ^ 9 * 2 ^ nat n :: int) \<ge> 30 * 10 ^ 9" if "\<not> 10 ^ 9 * 2 ^ nat n < (2 ^ 63 :: int)" using that by simp
  then have "NextDelay (default_backoff doubled) n = min (30 * 10 ^ 9) (10 ^ 9 * 2 ^ nat n)"
    using assms(1) assms(2) [of n]
    by (cases "n = 0"; cases "10 ^ 9 * 2 ^ nat n < (2 ^ 63 :: int)") (auto simp: default_backoff_def NextDelay_exponential_def min_duration_def Let_def min_def not_less)
  then show ?thesis unfolding reconnect_delay_def b by (simp add: Let_def min_def)
qed

section \<open>Witnesses\<close>

text \<open>A notifier whose state is whether it is connected.\<close>

definition flag_notifier :: "bool notifier_ops" where
  "flag_notifier = \<lparr>nf_Unsubscribe = (\<lambda>_. (False, None)), nf_IsConnected = (\<lambda>b. b), nf_Close = (\<lambda>_. (False, None))\<rparr>"

definition doubling :: "int \<Rightarrow> int" where
  "doubling n = (if 10 ^ 9 * 2 ^ nat n < (2 ^ 63 :: int) then 10 ^ 9 * 2 ^ nat n else - (2 ^ 63))"

definition flag_options :: "bool realtime_options" where
  "flag_options = (default_realtime_options doubling)\<lparr>ro_RealtimeNotifier := Some False\<rparr>"

definition quiet_remote :: loop_remote where
  "quiet_remote = \<lparr>offered = [], received = []\<rparr>"

definition started :: "(mem_store, loop_remote, bool) realtime" where
  "started = enabled doubling New_store quiet_remote flag_options"

text \<open>Stopped while the handler looks at its channel, and while its subscription returns an error.\<close>

definition stopped_early :: "(mem_store, loop_remote, bool) realtime" where
  "stopped_early = fst (the (DisableRealtime flag_notifier (run_script doubling flag_notifier memstore_ops loop_ops [(0, 0, InGo)] started)))"

definition stopped_late :: "(mem_store, loop_remote, bool) realtime" where
  "stopped_late = fst (the (DisableRealtime flag_notifier
     (run_script doubling flag_notifier memstore_ops loop_ops [(0, 0, InGo), (0, 0, InGo), (0, 0, InReturned (Some DeadlineExceeded))] started)))"

lemmas started_simps = started_def enabled_def EnableRealtime_def NewRealtimeSyncManager_def flag_options_def default_realtime_options_def DisableRealtime_def
  set_notifier_def flag_notifier_def Let_def rt_run_simps

lemma stopped_early_reach:
  "rt_reach doubling flag_notifier memstore_ops loop_ops (NewRealtimeSyncManager doubling New_store quiet_remote (Some flag_options)) stopped_early"
proof -
  let ?r = "run_script doubling flag_notifier memstore_ops loop_ops [(0, 0, InGo)] started"
  have "DisableRealtime flag_notifier ?r = Some (stopped_early, None)" "\<not> rt_crashed ?r" by (simp_all add: stopped_early_def started_simps)
  then show ?thesis using script_reach [OF enabled_reach] rt_step.disable rt_reach.more unfolding started_def by metis
qed


theorem fallback_race_crashes_witness:
  "\<exists>rt. rt_reach doubling flag_notifier memstore_ops loop_ops (NewRealtimeSyncManager doubling New_store quiet_remote (Some flag_options)) rt \<and> rt_crashed rt"
  by (rule fallback_race_crashes [where ?n0.0 = False and ?n1.0 = True]) (simp_all add: flag_options_def default_realtime_options_def flag_notifier_def)

theorem stopped_handler_blocks_fallback_witness:
  "\<exists>rt'. rt' = run_script doubling flag_notifier memstore_ops loop_ops (replicate 5 (0, 0, InGo) @ [(2, 0, InGo)]) stopped_late
    \<and> startFallbackPolling 1 (fst (EnableRealtime 1 rt')) = Some (fst (EnableRealtime 1 rt')) \<and> rt_ticker rt' \<noteq> None"
proof -
  have l: "length (rt_threads stopped_late) = 2" by (simp add: stopped_late_def started_simps)
  have "rt_stop stopped_late = None" "0 < length (rt_threads stopped_late)" "rt_threads stopped_late ! 0 = Handler 0 0 (HErr DeadlineExceeded)" "\<not> rt_crashed stopped_late"
    "\<not> ro_DisablePolling (rt_options stopped_late)" "0 < ro_FallbackInterval (rt_options stopped_late)" "rt_ticker stopped_late = None"
    by (simp_all add: stopped_late_def started_simps)
  from stopped_handler_blocks_fallback [OF this refl, of doubling flag_notifier memstore_ops loop_ops 0] show ?thesis unfolding l by auto
qed

definition subscribed_rt :: "(mem_store, loop_remote, bool) realtime" where
  "subscribed_rt = started\<lparr>rt_manager := (rt_manager started)\<lparr>mg_subscribers := [4]\<rparr>\<rparr>"

lemma subscribed_sync: "(case Sync sample_env memstore_ops loop_ops (rt_manager subscribed_rt) of Some (w, Inr r) \<Rightarrow> mg_subscribers w = [4] | _ \<Rightarrow> False)"
  by code_simp

theorem background_sync_notifies_twice_witness:
  "\<exists>rt' result before metrics. background_sync sample_env memstore_ops loop_ops subscribed_rt = Some rt'
    \<and> mg_trace (rt_manager rt') = before @ [NotifySubscriber 4 result] @ metrics @ [NotifySubscriber 4 result]"
proof -
  obtain w x where S': "Sync sample_env memstore_ops loop_ops (rt_manager subscribed_rt) = Some (w, x)"
    using subscribed_sync by (cases "Sync sample_env memstore_ops loop_ops (rt_manager subscribed_rt)") auto
  then obtain r where S: "Sync sample_env memstore_ops loop_ops (rt_manager subscribed_rt) = Some (w, Inr r)" and w: "mg_subscribers w = [4]"
    using subscribed_sync by (cases x) auto
  obtain rt' where "background_sync sample_env memstore_ops loop_ops subscribed_rt = Some rt'" using S by (simp add: background_sync_def)
  with background_sync_notifies_twice [OF this S] w show ?thesis by auto
qed

theorem default_reconnect_delay_witness: "reconnect_delay doubling flag_options 3 = 8 * 10 ^ 9"
proof -
  have "reconnect_delay doubling flag_options 3 = min (30 * 10 ^ 9) (10 ^ 9 * 2 ^ nat 3)"
    by (rule default_reconnect_delay) (auto simp: doubling_def flag_options_def default_realtime_options_def)
  then show ?thesis by simp
qed

end
