(* ===== verification/Stateful_Realtime.thy ===== *)
theory Stateful_Realtime
  imports Realtime_Properties Transport_State
begin

text \<open>
  The real-time manager with a transport state machine (synckit/stateful\_realtime.go): the real-time manager of \<open>Realtime\<close>, the transport manager of \<open>Transport_State\<close>, and
  the goroutines between them: notifications of the machine that are still to be delivered, handler calls that the transport manager started, starts of the fallback polling and
  reconnection attempts. A stamp holds the time read for the metadata of a transition, the time the machine reads, and the identifier of the transition.
  Log output and the map for display of \<open>GetEnhancedConnectionStatus\<close> are left out.
\<close>

type_synonym stamp = "int \<times> int \<times> string"

record 'n stateful_realtime_options =
  so_Realtime :: "'n realtime_options"
  so_TransportStateConfig :: transport_manager_config
  so_EnableTransportStateLogging :: bool
  so_ConnectionTimeout :: int
  so_MaxConnectionAttempts :: int
  so_ConnectionRetryDelay :: int

text \<open>A reconnection attempt before its first step, inside \<open>Subscribe\<close>, or over.\<close>

datatype reconnect_pc = RTop | RCall | ROver

record ('s, 't, 'n) stateful_rt =
  sr_rt :: "('s, 't, 'n) realtime"
  sr_tm :: transport_manager
  sr_pending :: transport_effects
  sr_handlers :: "(nat \<times> transport_state state_transition) list"
  sr_starts :: nat
  sr_reconnects :: "reconnect_pc list"

definition stateful_id :: nat where "stateful_id = 0"

text \<open>The context that is never cancelled.\<close>

definition background_ctx :: nat where "background_ctx = 0"

definition set_stateful_defaults :: "'n stateful_realtime_options \<Rightarrow> 'n stateful_realtime_options" where
  "set_stateful_defaults c =
     c\<lparr>so_ConnectionTimeout := (if so_ConnectionTimeout c = 0 then 30 * 10 ^ 9 else so_ConnectionTimeout c),
       so_MaxConnectionAttempts := (if so_MaxConnectionAttempts c = 0 then 5 else so_MaxConnectionAttempts c),
       so_ConnectionRetryDelay := (if so_ConnectionRetryDelay c = 0 then 2 * 10 ^ 9 else so_ConnectionRetryDelay c)\<rparr>"

definition NewStatefulRealtimeSyncManager ::
  "(int \<Rightarrow> int) \<Rightarrow> int \<Rightarrow> 's \<Rightarrow> 't \<Rightarrow> 'n stateful_realtime_options option \<Rightarrow> go_error + ('s, 't, 'n) stateful_rt" where
  "NewStatefulRealtimeSyncManager doubled now store transport opts = (case opts of
       None \<Rightarrow> Inl (ErrorString ''options cannot be nil'')
     | Some o0 \<Rightarrow>
         let opts = set_stateful_defaults o0;
             base = NewRealtimeSyncManager doubled store transport (Some (so_Realtime opts));
             c0 = so_TransportStateConfig opts;
             c1 = (if tc_ComponentName c0 = [] then c0\<lparr>tc_ComponentName := ''realtime_transport''\<rparr> else c0);
             c2 = (if tc_Endpoint c1 = [] then c1\<lparr>tc_Endpoint := ''realtime_connection''\<rparr> else c1)
         in (case NewTransportStateManager now c2 of
               Inl err \<Rightarrow> Inl (WrapError ''failed to create transport state manager: '' err)
             | Inr tsm \<Rightarrow> (case SubscribeToStateChanges tsm (Some stateful_id) of
                 (_, Some err) \<Rightarrow> Inl err
               | (tsm', None) \<Rightarrow> Inr \<lparr>sr_rt = base, sr_tm = tsm', sr_pending = [], sr_handlers = [], sr_starts = 0, sr_reconnects = []\<rparr>)))"

section \<open>Reactions to transport states\<close>

definition text_of :: "metadata \<Rightarrow> string \<Rightarrow> string \<Rightarrow> string" where
  "text_of md k dflt = (case gm_lookup md k of Some (GString s) \<Rightarrow> s | _ \<Rightarrow> dflt)"

definition onTransportConnected :: "int \<Rightarrow> ('s, 't, 'n) stateful_rt \<Rightarrow> ('s, 't, 'n) stateful_rt" where
  "onTransportConnected now sr = sr\<lparr>sr_rt := stopFallbackPolling (updateConnectionStatus True now None (sr_rt sr))\<rparr>"

text \<open>The connection is lost; unless polling is disabled a goroutine starts the fallback.\<close>

definition connection_lost :: "go_error \<Rightarrow> ('s, 't, 'n) stateful_rt \<Rightarrow> ('s, 't, 'n) stateful_rt" where
  "connection_lost err sr =
     sr\<lparr>sr_rt := updateConnectionStatus False zero_time (Some err) (sr_rt sr),
        sr_starts := (if \<not> ro_DisablePolling (rt_options (sr_rt sr)) then Suc (sr_starts sr) else sr_starts sr)\<rparr>"

definition onTransportDisconnected :: "transport_state state_transition \<Rightarrow> ('s, 't, 'n) stateful_rt \<Rightarrow> ('s, 't, 'n) stateful_rt" where
  "onTransportDisconnected t sr = connection_lost (ErrorString (''disconnected: '' @ text_of (st_Metadata t) ''disconnect_reason'' ''unknown'')) sr"

definition onTransportFailed :: "transport_state state_transition \<Rightarrow> ('s, 't, 'n) stateful_rt \<Rightarrow> ('s, 't, 'n) stateful_rt" where
  "onTransportFailed t sr = connection_lost (ErrorString (text_of (st_Metadata t) ''error'' ''transport failed'')) sr"

definition handleTransportStateChange :: "int \<Rightarrow> transport_state state_transition \<Rightarrow> ('s, 't, 'n) stateful_rt \<Rightarrow> ('s, 't, 'n) stateful_rt" where
  "handleTransportStateChange now t sr = (case st_To t of
       TransportConnected \<Rightarrow> onTransportConnected now sr
     | TransportDisconnected \<Rightarrow> onTransportDisconnected t sr
     | TransportFailed \<Rightarrow> onTransportFailed t sr
     | _ \<Rightarrow> sr)"

section \<open>Calls of users\<close>

definition tm_apply :: "transport_manager \<times> transport_effects \<times> go_error option \<Rightarrow> ('s, 't, 'n) stateful_rt \<Rightarrow> ('s, 't, 'n) stateful_rt" where
  "tm_apply r sr = sr\<lparr>sr_tm := fst r, sr_pending := sr_pending sr @ fst (snd r)\<rparr>"

fun with_stamp :: "(int \<Rightarrow> int \<Rightarrow> string \<Rightarrow> 'a) \<Rightarrow> stamp \<Rightarrow> 'a" where
  "with_stamp f (at, now, tid) = f at now tid"

definition to_connecting :: "time_fmt \<Rightarrow> stamp \<Rightarrow> transport_manager \<Rightarrow> transport_manager \<times> transport_effects \<times> go_error option" where
  "to_connecting tf s tsm = with_stamp (TransitionToConnecting tf) s tsm (30 * 10 ^ 9)"

text \<open>\<open>elapsed\<close> is \<open>time.Since(start)\<close>. The error passed to \<open>TransitionToFailed\<close> is never nil, so that it does not panic.\<close>

definition to_failed :: "time_fmt \<Rightarrow> stamp \<Rightarrow> go_error \<Rightarrow> int \<Rightarrow> transport_manager \<Rightarrow> transport_manager \<times> transport_effects \<times> go_error option" where
  "to_failed tf s err elapsed tsm = the (with_stamp (TransitionToFailed tf) s tsm (Some err) 1 elapsed)"

definition to_connected :: "time_fmt \<Rightarrow> stamp \<Rightarrow> int \<Rightarrow> transport_manager \<Rightarrow> transport_manager \<times> transport_effects \<times> go_error option" where
  "to_connected tf s elapsed tsm = with_stamp (TransitionToConnected tf) s tsm elapsed"

definition EnhancedEnableRealtime ::
  "time_fmt \<Rightarrow> stamp \<Rightarrow> stamp \<Rightarrow> int \<Rightarrow> nat \<Rightarrow> ('s, 't, 'n) stateful_rt \<Rightarrow> ('s, 't, 'n) stateful_rt \<times> go_error option" where
  "EnhancedEnableRealtime tf s1 s2 elapsed ctx sr =
     (let currentState = GetConnectionState (sr_tm sr) in
      if \<not> CanConnect currentState \<and> currentState \<noteq> TransportDisconnected
      then (sr, Some (ErrorString (''cannot enable realtime from transport state: '' @ TransportState_String currentState)))
      else let r1 = to_connecting tf s1 (sr_tm sr); sr1 = tm_apply r1 sr in
        (case snd (snd r1) of
           Some err \<Rightarrow> (sr1, Some (WrapError ''failed to transition to connecting state: '' err))
         | None \<Rightarrow> (case EnableRealtime ctx (sr_rt sr1) of
             (rt, Some err) \<Rightarrow> (tm_apply (to_failed tf s2 err elapsed (sr_tm sr1)) (sr1\<lparr>sr_rt := rt\<rparr>), Some err)
           | (rt, None) \<Rightarrow> (tm_apply (to_connected tf s2 elapsed (sr_tm sr1)) (sr1\<lparr>sr_rt := rt\<rparr>), None))))"

definition EnhancedDisableRealtime ::
  "time_fmt \<Rightarrow> stamp \<Rightarrow> stamp \<Rightarrow> 'n notifier_ops \<Rightarrow> ('s, 't, 'n) stateful_rt \<Rightarrow> (('s, 't, 'n) stateful_rt \<times> go_error option) go" where
  "EnhancedDisableRealtime tf s1 s2 nops sr = do {
     let sr1 = tm_apply (with_stamp (TransitionToShuttingDown tf) s1 (sr_tm sr) ''realtime_disabled'') sr;
     (rt, err) \<leftarrow> DisableRealtime nops (sr_rt sr1);
     let sr2 = sr1\<lparr>sr_rt := rt\<rparr>;
     Some (if err = None then tm_apply (with_stamp (TransitionToDisconnected tf) s2 (sr_tm sr2) ''realtime_disabled'' True) sr2 else sr2, err) }"

definition EnhancedClose ::
  "time_fmt \<Rightarrow> stamp \<Rightarrow> 'n notifier_ops \<Rightarrow> 's store_ops \<Rightarrow> 't transport_ops \<Rightarrow> ('s, 't, 'n) stateful_rt \<Rightarrow> (('s, 't, 'n) stateful_rt \<times> go_error option) go" where
  "EnhancedClose tf s1 nops sops tops sr = do {
     let sr1 = tm_apply (with_stamp (Close_transport_manager tf) s1 (sr_tm sr)) sr;
     (rt, err) \<leftarrow> Close_realtime nops sops tops (sr_rt sr1);
     Some (sr1\<lparr>sr_rt := rt\<rparr>, err) }"

section \<open>Health checks and reconnection\<close>

definition performHealthCheck :: "time_fmt \<Rightarrow> stamp \<Rightarrow> 'n notifier_ops \<Rightarrow> ('s, 't, 'n) stateful_rt \<Rightarrow> ('s, 't, 'n) stateful_rt" where
  "performHealthCheck tf s1 nops sr =
     (let currentState = GetConnectionState (sr_tm sr) in
      if currentState \<in> {TransportShuttingDown, TransportConnecting, TransportReconnecting} then sr
      else (case ro_RealtimeNotifier (rt_options (sr_rt sr)) of
        None \<Rightarrow> sr
      | Some n \<Rightarrow>
          if currentState = TransportConnected \<and> \<not> nf_IsConnected nops n
          then let r = with_stamp (TransitionToReconnecting tf) s1 (sr_tm sr) ''health_check_failed'' 1 (2 * 10 ^ 9); sr1 = tm_apply r sr
               in (if snd (snd r) \<noteq> None then sr1 else sr1\<lparr>sr_reconnects := sr_reconnects sr1 @ [RTop]\<rparr>)
          else if currentState \<in> {TransportDisconnected, TransportFailed} \<and> IsRealtimeActive (sr_rt sr)
          then sr\<lparr>sr_reconnects := sr_reconnects sr @ [RTop]\<rparr>
          else sr))"

text \<open>A reconnection attempt up to the call of \<open>Subscribe\<close>, and after it.\<close>

definition reconnect_begin :: "time_fmt \<Rightarrow> stamp \<Rightarrow> 'n notifier_ops \<Rightarrow> ('s, 't, 'n) stateful_rt \<Rightarrow> reconnect_pc \<times> ('s, 't, 'n) stateful_rt" where
  "reconnect_begin tf s nops sr =
     (let currentState = GetConnectionState (sr_tm sr);
          (sr1, err) = (if CanConnect currentState then let r = to_connecting tf s (sr_tm sr) in (tm_apply r sr, snd (snd r)) else (sr, None))
      in if err \<noteq> None then (ROver, sr1)
         else (case ro_RealtimeNotifier (rt_options (sr_rt sr1)) of
           None \<Rightarrow> (ROver, sr1)
         | Some n \<Rightarrow> (RCall, sr1\<lparr>sr_rt := set_notifier (Some (fst (nf_Unsubscribe nops n))) (sr_rt sr1)\<rparr>)))"

definition reconnect_end :: "time_fmt \<Rightarrow> stamp \<Rightarrow> int \<Rightarrow> go_error option \<Rightarrow> ('s, 't, 'n) stateful_rt \<Rightarrow> ('s, 't, 'n) stateful_rt" where
  "reconnect_end tf s elapsed res sr = (case res of
       Some err \<Rightarrow> tm_apply (to_failed tf s err elapsed (sr_tm sr)) sr
     | None \<Rightarrow> tm_apply (to_connected tf s elapsed (sr_tm sr)) sr)"

section \<open>Interleavings\<close>

inductive sr_step ::
  "(int \<Rightarrow> int) \<Rightarrow> time_fmt \<Rightarrow> 'n notifier_ops \<Rightarrow> 's store_ops \<Rightarrow> 't transport_ops \<Rightarrow> ('s, 't, 'n) stateful_rt \<Rightarrow> ('s, 't, 'n) stateful_rt \<Rightarrow> bool"
  for doubled tf nops sops tops where
  enable: "EnhancedEnableRealtime tf s1 s2 elapsed ctx sr = (sr', err) \<Longrightarrow> sr_step doubled tf nops sops tops sr sr'"
| disable: "EnhancedDisableRealtime tf s1 s2 nops sr = Some (sr', err) \<Longrightarrow> sr_step doubled tf nops sops tops sr sr'"
| close: "EnhancedClose tf s1 nops sops tops sr = Some (sr', err) \<Longrightarrow> sr_step doubled tf nops sops tops sr sr'"
| subscribe: "SubscribeToStateChanges (sr_tm sr) h = (tsm, err) \<Longrightarrow> sr_step doubled tf nops sops tops sr (sr\<lparr>sr_tm := tsm\<rparr>)"
| health: "sr_step doubled tf nops sops tops sr (performHealthCheck tf s1 nops sr)"
| reconnect: "k < length (sr_reconnects sr) \<Longrightarrow> sr_reconnects sr ! k = RTop \<Longrightarrow> reconnect_begin tf s nops sr = (pc, sr') \<Longrightarrow>
    sr_step doubled tf nops sops tops sr (sr'\<lparr>sr_reconnects := (sr_reconnects sr')[k := pc]\<rparr>)"
| reconnected: "k < length (sr_reconnects sr) \<Longrightarrow> sr_reconnects sr ! k = RCall \<Longrightarrow> sr' = reconnect_end tf s elapsed res sr \<Longrightarrow>
    sr_step doubled tf nops sops tops sr (sr'\<lparr>sr_reconnects := (sr_reconnects sr')[k := ROver]\<rparr>)"
| realtime: "rt_step doubled nops sops tops (sr_rt sr) rt \<Longrightarrow> sr_step doubled tf nops sops tops sr (sr\<lparr>sr_rt := rt\<rparr>)"
| deliver: "sr_pending sr = P1 @ NotifyTransition manager_id t # P2 \<Longrightarrow> OnTransition_manager (sr_tm sr) t = (tsm, hs) \<Longrightarrow>
    sr_step doubled tf nops sops tops sr (sr\<lparr>sr_tm := tsm, sr_pending := P1 @ P2, sr_handlers := sr_handlers sr @ hs\<rparr>)"
| deliver_other: "sr_pending sr = P1 @ x # P2 \<Longrightarrow> (\<And>t. x \<noteq> NotifyTransition manager_id t) \<Longrightarrow> sr_step doubled tf nops sops tops sr (sr\<lparr>sr_pending := P1 @ P2\<rparr>)"
| handled: "sr_handlers sr = H1 @ (h, t) # H2 \<Longrightarrow> sr' = (if h = stateful_id then handleTransportStateChange now t sr else sr) \<Longrightarrow>
    sr_step doubled tf nops sops tops sr (sr'\<lparr>sr_handlers := H1 @ H2\<rparr>)"
| fallback: "sr_starts sr = Suc n \<Longrightarrow> startFallbackPolling background_ctx (sr_rt sr) = Some rt \<Longrightarrow> sr_step doubled tf nops sops tops sr (sr\<lparr>sr_rt := rt, sr_starts := n\<rparr>)"

inductive sr_reach ::
  "(int \<Rightarrow> int) \<Rightarrow> time_fmt \<Rightarrow> 'n notifier_ops \<Rightarrow> 's store_ops \<Rightarrow> 't transport_ops \<Rightarrow> ('s, 't, 'n) stateful_rt \<Rightarrow> ('s, 't, 'n) stateful_rt \<Rightarrow> bool"
  for doubled tf nops sops tops sr0 where
  start: "sr_reach doubled tf nops sops tops sr0 sr0"
| more: "sr_reach doubled tf nops sops tops sr0 sr \<Longrightarrow> sr_step doubled tf nops sops tops sr sr' \<Longrightarrow> sr_reach doubled tf nops sops tops sr0 sr'"

section \<open>The transport manager inside\<close>

text \<open>Whatever happens to the whole, its transport manager is in a state that its own calls and notifications lead to.\<close>

definition tm_good :: "time_fmt \<Rightarrow> ('s, 't, 'n) stateful_rt \<Rightarrow> bool" where
  "tm_good tf sr \<longleftrightarrow> (\<exists>A D. tm_reach tf (sr_tm sr) (sr_pending sr) A D)"

definition down :: "('s, 't, 'n) stateful_rt \<Rightarrow> bool" where
  "down sr \<longleftrightarrow> GetConnectionState (sr_tm sr) = TransportShuttingDown"

text \<open>A call of the transport manager: the result is reachable again, and ShuttingDown is never left.\<close>

definition keeps :: "time_fmt \<Rightarrow> ('s, 't, 'n) stateful_rt \<Rightarrow> ('s, 't, 'n) stateful_rt \<Rightarrow> bool" where
  "keeps tf sr sr' \<longleftrightarrow> (tm_good tf sr \<longrightarrow> tm_good tf sr' \<and> (down sr \<longrightarrow> down sr'))"

lemma keeps_trans: "keeps tf a b \<Longrightarrow> keeps tf b c \<Longrightarrow> keeps tf a c"
  by (auto simp: keeps_def)

lemma keeps_same: "sr_tm sr' = sr_tm sr \<Longrightarrow> sr_pending sr' = sr_pending sr \<Longrightarrow> keeps tf sr sr'"
  by (simp add: keeps_def tm_good_def down_def)

lemma keeps_call:
  assumes "tm_call tf (sr_tm sr) tsm eff" and "sr_tm sr' = tsm" and "sr_pending sr' = sr_pending sr @ eff"
  shows "keeps tf sr sr'"
  unfolding keeps_def
proof
  assume "tm_good tf sr"
  then obtain A D where r: "tm_reach tf (sr_tm sr) (sr_pending sr) A D" by (auto simp: tm_good_def)
  have "tm_good tf sr'" using tm_reach.call [OF r assms(1)] assms(2,3) by (auto simp: tm_good_def)
  then show "tm_good tf sr' \<and> (down sr \<longrightarrow> down sr')" using manager_calls(4) [OF r _ assms(1)] assms(2) by (simp add: down_def)
qed

lemma keeps_apply: "tm_call tf (sr_tm sr) (fst r) (fst (snd r)) \<Longrightarrow> keeps tf sr (tm_apply r sr)"
  by (rule keeps_call) (simp_all add: tm_apply_def)

lemma stamped_calls:
  "tm_call tf tsm (fst (to_connecting tf s tsm)) (fst (snd (to_connecting tf s tsm)))"
  "tm_call tf tsm (fst (to_connected tf s elapsed tsm)) (fst (snd (to_connected tf s elapsed tsm)))"
  "tm_call tf tsm (fst (to_failed tf s err elapsed tsm)) (fst (snd (to_failed tf s err elapsed tsm)))"
  "tm_call tf tsm (fst (with_stamp (TransitionToShuttingDown tf) s tsm reason)) (fst (snd (with_stamp (TransitionToShuttingDown tf) s tsm reason)))"
  "tm_call tf tsm (fst (with_stamp (TransitionToDisconnected tf) s tsm reason b)) (fst (snd (with_stamp (TransitionToDisconnected tf) s tsm reason b)))"
  "tm_call tf tsm (fst (with_stamp (TransitionToReconnecting tf) s tsm reason n d)) (fst (snd (with_stamp (TransitionToReconnecting tf) s tsm reason n d)))"
  "tm_call tf tsm (fst (with_stamp (Close_transport_manager tf) s tsm)) (fst (snd (with_stamp (Close_transport_manager tf) s tsm)))"
proof -
  obtain at now tid where s: "s = (at, now, tid)" by (cases s) auto
  obtain f where "TransitionToFailed tf at now tid tsm (Some err) 1 elapsed = Some f" by (simp add: TransitionToFailed_def FailedMetadata_def)
  then show "tm_call tf tsm (fst (to_failed tf s err elapsed tsm)) (fst (snd (to_failed tf s err elapsed tsm)))"
    unfolding s to_failed_def by (cases f) (auto intro: tm_call.failed)
qed (cases s; auto simp: to_connecting_def to_connected_def intro: tm_call.intros prod_cases3; metis prod.collapse tm_call.intros)+

lemma tm_apply_fields [simp]:
  "sr_rt (tm_apply r sr) = sr_rt sr" "sr_tm (tm_apply r sr) = fst r" "sr_reconnects (tm_apply r sr) = sr_reconnects sr"
  by (simp_all add: tm_apply_def)

lemma keeps_stamped:
  "keeps tf sr (tm_apply (to_connecting tf s (sr_tm sr)) sr)" "keeps tf sr (tm_apply (to_connected tf s elapsed (sr_tm sr)) sr)"
  "keeps tf sr (tm_apply (to_failed tf s err elapsed (sr_tm sr)) sr)"
  "keeps tf sr (tm_apply (with_stamp (TransitionToShuttingDown tf) s (sr_tm sr) reason) sr)"
  "keeps tf sr (tm_apply (with_stamp (TransitionToDisconnected tf) s (sr_tm sr) reason b) sr)"
  "keeps tf sr (tm_apply (with_stamp (TransitionToReconnecting tf) s (sr_tm sr) reason n d) sr)"
  "keeps tf sr (tm_apply (with_stamp (Close_transport_manager tf) s (sr_tm sr)) sr)"
  by (intro keeps_apply stamped_calls)+

text \<open>The transport side of the calls: first one transition, then another on its result.\<close>

lemma keeps_second:
  assumes "keeps tf sr sr1"
  shows "keeps tf sr (sr1\<lparr>sr_rt := rt\<rparr>)"
    "keeps tf sr (tm_apply (to_connected tf s elapsed (sr_tm sr1)) (sr1\<lparr>sr_rt := rt\<rparr>))"
    "keeps tf sr (tm_apply (to_failed tf s err elapsed (sr_tm sr1)) (sr1\<lparr>sr_rt := rt\<rparr>))"
    "keeps tf sr (tm_apply (with_stamp (TransitionToDisconnected tf) s (sr_tm sr1) reason b) (sr1\<lparr>sr_rt := rt\<rparr>))"
proof -
  have k: "keeps tf sr (sr1\<lparr>sr_rt := rt\<rparr>)" by (rule keeps_trans [OF assms keeps_same]) simp_all
  then show "keeps tf sr (sr1\<lparr>sr_rt := rt\<rparr>)" .
  have e: "sr_tm sr1 = sr_tm (sr1\<lparr>sr_rt := rt\<rparr>)" by simp
  show "keeps tf sr (tm_apply (to_connected tf s elapsed (sr_tm sr1)) (sr1\<lparr>sr_rt := rt\<rparr>))"
    "keeps tf sr (tm_apply (to_failed tf s err elapsed (sr_tm sr1)) (sr1\<lparr>sr_rt := rt\<rparr>))"
    "keeps tf sr (tm_apply (with_stamp (TransitionToDisconnected tf) s (sr_tm sr1) reason b) (sr1\<lparr>sr_rt := rt\<rparr>))"
    unfolding e by (intro keeps_trans [OF k] keeps_stamped)+
qed

lemma keeps_enable: "EnhancedEnableRealtime tf s1 s2 elapsed ctx sr = (sr', err) \<Longrightarrow> keeps tf sr sr'"
  by (auto simp: EnhancedEnableRealtime_def Let_def keeps_same keeps_stamped keeps_second [OF keeps_stamped(1)] simp del: tm_apply_fields(2)
      split: if_splits option.splits prod.splits)

lemma keeps_disable: "EnhancedDisableRealtime tf s1 s2 nops sr = Some (sr', err) \<Longrightarrow> keeps tf sr sr'"
  by (auto simp: EnhancedDisableRealtime_def Let_def keeps_second [OF keeps_stamped(4)] simp del: tm_apply_fields(2) split: if_splits bind_splits)

lemma keeps_close: "EnhancedClose tf s1 nops sops tops sr = Some (sr', err) \<Longrightarrow> keeps tf sr sr'"
  by (auto simp: EnhancedClose_def Let_def keeps_second [OF keeps_stamped(7)] split: bind_splits)

lemma keeps_health: "keeps tf sr (performHealthCheck tf s1 nops sr)"
proof -
  have "keeps tf sr ((tm_apply (with_stamp (TransitionToReconnecting tf) s1 (sr_tm sr) ''health_check_failed'' 1 (2 * 10 ^ 9)) sr)\<lparr>sr_reconnects := rs\<rparr>)" for rs
    by (rule keeps_trans [OF keeps_stamped(6) keeps_same]) simp_all
  then show ?thesis unfolding performHealthCheck_def Let_def by (auto simp: keeps_same keeps_stamped split: option.splits simp del: tm_apply_fields(2))
qed

lemma keeps_reconnect:
  assumes "reconnect_begin tf s nops sr = (pc, sr')"
  shows "keeps tf sr (sr'\<lparr>sr_reconnects := rs\<rparr>)"
proof -
  have "keeps tf sr sr'"
    using assms unfolding reconnect_begin_def Let_def
    by (auto simp: keeps_same keeps_stamped keeps_second [OF keeps_stamped(1)] split: option.splits if_splits simp del: tm_apply_fields(2))
  then show ?thesis by (rule keeps_trans) (rule keeps_same, simp_all)
qed

lemma keeps_reconnected: "keeps tf sr ((reconnect_end tf s elapsed res sr)\<lparr>sr_reconnects := rs\<rparr>)"
proof -
  have "keeps tf sr (reconnect_end tf s elapsed res sr)" by (auto simp: reconnect_end_def keeps_stamped split: option.splits simp del: tm_apply_fields(2))
  then show ?thesis by (rule keeps_trans) (rule keeps_same, simp_all)
qed

lemma sr_step_keeps:
  assumes "sr_step doubled tf nops sops tops sr sr'"
  shows "keeps tf sr sr'"
  using assms
proof cases
  case (enable s1 s2 elapsed ctx err)
  then show ?thesis by (rule keeps_enable)
next
  case (disable s1 s2 err)
  then show ?thesis by (rule keeps_disable)
next
  case (close s1 err)
  then show ?thesis by (rule keeps_close)
next
  case (subscribe h tsm err)
  then show ?thesis by (intro keeps_call [OF tm_call.subscribe]) auto
next
  case (health s1)
  then show ?thesis by (simp add: keeps_health)
next
  case (reconnect k s pc sr1)
  then show ?thesis using keeps_reconnect by blast
next
  case (reconnected k sr1 s elapsed res)
  then show ?thesis using keeps_reconnected by blast
next
  case (deliver P1 t P2 tsm hs)
  have "tm_stateMachine tsm = tm_stateMachine (sr_tm sr)" using OnTransition_manager_tracks(3) [OF deliver(3)] .
  moreover have "\<exists>A D. tm_reach tf tsm (P1 @ P2) A D" if "tm_good tf sr"
    using that deliver(2,3) unfolding tm_good_def by (metis tm_reach.deliver)
  ultimately show ?thesis using deliver(1) by (auto simp: keeps_def tm_good_def down_def GetConnectionState_def)
next
  case (deliver_other P1 x P2)
  have "\<exists>A D. tm_reach tf (sr_tm sr) (P1 @ P2) A D" if "tm_good tf sr"
    using that deliver_other(2,3) unfolding tm_good_def by (metis tm_reach.deliver_other)
  then show ?thesis using deliver_other(1) by (auto simp: keeps_def tm_good_def down_def)
next
  case (handled H1 h t H2 sr1 now)
  have "sr_tm (handleTransportStateChange now t sr) = sr_tm sr" "sr_pending (handleTransportStateChange now t sr) = sr_pending sr"
    by (simp_all add: handleTransportStateChange_def onTransportConnected_def onTransportDisconnected_def onTransportFailed_def connection_lost_def
        split: transport_state.splits)
  then show ?thesis using handled by (intro keeps_same) auto
qed (auto intro: keeps_same)

lemma sr_reach_keeps: "sr_reach doubled tf nops sops tops sr sr' \<Longrightarrow> keeps tf sr sr'"
  by (induction rule: sr_reach.induct) (auto intro: keeps_same keeps_trans sr_step_keeps)

lemma new_good:
  assumes "NewStatefulRealtimeSyncManager doubled now s t opts = Inr sr"
  shows "tm_good tf sr"
proof -
  obtain c tsm e where c: "NewTransportStateManager now c = Inr tsm" "SubscribeToStateChanges tsm (Some stateful_id) = (sr_tm sr, e)" "sr_pending sr = []"
    using assms by (auto simp: NewStatefulRealtimeSyncManager_def Let_def split: option.splits sum.splits prod.splits)
  then show ?thesis using tm_reach.call [OF tm_reach.start [OF c(1)] tm_call.subscribe [OF c(2)], of tf] by (auto simp: tm_good_def)
qed

lemma allowed_down:
  assumes "tm_good tf sr"
  shows "GetConnectionState (fst (with_stamp (TransitionToShuttingDown tf) s (sr_tm sr) reason)) = TransportShuttingDown"
proof -
  obtain A D where r: "tm_reach tf (sr_tm sr) (sr_pending sr) A D" using assms by (auto simp: tm_good_def)
  obtain at now tid where s: "s = (at, now, tid)" by (cases s) auto
  have i: "tm_inv (sr_tm sr) (sr_pending sr) A D" using r by (rule tm_reach_inv)
  then have ok: "manager_ok (sr_tm sr)" by (simp add: tm_inv_def)
  have "GetConnectionState (sr_tm sr) = TransportShuttingDown \<or> transport_allowed (GetConnectionState (sr_tm sr)) TransportShuttingDown"
    using i path_named [of A] by (cases "GetConnectionState (sr_tm sr)") (auto simp: tm_inv_def transport_allowed_iff)
  then show ?thesis unfolding s
    by (cases rule: tm_transition_cases [OF ok, of TransportShuttingDown now tid "ShuttingDownMetadata tf at reason"])
      (auto simp: TransitionToShuttingDown_def GetConnectionState_def Current_def)
qed

text \<open>
  Disabling the real-time mode of the stateful manager is final. In every interleaving, from the first \<open>EnhancedDisableRealtime\<close> on, whether it succeeds or not, the transport is
  shutting down, whatever is called and whatever the goroutines do, and every \<open>EnhancedEnableRealtime\<close> is refused: the transition to disconnected that should follow is not allowed.
\<close>

theorem stateful_disable_final:
  assumes "NewStatefulRealtimeSyncManager doubled now s t opts = Inr sr0" and "sr_reach doubled tf nops sops tops sr0 sr"
    and "EnhancedDisableRealtime tf s1 s2 nops sr = Some (sr1, err)" and "sr_reach doubled tf nops sops tops sr1 sr2"
  shows "GetConnectionState (sr_tm sr2) = TransportShuttingDown
    \<and> EnhancedEnableRealtime tf u1 u2 elapsed ctx sr2 = (sr2, Some (ErrorString ''cannot enable realtime from transport state: shutting_down''))"
proof -
  have g: "tm_good tf sr" using new_good [OF assms(1)] sr_reach_keeps [OF assms(2)] by (simp add: keeps_def)
  define m where "m = tm_apply (with_stamp (TransitionToShuttingDown tf) s1 (sr_tm sr) ''realtime_disabled'') sr"
  have m: "tm_good tf m" "down m" using g keeps_stamped(4) [of tf sr s1 "''realtime_disabled''"] allowed_down [OF g] by (auto simp: m_def keeps_def down_def)
  have "keeps tf m sr1" using assms(3)
    by (auto simp: EnhancedDisableRealtime_def Let_def m_def [symmetric] keeps_second [OF keeps_same [OF refl refl]] split: if_splits bind_splits)
  then have "tm_good tf sr1" "down sr1" using m by (auto simp: keeps_def)
  then have "GetConnectionState (sr_tm sr2) = TransportShuttingDown" using sr_reach_keeps [OF assms(4)] by (auto simp: keeps_def down_def)
  then show ?thesis by (simp add: EnhancedEnableRealtime_def CanConnect_def)
qed

lemma allowed_moves:
  assumes "tm_good tf sr"
  shows "CanConnect (GetConnectionState (sr_tm sr)) \<Longrightarrow> snd (snd (to_connecting tf s (sr_tm sr))) = None
      \<and> GetConnectionState (fst (to_connecting tf s (sr_tm sr))) = TransportConnecting"
    and "GetConnectionState (sr_tm sr) = TransportConnecting \<Longrightarrow> GetConnectionState (fst (to_connected tf s elapsed (sr_tm sr))) = TransportConnected"
    and "GetConnectionState (sr_tm sr) = TransportConnecting \<Longrightarrow> GetConnectionState (fst (to_failed tf s err elapsed (sr_tm sr))) = TransportFailed"
proof -
  obtain A D where r: "tm_reach tf (sr_tm sr) (sr_pending sr) A D" using assms by (auto simp: tm_good_def)
  obtain at now tid where s: "s = (at, now, tid)" by (cases s) auto
  have ok: "manager_ok (sr_tm sr)" using tm_reach_inv [OF r] by (simp add: tm_inv_def)
  have tr: "snd (snd (tm_transition now tid (sr_tm sr) to md)) = None \<and> GetConnectionState (fst (tm_transition now tid (sr_tm sr) to md)) = to"
    if "transport_allowed (GetConnectionState (sr_tm sr)) to" for to md
    using that by (cases rule: tm_transition_cases [OF ok, of to now tid md]) (auto simp: GetConnectionState_def Current_def)
  show "snd (snd (to_connecting tf s (sr_tm sr))) = None \<and> GetConnectionState (fst (to_connecting tf s (sr_tm sr))) = TransportConnecting"
    if "CanConnect (GetConnectionState (sr_tm sr))"
    using that tr [of TransportConnecting] unfolding s
    by (cases "GetConnectionState (sr_tm sr)") (auto simp: to_connecting_def TransitionToConnecting_def CanConnect_def transport_allowed_iff Let_def)
  show "GetConnectionState (fst (to_connected tf s elapsed (sr_tm sr))) = TransportConnected" if "GetConnectionState (sr_tm sr) = TransportConnecting"
    using that tr [of TransportConnected] unfolding s by (simp add: to_connected_def TransitionToConnected_def transport_allowed_iff)
  show "GetConnectionState (fst (to_failed tf s err elapsed (sr_tm sr))) = TransportFailed" if "GetConnectionState (sr_tm sr) = TransportConnecting"
    using that tr [of TransportFailed] unfolding s by (simp add: to_failed_def TransitionToFailed_def FailedMetadata_def transport_allowed_iff)
qed

text \<open>
  What \<open>EnhancedEnableRealtime\<close> does in every reachable state. It is refused unless the transport is disconnected or failed. Otherwise it succeeds exactly when a notifier is configured
  and the real-time mode is not running, and then reports the transport as connected before any subscription was made; when it fails, the transport is marked as failed, also when
  the real-time mode was running all along.
\<close>

theorem stateful_enable_outcome:
  assumes "NewStatefulRealtimeSyncManager doubled now s t opts = Inr sr0" and "sr_reach doubled tf nops sops tops sr0 sr"
    and "EnhancedEnableRealtime tf s1 s2 elapsed ctx sr = (sr', err)"
  shows "if \<not> CanConnect (GetConnectionState (sr_tm sr)) then sr' = sr \<and> err \<noteq> None
    else if ro_RealtimeNotifier (rt_options (sr_rt sr)) = None \<or> IsRealtimeActive (sr_rt sr)
    then err \<noteq> None \<and> GetConnectionState (sr_tm sr') = TransportFailed \<and> sr_rt sr' = sr_rt sr
    else err = None \<and> GetConnectionState (sr_tm sr') = TransportConnected \<and> IsRealtimeActive (sr_rt sr') \<and> rt_subscribed (sr_rt sr') = rt_subscribed (sr_rt sr)"
proof -
  have g: "tm_good tf sr" using new_good [OF assms(1)] sr_reach_keeps [OF assms(2)] by (simp add: keeps_def)
  have d: "CanConnect TransportDisconnected" by (simp add: CanConnect_def)
  show ?thesis
  proof (cases "CanConnect (GetConnectionState (sr_tm sr))")
    case True
    define m where "m = tm_apply (to_connecting tf s1 (sr_tm sr)) sr"
    have c: "snd (snd (to_connecting tf s1 (sr_tm sr))) = None" "GetConnectionState (sr_tm m) = TransportConnecting" and gm: "tm_good tf m"
      using allowed_moves(1) [OF g True] keeps_stamped(1) [of tf sr] g by (simp_all add: m_def keeps_def)
    note out = allowed_moves(2) [OF gm c(2)] allowed_moves(3) [OF gm c(2)]
    have "EnhancedEnableRealtime tf s1 s2 elapsed ctx sr = (case EnableRealtime ctx (sr_rt m) of
             (rt, Some err) \<Rightarrow> (tm_apply (to_failed tf s2 err elapsed (sr_tm m)) (m\<lparr>sr_rt := rt\<rparr>), Some err)
           | (rt, None) \<Rightarrow> (tm_apply (to_connected tf s2 elapsed (sr_tm m)) (m\<lparr>sr_rt := rt\<rparr>), None))"
      unfolding m_def using True c(1) by (simp add: EnhancedEnableRealtime_def Let_def split: prod.splits option.splits)
    moreover have "sr_rt m = sr_rt sr" by (simp add: m_def)
    ultimately show ?thesis using True assms(3) out by (auto simp: EnableRealtime_def IsRealtimeActive_def spawn_def split: if_splits)
  next
    case False
    then show ?thesis using assms(3) d by (auto simp: EnhancedEnableRealtime_def Let_def split: if_splits)
  qed
qed

section \<open>Witnesses\<close>

definition flag_stateful_options :: "bool stateful_realtime_options" where
  "flag_stateful_options = \<lparr>so_Realtime = flag_options, so_TransportStateConfig = plain_config, so_EnableTransportStateLogging = False, so_ConnectionTimeout = 0,
     so_MaxConnectionAttempts = 0, so_ConnectionRetryDelay = 0\<rparr>"

lemma flag_stateful: "\<exists>sr0 :: (mem_store, loop_remote, bool) stateful_rt. NewStatefulRealtimeSyncManager doubling 0 New_store quiet_remote (Some flag_stateful_options) = Inr sr0
    \<and> ro_RealtimeNotifier (rt_options (sr_rt sr0)) = Some False \<and> \<not> IsRealtimeActive (sr_rt sr0) \<and> GetConnectionState (sr_tm sr0) = TransportDisconnected
    \<and> DisableRealtime flag_notifier (sr_rt sr0) \<noteq> None"
  by (simp add: NewStatefulRealtimeSyncManager_def NewTransportStateManager_def NewTransportStateMachine_def New_def transport_rules_def Let_def SubscribeToStateChanges_def
      flag_stateful_options_def set_stateful_defaults_def NewRealtimeSyncManager_def flag_options_def IsRealtimeActive_def GetConnectionState_def Current_def Subscribe_def
      DisableRealtime_def)

theorem stateful_enable_outcome_witness:
  "\<exists>sr0 :: (mem_store, loop_remote, bool) stateful_rt. \<exists>sr'. NewStatefulRealtimeSyncManager doubling 0 New_store quiet_remote (Some flag_stateful_options) = Inr sr0
    \<and> EnhancedEnableRealtime plain_fmt (0, 0, []) (0, 0, []) 0 0 sr0 = (sr', None) \<and> GetConnectionState (sr_tm sr') = TransportConnected"
proof -
  obtain sr0 :: "(mem_store, loop_remote, bool) stateful_rt" where n: "NewStatefulRealtimeSyncManager doubling 0 New_store quiet_remote (Some flag_stateful_options) = Inr sr0"
    "ro_RealtimeNotifier (rt_options (sr_rt sr0)) = Some False" "\<not> IsRealtimeActive (sr_rt sr0)" "GetConnectionState (sr_tm sr0) = TransportDisconnected"
    using flag_stateful by blast
  obtain sr' err where e: "EnhancedEnableRealtime plain_fmt (0, 0, []) (0, 0, []) 0 0 sr0 = (sr', err)" by fastforce
  have "sr_reach doubling plain_fmt flag_notifier memstore_ops loop_ops sr0 sr0" by (rule sr_reach.start)
  from stateful_enable_outcome [OF n(1) this e]
  have "err = None \<and> GetConnectionState (sr_tm sr') = TransportConnected" using n by (simp add: CanConnect_def)
  then show ?thesis using n(1) e by blast
qed

theorem stateful_disable_final_witness:
  "\<exists>sr1 :: (mem_store, loop_remote, bool) stateful_rt. \<exists>err. GetConnectionState (sr_tm sr1) = TransportShuttingDown
    \<and> EnhancedEnableRealtime plain_fmt (0, 0, []) (0, 0, []) 0 0 sr1 = (sr1, Some err)"
proof -
  obtain sr0 :: "(mem_store, loop_remote, bool) stateful_rt" where n: "NewStatefulRealtimeSyncManager doubling 0 New_store quiet_remote (Some flag_stateful_options) = Inr sr0"
    "DisableRealtime flag_notifier (sr_rt sr0) \<noteq> None"
    using flag_stateful by blast
  then obtain sr1 err where d: "EnhancedDisableRealtime plain_fmt (0, 0, []) (0, 0, []) flag_notifier sr0 = Some (sr1, err)"
    by (auto simp: EnhancedDisableRealtime_def Let_def split: bind_splits)
  have r: "sr_reach doubling plain_fmt flag_notifier memstore_ops loop_ops x x" for x by (rule sr_reach.start)
  from stateful_disable_final [OF n(1) r d r] show ?thesis by blast
qed

end
