(* ===== verification/Builder.thy ===== *)
theory Builder
  imports Sync_Properties Http_Types
begin

text \<open>
  Construction of sync managers: the builder (synckit/builder.go), the functional options (manager\_options.go), the canonical configuration (canonical\_config.go) and nodes
  (node.go, node\_presets.go). A nil store or transport is \<open>None\<close>. Tracer, metrics collector and health checker only observe and are left out, as in \<open>Sync_Manager\<close>; projection runners
  are counted. \<open>Build\<close> passes the builder's own options to \<open>NewSyncManager\<close>, which writes its defaults into them, so it returns the builder, too. The null transport is left out.
\<close>

section \<open>The builder\<close>

record ('s, 't) builder =
  sb_store :: "'s option"
  sb_transport :: "'t option"
  sb_options :: sync_options
  sb_logger :: go_any
  sb_pushOnlySet :: bool
  sb_pullOnlySet :: bool
  sb_projectionRunners :: nat
  sb_runProjectionsOnSync :: bool
  sb_projectionMaxWorkers :: int
  sb_projectionTimeout :: int

definition builder_options :: sync_options where
  "builder_options = \<lparr>PushOnly = False, PullOnly = False, ConflictResolver = None, Filter = None, BatchSize = 100, SyncInterval = 0, RetryConfig = None,
     EnableValidation = False, Timeout = 0, EnableCompression = False\<rparr>"

definition NewSyncManagerBuilder :: "go_any \<Rightarrow> ('s, 't) builder" where
  "NewSyncManagerBuilder default_logger = \<lparr>sb_store = None, sb_transport = None, sb_options = builder_options, sb_logger = default_logger, sb_pushOnlySet = False,
     sb_pullOnlySet = False, sb_projectionRunners = 0, sb_runProjectionsOnSync = False, sb_projectionMaxWorkers = 3, sb_projectionTimeout = 30 * 10 ^ 9\<rparr>"

definition on_options :: "(sync_options \<Rightarrow> sync_options) \<Rightarrow> ('s, 't) builder \<Rightarrow> ('s, 't) builder" where
  "on_options f b = b\<lparr>sb_options := f (sb_options b)\<rparr>"

definition b_WithStore :: "'s option \<Rightarrow> ('s, 't) builder \<Rightarrow> ('s, 't) builder" where
  "b_WithStore s b = b\<lparr>sb_store := s\<rparr>"

definition b_WithTransport :: "'t option \<Rightarrow> ('s, 't) builder \<Rightarrow> ('s, 't) builder" where
  "b_WithTransport t b = b\<lparr>sb_transport := t\<rparr>"

definition b_WithBatchSize :: "int \<Rightarrow> ('s, 't) builder \<Rightarrow> ('s, 't) builder" where
  "b_WithBatchSize n = on_options (\<lambda>op. op\<lparr>BatchSize := n\<rparr>)"

definition b_WithPushOnly :: "('s, 't) builder \<Rightarrow> ('s, 't) builder" where
  "b_WithPushOnly b = (on_options (\<lambda>op. op\<lparr>PushOnly := True, PullOnly := False\<rparr>) b)\<lparr>sb_pushOnlySet := True\<rparr>"

definition b_WithPullOnly :: "('s, 't) builder \<Rightarrow> ('s, 't) builder" where
  "b_WithPullOnly b = (on_options (\<lambda>op. op\<lparr>PullOnly := True, PushOnly := False\<rparr>) b)\<lparr>sb_pullOnlySet := True\<rparr>"

definition b_WithConflictResolver :: "resolver option \<Rightarrow> ('s, 't) builder \<Rightarrow> ('s, 't) builder" where
  "b_WithConflictResolver r = on_options (\<lambda>op. op\<lparr>ConflictResolver := r\<rparr>)"

definition b_WithFilter :: "(event option \<Rightarrow> bool go) option \<Rightarrow> ('s, 't) builder \<Rightarrow> ('s, 't) builder" where
  "b_WithFilter f = on_options (\<lambda>op. op\<lparr>Filter := f\<rparr>)"

definition b_WithSyncInterval :: "int \<Rightarrow> ('s, 't) builder \<Rightarrow> ('s, 't) builder" where
  "b_WithSyncInterval d = on_options (\<lambda>op. op\<lparr>SyncInterval := d\<rparr>)"

definition b_WithValidation :: "('s, 't) builder \<Rightarrow> ('s, 't) builder" where
  "b_WithValidation = on_options (\<lambda>op. op\<lparr>EnableValidation := True\<rparr>)"

definition b_WithTimeout :: "int \<Rightarrow> ('s, 't) builder \<Rightarrow> ('s, 't) builder" where
  "b_WithTimeout d = on_options (\<lambda>op. op\<lparr>Timeout := d\<rparr>)"

definition b_WithCompression :: "bool \<Rightarrow> ('s, 't) builder \<Rightarrow> ('s, 't) builder" where
  "b_WithCompression en = on_options (\<lambda>op. op\<lparr>EnableCompression := en\<rparr>)"

definition b_WithLogger :: "go_any \<Rightarrow> ('s, 't) builder \<Rightarrow> ('s, 't) builder" where
  "b_WithLogger l b = b\<lparr>sb_logger := l\<rparr>"

definition b_WithProjections :: "nat \<Rightarrow> ('s, 't) builder \<Rightarrow> ('s, 't) builder" where
  "b_WithProjections n b = b\<lparr>sb_projectionRunners := sb_projectionRunners b + n\<rparr>"

definition b_WithProjectionsOnSync :: "bool \<Rightarrow> ('s, 't) builder \<Rightarrow> ('s, 't) builder" where
  "b_WithProjectionsOnSync en b = b\<lparr>sb_runProjectionsOnSync := en\<rparr>"

definition b_WithProjectionMaxWorkers :: "int \<Rightarrow> ('s, 't) builder \<Rightarrow> ('s, 't) builder" where
  "b_WithProjectionMaxWorkers n b = (if n > 0 then b\<lparr>sb_projectionMaxWorkers := n\<rparr> else b)"

definition b_WithProjectionTimeout :: "int \<Rightarrow> ('s, 't) builder \<Rightarrow> ('s, 't) builder" where
  "b_WithProjectionTimeout d b = b\<lparr>sb_projectionTimeout := d\<rparr>"

text \<open>\<open>now\<close> and \<open>hooks\<close> are the arguments of \<open>NewSyncManager\<close>: the time of construction and the identity of its hooks.\<close>

definition Build_manager :: "int \<Rightarrow> nat \<Rightarrow> ('s, 't) builder \<Rightarrow> ('s, 't) builder \<times> (go_error + ('s, 't) manager)" where
  "Build_manager now hooks b = (case (sb_store b, sb_transport b) of
       (None, _) \<Rightarrow> (b, Inl (ErrorString ''EventStore is required''))
     | (Some _, None) \<Rightarrow> (b, Inl (ErrorString ''Transport is required''))
     | (Some s, Some t) \<Rightarrow>
         if sb_pushOnlySet b \<and> sb_pullOnlySet b then (b, Inl (ErrorString ''cannot set both PushOnly and PullOnly to true''))
         else if BatchSize (sb_options b) \<le> 0
         then (b, Inl (ErrorString (''BatchSize must be positive, got '' @ int_dec (BatchSize (sb_options b)))))
         else let m = NewSyncManager now hooks s t (Some (sb_options b)) (sb_logger b)
                        (Some \<lparr>Runners = sb_projectionRunners b, RunOnSync = sb_runProjectionsOnSync b, MaxWorkers = sb_projectionMaxWorkers b,
                               ProjTimeout = sb_projectionTimeout b\<rparr>)
              in (b\<lparr>sb_options := mg_options m\<rparr>, Inr m))"

definition Reset_builder :: "go_any \<Rightarrow> ('s, 't) builder \<Rightarrow> ('s, 't) builder" where
  "Reset_builder default_logger b = b\<lparr>sb_store := None, sb_transport := None, sb_options := builder_options, sb_logger := default_logger, sb_pushOnlySet := False,
     sb_pullOnlySet := False, sb_projectionRunners := 0, sb_runProjectionsOnSync := False, sb_projectionMaxWorkers := 3, sb_projectionTimeout := 30 * 10 ^ 9\<rparr>"

section \<open>Functional options\<close>

type_synonym ('s, 't) manager_option = "('s, 't) builder \<Rightarrow> ('s, 't) builder \<times> go_error option"

definition option_of :: "(('s, 't) builder \<Rightarrow> ('s, 't) builder) \<Rightarrow> ('s, 't) manager_option" where
  "option_of f b = (f b, None)"

definition WithStore :: "'s option \<Rightarrow> ('s, 't) manager_option" where "WithStore s = option_of (b_WithStore s)"
definition WithTransport :: "'t option \<Rightarrow> ('s, 't) manager_option" where "WithTransport t = option_of (b_WithTransport t)"
definition WithConflictResolver :: "resolver option \<Rightarrow> ('s, 't) manager_option" where "WithConflictResolver r = option_of (b_WithConflictResolver r)"
definition WithBatchSize_manager :: "int \<Rightarrow> ('s, 't) manager_option" where "WithBatchSize_manager n = option_of (b_WithBatchSize n)"
definition WithTimeout :: "int \<Rightarrow> ('s, 't) manager_option" where "WithTimeout d = option_of (b_WithTimeout d)"
definition WithSyncInterval :: "int \<Rightarrow> ('s, 't) manager_option" where "WithSyncInterval d = option_of (b_WithSyncInterval d)"
definition WithFilter :: "(event option \<Rightarrow> bool go) option \<Rightarrow> ('s, 't) manager_option" where "WithFilter f = option_of (b_WithFilter f)"
definition WithValidation :: "('s, 't) manager_option" where "WithValidation = option_of b_WithValidation"
definition WithCompression_manager :: "bool \<Rightarrow> ('s, 't) manager_option" where "WithCompression_manager en = option_of (b_WithCompression en)"
definition WithPushOnly :: "('s, 't) manager_option" where "WithPushOnly = option_of b_WithPushOnly"
definition WithPullOnly :: "('s, 't) manager_option" where "WithPullOnly = option_of b_WithPullOnly"
definition WithManagerLogger :: "go_any \<Rightarrow> ('s, 't) manager_option" where "WithManagerLogger l = option_of (b_WithLogger l)"
definition WithProjections :: "nat \<Rightarrow> ('s, 't) manager_option" where "WithProjections n = option_of (b_WithProjections n)"
definition WithProjectionsOnSync :: "bool \<Rightarrow> ('s, 't) manager_option" where "WithProjectionsOnSync en = option_of (b_WithProjectionsOnSync en)"
definition WithProjectionMaxWorkers :: "int \<Rightarrow> ('s, 't) manager_option" where "WithProjectionMaxWorkers n = option_of (b_WithProjectionMaxWorkers n)"
definition WithProjectionTimeout :: "int \<Rightarrow> ('s, 't) manager_option" where "WithProjectionTimeout d = option_of (b_WithProjectionTimeout d)"
definition WithLWW :: "('s, 't) manager_option" where "WithLWW = WithConflictResolver (Some LastWriteWins)"
definition WithFWW :: "('s, 't) manager_option" where "WithFWW = WithConflictResolver (Some FirstWriteWins)"
definition WithAdditiveMerge :: "('s, 't) manager_option" where "WithAdditiveMerge = WithConflictResolver (Some AdditiveMerge)"

text \<open>The two options that always fail.\<close>

definition refused_option :: "string \<Rightarrow> string \<Rightarrow> string \<Rightarrow> ('s, 't) manager_option" where
  "refused_option op what suggestion b = (b, Some (E [AOp op, AComponent ''synckit'', AKind KindInvalid, AErr (ErrorString what), AMsg suggestion]))"

definition WithSQLite :: "string \<Rightarrow> ('s, 't) manager_option" where
  "WithSQLite path = refused_option ''WithSQLite''
     ''WithSQLite is not available to avoid import cycles. Create SQLite store separately and use WithStore()''
     ''suggestion: Use WithStore(sqlite.NewWithDataSource(path))''"

definition WithHTTPTransport :: "string \<Rightarrow> ('s, 't) manager_option" where
  "WithHTTPTransport baseURL = refused_option ''WithHTTPTransport''
     ''WithHTTPTransport is not available to avoid import cycles. Create HTTP transport separately and use WithTransport()''
     ''suggestion: Use WithTransport(httptransport.NewTransport(baseURL, nil, nil, nil))''"

fun apply_options :: "('s, 't) manager_option list \<Rightarrow> ('s, 't) builder \<Rightarrow> go_error + ('s, 't) builder" where
  "apply_options [] b = Inr b"
| "apply_options (opt # opts) b = (case opt b of
     (_, Some err) \<Rightarrow> Inl (NewWithComponent OpStore ''synckit'' err) | (b', None) \<Rightarrow> apply_options opts b')"

definition NewManager :: "go_any \<Rightarrow> int \<Rightarrow> nat \<Rightarrow> ('s, 't) manager_option list \<Rightarrow> go_error + ('s, 't) manager" where
  "NewManager default_logger now hooks opts = (case apply_options opts (NewSyncManagerBuilder default_logger) of
       Inl err \<Rightarrow> Inl err
     | Inr b \<Rightarrow> if sb_store b = None
         then Inl (E [AOp ''NewManager'', AComponent ''synckit'', AKind KindInvalid, AErr (ErrorString ''store is required (use WithStore(...))'')])
         else snd (Build_manager now hooks b))"

definition NewNode :: "go_any \<Rightarrow> int \<Rightarrow> nat \<Rightarrow> ('s, 't) manager_option list \<Rightarrow> go_error + ('s, 't) manager" where
  "NewNode = NewManager"

text \<open>The three presets have the same body.\<close>

definition preset_node :: "go_any \<Rightarrow> int \<Rightarrow> nat \<Rightarrow> 's option \<Rightarrow> 't option \<Rightarrow> go_error + ('s, 't) manager" where
  "preset_node default_logger now hooks store transport =
     (if store = None then Inl (ErrorString ''store cannot be nil'')
      else if transport = None then Inl (ErrorString ''transport cannot be nil'')
      else NewNode default_logger now hooks [WithStore store, WithTransport transport])"

definition NewInMemoryNode :: "go_any \<Rightarrow> int \<Rightarrow> nat \<Rightarrow> 's option \<Rightarrow> 't option \<Rightarrow> go_error + ('s, 't) manager" where
  "NewInMemoryNode = preset_node"

definition NewHTTPServerNode :: "go_any \<Rightarrow> int \<Rightarrow> nat \<Rightarrow> 's option \<Rightarrow> 't option \<Rightarrow> go_error + ('s, 't) manager" where
  "NewHTTPServerNode = preset_node"

definition NewHTTPClientNode :: "go_any \<Rightarrow> int \<Rightarrow> nat \<Rightarrow> 's option \<Rightarrow> 't option \<Rightarrow> go_error + ('s, 't) manager" where
  "NewHTTPClientNode = preset_node"

section \<open>Canonical configuration\<close>

record retry_policy =
  rp_Max :: int
  rp_Base :: int
  rp_Cap :: int
  rp_Jitter :: bool

text \<open>The cursor mode is an int, of which two values have names.\<close>

definition CursorInteger :: int where "CursorInteger = 0"
definition CursorVector :: int where "CursorVector = 1"

record ('s, 't) config =
  cg_Store :: "'s option"
  cg_Transport :: "'t option"
  cg_Logger :: go_any
  cg_Cursor :: int
  cg_Retry :: retry_policy
  cg_Resolvers :: "resolver option"
  cg_Timeout :: int
  cg_BatchSize :: int
  cg_SyncInterval :: int
  cg_PushOnly :: bool
  cg_PullOnly :: bool
  cg_EnableValidation :: bool
  cg_EnableCompression :: bool
  cg_Filter :: "(event option \<Rightarrow> bool go) option"

text \<open>\<open>dur\<close> is the text of a duration.\<close>

definition validate_retry :: "(int \<Rightarrow> string) \<Rightarrow> retry_policy \<Rightarrow> go_error option" where
  "validate_retry dur r =
     (if rp_Max r = 0 then None
      else if rp_Max r < - 1 then Some (ErrorString ''Retry.Max must be >= -1 (-1 for unlimited, 0 for disabled, >0 for limited)'')
      else if rp_Base r \<le> 0 then Some (ErrorString ''Retry.Base must be > 0 when retries are enabled'')
      else if rp_Cap r < rp_Base r then Some (ErrorString (''Retry.Cap ('' @ dur (rp_Cap r) @ '') must be >= Retry.Base ('' @ dur (rp_Base r) @ '')''))
      else None)"

definition Validate_config :: "(int \<Rightarrow> string) \<Rightarrow> ('s, 't) config \<Rightarrow> go_error option" where
  "Validate_config dur c =
     (if cg_Store c = None then Some (ErrorString ''Store is required'')
      else if cg_Timeout c < 0 then Some (ErrorString ''timeout must be non-negative'')
      else if cg_BatchSize c < 0 then Some (ErrorString ''BatchSize must be non-negative'')
      else if cg_SyncInterval c < 0 then Some (ErrorString ''SyncInterval must be non-negative'')
      else if cg_PushOnly c \<and> cg_PullOnly c then Some (ErrorString ''PushOnly and PullOnly are mutually exclusive'')
      else (case validate_retry dur (cg_Retry c) of
        Some err \<Rightarrow> Some err
      | None \<Rightarrow> if cg_Cursor c \<noteq> CursorInteger \<and> cg_Cursor c \<noteq> CursorVector
          then Some (ErrorString (''invalid CursorMode: '' @ int_dec (cg_Cursor c) @ '' (must be CursorInteger or CursorVector)'')) else None))"

definition if_set :: "bool \<Rightarrow> ('b \<Rightarrow> 'b) \<Rightarrow> 'b \<Rightarrow> 'b" where
  "if_set c f b = (if c then f b else b)"

definition config_builder :: "go_any \<Rightarrow> ('s, 't) config \<Rightarrow> ('s, 't) builder" where
  "config_builder default_logger c =
     (let b = b_WithStore (cg_Store c) (NewSyncManagerBuilder default_logger);
          b = if_set (cg_Transport c \<noteq> None) (b_WithTransport (cg_Transport c)) b;
          b = if_set (cg_Logger c \<noteq> GNil) (b_WithLogger (cg_Logger c)) b;
          b = if_set (cg_Resolvers c \<noteq> None) (b_WithConflictResolver (cg_Resolvers c)) b;
          b = if_set (cg_BatchSize c > 0) (b_WithBatchSize (cg_BatchSize c)) b;
          b = if_set (cg_Timeout c > 0) (b_WithTimeout (cg_Timeout c)) b;
          b = if_set (cg_SyncInterval c > 0) (b_WithSyncInterval (cg_SyncInterval c)) b;
          b = if_set (cg_PushOnly c) b_WithPushOnly b;
          b = if_set (cg_PullOnly c) b_WithPullOnly b;
          b = if_set (cg_EnableValidation c) b_WithValidation b;
          b = if_set (cg_EnableCompression c) (b_WithCompression True) b
      in if_set (cg_Filter c \<noteq> None) (b_WithFilter (cg_Filter c)) b)"

definition newManagerFromConfig :: "go_any \<Rightarrow> int \<Rightarrow> nat \<Rightarrow> ('s, 't) config \<Rightarrow> go_error + ('s, 't) manager" where
  "newManagerFromConfig default_logger now hooks c = snd (Build_manager now hooks (config_builder default_logger c))"

definition New_config :: "(int \<Rightarrow> string) \<Rightarrow> go_any \<Rightarrow> int \<Rightarrow> nat \<Rightarrow> ('s, 't) config \<Rightarrow> go_error + ('s, 't) manager" where
  "New_config dur default_logger now hooks c = (case Validate_config dur c of
       Some err \<Rightarrow> Inl (WrapError ''invalid configuration: '' err)
     | None \<Rightarrow> newManagerFromConfig default_logger now hooks c)"

section \<open>Properties\<close>

lemma Reset_is_new: "Reset_builder l b = NewSyncManagerBuilder l"
  by (simp add: Reset_builder_def NewSyncManagerBuilder_def)

lemma Build_result:
  "snd (Build_manager now hooks b) = Inr m \<Longrightarrow> phase m SyncIdle \<and> \<not> mg_closed m \<and> 0 < BatchSize (mg_options m) \<and> ConflictResolver (mg_options m) \<noteq> None
     \<and> PushOnly (mg_options m) = PushOnly (sb_options b) \<and> PullOnly (mg_options m) = PullOnly (sb_options b)
     \<and> sb_store b = Some (mg_store m) \<and> sb_transport b = Some (mg_transport m) \<and> \<not> (sb_pushOnlySet b \<and> sb_pullOnlySet b)"
proof -
  assume "snd (Build_manager now hooks b) = Inr m"
  then obtain s t pc where st: "sb_store b = Some s" "sb_transport b = Some t" "\<not> (sb_pushOnlySet b \<and> sb_pullOnlySet b)" "0 < BatchSize (sb_options b)"
    and m: "m = NewSyncManager now hooks s t (Some (sb_options b)) (sb_logger b) pc"
    by (auto simp: Build_manager_def Let_def split: option.splits if_splits)
  have "phase m SyncIdle" "\<not> mg_closed m" unfolding m by (rule NewSyncManager_phase)+
  moreover have "0 < BatchSize (mg_options m) \<and> ConflictResolver (mg_options m) \<noteq> None \<and> PushOnly (mg_options m) = PushOnly (sb_options b)
      \<and> PullOnly (mg_options m) = PullOnly (sb_options b) \<and> mg_store m = s \<and> mg_transport m = t"
    using st(4) unfolding m by (auto simp: NewSyncManager_def Let_def split: option.splits sum.splits)
  ultimately show ?thesis using st by simp
qed

text \<open>The options of the package.\<close>

inductive known_option :: "('s, 't) manager_option \<Rightarrow> bool" where
  "known_option (WithStore s)" | "known_option (WithTransport t)" | "known_option (WithConflictResolver r)" | "known_option (WithBatchSize_manager n)"
| "known_option (WithTimeout d)" | "known_option (WithSyncInterval d)" | "known_option (WithFilter f)" | "known_option WithValidation"
| "known_option (WithCompression_manager en)" | "known_option WithPushOnly" | "known_option WithPullOnly" | "known_option (WithManagerLogger l)"
| "known_option (WithProjections k)" | "known_option (WithProjectionsOnSync en)" | "known_option (WithProjectionMaxWorkers n)"
| "known_option (WithProjectionTimeout d)" | "known_option WithLWW" | "known_option WithFWW" | "known_option WithAdditiveMerge"
| "known_option (WithSQLite path)" | "known_option (WithHTTPTransport path)"

lemmas option_defs = WithStore_def WithTransport_def WithConflictResolver_def WithBatchSize_manager_def WithTimeout_def WithSyncInterval_def WithFilter_def WithValidation_def
  WithCompression_manager_def WithPushOnly_def WithPullOnly_def WithManagerLogger_def WithProjections_def WithProjectionsOnSync_def WithProjectionMaxWorkers_def
  WithProjectionTimeout_def WithLWW_def WithFWW_def WithAdditiveMerge_def WithSQLite_def WithHTTPTransport_def option_of_def refused_option_def

lemmas setter_defs = b_WithStore_def b_WithTransport_def b_WithConflictResolver_def b_WithBatchSize_def b_WithTimeout_def b_WithSyncInterval_def b_WithFilter_def b_WithValidation_def
  b_WithCompression_def b_WithPushOnly_def b_WithPullOnly_def b_WithLogger_def b_WithProjections_def b_WithProjectionsOnSync_def b_WithProjectionMaxWorkers_def
  b_WithProjectionTimeout_def on_options_def

text \<open>The direction flags of the options follow the calls: each flag is set only if its option was used, and never both.\<close>

definition directions_ok :: "('s, 't) builder \<Rightarrow> bool" where
  "directions_ok b \<longleftrightarrow> \<not> (PushOnly (sb_options b) \<and> PullOnly (sb_options b)) \<and> (PushOnly (sb_options b) \<longrightarrow> sb_pushOnlySet b)
     \<and> (PullOnly (sb_options b) \<longrightarrow> sb_pullOnlySet b)"

lemma directions_option: "known_option opt \<Longrightarrow> directions_ok b \<Longrightarrow> directions_ok (fst (opt b))"
  by (induction rule: known_option.induct) (auto simp: option_defs setter_defs directions_ok_def)

lemma directions_apply: "list_all known_option opts \<Longrightarrow> directions_ok b \<Longrightarrow> apply_options opts b = Inr b' \<Longrightarrow> directions_ok b'"
proof (induction opts arbitrary: b)
  case (Cons opt opts)
  then show ?case using directions_option [of opt b] by (auto split: prod.splits option.splits)
qed simp

text \<open>
  Whatever options are given to \<open>NewManager\<close>, in whatever order, a manager that it returns is open and idle, has a store and a transport from the options, a positive batch size
  and a conflict resolver, and never restricts itself to pushing and to pulling at once, with which a sync would stick.
\<close>

theorem built_manager_ready:
  assumes "list_all known_option opts" and "NewManager default_logger now hooks opts = Inr m"
  shows "phase m SyncIdle \<and> \<not> mg_closed m \<and> 0 < BatchSize (mg_options m) \<and> ConflictResolver (mg_options m) \<noteq> None
    \<and> \<not> (PushOnly (mg_options m) \<and> PullOnly (mg_options m))"
proof -
  obtain b where b: "apply_options opts (NewSyncManagerBuilder default_logger) = Inr b" "snd (Build_manager now hooks b) = Inr m"
    using assms(2) by (auto simp: NewManager_def split: sum.splits if_splits)
  have "directions_ok (NewSyncManagerBuilder default_logger :: ('a, 'b) builder)" by (simp add: directions_ok_def NewSyncManagerBuilder_def builder_options_def)
  then have "directions_ok b" using directions_apply assms(1) b(1) by blast
  then show ?thesis using Build_result [OF b(2)] by (auto simp: directions_ok_def)
qed

definition options_of :: "('s, 't) config \<Rightarrow> ('s, 't) manager_option list" where
  "options_of c = [WithStore (cg_Store c)] @ (if cg_Transport c \<noteq> None then [WithTransport (cg_Transport c)] else [])
     @ (if cg_Logger c \<noteq> GNil then [WithManagerLogger (cg_Logger c)] else []) @ (if cg_Resolvers c \<noteq> None then [WithConflictResolver (cg_Resolvers c)] else [])
     @ (if cg_BatchSize c > 0 then [WithBatchSize_manager (cg_BatchSize c)] else []) @ (if cg_Timeout c > 0 then [WithTimeout (cg_Timeout c)] else [])
     @ (if cg_SyncInterval c > 0 then [WithSyncInterval (cg_SyncInterval c)] else []) @ (if cg_PushOnly c then [WithPushOnly] else [])
     @ (if cg_PullOnly c then [WithPullOnly] else []) @ (if cg_EnableValidation c then [WithValidation] else [])
     @ (if cg_EnableCompression c then [WithCompression_manager True] else []) @ (if cg_Filter c \<noteq> None then [WithFilter (cg_Filter c)] else [])"

lemma apply_append: "apply_options (xs @ ys) b = (case apply_options xs b of Inl e \<Rightarrow> Inl e | Inr b' \<Rightarrow> apply_options ys b')"
  by (induction xs arbitrary: b) (auto split: prod.splits option.splits)

lemma apply_if: "apply_options (if c then [option_of f] else []) b = Inr (if_set c f b)"
  by (simp add: option_of_def if_set_def)

lemma options_of_alt:
  "options_of c = [option_of (b_WithStore (cg_Store c))] @ (if cg_Transport c \<noteq> None then [option_of (b_WithTransport (cg_Transport c))] else [])
     @ (if cg_Logger c \<noteq> GNil then [option_of (b_WithLogger (cg_Logger c))] else []) @ (if cg_Resolvers c \<noteq> None then [option_of (b_WithConflictResolver (cg_Resolvers c))] else [])
     @ (if cg_BatchSize c > 0 then [option_of (b_WithBatchSize (cg_BatchSize c))] else []) @ (if cg_Timeout c > 0 then [option_of (b_WithTimeout (cg_Timeout c))] else [])
     @ (if cg_SyncInterval c > 0 then [option_of (b_WithSyncInterval (cg_SyncInterval c))] else []) @ (if cg_PushOnly c then [option_of b_WithPushOnly] else [])
     @ (if cg_PullOnly c then [option_of b_WithPullOnly] else []) @ (if cg_EnableValidation c then [option_of b_WithValidation] else [])
     @ (if cg_EnableCompression c then [option_of (b_WithCompression True)] else []) @ (if cg_Filter c \<noteq> None then [option_of (b_WithFilter (cg_Filter c))] else [])"
  unfolding options_of_def WithStore_def WithTransport_def WithManagerLogger_def WithConflictResolver_def WithBatchSize_manager_def WithTimeout_def WithSyncInterval_def
    WithPushOnly_def WithPullOnly_def WithValidation_def WithCompression_manager_def WithFilter_def ..

lemma if_set_field: "(\<And>b. f (g b) = f b) \<Longrightarrow> f (if_set c g b) = f b"
  by (simp add: if_set_def)

lemma config_builder_fields:
  "sb_store (config_builder l c) = cg_Store c" "sb_transport (config_builder l c) = cg_Transport c"
proof -
  show "sb_store (config_builder l c) = cg_Store c"
    unfolding config_builder_def Let_def by (simp add: if_set_field [of sb_store] setter_defs)
  have "sb_transport (config_builder l c) = sb_transport (if_set (cg_Transport c \<noteq> None) (b_WithTransport (cg_Transport c)) (b_WithStore (cg_Store c) (NewSyncManagerBuilder l)))"
    unfolding config_builder_def Let_def by (simp add: if_set_field [of sb_transport] setter_defs)
  also have "\<dots> = cg_Transport c" by (simp add: if_set_def setter_defs NewSyncManagerBuilder_def)
  finally show "sb_transport (config_builder l c) = cg_Transport c" .
qed

lemma config_builder_options: "apply_options (options_of c) (NewSyncManagerBuilder l) = Inr (config_builder l c)"
proof -
  have one: "apply_options [option_of f] b = Inr (f b)" for f and b :: "('s, 't) builder" by (simp add: option_of_def)
  show ?thesis unfolding options_of_alt apply_append one apply_if sum.case config_builder_def Let_def ..
qed

text \<open>
  For a valid configuration, the canonical constructor gives exactly what \<open>NewManager\<close> gives for the corresponding options: the same manager, or the same error.
\<close>

theorem canonical_equals_options:
  assumes "Validate_config dur c = None"
  shows "New_config dur default_logger now hooks c = NewManager default_logger now hooks (options_of c)"
proof -
  have "cg_Store c \<noteq> None" using assms by (auto simp: Validate_config_def split: if_splits)
  then show ?thesis using assms by (auto simp add: New_config_def NewManager_def newManagerFromConfig_def config_builder_options config_builder_fields)
qed

text \<open>A configuration without a transport is valid, but no manager can be made from it, although the transport is documented as optional.\<close>

lemma transport_not_optional:
  assumes "cg_Transport c = None"
  shows "\<exists>err. New_config dur default_logger now hooks c = Inl err"
  using assms config_builder_fields [of default_logger c]
  by (auto simp: New_config_def newManagerFromConfig_def Build_manager_def split: option.splits)

text \<open>The retry policy and the cursor mode are checked, and otherwise ignored.\<close>

lemma retry_ignored:
  assumes "Validate_config dur (c\<lparr>cg_Retry := r\<rparr>) = None" and "Validate_config dur c = None"
  shows "New_config dur l now hooks (c\<lparr>cg_Retry := r\<rparr>) = New_config dur l now hooks c"
  using assms by (simp add: New_config_def newManagerFromConfig_def config_builder_def)

section \<open>Witnesses\<close>

theorem built_manager_ready_witness:
  "\<exists>m. NewManager GNil 0 0 [WithStore (Some New_store), WithTransport (Some ()), WithPushOnly, WithBatchSize_manager 7] = Inr m \<and> phase m SyncIdle \<and> 0 < BatchSize (mg_options m)"
proof -
  let ?o = "[WithStore (Some New_store), WithTransport (Some ()), WithPushOnly, WithBatchSize_manager 7]"
  obtain m where m: "NewManager GNil 0 0 ?o = Inr m"
    by (simp add: NewManager_def option_defs setter_defs NewSyncManagerBuilder_def builder_options_def Build_manager_def Let_def)
  have "list_all known_option ?o" by (simp add: known_option.intros)
  from built_manager_ready [OF this m] show ?thesis using m by blast
qed

definition plain_cfg :: "(mem_store, unit) config" where
  "plain_cfg = \<lparr>cg_Store = Some New_store, cg_Transport = Some (), cg_Logger = GNil, cg_Cursor = CursorVector, cg_Retry = \<lparr>rp_Max = 3, rp_Base = 1, rp_Cap = 2, rp_Jitter = True\<rparr>,
     cg_Resolvers = None, cg_Timeout = 5, cg_BatchSize = 0, cg_SyncInterval = 0, cg_PushOnly = False, cg_PullOnly = True, cg_EnableValidation = True,
     cg_EnableCompression = False, cg_Filter = None\<rparr>"

theorem canonical_equals_options_witness:
  "New_config (\<lambda>_. []) GNil 0 0 plain_cfg = NewManager GNil 0 0 (options_of plain_cfg) \<and> Validate_config (\<lambda>_. []) plain_cfg = None"
proof -
  have v: "Validate_config (\<lambda>_. []) plain_cfg = None" by (simp add: plain_cfg_def Validate_config_def validate_retry_def CursorVector_def)
  show ?thesis using canonical_equals_options [OF v] v by simp
qed

end
