(* ===== verification/Rule_Config_Properties.thy ===== *)
theory Rule_Config_Properties
  imports Rule_Config
begin

text \<open>
  Properties of the rule configuration: what a load leaves behind and what the built-in validator accepts, what a configured rule matches, and the decisions of a configured resolver against a
  search through the entries of the configuration.
\<close>

section \<open>Validation\<close>

definition well_formed_rules :: "rule_config_entry list \<Rightarrow> bool" where
  "well_formed_rules rs \<longleftrightarrow> distinct (map re_Name rs) \<and> list_all (\<lambda>r. re_Name r \<noteq> [] \<and> rs_Strategy (re_Resolution r) \<noteq> []) rs"

definition well_formed_config :: "rule_config \<Rightarrow> bool" where
  "well_formed_config c \<longleftrightarrow> rc_Version c \<noteq> [] \<and> rc_Name c \<noteq> [] \<and> distinct (map gc_Name (rc_Groups c))
     \<and> list_all (\<lambda>g. gc_Name g \<noteq> [] \<and> well_formed_rules (gc_Rules g)) (rc_Groups c) \<and> well_formed_rules (rc_Rules c)"

lemma first_error_None: "(case x of Some e \<Rightarrow> Some (f e) | None \<Rightarrow> y) = None \<longleftrightarrow> x = None \<and> y = None"
  by (cases x) simp_all

lemma validateRules_from_None:
  "validateRules_from seen rs ctx = None \<longleftrightarrow> well_formed_rules rs \<and> set (map re_Name rs) \<inter> set seen = {}"
  by (induction seen rs ctx rule: validateRules_from.induct) (auto simp: well_formed_rules_def)

lemma validateRules_None: "validateRules rs ctx = None \<longleftrightarrow> well_formed_rules rs"
  by (simp add: validateRules_def validateRules_from_None)

lemma validate_groups_None:
  "validate_groups seen gs = None \<longleftrightarrow>
     distinct (map gc_Name gs) \<and> set (map gc_Name gs) \<inter> set seen = {} \<and> list_all (\<lambda>g. gc_Name g \<noteq> [] \<and> well_formed_rules (gc_Rules g)) gs"
  by (induction seen gs rule: validate_groups.induct) (auto simp: validateRules_None first_error_None)

lemma basic_Validate_accepts: "basic_Validate (Some c) = Some None \<longleftrightarrow> well_formed_config c"
  by (auto simp: basic_Validate_def well_formed_config_def validateRules_None validate_groups_None first_error_None)

section \<open>Loading\<close>

lemma run_validators_accept: "run_validators vs cfg = Some None \<Longrightarrow> v \<in> set vs \<Longrightarrow> cv_Validate v cfg = Some None"
  by (induction vs) (auto split: Option.bind_splits option.splits)

lemma applyConfig_installs:
  assumes "applyConfig cl config = ((effs, cl'), out)"
  shows "cl' = cl \<or> (\<exists>cfg. cl' = cl\<lparr>cl_currentConfig := cfg\<rparr> \<and> run_validators (cl_validators cl) cfg = Some None)"
  using assms by (auto simp: applyConfig_def Let_def split: option.splits sum.splits)

text \<open>The notifications among the effects of a load.\<close>

fun notifications :: "load_effect list \<Rightarrow> (string \<times> rule_config option \<times> rule_config option) list" where
  "notifications [] = []"
| "notifications (Notified w old new # es) = (w, old, new) # notifications es"
| "notifications (Logged l # es) = notifications es"

lemma notifications_append [simp]: "notifications (xs @ ys) = notifications xs @ notifications ys"
  by (induction xs rule: notifications.induct) simp_all

lemma notifications_logging [simp]: "notifications (when_logging cl l) = []"
  by (simp add: when_logging_def)

lemma notifications_watchers [simp]: "notifications (map (\<lambda>w. Notified (f w) (g w) (h w)) ws) = map (\<lambda>w. (f w, g w, h w)) ws"
  by (induction ws) simp_all

lemma notifications_applied: "applied_log cl cfg = Some logs \<Longrightarrow> notifications logs = []"
  by (auto simp: applied_log_def split: if_splits)

text \<open>
  A load of a configuration takes effect completely or not at all. When \<open>LoadFromBytes\<close> returns an error, the loader is unchanged and no watcher is told. When it returns nil, the new
  configuration is the decoded one after all transformers in order, every validator accepted that very configuration, nothing else of the loader changed, and every watcher is told once, in
  order of registration, with the previous and the new configuration.
\<close>

theorem config_load_atomic:
  assumes "LoadFromBytes um cl data format = ((effs, cl'), Some res)"
  shows "case res of
      Some err \<Rightarrow> cl' = cl \<and> notifications effs = []
    | None \<Rightarrow> \<exists>c cfg. decode_config um data format = Inr c \<and> run_transformers (cl_transformers cl) (Some c) = Some (Inr cfg)
        \<and> (\<forall>v \<in> set (cl_validators cl). cv_Validate v cfg = Some None)
        \<and> cl' = cl\<lparr>cl_currentConfig := cfg\<rparr>
        \<and> notifications effs = map (\<lambda>w. (cw_Name w, GetCurrentConfig cl, cfg)) (cl_watchers cl)"
  using assms
  by (auto simp: LoadFromBytes_def loadFromBytes_def applyConfig_def Let_def GetCurrentConfig_def notifications_applied run_validators_accept
      split: option.splits sum.splits)

fun load_all :: "unmarshallers \<Rightarrow> config_loader \<Rightarrow> (string \<times> string) list \<Rightarrow> config_loader" where
  "load_all um cl [] = cl"
| "load_all um cl ((data, format) # rest) = load_all um (snd (fst (LoadFromBytes um cl data format))) rest"

lemma LoadFromBytes_keeps:
  assumes "BasicValidator \<in> set (cl_validators cl)" and "pred_option well_formed_config (cl_currentConfig cl)"
    and "LoadFromBytes um cl data format = ((effs, cl'), out)"
  shows "cl_validators cl' = cl_validators cl \<and> pred_option well_formed_config (cl_currentConfig cl')"
proof -
  have "pred_option well_formed_config cfg" if "run_validators (cl_validators cl) cfg = Some None" for cfg
    using run_validators_accept [OF that assms(1)] by (cases cfg) (simp_all add: BasicValidator_def basic_Validate_accepts)
  then show ?thesis
    using assms by (auto simp: LoadFromBytes_def loadFromBytes_def split: sum.splits dest!: applyConfig_installs)
qed

text \<open>
  C21: with the built-in validator among its validators, a loader that starts empty only ever holds well-formed configurations: after any sequence of loads, in any format, some of which
  fail or panic in a transformer, the current configuration is absent or has a version and a name, its groups have distinct, non-empty names, and in each group and among the global rules the rules
  have distinct, non-empty names and name a strategy.
\<close>

theorem loaded_config_well_formed:
  assumes "BasicValidator \<in> set (cl_validators cl)" and "cl_currentConfig cl = None"
  shows "pred_option well_formed_config (GetCurrentConfig (load_all um cl loads))"
proof -
  have "pred_option well_formed_config (cl_currentConfig (load_all um cl' loads))"
    if "BasicValidator \<in> set (cl_validators cl')" "pred_option well_formed_config (cl_currentConfig cl')" for cl'
    using that
  proof (induction loads arbitrary: cl')
    case (Cons l ls)
    obtain data format where l: "l = (data, format)" by (cases l)
    obtain effs cl2 out where run: "LoadFromBytes um cl' data format = ((effs, cl2), out)" by (metis prod.exhaust)
    show ?case using LoadFromBytes_keeps [OF Cons.prems run] Cons.prems(1) Cons.IH [of cl2] by (simp add: l run)
  qed simp
  with assms show ?thesis by (simp add: GetCurrentConfig_def)
qed

section \<open>Configured resolvers\<close>

text \<open>The conditions of an entry all have to hold, also several of one kind.\<close>

definition applies :: "match_conditions \<Rightarrow> conflict \<Rightarrow> bool" where
  "applies m c \<longleftrightarrow> list_all (\<lambda>t. cf_EventType c = t) (mc_EventTypes m) \<and> list_all (\<lambda>f. f \<in> set (cf_ChangedFields c)) (mc_Fields m)
     \<and> list_all (\<lambda>a. cf_AggregateID c = a) (mc_AggregateIDs m)"

lemma AndMatcher_total:
  assumes "\<forall>sp \<in> set sps. \<exists>f b. sp = Some f \<and> f c = Some b"
  shows "AndMatcher sps c = Some (list_all (\<lambda>sp. call_spec sp c = Some True) sps)"
  using assms by (induction sps) (auto simp: call_spec_def)

lemma buildMatcher_applies: "\<exists>f. buildMatcher m = Some f \<and> f c = Some (applies m c)"
proof -
  define sps where "sps = map (\<lambda>t. Some (EventTypeIs t)) (mc_EventTypes m) @ map (\<lambda>f. Some (FieldChanged f)) (mc_Fields m)
      @ map (\<lambda>a. Some (AggregateIDMatches a)) (mc_AggregateIDs m)"
  have all: "\<forall>sp \<in> set sps. \<exists>f b. sp = Some f \<and> f c = Some b"
    by (auto simp: sps_def EventTypeIs_def FieldChanged_def AggregateIDMatches_def)
  have hold: "list_all (\<lambda>sp. call_spec sp c = Some True) sps \<longleftrightarrow> applies m c"
    by (simp add: sps_def applies_def call_spec_def list.pred_map comp_def list_ex_iff EventTypeIs_def FieldChanged_def AggregateIDMatches_def)
  have build: "buildMatcher m = (case sps of [] \<Rightarrow> Some AlwaysMatch | [x] \<Rightarrow> x | _ \<Rightarrow> Some (AndMatcher sps))"
    unfolding buildMatcher_def sps_def Let_def ..
  consider "sps = []" | sp where "sps = [sp]" | sp sq rest where "sps = sp # sq # rest"
    by (metis list.exhaust)
  then show ?thesis
  proof cases
    case 1 then show ?thesis using hold by (simp add: build AlwaysMatch_def)
  next
    case 2 then show ?thesis using hold all by (auto simp: build call_spec_def)
  next
    case 3 then show ?thesis using hold AndMatcher_total [OF all] by (simp add: build)
  qed
qed

text \<open>Two different event types in the conditions of one rule cannot both be the type of a conflict.\<close>

lemma two_event_types_never_match:
  "t \<in> set (mc_EventTypes m) \<Longrightarrow> u \<in> set (mc_EventTypes m) \<Longrightarrow> t \<noteq> u \<Longrightarrow> \<not> applies m c"
  unfolding applies_def list_all_iff by metis

text \<open>The resolver a strategy names, and the entries of a configuration in the order in which they are tried.\<close>

definition strategy :: "string \<Rightarrow> resolver option" where
  "strategy s = (case createResolverFromStrategy s None of Inr (Some r) \<Rightarrow> Some r | _ \<Rightarrow> None)"

definition entries :: "rule_config \<Rightarrow> rule_config_entry list" where
  "entries cfg = rc_Rules cfg @ concat (map gc_Rules (rc_Groups cfg))"

definition represents :: "rule \<Rightarrow> rule_config_entry \<Rightarrow> bool" where
  "represents r e \<longleftrightarrow> rule_Matcher r = buildMatcher (re_Conditions e) \<and> rule_Resolver r = strategy (rs_Strategy (re_Resolution e)) \<and> rule_Resolver r \<noteq> None"

lemma represents_renamed [simp]: "represents (r\<lparr>rule_Name := n\<rparr>) e \<longleftrightarrow> represents r e"
  by (simp add: represents_def)

lemma strategy_built:
  "createResolverFromStrategy s opts = Inr r \<Longrightarrow> r = strategy s \<and> r \<noteq> None"
  by (auto simp: strategy_def createResolverFromStrategy_def Let_def split: if_splits)

lemma buildRule_represents: "buildRule e = Inr r \<Longrightarrow> represents r e \<and> rule_Name r = re_Name e"
  by (auto simp: buildRule_def represents_def dest: strategy_built split: sum.splits)

text \<open>Options that only add rules.\<close>

definition rule_options :: "rule list \<Rightarrow> resolver_option list" where
  "rule_options = map (\<lambda>r. WithRule (rule_Name r) (rule_Matcher r) (rule_Resolver r))"

lemma rule_options_fold: "foldl (\<lambda>o' opt. opt o') o1 (rule_options rs) = o1\<lparr>ro_rules := ro_rules o1 @ rs\<rparr>"
  by (induction rs arbitrary: o1) (simp_all add: rule_options_def WithRule_def)

lemma global_rules_built:
  "global_rules es = Inr opts \<Longrightarrow> \<exists>rs. opts = rule_options rs \<and> list_all2 represents rs es \<and> map rule_Name rs = map re_Name es"
proof (induction es arbitrary: opts)
  case (Cons e es)
  then obtain r more_opts where r: "buildRule e = Inr r" "global_rules es = Inr more_opts"
    and opts: "opts = WithRule (rule_Name r) (rule_Matcher r) (rule_Resolver r) # more_opts"
    by (auto split: sum.splits simp: map_sum_def)
  obtain rs where "more_opts = rule_options rs \<and> list_all2 represents rs es \<and> map rule_Name rs = map re_Name es" using Cons.IH r(2) by blast
  then show ?case using buildRule_represents [OF r(1)] opts by (intro exI [of _ "r # rs"]) (simp add: rule_options_def)
qed (simp add: rule_options_def)

lemma rules_of_group_built:
  "rules_of_group g es = Inr opts \<Longrightarrow> \<exists>rs. opts = rule_options rs \<and> list_all2 represents rs es \<and> map rule_Name rs = map (\<lambda>e. dotted g (re_Name e)) es"
proof (induction es arbitrary: opts)
  case (Cons e es)
  then obtain r more_opts where r: "buildRule e = Inr r" "rules_of_group g es = Inr more_opts"
    and opts: "opts = WithRule (dotted g (rule_Name r)) (rule_Matcher r) (rule_Resolver r) # more_opts"
    by (auto split: sum.splits simp: map_sum_def)
  obtain rs where "more_opts = rule_options rs \<and> list_all2 represents rs es \<and> map rule_Name rs = map (\<lambda>e. dotted g (re_Name e)) es" using Cons.IH r(2) by blast
  then show ?case using buildRule_represents [OF r(1)] opts
    by (intro exI [of _ "r\<lparr>rule_Name := dotted g (rule_Name r)\<rparr> # rs"]) (simp add: rule_options_def)
qed (simp add: rule_options_def)

lemma grouped_rules_built:
  "grouped_rules gs = Inr opts \<Longrightarrow> \<exists>rs. opts = rule_options rs \<and> list_all2 represents rs (concat (map gc_Rules gs))
     \<and> map rule_Name rs = concat (map (\<lambda>g. map (\<lambda>e. dotted (gc_Name g) (re_Name e)) (gc_Rules g)) gs)"
proof (induction gs arbitrary: opts)
  case (Cons g gs)
  then obtain o1 o2 where g: "rules_of_group (gc_Name g) (gc_Rules g) = Inr o1" "grouped_rules gs = Inr o2" "opts = o1 @ o2"
    by (auto split: sum.splits simp: map_sum_def)
  from rules_of_group_built [OF g(1)] obtain r1
    where r1: "o1 = rule_options r1" "list_all2 represents r1 (gc_Rules g)" "map rule_Name r1 = map (\<lambda>e. dotted (gc_Name g) (re_Name e)) (gc_Rules g)" by blast
  from Cons.IH [OF g(2)] obtain r2
    where r2: "o2 = rule_options r2" "list_all2 represents r2 (concat (map gc_Rules gs))"
      "map rule_Name r2 = concat (map (\<lambda>g. map (\<lambda>e. dotted (gc_Name g) (re_Name e)) (gc_Rules g)) gs)" by blast
  show ?case using g(3) r1 r2 by (intro exI [of _ "r1 @ r2"]) (simp add: rule_options_def list_all2_appendI)
qed (simp add: rule_options_def)

definition configured_names :: "rule_config \<Rightarrow> string list" where
  "configured_names cfg = map re_Name (rc_Rules cfg) @ concat (map (\<lambda>g. map (\<lambda>e. dotted (gc_Name g) (re_Name e)) (gc_Rules g)) (rc_Groups cfg))"

lemma built_resolver:
  assumes "BuildDynamicResolver cl = Inr d" and "GetCurrentConfig cl = Some cfg"
  shows "list_all2 represents (dr_rules d) (entries cfg) \<and> map rule_Name (dr_rules d) = configured_names cfg
    \<and> dr_fallback d = strategy (cs_DefaultFallback (rc_Settings cfg)) \<and> dr_hooks d = no_hooks"
proof -
  from assms obtain fb rs gs where parts: "default_fallback cfg = Inr fb" "global_rules (rc_Rules cfg) = Inr rs" "grouped_rules (rc_Groups cfg) = Inr gs"
    and new: "NewDynamicResolver (fb @ rs @ gs) = Inr d"
    by (auto simp: BuildDynamicResolver_def GetCurrentConfig_def split: sum.splits)
  from global_rules_built [OF parts(2)] obtain r1
    where r1: "rs = rule_options r1" "list_all2 represents r1 (rc_Rules cfg)" "map rule_Name r1 = map re_Name (rc_Rules cfg)" by blast
  from grouped_rules_built [OF parts(3)] obtain r2
    where r2: "gs = rule_options r2" "list_all2 represents r2 (concat (map gc_Rules (rc_Groups cfg)))"
      "map rule_Name r2 = concat (map (\<lambda>g. map (\<lambda>e. dotted (gc_Name g) (re_Name e)) (gc_Rules g)) (rc_Groups cfg))" by blast
  have fb: "foldl (\<lambda>o' opt. opt o') zero_options fb = zero_options\<lparr>ro_fallback := strategy (cs_DefaultFallback (rc_Settings cfg))\<rparr>"
    using parts(1) by (auto simp: default_fallback_def WithFallback_def zero_options_def strategy_def createResolverFromStrategy_def to_lower_def Let_def
        split: sum.splits if_splits)
  show ?thesis using new r1 r2 fb
    by (auto simp: NewDynamicResolver_def Let_def rule_options_fold zero_options_def entries_def configured_names_def list_all2_appendI
        split: option.splits if_splits)
qed

lemma represents_matches: "represents r e \<Longrightarrow> decided r c \<and> (matches r c \<longleftrightarrow> applies (re_Conditions e) c)"
  using buildMatcher_applies [of "re_Conditions e" c] by (auto simp: represents_def decided_def matches_def)

lemma resolve_rules_entries:
  assumes "list_all2 represents rs es"
  shows "map_option snd (resolve_rules no_hooks fb rs ctx c) =
    (case find (\<lambda>e. applies (re_Conditions e) c) es of
       Some e \<Rightarrow> the (strategy (rs_Strategy (re_Resolution e))) ctx c
     | None \<Rightarrow> (case fb of Some f \<Rightarrow> f ctx c | None \<Rightarrow> Some (Inl err_no_rule)))"
  using assms
proof (induction rs es rule: list_all2_induct)
  case Nil
  show ?case by (auto simp: no_hooks_def run_resolver_def option.map_comp split: option.split Option.bind_split sum.split)
next
  case (Cons r rs e es)
  show ?case
  proof (cases "matches r c")
    case True
    obtain f where "rule_Resolver r = Some f" "strategy (rs_Strategy (re_Resolution e)) = Some f" using Cons(1) unfolding represents_def by fastforce
    then show ?thesis using True represents_matches [OF Cons(1), of c] resolve_rules_hit [OF True]
      by (simp add: option.map_comp comp_def option.map_ident)
  next
    case False
    then have "resolve_rules no_hooks fb (r # rs) ctx c = resolve_rules no_hooks fb rs ctx c"
      using represents_matches [OF Cons(1), of c] by (simp add: call_matcher)
    then show ?thesis using False represents_matches [OF Cons(1), of c] Cons.IH by simp
  qed
qed

text \<open>
  C19: a resolver built from a loaded configuration decides as a search through the configuration. The entries are tried in the order global rules first, then the groups in order with their rules
  in order; the first entry whose event types, changed fields and aggregate ids all hold for the conflict decides it by its strategy, with any capitalisation of the strategy's name and
  without its options, priority, enabled flag and custom conditions; without such an entry the default fallback decides, and without a fallback the conflict is an error. The rules carry the
  entries' names, those of a group prefixed with the group's name.
\<close>

theorem configured_resolver_decides:
  assumes "BuildDynamicResolver cl = Inr d" and "GetCurrentConfig cl = Some cfg"
  shows "dynamic_as_resolver d ctx c =
      (case find (\<lambda>e. applies (re_Conditions e) c) (entries cfg) of
         Some e \<Rightarrow> the (strategy (rs_Strategy (re_Resolution e))) ctx c
       | None \<Rightarrow> (case strategy (cs_DefaultFallback (rc_Settings cfg)) of Some f \<Rightarrow> f ctx c | None \<Rightarrow> Some (Inl err_no_rule)))
    \<and> map rule_Name (dr_rules d) = configured_names cfg"
  using built_resolver [OF assms] resolve_rules_entries [of "dr_rules d" "entries cfg"]
  by (simp add: dynamic_as_resolver_def Resolve_dynamic_def)

section \<open>Groups\<close>

lemma AddRule_disabled: "\<not> rg_enabled rg \<Longrightarrow> AddRule rg r = rg"
  by (cases rg) simp

lemma add_rules_disabled: "\<not> rg_enabled rg \<Longrightarrow> add_rules g es rg = Inr rg' \<Longrightarrow> rg' = rg"
  by (induction es arbitrary: rg) (auto simp: AddRule_disabled split: sum.splits)

lemma AddSubGroup_disabled: "\<not> rg_enabled rg \<Longrightarrow> AddSubGroup rg sub = Some rg"
  by (cases rg) simp

lemma add_subgroups_disabled: "\<not> rg_enabled rg \<Longrightarrow> add_subgroups ss rg = Some (Inr rg') \<Longrightarrow> rg' = rg"
  by (induction ss arbitrary: rg) (auto simp: AddSubGroup_disabled split: sum.splits Option.bind_splits)

text \<open>A group that is configured as disabled loses its rules: enabling it later gives a group without any.\<close>

lemma disabled_group_is_empty:
  assumes "buildRuleGroup g = Some (Inr rg)" and "gc_Enabled g = Some False"
  shows "GetAllRules (Enable rg) = []"
proof (cases g)
  case (GroupConfig n d en fb rs subs md)
  then obtain opts rg1 where opts: "group_options g = Inr opts" and rg1: "add_rules n rs (NewRuleGroup n opts) = Inr rg1" and rg: "add_subgroups subs rg1 = Some (Inr rg)"
    using assms(1) by (auto split: sum.splits)
  have new: "\<not> rg_enabled (NewRuleGroup n opts) \<and> rg_rules (NewRuleGroup n opts) = [] \<and> rg_subGroups (NewRuleGroup n opts) = []"
    using opts assms(2) by (auto simp: group_options_def NewRuleGroup_def Let_def split: sum.splits if_splits)
  then have "rg = NewRuleGroup n opts" using add_rules_disabled [OF _ rg1] add_subgroups_disabled [OF _ rg] by auto
  with new have "rg_rules rg = [] \<and> rg_subGroups rg = []" by simp
  then show ?thesis by (cases rg) simp
qed

section \<open>Witnesses\<close>

definition sample_entry :: "string \<Rightarrow> string list \<Rightarrow> string \<Rightarrow> rule_config_entry" where
  "sample_entry name types strat = \<lparr>re_Name = name, re_Description = [], re_Enabled = None, re_Priority = 0,
     re_Conditions = \<lparr>mc_EventTypes = types, mc_AggregateIDs = [], mc_Fields = [], mc_CustomMatch = None\<rparr>,
     re_Resolution = \<lparr>rs_Strategy = strat, rs_Options = None\<rparr>, re_Metadata = None\<rparr>"

definition sample_settings :: config_settings where
  "sample_settings = \<lparr>cs_DefaultFallback = [], cs_Timeouts = \<lparr>ResolutionTimeoutMs = 0, ManualReviewTimeoutMs = 0\<rparr>,
     cs_Limits = \<lparr>MaxConflictsPerBatch = 0, MaxRulesPerGroup = 0\<rparr>, cs_Features = None, cs_Custom = None\<rparr>"

definition sample_rules :: rule_config where
  "sample_rules = \<lparr>rc_Version = ''1'', rc_Name = ''rules'', rc_Description = [], rc_Metadata = None, rc_Settings = sample_settings,
     rc_Groups = [GroupConfig ''late'' [] (Some False) [] [sample_entry ''rest'' [] ''manual''] [] None],
     rc_Rules = [sample_entry ''never'' [''A'', ''B''] ''merge'', sample_entry ''users'' [''UserUpdated''] ''LWW'']\<rparr>"

definition sample_loader :: config_loader where
  "sample_loader = NewConfigLoader [WithConfigValidator BasicValidator, WithWatcher (NewLoggingWatcher True), WithConfigLogger True]"

definition sample_decoders :: unmarshallers where
  "sample_decoders = \<lparr>yaml_Unmarshal = (\<lambda>_. Inr sample_rules), json_Unmarshal_config = (\<lambda>_. Inl (ErrorString ''bad''))\<rparr>"

lemma lowered:
  "to_lower ''YAML'' = ''yaml''" "to_lower ''json'' = ''json''" "to_lower ''LWW'' = ''lww''" "to_lower ''merge'' = ''merge''" "to_lower ''manual'' = ''manual''" "to_lower [] = []"
  by code_simp+

lemmas sample_defs = sample_entry_def sample_settings_def sample_rules_def sample_loader_def sample_decoders_def NewConfigLoader_def WithConfigValidator_def
  WithWatcher_def WithConfigLogger_def

lemma sample_well_formed: "well_formed_config sample_rules"
  by (simp add: well_formed_config_def well_formed_rules_def sample_defs)

lemma sample_load: "\<exists>effs. LoadFromBytes sample_decoders sample_loader [] ''YAML'' = ((effs, sample_loader\<lparr>cl_currentConfig := Some sample_rules\<rparr>), Some None)"
  using sample_well_formed basic_Validate_accepts [of sample_rules]
  by (simp add: LoadFromBytes_def loadFromBytes_def decode_config_def lowered applyConfig_def applied_log_def sample_defs BasicValidator_def Let_def)

theorem config_load_atomic_witness:
  "\<exists>effs cfg. run_transformers (cl_transformers sample_loader) (Some sample_rules) = Some (Inr cfg)
     \<and> LoadFromBytes sample_decoders sample_loader [] ''YAML'' = ((effs, sample_loader\<lparr>cl_currentConfig := cfg\<rparr>), Some None)
     \<and> notifications effs = [(''logging'', None, cfg)]"
proof -
  obtain effs where load: "LoadFromBytes sample_decoders sample_loader [] ''YAML'' = ((effs, sample_loader\<lparr>cl_currentConfig := Some sample_rules\<rparr>), Some None)"
    using sample_load by blast
  have dec: "decode_config sample_decoders [] ''YAML'' = Inr sample_rules" by (simp add: decode_config_def lowered sample_decoders_def)
  show ?thesis using config_load_atomic [OF load] load dec
    by (auto simp: sample_loader_def NewConfigLoader_def WithConfigValidator_def WithWatcher_def WithConfigLogger_def NewLoggingWatcher_def GetCurrentConfig_def)
qed

theorem loaded_config_well_formed_witness:
  "pred_option well_formed_config (GetCurrentConfig (load_all sample_decoders sample_loader [([], ''YAML''), ([], ''json'')]))"
  by (rule loaded_config_well_formed)
    (simp_all add: sample_loader_def NewConfigLoader_def WithConfigValidator_def WithWatcher_def WithConfigLogger_def)

theorem configured_resolver_decides_witness:
  "\<exists>d. BuildDynamicResolver (sample_loader\<lparr>cl_currentConfig := Some sample_rules\<rparr>) = Inr d
     \<and> map rule_Name (dr_rules d) = [''never'', ''users'', ''late.rest'']
     \<and> dynamic_as_resolver d None (sample_conflict\<lparr>cf_EventType := ''A''\<rparr>) = ManualReview [] None (sample_conflict\<lparr>cf_EventType := ''A''\<rparr>)"
proof -
  obtain d where d: "BuildDynamicResolver (sample_loader\<lparr>cl_currentConfig := Some sample_rules\<rparr>) = Inr d"
    by (simp add: BuildDynamicResolver_def default_fallback_def sample_defs buildRule_def createResolverFromStrategy_def lowered Let_def
        NewDynamicResolver_def WithRule_def zero_options_def buildMatcher_def)
  have cfg: "GetCurrentConfig (sample_loader\<lparr>cl_currentConfig := Some sample_rules\<rparr>) = Some sample_rules" by (simp add: GetCurrentConfig_def)
  show ?thesis using d configured_resolver_decides [OF d cfg]
    by (auto simp: configured_names_def entries_def applies_def strategy_def createResolverFromStrategy_def lowered Let_def sample_rules_def
        sample_entry_def dotted_def)
qed

end
