(* ===== verification/Cursor_Paging.thy ===== *)
theory Cursor_Paging
  imports Http_Types Sql_Database
begin

text \<open>
  Paging through the events of a database with cursors: the queries of storage/sqlite/pull.go, and the client and the server of transport/httptransport/cursor.go that carry the pages. The
  database is a parameter; the locale \<open>paging_database\<close> states what its documentation says of the two queries, and \<open>rows_db\<close> is a database that keeps it. The envelopes of the two packages
  have the same fields and are one record. A body of a request or response is the JSON value it holds, or an error when it cannot be decoded. The texts of the statements have single spaces. Iteration orders and the error of the context are arguments.
\<close>

section \<open>Rows and envelopes\<close>

record pull_row =
  er_Seq :: u64
  er_ID :: string
  er_Type :: string
  er_AggregateID :: string
  er_DataJSON :: string
  er_MetadataJSON :: string
  er_OriginNode :: "string option"
  er_OriginCounter :: "i64 option"

record event_envelope =
  ee_ID :: string
  ee_Type :: string
  ee_AggregateID :: string
  ee_Data :: metadata
  ee_Metadata :: metadata
  ee_OriginNode :: string
  ee_OriginCounter :: u64
  ee_Seq :: u64

text \<open>\<open>jm\<close> is \<open>json.Unmarshal\<close> into a nil map, which stays nil on an error.\<close>

definition jsonUnmarshalTo :: "(string \<Rightarrow> go_error + metadata) \<Rightarrow> string \<Rightarrow> metadata" where
  "jsonUnmarshalTo jm s = (if s = [] \<or> s = ''null'' then None else case jm s of Inl _ \<Rightarrow> None | Inr m \<Rightarrow> m)"

definition toEnvelope :: "(string \<Rightarrow> go_error + metadata) \<Rightarrow> pull_row \<Rightarrow> event_envelope" where
  "toEnvelope jm r = \<lparr>ee_ID = er_ID r, ee_Type = er_Type r, ee_AggregateID = er_AggregateID r,
     ee_Data = (if er_DataJSON r \<noteq> [] then jsonUnmarshalTo jm (er_DataJSON r) else None),
     ee_Metadata = (if er_MetadataJSON r \<noteq> [] then jsonUnmarshalTo jm (er_MetadataJSON r) else None),
     ee_OriginNode = (case er_OriginNode r of None \<Rightarrow> [] | Some n \<Rightarrow> n),
     ee_OriginCounter = (case er_OriginCounter r of None \<Rightarrow> 0 | Some c \<Rightarrow> if sint c > 0 then c else 0),
     ee_Seq = er_Seq r\<rparr>"

section \<open>Queries\<close>

record 'd pull_ops =
  pl_Query :: "'d \<Rightarrow> go_error option \<Rightarrow> string \<Rightarrow> sql_value list \<Rightarrow> go_error + ((go_error + pull_row) list \<times> go_error option)"
  pl_BeginTx :: "'d \<Rightarrow> go_error option \<Rightarrow> 'd \<times> (go_error + nat)"
  pl_TxExec :: "'d \<Rightarrow> nat \<Rightarrow> go_error option \<Rightarrow> string \<Rightarrow> sql_value list \<Rightarrow> 'd \<times> go_error option"
  pl_TxQuery :: "'d \<Rightarrow> nat \<Rightarrow> go_error option \<Rightarrow> string \<Rightarrow> sql_value list \<Rightarrow> go_error + ((go_error + pull_row) list \<times> go_error option)"
  pl_Commit :: "'d \<Rightarrow> nat \<Rightarrow> 'd \<times> go_error option"
  pl_Rollback :: "'d \<Rightarrow> nat \<Rightarrow> 'd \<times> go_error option"

type_synonym pull_result = "event_envelope list \<times> cursor option \<times> go_error option"

text \<open>\<open>database/sql\<close> refuses an unsigned argument with the high bit set.\<close>

definition uint64_arg :: "u64 \<Rightarrow> go_error + sql_value" where
  "uint64_arg n = (if sint n < 0 then Inl (ErrorString ''sql: converting argument $1 type: uint64 values with high bit set are not supported'') else Inr (SqlInt n))"

definition integer_query :: string where
  "integer_query = ''SELECT seq, id, event_type, aggregate_id, data, metadata, origin_node, origin_counter FROM events WHERE seq > ? ORDER BY seq ASC LIMIT ?''"

fun integer_rows :: "(string \<Rightarrow> go_error + metadata) \<Rightarrow> (go_error + pull_row) list \<Rightarrow> event_envelope list \<Rightarrow> u64 \<Rightarrow> go_error + event_envelope list \<times> u64" where
  "integer_rows jm [] out maxSeq = Inr (out, maxSeq)"
| "integer_rows jm (Inl e # rows) out maxSeq = Inl e"
| "integer_rows jm (Inr r # rows) out maxSeq = integer_rows jm rows (out @ [toEnvelope jm r]) (if er_Seq r > maxSeq then er_Seq r else maxSeq)"

definition fetchInteger :: "(string \<Rightarrow> go_error + metadata) \<Rightarrow> 'd pull_ops \<Rightarrow> 'd \<Rightarrow> go_error option \<Rightarrow> u64 \<Rightarrow> int \<Rightarrow> pull_result" where
  "fetchInteger jm ops d ctx seq limit = (case uint64_arg seq of
       Inl e \<Rightarrow> ([], None, Some e)
     | Inr a \<Rightarrow> (case pl_Query ops d ctx integer_query [a, SqlInt (word_of_int limit)] of
         Inl e \<Rightarrow> ([], None, Some e)
       | Inr (rows, err) \<Rightarrow> (case integer_rows jm rows [] 0 of
           Inl e \<Rightarrow> ([], None, Some e)
         | Inr (out, maxSeq) \<Rightarrow> (out, Some (if out \<noteq> [] then Integer_cursor maxSeq else Integer_cursor seq), err))))"

definition create_since :: string where
  "create_since = ''CREATE TEMP TABLE since (node TEXT PRIMARY KEY, counter INTEGER)''"

definition insert_since :: "nat \<Rightarrow> string" where
  "insert_since n = ''INSERT INTO since(node,counter) VALUES '' @ join '','' (replicate n ''(?,?)'')"

definition since_args :: "(string \<times> u64) list \<Rightarrow> sql_value list" where
  "since_args cs = concat (map (\<lambda>(node, ctr). [SqlText node, SqlInt ctr]) cs)"

definition vector_query :: string where
  "vector_query = ''SELECT e.seq, e.id, e.event_type, e.aggregate_id, e.data, e.metadata, e.origin_node, e.origin_counter FROM events e ''
     @ ''LEFT JOIN since s ON s.node = e.origin_node WHERE COALESCE(s.counter, 0) < e.origin_counter ORDER BY e.seq ASC LIMIT ?''"

definition advance :: "(string, u64) fmap \<Rightarrow> pull_row \<Rightarrow> (string, u64) fmap" where
  "advance next r = (case (er_OriginNode r, er_OriginCounter r) of
       (Some node, Some cnt) \<Rightarrow> (case fmlookup next node of None \<Rightarrow> fmupd node cnt next | Some cur \<Rightarrow> if cnt > cur then fmupd node cnt next else next)
     | _ \<Rightarrow> next)"

fun vector_rows :: "(string \<Rightarrow> go_error + metadata) \<Rightarrow> (go_error + pull_row) list \<Rightarrow> event_envelope list \<Rightarrow> (string, u64) fmap
    \<Rightarrow> go_error + event_envelope list \<times> (string, u64) fmap" where
  "vector_rows jm [] out next = Inr (out, next)"
| "vector_rows jm (Inl e # rows) out next = Inl e"
| "vector_rows jm (Inr r # rows) out next = vector_rows jm rows (out @ [toEnvelope jm r]) (advance next r)"

text \<open>The statements inside the transaction, up to the commit; the deferred rollback follows in \<open>fetchVector\<close>.\<close>

definition vector_tx ::
  "(string \<Rightarrow> go_error + metadata) \<Rightarrow> 'd pull_ops \<Rightarrow> 'd \<Rightarrow> nat \<Rightarrow> go_error option \<Rightarrow> (string, u64) gomap \<Rightarrow> string list \<Rightarrow> int \<Rightarrow> 'd \<times> pull_result" where
  "vector_tx jm ops d1 t ctx counters order limit = (case pl_TxExec ops d1 t ctx create_since [] of
       (d2, Some e) \<Rightarrow> (d2, [], None, Some e)
     | (d2, None) \<Rightarrow>
         (case (if order = [] then (d2, None)
                else pl_TxExec ops d2 t ctx (insert_since (length order)) (since_args (map (\<lambda>n. (n, the (fmlookup (gm_fmap counters) n))) order))) of
            (d3, Some e) \<Rightarrow> (d3, [], None, Some e)
          | (d3, None) \<Rightarrow> (case pl_TxQuery ops d3 t ctx vector_query [SqlInt (word_of_int limit)] of
              Inl e \<Rightarrow> (d3, [], None, Some e)
            | Inr (rows, err) \<Rightarrow> (case vector_rows jm rows [] (gm_fmap counters) of
                Inl e \<Rightarrow> (d3, [], None, Some e)
              | Inr (out, next) \<Rightarrow> (case err of
                  Some e \<Rightarrow> (d3, [], None, Some e)
                | None \<Rightarrow> (case pl_Commit ops d3 t of
                    (d4, Some e) \<Rightarrow> (d4, [], None, Some e)
                  | (d4, None) \<Rightarrow> (d4, out, Some (if out \<noteq> [] then Vector_cursor (Some next) else Vector_cursor counters), None)))))))"

definition fetchVector ::
  "(string \<Rightarrow> go_error + metadata) \<Rightarrow> 'd pull_ops \<Rightarrow> 'd \<Rightarrow> go_error option \<Rightarrow> (string, u64) gomap \<Rightarrow> string list \<Rightarrow> int \<Rightarrow> 'd \<times> pull_result" where
  "fetchVector jm ops d ctx counters order limit = (case pl_BeginTx ops d ctx of
       (d1, Inl e) \<Rightarrow> (d1, [], None, Some e)
     | (d1, Inr t) \<Rightarrow> (case vector_tx jm ops d1 t ctx counters order limit of (d2, res) \<Rightarrow> (fst (pl_Rollback ops d2 t), res)))"

definition PullWithCursor_sqlite ::
  "(string \<Rightarrow> go_error + metadata) \<Rightarrow> 'd pull_ops \<Rightarrow> 'd \<Rightarrow> go_error option \<Rightarrow> cursor option \<Rightarrow> string list \<Rightarrow> int \<Rightarrow> 'd \<times> pull_result" where
  "PullWithCursor_sqlite jm ops d ctx since order limit = (case since of
       None \<Rightarrow> (d, fetchInteger jm ops d ctx 0 limit)
     | Some (Integer_cursor c) \<Rightarrow> (d, fetchInteger jm ops d ctx c limit)
     | Some (Vector_cursor m) \<Rightarrow> fetchVector jm ops d ctx m order limit
     | Some (Other_cursor kind ty v) \<Rightarrow> (d, [], None, Some (ErrorString (''unsupported cursor type: '' @ ty))))"

section \<open>Client and server\<close>

record pull_request =
  pq_Since :: "wire_cursor option"
  pq_Limit :: int

record pull_response =
  pr_Events :: "event_envelope list"
  pr_Next :: "wire_cursor option"

text \<open>A reply: a body with status 200, or another status line and a text. \<open>http.Error\<close> ends the text with a newline.\<close>

datatype pull_reply = PullPage "go_error + pull_response" | PullError string string

definition newline :: string where "newline = [CHR 0x0A]"
definition bad_request :: string where "bad_request = ''400 Bad Request''"
definition server_failed :: string where "server_failed = ''500 Internal Server Error''"

text \<open>\<open>store\<close> is \<open>PullWithCursor\<close> of the store behind the server, with its state.\<close>

definition HandlePullWithCursor ::
  "codec_registry \<Rightarrow> ('d \<Rightarrow> cursor option \<Rightarrow> int \<Rightarrow> 'd \<times> pull_result) \<Rightarrow> 'd \<Rightarrow> go_error + pull_request \<Rightarrow> ('d \<times> pull_reply) go" where
  "HandlePullWithCursor reg store d body = (case body of
       Inl _ \<Rightarrow> Some (d, PullError bad_request (''bad request'' @ newline))
     | Inr req \<Rightarrow>
         (case (case pq_Since req of None \<Rightarrow> Inr None | Some w \<Rightarrow> UnmarshalWire reg (Some w)) of
            Inl _ \<Rightarrow> Some (d, PullError bad_request (''bad cursor'' @ newline))
          | Inr since \<Rightarrow>
              (let limit = (if pq_Limit req \<le> 0 \<or> pq_Limit req > 1000 then 200 else pq_Limit req);
                   (d', evs, next, err) = store d since limit
               in if err \<noteq> None then Some (d', PullError server_failed (''server error'' @ newline))
                  else do {
                    nextWire \<leftarrow> (case next of None \<Rightarrow> Some None
                      | Some c \<Rightarrow> map_option (\<lambda>r. case r of Inl _ \<Rightarrow> None | Inr w \<Rightarrow> Some w) (MarshalWire reg (Some c)));
                    Some (d', PullPage (Inr \<lparr>pr_Events = evs, pr_Next = nextWire\<rparr>)) })))"

text \<open>\<open>net\<close> carries the request to a server and brings its reply, or fails.\<close>

definition PullWithCursor_client ::
  "codec_registry \<Rightarrow> ('d \<Rightarrow> pull_request \<Rightarrow> ('d \<times> (go_error + pull_reply)) go) \<Rightarrow> 'd \<Rightarrow> cursor option \<Rightarrow> int \<Rightarrow> ('d \<times> pull_result) go" where
  "PullWithCursor_client reg net d since limit = do {
     sinceWire \<leftarrow> (case since of None \<Rightarrow> Some (Inr None) | Some c \<Rightarrow> map_option (map_sum id Some) (MarshalWire reg (Some c)));
     (case sinceWire of
        Inl e \<Rightarrow> Some (d, [], None, Some e)
      | Inr sw \<Rightarrow> do {
          (d', reply) \<leftarrow> net d \<lparr>pq_Since = sw, pq_Limit = limit\<rparr>;
          Some (case reply of
             Inl e \<Rightarrow> (d', [], None, Some e)
           | Inr (PullError status msg) \<Rightarrow> (d', [], None, Some (ErrorString (''pull failed: '' @ status @ '': '' @ msg)))
           | Inr (PullPage (Inl e)) \<Rightarrow> (d', [], None, Some e)
           | Inr (PullPage (Inr page)) \<Rightarrow>
               (case (case pr_Next page of None \<Rightarrow> Inr None | Some w \<Rightarrow> UnmarshalWire reg (Some w)) of
                  Inl e \<Rightarrow> (d', [], None, Some e)
                | Inr next \<Rightarrow> (d', pr_Events page, next, None))) }) }"

text \<open>A network that reaches the server, and repeated pulls of a client that passes on the cursor.\<close>

definition direct_net ::
  "codec_registry \<Rightarrow> ('d \<Rightarrow> cursor option \<Rightarrow> int \<Rightarrow> 'd \<times> pull_result) \<Rightarrow> 'd \<Rightarrow> pull_request \<Rightarrow> ('d \<times> (go_error + pull_reply)) go" where
  "direct_net reg store d req = map_option (map_prod id Inr) (HandlePullWithCursor reg store d (Inr req))"

fun cursor_rounds ::
  "nat \<Rightarrow> ('d \<Rightarrow> cursor option \<Rightarrow> ('d \<times> pull_result) go) \<Rightarrow> 'd \<Rightarrow> cursor option \<Rightarrow> ('d \<times> pull_result) go" where
  "cursor_rounds 0 pull d since = Some (d, [], since, None)"
| "cursor_rounds (Suc k) pull d since = do {
     (d', evs, next, err) \<leftarrow> pull d since;
     if err \<noteq> None then Some (d', evs, next, err)
     else map_option (\<lambda>(d2, evs2, res). (d2, evs @ evs2, res)) (cursor_rounds k pull d' next) }"

end
