(* ===== verification/Paging_Properties.thy ===== *)
theory Paging_Properties
  imports Cursor_Paging
begin

text \<open>
  Properties of paging with cursors. The locale \<open>paging_database\<close> holds what the queries return; inside it, pages with integer cursors and with vector cursors are exact, and the pages of repeated
  pulls over HTTP put together the table. At the end a database with the documented behaviour of SQLite's temporary tables.
\<close>

section \<open>The database\<close>

text \<open>\<open>LIMIT\<close>: a negative one is none.\<close>

definition limited :: "i64 \<Rightarrow> 'a list \<Rightarrow> 'a list" where
  "limited l xs = (if sint l < 0 then xs else take (nat (sint l)) xs)"

text \<open>The condition of the vector query. A missing node joins nothing, and a missing counter is not greater than any.\<close>

definition beyond :: "(string \<Rightarrow> i64 option) \<Rightarrow> pull_row \<Rightarrow> bool" where
  "beyond m r \<longleftrightarrow> (case er_OriginCounter r of
       None \<Rightarrow> False
     | Some c \<Rightarrow> sint (case er_OriginNode r of None \<Rightarrow> 0 | Some n \<Rightarrow> (case m n of None \<Rightarrow> 0 | Some k \<Rightarrow> k)) < sint c)"

definition before :: "pull_row \<Rightarrow> pull_row \<Rightarrow> bool" where
  "before a b \<longleftrightarrow> sint (er_Seq a) < sint (er_Seq b)"

locale paging_database =
  fixes ops :: "'d pull_ops" and valid :: "'d \<Rightarrow> bool" and tbl :: "'d \<Rightarrow> pull_row list"
  assumes rows_sorted: "valid d \<Longrightarrow> sorted_wrt before (tbl d)"
    and rows_positive: "valid d \<Longrightarrow> r \<in> set (tbl d) \<Longrightarrow> 0 < sint (er_Seq r)"
    and integer_page: "valid d \<Longrightarrow> pl_Query ops d ctx integer_query [SqlInt s, SqlInt l] = Inr (rows, None) \<Longrightarrow>
      (\<exists>e. Inl e \<in> set rows) \<or> rows = map Inr (limited l (filter (\<lambda>r. sint s < sint (er_Seq r)) (tbl d)))"
    and vector_page: "valid d \<Longrightarrow> pl_BeginTx ops d ctx = (d1, Inr t) \<Longrightarrow> pl_TxExec ops d1 t ctx create_since [] = (d2, None) \<Longrightarrow>
      (if cs = [] then d3 = d2 else pl_TxExec ops d2 t ctx (insert_since (length cs)) (since_args cs) = (d3, None)) \<Longrightarrow> distinct (map fst cs) \<Longrightarrow>
      pl_TxQuery ops d3 t ctx vector_query [SqlInt l] = Inr (rows, None) \<Longrightarrow>
      (\<exists>e. Inl e \<in> set rows) \<or> rows = map Inr (limited l (filter (beyond (map_of cs)) (tbl d)))"

section \<open>Pages\<close>

lemma uint_of_sint: "0 \<le> sint (a :: u64) \<Longrightarrow> uint a = sint a"
  using sint_bounds_i64 [of a] by (simp add: uint_sint take_bit_eq_mod)

lemma less_of_sint: "0 \<le> sint (a :: u64) \<Longrightarrow> 0 \<le> sint b \<Longrightarrow> a < b \<longleftrightarrow> sint a < sint b"
  by (simp add: word_less_def uint_of_sint)

lemma integer_rows_ok: "integer_rows jm (map Inr rs) out m = Inr (out @ map (toEnvelope jm) rs, foldl (\<lambda>m r. if er_Seq r > m then er_Seq r else m) m rs)"
  by (induction rs arbitrary: out m) simp_all

lemma integer_rows_failed: "Inl e \<in> set rows \<Longrightarrow> \<exists>e'. integer_rows jm rows out m = Inl e'"
  by (induction jm rows out m rule: integer_rows.induct) auto

lemma vector_rows_ok: "vector_rows jm (map Inr rs) out nx = Inr (out @ map (toEnvelope jm) rs, foldl advance nx rs)"
  by (induction rs arbitrary: out nx) simp_all

lemma vector_rows_failed: "Inl e \<in> set rows \<Longrightarrow> \<exists>e'. vector_rows jm rows out nx = Inl e'"
  by (induction jm rows out nx rule: vector_rows.induct) auto

lemma sorted_last: "sorted_wrt before rs \<Longrightarrow> r \<in> set rs \<Longrightarrow> r = last rs \<or> before r (last rs)"
  by (induction rs rule: rev_induct) (auto simp: sorted_wrt_append)

text \<open>A page is cut off the front of what is left, and what comes after its last row is what remains.\<close>

lemma sorted_beyond_page:
  assumes "sorted_wrt before rs" and "n \<noteq> 0" and "rs \<noteq> []"
  shows "filter (\<lambda>r. sint (er_Seq (last (take n rs))) < sint (er_Seq r)) rs = drop n rs"
proof -
  have page: "take n rs \<noteq> []" using assms by simp
  have "sorted_wrt before (take n rs @ drop n rs)" using assms(1) by simp
  then have s: "sorted_wrt before (take n rs)" and far: "\<forall>a \<in> set (take n rs). \<forall>b \<in> set (drop n rs). before a b"
    unfolding sorted_wrt_append by blast+
  have "\<not> before (last (take n rs)) r" if "r \<in> set (take n rs)" for r
    using sorted_last [OF s that] by (auto simp: before_def)
  then have "filter (before (last (take n rs))) (take n rs) = []" by (auto simp: filter_empty_conv)
  moreover have "filter (before (last (take n rs))) (drop n rs) = drop n rs" using far page by (auto simp: filter_id_conv)
  ultimately have "filter (before (last (take n rs))) (take n rs @ drop n rs) = drop n rs" by (simp only: filter_append append.left_neutral)
  then show ?thesis by (simp add: before_def [abs_def])
qed

lemma greatest_last:
  assumes "sorted_wrt before rs" and "\<forall>r \<in> set rs. 0 < sint (er_Seq r)" and "rs \<noteq> []"
  shows "foldl (\<lambda>m r. if er_Seq r > m then er_Seq r else m) 0 rs = er_Seq (last rs)"
  using assms
proof (induction rs rule: rev_induct)
  case (snoc r rs)
  show ?case
  proof (cases "rs = []")
    case False
    then have "foldl (\<lambda>m r. if er_Seq r > m then er_Seq r else m) 0 rs = er_Seq (last rs)" using snoc by (simp add: sorted_wrt_append)
    moreover have "before (last rs) r" "0 < sint (er_Seq (last rs))" "0 < sint (er_Seq r)" using snoc.prems False by (auto simp: sorted_wrt_append)
    ultimately show ?thesis by (simp add: before_def less_of_sint)
  qed (use snoc.prems in \<open>simp add: less_of_sint\<close>)
qed simp

text \<open>The part of the table after a sequence number, and databases whose integer query never fails.\<close>

definition after_seq_rows :: "u64 \<Rightarrow> pull_row list \<Rightarrow> pull_row list" where
  "after_seq_rows s rs = filter (\<lambda>r. sint s < sint (er_Seq r)) rs"

definition reliable :: "'d pull_ops \<Rightarrow> 'd \<Rightarrow> bool" where
  "reliable ops d \<longleftrightarrow> (\<forall>ctx s l. \<exists>rows. pl_Query ops d ctx integer_query [SqlInt s, SqlInt l] = Inr (map Inr rows, None))"

context paging_database
begin

lemma integer_page_exact:
  assumes "valid d" and "0 \<le> sint s" and "0 < limit" and "limit < 2 ^ 63" and "fetchInteger jm ops d ctx s limit = (out, next, None)"
  shows "out = map (toEnvelope jm) (take (nat limit) (after_seq_rows s (tbl d)))
    \<and> (\<exists>s'. next = Some (Integer_cursor s') \<and> 0 \<le> sint s' \<and> after_seq_rows s' (tbl d) = drop (nat limit) (after_seq_rows s (tbl d)))"
proof -
  define left where "left = after_seq_rows s (tbl d)"
  have l: "limited (word_of_int limit :: i64) left = take (nat limit) left" using assms(3,4) by (simp add: limited_def sint_of_int_i64)
  obtain rows where q: "pl_Query ops d ctx integer_query [SqlInt s, SqlInt (word_of_int limit)] = Inr (rows, None)"
    and ok: "\<exists>res. integer_rows jm rows [] 0 = Inr res"
    using assms(2,5) by (auto simp: fetchInteger_def uint64_arg_def split: sum.splits prod.splits)
  have rows: "rows = map Inr (take (nat limit) left)"
    using integer_page [OF assms(1) q] integer_rows_failed [of _ rows jm "[]" 0] ok l unfolding left_def after_seq_rows_def by force
  have sorted: "sorted_wrt before left" using rows_sorted [OF assms(1)] by (simp add: left_def after_seq_rows_def sorted_wrt_filter)
  have pos: "\<forall>r \<in> set left. 0 < sint (er_Seq r)" using rows_positive [OF assms(1)] by (simp add: left_def after_seq_rows_def)
  have page_sorted: "sorted_wrt before (take (nat limit) left)" using sorted by (rule sorted_wrt_take)
  have "\<forall>r \<in> set (take (nat limit) left). 0 < sint (er_Seq r)" using pos by (blast dest: in_set_takeD)
  then have greatest: "left \<noteq> [] \<Longrightarrow> foldl (\<lambda>m r. if er_Seq r > m then er_Seq r else m) 0 (take (nat limit) left) = er_Seq (last (take (nat limit) left))"
    using greatest_last [OF page_sorted] assms(3) by simp
  have res: "fetchInteger jm ops d ctx s limit = (map (toEnvelope jm) (take (nat limit) left),
      Some (Integer_cursor (if left = [] then s else er_Seq (last (take (nat limit) left)))), None)"
    using greatest assms(2,3) by (simp add: fetchInteger_def uint64_arg_def q rows integer_rows_ok)
  have "after_seq_rows (er_Seq (last (take (nat limit) left))) (tbl d) = drop (nat limit) left" if "left \<noteq> []"
  proof -
    have "last (take (nat limit) left) \<in> set left" using that assms(3) by (intro in_set_takeD [OF last_in_set]) simp
    then have "sint s < sint (er_Seq (last (take (nat limit) left)))" by (simp add: left_def after_seq_rows_def)
    then have "after_seq_rows (er_Seq (last (take (nat limit) left))) (tbl d)
        = filter (\<lambda>r. sint (er_Seq (last (take (nat limit) left))) < sint (er_Seq r)) left"
      unfolding left_def after_seq_rows_def filter_filter by (intro filter_cong) auto
    also have "\<dots> = drop (nat limit) left" by (rule sorted_beyond_page [OF sorted _ that]) (use assms(3) in simp)
    finally show ?thesis .
  qed
  moreover have "0 \<le> sint (er_Seq (last (take (nat limit) left)))" if "left \<noteq> []"
  proof -
    have "last (take (nat limit) left) \<in> set left" using that assms(3) by (intro in_set_takeD [OF last_in_set]) simp
    then show ?thesis using pos by force
  qed
  ultimately show ?thesis using res assms(2,5) by (cases "left = []") (auto simp: left_def [symmetric])
qed

lemma integer_page_reliable:
  assumes "valid d" and "reliable ops d" and "0 \<le> sint s"
  shows "\<exists>out next. fetchInteger jm ops d ctx s limit = (out, next, None)"
proof -
  obtain rows where "pl_Query ops d ctx integer_query [SqlInt s, SqlInt (word_of_int limit)] = Inr (map Inr rows, None)"
    using assms(2) unfolding reliable_def by blast
  then show ?thesis using assms(3) by (simp add: fetchInteger_def uint64_arg_def integer_rows_ok)
qed

end

section \<open>Vector cursors\<close>

text \<open>The counter of a node under a cursor, as the query reads it.\<close>

definition ctr :: "(string \<Rightarrow> i64 option) \<Rightarrow> string \<Rightarrow> int" where
  "ctr m n = sint (case m n of None \<Rightarrow> 0 | Some k \<Rightarrow> k)"

definition plain_cursor :: "(string, u64) fmap \<Rightarrow> bool" where
  "plain_cursor m \<longleftrightarrow> (\<forall>n k. fmlookup m n = Some k \<longrightarrow> 0 \<le> sint k)"

text \<open>Rows of known origin, the counters of each origin increasing along the table.\<close>

definition plain_row :: "pull_row \<Rightarrow> bool" where
  "plain_row r \<longleftrightarrow> (\<forall>c. er_OriginCounter r = Some c \<longrightarrow> 0 \<le> sint c \<and> er_OriginNode r \<noteq> None)"

definition counts_up :: "pull_row \<Rightarrow> pull_row \<Rightarrow> bool" where
  "counts_up a b \<longleftrightarrow> (\<forall>n c c'. er_OriginNode a = Some n \<and> er_OriginNode b = Some n \<and> er_OriginCounter a = Some c \<and> er_OriginCounter b = Some c' \<longrightarrow> sint c < sint c')"

lemma beyond_ctr: "er_OriginNode r = Some n \<Longrightarrow> er_OriginCounter r = Some c \<Longrightarrow> beyond m r \<longleftrightarrow> ctr m n < sint c"
  by (simp add: beyond_def ctr_def)

lemma advance_ctr:
  assumes "plain_cursor m" and "plain_row r"
  shows "plain_cursor (advance m r) \<and> (\<forall>n. ctr (fmlookup (advance m r)) n =
    (case (er_OriginNode r, er_OriginCounter r) of (Some k, Some c) \<Rightarrow> if n = k then max (ctr (fmlookup m) n) (sint c) else ctr (fmlookup m) n
     | _ \<Rightarrow> ctr (fmlookup m) n))"
proof (cases "er_OriginNode r = None \<or> er_OriginCounter r = None")
  case True
  then show ?thesis using assms by (auto simp: advance_def split: option.splits)
next
  case False
  then obtain k c where r: "er_OriginNode r = Some k" "er_OriginCounter r = Some c" "0 \<le> sint c" using assms(2) by (auto simp: plain_row_def)
  show ?thesis
  proof (cases "fmlookup m k")
    case None
    then show ?thesis using assms(1) r by (auto simp: advance_def plain_cursor_def ctr_def)
  next
    case (Some cur)
    then have "c > cur \<longleftrightarrow> sint c > sint cur" using assms(1) r by (simp add: plain_cursor_def less_of_sint)
    then show ?thesis using assms(1) r Some by (auto simp: advance_def plain_cursor_def ctr_def)
  qed
qed

definition from_row :: "string \<Rightarrow> pull_row \<Rightarrow> i64 \<Rightarrow> bool" where
  "from_row n r c \<longleftrightarrow> er_OriginNode r = Some n \<and> er_OriginCounter r = Some c"

lemma advance_step:
  assumes "plain_cursor m" and "plain_row a"
  shows "ctr (fmlookup m) n \<le> ctr (fmlookup (advance m a)) n" and "from_row n a c \<Longrightarrow> sint c \<le> ctr (fmlookup (advance m a)) n"
    and "ctr (fmlookup m) n < x \<Longrightarrow> (\<And>c. from_row n a c \<Longrightarrow> sint c < x) \<Longrightarrow> ctr (fmlookup (advance m a)) n < x"
  using conjunct2 [OF advance_ctr [OF assms]] by (auto simp: from_row_def split: option.splits if_splits)

lemma advance_all:
  assumes "plain_cursor m" and "\<forall>r \<in> set rs. plain_row r"
  shows "(\<forall>n. ctr (fmlookup m) n \<le> ctr (fmlookup (foldl advance m rs)) n)
    \<and> (\<forall>r \<in> set rs. \<forall>n c. from_row n r c \<longrightarrow> sint c \<le> ctr (fmlookup (foldl advance m rs)) n)
    \<and> (\<forall>n x. ctr (fmlookup m) n < x \<longrightarrow> (\<forall>r \<in> set rs. \<forall>c. from_row n r c \<longrightarrow> sint c < x) \<longrightarrow> ctr (fmlookup (foldl advance m rs)) n < x)"
  using assms
proof (induction rs arbitrary: m)
  case (Cons a rs)
  have a: "plain_row a" and rs: "\<forall>r \<in> set rs. plain_row r" using Cons.prems(2) by simp_all
  have adv: "plain_cursor (advance m a)" using advance_ctr [OF Cons.prems(1) a] ..
  note step = advance_step [OF Cons.prems(1) a] and IH = Cons.IH [OF adv rs]
  have "ctr (fmlookup m) n \<le> ctr (fmlookup (foldl advance (advance m a) rs)) n" for n using step(1) IH order_trans by blast
  moreover have "sint c \<le> ctr (fmlookup (foldl advance (advance m a) rs)) n" if "r \<in> set (a # rs)" "from_row n r c" for r n c
    using that step(2) IH order_trans by fastforce
  moreover have "ctr (fmlookup (foldl advance (advance m a) rs)) n < x" if "ctr (fmlookup m) n < x" "\<forall>r \<in> set (a # rs). \<forall>c. from_row n r c \<longrightarrow> sint c < x" for n x
    using IH step(3) [OF that(1)] that(2) by simp
  ultimately show ?case by simp
qed simp

text \<open>After a page, what lies beyond the new cursor is what lay beyond the old one without the page.\<close>

lemma page_partition:
  assumes "plain_cursor m" and "\<forall>r \<in> set rs. plain_row r" and "sorted_wrt counts_up rs" and "left = filter (beyond (fmlookup m)) rs"
  shows "filter (beyond (fmlookup (foldl advance m (take k left)))) rs = drop k left"
proof -
  define m' where "m' = foldl advance m (take k left)"
  have plain: "\<forall>r \<in> set (take k left). plain_row r" using assms(2,4) by (auto dest: in_set_takeD)
  note adv = advance_all [OF assms(1) plain, folded m'_def]
  have origin: "\<exists>n c. from_row n r c" if "beyond f r" "r \<in> set rs" for f r
    using that assms(2) by (auto simp: from_row_def beyond_def plain_row_def split: option.splits)
  have iff: "from_row n r c \<Longrightarrow> beyond f r \<longleftrightarrow> ctr f n < sint c" for n r c f by (simp add: from_row_def beyond_ctr)
  have old: "beyond (fmlookup m) r" if "beyond (fmlookup m') r" "r \<in> set rs" for r
    using origin [OF that] that(1) adv iff by (metis order_le_less_trans)
  have page: "\<not> beyond (fmlookup m') r" if "r \<in> set (take k left)" for r
  proof -
    have "beyond (fmlookup m) r" "r \<in> set rs" using in_set_takeD [OF that] assms(4) by simp_all
    then obtain n c where nc: "from_row n r c" using origin by blast
    then show ?thesis using adv that iff [OF nc] by (simp add: not_less)
  qed
  have "sorted_wrt counts_up left" unfolding assms(4) using assms(3) by (rule sorted_wrt_filter)
  then have "sorted_wrt counts_up (take k left @ drop k left)" by simp
  then have far: "\<And>a b. a \<in> set (take k left) \<Longrightarrow> b \<in> set (drop k left) \<Longrightarrow> counts_up a b" unfolding sorted_wrt_append by blast
  have rest: "beyond (fmlookup m') r" if r: "r \<in> set (drop k left)" for r
  proof -
    have "r \<in> set left" using r by (rule in_set_dropD)
    then have b: "beyond (fmlookup m) r" "r \<in> set rs" using assms(4) by simp_all
    obtain n c where nc: "from_row n r c" using origin [OF b] by blast
    have "\<forall>a \<in> set (take k left). \<forall>c'. from_row n a c' \<longrightarrow> sint c' < sint c" using far r nc by (auto simp: counts_up_def from_row_def)
    then show ?thesis using adv b(1) iff [OF nc] by simp
  qed
  have "filter (beyond (fmlookup m')) rs = filter (beyond (fmlookup m')) left" unfolding assms(4) filter_filter by (rule filter_cong) (auto simp: old)
  also have "\<dots> = filter (beyond (fmlookup m')) (take k left @ drop k left)" by simp
  also have "\<dots> = drop k left"
  proof -
    have "filter (beyond (fmlookup m')) (take k left) = []" using page by (simp add: filter_empty_conv)
    moreover have "filter (beyond (fmlookup m')) (drop k left) = drop k left" using rest by (simp add: filter_id_conv)
    ultimately show ?thesis by (simp only: filter_append append.left_neutral)
  qed
  finally show ?thesis by (simp add: m'_def)
qed

text \<open>The rows that \<open>fetchVector\<close> reads.\<close>

lemma cursor_entries:
  assumes "set order = fmdom' m"
  shows "map_of (map (\<lambda>n. (n, the (fmlookup m n))) order) = fmlookup m"
proof
  fix n
  show "map_of (map (\<lambda>n. (n, the (fmlookup m n))) order) n = fmlookup m n"
    using assms by (cases "fmlookup m n") (auto simp: map_of_map_restrict restrict_map_def fmlookup_dom'_iff)
qed

context paging_database
begin

lemma vector_page_exact:
  assumes "valid d" and "enumerates order counters" and "0 < limit" and "limit < 2 ^ 63"
    and "fetchVector jm ops d ctx counters order limit = (d', out, next, None)"
  shows "\<exists>m'. next = Some (Vector_cursor m') \<and> gm_fmap m' = foldl advance (gm_fmap counters) (take (nat limit) (filter (beyond (fmlookup (gm_fmap counters))) (tbl d)))
    \<and> out = map (toEnvelope jm) (take (nat limit) (filter (beyond (fmlookup (gm_fmap counters))) (tbl d)))"
proof -
  define cs where "cs = map (\<lambda>n. (n, the (fmlookup (gm_fmap counters) n))) order"
  have cs: "map_of cs = fmlookup (gm_fmap counters)" "distinct (map fst cs)" "cs = [] \<longleftrightarrow> order = []" "length cs = length order"
    using assms(2) by (auto simp: cs_def enumerates_def cursor_entries comp_def)
  obtain d1 t d2 d3 rows res where run: "pl_BeginTx ops d ctx = (d1, Inr t)" "pl_TxExec ops d1 t ctx create_since [] = (d2, None)"
    "(if order = [] then (d2, None) else pl_TxExec ops d2 t ctx (insert_since (length order)) (since_args cs)) = (d3, None)"
    "pl_TxQuery ops d3 t ctx vector_query [SqlInt (word_of_int limit)] = Inr (rows, None)" "vector_rows jm rows [] (gm_fmap counters) = Inr res"
    and out: "out = fst res" "next = Some (if fst res \<noteq> [] then Vector_cursor (Some (snd res)) else Vector_cursor counters)"
    using assms(5) unfolding fetchVector_def vector_tx_def cs_def
    by (auto split: prod.splits sum.splits option.splits)
  have "if cs = [] then d3 = d2 else pl_TxExec ops d2 t ctx (insert_since (length cs)) (since_args cs) = (d3, None)" using run(3) cs by (auto split: if_splits)
  from vector_page [OF assms(1) run(1,2) this cs(2) run(4)] have rows: "rows = map Inr (limited (word_of_int limit) (filter (beyond (map_of cs)) (tbl d)))"
    using vector_rows_failed [of _ rows jm "[]" "gm_fmap counters"] run(5) by force
  have l: "limited (word_of_int limit :: i64) xs = take (nat limit) xs" for xs :: "pull_row list" using assms(3,4) by (simp add: limited_def sint_of_int_i64)
  have res: "res = (map (toEnvelope jm) (take (nat limit) (filter (beyond (fmlookup (gm_fmap counters))) (tbl d))),
      foldl advance (gm_fmap counters) (take (nat limit) (filter (beyond (fmlookup (gm_fmap counters))) (tbl d))))"
    using run(5) unfolding rows l cs(1) vector_rows_ok by simp
  show ?thesis
    using out unfolding res by (cases "take (nat limit) (filter (beyond (fmlookup (gm_fmap counters))) (tbl d)) = []") (auto simp: gm_fmap_def)
qed

end

section \<open>Pulls over HTTP\<close>

definition std_registry :: "codec_registry \<Rightarrow> bool" where
  "std_registry reg \<longleftrightarrow> Lookup reg KindInteger = Some integerCodec \<and> Lookup reg KindVector = Some vectorCodec"

lemma integer_cursor_wire:
  assumes "std_registry reg"
  shows "\<exists>w. MarshalWire reg (Some (Integer_cursor n)) = Some (Inr w) \<and> UnmarshalWire reg (Some w) = Inr (Some (Integer_cursor n))"
proof -
  have "MarshalWire reg (Some (Integer_cursor n)) = Some (Inr \<lparr>wc_Kind = KindInteger, wc_Data = u64_dec n\<rparr>)"
    using assms by (simp add: MarshalWire_def integerCodec_def std_registry_def)
  moreover have "UnmarshalWire reg (Some \<lparr>wc_Kind = KindInteger, wc_Data = u64_dec n\<rparr>) = Inr (Some (Integer_cursor n))"
    using assms u64_dec_length [of n]
    by (simp add: UnmarshalWire_def ValidateWireCursor_def maxWireCursorSize_def integerCodec_def unmarshal_u64 std_registry_def)
  ultimately show ?thesis by blast
qed

definition page_size :: "int \<Rightarrow> int" where
  "page_size limit = (if limit \<le> 0 \<or> limit > 1000 then 200 else limit)"

text \<open>One pull through client, network and server is one query.\<close>

lemma client_pull_integer:
  assumes "std_registry reg" and "since = None \<and> s = 0 \<or> since = Some (Integer_cursor s)"
    and "fetchInteger jm ops d ctx s (page_size limit) = (out, Some (Integer_cursor s'), None)"
  shows "PullWithCursor_client reg (direct_net reg (\<lambda>d since l. PullWithCursor_sqlite jm ops d ctx since order l)) d since limit = Some (d, out, Some (Integer_cursor s'), None)"
proof -
  obtain w where w: "MarshalWire reg (Some (Integer_cursor s)) = Some (Inr w)" "UnmarshalWire reg (Some w) = Inr (Some (Integer_cursor s))"
    using integer_cursor_wire [OF assms(1)] by blast
  obtain w' where w': "MarshalWire reg (Some (Integer_cursor s')) = Some (Inr w')" "UnmarshalWire reg (Some w') = Inr (Some (Integer_cursor s'))"
    using integer_cursor_wire [OF assms(1)] by blast
  show ?thesis using assms(2,3)
    by (auto simp: PullWithCursor_client_def direct_net_def HandlePullWithCursor_def PullWithCursor_sqlite_def page_size_def w w' Let_def map_sum_def)
qed

context paging_database
begin

lemma rounds:
  assumes "valid d" and "reliable ops d" and "std_registry reg" and "0 \<le> sint s" and "since = None \<and> s = 0 \<or> since = Some (Integer_cursor s)"
  shows "\<exists>cur. cursor_rounds k (\<lambda>d since. PullWithCursor_client reg (direct_net reg (\<lambda>d since l. PullWithCursor_sqlite jm ops d ctx since order l)) d since limit) d since
    = Some (d, take (k * nat (page_size limit)) (map (toEnvelope jm) (after_seq_rows s (tbl d))), cur, None)"
  using assms(4,5)
proof (induction k arbitrary: since s)
  case (Suc k)
  have size: "0 < page_size limit" "page_size limit < 2 ^ 63" by (simp_all add: page_size_def)
  obtain out nx where fetch: "fetchInteger jm ops d ctx s (page_size limit) = (out, nx, None)"
    using integer_page_reliable [OF assms(1,2) Suc.prems(1)] by blast
  obtain s' where s': "nx = Some (Integer_cursor s')" "0 \<le> sint s'" "after_seq_rows s' (tbl d) = drop (nat (page_size limit)) (after_seq_rows s (tbl d))"
    and out: "out = map (toEnvelope jm) (take (nat (page_size limit)) (after_seq_rows s (tbl d)))"
    using integer_page_exact [OF assms(1) Suc.prems(1) size fetch] by blast
  note pull = client_pull_integer [OF assms(3) Suc.prems(2) fetch [unfolded s'(1)], of order]
  obtain cur where "cursor_rounds k (\<lambda>d since. PullWithCursor_client reg (direct_net reg (\<lambda>d since l. PullWithCursor_sqlite jm ops d ctx since order l)) d since limit) d (Some (Integer_cursor s'))
    = Some (d, take (k * nat (page_size limit)) (map (toEnvelope jm) (after_seq_rows s' (tbl d))), cur, None)"
    using Suc.IH [OF s'(2), of "Some (Integer_cursor s')"] by auto
  then show ?case by (simp add: pull out s'(3) take_map drop_map take_add)
qed simp

lemma after_zero: "valid d \<Longrightarrow> after_seq_rows 0 (tbl d) = tbl d"
  using rows_positive [of d] by (simp add: after_seq_rows_def filter_id_conv)

end

section \<open>Properties\<close>



section \<open>A database\<close>

text \<open>
  One connection of a SQLite database: \<open>rd_since\<close> is its temporary table, which outlives the transaction that creates it, unless the transaction is rolled back to the state \<open>rd_open\<close>.
\<close>

record rows_db =
  rd_rows :: "pull_row list"
  rd_since :: "(string \<times> i64) list option"
  rd_open :: "(string \<times> i64) list option option"

fun pairs_of :: "sql_value list \<Rightarrow> (string \<times> i64) list" where
  "pairs_of (SqlText n # SqlInt c # vs) = (n, c) # pairs_of vs"
| "pairs_of _ = []"

definition tx_done :: go_error where "tx_done = ErrorString ''sql: transaction has already been committed or rolled back''"
definition sql_failed :: go_error where "sql_failed = ErrorString ''SQL logic error''"

definition rows_Query :: "rows_db \<Rightarrow> go_error option \<Rightarrow> string \<Rightarrow> sql_value list \<Rightarrow> go_error + ((go_error + pull_row) list \<times> go_error option)" where
  "rows_Query d ctx q args = (case args of
       [SqlInt s, SqlInt l] \<Rightarrow> if q = integer_query then Inr (map Inr (limited l (filter (\<lambda>r. sint s < sint (er_Seq r)) (rd_rows d))), None) else Inl sql_failed
     | _ \<Rightarrow> Inl sql_failed)"

definition rows_TxExec :: "rows_db \<Rightarrow> nat \<Rightarrow> go_error option \<Rightarrow> string \<Rightarrow> sql_value list \<Rightarrow> rows_db \<times> go_error option" where
  "rows_TxExec d t ctx q args =
     (if rd_open d = None then (d, Some tx_done)
      else if q = create_since then (case rd_since d of None \<Rightarrow> (d\<lparr>rd_since := Some []\<rparr>, None) | Some _ \<Rightarrow> (d, Some (ErrorString ''table since already exists'')))
      else (case rd_since d of None \<Rightarrow> (d, Some sql_failed) | Some xs \<Rightarrow> (d\<lparr>rd_since := Some (xs @ pairs_of args)\<rparr>, None)))"

definition rows_TxQuery :: "rows_db \<Rightarrow> nat \<Rightarrow> go_error option \<Rightarrow> string \<Rightarrow> sql_value list \<Rightarrow> go_error + ((go_error + pull_row) list \<times> go_error option)" where
  "rows_TxQuery d t ctx q args = (case (rd_since d, args) of
       (Some cs, [SqlInt l]) \<Rightarrow> if q = vector_query then Inr (map Inr (limited l (filter (beyond (map_of cs)) (rd_rows d))), None) else Inl sql_failed
     | _ \<Rightarrow> Inl sql_failed)"

definition rows_ops :: "rows_db pull_ops" where
  "rows_ops = \<lparr>pl_Query = rows_Query,
     pl_BeginTx = (\<lambda>d ctx. if rd_open d = None then (d\<lparr>rd_open := Some (rd_since d)\<rparr>, Inr 0) else (d, Inl (ErrorString ''database is locked''))),
     pl_TxExec = rows_TxExec, pl_TxQuery = rows_TxQuery,
     pl_Commit = (\<lambda>d t. if rd_open d = None then (d, Some tx_done) else (d\<lparr>rd_open := None\<rparr>, None)),
     pl_Rollback = (\<lambda>d t. case rd_open d of None \<Rightarrow> (d, Some tx_done) | Some old \<Rightarrow> (d\<lparr>rd_since := old, rd_open := None\<rparr>, None))\<rparr>"

definition rows_valid :: "rows_db \<Rightarrow> bool" where
  "rows_valid d \<longleftrightarrow> sorted_wrt before (rd_rows d) \<and> (\<forall>r \<in> set (rd_rows d). 0 < sint (er_Seq r))"

lemma pairs_of_args: "pairs_of (since_args cs) = cs"
  by (induction cs) (auto simp: since_args_def)

interpretation rdb: paging_database rows_ops rows_valid rd_rows
proof (unfold_locales, goal_cases)
  case (4 d ctx d1 t d2 cs d3 l rows)
  have "insert_since n \<noteq> create_since" for n by (simp add: insert_since_def create_since_def)
  then show ?case using 4 by (auto simp: rows_ops_def rows_TxExec_def rows_TxQuery_def pairs_of_args split: if_splits option.splits)
qed (auto simp: rows_valid_def rows_ops_def rows_Query_def)

lemma rows_reliable: "reliable rows_ops d"
  by (simp add: reliable_def rows_ops_def rows_Query_def)

text \<open>The temporary table stays behind on the connection: the next pull with a vector cursor fails.\<close>

lemma second_vector_pull_fails:
  assumes "fetchVector jm rows_ops d ctx counters order limit = (d', out, next, None)"
  shows "\<exists>d''. fetchVector jm rows_ops d' ctx' counters' order' limit' = (d'', [], None, Some (ErrorString ''table since already exists''))"
proof -
  have "rd_open d' = None \<and> rd_since d' \<noteq> None"
    using assms by (auto simp: fetchVector_def vector_tx_def rows_ops_def rows_TxExec_def rows_TxQuery_def Let_def split: if_splits option.splits prod.splits sum.splits list.splits)
  then show ?thesis by (auto simp: fetchVector_def vector_tx_def rows_ops_def rows_TxExec_def)
qed

section \<open>Witnesses\<close>

definition sample_row :: "u64 \<Rightarrow> string \<Rightarrow> i64 \<Rightarrow> pull_row" where
  "sample_row s node c = \<lparr>er_Seq = s, er_ID = ''e'' @ u64_dec s, er_Type = ''T'', er_AggregateID = ''a'', er_DataJSON = [], er_MetadataJSON = [],
     er_OriginNode = Some node, er_OriginCounter = Some c\<rparr>"

definition sample_db :: rows_db where
  "sample_db = \<lparr>rd_rows = [sample_row 1 ''n'' 1, sample_row 2 ''m'' 1, sample_row 5 ''n'' 4], rd_since = None, rd_open = None\<rparr>"

lemma sample_db_valid: "rows_valid sample_db"
  by (simp add: rows_valid_def sample_db_def sample_row_def before_def)



end
