(* ===== verification/Health.thy ===== *)
theory Health
  imports Http_Types
begin

text \<open>
  Health checks (observability/health/checker.go): the registry of checks by component and type, running the checks of a type, and the overall result. A check is a function on a world of any
  type, which it may change, and returns a result or panics. Readings of the clock and what the context reports at the time of each check are arguments, as is the order of ranges over maps.
  The read lock is held while checks run, so that a run of checks is one operation.

  Shown: the overall status and the summary follow the statuses of the checks that ran, and the status depends on the order of the range only between degraded and unknown.
\<close>

section \<open>Results\<close>

definition StatusUp :: string where "StatusUp = ''up''"
definition StatusDown :: string where "StatusDown = ''down''"
definition StatusDegraded :: string where "StatusDegraded = ''degraded''"
definition StatusUnknown :: string where "StatusUnknown = ''unknown''"

definition CheckTypeLiveness :: string where "CheckTypeLiveness = ''liveness''"
definition CheckTypeReadiness :: string where "CheckTypeReadiness = ''readiness''"
definition CheckTypeStartup :: string where "CheckTypeStartup = ''startup''"

lemmas statuses = StatusUp_def StatusDown_def StatusDegraded_def StatusUnknown_def

record check_result =
  ch_Status :: string
  ch_Component :: string
  ch_Message :: string
  ch_Details :: metadata
  ch_Timestamp :: int
  ch_Duration :: int

definition zero_result :: check_result where
  "zero_result = \<lparr>ch_Status = [], ch_Component = [], ch_Message = [], ch_Details = None, ch_Timestamp = zero_time, ch_Duration = 0\<rparr>"

record 'w health_check =
  hc_Check :: "go_error option \<Rightarrow> 'w \<Rightarrow> 'w \<times> check_result go"
  hc_Name :: string
  hc_Component :: string

record health_config =
  hf_Timeout :: int
  hf_CheckInterval :: int
  hf_FailureThreshold :: int
  hf_SuccessThreshold :: int

record 'w health_checker =
  hk_checks :: "(string, (string, 'w health_check list) fmap) fmap"
  hk_config :: health_config

record summary =
  sm_Total :: nat
  sm_Up :: nat
  sm_Down :: nat
  sm_Degraded :: nat
  sm_Unknown :: nat

record overall_result =
  or_Status :: string
  or_CheckType :: string
  or_Results :: "(string, check_result) fmap"
  or_Summary :: summary
  or_Timestamp :: int
  or_Duration :: int

section \<open>The registry\<close>

definition DefaultConfig_health :: health_config where
  "DefaultConfig_health = \<lparr>hf_Timeout = 30 * 10 ^ 9, hf_CheckInterval = 30 * 10 ^ 9, hf_FailureThreshold = 3, hf_SuccessThreshold = 1\<rparr>"

definition NewHealthChecker :: "health_config \<Rightarrow> 'w health_checker" where
  "NewHealthChecker config = \<lparr>hk_checks = fmempty, hk_config = (if hf_Timeout config = 0 then DefaultConfig_health else config)\<rparr>"

definition component_checks :: "'w health_checker \<Rightarrow> string \<Rightarrow> (string, 'w health_check list) fmap" where
  "component_checks h component = (case fmlookup (hk_checks h) component of None \<Rightarrow> fmempty | Some m \<Rightarrow> m)"

definition typed_checks :: "'w health_checker \<Rightarrow> string \<Rightarrow> string \<Rightarrow> 'w health_check list" where
  "typed_checks h component checkType = (case fmlookup (component_checks h component) checkType of None \<Rightarrow> [] | Some cs \<Rightarrow> cs)"

definition AddCheck :: "'w health_checker \<Rightarrow> string \<Rightarrow> 'w health_check \<Rightarrow> 'w health_checker" where
  "AddCheck h checkType check =
     (let component = hc_Component check
      in h\<lparr>hk_checks := fmupd component (fmupd checkType (typed_checks h component checkType @ [check]) (component_checks h component)) (hk_checks h)\<rparr>)"

fun remove_first :: "string \<Rightarrow> 'w health_check list \<Rightarrow> 'w health_check list option" where
  "remove_first name [] = None"
| "remove_first name (c # cs) = (if hc_Name c = name then Some cs else map_option (Cons c) (remove_first name cs))"

fun remove_in :: "string list \<Rightarrow> 'w health_checker \<Rightarrow> string \<Rightarrow> string \<Rightarrow> 'w health_checker" where
  "remove_in [] h checkType name = h"
| "remove_in (component # order) h checkType name = (case remove_first name (typed_checks h component checkType) of
       Some cs \<Rightarrow> h\<lparr>hk_checks := fmupd component (fmupd checkType cs (component_checks h component)) (hk_checks h)\<rparr>
     | None \<Rightarrow> remove_in order h checkType name)"

definition RemoveCheck :: "string list \<Rightarrow> 'w health_checker \<Rightarrow> string \<Rightarrow> string \<Rightarrow> 'w health_checker" where
  "RemoveCheck order h checkType checkName = remove_in order h checkType checkName"

definition ListComponents :: "string list \<Rightarrow> 'w health_checker \<Rightarrow> string list" where
  "ListComponents order h = order"

section \<open>Running checks\<close>

text \<open>What a check sees: the error of its context, the time at which it starts and the time that has passed when it returns.\<close>

record reading =
  rd_ctx :: "go_error option"
  rd_start :: int
  rd_elapsed :: int

text \<open>A recovered panic leaves the zero value of the unnamed result.\<close>

definition executeCheck :: "reading \<Rightarrow> 'w health_check \<Rightarrow> 'w \<Rightarrow> 'w \<times> check_result" where
  "executeCheck rd check w = (case hc_Check check (rd_ctx rd) w of
       (w', None) \<Rightarrow> (w', zero_result)
     | (w', Some result) \<Rightarrow>
         (let r1 = (if ch_Duration result = 0 \<or> rd_elapsed rd > ch_Duration result then result\<lparr>ch_Duration := rd_elapsed rd\<rparr> else result);
              r2 = (if ch_Duration r1 = 0 then r1\<lparr>ch_Duration := 1\<rparr> else r1)
          in (w', r2\<lparr>ch_Timestamp := rd_start rd\<rparr>)))"

definition tally :: "string \<Rightarrow> summary \<Rightarrow> summary" where
  "tally st s =
     (let s = s\<lparr>sm_Total := Suc (sm_Total s)\<rparr> in
      if st = StatusUp then s\<lparr>sm_Up := Suc (sm_Up s)\<rparr>
      else if st = StatusDown then s\<lparr>sm_Down := Suc (sm_Down s)\<rparr>
      else if st = StatusDegraded then s\<lparr>sm_Degraded := Suc (sm_Degraded s)\<rparr>
      else if st = StatusUnknown then s\<lparr>sm_Unknown := Suc (sm_Unknown s)\<rparr>
      else s)"

definition worse :: "string \<Rightarrow> string \<Rightarrow> string" where
  "worse overall st =
     (if st = StatusDown then StatusDown
      else if (st = StatusDegraded \<or> st = StatusUnknown) \<and> overall = StatusUp then st
      else overall)"

text \<open>The loops over components and checks: \<open>reads n\<close> is what the check number n sees.\<close>

record 'w run_state =
  rn_world :: 'w
  rn_results :: "(string, check_result) fmap"
  rn_summary :: summary
  rn_status :: string

definition run_one :: "(nat \<Rightarrow> reading) \<Rightarrow> string \<Rightarrow> 'w health_check \<Rightarrow> 'w run_state \<Rightarrow> 'w run_state" where
  "run_one reads component check s =
     (let (w, result) = executeCheck (reads (sm_Total (rn_summary s))) check (rn_world s)
      in \<lparr>rn_world = w, rn_results = fmupd (component @ ''.'' @ hc_Name check) result (rn_results s),
          rn_summary = tally (ch_Status result) (rn_summary s), rn_status = worse (rn_status s) (ch_Status result)\<rparr>)"

definition run_component :: "(nat \<Rightarrow> reading) \<Rightarrow> 'w health_checker \<Rightarrow> string \<Rightarrow> string \<Rightarrow> 'w run_state \<Rightarrow> 'w run_state" where
  "run_component reads h checkType component s = foldl (\<lambda>s check. run_one reads component check s) s (typed_checks h component checkType)"

definition no_checks :: summary where
  "no_checks = \<lparr>sm_Total = 0, sm_Up = 0, sm_Down = 0, sm_Degraded = 0, sm_Unknown = 0\<rparr>"

definition runChecks ::
  "string list \<Rightarrow> (nat \<Rightarrow> reading) \<Rightarrow> int \<Rightarrow> int \<Rightarrow> 'w health_checker \<Rightarrow> string \<Rightarrow> 'w \<Rightarrow> 'w \<times> overall_result" where
  "runChecks order reads start elapsed h checkType w =
     (let s = foldl (\<lambda>s component. run_component reads h checkType component s)
            \<lparr>rn_world = w, rn_results = fmempty, rn_summary = no_checks, rn_status = StatusUp\<rparr> order
      in (rn_world s, \<lparr>or_Status = (if sm_Total (rn_summary s) = 0 then StatusUnknown else rn_status s), or_CheckType = checkType, or_Results = rn_results s,
            or_Summary = rn_summary s, or_Timestamp = start, or_Duration = (if elapsed = 0 then 1 else elapsed)\<rparr>))"

definition CheckLiveness :: "string list \<Rightarrow> (nat \<Rightarrow> reading) \<Rightarrow> int \<Rightarrow> int \<Rightarrow> 'w health_checker \<Rightarrow> 'w \<Rightarrow> 'w \<times> overall_result" where
  "CheckLiveness order reads start elapsed h = runChecks order reads start elapsed h CheckTypeLiveness"

definition CheckReadiness :: "string list \<Rightarrow> (nat \<Rightarrow> reading) \<Rightarrow> int \<Rightarrow> int \<Rightarrow> 'w health_checker \<Rightarrow> 'w \<Rightarrow> 'w \<times> overall_result" where
  "CheckReadiness order reads start elapsed h = runChecks order reads start elapsed h CheckTypeReadiness"

definition CheckStartup :: "string list \<Rightarrow> (nat \<Rightarrow> reading) \<Rightarrow> int \<Rightarrow> int \<Rightarrow> 'w health_checker \<Rightarrow> 'w \<Rightarrow> 'w \<times> overall_result" where
  "CheckStartup order reads start elapsed h = runChecks order reads start elapsed h CheckTypeStartup"

text \<open>The three runs of \<open>CheckAll\<close> have their own readings and orders.\<close>

record run_env =
  re_order :: "string list"
  re_reads :: "nat \<Rightarrow> reading"
  re_start :: int
  re_elapsed :: int

definition run_in :: "run_env \<Rightarrow> 'w health_checker \<Rightarrow> string \<Rightarrow> 'w \<Rightarrow> 'w \<times> overall_result" where
  "run_in e h checkType w = runChecks (re_order e) (re_reads e) (re_start e) (re_elapsed e) h checkType w"

definition CheckAll :: "run_env \<Rightarrow> run_env \<Rightarrow> run_env \<Rightarrow> 'w health_checker \<Rightarrow> 'w \<Rightarrow> 'w \<times> (string, overall_result) fmap" where
  "CheckAll e1 e2 e3 h w =
     (let (w1, r1) = run_in e1 h CheckTypeLiveness w; (w2, r2) = run_in e2 h CheckTypeReadiness w1; (w3, r3) = run_in e3 h CheckTypeStartup w2
      in (w3, fmupd CheckTypeStartup r3 (fmupd CheckTypeReadiness r2 (fmupd CheckTypeLiveness r1 fmempty))))"

text \<open>Only the first check of each type; \<open>order\<close> enumerates the types of the component.\<close>

fun component_status :: "(nat \<Rightarrow> reading) \<Rightarrow> nat \<Rightarrow> (string, 'w health_check list) fmap \<Rightarrow> string list \<Rightarrow> 'w \<Rightarrow> (string, check_result) fmap \<Rightarrow> 'w \<times> (string, check_result) fmap" where
  "component_status reads n m [] w res = (w, res)"
| "component_status reads n m (checkType # order) w res = (case fmlookup m checkType of
       Some (check # _) \<Rightarrow> (let (w', r) = executeCheck (reads n) check w in component_status reads (Suc n) m order w' (fmupd checkType r res))
     | _ \<Rightarrow> component_status reads n m order w res)"

definition GetComponentStatus :: "string list \<Rightarrow> (nat \<Rightarrow> reading) \<Rightarrow> 'w health_checker \<Rightarrow> string \<Rightarrow> 'w \<Rightarrow> 'w \<times> (string, check_result) fmap" where
  "GetComponentStatus order reads h component w = component_status reads 0 (component_checks h component) order w fmempty"

section \<open>The overall result\<close>

text \<open>The checks of a run with their components, in order, and what they return one after the other.\<close>

definition selected :: "'w health_checker \<Rightarrow> string \<Rightarrow> string list \<Rightarrow> (string \<times> 'w health_check) list" where
  "selected h checkType order = concat (map (\<lambda>component. map (Pair component) (typed_checks h component checkType)) order)"

fun results_of :: "(nat \<Rightarrow> reading) \<Rightarrow> nat \<Rightarrow> (string \<times> 'w health_check) list \<Rightarrow> 'w \<Rightarrow> (string \<times> check_result) list" where
  "results_of reads n [] w = []"
| "results_of reads n ((component, check) # cs) w =
     (let (w', r) = executeCheck (reads n) check w in (component @ ''.'' @ hc_Name check, r) # results_of reads (Suc n) cs w')"

text \<open>The overall status by its meaning: down when a check is down; otherwise the first check that is degraded or unknown decides; unknown without checks.\<close>

definition verdict :: "string list \<Rightarrow> string" where
  "verdict sts = (if sts = [] then StatusUnknown else if StatusDown \<in> set sts then StatusDown
     else case filter (\<lambda>s. s = StatusDegraded \<or> s = StatusUnknown) sts of [] \<Rightarrow> StatusUp | s # _ \<Rightarrow> s)"

definition counts :: "string list \<Rightarrow> summary" where
  "counts sts = \<lparr>sm_Total = length sts, sm_Up = count_list sts StatusUp, sm_Down = count_list sts StatusDown, sm_Degraded = count_list sts StatusDegraded,
     sm_Unknown = count_list sts StatusUnknown\<rparr>"

lemma tally_counts: "counts (sts @ [st]) = tally st (counts sts)"
  by (simp add: counts_def tally_def Let_def statuses)

lemma worse_verdict:
  assumes "sts \<noteq> []"
  shows "worse (verdict sts) st = verdict (sts @ [st])"
  using assms by (auto simp: worse_def verdict_def statuses split: list.splits dest!: filter_eq_ConsD)

definition run_ok :: "string list \<Rightarrow> (string \<times> check_result) list \<Rightarrow> 'w run_state \<Rightarrow> bool" where
  "run_ok sts done_results s \<longleftrightarrow> rn_summary s = counts sts \<and> rn_status s = (if sts = [] then StatusUp else verdict sts) \<and> sts = map (ch_Status \<circ> snd) done_results
     \<and> fmlookup (rn_results s) = map_of (rev done_results)"

lemma run_one_ok:
  assumes "run_ok sts rs s" and "executeCheck (reads (length sts)) check (rn_world s) = (w, r)"
  shows "run_ok (sts @ [ch_Status r]) (rs @ [(component @ ''.'' @ hc_Name check, r)]) (run_one reads component check s) \<and> rn_world (run_one reads component check s) = w"
proof -
  have n: "sm_Total (rn_summary s) = length sts" using assms(1) by (simp add: run_ok_def counts_def)
  have "worse StatusUp (ch_Status r) = verdict [ch_Status r]" by (simp add: worse_def verdict_def statuses)
  then show ?thesis using assms worse_verdict [of sts "ch_Status r"] n
    by (auto simp: run_ok_def run_one_def tally_counts fun_upd_def)
qed

lemma run_all_ok:
  assumes "run_ok sts rs s" and "s' = foldl (\<lambda>s (component, check). run_one reads component check s) s cs"
  shows "\<exists>sts'. run_ok sts' (rs @ results_of reads (length sts) cs (rn_world s)) s'"
  using assms
proof (induction cs arbitrary: s sts rs)
  case (Cons c cs)
  obtain component check where c: "c = (component, check)" by (cases c)
  obtain w r where e: "executeCheck (reads (length sts)) check (rn_world s) = (w, r)" by (cases "executeCheck (reads (length sts)) check (rn_world s)")
  note one = run_one_ok [where reads = reads, OF Cons.prems(1) e, of component]
  show ?case using Cons.IH [OF conjunct1 [OF one]] Cons.prems(2) one by (simp add: c e)
qed auto

lemma run_components: "foldl (\<lambda>s component. run_component reads h checkType component s) s order = foldl (\<lambda>s (component, check). run_one reads component check s) s (selected h checkType order)"
proof -
  have "run_component reads h checkType component s = foldl (\<lambda>s (component, check). run_one reads component check s) s (map (Pair component) (typed_checks h component checkType))" for component s
    by (simp add: run_component_def foldl_map)
  then show ?thesis by (induction order arbitrary: s) (simp_all add: selected_def)
qed

lemma health_status_core:
  "let rs = results_of reads 0 (selected h checkType order) w; res = snd (runChecks order reads start elapsed h checkType w)
   in or_Status res = verdict (map (ch_Status \<circ> snd) rs) \<and> or_Summary res = counts (map (ch_Status \<circ> snd) rs) \<and> fmlookup (or_Results res) = map_of (rev rs)"
proof -
  let ?s0 = "\<lparr>rn_world = w, rn_results = fmempty, rn_summary = no_checks, rn_status = StatusUp\<rparr>"
  have "run_ok [] [] ?s0" by (simp add: run_ok_def no_checks_def counts_def fun_eq_iff)
  from run_all_ok [OF this refl, of reads "selected h checkType order"] obtain sts
    where ok: "run_ok sts (results_of reads 0 (selected h checkType order) w) (foldl (\<lambda>s component. run_component reads h checkType component s) ?s0 order)"
    by (auto simp: run_components)
  have "counts [] = no_checks" by (simp add: counts_def no_checks_def)
  with ok show ?thesis by (auto simp: runChecks_def Let_def run_ok_def counts_def verdict_def)
qed

text \<open>
  C25: the overall result of a run of checks is that of its checks. With the checks of the requested type taken component by component in the order of the range, and each check
  acting on the world its predecessors left: the status is down when one of them is down, otherwise the first degraded or unknown one decides, up when all the others are neither, and unknown when there is no
  check; the summary counts the checks by status; and under each component and check name stands the result of the last check of that name.
\<close>

theorem health_status_exact:
  "let rs = results_of reads 0 (selected h checkType order) w; res = snd (runChecks order reads start elapsed h checkType w)
   in or_Status res = verdict (map (ch_Status \<circ> snd) rs) \<and> or_Summary res = counts (map (ch_Status \<circ> snd) rs) \<and> fmlookup (or_Results res) = map_of (rev rs)"
  by (rule health_status_core)

text \<open>A check that panics has no status: it is counted in the total only, and leaves the overall status as it is.\<close>

lemma results_of_panics:
  assumes "\<forall>(component, check) \<in> set cs. \<forall>ctx w. snd (hc_Check check ctx w) = None"
  shows "map (ch_Status \<circ> snd) (results_of reads n cs w) = replicate (length cs) []"
  using assms
proof (induction cs arbitrary: n w)
  case (Cons c cs)
  obtain component check where c: "c = (component, check)" by (cases c)
  have "snd (hc_Check check (rd_ctx (reads n)) w) = None" using Cons.prems by (simp add: c)
  then obtain w' where "hc_Check check (rd_ctx (reads n)) w = (w', None)" by (cases "hc_Check check (rd_ctx (reads n)) w") simp
  then show ?case using Cons by (simp add: c executeCheck_def zero_result_def)
qed simp


text \<open>The order of a range over a map decides between degraded and unknown, which the endpoints answer with different codes.\<close>

definition constant_check :: "string \<Rightarrow> string \<Rightarrow> unit health_check" where
  "constant_check component st = \<lparr>hc_Check = (\<lambda>ctx w. (w, Some (zero_result\<lparr>ch_Status := st\<rparr>))), hc_Name = ''c'', hc_Component = component\<rparr>"

definition mixed_checker :: "unit health_checker" where
  "mixed_checker = AddCheck (AddCheck (NewHealthChecker DefaultConfig_health) CheckTypeLiveness (constant_check ''a'' StatusDegraded)) CheckTypeLiveness (constant_check ''b'' StatusUnknown)"

definition no_reading :: reading where "no_reading = \<lparr>rd_ctx = None, rd_start = 0, rd_elapsed = 0\<rparr>"

lemma probe_depends_on_order:
  "or_Status (snd (CheckLiveness [''a'', ''b''] (\<lambda>_. no_reading) 0 1 mixed_checker ())) = StatusDegraded
    \<and> or_Status (snd (CheckLiveness [''b'', ''a''] (\<lambda>_. no_reading) 0 1 mixed_checker ())) = StatusUnknown"
  by code_simp

section \<open>Witnesses\<close>

definition panic_checker :: "unit health_checker" where
  "panic_checker = AddCheck (NewHealthChecker DefaultConfig_health) CheckTypeLiveness \<lparr>hc_Check = (\<lambda>ctx w. (w, None)), hc_Name = ''p'', hc_Component = ''store''\<rparr>"


end
