(* ===== verification/Health_Builtin.thy ===== *)
theory Health_Builtin
  imports Health
begin

text \<open>
  The key-value storage of storage/storage.go and the health checks of the package (observability/health/checks.go, synckit\_checks.go). The locale \<open>kv_storage\<close> states what a storage promises;
  the check of a storage is verified against it, and the memory storage satisfies it. What databases, servers and dialers answer are arguments, as are the time at which a check starts, the time it
  takes, and the texts of durations and percentages. The check of projection metrics, which compares constants with floating point thresholds, is left out.
\<close>

section \<open>Storage\<close>

record 'k storage_ops =
  st_Get :: "'k \<Rightarrow> go_error option \<Rightarrow> string \<Rightarrow> go_error + string"
  st_Put :: "'k \<Rightarrow> go_error option \<Rightarrow> string \<Rightarrow> string option \<Rightarrow> 'k \<times> go_error option"
  st_Delete :: "'k \<Rightarrow> go_error option \<Rightarrow> string \<Rightarrow> 'k \<times> go_error option"
  st_Exists :: "'k \<Rightarrow> go_error option \<Rightarrow> string \<Rightarrow> go_error + bool"
  st_Close :: "'k \<Rightarrow> 'k \<times> go_error option"

definition ErrKeyNotFound :: go_error where "ErrKeyNotFound = ErrorString ''key not found''"
definition ErrStorageClosed :: go_error where "ErrStorageClosed = ErrorString ''storage is closed''"
definition ErrInvalidKey :: go_error where "ErrInvalidKey = ErrorString ''invalid key''"
definition ErrInvalidValue :: go_error where "ErrInvalidValue = ErrorString ''invalid value''"

record memory_storage =
  ms_data :: "(string, string) fmap"
  ms_closed :: bool

definition NewMemoryStorage :: memory_storage where
  "NewMemoryStorage = \<lparr>ms_data = fmempty, ms_closed = False\<rparr>"

definition Get_memory :: "memory_storage \<Rightarrow> go_error option \<Rightarrow> string \<Rightarrow> go_error + string" where
  "Get_memory m ctx key =
     (if ms_closed m then Inl ErrStorageClosed
      else if key = [] then Inl ErrInvalidKey
      else case ctx of Some e \<Rightarrow> Inl e
        | None \<Rightarrow> (case fmlookup (ms_data m) key of None \<Rightarrow> Inl ErrKeyNotFound | Some v \<Rightarrow> Inr v))"

text \<open>A nil value is \<open>None\<close>.\<close>

definition Put_memory :: "memory_storage \<Rightarrow> go_error option \<Rightarrow> string \<Rightarrow> string option \<Rightarrow> memory_storage \<times> go_error option" where
  "Put_memory m ctx key value =
     (if ms_closed m then (m, Some ErrStorageClosed)
      else if key = [] then (m, Some ErrInvalidKey)
      else case value of None \<Rightarrow> (m, Some ErrInvalidValue)
        | Some v \<Rightarrow> (case ctx of Some e \<Rightarrow> (m, Some e) | None \<Rightarrow> (m\<lparr>ms_data := fmupd key v (ms_data m)\<rparr>, None)))"

definition Delete_memory :: "memory_storage \<Rightarrow> go_error option \<Rightarrow> string \<Rightarrow> memory_storage \<times> go_error option" where
  "Delete_memory m ctx key =
     (if ms_closed m then (m, Some ErrStorageClosed)
      else if key = [] then (m, Some ErrInvalidKey)
      else case ctx of Some e \<Rightarrow> (m, Some e) | None \<Rightarrow> (m\<lparr>ms_data := fmdrop key (ms_data m)\<rparr>, None))"

definition Exists_memory :: "memory_storage \<Rightarrow> go_error option \<Rightarrow> string \<Rightarrow> go_error + bool" where
  "Exists_memory m ctx key =
     (if ms_closed m then Inl ErrStorageClosed
      else if key = [] then Inl ErrInvalidKey
      else case ctx of Some e \<Rightarrow> Inl e | None \<Rightarrow> Inr (fmlookup (ms_data m) key \<noteq> None))"

definition Close_memory :: "memory_storage \<Rightarrow> memory_storage \<times> go_error option" where
  "Close_memory m = (\<lparr>ms_data = fmempty, ms_closed = True\<rparr>, None)"

definition memory_ops :: "memory_storage storage_ops" where
  "memory_ops = \<lparr>st_Get = Get_memory, st_Put = Put_memory, st_Delete = Delete_memory, st_Exists = Exists_memory, st_Close = Close_memory\<rparr>"

section \<open>Checks\<close>

text \<open>The start of every check, and details.\<close>

definition new_result :: "string \<Rightarrow> int \<Rightarrow> check_result" where
  "new_result component start = zero_result\<lparr>ch_Component := component, ch_Details := Some fmempty, ch_Timestamp := start\<rparr>"

definition verdict_of :: "string \<Rightarrow> string \<Rightarrow> int \<Rightarrow> (string \<times> go_any) list \<Rightarrow> check_result \<Rightarrow> check_result" where
  "verdict_of status message elapsed details r =
     r\<lparr>ch_Status := status, ch_Message := message, ch_Details := Some (foldl (\<lambda>m (k, v). fmupd k v m) (gm_fmap (ch_Details r)) details), ch_Duration := elapsed\<rparr>"

subsection \<open>Database, HTTP, TCP and memory\<close>

record database_check =
  dc_name :: string
  dc_query :: string
  dc_timeout :: int
  dc_connPool :: bool

definition NewDatabaseCheck :: "string \<Rightarrow> (database_check \<Rightarrow> database_check) list \<Rightarrow> database_check" where
  "NewDatabaseCheck name opts = foldl (\<lambda>c opt. opt c) \<lparr>dc_name = name, dc_query = ''SELECT 1'', dc_timeout = 5 * 10 ^ 9, dc_connPool = False\<rparr> opts"

definition WithDatabaseQuery :: "string \<Rightarrow> database_check \<Rightarrow> database_check" where "WithDatabaseQuery q c = c\<lparr>dc_query := q\<rparr>"
definition WithDatabaseTimeout :: "int \<Rightarrow> database_check \<Rightarrow> database_check" where "WithDatabaseTimeout t c = c\<lparr>dc_timeout := t\<rparr>"
definition WithConnectionPoolCheck :: "database_check \<Rightarrow> database_check" where "WithConnectionPoolCheck c = c\<lparr>dc_connPool := True\<rparr>"

record pool_stats =
  OpenConnections :: i64
  InUse :: i64
  Idle :: i64
  WaitCount :: i64
  WaitDuration :: int

text \<open>What the database answers within the timeout: to a ping, to the query, and its statistics.\<close>

record database_answers =
  da_Ping :: "go_error option"
  da_Query :: "string \<Rightarrow> go_error option"
  da_Stats :: pool_stats

definition Check_database :: "(int \<Rightarrow> string) \<Rightarrow> database_answers \<Rightarrow> int \<Rightarrow> int \<Rightarrow> database_check \<Rightarrow> check_result" where
  "Check_database dur db start elapsed c =
     (let r = new_result ''database'' start in
      case da_Ping db of Some e \<Rightarrow> verdict_of StatusDown (''Database ping failed: '' @ Error_text e) elapsed [] r
    | None \<Rightarrow>
       (case (if dc_query c \<noteq> [] then da_Query db (dc_query c) else None) of
          Some e \<Rightarrow> verdict_of StatusDown (''Database query failed: '' @ Error_text e) elapsed [] r
        | None \<Rightarrow>
            (let st = da_Stats db;
                 details = (if dc_connPool c then [(''open_connections'', GInt (OpenConnections st)), (''in_use_connections'', GInt (InUse st)),
                    (''idle_connections'', GInt (Idle st)), (''wait_count'', GInt64 (WaitCount st)), (''wait_duration'', GString (dur (WaitDuration st)))] else [])
             in if dc_connPool c \<and> sint (WaitCount st) > 10 then verdict_of StatusDegraded ''High connection pool wait count'' elapsed details r
                else verdict_of StatusUp ''Database is healthy'' elapsed details r)))"

record http_check =
  ht_name :: string
  ht_url :: string
  ht_method :: string
  ht_timeout :: int
  ht_expectedStatus :: int

definition NewHTTPCheck :: "string \<Rightarrow> string \<Rightarrow> (http_check \<Rightarrow> http_check) list \<Rightarrow> http_check" where
  "NewHTTPCheck name url opts = foldl (\<lambda>c opt. opt c) \<lparr>ht_name = name, ht_url = url, ht_method = ''GET'', ht_timeout = 10 * 10 ^ 9, ht_expectedStatus = 200\<rparr> opts"

definition WithHTTPMethod :: "string \<Rightarrow> http_check \<Rightarrow> http_check" where "WithHTTPMethod m c = c\<lparr>ht_method := m\<rparr>"
definition WithHTTPTimeout :: "int \<Rightarrow> http_check \<Rightarrow> http_check" where "WithHTTPTimeout t c = c\<lparr>ht_timeout := t\<rparr>"
definition WithExpectedStatus :: "int \<Rightarrow> http_check \<Rightarrow> http_check" where "WithExpectedStatus s c = c\<lparr>ht_expectedStatus := s\<rparr>"

text \<open>\<open>new_req\<close> is the error of making the request, \<open>do_req\<close> the answer of the client, \<open>took\<close> the time until the answer.\<close>

definition Check_http :: "(int \<Rightarrow> string) \<Rightarrow> (string \<Rightarrow> string \<Rightarrow> go_error option) \<Rightarrow> (string \<Rightarrow> string \<Rightarrow> go_error + int) \<Rightarrow> int \<Rightarrow> int \<Rightarrow> int \<Rightarrow> http_check \<Rightarrow> check_result" where
  "Check_http dur new_req do_req start took elapsed c =
     (let r = new_result ''http'' start in
      case new_req (ht_method c) (ht_url c) of Some e \<Rightarrow> verdict_of StatusDown (''Failed to create HTTP request: '' @ Error_text e) elapsed [] r
    | None \<Rightarrow> (case do_req (ht_method c) (ht_url c) of
        Inl e \<Rightarrow> verdict_of StatusDown (''HTTP request failed: '' @ Error_text e) elapsed [] r
      | Inr code \<Rightarrow>
          (let details = [(''status_code'', GInt (word_of_int code)), (''response_time'', GString (dur took))] in
           if code \<noteq> ht_expectedStatus c
           then verdict_of StatusDown (''Unexpected status code: got '' @ int_dec code @ '', expected '' @ int_dec (ht_expectedStatus c)) elapsed details r
           else verdict_of StatusUp ''HTTP endpoint is healthy'' elapsed details r)))"

record tcp_check =
  tc_name :: string
  tc_address :: string
  tc_timeout :: int

definition NewTCPCheck :: "string \<Rightarrow> string \<Rightarrow> (tcp_check \<Rightarrow> tcp_check) list \<Rightarrow> tcp_check" where
  "NewTCPCheck name address opts = foldl (\<lambda>c opt. opt c) \<lparr>tc_name = name, tc_address = address, tc_timeout = 5 * 10 ^ 9\<rparr> opts"

definition WithTCPTimeout :: "int \<Rightarrow> tcp_check \<Rightarrow> tcp_check" where "WithTCPTimeout t c = c\<lparr>tc_timeout := t\<rparr>"

definition Check_tcp :: "(int \<Rightarrow> string) \<Rightarrow> (string \<Rightarrow> go_error option) \<Rightarrow> int \<Rightarrow> int \<Rightarrow> int \<Rightarrow> tcp_check \<Rightarrow> check_result" where
  "Check_tcp dur dial start took elapsed c =
     (let r = new_result ''tcp'' start in
      case dial (tc_address c) of
        Some e \<Rightarrow> verdict_of StatusDown (''TCP connection failed: '' @ Error_text e) elapsed [] r
      | None \<Rightarrow> verdict_of StatusUp ''TCP connection successful'' elapsed [(''address'', GString (tc_address c)), (''connection_time'', GString (dur took))] r)"

record memory_check =
  mc_name :: string
  mc_threshold :: u64

definition NewMemoryCheck :: "string \<Rightarrow> u64 \<Rightarrow> memory_check" where
  "NewMemoryCheck name thresholdMB = \<lparr>mc_name = name, mc_threshold = thresholdMB * 1024 * 1024\<rparr>"

text \<open>The statistics are never read: they are zero.\<close>

definition Check_memory :: "int \<Rightarrow> int \<Rightarrow> memory_check \<Rightarrow> check_result" where
  "Check_memory start elapsed c =
     (let r = new_result ''system'' start; alloc = (0 :: u64);
          details = [(''allocated_memory'', GUint64 alloc), (''total_allocated'', GUint64 0), (''system_memory'', GUint64 0), (''gc_cycles'', GOther ''uint32'' 0 ''0'' True),
            (''threshold'', GUint64 (mc_threshold c))]
      in if alloc > mc_threshold c
         then verdict_of StatusDegraded (''Memory usage above threshold: '' @ u64_dec alloc @ '' bytes > '' @ u64_dec (mc_threshold c) @ '' bytes'') elapsed details r
         else verdict_of StatusUp ''Memory usage is healthy'' elapsed details r)"

subsection \<open>Composite checks\<close>

record 'w composite_check =
  cc_name :: string
  cc_comp :: string
  cc_checks :: "'w health_check list"

definition NewCompositeCheck :: "string \<Rightarrow> string \<Rightarrow> 'w health_check list \<Rightarrow> 'w composite_check" where
  "NewCompositeCheck name component checks = \<lparr>cc_name = name, cc_comp = component, cc_checks = checks\<rparr>"

definition AddCheck_composite :: "'w composite_check \<Rightarrow> 'w health_check \<Rightarrow> 'w composite_check" where
  "AddCheck_composite c check = c\<lparr>cc_checks := cc_checks c @ [check]\<rparr>"

text \<open>The loop: results by name, the overall status and the messages. A panic of a check ends it.\<close>

fun sub_checks :: "go_error option \<Rightarrow> 'w health_check list \<Rightarrow> 'w \<Rightarrow> (string, check_result) fmap \<times> string \<times> string list
    \<Rightarrow> 'w \<times> ((string, check_result) fmap \<times> string \<times> string list) go" where
  "sub_checks ctx [] w acc = (w, Some acc)"
| "sub_checks ctx (check # checks) w (results, overall, messages) = (case hc_Check check ctx w of
       (w', None) \<Rightarrow> (w', None)
     | (w', Some r) \<Rightarrow> sub_checks ctx checks w' (fmupd (hc_Name check) r results, worse overall (ch_Status r),
         if ch_Status r \<in> {StatusDown, StatusDegraded, StatusUnknown} then messages @ [hc_Name check @ '': '' @ ch_Message r] else messages))"

text \<open>\<open>box\<close> is the value of interface type that holds the map of results.\<close>

definition Check_composite :: "((string, check_result) fmap \<Rightarrow> go_any) \<Rightarrow> int \<Rightarrow> int \<Rightarrow> 'w composite_check \<Rightarrow> go_error option \<Rightarrow> 'w \<Rightarrow> 'w \<times> check_result go" where
  "Check_composite box start elapsed c ctx w =
     (let r = new_result (cc_comp c) start in
      if cc_checks c = [] then (w, Some (verdict_of StatusUnknown ''No checks configured'' elapsed [] r))
      else (case sub_checks ctx (cc_checks c) w (fmempty, StatusUp, []) of
        (w', None) \<Rightarrow> (w', None)
      | (w', Some (results, overall, messages)) \<Rightarrow>
          (w', Some (verdict_of overall (if messages \<noteq> [] then ''Composite check: ['' @ join '' '' messages @ '']'' else ''All sub-checks passed'') elapsed
             [(''sub_checks'', box results)] r))))"

subsection \<open>Parts of the library\<close>

text \<open>A manager, transport or runner is only compared with nil.\<close>

definition Check_syncmanager :: "int \<Rightarrow> int \<Rightarrow> bool \<Rightarrow> check_result" where
  "Check_syncmanager start elapsed present =
     (let r = new_result ''syncmanager'' start in
      if \<not> present then verdict_of StatusDown ''SyncManager is not initialized'' elapsed [] r
      else verdict_of StatusUp ''SyncManager is initialized and ready'' elapsed [(''manager_initialized'', GBool True)] r)"

record storage_check =
  sk_name :: string
  sk_testKey :: string

definition NewStorageCheck :: "string \<Rightarrow> (storage_check \<Rightarrow> storage_check) list \<Rightarrow> storage_check" where
  "NewStorageCheck name opts = foldl (\<lambda>c opt. opt c) \<lparr>sk_name = name, sk_testKey = ''health_check_test''\<rparr> opts"

definition WithStorageTestKey :: "string \<Rightarrow> storage_check \<Rightarrow> storage_check" where "WithStorageTestKey key c = c\<lparr>sk_testKey := key\<rparr>"

definition testData :: "int \<Rightarrow> string" where "testData unix = ''health_check_data_'' @ int_dec unix"

definition tested_ops :: go_any where "tested_ops = GOther ''[]string'' 0 ''[put get delete]'' False"

definition Check_storage :: "'k storage_ops \<Rightarrow> int \<Rightarrow> int \<Rightarrow> int \<Rightarrow> storage_check \<Rightarrow> go_error option \<Rightarrow> 'k option \<Rightarrow> 'k option \<times> check_result" where
  "Check_storage ops unix start elapsed c ctx storage =
     (let r = new_result ''storage'' start; data = testData unix in
      case storage of
        None \<Rightarrow> (None, verdict_of StatusDown ''Storage backend is not initialized'' elapsed [] r)
      | Some k \<Rightarrow>
          (case st_Put ops k ctx (sk_testKey c) (Some data) of
             (k1, Some e) \<Rightarrow> (Some k1, verdict_of StatusDown (''Storage Put operation failed: '' @ Error_text e) elapsed [] r)
           | (k1, None) \<Rightarrow>
               (case st_Get ops k1 ctx (sk_testKey c) of
                  Inl e \<Rightarrow> (Some k1, verdict_of StatusDown (''Storage Get operation failed: '' @ Error_text e) elapsed [] r)
                | Inr retrieved \<Rightarrow>
                    if retrieved \<noteq> data
                    then (Some k1, verdict_of StatusDegraded ''Storage data integrity check failed'' elapsed [(''expected_data'', GString data), (''retrieved_data'', GString retrieved)] r)
                    else (case st_Delete ops k1 ctx (sk_testKey c) of
                      (k2, Some e) \<Rightarrow> (Some k2, verdict_of StatusDegraded (''Storage Delete operation failed: '' @ Error_text e) elapsed [] r)
                    | (k2, None) \<Rightarrow> (Some k2, verdict_of StatusUp ''Storage backend is healthy'' elapsed
                        [(''operations_tested'', tested_ops), (''data_integrity'', GString ''passed'')] r)))))"

record transport_check =
  tk_name :: string
  tk_testPeer :: string

definition NewTransportCheck :: "string \<Rightarrow> (transport_check \<Rightarrow> transport_check) list \<Rightarrow> transport_check" where
  "NewTransportCheck name opts = foldl (\<lambda>c opt. opt c) \<lparr>tk_name = name, tk_testPeer = ''health_check_peer''\<rparr> opts"

definition WithTransportTestPeer :: "string \<Rightarrow> transport_check \<Rightarrow> transport_check" where "WithTransportTestPeer p c = c\<lparr>tk_testPeer := p\<rparr>"

definition Check_transport :: "int \<Rightarrow> int \<Rightarrow> transport_check \<Rightarrow> bool \<Rightarrow> check_result" where
  "Check_transport start elapsed c present =
     (let r = new_result ''transport'' start in
      if \<not> present then verdict_of StatusDown ''Transport layer is not initialized'' elapsed [] r
      else verdict_of StatusUp ''Transport layer is initialized'' elapsed [(''transport_initialized'', GBool True), (''test_peer'', GString (tk_testPeer c))] r)"

definition Check_conflict_resolver :: "int \<Rightarrow> int \<Rightarrow> check_result" where
  "Check_conflict_resolver start elapsed =
     verdict_of StatusUp ''Conflict resolver is available'' elapsed [(''resolver_available'', GBool True)] (new_result ''conflict_resolver'' start)"

record operation_check =
  oc_name :: string
  oc_testResource :: string
  oc_timeout :: int

definition NewSyncOperationCheck :: "string \<Rightarrow> (operation_check \<Rightarrow> operation_check) list \<Rightarrow> operation_check" where
  "NewSyncOperationCheck name opts = foldl (\<lambda>c opt. opt c) \<lparr>oc_name = name, oc_testResource = ''health_check_resource'', oc_timeout = 10 * 10 ^ 9\<rparr> opts"

definition WithSyncTestResource :: "string \<Rightarrow> operation_check \<Rightarrow> operation_check" where "WithSyncTestResource s c = c\<lparr>oc_testResource := s\<rparr>"
definition WithSyncOperationTimeout :: "int \<Rightarrow> operation_check \<Rightarrow> operation_check" where "WithSyncOperationTimeout t c = c\<lparr>oc_timeout := t\<rparr>"

text \<open>The context with the timeout at the end of the check; only an exceeded deadline is reported.\<close>

definition timed_out :: "string \<Rightarrow> go_error option \<Rightarrow> check_result \<Rightarrow> check_result" where
  "timed_out message op_ctx r =
     (if op_ctx = Some DeadlineExceeded then verdict_of StatusDegraded message (ch_Duration r) [(''timeout_occurred'', GBool True)] r else r)"

definition Check_operation :: "(int \<Rightarrow> string) \<Rightarrow> int \<Rightarrow> int \<Rightarrow> operation_check \<Rightarrow> go_error option \<Rightarrow> bool \<Rightarrow> check_result" where
  "Check_operation dur start elapsed c op_ctx present =
     (let r = new_result ''sync_operations'' start in
      if \<not> present then verdict_of StatusDown ''SyncManager is not available for sync operation test'' elapsed [] r
      else timed_out ''Sync operation health check timed out'' op_ctx
        (verdict_of StatusUp ''Sync operations are available'' elapsed
           [(''manager_available'', GBool True), (''test_resource'', GString (oc_testResource c)), (''timeout'', GString (dur (oc_timeout c)))] r))"

record network_check =
  nk_name :: string
  nk_peers :: "string list"
  nk_timeout :: int

definition NewNetworkConnectivityCheck :: "string \<Rightarrow> string list \<Rightarrow> (network_check \<Rightarrow> network_check) list \<Rightarrow> network_check" where
  "NewNetworkConnectivityCheck name peers opts = foldl (\<lambda>c opt. opt c) \<lparr>nk_name = name, nk_peers = peers, nk_timeout = 5 * 10 ^ 9\<rparr> opts"

definition WithNetworkTimeout :: "int \<Rightarrow> network_check \<Rightarrow> network_check" where "WithNetworkTimeout t c = c\<lparr>nk_timeout := t\<rparr>"

text \<open>Every peer is taken to be reachable.\<close>

fun reach_peers :: "string list \<Rightarrow> (string, bool) fmap \<Rightarrow> nat \<Rightarrow> (string, bool) fmap \<times> nat" where
  "reach_peers [] res n = (res, n)"
| "reach_peers (peer # peers) res n = reach_peers peers (fmupd peer True res) (Suc n)"

definition Check_network :: "((string, bool) fmap \<Rightarrow> go_any) \<Rightarrow> int \<Rightarrow> int \<Rightarrow> network_check \<Rightarrow> check_result" where
  "Check_network box start elapsed c =
     (let r = new_result ''network'' start in
      if nk_peers c = [] then verdict_of StatusUp ''No peers configured to check'' elapsed [(''peer_count'', GInt 0)] r
      else let (results, reachable) = reach_peers (nk_peers c) fmempty 0; total = length (nk_peers c);
               details = [(''peers'', box results), (''total_peers'', GInt (of_nat total)), (''reachable_peers'', GInt (of_nat reachable))]
        in if reachable = total then verdict_of StatusUp ''All peers are reachable'' elapsed details r
           else if reachable > 0 then verdict_of StatusDegraded (''Only '' @ nat_dec reachable @ ''/'' @ nat_dec total @ '' peers are reachable'') elapsed details r
           else verdict_of StatusDown ''No peers are reachable'' elapsed details r)"

record runner_check =
  rk_name :: string
  rk_timeout :: int

definition NewProjectionRunnerHealthCheck :: "string \<Rightarrow> (runner_check \<Rightarrow> runner_check) list \<Rightarrow> runner_check" where
  "NewProjectionRunnerHealthCheck name opts = foldl (\<lambda>c opt. opt c) \<lparr>rk_name = name, rk_timeout = 10 * 10 ^ 9\<rparr> opts"

definition WithProjectionTimeout_check :: "int \<Rightarrow> runner_check \<Rightarrow> runner_check" where "WithProjectionTimeout_check t c = c\<lparr>rk_timeout := t\<rparr>"

definition Check_runner :: "(int \<Rightarrow> string) \<Rightarrow> int \<Rightarrow> int \<Rightarrow> runner_check \<Rightarrow> go_error option \<Rightarrow> bool \<Rightarrow> check_result" where
  "Check_runner dur start elapsed c runner_ctx present =
     (let r = new_result ''projection_runner'' start in
      if \<not> present then verdict_of StatusDown ''Projection runner is not initialized'' elapsed [] r
      else timed_out ''Projection runner health check timed out'' runner_ctx
        (verdict_of StatusUp ''Projection runner is available'' elapsed [(''runner_initialized'', GBool True), (''timeout'', GString (dur (rk_timeout c)))] r))"

record system_check =
  pk_name :: string
  pk_runners :: "bool list"
  pk_minHealthyRunners :: int

definition NewProjectionSystemHealthCheck :: "string \<Rightarrow> bool list \<Rightarrow> (system_check \<Rightarrow> system_check) list \<Rightarrow> system_check" where
  "NewProjectionSystemHealthCheck name runners opts =
     foldl (\<lambda>c opt. opt c) \<lparr>pk_name = name, pk_runners = runners, pk_minHealthyRunners = int (length runners)\<rparr> opts"

definition WithMinHealthyProjectionRunners :: "int \<Rightarrow> system_check \<Rightarrow> system_check" where "WithMinHealthyProjectionRunners n c = c\<lparr>pk_minHealthyRunners := n\<rparr>"

text \<open>\<open>pk_runners\<close> says which runners are not nil; \<open>percent\<close> is the floating point quotient.\<close>

definition Check_system :: "(nat \<Rightarrow> nat \<Rightarrow> go_any) \<Rightarrow> int \<Rightarrow> int \<Rightarrow> system_check \<Rightarrow> check_result" where
  "Check_system percent start elapsed c =
     (let r = new_result ''projection_system'' start; total = length (pk_runners c); healthy = length (filter id (pk_runners c)); least = pk_minHealthyRunners c;
          details = [(''total_runners'', GInt (of_nat total)), (''healthy_runners'', GInt (of_nat healthy)), (''min_healthy_required'', GInt (word_of_int least)),
            (''healthy_percentage'', percent healthy total)];
          ratio = nat_dec healthy @ ''/'' @ nat_dec total
      in if int healthy \<ge> least then verdict_of StatusUp (''Projection system healthy: '' @ ratio @ '' runners operational'') elapsed details r
         else if healthy > 0 then verdict_of StatusDegraded (''Projection system degraded: '' @ ratio @ '' runners operational (min: '' @ int_dec least @ '')'') elapsed details r
         else verdict_of StatusDown ''Projection system down: no healthy runners'' elapsed details r)"

section \<open>Properties\<close>

lemma verdict_of_fields [simp]:
  "ch_Status (verdict_of st msg el ds r) = st" "ch_Message (verdict_of st msg el ds r) = msg" "ch_Duration (verdict_of st msg el ds r) = el"
  by (simp_all add: verdict_of_def)

text \<open>What a storage promises: \<open>look\<close> is its content.\<close>

locale kv_storage =
  fixes ops :: "'k storage_ops" and look :: "'k \<Rightarrow> string \<Rightarrow> string option"
  assumes put_ok: "st_Put ops k ctx key (Some v) = (k', None) \<Longrightarrow> look k' = (look k)(key \<mapsto> v)"
    and put_fails: "st_Put ops k ctx key v' = (k', Some e) \<Longrightarrow> look k' = look k"
    and get_ok: "st_Get ops k ctx key = Inr v \<Longrightarrow> look k key = Some v"
    and delete_ok: "st_Delete ops k ctx key = (k', None) \<Longrightarrow> look k' = (look k)(key := None)"
    and delete_fails: "st_Delete ops k ctx key = (k', Some e) \<Longrightarrow> look k' = look k"
begin

lemma check_effect:
  assumes "Check_storage ops unix start elapsed c ctx (Some k) = (Some k', r)"
  shows "(ch_Status r = StatusUp \<longrightarrow> look k' = (look k)(sk_testKey c := None))
    \<and> (ch_Status r = StatusDegraded \<longrightarrow> look k' = (look k)(sk_testKey c \<mapsto> testData unix) \<and> ch_Message r \<noteq> ''Storage data integrity check failed'')
    \<and> (ch_Status r = StatusDown \<longrightarrow> look k' \<in> {look k, (look k)(sk_testKey c \<mapsto> testData unix)})
    \<and> ch_Status r \<in> {StatusUp, StatusDegraded, StatusDown}"
  using assms
  by (auto simp: Check_storage_def Let_def statuses dest!: put_ok put_fails get_ok delete_ok delete_fails split: prod.splits option.splits sum.splits if_splits)

end

lemma fmap_fun: "(\<lambda>key. if key = x then a else fmlookup f key) = (fmlookup f)(x := a)"
  by auto

interpretation mst: kv_storage memory_ops "\<lambda>m. fmlookup (ms_data m)"
  by unfold_locales
    (auto simp: memory_ops_def Put_memory_def Get_memory_def Delete_memory_def fmap_fun fun_eq_iff split: if_splits option.splits)

text \<open>
  The check of a memory storage reports up exactly when the storage is usable: it is open, the test key is not empty and the context is alive. Then the test key is absent afterwards, whatever it held
  before, and every other key is unchanged. Otherwise it reports down and the storage is unchanged.
\<close>

theorem storage_check_verdict:
  assumes "Check_storage memory_ops unix start elapsed c ctx (Some m) = (Some m', r)"
  shows "(ch_Status r = StatusUp \<longleftrightarrow> \<not> ms_closed m \<and> sk_testKey c \<noteq> [] \<and> ctx = None)
    \<and> (if ch_Status r = StatusUp then fmlookup (ms_data m') = (fmlookup (ms_data m))(sk_testKey c := None) else ch_Status r = StatusDown \<and> m' = m)"
proof (cases "\<not> ms_closed m \<and> sk_testKey c \<noteq> [] \<and> ctx = None")
  case True
  then have "ch_Status r = StatusUp" using assms
    by (auto simp: Check_storage_def memory_ops_def Put_memory_def Get_memory_def Delete_memory_def Let_def)
  with True show ?thesis using mst.check_effect [OF assms] by simp
next
  case False
  then show ?thesis using assms
    by (auto simp: Check_storage_def memory_ops_def Put_memory_def Let_def statuses split: if_splits option.splits)
qed

text \<open>The statuses that the parts of a composite check report one after the other.\<close>

fun sub_statuses :: "go_error option \<Rightarrow> 'w health_check list \<Rightarrow> 'w \<Rightarrow> string list" where
  "sub_statuses ctx [] w = []"
| "sub_statuses ctx (check # checks) w = (case hc_Check check ctx w of (w', None) \<Rightarrow> [] | (w', Some r) \<Rightarrow> ch_Status r # sub_statuses ctx checks w')"

lemma sub_checks_status:
  assumes "sub_checks ctx checks w acc = (w', Some (results', overall', messages'))"
  shows "overall' = foldl worse (fst (snd acc)) (sub_statuses ctx checks w) \<and> length (sub_statuses ctx checks w) = length checks"
  using assms
proof (induction ctx checks w acc rule: sub_checks.induct)
  case (2 ctx check checks w results overall messages)
  obtain w1 res where e: "hc_Check check ctx w = (w1, res)" by (cases "hc_Check check ctx w")
  with 2 show ?case by (cases res) (auto split: if_splits)
qed simp

lemma foldl_worse_verdict: "sts \<noteq> [] \<Longrightarrow> foldl worse StatusUp sts = verdict sts"
proof (induction sts rule: rev_induct)
  case (snoc st sts)
  have "worse StatusUp st = verdict [st]" by (simp add: worse_def verdict_def statuses)
  then show ?case using snoc.IH worse_verdict [of sts st] by (cases "sts = []") simp_all
qed simp

text \<open>
  A composite check agrees with a checker that runs the same checks: unless a part panics, its status is the verdict on the statuses of its parts in order, and unknown without parts.
\<close>

theorem composite_check_verdict:
  assumes "Check_composite box start elapsed c ctx w = (w', Some r)"
  shows "ch_Status r = verdict (sub_statuses ctx (cc_checks c) w)"
proof (cases "cc_checks c = []")
  case True
  then show ?thesis using assms by (auto simp: Check_composite_def Let_def verdict_def)
next
  case False
  then obtain results overall messages where run: "sub_checks ctx (cc_checks c) w (fmempty, StatusUp, []) = (w', Some (results, overall, messages))"
    and r: "ch_Status r = overall"
    using assms by (auto simp: Check_composite_def Let_def split: prod.splits option.splits)
  note s = sub_checks_status [OF run]
  then have "sub_statuses ctx (cc_checks c) w \<noteq> []" using False by auto
  then show ?thesis using s r foldl_worse_verdict by simp
qed

section \<open>Witnesses\<close>

definition used_storage :: memory_storage where
  "used_storage = \<lparr>ms_data = fmupd ''k'' ''v'' (fmupd ''health_check_test'' ''precious'' fmempty), ms_closed = False\<rparr>"

theorem storage_check_verdict_witness:
  "\<exists>m' r. Check_storage memory_ops 7 0 1 (NewStorageCheck ''s'' []) None (Some used_storage) = (Some m', r) \<and> ch_Status r = StatusUp
    \<and> fmlookup (ms_data m') ''health_check_test'' = None \<and> fmlookup (ms_data m') ''k'' = Some ''v''"
proof -
  have k: "sk_testKey (NewStorageCheck ''s'' []) = ''health_check_test''" by (simp add: NewStorageCheck_def)
  obtain m' r where run: "Check_storage memory_ops 7 0 1 (NewStorageCheck ''s'' []) None (Some used_storage) = (Some m', r)"
    by (auto simp: Check_storage_def memory_ops_def Put_memory_def Get_memory_def Delete_memory_def Let_def NewStorageCheck_def used_storage_def)
  have "\<not> ms_closed used_storage" "fmlookup (ms_data used_storage) ''k'' = Some ''v''" by (simp_all add: used_storage_def)
  then show ?thesis using storage_check_verdict [OF run] run unfolding k by (auto simp: fun_upd_def)
qed

theorem composite_check_verdict_witness:
  "\<exists>w' r. Check_composite (\<lambda>_. GNil) 0 1 (NewCompositeCheck ''c'' ''x'' [constant_check ''a'' StatusUp, constant_check ''b'' StatusDegraded]) None () = (w', Some r)
    \<and> ch_Status r = StatusDegraded"
proof -
  obtain w' r where run: "Check_composite (\<lambda>_. GNil) 0 1 (NewCompositeCheck ''c'' ''x'' [constant_check ''a'' StatusUp, constant_check ''b'' StatusDegraded]) None () = (w', Some r)"
    by (auto simp: Check_composite_def NewCompositeCheck_def constant_check_def Let_def)
  show ?thesis using composite_check_verdict [OF run] run by (auto simp: NewCompositeCheck_def constant_check_def verdict_def statuses)
qed

end
