(* ===== verification/Health_Http.thy ===== *)
theory Health_Http
  imports Health_Builtin
begin

text \<open>
  The HTTP endpoints of the health checks (observability/health/handler.go). A response writer keeps the headers set so far; \<open>WriteHeader\<close> sends the status with the headers of that moment, and
  later changes of headers are not sent. Bodies are the values that are encoded as JSON, or texts. The readings of the clock, the orders of ranges and the texts of times are arguments. Starting and stopping the
  server is I/O.

  Shown: what each probe answers, for every request of a server, and which requests the middleware lets through.
\<close>

section \<open>Response writers\<close>

datatype health_body =
    HText string
  | HOverall overall_result
  | HComponent string string "(string, check_result) fmap" int
  | HAll string "(string, overall_result) fmap" int
  | HComponents "string list" nat int
  | HDetailed string int string "(string, check_result) fmap option"

record writer =
  wr_Header :: "(string \<times> string) list"
  wr_Sent :: "(nat \<times> (string \<times> string) list) option"
  wr_Body :: "health_body list"

definition new_writer :: writer where
  "new_writer = \<lparr>wr_Header = [], wr_Sent = None, wr_Body = []\<rparr>"

definition header_Set :: "string \<Rightarrow> string \<Rightarrow> writer \<Rightarrow> writer" where
  "header_Set k v w = w\<lparr>wr_Header := filter (\<lambda>(k', _). k' \<noteq> k) (wr_Header w) @ [(k, v)]\<rparr>"

definition WriteHeader :: "nat \<Rightarrow> writer \<Rightarrow> writer" where
  "WriteHeader code w = (case wr_Sent w of None \<Rightarrow> w\<lparr>wr_Sent := Some (code, wr_Header w)\<rparr> | Some _ \<Rightarrow> w)"

definition Write_body :: "health_body \<Rightarrow> writer \<Rightarrow> writer" where
  "Write_body b w = (let w = WriteHeader 200 w in w\<lparr>wr_Body := wr_Body w @ [b]\<rparr>)"

definition http_Error :: "string \<Rightarrow> nat \<Rightarrow> writer \<Rightarrow> writer" where
  "http_Error msg code w = Write_body (HText (msg @ [CHR 0x0A])) (WriteHeader code
     (header_Set ''X-Content-Type-Options'' ''nosniff'' (header_Set ''Content-Type'' ''text/plain; charset=utf-8'' w)))"

section \<open>Probes\<close>

definition getStatusCode :: "string \<Rightarrow> nat" where
  "getStatusCode st =
     (if st = StatusUp then 200 else if st = StatusDown then 503 else if st = StatusDegraded then 200 else if st = StatusUnknown then 503 else 500)"

definition writeHealthResponse :: "overall_result \<Rightarrow> writer \<Rightarrow> writer" where
  "writeHealthResponse result w =
     (let w = header_Set ''Content-Type'' ''application/json'' w;
          w = WriteHeader (getStatusCode (or_Status result)) w;
          w = header_Set ''Cache-Control'' ''no-cache, no-store, must-revalidate'' w;
          w = header_Set ''Pragma'' ''no-cache'' w;
          w = header_Set ''Expires'' ''0'' w
      in Write_body (HOverall result) w)"

definition method_not_allowed :: "writer \<Rightarrow> writer" where
  "method_not_allowed w = http_Error ''Method not allowed'' 405 w"

definition probe :: "run_env \<Rightarrow> 'w health_checker \<Rightarrow> string \<Rightarrow> request \<Rightarrow> 'w \<Rightarrow> writer \<Rightarrow> 'w \<times> writer" where
  "probe e h checkType r w wr =
     (if rq_Method r \<noteq> ''GET'' then (w, method_not_allowed wr)
      else let (w', result) = run_in e h checkType w in (w', writeHealthResponse result wr))"

definition LivenessHandler :: "run_env \<Rightarrow> 'w health_checker \<Rightarrow> request \<Rightarrow> 'w \<Rightarrow> writer \<Rightarrow> 'w \<times> writer" where
  "LivenessHandler e h r w wr = probe e h CheckTypeLiveness r w wr"

definition ReadinessHandler :: "run_env \<Rightarrow> 'w health_checker \<Rightarrow> request \<Rightarrow> 'w \<Rightarrow> writer \<Rightarrow> 'w \<times> writer" where
  "ReadinessHandler e h r w wr = probe e h CheckTypeReadiness r w wr"

definition StartupHandler :: "run_env \<Rightarrow> 'w health_checker \<Rightarrow> request \<Rightarrow> 'w \<Rightarrow> writer \<Rightarrow> 'w \<times> writer" where
  "StartupHandler e h r w wr = probe e h CheckTypeStartup r w wr"

text \<open>The loop over results ends at the first one that is down.\<close>

fun overall_loop :: "string list \<Rightarrow> string \<Rightarrow> string" where
  "overall_loop [] overall = overall"
| "overall_loop (st # sts) overall =
     (if st = StatusDown then StatusDown
      else if st = StatusDegraded \<and> overall = StatusUp then overall_loop sts StatusDegraded
      else if st = StatusUnknown \<and> overall = StatusUp then overall_loop sts StatusUnknown
      else overall_loop sts overall)"

text \<open>The arguments of the comprehensive endpoint: the environments of the runs, the orders of the two ranges, the readings of a component's checks and the time of the response.\<close>

record health_env =
  he_live :: run_env
  he_ready :: run_env
  he_startup :: run_env
  he_types :: "string list"
  he_reads :: "nat \<Rightarrow> reading"
  he_order :: "string list"
  he_now :: int

definition HealthHandler :: "health_env \<Rightarrow> 'w health_checker \<Rightarrow> request \<Rightarrow> 'w \<Rightarrow> writer \<Rightarrow> 'w \<times> writer" where
  "HealthHandler e h r w wr =
     (if rq_Method r \<noteq> ''GET'' then (w, method_not_allowed wr)
      else let checkType = values_Get (rq_Query r) ''type''; component = values_Get (rq_Query r) ''component'' in
        if checkType = ''liveness'' then (let (w', result) = run_in (he_live e) h CheckTypeLiveness w in (w', writeHealthResponse result wr))
        else if checkType = ''readiness'' then (let (w', result) = run_in (he_ready e) h CheckTypeReadiness w in (w', writeHealthResponse result wr))
        else if checkType = ''startup'' then (let (w', result) = run_in (he_startup e) h CheckTypeStartup w in (w', writeHealthResponse result wr))
        else if component \<noteq> [] then
          let (w', results) = GetComponentStatus (he_types e) (he_reads e) h component w;
              overall = overall_loop (map (\<lambda>t. case fmlookup results t of None \<Rightarrow> [] | Some x \<Rightarrow> ch_Status x) (he_order e)) StatusUp
          in (w', Write_body (HComponent overall component results (he_now e)) (WriteHeader (getStatusCode overall) (header_Set ''Content-Type'' ''application/json'' wr)))
        else
          let (w', results) = CheckAll (he_live e) (he_ready e) (he_startup e) h w;
              overall = overall_loop (map (\<lambda>t. case fmlookup results t of None \<Rightarrow> [] | Some x \<Rightarrow> or_Status x) (he_order e)) StatusUp
          in (w', Write_body (HAll overall results (he_now e)) (WriteHeader (getStatusCode overall) (header_Set ''Content-Type'' ''application/json'' wr))))"

definition ComponentsHandler :: "string list \<Rightarrow> int \<Rightarrow> 'w health_checker \<Rightarrow> request \<Rightarrow> writer \<Rightarrow> writer" where
  "ComponentsHandler order now h r wr =
     (if rq_Method r \<noteq> ''GET'' then method_not_allowed wr
      else let components = ListComponents order h
        in Write_body (HComponents components (length components) now) (WriteHeader 200 (header_Set ''Content-Type'' ''application/json'' wr)))"

definition SimpleHealthHandler :: "request \<Rightarrow> writer \<Rightarrow> writer" where
  "SimpleHealthHandler r wr =
     (if rq_Method r \<noteq> ''GET'' then method_not_allowed wr
      else Write_body (HText ''OK'') (WriteHeader 200
        (header_Set ''Cache-Control'' ''no-cache, no-store, must-revalidate'' (header_Set ''Content-Type'' ''text/plain'' wr))))"

record detailed_options =
  do_IncludeDetails :: bool
  do_IncludeTimestamp :: bool
  do_IncludeDuration :: bool
  do_Format :: string

definition DetailedHealthHandler ::
  "(int \<Rightarrow> string) \<Rightarrow> (int \<Rightarrow> string) \<Rightarrow> detailed_options \<Rightarrow> run_env \<Rightarrow> 'w health_checker \<Rightarrow> request \<Rightarrow> 'w \<Rightarrow> writer \<Rightarrow> 'w \<times> writer" where
  "DetailedHealthHandler rfc3339 dur opts e h r w wr =
     (if rq_Method r \<noteq> ''GET'' then (w, method_not_allowed wr)
      else let (w', result) = run_in e h CheckTypeLiveness w in
        if do_Format opts = ''text'' then
          (w', Write_body (HText (or_Status result @ (if do_IncludeTimestamp opts then '' at '' @ rfc3339 (or_Timestamp result) else [])
                 @ (if do_IncludeDuration opts then '' (took '' @ dur (or_Duration result) @ '')'' else [])))
             (WriteHeader (getStatusCode (or_Status result)) (header_Set ''Content-Type'' ''text/plain'' wr)))
        else
          (w', Write_body (HDetailed (or_Status result) (if do_IncludeTimestamp opts then or_Timestamp result else zero_time)
                 (if do_IncludeDuration opts then dur (or_Duration result) else []) (if do_IncludeDetails opts then Some (or_Results result) else None))
             (WriteHeader (getStatusCode (or_Status result)) (header_Set ''Content-Type'' ''application/json'' wr))))"

section \<open>Server and middleware\<close>

text \<open>The patterns have no trailing slash, so the mux compares paths.\<close>

definition ping :: "writer \<Rightarrow> writer" where
  "ping wr = Write_body (HText ''pong'') (WriteHeader 200 (header_Set ''Content-Type'' ''text/plain'' wr))"

definition serve_health :: "health_env \<Rightarrow> 'w health_checker \<Rightarrow> request \<Rightarrow> 'w \<Rightarrow> writer \<Rightarrow> 'w \<times> writer" where
  "serve_health e h r w wr =
     (if rq_Path r = ''/health'' then HealthHandler e h r w wr
      else if rq_Path r = ''/health/live'' then LivenessHandler (he_live e) h r w wr
      else if rq_Path r = ''/health/ready'' then ReadinessHandler (he_ready e) h r w wr
      else if rq_Path r = ''/health/startup'' then StartupHandler (he_startup e) h r w wr
      else if rq_Path r = ''/health/components'' then (w, ComponentsHandler (he_order e) (he_now e) h r wr)
      else if rq_Path r = ''/ping'' then (w, ping wr)
      else (w, http_Error ''404 page not found'' 404 wr))"

definition health_paths :: "string list" where
  "health_paths = [''/health'', ''/health/live'', ''/health/ready'', ''/health/startup'']"

definition HealthMiddleware ::
  "run_env \<Rightarrow> 'w health_checker \<Rightarrow> (request \<Rightarrow> 'w \<Rightarrow> writer \<Rightarrow> ('w \<times> writer) go) \<Rightarrow> request \<Rightarrow> 'w \<Rightarrow> writer \<Rightarrow> ('w \<times> writer) go" where
  "HealthMiddleware e h next_handler r w wr =
     (let wr = header_Set ''X-Health-Endpoint'' ''/health'' (header_Set ''X-Health-Status'' ''available'' wr) in
      if rq_Path r \<in> set health_paths then next_handler r w wr
      else let (w', result) = run_in e h CheckTypeLiveness w in
        if or_Status result = StatusDown then Some (w', http_Error ''Service temporarily unavailable'' 503 wr)
        else next_handler r w' wr)"

section \<open>Properties\<close>

definition statuses_of :: "run_env \<Rightarrow> 'w health_checker \<Rightarrow> string \<Rightarrow> 'w \<Rightarrow> string list" where
  "statuses_of e h checkType w = map (ch_Status \<circ> snd) (results_of (re_reads e) 0 (selected h checkType (re_order e)) w)"

lemma run_in_status: "or_Status (snd (run_in e h checkType w)) = verdict (statuses_of e h checkType w)"
  using health_status_core [of "re_reads e" h checkType "re_order e" w "re_start e" "re_elapsed e"] by (simp add: run_in_def statuses_of_def Let_def)

lemma verdict_known: "verdict sts \<in> {StatusUp, StatusDown, StatusDegraded, StatusUnknown}"
  by (auto simp: verdict_def split: list.split dest: filter_eq_ConsD)

lemma code_of_verdict: "getStatusCode (verdict sts) = (if verdict sts \<in> {StatusUp, StatusDegraded} then 200 else 503)"
  using verdict_known [of sts] by (auto simp: getStatusCode_def statuses)

lemma writeHealthResponse_sent: "wr_Sent (writeHealthResponse result new_writer) = Some (getStatusCode (or_Status result), [(''Content-Type'', ''application/json'')])"
  by (simp add: writeHealthResponse_def Write_body_def WriteHeader_def header_Set_def new_writer_def Let_def)

definition probe_type :: "string \<Rightarrow> string option" where
  "probe_type path = map_of [(''/health/live'', CheckTypeLiveness), (''/health/ready'', CheckTypeReadiness), (''/health/startup'', CheckTypeStartup)] path"

definition probe_run :: "health_env \<Rightarrow> string \<Rightarrow> run_env" where
  "probe_run e checkType = (if checkType = CheckTypeLiveness then he_live e else if checkType = CheckTypeReadiness then he_ready e else he_startup e)"

text \<open>
  C27: each of the three probes of a health server answers a GET request by the checks of its own type: 200 when the verdict on them is up or degraded, and 503 when it is down or unknown, which
  includes that there are no checks. The headers that are sent are only the content type: the headers against caching are set after the status has been sent, and are lost. Another method is answered
  with 405 and runs no check.
\<close>

theorem probe_answers:
  assumes "probe_type (rq_Path r) = Some checkType"
  shows "wr_Sent (snd (serve_health e h r w new_writer)) =
    (if rq_Method r = ''GET''
     then Some (if verdict (statuses_of (probe_run e checkType) h checkType w) \<in> {StatusUp, StatusDegraded} then 200 else 503, [(''Content-Type'', ''application/json'')])
     else Some (405, [(''Content-Type'', ''text/plain; charset=utf-8''), (''X-Content-Type-Options'', ''nosniff'')]))
    \<and> (rq_Method r \<noteq> ''GET'' \<longrightarrow> fst (serve_health e h r w new_writer) = w)"
proof -
  have p: "serve_health e h r w new_writer = probe (probe_run e checkType) h checkType r w new_writer"
    using assms by (auto simp: probe_type_def serve_health_def LivenessHandler_def ReadinessHandler_def StartupHandler_def probe_run_def
        CheckTypeLiveness_def CheckTypeReadiness_def CheckTypeStartup_def split: if_splits)
  show ?thesis
  proof (cases "rq_Method r = ''GET''")
    case True
    obtain w' res where run: "run_in (probe_run e checkType) h checkType w = (w', res)" by (cases "run_in (probe_run e checkType) h checkType w")
    then have "or_Status res = verdict (statuses_of (probe_run e checkType) h checkType w)" using run_in_status [of "probe_run e checkType" h checkType w] by simp
    then show ?thesis using True by (simp add: p probe_def run writeHealthResponse_sent code_of_verdict)
  next
    case False
    then show ?thesis unfolding p by (simp add: probe_def method_not_allowed_def http_Error_def Write_body_def WriteHeader_def header_Set_def new_writer_def Let_def)
  qed
qed

text \<open>
  The middleware lets every request through unless the liveness checks are down: it calls the next handler exactly once, with the request unchanged, on the paths of the health endpoints without any check, and
  otherwise after the checks when their verdict is not down; a down verdict is answered with 503 and the next handler is not called.
\<close>

theorem middleware_gate:
  "HealthMiddleware e h next_handler r w wr =
    (if rq_Path r \<notin> set health_paths \<and> verdict (statuses_of e h CheckTypeLiveness w) = StatusDown
     then Some (fst (run_in e h CheckTypeLiveness w), http_Error ''Service temporarily unavailable'' 503 (header_Set ''X-Health-Endpoint'' ''/health'' (header_Set ''X-Health-Status'' ''available'' wr)))
     else next_handler r (if rq_Path r \<in> set health_paths then w else fst (run_in e h CheckTypeLiveness w))
        (header_Set ''X-Health-Endpoint'' ''/health'' (header_Set ''X-Health-Status'' ''available'' wr)))"
proof -
  obtain w' res where run: "run_in e h CheckTypeLiveness w = (w', res)" by (cases "run_in e h CheckTypeLiveness w")
  then have "or_Status res = verdict (statuses_of e h CheckTypeLiveness w)" using run_in_status [of e h CheckTypeLiveness w] by simp
  then show ?thesis by (simp add: HealthMiddleware_def run Let_def)
qed

section \<open>Witnesses\<close>

definition plain_run :: run_env where
  "plain_run = \<lparr>re_order = [''a'', ''b''], re_reads = (\<lambda>_. no_reading), re_start = 0, re_elapsed = 1\<rparr>"

definition plain_env :: health_env where
  "plain_env = \<lparr>he_live = plain_run, he_ready = plain_run, he_startup = plain_run, he_types = [], he_reads = (\<lambda>_. no_reading), he_order = [], he_now = 0\<rparr>"

definition live_request :: request where
  "live_request = \<lparr>rq_Method = ''GET'', rq_Path = ''/health/live'', rq_Query = [], rq_Header = [], rq_ContentLength = 0, rq_Body = ([], io_EOF), rq_Closed = ([], io_EOF), rq_ctx = None\<rparr>"

theorem probe_answers_witness:
  "wr_Sent (snd (serve_health plain_env mixed_checker live_request () new_writer)) = Some (200, [(''Content-Type'', ''application/json'')])"
proof -
  have "verdict (statuses_of (probe_run plain_env CheckTypeLiveness) mixed_checker CheckTypeLiveness ()) = StatusDegraded" by code_simp
  then show ?thesis
    using probe_answers [of live_request CheckTypeLiveness plain_env mixed_checker "()"] by (simp add: live_request_def probe_type_def)
qed

end
