(* ===== verification/Http_Middleware.thy ===== *)
theory Http_Middleware
  imports Http_Server
begin

text \<open>
  The middleware of the HTTP transport (transport/httptransport/middleware), the registry of event codecs (synckit/codec/codec.go) and the codec-aware event format (wire\_format.go). A handler is a function on
  a world and a request and gives the response; a request carries the values of its context. Token validators, codecs and HMAC-SHA256 are parameters, and so are \<open>json.Marshal\<close> and \<open>json.Unmarshal\<close> of values of
  any type. Names of headers are written as the program writes them.

  Shown: which requests pass a chain of signature, token and tenant middleware and what the handler sees of them; that the sync handler does not look at the tenant found there; and the round trip of
  events through the codec-aware encoder.
\<close>

section \<open>Middleware\<close>

record mw_request = request +
  rq_Values :: "(string \<times> go_any) list"

type_synonym 'w handler = "'w \<Rightarrow> mw_request \<Rightarrow> ('w \<times> response) go"
type_synonym 'w middleware = "'w handler \<Rightarrow> 'w handler"

fun Chain_from :: "'w handler \<Rightarrow> 'w middleware list \<Rightarrow> 'w handler" where
  "Chain_from h [] = h"
| "Chain_from h (m # ms) = Chain_from (m h) ms"

text \<open>The loop of \<open>Chain\<close> runs from the last middleware to the first.\<close>

definition Chain :: "'w handler \<Rightarrow> 'w middleware list \<Rightarrow> 'w handler" where
  "Chain h ms = Chain_from h (rev ms)"

definition ContextKeyTenant :: string where "ContextKeyTenant = ''tenant''"
definition ContextKeyUserID :: string where "ContextKeyUserID = ''user_id''"

definition WithValue :: "string \<Rightarrow> go_any \<Rightarrow> mw_request \<Rightarrow> mw_request" where
  "WithValue k v r = r\<lparr>rq_Values := (k, v) # rq_Values r\<rparr>"

definition string_value :: "string \<Rightarrow> mw_request \<Rightarrow> string \<times> bool" where
  "string_value k r = (case map_of (rq_Values r) k of Some (GString s) \<Rightarrow> (s, True) | _ \<Rightarrow> ([], False))"

definition UserIDFromContext :: "mw_request \<Rightarrow> string \<times> bool" where
  "UserIDFromContext r = string_value ContextKeyUserID r"

definition TenantFromContext :: "mw_request \<Rightarrow> string \<times> bool" where
  "TenantFromContext r = string_value ContextKeyTenant r"

definition error_response :: "string \<Rightarrow> nat \<Rightarrow> response" where
  "error_response msg code = \<lparr>rs_Code = code, rs_Header = [(''Content-Type'', ''text/plain; charset=utf-8''), (''X-Content-Type-Options'', ''nosniff'')],
     rs_Body = (msg @ [CHR 0x0A], io_EOF)\<rparr>"

text \<open>\<open>strings.SplitN(auth, " ", 2)\<close>: without a space there is one part.\<close>

definition split_bearer :: "string \<Rightarrow> (string \<times> string) option" where
  "split_bearer auth = (if CHR '' '' \<in> set auth then Some (takeWhile (\<lambda>c. c \<noteq> CHR '' '') auth, tl (dropWhile (\<lambda>c. c \<noteq> CHR '' '') auth)) else None)"

definition with_identity :: "string \<Rightarrow> string \<Rightarrow> mw_request \<Rightarrow> mw_request" where
  "with_identity userID tenantID r =
     (let r1 = WithValue ContextKeyUserID (GString userID) r in if tenantID \<noteq> [] then WithValue ContextKeyTenant (GString tenantID) r1 else r1)"

type_synonym token_validator = "string \<Rightarrow> (go_error + string \<times> string) go"

definition BearerAuth :: "token_validator \<Rightarrow> 'w middleware" where
  "BearerAuth validator next_handler w r =
     (let auth = values_Get (rq_Header r) ''Authorization'' in
      if auth = [] then Some (w, error_response ''missing authorization header'' 401)
      else (case split_bearer auth of
        None \<Rightarrow> Some (w, error_response ''invalid authorization header format'' 401)
      | Some (scheme, token) \<Rightarrow>
          if scheme \<noteq> ''Bearer'' then Some (w, error_response ''invalid authorization header format'' 401)
          else if token = [] then Some (w, error_response ''empty bearer token'' 401)
          else do {
            v \<leftarrow> validator token;
            (case v of
               Inl _ \<Rightarrow> Some (w, error_response ''invalid token'' 401)
             | Inr (userID, tenantID) \<Rightarrow>
                 next_handler w (with_identity userID tenantID r)) }))"

definition TenantExtractor :: "string \<Rightarrow> 'w middleware" where
  "TenantExtractor headerName next_handler w r =
     (if map_of (rq_Values r) ContextKeyTenant \<notin> {None, Some GNil} then next_handler w r
      else let tenant = values_Get (rq_Header r) headerName
        in next_handler w (if tenant \<noteq> [] then WithValue ContextKeyTenant (GString tenant) r else r))"

definition hex_digit :: "nat \<Rightarrow> char" where
  "hex_digit n = (if n < 10 then char_of (48 + n) else char_of (87 + n))"

definition hex_encode :: "string \<Rightarrow> string" where
  "hex_encode bs = concat (map (\<lambda>c. [hex_digit (byte_of c div 16), hex_digit (byte_of c mod 16)]) bs)"

text \<open>\<open>hmac secret body\<close> is HMAC-SHA256, and \<open>close_err\<close> the error of closing the body. A body is read completely when it ends with \<open>io.EOF\<close>. Closing the new body does nothing.\<close>

definition HMACValidator :: "(string \<Rightarrow> string \<Rightarrow> string) \<Rightarrow> go_error option \<Rightarrow> string \<Rightarrow> string \<Rightarrow> 'w middleware" where
  "HMACValidator hmac close_err secret headerName next_handler w r =
     (let provided = values_Get (rq_Header r) headerName in
      if provided = [] then Some (w, error_response ''missing signature header'' 401)
      else if snd (rq_Body r) \<noteq> io_EOF then Some (w, error_response ''failed to read request body'' 400)
      else if close_err \<noteq> None then Some (w, error_response ''failed to close request body'' 500)
      else let body = fst (rq_Body r) in
        if provided \<noteq> hex_encode (hmac secret body) then Some (w, error_response ''invalid signature'' 401)
        else next_handler w (r\<lparr>rq_Body := (body, io_EOF), rq_Closed := (body, io_EOF)\<rparr>))"

section \<open>Codecs\<close>

record data_codec =
  dk_Kind :: string
  dk_Encode :: "go_any \<Rightarrow> go_error + string"
  dk_Decode :: "string \<Rightarrow> go_error + go_any"

type_synonym data_registry = "(string, data_codec) fmap"

definition NewRegistry :: data_registry where "NewRegistry = fmempty"

definition Register_codec :: "data_registry \<Rightarrow> data_codec \<Rightarrow> data_registry" where
  "Register_codec reg c = fmupd (dk_Kind c) c reg"

definition Get_codec :: "data_registry \<Rightarrow> string \<Rightarrow> data_codec option" where
  "Get_codec reg kind = fmlookup reg kind"

definition Kinds :: "string list \<Rightarrow> data_registry \<Rightarrow> string list" where
  "Kinds order reg = filter (\<lambda>kind. fmlookup reg kind \<noteq> None) order"

record wire_event =
  we_ID :: string
  we_Type :: string
  we_AggregateID :: string
  we_Data :: string
  we_DataKind :: string
  we_Metadata :: metadata

record wire_event_with_version =
  wv_Event :: wire_event
  wv_Version :: string

record codec_encoder =
  en_registry :: data_registry
  en_fallback :: bool

definition NewCodecAwareEncoder :: "data_registry \<Rightarrow> data_registry option \<Rightarrow> bool \<Rightarrow> codec_encoder" where
  "NewCodecAwareEncoder default_registry registry fallback =
     \<lparr>en_registry = (case registry of None \<Rightarrow> default_registry | Some r \<Rightarrow> r), en_fallback = fallback\<rparr>"

definition kind_entry :: "metadata \<Rightarrow> string \<Rightarrow> string option" where
  "kind_entry md key = (case gm_lookup md key of Some (GString k) \<Rightarrow> Some k | _ \<Rightarrow> None)"

definition codec_kind :: "metadata \<Rightarrow> string" where
  "codec_kind md = (case kind_entry md ''kind'' of Some k \<Rightarrow> k
     | None \<Rightarrow> (case kind_entry md ''codec_kind'' of Some k \<Rightarrow> k
     | None \<Rightarrow> (case kind_entry md ''data_kind'' of Some k \<Rightarrow> k | None \<Rightarrow> [])))"

text \<open>\<open>jm\<close> and \<open>ju\<close> are \<open>json.Marshal\<close> and \<open>json.Unmarshal\<close> into a value of interface type.\<close>

definition EncodeEvent :: "(go_any \<Rightarrow> go_error + string) \<Rightarrow> codec_encoder \<Rightarrow> event \<Rightarrow> go_error + wire_event" where
  "EncodeEvent jm e ev =
     (let we = \<lparr>we_ID = EventID ev, we_Type = EventType ev, we_AggregateID = EventAggregateID ev, we_Data = [], we_DataKind = [], we_Metadata = EventMetadata ev\<rparr>;
          data = EventData ev; kind = codec_kind (EventMetadata ev);
          json = (case jm data of Inl err \<Rightarrow> Inl (WrapError ''failed to encode data with JSON fallback: '' err) | Inr t \<Rightarrow> Inr (we\<lparr>we_Data := t\<rparr>))
      in case (if kind \<noteq> [] then Get_codec (en_registry e) kind else None) of
           Some c \<Rightarrow> (case dk_Encode c data of
               Inr t \<Rightarrow> Inr (we\<lparr>we_DataKind := kind, we_Data := t\<rparr>)
             | Inl err \<Rightarrow> if \<not> en_fallback e then Inl (WrapError (''failed to encode data with codec '' @ kind @ '': '') err) else json)
         | None \<Rightarrow> if en_fallback e then json else Inl (ErrorString (''no codec found for kind '' @ kind @ '' and fallback disabled'')))"

definition DecodeEvent :: "(string \<Rightarrow> go_error + go_any) \<Rightarrow> codec_encoder \<Rightarrow> wire_event \<Rightarrow> go_error + event" where
  "DecodeEvent ju e we =
     (let finish = (\<lambda>d. Inr (SimpleEvent \<lparr>je_ID = we_ID we, je_Type = we_Type we, je_AggregateID = we_AggregateID we, je_Data = d, je_Metadata = we_Metadata we\<rparr>));
          json = (\<lambda>msg. case ju (we_Data we) of Inl err \<Rightarrow> Inl (WrapError msg err) | Inr d \<Rightarrow> finish d);
          kind = we_DataKind we
      in if kind = [] then json ''failed to decode data with JSON: ''
         else (case Get_codec (en_registry e) kind of
             Some c \<Rightarrow> (case dk_Decode c (we_Data we) of
                 Inr d \<Rightarrow> finish d
               | Inl err \<Rightarrow> if \<not> en_fallback e then Inl (WrapError (''failed to decode data with codec '' @ kind @ '': '') err)
                   else json ''failed to decode data with JSON fallback: '')
           | None \<Rightarrow> if \<not> en_fallback e then Inl (ErrorString (''codec '' @ kind @ '' not found and fallback disabled''))
               else json ''failed to decode data with JSON fallback: ''))"

text \<open>A nil event and the text of a version that panics make the conversion panic.\<close>

definition EncodeEventWithVersion :: "(go_any \<Rightarrow> go_error + string) \<Rightarrow> codec_encoder \<Rightarrow> event_with_version \<Rightarrow> (go_error + wire_event_with_version) go" where
  "EncodeEventWithVersion jm e ev = do {
     event \<leftarrow> ev_Event ev;
     (case EncodeEvent jm e event of
        Inl err \<Rightarrow> Some (Inl err)
      | Inr we \<Rightarrow> do {
          txt \<leftarrow> (case ev_Version ev of None \<Rightarrow> Some [] | Some v \<Rightarrow> Version_String v);
          Some (Inr \<lparr>wv_Event = we, wv_Version = txt\<rparr>) }) }"

definition DecodeEventWithVersion ::
  "(string \<Rightarrow> go_error + go_any) \<Rightarrow> codec_encoder \<Rightarrow> http_version_parser \<Rightarrow> wire_event_with_version \<Rightarrow> (go_error + event_with_version) go" where
  "DecodeEventWithVersion ju e parser wv = (case DecodeEvent ju e (wv_Event wv) of
       Inl err \<Rightarrow> Some (Inl (WrapError ''failed to decode event: '' err))
     | Inr event \<Rightarrow> do {
         v \<leftarrow> parser (wv_Version wv);
         Some (case v of Inl err \<Rightarrow> Inl (WrapError ''failed to parse version: '' err) | Inr ver \<Rightarrow> Inr \<lparr>ev_Event = Some event, ev_Version = ver\<rparr>) })"

definition toWireEvent :: "(go_any \<Rightarrow> go_error + string) \<Rightarrow> json_event \<Rightarrow> go_error + wire_event" where
  "toWireEvent jm je = (case jm (je_Data je) of
       Inl err \<Rightarrow> Inl (WrapError ''failed to marshal data: '' err)
     | Inr t \<Rightarrow> Inr \<lparr>we_ID = je_ID je, we_Type = je_Type je, we_AggregateID = je_AggregateID je, we_Data = t, we_DataKind = [], we_Metadata = je_Metadata je\<rparr>)"

definition fromWireEvent :: "(string \<Rightarrow> go_error + go_any) \<Rightarrow> wire_event \<Rightarrow> go_error + json_event" where
  "fromWireEvent ju we = (case ju (we_Data we) of
       Inl err \<Rightarrow> Inl (WrapError ''failed to unmarshal data: '' err)
     | Inr d \<Rightarrow> Inr \<lparr>je_ID = we_ID we, je_Type = we_Type we, je_AggregateID = we_AggregateID we, je_Data = d, je_Metadata = we_Metadata we\<rparr>)"

section \<open>Properties of the middleware\<close>

lemma Chain_from_append: "Chain_from h (xs @ ys) = Chain_from (Chain_from h xs) ys"
  by (induction xs arbitrary: h) simp_all

lemma Chain_simps [simp]: "Chain h [] = h" "Chain h (m # ms) = m (Chain h ms)"
  by (simp_all add: Chain_def Chain_from_append)

lemma split_bearer_token: "split_bearer auth = Some (''Bearer'', token) \<longleftrightarrow> auth = ''Bearer '' @ token"
proof
  assume s: "split_bearer auth = Some (''Bearer'', token)"
  then have "CHR '' '' \<in> set auth" by (auto simp: split_bearer_def split: if_splits)
  then obtain ys zs where a: "auth = ys @ CHR '' '' # zs" "CHR '' '' \<notin> set ys" using split_list_first by metis
  then have "takeWhile (\<lambda>c. c \<noteq> CHR '' '') auth = ys" "dropWhile (\<lambda>c. c \<noteq> CHR '' '') auth = CHR '' '' # zs"
    by (auto simp: takeWhile_append dropWhile_append)
  then have "ys = ''Bearer''" "zs = token" using s by (auto simp: split_bearer_def split: if_splits)
  then show "auth = ''Bearer '' @ token" using a(1) by simp
qed (simp add: split_bearer_def)

text \<open>What a request has to carry to pass signature and token.\<close>

definition authentic :: "(string \<Rightarrow> string \<Rightarrow> string) \<Rightarrow> string \<Rightarrow> string \<Rightarrow> token_validator \<Rightarrow> mw_request \<Rightarrow> string \<Rightarrow> string \<Rightarrow> bool" where
  "authentic hmac secret sigHeader v r user tenant \<longleftrightarrow>
     values_Get (rq_Header r) sigHeader = hex_encode (hmac secret (fst (rq_Body r))) \<and> values_Get (rq_Header r) sigHeader \<noteq> [] \<and> snd (rq_Body r) = io_EOF
     \<and> (\<exists>token. token \<noteq> [] \<and> values_Get (rq_Header r) ''Authorization'' = ''Bearer '' @ token \<and> v token = Some (Inr (user, tenant)))"

definition same_message :: "mw_request \<Rightarrow> mw_request \<Rightarrow> bool" where
  "same_message r r' \<longleftrightarrow> rq_Method r' = rq_Method r \<and> rq_Path r' = rq_Path r \<and> rq_Query r' = rq_Query r \<and> rq_Header r' = rq_Header r \<and> rq_Body r' = rq_Body r \<and> rq_ctx r' = rq_ctx r"

lemma BearerAuth_cases:
  assumes "BearerAuth v next_handler w r = Some res"
  shows "(\<exists>token user tenant. token \<noteq> [] \<and> values_Get (rq_Header r) ''Authorization'' = ''Bearer '' @ token \<and> v token = Some (Inr (user, tenant))
      \<and> next_handler w (with_identity user tenant r) = Some res)
    \<or> (\<exists>msg. res = (w, error_response msg 401)) \<and> (\<forall>token user tenant. token \<noteq> [] \<longrightarrow> values_Get (rq_Header r) ''Authorization'' = ''Bearer '' @ token \<longrightarrow> v token \<noteq> Some (Inr (user, tenant)))"
proof (cases "\<exists>token. token \<noteq> [] \<and> values_Get (rq_Header r) ''Authorization'' = ''Bearer '' @ token")
  case True
  then obtain token where t: "token \<noteq> []" "values_Get (rq_Header r) ''Authorization'' = ''Bearer '' @ token" by blast
  have "split_bearer (''Bearer '' @ token) = Some (''Bearer'', token)" by (simp only: split_bearer_token)
  then show ?thesis using assms t by (auto simp: BearerAuth_def Let_def split: Option.bind_splits sum.splits)
next
  case False
  have "split_bearer (values_Get (rq_Header r) ''Authorization'') \<noteq> Some (''Bearer'', token)" if "token \<noteq> []" for token using False that split_bearer_token by blast
  then have "\<exists>msg. res = (w, error_response msg 401)" using assms by (fastforce simp: BearerAuth_def Let_def split: if_splits option.splits prod.splits)
  then show ?thesis using False by blast
qed

text \<open>The request the handler sees once token and tenant header are read.\<close>

definition identified :: "string \<Rightarrow> string \<Rightarrow> string \<Rightarrow> mw_request \<Rightarrow> mw_request" where
  "identified tenantHeader user tenant r =
     (let r1 = with_identity user tenant r; t = values_Get (rq_Header r) tenantHeader in if tenant = [] \<and> t \<noteq> [] then WithValue ContextKeyTenant (GString t) r1 else r1)"

lemma WithValue_sel [simp]:
  "rq_Method (WithValue k v r) = rq_Method r" "rq_Path (WithValue k v r) = rq_Path r" "rq_Query (WithValue k v r) = rq_Query r" "rq_Header (WithValue k v r) = rq_Header r"
  "rq_Body (WithValue k v r) = rq_Body r" "rq_ctx (WithValue k v r) = rq_ctx r" "rq_Values (WithValue k v r) = (k, v) # rq_Values r" "request.truncate (WithValue k v r) = request.truncate r"
  by (simp_all add: WithValue_def request.truncate_def)

lemma identified_sel [simp]:
  "rq_Method (identified th u t r) = rq_Method r" "rq_Path (identified th u t r) = rq_Path r" "rq_Query (identified th u t r) = rq_Query r" "rq_Header (identified th u t r) = rq_Header r"
  "rq_Body (identified th u t r) = rq_Body r" "rq_ctx (identified th u t r) = rq_ctx r" "request.truncate (identified th u t r) = request.truncate r"
  by (simp_all add: identified_def with_identity_def Let_def)

lemma TenantExtractor_identified:
  assumes "rq_Values r = []"
  shows "TenantExtractor th h w (with_identity u t r) = h w (identified th u t r)"
  using assms by (simp add: TenantExtractor_def identified_def with_identity_def ContextKeyTenant_def ContextKeyUserID_def Let_def)

lemma identified_context:
  assumes "rq_Values r = []"
  shows "UserIDFromContext (identified th u t r) = (u, True)
    \<and> TenantFromContext (identified th u t r) = (if t \<noteq> [] then (t, True) else (values_Get (rq_Header r) th, values_Get (rq_Header r) th \<noteq> []))"
  using assms by (simp add: identified_def with_identity_def UserIDFromContext_def TenantFromContext_def string_value_def ContextKeyTenant_def ContextKeyUserID_def Let_def)

text \<open>
  C23: behind the chain of signature, token and tenant middleware the handler sees authentic requests only. A request whose body has the signature of its header under the secret, and whose token
  the validator accepts, reaches the handler with its method, path, query, headers and complete body unchanged, the user of the token, and as tenant that of the token or, when the token has none, that of
  the tenant header. Every other request is refused with 400, 401 or 500 and the handler is not called: its world is unchanged.
\<close>

theorem secured_chain:
  assumes "Chain h [HMACValidator hmac None secret sigHeader, BearerAuth v, TenantExtractor tenantHeader] w r = Some (w', resp)" and "rq_Values r = []"
  shows "if \<exists>user tenant. authentic hmac secret sigHeader v r user tenant
    then \<exists>user tenant r'. authentic hmac secret sigHeader v r user tenant \<and> same_message r r' \<and> h w r' = Some (w', resp) \<and> UserIDFromContext r' = (user, True)
      \<and> TenantFromContext r' = (if tenant \<noteq> [] then (tenant, True) else (values_Get (rq_Header r) tenantHeader, values_Get (rq_Header r) tenantHeader \<noteq> []))
    else w' = w \<and> rs_Code resp \<in> {400, 401, 500}"
proof -
  define r1 where "r1 = r\<lparr>rq_Body := (fst (rq_Body r), io_EOF), rq_Closed := (fst (rq_Body r), io_EOF)\<rparr>"
  have hdr: "rq_Header r1 = rq_Header r" by (simp add: r1_def)
  let ?signed = "values_Get (rq_Header r) sigHeader = hex_encode (hmac secret (fst (rq_Body r))) \<and> values_Get (rq_Header r) sigHeader \<noteq> [] \<and> snd (rq_Body r) = io_EOF"
  show ?thesis
  proof (cases ?signed)
    case False
    then show ?thesis using assms(1) by (auto simp: HMACValidator_def Let_def authentic_def error_response_def split: if_splits)
  next
    case True
    then have s: "values_Get (rq_Header r) sigHeader = hex_encode (hmac secret (fst (rq_Body r)))" "hex_encode (hmac secret (fst (rq_Body r))) \<noteq> []" "snd (rq_Body r) = io_EOF" by auto
    have run: "BearerAuth v (TenantExtractor tenantHeader h) w r1 = Some (w', resp)" using assms(1) s by (auto simp: HMACValidator_def Let_def r1_def)
    from BearerAuth_cases [OF run] show ?thesis
    proof
      assume "\<exists>token user tenant. token \<noteq> [] \<and> values_Get (rq_Header r1) ''Authorization'' = ''Bearer '' @ token \<and> v token = Some (Inr (user, tenant))
        \<and> TenantExtractor tenantHeader h w (with_identity user tenant r1) = Some (w', resp)"
      then obtain token user tenant where t: "token \<noteq> []" "values_Get (rq_Header r) ''Authorization'' = ''Bearer '' @ token" "v token = Some (Inr (user, tenant))"
        and ext: "TenantExtractor tenantHeader h w (with_identity user tenant r1) = Some (w', resp)" unfolding hdr by blast
      have auth: "authentic hmac secret sigHeader v r user tenant" using True t by (auto simp: authentic_def)
      let ?r' = "identified tenantHeader user tenant r1"
      have "h w ?r' = Some (w', resp)" using ext assms(2) by (simp add: TenantExtractor_identified r1_def)
      moreover have "same_message r ?r'" using True by (auto simp: same_message_def r1_def prod_eq_iff)
      moreover have "UserIDFromContext ?r' = (user, True)
        \<and> TenantFromContext ?r' = (if tenant \<noteq> [] then (tenant, True) else (values_Get (rq_Header r) tenantHeader, values_Get (rq_Header r) tenantHeader \<noteq> []))"
        using identified_context [of r1 tenantHeader user tenant] assms(2) by (simp add: r1_def)
      ultimately have "\<exists>user tenant r'. authentic hmac secret sigHeader v r user tenant \<and> same_message r r' \<and> h w r' = Some (w', resp) \<and> UserIDFromContext r' = (user, True)
        \<and> TenantFromContext r' = (if tenant \<noteq> [] then (tenant, True) else (values_Get (rq_Header r) tenantHeader, values_Get (rq_Header r) tenantHeader \<noteq> []))"
        using auth by blast
      moreover have "\<exists>user tenant. authentic hmac secret sigHeader v r user tenant" using auth by blast
      ultimately show ?thesis by (simp only: if_True)
    next
      assume "(\<exists>msg. (w', resp) = (w, error_response msg 401)) \<and> (\<forall>token user tenant. token \<noteq> [] \<longrightarrow> values_Get (rq_Header r1) ''Authorization'' = ''Bearer '' @ token \<longrightarrow> v token \<noteq> Some (Inr (user, tenant)))"
      then show ?thesis unfolding hdr by (auto simp: authentic_def error_response_def)
    qed
  qed
qed

text \<open>The sync handler behind the middleware: its hooks aside, what it answers.\<close>

definition sync_endpoint :: "'s handler_config \<Rightarrow> int \<Rightarrow> int \<Rightarrow> string list \<Rightarrow> 's sync_handler handler" where
  "sync_endpoint cfg checked now order h r = map_option (\<lambda>(h', resp, hooks). (h', resp)) (ServeHTTP cfg checked now order h (request.truncate r))"

text \<open>The sync handler takes the tenant from header and query only: what the token says changes nothing of its answers.\<close>

lemma token_tenant_ignored:
  assumes "token \<noteq> []" and "values_Get (rq_Header r) ''Authorization'' = ''Bearer '' @ token" and "v token = Some (Inr (user, tenant))" and "rq_Values r = []"
  shows "Chain (sync_endpoint cfg checked now order) [BearerAuth v, TenantExtractor th] h r = sync_endpoint cfg checked now order h r"
proof -
  have "split_bearer (''Bearer '' @ token) = Some (''Bearer'', token)" by (simp only: split_bearer_token)
  then show ?thesis using assms by (simp add: BearerAuth_def TenantExtractor_identified sync_endpoint_def)
qed

section \<open>Properties of the codecs\<close>

lemma Get_Register [simp]: "Get_codec (Register_codec reg c) k = (if k = dk_Kind c then Some c else Get_codec reg k)"
  by (simp add: Get_codec_def Register_codec_def)

text \<open>A codec, or JSON, brings back the data it encoded.\<close>

definition returns :: "('a \<Rightarrow> go_error + string) \<Rightarrow> (string \<Rightarrow> go_error + 'a) \<Rightarrow> 'a \<Rightarrow> bool" where
  "returns enc dec d = (case enc d of Inl _ \<Rightarrow> True | Inr t \<Rightarrow> dec t = Inr d)"


section \<open>Witnesses\<close>

definition toy_hmac :: "string \<Rightarrow> string \<Rightarrow> string" where "toy_hmac secret body = secret @ body"

definition toy_validator :: token_validator where
  "toy_validator token = Some (if token = ''t1'' then Inr (''ann'', ''acme'') else Inl (ErrorString ''unknown token''))"

definition signed_request :: mw_request where
  "signed_request = \<lparr>rq_Method = ''GET'', rq_Path = ''/sync/pull'', rq_Query = [],
     rq_Header = [(''Authorization'', ''Bearer t1''), (''X-Signature'', ''6b61'')], rq_ContentLength = 1, rq_Body = (''a'', io_EOF), rq_Closed = (''a'', io_EOF), rq_ctx = None, rq_Values = []\<rparr>"

definition counting :: "nat handler" where
  "counting w r = Some (w + 1, error_response (fst (TenantFromContext r)) 200)"

lemma toy_signature [simp]: "hex_encode (toy_hmac ''k'' ''a'') = ''6b61''"
  by code_simp

lemma signed_request_authentic: "authentic toy_hmac ''k'' ''X-Signature'' toy_validator signed_request ''ann'' ''acme''"
  by (simp add: authentic_def signed_request_def toy_validator_def values_Get_def)

theorem secured_chain_witness:
  "Chain counting [HMACValidator toy_hmac None ''k'' ''X-Signature'', BearerAuth toy_validator, TenantExtractor ''X-Tenant''] 0 signed_request = Some (1, error_response ''acme'' 200)
   \<and> (\<exists>user tenant r'. authentic toy_hmac ''k'' ''X-Signature'' toy_validator signed_request user tenant \<and> counting 0 r' = Some (1, error_response ''acme'' 200) \<and> UserIDFromContext r' = (user, True))"
proof -
  have run: "Chain counting [HMACValidator toy_hmac None ''k'' ''X-Signature'', BearerAuth toy_validator, TenantExtractor ''X-Tenant''] 0 signed_request = Some (1, error_response ''acme'' 200)"
    by (simp add: HMACValidator_def BearerAuth_def split_bearer_def TenantExtractor_identified counting_def signed_request_def toy_validator_def values_Get_def identified_context Let_def)
  have "rq_Values signed_request = []" by (simp add: signed_request_def)
  note secured_chain [OF run this]
  then show ?thesis using run signed_request_authentic by (auto split: if_splits)
qed

definition word_codec :: data_codec where
  "word_codec = \<lparr>dk_Kind = ''word'', dk_Encode = (\<lambda>d. case d of GString s \<Rightarrow> Inr (CHR ''w'' # s) | _ \<Rightarrow> Inl (ErrorString ''not a word'')),
     dk_Decode = (\<lambda>t. case t of [] \<Rightarrow> Inl (ErrorString ''empty'') | c # s \<Rightarrow> Inr (GString s))\<rparr>"

definition word_event :: event where
  "word_event = SimpleEvent \<lparr>je_ID = ''e1'', je_Type = ''said'', je_AggregateID = ''doc'', je_Data = GString ''hi'', je_Metadata = Some (fmupd ''kind'' (GString ''word'') fmempty)\<rparr>"

definition word_peer :: "bool \<Rightarrow> codec_encoder" where
  "word_peer fallback = NewCodecAwareEncoder NewRegistry (Some (Register_codec NewRegistry word_codec)) fallback"

definition no_json :: "'a \<Rightarrow> go_error + 'b" where "no_json x = Inl (ErrorString ''unsupported'')"

lemma word_event_kind: "codec_kind (EventMetadata word_event) = ''word''" "EventData word_event = GString ''hi''"
  by (simp_all add: codec_kind_def kind_entry_def word_event_def SimpleEvent_def gm_lookup_def gm_fmap_def)

lemma word_peer_codec: "Get_codec (en_registry (word_peer b)) ''word'' = Some word_codec"
  by (simp add: word_peer_def NewCodecAwareEncoder_def word_codec_def)


end
