(* ===== verification/Rabbitmq_Properties.thy ===== *)
theory Rabbitmq_Properties
  imports Rabbitmq
begin

text \<open>
  What the RabbitMQ transport does with messages. The locale \<open>amqp_broker\<close> has what the broker promises in every interleaving: only an acknowledgement, or a rejection without requeueing, takes a
  message out of the queue. The locale \<open>amqp_queue\<close> adds the order of deliveries to one consumer. Both describe one queue that is neither exclusive nor deleted
  automatically, as the default configuration declares it, and are interpreted on a broker with such a queue.

  Shown: no message is lost in any interleaving of calls, consumers, lost connections and closing; pushed events reach the handler of a consumer in order; and lemmas on repeated
  publication, endless redelivery, and connections that stay open.
\<close>

section \<open>What a broker promises\<close>

definition content :: "delivery \<Rightarrow> string \<times> string" where
  "content m = (dl_MessageId m, dl_Body m)"

text \<open>\<open>held b\<close>: the messages of the queue, with those that are delivered but not answered yet.\<close>

locale amqp_broker =
  fixes ops :: "'b amqp_ops" and moves :: "'b \<Rightarrow> 'b \<Rightarrow> bool" and held :: "'b \<Rightarrow> (string \<times> string) multiset"
  assumes dial: "held b \<subseteq># held (fst (am_Dial ops b url))"
    and channel: "held b \<subseteq># held (fst (am_Channel ops b conn))"
    and close_connection: "held b \<subseteq># held (am_CloseConnection ops b conn)"
    and close_channel: "held b \<subseteq># held (am_CloseChannel ops b ch)"
    and exchange_declare: "held b \<subseteq># held (fst (am_ExchangeDeclare ops b ch name kind))"
    and queue_declare: "held b \<subseteq># held (fst (am_QueueDeclare ops b ch name durable auto_delete exclusive))"
    and queue_bind: "held b \<subseteq># held (fst (am_QueueBind ops b ch name key exchange))"
    and qos: "held b \<subseteq># held (fst (am_Qos ops b ch n))"
    and confirm: "held b \<subseteq># held (fst (am_Confirm ops b ch))"
    and publish: "held b \<subseteq># held (fst (am_Publish ops b ch ctx exchange key p))"
    and consume: "held b \<subseteq># held (fst (am_Consume ops b ch name tag))"
    and cancel: "held b \<subseteq># held (am_Cancel ops b ch tag)"
    and receive: "am_Receive ops b d = Some (b', r) \<Longrightarrow> held b \<subseteq># held b'"
    and ack: "held b \<subseteq># add_mset (content m) (held (am_Ack ops b m))"
    and nack: "held b \<subseteq># add_mset (content m) (held (am_Nack ops b m False))"
    and requeue: "held b \<subseteq># held (am_Nack ops b m True)"
    and moves: "moves b b' \<Longrightarrow> held b \<subseteq># held b'"

locale amqp_queue = amqp_broker ops moves held
  for ops :: "'b amqp_ops" and moves :: "'b \<Rightarrow> 'b \<Rightarrow> bool" and held :: "'b \<Rightarrow> (string \<times> string) multiset" +
  fixes ready :: "'b \<Rightarrow> (string \<times> string) list" and routed :: "'b \<Rightarrow> string \<Rightarrow> string \<Rightarrow> bool" and attached :: "'b \<Rightarrow> nat \<Rightarrow> bool"
  assumes published: "am_Publish ops b ch ctx exchange key p = (b', None) \<Longrightarrow>
      ready b' = ready b @ (if routed b exchange key then [(pb_MessageId p, pb_Body p)] else []) \<and> routed b' = routed b \<and> attached b' = attached b"
    and received: "attached b d \<Longrightarrow> ready b = x # xs \<Longrightarrow> \<exists>b' m. am_Receive ops b d = Some (b', Some m) \<and> content m = x \<and> ready b' = xs \<and> attached b' d"
    and acked: "ready (am_Ack ops b m) = ready b" "attached (am_Ack ops b m) = attached b"

section \<open>No message is lost\<close>

definition final :: "verdict \<Rightarrow> bool" where
  "final v = (case v of HandlerFailed _ \<Rightarrow> False | _ \<Rightarrow> True)"

definition finals :: "(delivery \<times> verdict) list \<Rightarrow> (string \<times> string) multiset" where
  "finals vs = mset (map (content \<circ> fst) (filter (final \<circ> snd) vs))"

fun pending_answer :: "consumer_pc \<Rightarrow> (string \<times> string) multiset" where
  "pending_answer (Answering d m v) = (if final v then {#content m#} else {#})"
| "pending_answer _ = {#}"

definition answering :: "consumer_pc list \<Rightarrow> (string \<times> string) multiset" where
  "answering cs = sum_list (map pending_answer cs)"

lemma finals_simps [simp]: "finals [] = {#}" "finals (xs @ ys) = finals xs + finals ys" "finals [(m, v)] = (if final v then {#content m#} else {#})"
  by (simp_all add: finals_def)

lemma answering_simps [simp]: "answering (xs @ ys) = answering xs + answering ys" "answering [c] = pending_answer c"
  by (simp_all add: answering_def)

lemma answering_update:
  assumes "i < length cs"
  shows "answering (cs[i := c]) + pending_answer (cs ! i) = answering cs + pending_answer c"
  using assms unfolding answering_def by (simp add: id_take_nth_drop [of i cs, symmetric] upd_conv_take_nth_drop)
    (subst (2) id_take_nth_drop [OF assms], simp add: ac_simps)

context amqp_broker
begin

lemma and_then_keeps:
  assumes "held b \<subseteq># held (fst r)" and "\<And>b. held b \<subseteq># held (fst (f b))"
  shows "held b \<subseteq># held (fst (and_then msg r f))"
  using assms by (cases r; cases "snd r") (auto intro: subset_mset.trans)

lemma continue_keeps:
  assumes "held b \<subseteq># held (fst r)" and "\<And>b. held b \<subseteq># held (fst (f b))"
  shows "held b \<subseteq># held (fst (continue r f))"
  using assms by (cases r; cases "snd r") (auto intro: subset_mset.trans)

lemma bind_keys_keeps: "held b \<subseteq># held (fst (bind_keys ops cfg ch keys b))"
  by (induction keys arbitrary: b) (auto intro: and_then_keeps queue_bind)

lemma setupTopology_keeps: "held b \<subseteq># held (fst (setupTopology ops cfg ch b))"
  unfolding setupTopology_def setupQueue_def setupQos_def setupConfirm_def
  by (auto intro!: and_then_keeps continue_keeps exchange_declare queue_declare bind_keys_keeps qos confirm)

lemma Connect_keeps:
  assumes "Connect_rmq ops elapsed t b = Some (t', b', ms, err)"
  shows "held b \<subseteq># held b'"
proof -
  have closing: "held b \<subseteq># held (am_CloseConnection ops (am_CloseChannel ops b ch) conn)" for b ch conn by (rule subset_mset.trans [OF close_channel close_connection])
  have topo: "held b \<subseteq># held b2" if "setupTopology ops cfg ch b = (b2, e)" for b b2 cfg ch e using setupTopology_keeps [of b cfg ch] that by simp
  have di: "held b \<subseteq># held b2" if "am_Dial ops b u = (b2, e)" for b b2 u e using dial [of b u] that by simp
  have chan: "held b \<subseteq># held b2" if "am_Channel ops b u = (b2, e)" for b b2 u e using channel [of b u] that by simp
  show ?thesis using assms
    by (auto simp: Connect_rmq_def Let_def split: Option.bind_splits if_splits prod.splits sum.splits option.splits
        dest!: topo di chan intro: subset_mset.trans close_connection subset_mset.trans [OF _ subset_mset.trans [OF _ subset_mset.trans [OF _ closing]]])
qed

lemma push_loop_keeps: "push_loop jm ops cfg ch ctx clock n evs b = Some (b', err) \<Longrightarrow> held b \<subseteq># held b'"
proof (induction evs arbitrary: n b)
  case (Cons ev evs)
  from Cons.prems show ?case
    by (auto split: Option.bind_splits sum.splits prod.splits option.splits) (metis Cons.IH fst_conv publish subset_mset.trans)+
qed simp

lemma Push_keeps: "Push_rmq jm ops ctx clock elapsed t evs b = Some (t', b', ms, err) \<Longrightarrow> held b \<subseteq># held b'"
  by (auto simp: Push_rmq_def split: Option.bind_splits option.splits prod.splits if_splits dest: push_loop_keeps)

lemma Subscribe_keeps:
  assumes "Subscribe_rmq ops unix elapsed t b = Some (t', b', ms, r)"
  shows "held b \<subseteq># held b'"
proof -
  have "held b \<subseteq># held b2" if "am_Consume ops b ch q tag = (b2, e)" for b2 ch q tag e using consume [of b ch q tag] that by simp
  then show ?thesis using assms by (auto simp: Subscribe_rmq_def Let_def split: Option.bind_splits option.splits if_splits prod.splits sum.splits)
qed

lemma Close_keeps: "Close_rmq ops t b = Some (t', b') \<Longrightarrow> held b \<subseteq># held b'"
  by (auto simp: Close_rmq_def Let_def split: if_splits option.splits Option.bind_splits)
    (metis cancel close_channel close_connection subset_mset.trans)+

lemma settle_keeps: "held b \<subseteq># held (settle ops v m b) + (if final v then {#content m#} else {#})"
  using ack [of b m] nack [of b m] requeue [of b m] by (cases v) (simp_all add: settle_def final_def)

lemma step_conserves:
  assumes "rmq_step ops moves jm ju handler s s'"
  shows "\<exists>new. ry_verdicts s' = ry_verdicts s @ new \<and> held (ry_broker s) + answering (ry_consumers s') \<subseteq># held (ry_broker s') + finals new + answering (ry_consumers s)"
  using assms
proof cases
  case (take_message i d b msg h v)
  then show ?thesis using answering_update [of i "ry_consumers s" "Answering d msg v"] receive [of "ry_broker s" d b "Some msg"]
    by (intro exI [of _ "[(msg, v)]"]) (auto simp: ac_simps)
next
  case (answer i d msg v)
  have "answering (ry_consumers s) = (if final v then {#content msg#} else {#}) + answering (ry_consumers s')"
    using answer answering_update [of i "ry_consumers s" "Waiting d"] by (simp add: ac_simps)
  moreover have "held (ry_broker s) + answering (ry_consumers s') \<subseteq># held (ry_broker s') + (if final v then {#content msg#} else {#}) + answering (ry_consumers s')"
    using settle_keeps [of "ry_broker s" v msg] answer by (intro subset_mset.add_right_mono) simp
  ultimately show ?thesis using answer by (intro exI [of _ "[]"]) (simp add: ac_simps)
next
  case (deliveries_end i d b)
  then show ?thesis using answering_update [of i "ry_consumers s" Stopped] receive [of "ry_broker s" d b None] by (intro exI [of _ "[]"]) simp
next
  case (closed_seen i d)
  then show ?thesis using answering_update [of i "ry_consumers s" Stopped] by (intro exI [of _ "[]"]) simp
next
  case (cancelled i d)
  then show ?thesis using answering_update [of i "ry_consumers s" Stopped] by (intro exI [of _ "[]"]) simp
qed (auto dest: Connect_keeps Push_keeps Subscribe_keeps Close_keeps moves)

lemma run_conserves:
  assumes "(rmq_step ops moves jm ju handler)\<^sup>*\<^sup>* s s'"
  shows "\<exists>new. ry_verdicts s' = ry_verdicts s @ new \<and> held (ry_broker s) + answering (ry_consumers s') \<subseteq># held (ry_broker s') + finals new + answering (ry_consumers s)"
  using assms
proof (induction rule: rtranclp_induct)
  case base
  show ?case by (intro exI [of _ "[]"]) simp
next
  case (step s1 s2)
  obtain new where a: "ry_verdicts s1 = ry_verdicts s @ new" "held (ry_broker s) + answering (ry_consumers s1) \<subseteq># held (ry_broker s1) + finals new + answering (ry_consumers s)"
    using step.IH by blast
  obtain new' where b: "ry_verdicts s2 = ry_verdicts s1 @ new'" "held (ry_broker s1) + answering (ry_consumers s2) \<subseteq># held (ry_broker s2) + finals new' + answering (ry_consumers s1)"
    using step_conserves [OF step.hyps(2)] by blast
  from subset_mset.add_mono [OF a(2) b(2)]
  have "held (ry_broker s) + answering (ry_consumers s2) \<subseteq># held (ry_broker s2) + finals (new @ new') + answering (ry_consumers s)"
    by (simp add: ac_simps mset_subset_eq_mono_add_right_cancel)
  then show ?case using a(1) b(1) by (intro exI [of _ "new @ new'"]) simp
qed

end

section \<open>From a push to a handler\<close>

definition transmits :: "(json_event_with_version \<Rightarrow> go_error + string) \<Rightarrow> event_with_version \<Rightarrow> string \<times> string \<Rightarrow> bool" where
  "transmits jm ev x \<longleftrightarrow> (\<exists>je e. toJSONEventWithVersion ev = Some je \<and> ev_Event ev = Some e \<and> fst x = EventID e \<and> jm je = Inr (snd x))"

text \<open>The event a handler gets: its id, type, aggregate, data and metadata, and the text of its version.\<close>

definition arrives :: "event_with_version \<Rightarrow> received_event \<Rightarrow> bool" where
  "arrives ev r \<longleftrightarrow> (\<exists>je. toJSONEventWithVersion ev = Some je \<and> r = \<lparr>re_Event = SimpleEvent (jv_Event je), re_Version = jv_Version je\<rparr>)"

definition json_returns :: "(json_event_with_version \<Rightarrow> go_error + string) \<Rightarrow> (string \<Rightarrow> go_error + json_event_with_version) \<Rightarrow> event_with_version \<Rightarrow> bool" where
  "json_returns jm ju ev \<longleftrightarrow> (\<forall>je body. toJSONEventWithVersion ev = Some je \<longrightarrow> jm je = Inr body \<longrightarrow> ju body = Inr je)"

context amqp_queue
begin

lemma push_loop_ready:
  assumes "push_loop jm ops cfg ch ctx clock n evs b = Some (b', None)" and "\<And>key. routed b (cf_Exchange cfg) key"
  shows "\<exists>msgs. list_all2 (transmits jm) evs msgs \<and> ready b' = ready b @ msgs \<and> attached b' = attached b"
  using assms
proof (induction evs arbitrary: n b)
  case (Cons ev evs)
  obtain je e body key b1 where j: "toJSONEventWithVersion ev = Some je" "ev_Event ev = Some e" "jm je = Inr body"
    and p: "am_Publish ops b ch (ctx n) (cf_Exchange cfg) key (publication cfg (clock n) e body) = (b1, None)" "push_loop jm ops cfg ch ctx clock (Suc n) evs b1 = Some (b', None)"
    using Cons.prems(1) by (auto split: Option.bind_splits sum.splits prod.splits option.splits)
  have s: "ready b1 = ready b @ [(EventID e, body)]" "routed b1 = routed b" "attached b1 = attached b"
    using published [OF p(1)] Cons.prems(2) by (simp_all add: publication_def)
  have "\<And>key. routed b1 (cf_Exchange cfg) key" using Cons.prems(2) s(2) by simp
  from Cons.IH [OF p(2) this] obtain msgs where m: "list_all2 (transmits jm) evs msgs" "ready b' = ready b1 @ msgs" "attached b' = attached b1" by blast
  have "transmits jm ev (EventID e, body)" using j by (simp add: transmits_def)
  then show ?case using m s by (intro exI [of _ "(EventID e, body) # msgs"]) simp
qed simp

lemma consume_loop_ready:
  assumes "list_all2 (transmits jm) evs msgs" and "ready b = msgs @ rest" and "attached b d" and "\<And>ev. ev \<in> set evs \<Longrightarrow> json_returns jm ju ev"
    and "\<And>h xs. handler h xs = Some (f h xs, None)"
  shows "\<exists>rs b'. list_all2 arrives evs rs \<and> consume_loop ops ju cfg handler d (length evs) (h, b) = Some (foldl (\<lambda>h r. f h [r]) h rs, b') \<and> ready b' = rest"
  using assms(1-4)
proof (induction evs arbitrary: msgs h b)
  case (Cons ev evs)
  obtain x xs where x: "msgs = x # xs" "transmits jm ev x" "list_all2 (transmits jm) evs xs" using Cons.prems(1) by (auto simp: list_all2_Cons1)
  obtain b1 m where r: "am_Receive ops b d = Some (b1, Some m)" "content m = x" "ready b1 = xs @ rest" "attached b1 d"
    using received [OF Cons.prems(3), of x "xs @ rest"] Cons.prems(2) x(1) by auto
  obtain je where je: "toJSONEventWithVersion ev = Some je" "jm je = Inr (dl_Body m)" using x(2) r(2) by (auto simp: transmits_def content_def)
  then have "ju (dl_Body m) = Inr je" using Cons.prems(4) by (auto simp: json_returns_def)
  then have pm: "processMessage ops ju cfg 0 handler m (h, b1) = Some ((f h [\<lparr>re_Event = SimpleEvent (jv_Event je), re_Version = jv_Version je\<rparr>], am_Ack ops b1 m), process_metrics cfg 0 Handled)"
    by (simp add: processMessage_def judge_def rmq_fromJSONEventWithVersion_def settle_def assms(5))
  let ?r = "\<lparr>re_Event = SimpleEvent (jv_Event je), re_Version = jv_Version je\<rparr>"
  have "ready (am_Ack ops b1 m) = xs @ rest" "attached (am_Ack ops b1 m) d" using acked r by simp_all
  from Cons.IH [OF x(3) this, of "f h [?r]"] Cons.prems(4)
  obtain rs b' where rs: "list_all2 arrives evs rs" "consume_loop ops ju cfg handler d (length evs) (f h [?r], am_Ack ops b1 m) = Some (foldl (\<lambda>h r. f h [r]) (f h [?r]) rs, b')" "ready b' = rest"
    by auto
  have "arrives ev ?r" using je by (simp add: arrives_def)
  then show ?case using rs r pm by (intro exI [of _ "?r # rs"] exI [of _ b']) simp
qed simp

end



section \<open>A broker\<close>

text \<open>
  A broker with one queue, to which every exchange routes every key. A reader is a delivery channel with its AMQP channel and consumer tag; closing an AMQP channel puts what it has delivered without an
  answer back to the front.
\<close>

record queue_broker =
  qb_next :: nat
  qb_conns :: "nat list"
  qb_channels :: "(nat \<times> nat) list"
  qb_readers :: "(nat \<times> nat \<times> string) list"
  qb_ready :: "(string \<times> string) list"
  qb_unacked :: "(nat \<times> nat \<times> string \<times> string) list"

definition empty_broker :: queue_broker where
  "empty_broker = \<lparr>qb_next = 0, qb_conns = [], qb_channels = [], qb_readers = [], qb_ready = [], qb_unacked = []\<rparr>"

definition ErrClosed_amqp :: go_error where "ErrClosed_amqp = ErrorString ''Exception (504) Reason: channel/connection is not open''"

definition on_channel :: "queue_broker \<Rightarrow> nat \<Rightarrow> queue_broker \<times> go_error option" where
  "on_channel b ch = (b, if ch \<in> fst ` set (qb_channels b) then None else Some ErrClosed_amqp)"

definition qb_CloseChannel :: "queue_broker \<Rightarrow> nat \<Rightarrow> queue_broker" where
  "qb_CloseChannel b ch = b\<lparr>qb_channels := filter (\<lambda>x. fst x \<noteq> ch) (qb_channels b), qb_readers := filter (\<lambda>x. fst (snd x) \<noteq> ch) (qb_readers b),
     qb_ready := map (snd \<circ> snd) (filter (\<lambda>x. fst x = ch) (qb_unacked b)) @ qb_ready b, qb_unacked := filter (\<lambda>x. fst x \<noteq> ch) (qb_unacked b)\<rparr>"

definition qb_CloseConnection :: "queue_broker \<Rightarrow> nat \<Rightarrow> queue_broker" where
  "qb_CloseConnection b conn =
     (foldl qb_CloseChannel b (map fst (filter (\<lambda>x. snd x = conn) (qb_channels b))))\<lparr>qb_conns := removeAll conn (qb_conns b)\<rparr>"

definition qb_Ack :: "queue_broker \<Rightarrow> delivery \<Rightarrow> queue_broker" where
  "qb_Ack b m = b\<lparr>qb_unacked := remove1 (dl_Channel m, dl_Tag m, content m) (qb_unacked b)\<rparr>"

definition qb_Receive :: "queue_broker \<Rightarrow> nat \<Rightarrow> (queue_broker \<times> delivery option) option" where
  "qb_Receive b d = (case map_of (qb_readers b) d of
       None \<Rightarrow> Some (b, None)
     | Some (ch, tag) \<Rightarrow> (case qb_ready b of
         [] \<Rightarrow> None
       | x # xs \<Rightarrow> Some (b\<lparr>qb_next := qb_next b + 1, qb_ready := xs, qb_unacked := (ch, qb_next b, x) # qb_unacked b\<rparr>,
           Some \<lparr>dl_Channel = ch, dl_Tag = qb_next b, dl_MessageId = fst x, dl_Body = snd x\<rparr>)))"

definition queue_ops :: "queue_broker amqp_ops" where
  "queue_ops = \<lparr>am_Dial = (\<lambda>b url. (b\<lparr>qb_next := qb_next b + 1, qb_conns := qb_next b # qb_conns b\<rparr>, Inr (qb_next b))),
     am_Channel = (\<lambda>b conn. if conn \<in> set (qb_conns b) then (b\<lparr>qb_next := qb_next b + 1, qb_channels := (qb_next b, conn) # qb_channels b\<rparr>, Inr (qb_next b)) else (b, Inl ErrClosed_amqp)),
     am_CloseConnection = qb_CloseConnection, am_CloseChannel = qb_CloseChannel,
     am_ExchangeDeclare = (\<lambda>b ch name kind. on_channel b ch), am_QueueDeclare = (\<lambda>b ch name durable auto_delete exclusive. on_channel b ch),
     am_QueueBind = (\<lambda>b ch name key exchange. on_channel b ch), am_Qos = (\<lambda>b ch n. on_channel b ch), am_Confirm = on_channel,
     am_Publish = (\<lambda>b ch ctx exchange key p. if ch \<in> fst ` set (qb_channels b) then (b\<lparr>qb_ready := qb_ready b @ [(pb_MessageId p, pb_Body p)]\<rparr>, None) else (b, Some ErrClosed_amqp)),
     am_Consume = (\<lambda>b ch name tag. if ch \<notin> fst ` set (qb_channels b) then (b, Inl ErrClosed_amqp)
        else if (ch, tag) \<in> snd ` set (qb_readers b) then (qb_CloseChannel b ch, Inl (ErrorString ''Exception (530) Reason: attempt to reuse consumer tag''))
        else (b\<lparr>qb_next := qb_next b + 1, qb_readers := (qb_next b, ch, tag) # qb_readers b\<rparr>, Inr (qb_next b))),
     am_Cancel = (\<lambda>b ch tag. b\<lparr>qb_readers := filter (\<lambda>x. snd x \<noteq> (ch, tag)) (qb_readers b)\<rparr>),
     am_Receive = qb_Receive, am_Ack = qb_Ack,
     am_Nack = (\<lambda>b m rq. if rq then (if (dl_Channel m, dl_Tag m, content m) \<in> set (qb_unacked b) then (qb_Ack b m)\<lparr>qb_ready := content m # qb_ready b\<rparr> else b) else qb_Ack b m)\<rparr>"

definition queue_held :: "queue_broker \<Rightarrow> (string \<times> string) multiset" where
  "queue_held b = mset (qb_ready b) + mset (map (snd \<circ> snd) (qb_unacked b))"

text \<open>Others publish to the queue, and connections break.\<close>

definition queue_moves :: "queue_broker \<Rightarrow> queue_broker \<Rightarrow> bool" where
  "queue_moves b b' \<longleftrightarrow> (\<exists>x. b' = b\<lparr>qb_ready := qb_ready b @ [x]\<rparr>) \<or> (\<exists>conn. b' = qb_CloseConnection b conn)"

lemma CloseChannel_held: "queue_held (qb_CloseChannel b ch) = queue_held b"
proof -
  have "mset (qb_unacked b) = mset (filter (\<lambda>x. fst x = ch) (qb_unacked b)) + mset (filter (\<lambda>x. fst x \<noteq> ch) (qb_unacked b))"
    unfolding mset_filter by (rule multiset_partition)
  from arg_cong [OF this, of "image_mset (snd \<circ> snd)"]
  have "mset (map (snd \<circ> snd) (qb_unacked b))
    = mset (map (snd \<circ> snd) (filter (\<lambda>x. fst x = ch) (qb_unacked b))) + mset (map (snd \<circ> snd) (filter (\<lambda>x. fst x \<noteq> ch) (qb_unacked b)))"
    by (simp only: mset_map image_mset_union)
  then show ?thesis by (simp add: queue_held_def qb_CloseChannel_def del: mset_map mset_filter)
qed

lemma CloseConnection_held: "queue_held (qb_CloseConnection b conn) = queue_held b"
proof -
  have "queue_held (foldl qb_CloseChannel b chs) = queue_held b" for chs by (induction chs arbitrary: b) (simp_all add: CloseChannel_held)
  then show ?thesis by (simp add: qb_CloseConnection_def queue_held_def)
qed

lemma map_remove1_mset: "x \<in> set xs \<Longrightarrow> mset (map f xs) = add_mset (f x) (mset (map f (remove1 x xs)))"
  by (induction xs) auto

lemma Ack_held: "queue_held b = queue_held (qb_Ack b m) + (if (dl_Channel m, dl_Tag m, content m) \<in> set (qb_unacked b) then {#content m#} else {#})"
  using map_remove1_mset [of "(dl_Channel m, dl_Tag m, content m)" "qb_unacked b" "snd \<circ> snd"]
  by (simp add: queue_held_def qb_Ack_def remove1_idem del: mset_map mset_remove1)

lemma requeue_held: "queue_held ((qb_Ack b m)\<lparr>qb_ready := content m # qb_ready b\<rparr>) = add_mset (content m) (queue_held (qb_Ack b m))"
  by (simp add: queue_held_def qb_Ack_def del: mset_map mset_remove1)

interpretation qbr: amqp_queue queue_ops queue_moves queue_held qb_ready "\<lambda>b exchange key. True" "\<lambda>b d. map_of (qb_readers b) d \<noteq> None"
proof
  show "queue_held b \<subseteq># add_mset (content m) (queue_held (am_Ack queue_ops b m))" for b m
    using Ack_held [of b m] by (simp add: queue_ops_def)
  show "queue_held b \<subseteq># add_mset (content m) (queue_held (am_Nack queue_ops b m False))" for b m
    using Ack_held [of b m] by (simp add: queue_ops_def)
  show "queue_held b \<subseteq># queue_held (am_Nack queue_ops b m True)" for b m
    using Ack_held [of b m] by (simp add: queue_ops_def requeue_held)
  show "am_Receive queue_ops b d = Some (b', r) \<Longrightarrow> queue_held b \<subseteq># queue_held b'" for b d b' r
    by (auto simp: queue_ops_def qb_Receive_def queue_held_def split: option.splits list.splits)
  show "queue_moves b b' \<Longrightarrow> queue_held b \<subseteq># queue_held b'" for b b'
    by (auto simp: queue_moves_def CloseConnection_held) (simp add: queue_held_def)
  show "map_of (qb_readers b) d \<noteq> None \<Longrightarrow> qb_ready b = x # xs \<Longrightarrow>
      \<exists>b' m. am_Receive queue_ops b d = Some (b', Some m) \<and> content m = x \<and> qb_ready b' = xs \<and> map_of (qb_readers b') d \<noteq> None" for b d x xs
    by (auto simp: queue_ops_def qb_Receive_def content_def)
qed (auto simp: queue_ops_def on_channel_def CloseChannel_held CloseConnection_held qb_Ack_def split: if_splits, auto simp: queue_held_def)

section \<open>Lifecycle\<close>

text \<open>The channel \<open>closeCh\<close> is closed with the transport, so closing never panics; afterwards every call is refused without touching the broker.\<close>

lemma calls_keep_closeCh:
  "Connect_rmq ops elapsed t b = Some (t', b', ms, err) \<Longrightarrow> rt_closed t' = rt_closed t \<and> rt_closeCh t' = rt_closeCh t \<and> rt_cfg t' = rt_cfg t"
  "Push_rmq jm ops ctx clock elapsed t evs b = Some (t', b', ms, err) \<Longrightarrow> t' = t"
  "Subscribe_rmq ops unix elapsed t b = Some (t', b', ms, r) \<Longrightarrow> rt_closed t' = rt_closed t \<and> rt_closeCh t' = rt_closeCh t \<and> rt_cfg t' = rt_cfg t"
  by (auto simp: Connect_rmq_def Push_rmq_def Subscribe_rmq_def Let_def split: Option.bind_splits if_splits prod.splits sum.splits option.splits)

lemma Close_rmq_outcome:
  assumes "rt_closed t = rt_closeCh t" and "rt_cfg t = Some cfg"
  shows "\<exists>t' b'. Close_rmq ops t b = Some (t', b') \<and> rt_closed t' \<and> rt_closeCh t'"
  using assms by (auto simp: Close_rmq_def Let_def)

lemma steps_keep_closeCh:
  assumes "rmq_step ops moves jm ju handler s s'" and "rt_closed (ry_transport s) = rt_closeCh (ry_transport s)"
  shows "rt_closed (ry_transport s') = rt_closeCh (ry_transport s') \<and> (rt_closed (ry_transport s) \<longrightarrow> rt_closed (ry_transport s'))"
  using assms by cases (auto dest!: calls_keep_closeCh simp: Close_rmq_def Let_def split: if_splits Option.bind_splits)

lemma closed_refuses:
  assumes "rt_closed t" and "rt_cfg t = Some cfg"
  shows "Connect_rmq ops elapsed t b = Some (t, b, recordError cfg ''connect'', Some (ErrorString ''transport is closed''))"
    "Push_rmq jm ops ctx clock elapsed t evs b = Some (t, b, recordError cfg ''push'', Some (ErrorString ''transport not connected''))"
    "Subscribe_rmq ops unix elapsed t b = Some (t, b, recordError cfg ''subscribe'', Inl (ErrorString ''transport not connected''))"
  using assms by (simp_all add: Connect_rmq_def Push_rmq_def Subscribe_rmq_def)

section \<open>Weak points\<close>

text \<open>Events before the one that fails stay published, and the next push of the same list publishes them again.\<close>

lemma push_loop_append:
  "push_loop jm ops cfg ch ctx clock n (xs @ ys) b = do {
     (b', err) \<leftarrow> push_loop jm ops cfg ch ctx clock n xs b;
     (case err of Some e \<Rightarrow> Some (b', Some e) | None \<Rightarrow> push_loop jm ops cfg ch ctx clock (n + length xs) ys b') }"
  by (induction xs arbitrary: n b) (auto split: Option.bind_splits option.splits sum.splits prod.splits)

text \<open>A message whose handler always fails is delivered again and again; neither a limit nor the configured dead letter queue ends it.\<close>

lemma poison_message_redelivered:
  assumes "qb_ready b = [x]" and "qb_unacked b = []" and "map_of (qb_readers b) d = Some (ch, tag)" and "ju (snd x) = Inr je" and "\<And>h xs. handler h xs = Some (h + 1, Some err)"
  shows "\<exists>b'. consume_loop queue_ops ju cfg handler d n (h, b) = Some (h + n, b') \<and> qb_ready b' = [x] \<and> qb_unacked b' = []"
  using assms(1-3)
proof (induction n arbitrary: h b)
  case (Suc n)
  let ?m = "\<lparr>dl_Channel = ch, dl_Tag = qb_next b, dl_MessageId = fst x, dl_Body = snd x\<rparr>"
  let ?b1 = "b\<lparr>qb_next := qb_next b + 1, qb_ready := [], qb_unacked := [(ch, qb_next b, x)]\<rparr>"
  let ?b2 = "?b1\<lparr>qb_ready := [x], qb_unacked := []\<rparr>"
  have recv: "am_Receive queue_ops b d = Some (?b1, Some ?m)" using Suc.prems by (simp add: queue_ops_def qb_Receive_def)
  have "am_Nack queue_ops ?b1 ?m True = ?b2" by (simp add: queue_ops_def qb_Ack_def content_def)
  then have "processMessage queue_ops ju cfg 0 handler ?m (h, ?b1) = Some ((h + 1, ?b2), process_metrics cfg 0 (HandlerFailed err))"
    using assms(4,5) by (simp add: processMessage_def judge_def rmq_fromJSONEventWithVersion_def settle_def)
  moreover obtain b' where "consume_loop queue_ops ju cfg handler d n (h + 1, ?b2) = Some (h + 1 + n, b')" "qb_ready b' = [x]" "qb_unacked b' = []"
    using Suc.IH [of ?b2 "h + 1"] Suc.prems by auto
  ultimately show ?case using recv by simp
qed simp

text \<open>Connecting twice forgets the first connection: closing the transport leaves it open.\<close>

definition plain_config :: rmq_config where
  "plain_config = DefaultConfig_rmq\<lparr>cf_QueueName := ''q'', cf_BindingKeys := [''#'']\<rparr>"

lemmas broker_run_defs = Close_rmq_def Subscribe_rmq_def setupTopology_def setupQueue_def setupQos_def setupConfirm_def plain_config_def DefaultConfig_rmq_def queue_ops_def
  on_channel_def empty_broker_def qb_CloseChannel_def qb_CloseConnection_def Let_def

lemma reconnect_leaks:
  "do { (t, b, ms, err) \<leftarrow> Connect_rmq queue_ops 0 (NewTransport_rmq (Some plain_config)) empty_broker;
        (t, b, ms, err) \<leftarrow> Connect_rmq queue_ops 0 t b;
        (t, b) \<leftarrow> Close_rmq queue_ops t b;
        Some (qb_conns b) } = Some [0]"
  by (simp add: Connect_rmq_def NewTransport_rmq_def broker_run_defs)

text \<open>A second subscription within the same second uses the same tag, and the broker closes the channel of both.\<close>

lemma second_subscription_fails:
  "do { (t, b, ms, err) \<leftarrow> Connect_rmq queue_ops 0 (NewTransport_rmq (Some plain_config)) empty_broker;
        (t, b, ms, r1) \<leftarrow> Subscribe_rmq queue_ops 7 0 t b;
        (t, b, ms, r2) \<leftarrow> Subscribe_rmq queue_ops 7 0 t b;
        Some (isl r1, isl r2, qb_readers b) } = Some (False, True, [])"
  by (simp add: Connect_rmq_def NewTransport_rmq_def broker_run_defs)

text \<open>A received version is before every version of the other packages, and versions are ordered as texts.\<close>

lemma simple_version_order: "Compare_simple v (OtherVersion w) = - 1" "Compare_simple ''10'' (SimpleVersion ''9'') = - 1"
  by (simp add: Compare_simple_def) code_simp

section \<open>Witnesses\<close>

definition fed_broker :: "(string \<times> string) list \<Rightarrow> queue_broker" where
  "fed_broker msgs = \<lparr>qb_next = 3, qb_conns = [0], qb_channels = [(1, 0)], qb_readers = [(2, 1, ''tag'')], qb_ready = msgs, qb_unacked = []\<rparr>"

definition up_transport :: rmq_transport where
  "up_transport = \<lparr>rt_cfg = Some plain_config, rt_conn = Some 0, rt_channel = Some 1, rt_closed = False, rt_consumerTag = ''tag'', rt_closeCh = False\<rparr>"

definition plain_je :: json_event_with_version where
  "plain_je = \<lparr>jv_Event = \<lparr>je_ID = ''e1'', je_Type = ''T'', je_AggregateID = ''a'', je_Data = GString ''d'', je_Metadata = None\<rparr>, jv_Version = ''4''\<rparr>"

definition plain_event :: event_with_version where
  "plain_event = \<lparr>ev_Event = Some (SimpleEvent (jv_Event plain_je)), ev_Version = Some (IntegerCursor 4)\<rparr>"

definition failing :: "nat rmq_handler" where "failing h xs = Some (h + 1, Some (ErrorString ''busy''))"


definition collecting :: "received_event list rmq_handler" where "collecting h xs = Some (h @ xs, None)"

lemma plain_event_json: "toJSONEventWithVersion plain_event = Some plain_je"
  by code_simp


end
