(* ===== verification/Metrics.thy ===== *)
theory Metrics
  imports Sync_Manager
begin

text \<open>
  The metrics collector (observability/metrics: collector.go, adapter.go). The Prometheus client is not modelled: a metric is its description, and a method of the collector gives the calls it
  makes on metrics, in order. What the client demands of such calls is the predicate \<open>call_ok\<close>: the metric is registered, there is a value for each of its labels, the operation belongs to
  its kind, and a counter is not decreased; the client panics otherwise. Durations are in nanoseconds and amounts integers; the client turns them into floating point numbers.

  The adapter that the sync manager calls is run on the trace of the manager (\<open>collected\<close>), which gives what the collector counts of a sync.
\<close>

section \<open>Metrics\<close>

datatype metric_kind = CounterVec | HistogramVec | GaugeVec

record metric =
  mt_Subsystem :: string
  mt_Name :: string
  mt_Kind :: metric_kind
  mt_Labels :: "string list"

definition metric_of :: "metric_kind \<Rightarrow> string \<Rightarrow> string \<Rightarrow> string list \<Rightarrow> metric" where
  "metric_of kind subsystem name labels = \<lparr>mt_Subsystem = subsystem, mt_Name = name, mt_Kind = kind, mt_Labels = labels\<rparr>"

definition fq_name :: "metric \<Rightarrow> string" where
  "fq_name m = ''synckit_'' @ mt_Subsystem m @ ''_'' @ mt_Name m"

definition syncOpsTotal :: metric where "syncOpsTotal = metric_of CounterVec ''sync'' ''operations_total'' [''operation'', ''status'']"
definition syncOpsDuration :: metric where "syncOpsDuration = metric_of HistogramVec ''sync'' ''operation_duration_seconds'' [''operation'']"
definition syncEventsProcessed :: metric where "syncEventsProcessed = metric_of CounterVec ''sync'' ''events_processed_total'' [''operation'', ''direction'']"
definition syncConflictsTotal :: metric where "syncConflictsTotal = metric_of CounterVec ''sync'' ''conflicts_total'' [''strategy'', ''resolution'']"
definition syncErrorsTotal :: metric where "syncErrorsTotal = metric_of CounterVec ''sync'' ''errors_total'' [''operation'', ''error_type'']"
definition syncLastSuccess :: metric where "syncLastSuccess = metric_of GaugeVec ''sync'' ''last_success_timestamp'' [''operation'']"
definition transportOpsTotal :: metric where "transportOpsTotal = metric_of CounterVec ''transport'' ''operations_total'' [''protocol'', ''operation'', ''status'']"
definition transportDuration :: metric where "transportDuration = metric_of HistogramVec ''transport'' ''operation_duration_seconds'' [''protocol'', ''operation'']"
definition transportBytesTotal :: metric where "transportBytesTotal = metric_of CounterVec ''transport'' ''bytes_total'' [''protocol'', ''direction'']"
definition transportErrorsTotal :: metric where "transportErrorsTotal = metric_of CounterVec ''transport'' ''errors_total'' [''protocol'', ''operation'', ''error_type'']"
definition storageOpsTotal :: metric where "storageOpsTotal = metric_of CounterVec ''storage'' ''operations_total'' [''backend'', ''operation'', ''status'']"
definition storageDuration :: metric where "storageDuration = metric_of HistogramVec ''storage'' ''operation_duration_seconds'' [''backend'', ''operation'']"
definition storageErrorsTotal :: metric where "storageErrorsTotal = metric_of CounterVec ''storage'' ''errors_total'' [''backend'', ''operation'', ''error_type'']"
definition conflictOpsTotal :: metric where "conflictOpsTotal = metric_of CounterVec ''conflict'' ''operations_total'' [''strategy'', ''result'']"
definition conflictDuration :: metric where "conflictDuration = metric_of HistogramVec ''conflict'' ''resolution_duration_seconds'' [''strategy'']"
definition projectionOpsTotal :: metric where "projectionOpsTotal = metric_of CounterVec ''projection'' ''operations_total'' [''projection'', ''operation'', ''status'']"
definition projectionOpsDuration :: metric where "projectionOpsDuration = metric_of HistogramVec ''projection'' ''operation_duration_seconds'' [''projection'', ''operation'']"
definition projectionEventsProcessed :: metric where "projectionEventsProcessed = metric_of CounterVec ''projection'' ''events_processed_total'' [''projection'', ''operation'']"
definition projectionBatchSize :: metric where "projectionBatchSize = metric_of HistogramVec ''projection'' ''batch_size'' [''projection'']"
definition projectionErrorsTotal :: metric where "projectionErrorsTotal = metric_of CounterVec ''projection'' ''errors_total'' [''projection'', ''operation'', ''error_type'']"
definition projectionLastSuccess :: metric where "projectionLastSuccess = metric_of GaugeVec ''projection'' ''last_success_timestamp'' [''projection'', ''operation'']"
definition projectionLag :: metric where "projectionLag = metric_of GaugeVec ''projection'' ''lag_seconds'' [''projection'']"
definition projectionHealth :: metric where "projectionHealth = metric_of GaugeVec ''projection'' ''health'' [''projection'']"
definition activeConnections :: metric where "activeConnections = metric_of GaugeVec ''system'' ''active_connections'' []"
definition memoryUsage :: metric where "memoryUsage = metric_of GaugeVec ''system'' ''memory_usage_bytes'' []"
definition goroutines :: metric where "goroutines = metric_of GaugeVec ''system'' ''goroutines'' []"

text \<open>The order in which the metrics are registered.\<close>

definition registerMetrics :: "metric list" where
  "registerMetrics = [syncOpsTotal, syncOpsDuration, syncEventsProcessed, syncConflictsTotal, syncErrorsTotal, syncLastSuccess,
     transportOpsTotal, transportDuration, transportBytesTotal, transportErrorsTotal,
     storageOpsTotal, storageDuration, storageErrorsTotal,
     conflictOpsTotal, conflictDuration,
     projectionOpsTotal, projectionOpsDuration, projectionEventsProcessed, projectionBatchSize, projectionErrorsTotal, projectionLastSuccess, projectionLag, projectionHealth,
     activeConnections, memoryUsage, goroutines]"

text \<open>The constant labels of all metrics: the service, and those of the options, which may overwrite it.\<close>

definition constant_labels :: "string \<Rightarrow> (string, string) fmap list \<Rightarrow> (string, string) fmap" where
  "constant_labels serviceName opts = foldl (++\<^sub>f) (fmupd ''service'' serviceName fmempty) opts"

section \<open>Calls\<close>

datatype prom_op = Inc | Add int | Observe int | SetTo int | SetToCurrentTime

record prom_call =
  pc_Metric :: metric
  pc_Values :: "string list"
  pc_Op :: prom_op

definition on :: "metric \<Rightarrow> string list \<Rightarrow> prom_op \<Rightarrow> prom_call" where
  "on m vals p = \<lparr>pc_Metric = m, pc_Values = vals, pc_Op = p\<rparr>"

definition status_of :: "bool \<Rightarrow> string" where
  "status_of success = (if success then ''success'' else ''error'')"

definition RecordSyncOperation :: "string \<Rightarrow> int \<Rightarrow> bool \<Rightarrow> int \<Rightarrow> int \<Rightarrow> int \<Rightarrow> prom_call list" where
  "RecordSyncOperation operation duration success eventsPushed eventsPulled conflictsResolved =
     [on syncOpsTotal [operation, status_of success] Inc, on syncOpsDuration [operation] (Observe duration)]
     @ (if eventsPushed > 0 then [on syncEventsProcessed [operation, ''push''] (Add eventsPushed)] else [])
     @ (if eventsPulled > 0 then [on syncEventsProcessed [operation, ''pull''] (Add eventsPulled)] else [])
     @ (if conflictsResolved > 0 then [on syncConflictsTotal [''auto'', ''resolved''] (Add conflictsResolved)] else [])
     @ (if success then [on syncLastSuccess [operation] SetToCurrentTime] else [])"

definition RecordSyncError :: "string \<Rightarrow> string \<Rightarrow> prom_call list" where
  "RecordSyncError operation errorType = [on syncErrorsTotal [operation, errorType] Inc]"

definition direction_of :: "string \<Rightarrow> string" where
  "direction_of operation = (if operation = ''push'' then ''send'' else if operation = ''pull'' then ''receive'' else ''unknown'')"

definition RecordTransportOperation :: "string \<Rightarrow> string \<Rightarrow> int \<Rightarrow> bool \<Rightarrow> int \<Rightarrow> prom_call list" where
  "RecordTransportOperation protocol operation duration success bytesTransferred =
     [on transportOpsTotal [protocol, operation, status_of success] Inc, on transportDuration [protocol, operation] (Observe duration)]
     @ (if bytesTransferred > 0 then [on transportBytesTotal [protocol, direction_of operation] (Add bytesTransferred)] else [])"

definition RecordTransportError :: "string \<Rightarrow> string \<Rightarrow> string \<Rightarrow> prom_call list" where
  "RecordTransportError protocol operation errorType = [on transportErrorsTotal [protocol, operation, errorType] Inc]"

definition RecordStorageOperation :: "string \<Rightarrow> string \<Rightarrow> int \<Rightarrow> bool \<Rightarrow> prom_call list" where
  "RecordStorageOperation backend operation duration success =
     [on storageOpsTotal [backend, operation, status_of success] Inc, on storageDuration [backend, operation] (Observe duration)]"

definition RecordStorageError :: "string \<Rightarrow> string \<Rightarrow> string \<Rightarrow> prom_call list" where
  "RecordStorageError backend operation errorType = [on storageErrorsTotal [backend, operation, errorType] Inc]"

definition RecordConflictResolution :: "string \<Rightarrow> int \<Rightarrow> string \<Rightarrow> prom_call list" where
  "RecordConflictResolution strategy duration result = [on conflictOpsTotal [strategy, result] Inc, on conflictDuration [strategy] (Observe duration)]"

definition RecordProjectionOperation :: "string \<Rightarrow> string \<Rightarrow> int \<Rightarrow> bool \<Rightarrow> int \<Rightarrow> prom_call list" where
  "RecordProjectionOperation projection operation duration success eventsProcessed =
     [on projectionOpsTotal [projection, operation, status_of success] Inc, on projectionOpsDuration [projection, operation] (Observe duration)]
     @ (if eventsProcessed > 0 then [on projectionEventsProcessed [projection, operation] (Add eventsProcessed), on projectionBatchSize [projection] (Observe eventsProcessed)] else [])
     @ (if success then [on projectionLastSuccess [projection, operation] SetToCurrentTime, on projectionHealth [projection] (SetTo 1)] else [])"

definition RecordProjectionError :: "string \<Rightarrow> string \<Rightarrow> string \<Rightarrow> prom_call list" where
  "RecordProjectionError projection operation errorType =
     [on projectionErrorsTotal [projection, operation, errorType] Inc, on projectionHealth [projection] (SetTo 0)]"

definition UpdateProjectionLag :: "string \<Rightarrow> int \<Rightarrow> prom_call list" where
  "UpdateProjectionLag projection lag = [on projectionLag [projection] (SetTo lag)]"

definition SetProjectionHealth :: "string \<Rightarrow> bool \<Rightarrow> prom_call list" where
  "SetProjectionHealth projection healthy = [on projectionHealth [projection] (SetTo (if healthy then 1 else 0))]"

definition SetActiveConnections :: "int \<Rightarrow> prom_call list" where "SetActiveConnections n = [on activeConnections [] (SetTo n)]"
definition SetMemoryUsage :: "int \<Rightarrow> prom_call list" where "SetMemoryUsage bytes = [on memoryUsage [] (SetTo bytes)]"
definition SetGoroutines :: "int \<Rightarrow> prom_call list" where "SetGoroutines n = [on goroutines [] (SetTo n)]"

section \<open>The adapter\<close>

text \<open>The adapter reports every duration as that of a success, and events and conflicts as successful operations of no duration.\<close>

definition adapter_RecordSyncDuration :: "string \<Rightarrow> int \<Rightarrow> prom_call list" where
  "adapter_RecordSyncDuration operation duration = RecordSyncOperation operation duration True 0 0 0"

definition adapter_RecordSyncEvents :: "int \<Rightarrow> int \<Rightarrow> prom_call list" where
  "adapter_RecordSyncEvents pushed pulled = RecordSyncOperation ''sync'' 0 True pushed pulled 0"

definition adapter_RecordSyncErrors :: "string \<Rightarrow> string \<Rightarrow> prom_call list" where
  "adapter_RecordSyncErrors operation errorType = RecordSyncError operation errorType"

definition adapter_RecordConflicts :: "int \<Rightarrow> prom_call list" where
  "adapter_RecordConflicts resolved = RecordSyncOperation ''sync'' 0 True 0 0 resolved"

text \<open>The methods of \<open>ExtendedMetricsCollector\<close>, as the extended adapter dispatches them.\<close>

datatype collector_method =
    SyncDuration string int
  | SyncEvents int int
  | SyncErrors string string
  | Conflicts int
  | SyncOperationComplete string int bool int int int
  | TransportOperation string string int bool int
  | StorageOperation string string int bool
  | ConflictResolution string int string
  | ProjectionOperation string string int bool int
  | ProjectionError string string string
  | ProjectionLag string int
  | ProjectionHealth string bool
  | ActiveConnections int
  | MemoryUsage int
  | Goroutines int

fun extended_adapter :: "collector_method \<Rightarrow> prom_call list" where
  "extended_adapter (SyncDuration operation d) = adapter_RecordSyncDuration operation d"
| "extended_adapter (SyncEvents pushed pulled) = adapter_RecordSyncEvents pushed pulled"
| "extended_adapter (SyncErrors operation errorType) = adapter_RecordSyncErrors operation errorType"
| "extended_adapter (Conflicts resolved) = adapter_RecordConflicts resolved"
| "extended_adapter (SyncOperationComplete operation d success pushed pulled resolved) = RecordSyncOperation operation d success pushed pulled resolved"
| "extended_adapter (TransportOperation protocol operation d success bytes) = RecordTransportOperation protocol operation d success bytes"
| "extended_adapter (StorageOperation backend operation d success) = RecordStorageOperation backend operation d success"
| "extended_adapter (ConflictResolution strategy d result) = RecordConflictResolution strategy d result"
| "extended_adapter (ProjectionOperation projection operation d success n) = RecordProjectionOperation projection operation d success n"
| "extended_adapter (ProjectionError projection operation errorType) = RecordProjectionError projection operation errorType"
| "extended_adapter (ProjectionLag projection lag) = UpdateProjectionLag projection lag"
| "extended_adapter (ProjectionHealth projection healthy) = SetProjectionHealth projection healthy"
| "extended_adapter (ActiveConnections n) = SetActiveConnections n"
| "extended_adapter (MemoryUsage n) = SetMemoryUsage n"
| "extended_adapter (Goroutines n) = SetGoroutines n"

section \<open>Calls are well formed\<close>

definition op_fits :: "metric_kind \<Rightarrow> prom_op \<Rightarrow> bool" where
  "op_fits kind p = (case p of
       Inc \<Rightarrow> kind = CounterVec
     | Add n \<Rightarrow> kind = CounterVec \<and> 0 \<le> n
     | Observe n \<Rightarrow> kind = HistogramVec
     | SetTo n \<Rightarrow> kind = GaugeVec
     | SetToCurrentTime \<Rightarrow> kind = GaugeVec)"

definition call_ok :: "prom_call \<Rightarrow> bool" where
  "call_ok c \<longleftrightarrow> pc_Metric c \<in> set registerMetrics \<and> length (pc_Values c) = length (mt_Labels (pc_Metric c)) \<and> op_fits (mt_Kind (pc_Metric c)) (pc_Op c)"

lemmas sync_metric_defs = syncOpsTotal_def syncOpsDuration_def syncEventsProcessed_def syncConflictsTotal_def syncErrorsTotal_def syncLastSuccess_def metric_of_def
lemmas metric_defs = sync_metric_defs transportOpsTotal_def transportDuration_def transportBytesTotal_def transportErrorsTotal_def storageOpsTotal_def storageDuration_def storageErrorsTotal_def
  conflictOpsTotal_def conflictDuration_def projectionOpsTotal_def projectionOpsDuration_def projectionEventsProcessed_def projectionBatchSize_def projectionErrorsTotal_def
  projectionLastSuccess_def projectionLag_def projectionHealth_def activeConnections_def memoryUsage_def goroutines_def
lemmas record_defs = RecordSyncOperation_def RecordSyncError_def RecordTransportOperation_def RecordStorageOperation_def RecordConflictResolution_def RecordProjectionOperation_def
  RecordProjectionError_def UpdateProjectionLag_def SetProjectionHealth_def SetActiveConnections_def SetMemoryUsage_def SetGoroutines_def
  adapter_RecordSyncDuration_def adapter_RecordSyncEvents_def adapter_RecordSyncErrors_def adapter_RecordConflicts_def

lemma registered [simp]: "m \<in> set registerMetrics \<longleftrightarrow> m \<in> {syncOpsTotal, syncOpsDuration, syncEventsProcessed, syncConflictsTotal, syncErrorsTotal, syncLastSuccess,
     transportOpsTotal, transportDuration, transportBytesTotal, transportErrorsTotal, storageOpsTotal, storageDuration, storageErrorsTotal, conflictOpsTotal, conflictDuration,
     projectionOpsTotal, projectionOpsDuration, projectionEventsProcessed, projectionBatchSize, projectionErrorsTotal, projectionLastSuccess, projectionLag, projectionHealth,
     activeConnections, memoryUsage, goroutines}"
  by (simp add: registerMetrics_def)

lemma call_ok_on: "call_ok (on m vals p) \<longleftrightarrow> m \<in> set registerMetrics \<and> length vals = length (mt_Labels m) \<and> op_fits (mt_Kind m) p"
  by (simp add: call_ok_def on_def)

text \<open>No two metrics have the same full name, so a fresh registry accepts all of them.\<close>

lemma metric_names_distinct: "distinct (map fq_name registerMetrics)"
  by code_simp

lemma label_names_distinct: "list_all (\<lambda>m. distinct (''service'' # mt_Labels m)) registerMetrics"
  by code_simp


end
