(* ===== verification/Metrics_Properties.thy ===== *)
theory Metrics_Properties
  imports Metrics Sync_Properties
begin

text \<open>
  The sync manager with the metrics adapter: what the collector counts of a sync. The calls of the manager on its metrics collector are events of its trace; a weight of events that is zero for all but the events a
  sync reports its numbers with sums up along the trace, and the counters of the collector are such sums.
\<close>

section \<open>Counters\<close>

fun observed :: "trace_event \<Rightarrow> prom_call list" where
  "observed (RecordSyncDuration operation d) = adapter_RecordSyncDuration operation d"
| "observed (RecordSyncEvents pushed pulled) = adapter_RecordSyncEvents pushed pulled"
| "observed (RecordConflicts resolved) = adapter_RecordConflicts resolved"
| "observed (RecordSyncErrors operation errorType) = adapter_RecordSyncErrors operation errorType"
| "observed (NotifySubscriber h r) = []"
| "observed (MachineEffect e) = []"

definition collected :: "trace_event list \<Rightarrow> prom_call list" where
  "collected tr = concat (map observed tr)"

fun increase :: "prom_op \<Rightarrow> int" where
  "increase Inc = 1"
| "increase (Add n) = n"
| "increase _ = 0"

text \<open>By how much calls increase the counter of a metric for given label values.\<close>

definition counter :: "metric \<Rightarrow> string list \<Rightarrow> prom_call list \<Rightarrow> int" where
  "counter m vals calls = sum_list (map (\<lambda>c. if pc_Metric c = m \<and> pc_Values c = vals then increase (pc_Op c) else 0) calls)"

definition counted :: "metric \<Rightarrow> string list \<Rightarrow> trace_event \<Rightarrow> int" where
  "counted m vals e = counter m vals (observed e)"

definition weight :: "(trace_event \<Rightarrow> int) \<Rightarrow> ('s, 't) manager \<Rightarrow> int" where
  "weight f w = sum_list (map f (mg_trace w))"

lemma counter_append: "counter m vals (xs @ ys) = counter m vals xs + counter m vals ys"
  by (simp add: counter_def)

lemma counter_collected: "counter m vals (collected tr) = sum_list (map (counted m vals) tr)"
  by (induction tr) (simp_all add: collected_def counted_def counter_append, simp add: counter_def)

section \<open>What a sync reports\<close>

text \<open>Weights that see only the numbers of events and conflicts and the duration of whole syncs.\<close>

definition quiet :: "(trace_event \<Rightarrow> int) \<Rightarrow> bool" where
  "quiet f \<longleftrightarrow> (\<forall>a b. f (RecordSyncErrors a b) = 0) \<and> (\<forall>e. f (MachineEffect e) = 0) \<and> (\<forall>h r. f (NotifySubscriber h r) = 0)
     \<and> (\<forall>d. f (RecordSyncDuration ''push'' d) = 0) \<and> (\<forall>d. f (RecordSyncDuration ''pull'' d) = 0)"

lemma quietD [simp]:
  assumes "quiet f"
  shows "f (RecordSyncErrors a b) = 0" "f (MachineEffect e) = 0" "f (NotifySubscriber h r) = 0" "f (RecordSyncDuration ''push'' d) = 0" "f (RecordSyncDuration ''pull'' d) = 0"
  using assms by (simp_all add: quiet_def)

lemma weight_simps [simp]:
  "weight f (tick w) = weight f w" "weight f (emit es w) = weight f w + sum_list (map f es)"
  "weight f (w\<lparr>mg_transport := t\<rparr>) = weight f w" "weight f (w\<lparr>mg_store := st\<rparr>) = weight f w" "weight f (w\<lparr>mg_tick := k\<rparr>) = weight f w" "weight f (w\<lparr>mg_stateMachine := m\<rparr>) = weight f w"
  by (simp_all add: weight_def tick_def emit_def)

lemma machine_effects_quiet: "quiet f \<Longrightarrow> sum_list (map (f \<circ> MachineEffect) es) = 0"
  by (induction es) simp_all

lemma notify_weight: "quiet f \<Longrightarrow> weight f (notifySubscribers r w) = weight f w"
  by (simp add: notifySubscribers_def comp_def)

lemma sm_transition_weight: "quiet f \<Longrightarrow> sm_transition en w st md = (w', err) \<Longrightarrow> weight f w' = weight f w"
  by (auto simp: sm_transition_def machine_effects_quiet split: option.splits prod.splits)

lemma push_batches_weight:
  "push_batches en tops bs evs w r = Some (w', r', err) \<Longrightarrow> 0 \<le> EventsPushed r \<Longrightarrow> weight f w' = weight f w \<and> 0 \<le> EventsPushed r'"
proof (induction "length evs" arbitrary: evs w r rule: less_induct)
  case less
  show ?case
  proof (cases "evs = [] \<or> bs = 0 \<or> ctx_err en w \<noteq> None")
    case True
    then show ?thesis using less.prems by (auto simp: push_batches.simps split: option.splits if_splits)
  next
    case False
    then obtain t' e where p: "tr_Push tops (mg_transport (tick w)) (ctx_err en (tick w)) (take bs evs) = Some (t', e)"
      using less.prems(1) by (auto simp: push_batches.simps [of en tops bs evs] Let_def split: Option.bind_splits)
    show ?thesis
    proof (cases e)
      case None
      with False p less.prems(1) have "push_batches en tops bs (drop bs evs) (tick ((tick w)\<lparr>mg_transport := t'\<rparr>)) (r\<lparr>EventsPushed := EventsPushed r + int (length (take bs evs))\<rparr>) = Some (w', r', err)"
        by (auto simp: push_batches.simps [of en tops bs evs] Let_def)
      from less.hyps [OF _ this] False less.prems(2) show ?thesis by simp
    next
      case (Some x)
      then show ?thesis using False p less.prems by (auto simp: push_batches.simps [of en tops bs evs] Let_def)
    qed
  qed
qed

lemma push_body_weight:
  assumes "quiet f" and "push_body en sops tops w r = Some (w', r', err)" and "0 \<le> EventsPushed r"
  shows "weight f w' = weight f w \<and> 0 \<le> EventsPushed r'"
  using assms by (auto simp: push_body_def Let_def split: Option.bind_splits sum.splits if_splits prod.splits dest!: push_batches_weight)

lemma new_result_sel [simp]: "EventsPushed (Sync_Manager.new_result t) = 0" "EventsPulled (Sync_Manager.new_result t) = 0" "ConflictsResolved (Sync_Manager.new_result t) = 0" "Errors (Sync_Manager.new_result t) = []"
  by (simp_all add: Sync_Manager.new_result_def)

definition reported :: "(trace_event \<Rightarrow> int) \<Rightarrow> bool \<Rightarrow> trace_event \<Rightarrow> int" where
  "reported f b e = (if b then f e else 0)"

lemma push_weight:
  assumes "quiet f" and "push en sops tops w = Some (w', r, err)"
  shows "weight f w' = weight f w + reported f (EventsPushed r > 0) (RecordSyncEvents (EventsPushed r) 0)"
  using assms by (auto simp: push_def push_finish_def Let_def reported_def split: prod.splits dest!: push_body_weight [OF assms(1)])

lemma resolve_all_weight: "quiet f \<Longrightarrow> resolve_all en rv cs acc w = Some (w', x) \<Longrightarrow> weight f w' = weight f w"
  by (induction cs arbitrary: acc w) (auto simp: Let_def split: Option.bind_splits sum.splits)

lemma store_events_weight: "store_events en sops evs w r = Some (w', r', err) \<Longrightarrow> weight f w' = weight f w"
  by (induction evs arbitrary: w r) (auto simp: Let_def split: option.splits Option.bind_splits prod.splits)

lemma pull_store_weight: "pull_store en sops evs w r = Some (w', r', err) \<Longrightarrow> weight f w' = weight f w"
  by (auto simp: pull_store_def split: Option.bind_splits option.splits if_splits dest!: store_events_weight)

lemma pull_body_weight:
  assumes "quiet f" and "pull_body en sops tops w r = Some (w', r', err)"
  shows "weight f w' = weight f w"
proof -
  have "weight f w' = weight f w" if "pull_resolve en sops rv cs w r = Some (w', r', err)" for rv cs and w :: "('a, 'b) manager" and r w' r' err
    using that assms(1) by (auto simp: pull_resolve_def split: prod.splits option.splits Option.bind_splits sum.splits dest!: sm_transition_weight [OF assms(1)] resolve_all_weight [OF assms(1)] pull_store_weight [where f = f])
  then have "weight f w' = weight f w" if "pull_conflicts en sops v evs w r = Some (w', r', err)" for v evs and w :: "('a, 'b) manager" and r w' r' err
    using that assms(1) by (auto simp: pull_conflicts_def Let_def split: option.splits Option.bind_splits sum.splits if_splits dest!: pull_store_weight [where f = f])
  then show ?thesis using assms by (auto simp: pull_body_def Let_def split: Option.bind_splits sum.splits if_splits)
qed

lemma pull_weight:
  assumes "quiet f" and "pull en sops tops w = Some (w', r, err)"
  shows "weight f w' = weight f w + reported f (EventsPulled r > 0) (RecordSyncEvents 0 (EventsPulled r)) + reported f (ConflictsResolved r > 0) (RecordConflicts (ConflictsResolved r))"
  using assms by (auto simp: pull_def pull_finish_def Let_def reported_def split: prod.splits dest!: pull_body_weight [OF assms(1)])

lemma sync_tail_weight:
  assumes "sync_tail en sops w r = Some (w', r')"
  shows "weight f w' = weight f w \<and> EventsPushed r' = EventsPushed r \<and> EventsPulled r' = EventsPulled r \<and> ConflictsResolved r' = ConflictsResolved r \<and> (Errors r' = [] \<longrightarrow> Errors r = [])"
proof -
  have "weight f w1 = weight f w" if "runProjectionsAfterSync en w = (w1, e)" for w1 e
    using that by (auto simp: runProjectionsAfterSync_def split: option.splits if_splits prod.splits)
  then show ?thesis using assms
    by (auto simp: sync_tail_def sync_projections_def add_error_def split: prod.splits option.splits Option.bind_splits sum.splits if_splits)
qed

text \<open>The parts of a result, as the phases of a sync report them.\<close>

definition phases :: "(trace_event \<Rightarrow> int) \<Rightarrow> sync_result \<Rightarrow> int" where
  "phases f r = reported f (EventsPushed r > 0) (RecordSyncEvents (EventsPushed r) 0) + reported f (EventsPulled r > 0) (RecordSyncEvents 0 (EventsPulled r))
     + reported f (ConflictsResolved r > 0) (RecordConflicts (ConflictsResolved r))"

definition numberless :: "(trace_event \<Rightarrow> int) \<Rightarrow> bool" where
  "numberless f \<longleftrightarrow> (\<forall>a b. f (RecordSyncEvents a b) = 0) \<and> (\<forall>n. f (RecordConflicts n) = 0)"

lemma reported_numberless [simp]: "numberless f \<Longrightarrow> reported f b (RecordSyncEvents i j) = 0" "numberless f \<Longrightarrow> reported f b (RecordConflicts n) = 0" "reported f False e = 0"
  by (simp_all add: reported_def numberless_def)

lemma sync_push_weight:
  assumes "quiet f" and "sync_push en sops tops w r = Some (w', r')" and "EventsPushed r = 0"
  shows "(Errors r' = [] \<longrightarrow> Errors r = [] \<and> weight f w' - phases f r' = weight f w - phases f r) \<and> (numberless f \<longrightarrow> weight f w' = weight f w)"
proof (cases "PullOnly (mg_options w)")
  case True
  then show ?thesis using assms sync_tail_weight [of en sops w r w' r' f] by (simp add: sync_push_def phases_def)
next
  case False
  obtain w1 e where t: "sm_transition en w SyncPushing (md_of [(''operation'', GString ''push''), (''pull_only'', GBool False)]) = (w1, e)" by fastforce
  have w1: "weight f w1 = weight f w" by (rule sm_transition_weight [OF assms(1) t])
  show ?thesis
  proof (cases e)
    case (Some x)
    then show ?thesis using assms False t w1 by (auto simp: sync_push_def add_error_def)
  next
    case None
    then obtain w2 pr err where p: "push en sops tops w1 = Some (w2, pr, err)" "sync_tail en sops w2 (merge_push err pr r) = Some (w', r')"
      using assms(2) False t by (auto simp: sync_push_def split: Option.bind_splits)
    note push_weight [OF assms(1) p(1)] sync_tail_weight [OF p(2), of f]
    then show ?thesis using assms(3) w1 by (cases err) (auto simp: merge_push_def add_error_def phases_def)
  qed
qed

lemma sync_body_weight:
  assumes "quiet f" and "sync_body en sops tops w (Sync_Manager.new_result t) = Some (w', r)"
  shows "(Errors r = [] \<longrightarrow> weight f w' = weight f w + phases f r) \<and> (numberless f \<longrightarrow> weight f w' = weight f w)"
proof (cases "PushOnly (mg_options w)")
  case True
  then show ?thesis using assms sync_push_weight [OF assms(1), of en sops tops w "Sync_Manager.new_result t" w' r] by (auto simp: sync_body_def phases_def algebra_simps)
next
  case False
  obtain w1 e where tr: "sm_transition en w SyncPulling (md_of [(''operation'', GString ''pull''), (''push_only'', GBool False)]) = (w1, e)" by fastforce
  have w1: "weight f w1 = weight f w" by (rule sm_transition_weight [OF assms(1) tr])
  show ?thesis
  proof (cases e)
    case (Some x)
    then show ?thesis using assms False tr w1 by (auto simp: sync_body_def add_error_def)
  next
    case None
    then obtain w2 pr err where p: "pull en sops tops w1 = Some (w2, pr, err)" "sync_push en sops tops w2 (merge_pull err pr (Sync_Manager.new_result t)) = Some (w', r)"
      using assms(2) False tr by (auto simp: sync_body_def split: Option.bind_splits)
    have z: "EventsPushed (merge_pull err pr (Sync_Manager.new_result t)) = 0" by (cases err) (simp_all add: merge_pull_def add_error_def)
    note pull_weight [OF assms(1) p(1)] sync_push_weight [OF assms(1) p(2) z]
    then show ?thesis using w1 by (cases err) (auto simp: merge_pull_def add_error_def phases_def)
  qed
qed

lemma Sync_weight:
  assumes "quiet f" and "Sync en sops tops w = Some (w', Inr r)"
  shows "\<exists>d. (Errors r = [] \<longrightarrow> weight f w' = weight f w + phases f r + f (RecordSyncDuration ''full_sync'' d) + f (RecordSyncEvents (EventsPushed r) (EventsPulled r))
        + reported f (ConflictsResolved r > 0) (RecordConflicts (ConflictsResolved r)))
    \<and> (numberless f \<longrightarrow> weight f w' = weight f w + f (RecordSyncDuration ''full_sync'' d))"
proof -
  obtain w1 w2 r2 where s: "sm_transition en (tick w) SyncInitializing (md_of [(''operation'', GString ''full_sync''), (''started_at'', GString (rfc3339 en (time_Now en w)))]) = (w1, None)"
    "sync_body en sops tops (tick w1) (Sync_Manager.new_result (time_Now en w1)) = Some (w2, r2)" "sync_finish en (time_Now en w) w2 r2 = (w', r)"
    using assms(2) by (auto simp: Sync_def Let_def split: if_splits option.splits prod.splits Option.bind_splits)
  have w1: "weight f w1 = weight f w" using sm_transition_weight [OF assms(1) s(1)] by simp
  have tr: "weight f (fst (sm_transition en x st md)) = weight f x" for x :: "('a, 'b) manager" and st md
    by (cases "sm_transition en x st md") (auto dest: sm_transition_weight [OF assms(1)])
  have r: "EventsPushed r = EventsPushed r2" "EventsPulled r = EventsPulled r2" "ConflictsResolved r = ConflictsResolved r2" "Errors r = Errors r2"
    using s(3) by (auto simp: sync_finish_def Let_def)
  have "\<exists>d. weight f w' = weight f w2 + f (RecordSyncDuration ''full_sync'' d)
      + (if Errors r = [] then f (RecordSyncEvents (EventsPushed r) (EventsPulled r)) + reported f (ConflictsResolved r > 0) (RecordConflicts (ConflictsResolved r)) else 0)"
    using s(3) assms(1) unfolding r by (auto simp: sync_finish_def Let_def tr notify_weight reported_def)
  moreover have "phases f r = phases f r2" using r by (simp add: phases_def)
  ultimately show ?thesis using sync_body_weight [OF assms(1) s(2)] w1 r by (auto simp: numberless_def reported_def)
qed

section \<open>Numbers are not negative\<close>

definition counts_ok :: "sync_result \<Rightarrow> bool" where
  "counts_ok r \<longleftrightarrow> 0 \<le> EventsPushed r \<and> 0 \<le> EventsPulled r \<and> 0 \<le> ConflictsResolved r"

lemma counts_ok_simps [simp]: "counts_ok (r\<lparr>Duration := d\<rparr>) = counts_ok r" "counts_ok (r\<lparr>Errors := es\<rparr>) = counts_ok r" "counts_ok (r\<lparr>LocalVersion := v\<rparr>) = counts_ok r"
  "counts_ok (r\<lparr>RemoteVersion := v\<rparr>) = counts_ok r" "counts_ok (Sync_Manager.new_result t)" "counts_ok (add_error e r) = counts_ok r"
  by (simp_all add: counts_ok_def add_error_def)

lemma store_events_counts: "store_events en sops evs w r = Some (w', r', err) \<Longrightarrow> counts_ok r \<Longrightarrow> counts_ok r'"
proof (induction evs arbitrary: w r)
  case (Cons ev evs)
  have "counts_ok (r\<lparr>EventsPulled := EventsPulled r + 1\<rparr>)" using Cons.prems(2) by (simp add: counts_ok_def)
  then show ?case using Cons.prems by (auto simp: Let_def split: option.splits Option.bind_splits prod.splits dest: Cons.IH)
qed simp

lemma pull_store_counts: "pull_store en sops evs w r = Some (w', r', err) \<Longrightarrow> counts_ok r \<Longrightarrow> counts_ok r'"
  by (auto simp: pull_store_def split: Option.bind_splits option.splits if_splits dest!: store_events_counts)

lemma pull_counts:
  assumes "pull en sops tops w = Some (w', r, err)"
  shows "counts_ok r"
proof -
  have c: "counts_ok (r\<lparr>ConflictsResolved := int n\<rparr>)" if "counts_ok r" for r n using that by (simp add: counts_ok_def)
  have a: "counts_ok r'" if "pull_resolve en sops rv cs w r = Some (w', r', err)" "counts_ok r" for rv cs and w :: "('a, 'b) manager" and r w' r' err
    using that by (auto simp: pull_resolve_def split: prod.splits option.splits Option.bind_splits sum.splits dest!: pull_store_counts intro: c)
  have b: "counts_ok r'" if "pull_conflicts en sops v evs w r = Some (w', r', err)" "counts_ok r" for v evs and w :: "('a, 'b) manager" and r w' r' err
    using that by (auto simp: pull_conflicts_def Let_def split: option.splits Option.bind_splits sum.splits if_splits dest: pull_store_counts a)
  have "counts_ok r'" if "pull_body en sops tops w (Sync_Manager.new_result t) = Some (w', r', err)" for t and w :: "('a, 'b) manager" and w' r' err
    using that by (auto simp: pull_body_def Let_def split: Option.bind_splits sum.splits if_splits dest: b [OF _ counts_ok_simps(5)])
  then show ?thesis using assms by (auto simp: pull_def pull_finish_def Let_def split: prod.splits)
qed

lemma push_counts:
  assumes "push en sops tops w = Some (w', r, err)"
  shows "0 \<le> EventsPushed r"
proof -
  have q: "quiet (\<lambda>e. 0)" by (simp add: quiet_def)
  show ?thesis using assms by (auto simp: push_def push_finish_def Let_def split: prod.splits dest!: push_body_weight [OF q])
qed

lemma Sync_counts:
  assumes "Sync en sops tops w = Some (w', Inr r)"
  shows "counts_ok r"
proof -
  have tail: "counts_ok r'" if "sync_tail en sops w r = Some (w', r')" "counts_ok r" for w w' :: "('a, 'b) manager" and r r'
    using sync_tail_weight [OF that(1), of undefined] that(2) by (simp add: counts_ok_def)
  have merge: "counts_ok (merge_push err pr r)" if "counts_ok r" "0 \<le> EventsPushed pr" for r pr err using that by (cases err) (simp_all add: merge_push_def, simp add: counts_ok_def)
  have merge': "counts_ok (merge_pull err pr r)" if "counts_ok r" "counts_ok pr" for r pr err using that by (cases err) (simp_all add: merge_pull_def, simp add: counts_ok_def)
  have sp: "counts_ok r'" if "sync_push en sops tops w r = Some (w', r')" "counts_ok r" for w w' :: "('a, 'b) manager" and r r'
    using that by (auto simp: sync_push_def split: if_splits prod.splits option.splits Option.bind_splits intro: tail merge dest!: push_counts)
  have "counts_ok r'" if "sync_body en sops tops w (Sync_Manager.new_result t) = Some (w', r')" for w w' :: "('a, 'b) manager" and t r'
    using that by (auto simp: sync_body_def split: if_splits prod.splits option.splits Option.bind_splits intro: sp [OF _ merge' [OF counts_ok_simps(5)]] sp [OF _ counts_ok_simps(5)] dest!: pull_counts)
  then show ?thesis using assms by (auto simp: Sync_def sync_finish_def Let_def split: if_splits option.splits prod.splits Option.bind_splits)
qed

section \<open>A sync and its counters\<close>

lemma counted_quiet: "quiet (counted syncOpsTotal [''full_sync'', st])" "quiet (counted syncEventsProcessed [''sync'', dir])" "quiet (counted syncConflictsTotal vals)"
  by (simp_all add: quiet_def counted_def counter_def record_defs on_def status_of_def sync_metric_defs)

lemma counted_values:
  "counted syncOpsTotal [''full_sync'', st] (RecordSyncDuration ''full_sync'' d) = (if st = ''success'' then 1 else 0)"
  "counted syncEventsProcessed vals (RecordSyncDuration ''full_sync'' d) = 0" "counted syncConflictsTotal vals (RecordSyncDuration ''full_sync'' d) = 0"
  "counted syncEventsProcessed [''sync'', ''push''] (RecordSyncEvents p q) = max 0 p" "counted syncEventsProcessed [''sync'', ''pull''] (RecordSyncEvents p q) = max 0 q"
  "counted syncConflictsTotal vals (RecordSyncEvents p q) = 0" "counted syncEventsProcessed vals (RecordConflicts n) = 0"
  "counted syncConflictsTotal [''auto'', ''resolved''] (RecordConflicts n) = max 0 n"
  by (simp_all add: counted_def counter_def record_defs on_def status_of_def sync_metric_defs max_def)

lemma counted_numberless: "numberless (counted syncOpsTotal [''full_sync'', st])"
  by (simp add: numberless_def counted_def counter_def record_defs on_def sync_metric_defs)

text \<open>By how much the counters of the collector grow from one state of a manager to another.\<close>

definition growth :: "metric \<Rightarrow> string list \<Rightarrow> ('s, 't) manager \<Rightarrow> ('s, 't) manager \<Rightarrow> int" where
  "growth m vals w w' = counter m vals (collected (mg_trace w')) - counter m vals (collected (mg_trace w))"

lemma growth_weight: "growth m vals w w' = weight (counted m vals) w' - weight (counted m vals) w"
  by (simp add: growth_def counter_collected weight_def)

text \<open>
  C30: what the collector counts of a sync. Every sync that runs, whether it succeeds or fails, is counted once as a successful full\_sync and never as a failed one; and the counters of pushed events, of
  pulled events and of resolved conflicts grow by twice the numbers of the result of a successful sync.
\<close>

theorem sync_counted:
  assumes "Sync en sops tops w = Some (w', Inr r)"
  shows "growth syncOpsTotal [''full_sync'', ''success''] w w' = 1 \<and> growth syncOpsTotal [''full_sync'', ''error''] w w' = 0
    \<and> (if Errors r = [] then growth syncEventsProcessed [''sync'', ''push''] w w' = 2 * EventsPushed r \<and> growth syncEventsProcessed [''sync'', ''pull''] w w' = 2 * EventsPulled r
        \<and> growth syncConflictsTotal [''auto'', ''resolved''] w w' = 2 * ConflictsResolved r else True)"
proof -
  note c = Sync_counts [OF assms, unfolded counts_ok_def]
  have ops: "growth syncOpsTotal [''full_sync'', st] w w' = (if st = ''success'' then 1 else 0)" for st
    using Sync_weight [OF counted_quiet(1) assms] counted_numberless [of st] by (auto simp: growth_weight counted_values)
  have "growth syncEventsProcessed [''sync'', ''push''] w w' = 2 * EventsPushed r" "growth syncEventsProcessed [''sync'', ''pull''] w w' = 2 * EventsPulled r"
    "growth syncConflictsTotal [''auto'', ''resolved''] w w' = 2 * ConflictsResolved r" if "Errors r = []"
    using Sync_weight [OF counted_quiet(2) assms] Sync_weight [OF counted_quiet(3) assms] that c
    by (force simp: growth_weight counted_values phases_def reported_def)+
  then show ?thesis using ops by simp
qed

lemma returned_result: "(case x of Some (w, Inr r) \<Rightarrow> P r | _ \<Rightarrow> False) \<Longrightarrow> \<exists>w r. x = Some (w, Inr r) \<and> P r"
  by (cases x; cases "snd (the x)") (auto split: prod.splits)

lemma sample_sync_succeeds: "(case Sync sample_env memstore_ops loop_ops (sample_manager default_options) of
    Some (w, Inr r) \<Rightarrow> Errors r = [] \<and> EventsPulled r = 1 | _ \<Rightarrow> False)"
  by code_simp

theorem sync_counted_witness:
  "\<exists>w' r. Sync sample_env memstore_ops loop_ops (sample_manager default_options) = Some (w', Inr r)
     \<and> growth syncOpsTotal [''full_sync'', ''success''] (sample_manager default_options) w' = 1 \<and> EventsPulled r = 1 \<and> growth syncEventsProcessed [''sync'', ''pull''] (sample_manager default_options) w' = 2"
proof -
  obtain w' r where s: "Sync sample_env memstore_ops loop_ops (sample_manager default_options) = Some (w', Inr r)" "Errors r = []" "EventsPulled r = 1"
    using returned_result [OF sample_sync_succeeds] by blast
  show ?thesis using s sync_counted [OF s(1)] by auto
qed

end
