(* ===== verification/Projection_Metrics.thy ===== *)
theory Projection_Metrics
  imports Metrics
begin

text \<open>
  The metrics of the projection package (projection/metrics.go). They have the descriptions of the projection metrics of the general collector and are recorded in the same way, so the
  calls of \<open>Metrics\<close> are shared; the default instance is a global variable, \<open>None\<close> until it is initialised.
\<close>

section \<open>Metrics\<close>

definition projection_registerMetrics :: "metric list" where
  "projection_registerMetrics = [projectionOpsTotal, projectionOpsDuration, projectionEventsProcessed, projectionBatchSize, projectionErrorsTotal, projectionLastSuccess, projectionLag, projectionHealth]"

definition pm_RecordProjectionOperation :: "string \<Rightarrow> string \<Rightarrow> int \<Rightarrow> bool \<Rightarrow> int \<Rightarrow> prom_call list" where
  "pm_RecordProjectionOperation projection operation duration success eventsProcessed =
     [on projectionOpsTotal [projection, operation, status_of success] Inc, on projectionOpsDuration [projection, operation] (Observe duration)]
     @ (if eventsProcessed > 0 then [on projectionEventsProcessed [projection, operation] (Add eventsProcessed), on projectionBatchSize [projection] (Observe eventsProcessed)] else [])
     @ (if success then [on projectionLastSuccess [projection, operation] SetToCurrentTime, on projectionHealth [projection] (SetTo 1)] else [])"

definition pm_RecordProjectionError :: "string \<Rightarrow> string \<Rightarrow> string \<Rightarrow> prom_call list" where
  "pm_RecordProjectionError projection operation errorType = [on projectionErrorsTotal [projection, operation, errorType] Inc, on projectionHealth [projection] (SetTo 0)]"

definition pm_UpdateProjectionLag :: "string \<Rightarrow> int \<Rightarrow> prom_call list" where
  "pm_UpdateProjectionLag projection lag = [on projectionLag [projection] (SetTo lag)]"

definition pm_SetProjectionHealth :: "string \<Rightarrow> bool \<Rightarrow> prom_call list" where
  "pm_SetProjectionHealth projection healthy = [on projectionHealth [projection] (SetTo (if healthy then 1 else 0))]"

text \<open>Which values the debugging helper returns: they do not depend on what was recorded.\<close>

definition GetProjectionMetrics :: "string \<Rightarrow> (string \<times> int) list" where
  "GetProjectionMetrics projection = [(''operations_total'', 0), (''errors_total'', 0), (''lag_seconds'', 0), (''health'', 1)]"

text \<open>Resetting deletes the series of a projection: a series goes when its value for the first label, which is the projection in all metrics, is the projection.\<close>

type_synonym series = "metric \<times> string list"

definition ResetProjectionMetrics :: "string \<Rightarrow> series list \<Rightarrow> series list" where
  "ResetProjectionMetrics projection all = filter (\<lambda>(m, vals). \<not> (m \<in> set projection_registerMetrics \<and> vals \<noteq> [] \<and> hd vals = projection)) all"

section \<open>The default instance\<close>

definition through_default :: "'i option \<Rightarrow> prom_call list \<Rightarrow> prom_call list" where
  "through_default instance_opt calls = (case instance_opt of None \<Rightarrow> [] | Some _ \<Rightarrow> calls)"

definition default_RecordProjectionApplied :: "'i option \<Rightarrow> string \<Rightarrow> int \<Rightarrow> int \<Rightarrow> string \<Rightarrow> prom_call list" where
  "default_RecordProjectionApplied i name n duration operation = through_default i (pm_RecordProjectionOperation name operation duration True n)"

definition default_RecordProjectionError :: "'i option \<Rightarrow> string \<Rightarrow> string \<Rightarrow> prom_call list" where
  "default_RecordProjectionError i name errorType = through_default i (pm_RecordProjectionError name ''unknown'' errorType)"

definition default_UpdateProjectionLag :: "'i option \<Rightarrow> string \<Rightarrow> int \<Rightarrow> prom_call list" where
  "default_UpdateProjectionLag i name lag = through_default i (pm_UpdateProjectionLag name lag)"

definition default_SetProjectionHealth :: "'i option \<Rightarrow> string \<Rightarrow> bool \<Rightarrow> prom_call list" where
  "default_SetProjectionHealth i name healthy = through_default i (pm_SetProjectionHealth name healthy)"

section \<open>Properties\<close>

text \<open>The collector of the package makes the calls of the general collector, all of them well formed.\<close>

lemma same_as_collector:
  "pm_RecordProjectionOperation p oper d s n = extended_adapter (ProjectionOperation p oper d s n)" "pm_RecordProjectionError p oper t = extended_adapter (ProjectionError p oper t)"
  "pm_UpdateProjectionLag p l = extended_adapter (ProjectionLag p l)" "pm_SetProjectionHealth p h = extended_adapter (ProjectionHealth p h)"
  by (simp_all add: pm_RecordProjectionOperation_def RecordProjectionOperation_def pm_RecordProjectionError_def RecordProjectionError_def
      pm_UpdateProjectionLag_def UpdateProjectionLag_def pm_SetProjectionHealth_def SetProjectionHealth_def)

text \<open>All names are in use by the general collector, so a registry cannot serve both: the client panics at the second registration.\<close>

lemma shared_registry_conflict: "set (map fq_name projection_registerMetrics) \<subseteq> set (map fq_name registerMetrics)"
  by (auto simp: projection_registerMetrics_def registerMetrics_def)

text \<open>Health is that of the last record: up after a success, down after an error.\<close>

definition health_after :: "string \<Rightarrow> int option \<Rightarrow> prom_call list \<Rightarrow> int option" where
  "health_after p h calls = foldl (\<lambda>h c. if pc_Metric c = projectionHealth \<and> pc_Values c = [p] then (case pc_Op c of SetTo n \<Rightarrow> Some n | _ \<Rightarrow> h) else h) h calls"

lemma health_follows_last:
  "health_after p h (pm_RecordProjectionOperation p oper d True n) = Some 1" "health_after p h (pm_RecordProjectionError p oper t) = Some 0"
  "health_after p h (pm_RecordProjectionOperation p oper d False n) = h"
  by (simp_all add: health_after_def pm_RecordProjectionOperation_def pm_RecordProjectionError_def on_def metric_defs)

lemma reset_keeps_others: "x \<in> set (ResetProjectionMetrics p xs) \<longleftrightarrow> x \<in> set xs \<and> (fst x \<in> set projection_registerMetrics \<longrightarrow> snd x = [] \<or> hd (snd x) \<noteq> p)"
  by (auto simp: ResetProjectionMetrics_def)

end
