(* ===== verification/Logging.thy ===== *)
theory Logging
  imports Http_Types
begin

text \<open>
  Logging (logging/config.go, logger.go): the configuration from the environment, levels, loggers and the global logger. What a logger writes is a list of records: level, message and attributes; the format of the output, the times and the position in the source are left out. \<open>log/slog\<close> writes a record when its level is at least that of the
  logger.

  Shown: what the environment variables decide, and that the defaults the code has for environments are never used.
\<close>

section \<open>Configuration\<close>

record log_config =
  lc_Level :: string
  lc_Format :: string
  lc_AddSource :: bool
  lc_Environment :: string

definition DefaultConfig_log :: log_config where
  "DefaultConfig_log = \<lparr>lc_Level = ''info'', lc_Format = ''json'', lc_AddSource = True, lc_Environment = ''dev''\<rparr>"

definition EnvDevelopment :: string where "EnvDevelopment = ''development''"
definition EnvProduction :: string where "EnvProduction = ''production''"
definition EnvTest :: string where "EnvTest = ''test''"

text \<open>The defaults of an environment for what is not set.\<close>

definition env_defaults :: "string \<Rightarrow> string \<Rightarrow> bool \<Rightarrow> log_config \<Rightarrow> log_config" where
  "env_defaults format level addSource c =
     (let c = (if lc_Format c = [] then c\<lparr>lc_Format := format\<rparr> else c);
          c = (if lc_Level c = [] then c\<lparr>lc_Level := level\<rparr> else c)
      in c\<lparr>lc_AddSource := addSource\<rparr>)"

definition GetConfigFromEnv :: "(string \<Rightarrow> string) \<Rightarrow> log_config" where
  "GetConfigFromEnv getenv =
     (let c = DefaultConfig_log;
          c = (if getenv ''LOG_LEVEL'' \<noteq> [] then c\<lparr>lc_Level := to_lower (getenv ''LOG_LEVEL'')\<rparr> else c);
          c = (if getenv ''LOG_FORMAT'' \<noteq> [] then c\<lparr>lc_Format := to_lower (getenv ''LOG_FORMAT'')\<rparr> else c);
          c = (if getenv ''ENVIRONMENT'' \<noteq> [] then c\<lparr>lc_Environment := to_lower (getenv ''ENVIRONMENT'')\<rparr> else c);
          c = (if getenv ''LOG_ADD_SOURCE'' \<noteq> [] then c\<lparr>lc_AddSource := (to_lower (getenv ''LOG_ADD_SOURCE'') = ''true'')\<rparr> else c)
      in if lc_Environment c = EnvProduction then env_defaults ''json'' ''info'' False c
         else if lc_Environment c = EnvTest then env_defaults ''text'' ''debug'' False c
         else if lc_Environment c = EnvDevelopment then env_defaults ''text'' ''debug'' True c
         else c)"

section \<open>Levels\<close>

definition LevelDebug :: int where "LevelDebug = - 4"
definition LevelInfo :: int where "LevelInfo = 0"
definition LevelWarn :: int where "LevelWarn = 4"
definition LevelError :: int where "LevelError = 8"
definition LevelTrace :: int where "LevelTrace = LevelDebug - 4"
definition LevelFatal :: int where "LevelFatal = LevelError + 4"

lemmas level_defs = LevelDebug_def LevelInfo_def LevelWarn_def LevelError_def LevelTrace_def LevelFatal_def

definition with_offset :: "string \<Rightarrow> int \<Rightarrow> string" where
  "with_offset base d = (if d = 0 then base else base @ (if d > 0 then ''+'' else []) @ int_dec d)"

definition slog_Level_String :: "int \<Rightarrow> string" where
  "slog_Level_String l =
     (if l < LevelInfo then with_offset ''DEBUG'' (l - LevelDebug)
      else if l < LevelWarn then with_offset ''INFO'' (l - LevelInfo)
      else if l < LevelError then with_offset ''WARN'' (l - LevelWarn)
      else with_offset ''ERROR'' (l - LevelError))"

definition CustomLevel_String :: "int \<Rightarrow> string" where
  "CustomLevel_String l = (if l = LevelTrace then ''TRACE'' else if l = LevelFatal then ''FATAL'' else slog_Level_String l)"

definition config_level :: "string \<Rightarrow> int" where
  "config_level s = (if s = ''debug'' then LevelDebug else if s = ''info'' then LevelInfo else if s = ''warn'' then LevelWarn else if s = ''error'' then LevelError else LevelInfo)"

text \<open>The level of a \<open>DynamicLevelVar\<close> after the call, and what the call returns.\<close>

definition SetFromString :: "int \<Rightarrow> string \<Rightarrow> int \<times> bool" where
  "SetFromString d level =
     (let l = to_lower level in
      if l = ''trace'' then (LevelTrace, True)
      else if l = ''debug'' then (LevelDebug, True)
      else if l = ''info'' then (LevelInfo, True)
      else if l = ''warn'' \<or> l = ''warning'' then (LevelWarn, True)
      else if l = ''error'' then (LevelError, True)
      else if l = ''fatal'' then (LevelFatal, True)
      else (d, False))"

section \<open>Loggers\<close>

text \<open>The value of an attribute. A \<open>SyncErrorValuer\<close> is turned into a group when the record is written; ranging over its metadata takes the order as an argument.\<close>

datatype log_value = LText string | LBool bool | LAny go_any | LGroup "(string \<times> log_value) list" | LValuer go_error

type_synonym attr = "string \<times> log_value"

definition SyncErrorValuer_LogValue :: "string list \<Rightarrow> go_error \<Rightarrow> log_value go" where
  "SyncErrorValuer_LogValue order e = do {
     inner \<leftarrow> se_Err e;
     Some (LGroup ([(''operation'', LText (se_Op e)), (''component'', LText (se_Component e)), (''code'', LText (se_Code e)), (''kind'', LText (se_Kind e)),
         (''retryable'', LBool (se_Retryable e)), (''error'', LText (Error_text inner))]
       @ (case se_Metadata e of None \<Rightarrow> [] | Some m \<Rightarrow> [(''metadata'', LGroup (List.map_filter (\<lambda>k. map_option (\<lambda>v. (k, LAny v)) (fmlookup m k)) order))]))) }"

record logger =
  lg_Level :: int
  lg_AddSource :: bool
  lg_Text :: bool
  lg_Attrs :: "attr list"

record log_record =
  lr_Level :: int
  lr_Message :: string
  lr_Attrs :: "attr list"

definition text_format :: "log_config \<Rightarrow> bool" where
  "text_format c \<longleftrightarrow> lc_Format c = ''text'' \<or> lc_Environment c = ''dev''"

definition NewLogger :: "log_config \<Rightarrow> logger" where
  "NewLogger c = \<lparr>lg_Level = config_level (lc_Level c), lg_AddSource = lc_AddSource c, lg_Text = text_format c, lg_Attrs = []\<rparr>"

text \<open>The logger of \<open>NewLoggerWithDynamicLevel\<close> follows its level variable, which starts at Info whatever the configuration says.\<close>

definition NewLoggerWithDynamicLevel :: "log_config \<Rightarrow> logger \<times> int" where
  "NewLoggerWithDynamicLevel c = (\<lparr>lg_Level = LevelInfo, lg_AddSource = lc_AddSource c, lg_Text = text_format c, lg_Attrs = []\<rparr>, LevelInfo)"

definition Init_logging :: "log_config \<Rightarrow> logger option" where
  "Init_logging c = Some (NewLogger c)"

definition Default_logger :: "logger option \<Rightarrow> logger option \<times> logger" where
  "Default_logger g = (case g of None \<Rightarrow> (Init_logging DefaultConfig_log, NewLogger DefaultConfig_log) | Some l \<Rightarrow> (g, l))"

definition With :: "logger \<Rightarrow> attr list \<Rightarrow> logger" where
  "With l as = l\<lparr>lg_Attrs := lg_Attrs l @ as\<rparr>"

definition WithOperation :: "logger \<Rightarrow> string \<Rightarrow> logger" where "WithOperation l op = With l [(''operation'', LText op)]"
definition WithComponent :: "logger \<Rightarrow> string \<Rightarrow> logger" where "WithComponent l c = With l [(''component'', LText c)]"

text \<open>\<open>ctx key\<close> is the text of a value of the context, if there is one.\<close>

definition WithContext :: "logger \<Rightarrow> (string \<Rightarrow> string option) \<Rightarrow> attr list \<Rightarrow> logger" where
  "WithContext l ctx as = With l ((case ctx ''request_id'' of None \<Rightarrow> [] | Some v \<Rightarrow> [(''request_id'', LText v)]) @ (case ctx ''trace_id'' of None \<Rightarrow> [] | Some v \<Rightarrow> [(''trace_id'', LText v)]) @ as)"

definition Log :: "logger \<Rightarrow> int \<Rightarrow> string \<Rightarrow> attr list \<Rightarrow> log_record list" where
  "Log l level msg as = (if level \<ge> lg_Level l then [\<lparr>lr_Level = level, lr_Message = msg, lr_Attrs = lg_Attrs l @ as\<rparr>] else [])"

text \<open>The error, the caller when the runtime knows it, and the attributes. A nil error panics.\<close>

definition error_attr :: "go_error \<Rightarrow> attr" where
  "error_attr e = (case e of SyncError _ _ _ _ _ _ _ \<Rightarrow> (''sync_error'', LValuer e) | _ \<Rightarrow> (''error'', LText (Error_text e)))"

definition LogError :: "logger \<Rightarrow> attr option \<Rightarrow> go_error option \<Rightarrow> string \<Rightarrow> attr list \<Rightarrow> log_record list go" where
  "LogError l caller err msg as = do {
     e \<leftarrow> err;
     Some (Log l LevelError msg ([error_attr e] @ (case caller of None \<Rightarrow> [] | Some a \<Rightarrow> [a]) @ as)) }"

text \<open>\<open>fn\<close> has a state; \<open>start\<close> and \<open>duration\<close> are the texts of the times.\<close>

definition LogOperation ::
  "logger \<Rightarrow> string \<Rightarrow> string \<Rightarrow> string \<Rightarrow> string \<Rightarrow> attr option \<Rightarrow> ('w \<Rightarrow> ('w \<times> go_error option) go) \<Rightarrow> 'w \<Rightarrow> ('w \<times> log_record list \<times> go_error option) go" where
  "LogOperation l op component start duration caller fn w = do {
     let opLogger = WithComponent (WithOperation l op) component;
     let started = Log opLogger LevelInfo ''operation started'' [(''start_time'', LText start)];
     (w', err) \<leftarrow> fn w;
     (case err of
        Some e \<Rightarrow> do {
          failed \<leftarrow> LogError opLogger caller (Some e) ''operation failed'' [(''duration'', LText duration), (''success'', LBool False)];
          Some (w', started @ failed, Some e) }
      | None \<Rightarrow> Some (w', started @ Log opLogger LevelInfo ''operation completed'' [(''duration'', LText duration), (''success'', LBool True)], None)) }"

section \<open>Properties\<close>

lemma to_lower_empty [simp]: "to_lower s = [] \<longleftrightarrow> s = []"
  by (simp add: to_lower_def)

text \<open>
  What the environment decides. Level and format are those of their variables in lower case, or info and json in every environment: the debug level and the text format that the code has for tests and development are
  never used. In the three named environments \<open>ENVIRONMENT\<close> alone decides whether the source is added, against \<open>LOG_ADD_SOURCE\<close>; in all others the variable decides, and it is on by default.
\<close>

theorem env_config_exact:
  "GetConfigFromEnv getenv =
     (let env = (if getenv ''ENVIRONMENT'' = [] then ''dev'' else to_lower (getenv ''ENVIRONMENT'')) in
      \<lparr>lc_Level = (if getenv ''LOG_LEVEL'' = [] then ''info'' else to_lower (getenv ''LOG_LEVEL'')),
       lc_Format = (if getenv ''LOG_FORMAT'' = [] then ''json'' else to_lower (getenv ''LOG_FORMAT'')),
       lc_AddSource = (if env \<in> {EnvProduction, EnvTest} then False else if env = EnvDevelopment then True
         else getenv ''LOG_ADD_SOURCE'' = [] \<or> to_lower (getenv ''LOG_ADD_SOURCE'') = ''true''),
       lc_Environment = env\<rparr>)"
  by (simp add: GetConfigFromEnv_def env_defaults_def DefaultConfig_log_def EnvProduction_def EnvTest_def EnvDevelopment_def Let_def)

text \<open>A level that only \<open>SetFromString\<close> knows is Info for a configured logger, without a message.\<close>

lemma unknown_levels_are_info: "config_level ''warning'' = LevelInfo" "config_level ''trace'' = LevelInfo" "config_level ''fatal'' = LevelInfo" "SetFromString d ''warning'' = (LevelWarn, True)"
  by code_simp+

lemma SetFromString_roundtrip: "SetFromString d (CustomLevel_String l) = (l, True)" if "l \<in> {LevelTrace, LevelDebug, LevelInfo, LevelWarn, LevelError, LevelFatal}"
  using that by (elim insertE emptyE; hypsubst; code_simp)

lemma dynamic_logger_ignores_level: "lg_Level (fst (NewLoggerWithDynamicLevel c)) = LevelInfo"
  by (simp add: NewLoggerWithDynamicLevel_def)

text \<open>An operation is run once whatever the level, its error is returned unchanged, and its failure is logged unless the level is above Error.\<close>

lemma LogOperation_returns:
  assumes "fn w = Some (w', err)"
  shows "\<exists>rs. LogOperation l op component start duration caller fn w = Some (w', rs, err)
    \<and> (err \<noteq> None \<longrightarrow> lg_Level l \<le> LevelError \<longrightarrow> lr_Level (last rs) = LevelError \<and> lr_Message (last rs) = ''operation failed'')"
  using assms by (cases err) (simp_all add: LogOperation_def LogError_def Log_def WithOperation_def WithComponent_def With_def Let_def)

end
