(* ===== verification/Peer_Transport.thy ===== *)
theory Peer_Transport
  imports Prelude Sync_Errors
begin

text \<open>
  The peer transport of transport/transport.go: its errors and \<open>MockTransport\<close>, which queues what is sent and hands it out again. The lock makes every method atomic. A nil map of peers reads as
  empty. Shown: in every sequence of calls the messages that were received and those in the queue are the accepted messages in their order, until the transport is closed.
\<close>

section \<open>The transport\<close>

definition ErrTransportClosed :: go_error where "ErrTransportClosed = ErrorString ''transport is closed''"
definition ErrConnectionFailed :: go_error where "ErrConnectionFailed = ErrorString ''connection failed''"
definition ErrInvalidPeer :: go_error where "ErrInvalidPeer = ErrorString ''invalid peer''"
definition ErrTransportTimeout :: go_error where "ErrTransportTimeout = ErrorString ''transport operation timeout''"
definition ErrPeerNotFound :: go_error where "ErrPeerNotFound = ErrorString ''peer not found''"

record peer_message =
  pm_Peer :: string
  pm_Data :: string
  pm_Timestamp :: int

record mock_transport =
  mk_peers :: "(string, bool) gomap"
  mk_messageQueue :: "peer_message list"
  mk_closed :: bool

definition NewMockTransport :: mock_transport where
  "NewMockTransport = \<lparr>mk_peers = Some fmempty, mk_messageQueue = [], mk_closed = False\<rparr>"

definition peer_known :: "mock_transport \<Rightarrow> string \<Rightarrow> bool" where
  "peer_known t peer = (gm_lookup (mk_peers t) peer = Some True)"

definition Connect_mock :: "mock_transport \<Rightarrow> go_error option \<Rightarrow> string \<Rightarrow> mock_transport \<times> go_error option" where
  "Connect_mock t ctx peer =
     (if peer = [] then (t, Some ErrInvalidPeer)
      else if mk_closed t then (t, Some ErrTransportClosed)
      else if ctx \<noteq> None then (t, ctx)
      else (t\<lparr>mk_peers := Some (fmupd peer True (gm_fmap (mk_peers t)))\<rparr>, None))"

definition Disconnect_mock :: "mock_transport \<Rightarrow> go_error option \<Rightarrow> string \<Rightarrow> mock_transport \<times> go_error option" where
  "Disconnect_mock t ctx peer =
     (if peer = [] then (t, Some ErrInvalidPeer)
      else if mk_closed t then (t, Some ErrTransportClosed)
      else if ctx \<noteq> None then (t, ctx)
      else (t\<lparr>mk_peers := map_option (fmdrop peer) (mk_peers t)\<rparr>, None))"

definition Send_mock :: "mock_transport \<Rightarrow> go_error option \<Rightarrow> int \<Rightarrow> string \<Rightarrow> string \<Rightarrow> mock_transport \<times> go_error option" where
  "Send_mock t ctx now peer data =
     (if peer = [] then (t, Some ErrInvalidPeer)
      else if mk_closed t then (t, Some ErrTransportClosed)
      else if \<not> peer_known t peer then (t, Some ErrPeerNotFound)
      else if ctx \<noteq> None then (t, ctx)
      else (t\<lparr>mk_messageQueue := mk_messageQueue t @ [\<lparr>pm_Peer = peer, pm_Data = data, pm_Timestamp = now\<rparr>]\<rparr>, None))"

text \<open>An empty queue is answered with an empty peer, no data and no error.\<close>

definition Receive_mock :: "mock_transport \<Rightarrow> go_error option \<Rightarrow> mock_transport \<times> (go_error + string \<times> string option)" where
  "Receive_mock t ctx =
     (if mk_closed t then (t, Inl ErrTransportClosed)
      else (case ctx of
        Some e \<Rightarrow> (t, Inl e)
      | None \<Rightarrow> (case mk_messageQueue t of
          m # ms \<Rightarrow> (t\<lparr>mk_messageQueue := ms\<rparr>, Inr (pm_Peer m, Some (pm_Data m)))
        | [] \<Rightarrow> (t, Inr ([], None)))))"

definition IsConnected_mock :: "mock_transport \<Rightarrow> string \<Rightarrow> bool" where
  "IsConnected_mock t peer = (if mk_closed t then False else peer_known t peer)"

definition GetConnectedPeers :: "string list \<Rightarrow> mock_transport \<Rightarrow> string list" where
  "GetConnectedPeers order t = (if mk_closed t then [] else filter (\<lambda>p. gm_lookup (mk_peers t) p \<noteq> None) order)"

definition Close_mock :: "mock_transport \<Rightarrow> mock_transport \<times> go_error option" where
  "Close_mock t = (t\<lparr>mk_closed := True, mk_peers := None, mk_messageQueue := []\<rparr>, None)"

section \<open>Sequences of calls\<close>

datatype peer_call = ConnectPeer string | DisconnectPeer string | SendTo int string string | ReceiveAny | CloseAll

text \<open>A run keeps the accepted and the received messages; every call has the state of its context.\<close>

record peer_run =
  pr_transport :: mock_transport
  pr_accepted :: "(string \<times> string) list"
  pr_received :: "(string \<times> string) list"

fun run_call :: "go_error option \<times> peer_call \<Rightarrow> peer_run \<Rightarrow> peer_run" where
  "run_call (ctx, ConnectPeer p) s = s\<lparr>pr_transport := fst (Connect_mock (pr_transport s) ctx p)\<rparr>"
| "run_call (ctx, DisconnectPeer p) s = s\<lparr>pr_transport := fst (Disconnect_mock (pr_transport s) ctx p)\<rparr>"
| "run_call (ctx, SendTo now p d) s = (case Send_mock (pr_transport s) ctx now p d of
     (t, None) \<Rightarrow> s\<lparr>pr_transport := t, pr_accepted := pr_accepted s @ [(p, d)]\<rparr>
   | (t, Some _) \<Rightarrow> s\<lparr>pr_transport := t\<rparr>)"
| "run_call (ctx, ReceiveAny) s = (case Receive_mock (pr_transport s) ctx of
     (t, Inr (p, Some d)) \<Rightarrow> s\<lparr>pr_transport := t, pr_received := pr_received s @ [(p, d)]\<rparr>
   | (t, _) \<Rightarrow> s\<lparr>pr_transport := t\<rparr>)"
| "run_call (ctx, CloseAll) s = s\<lparr>pr_transport := fst (Close_mock (pr_transport s))\<rparr>"

definition run_calls :: "(go_error option \<times> peer_call) list \<Rightarrow> peer_run" where
  "run_calls cs = foldl (\<lambda>s c. run_call c s) \<lparr>pr_transport = NewMockTransport, pr_accepted = [], pr_received = []\<rparr> cs"

definition queued :: "mock_transport \<Rightarrow> (string \<times> string) list" where
  "queued t = map (\<lambda>m. (pm_Peer m, pm_Data m)) (mk_messageQueue t)"

definition fifo :: "peer_run \<Rightarrow> bool" where
  "fifo s \<longleftrightarrow> (if mk_closed (pr_transport s) then (\<exists>lost. pr_accepted s = pr_received s @ lost) \<and> mk_messageQueue (pr_transport s) = []
     else pr_accepted s = pr_received s @ queued (pr_transport s))"

lemma run_call_fifo: "fifo s \<Longrightarrow> fifo (run_call c s)"
proof (induction c s rule: run_call.induct)
  case (1 ctx p s)
  then show ?case by (simp add: fifo_def Connect_mock_def queued_def)
next
  case (2 ctx p s)
  then show ?case by (simp add: fifo_def Disconnect_mock_def queued_def)
next
  case (3 ctx now p d s)
  then show ?case by (auto simp: fifo_def Send_mock_def queued_def)
next
  case (4 ctx s)
  then show ?case by (auto simp: fifo_def Receive_mock_def queued_def split: option.splits list.splits)
next
  case (5 ctx s)
  then show ?case by (auto simp: fifo_def Close_mock_def split: if_splits)
qed

text \<open>
  Messages are received in the order they were accepted, each at most once, and as long as the transport is open none is lost.
\<close>

theorem peer_messages_in_order: "fifo (run_calls cs)"
proof -
  have "fifo (foldl (\<lambda>s c. run_call c s) s cs)" if "fifo s" for s using that by (induction cs arbitrary: s) (simp_all add: run_call_fifo)
  then show ?thesis by (simp add: run_calls_def) (simp add: fifo_def NewMockTransport_def queued_def)
qed

text \<open>A closed transport refuses every call with an error, and stays closed.\<close>

lemma closed_refuses_peers:
  assumes "mk_closed t" and "peer \<noteq> []"
  shows "Connect_mock t ctx peer = (t, Some ErrTransportClosed)" "Disconnect_mock t ctx peer = (t, Some ErrTransportClosed)" "Send_mock t ctx now peer data = (t, Some ErrTransportClosed)"
    "Receive_mock t ctx = (t, Inl ErrTransportClosed)" "\<not> IsConnected_mock t peer"
  using assms by (simp_all add: Connect_mock_def Disconnect_mock_def Send_mock_def Receive_mock_def IsConnected_mock_def)

end
