(* ===== verification/Spec2Isabelle.thy ===== *)
theory Spec2Isabelle
  imports Composite Sync_Outcomes Versioned_Store Replication Projection Transport_State Stateful_Resolver Timeouts Memento Http_Properties
    Sse_Properties Postgres_Properties Pg_Listener Stateful_Realtime Builder Rule_Config_Properties
    Paging_Properties Health_Http Http_Middleware Rabbitmq_Properties Metrics_Properties Projection_Metrics Logging Peer_Transport
begin

text \<open>
  A verification development for go-sync-kit, a Go library that synchronises logs of events between nodes.

  \<^bold>\<open>The program.\<close> A node keeps its events in an event store (src/storage) and runs a sync manager
  (src/synckit/manager.go). A sync asks the transport (src/transport) for events after the node's latest version, finds
  conflicts between local and remote events, has a conflict resolver (src/synckit/resolver.go, composite.go,
  stateful_resolver.go) decide them, stores the outcome, and pushes local events to the transport in batches. Versions
  (src/cursor, src/version) order events: integer cursors totally, vector cursors and vector clocks partially. State machines
  (src/synckit/statemachine) record the phase of a sync, of a transport connection and of a conflict resolution.
  Projections (src/projection) build read models from the log of a store. The HTTP transport (src/transport/httptransport)
  connects a client, which is a transport, with a server in front of a store.

  \<^bold>\<open>The theories and the code they model.\<close>

  \<^descr>[Prelude, Go\_Values] what the code uses of Go: 64-bit words, panics, maps with unspecified iteration order, values of interface type,
    decimal numerals, times and durations.
  \<^descr>[Sync\_Errors] src/errors: error values, \<open>Error()\<close>, \<open>errors.Is\<close> and \<open>errors.As\<close>, the builder \<open>E\<close>.
  \<^descr>[Vector\_Clock, Json\_Text] src/version/vector\_clock.go: clocks as finite maps with limits on nodes, names and counters, and the JSON text of
    a clock. Lemmas: \<open>Merge\<close> is the least upper bound, \<open>Compare\<close> decides the causal order, replicas that merge the same clocks converge.
  \<^descr>[Versions, Events, Interfaces] the \<open>Version\<close> interface over all its implementations (src/cursor, src/synckit/types), events and conflicts,
    the interfaces of stores and transports as records of operations, and the locale \<open>event_store\<close> with the laws of a store.
  \<^descr>[Mem\_Store, Versioned\_Store] src/storage/memstore/memstore.go and src/version/store\_decorator.go. Lemmas: the index agrees with the log, a stored event is
    what the next load returns, both stores satisfy \<open>event_store\<close>.
  \<^descr>[Resolvers, Composite, Stateful\_Resolver, Memento] src/synckit/spec.go, resolver.go, resolvers.go, composite.go, stateful\_resolver.go, memento.go, observer.go.
    Lemmas: the first matching rule decides; rule groups flatten to one dynamic resolver; the stateful, the auditing and the observing resolver return what the
    plain one returns; a panic in a rule leaves the stateful resolver blocked.
  \<^descr>[State\_Machine, Sync\_State, Transport\_State, Conflict\_Lifecycle, Conflict\_Workflow, Observability, Timeouts] src/synckit/statemachine and src/synckit/sync\_state.go:
    the generic machine with history, observers and persistence; the three machines built on it; workflows with their audit trails; hooks and adapters; state timeouts.
    Lemmas: the history of a machine is a bounded suffix of a legal run, and what holds in every interleaving of notifications and timers.
  \<^descr>[Sync\_Manager, Sync\_Properties, Sync\_Outcomes] src/synckit/manager.go and sync.go: construction, \<open>Sync\<close>, push, pull, conflict detection and resolution,
    retry, automatic sync, closing. Lemmas: every accepted sync ends in idle, what a push sends and a pull stores, which errors are retried, and the cases in which
    events are lost.
  \<^descr>[Mem\_Chan, Replication] src/transport/memchan/memchan.go over a heap of channels with the interleavings of callers and subscriber goroutines, and two managers
    connected by it.
  \<^descr>[Projection] src/projection/runner.go, interfaces.go and badger/offsets.go: each event is applied once and in order, and the offset follows.
  \<^descr>[Json\_Decode, Cursor\_Wire] the JSON decoder as far as cursors need it; src/cursor/cursor.go: codec registry, wire cursors with limits. Round trips.
  \<^descr>[Http\_Wire, Http\_Types, Idempotency, Http\_Server, Http\_Client, Http\_Sync, Http\_Properties] src/transport/httptransport: limiting readers, options and messages, the
    tracker of idempotency keys, all endpoints, both clients, and client and server connected by a network that delivers.
  \<^descr>[Sse\_Transport, Sse\_Properties] src/transport/sse: the server loop, interleaved with stores, and the client with its line scanner and reconnection. Lemmas: a
    stream has sent exactly the events after its start, each once and in order.
  \<^descr>[Sql\_Database, Sql\_Reference] what the SQL stores use of a database: the operations as a record, the laws of transactions, queries and commits as the
    locales \<open>sql_database\<close>, \<open>sql_sure_commit\<close> and \<open>sql_single_writer\<close>, and a reference database that satisfies them.
  \<^descr>[Sqlite\_Store, Sqlite\_Properties, Postgres\_Store, Postgres\_Properties, Pg\_Listener] src/storage/sqlite/store.go, src/storage/postgres/store.go and listener.go: the text
    of all statements, transactions with their error paths, loads, notifications. Lemmas: loads return exactly the matching committed rows, batches are atomic, the
    SQLite store satisfies \<open>event_store\<close>, and the cases in which a store blocks or a reader misses events.
  \<^descr>[Realtime, Realtime\_Properties, Stateful\_Realtime] src/synckit/realtime.go and stateful\_realtime.go: the handler, monitor and poller goroutines as threads that interleave with
    calls, notifications, timers and cancelled contexts, and the transport state machine around them. Lemmas: stopping is safe and ends the loops, disabling the stateful manager is
    final, and the races in which the fallback polling crashes or stays off.
  \<^descr>[Builder] src/synckit/builder.go, manager\_options.go, canonical\_config.go, node.go and node\_presets.go. Lemmas: what holds of every manager that is built, and the
    canonical configuration against the list of options it stands for.
  \<^descr>[Rule\_Config, Rule\_Config\_Properties] src/synckit/config.go: loading, validating and watching rule configurations, and resolvers from them. Lemmas: loads are atomic and keep
    the configuration well-formed, and a configured resolver decides as a search through the configuration.
  \<^descr>[Cursor\_Paging, Paging\_Properties] src/storage/sqlite/pull.go and src/transport/httptransport/cursor.go: paging by sequence number and by vector cursor, with client and server of
    the endpoint. What the queries return is the locale \<open>paging_database\<close>, interpreted on a database of rows. Lemmas: the pages of a client add up to the table, and a page and the rows
    beyond its cursor partition the rows that were asked for.
  \<^descr>[Http\_Middleware] src/transport/httptransport/middleware and wire\_format.go, src/synckit/codec/codec.go. Lemmas: which requests pass a chain and what the handler sees of
    them, and the round trip of events through codecs.
  \<^descr>[Health, Health\_Builtin, Health\_Http] src/observability/health and src/storage/storage.go: the checker, the checks, the endpoints, and the key-value storage one of the checks
    tests (locale \<open>kv_storage\<close>). Lemmas: the status of a run is that of its checks in order, what the probes answer, and that panicking checks count as healthy.
  \<^descr>[Rabbitmq, Rabbitmq\_Properties] src/transport/rabbitmq: configuration, topology, publishing and consumers, whose goroutines interleave with calls and with the broker. The broker is the
    locale \<open>amqp_broker\<close>, extended to \<open>amqp_queue\<close> by the order of deliveries, and interpreted on a broker with one queue. Lemmas: no message is lost, pushed events reach a handler in order.
  \<^descr>[Metrics, Metrics\_Properties] src/observability/metrics/collector.go and adapter.go: the metrics and the calls that record them, and the adapter run on the trace of the sync manager.
    Lemmas: calls fit the metrics, and what is counted of a sync. \<open>Projection_Metrics\<close> has src/projection/metrics.go, which makes the same calls.
  \<^descr>[Logging] src/logging: configuration from the environment, levels, loggers and their records.
  \<^descr>[Peer\_Transport] src/transport/transport.go: a transport that queues messages, which are received in the order they were accepted.

  \<^bold>\<open>How state and effects correspond.\<close> A struct is a record with the fields of the source that influence behaviour; an operation takes the state and
  returns the new one. A panic is \<open>None\<close> in a result of type \<open>'a go\<close>; an error is a value \<open>go_error\<close>, and
  a call that returns a value or an error gives a sum. Mutexes make the operations of a component atomic, so an operation is one step; goroutines
  that run between the operations are steps of an inductive relation (\<open>Mem_Chan\<close>, \<open>Transport_State\<close>, \<open>Timeouts\<close>, \<open>Sse_Transport\<close>, \<open>Realtime\<close>, \<open>Stateful_Realtime\<close>, \<open>Rabbitmq\<close>). What the
  program receives from outside is an argument: clock readings, random identifiers, the result of \<open>ctx.Err()\<close> at each poll, the order of
  a range loop over a map. Calls on user code that only observe (hooks, metrics) are recorded in lists, in order.

  \<^bold>\<open>Bounds and partial functions.\<close> Counters and sequence numbers are 64-bit words; where a theorem needs room below the wrap-around the hypothesis says so
  (\<open>memstore_room k\<close>: room for \<open>k\<close> more events). The loop of the projection runner is a partial function into \<open>option\<close> and shown to return over the memory store.
  The retry loop of the manager recurses on the attempts that are left, and all other loops are structural or have a termination proof. The
  HTTP pulls are bounded by the hundred events a page holds; \<open>http_pull_rounds\<close> counts the rounds a log needs.

  \<^bold>\<open>Code outside the repository.\<close> Parameters, with hypotheses where a property needs them: the JSON form of a value of interface type, gzip, the
  network, the key-value database under the offset store, user rules, handlers and projectors, SQL databases and the PostgreSQL driver, the notifier of the real-time mode, the decoding of configuration files, HMAC-SHA256 and token validators, event codecs, what the systems tested by health checks answer, the RabbitMQ client and broker, the Prometheus client.

  \<^bold>\<open>Not modelled.\<close> The format of log output, tracing spans, floating point delays and rates, tracing, the clients and exporters of metrics, examples, test helpers and package documentation.
\<close>

end
